(* ===== verification/Prelude.thy ===== *)
theory Prelude
  imports Main "HOL-Library.Word" "HOL-Library.Monad_Syntax"
begin

unbundle bit_operations_syntax

text \<open>
  Shared vocabulary of the development: the machine types of the C code, array access that
  fails where C has undefined behaviour, counted loops, overwriting a slice of a buffer, and
  the integer denoted by a big-endian sequence of words.

  Convention used everywhere: a function of type \<open>\<dots> \<Rightarrow> 'a option\<close> translates C code that may
  run into undefined behaviour or abort (a null or out-of-bounds access, a failed
  \<open>assert\<close>); \<open>None\<close> is that outcome. Status codes returned by the code are ordinary values.
\<close>

section \<open>Types and named collections\<close>

type_synonym u8 = "8 word"
type_synonym u16 = "16 word"
type_synonym u32 = "32 word"
type_synonym u64 = "64 word"

named_theorems ser_simps \<open>what each serialization routine does to a state with enough room or input\<close>
named_theorems env_simps \<open>documented results of the external functions\<close>

section \<open>Arrays\<close>

definition arr_get :: "'a list \<Rightarrow> nat \<Rightarrow> 'a option" where
  "arr_get xs i = (if i < length xs then Some (xs ! i) else None)"

definition arr_set :: "'a list \<Rightarrow> nat \<Rightarrow> 'a \<Rightarrow> 'a list option" where
  "arr_set xs i v = (if i < length xs then Some (xs[i := v]) else None)"

lemma arr_get_Some [simp]: "arr_get xs i = Some x \<longleftrightarrow> i < length xs \<and> x = xs ! i"
  by (auto simp: arr_get_def)

lemma arr_get_in [simp]: "i < length xs \<Longrightarrow> arr_get xs i = Some (xs ! i)"
  by (simp add: arr_get_def)

lemma arr_get_out [simp]: "length xs \<le> i \<Longrightarrow> arr_get xs i = None"
  by (simp add: arr_get_def)

lemma arr_set_in [simp]: "i < length xs \<Longrightarrow> arr_set xs i v = Some (xs[i := v])"
  by (simp add: arr_set_def)

lemma arr_set_out [simp]: "length xs \<le> i \<Longrightarrow> arr_set xs i v = None"
  by (simp add: arr_set_def)

lemma arr_set_Some: "arr_set xs i v = Some ys \<longleftrightarrow> i < length xs \<and> ys = xs[i := v]"
  by (auto simp: arr_set_def)

section \<open>Counted loops\<close>

text \<open>
  \<open>loop n f s\<close> is the C loop \<open>for (i = 0; i < n; i++) s = f(i, s)\<close>, stopping at the first
  undefined behaviour; \<open>floop\<close> is the same loop with a body that cannot fail.
\<close>

primrec loop :: "nat \<Rightarrow> (nat \<Rightarrow> 's \<Rightarrow> 's option) \<Rightarrow> 's \<Rightarrow> 's option" where
  "loop 0 f s = Some s"
| "loop (Suc n) f s = loop n f s \<bind> f n"

primrec floop :: "nat \<Rightarrow> (nat \<Rightarrow> 's \<Rightarrow> 's) \<Rightarrow> 's \<Rightarrow> 's" where
  "floop 0 f s = s"
| "floop (Suc n) f s = f n (floop n f s)"

lemma loop_floop:
  assumes "\<And>i. i < n \<Longrightarrow> f i (floop i g s) = Some (g i (floop i g s))"
  shows "loop n f s = Some (floop n g s)"
  using assms by (induction n) auto

lemma loop_cong: "(\<And>i s. i < n \<Longrightarrow> f i s = g i s) \<Longrightarrow> loop n f s = loop n g s"
  by (induction n) (auto intro!: Option.bind_cong)

lemma floop_cong: "(\<And>i s. i < n \<Longrightarrow> f i s = g i s) \<Longrightarrow> floop n f s = floop n g s"
  by (induction n) auto

lemma loop_invariant:
  assumes "loop n f s = Some t" and "P 0 s"
    and "\<And>i s t. i < n \<Longrightarrow> P i s \<Longrightarrow> f i s = Some t \<Longrightarrow> P (Suc i) t"
  shows "P n t"
  using assms
proof (induction n arbitrary: t)
  case 0
  then show ?case by simp
next
  case (Suc n)
  from Suc.prems(1) obtain u where u: "loop n f s = Some u" "f n u = Some t"
    by (auto simp: bind_eq_Some_conv)
  have "P n u"
    using u(1) Suc.prems(2) Suc.prems(3) by (rule Suc.IH) auto
  with u(2) Suc.prems(3) show ?case by blast
qed

lemma loop_total:
  assumes "P 0 s"
    and "\<And>i s. i < n \<Longrightarrow> P i s \<Longrightarrow> \<exists>t. f i s = Some t \<and> P (Suc i) t"
  shows "\<exists>t. loop n f s = Some t \<and> P n t"
  using assms
proof (induction n)
  case 0
  then show ?case by simp
next
  case (Suc n)
  have "\<exists>u. loop n f s = Some u \<and> P n u"
    using Suc.prems(1) Suc.prems(2) by (rule Suc.IH) auto
  then obtain u where "loop n f s = Some u" and "P n u" by blast
  with Suc.prems(2) [of n u] show ?case by auto
qed

lemma floop_invariant:
  assumes "P 0 s" and "\<And>i s. i < n \<Longrightarrow> P i s \<Longrightarrow> P (Suc i) (f i s)"
  shows "P n (floop n f s)"
  using assms by (induction n) auto

text \<open>A loop that fills an array, one entry per iteration.\<close>

lemma floop_fill:
  "n \<le> length xs \<Longrightarrow> floop n (\<lambda>i ys. ys[i := f i]) xs = map f [0..<n] @ drop n xs"
proof (induction n)
  case 0
  then show ?case by simp
next
  case (Suc n)
  then have "drop n xs = xs ! n # drop (Suc n) xs"
    by (simp add: Cons_nth_drop_Suc)
  with Suc show ?case by (simp add: list_update_append)
qed

lemma map_nth_take: "n \<le> length xs \<Longrightarrow> map (\<lambda>i. f (xs ! i)) [0..<n] = map f (take n xs)"
  by (rule nth_equalityI) simp_all

lemma map_nth_upt: "n \<le> length xs \<Longrightarrow> map ((!) xs) [0..<n] = take n xs"
  by (rule nth_equalityI) simp_all

lemma nth_in_take: "i < n \<Longrightarrow> n \<le> length xs \<Longrightarrow> xs ! i \<in> set (take n xs)"
  by (auto simp: in_set_conv_nth)

text \<open>The same with a body that may fail, and whose entry may depend on the old one.\<close>

lemma loop_fill_old:
  assumes "n \<le> length xs" "\<And>i ys. i < n \<Longrightarrow> length ys = length xs \<Longrightarrow> ys ! i = xs ! i \<Longrightarrow>
      g i ys = Some (ys[i := f i])"
  shows "loop n g xs = Some (map f [0..<n] @ drop n xs)"
proof -
  have "loop k g xs = Some (map f [0..<k] @ drop k xs)" if "k \<le> n" for k
    using that
  proof (induction k)
    case (Suc k)
    let ?ys = "map f [0..<k] @ drop k xs"
    have k: "k < length xs" using Suc.prems assms(1) by simp
    then have d: "drop k xs = xs ! k # drop (Suc k) xs" by (simp add: Cons_nth_drop_Suc)
    have "g k ?ys = Some (?ys[k := f k])"
      using Suc.prems k by (intro assms(2)) (simp_all add: nth_append)
    with Suc d show ?case by (simp add: list_update_append)
  qed simp
  then show ?thesis by simp
qed

lemma loop_fill:
  assumes "n \<le> length xs" "\<And>i. i < n \<Longrightarrow> g i = Some (f i)"
  shows "loop n (\<lambda>i ys. do { x \<leftarrow> g i; arr_set ys i x }) xs = Some (map f [0..<n] @ drop n xs)"
  using assms by (intro loop_fill_old) simp_all

section \<open>Overwriting a slice\<close>

definition splice :: "'a list \<Rightarrow> nat \<Rightarrow> 'a list \<Rightarrow> 'a list" where
  "splice b off e = take off b @ e @ drop (off + length e) b"

lemma length_splice [simp]: "off + length e \<le> length b \<Longrightarrow> length (splice b off e) = length b"
  by (simp add: splice_def)

lemma splice_Nil [simp]: "splice b off [] = b"
  by (simp add: splice_def)

lemma splice_splice:
  assumes "off + length e + length f \<le> length b"
  shows "splice (splice b off e) (off + length e) f = splice b off (e @ f)"
proof (cases "e = []")
  case True
  then show ?thesis by simp
next
  case False
  with assms have "off < length b"
    by (cases e) auto
  with assms show ?thesis
    by (auto simp: splice_def min_def ac_simps)
qed

lemma splice_update:
  assumes "off < length b"
  shows "b[off := x] = splice b off [x]"
  using assms by (simp add: splice_def upd_conv_take_nth_drop)

lemma splice_full: "length e = length b \<Longrightarrow> splice b 0 e = e"
  by (simp add: splice_def)

section \<open>The integer a word sequence denotes\<close>

text \<open>
  \<open>wval ws\<close> is the number whose digits, most significant first, are the words \<open>ws\<close>. It is
  the representation relation of every multi-word number of the code.
\<close>

primrec wval :: "'a::len word list \<Rightarrow> int" where
  "wval [] = 0"
| "wval (w # ws) = uint w * 2 ^ (LENGTH('a) * length ws) + wval ws"

lemma wval_nonneg [simp]: "0 \<le> wval ws"
  by (induction ws) auto

lemma wval_less: "wval (ws :: 'a::len word list) < 2 ^ (LENGTH('a) * length ws)"
proof (induction ws)
  case Nil
  then show ?case by simp
next
  case (Cons w ws)
  let ?B = "2 ^ (LENGTH('a) * length ws) :: int"
  have "uint w + 1 \<le> 2 ^ LENGTH('a)"
    using uint_lt2p [of w] by linarith
  then have "(uint w + 1) * ?B \<le> 2 ^ LENGTH('a) * ?B"
    by (rule mult_right_mono) simp
  with Cons.IH show ?case
    by (simp add: power_add algebra_simps)
qed

lemma wval_append:
  "wval (xs @ ys) = wval xs * 2 ^ (LENGTH('a) * length ys) + wval (ys :: 'a::len word list)"
  by (induction xs) (auto simp: power_add algebra_simps)

lemma wval_replicate_0 [simp]: "wval (replicate n 0) = 0"
  by (induction n) auto

lemma wval_zeros_append [simp]: "wval (replicate n 0 @ ws) = wval ws"
  by (simp add: wval_append)

lemma wval_eq_0_iff: "wval ws = 0 \<longleftrightarrow> (\<forall>w \<in> set ws. w = 0)"
proof (induction ws)
  case (Cons w ws)
  have "uint w * 2 ^ (LENGTH('a) * length ws) + wval ws = 0
      \<longleftrightarrow> uint w * 2 ^ (LENGTH('a) * length ws) = 0 \<and> wval ws = 0"
    by (intro add_nonneg_eq_0_iff) auto
  with Cons show ?case by (simp add: uint_0_iff)
qed simp

lemma wval_inj:
  "length (xs :: 'a::len word list) = length ys \<Longrightarrow> wval xs = wval ys \<Longrightarrow> xs = ys"
proof (induction xs ys rule: list_induct2)
  case (Cons x xs y ys)
  let ?B = "2 ^ (LENGTH('a) * length ys) :: int"
  have b: "wval xs < ?B" "wval ys < ?B"
    using wval_less [of xs] wval_less [of ys] Cons.hyps by simp_all
  have eq: "uint x * ?B + wval xs = uint y * ?B + wval ys"
    using Cons.prems Cons.hyps by simp
  have "uint x = (uint x * ?B + wval xs) div ?B"
    using b by simp
  also have "\<dots> = uint y"
    using b eq by simp
  finally have "x = y" by (simp only: word_uint_eq_iff)
  moreover from this eq have "wval xs = wval ys" by simp
  ultimately show ?case using Cons.IH by simp
qed simp

lemma wval_less_iff:
  "length xs = length (ys :: 'a::len word list) \<Longrightarrow>
     wval (x # xs) < wval (y # ys) \<longleftrightarrow> uint x < uint y \<or> x = y \<and> wval xs < wval ys"
proof -
  assume len: "length xs = length ys"
  let ?B = "2 ^ (LENGTH('a) * length ys) :: int"
  have b: "wval xs < ?B" "wval ys < ?B"
    using wval_less [of xs] wval_less [of ys] len by simp_all
  have step: "u * ?B + wval as < v * ?B + wval bs"
    if "u < v" "wval as < ?B" for u v and as bs :: "'a word list"
  proof -
    have "(u + 1) * ?B \<le> v * ?B"
      using that(1) by (intro mult_right_mono) auto
    moreover have "(u + 1) * ?B = u * ?B + ?B"
      by (simp add: algebra_simps)
    ultimately show ?thesis
      using that(2) wval_nonneg [of bs] by linarith
  qed
  have "uint x < uint y \<or> uint x = uint y \<or> uint y < uint x" by linarith
  then show ?thesis
    using step [of "uint x" "uint y" xs ys] step [of "uint y" "uint x" ys xs] b len
    by (auto simp: not_less word_uint_eq_iff)
qed

lemma wval_split:
  "wval ws = wval (take n ws) * 2 ^ (LENGTH('a) * (length ws - n)) + wval (drop n (ws :: 'a::len word list))"
  by (subst append_take_drop_id [of n ws, symmetric], subst wval_append) simp

lemma drop_update_cons: "n < length xs \<Longrightarrow> drop n (xs[n := v]) = v # drop (Suc n) xs"
  by (simp add: Cons_nth_drop_Suc [symmetric])

lemma wval_nth:
  "i < length ws \<Longrightarrow>
     wval ws = wval (take i ws) * 2 ^ (LENGTH('a) * (length ws - i))
       + uint (ws ! i) * 2 ^ (LENGTH('a) * (length ws - Suc i)) + wval (drop (Suc i) (ws :: 'a::len word list))"
  by (subst wval_split [of ws i]) (simp add: Cons_nth_drop_Suc [symmetric])

lemma wval_nth_le:
  assumes "i < length (ws :: 'a::len word list)"
  shows "uint (ws ! i) * 2 ^ (LENGTH('a) * (length ws - Suc i)) \<le> wval ws"
proof -
  have "0 \<le> wval (take i ws) * 2 ^ (LENGTH('a) * (length ws - i))" by simp
  then show ?thesis
    using wval_nth [OF assms] wval_nonneg [of "drop (Suc i) ws"] by linarith
qed

lemma wval_update:
  assumes "i < length (ws :: 'a::len word list)"
  shows "wval (ws[i := x]) = wval ws + (uint x - uint (ws ! i)) * 2 ^ (LENGTH('a) * (length ws - Suc i))"
proof -
  have "wval (ws[i := x]) = wval (take i ws) * 2 ^ (LENGTH('a) * (length ws - i))
      + uint x * 2 ^ (LENGTH('a) * (length ws - Suc i)) + wval (drop (Suc i) ws)"
    using wval_nth [of i "ws[i := x]"] assms by simp
  then show ?thesis
    using wval_nth [OF assms] by (simp add: algebra_simps)
qed

text \<open>Bit \<open>i\<close> of the number is bit \<open>i mod 64\<close> of one word.\<close>

lemma bit_wval:
  assumes "i < LENGTH('a) * length (ws :: 'a::len word list)"
  shows "bit (wval ws) i \<longleftrightarrow> bit (ws ! (length ws - 1 - i div LENGTH('a))) (i mod LENGTH('a))"
proof -
  let ?L = "LENGTH('a)" and ?j = "i div LENGTH('a)" and ?r = "i mod LENGTH('a)"
  define k where "k = length ws - 1 - ?j"
  have j: "?j < length ws"
    using assms by (simp add: less_mult_imp_div_less mult.commute)
  then have k: "k < length ws" "length ws - k = Suc ?j" "length ws - Suc k = ?j"
    by (simp_all add: k_def)
  have r: "?r < ?L" by simp
  define h where "h = wval (take k ws)"
  have lo: "wval (drop (Suc k) ws) < 2 ^ (?L * ?j)"
    using wval_less [of "drop (Suc k) ws"] k by simp
  have "wval ws = (h * 2 ^ ?L + uint (ws ! k)) * 2 ^ (?L * ?j) + wval (drop (Suc k) ws)"
    using wval_nth [OF k(1)] k by (simp add: h_def algebra_simps power_add)
  then have "wval ws div 2 ^ (?L * ?j) = h * 2 ^ ?L + uint (ws ! k)"
    using lo by simp
  moreover have "wval ws div 2 ^ i = wval ws div 2 ^ (?L * ?j) div 2 ^ ?r"
    by (simp add: zdiv_zmult2_eq [symmetric] power_add [symmetric])
  moreover have "h * 2 ^ ?L = (h * 2 ^ (?L - ?r)) * 2 ^ ?r"
    using r by (simp add: power_add [symmetric])
  ultimately have "wval ws div 2 ^ i = h * 2 ^ (?L - ?r) + uint (ws ! k) div 2 ^ ?r"
    by simp
  moreover have "even (h * 2 ^ (?L - ?r))"
    using r by simp
  ultimately have "odd (wval ws div 2 ^ i) \<longleftrightarrow> odd (uint (ws ! k) div 2 ^ ?r)"
    by simp
  then show ?thesis
    using bit_uint_iff [of "ws ! k" ?r] r by (simp add: bit_iff_odd [of "wval ws"] bit_iff_odd [of "uint _"] k_def)
qed

end
