(* ===== verification/Platform.thy ===== *)
theory Platform
  imports Prelude
begin

text \<open>
  The code that is not in the repository. The library rests on GMP (\<open>gmp.h\<close>), on the
  allocator, and on a vendored SHA-256. An \<open>mpz_t\<close> is the integer it holds: initialising,
  setting, adding, subtracting, multiplying and comparing are the operations of \<open>int\<close>. Every
  other GMP function, \<open>malloc\<close> and the digest are fields of the record \<open>env\<close>, a parameter of
  all definitions that use them; the locale \<open>platform\<close> states what their documentation promises,
  and \<open>ref_env\<close> is one environment that keeps these promises.

  \<^item> \<open>malloc\<close> takes the size and returns the fresh block with its indeterminate contents, or
    \<open>None\<close> for a null pointer;
  \<^item> \<open>mpz_import_u64\<close> and \<open>mpz_import_u8\<close> are \<open>mpz_import\<close> of words and of bytes, most
    significant first, and \<open>mpz_export_u64\<close> returns the words \<open>mpz_export\<close> writes;
  \<^item> \<open>mpz_invert\<close> returns the value left in the result, of which nothing is known when no
    inverse exists (the code never looks at the return value of \<open>mpz_invert\<close>);
  \<^item> \<open>sha256\<close> is the digest of all the bytes given to \<open>SHA256Update\<close> between
    \<open>SHA256Init\<close> and \<open>SHA256Final\<close>; a \<open>SHA2_CTX\<close> is the list of these bytes.
\<close>

record env =
  malloc :: "nat \<Rightarrow> u8 list option"
  mpz_mod :: "int \<Rightarrow> int \<Rightarrow> int"
  mpz_powm :: "int \<Rightarrow> int \<Rightarrow> int \<Rightarrow> int"
  mpz_invert :: "int \<Rightarrow> int \<Rightarrow> int"
  mpz_gcd :: "int \<Rightarrow> int \<Rightarrow> int"
  mpz_lcm :: "int \<Rightarrow> int \<Rightarrow> int"
  mpz_nextprime :: "int \<Rightarrow> int"
  mpz_import_u64 :: "u64 list \<Rightarrow> int"
  mpz_import_u8 :: "u8 list \<Rightarrow> int"
  mpz_export_u64 :: "int \<Rightarrow> u64 list"
  sha256 :: "u8 list \<Rightarrow> u8 list"

locale platform =
  fixes E :: env
  assumes malloc_length: "malloc E n = Some blk \<Longrightarrow> length blk = n"
    and mpz_mod_eq: "m \<noteq> 0 \<Longrightarrow> mpz_mod E a m = a mod \<bar>m\<bar>"
    and mpz_powm_eq: "0 \<le> x \<Longrightarrow> m \<noteq> 0 \<Longrightarrow> mpz_powm E b x m = b ^ nat x mod \<bar>m\<bar>"
    and mpz_invert_eq: "coprime a m \<Longrightarrow> 1 < m \<Longrightarrow> (a * mpz_invert E a m) mod m = 1"
    and mpz_gcd_eq: "mpz_gcd E a b = gcd a b"
    and mpz_lcm_eq: "mpz_lcm E a b = lcm a b"
    and mpz_nextprime_gt: "a < mpz_nextprime E a"
    and mpz_import_u64_eq: "mpz_import_u64 E ws = wval ws"
    and mpz_import_u8_eq: "mpz_import_u8 E bs = wval bs"
    and mpz_export_u64_eq: "0 \<le> z \<Longrightarrow> wval (mpz_export_u64 E z) = z"
    and mpz_export_u64_hd: "0 < z \<Longrightarrow> \<exists>w ws. mpz_export_u64 E z = w # ws \<and> w \<noteq> 0"
    and mpz_export_u64_0: "mpz_export_u64 E 0 = []"
    and sha256_length: "length (sha256 E bs) = 32"

text \<open>An environment in which the allocator never runs out.\<close>

locale platform_mem = platform +
  assumes malloc_ok: "\<exists>blk. malloc E n = Some blk"

context platform
begin

lemma mpz_mod_pos: "0 < m \<Longrightarrow> mpz_mod E a m = a mod m"
  by (simp add: mpz_mod_eq)

lemma mpz_powm_pos: "0 \<le> x \<Longrightarrow> 0 < m \<Longrightarrow> mpz_powm E b x m = b ^ nat x mod m"
  by (simp add: mpz_powm_eq)

text \<open>How many words an export takes.\<close>

lemma export_bounds:
  assumes "0 < z"
  shows "2 ^ (64 * (length (mpz_export_u64 E z) - 1)) \<le> z" and "z < 2 ^ (64 * length (mpz_export_u64 E z))"
proof -
  obtain w ws where e: "mpz_export_u64 E z = w # ws" and w: "w \<noteq> 0"
    using mpz_export_u64_hd [OF assms] by blast
  have v: "wval (w # ws) = z" using mpz_export_u64_eq [of z] assms e by simp
  have "uint w \<noteq> 0" using w by (simp add: uint_0_iff)
  then have "1 \<le> uint w" using uint_ge_0 [of w] by linarith
  then have "1 * 2 ^ (64 * length ws) \<le> uint w * 2 ^ (64 * length ws)"
    by (intro mult_right_mono) auto
  moreover have "uint w * 2 ^ (64 * length ws) + wval ws = z"
    using v by simp
  ultimately have "2 ^ (64 * length ws) \<le> z"
    using wval_nonneg [of ws] by linarith
  then show "2 ^ (64 * (length (mpz_export_u64 E z) - 1)) \<le> z" by (simp add: e)
  show "z < 2 ^ (64 * length (mpz_export_u64 E z))"
    using wval_less [of "w # ws"] v e by simp
qed

lemma length_export_le:
  assumes "0 \<le> z" "z < 2 ^ (64 * n)"
  shows "length (mpz_export_u64 E z) \<le> n"
proof (cases "z = 0")
  case False
  then have z: "0 < z" using assms by simp
  show ?thesis
  proof (rule ccontr)
    assume "\<not> ?thesis"
    then have "(2 :: int) ^ (64 * n) \<le> 2 ^ (64 * (length (mpz_export_u64 E z) - 1))"
      by (intro power_increasing) auto
    with export_bounds(1) [OF z] assms show False by linarith
  qed
qed (simp add: mpz_export_u64_0)

lemma length_export_eq:
  assumes "0 < n" "2 ^ (64 * (n - 1)) \<le> z" "z < 2 ^ (64 * n)"
  shows "length (mpz_export_u64 E z) = n"
proof -
  have z: "0 < z" using assms(2) by (smt (verit) zero_less_power)
  have "\<not> length (mpz_export_u64 E z) < n"
  proof
    assume "length (mpz_export_u64 E z) < n"
    then have "(2 :: int) ^ (64 * length (mpz_export_u64 E z)) \<le> 2 ^ (64 * (n - 1))"
      by (intro power_increasing) auto
    with export_bounds(2) [OF z] assms show False by linarith
  qed
  with length_export_le [of z n] z assms show ?thesis by simp
qed

end

section \<open>A reference environment\<close>

function ref_export :: "int \<Rightarrow> u64 list" where
  "ref_export z = (if z \<le> 0 then [] else ref_export (z div 2 ^ 64) @ [word_of_int z])"
  by pat_completeness auto
termination
  by (relation "measure nat") (auto intro!: int_div_less_self)

declare ref_export.simps [simp del]

definition ref_invert :: "int \<Rightarrow> int \<Rightarrow> int" where
  "ref_invert a m = (case find (\<lambda>x. (a * x) mod m = 1) [0..m - 1] of None \<Rightarrow> 0 | Some x \<Rightarrow> x)"

definition ref_env :: env where
  "ref_env =
     \<lparr>malloc = (\<lambda>n. Some (replicate n 0)),
      mpz_mod = (\<lambda>a m. a mod \<bar>m\<bar>),
      mpz_powm = (\<lambda>b x m. b ^ nat x mod \<bar>m\<bar>),
      mpz_invert = ref_invert,
      mpz_gcd = gcd,
      mpz_lcm = lcm,
      mpz_nextprime = (\<lambda>a. a + 1),
      mpz_import_u64 = wval,
      mpz_import_u8 = wval,
      mpz_export_u64 = ref_export,
      sha256 = (\<lambda>bs. replicate 31 0 @ [sum_list bs])\<rparr>"

lemma ref_export_0 [simp]: "z \<le> 0 \<Longrightarrow> ref_export z = []"
  by (subst ref_export.simps) simp

lemma ref_export_pos: "0 < z \<Longrightarrow> ref_export z = ref_export (z div 2 ^ 64) @ [word_of_int z]"
  by (subst ref_export.simps) simp

lemma wval_ref_export: "0 \<le> z \<Longrightarrow> wval (ref_export z) = z"
proof (induction z rule: ref_export.induct)
  case (1 z)
  show ?case
  proof (cases "z = 0")
    case False
    with 1 have "wval (ref_export (z div 2 ^ 64)) = z div 2 ^ 64"
      by (simp add: pos_imp_zdiv_nonneg_iff)
    moreover have "uint (word_of_int z :: u64) = z mod 2 ^ 64"
      by (simp add: uint_word_of_int)
    ultimately show ?thesis
      using False 1 by (simp add: ref_export_pos wval_append)
  qed simp
qed

lemma ref_export_hd: "0 < z \<Longrightarrow> \<exists>w ws. ref_export z = w # ws \<and> w \<noteq> 0"
proof (induction z rule: ref_export.induct)
  case (1 z)
  show ?case
  proof (cases "0 < z div 2 ^ 64")
    case True
    with 1 obtain w ws where "ref_export (z div 2 ^ 64) = w # ws" "w \<noteq> 0" by auto
    then show ?thesis
      using "1.prems" by (subst ref_export_pos) simp_all
  next
    case False
    then have "z < 2 ^ 64"
      using "1.prems" by (simp add: pos_imp_zdiv_pos_iff)
    with "1.prems" have "(word_of_int z :: u64) \<noteq> 0"
      by (simp add: word_of_int_eq_0_iff zdvd_not_zless)
    with False "1.prems" show ?thesis by (simp add: ref_export_pos)
  qed
qed

lemma ref_invert_correct:
  assumes "coprime a m" "1 < m"
  shows "(a * ref_invert a m) mod m = 1"
proof -
  obtain u v where "u * a + v * m = 1"
    using bezout_int [of a m] assms(1) by (auto simp: coprime_iff_gcd_eq_1)
  then have "(u * a) mod m = 1 mod m"
    by (metis mod_mult_self1)
  then have "(a * (u mod m)) mod m = 1"
    using assms(2) by (simp add: mod_mult_right_eq mult.commute)
  moreover have "u mod m \<in> set [0..m - 1]"
    using assms(2) by simp
  ultimately obtain x where "find (\<lambda>x. (a * x) mod m = 1) [0..m - 1] = Some x" "(a * x) mod m = 1"
    by (metis (mono_tags, lifting) find_None_iff find_Some_iff not_None_eq)
  then show ?thesis by (simp add: ref_invert_def)
qed

interpretation ref: platform_mem ref_env
proof
qed (auto simp: ref_env_def ref_invert_correct wval_ref_export dest: ref_export_hd)

end
