(* ===== verification/Serialize.thy ===== *)
theory Serialize
  imports Platform
begin

unbundle bit_operations_syntax

text \<open>
  The serializer state and the primitive encodings: \<open>src/electionguard/serialize/state.c\<close>,
  \<open>serialize/state.h\<close> and \<open>serialize/builtins.c\<close>.

  A message is produced in three passes over the same data: a \<open>reserve\<close> pass adds up the length,
  \<open>Serialize_allocate\<close> allocates the buffer, a \<open>write\<close> pass fills it. Every routine acts only in
  its own status, so that a failure in one pass turns the rest into no operations. The readers
  do not look at the length of the buffer: reading behind its end is \<open>None\<close>.

  The predicates \<open>reserves\<close>, \<open>writes\<close> and \<open>reads\<close> say what a routine does when its pass is
  active; they are closed under sequencing and loops, and the locale \<open>codec\<close> collects them into
  the contract of one data type.
\<close>

section \<open>State\<close>

datatype serialize_status =
    SERIALIZE_STATE_RESERVING
  | SERIALIZE_STATE_WRITING
  | SERIALIZE_STATE_READING
  | SERIALIZE_STATE_INSUFFICIENT_MEMORY
  | SERIALIZE_STATE_BUFFER_TOO_SMALL
  | SERIALIZE_STATE_IO_ERROR

record serialize_state =
  ss_status :: serialize_status
  ss_len :: nat
  ss_offset :: nat
  ss_buf :: "u8 list option"

definition Serialize_allocate :: "env \<Rightarrow> serialize_state \<Rightarrow> serialize_state" where
  "Serialize_allocate E st =
     (if ss_status st = SERIALIZE_STATE_RESERVING \<and> 0 < ss_len st
      then
        case malloc E (ss_len st) of
          None \<Rightarrow> st\<lparr>ss_buf := None, ss_status := SERIALIZE_STATE_INSUFFICIENT_MEMORY\<rparr>
        | Some b \<Rightarrow> st\<lparr>ss_buf := Some b, ss_status := SERIALIZE_STATE_WRITING, ss_offset := 0\<rparr>
      else st)"

text \<open>The initial states of the three passes, as every caller writes them.\<close>

definition reserving_state :: serialize_state where
  "reserving_state =
     \<lparr>ss_status = SERIALIZE_STATE_RESERVING, ss_len = 0, ss_offset = 0, ss_buf = None\<rparr>"

definition reading_state :: "nat \<Rightarrow> u8 list \<Rightarrow> serialize_state" where
  "reading_state n bytes =
     \<lparr>ss_status = SERIALIZE_STATE_READING, ss_len = n, ss_offset = 0, ss_buf = Some bytes\<rparr>"

section \<open>Buffer access\<close>

definition put_byte :: "serialize_state \<Rightarrow> nat \<Rightarrow> u8 \<Rightarrow> serialize_state option" where
  "put_byte st k v =
     do { b \<leftarrow> ss_buf st; b \<leftarrow> arr_set b (ss_offset st + k) v; Some (st\<lparr>ss_buf := Some b\<rparr>) }"

definition get_byte :: "serialize_state \<Rightarrow> nat \<Rightarrow> u8 option" where
  "get_byte st k = do { b \<leftarrow> ss_buf st; arr_get b (ss_offset st + k) }"

definition read_nth_byte :: "u64 \<Rightarrow> nat \<Rightarrow> u8" where
  "read_nth_byte data n =
     (let shift = n * 8;
          mask = push_bit shift 0xFF
      in ucast (drop_bit shift (data AND mask)))"

definition write_nth_byte :: "u64 \<Rightarrow> nat \<Rightarrow> u8 \<Rightarrow> u64" where
  "write_nth_byte data n byte =
     (let shift = n * 8;
          mask = push_bit shift (ucast byte)
      in data OR mask)"

section \<open>The primitive types\<close>

definition reserve_bytes :: "nat \<Rightarrow> serialize_state \<Rightarrow> serialize_state option" where
  "reserve_bytes n st =
     Some (if ss_status st = SERIALIZE_STATE_RESERVING then st\<lparr>ss_len := ss_len st + n\<rparr> else st)"

definition Serialize_reserve_bool :: "serialize_state \<Rightarrow> serialize_state option" where
  "Serialize_reserve_bool st = reserve_bytes 1 st"

definition Serialize_write_bool :: "bool \<Rightarrow> serialize_state \<Rightarrow> serialize_state option" where
  "Serialize_write_bool data st =
     (if ss_status st = SERIALIZE_STATE_WRITING
      then do { st \<leftarrow> put_byte st 0 (if data then 1 else 0); Some (st\<lparr>ss_offset := ss_offset st + 1\<rparr>) }
      else Some st)"

definition Serialize_read_bool ::
    "bool \<Rightarrow> serialize_state \<Rightarrow> (bool \<times> serialize_state) option" where
  "Serialize_read_bool old st =
     (if ss_status st = SERIALIZE_STATE_READING
      then do { x \<leftarrow> get_byte st 0; Some (x \<noteq> 0, st\<lparr>ss_offset := ss_offset st + 1\<rparr>) }
      else Some (old, st))"

definition Serialize_reserve_uint8 :: "serialize_state \<Rightarrow> serialize_state option" where
  "Serialize_reserve_uint8 st = reserve_bytes 1 st"

definition Serialize_write_uint8 :: "u8 \<Rightarrow> serialize_state \<Rightarrow> serialize_state option" where
  "Serialize_write_uint8 data st =
     (if ss_status st = SERIALIZE_STATE_WRITING
      then do { st \<leftarrow> put_byte st 0 data; Some (st\<lparr>ss_offset := ss_offset st + 1\<rparr>) }
      else Some st)"

definition Serialize_read_uint8 :: "u8 \<Rightarrow> serialize_state \<Rightarrow> (u8 \<times> serialize_state) option" where
  "Serialize_read_uint8 old st =
     (if ss_status st = SERIALIZE_STATE_READING
      then do { x \<leftarrow> get_byte st 0; Some (x, st\<lparr>ss_offset := ss_offset st + 1\<rparr>) }
      else Some (old, st))"

definition Serialize_reserve_uint32 :: "serialize_state \<Rightarrow> serialize_state option" where
  "Serialize_reserve_uint32 st = reserve_bytes 4 st"

definition Serialize_write_uint32 :: "u32 \<Rightarrow> serialize_state \<Rightarrow> serialize_state option" where
  "Serialize_write_uint32 data st =
     (if ss_status st = SERIALIZE_STATE_WRITING
      then do {
        st \<leftarrow> loop 4 (\<lambda>i st. put_byte st i (read_nth_byte (ucast data) i)) st;
        Some (st\<lparr>ss_offset := ss_offset st + 4\<rparr>) }
      else Some st)"

definition Serialize_read_uint32 :: "serialize_state \<Rightarrow> (u32 \<times> serialize_state) option" where
  "Serialize_read_uint32 st =
     (if ss_status st = SERIALIZE_STATE_READING
      then do {
        data \<leftarrow> loop 4 (\<lambda>i data. do { b \<leftarrow> get_byte st i;
                                      Some (ucast (write_nth_byte (ucast data) i b)) }) (0 :: u32);
        Some (data, st\<lparr>ss_offset := ss_offset st + 4\<rparr>) }
      else Some (0, st))"

definition Serialize_reserve_uint64 :: "serialize_state \<Rightarrow> serialize_state option" where
  "Serialize_reserve_uint64 st = reserve_bytes 8 st"

definition Serialize_write_uint64 :: "u64 \<Rightarrow> serialize_state \<Rightarrow> serialize_state option" where
  "Serialize_write_uint64 data st =
     (if ss_status st = SERIALIZE_STATE_WRITING
      then do {
        st \<leftarrow> loop 8 (\<lambda>i st. put_byte st i (read_nth_byte data i)) st;
        Some (st\<lparr>ss_offset := ss_offset st + 8\<rparr>) }
      else Some st)"

definition Serialize_read_uint64 :: "serialize_state \<Rightarrow> (u64 \<times> serialize_state) option" where
  "Serialize_read_uint64 st =
     (if ss_status st = SERIALIZE_STATE_READING
      then do {
        data \<leftarrow> loop 8 (\<lambda>i data. do { b \<leftarrow> get_byte st i; Some (write_nth_byte data i b) }) 0;
        Some (data, st\<lparr>ss_offset := ss_offset st + 8\<rparr>) }
      else Some (0, st))"

section \<open>The contract of a routine\<close>

definition emitted :: "serialize_state \<Rightarrow> u8 list \<Rightarrow> serialize_state" where
  "emitted st e =
     st\<lparr>ss_buf := map_option (\<lambda>b. splice b (ss_offset st) e) (ss_buf st),
        ss_offset := ss_offset st + length e\<rparr>"

definition room :: "serialize_state \<Rightarrow> nat \<Rightarrow> bool" where
  "room st n \<longleftrightarrow> ss_status st = SERIALIZE_STATE_WRITING \<and>
     (case ss_buf st of None \<Rightarrow> False | Some b \<Rightarrow> ss_offset st + n \<le> length b)"

definition avail :: "serialize_state \<Rightarrow> u8 list \<Rightarrow> bool" where
  "avail st e \<longleftrightarrow> ss_status st = SERIALIZE_STATE_READING \<and>
     (case ss_buf st of
        None \<Rightarrow> False
      | Some b \<Rightarrow> ss_offset st + length e \<le> length b \<and> take (length e) (drop (ss_offset st) b) = e)"

definition consumed :: "serialize_state \<Rightarrow> u8 list \<Rightarrow> serialize_state" where
  "consumed st e = st\<lparr>ss_offset := ss_offset st + length e\<rparr>"

definition reserves :: "(serialize_state \<Rightarrow> serialize_state option) \<Rightarrow> nat \<Rightarrow> bool" where
  "reserves f n \<longleftrightarrow> (\<forall>st. ss_status st = SERIALIZE_STATE_RESERVING \<longrightarrow>
     f st = Some (st\<lparr>ss_len := ss_len st + n\<rparr>))"

definition writes :: "(serialize_state \<Rightarrow> serialize_state option) \<Rightarrow> u8 list \<Rightarrow> bool" where
  "writes f e \<longleftrightarrow> (\<forall>st. room st (length e) \<longrightarrow> f st = Some (emitted st e))"

definition reads :: "(serialize_state \<Rightarrow> ('a \<times> serialize_state) option) \<Rightarrow> u8 list \<Rightarrow> 'a \<Rightarrow> bool" where
  "reads f e x \<longleftrightarrow> (\<forall>st. avail st e \<longrightarrow> f st = Some (x, consumed st e))"

lemma reservesD: "reserves f n \<Longrightarrow> ss_status st = SERIALIZE_STATE_RESERVING \<Longrightarrow>
    f st = Some (st\<lparr>ss_len := ss_len st + n\<rparr>)"
  by (simp add: reserves_def)

lemma writesD: "writes f e \<Longrightarrow> room st (length e) \<Longrightarrow> f st = Some (emitted st e)"
  by (simp add: writes_def)

lemma readsD: "reads f e x \<Longrightarrow> avail st e \<Longrightarrow> f st = Some (x, consumed st e)"
  by (simp add: reads_def)

lemma room_emitted: "room st (length e + n) \<Longrightarrow> room (emitted st e) n"
  by (auto simp: room_def emitted_def split: option.splits)

lemma room_less: "room st n \<Longrightarrow> m \<le> n \<Longrightarrow> room st m"
  by (auto simp: room_def split: option.splits)

lemma emitted_emitted:
  assumes "room st (length e + length f)"
  shows "emitted (emitted st e) f = emitted st (e @ f)"
proof -
  obtain b where b: "ss_buf st = Some b" "ss_offset st + (length e + length f) \<le> length b"
    using assms by (auto simp: room_def split: option.splits)
  then have "splice (splice b (ss_offset st) e) (ss_offset st + length e) f = splice b (ss_offset st) (e @ f)"
    by (intro splice_splice) simp
  with b show ?thesis by (simp add: emitted_def ac_simps)
qed

lemma avail_append: "avail st (e @ f) \<Longrightarrow> avail st e \<and> avail (consumed st e) f"
  by (auto simp: avail_def consumed_def take_add ac_simps split: option.splits)

lemma consumed_consumed: "consumed (consumed st e) f = consumed st (e @ f)"
  by (simp add: consumed_def ac_simps)

lemma consumed_status [simp]: "ss_status (consumed st e) = ss_status st"
  by (simp add: consumed_def)

lemma reserves_bind [intro]:
  "reserves f m \<Longrightarrow> reserves g n \<Longrightarrow> reserves (\<lambda>st. f st \<bind> g) (m + n)"
  by (auto simp: reserves_def ac_simps)

lemma reserves_loop:
  assumes "\<And>i. i < k \<Longrightarrow> reserves (f i) (n i)"
  shows "reserves (loop k f) (sum_list (map n [0..<k]))"
  using assms
proof (induction k)
  case 0
  then show ?case by (simp add: reserves_def)
next
  case (Suc k)
  then have "reserves (\<lambda>st. loop k f st \<bind> f k) (sum_list (map n [0..<k]) + n k)"
    by (intro reserves_bind) simp_all
  then show ?case by simp
qed

lemma writes_bind [intro]:
  assumes "writes f e" "writes g e'"
  shows "writes (\<lambda>st. f st \<bind> g) (e @ e')"
  unfolding writes_def
proof (intro allI impI)
  fix st assume r: "room st (length (e @ e'))"
  then have "room st (length e)" by (rule room_less) simp
  then have "f st = Some (emitted st e)" by (rule writesD [OF assms(1)])
  moreover have "g (emitted st e) = Some (emitted (emitted st e) e')"
    using r by (intro writesD [OF assms(2)] room_emitted) simp
  ultimately show "f st \<bind> g = Some (emitted st (e @ e'))"
    using r by (simp add: emitted_emitted)
qed

lemma writes_Some: "writes Some []"
  by (simp add: writes_def emitted_def map_option.identity [unfolded id_def])

lemma writes_loop:
  assumes "\<And>i. i < k \<Longrightarrow> writes (f i) (e i)"
  shows "writes (loop k f) (concat (map e [0..<k]))"
  using assms
proof (induction k)
  case 0
  then show ?case using writes_Some by (simp add: writes_def)
next
  case (Suc k)
  then have "writes (\<lambda>st. loop k f st \<bind> f k) (concat (map e [0..<k]) @ e k)"
    by (intro writes_bind) simp_all
  then show ?case by simp
qed

lemma reads_bind:
  assumes "reads f e x" "reads (g x) e' y"
  shows "reads (\<lambda>st. f st \<bind> (\<lambda>(x, st). g x st)) (e @ e') y"
  unfolding reads_def
proof (intro allI impI)
  fix st assume "avail st (e @ e')"
  then have a: "avail st e" "avail (consumed st e) e'" by (simp_all add: avail_append)
  show "f st \<bind> (\<lambda>(x, st). g x st) = Some (y, consumed st (e @ e'))"
    using readsD [OF assms(1) a(1)] readsD [OF assms(2) a(2)] by (simp add: consumed_consumed)
qed

lemma reads_return: "reads f e x \<Longrightarrow> reads (\<lambda>st. f st \<bind> (\<lambda>(x, st). Some (h x, st))) e (h x)"
  by (simp add: reads_def)

lemma reads_done: "reads (\<lambda>st. Some (x, st)) [] x"
  by (simp add: reads_def consumed_def)

lemma reads_loop:
  assumes "\<And>i a. i < k \<Longrightarrow> P i a \<Longrightarrow> reads (f i a) (e i) (g i a) \<and> P (Suc i) (g i a)" and "P 0 a"
  shows "reads (\<lambda>st. loop k (\<lambda>i (a, st). f i a st) (a, st)) (concat (map e [0..<k])) (floop k g a)
    \<and> P k (floop k g a)"
  using assms(1)
proof (induction k)
  case 0
  then show ?case using assms(2) by (simp add: reads_done)
next
  case (Suc k)
  let ?x = "floop k g a"
  have IH: "reads (\<lambda>st. loop k (\<lambda>i (a, st). f i a st) (a, st)) (concat (map e [0..<k])) ?x" "P k ?x"
    using Suc by auto
  then have "reads (f k ?x) (e k) (g k ?x)" "P (Suc k) (g k ?x)"
    using Suc.prems by auto
  then show ?case
    using reads_bind [OF IH(1), of "f k"] by simp
qed

section \<open>The primitive types keep the contract\<close>

definition le_bytes :: "nat \<Rightarrow> 'a::len word \<Rightarrow> u8 list" where
  "le_bytes n w = map (\<lambda>i. ucast (drop_bit (8 * i) w)) [0..<n]"

lemma length_le_bytes [simp]: "length (le_bytes n w) = n"
  by (simp add: le_bytes_def)

lemma byte_mask: "(0xFF :: u64) = mask 8"
  by (simp add: mask_eq_exp_minus_1)

lemma read_nth_byte_eq: "i < 8 \<Longrightarrow> read_nth_byte w i = ucast (drop_bit (8 * i) w)"
  unfolding read_nth_byte_def Let_def byte_mask
  by (rule bit_word_eqI) (auto simp: bit_simps mult.commute dest: bit_imp_le_length)

lemma write_nth_byte_step:
  fixes w :: u64
  shows "write_nth_byte (take_bit (8 * i) w) i (ucast (drop_bit (8 * i) w)) = take_bit (8 * Suc i) w"
  by (rule bit_word_eqI) (auto simp: write_nth_byte_def Let_def bit_simps mult.commute)

lemma put_bytes:
  assumes "room st (length e)" "n \<le> length e"
  shows "loop n (\<lambda>i st. put_byte st i (e ! i)) st
    = Some (st\<lparr>ss_buf := map_option (\<lambda>b. splice b (ss_offset st) (take n e)) (ss_buf st)\<rparr>)"
  using assms(2)
proof (induction n)
  case 0
  then show ?case by (simp add: map_option.identity [unfolded id_def])
next
  case (Suc n)
  obtain b where b: "ss_buf st = Some b" "ss_offset st + length e \<le> length b"
    using assms(1) by (auto simp: room_def split: option.splits)
  have "(splice b (ss_offset st) (take n e))[ss_offset st + n := e ! n]
      = splice (splice b (ss_offset st) (take n e)) (ss_offset st + n) [e ! n]"
    using b Suc.prems by (intro splice_update) simp
  also have "\<dots> = splice b (ss_offset st) (take n e @ [e ! n])"
    using splice_splice [of "ss_offset st" "take n e" "[e ! n]" b] b Suc.prems by simp
  finally show ?case
    using Suc b by (simp add: put_byte_def take_Suc_conv_app_nth)
qed

lemma avail_get_byte: "avail st e \<Longrightarrow> i < length e \<Longrightarrow> get_byte st i = Some (e ! i)"
  by (auto simp: avail_def get_byte_def split: option.splits)
    (metis add.commute nth_drop nth_take trans_le_add2 le_add2 add_leD1)

lemma writes_put:
  assumes "length e = n" "\<And>st. ss_status st = SERIALIZE_STATE_WRITING \<Longrightarrow>
      f st = loop n (\<lambda>i st. put_byte st i (e ! i)) st \<bind> (\<lambda>st. Some (st\<lparr>ss_offset := ss_offset st + n\<rparr>))"
  shows "writes f e"
  unfolding writes_def
proof (intro allI impI)
  fix st assume r: "room st (length e)"
  then have "ss_status st = SERIALIZE_STATE_WRITING" by (simp add: room_def)
  then show "f st = Some (emitted st e)"
    using put_bytes [OF r, of n] assms by (simp add: emitted_def)
qed

lemma prim_reserves [ser_simps]:
  "reserves Serialize_reserve_bool 1" "reserves Serialize_reserve_uint8 1"
  "reserves Serialize_reserve_uint32 4" "reserves Serialize_reserve_uint64 8"
  by (simp_all add: reserves_def Serialize_reserve_bool_def Serialize_reserve_uint8_def
      Serialize_reserve_uint32_def Serialize_reserve_uint64_def reserve_bytes_def)

definition bool_bytes :: "bool \<Rightarrow> u8 list" where
  "bool_bytes x = [if x then 1 else 0]"

lemma writes_bool [ser_simps]: "writes (Serialize_write_bool x) (bool_bytes x)"
  by (rule writes_put [where n = 1]) (simp_all add: bool_bytes_def Serialize_write_bool_def)

lemma writes_uint8 [ser_simps]: "writes (Serialize_write_uint8 x) [x]"
  by (rule writes_put [where n = 1]) (simp_all add: Serialize_write_uint8_def)

lemma writes_uint64 [ser_simps]: "writes (Serialize_write_uint64 w) (le_bytes 8 w)"
proof (rule writes_put)
  fix st :: serialize_state assume "ss_status st = SERIALIZE_STATE_WRITING"
  moreover have "loop 8 (\<lambda>i st. put_byte st i (read_nth_byte w i)) st
      = loop 8 (\<lambda>i st. put_byte st i (le_bytes 8 w ! i)) st"
    by (rule loop_cong) (simp add: read_nth_byte_eq le_bytes_def)
  ultimately show "Serialize_write_uint64 w st = loop 8 (\<lambda>i st. put_byte st i (le_bytes 8 w ! i)) st
      \<bind> (\<lambda>st. Some (st\<lparr>ss_offset := ss_offset st + 8\<rparr>))"
    by (simp add: Serialize_write_uint64_def)
qed simp

lemma drop_ucast_byte: "ucast (drop_bit (8 * i) (ucast (w :: u32) :: u64)) = (ucast (drop_bit (8 * i) w) :: u8)"
  by (rule bit_word_eqI) (auto simp: bit_simps dest: bit_imp_le_length)

lemma writes_uint32 [ser_simps]: "writes (Serialize_write_uint32 w) (le_bytes 4 w)"
proof (rule writes_put)
  fix st :: serialize_state assume "ss_status st = SERIALIZE_STATE_WRITING"
  moreover have "loop 4 (\<lambda>i st. put_byte st i (read_nth_byte (ucast w) i)) st
      = loop 4 (\<lambda>i st. put_byte st i (le_bytes 4 w ! i)) st"
    by (rule loop_cong) (simp add: read_nth_byte_eq le_bytes_def drop_ucast_byte)
  ultimately show "Serialize_write_uint32 w st = loop 4 (\<lambda>i st. put_byte st i (le_bytes 4 w ! i)) st
      \<bind> (\<lambda>st. Some (st\<lparr>ss_offset := ss_offset st + 4\<rparr>))"
    by (simp add: Serialize_write_uint32_def)
qed simp

lemma reads_bool [ser_simps]: "reads (Serialize_read_bool old) (bool_bytes x) x"
  using avail_get_byte [of _ "bool_bytes x" 0]
  by (auto simp: reads_def Serialize_read_bool_def bool_bytes_def consumed_def avail_def)

lemma reads_uint8 [ser_simps]: "reads (Serialize_read_uint8 old) [x] x"
  using avail_get_byte [of _ "[x]" 0]
  by (auto simp: reads_def Serialize_read_uint8_def consumed_def avail_def)

lemma reads_uint64 [ser_simps]: "reads Serialize_read_uint64 (le_bytes 8 w) w"
  unfolding reads_def
proof (intro allI impI)
  fix st assume a: "avail st (le_bytes 8 w)"
  have "loop n (\<lambda>i data. do { b \<leftarrow> get_byte st i; Some (write_nth_byte data i b) }) 0
      = Some (take_bit (8 * n) w)" if "n \<le> 8" for n
    using that
  proof (induction n)
    case (Suc n)
    then have "get_byte st n = Some (ucast (drop_bit (8 * n) w))"
      using avail_get_byte [OF a, of n] by (simp add: le_bytes_def)
    with Suc show ?case by (simp add: write_nth_byte_step [simplified])
  qed simp
  from this [of 8] take_bit_length_eq [of w] show "Serialize_read_uint64 st = Some (w, consumed st (le_bytes 8 w))"
    using a by (simp add: Serialize_read_uint64_def avail_def consumed_def)
qed

lemma reads_uint32 [ser_simps]: "reads Serialize_read_uint32 (le_bytes 4 w) w"
  unfolding reads_def
proof (intro allI impI)
  fix st assume a: "avail st (le_bytes 4 w)"
  have "loop n (\<lambda>i data. do { b \<leftarrow> get_byte st i; Some (ucast (write_nth_byte (ucast data) i b)) }) (0 :: u32)
      = Some (take_bit (8 * n) w)" if "n \<le> 4" for n
    using that
  proof (induction n)
    case (Suc n)
    then have g: "get_byte st n = Some (ucast (drop_bit (8 * n) w))"
      using avail_get_byte [OF a, of n] by (simp add: le_bytes_def)
    have "ucast (write_nth_byte (ucast (take_bit (8 * n) w)) n (ucast (drop_bit (8 * n) w)))
        = take_bit (8 * Suc n) w"
      by (rule bit_word_eqI) (auto simp: write_nth_byte_def Let_def bit_simps mult.commute)
    with Suc g show ?case by simp
  qed simp
  from this [of 4] take_bit_length_eq [of w] show "Serialize_read_uint32 st = Some (w, consumed st (le_bytes 4 w))"
    using a by (simp add: Serialize_read_uint32_def avail_def consumed_def)
qed

section \<open>Arrays\<close>

text \<open>Reading one array element in place, and the loop that reads the first \<open>n\<close> of them.\<close>

definition read_elem ::
    "('a \<Rightarrow> serialize_state \<Rightarrow> ('a \<times> serialize_state) option) \<Rightarrow> nat \<Rightarrow> 'a list \<Rightarrow> serialize_state \<Rightarrow>
     ('a list \<times> serialize_state) option" where
  "read_elem rd i xs st =
     do { old \<leftarrow> arr_get xs i; (x, st) \<leftarrow> rd old st; xs \<leftarrow> arr_set xs i x; Some (xs, st) }"

definition read_array ::
    "('a \<Rightarrow> serialize_state \<Rightarrow> ('a \<times> serialize_state) option) \<Rightarrow> nat \<Rightarrow> 'a list \<Rightarrow> serialize_state \<Rightarrow>
     ('a list \<times> serialize_state) option" where
  "read_array rd n xs st = loop n (\<lambda>i (xs, st). read_elem rd i xs st) (xs, st)"

definition write_array ::
    "('a \<Rightarrow> serialize_state \<Rightarrow> serialize_state option) \<Rightarrow> nat \<Rightarrow> 'a list \<Rightarrow> serialize_state \<Rightarrow>
     serialize_state option" where
  "write_array wr n xs st = loop n (\<lambda>i st. do { x \<leftarrow> arr_get xs i; wr x st }) st"

definition reserve_array ::
    "('a \<Rightarrow> serialize_state \<Rightarrow> serialize_state option) \<Rightarrow> nat \<Rightarrow> 'a list \<Rightarrow> serialize_state \<Rightarrow>
     serialize_state option" where
  "reserve_array rsv n xs st = loop n (\<lambda>i st. do { x \<leftarrow> arr_get xs i; rsv x st }) st"

lemma reserves_cong: "(\<And>st. f st = g st) \<Longrightarrow> reserves g n \<Longrightarrow> reserves f n"
  by (simp add: reserves_def)

lemma writes_cong: "(\<And>st. f st = g st) \<Longrightarrow> writes g e \<Longrightarrow> writes f e"
  by (simp add: writes_def)

lemma reads_cong: "(\<And>st. f st = g st) \<Longrightarrow> reads g e x \<Longrightarrow> reads f e x"
  by (simp add: reads_def)

lemma reserves_array [ser_simps]:
  assumes "n \<le> length xs" "\<And>x. x \<in> set (take n xs) \<Longrightarrow> reserves (rsv x) (sz x)"
  shows "reserves (reserve_array rsv n xs) (sum_list (map sz (take n xs)))"
proof -
  have "reserves (loop n (\<lambda>i st. do { x \<leftarrow> arr_get xs i; rsv x st })) (sum_list (map (\<lambda>i. sz (xs ! i)) [0..<n]))"
  proof (rule reserves_loop)
    fix i assume i: "i < n"
    have get: "arr_get xs i = Some (xs ! i)" using i assms(1) by simp
    have "reserves (rsv (xs ! i)) (sz (xs ! i))"
      using i assms(1) by (intro assms(2) nth_in_take)
    then show "reserves (\<lambda>st. do { x \<leftarrow> arr_get xs i; rsv x st }) (sz (xs ! i))"
      by (simp only: get Option.bind.simps)
  qed
  then show ?thesis
    using assms(1) by (intro reserves_cong [OF reserve_array_def]) (simp add: map_nth_take)
qed

lemma writes_array [ser_simps]:
  assumes "n \<le> length xs" "\<And>x. x \<in> set (take n xs) \<Longrightarrow> writes (wr x) (enc x)"
  shows "writes (write_array wr n xs) (concat (map enc (take n xs)))"
proof -
  have "writes (loop n (\<lambda>i st. do { x \<leftarrow> arr_get xs i; wr x st })) (concat (map (\<lambda>i. enc (xs ! i)) [0..<n]))"
  proof (rule writes_loop)
    fix i assume i: "i < n"
    have get: "arr_get xs i = Some (xs ! i)" using i assms(1) by simp
    have "writes (wr (xs ! i)) (enc (xs ! i))"
      using i assms(1) by (intro assms(2) nth_in_take)
    then show "writes (\<lambda>st. do { x \<leftarrow> arr_get xs i; wr x st }) (enc (xs ! i))"
      by (simp only: get Option.bind.simps)
  qed
  then show ?thesis
    using assms(1) by (intro writes_cong [OF write_array_def]) (simp add: map_nth_take)
qed

lemma reads_array:
  assumes "n \<le> length src" "n \<le> length old"
    and rd: "\<And>x y. x \<in> set (take n src) \<Longrightarrow> y \<in> set (take n old) \<Longrightarrow> reads (rd y) (enc x) (upd y x)"
  shows "reads (read_array rd n old) (concat (map enc (take n src)))
    (map2 upd (take n old) (take n src) @ drop n old)"
proof -
  define v where "v = (\<lambda>i. upd (old ! i) (src ! i))"
  let ?P = "\<lambda>i xs. length xs = length old \<and> drop i xs = drop i old"
  let ?g = "\<lambda>i xs. xs[i := v i]"
  have step: "reads (read_elem rd i xs) (enc (src ! i)) (?g i xs) \<and> ?P (Suc i) (?g i xs)"
    if i: "i < n" and P: "?P i xs" for i xs
  proof
    have l: "i < length xs" using P i assms(2) by simp
    have l': "xs ! i = old ! i"
      using hd_drop_conv_nth [of i xs] hd_drop_conv_nth [of i old] P l by simp
    have "src ! i \<in> set (take n src)" "old ! i \<in> set (take n old)"
      using i assms(1,2) by (blast intro: nth_in_take)+
    then have "reads (rd (old ! i)) (enc (src ! i)) (v i)"
      unfolding v_def by (rule rd)
    then show "reads (read_elem rd i xs) (enc (src ! i)) (?g i xs)"
      using l l' by (simp add: reads_def read_elem_def)
    have "drop (Suc i) xs = drop (Suc i) old"
      using P by (metis drop_Suc tl_drop)
    then show "?P (Suc i) (?g i xs)" using P by simp
  qed
  have r: "reads (\<lambda>st. loop n (\<lambda>i (xs, st). read_elem rd i xs st) (old, st))
      (concat (map (\<lambda>i. enc (src ! i)) [0..<n])) (floop n ?g old)"
    by (rule reads_loop [where P = ?P, THEN conjunct1], erule step) simp_all
  have "map v [0..<n] = map2 upd (take n old) (take n src)"
    using assms(1,2) by (intro nth_equalityI) (simp_all add: v_def)
  then have "floop n ?g old = map2 upd (take n old) (take n src) @ drop n old"
    using floop_fill [OF assms(2), of v] by simp
  with r show ?thesis
    using assms(1) by (intro reads_cong [OF read_array_def]) (simp add: map_nth_take)
qed

text \<open>The common case: what is read does not depend on the old contents.\<close>

lemma reads_array_fresh:
  assumes "n \<le> length src" "n \<le> length old"
    and "\<And>x y. x \<in> set (take n src) \<Longrightarrow> reads (rd y) (enc x) x"
  shows "reads (read_array rd n old) (concat (map enc (take n src))) (take n src @ drop n old)"
proof -
  have "map2 (\<lambda>y x. x) (take n old) (take n src) = take n src"
    using assms(1,2) by (intro nth_equalityI) simp_all
  then show ?thesis
    using reads_array [OF assms(1,2), of rd enc "\<lambda>y x. x"] assms(3) by simp
qed

section \<open>Messages\<close>

text \<open>
  How every component builds a message: reserve, allocate, write. The result is the final
  state, whose status tells whether the message is complete.
\<close>

definition serialize_with ::
    "env \<Rightarrow> (serialize_state \<Rightarrow> serialize_state option) \<Rightarrow> (serialize_state \<Rightarrow> serialize_state option) \<Rightarrow>
     serialize_state option" where
  "serialize_with E rsv wr =
     do { st \<leftarrow> rsv reserving_state; wr (Serialize_allocate E st) }"

definition message_state :: "u8 list \<Rightarrow> serialize_state" where
  "message_state e =
     \<lparr>ss_status = SERIALIZE_STATE_WRITING, ss_len = length e, ss_offset = length e, ss_buf = Some e\<rparr>"

lemma serialize_with_ok:
  assumes "platform_mem E" "reserves rsv (length e)" "writes wr e" "e \<noteq> []"
  shows "serialize_with E rsv wr = Some (message_state e)"
proof -
  obtain b where b: "malloc E (length e) = Some b" "length b = length e"
    using platform_mem.malloc_ok [OF assms(1)] platform.malloc_length [OF platform_mem.axioms(1) [OF assms(1)]]
    by blast
  let ?st = "\<lparr>ss_status = SERIALIZE_STATE_RESERVING, ss_len = length e, ss_offset = 0, ss_buf = None\<rparr>"
  let ?st' = "\<lparr>ss_status = SERIALIZE_STATE_WRITING, ss_len = length e, ss_offset = 0, ss_buf = Some b\<rparr>"
  have "rsv reserving_state = Some ?st"
    using assms(2) by (simp add: reserves_def reserving_state_def)
  moreover have "Serialize_allocate E ?st = ?st'"
    using assms(4) b by (simp add: Serialize_allocate_def)
  moreover have "wr ?st' = Some (message_state e)"
    using writesD [OF assms(3), of ?st'] b
    by (simp add: room_def emitted_def message_state_def splice_full)
  ultimately show ?thesis by (simp add: serialize_with_def)
qed

lemma deserialize_with_ok:
  assumes "reads rd e x"
  shows "rd (reading_state n (e @ rest)) = Some (x, consumed (reading_state n (e @ rest)) e)"
  using assms by (rule readsD) (simp add: avail_def reading_state_def)

end
