(* ===== verification/Sha256.thy ===== *)
theory Sha256
  imports Serialize
begin

text \<open>
  \<open>sha2-openbsd.c\<close>: the streaming implementation of SHA-256 that the program hashes with. The context
  holds the intermediate hash value, the number of bits and a buffer, of which SHA-256 uses 64 bytes, both
  for the bytes that wait for a full block and, during a transformation, for 16 words of the message
  schedule. The host is little-endian, as the file assumes when nothing else is configured.
\<close>

section \<open>Macros\<close>

definition SHA256_BLOCK_LENGTH :: nat where
  "SHA256_BLOCK_LENGTH = 64"

definition SHA256_SHORT_BLOCK_LENGTH :: nat where
  "SHA256_SHORT_BLOCK_LENGTH = SHA256_BLOCK_LENGTH - 8"

definition REVERSE32 :: "u32 \<Rightarrow> u32" where
  "REVERSE32 w = (let tmp = drop_bit 16 w OR push_bit 16 w
     in drop_bit 8 (tmp AND 0xff00ff00) OR push_bit 8 (tmp AND 0x00ff00ff))"

definition REVERSE64 :: "u64 \<Rightarrow> u64" where
  "REVERSE64 w = (let tmp = drop_bit 32 w OR push_bit 32 w;
       tmp = drop_bit 8 (tmp AND 0xff00ff00ff00ff00) OR push_bit 8 (tmp AND 0x00ff00ff00ff00ff)
     in drop_bit 16 (tmp AND 0xffff0000ffff0000) OR push_bit 16 (tmp AND 0x0000ffff0000ffff))"

definition R :: "nat \<Rightarrow> u32 \<Rightarrow> u32" where
  "R b x = drop_bit b x"

definition S32 :: "nat \<Rightarrow> u32 \<Rightarrow> u32" where
  "S32 b x = drop_bit b x OR push_bit (32 - b) x"

definition Ch :: "u32 \<Rightarrow> u32 \<Rightarrow> u32 \<Rightarrow> u32" where
  "Ch x y z = (x AND y) XOR ((NOT x) AND z)"

definition Maj :: "u32 \<Rightarrow> u32 \<Rightarrow> u32 \<Rightarrow> u32" where
  "Maj x y z = (x AND y) XOR (x AND z) XOR (y AND z)"

definition Sigma0_256 :: "u32 \<Rightarrow> u32" where
  "Sigma0_256 x = S32 2 x XOR S32 13 x XOR S32 22 x"

definition Sigma1_256 :: "u32 \<Rightarrow> u32" where
  "Sigma1_256 x = S32 6 x XOR S32 11 x XOR S32 25 x"

definition sigma0_256 :: "u32 \<Rightarrow> u32" where
  "sigma0_256 x = S32 7 x XOR S32 18 x XOR R 3 x"

definition sigma1_256 :: "u32 \<Rightarrow> u32" where
  "sigma1_256 x = S32 17 x XOR S32 19 x XOR R 10 x"

definition K256 :: "u32 list" where
  "K256 =
     [0x428a2f98, 0x71374491, 0xb5c0fbcf, 0xe9b5dba5] @
     [0x3956c25b, 0x59f111f1, 0x923f82a4, 0xab1c5ed5] @
     [0xd807aa98, 0x12835b01, 0x243185be, 0x550c7dc3] @
     [0x72be5d74, 0x80deb1fe, 0x9bdc06a7, 0xc19bf174] @
     [0xe49b69c1, 0xefbe4786, 0x0fc19dc6, 0x240ca1cc] @
     [0x2de92c6f, 0x4a7484aa, 0x5cb0a9dc, 0x76f988da] @
     [0x983e5152, 0xa831c66d, 0xb00327c8, 0xbf597fc7] @
     [0xc6e00bf3, 0xd5a79147, 0x06ca6351, 0x14292967] @
     [0x27b70a85, 0x2e1b2138, 0x4d2c6dfc, 0x53380d13] @
     [0x650a7354, 0x766a0abb, 0x81c2c92e, 0x92722c85] @
     [0xa2bfe8a1, 0xa81a664b, 0xc24b8b70, 0xc76c51a3] @
     [0xd192e819, 0xd6990624, 0xf40e3585, 0x106aa070] @
     [0x19a4c116, 0x1e376c08, 0x2748774c, 0x34b0bcb5] @
     [0x391c0cb3, 0x4ed8aa4a, 0x5b9cca4f, 0x682e6ff3] @
     [0x748f82ee, 0x78a5636f, 0x84c87814, 0x8cc70208] @
     [0x90befffa, 0xa4506ceb, 0xbef9a3f7, 0xc67178f2]"

definition sha256_initial_hash_value :: "u32 list" where
  "sha256_initial_hash_value =
    [0x6a09e667, 0xbb67ae85, 0x3c6ef372, 0xa54ff53a, 0x510e527f, 0x9b05688c, 0x1f83d9ab, 0x5be0cd19]"

section \<open>The context\<close>

record SHA2_CTX =
  st32 :: "u32 list"
  bitcount :: u64
  buffer :: "u8 list"

text \<open>The context on the stack is not initialised; the second word of the bit count is not used.\<close>

definition SHA256Init :: "SHA2_CTX \<Rightarrow> SHA2_CTX" where
  "SHA256Init context =
     context\<lparr>st32 := sha256_initial_hash_value,
             buffer := splice (buffer context) 0 (replicate SHA256_BLOCK_LENGTH 0),
             bitcount := 0\<rparr>"

text \<open>\<open>W256\<close>, the buffer as an array of words.\<close>

definition W256 :: "u8 list \<Rightarrow> nat \<Rightarrow> u32" where
  "W256 buf j = ucast (buf ! (4 * j)) OR push_bit 8 (ucast (buf ! (4 * j + 1))) OR
     push_bit 16 (ucast (buf ! (4 * j + 2))) OR push_bit 24 (ucast (buf ! (4 * j + 3)))"

definition set_W256 :: "u8 list \<Rightarrow> nat \<Rightarrow> u32 \<Rightarrow> u8 list" where
  "set_W256 buf j w = splice buf (4 * j) (le_bytes 4 w)"

section \<open>Transforming a block\<close>

text \<open>The block to transform is the buffer itself or memory outside the context.\<close>

datatype block_data = In_buffer | Outside "u8 list"

definition data_at :: "block_data \<Rightarrow> u8 list \<Rightarrow> nat \<Rightarrow> u8" where
  "data_at data buf i = (case data of In_buffer \<Rightarrow> buf ! i | Outside bytes \<Rightarrow> bytes ! i)"

definition data_length :: "block_data \<Rightarrow> u8 list \<Rightarrow> nat" where
  "data_length data buf = (case data of In_buffer \<Rightarrow> length buf | Outside bytes \<Rightarrow> length bytes)"

type_synonym registers = "u32 \<times> u32 \<times> u32 \<times> u32 \<times> u32 \<times> u32 \<times> u32 \<times> u32"

text \<open>The compression function with the constant and the word of one round.\<close>

definition sha_round :: "u32 \<Rightarrow> u32 \<Rightarrow> registers \<Rightarrow> registers" where
  "sha_round k w = (\<lambda>(a, b, c, d, e, f, g, h).
     let T1 = h + Sigma1_256 e + Ch e f g + k + w;
         T2 = Sigma0_256 a + Maj a b c
     in (T1 + T2, a, b, c, d + T1, e, f, g))"

definition load_step :: "block_data \<Rightarrow> nat \<Rightarrow> u8 list \<times> registers \<Rightarrow> u8 list \<times> registers" where
  "load_step data j = (\<lambda>(buf, regs).
     let buf = set_W256 buf j
           (ucast (data_at data buf (4 * j + 3)) OR push_bit 8 (ucast (data_at data buf (4 * j + 2))) OR
            push_bit 16 (ucast (data_at data buf (4 * j + 1))) OR push_bit 24 (ucast (data_at data buf (4 * j))))
     in (buf, sha_round (K256 ! j) (W256 buf j) regs))"

definition expand_step :: "nat \<Rightarrow> u8 list \<times> registers \<Rightarrow> u8 list \<times> registers" where
  "expand_step j = (\<lambda>(buf, regs).
     let s0 = sigma0_256 (W256 buf ((j + 1) AND 0x0f));
         s1 = sigma1_256 (W256 buf ((j + 14) AND 0x0f));
         buf = set_W256 buf (j AND 0x0f) (W256 buf (j AND 0x0f) + (s1 + W256 buf ((j + 9) AND 0x0f) + s0))
     in (buf, sha_round (K256 ! j) (W256 buf (j AND 0x0f)) regs))"

definition registers_of :: "u32 list \<Rightarrow> registers" where
  "registers_of s = (s ! 0, s ! 1, s ! 2, s ! 3, s ! 4, s ! 5, s ! 6, s ! 7)"

definition add_registers :: "u32 list \<Rightarrow> registers \<Rightarrow> u32 list" where
  "add_registers s = (\<lambda>(a, b, c, d, e, f, g, h).
     [s ! 0 + a, s ! 1 + b, s ! 2 + c, s ! 3 + d, s ! 4 + e, s ! 5 + f, s ! 6 + g, s ! 7 + h])"

definition SHA256Transform :: "SHA2_CTX \<Rightarrow> block_data \<Rightarrow> SHA2_CTX option" where
  "SHA256Transform context data =
     (if data_length data (buffer context) < SHA256_BLOCK_LENGTH \<or> length (st32 context) < 8 then None
      else let s = floop 16 (load_step data) (buffer context, registers_of (st32 context));
               s = floop 48 (\<lambda>i. expand_step (16 + i)) s
           in Some (context\<lparr>buffer := fst s, st32 := add_registers (st32 context) (snd s)\<rparr>))"

section \<open>Update and final\<close>

text \<open>\<open>bcopy\<close> into the buffer, and the count of bits.\<close>

definition fill_buffer :: "SHA2_CTX \<Rightarrow> nat \<Rightarrow> u8 list \<Rightarrow> SHA2_CTX" where
  "fill_buffer context off bytes = context\<lparr>buffer := splice (buffer context) off bytes\<rparr>"

definition count_bytes :: "SHA2_CTX \<Rightarrow> nat \<Rightarrow> SHA2_CTX" where
  "count_bytes context n = context\<lparr>bitcount := bitcount context + push_bit 3 (of_nat n)\<rparr>"

definition used_space :: "SHA2_CTX \<Rightarrow> nat" where
  "used_space context = unat (drop_bit 3 (bitcount context)) mod SHA256_BLOCK_LENGTH"

function update_blocks :: "SHA2_CTX \<Rightarrow> u8 list \<Rightarrow> SHA2_CTX option" where
  "update_blocks context data =
     (if SHA256_BLOCK_LENGTH \<le> length data then do {
        context \<leftarrow> SHA256Transform context (Outside data);
        update_blocks (count_bytes context SHA256_BLOCK_LENGTH) (drop SHA256_BLOCK_LENGTH data) }
      else if 0 < length data then Some (count_bytes (fill_buffer context 0 data) (length data))
      else Some context)"
  by pat_completeness auto

termination
  by (relation "measure (\<lambda>(context, data). length data)") (auto simp: SHA256_BLOCK_LENGTH_def)

declare update_blocks.simps [simp del]

definition SHA256Update :: "SHA2_CTX \<Rightarrow> u8 list \<Rightarrow> nat \<Rightarrow> SHA2_CTX option" where
  "SHA256Update context data len =
     (if len = 0 then Some context
      else if length data < len then None
      else let usedspace = used_space context in
        if 0 < usedspace then
          let freespace = SHA256_BLOCK_LENGTH - usedspace in
          if freespace \<le> len then do {
            let context = count_bytes (fill_buffer context usedspace (take freespace data)) freespace;
            context \<leftarrow> SHA256Transform context In_buffer;
            update_blocks context (take (len - freespace) (drop freespace data)) }
          else Some (count_bytes (fill_buffer context usedspace (take len data)) len)
        else update_blocks context (take len data))"

text \<open>The padding, up to the count of bits.\<close>

definition pad_buffer :: "SHA2_CTX \<Rightarrow> nat \<Rightarrow> SHA2_CTX option" where
  "pad_buffer context usedspace =
     (if 0 < usedspace then
        let context = context\<lparr>buffer := (buffer context)[usedspace := 0x80]\<rparr>;
            usedspace = usedspace + 1
        in if usedspace \<le> SHA256_SHORT_BLOCK_LENGTH
           then Some (fill_buffer context usedspace (replicate (SHA256_SHORT_BLOCK_LENGTH - usedspace) 0))
           else do {
             let context = (if usedspace < SHA256_BLOCK_LENGTH
                            then fill_buffer context usedspace (replicate (SHA256_BLOCK_LENGTH - usedspace) 0)
                            else context);
             context \<leftarrow> SHA256Transform context In_buffer;
             Some (fill_buffer context 0 (replicate SHA256_SHORT_BLOCK_LENGTH 0)) }
      else
        let context = fill_buffer context 0 (replicate SHA256_SHORT_BLOCK_LENGTH 0)
        in Some (context\<lparr>buffer := (buffer context)[0 := 0x80]\<rparr>))"

text \<open>The digest, in the order of the bytes in memory, and the cleared context.\<close>

definition SHA256Final :: "SHA2_CTX \<Rightarrow> (u8 list \<times> SHA2_CTX) option" where
  "SHA256Final context =
     do {
       let usedspace = used_space context;
       let context = context\<lparr>bitcount := REVERSE64 (bitcount context)\<rparr>;
       context \<leftarrow> pad_buffer context usedspace;
       let context = fill_buffer context SHA256_SHORT_BLOCK_LENGTH (le_bytes 8 (bitcount context));
       context \<leftarrow> SHA256Transform context In_buffer;
       let context = context\<lparr>st32 := map REVERSE32 (st32 context)\<rparr>;
       Some (concat (map (le_bytes 4) (st32 context)),
             \<lparr>st32 = replicate 8 0, bitcount = 0, buffer = replicate (length (buffer context)) 0\<rparr>) }"

text \<open>A digest as the program computes it: a context, some updates with all their bytes, the digest.\<close>

primrec update_all :: "u8 list list \<Rightarrow> SHA2_CTX \<Rightarrow> SHA2_CTX option" where
  "update_all [] context = Some context"
| "update_all (x # xs) context = do { context \<leftarrow> SHA256Update context x (length x); update_all xs context }"

end
