(* ===== verification/Sha256Proofs.thy ===== *)
theory Sha256Proofs
  imports Sha256
begin

text \<open>
  SHA-256 as the standard (FIPS 180-4) defines it, on whole messages: padding, the schedule of 64 words by
  its recurrence, the compression of one block after the other. The streaming implementation computes it,
  however the message is cut into updates.
\<close>

section \<open>The standard\<close>

definition be_word :: "u8 list \<Rightarrow> nat \<Rightarrow> u32" where
  "be_word m t = ucast (m ! (4 * t + 3)) OR push_bit 8 (ucast (m ! (4 * t + 2))) OR
     push_bit 16 (ucast (m ! (4 * t + 1))) OR push_bit 24 (ucast (m ! (4 * t)))"

fun schedule :: "u8 list \<Rightarrow> nat \<Rightarrow> u32" where
  "schedule m t =
     (if t < 16 then be_word m t
      else sigma1_256 (schedule m (t - 2)) + schedule m (t - 7) + sigma0_256 (schedule m (t - 15)) + schedule m (t - 16))"

declare schedule.simps [simp del]

definition compress :: "u32 list \<Rightarrow> u8 list \<Rightarrow> u32 list" where
  "compress s m = add_registers s (floop 64 (\<lambda>t. sha_round (K256 ! t) (schedule m t)) (registers_of s))"

fun hash_blocks :: "u32 list \<Rightarrow> u8 list \<Rightarrow> u32 list" where
  "hash_blocks s m = (if length m < 64 then s else hash_blocks (compress s (take 64 m)) (drop 64 m))"

declare hash_blocks.simps [simp del]

definition be_bytes :: "nat \<Rightarrow> 'a::len word \<Rightarrow> u8 list" where
  "be_bytes n w = rev (le_bytes n w)"

definition sha_padding :: "nat \<Rightarrow> u8 list" where
  "sha_padding n = 0x80 # replicate ((119 - n mod 64) mod 64) 0 @ be_bytes 8 (of_nat (8 * n) :: u64)"

definition sha256_spec :: "u8 list \<Rightarrow> u8 list" where
  "sha256_spec m = concat (map (be_bytes 4) (hash_blocks sha256_initial_hash_value (m @ sha_padding (length m))))"

text \<open>The padded message consists of full blocks.\<close>

lemma sha_padding_length: "64 dvd n + length (sha_padding n)"
proof -
  have "n + length (sha_padding n) = n + 9 + (119 - n mod 64) mod 64" by (simp add: sha_padding_def be_bytes_def)
  moreover have "64 dvd n + 9 + (119 - n mod 64) mod 64"
  proof -
    obtain q r where n: "n = 64 * q + r" "r < 64"
      using mult_div_mod_eq [of 64 n] mod_less_divisor [of 64 n] by (metis zero_less_numeral)
    show ?thesis
    proof (cases "r \<le> 55")
      case True
      then obtain d where d: "55 = r + d" using le_Suc_ex by blast
      then have "119 - r = d + 64" "d < 64" by simp_all
      then have "(119 - r) mod 64 = d" by simp
      then have "n + 9 + (119 - n mod 64) mod 64 = 64 * (q + 1)" using n d by simp
      then show ?thesis by (simp only: dvd_triv_left)
    next
      case False
      then obtain d where d: "r = 56 + d" "d < 8" using n(2) by (intro that [of "r - 56"]) simp_all
      then have "(119 - r) mod 64 = 63 - d" by simp
      then have "n + 9 + (119 - n mod 64) mod 64 = 64 * (q + 2)" using n d by simp
      then show ?thesis by (simp only: dvd_triv_left)
    qed
  qed
  ultimately show ?thesis by (simp only:)
qed

lemma length_add_registers [simp]: "length (add_registers s r) = 8"
  by (simp add: add_registers_def split: prod.splits)

lemma length_compress [simp]: "length (compress s m) = 8"
  by (simp add: compress_def)

lemma length_hash_blocks: "length s = 8 \<Longrightarrow> length (hash_blocks s m) = 8"
proof (induction s m rule: hash_blocks.induct)
  case (1 s m)
  then show ?case by (subst hash_blocks.simps) simp
qed

lemma length_hash_value [simp]: "length (hash_blocks sha256_initial_hash_value m) = 8"
  by (rule length_hash_blocks) (simp add: sha256_initial_hash_value_def)

lemma length_sha256_spec: "length (sha256_spec m) = 32"
proof -
  show ?thesis by (simp add: sha256_spec_def length_concat comp_def be_bytes_def sum_list_triv)
qed

lemma hash_blocks_append: "64 dvd length m \<Longrightarrow> hash_blocks s (m @ m') = hash_blocks (hash_blocks s m) m'"
proof (induction s m rule: hash_blocks.induct)
  case (1 s m)
  show ?case
  proof (cases "length m < 64")
    case True
    then have "m = []" using 1(2) by (auto dest: dvd_imp_le)
    then show ?thesis by (simp add: hash_blocks.simps [of s "[]"])
  next
    case False
    have "hash_blocks s (m @ m') = hash_blocks (compress s (take 64 m)) (drop 64 m @ m')"
      using False by (subst hash_blocks.simps) simp
    also have "\<dots> = hash_blocks (hash_blocks (compress s (take 64 m)) (drop 64 m)) m'"
      using 1 False by (simp add: dvd_diff_nat)
    also have "hash_blocks (compress s (take 64 m)) (drop 64 m) = hash_blocks s m"
      using False by (subst hash_blocks.simps [of s m]) simp
    finally show ?thesis .
  qed
qed

lemma hash_blocks_one: "length m = 64 \<Longrightarrow> hash_blocks s m = compress s m"
  by (subst hash_blocks.simps) (simp add: hash_blocks.simps [of _ "[]"])

section \<open>The circular buffer of words\<close>

lemma length_set_W256 [simp]: "4 * j + 4 \<le> length buf \<Longrightarrow> length (set_W256 buf j w) = length buf"
  by (simp add: set_W256_def)

lemma set_W256_nth:
  "4 * j + 4 \<le> length buf \<Longrightarrow> set_W256 buf j w ! i =
     (if 4 * j \<le> i \<and> i < 4 * j + 4 then le_bytes 4 w ! (i - 4 * j) else buf ! i)"
  by (auto simp: set_W256_def splice_def nth_append)

lemma word_of_bytes:
  fixes w :: u32
  shows "ucast (ucast w :: u8) OR push_bit 8 (ucast (ucast (drop_bit 8 w) :: u8)) OR
    push_bit 16 (ucast (ucast (drop_bit 16 w) :: u8)) OR push_bit 24 (ucast (ucast (drop_bit 24 w) :: u8)) = w" (is "?l = _")
proof (rule bit_word_eqI)
  fix n assume "n < LENGTH(32)"
  then show "bit ?l n = bit w n"
    by (cases "n < 8"; cases "n < 16"; cases "n < 24") (auto simp: bit_simps)
qed

lemma W256_bytes: "W256 (a @ le_bytes 4 w @ b) n = w" if "length a = 4 * n" for w :: u32
proof -
  have "(a @ le_bytes 4 w @ b) ! (4 * n + i) = ucast (drop_bit (8 * i) w)" if "i < 4" for i
    using \<open>length a = 4 * n\<close> that by (simp add: nth_append le_bytes_def)
  from this [of 0] this [of 1] this [of 2] this [of 3] show ?thesis
    unfolding W256_def
    by simp (rule word_of_bytes)
qed

lemma W256_set:
  assumes "4 * j + 4 \<le> length buf"
  shows "W256 (set_W256 buf j w) i = (if i = j then w else W256 buf i)"
proof (cases "i = j")
  case True
  have "W256 (take (4 * j) buf @ le_bytes 4 w @ drop (4 * j + 4) buf) j = w"
    using assms by (intro W256_bytes) simp
  with True show ?thesis by (simp add: set_W256_def splice_def)
next
  case False
  then have "set_W256 buf j w ! (4 * i + k) = buf ! (4 * i + k)" if "k < 4" for k
    using assms that by (auto simp: set_W256_nth)
  from this [of 0] this [of 1] this [of 2] this [of 3] False show ?thesis by (simp add: W256_def)
qed

section \<open>Transforming one block\<close>

text \<open>The block that a transformation starts with.\<close>

definition block_of :: "block_data \<Rightarrow> u8 list \<Rightarrow> u8 list" where
  "block_of data buf = (case data of In_buffer \<Rightarrow> take 64 buf | Outside bytes \<Rightarrow> take 64 bytes)"

text \<open>The first 16 rounds store the words of the block, also when they overwrite its bytes.\<close>

lemma load_correct:
  assumes "length buf = 128" "64 \<le> data_length data buf" "n \<le> 16"
  shows "case floop n (load_step data) (buf, r) of (buf', r') \<Rightarrow>
    length buf' = 128 \<and> (\<forall>i \<ge> 4 * n. buf' ! i = buf ! i) \<and>
    (\<forall>t < n. W256 buf' t = schedule (block_of data buf) t) \<and>
    r' = floop n (\<lambda>t. sha_round (K256 ! t) (schedule (block_of data buf) t)) r"
  using assms(3)
proof (induction n)
  case (Suc n)
  obtain buf1 r1 where s: "floop n (load_step data) (buf, r) = (buf1, r1)" by (rule prod.exhaust)
  with Suc have IH: "length buf1 = 128" "\<forall>i \<ge> 4 * n. buf1 ! i = buf ! i"
    "\<forall>t < n. W256 buf1 t = schedule (block_of data buf) t"
    "r1 = floop n (\<lambda>t. sha_round (K256 ! t) (schedule (block_of data buf) t)) r" by auto
  have "data_at data buf1 (4 * n + k) = block_of data buf ! (4 * n + k)" if "k < 4" for k
    using IH(2) assms(2) that Suc.prems by (cases data) (simp_all add: data_at_def block_of_def data_length_def)
  from this [of 0] this [of 1] this [of 2] this [of 3]
  have w: "ucast (data_at data buf1 (4 * n + 3)) OR push_bit 8 (ucast (data_at data buf1 (4 * n + 2))) OR
      push_bit 16 (ucast (data_at data buf1 (4 * n + 1))) OR push_bit 24 (ucast (data_at data buf1 (4 * n))) =
      schedule (block_of data buf) n"
    using Suc.prems by (simp add: schedule.simps [of _ n] be_word_def)
  have room: "4 * n + 4 \<le> length buf1" using IH(1) Suc.prems by simp
  have "load_step data n (buf1, r1) = (set_W256 buf1 n (schedule (block_of data buf) n),
      sha_round (K256 ! n) (schedule (block_of data buf) n) r1)"
    unfolding load_step_def prod.case Let_def w using room by (simp add: W256_set)
  then show ?case
    using IH room by (simp add: s W256_set set_W256_nth less_Suc_eq)
qed (simp add: assms(1))

text \<open>Each later round replaces the word of 16 rounds ago.\<close>

lemma expand_correct:
  assumes "length buf = 128" "\<forall>t < 16. W256 buf t = schedule m t" "n \<le> 48"
  shows "case floop n (\<lambda>i. expand_step (16 + i)) (buf, floop 16 (\<lambda>t. sha_round (K256 ! t) (schedule m t)) r) of
    (buf', r') \<Rightarrow> length buf' = 128 \<and> (\<forall>t. n \<le> t \<and> t < n + 16 \<longrightarrow> W256 buf' (t mod 16) = schedule m t) \<and>
      r' = floop (16 + n) (\<lambda>t. sha_round (K256 ! t) (schedule m t)) r"
  using assms(3)
proof (induction n)
  case 0
  show ?case using assms(1,2) by simp
next
  case (Suc n)
  let ?R = "\<lambda>n. floop n (\<lambda>t. sha_round (K256 ! t) (schedule m t)) r"
  obtain buf1 r1 where s: "floop n (\<lambda>i. expand_step (16 + i)) (buf, ?R 16) = (buf1, r1)" by (rule prod.exhaust)
  with Suc have IH: "length buf1 = 128" "\<And>t. n \<le> t \<Longrightarrow> t < n + 16 \<Longrightarrow> W256 buf1 (t mod 16) = schedule m t"
    "r1 = ?R (16 + n)" by auto
  have a: "x AND 0x0f = x mod 16" for x :: nat
    using take_bit_eq_mask [of 4 x] take_bit_eq_mod [of 4 x] by (simp add: mask_eq_exp_minus_1)
  have r: "W256 buf1 ((16 + n + k) mod 16) = schedule m (n + k)" if "k < 16" for k
    using IH(2) [of "n + k"] that by (simp add: mod_add_left_eq add.assoc)
  have w: "W256 buf1 ((16 + n) mod 16) + (sigma1_256 (W256 buf1 ((16 + n + 14) mod 16)) + W256 buf1 ((16 + n + 9) mod 16) +
      sigma0_256 (W256 buf1 ((16 + n + 1) mod 16))) = schedule m (16 + n)"
    using r [of 0] r [of 14] r [of 9] r [of 1] by (simp add: schedule.simps [of m "n + 16"] add.commute add.left_commute)
  have room: "4 * ((16 + n) mod 16) + 4 \<le> length buf1" using IH(1) mod_less_divisor [of 16 "16 + n"] by simp
  let ?buf = "set_W256 buf1 ((16 + n) mod 16) (schedule m (16 + n))"
  have "W256 ?buf (t mod 16) = schedule m t" if t: "Suc n \<le> t" "t < Suc n + 16" for t
  proof (cases "t = 16 + n")
    case True
    then show ?thesis using room by (simp add: W256_set)
  next
    case False
    then have "\<not> 16 dvd (16 + n - t)" using t by (intro nat_dvd_not_less) linarith+
    then have "t mod 16 \<noteq> (16 + n) mod 16" using t False mod_eq_dvd_iff_nat [of t "16 + n" 16] by linarith
    then show ?thesis using room IH(2) t False by (simp add: W256_set)
  qed
  moreover have R: "?R (16 + Suc n) = sha_round (K256 ! (16 + n)) (schedule m (16 + n)) (?R (16 + n))"
    by (simp only: add_Suc_right floop.simps)
  moreover have "expand_step (16 + n) (buf1, r1) = (?buf, ?R (16 + Suc n))"
    unfolding expand_step_def prod.case Let_def a w using room R [simplified] by (simp add: IH(3) W256_set)
  ultimately show ?case using IH(1) room by (simp add: s)
qed

lemma SHA256Transform_correct:
  assumes "length (st32 c) = 8" "length (buffer c) = 128" "64 \<le> data_length data (buffer c)"
  shows "\<exists>buf. length buf = 128 \<and> SHA256Transform c data =
    Some (c\<lparr>buffer := buf, st32 := compress (st32 c) (block_of data (buffer c))\<rparr>)"
proof -
  let ?m = "block_of data (buffer c)" and ?r = "registers_of (st32 c)"
  let ?R = "\<lambda>n. floop n (\<lambda>t. sha_round (K256 ! t) (schedule ?m t)) ?r"
  obtain buf1 r1 where 1: "floop 16 (load_step data) (buffer c, ?r) = (buf1, r1)" by (rule prod.exhaust)
  with load_correct [OF assms(2,3), of 16 ?r]
  have l: "length buf1 = 128" "\<forall>t < 16. W256 buf1 t = schedule ?m t" "r1 = ?R 16" by auto
  obtain buf2 r2 where 2: "floop 48 (\<lambda>i. expand_step (16 + i)) (buf1, ?R 16) = (buf2, r2)" by (rule prod.exhaust)
  with expand_correct [OF l(1,2), of 48 ?r] have "length buf2 = 128" "r2 = ?R 64" by auto
  with 1 2 l(3) assms show ?thesis
    by (intro exI [of _ buf2]) (simp add: SHA256Transform_def compress_def SHA256_BLOCK_LENGTH_def Let_def)
qed

section \<open>Streaming\<close>

text \<open>A context that has taken in the bytes \<open>m\<close>.\<close>

definition absorbed :: "u8 list \<Rightarrow> SHA2_CTX \<Rightarrow> bool" where
  "absorbed m c \<longleftrightarrow> length (st32 c) = 8 \<and> length (buffer c) = 128 \<and> bitcount c = of_nat (8 * length m) \<and>
     (\<exists>full. 64 dvd length full \<and> st32 c = hash_blocks sha256_initial_hash_value full \<and>
        m = full @ take (length m mod 64) (buffer c))"

lemma absorbed_used: "absorbed m c \<Longrightarrow> used_space c = length m mod 64"
proof -
  assume "absorbed m c"
  then have b: "bitcount c = of_nat (8 * length m)" by (simp add: absorbed_def)
  have "unat (drop_bit 3 (bitcount c)) = drop_bit 3 (8 * length m mod 2 ^ 64)"
    unfolding b by (simp only: unat_drop_bit_eq unat_of_nat) simp
  then have "unat (drop_bit 3 (bitcount c)) = 8 * length m mod 2 ^ 64 div 8"
    by (simp add: drop_bit_eq_div)
  also have "8 * length m mod 2 ^ 64 div 8 = length m mod 2 ^ 61"
  proof -
    have "8 * length m mod 2 ^ 64 = 8 * (length m mod 2 ^ 61)" by (simp only: mult_mod_right) simp
    then show ?thesis by (simp only: nonzero_mult_div_cancel_left zero_neq_numeral not_False_eq_True ac_simps)
  qed
  finally show ?thesis
    by (simp add: used_space_def SHA256_BLOCK_LENGTH_def mod_mod_cancel)
qed

lemma SHA256Init_absorbed: "length (st32 c) = 8 \<Longrightarrow> length (buffer c) = 128 \<Longrightarrow> absorbed [] (SHA256Init c)"
  by (auto simp: absorbed_def SHA256Init_def SHA256_BLOCK_LENGTH_def sha256_initial_hash_value_def
      hash_blocks.simps [of _ "[]"] intro!: exI [of _ "[]"])

lemma count_sum: "of_nat (8 * n) + push_bit 3 (of_nat k) = (of_nat (8 * (n + k)) :: u64)"
  by (simp add: push_bit_eq_mult algebra_simps)

text \<open>Whole blocks, and what is left in the buffer.\<close>

lemma update_blocks_correct:
  "absorbed m c \<Longrightarrow> length m mod 64 = 0 \<Longrightarrow>
    \<exists>c'. update_blocks c data = Some c' \<and> absorbed (m @ data) c'"
proof (induction c data arbitrary: m rule: update_blocks.induct)
  case (1 c data)
  then have c: "length (st32 c) = 8" "length (buffer c) = 128" "bitcount c = of_nat (8 * length m)" "64 dvd length m"
    "st32 c = hash_blocks sha256_initial_hash_value m"
    by (auto simp: absorbed_def mod_eq_0_iff_dvd)
  show ?case
  proof (cases "64 \<le> length data")
    case True
    then obtain buf where t: "length buf = 128"
      "SHA256Transform c (Outside data) = Some (c\<lparr>buffer := buf, st32 := compress (st32 c) (take 64 data)\<rparr>)"
      using SHA256Transform_correct [OF c(1,2), of "Outside data"] by (auto simp: data_length_def block_of_def)
    let ?c = "count_bytes (c\<lparr>buffer := buf, st32 := compress (st32 c) (take 64 data)\<rparr>) SHA256_BLOCK_LENGTH"
    have "compress (st32 c) (take 64 data) = hash_blocks sha256_initial_hash_value (m @ take 64 data)"
      using True by (simp add: hash_blocks_append [OF c(4)] c(5) hash_blocks_one)
    then have a: "absorbed (m @ take 64 data) ?c"
      using True t(1) c(3,4) count_sum [of "length m" 64]
      by (auto simp: absorbed_def count_bytes_def SHA256_BLOCK_LENGTH_def add.commute intro!: exI [of _ "m @ take 64 data"])
    have "\<exists>c'. update_blocks ?c (drop 64 data) = Some c' \<and> absorbed ((m @ take 64 data) @ drop 64 data) c'"
      using 1(1) [OF _ t(2) a] True c(4) by (simp add: SHA256_BLOCK_LENGTH_def mod_eq_0_iff_dvd)
    then show ?thesis
      using True t(2) by (subst update_blocks.simps) (simp add: SHA256_BLOCK_LENGTH_def)
  next
    case False
    then have "absorbed (m @ data) (count_bytes (fill_buffer c 0 data) (length data))"
      using c count_sum [of "length m" "length data"] 1(3)
      by (auto simp: absorbed_def count_bytes_def fill_buffer_def splice_def mod_eq_0_iff_dvd intro!: exI [of _ m])
    with False 1(2) show ?thesis
      by (subst update_blocks.simps) (auto simp: SHA256_BLOCK_LENGTH_def)
  qed
qed

lemma absorb_block:
  assumes "length (st32 c) = 8" "length (buffer c) = 128"
    and "st32 c = hash_blocks sha256_initial_hash_value full" "64 dvd length full" "take 64 (buffer c) = block"
  shows "\<exists>buf. length buf = 128 \<and> SHA256Transform c In_buffer =
    Some (c\<lparr>buffer := buf, st32 := hash_blocks sha256_initial_hash_value (full @ block)\<rparr>)"
proof -
  have "length block = 64" using assms(2,5) by auto
  then show ?thesis
    using SHA256Transform_correct [OF assms(1,2), of In_buffer] assms(2-5)
    by (simp add: data_length_def block_of_def hash_blocks_append hash_blocks_one)
qed

lemma SHA256Update_correct:
  assumes "absorbed m c" "len \<le> length data"
  shows "\<exists>c'. SHA256Update c data len = Some c' \<and> absorbed (m @ take len data) c'"
proof (cases "len = 0")
  case True
  with assms show ?thesis by (simp add: SHA256Update_def)
next
  case nonzero: False
  define u where "u = length m mod 64"
  have u: "used_space c = u" "u < 64" using absorbed_used [OF assms(1)] by (simp_all add: u_def)
  obtain full where full: "length (st32 c) = 8" "length (buffer c) = 128" "bitcount c = of_nat (8 * length m)"
    "64 dvd length full" "st32 c = hash_blocks sha256_initial_hash_value full" "m = full @ take u (buffer c)"
    using assms(1) unfolding absorbed_def u_def by blast
  have m: "length m = length full + u" using full(2) u(2) by (subst full(6)) simp
  consider "u = 0" | "0 < u" "64 - u \<le> len" | "0 < u" "len < 64 - u" by linarith
  then show ?thesis
  proof cases
    case 1
    then show ?thesis
      using update_blocks_correct [OF assms(1), of "take len data"] nonzero assms(2) u
      by (simp add: SHA256Update_def u_def)
  next
    case 2
    let ?f = "64 - u"
    let ?c = "count_bytes (fill_buffer c u (take ?f data)) ?f"
    have sel: "st32 ?c = st32 c" "buffer ?c = splice (buffer c) u (take ?f data)" "bitcount ?c = of_nat (8 * (length m + ?f))"
      using count_sum [of "length m" ?f] full(3) by (simp_all add: count_bytes_def fill_buffer_def)
    have "take 64 (buffer ?c) = take u (buffer c) @ take ?f data"
      using 2 u(2) full(2) assms(2) unfolding sel by (simp add: splice_def)
    then obtain buf where t: "length buf = 128" "SHA256Transform ?c In_buffer =
        Some (?c\<lparr>buffer := buf, st32 := hash_blocks sha256_initial_hash_value (m @ take ?f data)\<rparr>)"
      using absorb_block [of ?c full "take u (buffer c) @ take ?f data"] full 2 assms(2) u(2) sel
      by (auto simp: append_assoc [symmetric] simp del: append_assoc)
    have dvd: "64 dvd length (m @ take ?f data)" using m full(4) 2 assms(2) u(2) by simp
    have "absorbed (m @ take ?f data) (?c\<lparr>buffer := buf, st32 := hash_blocks sha256_initial_hash_value (m @ take ?f data)\<rparr>)"
      using t(1) sel(3) 2 assms(2) dvd length_hash_blocks [of sha256_initial_hash_value]
      unfolding absorbed_def by (intro conjI exI [of _ "m @ take ?f data"]) (simp_all add: sha256_initial_hash_value_def mod_eq_0_iff_dvd)
    from update_blocks_correct [OF this, of "take (len - ?f) (drop ?f data)"] dvd 2
    have "\<exists>c'. update_blocks (?c\<lparr>buffer := buf, st32 := hash_blocks sha256_initial_hash_value (m @ take ?f data)\<rparr>)
        (take (len - ?f) (drop ?f data)) = Some c' \<and> absorbed (m @ take len data) c'"
      using take_add [of ?f "len - ?f" data] by (simp add: mod_eq_0_iff_dvd)
    with t(2) 2 nonzero assms(2) u show ?thesis by (simp add: SHA256Update_def SHA256_BLOCK_LENGTH_def Let_def)
  next
    case 3
    let ?c = "count_bytes (fill_buffer c u (take len data)) len"
    have sel: "st32 ?c = st32 c" "buffer ?c = splice (buffer c) u (take len data)" "bitcount ?c = of_nat (8 * (length m + len))"
      using count_sum [of "length m" len] full(3) by (simp_all add: count_bytes_def fill_buffer_def)
    have "(length m + len) mod 64 = u + len" using 3 u(2) full(4) m by (auto simp: dvd_def add.assoc)
    then have "absorbed (m @ take len data) ?c"
      using full(1-5) 3 assms(2) unfolding absorbed_def sel
      by (intro conjI exI [of _ full]) (simp_all add: splice_def, subst full(6), simp)
    with 3 nonzero assms(2) u show ?thesis by (simp add: SHA256Update_def SHA256_BLOCK_LENGTH_def Let_def)
  qed
qed

lemma update_all_correct:
  "absorbed m c \<Longrightarrow> \<exists>c'. update_all chunks c = Some c' \<and> absorbed (m @ concat chunks) c'"
proof (induction chunks arbitrary: m c)
  case (Cons x chunks)
  then obtain c1 where "SHA256Update c x (length x) = Some c1" "absorbed (m @ x) c1"
    using SHA256Update_correct [of m c "length x" x] by auto
  with Cons.IH [of "m @ x" c1] show ?case by simp
qed simp

section \<open>The last blocks\<close>

lemma bits_eqI: "list_all (\<lambda>n. bit x n = bit y n) [0..<LENGTH('a)] \<Longrightarrow> x = y" for x y :: "'a::len word"
  by (rule bit_word_eqI) (simp add: list_all_iff)

lemma reverse32_bytes: "le_bytes 4 (REVERSE32 w) = be_bytes 4 w"
proof -
  have "\<not> bit w n" if "32 \<le> n" for n using that bit_imp_le_length [of w n] by auto
  then show ?thesis
    unfolding be_bytes_def le_bytes_def REVERSE32_def Let_def
    by (simp add: upt_rec) (intro conjI; rule bits_eqI; simp add: upt_rec bit_simps)
qed

lemma reverse64_bytes: "le_bytes 8 (REVERSE64 w) = be_bytes 8 w"
proof -
  have "\<not> bit w n" if "64 \<le> n" for n using that bit_imp_le_length [of w n] by auto
  then show ?thesis
    unfolding be_bytes_def le_bytes_def REVERSE64_def Let_def
    by (simp add: upt_rec) (intro conjI; rule bits_eqI; simp add: upt_rec bit_simps)
qed

text \<open>The final transformation, once the bits are counted in the last 8 bytes.\<close>

lemma final_block:
  assumes "length (st32 c) = 8" "length (buffer c) = 128"
    and "st32 c = hash_blocks sha256_initial_hash_value full" "64 dvd length full"
    and "full @ take 56 (buffer c) @ be_bytes 8 n = m @ sha_padding (length m)" "bitcount c = REVERSE64 n"
  shows "\<exists>buf. SHA256Transform (fill_buffer c SHA256_SHORT_BLOCK_LENGTH (le_bytes 8 (bitcount c))) In_buffer =
    Some (c\<lparr>buffer := buf, st32 := hash_blocks sha256_initial_hash_value (m @ sha_padding (length m))\<rparr>)"
proof -
  let ?c = "fill_buffer c SHA256_SHORT_BLOCK_LENGTH (le_bytes 8 (bitcount c))"
  have sel: "st32 ?c = st32 c" "buffer ?c = splice (buffer c) 56 (be_bytes 8 n)"
    by (simp_all add: fill_buffer_def SHA256_SHORT_BLOCK_LENGTH_def SHA256_BLOCK_LENGTH_def assms(6) reverse64_bytes)
  have "take 64 (buffer ?c) = take 56 (buffer c) @ be_bytes 8 n"
    unfolding sel using assms(2) by (simp add: splice_def be_bytes_def)
  with absorb_block [of ?c full "take 56 (buffer c) @ be_bytes 8 n"] assms(1-5) sel show ?thesis
    by (auto simp: be_bytes_def fill_buffer_def)
qed

lemma SHA256Final_correct:
  assumes "absorbed m c"
  shows "\<exists>c'. SHA256Final c = Some (sha256_spec m, c')"
proof -
  define u where "u = length m mod 64"
  have u: "used_space c = u" "u < 64" using absorbed_used [OF assms(1)] by (simp_all add: u_def)
  obtain full where full: "length (st32 c) = 8" "length (buffer c) = 128" "bitcount c = of_nat (8 * length m)"
    "64 dvd length full" "st32 c = hash_blocks sha256_initial_hash_value full" "m = full @ take u (buffer c)"
    using assms(1) unfolding absorbed_def u_def by blast
  let ?n = "of_nat (8 * length m) :: u64"
  let ?c = "c\<lparr>bitcount := REVERSE64 ?n\<rparr>"
  have final: "\<exists>c'. SHA256Final c = Some (sha256_spec m, c')"
    if "pad_buffer ?c u = Some c1"
      and "length (st32 c1) = 8" "length (buffer c1) = 128" "st32 c1 = hash_blocks sha256_initial_hash_value f"
      "64 dvd length f" "f @ take 56 (buffer c1) @ be_bytes 8 ?n = m @ sha_padding (length m)" "bitcount c1 = REVERSE64 ?n"
    for c1 f
  proof -
    from final_block [OF that(2-7)] obtain buf where t:
      "SHA256Transform (fill_buffer c1 SHA256_SHORT_BLOCK_LENGTH (le_bytes 8 (bitcount c1))) In_buffer =
        Some (c1\<lparr>buffer := buf, st32 := hash_blocks sha256_initial_hash_value (m @ sha_padding (length m))\<rparr>)" by blast
    show ?thesis
      unfolding SHA256Final_def u full(3) Let_def that(1) bind.bind_lunit t
      by (simp add: sha256_spec_def comp_def reverse32_bytes del: of_nat_mult)
  qed
  have pad: "m @ sha_padding (length m) =
      full @ take u (buffer c) @ 0x80 # replicate ((119 - u) mod 64) 0 @ be_bytes 8 ?n"
    unfolding sha_padding_def u_def [symmetric] by (subst full(6)) simp
  consider "u = 0" | "0 < u" "u < 56" | "56 \<le> u" by linarith
  then show ?thesis
  proof cases
    case 1
    have zeros: "replicate 56 (0 :: u8) = 0 # replicate 55 0" by (subst replicate_Suc [symmetric]) simp
    from 1 show ?thesis
      using full(1-5) pad
      by (intro final [of "?c\<lparr>buffer := (splice (buffer c) 0 (replicate 56 0))[0 := 0x80]\<rparr>" full])
        (simp_all add: pad_buffer_def SHA256_BLOCK_LENGTH_def SHA256_SHORT_BLOCK_LENGTH_def fill_buffer_def splice_def zeros)
  next
    case 2
    have z: "(119 - u) mod 64 = 55 - u" using 2 by (simp add: mod_if)
    have s: "56 - u = Suc (55 - u)" using 2 by simp
    show ?thesis
      using full(1-5) pad 2 u(2)
      by (intro final [of "?c\<lparr>buffer := splice ((buffer c)[u := 0x80]) (u + 1) (replicate (56 - (u + 1)) 0)\<rparr>" full])
        (simp_all add: pad_buffer_def SHA256_BLOCK_LENGTH_def SHA256_SHORT_BLOCK_LENGTH_def fill_buffer_def splice_def z s upd_conv_take_nth_drop)
  next
    case 3
    have z: "(119 - u) mod 64 = 119 - u" using 3 by simp
    let ?d = "?c\<lparr>buffer := splice ((buffer c)[u := 0x80]) (u + 1) (replicate (64 - (u + 1)) 0)\<rparr>"
    let ?b = "take u (buffer c) @ 0x80 # replicate (63 - u) 0"
    have "64 - u = Suc (63 - u)" using u(2) by simp
    then have "take 64 (buffer ?d) = ?b"
      using full(2) u(2) by (simp add: splice_def upd_conv_take_nth_drop)
    then obtain buf where t: "length buf = 128" "SHA256Transform ?d In_buffer =
        Some (?d\<lparr>buffer := buf, st32 := hash_blocks sha256_initial_hash_value (full @ ?b)\<rparr>)"
      using absorb_block [of ?d full ?b] full u(2) by auto
    have d: "(if u + 1 < 64 then fill_buffer (?c\<lparr>buffer := (buffer c)[u := 0x80]\<rparr>) (u + 1) (replicate (64 - (u + 1)) 0)
        else ?c\<lparr>buffer := (buffer c)[u := 0x80]\<rparr>) = ?d"
      using u(2) by (auto simp: fill_buffer_def)
    let ?e = "?d\<lparr>buffer := buf, st32 := hash_blocks sha256_initial_hash_value (full @ ?b)\<rparr>"
    have p: "pad_buffer ?c u = Some (fill_buffer ?e 0 (replicate 56 0))"
    proof -
      have "0 < u" "\<not> u + 1 \<le> 56" "buffer ?c = buffer c" "64 - 8 = (56 :: nat)" using 3 by simp_all
      then show ?thesis
        unfolding pad_buffer_def SHA256_BLOCK_LENGTH_def SHA256_SHORT_BLOCK_LENGTH_def Let_def
        by (simp only: if_True if_False d t(2) bind.bind_lunit)
    qed
    have "replicate (63 - u) 0 @ replicate 56 (0 :: u8) = replicate (119 - u) 0"
      using u(2) by (simp add: replicate_add [symmetric])
    then have "(full @ ?b) @ replicate 56 0 @ be_bytes 8 ?n = m @ sha_padding (length m)"
      unfolding pad z by (simp only: append_assoc append_Cons) (simp only: append_assoc [symmetric])
    then show ?thesis
      using full(1-4) t(1) u(2) by (intro final [OF p, of "full @ ?b"]) (simp_all add: fill_buffer_def splice_def)
  qed
qed

text \<open>However the message is cut into updates, the digest is that of the standard.\<close>

lemma sha256_stream:
  assumes "length (st32 c) = 8" "length (buffer c) = 128"
  shows "\<exists>c1 c2. update_all chunks (SHA256Init c) = Some c1 \<and> SHA256Final c1 = Some (sha256_spec (concat chunks), c2)"
  using update_all_correct [OF SHA256Init_absorbed [OF assms], of chunks] SHA256Final_correct by fastforce

end
