(* ===== verification/Uint4096.thy ===== *)
theory Uint4096
  imports Prelude
begin

unbundle bit_operations_syntax

text \<open>
  The fixed-width big-number routines of \<open>src/electionguard/uint4096.c\<close>: ripple-carry
  addition, two's complement negation, comparison, Karatsuba multiplication, Barrett reduction,
  modular multiplication and exponentiation.

  A number is an array of 64-bit words, most significant first; a C pointer to its first word is
  the list of words from there on, and \<open>ptr_at off f xs\<close> is a call of \<open>f\<close> on the pointer
  \<open>xs + off\<close>. A function with an out parameter takes the old contents of that array and returns
  the new. The routines read \<open>a[i]\<close> and \<open>b[i]\<close> before they write \<open>out[i]\<close> and never look at an
  index again after writing it, so the aliased calls \<open>f(n, x, x, y)\<close> of the code are the calls
  with the same list passed twice.
\<close>

section \<open>Words and pointers\<close>

definition UINT4096_WORD_COUNT :: nat where
  "UINT4096_WORD_COUNT = 64"

definition UINT4096_LOG2_WORD_COUNT :: nat where
  "UINT4096_LOG2_WORD_COUNT = 6"

lemma word_count_pow: "UINT4096_WORD_COUNT = 2 ^ UINT4096_LOG2_WORD_COUNT"
  by (simp add: UINT4096_WORD_COUNT_def UINT4096_LOG2_WORD_COUNT_def)

definition add_overflow :: "u64 \<Rightarrow> u64 \<Rightarrow> bool \<times> u64" where
  "add_overflow a b = (2 ^ 64 \<le> uint a + uint b, a + b)"

lemma add_overflow_spec:
  "add_overflow a b = (ov, s) \<Longrightarrow> uint s + of_bool ov * 2 ^ 64 = uint a + uint b"
  by (auto simp: add_overflow_def uint_plus_if' split: if_splits)

definition ptr_at :: "nat \<Rightarrow> ('a list \<Rightarrow> 'a list) \<Rightarrow> 'a list \<Rightarrow> 'a list" where
  "ptr_at off f xs = take off xs @ f (drop off xs)"

lemma take_ptr_at [simp]: "off \<le> length xs \<Longrightarrow> take off (ptr_at off f xs) = take off xs"
  by (simp add: ptr_at_def)

lemma drop_ptr_at [simp]: "off \<le> length xs \<Longrightarrow> drop off (ptr_at off f xs) = f (drop off xs)"
  by (simp add: ptr_at_def)

lemma length_ptr_at [simp]:
  "off \<le> length xs \<Longrightarrow> length (ptr_at off f xs) = off + length (f (drop off xs))"
  by (simp add: ptr_at_def)

abbreviation nval :: "nat \<Rightarrow> u64 list \<Rightarrow> int" where
  "nval n xs \<equiv> wval (take n xs)"

lemma nval_less: "n \<le> length xs \<Longrightarrow> nval n xs < 2 ^ (64 * n)"
  using wval_less [of "take n xs"] by (simp add: min.absorb2)

lemma nval_Suc: "n < length xs \<Longrightarrow> nval (Suc n) xs = nval n xs * 2 ^ 64 + uint (xs ! n)"
  by (simp add: take_Suc_conv_app_nth wval_append)

lemma nval_add:
  "m + n \<le> length xs \<Longrightarrow> nval (m + n) xs = nval m xs * 2 ^ (64 * n) + nval n (drop m xs)"
  by (simp add: take_add wval_append min.absorb2)

section \<open>Addition, successor, negation, comparison\<close>

fun uintnwords_add_loop :: "nat \<Rightarrow> u64 \<Rightarrow> u64 list \<Rightarrow> u64 list \<Rightarrow> u64 list \<Rightarrow> u64 \<times> u64 list" where
  "uintnwords_add_loop 0 carry out a b = (carry, out)"
| "uintnwords_add_loop (Suc n) carry out a b =
     (let (ov1, s1) = add_overflow (a ! n) (b ! n);
          (ov2, s2) = add_overflow s1 carry
      in uintnwords_add_loop n (of_bool ov1 OR of_bool ov2) (out[n := s2]) a b)"

definition uintnwords_add_o :: "nat \<Rightarrow> u64 list \<Rightarrow> u64 list \<Rightarrow> u64 list \<Rightarrow> bool \<times> u64 list" where
  "uintnwords_add_o n out a b =
     (let (carry, out') = uintnwords_add_loop n 0 out a b in (carry \<noteq> 0, out'))"

fun uintnwords_succ_loop :: "nat \<Rightarrow> bool \<Rightarrow> u64 list \<Rightarrow> u64 list \<Rightarrow> bool \<times> u64 list" where
  "uintnwords_succ_loop 0 carry out a = (carry, out)"
| "uintnwords_succ_loop (Suc n) carry out a =
     (if carry
      then let (ov, s) = add_overflow (a ! n) 1 in uintnwords_succ_loop n ov (out[n := s]) a
      else (carry, out))"

definition uintnwords_succ_o :: "nat \<Rightarrow> u64 list \<Rightarrow> u64 list \<Rightarrow> bool \<times> u64 list" where
  "uintnwords_succ_o n out a = uintnwords_succ_loop n True out a"

definition uintnwords_negate_o :: "nat \<Rightarrow> u64 list \<Rightarrow> u64 list \<Rightarrow> u64 list" where
  "uintnwords_negate_o n out a =
     (let out' = floop n (\<lambda>i o'. o'[i := NOT (a ! i)]) out
      in snd (uintnwords_succ_o n out' out'))"

function uintnwords_cmp_from :: "nat \<Rightarrow> nat \<Rightarrow> u64 list \<Rightarrow> u64 list \<Rightarrow> int" where
  "uintnwords_cmp_from i n a b =
     (if i < n then
        if a ! i < b ! i then -1
        else if a ! i > b ! i then 1
        else uintnwords_cmp_from (Suc i) n a b
      else 0)"
  by pat_completeness auto
termination
  by (relation "measure (\<lambda>(i, n, a, b). n - i)") auto

declare uintnwords_cmp_from.simps [simp del]

definition uintnwords_cmp :: "nat \<Rightarrow> u64 list \<Rightarrow> u64 list \<Rightarrow> int" where
  "uintnwords_cmp n a b = uintnwords_cmp_from 0 n a b"

definition uintnwords_le :: "nat \<Rightarrow> u64 list \<Rightarrow> u64 list \<Rightarrow> bool" where
  "uintnwords_le n a b = (uintnwords_cmp n a b \<le> 0)"

lemma carry_bits:
  assumes "add_overflow a b = (ov1, s1)" and "add_overflow s1 c = (ov2, s2)" and "c = 0 \<or> c = 1"
  shows "uint s2 + uint (of_bool ov1 OR of_bool ov2 :: u64) * 2 ^ 64 = uint a + uint b + uint c"
    and "(of_bool ov1 OR of_bool ov2 :: u64) = 0 \<or> (of_bool ov1 OR of_bool ov2 :: u64) = 1"
proof -
  have e1: "uint s1 + of_bool ov1 * 2 ^ 64 = uint a + uint b"
    and e2: "uint s2 + of_bool ov2 * 2 ^ 64 = uint s1 + uint c"
    using assms(1,2) add_overflow_spec by blast+
  have c: "uint c \<le> 1" using assms(3) by auto
  have lt: "uint a < 2 ^ 64" "uint b < 2 ^ 64" "0 \<le> uint s2"
    using uint_lt2p [of a] uint_lt2p [of b] by simp_all
  have "\<not> (ov1 \<and> ov2)"
  proof
    assume "ov1 \<and> ov2"
    then have "uint s1 + 2 ^ 64 = uint a + uint b" "uint s2 + 2 ^ 64 = uint s1 + uint c"
      using e1 e2 by simp_all
    with c lt show False by linarith
  qed
  then show "uint s2 + uint (of_bool ov1 OR of_bool ov2 :: u64) * 2 ^ 64 = uint a + uint b + uint c"
    and "(of_bool ov1 OR of_bool ov2 :: u64) = 0 \<or> (of_bool ov1 OR of_bool ov2 :: u64) = 1"
    using e1 e2 by (cases ov1; cases ov2; simp)+
qed

lemma add_loop_spec:
  assumes "uintnwords_add_loop n c out a b = (c', out')"
    and "n \<le> length out" "n \<le> length a" "n \<le> length b" "c = 0 \<or> c = 1"
  shows "length out' = length out \<and> drop n out' = drop n out \<and> (c' = 0 \<or> c' = 1) \<and>
    nval n out' + uint c' * 2 ^ (64 * n) = nval n a + nval n b + uint c"
  using assms
proof (induction n arbitrary: c out)
  case 0
  then show ?case by auto
next
  case (Suc n)
  obtain ov1 s1 where s1: "add_overflow (a ! n) (b ! n) = (ov1, s1)" by force
  obtain ov2 s2 where s2: "add_overflow s1 c = (ov2, s2)" by force
  define c1 :: u64 where "c1 = of_bool ov1 OR of_bool ov2"
  have c1: "uint s2 + uint c1 * 2 ^ 64 = uint (a ! n) + uint (b ! n) + uint c" "c1 = 0 \<or> c1 = 1"
    unfolding c1_def using carry_bits [OF s1 s2 Suc.prems(5)] by auto
  have step: "uintnwords_add_loop n c1 (out[n := s2]) a b = (c', out')"
    using Suc.prems(1) by (simp add: s1 s2 c1_def)
  have IH: "length out' = length out \<and> drop n out' = drop n (out[n := s2]) \<and> (c' = 0 \<or> c' = 1) \<and>
      nval n out' + uint c' * 2 ^ (64 * n) = nval n a + nval n b + uint c1"
    using Suc.IH [OF step] Suc.prems c1(2) by simp
  have n: "n < length out" "n < length a" "n < length b"
    using Suc.prems by auto
  have d: "drop n out' = s2 # drop (Suc n) out"
    using IH n by (simp add: drop_update_cons)
  have nth: "out' ! n = s2"
    using d IH n by (metis hd_drop_conv_nth list.sel(1))
  have tail: "drop (Suc n) out' = drop (Suc n) out"
    using d by (metis drop_Suc list.sel(3) tl_drop)
  have "nval (Suc n) out' + uint c' * 2 ^ (64 * Suc n)
      = (nval n out' + uint c' * 2 ^ (64 * n)) * 2 ^ 64 + uint s2"
    using IH n nth by (simp add: nval_Suc power_add algebra_simps)
  also have "\<dots> = (nval n a + nval n b) * 2 ^ 64 + (uint s2 + uint c1 * 2 ^ 64)"
    using IH by (simp add: algebra_simps)
  also have "\<dots> = nval (Suc n) a + nval (Suc n) b + uint c"
    using c1(1) n by (simp add: nval_Suc algebra_simps)
  finally show ?case
    using IH tail by simp
qed

lemma uintnwords_add_o_spec:
  assumes "n \<le> length out" "n \<le> length a" "n \<le> length b"
  defines "r \<equiv> uintnwords_add_o n out a b"
  shows "length (snd r) = length out" "drop n (snd r) = drop n out"
    "nval n (snd r) + of_bool (fst r) * 2 ^ (64 * n) = nval n a + nval n b"
    "nval n (snd r) = (nval n a + nval n b) mod 2 ^ (64 * n)"
proof -
  obtain c' out' where l: "uintnwords_add_loop n 0 out a b = (c', out')" by force
  have s: "length out' = length out \<and> drop n out' = drop n out \<and> (c' = 0 \<or> c' = 1) \<and>
    nval n out' + uint c' * 2 ^ (64 * n) = nval n a + nval n b + uint (0 :: u64)"
    using add_loop_spec [OF l] assms by simp
  then have eq: "nval n (snd r) + of_bool (fst r) * 2 ^ (64 * n) = nval n a + nval n b"
    by (auto simp: r_def uintnwords_add_o_def l)
  show "length (snd r) = length out" "drop n (snd r) = drop n out"
    using s by (simp_all add: r_def uintnwords_add_o_def l)
  show "nval n (snd r) + of_bool (fst r) * 2 ^ (64 * n) = nval n a + nval n b"
    by (fact eq)
  have "nval n (snd r) < 2 ^ (64 * n)"
    using nval_less [of n "snd r"] assms(1) s by (simp add: r_def uintnwords_add_o_def l)
  then show "nval n (snd r) = (nval n a + nval n b) mod 2 ^ (64 * n)"
    using eq [symmetric] by (simp add: mod_add_eq)
qed

text \<open>
  The successor and the negation are only ever called in place, so the part of the output not
  yet written agrees with the input.
\<close>

lemma succ_loop_spec:
  assumes "uintnwords_succ_loop n c out a = (c', out')"
    and "n \<le> length out" "n \<le> length a" "take n out = take n a"
  shows "length out' = length out \<and> drop n out' = drop n out \<and>
    nval n out' + of_bool c' * 2 ^ (64 * n) = nval n a + of_bool c"
  using assms
proof (induction n arbitrary: c out)
  case 0
  then show ?case by auto
next
  case (Suc n)
  show ?case
  proof (cases c)
    case False
    with Suc.prems show ?thesis by auto
  next
    case True
    obtain ov s where s: "add_overflow (a ! n) 1 = (ov, s)" by force
    have n: "n < length out" "n < length a" using Suc.prems by auto
    have "take n (take (Suc n) out) = take n (take (Suc n) a)"
      using Suc.prems(4) by simp
    then have t: "take n (out[n := s]) = take n a" by (simp add: min_def)
    have step: "uintnwords_succ_loop n ov (out[n := s]) a = (c', out')"
      using Suc.prems(1) True by (simp add: s)
    have IH: "length out' = length out \<and> drop n out' = drop n (out[n := s]) \<and>
        nval n out' + of_bool c' * 2 ^ (64 * n) = nval n a + of_bool ov"
      using Suc.IH [OF step] n t by simp
    have d: "drop n out' = s # drop (Suc n) out"
      using IH n by (simp add: drop_update_cons)
    have nth: "out' ! n = s"
      using d IH n by (metis hd_drop_conv_nth list.sel(1))
    have tail: "drop (Suc n) out' = drop (Suc n) out"
      using d by (metis drop_Suc list.sel(3) tl_drop)
    have "nval (Suc n) out' + of_bool c' * 2 ^ (64 * Suc n)
        = (nval n out' + of_bool c' * 2 ^ (64 * n)) * 2 ^ 64 + uint s"
      using IH n nth by (simp add: nval_Suc power_add algebra_simps)
    also have "\<dots> = nval n a * 2 ^ 64 + (uint s + of_bool ov * 2 ^ 64)"
      using IH by (simp add: algebra_simps)
    also have "\<dots> = nval (Suc n) a + of_bool c"
      using add_overflow_spec [OF s] n True by (simp add: nval_Suc algebra_simps)
    finally show ?thesis
      using IH tail by simp
  qed
qed

lemma uint_NOT: "uint (NOT (w :: 'a::len word)) = 2 ^ LENGTH('a) - 1 - uint w"
  by (simp add: unsigned_not_eq take_bit_not_eq_mask_diff mask_eq_exp_minus_1 take_bit_int_eq_self)

lemma wval_map_NOT:
  "wval (map NOT ws) = 2 ^ (LENGTH('a) * length ws) - 1 - wval (ws :: 'a::len word list)"
  by (induction ws) (auto simp: uint_NOT power_add algebra_simps)

lemma uintnwords_negate_o_spec:
  assumes "n \<le> length out" "n \<le> length a"
  defines "r \<equiv> uintnwords_negate_o n out a"
  shows "length r = length out" "drop n r = drop n out" "nval n r = (- nval n a) mod 2 ^ (64 * n)"
proof -
  define o1 where "o1 = map (\<lambda>i. NOT (a ! i)) [0..<n] @ drop n out"
  have fill: "floop n (\<lambda>i o'. o'[i := NOT (a ! i)]) out = o1"
    unfolding o1_def using assms(1) by (rule floop_fill)
  have "map (\<lambda>i. NOT (a ! i)) [0..<n] = map NOT (take n a)"
    using assms(2) by (intro nth_equalityI) auto
  then have o1: "take n o1 = map NOT (take n a)" "drop n o1 = drop n out" "length o1 = length out"
    using assms by (simp_all add: o1_def min_def)
  obtain c' out' where l: "uintnwords_succ_loop n True o1 o1 = (c', out')" by force
  have r: "r = out'"
    by (simp add: r_def uintnwords_negate_o_def Let_def fill uintnwords_succ_o_def l)
  have s: "length out' = length o1 \<and> drop n out' = drop n o1 \<and>
      nval n out' + of_bool c' * 2 ^ (64 * n) = nval n o1 + of_bool True"
    using succ_loop_spec [OF l] assms(1) o1 by simp
  then show "length r = length out" "drop n r = drop n out"
    using r o1 by simp_all
  have "nval n o1 = 2 ^ (64 * n) - 1 - nval n a"
    using assms(2) by (simp add: o1(1) wval_map_NOT min_def)
  with s have eq: "nval n r + of_bool c' * 2 ^ (64 * n) = 2 ^ (64 * n) - nval n a"
    using r by simp
  have lt: "nval n r < 2 ^ (64 * n)"
    using nval_less [of n r] assms(1) \<open>length r = length out\<close> by simp
  have "- nval n a = nval n r + (of_bool c' - 1) * 2 ^ (64 * n)"
    using eq by (simp add: algebra_simps)
  then have "(- nval n a) mod 2 ^ (64 * n) = nval n r mod 2 ^ (64 * n)"
    by (metis mod_mult_self2 mult.commute)
  with lt show "nval n r = (- nval n a) mod 2 ^ (64 * n)" by simp
qed

lemma uintnwords_cmp_from_spec:
  assumes "i \<le> n" "n \<le> length a" "n \<le> length b"
  shows "uintnwords_cmp_from i n a b = sgn (wval (drop i (take n a)) - wval (drop i (take n b)))"
  using assms
proof (induction i n a b rule: uintnwords_cmp_from.induct)
  case (1 i n a b)
  show ?case
  proof (cases "i < n")
    case False
    with 1 show ?thesis by (subst uintnwords_cmp_from.simps) simp
  next
    case True
    let ?A = "drop (Suc i) (take n a)" and ?B = "drop (Suc i) (take n b)"
    have split: "drop i (take n a) = a ! i # ?A" "drop i (take n b) = b ! i # ?B"
      using True 1 by (simp_all add: Cons_nth_drop_Suc [symmetric])
    have len: "length ?A = length ?B" using 1 by simp
    note lt = wval_less_iff [OF len, of "a ! i" "b ! i"] wval_less_iff [OF len [symmetric], of "b ! i" "a ! i"]
    consider "a ! i < b ! i" | "b ! i < a ! i" | "a ! i = b ! i" by fastforce
    then show ?thesis
    proof cases
      case 3
      then have "uintnwords_cmp_from i n a b = uintnwords_cmp_from (Suc i) n a b"
        using True by (subst uintnwords_cmp_from.simps) simp
      also have "\<dots> = sgn (wval ?A - wval ?B)"
        using 1 True 3 by simp
      also have "wval ?A - wval ?B = wval (a ! i # ?A) - wval (b ! i # ?B)"
        using 3 len by simp
      finally show ?thesis by (simp only: split)
    qed (use True lt in \<open>subst uintnwords_cmp_from.simps;
          simp only: split; auto simp: word_less_def sgn_if\<close>)+
  qed
qed

lemma uintnwords_cmp_spec:
  "n \<le> length a \<Longrightarrow> n \<le> length b \<Longrightarrow> uintnwords_cmp n a b = sgn (nval n a - nval n b)"
  using uintnwords_cmp_from_spec [of 0 n a b] by (simp add: uintnwords_cmp_def)

lemma uintnwords_le_spec:
  "n \<le> length a \<Longrightarrow> n \<le> length b \<Longrightarrow> uintnwords_le n a b \<longleftrightarrow> nval n a \<le> nval n b"
  by (auto simp: uintnwords_le_def uintnwords_cmp_spec sgn_if)

section \<open>Karatsuba multiplication\<close>

definition UINT4096_HALFWORD_SIZE_BITS :: nat where
  "UINT4096_HALFWORD_SIZE_BITS = 32"

definition UINT4096_HALFWORD_BOTTOM_MASK :: u64 where
  "UINT4096_HALFWORD_BOTTOM_MASK = push_bit UINT4096_HALFWORD_SIZE_BITS 1 - 1"

definition uintfn_mult_base :: "u64 list \<Rightarrow> u64 list \<Rightarrow> u64 list \<Rightarrow> u64 list" where
  "uintfn_mult_base out a b =
     (let a_upper = drop_bit UINT4096_HALFWORD_SIZE_BITS (a ! 0);
          b_upper = drop_bit UINT4096_HALFWORD_SIZE_BITS (b ! 0);
          a_lower = a ! 0 AND UINT4096_HALFWORD_BOTTOM_MASK;
          b_lower = b ! 0 AND UINT4096_HALFWORD_BOTTOM_MASK;
          out = out[0 := a_upper * b_upper];
          out = out[1 := a_lower * b_lower];
          out_middle_word_1 = a_upper * b_lower;
          out_middle_word_2 = b_upper * a_lower;
          out = snd (uintnwords_add_o 2 out out
                  [drop_bit UINT4096_HALFWORD_SIZE_BITS out_middle_word_1,
                   push_bit UINT4096_HALFWORD_SIZE_BITS out_middle_word_1]);
          out = snd (uintnwords_add_o 2 out out
                  [drop_bit UINT4096_HALFWORD_SIZE_BITS out_middle_word_2,
                   push_bit UINT4096_HALFWORD_SIZE_BITS out_middle_word_2])
      in out)"

text \<open>
  \<open>karatsuba_diff\<close> is the code's \<open>if (uintnwords_le(SMALL, x, x + SMALL)) \<dots>\<close>: the absolute
  difference of the two halves and the updated sign. The C local arrays start with
  indeterminate contents; \<open>replicate _ 0\<close> stands for them, and they are overwritten in full.
\<close>

definition karatsuba_diff :: "nat \<Rightarrow> u64 \<Rightarrow> u64 list \<Rightarrow> u64 \<times> u64 list" where
  "karatsuba_diff SMALL sign x =
     (let diff = replicate SMALL 0 in
      if uintnwords_le SMALL x (drop SMALL x)
      then (sign * 1,
            let diff = uintnwords_negate_o SMALL diff x
            in snd (uintnwords_add_o SMALL diff diff (drop SMALL x)))
      else (sign * -1,
            let diff = uintnwords_negate_o SMALL diff (drop SMALL x)
            in snd (uintnwords_add_o SMALL diff diff x)))"

fun uintfn_mult_o :: "nat \<Rightarrow> u64 list \<Rightarrow> u64 list \<Rightarrow> u64 list \<Rightarrow> u64 list" where
  "uintfn_mult_o 0 out a b = uintfn_mult_base out a b"
| "uintfn_mult_o (Suc m) out a b =
     (let SMALL = 2 ^ m; MEDIUM = 2 * SMALL; LARGE = 2 * MEDIUM;
          out_tmp = replicate LARGE 0;
          out_tmp = uintfn_mult_o m out_tmp a b;
          out_tmp = ptr_at MEDIUM (\<lambda>o'. uintfn_mult_o m o' (drop SMALL a) (drop SMALL b)) out_tmp;
          (sign, diff1) = karatsuba_diff SMALL (-1) a;
          (sign, diff2) = karatsuba_diff SMALL sign b;
          sum = replicate LARGE 0;
          sum = ptr_at SMALL (\<lambda>o'. uintfn_mult_o m o' diff1 diff2) sum;
          sum = (if -1 = sign
                 then ptr_at (SMALL - 1) (\<lambda>o'. uintnwords_negate_o (MEDIUM + 1) o' o') sum
                 else sum);
          addend = 0 # take MEDIUM out_tmp;
          sum = ptr_at (SMALL - 1) (\<lambda>o'. snd (uintnwords_add_o (MEDIUM + 1) o' o' addend)) sum;
          addend = 0 # take MEDIUM (drop MEDIUM out_tmp);
          sum = ptr_at (SMALL - 1) (\<lambda>o'. snd (uintnwords_add_o (MEDIUM + 1) o' o' addend)) sum
      in snd (uintnwords_add_o LARGE out out_tmp sum))"

text \<open>The base case: two 64-bit words multiplied by half-words.\<close>

lemma halfwords:
  fixes w :: u64
  shows "uint (drop_bit UINT4096_HALFWORD_SIZE_BITS w) = uint w div 2 ^ 32"
    and "uint (w AND UINT4096_HALFWORD_BOTTOM_MASK) = uint w mod 2 ^ 32"
proof -
  show "uint (drop_bit UINT4096_HALFWORD_SIZE_BITS w) = uint w div 2 ^ 32"
    unfolding UINT4096_HALFWORD_SIZE_BITS_def unsigned_drop_bit_eq
    using uint_lt2p [of w] by (simp add: drop_bit_eq_div take_bit_int_eq_self)
  have m: "UINT4096_HALFWORD_BOTTOM_MASK = mask 32"
    by (simp add: UINT4096_HALFWORD_BOTTOM_MASK_def UINT4096_HALFWORD_SIZE_BITS_def
        mask_eq_exp_minus_1 push_bit_eq_mult)
  show "uint (w AND UINT4096_HALFWORD_BOTTOM_MASK) = uint w mod 2 ^ 32"
    unfolding m take_bit_eq_mask [symmetric] unsigned_take_bit_eq by (simp only: take_bit_eq_mod)
qed

lemma mult_half_words:
  fixes x y :: u64
  assumes "uint x < 2 ^ 32" "uint y < 2 ^ 32"
  shows "uint (x * y) = uint x * uint y" "uint x * uint y < 2 ^ 64"
proof -
  have "uint x * uint y \<le> (2 ^ 32 - 1) * (2 ^ 32 - 1)"
    using assms by (intro mult_mono) auto
  then show lt: "uint x * uint y < 2 ^ 64" by simp
  then show "uint (x * y) = uint x * uint y"
    by (simp add: uint_word_ariths)
qed

lemma split_middle_word:
  fixes w :: u64
  shows "wval [drop_bit UINT4096_HALFWORD_SIZE_BITS w, push_bit UINT4096_HALFWORD_SIZE_BITS w]
    = uint w * 2 ^ 32"
proof -
  have "uint (push_bit UINT4096_HALFWORD_SIZE_BITS w) = (uint w mod 2 ^ 32) * 2 ^ 32"
    unfolding UINT4096_HALFWORD_SIZE_BITS_def unsigned_push_bit_eq take_bit_push_bit
    by (simp only: push_bit_eq_mult take_bit_eq_mod) simp
  then have "wval [drop_bit UINT4096_HALFWORD_SIZE_BITS w, push_bit UINT4096_HALFWORD_SIZE_BITS w]
      = uint w div 2 ^ 32 * 2 ^ 64 + uint w mod 2 ^ 32 * 2 ^ 32"
    by (simp add: halfwords)
  also have "\<dots> = (uint w div 2 ^ 32 * 2 ^ 32 + uint w mod 2 ^ 32) * 2 ^ 32"
    by (simp only: distrib_right mult.assoc power_add [symmetric]) simp
  finally show ?thesis by (simp only: div_mult_mod_eq)
qed

lemma uintfn_mult_base_spec:
  assumes "2 \<le> length out" "1 \<le> length a" "1 \<le> length b"
  defines "r \<equiv> uintfn_mult_base out a b"
  shows "length r = length out" "drop 2 r = drop 2 out" "nval 2 r = nval 1 a * nval 1 b"
proof -
  define au bu al bl where "au = drop_bit UINT4096_HALFWORD_SIZE_BITS (a ! 0)"
    and "bu = drop_bit UINT4096_HALFWORD_SIZE_BITS (b ! 0)"
    and "al = a ! 0 AND UINT4096_HALFWORD_BOTTOM_MASK"
    and "bl = b ! 0 AND UINT4096_HALFWORD_BOTTOM_MASK"
  note parts = au_def bu_def al_def bl_def
  have lt: "uint au < 2 ^ 32" "uint bu < 2 ^ 32" "uint al < 2 ^ 32" "uint bl < 2 ^ 32"
    using uint_lt2p [of "a ! 0"] uint_lt2p [of "b ! 0"] unfolding parts halfwords by auto
  have words: "uint (a ! 0) = uint au * 2 ^ 32 + uint al" "uint (b ! 0) = uint bu * 2 ^ 32 + uint bl"
    unfolding parts halfwords by (simp_all only: div_mult_mod_eq)
  define o0 where "o0 = out[0 := au * bu, 1 := al * bl]"
  define m1 m2 where "m1 = au * bl" and "m2 = bu * al"
  define l1 l2 where "l1 = [drop_bit UINT4096_HALFWORD_SIZE_BITS m1, push_bit UINT4096_HALFWORD_SIZE_BITS m1]"
    and "l2 = [drop_bit UINT4096_HALFWORD_SIZE_BITS m2, push_bit UINT4096_HALFWORD_SIZE_BITS m2]"
  define o1 where "o1 = snd (uintnwords_add_o 2 o0 o0 l1)"
  define o2 where "o2 = snd (uintnwords_add_o 2 o1 o1 l2)"
  have r: "r = o2"
    by (simp only: r_def uintfn_mult_base_def Let_def parts o0_def m1_def m2_def l1_def l2_def
        o1_def o2_def)
  have o0: "length o0 = length out" "drop 2 o0 = drop 2 out"
    by (simp_all add: o0_def)
  have l12: "length l1 = 2" "length l2 = 2" "wval l1 = uint m1 * 2 ^ 32" "wval l2 = uint m2 * 2 ^ 32"
    unfolding l1_def l2_def split_middle_word by simp_all
  have "take 2 o0 = [au * bu, al * bl]"
    using assms(1) by (cases out; cases "tl out"; simp add: o0_def numeral_2_eq_2)
  then have v0: "nval 2 o0 = uint au * uint bu * 2 ^ 64 + uint al * uint bl"
    using mult_half_words [OF lt(1,2)] mult_half_words [OF lt(3,4)] by simp
  have o1: "length o1 = length out" "drop 2 o1 = drop 2 out"
      "nval 2 o1 = (nval 2 o0 + uint m1 * 2 ^ 32) mod 2 ^ 128"
    using uintnwords_add_o_spec [of 2 o0 o0 l1] assms(1) o0 l12 by (simp_all add: o1_def)
  have o2: "length o2 = length out" "drop 2 o2 = drop 2 out"
      "nval 2 o2 = (nval 2 o1 + uint m2 * 2 ^ 32) mod 2 ^ 128"
    using uintnwords_add_o_spec [of 2 o1 o1 l2] assms(1) o1(1,2) l12 by (simp_all add: o2_def)
  show "length r = length out" "drop 2 r = drop 2 out" using r o2 by simp_all
  have m: "uint m1 = uint au * uint bl" "uint m2 = uint bu * uint al"
    using mult_half_words lt by (simp_all add: m1_def m2_def)
  have "nval 2 o2 = (nval 2 o0 + uint m1 * 2 ^ 32 + uint m2 * 2 ^ 32) mod 2 ^ 128"
    unfolding o2(3) o1(3) by (rule mod_add_left_eq)
  also have "nval 2 o0 + uint m1 * 2 ^ 32 + uint m2 * 2 ^ 32 = uint (a ! 0) * uint (b ! 0)"
    unfolding v0 m words by (simp add: algebra_simps)
  also have "\<dots> mod 2 ^ 128 = uint (a ! 0) * uint (b ! 0)"
  proof -
    have "uint (a ! 0) * uint (b ! 0) \<le> (2 ^ 64 - 1) * (2 ^ 64 - 1)"
      using uint_lt2p [of "a ! 0"] uint_lt2p [of "b ! 0"] by (intro mult_mono) auto
    then have "uint (a ! 0) * uint (b ! 0) < 2 ^ 128" by simp
    then show ?thesis by simp
  qed
  also have "\<dots> = nval 1 a * nval 1 b"
    using assms(2,3) by (cases a; cases b; simp)
  finally show "nval 2 r = nval 1 a * nval 1 b" using r by simp
qed

lemma karatsuba_diff_spec:
  assumes "2 * S \<le> length x" and "karatsuba_diff S sign x = (sign', d)"
  shows "length d = S"
    and "sign' = (if nval S x \<le> nval S (drop S x) then sign else - sign)"
    and "wval d = \<bar>nval S x - nval S (drop S x)\<bar>"
proof -
  let ?x = "nval S x" and ?y = "nval S (drop S x)"
  have lt: "?x < 2 ^ (64 * S)" "?y < 2 ^ (64 * S)"
    using nval_less [of S x] nval_less [of S "drop S x"] assms(1) by simp_all
  have sub: "length (snd (uintnwords_add_o S e e v)) = S"
      "wval (snd (uintnwords_add_o S e e v)) = nval S v - nval S u"
    if e: "e = uintnwords_negate_o S (replicate S 0) u" and l: "S \<le> length u" "S \<le> length v"
      and le: "nval S u \<le> nval S v" "nval S v < 2 ^ (64 * S)" for e u v
  proof -
    note n = uintnwords_negate_o_spec [of S "replicate S 0" u, OF _ l(1), folded e]
    note s = uintnwords_add_o_spec [of S e e v]
    show len: "length (snd (uintnwords_add_o S e e v)) = S"
      using n s l by simp
    have "nval S (snd (uintnwords_add_o S e e v))
        = ((- nval S u) mod 2 ^ (64 * S) + nval S v) mod 2 ^ (64 * S)"
      using n s l by simp
    also have "\<dots> = (nval S v - nval S u) mod 2 ^ (64 * S)"
      by (simp add: mod_add_left_eq)
    also have "\<dots> = nval S v - nval S u"
      using le wval_nonneg [of "take S u"] by (intro mod_pos_pos_trivial) linarith+
    finally show "wval (snd (uintnwords_add_o S e e v)) = nval S v - nval S u"
      using len by simp
  qed
  have le: "uintnwords_le S x (drop S x) \<longleftrightarrow> ?x \<le> ?y"
    using assms(1) by (intro uintnwords_le_spec) auto
  show "length d = S"
    and "sign' = (if nval S x \<le> nval S (drop S x) then sign else - sign)"
    and "wval d = \<bar>nval S x - nval S (drop S x)\<bar>"
    using assms lt sub [OF refl, of x "drop S x"] sub [OF refl, of "drop S x" x]
    by (auto simp: karatsuba_diff_def le Let_def split: if_splits)
qed

text \<open>
  The middle part of the Karatsuba sum. \<open>D\<close> is the product of the differences, placed after one
  zero word; the two additions are made on one more word than the halves' products have, where
  the sum of the cross products still fits.
\<close>

lemma karatsuba_middle_bound:
  fixes B a1 a0 b1 b0 :: int
  assumes "0 \<le> a1" "a1 < B" "0 \<le> a0" "a0 < B" "0 \<le> b1" "b1 < B" "0 \<le> b0" "b0 < B"
  shows "0 \<le> a1 * b0 + a0 * b1" "a1 * b0 + a0 * b1 < B ^ 2 * 2 ^ 64"
proof -
  show "0 \<le> a1 * b0 + a0 * b1" using assms by simp
  have "a1 * b0 \<le> B * B" "a0 * b1 \<le> B * B"
    using assms by (auto intro!: mult_mono)
  then have "a1 * b0 + a0 * b1 \<le> B ^ 2 * 2" by (simp add: power2_eq_square)
  also have "\<dots> < B ^ 2 * 2 ^ 64"
    using assms by (intro mult_strict_left_mono) auto
  finally show "a1 * b0 + a0 * b1 < B ^ 2 * 2 ^ 64" .
qed

lemma karatsuba_sign:
  fixes x1 x0 y1 y0 :: int
  defines "s \<equiv> (if y1 \<le> y0 then if x1 \<le> x0 then -1 else 1 else if x1 \<le> x0 then 1 else (-1 :: int))"
  shows "s * (\<bar>x1 - x0\<bar> * \<bar>y1 - y0\<bar>) + x1 * y1 + x0 * y0 = x1 * y0 + x0 * y1"
  unfolding s_def by (auto simp: abs_if algebra_simps)

text \<open>Value of the sum array: zero words, the middle part, zero words.\<close>

definition sum_shape :: "nat \<Rightarrow> u64 list \<Rightarrow> int \<Rightarrow> bool" where
  "sum_shape S xs v \<longleftrightarrow> length xs = 4 * S \<and> take (S - 1) xs = replicate (S - 1) 0 \<and>
     nval (2 * S + 1) (drop (S - 1) xs) = v \<and> drop (3 * S) xs = replicate S 0"

lemma sum_shape_value:
  assumes "sum_shape S xs v" and "0 < S"
  shows "wval xs = v * 2 ^ (64 * S)"
proof -
  from assms have len: "length xs = 4 * S" and z: "take (S - 1) xs = replicate (S - 1) 0"
    and v: "nval (2 * S + 1) (drop (S - 1) xs) = v" and t: "drop (3 * S) xs = replicate S 0"
    by (simp_all add: sum_shape_def)
  have "(2 * S + 1) + (S - 1) = 3 * S" using assms(2) by simp
  then have "drop (2 * S + 1) (drop (S - 1) xs) = drop (3 * S) xs"
    by (simp only: drop_drop)
  then have "xs = take (S - 1) xs @ take (2 * S + 1) (drop (S - 1) xs) @ drop (3 * S) xs"
    by (metis append_take_drop_id)
  then have "wval xs = wval (replicate (S - 1) 0 @ take (2 * S + 1) (drop (S - 1) xs) @ replicate S 0)"
    using z t by simp
  then show ?thesis
    using v by (simp add: wval_append)
qed

lemma sum_shape_step:
  assumes "sum_shape S xs v" "0 < S"
    and "length (f (drop (S - 1) xs)) = length (drop (S - 1) xs)"
    and "drop (2 * S + 1) (f (drop (S - 1) xs)) = drop (2 * S + 1) (drop (S - 1) xs)"
    and "nval (2 * S + 1) (f (drop (S - 1) xs)) = v'"
  shows "sum_shape S (ptr_at (S - 1) f xs) v'"
proof -
  have len: "length xs = 4 * S" using assms(1) by (simp add: sum_shape_def)
  have sum: "(2 * S + 1) + (S - 1) = 3 * S" using assms(2) by simp
  have "drop (3 * S) (ptr_at (S - 1) f xs) = drop (2 * S + 1) (drop (S - 1) (ptr_at (S - 1) f xs))"
    using sum by (simp only: drop_drop)
  also have "\<dots> = drop (2 * S + 1) (drop (S - 1) xs)"
    using assms(4) len by simp
  also have "\<dots> = drop (3 * S) xs"
    using sum by (simp only: drop_drop)
  finally show ?thesis
    using assms len by (simp add: sum_shape_def)
qed

lemma sum_shape_init:
  assumes "0 < S" "length p = 2 * S"
  shows "sum_shape S (ptr_at S (\<lambda>_. p @ replicate S 0) (replicate (4 * S) 0)) (wval p)"
proof -
  obtain n where n: "S = Suc n" using assms(1) gr0_conv_Suc by blast
  let ?xs = "ptr_at S (\<lambda>_. p @ replicate S 0) (replicate (4 * S) 0)"
  have xs: "?xs = replicate n 0 @ (0 # p) @ replicate S 0"
    by (simp add: ptr_at_def n replicate_append_same [symmetric])
  have "length (replicate n 0 @ (0 # p)) = 3 * S"
    using assms(2) n by simp
  then have d: "drop (3 * S) ?xs = replicate S 0"
    unfolding xs by (metis append_eq_conv_conj append_assoc)
  have t: "take (S - 1) ?xs = replicate (S - 1) 0" "drop (S - 1) ?xs = 0 # p @ replicate S 0"
    unfolding xs by (simp_all add: n)
  have l: "length ?xs = 4 * S"
    unfolding xs using assms(2) n by simp
  have "nval (2 * S + 1) (0 # p @ replicate S 0) = wval p"
    using assms(2) by simp
  then show ?thesis
    unfolding sum_shape_def using d t l by simp
qed

text \<open>The invariant of one multiplication: the product in the first words, the rest untouched.\<close>

definition mult_spec :: "nat \<Rightarrow> (u64 list \<Rightarrow> u64 list \<Rightarrow> u64 list \<Rightarrow> u64 list) \<Rightarrow> bool" where
  "mult_spec n f \<longleftrightarrow> (\<forall>out a b. 2 * n \<le> length out \<and> n \<le> length a \<and> n \<le> length b \<longrightarrow>
     length (f out a b) = length out \<and> drop (2 * n) (f out a b) = drop (2 * n) out \<and>
     nval (2 * n) (f out a b) = nval n a * nval n b)"

lemma mult_specD:
  assumes "mult_spec n f" "2 * n \<le> length out" "n \<le> length a" "n \<le> length b"
  shows "length (f out a b) = length out" "drop (2 * n) (f out a b) = drop (2 * n) out"
    "nval (2 * n) (f out a b) = nval n a * nval n b"
  using assms by (simp_all add: mult_spec_def)

text \<open>The two half products, one after the other.\<close>

lemma karatsuba_products:
  assumes f: "mult_spec S f" and len: "2 * S \<le> length a" "2 * S \<le> length b"
  defines "t \<equiv> ptr_at (2 * S) (\<lambda>o'. f o' (drop S a) (drop S b)) (f (replicate (4 * S) 0) a b)"
  shows "length t = 4 * S" "wval (take (2 * S) t) = nval S a * nval S b"
    "wval (take (2 * S) (drop (2 * S) t)) = nval S (drop S a) * nval S (drop S b)"
    "wval t = nval S a * nval S b * 2 ^ (64 * (2 * S)) + nval S (drop S a) * nval S (drop S b)"
proof -
  note p1 = mult_specD [OF f, of "replicate (4 * S) 0" a b]
  have l1: "length (f (replicate (4 * S) 0) a b) = 4 * S"
    using p1 len by simp
  note p2 = mult_specD [OF f, of "drop (2 * S) (f (replicate (4 * S) 0) a b)" "drop S a" "drop S b"]
  show l: "length t = 4 * S"
    using p2(1) len l1 by (simp add: t_def)
  show hi: "wval (take (2 * S) t) = nval S a * nval S b"
    using p1(3) len l1 by (simp add: t_def)
  show lo: "wval (take (2 * S) (drop (2 * S) t)) = nval S (drop S a) * nval S (drop S b)"
    using p2(3) len l1 by (simp add: t_def)
  have "take (2 * S) (drop (2 * S) t) = drop (2 * S) t"
    using l by simp
  then show "wval t = nval S a * nval S b * 2 ^ (64 * (2 * S)) + nval S (drop S a) * nval S (drop S b)"
    using wval_split [of t "2 * S"] hi lo l by simp
qed

lemma sum_shape_add:
  assumes shape: "sum_shape S xs v" "0 < S" and p: "length p = 2 * S"
  shows "sum_shape S (ptr_at (S - 1) (\<lambda>o'. snd (uintnwords_add_o (2 * S + 1) o' o' (0 # p))) xs)
    ((v + wval p) mod 2 ^ (64 * (2 * S + 1)))"
proof -
  let ?d = "drop (S - 1) xs"
  have len: "length xs = 4 * S" and v: "nval (2 * S + 1) ?d = v"
    using shape by (simp_all add: sum_shape_def)
  have l: "2 * S + 1 \<le> length ?d" "2 * S + 1 \<le> length (0 # p)"
    using len shape(2) p by simp_all
  note a = uintnwords_add_o_spec [of "2 * S + 1" ?d ?d "0 # p", OF l(1) l(1) l(2)]
  have "nval (2 * S + 1) (0 # p) = wval p"
    using p by simp
  then show ?thesis
    using sum_shape_step [OF shape, of "\<lambda>o'. snd (uintnwords_add_o (2 * S + 1) o' o' (0 # p))"] a v
    by simp
qed

lemma sum_shape_negate:
  assumes shape: "sum_shape S xs v" "0 < S"
  shows "sum_shape S (ptr_at (S - 1) (\<lambda>o'. uintnwords_negate_o (2 * S + 1) o' o') xs)
    ((- v) mod 2 ^ (64 * (2 * S + 1)))"
proof -
  let ?d = "drop (S - 1) xs"
  have len: "length xs = 4 * S" and v: "nval (2 * S + 1) ?d = v"
    using shape by (simp_all add: sum_shape_def)
  have l: "2 * S + 1 \<le> length ?d"
    using len shape(2) by simp
  note a = uintnwords_negate_o_spec [of "2 * S + 1" ?d ?d, OF l l]
  show ?thesis
    using sum_shape_step [OF shape, of "\<lambda>o'. uintnwords_negate_o (2 * S + 1) o' o'"] a v by simp
qed

lemma karatsuba_sum0:
  assumes f: "mult_spec S f" and S: "0 < S" and d: "length d1 = S" "length d2 = S"
  shows "sum_shape S (ptr_at S (\<lambda>o'. f o' d1 d2) (replicate (4 * S) 0)) (wval d1 * wval d2)"
proof -
  let ?z = "replicate (3 * S) (0 :: u64)"
  note m = mult_specD [OF f, of ?z d1 d2]
  define p where "p = take (2 * S) (f ?z d1 d2)"
  have z: "drop S (replicate (4 * S) (0 :: u64)) = ?z" by simp
  have "f ?z d1 d2 = p @ replicate S 0"
    using m(2) d by (simp add: p_def) (metis append_take_drop_id)
  then have "ptr_at S (\<lambda>o'. f o' d1 d2) (replicate (4 * S) 0)
      = ptr_at S (\<lambda>_. p @ replicate S 0) (replicate (4 * S) 0)"
    unfolding ptr_at_def z by simp
  moreover have "length p = 2 * S" "wval p = wval d1 * wval d2"
    using m d by (simp_all add: p_def)
  ultimately show ?thesis
    using sum_shape_init [OF S, of p] by simp
qed

lemma karatsuba_step:
  assumes f: "mult_spec S f" and S: "0 < S"
    and len: "2 * S \<le> length a" "2 * S \<le> length b"
    and t: "t = ptr_at (2 * S) (\<lambda>o'. f o' (drop S a) (drop S b)) (f (replicate (4 * S) 0) a b)"
    and d1: "karatsuba_diff S (-1) a = (sign1, d1)"
    and d2: "karatsuba_diff S sign1 b = (sign2, d2)"
    and s1: "s1 = ptr_at S (\<lambda>o'. f o' d1 d2) (replicate (4 * S) 0)"
    and s2: "s2 = (if -1 = sign2
                   then ptr_at (S - 1) (\<lambda>o'. uintnwords_negate_o (2 * S + 1) o' o') s1 else s1)"
    and s3: "s3 = ptr_at (S - 1) (\<lambda>o'. snd (uintnwords_add_o (2 * S + 1) o' o'
                     (0 # take (2 * S) t))) s2"
    and s4: "s4 = ptr_at (S - 1) (\<lambda>o'. snd (uintnwords_add_o (2 * S + 1) o' o'
                     (0 # take (2 * S) (drop (2 * S) t)))) s3"
  shows "length s4 = 4 * S" "length t = 4 * S" "wval t + wval s4 = nval (2 * S) a * nval (2 * S) b"
proof -
  define x1 x0 y1 y0 where "x1 = nval S a" and "x0 = nval S (drop S a)"
    and "y1 = nval S b" and "y0 = nval S (drop S b)"
  note xy = x1_def x0_def y1_def y0_def
  define B :: int where "B = 2 ^ (64 * S)"
  define M :: int where "M = 2 ^ (64 * (2 * S + 1))"
  have M: "M = B ^ 2 * 2 ^ 64"
    by (simp add: M_def B_def power_add power_mult [symmetric] mult.commute mult.left_commute)
  have bounds: "0 \<le> x1" "x1 < B" "0 \<le> x0" "x0 < B" "0 \<le> y1" "y1 < B" "0 \<le> y0" "y0 < B"
    using nval_less [of S a] nval_less [of S "drop S a"] nval_less [of S b] nval_less [of S "drop S b"] len
    by (simp_all add: xy B_def)
  note prods = karatsuba_products [OF f len, folded t xy]
  note kd1 = karatsuba_diff_spec [OF len(1) d1, folded xy]
  note kd2 = karatsuba_diff_spec [OF len(2) d2, folded xy]
  define D where "D = \<bar>x1 - x0\<bar> * \<bar>y1 - y0\<bar>"
  define \<sigma> :: int where "\<sigma> = (if y1 \<le> y0 then if x1 \<le> x0 then -1 else 1 else if x1 \<le> x0 then 1 else -1)"
  have sh1: "sum_shape S s1 D"
    using karatsuba_sum0 [OF f S kd1(1) kd2(1)] by (simp add: s1 D_def kd1 kd2)
  obtain v2 where sh2: "sum_shape S s2 v2" and v2: "v2 mod M = (\<sigma> * D) mod M"
  proof (cases "-1 = sign2")
    case True
    then have "\<sigma> = -1" using kd1(2) kd2(2) by (auto simp: \<sigma>_def split: if_splits)
    with True show ?thesis
      using that [of "(- D) mod M"] sum_shape_negate [OF sh1 S] by (simp add: s2 M_def)
  next
    case False
    then have "\<sigma> = 1" using kd1(2) kd2(2) by (auto simp: \<sigma>_def split: if_splits)
    with False show ?thesis using that [of D] sh1 by (simp add: s2)
  qed
  have sh3: "sum_shape S s3 ((v2 + x1 * y1) mod M)"
    using sum_shape_add [OF sh2 S, of "take (2 * S) t"] prods by (simp add: s3 M_def)
  have sh4: "sum_shape S s4 (((v2 + x1 * y1) mod M + x0 * y0) mod M)"
    using sum_shape_add [OF sh3 S, of "take (2 * S) (drop (2 * S) t)"] prods by (simp add: s4 M_def)
  have "((v2 + x1 * y1) mod M + x0 * y0) mod M = (v2 mod M + (x1 * y1 + x0 * y0)) mod M"
    by (simp add: mod_add_left_eq add.assoc)
  also have "\<dots> = (\<sigma> * D + x1 * y1 + x0 * y0) mod M"
    by (simp add: v2 mod_add_left_eq add.assoc)
  also have "\<sigma> * D + x1 * y1 + x0 * y0 = x1 * y0 + x0 * y1"
    using karatsuba_sign [of y1 y0 x1 x0] by (simp add: \<sigma>_def D_def)
  also have "\<dots> mod M = x1 * y0 + x0 * y1"
    using karatsuba_middle_bound [OF bounds] by (simp add: M)
  finally have sh: "sum_shape S s4 (x1 * y0 + x0 * y1)" using sh4 by simp
  then show "length s4 = 4 * S" by (simp add: sum_shape_def)
  show "length t = 4 * S" by (fact prods(1))
  have "wval t + wval s4 = x1 * y1 * B ^ 2 + x0 * y0 + (x1 * y0 + x0 * y1) * B"
    using prods(4) sum_shape_value [OF sh S]
    by (simp add: B_def power_mult [symmetric] mult.commute mult.left_commute)
  also have "\<dots> = (x1 * B + x0) * (y1 * B + y0)"
    by (simp add: algebra_simps power2_eq_square)
  also have "\<dots> = nval (2 * S) a * nval (2 * S) b"
    using nval_add [of S S a] nval_add [of S S b] len by (simp add: xy B_def mult_2)
  finally show "wval t + wval s4 = nval (2 * S) a * nval (2 * S) b" .
qed

lemma uintfn_mult_o_Suc:
  assumes f: "mult_spec (2 ^ m) (uintfn_mult_o m)"
  shows "mult_spec (2 ^ Suc m) (uintfn_mult_o (Suc m))"
  unfolding mult_spec_def
proof (intro allI impI, elim conjE)
  fix out a b :: "u64 list"
  let ?S = "2 ^ m :: nat"
  assume "2 * 2 ^ Suc m \<le> length out" "2 ^ Suc m \<le> length a" "2 ^ Suc m \<le> length b"
  then have len: "2 * ?S \<le> length a" "2 * ?S \<le> length b" "4 * ?S \<le> length out" by simp_all
  have S: "0 < ?S" by simp
  obtain sign1 d1 where d1: "karatsuba_diff ?S (-1) a = (sign1, d1)" by force
  obtain sign2 d2 where d2: "karatsuba_diff ?S sign1 b = (sign2, d2)" by force
  let ?r = "uintfn_mult_o (Suc m) out a b"
  define t where "t = ptr_at (2 * ?S) (\<lambda>o'. uintfn_mult_o m o' (drop ?S a) (drop ?S b))
    (uintfn_mult_o m (replicate (4 * ?S) 0) a b)"
  define s1 where "s1 = ptr_at ?S (\<lambda>o'. uintfn_mult_o m o' d1 d2) (replicate (4 * ?S) 0)"
  define s2 where "s2 = (if -1 = sign2
    then ptr_at (?S - 1) (\<lambda>o'. uintnwords_negate_o (2 * ?S + 1) o' o') s1 else s1)"
  define s3 where "s3 = ptr_at (?S - 1) (\<lambda>o'. snd (uintnwords_add_o (2 * ?S + 1) o' o'
    (0 # take (2 * ?S) t))) s2"
  define s4 where "s4 = ptr_at (?S - 1) (\<lambda>o'. snd (uintnwords_add_o (2 * ?S + 1) o' o'
    (0 # take (2 * ?S) (drop (2 * ?S) t)))) s3"
  have four: "2 * (2 * ?S) = 4 * ?S" by simp
  have r: "?r = snd (uintnwords_add_o (4 * ?S) out t s4)"
    by (simp only: uintfn_mult_o.simps Let_def d1 d2 case_prod_conv four
        t_def s1_def s2_def s3_def s4_def)
  note s4 = karatsuba_step [OF f S len(1,2) t_def d1 d2 s1_def s2_def s3_def s4_def]
  note a = uintnwords_add_o_spec [of "4 * ?S" out t s4]
  have "nval (2 * ?S) a * nval (2 * ?S) b < 2 ^ (64 * (4 * ?S))"
  proof -
    have "nval (2 * ?S) a * nval (2 * ?S) b < 2 ^ (64 * (2 * ?S)) * 2 ^ (64 * (2 * ?S))"
      using nval_less [of "2 * ?S" a] nval_less [of "2 * ?S" b] len
      by (intro mult_strict_mono) auto
    also have "\<dots> = (2 :: int) ^ (64 * (4 * ?S))"
      by (simp add: power_add [symmetric])
    finally show ?thesis .
  qed
  then have "nval (4 * ?S) ?r = nval (2 * ?S) a * nval (2 * ?S) b"
    using a(4) s4 len r by simp
  then show "length ?r = length out \<and> drop (2 * 2 ^ Suc m) ?r = drop (2 * 2 ^ Suc m) out \<and>
      nval (2 * 2 ^ Suc m) ?r = nval (2 ^ Suc m) a * nval (2 ^ Suc m) b"
    using a(1,2) s4 len r by (simp del: uintfn_mult_o.simps)
qed

theorem uintfn_mult_spec: "mult_spec (2 ^ n) (uintfn_mult_o n)"
proof (induction n)
  case 0
  then show ?case
    using uintfn_mult_base_spec by (simp add: mult_spec_def)
next
  case (Suc n)
  then show ?case by (rule uintfn_mult_o_Suc)
qed

declare uintfn_mult_o.simps [simp del]

section \<open>Properties\<close>

text \<open>C23: The Karatsuba routine is multiplication: for operands of at least \<open>2^n\<close> words and an output
  array of at least \<open>2^(n+1)\<close> words, the first \<open>2^(n+1)\<close> words of the output denote the product
  of the first \<open>2^n\<close> words of the operands, and nothing behind them changes.\<close>

theorem uintfn_mult_correct:
  assumes "2 * 2 ^ n \<le> length out" "2 ^ n \<le> length a" "2 ^ n \<le> length b"
  shows "length (uintfn_mult_o n out a b) = length out \<and>
    drop (2 * 2 ^ n) (uintfn_mult_o n out a b) = drop (2 * 2 ^ n) out \<and>
    wval (take (2 * 2 ^ n) (uintfn_mult_o n out a b)) = wval (take (2 ^ n) a) * wval (take (2 ^ n) b)"
  using uintfn_mult_spec [of n] assms by (simp add: mult_spec_def)

theorem uintfn_mult_correct_witness:
  "wval (take (2 * 2 ^ 1) (uintfn_mult_o 1 [5, 6, 7, 8] [1, 2] [3, 0xffffffffffffffff]))
     = (2 ^ 64 + 2) * (3 * 2 ^ 64 + 0xffffffffffffffff)"
proof -
  have "wval (take (2 * 2 ^ 1) (uintfn_mult_o 1 [5, 6, 7, 8] [1, 2] [3, 0xffffffffffffffff]))
      = wval (take (2 ^ 1) [1, 2 :: u64]) * wval (take (2 ^ 1) [3, 0xffffffffffffffff :: u64])"
    by (rule uintfn_mult_correct [THEN conjunct2, THEN conjunct2]) simp_all
  also have "\<dots> = (2 ^ 64 + 2) * (3 * 2 ^ 64 + 0xffffffffffffffff)"
    by simp
  finally show ?thesis .
qed

end
