(* ===== verification/Bignum.thy ===== *)
theory Bignum
  imports Uint4096 Platform
begin

text \<open>
  The arithmetic of \<open>src/electionguard/bignum.c\<close>: the global group parameters, the wrappers
  around GMP that reduce modulo \<open>p\<close> and \<open>q\<close>, the bounded discrete logarithm, and the exports
  of a number to an array of words. A function with an \<open>mpz_t\<close> result parameter returns that
  result. The trace printing of the code has no effect and is left out.
\<close>

section \<open>Group parameters\<close>

record params =
  par_p :: int
  par_q :: int
  generator :: int

definition p_array :: "u64 list" where
  "p_array = replicate 59 0xffffffffffffffff @
     [0xffffffffffffffba, 0xffffffffffffffff, 0xffffffffffffffff, 0xfe0175e30b1b0e79,
      0x1db502994f24dfb1]"

definition g_array :: "u64 list" where
  "g_array =
     [0x9b61c275e06f3e38, 0x372f9a9ade0cdc4c, 0x82f4ce5337b3ef0e, 0xd28bedbc01342eb8,
      0x9977c8116d741270, 0xd45b0ebe12d96c5a, 0xee997fefdea18569, 0x018afe1284e702bb,
      0x9b8c78e03e697f37, 0x8d25bcbcb94fefd1, 0x2b7f97047f634232, 0x68881c3b96b389e1,
      0x34cb3162cb73ed80, 0x52f7946c7e72907f, 0xd8b96862d443b5c2, 0x6f7b0e3fdc9f035c,
      0xbf0f5aab670b7901, 0x1a8bcdebcf421cc9, 0xcbbe12c788e50328, 0x041eb59d81079497,
      0xb667b96049da04c7, 0x9d60f527b1c02f7e, 0xcba66849179cb5cf, 0xbe7c990cd888b69c,
      0x44171e4f54c21a8c, 0xfe9d821f195f7553, 0xb73a705707263eae, 0xa3b7afa7ded79acf,
      0x5a64f3bfb939b815, 0xc52085f40714f4c6, 0x460b0b0c3598e317, 0x46a06c2a3457676c,
      0xb345c8a390ebb942, 0x8ceecefa6fcb1c27, 0xa9e527a6c55b8d6b, 0x2b1868d6ec719e18,
      0x9a799605c540f864, 0x1f135d5dc7fb62d5, 0x8e0de0b6ae3ab90e, 0x91fb996505d7d928,
      0x3da833ff0cb6cc8c, 0xa7bafa0e90bb1adb, 0x81545a801f0016dc, 0x7088a4df2cfb7d6d,
      0xd876a2a5807bdaa4, 0x000dafa2dfb6fbb0, 0xed9d775589156ddb, 0xfc24ff2203fff9c5,
      0xcf7c85c68f66de94, 0xc98331f50fef59cf, 0x8e7ce9d95fa008f7, 0xc1672d269c163751,
      0x012826c4c8f5b5f4, 0xc11edb62550f3cf9, 0x3d86f3cc6e22b0e7, 0x69ac659157f40383,
      0xb5df9db9f8414f6c, 0xb5fa7d17bddd3bc9, 0x0dc7bdc39baf3be6, 0x02a99e2a37ce3a5c,
      0x098a8c1efd3cd28a, 0x6b79306ca2c20c55, 0x174218a3935f697e, 0x813628d2d861be54]"

definition q_array :: "u64 list" where
  "q_array = [0xffffffffffffffff, 0xffffffffffffffff, 0xffffffffffffffff, 0xffffffffffffff43]"

definition Crypto_parameters_new :: "env \<Rightarrow> params" where
  "Crypto_parameters_new E =
     \<lparr>par_p = mpz_import_u64 E p_array,
      par_q = mpz_import_u64 E q_array,
      generator = mpz_import_u64 E g_array\<rparr>"

definition bignum_one :: int where
  "bignum_one = 1"

section \<open>Modular arithmetic\<close>

definition pow_mod_p :: "env \<Rightarrow> params \<Rightarrow> int \<Rightarrow> int \<Rightarrow> int" where
  "pow_mod_p E G base exp = mpz_powm E base exp (par_p G)"

definition pow_mod_q :: "env \<Rightarrow> params \<Rightarrow> int \<Rightarrow> int \<Rightarrow> int" where
  "pow_mod_q E G base exp = mpz_powm E base exp (par_q G)"

definition mul_mod_p :: "env \<Rightarrow> params \<Rightarrow> int \<Rightarrow> int \<Rightarrow> int" where
  "mul_mod_p E G a b = mpz_mod E (a * b) (par_p G)"

definition mod_q :: "env \<Rightarrow> params \<Rightarrow> int \<Rightarrow> int" where
  "mod_q E G a = mpz_mod E a (par_q G)"

definition add_mod_q :: "env \<Rightarrow> params \<Rightarrow> int \<Rightarrow> int \<Rightarrow> int" where
  "add_mod_q E G l r = mod_q E G (l + r)"

definition sub_mod_q :: "env \<Rightarrow> params \<Rightarrow> int \<Rightarrow> int \<Rightarrow> int" where
  "sub_mod_q E G l r = mod_q E G (l - r)"

definition mul_mod_q :: "env \<Rightarrow> params \<Rightarrow> int \<Rightarrow> int \<Rightarrow> int" where
  "mul_mod_q E G l r = mod_q E G (l * r)"

definition div_mod_p :: "env \<Rightarrow> params \<Rightarrow> int \<Rightarrow> int \<Rightarrow> int" where
  "div_mod_p E G num den = mul_mod_p E G num (mpz_invert E den (par_p G))"

definition div_mod_q :: "env \<Rightarrow> params \<Rightarrow> int \<Rightarrow> int \<Rightarrow> int" where
  "div_mod_q E G num den = mul_mod_q E G num (mpz_invert E den (par_q G))"

text \<open>
  The discrete logarithm: the result is the returned flag and the value left in \<open>result\<close>. The
  second test of the loop looks at \<open>a\<close>, which does not change.
\<close>

definition max_decryption :: int where
  "max_decryption = 5000000"

partial_function (option) log_generator_loop ::
    "env \<Rightarrow> params \<Rightarrow> int \<Rightarrow> int \<Rightarrow> int \<Rightarrow> (bool \<times> int) option" where
  "log_generator_loop E G a result powmod =
     (if powmod \<noteq> a
      then
        let result = result + 1;
            powmod = mul_mod_p E G powmod (generator G)
        in if a = max_decryption then Some (False, result)
           else log_generator_loop E G a result powmod
      else Some (True, result))"

definition log_generator_mod_p :: "env \<Rightarrow> params \<Rightarrow> int \<Rightarrow> (bool \<times> int) option" where
  "log_generator_mod_p E G a = log_generator_loop E G a 0 1"

section \<open>Exporting and importing\<close>

datatype bignum_status = BIGNUM_SUCCESS | BIGNUM_INSUFFICIENT_MEMORY | BIGNUM_IO_ERROR

text \<open>
  \<open>mpz_export\<close> writes all words of the number into the buffer; the code compares the count
  afterwards. A number of more words than the buffer holds has overflowed it by then (\<open>None\<close>).
\<close>

definition export_to_64_t :: "env \<Rightarrow> int \<Rightarrow> nat \<Rightarrow> (bignum_status \<times> u64 list option) option" where
  "export_to_64_t E v ct =
     (case malloc E (8 * ct) of
        None \<Rightarrow> Some (BIGNUM_INSUFFICIENT_MEMORY, None)
      | Some _ \<Rightarrow>
          let result = mpz_export_u64 E v; written = length result
          in if ct < written then None
             else if written \<noteq> ct then Some (BIGNUM_IO_ERROR, None)
             else Some (BIGNUM_SUCCESS, Some result))"

definition export_to_64_t_pad :: "env \<Rightarrow> int \<Rightarrow> nat \<Rightarrow> (bignum_status \<times> u64 list option) option" where
  "export_to_64_t_pad E v ct =
     (case malloc E (8 * ct) of
        None \<Rightarrow> Some (BIGNUM_INSUFFICIENT_MEMORY, None)
      | Some _ \<Rightarrow>
          case malloc E (8 * ct) of
            None \<Rightarrow> Some (BIGNUM_INSUFFICIENT_MEMORY, None)
          | Some _ \<Rightarrow>
              let tmp = mpz_export_u64 E v; written = length tmp
              in if ct < written then None
                 else Some (BIGNUM_SUCCESS,
                   Some (floop written (\<lambda>j result. result[ct - written + j := tmp ! j]) (replicate ct 0))))"

definition export_to_256 :: "env \<Rightarrow> int \<Rightarrow> (bignum_status \<times> u64 list option) option" where
  "export_to_256 E v = export_to_64_t E v 4"

definition export_to_uint4096 :: "env \<Rightarrow> int \<Rightarrow> (bignum_status \<times> u64 list option) option" where
  "export_to_uint4096 E op =
     (case malloc E 512 of
        None \<Rightarrow> Some (BIGNUM_INSUFFICIENT_MEMORY, None)
      | Some _ \<Rightarrow>
          let result = mpz_export_u64 E op; written = length result
          in if 64 < written then None
             else if written \<noteq> 64 then Some (BIGNUM_IO_ERROR, None)
             else Some (BIGNUM_SUCCESS, Some result))"

definition import_uint4096 :: "env \<Rightarrow> u64 list \<Rightarrow> int" where
  "import_uint4096 E v = mpz_import_u64 E (take 64 v)"

definition import_uint64_ts :: "env \<Rightarrow> u64 list \<Rightarrow> nat \<Rightarrow> int" where
  "import_uint64_ts E v ct = mpz_import_u64 E (take ct v)"

section \<open>What the exports produce\<close>

text \<open>\<open>fits n v\<close>: the number takes exactly \<open>n\<close> words, so that an export to \<open>n\<close> words succeeds.\<close>

definition fits :: "nat \<Rightarrow> int \<Rightarrow> bool" where
  "fits n v \<longleftrightarrow> 0 < n \<and> 2 ^ (64 * (n - 1)) \<le> v \<and> v < 2 ^ (64 * n)"

definition words_of :: "nat \<Rightarrow> int \<Rightarrow> u64 list" where
  "words_of n v = map (\<lambda>i. word_of_int (v div 2 ^ (64 * (n - 1 - i)))) [0..<n]"

lemma fits_nonneg: "fits n v \<Longrightarrow> 0 \<le> v"
  unfolding fits_def using zero_le_power [of "2 :: int" "64 * (n - 1)"] by linarith

lemma fits_less: "fits n v \<Longrightarrow> v < 2 ^ (64 * n)"
  by (simp add: fits_def)

lemma length_words_of [simp]: "length (words_of n v) = n"
  by (simp add: words_of_def)

lemma words_of_Suc: "words_of (Suc n) v = words_of n (v div 2 ^ 64) @ [word_of_int v]"
proof -
  have "v div 2 ^ (64 * (n - i)) = v div 2 ^ 64 div 2 ^ (64 * (n - 1 - i))" if "i < n" for i
  proof -
    have "n - i = Suc (n - 1 - i)" using that by simp
    then have "64 * (n - i) = 64 + 64 * (n - 1 - i)" by simp
    then show ?thesis by (simp only: power_add zdiv_zmult2_eq zero_le_power zero_le_numeral)
  qed
  then show ?thesis by (simp add: words_of_def)
qed

lemma wval_words_of: "wval (words_of n v) = v mod 2 ^ (64 * n)"
proof (induction n arbitrary: v)
  case (Suc n)
  have "64 * Suc n = 64 + 64 * n" by simp
  then have "v mod 2 ^ (64 * Suc n) = 2 ^ 64 * ((v div 2 ^ 64) mod 2 ^ (64 * n)) + v mod 2 ^ 64"
    by (simp only: power_add zmod_zmult2_eq zero_le_power zero_le_numeral)
  moreover have "uint (word_of_int v :: u64) = v mod 2 ^ 64"
    by (simp add: uint_word_of_int)
  ultimately show ?case
    by (simp add: words_of_Suc wval_append Suc)
qed (simp add: words_of_def)

context platform
begin

lemma export_words: "fits n v \<Longrightarrow> mpz_export_u64 E v = words_of n v"
proof -
  assume f: "fits n v"
  have v: "0 \<le> v" using f by (rule fits_nonneg)
  have "length (mpz_export_u64 E v) = n"
    using length_export_eq f by (simp add: fits_def)
  then show ?thesis
    using f v by (intro wval_inj) (simp_all add: wval_words_of mpz_export_u64_eq fits_def)
qed

lemma import_words: "0 \<le> v \<Longrightarrow> v < 2 ^ (64 * n) \<Longrightarrow> mpz_import_u64 E (words_of n v) = v"
  by (simp add: mpz_import_u64_eq wval_words_of)

lemma export_fewer: "0 \<le> v \<Longrightarrow> v < 2 ^ (64 * (n - 1)) \<Longrightarrow> 0 < n \<Longrightarrow> length (mpz_export_u64 E v) < n"
  using length_export_le [of v "n - 1"] by simp

end

context platform_mem
begin

lemma export_to_64_t_fits [env_simps]:
  "fits n v \<Longrightarrow> export_to_64_t E v n = Some (BIGNUM_SUCCESS, Some (words_of n v))"
  using malloc_ok [of "8 * n"] by (auto simp: export_to_64_t_def export_words)

lemma export_to_256_fits [env_simps]:
  "fits 4 v \<Longrightarrow> export_to_256 E v = Some (BIGNUM_SUCCESS, Some (words_of 4 v))"
  by (simp add: export_to_256_def export_to_64_t_fits)

lemma export_to_uint4096_fits [env_simps]:
  "fits 64 v \<Longrightarrow> export_to_uint4096 E v = Some (BIGNUM_SUCCESS, Some (words_of 64 v))"
  using malloc_ok [of 512] by (auto simp: export_to_uint4096_def export_words)

lemma export_to_64_t_pad_ok [env_simps]:
  assumes "0 \<le> v" "v < 2 ^ (64 * n)"
  shows "export_to_64_t_pad E v n = Some (BIGNUM_SUCCESS, Some (words_of n v))"
proof -
  let ?t = "mpz_export_u64 E v"
  have l: "length ?t \<le> n" using length_export_le assms by simp
  have f: "floop k (\<lambda>j result. result[n - length ?t + j := ?t ! j]) (replicate n 0)
      = replicate (n - length ?t) 0 @ take k ?t @ replicate (length ?t - k) 0" if "k \<le> length ?t" for k
    using that
  proof (induction k)
    case 0
    then show ?case using l by (simp add: replicate_add [symmetric])
  next
    case (Suc k)
    then have "replicate (length ?t - k) (0 :: u64) = 0 # replicate (length ?t - Suc k) 0"
      by (simp add: Suc_diff_Suc flip: replicate_Suc)
    with Suc show ?case by (simp add: list_update_append take_Suc_conv_app_nth)
  qed
  have "replicate (n - length ?t) 0 @ ?t = words_of n v"
    using l assms by (intro wval_inj) (simp_all add: wval_words_of mpz_export_u64_eq)
  then have "floop (length ?t) (\<lambda>j result. result[n - length ?t + j := ?t ! j]) (replicate n 0)
      = words_of n v"
    using f [of "length ?t"] by simp
  then show ?thesis
    using malloc_ok [of "8 * n"] l by (auto simp: export_to_64_t_pad_def Let_def)
qed

end

section \<open>The group\<close>

text \<open>
  What the library relies on of its constants: the generator has an order that divides \<open>q\<close>.
\<close>

definition group_ok :: "params \<Rightarrow> bool" where
  "group_ok G \<longleftrightarrow> 1 < par_p G \<and> 1 < par_q G \<and> 0 \<le> generator G \<and> generator G < par_p G \<and>
     generator G ^ nat (par_q G) mod par_p G = 1"

text \<open>The elements whose order divides \<open>q\<close>.\<close>

definition in_group :: "params \<Rightarrow> int \<Rightarrow> bool" where
  "in_group G x \<longleftrightarrow> x ^ nat (par_q G) mod par_p G = 1"

lemma group_okD [simp, dest]:
  assumes "group_ok G"
  shows "1 < par_p G" "1 < par_q G" "0 < par_p G" "0 < par_q G"
    "0 \<le> par_p G" "0 \<le> par_q G" "in_group G (generator G)"
  using assms by (simp_all add: group_ok_def in_group_def)

lemma in_group_pow:
  assumes "group_ok G" "in_group G x"
  shows "x ^ (nat (par_q G) * k) mod par_p G = 1"
proof -
  have "x ^ (nat (par_q G) * k) mod par_p G = (x ^ nat (par_q G) mod par_p G) ^ k mod par_p G"
    by (simp add: power_mult power_mod)
  then show ?thesis using assms by (simp add: in_group_def)
qed

lemma in_group_exp_mod:
  assumes "group_ok G" "in_group G x" "0 \<le> e"
  shows "x ^ nat (e mod par_q G) mod par_p G = x ^ nat e mod par_p G"
proof -
  let ?q = "par_q G"
  have e: "nat e = nat ?q * nat (e div ?q) + nat (e mod ?q)"
  proof -
    have d: "0 \<le> e div ?q" "0 \<le> e mod ?q"
      using assms by (simp_all add: pos_imp_zdiv_nonneg_iff)
    then have "nat (?q * (e div ?q) + e mod ?q) = nat ?q * nat (e div ?q) + nat (e mod ?q)"
      using assms(1) by (subst nat_add_distrib) (simp_all add: nat_mult_distrib)
    then show ?thesis by simp
  qed
  have "x ^ nat e mod par_p G
      = (x ^ (nat ?q * nat (e div ?q)) mod par_p G) * (x ^ nat (e mod ?q) mod par_p G) mod par_p G"
    by (subst e) (simp only: power_add mod_mult_eq)
  also have "\<dots> = x ^ nat (e mod ?q) mod par_p G"
    by (simp only: in_group_pow [OF assms(1,2)]) simp
  finally show ?thesis by simp
qed

text \<open>Exponents that agree modulo \<open>q\<close> give the same power.\<close>

lemma in_group_exp_cong:
  assumes "group_ok G" "in_group G x" "0 \<le> d" "0 \<le> e" "d mod par_q G = e mod par_q G"
  shows "x ^ nat d mod par_p G = x ^ nat e mod par_p G"
  using in_group_exp_mod [OF assms(1,2,3)] in_group_exp_mod [OF assms(1,2,4)] assms(5) by simp

lemma in_group_power [intro]: "group_ok G \<Longrightarrow> in_group G x \<Longrightarrow> in_group G (x ^ k mod par_p G)"
  using in_group_pow [of G x k]
  by (simp add: in_group_def power_mod mult.commute flip: power_mult)

lemma in_group_mult [intro]:
  assumes "group_ok G" "in_group G x" "in_group G y"
  shows "in_group G (x * y mod par_p G)"
proof -
  have "(x * y) ^ nat (par_q G) mod par_p G
      = (x ^ nat (par_q G) mod par_p G) * (y ^ nat (par_q G) mod par_p G) mod par_p G"
    by (simp only: power_mult_distrib mod_mult_eq)
  with assms show ?thesis by (simp add: in_group_def power_mod)
qed

lemma in_group_1 [simp]: "group_ok G \<Longrightarrow> in_group G 1"
  by (simp add: in_group_def)

lemma in_group_coprime:
  assumes "group_ok G" "in_group G x"
  shows "coprime x (par_p G)"
proof -
  obtain k where "nat (par_q G) = Suc k"
    using assms(1) by (metis gr0_implies_Suc group_okD(4) zero_less_nat_eq)
  then have "x * x ^ k mod par_p G = 1"
    using assms(2) by (simp add: in_group_def)
  then have "par_p G dvd x * x ^ k - 1"
    using assms(1) by (simp add: mod_eq_dvd_iff [symmetric])
  then obtain c where "x * x ^ k - 1 = par_p G * c" by (elim dvdE)
  then have "x * x ^ k = par_p G * c + 1" by simp
  show ?thesis
  proof (rule coprimeI)
    fix d assume "d dvd x" "d dvd par_p G"
    then have "d dvd x * x ^ k - par_p G * c" by simp
    then show "is_unit d" using \<open>x * x ^ k = par_p G * c + 1\<close> by simp
  qed
qed

context platform
begin

lemma pow_mod_p_eq: "group_ok G \<Longrightarrow> 0 \<le> e \<Longrightarrow> pow_mod_p E G b e = b ^ nat e mod par_p G"
  by (simp add: pow_mod_p_def mpz_powm_pos)

lemma pow_mod_q_eq: "group_ok G \<Longrightarrow> 0 \<le> e \<Longrightarrow> pow_mod_q E G b e = b ^ nat e mod par_q G"
  by (simp add: pow_mod_q_def mpz_powm_pos)

lemma mul_mod_p_eq: "group_ok G \<Longrightarrow> mul_mod_p E G a b = a * b mod par_p G"
  by (simp add: mul_mod_p_def mpz_mod_pos)

lemma mod_q_eq: "group_ok G \<Longrightarrow> mod_q E G a = a mod par_q G"
  by (simp add: mod_q_def mpz_mod_pos)

lemma add_mod_q_eq: "group_ok G \<Longrightarrow> add_mod_q E G a b = (a + b) mod par_q G"
  by (simp add: add_mod_q_def mod_q_eq)

lemma sub_mod_q_eq: "group_ok G \<Longrightarrow> sub_mod_q E G a b = (a - b) mod par_q G"
  by (simp add: sub_mod_q_def mod_q_eq)

lemma mul_mod_q_eq: "group_ok G \<Longrightarrow> mul_mod_q E G a b = a * b mod par_q G"
  by (simp add: mul_mod_q_def mod_q_eq)

lemmas arith_eqs [env_simps] =
  pow_mod_p_eq pow_mod_q_eq mul_mod_p_eq mod_q_eq add_mod_q_eq sub_mod_q_eq mul_mod_q_eq

lemma div_mod_p_mult:
  assumes "group_ok G" "coprime b (par_p G)"
  shows "div_mod_p E G a b * b mod par_p G = a mod par_p G"
proof -
  let ?i = "mpz_invert E b (par_p G)"
  have "div_mod_p E G a b * b mod par_p G = a * (b * ?i mod par_p G) mod par_p G"
    using assms(1) by (simp add: div_mod_p_def mul_mod_p_eq mod_mult_left_eq mod_mult_right_eq ac_simps)
  also have "\<dots> = a mod par_p G"
    using assms by (simp add: mpz_invert_eq)
  finally show ?thesis .
qed

lemma div_mod_q_mult:
  assumes "group_ok G" "coprime b (par_q G)"
  shows "div_mod_q E G a b * b mod par_q G = a mod par_q G"
proof -
  let ?i = "mpz_invert E b (par_q G)"
  have "div_mod_q E G a b * b mod par_q G = a * (b * ?i mod par_q G) mod par_q G"
    using assms(1) by (simp add: div_mod_q_def mul_mod_q_eq mod_mult_left_eq mod_mult_right_eq ac_simps)
  also have "\<dots> = a mod par_q G"
    using assms by (simp add: mpz_invert_eq)
  finally show ?thesis .
qed

text \<open>The search for the logarithm.\<close>

lemma log_loop_finds:
  assumes G: "group_ok G" and a: "a \<noteq> max_decryption"
    and n: "a = generator G ^ n mod par_p G"
      "\<And>k. k < n \<Longrightarrow> generator G ^ k mod par_p G \<noteq> a" and k: "k \<le> n"
  shows "log_generator_loop E G a (int k) (generator G ^ k mod par_p G) = Some (True, int n)"
  using k
proof (induction "n - k" arbitrary: k)
  case 0
  then show ?case using n(1) by (subst log_generator_loop.simps) simp
next
  case (Suc d)
  then have "k < n" by simp
  then have "generator G ^ k mod par_p G \<noteq> a" by (rule n(2))
  moreover have "mul_mod_p E G (generator G ^ k mod par_p G) (generator G) = generator G ^ Suc k mod par_p G"
    using G by (simp add: mul_mod_p_eq mod_mult_left_eq mod_mult_right_eq mult.commute)
  moreover have "log_generator_loop E G a (int (Suc k)) (generator G ^ Suc k mod par_p G)
      = Some (True, int n)"
    using Suc.hyps(1) [of "Suc k"] Suc.hyps(2) \<open>k < n\<close> by simp
  ultimately show ?case
    using a by (subst log_generator_loop.simps) (simp add: add.commute)
qed

text \<open>A search that returns has met the argument among the powers, unless the argument is the one given up.\<close>

lemma log_loop_hits:
  assumes G: "group_ok G" and ret: "log_generator_loop E G a result (generator G ^ k mod par_p G) = Some y"
    and a: "a \<noteq> max_decryption"
  shows "\<exists>n. a = generator G ^ n mod par_p G"
proof -
  let ?hit = "\<lambda>E' G' a' (_ :: int) x (_ :: bool \<times> int). E' = E \<longrightarrow> G' = G \<longrightarrow> a' = a \<longrightarrow>
    (\<forall>k. x = generator G ^ k mod par_p G \<longrightarrow> (\<exists>n. a = generator G ^ n mod par_p G))"
  have "?hit E G a result (generator G ^ k mod par_p G) y"
  proof (rule log_generator_loop.raw_induct [where P = ?hit, OF _ ret])
    fix f E' G' a' r x y
    assume IH: "\<And>E' G' a' r x y. f E' G' a' r x = Some y \<Longrightarrow> ?hit E' G' a' r x y"
      and eq: "(if x \<noteq> a'
         then let result = r + 1; powmod = mul_mod_p E' G' x (generator G')
              in if a' = max_decryption then Some (False, result) else f E' G' a' result powmod
         else Some (True, r)) = Some y"
    show "?hit E' G' a' r x y"
    proof (intro impI allI)
      fix k assume e: "E' = E" "G' = G" "a' = a" and x: "x = generator G ^ k mod par_p G"
      show "\<exists>n. a = generator G ^ n mod par_p G"
      proof (cases "x = a")
        case False
        then have "f E G a (r + 1) (mul_mod_p E G x (generator G)) = Some y" using eq e a by (simp add: Let_def)
        moreover have "mul_mod_p E G x (generator G) = generator G ^ Suc k mod par_p G"
          using G x by (simp add: mul_mod_p_eq mod_mult_left_eq mod_mult_right_eq mult.commute)
        ultimately show ?thesis using IH by metis
      qed (use x in blast)
    qed
  qed
  then show ?thesis by blast
qed

end

end
