(* ===== verification/CryptoTypes.thy ===== *)
theory CryptoTypes
  imports Bignum
begin

text \<open>
  The data of the cryptographic layer: \<open>src/electionguard/crypto_reps.h\<close>,
  \<open>include/electionguard/rsa.h\<close>, \<open>include/electionguard/max_values.h\<close>. An \<open>mpz_t\<close> is the integer it
  holds (an initialised one holds 0); an array of \<open>MAX_TRUSTEES\<close> numbers is a list of that
  length; a structure of a single field is that field; a pointer to a dynamic array is an
  optional list.
\<close>

definition MAX_TRUSTEES :: nat where
  "MAX_TRUSTEES = 5"

definition MAX_SELECTIONS :: nat where
  "MAX_SELECTIONS = 1000"

definition SHA256_DIGEST_LENGTH :: nat where
  "SHA256_DIGEST_LENGTH = 32"

definition HASH_DIGEST_SIZE_BYTES :: nat where
  "HASH_DIGEST_SIZE_BYTES = 32"

datatype Crypto_status =
    CRYPTO_SUCCESS | CRYPTO_INSUFFICIENT_MEMORY | CRYPTO_IO_ERROR | CRYPTO_UNKNOWN_ERROR

type_synonym raw_hash = "u8 list"
type_synonym hash = int
type_synonym encrypted_key_share = int

record private_key =
  priv_threshold :: u32
  coefficients :: "int list"

record schnorr_proof =
  proof_threshold :: u32
  commitments :: "int list"
  challenge :: hash
  challenge_responses :: "int list"

record public_key =
  pub_threshold :: u32
  pub_proof :: schnorr_proof
  coef_commitments :: "int list"

record rsa_public_key =
  pub_n :: int
  pub_e :: int

record rsa_private_key =
  rsa_n :: int
  rsa_e :: int
  rsa_d :: int
  rsa_p :: int
  rsa_q :: int

record joint_public_key_rep =
  joint_num_trustees :: u32
  joint_key :: int

record encryption_rep =
  nonce_encoding :: int
  message_encoding :: int

record cp_proof_rep =
  cp_commitment :: encryption_rep
  cp_challenge :: hash
  cp_response :: int

record dis_proof_rep =
  commitment0 :: encryption_rep
  commitment1 :: encryption_rep
  dis_challenge :: hash
  challenge0 :: int
  challenge1 :: int
  response0 :: int
  response1 :: int

record encrypted_ballot_rep =
  ballot_id :: u64
  num_selections :: u32
  selections :: "encryption_rep list option"
  dis_proofs :: "dis_proof_rep list option"
  ballot_cp_proof :: cp_proof_rep

section \<open>Initialisation and copying\<close>

text \<open>
  Initialisation sets every number to 0. \<open>Crypto_private_key_copy\<close> asserts the bound of its
  array; the other copies only fail when an index leaves the array.
\<close>

definition mpz_init_n :: "nat \<Rightarrow> int list \<Rightarrow> int list option" where
  "mpz_init_n n xs = loop n (\<lambda>i xs. arr_set xs i 0) xs"

definition mpz_set_n :: "nat \<Rightarrow> int list \<Rightarrow> int list \<Rightarrow> int list option" where
  "mpz_set_n n dst src = loop n (\<lambda>i dst. do { x \<leftarrow> arr_get src i; arr_set dst i x }) dst"

definition Crypto_private_key_init :: "private_key \<Rightarrow> nat \<Rightarrow> private_key option" where
  "Crypto_private_key_init dst threshold =
     do { cs \<leftarrow> mpz_init_n threshold (coefficients dst); Some (dst\<lparr>coefficients := cs\<rparr>) }"

definition Crypto_private_key_copy :: "private_key \<Rightarrow> private_key \<Rightarrow> private_key option" where
  "Crypto_private_key_copy dst src =
     (if unat (priv_threshold src) \<le> MAX_TRUSTEES
      then do {
        cs \<leftarrow> mpz_set_n (unat (priv_threshold src)) (coefficients dst) (coefficients src);
        Some (dst\<lparr>priv_threshold := priv_threshold src, coefficients := cs\<rparr>) }
      else None)"

definition Crypto_schnorr_proof_new :: "schnorr_proof \<Rightarrow> nat \<Rightarrow> schnorr_proof option" where
  "Crypto_schnorr_proof_new dst threshold =
     do {
       cs \<leftarrow> mpz_init_n threshold (commitments dst);
       rs \<leftarrow> mpz_init_n threshold (challenge_responses dst);
       Some (dst\<lparr>commitments := cs, challenge_responses := rs, challenge := 0\<rparr>) }"

definition Crypto_schnorr_proof_copy :: "schnorr_proof \<Rightarrow> schnorr_proof \<Rightarrow> schnorr_proof option" where
  "Crypto_schnorr_proof_copy dst src =
     do {
       cs \<leftarrow> mpz_set_n (unat (proof_threshold src)) (commitments dst) (commitments src);
       rs \<leftarrow> mpz_set_n (unat (proof_threshold src)) (challenge_responses dst) (challenge_responses src);
       Some (dst\<lparr>proof_threshold := proof_threshold src, commitments := cs, challenge_responses := rs,
                 challenge := challenge src\<rparr>) }"

definition Crypto_public_key_new :: "public_key \<Rightarrow> nat \<Rightarrow> public_key option" where
  "Crypto_public_key_new dst threshold =
     do {
       cs \<leftarrow> mpz_init_n threshold (coef_commitments dst);
       pf \<leftarrow> Crypto_schnorr_proof_new (pub_proof dst) threshold;
       Some (dst\<lparr>coef_commitments := cs, pub_proof := pf\<rparr>) }"

definition Crypto_public_key_copy :: "public_key \<Rightarrow> public_key \<Rightarrow> public_key option" where
  "Crypto_public_key_copy dst src =
     do {
       cs \<leftarrow> mpz_set_n (unat (pub_threshold src)) (coef_commitments dst) (coef_commitments src);
       pf \<leftarrow> Crypto_schnorr_proof_copy (pub_proof dst) (pub_proof src);
       Some (dst\<lparr>pub_threshold := pub_threshold src, coef_commitments := cs, pub_proof := pf\<rparr>) }"

definition Crypto_rsa_public_key_new :: rsa_public_key where
  "Crypto_rsa_public_key_new = \<lparr>pub_n = 0, pub_e = 0\<rparr>"

definition Crypto_rsa_public_key_copy :: "rsa_public_key \<Rightarrow> rsa_public_key \<Rightarrow> rsa_public_key" where
  "Crypto_rsa_public_key_copy dst src = dst\<lparr>pub_n := pub_n src, pub_e := pub_e src\<rparr>"

definition Crypto_rsa_private_key_new :: rsa_private_key where
  "Crypto_rsa_private_key_new = \<lparr>rsa_n = 0, rsa_e = 0, rsa_d = 0, rsa_p = 0, rsa_q = 0\<rparr>"

definition Crypto_rsa_private_key_copy :: "rsa_private_key \<Rightarrow> rsa_private_key \<Rightarrow> rsa_private_key" where
  "Crypto_rsa_private_key_copy dst src =
     dst\<lparr>rsa_e := rsa_e src, rsa_n := rsa_n src, rsa_d := rsa_d src, rsa_p := rsa_p src, rsa_q := rsa_q src\<rparr>"

definition Crypto_encrypted_key_share_init :: encrypted_key_share where
  "Crypto_encrypted_key_share_init = 0"

definition Crypto_encrypted_key_share_copy ::
    "encrypted_key_share \<Rightarrow> encrypted_key_share \<Rightarrow> encrypted_key_share" where
  "Crypto_encrypted_key_share_copy dst src = src"

definition Crypto_joint_public_key_init :: "joint_public_key_rep \<Rightarrow> joint_public_key_rep" where
  "Crypto_joint_public_key_init dst = dst\<lparr>joint_key := 0\<rparr>"

definition Crypto_joint_public_key_copy ::
    "joint_public_key_rep \<Rightarrow> joint_public_key_rep \<Rightarrow> joint_public_key_rep" where
  "Crypto_joint_public_key_copy dst src =
     dst\<lparr>joint_num_trustees := joint_num_trustees src, joint_key := joint_key src\<rparr>"

definition Crypto_encryption_rep_new :: encryption_rep where
  "Crypto_encryption_rep_new = \<lparr>nonce_encoding = 0, message_encoding = 0\<rparr>"

definition Crypto_encryption_rep_copy :: "encryption_rep \<Rightarrow> encryption_rep \<Rightarrow> encryption_rep" where
  "Crypto_encryption_rep_copy dst src =
     dst\<lparr>nonce_encoding := nonce_encoding src, message_encoding := message_encoding src\<rparr>"

definition Crypto_dis_proof_new :: dis_proof_rep where
  "Crypto_dis_proof_new =
     \<lparr>commitment0 = Crypto_encryption_rep_new, commitment1 = Crypto_encryption_rep_new,
      dis_challenge = 0, challenge0 = 0, challenge1 = 0, response0 = 0, response1 = 0\<rparr>"

text \<open>\<open>Crypto_cp_proof_new\<close> leaves the challenge alone.\<close>

definition Crypto_cp_proof_new :: "cp_proof_rep \<Rightarrow> cp_proof_rep" where
  "Crypto_cp_proof_new dst = dst\<lparr>cp_commitment := Crypto_encryption_rep_new, cp_response := 0\<rparr>"

section \<open>Shapes\<close>

text \<open>Every array has its declared length.\<close>

definition private_key_shape :: "private_key \<Rightarrow> bool" where
  "private_key_shape k \<longleftrightarrow> length (coefficients k) = MAX_TRUSTEES"

definition schnorr_proof_shape :: "schnorr_proof \<Rightarrow> bool" where
  "schnorr_proof_shape k \<longleftrightarrow> length (commitments k) = MAX_TRUSTEES \<and>
     length (challenge_responses k) = MAX_TRUSTEES"

definition public_key_shape :: "public_key \<Rightarrow> bool" where
  "public_key_shape k \<longleftrightarrow> length (coef_commitments k) = MAX_TRUSTEES \<and> schnorr_proof_shape (pub_proof k)"

lemma mpz_set_n_ok:
  "n \<le> length dst \<Longrightarrow> n \<le> length src \<Longrightarrow> mpz_set_n n dst src = Some (take n src @ drop n dst)"
  by (simp add: mpz_set_n_def loop_fill [where f = "(!) src"] map_nth_upt)

lemma mpz_init_n_ok: "n \<le> length xs \<Longrightarrow> mpz_init_n n xs = Some (replicate n 0 @ drop n xs)"
  using loop_fill [of n xs "\<lambda>i. Some 0" "\<lambda>i. 0"]
  by (simp add: mpz_init_n_def map_replicate_const)

lemma Crypto_private_key_copy_ok [env_simps]:
  "private_key_shape dst \<Longrightarrow> private_key_shape src \<Longrightarrow> unat (priv_threshold src) \<le> MAX_TRUSTEES \<Longrightarrow>
   Crypto_private_key_copy dst src = Some (dst\<lparr>priv_threshold := priv_threshold src,
     coefficients := take (unat (priv_threshold src)) (coefficients src)
       @ drop (unat (priv_threshold src)) (coefficients dst)\<rparr>)"
  by (simp add: Crypto_private_key_copy_def mpz_set_n_ok private_key_shape_def)

lemma Crypto_public_key_copy_ok [env_simps]:
  assumes "public_key_shape dst" "public_key_shape src" "unat (pub_threshold src) \<le> MAX_TRUSTEES"
    "unat (proof_threshold (pub_proof src)) \<le> MAX_TRUSTEES"
  shows "\<exists>k. Crypto_public_key_copy dst src = Some k \<and> public_key_shape k \<and>
    pub_threshold k = pub_threshold src \<and> proof_threshold (pub_proof k) = proof_threshold (pub_proof src) \<and>
    challenge (pub_proof k) = challenge (pub_proof src) \<and>
    take (unat (pub_threshold src)) (coef_commitments k) = take (unat (pub_threshold src)) (coef_commitments src)"
  using assms
  by (simp add: Crypto_public_key_copy_def Crypto_schnorr_proof_copy_def mpz_set_n_ok public_key_shape_def
      schnorr_proof_shape_def)

end
