(* ===== verification/SerializeCrypto.thy ===== *)
theory SerializeCrypto
  imports Serialize CryptoTypes
begin

unbundle bit_operations_syntax

text \<open>
  The encodings of the cryptographic data, \<open>src/electionguard/serialize/crypto.c\<close>. A number of
  \<open>n\<close> words is exported most significant word first and each word is written little endian; it
  must take exactly \<open>n\<close> words, otherwise the state gets an error status.

  The bytes of a native 64-bit word are taken in the order of a little-endian machine, where the
  code looks at an array of words through a byte pointer and the reverse.
\<close>

section \<open>Numbers\<close>

definition bignum_error :: "bignum_status \<Rightarrow> serialize_status" where
  "bignum_error s =
     (if s = BIGNUM_IO_ERROR then SERIALIZE_STATE_IO_ERROR else SERIALIZE_STATE_INSUFFICIENT_MEMORY)"

definition write_words :: "nat \<Rightarrow> u64 list \<Rightarrow> serialize_state \<Rightarrow> serialize_state option" where
  "write_words ct tmp st = write_array Serialize_write_uint64 ct tmp st"

definition Serialize_reserve_uint64_ts :: "nat \<Rightarrow> serialize_state \<Rightarrow> serialize_state option" where
  "Serialize_reserve_uint64_ts ct st = loop ct (\<lambda>i. Serialize_reserve_uint64) st"

definition Serialize_write_uint64_ts :: "env \<Rightarrow> int \<Rightarrow> nat \<Rightarrow> serialize_state \<Rightarrow> serialize_state option" where
  "Serialize_write_uint64_ts E data ct st =
     do {
       (export_status, tmp) \<leftarrow> export_to_64_t E data ct;
       if export_status = BIGNUM_SUCCESS
       then (case tmp of None \<Rightarrow> Some st | Some tmp \<Rightarrow> write_words ct tmp st)
       else Some (st\<lparr>ss_status := bignum_error export_status\<rparr>) }"

definition Serialize_write_uint64_ts_pad ::
    "env \<Rightarrow> int \<Rightarrow> nat \<Rightarrow> serialize_state \<Rightarrow> serialize_state option" where
  "Serialize_write_uint64_ts_pad E data ct st =
     do {
       (export_status, tmp) \<leftarrow> export_to_64_t_pad E data ct;
       if export_status = BIGNUM_SUCCESS
       then (case tmp of None \<Rightarrow> Some st | Some tmp \<Rightarrow> write_words ct tmp st)
       else Some (st\<lparr>ss_status := bignum_error export_status\<rparr>) }"

text \<open>Every entry of the temporary array is assigned before it is used.\<close>

definition read_words :: "nat \<Rightarrow> serialize_state \<Rightarrow> (u64 list \<times> serialize_state) option" where
  "read_words ct st = read_array (\<lambda>_. Serialize_read_uint64) ct (replicate ct 0) st"

definition Serialize_read_uint64_ts ::
    "env \<Rightarrow> nat \<Rightarrow> int \<Rightarrow> serialize_state \<Rightarrow> (int \<times> serialize_state) option" where
  "Serialize_read_uint64_ts E ct old st =
     (case malloc E (8 * ct) of
        Some _ \<Rightarrow> do { (tmp, st) \<leftarrow> read_words ct st; Some (import_uint64_ts E tmp ct, st) }
      | None \<Rightarrow> Some (old, st\<lparr>ss_status := SERIALIZE_STATE_INSUFFICIENT_MEMORY\<rparr>))"

definition Serialize_reserve_uint4096 :: "serialize_state \<Rightarrow> serialize_state option" where
  "Serialize_reserve_uint4096 st = Serialize_reserve_uint64_ts UINT4096_WORD_COUNT st"

definition Serialize_write_uint4096 :: "env \<Rightarrow> int \<Rightarrow> serialize_state \<Rightarrow> serialize_state option" where
  "Serialize_write_uint4096 E data st = Serialize_write_uint64_ts E data UINT4096_WORD_COUNT st"

definition Serialize_read_uint4096 ::
    "env \<Rightarrow> int \<Rightarrow> serialize_state \<Rightarrow> (int \<times> serialize_state) option" where
  "Serialize_read_uint4096 E old st =
     (case malloc E 512 of
        Some _ \<Rightarrow> do { (tmp, st) \<leftarrow> read_words UINT4096_WORD_COUNT st; Some (import_uint4096 E tmp, st) }
      | None \<Rightarrow> Some (old, st\<lparr>ss_status := SERIALIZE_STATE_INSUFFICIENT_MEMORY\<rparr>))"

definition Serialize_reserve_uint256 :: "serialize_state \<Rightarrow> serialize_state option" where
  "Serialize_reserve_uint256 st = Serialize_reserve_uint64_ts 4 st"

definition Serialize_write_uint256 :: "env \<Rightarrow> int \<Rightarrow> serialize_state \<Rightarrow> serialize_state option" where
  "Serialize_write_uint256 E data st = Serialize_write_uint64_ts E data 4 st"

definition Serialize_write_uint256_pad :: "env \<Rightarrow> int \<Rightarrow> serialize_state \<Rightarrow> serialize_state option" where
  "Serialize_write_uint256_pad E data st = Serialize_write_uint64_ts_pad E data 4 st"

definition Serialize_read_uint256 ::
    "env \<Rightarrow> int \<Rightarrow> serialize_state \<Rightarrow> (int \<times> serialize_state) option" where
  "Serialize_read_uint256 E old st = Serialize_read_uint64_ts E 4 old st"

section \<open>Hashes\<close>

text \<open>The 64-bit words of a byte array on a little-endian machine.\<close>

definition native_word :: "u8 list \<Rightarrow> u64" where
  "native_word bs = floop 8 (\<lambda>i d. write_nth_byte d i (bs ! i)) 0"

definition native_words :: "nat \<Rightarrow> u8 list \<Rightarrow> u64 list" where
  "native_words n bytes = map (\<lambda>i. native_word (take 8 (drop (8 * i) bytes))) [0..<n]"

definition Crypto_hash_reduce :: "env \<Rightarrow> params \<Rightarrow> raw_hash \<Rightarrow> hash" where
  "Crypto_hash_reduce E G bytes =
     mod_q E G (mpz_import_u64 E (native_words (HASH_DIGEST_SIZE_BYTES div 8) bytes))"

definition Serialize_reserve_hash :: "serialize_state \<Rightarrow> serialize_state option" where
  "Serialize_reserve_hash st = loop (SHA256_DIGEST_LENGTH div 8) (\<lambda>i. Serialize_reserve_uint64) st"

definition Serialize_write_hash :: "env \<Rightarrow> hash \<Rightarrow> serialize_state \<Rightarrow> serialize_state option" where
  "Serialize_write_hash E data st =
     do {
       (export_status, tmp) \<leftarrow> export_to_256 E data;
       if export_status = BIGNUM_SUCCESS
       then (case tmp of None \<Rightarrow> Some st | Some tmp \<Rightarrow> write_words (SHA256_DIGEST_LENGTH div 8) tmp st)
       else Some (st\<lparr>ss_status := bignum_error export_status\<rparr>) }"

definition Serialize_read_hash ::
    "env \<Rightarrow> params \<Rightarrow> hash \<Rightarrow> serialize_state \<Rightarrow> (hash \<times> serialize_state) option" where
  "Serialize_read_hash E G old st =
     (case malloc E 32 of
        Some tmp \<Rightarrow> do {
          (tmp, st) \<leftarrow> read_array Serialize_read_uint8 SHA256_DIGEST_LENGTH tmp st;
          Some (Crypto_hash_reduce E G tmp, st) }
      | None \<Rightarrow> Some (old, st\<lparr>ss_status := SERIALIZE_STATE_INSUFFICIENT_MEMORY\<rparr>))"

text \<open>
  The two functions that return a fresh buffer: a null pointer when it cannot be allocated. When
  the number has too few words nothing is written, the status is dropped with the local state, and
  the caller hashes a buffer that was never initialised: \<open>None\<close>, since what it computes from
  there on is not determined.
\<close>

definition written_buffer :: "serialize_state \<Rightarrow> u8 list option option" where
  "written_buffer st =
     (case ss_buf st of
        None \<Rightarrow> Some None
      | Some b \<Rightarrow> if ss_status st = SERIALIZE_STATE_WRITING then Some (Some b) else None)"

definition Serialize_reserve_write_hash :: "env \<Rightarrow> hash \<Rightarrow> u8 list option option" where
  "Serialize_reserve_write_hash E h =
     do {
       st \<leftarrow> Serialize_reserve_hash reserving_state;
       st \<leftarrow> Serialize_write_hash E h (Serialize_allocate E st);
       if ss_len st = 32 then written_buffer st else None }"

definition Serialize_reserve_write_bignum :: "env \<Rightarrow> int \<Rightarrow> u8 list option option" where
  "Serialize_reserve_write_bignum E v =
     do {
       st \<leftarrow> Serialize_reserve_uint4096 reserving_state;
       st \<leftarrow> Serialize_write_uint4096 E v (Serialize_allocate E st);
       if ss_len st = 512 then written_buffer st else None }"

section \<open>Keys\<close>

definition Serialize_reserve_private_key :: "private_key \<Rightarrow> serialize_state \<Rightarrow> serialize_state option" where
  "Serialize_reserve_private_key data st =
     do {
       st \<leftarrow> Serialize_reserve_uint32 st;
       loop (unat (priv_threshold data)) (\<lambda>i. Serialize_reserve_uint4096) st }"

definition Serialize_write_private_key ::
    "env \<Rightarrow> private_key \<Rightarrow> serialize_state \<Rightarrow> serialize_state option" where
  "Serialize_write_private_key E data st =
     do {
       st \<leftarrow> Serialize_write_uint32 (priv_threshold data) st;
       write_array (Serialize_write_uint4096 E) (unat (priv_threshold data)) (coefficients data) st }"

definition Serialize_read_private_key ::
    "env \<Rightarrow> private_key \<Rightarrow> serialize_state \<Rightarrow> (private_key \<times> serialize_state) option" where
  "Serialize_read_private_key E old st =
     do {
       (t, st) \<leftarrow> Serialize_read_uint32 st;
       (cs, st) \<leftarrow> read_array (Serialize_read_uint4096 E) (unat t) (coefficients old) st;
       Some (old\<lparr>priv_threshold := t, coefficients := cs\<rparr>, st) }"

definition Serialize_reserve_schnorr_proof :: "schnorr_proof \<Rightarrow> serialize_state \<Rightarrow> serialize_state option" where
  "Serialize_reserve_schnorr_proof data st =
     do {
       st \<leftarrow> Serialize_reserve_uint32 st;
       st \<leftarrow> loop (unat (proof_threshold data)) (\<lambda>i. Serialize_reserve_uint4096) st;
       st \<leftarrow> Serialize_reserve_hash st;
       loop (unat (proof_threshold data)) (\<lambda>i. Serialize_reserve_uint256) st }"

definition Serialize_write_schnorr_proof ::
    "env \<Rightarrow> schnorr_proof \<Rightarrow> serialize_state \<Rightarrow> serialize_state option" where
  "Serialize_write_schnorr_proof E data st =
     do {
       st \<leftarrow> Serialize_write_uint32 (proof_threshold data) st;
       st \<leftarrow> write_array (Serialize_write_uint4096 E) (unat (proof_threshold data)) (commitments data) st;
       st \<leftarrow> Serialize_write_hash E (challenge data) st;
       write_array (Serialize_write_uint256 E) (unat (proof_threshold data)) (challenge_responses data) st }"

definition Serialize_read_schnorr_proof ::
    "env \<Rightarrow> params \<Rightarrow> schnorr_proof \<Rightarrow> serialize_state \<Rightarrow> (schnorr_proof \<times> serialize_state) option" where
  "Serialize_read_schnorr_proof E G old st =
     do {
       (t, st) \<leftarrow> Serialize_read_uint32 st;
       (cs, st) \<leftarrow> read_array (Serialize_read_uint4096 E) (unat t) (commitments old) st;
       (c, st) \<leftarrow> Serialize_read_hash E G (challenge old) st;
       (rs, st) \<leftarrow> read_array (Serialize_read_uint256 E) (unat t) (challenge_responses old) st;
       Some (old\<lparr>proof_threshold := t, commitments := cs, challenge := c, challenge_responses := rs\<rparr>, st) }"

definition Serialize_reserve_public_key :: "public_key \<Rightarrow> serialize_state \<Rightarrow> serialize_state option" where
  "Serialize_reserve_public_key data st =
     do {
       st \<leftarrow> Serialize_reserve_uint32 st;
       st \<leftarrow> loop (unat (pub_threshold data)) (\<lambda>i. Serialize_reserve_uint4096) st;
       Serialize_reserve_schnorr_proof (pub_proof data) st }"

definition Serialize_write_public_key ::
    "env \<Rightarrow> public_key \<Rightarrow> serialize_state \<Rightarrow> serialize_state option" where
  "Serialize_write_public_key E data st =
     do {
       st \<leftarrow> Serialize_write_uint32 (pub_threshold data) st;
       st \<leftarrow> write_array (Serialize_write_uint4096 E) (unat (pub_threshold data)) (coef_commitments data) st;
       Serialize_write_schnorr_proof E (pub_proof data) st }"

definition Serialize_read_public_key ::
    "env \<Rightarrow> params \<Rightarrow> public_key \<Rightarrow> serialize_state \<Rightarrow> (public_key \<times> serialize_state) option" where
  "Serialize_read_public_key E G old st =
     do {
       (t, st) \<leftarrow> Serialize_read_uint32 st;
       (cs, st) \<leftarrow> read_array (Serialize_read_uint4096 E) (unat t) (coef_commitments old) st;
       (pf, st) \<leftarrow> Serialize_read_schnorr_proof E G (pub_proof old) st;
       Some (old\<lparr>pub_threshold := t, coef_commitments := cs, pub_proof := pf\<rparr>, st) }"

definition Serialize_reserve_rsa_public_key :: "serialize_state \<Rightarrow> serialize_state option" where
  "Serialize_reserve_rsa_public_key st =
     do { st \<leftarrow> Serialize_reserve_uint64_ts 64 st; Serialize_reserve_uint64_ts 1 st }"

definition Serialize_write_rsa_public_key ::
    "env \<Rightarrow> rsa_public_key \<Rightarrow> serialize_state \<Rightarrow> serialize_state option" where
  "Serialize_write_rsa_public_key E data st =
     do { st \<leftarrow> Serialize_write_uint64_ts E (pub_n data) 64 st;
          Serialize_write_uint64_ts E (pub_e data) 1 st }"

definition Serialize_read_rsa_public_key ::
    "env \<Rightarrow> rsa_public_key \<Rightarrow> serialize_state \<Rightarrow> (rsa_public_key \<times> serialize_state) option" where
  "Serialize_read_rsa_public_key E old st =
     do {
       (n, st) \<leftarrow> Serialize_read_uint64_ts E 64 (pub_n old) st;
       (e, st) \<leftarrow> Serialize_read_uint64_ts E 1 (pub_e old) st;
       Some (old\<lparr>pub_n := n, pub_e := e\<rparr>, st) }"

definition Serialize_reserve_rsa_private_key :: "serialize_state \<Rightarrow> serialize_state option" where
  "Serialize_reserve_rsa_private_key st =
     do {
       st \<leftarrow> Serialize_reserve_uint64_ts 1 st;
       st \<leftarrow> Serialize_reserve_uint64_ts 32 st;
       st \<leftarrow> Serialize_reserve_uint64_ts 64 st;
       st \<leftarrow> Serialize_reserve_uint64_ts 32 st;
       Serialize_reserve_uint64_ts 64 st }"

definition Serialize_write_rsa_private_key ::
    "env \<Rightarrow> rsa_private_key \<Rightarrow> serialize_state \<Rightarrow> serialize_state option" where
  "Serialize_write_rsa_private_key E data st =
     do {
       st \<leftarrow> Serialize_write_uint64_ts E (rsa_e data) 1 st;
       st \<leftarrow> Serialize_write_uint64_ts E (rsa_q data) 32 st;
       st \<leftarrow> Serialize_write_uint64_ts E (rsa_d data) 64 st;
       st \<leftarrow> Serialize_write_uint64_ts E (rsa_p data) 32 st;
       Serialize_write_uint64_ts E (rsa_n data) 64 st }"

definition Serialize_read_rsa_private_key ::
    "env \<Rightarrow> rsa_private_key \<Rightarrow> serialize_state \<Rightarrow> (rsa_private_key \<times> serialize_state) option" where
  "Serialize_read_rsa_private_key E old st =
     do {
       (e, st) \<leftarrow> Serialize_read_uint64_ts E 1 (rsa_e old) st;
       (q, st) \<leftarrow> Serialize_read_uint64_ts E 32 (rsa_q old) st;
       (d, st) \<leftarrow> Serialize_read_uint64_ts E 64 (rsa_d old) st;
       (p, st) \<leftarrow> Serialize_read_uint64_ts E 32 (rsa_p old) st;
       (n, st) \<leftarrow> Serialize_read_uint64_ts E 64 (rsa_n old) st;
       Some (old\<lparr>rsa_e := e, rsa_q := q, rsa_d := d, rsa_p := p, rsa_n := n\<rparr>, st) }"

section \<open>Shares, joint keys, encryptions, ballots\<close>

definition Serialize_reserve_encrypted_key_share :: "serialize_state \<Rightarrow> serialize_state option" where
  "Serialize_reserve_encrypted_key_share st = Serialize_reserve_uint64_ts 12 st"

definition Serialize_write_encrypted_key_share ::
    "env \<Rightarrow> encrypted_key_share \<Rightarrow> serialize_state \<Rightarrow> serialize_state option" where
  "Serialize_write_encrypted_key_share E data st = Serialize_write_uint64_ts E data 12 st"

definition Serialize_read_encrypted_key_share ::
    "env \<Rightarrow> encrypted_key_share \<Rightarrow> serialize_state \<Rightarrow> (encrypted_key_share \<times> serialize_state) option" where
  "Serialize_read_encrypted_key_share E old st = Serialize_read_uint64_ts E 12 old st"

definition Serialize_reserve_joint_public_key :: "serialize_state \<Rightarrow> serialize_state option" where
  "Serialize_reserve_joint_public_key st =
     do { st \<leftarrow> Serialize_reserve_uint32 st; Serialize_reserve_uint4096 st }"

definition Serialize_write_joint_public_key ::
    "env \<Rightarrow> joint_public_key_rep \<Rightarrow> serialize_state \<Rightarrow> serialize_state option" where
  "Serialize_write_joint_public_key E data st =
     do { st \<leftarrow> Serialize_write_uint32 (joint_num_trustees data) st;
          Serialize_write_uint4096 E (joint_key data) st }"

definition Serialize_read_joint_public_key ::
    "env \<Rightarrow> joint_public_key_rep \<Rightarrow> serialize_state \<Rightarrow> (joint_public_key_rep \<times> serialize_state) option" where
  "Serialize_read_joint_public_key E old st =
     do {
       (n, st) \<leftarrow> Serialize_read_uint32 st;
       (k, st) \<leftarrow> Serialize_read_uint4096 E (joint_key old) st;
       Some (old\<lparr>joint_num_trustees := n, joint_key := k\<rparr>, st) }"

definition Serialize_reserve_encryption :: "serialize_state \<Rightarrow> serialize_state option" where
  "Serialize_reserve_encryption st =
     do { st \<leftarrow> Serialize_reserve_uint4096 st; Serialize_reserve_uint4096 st }"

definition Serialize_write_encryption ::
    "env \<Rightarrow> encryption_rep \<Rightarrow> serialize_state \<Rightarrow> serialize_state option" where
  "Serialize_write_encryption E data st =
     do { st \<leftarrow> Serialize_write_uint4096 E (nonce_encoding data) st;
          Serialize_write_uint4096 E (message_encoding data) st }"

definition Serialize_read_encryption ::
    "env \<Rightarrow> encryption_rep \<Rightarrow> serialize_state \<Rightarrow> (encryption_rep \<times> serialize_state) option" where
  "Serialize_read_encryption E old st =
     do {
       (a, st) \<leftarrow> Serialize_read_uint4096 E (nonce_encoding old) st;
       (b, st) \<leftarrow> Serialize_read_uint4096 E (message_encoding old) st;
       Some (old\<lparr>nonce_encoding := a, message_encoding := b\<rparr>, st) }"

definition Serialize_reserve_encrypted_ballot ::
    "encrypted_ballot_rep \<Rightarrow> serialize_state \<Rightarrow> serialize_state option" where
  "Serialize_reserve_encrypted_ballot data st =
     do {
       st \<leftarrow> Serialize_reserve_uint64 st;
       st \<leftarrow> Serialize_reserve_uint32 st;
       loop (unat (num_selections data)) (\<lambda>i. Serialize_reserve_encryption) st }"

definition Serialize_write_encrypted_ballot ::
    "env \<Rightarrow> encrypted_ballot_rep \<Rightarrow> serialize_state \<Rightarrow> serialize_state option" where
  "Serialize_write_encrypted_ballot E data st =
     do {
       st \<leftarrow> Serialize_write_uint64 (ballot_id data) st;
       st \<leftarrow> Serialize_write_uint32 (num_selections data) st;
       loop (unat (num_selections data))
         (\<lambda>i st. do { sels \<leftarrow> selections data; s \<leftarrow> arr_get sels i; Serialize_write_encryption E s st }) st }"

text \<open>
  The reader allocates the selections itself; each is initialised before it is read, so the
  contents of the fresh block do not matter.
\<close>

definition read_selections ::
    "env \<Rightarrow> nat \<Rightarrow> encryption_rep list \<Rightarrow> serialize_state \<Rightarrow> (encryption_rep list \<times> serialize_state) option" where
  "read_selections E n sels st =
     loop n (\<lambda>i (sels, st).
       if ss_status st = SERIALIZE_STATE_READING
       then read_elem (\<lambda>_. Serialize_read_encryption E Crypto_encryption_rep_new) i sels st
       else Some (sels, st)) (sels, st)"

definition Serialize_read_encrypted_ballot ::
    "env \<Rightarrow> encrypted_ballot_rep \<Rightarrow> serialize_state \<Rightarrow> (encrypted_ballot_rep \<times> serialize_state) option" where
  "Serialize_read_encrypted_ballot E old st =
     do {
       (i, st) \<leftarrow> Serialize_read_uint64 st;
       (n, st) \<leftarrow> Serialize_read_uint32 st;
       case malloc E (unat n * 32) of
         None \<Rightarrow> Some (old\<lparr>ballot_id := i, num_selections := n, selections := None\<rparr>,
                       st\<lparr>ss_status := SERIALIZE_STATE_INSUFFICIENT_MEMORY\<rparr>)
       | Some _ \<Rightarrow> do {
           (sels, st) \<leftarrow> read_selections E (unat n) (replicate (unat n) Crypto_encryption_rep_new) st;
           Some (old\<lparr>ballot_id := i, num_selections := n, selections := Some sels\<rparr>, st) } }"

section \<open>Wire formats and the contract of the number encodings\<close>

definition enc_words :: "nat \<Rightarrow> int \<Rightarrow> u8 list" where
  "enc_words n v = concat (map (le_bytes 8) (words_of n v))"

lemma length_concat_le: "length (concat (map (le_bytes 8) (ws :: u64 list))) = 8 * length ws"
  by (induction ws) simp_all

lemma length_enc_words [simp]: "length (enc_words n v) = 8 * n"
  by (simp add: enc_words_def length_concat_le)

lemma reserves_eq: "reserves f n \<Longrightarrow> n = n' \<Longrightarrow> reserves f n'"
  by simp

lemma writes_eq: "writes f e \<Longrightarrow> e = e' \<Longrightarrow> writes f e'"
  by simp

lemma reads_eq: "reads f e x \<Longrightarrow> e = e' \<Longrightarrow> x = x' \<Longrightarrow> reads f e' x'"
  by simp

lemma reserves_const_loop:
  assumes "reserves f m"
  shows "reserves (loop n (\<lambda>i. f)) (n * m)"
proof -
  have "sum_list (map (\<lambda>_. m) [0..<n]) = n * m"
    by (simp add: map_replicate_const sum_list_replicate)
  with reserves_loop [of n "\<lambda>i. f" "\<lambda>_. m"] assms show ?thesis by simp
qed

lemma reserves_uint64_ts: "reserves (Serialize_reserve_uint64_ts n) (8 * n)"
  using reserves_const_loop [of Serialize_reserve_uint64 8 n] prim_reserves
  by (intro reserves_cong [OF Serialize_reserve_uint64_ts_def]) (simp add: mult.commute)

lemma reserves_numbers [ser_simps]:
  "reserves Serialize_reserve_uint4096 512" "reserves Serialize_reserve_uint256 32"
  "reserves Serialize_reserve_hash 32"
proof -
  show "reserves Serialize_reserve_uint4096 512"
    using reserves_uint64_ts [of UINT4096_WORD_COUNT]
    by (intro reserves_cong [OF Serialize_reserve_uint4096_def]) (simp add: UINT4096_WORD_COUNT_def)
  show "reserves Serialize_reserve_uint256 32"
    using reserves_uint64_ts [of 4] by (intro reserves_cong [OF Serialize_reserve_uint256_def]) simp
  show "reserves Serialize_reserve_hash 32"
    using reserves_const_loop [of Serialize_reserve_uint64 8 4] prim_reserves
    by (intro reserves_cong [OF Serialize_reserve_hash_def]) (simp add: SHA256_DIGEST_LENGTH_def)
qed

lemma writes_words: "writes (write_words n (words_of n v)) (enc_words n v)"
  using writes_array [of n "words_of n v" Serialize_write_uint64 "le_bytes 8"] writes_uint64
  by (intro writes_cong [OF write_words_def]) (simp add: enc_words_def)

lemma writes_uint64_ts [ser_simps]:
  "platform_mem E \<Longrightarrow> fits n v \<Longrightarrow> writes (Serialize_write_uint64_ts E v n) (enc_words n v)"
  using writes_words [of n v]
  by (simp add: writes_def Serialize_write_uint64_ts_def platform_mem.export_to_64_t_fits)

lemma writes_uint64_ts_pad [ser_simps]:
  "platform_mem E \<Longrightarrow> 0 \<le> v \<Longrightarrow> v < 2 ^ (64 * n) \<Longrightarrow>
     writes (Serialize_write_uint64_ts_pad E v n) (enc_words n v)"
  using writes_words [of n v]
  by (simp add: writes_def Serialize_write_uint64_ts_pad_def platform_mem.export_to_64_t_pad_ok)

lemma writes_uint4096 [ser_simps]:
  "platform_mem E \<Longrightarrow> fits 64 v \<Longrightarrow> writes (Serialize_write_uint4096 E v) (enc_words 64 v)"
  using writes_uint64_ts [of E 64 v]
  by (intro writes_cong [OF Serialize_write_uint4096_def]) (simp add: UINT4096_WORD_COUNT_def)

lemma writes_uint256 [ser_simps]:
  "platform_mem E \<Longrightarrow> fits 4 v \<Longrightarrow> writes (Serialize_write_uint256 E v) (enc_words 4 v)"
  using writes_uint64_ts [of E 4 v] by (intro writes_cong [OF Serialize_write_uint256_def]) simp

lemma writes_uint256_pad [ser_simps]:
  "platform_mem E \<Longrightarrow> 0 \<le> v \<Longrightarrow> v < 2 ^ 256 \<Longrightarrow> writes (Serialize_write_uint256_pad E v) (enc_words 4 v)"
  using writes_uint64_ts_pad [of E v 4] by (intro writes_cong [OF Serialize_write_uint256_pad_def]) simp

lemma writes_hash [ser_simps]:
  "platform_mem E \<Longrightarrow> fits 4 v \<Longrightarrow> writes (Serialize_write_hash E v) (enc_words 4 v)"
  using writes_words [of 4 v]
  by (simp add: writes_def Serialize_write_hash_def platform_mem.export_to_256_fits SHA256_DIGEST_LENGTH_def)

lemma reads_words: "reads (read_words n) (enc_words n v) (words_of n v)"
proof -
  have "reads (read_array (\<lambda>_. Serialize_read_uint64) n (replicate n 0))
      (concat (map (le_bytes 8) (take n (words_of n v)))) (take n (words_of n v) @ drop n (replicate n 0))"
    by (rule reads_array_fresh) (simp_all add: reads_uint64)
  then show ?thesis
    by (intro reads_cong [OF read_words_def]) (simp add: enc_words_def)
qed

lemma reads_uint64_ts [ser_simps]:
  assumes E: "platform_mem E" and v: "0 \<le> v" "v < 2 ^ (64 * n)"
  shows "reads (Serialize_read_uint64_ts E n old) (enc_words n v) v"
proof -
  obtain blk where "malloc E (8 * n) = Some blk"
    using platform_mem.malloc_ok [OF E] by blast
  moreover have "import_uint64_ts E (words_of n v) n = v"
    using platform.import_words [OF platform_mem.axioms(1) [OF E] v] by (simp add: import_uint64_ts_def)
  ultimately show ?thesis
    using reads_words [of n v] by (simp add: reads_def Serialize_read_uint64_ts_def)
qed

lemma reads_uint4096 [ser_simps]:
  assumes E: "platform_mem E" and v: "0 \<le> v" "v < 2 ^ 4096"
  shows "reads (Serialize_read_uint4096 E old) (enc_words 64 v) v"
proof -
  obtain blk where "malloc E 512 = Some blk"
    using platform_mem.malloc_ok [OF E] by blast
  moreover have "import_uint4096 E (words_of 64 v) = v"
    using platform.import_words [OF platform_mem.axioms(1) [OF E] v(1), of 64] v(2)
    unfolding import_uint4096_def by (simp del: power_numeral)
  ultimately show ?thesis
    using reads_words [of 64 v]
    by (simp add: reads_def Serialize_read_uint4096_def UINT4096_WORD_COUNT_def)
qed

lemma reads_uint256 [ser_simps]:
  "platform_mem E \<Longrightarrow> 0 \<le> v \<Longrightarrow> v < 2 ^ 256 \<Longrightarrow> reads (Serialize_read_uint256 E old) (enc_words 4 v) v"
  using reads_uint64_ts [of E v 4] by (intro reads_cong [OF Serialize_read_uint256_def]) simp

lemma native_word_le_bytes: "native_word (le_bytes 8 w) = w"
proof -
  have "floop n (\<lambda>i d. write_nth_byte d i (le_bytes 8 w ! i)) 0 = take_bit (8 * n) w" if "n \<le> 8" for n
    using that
  proof (induction n)
    case (Suc n)
    then show ?case by (simp add: le_bytes_def write_nth_byte_step [simplified])
  qed simp
  from this [of 8] show ?thesis
    using take_bit_length_eq [of w] by (simp add: native_word_def)
qed

lemma take_drop_concat:
  "i < length ws \<Longrightarrow> take 8 (drop (8 * i) (concat (map (le_bytes 8) ws))) = le_bytes 8 (ws ! i :: u64)"
proof (induction ws arbitrary: i)
  case (Cons w ws)
  then show ?case by (cases i) simp_all
qed simp

lemma native_words_enc: "native_words n (enc_words n v) = words_of n v"
  by (rule nth_equalityI) (simp_all add: native_words_def enc_words_def take_drop_concat native_word_le_bytes)

text \<open>A hash survives the round trip when it is reduced and takes four words.\<close>

definition hash_ok :: "params \<Rightarrow> hash \<Rightarrow> bool" where
  "hash_ok G h \<longleftrightarrow> fits 4 h \<and> h < par_q G"

lemma reads_hash [ser_simps]:
  assumes E: "platform_mem E" and h: "0 \<le> h" "h < 2 ^ 256" "h < par_q G"
  shows "reads (Serialize_read_hash E G old) (enc_words 4 h) h"
proof -
  note P = platform_mem.axioms(1) [OF E]
  obtain blk where m: "malloc E 32 = Some blk"
    using platform_mem.malloc_ok [OF E] by blast
  then have lb: "length blk = 32" by (rule platform.malloc_length [OF P])
  have "reads (read_array Serialize_read_uint8 32 blk) (concat (map (\<lambda>b. [b]) (take 32 (enc_words 4 h))))
      (take 32 (enc_words 4 h) @ drop 32 blk)"
    using lb by (intro reads_array_fresh reads_uint8) simp_all
  then have r: "reads (read_array Serialize_read_uint8 32 blk) (enc_words 4 h) (enc_words 4 h)"
    using lb by simp
  have "Crypto_hash_reduce E G (enc_words 4 h) = h"
    using platform.import_words [OF P, of h 4] platform.mpz_mod_pos [OF P, of "par_q G" h] h
    by (simp add: Crypto_hash_reduce_def native_words_enc HASH_DIGEST_SIZE_BYTES_def mod_q_def)
  with r m show ?thesis
    by (simp add: reads_def Serialize_read_hash_def SHA256_DIGEST_LENGTH_def)
qed

lemma fits64D: "fits 64 v \<Longrightarrow> 0 \<le> v" "fits 64 v \<Longrightarrow> v < 2 ^ 4096"
  using fits_nonneg [of 64 v] fits_less [of 64 v] by (simp_all del: power_numeral)

lemma fits4D: "fits 4 v \<Longrightarrow> 0 \<le> v" "fits 4 v \<Longrightarrow> v < 2 ^ 256"
  using fits_nonneg [of 4 v] fits_less [of 4 v] by simp_all

section \<open>The contract of the composite encodings\<close>

text \<open>
  For every type: its wire format \<open>enc\<close>, the values that can be written (\<open>ok\<close>: array lengths and
  counts in range, every number of exactly the width its field has), and what the reader leaves
  in a destination that held \<open>old\<close> (\<open>merge\<close>: the entries of an array behind the count keep their
  old contents).
\<close>

definition enc_array :: "nat \<Rightarrow> nat \<Rightarrow> int list \<Rightarrow> u8 list" where
  "enc_array k n xs = concat (map (enc_words k) (take n xs))"

definition merge_array :: "nat \<Rightarrow> 'a list \<Rightarrow> 'a list \<Rightarrow> 'a list" where
  "merge_array n old src = take n src @ drop n old"

lemma length_merge_array [simp]:
  "n \<le> length old \<Longrightarrow> n \<le> length src \<Longrightarrow> length (merge_array n old src) = length old"
  by (simp add: merge_array_def)

lemma take_merge_array [simp]:
  "n \<le> length old \<Longrightarrow> n \<le> length src \<Longrightarrow> take n (merge_array n old src) = take n src"
  by (simp add: merge_array_def)

definition array_ok :: "nat \<Rightarrow> nat \<Rightarrow> int list \<Rightarrow> bool" where
  "array_ok k n xs \<longleftrightarrow> length xs = MAX_TRUSTEES \<and> n \<le> MAX_TRUSTEES \<and> (\<forall>v \<in> set (take n xs). fits k v)"

lemma length_concat_const: "(\<And>x. x \<in> set xs \<Longrightarrow> length (f x) = k) \<Longrightarrow> length (concat (map f xs)) = k * length xs"
  by (induction xs) auto

lemma length_enc_array: "array_ok k n xs \<Longrightarrow> length (enc_array k n xs) = n * (8 * k)"
  by (simp add: enc_array_def array_ok_def length_concat_const [where k = "8 * k"] min.absorb2)

lemma reserves_array64: "array_ok 64 n xs \<Longrightarrow>
    reserves (loop n (\<lambda>i. Serialize_reserve_uint4096)) (length (enc_array 64 n xs))"
  using reserves_const_loop [OF reserves_numbers(1), of n] by (simp add: length_enc_array)

lemma reserves_array4: "array_ok 4 n xs \<Longrightarrow>
    reserves (loop n (\<lambda>i. Serialize_reserve_uint256)) (length (enc_array 4 n xs))"
  using reserves_const_loop [OF reserves_numbers(2), of n] by (simp add: length_enc_array)

lemma writes_array64:
  assumes "platform_mem E" "array_ok 64 n xs"
  shows "writes (write_array (Serialize_write_uint4096 E) n xs) (enc_array 64 n xs)"
  unfolding enc_array_def using assms by (intro writes_array writes_uint4096) (auto simp: array_ok_def)

lemma writes_array4:
  assumes "platform_mem E" "array_ok 4 n xs"
  shows "writes (write_array (Serialize_write_uint256 E) n xs) (enc_array 4 n xs)"
  unfolding enc_array_def using assms by (intro writes_array writes_uint256) (auto simp: array_ok_def)

lemma reads_array64:
  assumes "platform_mem E" "array_ok 64 n xs" "length old = MAX_TRUSTEES"
  shows "reads (read_array (Serialize_read_uint4096 E) n old) (enc_array 64 n xs) (merge_array n old xs)"
  unfolding enc_array_def merge_array_def
  using assms by (intro reads_array_fresh reads_uint4096 fits64D) (auto simp: array_ok_def)

lemma reads_array4:
  assumes "platform_mem E" "array_ok 4 n xs" "length old = MAX_TRUSTEES"
  shows "reads (read_array (Serialize_read_uint256 E) n old) (enc_array 4 n xs) (merge_array n old xs)"
  unfolding enc_array_def merge_array_def
  using assms by (intro reads_array_fresh reads_uint256 fits4D) (auto simp: array_ok_def)

text \<open>Private keys.\<close>

definition enc_private_key :: "private_key \<Rightarrow> u8 list" where
  "enc_private_key k = le_bytes 4 (priv_threshold k)
     @ enc_array 64 (unat (priv_threshold k)) (coefficients k)"

definition private_key_ok :: "private_key \<Rightarrow> bool" where
  "private_key_ok k \<longleftrightarrow> array_ok 64 (unat (priv_threshold k)) (coefficients k)"

definition merge_private_key :: "private_key \<Rightarrow> private_key \<Rightarrow> private_key" where
  "merge_private_key old k = old\<lparr>priv_threshold := priv_threshold k,
     coefficients := merge_array (unat (priv_threshold k)) (coefficients old) (coefficients k)\<rparr>"

lemma reserves_private_key: "private_key_ok k \<Longrightarrow>
    reserves (Serialize_reserve_private_key k) (length (enc_private_key k))"
  by (rule reserves_eq, rule reserves_cong [OF Serialize_reserve_private_key_def], rule reserves_bind,
      rule prim_reserves, rule reserves_array64 [of _ "coefficients k"])
    (simp_all add: private_key_ok_def enc_private_key_def)

lemma writes_private_key: "platform_mem E \<Longrightarrow> private_key_ok k \<Longrightarrow>
    writes (Serialize_write_private_key E k) (enc_private_key k)"
  by (rule writes_eq, rule writes_cong [OF Serialize_write_private_key_def], rule writes_bind,
      rule writes_uint32, rule writes_array64)
    (simp_all add: private_key_ok_def enc_private_key_def)

lemma reads_private_key: "platform_mem E \<Longrightarrow> private_key_ok k \<Longrightarrow> private_key_shape old \<Longrightarrow>
    reads (Serialize_read_private_key E old) (enc_private_key k) (merge_private_key old k)"
  by (rule reads_eq, rule reads_cong [OF Serialize_read_private_key_def], rule reads_bind,
      rule reads_uint32, rule reads_bind, rule reads_array64, assumption, unfold private_key_ok_def,
      assumption, simp add: private_key_shape_def, rule reads_done)
    (simp_all add: enc_private_key_def merge_private_key_def)

text \<open>Schnorr proofs.\<close>

definition enc_schnorr_proof :: "schnorr_proof \<Rightarrow> u8 list" where
  "enc_schnorr_proof k = le_bytes 4 (proof_threshold k)
     @ enc_array 64 (unat (proof_threshold k)) (commitments k)
     @ enc_words 4 (challenge k)
     @ enc_array 4 (unat (proof_threshold k)) (challenge_responses k)"

definition schnorr_proof_ok :: "params \<Rightarrow> schnorr_proof \<Rightarrow> bool" where
  "schnorr_proof_ok G k \<longleftrightarrow> array_ok 64 (unat (proof_threshold k)) (commitments k) \<and> hash_ok G (challenge k) \<and>
     array_ok 4 (unat (proof_threshold k)) (challenge_responses k)"

definition merge_schnorr_proof :: "schnorr_proof \<Rightarrow> schnorr_proof \<Rightarrow> schnorr_proof" where
  "merge_schnorr_proof old k = old\<lparr>proof_threshold := proof_threshold k,
     commitments := merge_array (unat (proof_threshold k)) (commitments old) (commitments k),
     challenge := challenge k,
     challenge_responses := merge_array (unat (proof_threshold k)) (challenge_responses old) (challenge_responses k)\<rparr>"

lemma reserves_schnorr_proof: "schnorr_proof_ok G k \<Longrightarrow>
    reserves (Serialize_reserve_schnorr_proof k) (length (enc_schnorr_proof k))"
  by (rule reserves_eq, rule reserves_cong [OF Serialize_reserve_schnorr_proof_def], rule reserves_bind,
      rule prim_reserves, rule reserves_bind, rule reserves_array64 [of _ "commitments k"],
      simp add: schnorr_proof_ok_def, rule reserves_bind, rule reserves_numbers,
      rule reserves_array4 [of _ "challenge_responses k"])
    (simp_all add: schnorr_proof_ok_def enc_schnorr_proof_def)

lemma writes_schnorr_proof: "platform_mem E \<Longrightarrow> schnorr_proof_ok G k \<Longrightarrow>
    writes (Serialize_write_schnorr_proof E k) (enc_schnorr_proof k)"
  by (rule writes_eq, rule writes_cong [OF Serialize_write_schnorr_proof_def], rule writes_bind,
      rule writes_uint32, rule writes_bind, rule writes_array64, assumption, simp add: schnorr_proof_ok_def,
      rule writes_bind, rule writes_hash, assumption, simp add: schnorr_proof_ok_def hash_ok_def,
      rule writes_array4)
    (simp_all add: schnorr_proof_ok_def enc_schnorr_proof_def)

lemma reads_schnorr_proof:
  assumes "platform_mem E" "schnorr_proof_ok G k" "schnorr_proof_shape old"
  shows "reads (Serialize_read_schnorr_proof E G old) (enc_schnorr_proof k) (merge_schnorr_proof old k)"
proof -
  note ok = assms(2) [unfolded schnorr_proof_ok_def hash_ok_def] assms(3) [unfolded schnorr_proof_shape_def]
  have h: "reads (Serialize_read_hash E G (challenge old)) (enc_words 4 (challenge k)) (challenge k)"
    using assms(1) ok fits4D [of "challenge k"] by (intro reads_hash) simp_all
  note arrays = reads_array64 [OF assms(1), of _ "commitments k" "commitments old"]
    reads_array4 [OF assms(1), of _ "challenge_responses k" "challenge_responses old"]
  show ?thesis
    by (rule reads_eq, rule reads_cong [OF Serialize_read_schnorr_proof_def], rule reads_bind, rule reads_uint32,
        rule reads_bind, rule arrays, (use ok in blast), (use ok in blast), rule reads_bind, rule h, rule reads_bind,
        rule arrays, (use ok in blast), (use ok in blast), rule reads_done)
      (simp_all add: enc_schnorr_proof_def merge_schnorr_proof_def)
qed

text \<open>Public keys.\<close>

definition enc_public_key :: "public_key \<Rightarrow> u8 list" where
  "enc_public_key k = le_bytes 4 (pub_threshold k)
     @ enc_array 64 (unat (pub_threshold k)) (coef_commitments k) @ enc_schnorr_proof (pub_proof k)"

definition public_key_ok :: "params \<Rightarrow> public_key \<Rightarrow> bool" where
  "public_key_ok G k \<longleftrightarrow> array_ok 64 (unat (pub_threshold k)) (coef_commitments k) \<and>
     schnorr_proof_ok G (pub_proof k)"

definition merge_public_key :: "public_key \<Rightarrow> public_key \<Rightarrow> public_key" where
  "merge_public_key old k = old\<lparr>pub_threshold := pub_threshold k,
     coef_commitments := merge_array (unat (pub_threshold k)) (coef_commitments old) (coef_commitments k),
     pub_proof := merge_schnorr_proof (pub_proof old) (pub_proof k)\<rparr>"

lemma reserves_public_key: "public_key_ok G k \<Longrightarrow>
    reserves (Serialize_reserve_public_key k) (length (enc_public_key k))"
  by (rule reserves_eq, rule reserves_cong [OF Serialize_reserve_public_key_def], rule reserves_bind,
      rule prim_reserves, rule reserves_bind, rule reserves_array64 [of _ "coef_commitments k"],
      simp add: public_key_ok_def, rule reserves_schnorr_proof [of G])
    (simp_all add: public_key_ok_def enc_public_key_def)

lemma writes_public_key: "platform_mem E \<Longrightarrow> public_key_ok G k \<Longrightarrow>
    writes (Serialize_write_public_key E k) (enc_public_key k)"
  by (rule writes_eq, rule writes_cong [OF Serialize_write_public_key_def], rule writes_bind,
      rule writes_uint32, rule writes_bind, rule writes_array64, assumption, simp add: public_key_ok_def,
      rule writes_schnorr_proof [of _ G])
    (simp_all add: public_key_ok_def enc_public_key_def)

lemma reads_public_key:
  assumes "platform_mem E" "public_key_ok G k" "public_key_shape old"
  shows "reads (Serialize_read_public_key E G old) (enc_public_key k) (merge_public_key old k)"
proof -
  note ok = assms(2) [unfolded public_key_ok_def] assms(3) [unfolded public_key_shape_def]
  show ?thesis
    by (rule reads_eq, rule reads_cong [OF Serialize_read_public_key_def], rule reads_bind, rule reads_uint32,
        rule reads_bind, rule reads_array64 [OF assms(1), of _ "coef_commitments k"], (use ok in blast), (use ok in blast),
        rule reads_bind, rule reads_schnorr_proof [OF assms(1), of G "pub_proof k"], (use ok in blast), (use ok in blast),
        rule reads_done)
      (simp_all add: enc_public_key_def merge_public_key_def)
qed

text \<open>RSA keys.\<close>

definition enc_rsa_public_key :: "rsa_public_key \<Rightarrow> u8 list" where
  "enc_rsa_public_key k = enc_words 64 (pub_n k) @ enc_words 1 (pub_e k)"

definition rsa_public_key_ok :: "rsa_public_key \<Rightarrow> bool" where
  "rsa_public_key_ok k \<longleftrightarrow> fits 64 (pub_n k) \<and> fits 1 (pub_e k)"

definition enc_rsa_private_key :: "rsa_private_key \<Rightarrow> u8 list" where
  "enc_rsa_private_key k = enc_words 1 (rsa_e k) @ enc_words 32 (rsa_q k) @ enc_words 64 (rsa_d k)
     @ enc_words 32 (rsa_p k) @ enc_words 64 (rsa_n k)"

definition rsa_private_key_ok :: "rsa_private_key \<Rightarrow> bool" where
  "rsa_private_key_ok k \<longleftrightarrow> fits 1 (rsa_e k) \<and> fits 32 (rsa_q k) \<and> fits 64 (rsa_d k) \<and>
     fits 32 (rsa_p k) \<and> fits 64 (rsa_n k)"

lemma reserves_rsa_public_key: "reserves Serialize_reserve_rsa_public_key (length (enc_rsa_public_key k))"
  by (rule reserves_eq, rule reserves_cong [OF Serialize_reserve_rsa_public_key_def], rule reserves_bind,
      (rule reserves_uint64_ts)+) (simp add: enc_rsa_public_key_def)

lemma writes_rsa_public_key: "platform_mem E \<Longrightarrow> rsa_public_key_ok k \<Longrightarrow>
    writes (Serialize_write_rsa_public_key E k) (enc_rsa_public_key k)"
  unfolding enc_rsa_public_key_def
  by (rule writes_cong [OF Serialize_write_rsa_public_key_def], rule writes_bind)
    (simp_all add: writes_uint64_ts rsa_public_key_ok_def)

lemma reads_fits: "platform_mem E \<Longrightarrow> fits n v \<Longrightarrow> reads (Serialize_read_uint64_ts E n old) (enc_words n v) v"
  by (rule reads_uint64_ts) (simp_all add: fits_nonneg fits_less)

lemma reads_rsa_public_key:
  assumes "platform_mem E" "rsa_public_key_ok k"
  shows "reads (Serialize_read_rsa_public_key E old) (enc_rsa_public_key k) k"
proof -
  note f = reads_fits [OF assms(1)]
  note ok = assms(2) [unfolded rsa_public_key_ok_def]
  show ?thesis
    by (rule reads_eq, rule reads_cong [OF Serialize_read_rsa_public_key_def], rule reads_bind, rule f [of _ "pub_n k"],
        (use ok in blast), rule reads_bind, rule f [of _ "pub_e k"], (use ok in blast), rule reads_done)
      (auto simp: enc_rsa_public_key_def intro: rsa_public_key.equality)
qed

lemma reserves_rsa_private_key: "reserves Serialize_reserve_rsa_private_key (length (enc_rsa_private_key k))"
  by (rule reserves_eq, rule reserves_cong [OF Serialize_reserve_rsa_private_key_def],
      (rule reserves_bind reserves_uint64_ts)+) (simp add: enc_rsa_private_key_def)

lemma writes_rsa_private_key:
  assumes "platform_mem E" "rsa_private_key_ok k"
  shows "writes (Serialize_write_rsa_private_key E k) (enc_rsa_private_key k)"
  unfolding enc_rsa_private_key_def using assms
  by (intro writes_cong [OF Serialize_write_rsa_private_key_def] writes_bind)
    (simp_all add: writes_uint64_ts rsa_private_key_ok_def)

lemma reads_rsa_private_key:
  assumes "platform_mem E" "rsa_private_key_ok k"
  shows "reads (Serialize_read_rsa_private_key E old) (enc_rsa_private_key k) k"
proof -
  note f = reads_fits [OF assms(1)]
  note ok = assms(2) [unfolded rsa_private_key_ok_def]
  show ?thesis
    by (rule reads_eq, rule reads_cong [OF Serialize_read_rsa_private_key_def],
        rule reads_bind, rule f [of _ "rsa_e k"], (use ok in blast), rule reads_bind, rule f [of _ "rsa_q k"],
        (use ok in blast), rule reads_bind, rule f [of _ "rsa_d k"], (use ok in blast), rule reads_bind,
        rule f [of _ "rsa_p k"], (use ok in blast), rule reads_bind, rule f [of _ "rsa_n k"], (use ok in blast),
        rule reads_done)
      (auto simp: enc_rsa_private_key_def intro: rsa_private_key.equality)
qed

text \<open>Shares, joint keys, encryptions.\<close>

lemma reserves_key_share: "reserves Serialize_reserve_encrypted_key_share 96"
  using reserves_uint64_ts [of 12]
  by (intro reserves_cong [OF Serialize_reserve_encrypted_key_share_def]) simp

lemma writes_key_share: "platform_mem E \<Longrightarrow> fits 12 s \<Longrightarrow>
    writes (Serialize_write_encrypted_key_share E s) (enc_words 12 s)"
  by (intro writes_cong [OF Serialize_write_encrypted_key_share_def] writes_uint64_ts)

lemma reads_key_share: "platform_mem E \<Longrightarrow> fits 12 s \<Longrightarrow>
    reads (Serialize_read_encrypted_key_share E old) (enc_words 12 s) s"
  by (intro reads_cong [OF Serialize_read_encrypted_key_share_def] reads_fits)

definition enc_joint_public_key :: "joint_public_key_rep \<Rightarrow> u8 list" where
  "enc_joint_public_key k = le_bytes 4 (joint_num_trustees k) @ enc_words 64 (joint_key k)"

lemma reserves_joint_public_key: "reserves Serialize_reserve_joint_public_key (length (enc_joint_public_key k))"
  by (rule reserves_eq, rule reserves_cong [OF Serialize_reserve_joint_public_key_def], rule reserves_bind,
      rule prim_reserves, rule reserves_numbers) (simp add: enc_joint_public_key_def)

lemma writes_joint_public_key: "platform_mem E \<Longrightarrow> fits 64 (joint_key k) \<Longrightarrow>
    writes (Serialize_write_joint_public_key E k) (enc_joint_public_key k)"
  unfolding enc_joint_public_key_def
  by (rule writes_cong [OF Serialize_write_joint_public_key_def], rule writes_bind, rule writes_uint32,
      rule writes_uint4096)

lemma reads_fits64: "platform_mem E \<Longrightarrow> fits 64 v \<Longrightarrow> reads (Serialize_read_uint4096 E old) (enc_words 64 v) v"
  by (rule reads_uint4096) (simp_all only: fits64D)

lemma reads_joint_public_key:
  assumes "platform_mem E" "fits 64 (joint_key k)"
  shows "reads (Serialize_read_joint_public_key E old) (enc_joint_public_key k) k"
  by (rule reads_eq, rule reads_cong [OF Serialize_read_joint_public_key_def], rule reads_bind, rule reads_uint32,
      rule reads_bind, rule reads_fits64 [OF assms], rule reads_done)
    (auto simp: enc_joint_public_key_def intro: joint_public_key_rep.equality)

definition enc_encryption :: "encryption_rep \<Rightarrow> u8 list" where
  "enc_encryption e = enc_words 64 (nonce_encoding e) @ enc_words 64 (message_encoding e)"

definition encryption_ok :: "encryption_rep \<Rightarrow> bool" where
  "encryption_ok e \<longleftrightarrow> fits 64 (nonce_encoding e) \<and> fits 64 (message_encoding e)"

lemma length_enc_encryption [simp]: "length (enc_encryption e) = 1024"
  by (simp add: enc_encryption_def)

lemma reserves_encryption: "reserves Serialize_reserve_encryption 1024"
  by (rule reserves_eq, rule reserves_cong [OF Serialize_reserve_encryption_def], rule reserves_bind,
      (rule reserves_numbers)+) simp

lemma writes_encryption: "platform_mem E \<Longrightarrow> encryption_ok e \<Longrightarrow>
    writes (Serialize_write_encryption E e) (enc_encryption e)"
  unfolding enc_encryption_def
  by (rule writes_cong [OF Serialize_write_encryption_def], rule writes_bind)
    (simp_all add: writes_uint4096 encryption_ok_def)

lemma reads_encryption:
  assumes "platform_mem E" "encryption_ok e"
  shows "reads (Serialize_read_encryption E old) (enc_encryption e) e"
proof -
  note ok = assms(2) [unfolded encryption_ok_def]
  show ?thesis
    by (rule reads_eq, rule reads_cong [OF Serialize_read_encryption_def], rule reads_bind,
        rule reads_fits64 [OF assms(1), of "nonce_encoding e"], (use ok in blast), rule reads_bind,
        rule reads_fits64 [OF assms(1), of "message_encoding e"], (use ok in blast), rule reads_done)
      (auto simp: enc_encryption_def intro: encryption_rep.equality)
qed

text \<open>Ballots: only the identifier and the selections are transmitted, not the proofs.\<close>

definition enc_encrypted_ballot :: "encrypted_ballot_rep \<Rightarrow> u8 list" where
  "enc_encrypted_ballot b = le_bytes 8 (ballot_id b) @ le_bytes 4 (num_selections b)
     @ concat (map enc_encryption (the (selections b)))"

definition encrypted_ballot_ok :: "encrypted_ballot_rep \<Rightarrow> bool" where
  "encrypted_ballot_ok b \<longleftrightarrow> (\<exists>sels. selections b = Some sels \<and> length sels = unat (num_selections b) \<and>
     (\<forall>e \<in> set sels. encryption_ok e))"

definition merge_encrypted_ballot ::
    "encrypted_ballot_rep \<Rightarrow> encrypted_ballot_rep \<Rightarrow> encrypted_ballot_rep" where
  "merge_encrypted_ballot old b =
     old\<lparr>ballot_id := ballot_id b, num_selections := num_selections b, selections := selections b\<rparr>"

lemma reserves_encrypted_ballot:
  assumes "encrypted_ballot_ok b"
  shows "reserves (Serialize_reserve_encrypted_ballot b) (length (enc_encrypted_ballot b))"
proof -
  obtain sels where s: "selections b = Some sels" "length sels = unat (num_selections b)"
    using assms by (auto simp: encrypted_ballot_ok_def)
  have "length (concat (map enc_encryption sels)) = 1024 * length sels"
    by (rule length_concat_const) simp
  then have l: "8 + (4 + unat (num_selections b) * 1024) = length (enc_encrypted_ballot b)"
    using s by (simp add: enc_encrypted_ballot_def)
  show ?thesis
    by (rule reserves_eq [OF _ l], rule reserves_cong [OF Serialize_reserve_encrypted_ballot_def],
        rule reserves_bind, rule prim_reserves, rule reserves_bind, rule prim_reserves,
        rule reserves_const_loop, rule reserves_encryption)
qed

lemma writes_encrypted_ballot:
  assumes "platform_mem E" "encrypted_ballot_ok b"
  shows "writes (Serialize_write_encrypted_ballot E b) (enc_encrypted_ballot b)"
proof -
  obtain sels where s: "selections b = Some sels" "length sels = unat (num_selections b)"
      "\<forall>e \<in> set sels. encryption_ok e"
    using assms(2) by (auto simp: encrypted_ballot_ok_def)
  have "writes (write_array (Serialize_write_encryption E) (length sels) sels)
      (concat (map enc_encryption (take (length sels) sels)))"
    using s(3) assms(1) by (intro writes_array writes_encryption) auto
  then have w: "writes (loop (unat (num_selections b))
      (\<lambda>i st. do { sels \<leftarrow> selections b; x \<leftarrow> arr_get sels i; Serialize_write_encryption E x st }))
      (concat (map enc_encryption sels))"
    unfolding write_array_def [abs_def] s(1,2) Option.bind.simps by (simp add: s(2))
  show ?thesis
    unfolding enc_encrypted_ballot_def s(1) option.sel
    by (rule writes_cong [OF Serialize_write_encrypted_ballot_def], rule writes_bind, rule writes_uint64,
        rule writes_bind, rule writes_uint32, rule w)
qed

lemma reads_selections:
  assumes "platform_mem E" "\<forall>e \<in> set sels. encryption_ok e" "length old = length sels"
  shows "reads (read_selections E (length sels) old) (concat (map enc_encryption sels)) sels"
proof -
  let ?rd = "\<lambda>_. Serialize_read_encryption E Crypto_encryption_rep_new"
  let ?body = "\<lambda>i xs st. if ss_status st = SERIALIZE_STATE_READING then read_elem ?rd i xs st else Some (xs, st)"
  have step: "reads (?body i xs) (enc_encryption (sels ! i)) (xs[i := sels ! i]) \<and>
      length (xs[i := sels ! i]) = length sels" if "i < length sels" "length xs = length sels" for i xs
    using that reads_encryption [OF assms(1), of "sels ! i" Crypto_encryption_rep_new] assms(2)
    by (simp add: reads_def avail_def read_elem_def)
  have "reads (\<lambda>st. loop (length sels) (\<lambda>i (xs, st). ?body i xs st) (old, st))
      (concat (map (\<lambda>i. enc_encryption (sels ! i)) [0..<length sels]))
      (floop (length sels) (\<lambda>i xs. xs[i := sels ! i]) old)"
    using assms(3) by (intro reads_loop [where P = "\<lambda>_ xs. length xs = length sels", THEN conjunct1] step) simp_all
  moreover have "floop (length sels) (\<lambda>i xs. xs[i := sels ! i]) old = sels"
    using floop_fill [of "length sels" old "(!) sels"] assms(3) by (simp add: map_nth)
  ultimately show ?thesis
    by (intro reads_cong [OF read_selections_def]) (simp add: map_nth_take)
qed

lemma reads_encrypted_ballot:
  assumes "platform_mem E" "encrypted_ballot_ok b"
  shows "reads (Serialize_read_encrypted_ballot E old) (enc_encrypted_ballot b) (merge_encrypted_ballot old b)"
proof -
  obtain sels where s: "selections b = Some sels" "length sels = unat (num_selections b)"
      "\<forall>e \<in> set sels. encryption_ok e"
    using assms(2) by (auto simp: encrypted_ballot_ok_def)
  obtain blk where m: "malloc E (unat (num_selections b) * 32) = Some blk"
    using platform_mem.malloc_ok [OF assms(1)] by blast
  note r = reads_selections [OF assms(1) s(3), unfolded s(2), OF length_replicate]
  let ?tail = "\<lambda>i n st. case malloc E (unat n * 32) of
      None \<Rightarrow> Some (old\<lparr>ballot_id := i, num_selections := n, selections := None\<rparr>,
                    st\<lparr>ss_status := SERIALIZE_STATE_INSUFFICIENT_MEMORY\<rparr>)
    | Some _ \<Rightarrow> do {
        (sels, st) \<leftarrow> read_selections E (unat n) (replicate (unat n) Crypto_encryption_rep_new) st;
        Some (old\<lparr>ballot_id := i, num_selections := n, selections := Some sels\<rparr>, st) }"
  have tail: "reads (?tail (ballot_id b) (num_selections b)) (concat (map enc_encryption sels) @ [])
      (old\<lparr>ballot_id := ballot_id b, num_selections := num_selections b, selections := Some sels\<rparr>)"
    unfolding m option.simps by (rule reads_bind, rule r, rule reads_done)
  show ?thesis
    by (rule reads_eq, rule reads_cong [OF Serialize_read_encrypted_ballot_def],
        rule reads_bind, rule reads_uint64, rule reads_bind, rule reads_uint32, rule tail)
      (use s in \<open>simp_all add: enc_encrypted_ballot_def merge_encrypted_ballot_def\<close>)
qed

section \<open>The contract of a message type\<close>

text \<open>
  A message is the pair of a length and a pointer to its bytes. The locale states what the three
  passes of a type promise; what its clients rely on, building a message and reading it back, is
  proved once from that.
\<close>

record message =
  msg_len :: nat
  msg_bytes :: "u8 list option"

definition bytes_message :: "u8 list \<Rightarrow> message" where
  "bytes_message e = \<lparr>msg_len = length e, msg_bytes = Some e\<rparr>"

definition message_reading :: "message \<Rightarrow> serialize_state" where
  "message_reading m =
     \<lparr>ss_status = SERIALIZE_STATE_READING, ss_len = msg_len m, ss_offset = 0, ss_buf = msg_bytes m\<rparr>"

definition state_message :: "serialize_state \<Rightarrow> message" where
  "state_message st = \<lparr>msg_len = ss_len st, msg_bytes = ss_buf st\<rparr>"

lemma state_message_ok [simp]: "state_message (message_state e) = bytes_message e"
  by (simp add: state_message_def message_state_def bytes_message_def)

lemma message_state_status [simp]: "ss_status (message_state e) = SERIALIZE_STATE_WRITING"
  by (simp add: message_state_def)

locale codec =
  fixes rsv :: "'a \<Rightarrow> serialize_state \<Rightarrow> serialize_state option"
    and wr :: "env \<Rightarrow> 'a \<Rightarrow> serialize_state \<Rightarrow> serialize_state option"
    and rd :: "env \<Rightarrow> params \<Rightarrow> 'a \<Rightarrow> serialize_state \<Rightarrow> ('a \<times> serialize_state) option"
    and enc :: "'a \<Rightarrow> u8 list"
    and ok :: "params \<Rightarrow> 'a \<Rightarrow> bool"
    and shape :: "'a \<Rightarrow> bool"
    and merge :: "'a \<Rightarrow> 'a \<Rightarrow> 'a"
  assumes reserve_law: "ok G x \<Longrightarrow> reserves (rsv x) (length (enc x))"
    and write_law: "platform_mem E \<Longrightarrow> ok G x \<Longrightarrow> writes (wr E x) (enc x)"
    and read_law: "platform_mem E \<Longrightarrow> ok G x \<Longrightarrow> shape old \<Longrightarrow> reads (rd E G old) (enc x) (merge old x)"
    and enc_nonempty: "enc x \<noteq> []"
begin

lemma build:
  assumes "platform_mem E" "ok G x"
  shows "serialize_with E (rsv x) (wr E x) = Some (message_state (enc x))"
  using assms by (intro serialize_with_ok reserve_law write_law enc_nonempty)

lemma parse:
  assumes "platform_mem E" "ok G x" "shape old"
  shows "rd E G old (message_reading (bytes_message (enc x)))
    = Some (merge old x, message_reading (bytes_message (enc x))\<lparr>ss_offset := length (enc x)\<rparr>)"
proof -
  have s: "message_reading (bytes_message (enc x)) = reading_state (length (enc x)) (enc x @ [])"
    by (simp add: message_reading_def bytes_message_def reading_state_def)
  show ?thesis
    unfolding s using deserialize_with_ok [OF read_law [OF assms], of "length (enc x)" "[]"]
    by (simp add: consumed_def reading_state_def)
qed

text \<open>Whatever is built is read back.\<close>

lemma roundtrip:
  assumes "platform_mem E" "ok G x" "shape old"
  shows "\<exists>st st'. serialize_with E (rsv x) (wr E x) = Some st \<and> ss_status st = SERIALIZE_STATE_WRITING \<and>
    rd E G old (message_reading (state_message st)) = Some (merge old x, st') \<and>
    ss_status st' = SERIALIZE_STATE_READING"
  using build [OF assms(1,2)] parse [OF assms] by (simp add: message_reading_def)

end

interpretation joint_key_codec: codec
  "\<lambda>_. Serialize_reserve_joint_public_key" Serialize_write_joint_public_key
  "\<lambda>E _. Serialize_read_joint_public_key E" enc_joint_public_key "\<lambda>_ k. fits 64 (joint_key k)"
  "\<lambda>_. True" "\<lambda>_ k. k"
  by unfold_locales
    (simp_all add: reserves_joint_public_key writes_joint_public_key reads_joint_public_key,
      simp add: enc_joint_public_key_def le_bytes_def)

interpretation ballot_codec: codec
  Serialize_reserve_encrypted_ballot Serialize_write_encrypted_ballot
  "\<lambda>E _. Serialize_read_encrypted_ballot E" enc_encrypted_ballot "\<lambda>_. encrypted_ballot_ok"
  "\<lambda>_. True" merge_encrypted_ballot
  by unfold_locales
    (simp_all add: reserves_encrypted_ballot writes_encrypted_ballot reads_encrypted_ballot,
      simp add: enc_encrypted_ballot_def le_bytes_def)

end
