(* ===== verification/Stdio.thy ===== *)
theory Stdio
  imports Prelude
begin

unbundle bit_operations_syntax

text \<open>
  The C streams the code reads and writes. An output stream is the text written so far and the
  number of characters the device still takes; a formatted write either appends its whole text
  and returns its length, or fails with a negative result. An input stream is the text not yet
  read. Only the conversions the code uses are modelled: literal text, \<open>%016lx\<close>, decimal
  numbers and \<open>%s\<close>.
\<close>

section \<open>Output\<close>

record out_file =
  out_text :: string
  out_room :: nat

definition fprintf :: "out_file \<Rightarrow> string \<Rightarrow> int \<times> out_file" where
  "fprintf f s =
     (if length s \<le> out_room f
      then (int (length s), f\<lparr>out_text := out_text f @ s, out_room := out_room f - length s\<rparr>)
      else (-1, f))"

lemma fprintf_room:
  "length s \<le> out_room f \<Longrightarrow>
     fprintf f s = (int (length s), f\<lparr>out_text := out_text f @ s, out_room := out_room f - length s\<rparr>)"
  by (simp add: fprintf_def)

definition hex_chars :: string where
  "hex_chars = ''0123456789abcdef''"

definition hex_digit :: "nat \<Rightarrow> char" where
  "hex_digit d = hex_chars ! (d mod 16)"

text \<open>\<open>%016lx\<close>: sixteen lower-case hexadecimal digits.\<close>

primrec hex_pad :: "nat \<Rightarrow> nat \<Rightarrow> string" where
  "hex_pad 0 v = ''''"
| "hex_pad (Suc k) v = hex_pad k (v div 16) @ [hex_digit v]"

definition fmt_016lx :: "u64 \<Rightarrow> string" where
  "fmt_016lx w = hex_pad 16 (unat w)"

lemma length_hex_pad [simp]: "length (hex_pad k v) = k"
  by (induction k arbitrary: v) auto

section \<open>Input\<close>

definition is_space :: "char \<Rightarrow> bool" where
  "is_space c \<longleftrightarrow> c \<in> set [CHR '' '', CHR 0x09, CHR 0x0A, CHR 0x0B, CHR 0x0C, CHR 0x0D]"

text \<open>
  \<open>fscanf(in, "lit")\<close> with a literal that holds no white space: it consumes the matching
  prefix; the result is 0, or \<open>EOF\<close> when the input ends before any mismatch.
\<close>

fun fscanf_lit :: "string \<Rightarrow> string \<Rightarrow> int \<times> string" where
  "fscanf_lit [] inp = (0, inp)"
| "fscanf_lit (c # cs) [] = (-1, [])"
| "fscanf_lit (c # cs) (x # xs) = (if c = x then fscanf_lit cs xs else (0, x # xs))"

definition hex_value :: "char \<Rightarrow> nat option" where
  "hex_value c = map_of (zip (hex_chars @ ''ABCDEF'') ([0..<16] @ [10..<16])) c"

text \<open>At most \<open>k\<close> hexadecimal digits: their value, how many there were, the rest.\<close>

fun scan_hex :: "nat \<Rightarrow> nat \<Rightarrow> string \<Rightarrow> nat \<times> nat \<times> string" where
  "scan_hex 0 v inp = (v, 0, inp)"
| "scan_hex (Suc k) v [] = (v, 0, [])"
| "scan_hex (Suc k) v (c # cs) =
     (case hex_value c of
        None \<Rightarrow> (v, 0, c # cs)
      | Some d \<Rightarrow> (case scan_hex k (16 * v + d) cs of (v', n, rest) \<Rightarrow> (v', Suc n, rest)))"

text \<open>
  \<open>fscanf(in, "%016lx", &w)\<close>: white space is skipped; then an optional sign and an optional
  \<open>0x\<close> (they count towards the width), then digits. The result is 1 and the word, 0 on a
  matching failure, or \<open>EOF\<close>.
\<close>

definition scan_sign :: "nat \<Rightarrow> string \<Rightarrow> bool \<times> nat \<times> string" where
  "scan_sign k inp =
     (case inp of
        CHR ''-'' # cs \<Rightarrow> (True, k - 1, cs)
      | CHR ''+'' # cs \<Rightarrow> (False, k - 1, cs)
      | _ \<Rightarrow> (False, k, inp))"

definition scan_0x :: "nat \<Rightarrow> string \<Rightarrow> bool \<times> nat \<times> string" where
  "scan_0x k inp =
     (case inp of
        CHR ''0'' # CHR ''x'' # cs \<Rightarrow> if 2 \<le> k then (True, k - 2, cs) else (False, k, inp)
      | CHR ''0'' # CHR ''X'' # cs \<Rightarrow> if 2 \<le> k then (True, k - 2, cs) else (False, k, inp)
      | _ \<Rightarrow> (False, k, inp))"

definition fscanf_016lx :: "string \<Rightarrow> int \<times> u64 option \<times> string" where
  "fscanf_016lx inp =
     (let inp1 = dropWhile is_space inp in
      if inp1 = [] then (-1, None, [])
      else
        let (neg, k1, inp2) = scan_sign 16 inp1;
            (_, k2, inp3) = scan_0x k1 inp2;
            (v, n, rest) = scan_hex k2 0 inp3
        in if n = 0 then (0, None, rest)
           else (1, Some (if neg then - of_nat v else of_nat v), rest))"

section \<open>Reading back what was printed\<close>

lemma length_hex_chars [simp]: "length hex_chars = 16"
  by (simp add: hex_chars_def)

lemma hex_value_digit: "d < 16 \<Longrightarrow> hex_value (hex_digit d) = Some d"
proof -
  assume d: "d < 16"
  have dist: "distinct (hex_chars @ ''ABCDEF'')"
    by (simp add: hex_chars_def)
  have "map_of (zip (hex_chars @ ''ABCDEF'') ([0..<16] @ [10..<16])) ((hex_chars @ ''ABCDEF'') ! d)
      = Some (([0..<16] @ [10..<16]) ! d)"
    using d by (intro map_of_zip_nth [OF _ dist]) simp_all
  then show ?thesis
    using d by (simp add: hex_value_def hex_digit_def nth_append)
qed

lemma hex_digit_mod: "hex_digit (v mod 16) = hex_digit v"
  by (simp add: hex_digit_def)

lemma hex_value_digit_mod: "hex_value (hex_digit v) = Some (v mod 16)"
  using hex_value_digit [of "v mod 16"] by (simp add: hex_digit_mod)

lemma scan_hex_pad:
  "scan_hex (j + k) v (hex_pad j u @ s) =
     (case scan_hex k (16 ^ j * v + u mod 16 ^ j) s of (v', n, rest) \<Rightarrow> (v', j + n, rest))"
proof (induction j arbitrary: k u s)
  case 0
  then show ?case by (simp split: prod.splits)
next
  case (Suc j)
  have "16 * (16 ^ j * v + (u div 16) mod 16 ^ j) + u mod 16 = 16 ^ Suc j * v + u mod 16 ^ Suc j"
    using mod_mult2_eq [of u 16 "16 ^ j"] by (simp add: algebra_simps)
  then show ?case
    using Suc.IH [of "Suc k" "u div 16" "hex_digit u # s"]
    by (simp add: hex_value_digit_mod case_prod_unfold del: power_Suc)
qed

lemma hex_pad_chars: "c \<in> set (hex_pad k v) \<Longrightarrow> c \<in> set hex_chars"
  by (induction k arbitrary: v) (auto simp: hex_digit_def intro!: nth_mem)

lemma hex_chars_plain:
  "c \<in> set hex_chars \<Longrightarrow> \<not> is_space c \<and> c \<noteq> CHR ''-'' \<and> c \<noteq> CHR ''+'' \<and> c \<noteq> CHR ''x'' \<and> c \<noteq> CHR ''X''"
proof -
  assume "c \<in> set hex_chars"
  moreover have "list_all (\<lambda>c. \<not> is_space c \<and> c \<noteq> CHR ''-'' \<and> c \<noteq> CHR ''+'' \<and>
      c \<noteq> CHR ''x'' \<and> c \<noteq> CHR ''X'') hex_chars"
    by (simp add: hex_chars_def is_space_def)
  ultimately show ?thesis by (simp add: list_all_iff)
qed

text \<open>A word printed with \<open>%016lx\<close> is read back, and exactly its sixteen digits are consumed.\<close>

lemma fscanf_fmt_016lx: "fscanf_016lx (fmt_016lx w @ rest) = (1, Some w, rest)"
proof -
  have len: "length (fmt_016lx w) = 16" by (simp add: fmt_016lx_def)
  obtain c s1 where s1: "fmt_016lx w = c # s1"
    using len by (cases "fmt_016lx w") auto
  obtain d cs where "s1 = d # cs"
    using len s1 by (cases s1) auto
  with s1 have s: "fmt_016lx w = c # d # cs" by simp
  have cd: "c \<in> set hex_chars" "d \<in> set hex_chars"
    using hex_pad_chars [of _ 16 "unat w"] s by (auto simp: fmt_016lx_def)
  note plain = hex_chars_plain [OF cd(1)] hex_chars_plain [OF cd(2)]
  have sp: "dropWhile is_space (fmt_016lx w @ rest) = fmt_016lx w @ rest"
    using plain by (simp add: s)
  have sg: "scan_sign 16 (fmt_016lx w @ rest) = (False, 16, fmt_016lx w @ rest)"
    using plain by (simp add: s scan_sign_def split: char.split bool.split)
  have zx: "scan_0x 16 (fmt_016lx w @ rest) = (False, 16, fmt_016lx w @ rest)"
    using plain by (simp add: s scan_0x_def split: char.split bool.split)
  have "unat w mod 16 ^ 16 = unat w"
    using unsigned_less [of w, where ?'a = nat] by simp
  then have hx: "scan_hex 16 0 (fmt_016lx w @ rest) = (unat w, 16, rest)"
    using scan_hex_pad [of 16 0 0 "unat w" rest] by (simp add: fmt_016lx_def)
  have ne: "fmt_016lx w @ rest \<noteq> []" using len by (metis Nil_is_append_conv list.size(3) zero_neq_numeral)
  show ?thesis
    unfolding fscanf_016lx_def sp Let_def sg zx hx case_prod_conv using ne by simp
qed

lemma fscanf_lit_match: "fscanf_lit cs (cs @ rest) = (0, rest)"
  by (induction cs) auto

end
