(* ===== verification/Uint4096_Mod.thy ===== *)
theory Uint4096_Mod
  imports Uint4096 Platform Stdio
begin

unbundle bit_operations_syntax

text \<open>
  The 8192-bit and 4096-bit operations of \<open>src/electionguard/uint4096.c\<close> on top of the
  dynamically sized ones: Barrett reduction, conversion from bytes, comparison, modular
  multiplication, exponentiation and discrete logarithm, hexadecimal input and output, the
  allocating wrappers and the static data.
\<close>

section \<open>Barrett reduction\<close>

record Modulus4096 =
  modulus :: "u64 list"
  reciprocal :: "u64 list"

text \<open>
  \<open>barrett_estimate\<close> is the part of \<open>uint8192_mod_o\<close> before its loop: the number whose excess
  over a multiple of the modulus the loop removes. The loop is written as one that may run for
  ever (it does for a zero modulus).
\<close>

definition promoted_modulus :: "Modulus4096 \<Rightarrow> u64 list" where
  "promoted_modulus m = replicate UINT4096_WORD_COUNT 0 @ take UINT4096_WORD_COUNT (modulus m)"

definition barrett_estimate :: "u64 list \<Rightarrow> Modulus4096 \<Rightarrow> u64 list" where
  "barrett_estimate a m =
     (let W = UINT4096_WORD_COUNT;
          result = replicate (4 * W) 0;
          result = uintfn_mult_o (UINT4096_LOG2_WORD_COUNT + 1) result a (reciprocal m);
          result = uintfn_mult_o (UINT4096_LOG2_WORD_COUNT + 1) result result (promoted_modulus m);
          lores = drop (2 * W) result;
          lores = uintnwords_negate_o (2 * W) lores lores
      in snd (uintnwords_add_o (2 * W) lores lores a))"

partial_function (option) uint8192_mod_loop :: "u64 list \<Rightarrow> u64 list \<Rightarrow> u64 list option" where
  "uint8192_mod_loop pm lores =
     (if uintnwords_le (2 * UINT4096_WORD_COUNT) pm lores
      then
        let neg = uintnwords_negate_o (2 * UINT4096_WORD_COUNT)
                    (replicate (2 * UINT4096_WORD_COUNT) 0) pm;
            lores = snd (uintnwords_add_o (2 * UINT4096_WORD_COUNT) lores lores neg)
        in uint8192_mod_loop pm lores
      else Some lores)"

definition uint8192_mod_o :: "u64 list \<Rightarrow> Modulus4096 \<Rightarrow> u64 list option" where
  "uint8192_mod_o a m =
     map_option (\<lambda>lores. take UINT4096_WORD_COUNT (drop UINT4096_WORD_COUNT lores))
       (uint8192_mod_loop (promoted_modulus m) (barrett_estimate a m))"

definition mod_wf :: "Modulus4096 \<Rightarrow> bool" where
  "mod_wf m \<longleftrightarrow> length (modulus m) = UINT4096_WORD_COUNT \<and>
     length (reciprocal m) = 2 * UINT4096_WORD_COUNT"

definition range4096 :: int where
  "range4096 = 2 ^ (64 * UINT4096_WORD_COUNT)"

lemma range4096_pos [simp]: "0 < range4096"
  by (simp add: range4096_def)

lemma range4096_nz [simp]: "range4096 \<noteq> 0"
  using range4096_pos by linarith

lemma range8192_128: "2 ^ (128 * UINT4096_WORD_COUNT) = range4096 ^ 2"
  by (simp add: range4096_def power_mult [symmetric] mult.commute mult.left_commute)

lemma range8192: "2 ^ (64 * (2 * UINT4096_WORD_COUNT)) = range4096 ^ 2"
  using range8192_128 by simp

lemma promoted_modulus_props:
  assumes "mod_wf m"
  shows "length (promoted_modulus m) = 2 * UINT4096_WORD_COUNT"
    and "wval (promoted_modulus m) = wval (modulus m)"
    and "wval (modulus m) < range4096"
  using assms wval_less [of "modulus m"]
  by (simp_all add: promoted_modulus_def mod_wf_def range4096_def)

lemma high_low:
  assumes "0 \<le> l" "l < (b :: int)"
  shows "(h * b + l) div b = h" "(h * b + l) mod b = l"
  using assms by simp_all

lemma barrett_estimate_value:
  assumes m: "mod_wf m" and a: "length a = 2 * UINT4096_WORD_COUNT"
  defines "q \<equiv> (wval a * wval (reciprocal m)) div range4096 ^ 2"
  shows "length (barrett_estimate a m) = 2 * UINT4096_WORD_COUNT"
    and "wval (barrett_estimate a m) = (wval a - q * wval (modulus m)) mod range4096 ^ 2"
proof -
  let ?W = UINT4096_WORD_COUNT and ?n = "UINT4096_LOG2_WORD_COUNT + 1"
  have W: "2 ^ ?n = 2 * ?W" by (simp add: word_count_pow)
  note mult = mult_specD [OF uintfn_mult_spec [of ?n], unfolded W]
  note pm = promoted_modulus_props [OF m]
  have rl: "length (reciprocal m) = 2 * ?W" using m by (simp add: mod_wf_def)
  define r1 where "r1 = uintfn_mult_o ?n (replicate (4 * ?W) 0) a (reciprocal m)"
  define r2 where "r2 = uintfn_mult_o ?n r1 r1 (promoted_modulus m)"
  have r1: "length r1 = 4 * ?W" "wval r1 = wval a * wval (reciprocal m)"
    using mult(1,3) [of "replicate (4 * ?W) 0" a "reciprocal m"] a rl
    by (simp_all add: r1_def)
  have lo: "wval (drop (2 * ?W) r1) < range4096 ^ 2"
    using wval_less [of "drop (2 * ?W) r1"] r1(1) by (simp add: range8192 [symmetric])
  have "wval r1 = nval (2 * ?W) r1 * range4096 ^ 2 + wval (drop (2 * ?W) r1)"
    using wval_split [of r1 "2 * ?W"] r1(1) by (simp add: range8192 [symmetric])
  then have hi: "nval (2 * ?W) r1 = q"
    using high_low(1) [OF _ lo, of "nval (2 * ?W) r1"] r1(2) by (simp only: q_def wval_nonneg)
  have r2: "length r2 = 4 * ?W" "wval r2 = q * wval (modulus m)"
    using mult(1,3) [of r1 r1 "promoted_modulus m"] r1 pm hi by (simp_all add: r2_def)
  define l0 where "l0 = drop (2 * ?W) r2"
  have l0: "length l0 = 2 * ?W" "wval l0 = (q * wval (modulus m)) mod range4096 ^ 2"
  proof -
    show l: "length l0 = 2 * ?W" using r2 by (simp add: l0_def)
    have "wval r2 = nval (2 * ?W) r2 * range4096 ^ 2 + wval l0"
      using wval_split [of r2 "2 * ?W"] r2(1) by (simp add: l0_def range8192 [symmetric])
    moreover have "wval l0 < range4096 ^ 2"
      using wval_less [of l0] l by (simp add: range8192 [symmetric])
    ultimately show "wval l0 = (q * wval (modulus m)) mod range4096 ^ 2"
      using high_low(2) [of "wval l0" "range4096 ^ 2" "nval (2 * ?W) r2"] r2(2)
      by (simp only: wval_nonneg)
  qed
  define l1 where "l1 = uintnwords_negate_o (2 * ?W) l0 l0"
  have l1: "length l1 = 2 * ?W" "wval l1 = (- wval l0) mod range4096 ^ 2"
    using uintnwords_negate_o_spec [of "2 * ?W" l0 l0] l0 by (simp_all add: l1_def range8192_128)
  have e: "barrett_estimate a m = snd (uintnwords_add_o (2 * ?W) l1 l1 a)"
    by (simp add: barrett_estimate_def Let_def r1_def r2_def l0_def l1_def)
  show "length (barrett_estimate a m) = 2 * ?W"
    using uintnwords_add_o_spec(1) [of "2 * ?W" l1 l1 a] l1 a by (simp add: e)
  then have "wval (barrett_estimate a m) = (wval l1 + wval a) mod range4096 ^ 2"
    using uintnwords_add_o_spec(4) [of "2 * ?W" l1 l1 a] l1 a by (simp add: e range8192_128)
  also have "\<dots> = (wval a - wval l0) mod range4096 ^ 2"
    by (simp add: l1(2) mod_add_left_eq)
  also have "\<dots> = (wval a - q * wval (modulus m)) mod range4096 ^ 2"
    by (simp add: l0(2) mod_diff_right_eq)
  finally show "wval (barrett_estimate a m) = (wval a - q * wval (modulus m)) mod range4096 ^ 2" .
qed

lemma mod_loop_step:
  assumes pm: "length pm = 2 * UINT4096_WORD_COUNT" and l: "length lores = 2 * UINT4096_WORD_COUNT"
    and le: "0 < wval pm" "wval pm \<le> wval lores"
  defines "neg \<equiv> uintnwords_negate_o (2 * UINT4096_WORD_COUNT) (replicate (2 * UINT4096_WORD_COUNT) 0) pm"
  defines "l' \<equiv> snd (uintnwords_add_o (2 * UINT4096_WORD_COUNT) lores lores neg)"
  shows "length l' = 2 * UINT4096_WORD_COUNT" "wval l' = wval lores - wval pm"
proof -
  let ?n = "2 * UINT4096_WORD_COUNT"
  note ng = uintnwords_negate_o_spec [of ?n "replicate ?n 0" pm, folded neg_def]
  have neg: "length neg = ?n" "wval neg = (- wval pm) mod range4096 ^ 2"
    using ng pm by (simp_all add: range8192_128)
  show len: "length l' = ?n"
    using uintnwords_add_o_spec(1) [of ?n lores lores neg] l neg by (simp add: l'_def)
  have "wval l' = (wval lores + wval neg) mod range4096 ^ 2"
    using uintnwords_add_o_spec(4) [of ?n lores lores neg, folded l'_def] l neg len
    by (simp add: range8192_128)
  also have "\<dots> = (wval lores - wval pm) mod range4096 ^ 2"
    by (simp add: neg(2) mod_add_right_eq)
  also have "\<dots> = wval lores - wval pm"
    using le wval_less [of lores] l by (intro mod_pos_pos_trivial) (simp_all add: range8192_128)
  finally show "wval l' = wval lores - wval pm" .
qed

lemma mod_loop_correct:
  assumes "length pm = 2 * UINT4096_WORD_COUNT" "length lores = 2 * UINT4096_WORD_COUNT"
    and "0 < wval pm"
  shows "\<exists>l. uint8192_mod_loop pm lores = Some l \<and> length l = 2 * UINT4096_WORD_COUNT \<and>
    wval l = wval lores mod wval pm"
  using assms
proof (induction "nat (wval lores)" arbitrary: lores rule: less_induct)
  case less
  let ?n = "2 * UINT4096_WORD_COUNT"
  have cond: "uintnwords_le ?n pm lores \<longleftrightarrow> wval pm \<le> wval lores"
    using less.prems uintnwords_le_spec [of ?n pm lores] by simp
  show ?case
  proof (cases "wval pm \<le> wval lores")
    case False
    with cond less.prems show ?thesis
      by (subst uint8192_mod_loop.simps) simp
  next
    case True
    define l' where "l' = snd (uintnwords_add_o ?n lores lores (uintnwords_negate_o ?n (replicate ?n 0) pm))"
    have l': "length l' = ?n" "wval l' = wval lores - wval pm"
      using mod_loop_step [OF less.prems(1,2,3) True] by (simp_all only: l'_def)
    have "uint8192_mod_loop pm lores = uint8192_mod_loop pm l'"
      using True cond by (subst uint8192_mod_loop.simps) (simp add: l'_def Let_def)
    moreover have "wval lores mod wval pm = wval l' mod wval pm"
      using l' by simp
    moreover have "nat (wval l') < nat (wval lores)"
      using l' less.prems(3) True by simp
    ultimately show ?thesis
      using less.hyps [of l'] less.prems(1,3) l' by simp
  qed
qed

lemma uint8192_mod_o_out:
  assumes "uint8192_mod_loop (promoted_modulus m) (barrett_estimate a m) = Some l"
    and "length l = 2 * UINT4096_WORD_COUNT" "wval l < range4096"
  shows "\<exists>out. uint8192_mod_o a m = Some out \<and> length out = UINT4096_WORD_COUNT \<and> wval out = wval l"
proof -
  let ?W = UINT4096_WORD_COUNT
  have v: "wval l = wval (take ?W l) * range4096 + wval (drop ?W l)"
    using wval_split [of l ?W] assms(2) by (simp add: range4096_def)
  have "wval (take ?W l) < 1"
  proof (rule ccontr)
    assume "\<not> ?thesis"
    then have "1 * range4096 \<le> wval (take ?W l) * range4096"
      using range4096_pos by (intro mult_right_mono) linarith+
    with v assms(3) wval_nonneg [of "drop ?W l"] show False by linarith
  qed
  then have "wval (take ?W l) = 0"
    using wval_nonneg [of "take ?W l"] by linarith
  with v assms show ?thesis by (simp add: uint8192_mod_o_def)
qed

text \<open>
  What the routine computes for any reciprocal: the residue of the estimate. It is the residue
  of \<open>a\<close> as soon as the quotient estimate does not overshoot, which a reciprocal of at most
  \<open>2^8192 / modulus\<close> guarantees.
\<close>

lemma uint8192_mod_o_value:
  assumes "mod_wf m" "0 < wval (modulus m)" "length a = 2 * UINT4096_WORD_COUNT"
  shows "\<exists>out. uint8192_mod_o a m = Some out \<and> length out = UINT4096_WORD_COUNT \<and>
    wval out = wval (barrett_estimate a m) mod wval (modulus m)"
proof -
  note pm = promoted_modulus_props [OF assms(1)]
  obtain l where l: "uint8192_mod_loop (promoted_modulus m) (barrett_estimate a m) = Some l"
      "length l = 2 * UINT4096_WORD_COUNT" "wval l = wval (barrett_estimate a m) mod wval (modulus m)"
    using mod_loop_correct [of "promoted_modulus m" "barrett_estimate a m"]
      barrett_estimate_value(1) [OF assms(1,3)] pm assms(2) by auto
  moreover have "wval l < range4096"
    using l(3) pm(3) pos_mod_bound [OF assms(2), of "wval (barrett_estimate a m)"] by linarith
  ultimately show ?thesis
    using uint8192_mod_o_out [of m a l] by simp
qed

lemma barrett_bounds:
  fixes a r m B :: int
  assumes "0 \<le> a" "a < B" "0 < m" "m < B" "0 \<le> r" "r * m \<le> B"
  defines "q \<equiv> (a * r) div B"
  shows "q * m \<le> a" and "B - m < r * m \<Longrightarrow> a - q * m < 2 * m"
proof -
  have B: "0 < B" using assms by simp
  have q: "q * B \<le> a * r" "a * r - B < q * B"
    using div_mult_mod_eq [of "a * r" B] pos_mod_sign [OF B, of "a * r"] pos_mod_bound [OF B, of "a * r"]
    unfolding q_def by linarith+
  have "(q * m) * B \<le> a * (r * m)"
    using mult_right_mono [OF q(1), of m] assms(3) by (simp add: mult.assoc mult.commute mult.left_commute)
  also have "\<dots> \<le> a * B"
    using assms by (intro mult_left_mono) auto
  finally show "q * m \<le> a" using B by simp
  assume "B - m < r * m"
  then have "a * (B - m) \<le> a * (r * m)"
    using assms(1) by (intro mult_left_mono) auto
  moreover have "(a * r - B) * m \<le> (q * B) * m"
    using q(2) assms(3) by (intro mult_right_mono) auto
  ultimately have "a * B - a * m - B * m \<le> (q * m) * B"
    by (simp add: algebra_simps)
  then have "(a - q * m) * B \<le> a * m + B * m"
    by (simp add: algebra_simps)
  also have "\<dots> < B * m + B * m"
    using assms(2,3) by simp
  finally have "(a - q * m) * B < (2 * m) * B"
    by (simp add: algebra_simps)
  then show "a - q * m < 2 * m" using B by simp
qed

lemma barrett_estimate_exact:
  assumes m: "mod_wf m" "0 < wval (modulus m)" and a: "length a = 2 * UINT4096_WORD_COUNT"
    and r: "wval (reciprocal m) * wval (modulus m) \<le> range4096 ^ 2"
  shows "\<exists>q. wval (barrett_estimate a m) = wval a - q * wval (modulus m)"
    and "range4096 ^ 2 - wval (modulus m) < wval (reciprocal m) * wval (modulus m) \<Longrightarrow>
      wval (barrett_estimate a m) < 2 * wval (modulus m)"
proof -
  let ?q = "(wval a * wval (reciprocal m)) div range4096 ^ 2"
  have al: "wval a < range4096 ^ 2"
    using wval_less [of a] a by (simp add: range8192_128)
  have ml: "wval (modulus m) < range4096 ^ 2"
    using promoted_modulus_props(3) [OF m(1)] range4096_pos
    by (smt (verit) power2_eq_square mult_le_cancel_left1)
  note b = barrett_bounds [OF wval_nonneg al m(2) ml wval_nonneg r]
  have qa: "0 \<le> ?q * wval (modulus m)"
    using m(2) by (intro mult_nonneg_nonneg pos_imp_zdiv_nonneg_iff [THEN iffD2]) simp_all
  have "wval (barrett_estimate a m) = wval a - ?q * wval (modulus m)"
    using barrett_estimate_value(2) [OF m(1) a] b(1) qa al by simp
  then show "\<exists>q. wval (barrett_estimate a m) = wval a - q * wval (modulus m)"
    and "range4096 ^ 2 - wval (modulus m) < wval (reciprocal m) * wval (modulus m) \<Longrightarrow>
      wval (barrett_estimate a m) < 2 * wval (modulus m)"
    using b(2) by auto
qed

text \<open>
  Correctness of the reduction: for a positive modulus and a reciprocal that is at most
  \<open>2^8192 / modulus\<close>, the loop ends and the result is the residue.
\<close>

lemma uint8192_mod_o_correct:
  assumes "mod_wf m" "0 < wval (modulus m)" "length a = 2 * UINT4096_WORD_COUNT"
    and "wval (reciprocal m) * wval (modulus m) \<le> range4096 ^ 2"
  shows "\<exists>out. uint8192_mod_o a m = Some out \<and> length out = UINT4096_WORD_COUNT \<and>
    wval out = wval a mod wval (modulus m)"
proof -
  obtain q where "wval (barrett_estimate a m) = wval a - q * wval (modulus m)"
    using barrett_estimate_exact(1) [OF assms] by blast
  then have "wval (barrett_estimate a m) mod wval (modulus m) = wval a mod wval (modulus m)"
    by (simp only: mod_diff_eq [symmetric, of "wval a"] mod_mult_self2_is_0 diff_0_right mod_mod_trivial)
  then show ?thesis using uint8192_mod_o_value [OF assms(1-3)] by simp
qed

section \<open>Operations on 4096-bit numbers\<close>

definition uint4096_zext_o :: "u8 list \<Rightarrow> u64 list" where
  "uint4096_zext_o bytes =
     (let ub = UINT4096_WORD_COUNT * 8;
          bytes = drop (length bytes - ub) bytes;
          num_bytes = length bytes
      in floop num_bytes
           (\<lambda>i words.
              let j = UINT4096_WORD_COUNT - 1 - i div 8
              in words[j := words ! j OR push_bit (8 * (i mod 8)) (ucast (bytes ! (num_bytes - 1 - i)))])
           (replicate UINT4096_WORD_COUNT 0))"

definition uint4096_downcast_o :: "Modulus4096 \<Rightarrow> u64 list" where
  "uint4096_downcast_o m = take UINT4096_WORD_COUNT (modulus m)"

definition uint4096_eq :: "u64 list \<Rightarrow> u64 list \<Rightarrow> bool" where
  "uint4096_eq a b = (0 = uintnwords_cmp UINT4096_WORD_COUNT a b)"

definition uint4096_le :: "u64 list \<Rightarrow> u64 list \<Rightarrow> bool" where
  "uint4096_le a b = (0 \<ge> uintnwords_cmp UINT4096_WORD_COUNT a b)"

definition uint4096_lt :: "u64 list \<Rightarrow> u64 list \<Rightarrow> bool" where
  "uint4096_lt a b = (0 > uintnwords_cmp UINT4096_WORD_COUNT a b)"

definition uint4096_ge :: "u64 list \<Rightarrow> u64 list \<Rightarrow> bool" where
  "uint4096_ge a b = (0 \<le> uintnwords_cmp UINT4096_WORD_COUNT a b)"

definition uint4096_gt :: "u64 list \<Rightarrow> u64 list \<Rightarrow> bool" where
  "uint4096_gt a b = (0 < uintnwords_cmp UINT4096_WORD_COUNT a b)"

definition uint4096_multmod_o :: "u64 list \<Rightarrow> u64 list \<Rightarrow> Modulus4096 \<Rightarrow> u64 list option" where
  "uint4096_multmod_o a b m =
     uint8192_mod_o
       (uintfn_mult_o UINT4096_LOG2_WORD_COUNT (replicate (2 * UINT4096_WORD_COUNT) 0) a b) m"

text \<open>The two scans that find the number of bits of the exponent.\<close>

function powmod_first_word :: "nat \<Rightarrow> u64 list \<Rightarrow> nat" where
  "powmod_first_word max_bit exponent =
     (if max_bit < UINT4096_WORD_COUNT \<and> exponent ! max_bit = 0
      then powmod_first_word (Suc max_bit) exponent else max_bit)"
  by pat_completeness auto
termination
  by (relation "measure (\<lambda>(i, _). UINT4096_WORD_COUNT - i)") auto

declare powmod_first_word.simps [simp del]

lemma halved_word_less:
  assumes "w \<noteq> (0 :: 'a::len word)"
  shows "unat (drop_bit (Suc 0) w) < unat w"
proof -
  have "take_bit LENGTH('a) (unat w) div 2 \<le> unat w div 2"
    by (intro div_le_mono) simp
  also have "\<dots> < unat w" using assms unat_gt_0 [of w] by simp
  finally show ?thesis unfolding unsigned_drop_bit_eq by (simp add: drop_bit_Suc)
qed

function powmod_count_bits :: "u64 \<Rightarrow> nat \<Rightarrow> nat" where
  "powmod_count_bits word max_bit =
     (if word \<noteq> 0 then powmod_count_bits (drop_bit 1 word) (Suc max_bit) else max_bit)"
  by pat_completeness auto

termination
  by (relation "measure (\<lambda>(w, _). unat w)") (auto intro: halved_word_less)

declare powmod_count_bits.simps [simp del]

definition powmod_max_bit :: "u64 list \<Rightarrow> nat" where
  "powmod_max_bit exponent =
     (let i = powmod_first_word 0 exponent;
          word = (if i < UINT4096_WORD_COUNT then exponent ! i else 0)
      in powmod_count_bits word ((UINT4096_WORD_COUNT - 1 - i) * 64))"

text \<open>
  When the whole exponent is zero the scan leaves \<open>max_bit = (64-1-64)*64 = -64\<close> and the loop
  does not run; the natural number subtraction gives 0, for which it does not run either.
\<close>

definition powmod_step ::
    "u64 list \<Rightarrow> Modulus4096 \<Rightarrow> nat \<Rightarrow> u64 list \<times> u64 list \<Rightarrow> (u64 list \<times> u64 list) option" where
  "powmod_step exponent m i s =
     (case s of (out_tmp, base_tmp) \<Rightarrow> do {
        out_tmp \<leftarrow> (if bit (exponent ! (UINT4096_WORD_COUNT - 1 - i div 64)) (i mod 64)
                   then uint4096_multmod_o out_tmp base_tmp m else Some out_tmp);
        base_tmp \<leftarrow> uint4096_multmod_o base_tmp base_tmp m;
        Some (out_tmp, base_tmp) })"

definition uint4096_powmod_o :: "u64 list \<Rightarrow> u64 list \<Rightarrow> Modulus4096 \<Rightarrow> u64 list option" where
  "uint4096_powmod_o base exponent m =
     map_option fst
       (loop (powmod_max_bit exponent) (powmod_step exponent m) (uint4096_zext_o [1], base))"

partial_function (option) uint4096_logmod_loop ::
    "u64 list \<Rightarrow> u64 list \<Rightarrow> Modulus4096 \<Rightarrow> u64 list \<Rightarrow> u64 \<Rightarrow> u64 option" where
  "uint4096_logmod_loop base a m powmod exponent =
     (if uint4096_eq powmod a then Some exponent
      else do {
        powmod \<leftarrow> uint4096_multmod_o powmod base m;
        uint4096_logmod_loop base a m powmod (exponent + 1) })"

definition uint4096_logmod :: "u64 list \<Rightarrow> u64 list \<Rightarrow> Modulus4096 \<Rightarrow> u64 option" where
  "uint4096_logmod base a m = uint4096_logmod_loop base a m (uint4096_zext_o [1]) 0"

definition uint4096_copy_o :: "u64 list \<Rightarrow> u64 list" where
  "uint4096_copy_o src = take UINT4096_WORD_COUNT src"

section \<open>Correctness of the conversions and comparisons\<close>

lemma uint_or_push_bit:
  fixes a b :: u64
  assumes "uint a < 2 ^ k" "uint b * 2 ^ k < 2 ^ 64"
  shows "uint (a OR push_bit k b) = uint a + uint b * 2 ^ k"
proof -
  have "uint (a OR push_bit k b) = uint a OR uint (push_bit k b)"
    by (simp add: unsigned_or_eq)
  also have "uint (push_bit k b) = push_bit k (uint b)"
    using assms(2) unfolding unsigned_push_bit_eq by (simp add: take_bit_int_eq_self push_bit_eq_mult)
  also have "uint a OR push_bit k (uint b) = uint a + push_bit k (uint b)"
  proof (rule disjunctive_add [symmetric])
    fix n
    have "uint a = take_bit k (uint a)"
      using assms(1) by (simp add: take_bit_int_eq_self)
    then show "\<not> bit (uint a) n \<or> \<not> bit (push_bit k (uint b)) n"
      by (metis bit_push_bit_iff_int bit_take_bit_iff not_le)
  qed
  finally show ?thesis by (simp add: push_bit_eq_mult)
qed

lemma zext_step:
  fixes w :: "u64 list" and x :: u8
  assumes w: "length w = UINT4096_WORD_COUNT" "wval w < 2 ^ (8 * i)" and i: "i < 8 * UINT4096_WORD_COUNT"
  defines "j \<equiv> UINT4096_WORD_COUNT - 1 - i div 8"
  shows "wval (w[j := w ! j OR push_bit (8 * (i mod 8)) (ucast x)]) = wval w + uint x * 2 ^ (8 * i)"
proof -
  let ?k = "8 * (i mod 8)"
  have j: "j < length w" "length w - Suc j = i div 8"
    using i w(1) by (auto simp: j_def)
  have e: "8 * i = 64 * (i div 8) + ?k" by presburger
  have "uint (w ! j) * 2 ^ (64 * (i div 8)) \<le> wval w"
    using wval_nth_le [OF j(1)] j(2) by simp
  also have "\<dots> < 2 ^ (64 * (i div 8)) * 2 ^ ?k"
    using w(2) by (simp only: e power_add)
  finally have a: "uint (w ! j) < 2 ^ ?k"
    by (simp add: mult.commute)
  have ux: "uint (ucast x :: u64) = uint x"
    by (simp add: unsigned_ucast_eq take_bit_int_eq_self uint_lt2p less_trans [OF uint_lt2p])
  have "uint x * 2 ^ ?k < 2 ^ 8 * 2 ^ ?k"
    using uint_lt2p [of x] by simp
  also have "\<dots> \<le> 2 ^ 64"
  proof -
    have "8 + ?k \<le> 64" by presburger
    then have "(2 :: int) ^ (8 + ?k) \<le> 2 ^ 64" by (intro power_increasing) auto
    then show ?thesis by (simp only: power_add)
  qed
  finally have b: "uint (ucast x :: u64) * 2 ^ ?k < 2 ^ 64" by (simp only: ux)
  show ?thesis
    using uint_or_push_bit [OF a b] wval_update [OF j(1), of "w ! j OR push_bit ?k (ucast x)"] j(2)
    by (simp add: ux e power_add)
qed

lemma uint4096_zext_o_short:
  assumes n: "length bytes \<le> 8 * UINT4096_WORD_COUNT"
  shows "length (uint4096_zext_o bytes) = UINT4096_WORD_COUNT"
    and "wval (uint4096_zext_o bytes) = wval bytes"
proof -
  let ?n = "length bytes"
  let ?f = "\<lambda>i words. let j = UINT4096_WORD_COUNT - 1 - i div 8
    in words[j := words ! j OR push_bit (8 * (i mod 8)) (ucast (bytes ! (?n - 1 - i)))]"
  let ?P = "\<lambda>i w. length w = UINT4096_WORD_COUNT \<and> wval w = wval (drop (?n - i) bytes)"
  have "?P ?n (floop ?n ?f (replicate UINT4096_WORD_COUNT (0 :: u64)))"
  proof (rule floop_invariant [where P = ?P])
    show "?P 0 (replicate UINT4096_WORD_COUNT (0 :: u64))" by simp
  next
    fix i and w :: "u64 list"
    assume i: "i < ?n" and P: "?P i w"
    have lt: "wval w < 2 ^ (8 * i)"
      using P wval_less [of "drop (?n - i) bytes"] i by simp
    have s: "Suc (?n - Suc i) = ?n - i" and k: "?n - Suc i < ?n" using i by auto
    have d: "drop (?n - Suc i) bytes = bytes ! (?n - 1 - i) # drop (?n - i) bytes"
      using Cons_nth_drop_Suc [OF k] s by simp
    have "wval (drop (?n - Suc i) bytes) = wval w + uint (bytes ! (?n - 1 - i)) * 2 ^ (8 * i)"
      using P i by (simp add: d)
    then show "?P (Suc i) (?f i w)"
      using zext_step [of w i "bytes ! (?n - 1 - i)"] P lt i n by (simp add: Let_def)
  qed
  then show "length (uint4096_zext_o bytes) = UINT4096_WORD_COUNT"
    and "wval (uint4096_zext_o bytes) = wval bytes"
    using n by (simp_all add: uint4096_zext_o_def Let_def mult.commute)
qed

text \<open>Surplus leading bytes are dropped.\<close>

lemma uint4096_zext_o_drop:
  "uint4096_zext_o bytes = uint4096_zext_o (drop (length bytes - 8 * UINT4096_WORD_COUNT) bytes)"
  by (simp add: uint4096_zext_o_def Let_def mult.commute)

lemma uint4096_zext_o_correct:
  shows "length (uint4096_zext_o bytes) = UINT4096_WORD_COUNT"
    and "wval (uint4096_zext_o bytes) = wval bytes mod range4096"
proof -
  let ?d = "drop (length bytes - 8 * UINT4096_WORD_COUNT) bytes"
  have l: "length ?d \<le> 8 * UINT4096_WORD_COUNT" by simp
  note z = uint4096_zext_o_short [OF l]
  show "length (uint4096_zext_o bytes) = UINT4096_WORD_COUNT"
    using z uint4096_zext_o_drop by simp
  have "wval bytes mod range4096 = wval ?d"
  proof (cases "8 * UINT4096_WORD_COUNT \<le> length bytes")
    case True
    then have "length ?d = 8 * UINT4096_WORD_COUNT" by simp
    then have "wval bytes = wval (take (length bytes - 8 * UINT4096_WORD_COUNT) bytes) * range4096 + wval ?d"
      and "wval ?d < range4096"
      using wval_split [of bytes "length bytes - 8 * UINT4096_WORD_COUNT"] wval_less [of ?d] True
      by (simp_all add: range4096_def)
    then show ?thesis using high_low(2) [of "wval ?d" range4096] by simp
  next
    case False
    then have "(2 :: int) ^ (8 * length bytes) \<le> 2 ^ (64 * UINT4096_WORD_COUNT)"
      by (intro power_increasing) auto
    then have "wval bytes < 2 ^ (64 * UINT4096_WORD_COUNT)"
      using wval_less [of bytes, simplified] by linarith
    with False show ?thesis by (simp add: range4096_def)
  qed
  then show "wval (uint4096_zext_o bytes) = wval bytes mod range4096"
    using z uint4096_zext_o_drop by simp
qed

lemma uint4096_compare:
  assumes "length a = UINT4096_WORD_COUNT" "length b = UINT4096_WORD_COUNT"
  shows "uint4096_eq a b \<longleftrightarrow> wval a = wval b" "uint4096_le a b \<longleftrightarrow> wval a \<le> wval b"
    "uint4096_lt a b \<longleftrightarrow> wval a < wval b" "uint4096_ge a b \<longleftrightarrow> wval a \<ge> wval b"
    "uint4096_gt a b \<longleftrightarrow> wval a > wval b"
  using assms
  by (auto simp: uint4096_eq_def uint4096_le_def uint4096_lt_def uint4096_ge_def uint4096_gt_def
      uintnwords_cmp_spec sgn_if)

section \<open>Modular multiplication, exponentiation and logarithm\<close>

text \<open>A modulus with which the reduction is correct.\<close>

definition modulus_ok :: "Modulus4096 \<Rightarrow> bool" where
  "modulus_ok m \<longleftrightarrow> mod_wf m \<and> 1 < wval (modulus m) \<and>
     wval (reciprocal m) * wval (modulus m) \<le> range4096 ^ 2"

lemma uint4096_multmod_o_correct:
  assumes m: "modulus_ok m" and ab: "length a = UINT4096_WORD_COUNT" "length b = UINT4096_WORD_COUNT"
  shows "\<exists>out. uint4096_multmod_o a b m = Some out \<and> length out = UINT4096_WORD_COUNT \<and>
    wval out = (wval a * wval b) mod wval (modulus m)"
proof -
  let ?W = UINT4096_WORD_COUNT
  note mult = mult_specD [OF uintfn_mult_spec [of UINT4096_LOG2_WORD_COUNT], folded word_count_pow,
      of "replicate (2 * ?W) 0" a b]
  have "length (uintfn_mult_o UINT4096_LOG2_WORD_COUNT (replicate (2 * ?W) 0) a b) = 2 * ?W"
    and "wval (uintfn_mult_o UINT4096_LOG2_WORD_COUNT (replicate (2 * ?W) 0) a b) = wval a * wval b"
    using mult ab by simp_all
  then show ?thesis
    unfolding uint4096_multmod_o_def
    using uint8192_mod_o_correct [of m] m by (force simp: modulus_ok_def)
qed

lemma powmod_first_word_props:
  fixes e :: "u64 list"
  assumes "max_bit \<le> UINT4096_WORD_COUNT"
  defines "i \<equiv> powmod_first_word max_bit e"
  shows "i \<le> UINT4096_WORD_COUNT" "\<And>k. max_bit \<le> k \<Longrightarrow> k < i \<Longrightarrow> e ! k = 0"
  using assms(1) unfolding i_def
proof (induction max_bit e rule: powmod_first_word.induct)
  case (1 max_bit e)
  {
    case 1
    with "1.IH"(1) show ?case
      by (subst powmod_first_word.simps) auto
  next
    case (2 k)
    show ?case
    proof (cases "max_bit < UINT4096_WORD_COUNT \<and> e ! max_bit = 0")
      case True
      then have s: "powmod_first_word max_bit e = powmod_first_word (Suc max_bit) e"
        by (subst powmod_first_word.simps) simp
      show ?thesis
        using "1.IH"(2) [OF True] True 2 s by (cases "k = max_bit") auto
    next
      case False
      then have "powmod_first_word max_bit e = max_bit"
        by (subst powmod_first_word.simps) auto
      with 2 show ?thesis by simp
    qed
  }
qed

lemma powmod_count_bits_bound: "uint w < 2 ^ (powmod_count_bits w n - n) \<and> n \<le> powmod_count_bits w n"
proof (induction w n rule: powmod_count_bits.induct)
  case (1 w n)
  show ?case
  proof (cases "w = 0")
    case True
    then show ?thesis by (subst (1 2) powmod_count_bits.simps) simp
  next
    case False
    let ?k = "powmod_count_bits (drop_bit 1 w) (Suc n)"
    have s: "powmod_count_bits w n = ?k"
      using False by (subst powmod_count_bits.simps) simp
    have ih: "uint (drop_bit 1 w) < 2 ^ (?k - Suc n)" "Suc n \<le> ?k"
      using 1 False by simp_all
    have "uint (drop_bit 1 w) = uint w div 2"
      by (simp add: uint_div drop_bit_Suc)
    then have "uint w < 2 * 2 ^ (?k - Suc n)"
      using ih(1) by linarith
    also have "\<dots> = 2 ^ (?k - n)"
      using ih(2) by (simp add: Suc_diff_le flip: power_Suc)
    finally show ?thesis using s ih(2) by simp
  qed
qed

lemma powmod_count_bits_le: "uint w < 2 ^ k \<Longrightarrow> powmod_count_bits w n \<le> n + k"
proof (induction w n arbitrary: k rule: powmod_count_bits.induct)
  case (1 w n)
  show ?case
  proof (cases "w = 0")
    case True
    then show ?thesis by (subst powmod_count_bits.simps) simp
  next
    case False
    then have "uint w \<noteq> 0" by (simp add: uint_0_iff)
    then have "k \<noteq> 0" using "1.prems" uint_ge_0 [of w] by (cases k) auto
    then obtain k' where k: "k = Suc k'" by (cases k) auto
    have "uint (drop_bit 1 w) = uint w div 2"
      by (simp add: uint_div drop_bit_Suc)
    then have "uint (drop_bit 1 w) < 2 ^ k'"
      using "1.prems" by (simp add: k)
    then show ?thesis
      using "1.IH" [of k'] False by (subst powmod_count_bits.simps) (simp add: k)
  qed
qed

lemma powmod_max_bit_bound:
  assumes e: "length e = UINT4096_WORD_COUNT"
  shows "wval e < 2 ^ powmod_max_bit e" "powmod_max_bit e \<le> 64 * UINT4096_WORD_COUNT"
proof -
  let ?W = UINT4096_WORD_COUNT
  define i where "i = powmod_first_word 0 e"
  have i: "i \<le> ?W" "\<And>k. k < i \<Longrightarrow> e ! k = 0"
    unfolding i_def using powmod_first_word_props [where max_bit = 0 and e = e] by auto
  have z: "wval (take i e) = 0"
    using i e by (auto simp: wval_eq_0_iff in_set_conv_nth)
  have "wval e < 2 ^ powmod_max_bit e \<and> powmod_max_bit e \<le> 64 * ?W"
  proof (cases "i < ?W")
    case True
    define j where "j = ?W - 1 - i"
    define b where "b = powmod_count_bits (e ! i) (j * 64)"
    have b: "powmod_max_bit e = b" "j * 64 \<le> b" "uint (e ! i) < 2 ^ (b - j * 64)"
      using True powmod_count_bits_bound [of "e ! i" "j * 64"]
      by (simp_all add: powmod_max_bit_def i_def [symmetric] j_def b_def Let_def)
    have "b \<le> j * 64 + 64"
      unfolding b_def using uint_lt2p [of "e ! i"] by (intro powmod_count_bits_le) simp
    then have bW: "b \<le> 64 * ?W" using True by (simp add: j_def)
    have lj: "length e - Suc i = j" using e by (simp add: j_def)
    have "wval e = uint (e ! i) * 2 ^ (64 * j) + wval (drop (Suc i) e)"
      using wval_nth [of i e, unfolded lj z] True e by simp
    also have "wval (drop (Suc i) e) < 2 ^ (64 * j)"
      using wval_less [of "drop (Suc i) e", unfolded length_drop lj] by simp
    then have "uint (e ! i) * 2 ^ (64 * j) + wval (drop (Suc i) e) < (uint (e ! i) + 1) * 2 ^ (64 * j)"
      by (simp add: distrib_right)
    also have "\<dots> \<le> 2 ^ (b - j * 64) * 2 ^ (64 * j)"
      using b(3) by (intro mult_right_mono) auto
    also have "\<dots> = 2 ^ b"
      using b(2) by (simp add: power_add [symmetric] mult.commute)
    finally show ?thesis using b bW by simp
  next
    case False
    then have "i = ?W" using i by simp
    then have "wval e = 0" "powmod_max_bit e = 0"
      using z e by (simp_all add: powmod_max_bit_def i_def [symmetric] Let_def powmod_count_bits.simps)
    then show ?thesis by simp
  qed
  then show "wval e < 2 ^ powmod_max_bit e" "powmod_max_bit e \<le> 64 * ?W" by auto
qed

text \<open>The invariant of square-and-multiply.\<close>

definition powmod_inv :: "int \<Rightarrow> int \<Rightarrow> int \<Rightarrow> nat \<Rightarrow> u64 list \<times> u64 list \<Rightarrow> bool" where
  "powmod_inv b x m i s \<longleftrightarrow>
     length (fst s) = UINT4096_WORD_COUNT \<and> length (snd s) = UINT4096_WORD_COUNT \<and>
     wval (fst s) = b ^ nat (x mod 2 ^ i) mod m \<and> wval (snd s) mod m = b ^ (2 ^ i) mod m"

lemma mod_two_pow_Suc: "x mod 2 ^ Suc i = x mod 2 ^ i + of_bool (bit x i) * 2 ^ i" for x :: int
  using take_bit_Suc_from_most [of i x] by (simp add: take_bit_eq_mod)

lemma powmod_step_inv:
  assumes m: "modulus_ok m" and e: "length e = UINT4096_WORD_COUNT" and i: "i < 64 * UINT4096_WORD_COUNT"
    and inv: "powmod_inv b (wval e) (wval (modulus m)) i s"
  shows "\<exists>t. powmod_step e m i s = Some t \<and> powmod_inv b (wval e) (wval (modulus m)) (Suc i) t"
proof -
  let ?W = UINT4096_WORD_COUNT and ?M = "wval (modulus m)" and ?x = "wval e"
  obtain u v where s: "s = (u, v)" by force
  have u: "length u = ?W" "wval u = b ^ nat (?x mod 2 ^ i) mod ?M"
    and v: "length v = ?W" "wval v mod ?M = b ^ (2 ^ i) mod ?M"
    using inv by (simp_all add: powmod_inv_def s)
  obtain v' where v': "uint4096_multmod_o v v m = Some v'" "length v' = ?W"
      "wval v' = (wval v * wval v) mod ?M"
    using uint4096_multmod_o_correct [OF m v(1) v(1)] by blast
  have "wval v' = (b ^ (2 ^ i) * b ^ (2 ^ i)) mod ?M"
    unfolding v'(3) by (subst (1 2) mod_mult_eq [symmetric]) (simp only: v(2))
  then have vv: "wval v' mod ?M = b ^ (2 ^ Suc i) mod ?M"
    by (simp add: power_add [symmetric] mult_2)
  have bit: "bit (e ! (?W - 1 - i div 64)) (i mod 64) = bit ?x i"
    using bit_wval [of i e] e i by simp
  show ?thesis
  proof (cases "bit ?x i")
    case False
    have "?x mod 2 ^ Suc i = ?x mod 2 ^ i" using False by (simp add: mod_two_pow_Suc del: power_Suc)
    then show ?thesis
      using False u v' vv bit
      by (simp add: powmod_step_def s powmod_inv_def del: power_Suc)
  next
    case True
    obtain u' where u': "uint4096_multmod_o u v m = Some u'" "length u' = ?W"
        "wval u' = (wval u * wval v) mod ?M"
      using uint4096_multmod_o_correct [OF m u(1) v(1)] by blast
    have "wval u' = (b ^ nat (?x mod 2 ^ i) * b ^ (2 ^ i)) mod ?M"
      unfolding u'(3) by (subst (1 2) mod_mult_eq [symmetric]) (simp only: u(2) v(2) mod_mod_trivial)
    also have "b ^ nat (?x mod 2 ^ i) * b ^ (2 ^ i) = b ^ (nat (?x mod 2 ^ i) + 2 ^ i)"
      by (simp only: power_add)
    also have "nat (?x mod 2 ^ i) + 2 ^ i = nat (?x mod 2 ^ Suc i)"
      using True by (simp add: mod_two_pow_Suc nat_add_distrib nat_power_eq del: power_Suc)
    finally show ?thesis
      using True u' v' vv bit
      by (simp add: powmod_step_def s powmod_inv_def del: power_Suc)
  qed
qed

lemma uint4096_one: "length (uint4096_zext_o [1]) = UINT4096_WORD_COUNT" "wval (uint4096_zext_o [1]) = 1"
  using uint4096_zext_o_short [of "[1]"] by (simp_all add: UINT4096_WORD_COUNT_def)

lemma uint4096_powmod_o_correct:
  assumes m: "modulus_ok m" and be: "length base = UINT4096_WORD_COUNT" "length e = UINT4096_WORD_COUNT"
  shows "\<exists>out. uint4096_powmod_o base e m = Some out \<and> length out = UINT4096_WORD_COUNT \<and>
    wval out = wval base ^ nat (wval e) mod wval (modulus m)"
proof -
  let ?M = "wval (modulus m)" and ?n = "powmod_max_bit e"
  note bound = powmod_max_bit_bound [OF be(2)]
  have "1 < ?M" using m by (simp add: modulus_ok_def)
  then have "powmod_inv (wval base) (wval e) ?M 0 (uint4096_zext_o [1], base)"
    using be uint4096_one by (simp add: powmod_inv_def)
  then have "\<exists>t. loop ?n (powmod_step e m) (uint4096_zext_o [1], base) = Some t \<and>
      powmod_inv (wval base) (wval e) ?M ?n t"
    using powmod_step_inv [OF m be(2)] bound(2) by (intro loop_total) auto
  then obtain t where t: "loop ?n (powmod_step e m) (uint4096_zext_o [1], base) = Some t"
      "powmod_inv (wval base) (wval e) ?M ?n t" by blast
  have "wval e mod 2 ^ ?n = wval e" using bound(1) by simp
  with t show ?thesis
    by (auto simp: uint4096_powmod_o_def powmod_inv_def)
qed

text \<open>
  The discrete logarithm search finds the least exponent; it does not return when there is none.
\<close>

lemma logmod_loop_correct:
  assumes m: "modulus_ok m" and l: "length base = UINT4096_WORD_COUNT" "length a = UINT4096_WORD_COUNT"
    and n: "wval a = wval base ^ n mod wval (modulus m)"
      "\<And>k. k < n \<Longrightarrow> wval base ^ k mod wval (modulus m) \<noteq> wval a"
    and s: "length s = UINT4096_WORD_COUNT" "wval s = wval base ^ k mod wval (modulus m)" "k \<le> n"
  shows "uint4096_logmod_loop base a m s (of_nat k) = Some (of_nat n)"
  using s
proof (induction "n - k" arbitrary: k s)
  case 0
  then have "k = n" by simp
  with 0 n l show ?case
    by (subst uint4096_logmod_loop.simps) (simp add: uint4096_compare)
next
  case (Suc d)
  obtain s' where s': "uint4096_multmod_o s base m = Some s'" "length s' = UINT4096_WORD_COUNT"
      "wval s' = (wval s * wval base) mod wval (modulus m)"
    using uint4096_multmod_o_correct [OF m Suc.prems(1) l(1)] by blast
  have v: "wval s' = wval base ^ Suc k mod wval (modulus m)"
    by (simp add: s'(3) Suc.prems(2) mod_mult_left_eq mod_mult_right_eq mult.commute)
  have "k < n" using Suc.hyps(2) by simp
  then have "\<not> uint4096_eq s a"
    using n(2) [of k] Suc.prems l by (simp add: uint4096_compare)
  moreover have "uint4096_logmod_loop base a m s' (of_nat (Suc k)) = Some (of_nat n)"
    using Suc.hyps(1) [of "Suc k" s'] Suc.hyps(2) s'(2) v \<open>k < n\<close> by simp
  ultimately show ?case
    by (subst uint4096_logmod_loop.simps) (simp add: s' add.commute)
qed

lemma uint4096_logmod_correct:
  assumes "modulus_ok m" "length base = UINT4096_WORD_COUNT" "length a = UINT4096_WORD_COUNT"
    and "wval a = wval base ^ n mod wval (modulus m)"
    and "\<And>k. k < n \<Longrightarrow> wval base ^ k mod wval (modulus m) \<noteq> wval a"
  shows "uint4096_logmod base a m = Some (of_nat n)"
  using logmod_loop_correct [OF assms, of "uint4096_zext_o [1]" 0] uint4096_one assms(1)
  by (simp add: uint4096_logmod_def modulus_ok_def)

section \<open>Hexadecimal output and input\<close>

fun fprint_words :: "u64 list \<Rightarrow> out_file \<Rightarrow> bool \<times> out_file" where
  "fprint_words [] f = (True, f)"
| "fprint_words (w # ws) f =
     (let (r, f') = fprintf f (fmt_016lx w)
      in if r \<noteq> 2 * 8 then (False, f') else fprint_words ws f')"

definition uint4096_fprint :: "out_file \<Rightarrow> u64 list \<Rightarrow> bool \<times> out_file" where
  "uint4096_fprint f a =
     (let (r, f') = fprintf f ''0x''
      in if r \<noteq> 2 then (False, f') else fprint_words (take UINT4096_WORD_COUNT a) f')"

function fscan_words :: "nat \<Rightarrow> string \<Rightarrow> u64 list \<Rightarrow> bool \<times> u64 list \<times> string" where
  "fscan_words i inp out =
     (if i < UINT4096_WORD_COUNT then
        case fscanf_016lx inp of
          (num_read, w, rest) \<Rightarrow>
            let out' = (case w of None \<Rightarrow> out | Some w \<Rightarrow> out[i := w])
            in if num_read \<noteq> 1 then (False, out', rest) else fscan_words (Suc i) rest out'
      else (True, out, inp))"
  by pat_completeness auto
termination
  by (relation "measure (\<lambda>(i, _, _). UINT4096_WORD_COUNT - i)") auto

declare fscan_words.simps [simp del]

definition uint4096_fscan :: "string \<Rightarrow> u64 list \<Rightarrow> bool \<times> u64 list \<times> string" where
  "uint4096_fscan inp out =
     (case fscanf_lit ''0x'' inp of
        (num_read, rest) \<Rightarrow> if num_read \<noteq> 0 then (False, out, rest) else fscan_words 0 rest out)"

definition words_text :: "u64 list \<Rightarrow> string" where
  "words_text ws = concat (map fmt_016lx ws)"

lemma length_fmt_016lx [simp]: "length (fmt_016lx w) = 16"
  by (simp add: fmt_016lx_def)

lemma fprint_words_text:
  "16 * length ws \<le> out_room f \<Longrightarrow>
     fprint_words ws f =
       (True, f\<lparr>out_text := out_text f @ words_text ws, out_room := out_room f - 16 * length ws\<rparr>)"
proof (induction ws arbitrary: f)
  case Nil
  then show ?case by (simp add: words_text_def)
next
  case (Cons w ws)
  have "length (fmt_016lx w) \<le> out_room f" using Cons.prems by simp
  with Cons show ?case
    by (simp add: fprintf_room words_text_def)
qed

lemma fscan_words_text:
  assumes "length ws = UINT4096_WORD_COUNT" "length out = UINT4096_WORD_COUNT" "i \<le> UINT4096_WORD_COUNT"
  shows "fscan_words i (words_text (drop i ws) @ rest) out = (True, take i out @ drop i ws, rest)"
  using assms
proof (induction "UINT4096_WORD_COUNT - i" arbitrary: i out)
  case 0
  then show ?case by (subst fscan_words.simps) (simp add: words_text_def)
next
  case (Suc d)
  then have i: "i < UINT4096_WORD_COUNT" by simp
  have d: "drop i ws = ws ! i # drop (Suc i) ws"
    using i Suc.prems by (simp add: Cons_nth_drop_Suc)
  have "fscan_words i (words_text (drop i ws) @ rest) out
      = fscan_words (Suc i) (words_text (drop (Suc i) ws) @ rest) (out[i := ws ! i])"
    using i by (subst fscan_words.simps) (simp add: d words_text_def fscanf_fmt_016lx)
  also have "\<dots> = (True, take (Suc i) (out[i := ws ! i]) @ drop (Suc i) ws, rest)"
    using Suc.hyps(1) [of "Suc i" "out[i := ws ! i]"] Suc.hyps(2) Suc.prems i by simp
  also have "take (Suc i) (out[i := ws ! i]) = take i out @ [ws ! i]"
    using i Suc.prems by (simp add: take_Suc_conv_app_nth)
  finally show ?case by (simp add: d)
qed

text \<open>What is printed is read back.\<close>

lemma uint4096_fprint_fscan:
  assumes "length a = UINT4096_WORD_COUNT" "length out = UINT4096_WORD_COUNT"
    and "2 + 16 * UINT4096_WORD_COUNT \<le> out_room f"
  shows "\<exists>t f'. uint4096_fprint f a = (True, f') \<and> out_text f' = out_text f @ t \<and>
    uint4096_fscan (t @ rest) out = (True, a, rest)"
proof -
  have r: "length ''0x'' \<le> out_room f" using assms(3) by simp
  have fp: "\<exists>f'. uint4096_fprint f a = (True, f') \<and> out_text f' = out_text f @ ''0x'' @ words_text a"
    using assms fprintf_room [OF r] by (simp add: uint4096_fprint_def fprint_words_text)
  have "fscanf_lit ''0x'' ((''0x'' @ words_text a) @ rest) = (0, words_text a @ rest)"
    using fscanf_lit_match [of "''0x''" "words_text a @ rest"] by simp
  then have "uint4096_fscan ((''0x'' @ words_text a) @ rest) out = (True, a, rest)"
    using fscan_words_text [of a out 0 rest] assms by (simp add: uint4096_fscan_def)
  with fp show ?thesis by blast
qed

section \<open>Allocating wrappers\<close>

text \<open>
  A wrapper returns a null pointer (the inner \<open>None\<close>) exactly when \<open>malloc\<close> does; the outer
  option is the outcome of the operation itself.
\<close>

definition UINT4096_SIZE_BYTES :: nat where
  "UINT4096_SIZE_BYTES = 512"

definition uint4096_zext :: "env \<Rightarrow> u8 list \<Rightarrow> u64 list option" where
  "uint4096_zext E bytes =
     (case malloc E UINT4096_SIZE_BYTES of None \<Rightarrow> None | Some _ \<Rightarrow> Some (uint4096_zext_o bytes))"

definition uint4096_downcast :: "env \<Rightarrow> Modulus4096 \<Rightarrow> u64 list option" where
  "uint4096_downcast E m =
     (case malloc E UINT4096_SIZE_BYTES of None \<Rightarrow> None | Some _ \<Rightarrow> Some (uint4096_downcast_o m))"

definition uint4096_multmod ::
    "env \<Rightarrow> u64 list \<Rightarrow> u64 list \<Rightarrow> Modulus4096 \<Rightarrow> u64 list option option" where
  "uint4096_multmod E a b m =
     (case malloc E UINT4096_SIZE_BYTES of
        None \<Rightarrow> Some None
      | Some _ \<Rightarrow> map_option Some (uint4096_multmod_o a b m))"

definition uint4096_powmod ::
    "env \<Rightarrow> u64 list \<Rightarrow> u64 list \<Rightarrow> Modulus4096 \<Rightarrow> u64 list option option" where
  "uint4096_powmod E base exponent m =
     (case malloc E UINT4096_SIZE_BYTES of
        None \<Rightarrow> Some None
      | Some _ \<Rightarrow> map_option Some (uint4096_powmod_o base exponent m))"

definition uint4096_copy :: "env \<Rightarrow> u64 list \<Rightarrow> u64 list option" where
  "uint4096_copy E src =
     (case malloc E UINT4096_SIZE_BYTES of None \<Rightarrow> None | Some _ \<Rightarrow> Some (uint4096_copy_o src))"

section \<open>Static data\<close>

definition p_4 :: Modulus4096 where
  "p_4 =
     \<lparr>modulus = replicate 59 0xffffffffffffffff @
         [0xffffffffffffffba, 0xffffffffffffffff, 0xffffffffffffffff, 0xfe0175e30b1b0e79,
          0x1db502994f24dfb1],
      reciprocal = replicate 63 0 @ [1] @
         [0x0000000000000000, 0x36f0255dde973dcb, 0x4703ce7e2e815197, 0xa6db0f588448b611,
          0x64cfcac5f1872e51, 0xb1f9fbb5bf16fbe7, 0x9689fc0903a801e3, 0xd4802fb8d329550d,
          0xc8c9d3d922eece9a, 0x5475db33db7b83bb, 0x5c0e13d168049bbc, 0x86c5817647b088d1,
          0x7aa5cc40e0203558, 0x8edb2de189934137, 0x19fc258d79bc217a, 0xc4b8739cbea038aa,
          0xa88d0d2f78a77a8a, 0x6fc7faa8b2bdca9b, 0xe7502d2f5f6a7b65, 0xf5e4f07ab8b286e4,
          0x1115f024a6e976bd, 0x2bce3e5190b891ab, 0xbf2331e9c94de91f, 0xbe8574370494a354,
          0xeac9be0b31eb3185, 0x40e4069d556e9dd0, 0x9d5d89d7de4a75c8, 0x8bb49316c106e4e0,
          0x14b636e60febc292, 0xe6249105f5b195fe, 0x906eef7d26caf052, 0x9a3e0bc10e100ce0,
          0xa899c59999bf877d, 0xba72c59bf5ccf326, 0x2eb59041e144783a, 0xee4cd860ee0b6450,
          0x6dab2569611baddb, 0x6b78e82043041716, 0xdec14cc95569811e, 0x498fdec9d54bd071,
          0x1ec97a0b25201c17, 0x763900498b0f0308, 0x746d18ceedb565ff, 0x29964afa53e3c1b9,
          0x67ed5909172fb4d7, 0xf345a315c4768765, 0x5294f5e127281391, 0x0c258e7e91556ce5,
          0xc145e09dae0a5c7e, 0xede843f90f5da834, 0x399a4ecb4b05f36f, 0xe586abcaef7fa12e,
          0x18b7f0a5564a1616, 0x5d4680fe70fc2a3f, 0xedfd7374a1d9ca9a, 0xefbddf3f3060e354,
          0x8e1cd71ea518f66b, 0x9725efec54aedb55, 0xae1cf670c7e28d82, 0x07f6d09e269060e5,
          0x591a0721adfea421, 0x8e27da72bf177212, 0x072053629d931252, 0xc14ab0ddcc03aa20]\<rparr>"

definition g_4 :: "u64 list" where
  "g_4 = replicate 63 0 @ [2]"

definition q_4 :: "u64 list" where
  "q_4 = [0xffffffffffffffff, 0xffffffffffffffff, 0xffffffffffffffff, 0xffffffffffffff43] @ replicate 60 0"

text \<open>
  The multiplication modulo the default modulus. The stored reciprocal is larger than
  \<open>2^8192 / modulus\<close> in its 67th bit after the leading one, so for every product of
  at least \<open>2^4164\<close> the quotient estimate overshoots, the difference wraps around modulo
  \<open>2^8192\<close>, and the residue that comes out is another one.
\<close>

lemma uint_max_word: "uint (0xffffffffffffffff :: u64) = 2 ^ 64 - 1"
  by simp

lemma wval_replicate_max: "wval (replicate n (0xffffffffffffffff :: u64)) = 2 ^ (64 * n) - 1"
proof (induction n)
  case (Suc n)
  have "LENGTH(64) = 64" by simp
  then show ?case
    unfolding replicate_Suc wval.simps Suc uint_max_word length_replicate mult_Suc_right power_add
    by (simp only: left_diff_distrib)
qed simp

lemma p_4_modulus:
  "length (modulus p_4) = UINT4096_WORD_COUNT"
  "wval (modulus p_4) = range4096 - 0x450000000000000000000000000000000001fe8a1cf4e4f186e24afd66b0db204f"
proof -
  show "length (modulus p_4) = UINT4096_WORD_COUNT"
    by (simp add: p_4_def UINT4096_WORD_COUNT_def)
  let ?t = "[0xffffffffffffffba, 0xffffffffffffffff, 0xffffffffffffffff, 0xfe0175e30b1b0e79,
          0x1db502994f24dfb1] :: u64 list"
  have "wval (modulus p_4) = (2 ^ (64 * 59) - 1) * 2 ^ 320 + wval ?t"
    by (simp only: p_4_def Modulus4096.simps wval_append wval_replicate_max) simp
  also have "(2 ^ (64 * 59) - 1) * 2 ^ 320 = range4096 - 2 ^ 320"
    unfolding range4096_def UINT4096_WORD_COUNT_def left_diff_distrib power_add [symmetric] by simp
  also have "wval ?t = 2 ^ 320 - 0x450000000000000000000000000000000001fe8a1cf4e4f186e24afd66b0db204f"
    by simp
  finally show "wval (modulus p_4)
      = range4096 - 0x450000000000000000000000000000000001fe8a1cf4e4f186e24afd66b0db204f"
    by simp
qed

lemma p_4_reciprocal:
  defines "D \<equiv> 2 ^ 4029 :: int"
  shows "length (reciprocal p_4) = 2 * UINT4096_WORD_COUNT"
    and "range4096 = 2 ^ 67 * D" and "2 ^ 363 \<le> D"
    and "range4096 + D \<le> wval (reciprocal p_4)" and "wval (reciprocal p_4) < range4096 + 2 * D"
proof -
  show "length (reciprocal p_4) = 2 * UINT4096_WORD_COUNT"
    by (simp add: p_4_def UINT4096_WORD_COUNT_def)
  define K :: int where "K = 2 ^ (64 * 62)"
  have K: "range4096 = 2 ^ 128 * K" "D = 2 ^ 61 * K"
    unfolding range4096_def UINT4096_WORD_COUNT_def D_def K_def power_add [symmetric] by simp_all
  then show "range4096 = 2 ^ 67 * D" by simp
  show "2 ^ 363 \<le> D"
    unfolding D_def by (intro power_increasing) auto
  obtain T where T: "reciprocal p_4 = replicate 63 0 @ [1, 0, 0x36f0255dde973dcb] @ T" "length T = 62"
    by (simp add: p_4_def)
  have "wval (reciprocal p_4) = wval ([1, 0, 0x36f0255dde973dcb] @ T)"
    by (simp only: T wval_zeros_append)
  also have "\<dots> = (2 ^ 128 + 0x36f0255dde973dcb) * K + wval T"
    unfolding wval_append T(2) by (simp add: K_def)
  finally have v: "wval (reciprocal p_4) = range4096 + 0x36f0255dde973dcb * K + wval T"
    by (simp add: K distrib_right)
  have K0: "0 \<le> K" by (simp add: K_def)
  have t: "0 \<le> wval T" "wval T < K"
    using wval_less [of T] T(2) by (simp_all add: K_def)
  show "range4096 + D \<le> wval (reciprocal p_4)"
    using v t K0 by (simp add: K(2))
  show "wval (reciprocal p_4) < range4096 + 2 * D"
    using v t K0 by (simp add: K(2))
qed

lemma large_reciprocal:
  fixes B D r m c :: int
  assumes "B = 2 ^ 67 * D" "2 ^ 363 \<le> D" "m = B - c" "0 \<le> c" "c < 2 ^ 263"
    and "B + D \<le> r" "r < B + 2 * D"
  shows "B\<^sup>2 + 2 ^ 66 * D\<^sup>2 \<le> r * m" "r * m < 2 * B\<^sup>2"
proof -
  have D: "0 < D" using assms(2) by (smt (verit) zero_less_power)
  have cD: "2 ^ 100 * c \<le> D" using assms by simp
  have m: "0 \<le> m" "m \<le> B" using assms D cD by simp_all
  have DD: "0 \<le> D\<^sup>2" by simp
  have "D * c \<le> D * D" "B * c \<le> 2 ^ 67 * D * c"
    using D cD assms by (simp_all add: mult_left_mono)
  have cDD: "2 ^ 100 * (D * c) \<le> D\<^sup>2"
    using mult_left_mono [OF cD, of D] D by (simp add: power2_eq_square mult.assoc mult.left_commute)
  have "(B + D) * m \<le> r * m" using assms m by (intro mult_right_mono) auto
  moreover have "(B + D) * m = B\<^sup>2 + 2 ^ 67 * D\<^sup>2 - 2 ^ 67 * (D * c) - D * c"
    unfolding assms(1,3) by (simp add: power2_eq_square algebra_simps)
  moreover have "2 ^ 67 * Y + Y \<le> 2 ^ 67 * X - 2 ^ 66 * X" if "2 ^ 100 * Y \<le> X" "0 \<le> X" for X Y :: int
    using that by simp
  ultimately show "B\<^sup>2 + 2 ^ 66 * D\<^sup>2 \<le> r * m"
    using cDD DD by (smt (verit))
  have "r * m \<le> (B + 2 * D) * m" using assms m by (intro mult_right_mono) auto
  also have "\<dots> \<le> (B + 2 * D) * B" using assms m D by (intro mult_left_mono) auto
  also have "\<dots> = B\<^sup>2 + 2 ^ 68 * D\<^sup>2"
    unfolding assms(1) by (simp add: power2_eq_square algebra_simps)
  also have "\<dots> < 2 * B\<^sup>2"
    unfolding assms(1) using D by (simp add: power2_eq_square)
  finally show "r * m < 2 * B\<^sup>2" .
qed

lemma overshoot:
  fixes B D r m a :: int
  assumes "B = 2 ^ 67 * D" "0 < D" "0 < m" "m \<le> B"
    and "B\<^sup>2 + 2 ^ 66 * D\<^sup>2 \<le> r * m" "r * m < 2 * B\<^sup>2"
    and a: "2 ^ 68 * B \<le> a" "a < B\<^sup>2"
  defines "q \<equiv> (a * r) div B\<^sup>2"
  shows "a < q * m" "q * m - a \<le> B\<^sup>2"
proof -
  have B: "0 < B" "0 < B\<^sup>2" using assms by simp_all
  have a0: "0 \<le> a" using a B by simp
  have q: "q * B\<^sup>2 \<le> a * r" "a * r - B\<^sup>2 < q * B\<^sup>2"
    using div_mult_mod_eq [of "a * r" "B\<^sup>2"] pos_mod_sign [OF B(2), of "a * r"] pos_mod_bound [OF B(2), of "a * r"]
    unfolding q_def by linarith+
  have "B * B\<^sup>2 \<le> a * (2 ^ 66 * D\<^sup>2)"
  proof -
    have "(2 ^ 68 * B) * (2 ^ 66 * D\<^sup>2) \<le> a * (2 ^ 66 * D\<^sup>2)"
      using a by (intro mult_right_mono) auto
    then show ?thesis using assms(1) by (simp add: power2_eq_square)
  qed
  moreover have "m * B\<^sup>2 \<le> B * B\<^sup>2"
    using assms by (intro mult_right_mono) auto
  moreover have "a * (B\<^sup>2 + 2 ^ 66 * D\<^sup>2) \<le> a * (r * m)"
    using assms a0 by (intro mult_left_mono) auto
  moreover have "(a * r - B\<^sup>2) * m < (q * B\<^sup>2) * m"
    using q(2) assms(3) by (intro mult_strict_right_mono) auto
  ultimately have "a * B\<^sup>2 < (q * m) * B\<^sup>2"
    by (simp add: algebra_simps)
  then show "a < q * m" using B by simp
  have "(q * m) * B\<^sup>2 \<le> a * (r * m)"
    using mult_right_mono [OF q(1), of m] assms(3) by (simp add: mult.assoc mult.commute mult.left_commute)
  also have "\<dots> \<le> a * (2 * B\<^sup>2)"
    using assms(6) a0 by (intro mult_left_mono) auto
  finally have "q * m \<le> 2 * a" using B by simp
  then show "q * m - a \<le> B\<^sup>2" using a by simp
qed

lemma default_modulus_odd: "coprime (wval (modulus p_4)) (range4096 ^ 2)"
proof -
  have "odd (wval (modulus p_4))"
    by (simp add: p_4_modulus(2) range4096_def UINT4096_WORD_COUNT_def del: power_numeral)
  then show ?thesis
    by (simp add: range4096_def)
qed

lemma default_modulus_wrong:
  assumes ab: "length a = UINT4096_WORD_COUNT" "length b = UINT4096_WORD_COUNT"
    and big: "2 ^ 68 * range4096 \<le> wval a * wval b"
  shows "\<exists>out. uint4096_multmod_o a b p_4 = Some out \<and>
    wval out \<noteq> (wval a * wval b) mod wval (modulus p_4)"
proof -
  let ?W = UINT4096_WORD_COUNT and ?M = "wval (modulus p_4)" and ?B = range4096
  let ?r = "wval (reciprocal p_4)" and ?a = "wval a * wval b"
  define D :: int where "D = 2 ^ 4029"
  note r = p_4_reciprocal [folded D_def]
  note M = p_4_modulus
  have D: "0 < D" by (simp add: D_def)
  have lr: "?B\<^sup>2 + 2 ^ 66 * D\<^sup>2 \<le> ?r * ?M" "?r * ?M < 2 * ?B\<^sup>2"
    by (rule large_reciprocal [OF r(2,3) M(2) _ _ r(4,5)]; simp)+
  have Mb: "0 < ?M" "?M \<le> ?B" "1 < ?M" using M(2) r(2,3) by simp_all
  have aless: "?a < ?B\<^sup>2"
    using wval_less [of a] wval_less [of b] ab
    by (auto simp: range4096_def power2_eq_square intro!: mult_strict_mono)
  define q where "q = (?a * ?r) div ?B\<^sup>2"
  note o = overshoot [OF r(2) D Mb(1,2) lr big aless, folded q_def]
  define x where "x = uintfn_mult_o UINT4096_LOG2_WORD_COUNT (replicate (2 * ?W) 0) a b"
  have x: "length x = 2 * ?W" "wval x = ?a"
    using mult_specD [OF uintfn_mult_spec [of UINT4096_LOG2_WORD_COUNT], folded word_count_pow,
      of "replicate (2 * ?W) 0" a b] ab by (simp_all add: x_def)
  have wf: "mod_wf p_4" using M r by (simp add: mod_wf_def)
  have "wval (barrett_estimate x p_4) = (?a - q * ?M) mod ?B\<^sup>2"
    using barrett_estimate_value(2) [OF wf x(1)] by (simp add: x q_def)
  also have "\<dots> = (?a - q * ?M + ?B\<^sup>2) mod ?B\<^sup>2" by simp
  also have "\<dots> = ?a - q * ?M + ?B\<^sup>2"
    using o by (intro mod_pos_pos_trivial) auto
  finally have e: "wval (barrett_estimate x p_4) = ?a + ?B\<^sup>2 - q * ?M" by simp
  obtain out where out: "uint8192_mod_o x p_4 = Some out"
      "wval out = (?a + ?B\<^sup>2 - q * ?M) mod ?M"
    using uint8192_mod_o_value [OF wf Mb(1) x(1)] e by auto
  have "wval out \<noteq> ?a mod ?M"
  proof
    assume "wval out = ?a mod ?M"
    then have "?M dvd (?a + ?B\<^sup>2 - q * ?M) - ?a"
      by (simp only: out(2) mod_eq_dvd_iff)
    then have "?M dvd ?B\<^sup>2 - q * ?M" by simp
    then have "?M dvd (?B\<^sup>2 - q * ?M) + q * ?M" by (rule dvd_add) simp
    then have "?M dvd ?B\<^sup>2" by simp
    then have "is_unit ?M" using default_modulus_odd by (metis coprime_absorb_left)
    with Mb(3) show False by simp
  qed
  with out show ?thesis by (auto simp: uint4096_multmod_o_def x_def)
qed

text \<open>The order \<open>q\<close> is stored in the leading words of its array.\<close>

lemma q_4_shifted: "wval q_4 = (2 ^ 256 - 189) * 2 ^ 3840"
proof -
  have "wval q_4 = wval [0xffffffffffffffff, 0xffffffffffffffff, 0xffffffffffffffff, 0xffffffffffffff43 :: u64]
      * 2 ^ 3840"
    unfolding q_4_def wval_append wval_replicate_0 by simp
  then show ?thesis by simp
qed

section \<open>Properties\<close>

definition example_modulus :: Modulus4096 where
  "example_modulus =
     \<lparr>modulus = 0x8000000000000000 # replicate 63 0, reciprocal = replicate 63 0 @ [2] @ replicate 64 0\<rparr>"

lemma example_modulus_ok: "modulus_ok example_modulus" "wval (modulus example_modulus) = 2 ^ 4095"
proof -
  have v: "wval (modulus example_modulus) = 2 ^ 63 * 2 ^ (64 * 63)"
    by (simp only: example_modulus_def Modulus4096.simps wval.simps wval_replicate_0 length_replicate) simp
  have "wval (reciprocal example_modulus) = 2 * 2 ^ (64 * 64)"
    by (simp only: example_modulus_def Modulus4096.simps wval_zeros_append wval_append wval_replicate_0
        length_replicate) simp
  moreover have "(2 :: int) * 2 ^ (64 * 64) * (2 ^ 63 * 2 ^ (64 * 63)) \<le> (2 ^ (64 * 64))\<^sup>2"
    by (simp only: power_Suc [symmetric] power_add [symmetric] power_mult [symmetric]) simp
  moreover have "mod_wf example_modulus"
    by (simp add: mod_wf_def example_modulus_def UINT4096_WORD_COUNT_def)
  moreover have "(1 :: int) < 2 ^ 63 * 2 ^ (64 * 63)"
    by (simp only: power_add [symmetric]) simp
  ultimately show "modulus_ok example_modulus"
    using v by (simp only: modulus_ok_def range4096_def UINT4096_WORD_COUNT_def)
  show "wval (modulus example_modulus) = 2 ^ 4095"
    unfolding v power_add [symmetric] by simp
qed

definition small_number :: "u64 \<Rightarrow> u64 list" where
  "small_number w = replicate 63 0 @ [w]"

lemma small_number_props: "length (small_number w) = UINT4096_WORD_COUNT" "wval (small_number w) = uint w"
  by (simp_all add: small_number_def UINT4096_WORD_COUNT_def)

text \<open>Barrett reduction behind a 4096-bit product: when the stored reciprocal is at most
  \<open>2^8192 / modulus\<close>, \<open>uint4096_multmod_o\<close> returns, and returns the product modulo the modulus.\<close>

theorem uint4096_multmod_correct:
  assumes "modulus_ok m" "length a = UINT4096_WORD_COUNT" "length b = UINT4096_WORD_COUNT"
  shows "\<exists>out. uint4096_multmod_o a b m = Some out \<and> length out = UINT4096_WORD_COUNT \<and>
    wval out = (wval a * wval b) mod wval (modulus m)"
  using assms by (rule uint4096_multmod_o_correct)

theorem uint4096_multmod_correct_witness:
  "\<exists>out. uint4096_multmod_o (small_number 3) (small_number 5) example_modulus = Some out \<and>
     length out = UINT4096_WORD_COUNT \<and> wval out = (3 * 5) mod 2 ^ 4095"
  using uint4096_multmod_correct [OF example_modulus_ok(1) small_number_props(1) small_number_props(1), of 3 5]
  by (simp only: small_number_props(2) example_modulus_ok(2)) simp

text \<open>With the exact reciprocal \<open>\<lfloor>2^8192 / modulus\<rfloor>\<close> the correction loop of
  \<open>uint8192_mod_o\<close> runs at most once: the estimate it starts from is below twice the modulus and
  congruent to the argument.\<close>

theorem barrett_runs_once:
  assumes "mod_wf m" "0 < wval (modulus m)" "length a = 2 * UINT4096_WORD_COUNT"
    and "wval (reciprocal m) = range4096\<^sup>2 div wval (modulus m)"
  shows "wval (barrett_estimate a m) < 2 * wval (modulus m) \<and>
    wval (barrett_estimate a m) mod wval (modulus m) = wval a mod wval (modulus m)"
proof -
  let ?m = "wval (modulus m)" and ?r = "wval (reciprocal m)"
  have r: "?r * ?m \<le> range4096\<^sup>2" "range4096\<^sup>2 - ?m < ?r * ?m"
    using div_mult_mod_eq [of "range4096\<^sup>2" ?m] pos_mod_sign [OF assms(2), of "range4096\<^sup>2"]
      pos_mod_bound [OF assms(2), of "range4096\<^sup>2"]
    unfolding assms(4) by linarith+
  show ?thesis
    using barrett_estimate_exact [OF assms(1-3) r(1)] r(2) by (auto simp: mod_diff_eq [symmetric, of "wval a"])
qed

theorem barrett_runs_once_witness:
  "wval (barrett_estimate (replicate (2 * UINT4096_WORD_COUNT) 1) example_modulus)
     < 2 * wval (modulus example_modulus) \<and>
   wval (barrett_estimate (replicate (2 * UINT4096_WORD_COUNT) 1) example_modulus)
     mod wval (modulus example_modulus)
     = wval (replicate (2 * UINT4096_WORD_COUNT) (1 :: u64)) mod wval (modulus example_modulus)"
proof -
  have m: "mod_wf example_modulus" "0 < wval (modulus example_modulus)"
    using example_modulus_ok(1) by (simp_all add: modulus_ok_def)
  have r: "wval (reciprocal example_modulus) = 2 * 2 ^ (64 * 64)"
    by (simp only: example_modulus_def Modulus4096.simps wval_zeros_append wval_append wval_replicate_0
        length_replicate) simp
  have "(2 :: int) * 2 ^ (64 * 64) * 2 ^ 4095 = range4096\<^sup>2"
    unfolding range4096_def UINT4096_WORD_COUNT_def
    by (simp only: power_Suc [symmetric] power_add [symmetric] power_mult [symmetric]) simp
  moreover have "x * y div y = x" if "0 < y" for x y :: int
    using that by simp
  ultimately have "wval (reciprocal example_modulus) = range4096\<^sup>2 div wval (modulus example_modulus)"
    using m(2) unfolding r example_modulus_ok(2) by metis
  then show ?thesis
    by (rule barrett_runs_once [OF m length_replicate])
qed

text \<open>C11: Square-and-multiply: \<open>uint4096_powmod_o\<close> returns, and returns the power modulo the modulus,
  for every base and exponent (the base need not be reduced).\<close>

theorem uint4096_powmod_correct:
  assumes "modulus_ok m" "length base = UINT4096_WORD_COUNT" "length e = UINT4096_WORD_COUNT"
  shows "\<exists>out. uint4096_powmod_o base e m = Some out \<and> length out = UINT4096_WORD_COUNT \<and>
    wval out = wval base ^ nat (wval e) mod wval (modulus m)"
  using assms by (rule uint4096_powmod_o_correct)

theorem uint4096_powmod_correct_witness:
  "\<exists>out. uint4096_powmod_o (small_number 3) (small_number 5) example_modulus = Some out \<and>
     length out = UINT4096_WORD_COUNT \<and> wval out = 3 ^ 5 mod 2 ^ 4095"
  using uint4096_powmod_correct [OF example_modulus_ok(1) small_number_props(1) small_number_props(1), of 3 5]
  by (simp only: small_number_props(2) example_modulus_ok(2)) simp

text \<open>C27: With the modulus and reciprocal stored in the file, every product of at least \<open>2^4164\<close>
  is reduced to a wrong residue.\<close>

theorem default_modulus_multmod_wrong:
  assumes "length a = UINT4096_WORD_COUNT" "length b = UINT4096_WORD_COUNT"
    and "2 ^ 68 * range4096 \<le> wval a * wval b"
  shows "\<exists>out. uint4096_multmod_o a b p_4 = Some out \<and>
    wval out \<noteq> (wval a * wval b) mod wval (modulus p_4)"
  using assms by (rule default_modulus_wrong)

theorem default_modulus_multmod_wrong_witness:
  "\<exists>a b out. uint4096_multmod_o a b p_4 = Some out \<and>
    wval out \<noteq> (wval a * wval b) mod wval (modulus p_4)"
proof -
  let ?a = "0x8000000000000000 # replicate 63 0 :: u64 list"
  let ?b = "replicate 62 0 @ [0x20, 0] :: u64 list"
  have "wval ?a = 2 ^ 63 * 2 ^ (64 * 63)" "wval ?b = 2 ^ 69"
    by (simp_all only: wval.simps wval_replicate_0 length_replicate wval_zeros_append) simp_all
  moreover have "(2 :: int) ^ 68 * range4096 \<le> (2 ^ 63 * 2 ^ (64 * 63)) * 2 ^ 69"
    unfolding range4096_def UINT4096_WORD_COUNT_def power_add [symmetric] by simp
  ultimately have "2 ^ 68 * range4096 \<le> wval ?a * wval ?b" by simp
  moreover have "length ?a = UINT4096_WORD_COUNT" "length ?b = UINT4096_WORD_COUNT"
    by (simp_all add: UINT4096_WORD_COUNT_def)
  ultimately show ?thesis
    using default_modulus_multmod_wrong [of ?a ?b] by blast
qed

text \<open>C28: Hexadecimal output and input: a number printed to a stream with room for its 1026 characters
  is read back from the text that was appended, and reading stops right after it.\<close>

theorem uint4096_print_scan:
  assumes "length a = UINT4096_WORD_COUNT" "length out = UINT4096_WORD_COUNT"
    and "2 + 16 * UINT4096_WORD_COUNT \<le> out_room f"
  shows "\<exists>t f'. uint4096_fprint f a = (True, f') \<and> out_text f' = out_text f @ t \<and>
    uint4096_fscan (t @ rest) out = (True, a, rest)"
  using assms by (rule uint4096_fprint_fscan)

theorem uint4096_print_scan_witness:
  "\<exists>t f'. uint4096_fprint \<lparr>out_text = ''n = '', out_room = 2000\<rparr> (small_number 77) = (True, f') \<and>
     out_text f' = ''n = '' @ t \<and>
     uint4096_fscan (t @ '' end'') (small_number 0) = (True, small_number 77, '' end'')"
  using uint4096_print_scan [OF small_number_props(1) small_number_props(1),
      of "\<lparr>out_text = ''n = '', out_room = 2000\<rparr>" 77 "'' end''" 0]
  by (simp add: UINT4096_WORD_COUNT_def)

text \<open>Bytes, most significant first, are converted to the number they denote; of more than 512
  bytes only the last 512 count.\<close>

theorem uint4096_zext_correct:
  "length (uint4096_zext_o bytes) = UINT4096_WORD_COUNT \<and>
   wval (uint4096_zext_o bytes) = wval bytes mod range4096"
  using uint4096_zext_o_correct by simp

end
