(* ===== verification/RandomSource.thy ===== *)
theory RandomSource
  imports Uint4096_Mod Bignum
begin

text \<open>
  \<open>src/electionguard/random_source.c\<close>. The random device is the list of the bytes it will still
  deliver (reading it past the end fails, as \<open>fread\<close> does on a device error), so that every
  rejection loop ends: with an accepted sample or with an I/O error. Opening the device yields
  such a list, or \<open>None\<close> when \<open>fopen\<close> fails.
\<close>

datatype RandomSource_status =
    RANDOM_SOURCE_SUCCESS | RANDOM_SOURCE_INSUFFICIENT_MEMORY | RANDOM_SOURCE_IO_ERROR

type_synonym random_source = "u8 list"

definition RandomSource_new ::
    "env \<Rightarrow> random_source option \<Rightarrow> RandomSource_status \<times> random_source option" where
  "RandomSource_new E dev_random =
     (case malloc E 8 of
        None \<Rightarrow> (RANDOM_SOURCE_INSUFFICIENT_MEMORY, None)
      | Some _ \<Rightarrow>
          case dev_random of
            None \<Rightarrow> (RANDOM_SOURCE_IO_ERROR, None)
          | Some s \<Rightarrow> (RANDOM_SOURCE_SUCCESS, Some s))"

text \<open>\<open>fread(buf, n, 1, f)\<close>: the whole item or nothing.\<close>

definition fread_item :: "nat \<Rightarrow> random_source \<Rightarrow> (u8 list \<times> random_source) option" where
  "fread_item n s = (if n \<le> length s then Some (take n s, drop n s) else None)"

text \<open>The byte reader ignores a failure and returns an indeterminate byte (\<open>None\<close>).\<close>

definition RandomSource_get_byte :: "random_source \<Rightarrow> (u8 \<times> random_source) option" where
  "RandomSource_get_byte s =
     (case fread_item 1 s of Some (b, s') \<Rightarrow> Some (hd b, s') | None \<Rightarrow> None)"

lemma fread_item_shorter: "fread_item n s = Some (b, s') \<Longrightarrow> 0 < n \<Longrightarrow> length s' < length s"
  by (auto simp: fread_item_def split: if_splits)

function RandomSource_uniform_o ::
    "random_source \<Rightarrow> u64 list \<Rightarrow> RandomSource_status \<times> u64 list \<times> random_source" where
  "RandomSource_uniform_o s out =
     (case fread_item UINT4096_SIZE_BYTES s of
        None \<Rightarrow> (RANDOM_SOURCE_IO_ERROR, out, s)
      | Some (raw_bytes, s') \<Rightarrow>
          let out = uint4096_zext_o raw_bytes
          in if uint4096_le out (uint4096_zext_o []) \<or> \<not> uint4096_lt out (modulus p_4)
             then RandomSource_uniform_o s' out
             else (RANDOM_SOURCE_SUCCESS, out, s'))"
  by pat_completeness auto
termination
  by (relation "measure (\<lambda>(s, out). length s)")
    (auto intro: fread_item_shorter simp: UINT4096_SIZE_BYTES_def)

declare RandomSource_uniform_o.simps [simp del]

definition RandomSource_uniform ::
    "env \<Rightarrow> random_source \<Rightarrow> RandomSource_status \<times> u64 list \<times> random_source" where
  "RandomSource_uniform E s =
     (case uint4096_zext E [] of
        None \<Rightarrow> (RANDOM_SOURCE_INSUFFICIENT_MEMORY, [], s)
      | Some result \<Rightarrow> RandomSource_uniform_o s result)"

text \<open>The number is assigned only on success.\<close>

definition RandomSource_uniform_bignum_o ::
    "env \<Rightarrow> int \<Rightarrow> random_source \<Rightarrow> RandomSource_status \<times> int \<times> random_source" where
  "RandomSource_uniform_bignum_o E out s =
     (let (status, result, s') = RandomSource_uniform E s
      in if status = RANDOM_SOURCE_SUCCESS then (status, import_uint4096 E result, s')
         else (status, out, s'))"

text \<open>
  The code compares the results of \<open>mpz_cmp\<close> and \<open>mpz_cmp_ui\<close> with 1 and -1, of which GMP documents only the signs; the
  model takes the signs.
\<close>

function RandomSource_uniform_bignum_o_q ::
    "env \<Rightarrow> params \<Rightarrow> int \<Rightarrow> random_source \<Rightarrow> RandomSource_status \<times> int \<times> random_source" where
  "RandomSource_uniform_bignum_o_q E G out s =
     (case fread_item 32 s of
        None \<Rightarrow> (RANDOM_SOURCE_IO_ERROR, out, s)
      | Some (raw_bytes, s') \<Rightarrow>
          let out = mpz_import_u8 E raw_bytes
          in if out < 0 \<or> par_q G < out then RandomSource_uniform_bignum_o_q E G out s'
             else (RANDOM_SOURCE_SUCCESS, out, s'))"
  by pat_completeness auto
termination
  by (relation "measure (\<lambda>(E, G, out, s). length s)") (auto intro: fread_item_shorter)

declare RandomSource_uniform_bignum_o_q.simps [simp del]

section \<open>What the samplers return\<close>

text \<open>
  A successful sample of \<open>RandomSource_uniform_o\<close> lies strictly between 0 and the default modulus.
\<close>

lemma uniform_o_range:
  "RandomSource_uniform_o s out = (RANDOM_SOURCE_SUCCESS, r, s') \<Longrightarrow>
     length r = UINT4096_WORD_COUNT \<and> 0 < wval r \<and> wval r < wval (modulus p_4) \<and> length s' < length s"
proof (induction s out rule: RandomSource_uniform_o.induct)
  case (1 s out)
  obtain b t where f: "fread_item UINT4096_SIZE_BYTES s = Some (b, t)"
    using "1.prems" by (subst (asm) RandomSource_uniform_o.simps) (auto split: option.splits)
  have t: "length t < length s"
    using fread_item_shorter [OF f] by (simp add: UINT4096_SIZE_BYTES_def)
  let ?o = "uint4096_zext_o b"
  note z = uint4096_zext_o_correct [of b] uint4096_zext_o_correct [of "[]"]
  note cmp = uint4096_compare(2) [OF z(1,3)] uint4096_compare(3) [OF z(1) p_4_modulus(1)]
  show ?case
  proof (cases "uint4096_le ?o (uint4096_zext_o []) \<or> \<not> uint4096_lt ?o (modulus p_4)")
    case True
    then have "RandomSource_uniform_o t ?o = (RANDOM_SOURCE_SUCCESS, r, s')"
      using "1.prems" f by (subst (asm) RandomSource_uniform_o.simps) (simp add: Let_def)
    then show ?thesis
      using "1.IH" [OF f refl refl True] t by simp
  next
    case False
    then have r: "r = ?o" "s' = t"
      using "1.prems" f by (subst (asm) RandomSource_uniform_o.simps, simp add: Let_def)+
    then show ?thesis using False z t by (simp add: cmp)
  qed
qed

context platform
begin

lemma uniform_bignum_range:
  assumes "RandomSource_uniform_bignum_o E old s = (RANDOM_SOURCE_SUCCESS, v, s')"
  shows "0 < v \<and> v < wval (modulus p_4)"
proof -
  obtain status r t where u: "RandomSource_uniform E s = (status, r, t)" by (cases "RandomSource_uniform E s")
  then have "status = RANDOM_SOURCE_SUCCESS" "v = import_uint4096 E r"
    using assms by (auto simp: RandomSource_uniform_bignum_o_def split: if_splits)
  moreover from this u obtain z where "RandomSource_uniform_o s z = (RANDOM_SOURCE_SUCCESS, r, t)"
    by (auto simp: RandomSource_uniform_def split: option.splits)
  note uniform_o_range [OF this]
  ultimately show ?thesis
    by (simp add: import_uint4096_def mpz_import_u64_eq UINT4096_WORD_COUNT_def)
qed

lemma uniform_q_range:
  "RandomSource_uniform_bignum_o_q E G out s = (RANDOM_SOURCE_SUCCESS, v, s') \<Longrightarrow> 0 \<le> v \<and> v \<le> par_q G"
proof (induction E G out s rule: RandomSource_uniform_bignum_o_q.induct)
  case (1 E G out s)
  obtain b t where f: "fread_item 32 s = Some (b, t)"
    using "1.prems" by (subst (asm) RandomSource_uniform_bignum_o_q.simps) (auto split: option.splits)
  let ?o = "mpz_import_u8 E b"
  show ?case
  proof (cases "?o < 0 \<or> par_q G < ?o")
    case True
    then have "RandomSource_uniform_bignum_o_q E G ?o t = (RANDOM_SOURCE_SUCCESS, v, s')"
      using "1.prems" f by (subst (asm) RandomSource_uniform_bignum_o_q.simps) (simp add: Let_def)
    then show ?thesis using "1.IH" [OF f refl refl True] by simp
  next
    case False
    then have "v = ?o"
      using "1.prems" f by (subst (asm) RandomSource_uniform_bignum_o_q.simps) (simp add: Let_def)
    then show ?thesis using False by simp
  qed
qed

text \<open>Whatever the status, a number that started non-negative stays so.\<close>

lemma uniform_q_nonneg:
  "0 \<le> out \<Longrightarrow> 0 \<le> fst (snd (RandomSource_uniform_bignum_o_q E G out s))"
proof (induction "length s" arbitrary: s out rule: less_induct)
  case less
  show ?case
  proof (cases "fread_item 32 s")
    case None
    then show ?thesis using less.prems by (subst RandomSource_uniform_bignum_o_q.simps) simp
  next
    case (Some x)
    obtain b t where f: "fread_item 32 s = Some (b, t)" using Some by (cases x) auto
    have "0 \<le> mpz_import_u8 E b" by (simp add: mpz_import_u8_eq)
    then show ?thesis
      using less.hyps [of t "mpz_import_u8 E b"] fread_item_shorter [OF f]
      by (subst RandomSource_uniform_bignum_o_q.simps) (simp add: f Let_def)
  qed
qed

lemma uniform_bignum_nonneg: "0 \<le> out \<Longrightarrow> 0 \<le> fst (snd (RandomSource_uniform_bignum_o E out s))"
  by (auto simp: RandomSource_uniform_bignum_o_def import_uint4096_def mpz_import_u64_eq split: prod.splits)

end

end
