(* ===== verification/NumberFacts.thy ===== *)
theory NumberFacts
  imports Complex_Main
begin

text \<open>
  Facts on residues that the correctness of RSA and of the zero-knowledge proofs rests on:
  Fermat's little theorem and powers modulo a product of two primes.
\<close>

definition is_prime :: "nat \<Rightarrow> bool" where
  "is_prime n \<longleftrightarrow> 1 < n \<and> (\<forall>d. d dvd n \<longrightarrow> d = 1 \<or> d = n)"

lemma is_prime_coprime: "is_prime n \<Longrightarrow> \<not> n dvd a \<Longrightarrow> coprime n a"
  by (rule coprimeI) (auto simp: is_prime_def)

lemma prime_dvd_choose:
  assumes "is_prime p" "0 < k" "k < p"
  shows "p dvd (p choose k)"
proof -
  have "k * (p choose k) = p * ((p - 1) choose (k - 1))"
    using assms(2) binomial_absorption [of "k - 1" p] by simp
  then have "p dvd k * (p choose k)" by simp
  moreover have "coprime p k"
    using assms by (intro is_prime_coprime) (auto dest: nat_dvd_not_less)
  ultimately show ?thesis by (simp add: coprime_dvd_mult_right_iff)
qed

lemma fermat_nat: "is_prime p \<Longrightarrow> a ^ p mod p = a mod p" for a p :: nat
proof (induction a)
  case 0
  then show ?case by (simp add: is_prime_def zero_power)
next
  case (Suc a)
  have p: "1 < p" using Suc.prems by (simp add: is_prime_def)
  have "(a + 1) ^ p = (\<Sum>k\<le>p. (p choose k) * a ^ k * 1 ^ (p - k))"
    using binomial_ring [of a 1 p] by simp
  also have "\<dots> = (\<Sum>k\<in>{0} \<union> {0<..<p} \<union> {p}. (p choose k) * a ^ k)"
    by (intro sum.cong) auto
  also have "\<dots> = 1 + (\<Sum>k\<in>{0<..<p}. (p choose k) * a ^ k) + a ^ p"
    using p by (subst sum.union_disjoint, simp, simp, simp)+ simp
  finally have "Suc a ^ p = 1 + (\<Sum>k\<in>{0<..<p}. (p choose k) * a ^ k) + a ^ p" by simp
  moreover have "p dvd (\<Sum>k\<in>{0<..<p}. (p choose k) * a ^ k)"
    using prime_dvd_choose [OF Suc.prems] by (intro dvd_sum) auto
  then obtain c where "(\<Sum>k\<in>{0<..<p}. (p choose k) * a ^ k) = p * c" by (elim dvdE)
  ultimately have "Suc a ^ p = (1 + a ^ p) + p * c" by simp
  then have "Suc a ^ p mod p = (1 + a ^ p) mod p" by (simp only: mod_mult_self2)
  also have "\<dots> = (1 + a) mod p"
    using Suc by (metis mod_add_right_eq)
  finally show ?case by simp
qed

lemma fermat_one:
  assumes "is_prime p" "\<not> p dvd a"
  shows "a ^ (p - 1) mod p = 1"
proof -
  have p: "1 < p" using assms(1) by (simp add: is_prime_def)
  then have "a * a ^ (p - 1) = a ^ p" by (simp flip: power_Suc)
  then have "(a * a ^ (p - 1)) mod p = (a * 1) mod p"
    using fermat_nat [OF assms(1), of a] by simp
  moreover have "a * 1 \<le> a * a ^ (p - 1)"
    using assms(2) by (intro mult_le_mono2 one_le_power) (cases a, auto)
  ultimately have "p dvd a * a ^ (p - 1) - a * 1"
    by (simp only: mod_eq_dvd_iff_nat)
  then have "p dvd a * (a ^ (p - 1) - 1)" by (simp add: diff_mult_distrib2)
  then have "p dvd a ^ (p - 1) - 1"
    using is_prime_coprime [OF assms] by (simp add: coprime_dvd_mult_right_iff)
  moreover have "1 \<le> a ^ (p - 1)" using assms(2) by (intro one_le_power) (cases a, auto)
  ultimately have "a ^ (p - 1) mod p = 1 mod p" by (simp only: mod_eq_dvd_iff_nat)
  then show ?thesis using p by simp
qed

lemma power_cycle:
  fixes p a :: nat
  assumes p: "is_prime p" and e: "(p - 1) dvd e" 
  shows "a ^ (e + 1) mod p = a mod p"
proof (cases "p dvd a")
  case True
  then have "p dvd a ^ (e + 1)" by simp
  with True show ?thesis by (metis dvd_imp_mod_0)
next
  case False
  obtain k where "e = (p - 1) * k" using e by blast
  then have "a ^ (e + 1) mod p = (a ^ (p - 1)) ^ k * a mod p"
    by (simp only: power_add power_mult power_one_right)
  also have "\<dots> = (a ^ (p - 1) mod p) ^ k * a mod p"
    by (metis mod_mult_left_eq power_mod)
  also have "\<dots> = a mod p" by (simp only: fermat_one [OF p False]) simp
  finally show ?thesis .
qed

text \<open>The exponent cycle modulo a product of two distinct primes.\<close>

lemma power_cycle_product:
  fixes p q a e :: nat
  assumes "is_prime p" "is_prime q" "p \<noteq> q" "(p - 1) dvd e" "(q - 1) dvd e"
  shows "a ^ (e + 1) mod (p * q) = a mod (p * q)"
proof -
  have c: "coprime p q"
    using assms(1-3) by (intro is_prime_coprime) (auto simp: is_prime_def)
  have le: "a \<le> a ^ (e + 1)"
  proof (cases "a = 0")
    case False
    then have "a * 1 \<le> a * a ^ e" by (intro mult_le_mono2 one_le_power) simp
    then show ?thesis by simp
  qed simp
  have "p dvd a ^ (e + 1) - a" "q dvd a ^ (e + 1) - a"
    using power_cycle [OF assms(1,4), of a] power_cycle [OF assms(2,5), of a] le
    by (simp_all only: mod_eq_dvd_iff_nat)
  with c have "p * q dvd a ^ (e + 1) - a" by (rule divides_mult [rotated 2])
  with le show ?thesis by (simp only: mod_eq_dvd_iff_nat)
qed

end
