(* ===== verification/Rsa.thy ===== *)
theory Rsa
  imports RandomSource CryptoTypes NumberFacts
begin

unbundle bit_operations_syntax

text \<open>
  \<open>src/electionguard/rsa.c\<close>: key generation and unpadded encryption with exponent 3.
  The loops of the key generation depend on what \<open>mpz_nextprime\<close> and the random device return
  and are therefore written as loops that may not end. \<open>None\<close> is a null random source, a failed
  assertion or a loop that does not end.
\<close>

definition BUFFER_SIZE :: nat where
  "BUFFER_SIZE = 256"

text \<open>The candidate: the top two bits and the bottom bit of the buffer are set.\<close>

definition rsa_candidate :: "env \<Rightarrow> u8 list \<Rightarrow> int" where
  "rsa_candidate E buffer =
     (let buffer = buffer[0 := buffer ! 0 OR 0xC0];
          buffer = buffer[BUFFER_SIZE - 1 := buffer ! (BUFFER_SIZE - 1) OR 0x01]
      in mpz_import_u8 E buffer)"

partial_function (option) rsa_skip_primes :: "env \<Rightarrow> int \<Rightarrow> int \<Rightarrow> int option" where
  "rsa_skip_primes E x e =
     (if mpz_mod E x e = 1 then rsa_skip_primes E (mpz_nextprime E x) e else Some x)"

definition rsa_select_p :: "env \<Rightarrow> random_source \<Rightarrow> int \<Rightarrow> (int \<times> random_source) option" where
  "rsa_select_p E source e =
     do {
       (buffer, source) \<leftarrow> loop BUFFER_SIZE
         (\<lambda>i (buffer, source). do {
            (b, source) \<leftarrow> RandomSource_get_byte source;
            buffer \<leftarrow> arr_set buffer i b;
            Some (buffer, source) }) (replicate BUFFER_SIZE 0, source);
       p \<leftarrow> rsa_skip_primes E (mpz_nextprime E (rsa_candidate E buffer)) e;
       Some (p, source) }"

definition rsa_select_q :: "env \<Rightarrow> random_source \<Rightarrow> int \<Rightarrow> (int \<times> random_source) option" where
  "rsa_select_q E source e =
     do {
       (buffer, source) \<leftarrow> loop BUFFER_SIZE
         (\<lambda>i (buffer, source). do {
            let (_, u_2, source) = RandomSource_uniform_bignum_o E 0 source;
            buffer \<leftarrow> arr_set buffer i (word_of_int ((u_2 mod 2 ^ 64) mod 0xFF));
            Some (buffer, source) }) (replicate BUFFER_SIZE 0, source);
       q \<leftarrow> rsa_skip_primes E (mpz_nextprime E (rsa_candidate E buffer)) e;
       Some (q, source) }"

partial_function (option) rsa_select_q_loop ::
    "env \<Rightarrow> random_source \<Rightarrow> int \<Rightarrow> int \<Rightarrow> (int \<times> random_source) option" where
  "rsa_select_q_loop E source e p =
     do {
       (q, source) \<leftarrow> rsa_select_q E source e;
       if p = q then rsa_select_q_loop E source e p else Some (q, source) }"

definition generate_keys ::
    "env \<Rightarrow> random_source option \<Rightarrow> (rsa_private_key \<times> rsa_public_key) option" where
  "generate_keys E dev_random =
     do {
       source \<leftarrow> snd (RandomSource_new E dev_random);
       let e = 3;
       (p, source) \<leftarrow> rsa_select_p E source e;
       (q, source) \<leftarrow> rsa_select_q_loop E source e p;
       let n = p * q;
       let lambda = mpz_lcm E (p - 1) (q - 1);
       if \<not> e < lambda then None
       else if mpz_gcd E e lambda \<noteq> 1 then None
       else
         let d = mpz_invert E e lambda
         in Some (\<lparr>rsa_n = n, rsa_e = e, rsa_d = d, rsa_p = p, rsa_q = q\<rparr>, \<lparr>pub_n = n, pub_e = e\<rparr>) }"

definition RSA_Encrypt :: "env \<Rightarrow> int \<Rightarrow> rsa_public_key \<Rightarrow> int" where
  "RSA_Encrypt E message pub_key = mpz_powm E message (pub_e pub_key) (pub_n pub_key)"

definition RSA_Decrypt :: "env \<Rightarrow> int \<Rightarrow> rsa_private_key \<Rightarrow> int" where
  "RSA_Decrypt E encrypted priv_key = mpz_powm E encrypted (rsa_d priv_key) (rsa_n priv_key)"

section \<open>Correctness\<close>

text \<open>A key pair as RSA needs it.\<close>

definition rsa_pair_ok :: "rsa_private_key \<Rightarrow> rsa_public_key \<Rightarrow> bool" where
  "rsa_pair_ok priv pub \<longleftrightarrow>
     0 < rsa_p priv \<and> 0 < rsa_q priv \<and> is_prime (nat (rsa_p priv)) \<and> is_prime (nat (rsa_q priv)) \<and>
     rsa_p priv \<noteq> rsa_q priv \<and>
     rsa_n priv = rsa_p priv * rsa_q priv \<and> pub_n pub = rsa_n priv \<and> pub_e pub = rsa_e priv \<and>
     0 \<le> rsa_e priv \<and> 0 \<le> rsa_d priv \<and>
     (rsa_e priv * rsa_d priv) mod lcm (rsa_p priv - 1) (rsa_q priv - 1) = 1"

lemma rsa_exponent_cycle:
  fixes p q m k :: int
  assumes "0 < p" "0 < q" "is_prime (nat p)" "is_prime (nat q)" "p \<noteq> q"
    and k: "0 \<le> k" "k mod lcm (p - 1) (q - 1) = 1" and m: "0 \<le> m"
  shows "m ^ nat k mod (p * q) = m mod (p * q)"
proof -
  let ?l = "lcm (p - 1) (q - 1)"
  have "?l dvd k - 1" using k(2) by (metis mod_eq_dvd_iff mod_mod_trivial mod_eqE dvd_minus_mod)
  then have d: "p - 1 dvd k - 1" "q - 1 dvd k - 1" by (auto intro: dvd_trans)
  have k1: "1 \<le> k"
  proof (rule ccontr)
    assume "\<not> 1 \<le> k"
    then have "k = 0" using k(1) by simp
    with k(2) show False by simp
  qed
  define e where "e = nat (k - 1)"
  have e: "nat k = e + 1" using k1 by (simp add: e_def)
  have "nat p - 1 dvd e" "nat q - 1 dvd e"
    using d k1 assms(1,2) by (simp_all add: e_def nat_dvd_iff nat_diff_distrib' flip: int_dvd_int_iff) 
  then have "nat m ^ (e + 1) mod (nat p * nat q) = nat m mod (nat p * nat q)"
    using assms by (intro power_cycle_product) (auto simp: eq_nat_nat_iff)
  then have "int (nat m ^ (e + 1) mod (nat p * nat q)) = int (nat m mod (nat p * nat q))" by simp
  then show ?thesis
    using assms(1,2) m unfolding e by (simp add: zmod_int)
qed

context platform
begin

lemma rsa_decrypt_encrypt:
  assumes ok: "rsa_pair_ok priv pub" and m: "0 \<le> m" "m < pub_n pub"
  shows "RSA_Decrypt E (RSA_Encrypt E m pub) priv = m"
proof -
  let ?n = "rsa_n priv" and ?e = "rsa_e priv" and ?d = "rsa_d priv"
  note o = ok [unfolded rsa_pair_ok_def]
  have n: "0 < ?n" "pub_n pub = ?n" "pub_e pub = ?e" using o by simp_all
  have "RSA_Decrypt E (RSA_Encrypt E m pub) priv = (m ^ nat ?e mod ?n) ^ nat ?d mod ?n"
    using o n by (simp add: RSA_Decrypt_def RSA_Encrypt_def mpz_powm_pos)
  also have "\<dots> = m ^ nat (?e * ?d) mod ?n"
    using o by (simp add: power_mod nat_mult_distrib power_mult)
  also have "\<dots> = m mod ?n"
    using rsa_exponent_cycle [of "rsa_p priv" "rsa_q priv" "?e * ?d" m] o m by simp
  finally show ?thesis using m n by simp
qed

end

lemma rsa_select_q_loop_distinct:
  "rsa_select_q_loop E source e p = Some r \<Longrightarrow> p \<noteq> fst r"
  by (erule rsa_select_q_loop.raw_induct [where P = "\<lambda>E source e p r. p \<noteq> fst r", rotated])
    (fastforce simp: bind_eq_Some_conv split: if_splits)

context platform
begin

text \<open>
  Key generation produces such a pair, as soon as the numbers it selects are primes and the inverse
  is the non-negative one.
\<close>

lemma generate_keys_ok:
  assumes g: "generate_keys E dev = Some (priv, pub)"
    and primes: "0 < rsa_p priv" "0 < rsa_q priv" "is_prime (nat (rsa_p priv))" "is_prime (nat (rsa_q priv))"
    and d: "0 \<le> rsa_d priv"
  shows "rsa_pair_ok priv pub" and "pub_e pub = 3"
proof -
  obtain p q s1 s2 s where q: "rsa_select_q_loop E s1 3 p = Some (q, s2)"
    and l: "3 < mpz_lcm E (p - 1) (q - 1)" "mpz_gcd E 3 (mpz_lcm E (p - 1) (q - 1)) = 1"
    and r: "priv = \<lparr>rsa_n = p * q, rsa_e = 3, rsa_d = mpz_invert E 3 (mpz_lcm E (p - 1) (q - 1)), rsa_p = p, rsa_q = q\<rparr>"
      "pub = \<lparr>pub_n = p * q, pub_e = 3\<rparr>"
    using g by (auto simp: generate_keys_def Let_def bind_eq_Some_conv split: if_splits prod.splits)
  have "(3 * mpz_invert E 3 (lcm (p - 1) (q - 1))) mod lcm (p - 1) (q - 1) = 1"
    using l by (intro mpz_invert_eq) (simp_all add: mpz_lcm_eq mpz_gcd_eq coprime_iff_gcd_eq_1)
  then show "rsa_pair_ok priv pub" "pub_e pub = 3"
    using rsa_select_q_loop_distinct [OF q] primes d r by (simp_all add: rsa_pair_ok_def mpz_lcm_eq)
qed

end

end
