(* ===== verification/Crypto.thy ===== *)
theory Crypto
  imports SerializeCrypto Rsa
begin

text \<open>
  The cryptographic operations of \<open>src/electionguard/crypto.c\<close>: hashing, key generation with
  Schnorr proofs, key shares, the joint key, encryption and its homomorphic addition, and the
  generation and the checks of the Chaum-Pedersen and disjunctive proofs. A \<open>SHA2_CTX\<close> is the
  list of the bytes hashed so far. A function that draws randomness takes the source and returns
  what is left of it.
\<close>

section \<open>Hashing\<close>

definition Crypto_hash_final :: "env \<Rightarrow> params \<Rightarrow> u8 list \<Rightarrow> hash" where
  "Crypto_hash_final E G context = Crypto_hash_reduce E G (sha256 E context)"

definition Crypto_hash_update_bignum_q :: "env \<Rightarrow> u8 list \<Rightarrow> int \<Rightarrow> u8 list option" where
  "Crypto_hash_update_bignum_q E context num =
     do {
       (export_status, buf) \<leftarrow> export_to_256 E num;
       Some (if export_status = BIGNUM_SUCCESS
             then (case buf of None \<Rightarrow> context | Some buf \<Rightarrow> context @ concat (map (le_bytes 8) (take 4 buf)))
             else context) }"

definition Crypto_hash_update_bignum_p :: "env \<Rightarrow> int \<Rightarrow> u8 list \<Rightarrow> u8 list option" where
  "Crypto_hash_update_bignum_p E num context =
     do {
       serialized_buffer \<leftarrow> Serialize_reserve_write_bignum E num;
       bytes \<leftarrow> serialized_buffer;
       Some (context @ take 512 bytes) }"

text \<open>The hash context a proof starts from: the serialized base hash, then numbers modulo \<open>p\<close>.\<close>

definition hash_init_base :: "env \<Rightarrow> hash \<Rightarrow> u8 list option" where
  "hash_init_base E base_hash =
     do {
       base_serial \<leftarrow> Serialize_reserve_write_hash E base_hash;
       bytes \<leftarrow> base_serial;
       Some (take SHA256_DIGEST_LENGTH bytes) }"

section \<open>Keys\<close>

definition Crypto_public_key_equal :: "public_key \<Rightarrow> public_key \<Rightarrow> bool option" where
  "Crypto_public_key_equal key1 key2 =
     loop (unat (pub_threshold key1))
       (\<lambda>i ok. if ok then do {
            a \<leftarrow> arr_get (coef_commitments key1) i;
            b \<leftarrow> arr_get (coef_commitments key2) i;
            Some (a = b) } else Some ok)
       (pub_threshold key1 = pub_threshold key2)"

definition Crypto_RandomSource_status_convert :: "RandomSource_status \<Rightarrow> Crypto_status" where
  "Crypto_RandomSource_status_convert status =
     (case status of
        RANDOM_SOURCE_SUCCESS \<Rightarrow> CRYPTO_SUCCESS
      | RANDOM_SOURCE_INSUFFICIENT_MEMORY \<Rightarrow> CRYPTO_INSUFFICIENT_MEMORY
      | RANDOM_SOURCE_IO_ERROR \<Rightarrow> CRYPTO_IO_ERROR)"

definition check_keypair_step ::
    "env \<Rightarrow> params \<Rightarrow> public_key \<Rightarrow> nat \<Rightarrow> bool \<Rightarrow> bool option" where
  "check_keypair_step E G key i result =
     do {
       r \<leftarrow> arr_get (challenge_responses (pub_proof key)) i;
       k \<leftarrow> arr_get (coef_commitments key) i;
       h \<leftarrow> arr_get (commitments (pub_proof key)) i;
       let gu = pow_mod_p E G (generator G) r;
       let hkc = mul_mod_p E G h (pow_mod_p E G k (challenge (pub_proof key)));
       Some (result \<and> gu = hkc) }"

definition Crypto_check_keypair_proof :: "env \<Rightarrow> params \<Rightarrow> public_key \<Rightarrow> raw_hash \<Rightarrow> bool option" where
  "Crypto_check_keypair_proof E G key base_hash_code =
     loop (unat (proof_threshold (pub_proof key))) (check_keypair_step E G key) True"

text \<open>
  Key generation. The three loops: the coefficients and their commitments; the commitments of the
  proof, hashed as they are made; the responses. The arrays of the fresh keys are indeterminate
  before \<open>Crypto_private_key_init\<close> and \<open>Crypto_public_key_new\<close>, here 0.
\<close>

definition blank_array :: "int list" where
  "blank_array = replicate MAX_TRUSTEES 0"

definition gen_coefficients_step ::
    "env \<Rightarrow> params \<Rightarrow> nat \<Rightarrow> Crypto_status \<times> int list \<times> int list \<times> random_source \<Rightarrow>
     (Crypto_status \<times> int list \<times> int list \<times> random_source) option" where
  "gen_coefficients_step E G i s =
     (case s of (status, coefs, commits, source) \<Rightarrow>
        if status = CRYPTO_SUCCESS
        then do {
          old \<leftarrow> arr_get coefs i;
          let (rs, c, source) = RandomSource_uniform_bignum_o E old source;
          coefs \<leftarrow> arr_set coefs i c;
          let status = Crypto_RandomSource_status_convert rs;
          commits \<leftarrow> (if status = CRYPTO_SUCCESS
                      then arr_set commits i (pow_mod_p E G (generator G) c) else Some commits);
          Some (status, coefs, commits, source) }
        else Some s)"

definition gen_commitments_step ::
    "env \<Rightarrow> params \<Rightarrow> nat \<Rightarrow> Crypto_status \<times> int list \<times> int list \<times> u8 list \<times> random_source \<Rightarrow>
     (Crypto_status \<times> int list \<times> int list \<times> u8 list \<times> random_source) option" where
  "gen_commitments_step E G i s =
     (case s of (status, responses, commits, context, source) \<Rightarrow>
        if status = CRYPTO_SUCCESS
        then do {
          old \<leftarrow> arr_get responses i;
          let (rs, u, source) = RandomSource_uniform_bignum_o_q E G old source;
          responses \<leftarrow> arr_set responses i u;
          let status = Crypto_RandomSource_status_convert rs;
          if status = CRYPTO_SUCCESS
          then do {
            let h = pow_mod_p E G (generator G) u;
            commits \<leftarrow> arr_set commits i h;
            context \<leftarrow> Crypto_hash_update_bignum_p E h context;
            Some (status, responses, commits, context, source) }
          else Some (status, responses, commits, context, source) }
        else Some s)"

definition gen_responses ::
    "env \<Rightarrow> params \<Rightarrow> nat \<Rightarrow> hash \<Rightarrow> int list \<Rightarrow> int list \<Rightarrow> int list option" where
  "gen_responses E G n c coefs responses =
     loop n (\<lambda>i responses. do {
       a \<leftarrow> arr_get coefs i;
       u \<leftarrow> arr_get responses i;
       arr_set responses i (add_mod_q E G u (mul_mod_q E G c a)) }) responses"

record gen_keypair_r =
  keypair_status :: Crypto_status
  keypair_private :: private_key
  keypair_public :: public_key

definition keypair_result :: "Crypto_status \<Rightarrow> u32 \<Rightarrow> int list \<Rightarrow> int list \<Rightarrow> schnorr_proof \<Rightarrow> gen_keypair_r" where
  "keypair_result status t coefs commits proof =
     \<lparr>keypair_status = status,
      keypair_private = \<lparr>priv_threshold = t, coefficients = coefs\<rparr>,
      keypair_public = \<lparr>pub_threshold = t, pub_proof = proof, coef_commitments = commits\<rparr>\<rparr>"

definition Crypto_gen_keypair ::
    "env \<Rightarrow> params \<Rightarrow> random_source option \<Rightarrow> u32 \<Rightarrow> raw_hash \<Rightarrow> gen_keypair_r option" where
  "Crypto_gen_keypair E G dev_random num_coefficients base_hash_code =
     do {
       let n = unat num_coefficients;
       priv \<leftarrow> Crypto_private_key_init \<lparr>priv_threshold = num_coefficients, coefficients = blank_array\<rparr> n;
       pub \<leftarrow> Crypto_public_key_new
         \<lparr>pub_threshold = num_coefficients,
          pub_proof = \<lparr>proof_threshold = 0, commitments = blank_array, challenge = 0,
                       challenge_responses = blank_array\<rparr>,
          coef_commitments = blank_array\<rparr> n;
       let (rs, src) = RandomSource_new E dev_random;
       let status = Crypto_RandomSource_status_convert rs;
       let source = (case src of None \<Rightarrow> [] | Some s \<Rightarrow> s);
       (status, coefs, commits, source) \<leftarrow>
         loop n (gen_coefficients_step E G) (status, coefficients priv, coef_commitments pub, source);
       let proof = pub_proof pub;
       if status \<noteq> CRYPTO_SUCCESS then Some (keypair_result status num_coefficients coefs commits proof)
       else do {
         context \<leftarrow> loop n (\<lambda>i context. do { k \<leftarrow> arr_get commits i; Crypto_hash_update_bignum_p E k context })
                      (take HASH_DIGEST_SIZE_BYTES base_hash_code);
         (status, responses, hs, context, source) \<leftarrow>
           loop n (gen_commitments_step E G)
             (status, challenge_responses proof, commitments proof, context, source);
         let proof = proof\<lparr>proof_threshold := num_coefficients, commitments := hs, challenge_responses := responses\<rparr>;
         if status \<noteq> CRYPTO_SUCCESS then Some (keypair_result status num_coefficients coefs commits proof)
         else do {
           let c = Crypto_hash_final E G context;
           responses \<leftarrow> gen_responses E G n c coefs responses;
           Some (keypair_result status num_coefficients coefs commits
             (proof\<lparr>challenge := c, challenge_responses := responses\<rparr>)) } } }"

section \<open>Key shares\<close>

text \<open>The secret polynomial at \<open>index\<close>, modulo \<open>q\<close>.\<close>

definition computeTrusteePolynomial :: "env \<Rightarrow> params \<Rightarrow> private_key \<Rightarrow> u32 \<Rightarrow> int option" where
  "computeTrusteePolynomial E G privateKey index =
     loop (unat (priv_threshold privateKey))
       (\<lambda>i out. do {
          a \<leftarrow> arr_get (coefficients privateKey) i;
          let t_1 = pow_mod_q E G (uint index) (int i);
          let t_2 = mul_mod_q E G a t_1;
          Some (add_mod_q E G out t_2) }) 0"

definition Crypto_check_validity_share_against_public_keys ::
    "env \<Rightarrow> params \<Rightarrow> encrypted_key_share \<Rightarrow> public_key \<Rightarrow> rsa_private_key \<Rightarrow> u32 \<Rightarrow> u32 \<Rightarrow> bool option" where
  "Crypto_check_validity_share_against_public_keys E G share pubKeys privateKey num_trusties my_index =
     do {
       out_1 \<leftarrow> loop (unat num_trusties)
         (\<lambda>i out_1. do {
            k \<leftarrow> arr_get (coef_commitments pubKeys) i;
            let exp = uint (my_index + 1) ^ i;
            Some (mul_mod_p E G out_1 (pow_mod_p E G k exp)) }) 1;
       let origin = RSA_Decrypt E share privateKey;
       let out_2 = pow_mod_p E G (generator G) origin;
       Some (out_1 = out_2) }"

definition Crypto_create_encrypted_key_share ::
    "env \<Rightarrow> params \<Rightarrow> rsa_public_key \<Rightarrow> private_key \<Rightarrow> u32 \<Rightarrow> encrypted_key_share option" where
  "Crypto_create_encrypted_key_share E G rsa_pub_key priv_key index =
     do {
       out \<leftarrow> computeTrusteePolynomial E G priv_key (index + 1);
       Some (RSA_Encrypt E out rsa_pub_key) }"

definition Crypto_generate_joint_public_key ::
    "env \<Rightarrow> params \<Rightarrow> public_key list \<Rightarrow> u32 \<Rightarrow> joint_public_key_rep option" where
  "Crypto_generate_joint_public_key E G public_keys num_keys =
     do {
       k \<leftarrow> loop (unat num_keys)
         (\<lambda>i k. do {
            key \<leftarrow> arr_get public_keys i;
            c \<leftarrow> arr_get (coef_commitments key) 0;
            Some (mul_mod_p E G k c) }) 1;
       Some \<lparr>joint_num_trustees = num_keys, joint_key = k\<rparr> }"

section \<open>Encryption\<close>

definition Crypto_encrypt ::
    "env \<Rightarrow> params \<Rightarrow> random_source \<Rightarrow> joint_public_key_rep \<Rightarrow> int \<Rightarrow> int \<Rightarrow>
     encryption_rep \<times> int \<times> random_source" where
  "Crypto_encrypt E G source key message out_nonce =
     (let (_, out_nonce, source) = RandomSource_uniform_bignum_o E out_nonce source
      in (\<lparr>nonce_encoding = pow_mod_p E G (generator G) out_nonce,
           message_encoding = mul_mod_p E G (pow_mod_p E G (joint_key key) out_nonce) message\<rparr>,
          out_nonce, source))"

definition Crypto_encryption_homomorphic_zero :: encryption_rep where
  "Crypto_encryption_homomorphic_zero = \<lparr>nonce_encoding = 1, message_encoding = 1\<rparr>"

definition Crypto_encryption_homomorphic_add ::
    "env \<Rightarrow> params \<Rightarrow> encryption_rep \<Rightarrow> encryption_rep \<Rightarrow> encryption_rep" where
  "Crypto_encryption_homomorphic_add E G a b =
     \<lparr>nonce_encoding = mul_mod_p E G (nonce_encoding a) (nonce_encoding b),
      message_encoding = mul_mod_p E G (message_encoding a) (message_encoding b)\<rparr>"

section \<open>Chaum-Pedersen proofs\<close>

definition Crypto_cp_proof_commit ::
    "env \<Rightarrow> params \<Rightarrow> encryption_rep \<Rightarrow> int \<Rightarrow> encryption_rep" where
  "Crypto_cp_proof_commit E G encryption u =
     \<lparr>nonce_encoding = pow_mod_p E G (nonce_encoding encryption) u,
      message_encoding = pow_mod_p E G (message_encoding encryption) u\<rparr>"

text \<open>The challenge over the base hash and two encryptions.\<close>

definition Crypto_cp_proof_challenge ::
    "env \<Rightarrow> params \<Rightarrow> encryption_rep \<Rightarrow> encryption_rep \<Rightarrow> hash \<Rightarrow> hash option" where
  "Crypto_cp_proof_challenge E G encryption commitment base_hash =
     do {
       context \<leftarrow> hash_init_base E base_hash;
       context \<leftarrow> Crypto_hash_update_bignum_p E (nonce_encoding encryption) context;
       context \<leftarrow> Crypto_hash_update_bignum_p E (message_encoding encryption) context;
       context \<leftarrow> Crypto_hash_update_bignum_p E (nonce_encoding commitment) context;
       context \<leftarrow> Crypto_hash_update_bignum_p E (message_encoding commitment) context;
       Some (Crypto_hash_final E G context) }"

definition Crypto_generate_decryption_cp_proof ::
    "env \<Rightarrow> params \<Rightarrow> random_source option \<Rightarrow> int \<Rightarrow> int \<Rightarrow> encryption_rep \<Rightarrow> hash \<Rightarrow> cp_proof_rep option" where
  "Crypto_generate_decryption_cp_proof E G dev_random secret_key partial_decryption
       aggregate_encryption base_hash =
     do {
       source \<leftarrow> snd (RandomSource_new E dev_random);
       let (_, u, _) = RandomSource_uniform_bignum_o_q E G 0 source;
       let commitment = \<lparr>nonce_encoding = pow_mod_p E G (generator G) u,
                         message_encoding = pow_mod_p E G (nonce_encoding aggregate_encryption) u\<rparr>;
       context \<leftarrow> hash_init_base E base_hash;
       context \<leftarrow> Crypto_hash_update_bignum_p E (nonce_encoding aggregate_encryption) context;
       context \<leftarrow> Crypto_hash_update_bignum_p E (message_encoding aggregate_encryption) context;
       context \<leftarrow> Crypto_hash_update_bignum_p E (nonce_encoding commitment) context;
       context \<leftarrow> Crypto_hash_update_bignum_p E (message_encoding commitment) context;
       context \<leftarrow> Crypto_hash_update_bignum_p E partial_decryption context;
       let c = Crypto_hash_final E G context;
       Some \<lparr>cp_commitment = commitment, cp_challenge = c,
             cp_response = add_mod_q E G u (mul_mod_q E G c secret_key)\<rparr> }"

definition Crypto_check_decryption_cp_proof ::
    "env \<Rightarrow> params \<Rightarrow> cp_proof_rep \<Rightarrow> int \<Rightarrow> int \<Rightarrow> encryption_rep \<Rightarrow> hash \<Rightarrow> bool" where
  "Crypto_check_decryption_cp_proof E G proof public_key partial_decryption aggregate_encryption base_hash =
     (let gv = pow_mod_p E G (generator G) (cp_response proof);
          akc = pow_mod_p E G public_key (cp_challenge proof);
          akc = mul_mod_p E G (nonce_encoding (cp_commitment proof)) akc;
          av = pow_mod_p E G (nonce_encoding aggregate_encryption) (cp_response proof);
          bbc = pow_mod_p E G partial_decryption (cp_challenge proof);
          bbc = mul_mod_p E G (message_encoding (cp_commitment proof)) bbc
      in gv = akc \<and> av = bbc)"

definition Crypto_check_aggregate_cp_proof ::
    "env \<Rightarrow> params \<Rightarrow> cp_proof_rep \<Rightarrow> encryption_rep \<Rightarrow> hash \<Rightarrow> int \<Rightarrow> u32 \<Rightarrow> bool option" where
  "Crypto_check_aggregate_cp_proof E G proof encryption base_hash public_key l_int =
     do {
       my_C \<leftarrow> Crypto_cp_proof_challenge E G encryption (cp_commitment proof) base_hash;
       let gv = pow_mod_p E G (generator G) (cp_response proof);
       let aac = pow_mod_p E G (nonce_encoding encryption) my_C;
       let aac = mul_mod_p E G (nonce_encoding (cp_commitment proof)) aac;
       let L = mul_mod_q E G (uint l_int) my_C;
       let glc = pow_mod_p E G (generator G) L;
       let glckv = pow_mod_p E G public_key (cp_response proof);
       let glckv = mul_mod_p E G glc glckv;
       let bbc = pow_mod_p E G (message_encoding encryption) my_C;
       let bbc = mul_mod_p E G (message_encoding (cp_commitment proof)) bbc;
       Some (my_C = cp_challenge proof \<and> gv = aac \<and> glckv = bbc) }"

definition Crypto_generate_aggregate_cp_proof ::
    "env \<Rightarrow> params \<Rightarrow> random_source \<Rightarrow> int \<Rightarrow> encryption_rep \<Rightarrow> hash \<Rightarrow> int \<Rightarrow>
     (cp_proof_rep \<times> random_source) option" where
  "Crypto_generate_aggregate_cp_proof E G source nonce encryption base_hash public_key =
     do {
       let (_, u, source) = RandomSource_uniform_bignum_o_q E G 0 source;
       let commitment = \<lparr>nonce_encoding = pow_mod_p E G (generator G) u,
                         message_encoding = pow_mod_p E G public_key u\<rparr>;
       c \<leftarrow> Crypto_cp_proof_challenge E G encryption commitment base_hash;
       Some (\<lparr>cp_commitment = commitment, cp_challenge = c,
              cp_response = add_mod_q E G u (mul_mod_q E G c nonce)\<rparr>, source) }"

section \<open>Disjunctive proofs\<close>

definition dis_fake_commitment ::
    "env \<Rightarrow> params \<Rightarrow> bool \<Rightarrow> int \<Rightarrow> encryption_rep \<Rightarrow> int \<Rightarrow> int \<Rightarrow> encryption_rep" where
  "dis_fake_commitment E G selected public_key encryption fake_challenge fake_response =
     (let scratch = pow_mod_p E G (generator G) fake_response;
          a = pow_mod_p E G (nonce_encoding encryption) fake_challenge;
          a = div_mod_p E G scratch a;
          scratch = pow_mod_p E G public_key fake_response;
          scratch = (if \<not> selected
                     then mul_mod_p E G scratch (pow_mod_p E G (generator G) fake_challenge) else scratch);
          b = pow_mod_p E G (message_encoding encryption) fake_challenge;
          b = div_mod_p E G scratch b
      in \<lparr>nonce_encoding = a, message_encoding = b\<rparr>)"

definition hash_update_encryption :: "env \<Rightarrow> encryption_rep \<Rightarrow> u8 list \<Rightarrow> u8 list option" where
  "hash_update_encryption E e context =
     do {
       context \<leftarrow> Crypto_hash_update_bignum_p E (nonce_encoding e) context;
       Crypto_hash_update_bignum_p E (message_encoding e) context }"

definition Crypto_generate_dis_proof ::
    "env \<Rightarrow> params \<Rightarrow> random_source \<Rightarrow> hash \<Rightarrow> bool \<Rightarrow> int \<Rightarrow> encryption_rep \<Rightarrow> int \<Rightarrow>
     (dis_proof_rep \<times> random_source) option" where
  "Crypto_generate_dis_proof E G source base_hash selected public_key encryption nonce =
     do {
       let (_, u, source) = RandomSource_uniform_bignum_o_q E G 0 source;
       let (_, fake_challenge, source) = RandomSource_uniform_bignum_o E 0 source;
       let (_, fake_response, source) = RandomSource_uniform_bignum_o E 0 source;
       let real_commitment = \<lparr>nonce_encoding = pow_mod_p E G (generator G) u,
                              message_encoding = pow_mod_p E G public_key u\<rparr>;
       let fake_commitment = dis_fake_commitment E G selected public_key encryption fake_challenge fake_response;
       context \<leftarrow> hash_init_base E base_hash;
       context \<leftarrow> hash_update_encryption E encryption context;
       context \<leftarrow> hash_update_encryption E (if selected then fake_commitment else real_commitment) context;
       context \<leftarrow> hash_update_encryption E (if selected then real_commitment else fake_commitment) context;
       let c = Crypto_hash_final E G context;
       let real_challenge = sub_mod_q E G c fake_challenge;
       let real_response = add_mod_q E G u (mul_mod_q E G real_challenge nonce);
       Some (if selected
             then \<lparr>commitment0 = fake_commitment, commitment1 = real_commitment, dis_challenge = c,
                   challenge0 = fake_challenge, challenge1 = real_challenge,
                   response0 = fake_response, response1 = real_response\<rparr>
             else \<lparr>commitment0 = real_commitment, commitment1 = fake_commitment, dis_challenge = c,
                   challenge0 = real_challenge, challenge1 = fake_challenge,
                   response0 = real_response, response1 = fake_response\<rparr>, source) }"

definition Crypto_check_dis_proof ::
    "env \<Rightarrow> params \<Rightarrow> dis_proof_rep \<Rightarrow> encryption_rep \<Rightarrow> hash \<Rightarrow> int \<Rightarrow> bool" where
  "Crypto_check_dis_proof E G proof encryption base_hash public_key =
     (let my_challenge = add_mod_q E G (challenge0 proof) (challenge1 proof);
          result0 = (dis_challenge proof = my_challenge);
          gv = pow_mod_p E G (generator G) (response0 proof);
          aac = pow_mod_p E G (nonce_encoding encryption) (challenge0 proof);
          aac = mul_mod_p E G (nonce_encoding (commitment0 proof)) aac;
          result1 = (gv = aac);
          gv = pow_mod_p E G (generator G) (response1 proof);
          aac = pow_mod_p E G (nonce_encoding encryption) (challenge1 proof);
          aac = mul_mod_p E G (nonce_encoding (commitment1 proof)) aac;
          result2 = (gv = aac);
          glckv = pow_mod_p E G public_key (response0 proof);
          bbc = pow_mod_p E G (message_encoding encryption) (challenge0 proof);
          bbc = mul_mod_p E G (message_encoding (commitment0 proof)) bbc;
          result3 = (glckv = bbc);
          glc = pow_mod_p E G (generator G) (challenge1 proof);
          glckv = pow_mod_p E G public_key (response1 proof);
          glckv = mul_mod_p E G glc glckv;
          bbc = pow_mod_p E G (message_encoding encryption) (challenge1 proof);
          bbc = mul_mod_p E G (message_encoding (commitment1 proof)) bbc;
          result4 = (glckv = bbc)
      in result0 \<and> result1 \<and> result2 \<and> result3 \<and> result4)"

section \<open>Input, output, ballots\<close>

definition mpz_t_fscan :: "env \<Rightarrow> string \<Rightarrow> int \<Rightarrow> bool \<times> int \<times> string" where
  "mpz_t_fscan E inp out =
     (case malloc E UINT4096_SIZE_BYTES of
        None \<Rightarrow> (False, out, inp)
      | Some _ \<Rightarrow>
          let (res, tmp, rest) = uint4096_fscan inp (replicate UINT4096_WORD_COUNT 0)
          in (res, import_uint4096 E tmp, rest))"

definition mpz_t_fprint :: "env \<Rightarrow> out_file \<Rightarrow> int \<Rightarrow> (bool \<times> out_file) option" where
  "mpz_t_fprint E out z =
     do {
       (export_status, tmp) \<leftarrow> export_to_uint4096 E z;
       Some (case tmp of
               None \<Rightarrow> (False, out)
             | Some tmp \<Rightarrow> if export_status = BIGNUM_SUCCESS then uint4096_fprint out tmp else (False, out)) }"

definition Crypto_encryption_fprint :: "env \<Rightarrow> out_file \<Rightarrow> encryption_rep \<Rightarrow> (bool \<times> out_file) option" where
  "Crypto_encryption_fprint E out rep =
     do {
       let (r, out) = fprintf out ''('';
       let ok = (r = 1);
       (ok, out) \<leftarrow> (if ok then mpz_t_fprint E out (nonce_encoding rep) else Some (ok, out));
       let (ok, out) = (if ok then let (r, out) = fprintf out '','' in (r = 1, out) else (ok, out));
       (ok, out) \<leftarrow> (if ok then mpz_t_fprint E out (message_encoding rep) else Some (ok, out));
       let (ok, out) = (if ok then let (r, out) = fprintf out '')'' in (r = 1, out) else (ok, out));
       Some (ok, out) }"

text \<open>
  A failed allocation is overwritten by the final status; initialising through the null pointer
  is \<open>None\<close> when there is a selection to initialise.
\<close>

definition Crypto_encrypted_ballot_new ::
    "env \<Rightarrow> u32 \<Rightarrow> u64 \<Rightarrow> (Crypto_status \<times> encrypted_ballot_rep) option" where
  "Crypto_encrypted_ballot_new E num ballot_id' =
     (let n = unat num;
          sels = (case malloc E (n * 32) of None \<Rightarrow> None | Some _ \<Rightarrow> Some (replicate n Crypto_encryption_rep_new));
          proofs = (case malloc E (n * 144) of None \<Rightarrow> None | Some _ \<Rightarrow> Some (replicate n Crypto_dis_proof_new));
          sels = (if proofs = None then None else sels)
      in if 0 < n \<and> (sels = None \<or> proofs = None) then None
         else Some (CRYPTO_SUCCESS,
           \<lparr>ballot_id = ballot_id', num_selections = num, selections = sels, dis_proofs = proofs,
            ballot_cp_proof = Crypto_cp_proof_new
              \<lparr>cp_commitment = Crypto_encryption_rep_new, cp_challenge = 0, cp_response = 0\<rparr>\<rparr>))"

end
