(* ===== verification/Sha256Claims.thy ===== *)
theory Sha256Claims
  imports Sha256Proofs Crypto
begin

text \<open>
  The properties of SHA-256, and the connection with the rest of the development, where the context of a
  digest is the list of the bytes it was updated with.
\<close>

section \<open>The constants\<close>

text \<open>The 32 bits behind the point of the \<open>k\<close>-th root of \<open>p\<close>, found among its integer parts below 32.\<close>

definition root_fraction :: "nat \<Rightarrow> int \<Rightarrow> u32 \<Rightarrow> bool" where
  "root_fraction k p w \<longleftrightarrow>
     list_ex (\<lambda>n. (n * 2 ^ 32 + uint w) ^ k \<le> p * 2 ^ (32 * k) \<and> p * 2 ^ (32 * k) < (n * 2 ^ 32 + uint w + 1) ^ k) [0..31]"

text \<open>Trial division up to the square root.\<close>

function no_divisor :: "int \<Rightarrow> int \<Rightarrow> bool" where
  "no_divisor d p \<longleftrightarrow> (if p < d * d \<or> d < 2 then True else p mod d \<noteq> 0 \<and> no_divisor (d + 1) p)"
  by pat_completeness auto

termination
proof (relation "measure (\<lambda>(d, p). nat (p + 1 - d))")
  fix d p :: int
  assume "\<not> (p < d * d \<or> d < 2)"
  then have "2 \<le> d" "d * d \<le> p" by simp_all
  moreover have "2 * d \<le> d * d" using \<open>2 \<le> d\<close> by (intro mult_right_mono) simp_all
  ultimately have "d \<le> p" "2 \<le> d" by linarith+
  then show "((d + 1, p), (d, p)) \<in> measure (\<lambda>(d, p). nat (p + 1 - d))" by simp
qed simp

declare no_divisor.simps [simp del]

definition primes_below :: "int \<Rightarrow> int list" where
  "primes_below n = filter (no_divisor 2) [2..n - 1]"

lemma first_primes: "primes_below 312 =
   [2, 3, 5, 7, 11, 13, 17, 19, 23, 29, 31, 37, 41, 43, 47, 53, 59, 61, 67, 71, 73, 79, 83, 89, 97, 101, 103, 107, 109, 113,
    127, 131, 137, 139, 149, 151, 157, 163, 167, 173, 179, 181, 191, 193, 197, 199, 211, 223, 227, 229, 233, 239, 241, 251,
    257, 263, 269, 271, 277, 281, 283, 293, 307, 311]"
  by code_simp

text \<open>The constants of the file are those of the standard: the first 32 bits behind the point of the cube
  roots of the first 64 primes, and for the initial hash value of the square roots of the first 8.\<close>

theorem sha256_constants:
  "length K256 = 64 \<and> list_all2 (root_fraction 3) (primes_below 312) K256 \<and>
   list_all2 (root_fraction 2) (primes_below 20) sha256_initial_hash_value"
  unfolding first_primes by code_simp

section \<open>Digests\<close>

text \<open>C5: SHA-256 as implemented is SHA-256 as specified. However a message is cut into updates, a context
  that is initialised, updated with the pieces and finished yields the digest that the standard defines for
  the whole message, with its own padding and its recurrence for the 64 words of the schedule, of which the
  code keeps 16 at a time in the buffer that may hold the block itself.\<close>

theorem sha256_correct:
  assumes "length (st32 c) = 8" "length (buffer c) = 128"
  shows "\<exists>c1 c2. update_all pieces (SHA256Init c) = Some c1 \<and>
    SHA256Final c1 = Some (sha256_spec (concat pieces), c2)"
  using sha256_stream [OF assms] .

theorem sha256_correct_witness:
  "\<exists>c1 c2. update_all [[97, 98], [], [99]] (SHA256Init \<lparr>st32 = replicate 8 5, bitcount = 3, buffer = replicate 128 7\<rparr>) = Some c1 \<and>
     SHA256Final c1 = Some (sha256_spec [97, 98, 99], c2)"
  using sha256_correct [of "\<lparr>st32 = replicate 8 5, bitcount = 3, buffer = replicate 128 7\<rparr>" "[[97, 98], [], [99]]"] by simp

text \<open>The environment that hashes with this function is one of those that the other theories speak of.\<close>

definition with_sha256 :: "env \<Rightarrow> env" where
  "with_sha256 E = E\<lparr>sha256 := sha256_spec\<rparr>"

lemma with_sha256_platform: "platform E \<Longrightarrow> platform (with_sha256 E)"
  unfolding platform_def by (simp add: with_sha256_def length_sha256_spec)

lemma with_sha256_platform_mem:
  assumes "platform_mem E"
  shows "platform_mem (with_sha256 E)"
proof (intro platform_mem.intro platform_mem_axioms.intro)
  show "platform (with_sha256 E)" by (rule with_sha256_platform [OF platform_mem.axioms(1) [OF assms]])
  show "\<exists>blk. malloc (with_sha256 E) n = Some blk" for n
    using platform_mem.malloc_ok [OF assms] by (simp add: with_sha256_def)
qed

interpretation sha: platform_mem "with_sha256 ref_env"
  by (rule with_sha256_platform_mem [OF ref.platform_mem_axioms])

text \<open>In such an environment the digest that the model computes from the bytes collected in a context is the one that
  the streaming implementation computes from the updates.\<close>

lemma digest_streamed:
  assumes "platform_mem E" "length (st32 c) = 8" "length (buffer c) = 128"
  shows "platform_mem (with_sha256 E) \<and>
    (\<exists>c1 c2 digest. update_all pieces (SHA256Init c) = Some c1 \<and> SHA256Final c1 = Some (digest, c2) \<and>
       length digest = SHA256_DIGEST_LENGTH \<and>
       Crypto_hash_final (with_sha256 E) G (concat pieces) = Crypto_hash_reduce (with_sha256 E) G digest)"
proof -
  obtain c1 c2 where "update_all pieces (SHA256Init c) = Some c1" "SHA256Final c1 = Some (sha256_spec (concat pieces), c2)"
    using sha256_stream [OF assms(2,3)] by blast
  moreover have "sha256 (with_sha256 E) = sha256_spec" by (simp add: with_sha256_def)
  ultimately show ?thesis
    using with_sha256_platform_mem [OF assms(1)]
    by (simp add: Crypto_hash_final_def SHA256_DIGEST_LENGTH_def length_sha256_spec)
qed

end
