(* ===== verification/CryptoProofs.thy ===== *)
theory CryptoProofs
  imports Crypto
begin

text \<open>
  What the operations of \<open>src/electionguard/crypto.c\<close> guarantee. First the algebra the zero
  knowledge proofs share, then for every kind of proof: generation is accepted by the check
  (completeness), two accepting answers to one commitment reveal the witness (special soundness),
  and, where the check does not recompute the challenge hash, what it accepts without a witness.
\<close>

section \<open>Powers in the group\<close>

context platform
begin

lemma pow_nonneg [simp]: "group_ok G \<Longrightarrow> 0 \<le> e \<Longrightarrow> 0 \<le> pow_mod_p E G x e"
  by (simp add: pow_mod_p_eq)

lemma q_results_nonneg [simp]:
  "group_ok G \<Longrightarrow> 0 \<le> add_mod_q E G a b"
  "group_ok G \<Longrightarrow> 0 \<le> sub_mod_q E G a b"
  "group_ok G \<Longrightarrow> 0 \<le> mul_mod_q E G a b"
  "group_ok G \<Longrightarrow> 0 \<le> mod_q E G a"
  by (simp_all add: arith_eqs)

lemma hash_nonneg [simp]: "group_ok G \<Longrightarrow> 0 \<le> Crypto_hash_final E G context"
  by (simp add: Crypto_hash_final_def Crypto_hash_reduce_def)

lemma pow_in_group [simp]:
  "group_ok G \<Longrightarrow> in_group G x \<Longrightarrow> 0 \<le> e \<Longrightarrow> in_group G (pow_mod_p E G x e)"
  by (simp add: pow_mod_p_eq in_group_power)

lemma mul_in_group [simp]:
  "group_ok G \<Longrightarrow> in_group G x \<Longrightarrow> in_group G y \<Longrightarrow> in_group G (mul_mod_p E G x y)"
  by (simp add: mul_mod_p_eq in_group_mult)

lemma pow_add:
  assumes "group_ok G" "0 \<le> d" "0 \<le> e"
  shows "mul_mod_p E G (pow_mod_p E G x d) (pow_mod_p E G x e) = pow_mod_p E G x (d + e)"
  using assms by (simp add: arith_eqs nat_add_distrib power_add mod_mult_eq)

lemma pow_pow:
  assumes "group_ok G" "0 \<le> d" "0 \<le> e"
  shows "pow_mod_p E G (pow_mod_p E G x d) e = pow_mod_p E G x (d * e)"
  using assms by (simp add: arith_eqs nat_mult_distrib power_mult power_mod)

lemma pow_mul:
  assumes "group_ok G" "0 \<le> e"
  shows "pow_mod_p E G (mul_mod_p E G x y) e = mul_mod_p E G (pow_mod_p E G x e) (pow_mod_p E G y e)"
  using assms by (simp add: arith_eqs power_mod power_mult_distrib mod_mult_eq)

lemma pow_cong_q:
  assumes "group_ok G" "in_group G x" "0 \<le> d" "0 \<le> e" "d mod par_q G = e mod par_q G"
  shows "pow_mod_p E G x d = pow_mod_p E G x e"
  using in_group_exp_cong [OF assms] assms(1,3,4) by (simp only: pow_mod_p_eq)

lemma mul_assoc:
  "group_ok G \<Longrightarrow> mul_mod_p E G (mul_mod_p E G a b) c = mul_mod_p E G a (mul_mod_p E G b c)"
  by (simp only: mul_mod_p_eq mod_mult_left_eq mod_mult_right_eq mult.assoc)

lemma mul_commute: "mul_mod_p E G a b = mul_mod_p E G b a"
  by (simp add: mul_mod_p_def mult.commute)

lemma mul_left_commute:
  "group_ok G \<Longrightarrow> mul_mod_p E G a (mul_mod_p E G b c) = mul_mod_p E G b (mul_mod_p E G a c)"
  by (simp add: mul_mod_p_eq mod_mult_right_eq mult.left_commute)

lemmas mul_ac = mul_assoc mul_commute mul_left_commute

text \<open>The response \<open>u + c * s\<close> of a proof, computed modulo \<open>q\<close>.\<close>

lemma response_power:
  assumes "group_ok G" "in_group G x" "0 \<le> u" "0 \<le> c" "0 \<le> s"
  shows "pow_mod_p E G x (add_mod_q E G u (mul_mod_q E G c s))
    = mul_mod_p E G (pow_mod_p E G x u) (pow_mod_p E G (pow_mod_p E G x s) c)"
proof -
  have "pow_mod_p E G x (add_mod_q E G u (mul_mod_q E G c s)) = pow_mod_p E G x (u + s * c)"
    using assms
    by (intro pow_cong_q) (simp_all add: add_mod_q_eq mul_mod_q_eq mod_add_right_eq mult.commute)
  with assms show ?thesis by (simp add: pow_pow pow_add)
qed

lemma div_mul:
  assumes "group_ok G" "in_group G b"
  shows "mul_mod_p E G (div_mod_p E G a b) b = a mod par_p G"
  using assms by (simp add: mul_mod_p_eq div_mod_p_mult in_group_coprime)

lemma div_pow_mul [simp]:
  assumes "group_ok G" "in_group G b" "0 \<le> e" "0 \<le> c"
  shows "mul_mod_p E G (div_mod_p E G (pow_mod_p E G a e) (pow_mod_p E G b c)) (pow_mod_p E G b c)
    = pow_mod_p E G a e"
  using assms by (simp add: div_mul) (simp add: pow_mod_p_eq)

lemma pow_reduced [simp]: "group_ok G \<Longrightarrow> 0 \<le> e \<Longrightarrow> pow_mod_p E G a e mod par_p G = pow_mod_p E G a e"
  by (simp add: pow_mod_p_eq)

lemma mul_one [simp]:
  "group_ok G \<Longrightarrow> mul_mod_p E G a 1 = a mod par_p G"
  "group_ok G \<Longrightarrow> mul_mod_p E G 1 a = a mod par_p G"
  by (simp_all add: mul_mod_p_eq)

lemma pow_one [simp]: "group_ok G \<Longrightarrow> 0 \<le> e \<Longrightarrow> pow_mod_p E G 1 e = 1"
  by (simp add: pow_mod_p_eq)

lemma mul_reduced [simp]: "group_ok G \<Longrightarrow> mul_mod_p E G a b mod par_p G = mul_mod_p E G a b"
  by (simp add: mul_mod_p_eq)

end

section \<open>The proof of a partial decryption\<close>

text \<open>What the generation leaves behind.\<close>

lemma generate_decryption_cp_proof_Some:
  assumes "Crypto_generate_decryption_cp_proof E G dev secret M enc base_hash = Some proof"
  obtains source u c where "u = fst (snd (RandomSource_uniform_bignum_o_q E G 0 source))"
    "\<exists>context. c = Crypto_hash_final E G context"
    "proof = \<lparr>cp_commitment = \<lparr>nonce_encoding = pow_mod_p E G (generator G) u,
        message_encoding = pow_mod_p E G (nonce_encoding enc) u\<rparr>,
      cp_challenge = c, cp_response = add_mod_q E G u (mul_mod_q E G c secret)\<rparr>"
proof -
  obtain source where s: "snd (RandomSource_new E dev) = Some source"
    using assms by (auto simp: Crypto_generate_decryption_cp_proof_def bind_eq_Some_conv)
  obtain st u s' where r: "RandomSource_uniform_bignum_o_q E G 0 source = (st, u, s')"
    by (rule prod_cases3)
  have "\<exists>context. proof = \<lparr>cp_commitment = \<lparr>nonce_encoding = pow_mod_p E G (generator G) u,
        message_encoding = pow_mod_p E G (nonce_encoding enc) u\<rparr>,
      cp_challenge = Crypto_hash_final E G context,
      cp_response = add_mod_q E G u (mul_mod_q E G (Crypto_hash_final E G context) secret)\<rparr>"
    using assms s r by (auto simp: Crypto_generate_decryption_cp_proof_def bind_eq_Some_conv Let_def)
  with r that [of u source] show thesis by fastforce
qed

lemma inverse_exists:
  fixes a q :: int
  assumes "coprime a q" "1 < q"
  shows "\<exists>i\<ge>0. (a * i) mod q = 1"
proof -
  obtain u v where "u * a + v * q = 1"
    using bezout_int [of a q] assms(1) by (auto simp: coprime_iff_gcd_eq_1)
  then have "(a * (u mod q)) mod q = 1"
    using assms(2) by (metis mod_mult_self1 mod_mult_right_eq mult.commute mod_pos_pos_trivial zero_le_one)
  then show ?thesis using assms(2) by (intro exI [of _ "u mod q"]) simp
qed

context platform
begin

lemma decryption_proof_complete:
  assumes "group_ok G" "in_group G (nonce_encoding enc)" "0 \<le> secret"
    and "Crypto_generate_decryption_cp_proof E G dev secret M enc base_hash = Some proof"
    and M: "M = pow_mod_p E G (nonce_encoding enc) secret"
  shows "Crypto_check_decryption_cp_proof E G proof (pow_mod_p E G (generator G) secret) M enc base_hash'"
  using assms(4)
proof (rule generate_decryption_cp_proof_Some)
  fix source u c
  assume u: "u = fst (snd (RandomSource_uniform_bignum_o_q E G 0 source))"
    and c: "\<exists>context. c = Crypto_hash_final E G context"
    and p: "proof = \<lparr>cp_commitment = \<lparr>nonce_encoding = pow_mod_p E G (generator G) u,
        message_encoding = pow_mod_p E G (nonce_encoding enc) u\<rparr>,
      cp_challenge = c, cp_response = add_mod_q E G u (mul_mod_q E G c secret)\<rparr>"
  have "0 \<le> u" "0 \<le> c" using u c assms(1) by (auto simp: uniform_q_nonneg)
  with assms(1,2,3) show ?thesis
    by (simp add: Crypto_check_decryption_cp_proof_def p M Let_def response_power)
qed

text \<open>
  Special soundness: the check equations force the partial decryption to be made with the secret
  key, as soon as one commitment is answered for two challenges.
\<close>

lemma transcripts_witness:
  assumes G: "group_ok G" and x: "in_group G x" "in_group G y" "y = y mod par_p G"
    and n: "0 \<le> c" "0 \<le> d" "0 \<le> v" "0 \<le> w" and inv: "0 \<le> i" "((c - d) * i) mod par_q G = 1"
    and acc: "pow_mod_p E G x v = mul_mod_p E G a (pow_mod_p E G y c)"
      "pow_mod_p E G x w = mul_mod_p E G a (pow_mod_p E G y d)"
  shows "y = pow_mod_p E G x (((v - w) * i) mod par_q G)"
proof -
  let ?q = "par_q G" and ?P = "pow_mod_p E G" and ?M = "mul_mod_p E G"
  define w' d' where "w' = (- w) mod ?q" and "d' = (- d) mod ?q"
  note defs = w'_def d'_def
  have pos: "0 \<le> w'" "0 \<le> d'" using G by (simp_all add: defs)
  have q: "(w + w') mod ?q = 0" "(d + d') mod ?q = 0"
    by (simp_all add: defs mod_add_right_eq)
  have qi: "((v + w') * i) mod ?q = ((v - w) * i) mod ?q" "((c + d') * i) mod ?q = 1"
    using inv(2) mod_mult_left_eq [of "v + w'" ?q i] mod_mult_left_eq [of "c + d'" ?q i]
      mod_mult_left_eq [of "v - w" ?q i] mod_mult_left_eq [of "c - d" ?q i]
    by (simp_all add: defs mod_add_right_eq)
  have one: "?P x (w + w') = 1" "?P y (d + d') = 1"
    using pow_cong_q [OF G x(1), of "w + w'" 0] pow_cong_q [OF G x(2), of "d + d'" 0] G n pos q
    by (simp_all add: pow_mod_p_eq)
  have "?P x (v + w') = ?M (?M (?P x v) (?P x w')) (?P y (d + d'))"
    using G n pos one by (simp only: pow_add add_nonneg_nonneg)
      (simp add: mul_mod_p_eq pow_mod_p_eq)
  also have "\<dots> = ?M (?P x (w + w')) (?P y (c + d'))"
    using G n pos by (simp add: acc mul_ac flip: pow_add)
  also have "\<dots> = ?P y (c + d')"
    using one G n pos by (simp add: mul_mod_p_eq pow_mod_p_eq)
  finally have e: "?P (?P x (v + w')) i = ?P (?P y (c + d')) i" by simp
  have "?P x (((v - w) * i) mod ?q) = ?P x ((v + w') * i)"
    using G x n pos inv qi by (intro pow_cong_q) simp_all
  also have "\<dots> = ?P y ((c + d') * i)"
    using e G n pos inv by (simp add: pow_pow)
  also have "\<dots> = ?P y 1"
    using G x n pos inv qi by (intro pow_cong_q) simp_all
  also have "\<dots> = y" using G x(3) by (simp add: pow_mod_p_eq)
  finally show ?thesis ..
qed

lemma decryption_proof_sound:
  assumes G: "group_ok G" and grp: "in_group G A" "in_group G pk" "in_group G M"
    and red: "pk = pk mod par_p G" "M = M mod par_p G"
    and acc: "Crypto_check_decryption_cp_proof E G \<lparr>cp_commitment = com, cp_challenge = c, cp_response = v\<rparr>
        pk M \<lparr>nonce_encoding = A, message_encoding = B\<rparr> h"
      "Crypto_check_decryption_cp_proof E G \<lparr>cp_commitment = com, cp_challenge = d, cp_response = w\<rparr>
        pk M \<lparr>nonce_encoding = A, message_encoding = B\<rparr> h"
    and n: "0 \<le> c" "0 \<le> d" "0 \<le> v" "0 \<le> w" and co: "coprime (c - d) (par_q G)"
  shows "\<exists>s. 0 \<le> s \<and> s < par_q G \<and> pk = pow_mod_p E G (generator G) s \<and> M = pow_mod_p E G A s"
proof -
  obtain i where i: "0 \<le> i" "((c - d) * i) mod par_q G = 1"
    using inverse_exists [OF co] G by auto
  let ?s = "((v - w) * i) mod par_q G"
  have "pk = pow_mod_p E G (generator G) ?s" "M = pow_mod_p E G A ?s"
    using acc G by (auto simp: Crypto_check_decryption_cp_proof_def Let_def
        intro!: transcripts_witness [OF G _ _ _ n i] grp red)
  then show ?thesis using G by (intro exI [of _ ?s]) simp
qed

text \<open>
  What the checks accept without any witness: they compare with the challenge stored in the proof,
  so that the commitment can be chosen after challenge and response.
\<close>

lemma decryption_proof_forged:
  assumes "group_ok G" "in_group G pk" "in_group G M" "0 \<le> c" "0 \<le> v"
  shows "Crypto_check_decryption_cp_proof E G
    \<lparr>cp_commitment =
       \<lparr>nonce_encoding = div_mod_p E G (pow_mod_p E G (generator G) v) (pow_mod_p E G pk c),
        message_encoding = div_mod_p E G (pow_mod_p E G (nonce_encoding enc) v) (pow_mod_p E G M c)\<rparr>,
     cp_challenge = c, cp_response = v\<rparr> pk M enc h"
  using assms by (simp add: Crypto_check_decryption_cp_proof_def Let_def)

section \<open>The proof of an aggregate\<close>

lemma aggregate_proof_complete:
  assumes G: "group_ok G" "in_group G pk" and r: "0 \<le> nonce"
    and gen: "Crypto_generate_aggregate_cp_proof E G source nonce enc h pk = Some (proof, source')"
    and enc: "enc = \<lparr>nonce_encoding = pow_mod_p E G (generator G) nonce,
      message_encoding = mul_mod_p E G (pow_mod_p E G (generator G) (uint l)) (pow_mod_p E G pk nonce)\<rparr>"
  shows "Crypto_check_aggregate_cp_proof E G proof enc h pk l = Some True"
proof -
  obtain st u s' where s: "RandomSource_uniform_bignum_o_q E G 0 source = (st, u, s')"
    by (rule prod_cases3)
  have u: "0 \<le> u" using uniform_q_nonneg [of 0 G source] s by simp
  let ?com = "\<lparr>nonce_encoding = pow_mod_p E G (generator G) u, message_encoding = pow_mod_p E G pk u\<rparr>"
  obtain c where c: "Crypto_cp_proof_challenge E G enc ?com h = Some c"
    and p: "proof = \<lparr>cp_commitment = ?com, cp_challenge = c, cp_response = add_mod_q E G u (mul_mod_q E G c nonce)\<rparr>"
    using gen s by (auto simp: Crypto_generate_aggregate_cp_proof_def bind_eq_Some_conv Let_def)
  have c0: "0 \<le> c" using c G by (auto simp: Crypto_cp_proof_challenge_def bind_eq_Some_conv)
  have l: "pow_mod_p E G (generator G) (mul_mod_q E G (uint l) c)
      = pow_mod_p E G (pow_mod_p E G (generator G) (uint l)) c"
    using G c0 by (simp add: pow_pow) (rule pow_cong_q, simp_all add: mul_mod_q_eq)
  show ?thesis
    using G r u c0 by (simp add: Crypto_check_aggregate_cp_proof_def p c)
      (simp add: enc Let_def response_power l pow_mul mul_ac)
qed

section \<open>The proof of a single selection\<close>

lemma fake_commitment_accepted:
  assumes "group_ok G" "in_group G A" "in_group G B" "0 \<le> c" "0 \<le> v"
    and com: "com = dis_fake_commitment E G selected pk \<lparr>nonce_encoding = A, message_encoding = B\<rparr> c v"
  shows "mul_mod_p E G (nonce_encoding com) (pow_mod_p E G A c) = pow_mod_p E G (generator G) v"
    and "mul_mod_p E G (message_encoding com) (pow_mod_p E G B c) =
      (if selected then pow_mod_p E G pk v
       else mul_mod_p E G (pow_mod_p E G (generator G) c) (pow_mod_p E G pk v))"
proof -
  show "mul_mod_p E G (nonce_encoding com) (pow_mod_p E G A c) = pow_mod_p E G (generator G) v"
    using assms by (simp add: dis_fake_commitment_def Let_def)
  show "mul_mod_p E G (message_encoding com) (pow_mod_p E G B c) =
      (if selected then pow_mod_p E G pk v
       else mul_mod_p E G (pow_mod_p E G (generator G) c) (pow_mod_p E G pk v))"
    using assms by (simp add: dis_fake_commitment_def Let_def div_mul mul_commute [of _ _ "pow_mod_p E G pk v"])
qed

end

text \<open>What the generation of a disjunctive proof leaves behind.\<close>

lemma generate_dis_proof_Some:
  assumes "Crypto_generate_dis_proof E G source h selected pk enc nonce = Some (proof, source')"
  obtains u f w c s1 s2 where
    "u = fst (snd (RandomSource_uniform_bignum_o_q E G 0 source))"
    "f = fst (snd (RandomSource_uniform_bignum_o E 0 s1))"
    "w = fst (snd (RandomSource_uniform_bignum_o E 0 s2))"
    "\<exists>context. c = Crypto_hash_final E G context"
    "proof = (let real = \<lparr>nonce_encoding = pow_mod_p E G (generator G) u, message_encoding = pow_mod_p E G pk u\<rparr>;
                  fake = dis_fake_commitment E G selected pk enc f w;
                  rc = sub_mod_q E G c f; rr = add_mod_q E G u (mul_mod_q E G rc nonce)
      in if selected
         then \<lparr>commitment0 = fake, commitment1 = real, dis_challenge = c, challenge0 = f, challenge1 = rc,
               response0 = w, response1 = rr\<rparr>
         else \<lparr>commitment0 = real, commitment1 = fake, dis_challenge = c, challenge0 = rc, challenge1 = f,
               response0 = rr, response1 = w\<rparr>)"
proof -
  obtain st u s1 where 1: "RandomSource_uniform_bignum_o_q E G 0 source = (st, u, s1)"
    by (rule prod_cases3)
  obtain st' f s2 where 2: "RandomSource_uniform_bignum_o E 0 s1 = (st', f, s2)" by (rule prod_cases3)
  obtain st'' w s3 where 3: "RandomSource_uniform_bignum_o E 0 s2 = (st'', w, s3)" by (rule prod_cases3)
  have "\<exists>context. proof = (let real = \<lparr>nonce_encoding = pow_mod_p E G (generator G) u, message_encoding = pow_mod_p E G pk u\<rparr>;
                  fake = dis_fake_commitment E G selected pk enc f w;
                  c = Crypto_hash_final E G context;
                  rc = sub_mod_q E G c f; rr = add_mod_q E G u (mul_mod_q E G rc nonce)
      in if selected
         then \<lparr>commitment0 = fake, commitment1 = real, dis_challenge = c, challenge0 = f, challenge1 = rc,
               response0 = w, response1 = rr\<rparr>
         else \<lparr>commitment0 = real, commitment1 = fake, dis_challenge = c, challenge0 = rc, challenge1 = f,
               response0 = rr, response1 = w\<rparr>)"
    using assms by (auto simp: Crypto_generate_dis_proof_def 1 2 3 bind_eq_Some_conv Let_def)
  then show thesis
    using that [of u f s1 w s2] 1 2 3 by (auto simp: Let_def)
qed

context platform
begin

lemma dis_proof_complete:
  assumes G: "group_ok G" "in_group G pk" and r: "0 \<le> nonce"
    and gen: "Crypto_generate_dis_proof E G source h selected pk enc nonce = Some (proof, source')"
    and A: "nonce_encoding enc = pow_mod_p E G (generator G) nonce"
    and B: "message_encoding enc
      = mul_mod_p E G (pow_mod_p E G pk nonce) (if selected then generator G else 1)"
  shows "Crypto_check_dis_proof E G proof enc h' pk"
  using gen
proof (rule generate_dis_proof_Some)
  fix u f w c s1 s2
  assume "u = fst (snd (RandomSource_uniform_bignum_o_q E G 0 source))"
    "f = fst (snd (RandomSource_uniform_bignum_o E 0 s1))"
    "w = fst (snd (RandomSource_uniform_bignum_o E 0 s2))"
    and c: "\<exists>context. c = Crypto_hash_final E G context"
    and p: "proof = (let real = \<lparr>nonce_encoding = pow_mod_p E G (generator G) u, message_encoding = pow_mod_p E G pk u\<rparr>;
                  fake = dis_fake_commitment E G selected pk enc f w;
                  rc = sub_mod_q E G c f; rr = add_mod_q E G u (mul_mod_q E G rc nonce)
      in if selected
         then \<lparr>commitment0 = fake, commitment1 = real, dis_challenge = c, challenge0 = f, challenge1 = rc,
               response0 = w, response1 = rr\<rparr>
         else \<lparr>commitment0 = real, commitment1 = fake, dis_challenge = c, challenge0 = rc, challenge1 = f,
               response0 = rr, response1 = w\<rparr>)"
  then have n: "0 \<le> u" "0 \<le> f" "0 \<le> w" by (simp_all add: uniform_q_nonneg uniform_bignum_nonneg)
  have "c = c mod par_q G"
    using c G by (auto simp: Crypto_hash_final_def Crypto_hash_reduce_def mod_q_eq)
  then have sum: "(f + (c - f) mod par_q G) mod par_q G = c" "((c - f) mod par_q G + f) mod par_q G = c"
    by (simp_all add: mod_add_right_eq mod_add_left_eq)
  have grp: "in_group G (nonce_encoding enc)" "in_group G (message_encoding enc)"
    using G r by (simp_all add: A B)
  have enc: "enc = \<lparr>nonce_encoding = nonce_encoding enc, message_encoding = message_encoding enc\<rparr>" by simp
  note fake = fake_commitment_accepted [OF G(1) grp n(2,3), of _ selected pk, folded enc, OF refl]
  show ?thesis
  proof (cases selected)
    case True
    then show ?thesis
      using G r n fake by (simp add: Crypto_check_dis_proof_def p Let_def add_mod_q_eq sub_mod_q_eq sum)
        (simp add: A B sub_mod_q_eq [symmetric] add_mod_q_eq [symmetric] response_power pow_mul mul_ac)
  next
    case False
    then show ?thesis
      using G r n fake by (simp add: Crypto_check_dis_proof_def p Let_def add_mod_q_eq sub_mod_q_eq sum)
        (simp add: A B sub_mod_q_eq [symmetric] add_mod_q_eq [symmetric] response_power pow_mul mul_ac)
  qed
qed

text \<open>
  Special soundness: for a prime \<open>q\<close>, two accepted proofs with the same commitments and different
  challenges show that the encryption is one of 0 or of 1.
\<close>

lemma coprime_difference:
  fixes a b q :: int
  assumes "is_prime (nat q)" "a mod q \<noteq> b mod q"
  shows "coprime (a - b) q"
proof -
  have "\<not> q dvd a - b" using assms(2) by (simp add: mod_eq_dvd_iff)
  moreover have q: "0 < q" using assms(1) by (simp add: is_prime_def)
  ultimately have "\<not> nat q dvd nat \<bar>a - b\<bar>" by (simp add: nat_dvd_iff)
  then have "coprime (nat q) (nat \<bar>a - b\<bar>)" using assms(1) by (rule is_prime_coprime [rotated])
  then have "coprime (int (nat q)) (int (nat \<bar>a - b\<bar>))" by (simp only: coprime_int_iff)
  then have "coprime q \<bar>a - b\<bar>" using q by simp
  then show ?thesis by (simp add: coprime_commute)
qed

lemma dis_proof_sound:
  assumes G: "group_ok G" "is_prime (nat (par_q G))"
    and grp: "in_group G pk" "in_group G (nonce_encoding enc)" "in_group G (message_encoding enc)"
    and red: "nonce_encoding enc = nonce_encoding enc mod par_p G"
      "message_encoding enc = message_encoding enc mod par_p G"
    and acc: "Crypto_check_dis_proof E G proof enc h pk" "Crypto_check_dis_proof E G proof' enc h pk"
    and com: "commitment0 proof' = commitment0 proof" "commitment1 proof' = commitment1 proof"
    and chal: "dis_challenge proof \<noteq> dis_challenge proof'"
    and n: "0 \<le> challenge0 proof" "0 \<le> challenge1 proof" "0 \<le> response0 proof" "0 \<le> response1 proof"
      "0 \<le> challenge0 proof'" "0 \<le> challenge1 proof'" "0 \<le> response0 proof'" "0 \<le> response1 proof'"
  shows "\<exists>r. 0 \<le> r \<and> r < par_q G \<and> nonce_encoding enc = pow_mod_p E G (generator G) r \<and>
    (message_encoding enc = pow_mod_p E G pk r \<or>
     message_encoding enc = mul_mod_p E G (generator G) (pow_mod_p E G pk r))"
proof -
  let ?q = "par_q G" and ?P = "pow_mod_p E G" and ?M = "mul_mod_p E G" and ?g = "generator G"
  let ?A = "nonce_encoding enc" and ?B = "message_encoding enc"
  note eqs = acc [unfolded Crypto_check_dis_proof_def Let_def]
  have "dis_challenge proof = (challenge0 proof + challenge1 proof) mod ?q"
    "dis_challenge proof' = (challenge0 proof' + challenge1 proof') mod ?q"
    using eqs G by (simp_all add: add_mod_q_eq)
  with chal have "challenge0 proof mod ?q \<noteq> challenge0 proof' mod ?q \<or> challenge1 proof mod ?q \<noteq> challenge1 proof' mod ?q"
    by (metis mod_add_eq)
  then show ?thesis
  proof
    assume "challenge0 proof mod ?q \<noteq> challenge0 proof' mod ?q"
    from inverse_exists [OF coprime_difference [OF G(2) this]] G
    obtain i where i: "0 \<le> i" "((challenge0 proof - challenge0 proof') * i) mod ?q = 1" by auto
    let ?s = "((response0 proof - response0 proof') * i) mod ?q"
    have "?A = ?P ?g ?s" "?B = ?P pk ?s"
      using eqs com G n by (auto intro!: transcripts_witness [OF _ _ _ _ n(1,5,3,7) i] grp red)
    then show ?thesis using G by (intro exI [of _ ?s]) simp
  next
    assume "challenge1 proof mod ?q \<noteq> challenge1 proof' mod ?q"
    from inverse_exists [OF coprime_difference [OF G(2) this]] G
    obtain i where i: "0 \<le> i" "((challenge1 proof - challenge1 proof') * i) mod ?q = 1" by auto
    let ?s = "((response1 proof - response1 proof') * i) mod ?q" and ?h = "?P ?g (?q - 1)"
    have q: "0 \<le> ?q - 1" using G by (simp add: order_less_imp_le)
    have hg: "in_group G (?M ?B ?h)" using G(1) grp q by (intro mul_in_group pow_in_group) simp_all
    have gh: "?M ?g ?h = 1"
    proof -
      have "?M (?P ?g 1) ?h = ?P ?g (1 + (?q - 1))" using G(1) q by (intro pow_add) simp_all
      also have "\<dots> = ?P ?g 0" using G(1) by (intro pow_cong_q) simp_all
      finally show ?thesis
        using G by (simp add: pow_mod_p_eq mul_mod_p_eq mod_mult_left_eq)
    qed
    have gc: "?M (?P ?g c) (?P ?h c) = 1" if "0 \<le> c" for c
      using that G by (simp add: gh flip: pow_mul)
    have "?P pk v = ?M b (?P (?M ?B ?h) c)"
      if "?M (?P ?g c) (?P pk v) = ?M b (?P ?B c)" "0 \<le> c" "0 \<le> v" for b c v
    proof -
      have "?P pk v = ?M (?M (?P ?g c) (?P ?h c)) (?P pk v)" using gc that G by simp
      also have "\<dots> = ?M (?M (?P ?g c) (?P pk v)) (?P ?h c)" using G by (simp add: mul_ac)
      also have "\<dots> = ?M b (?P (?M ?B ?h) c)" using that G by (simp add: pow_mul mul_ac)
      finally show ?thesis .
    qed
    then have "?A = ?P ?g ?s" "?M ?B ?h = ?P pk ?s"
      using eqs com G n q by (auto intro!: transcripts_witness [OF _ _ _ _ n(2,6,4,8) i] grp red hg)
    moreover have "?B = ?M ?g (?M ?B ?h)"
    proof -
      have "?M ?g (?M ?B ?h) = ?M ?B (?M ?g ?h)" using G by (simp add: mul_ac)
      then show ?thesis using gh red G by simp
    qed
    ultimately show ?thesis using G by (intro exI [of _ ?s]) simp
  qed
qed

text \<open>Both halves of a proof can be made up, whatever the encryption contains.\<close>

lemma dis_proof_forged:
  assumes "group_ok G" "in_group G (nonce_encoding enc)" "in_group G (message_encoding enc)"
    and "0 \<le> c0" "0 \<le> c1" "0 \<le> v0" "0 \<le> v1"
  shows "Crypto_check_dis_proof E G
    \<lparr>commitment0 = dis_fake_commitment E G True pk enc c0 v0,
     commitment1 = dis_fake_commitment E G False pk enc c1 v1,
     dis_challenge = add_mod_q E G c0 c1, challenge0 = c0, challenge1 = c1,
     response0 = v0, response1 = v1\<rparr> enc h pk"
proof -
  have enc: "enc = \<lparr>nonce_encoding = nonce_encoding enc, message_encoding = message_encoding enc\<rparr>" by simp
  note a = fake_commitment_accepted [OF assms(1-3), folded enc]
  show ?thesis
    by (simp add: Crypto_check_dis_proof_def Let_def a(1) [OF assms(4,6) refl] a(2) [OF assms(4,6) refl]
        a(1) [OF assms(5,7) refl] a(2) [OF assms(5,7) refl])
qed

section \<open>Key generation\<close>

text \<open>A key pair: as many coefficients as the threshold, each with its commitment.\<close>

lemma coefficients_loop:
  assumes "loop n (gen_coefficients_step E G) (st, cs, ks, src) = Some (st', cs', ks', src')"
    and "group_ok G" "length cs = MAX_TRUSTEES" "length ks = MAX_TRUSTEES" "\<forall>a \<in> set cs. 0 \<le> a"
  shows "length cs' = MAX_TRUSTEES \<and> length ks' = MAX_TRUSTEES \<and> (\<forall>a \<in> set cs'. 0 \<le> a) \<and>
    (st' = CRYPTO_SUCCESS \<longrightarrow> (\<forall>j<n. ks' ! j = pow_mod_p E G (generator G) (cs' ! j)))"
proof -
  let ?P = "\<lambda>i (st', cs', ks', src' :: random_source). length cs' = MAX_TRUSTEES \<and> length ks' = MAX_TRUSTEES \<and>
    (\<forall>a \<in> set cs'. 0 \<le> a) \<and>
    (st' = CRYPTO_SUCCESS \<longrightarrow> (\<forall>j<i. ks' ! j = pow_mod_p E G (generator G) (cs' ! j)))"
  have "?P n (st', cs', ks', src')"
  proof (rule loop_invariant [OF assms(1)])
    show "?P 0 (st, cs, ks, src)" using assms by simp
    fix i s t assume i: "i < n" and P: "?P i s" and step: "gen_coefficients_step E G i s = Some t"
    obtain st cs ks src where s: "s = (st, cs, ks, src)" by (cases s) auto
    show "?P (Suc i) t"
    proof (cases "st = CRYPTO_SUCCESS")
      case True
      obtain rs c src2 where u: "RandomSource_uniform_bignum_o E (cs ! i) src = (rs, c, src2)"
        by (rule prod_cases3)
      have il: "i < length cs"
        using step True by (simp add: gen_coefficients_step_def s bind_eq_Some_conv)
      then have c: "0 \<le> c"
        using uniform_bignum_nonneg [of "cs ! i" src] u P s by auto
      have "\<forall>a \<in> set (cs[i := c]). 0 \<le> a"
        using c P s set_update_subset_insert [of cs i c] by fastforce
      then show ?thesis
        using step P il u True
        by (auto simp: gen_coefficients_step_def s Let_def nth_list_update less_Suc_eq split: if_splits)
    next
      case False
      then show ?thesis using step P by (auto simp: gen_coefficients_step_def s)
    qed
  qed
  then show ?thesis by simp
qed

lemma commitments_loop:
  assumes "loop n (gen_commitments_step E G) (st, us, hs, ctx, src) = Some (st', us', hs', ctx', src')"
    and "group_ok G" "length us = MAX_TRUSTEES" "length hs = MAX_TRUSTEES" "\<forall>a \<in> set us. 0 \<le> a"
  shows "length us' = MAX_TRUSTEES \<and> length hs' = MAX_TRUSTEES \<and> (\<forall>a \<in> set us'. 0 \<le> a) \<and>
    (st' = CRYPTO_SUCCESS \<longrightarrow> (\<forall>j<n. hs' ! j = pow_mod_p E G (generator G) (us' ! j)))"
proof -
  let ?P = "\<lambda>i (st', us', hs', ctx' :: u8 list, src' :: random_source).
    length us' = MAX_TRUSTEES \<and> length hs' = MAX_TRUSTEES \<and> (\<forall>a \<in> set us'. 0 \<le> a) \<and>
    (st' = CRYPTO_SUCCESS \<longrightarrow> (\<forall>j<i. hs' ! j = pow_mod_p E G (generator G) (us' ! j)))"
  have "?P n (st', us', hs', ctx', src')"
  proof (rule loop_invariant [OF assms(1)])
    show "?P 0 (st, us, hs, ctx, src)" using assms by simp
    fix i s t assume i: "i < n" and P: "?P i s" and step: "gen_commitments_step E G i s = Some t"
    obtain st us hs ctx src where s: "s = (st, us, hs, ctx, src)" by (cases s) auto
    show "?P (Suc i) t"
    proof (cases "st = CRYPTO_SUCCESS")
      case True
      obtain rs c src2 where u: "RandomSource_uniform_bignum_o_q E G (us ! i) src = (rs, c, src2)"
        by (rule prod_cases3)
      have il: "i < length us"
        using step True by (simp add: gen_commitments_step_def s bind_eq_Some_conv)
      then have c: "0 \<le> c"
        using uniform_q_nonneg [of "us ! i" G src] u P s by auto
      have "\<forall>a \<in> set (us[i := c]). 0 \<le> a"
        using c P s set_update_subset_insert [of us i c] by fastforce
      then show ?thesis
        using step P il u True
        by (auto simp: gen_commitments_step_def s Let_def bind_eq_Some_conv nth_list_update less_Suc_eq
            split: if_splits)
    next
      case False
      then show ?thesis using step P by (auto simp: gen_commitments_step_def s)
    qed
  qed
  then show ?thesis by simp
qed

lemma responses_loop:
  assumes "n \<le> length us" "n \<le> length cs"
  shows "gen_responses E G n c cs us
    = Some (map (\<lambda>i. add_mod_q E G (us ! i) (mul_mod_q E G c (cs ! i))) [0..<n] @ drop n us)"
  unfolding gen_responses_def using assms by (intro loop_fill_old) simp_all

end

lemma loop_constant: "(\<And>i. i < n \<Longrightarrow> f i s = Some s) \<Longrightarrow> loop n f s = Some s"
  by (induction n) auto

text \<open>The commitments of a public key belong to the coefficients of a private key.\<close>

definition key_matches :: "env \<Rightarrow> params \<Rightarrow> private_key \<Rightarrow> public_key \<Rightarrow> bool" where
  "key_matches E G priv pub \<longleftrightarrow>
     priv_threshold priv = pub_threshold pub \<and> unat (pub_threshold pub) \<le> MAX_TRUSTEES \<and>
     length (coefficients priv) = MAX_TRUSTEES \<and> length (coef_commitments pub) = MAX_TRUSTEES \<and>
     (\<forall>j < unat (pub_threshold pub). 0 \<le> coefficients priv ! j \<and>
        coef_commitments pub ! j = pow_mod_p E G (generator G) (coefficients priv ! j))"

text \<open>Initialising the arrays: the bound on the number of coefficients comes from here.\<close>

lemma mpz_init_n_eq: "n \<le> length xs \<Longrightarrow> mpz_init_n n xs = Some (replicate n 0 @ drop n xs)"
  using loop_fill_old [of n xs "\<lambda>i ys. arr_set ys i 0" "\<lambda>_. 0"]
  by (simp add: mpz_init_n_def map_replicate_const)

lemma mpz_init_n_None:
  assumes "length xs < n"
  shows "mpz_init_n n xs = None"
proof -
  obtain k where n: "n = Suc (length xs + k)" using assms less_imp_Suc_add by blast
  have "mpz_init_n (Suc (length xs)) xs = None"
    using mpz_init_n_eq [of "length xs" xs] by (simp add: mpz_init_n_def)
  then show ?thesis
    unfolding n by (induction k) (simp_all add: mpz_init_n_def)
qed

lemma mpz_init_n_blank: "n \<le> MAX_TRUSTEES \<Longrightarrow> mpz_init_n n blank_array = Some blank_array"
  by (simp add: mpz_init_n_eq blank_array_def flip: replicate_add)

lemma length_blank [simp]: "length blank_array = MAX_TRUSTEES" "\<forall>a \<in> set blank_array. 0 \<le> a"
  by (simp_all add: blank_array_def)

text \<open>More coefficients than \<open>MAX_TRUSTEES\<close> overflow the arrays of the keys.\<close>

lemma gen_keypair_overflow:
  "MAX_TRUSTEES < unat t \<Longrightarrow> Crypto_gen_keypair E G dev t h = None"
  by (simp add: Crypto_gen_keypair_def Crypto_private_key_init_def mpz_init_n_None)

context platform
begin

lemma gen_keypair_proof:
  assumes G: "group_ok G" and gen: "Crypto_gen_keypair E G dev t h = Some r"
    and ok: "keypair_status r = CRYPTO_SUCCESS"
  shows "priv_threshold (keypair_private r) = t \<and> key_matches E G (keypair_private r) (keypair_public r) \<and>
    proof_threshold (pub_proof (keypair_public r)) = t \<and> public_key_shape (keypair_public r) \<and>
    Crypto_check_keypair_proof E G (keypair_public r) h' = Some True"
proof -
  let ?n = "unat t"
  have n: "?n \<le> MAX_TRUSTEES" using gen gen_keypair_overflow [of t E G dev h] by fastforce
  obtain rs0 src0 where r0: "RandomSource_new E dev = (rs0, src0)" by fastforce
  define source where "source = (case src0 of None \<Rightarrow> [] | Some s \<Rightarrow> s)"
  note def = gen [unfolded Crypto_gen_keypair_def Crypto_private_key_init_def Crypto_public_key_new_def
      Crypto_schnorr_proof_new_def Let_def]
  have "\<exists>st cs ks s1. loop ?n (gen_coefficients_step E G)
      (Crypto_RandomSource_status_convert rs0, blank_array, blank_array, source) = Some (st, cs, ks, s1)"
    using def n r0 by (auto simp: mpz_init_n_blank bind_eq_Some_conv source_def)
  then obtain st cs ks s1 where l1: "loop ?n (gen_coefficients_step E G)
      (Crypto_RandomSource_status_convert rs0, blank_array, blank_array, source) = Some (st, cs, ks, s1)"
    by blast
  note c1 = coefficients_loop [OF l1 G length_blank(1,1,2)]
  have st: "st = CRYPTO_SUCCESS"
    using def n r0 l1 ok by (auto simp: mpz_init_n_blank source_def keypair_result_def split: if_splits)
  let ?hash = "\<lambda>i context. do { k \<leftarrow> arr_get ks i; Crypto_hash_update_bignum_p E k context }"
  have "\<exists>ctx st2 us hs ctx2 s2.
      loop ?n ?hash (take HASH_DIGEST_SIZE_BYTES h) = Some ctx \<and>
      loop ?n (gen_commitments_step E G) (CRYPTO_SUCCESS, blank_array, blank_array, ctx, s1)
        = Some (st2, us, hs, ctx2, s2)"
    using def n r0 l1 st by (auto simp: mpz_init_n_blank source_def bind_eq_Some_conv)
  then obtain ctx st2 us hs ctx2 s2 where l2: "loop ?n ?hash (take HASH_DIGEST_SIZE_BYTES h) = Some ctx"
    and l3: "loop ?n (gen_commitments_step E G) (CRYPTO_SUCCESS, blank_array, blank_array, ctx, s1)
        = Some (st2, us, hs, ctx2, s2)"
    by blast
  note c2 = commitments_loop [OF l3 G length_blank(1,1,2)]
  define c where "c = Crypto_hash_final E G ctx2"
  define rsp where "rsp = map (\<lambda>i. add_mod_q E G (us ! i) (mul_mod_q E G c (cs ! i))) [0..<?n] @ drop ?n us"
  have rl: "gen_responses E G ?n c cs us = Some rsp"
    unfolding rsp_def using c1 c2 n by (intro responses_loop) simp_all
  have st2: "st2 = CRYPTO_SUCCESS"
    using def n r0 l1 l2 l3 st ok
    by (auto simp: mpz_init_n_blank source_def keypair_result_def split: if_splits)
  have r: "r = keypair_result CRYPTO_SUCCESS t cs ks
      \<lparr>proof_threshold = t, commitments = hs, challenge = c, challenge_responses = rsp\<rparr>"
    using def n r0 l1 l2 l3 st st2 rl
    by (simp add: mpz_init_n_blank source_def flip: c_def)
  have km: "key_matches E G (keypair_private r) (keypair_public r)"
    using c1 st n by (simp add: r keypair_result_def key_matches_def)
  have "check_keypair_step E G (keypair_public r) i True = Some True" if i: "i < ?n" for i
  proof -
    have l: "length rsp = MAX_TRUSTEES" "length ks = MAX_TRUSTEES" "length hs = MAX_TRUSTEES"
      using c1 c2 n by (simp_all add: rsp_def)
    have "rsp ! i = add_mod_q E G (us ! i) (mul_mod_q E G c (cs ! i))"
      using i c2 n by (simp add: rsp_def nth_append)
    moreover have "0 \<le> us ! i" "0 \<le> cs ! i" "0 \<le> c"
      using i n c1 c2 G by (simp_all add: c_def)
    ultimately show ?thesis
      using i n l c1 c2 st st2 G
      by (simp add: check_keypair_step_def r keypair_result_def Let_def response_power)
  qed
  then have "loop ?n (check_keypair_step E G (keypair_public r)) True = Some True"
    by (rule loop_constant)
  then have "Crypto_check_keypair_proof E G (keypair_public r) h' = Some True"
    by (simp add: Crypto_check_keypair_proof_def) (simp add: r keypair_result_def)
  moreover have "public_key_shape (keypair_public r)"
    using c1 c2 n by (simp add: r keypair_result_def public_key_shape_def schnorr_proof_shape_def rsp_def)
  ultimately show ?thesis using km by (simp add: r keypair_result_def)
qed

text \<open>
  The check does not recompute the challenge either: any group elements pass as the commitments of a
  key, with no private key behind them.
\<close>

lemma keypair_proof_forged:
  assumes G: "group_ok G" and n: "unat t \<le> MAX_TRUSTEES" "0 \<le> c"
    and ks: "length ks = MAX_TRUSTEES" "\<forall>k \<in> set ks. in_group G k"
    and vs: "length vs = MAX_TRUSTEES" "\<forall>v \<in> set vs. 0 \<le> v"
  shows "Crypto_check_keypair_proof E G
    \<lparr>pub_threshold = t,
     pub_proof = \<lparr>proof_threshold = t,
       commitments = map2 (\<lambda>k v. div_mod_p E G (pow_mod_p E G (generator G) v) (pow_mod_p E G k c)) ks vs,
       challenge = c, challenge_responses = vs\<rparr>,
     coef_commitments = ks\<rparr> h = Some True"
  unfolding Crypto_check_keypair_proof_def
  using assms by (simp add: loop_constant check_keypair_step_def Let_def)

end

section \<open>Key shares\<close>

text \<open>The value of the polynomial with coefficients \<open>cs\<close>.\<close>

definition polynomial_at :: "int list \<Rightarrow> nat \<Rightarrow> int \<Rightarrow> int" where
  "polynomial_at cs n x = (\<Sum>j<n. cs ! j * x ^ j)"

lemma polynomial_at_nonneg: "\<forall>j<n. 0 \<le> cs ! j \<Longrightarrow> 0 \<le> x \<Longrightarrow> 0 \<le> polynomial_at cs n x"
  unfolding polynomial_at_def by (intro sum_nonneg) simp

context platform
begin

lemma computeTrusteePolynomial_eq:
  assumes G: "group_ok G" and k: "unat (priv_threshold k) \<le> length (coefficients k)"
  shows "computeTrusteePolynomial E G k x
    = Some (polynomial_at (coefficients k) (unat (priv_threshold k)) (uint x) mod par_q G)"
proof -
  have "loop n (\<lambda>i out. do {
          a \<leftarrow> arr_get (coefficients k) i;
          let t_1 = pow_mod_q E G (uint x) (int i);
          let t_2 = mul_mod_q E G a t_1;
          Some (add_mod_q E G out t_2) }) 0
      = Some (polynomial_at (coefficients k) n (uint x) mod par_q G)" if "n \<le> length (coefficients k)" for n
    using that
  proof (induction n)
    case 0
    then show ?case by (simp add: polynomial_at_def)
  next
    case (Suc n)
    then show ?case
      using G by (simp add: Let_def arith_eqs polynomial_at_def mod_add_eq mod_mult_right_eq)
  qed
  with k show ?thesis by (simp add: computeTrusteePolynomial_def)
qed

text \<open>The product of the commitments with exponents \<open>x ^ j\<close> is the power of the polynomial's value.\<close>

lemma commitments_product:
  assumes G: "group_ok G" and x: "0 \<le> x" and m: "key_matches E G priv pub"
    and n: "n \<le> unat (pub_threshold pub)"
  shows "loop n (\<lambda>i out_1. do {
            k \<leftarrow> arr_get (coef_commitments pub) i;
            let exp = x ^ i;
            Some (mul_mod_p E G out_1 (pow_mod_p E G k exp)) }) 1
      = Some (pow_mod_p E G (generator G) (polynomial_at (coefficients priv) n x))"
  using n
proof (induction n)
  case 0
  then show ?case using G by (simp add: polynomial_at_def pow_mod_p_eq)
next
  case (Suc n)
  have c: "0 \<le> coefficients priv ! n" "n < length (coef_commitments pub)"
      "coef_commitments pub ! n = pow_mod_p E G (generator G) (coefficients priv ! n)"
    using m Suc.prems by (simp_all add: key_matches_def)
  have p: "0 \<le> polynomial_at (coefficients priv) n x"
    using m Suc.prems x by (intro polynomial_at_nonneg) (simp_all add: key_matches_def)
  have "polynomial_at (coefficients priv) (Suc n) x
      = polynomial_at (coefficients priv) n x + coefficients priv ! n * x ^ n"
    by (simp add: polynomial_at_def)
  with Suc c p x G show ?case by (simp add: Let_def pow_pow pow_add)
qed

lemma key_share_verifies:
  assumes G: "group_ok G" and m: "key_matches E G priv pub" and rsa: "rsa_pair_ok rsk rpk"
    and q: "par_q G \<le> pub_n rpk"
  shows "\<exists>share. Crypto_create_encrypted_key_share E G rpk priv index = Some share \<and>
    Crypto_check_validity_share_against_public_keys E G share pub rsk (pub_threshold pub) index = Some True"
proof -
  let ?x = "uint (index + 1)" and ?n = "unat (pub_threshold pub)"
  let ?v = "polynomial_at (coefficients priv) ?n ?x"
  have k: "priv_threshold priv = pub_threshold pub" "?n \<le> length (coefficients priv)"
    "\<forall>j < ?n. 0 \<le> coefficients priv ! j"
    using m by (simp_all add: key_matches_def)
  have v: "0 \<le> ?v" using k by (intro polynomial_at_nonneg) simp_all
  have b: "0 \<le> ?v mod par_q G" "?v mod par_q G < pub_n rpk"
    using G q by (auto intro: order_less_le_trans [OF pos_mod_bound])
  have "Crypto_create_encrypted_key_share E G rpk priv index = Some (RSA_Encrypt E (?v mod par_q G) rpk)"
    using k by (simp add: Crypto_create_encrypted_key_share_def computeTrusteePolynomial_eq [OF G])
  moreover have "pow_mod_p E G (generator G) (?v mod par_q G) = pow_mod_p E G (generator G) ?v"
    using G v by (intro pow_cong_q) simp_all
  ultimately show ?thesis
    using commitments_product [OF G _ m order_refl, of ?x] b
    by (simp add: Crypto_check_validity_share_against_public_keys_def rsa_decrypt_encrypt [OF rsa])
qed

section \<open>The joint key and the homomorphism\<close>

lemma joint_key_product:
  assumes G: "group_ok G" and n: "unat n \<le> length keys"
    and ks: "\<forall>i < unat n. 0 < length (coef_commitments (keys ! i)) \<and> 0 \<le> s i \<and>
      coef_commitments (keys ! i) ! 0 = pow_mod_p E G (generator G) (s i)"
  shows "Crypto_generate_joint_public_key E G keys n
    = Some \<lparr>joint_num_trustees = n, joint_key = pow_mod_p E G (generator G) (\<Sum>i<unat n. s i)\<rparr>"
proof -
  have "loop m (\<lambda>i k. do {
            key \<leftarrow> arr_get keys i;
            c \<leftarrow> arr_get (coef_commitments key) 0;
            Some (mul_mod_p E G k c) }) 1
      = Some (pow_mod_p E G (generator G) (\<Sum>i<m. s i))" if "m \<le> unat n" for m
    using that
  proof (induction m)
    case 0
    then show ?case using G by (simp add: pow_mod_p_eq)
  next
    case (Suc m)
    then have "0 \<le> (\<Sum>i<m. s i)" using ks by (intro sum_nonneg) simp
    with Suc ks n G show ?case by (simp add: pow_add)
  qed
  then show ?thesis by (simp add: Crypto_generate_joint_public_key_def)
qed

end

text \<open>Encryptions of \<open>g^m\<close> under nonce \<open>r\<close>; the sum of two is an encryption of the sum.\<close>

definition encrypts :: "env \<Rightarrow> params \<Rightarrow> int \<Rightarrow> int \<Rightarrow> int \<Rightarrow> encryption_rep \<Rightarrow> bool" where
  "encrypts E G pk r m e \<longleftrightarrow> 0 \<le> r \<and> 0 \<le> m \<and>
     nonce_encoding e = pow_mod_p E G (generator G) r \<and>
     message_encoding e = mul_mod_p E G (pow_mod_p E G pk r) (pow_mod_p E G (generator G) m)"

context platform
begin

lemma encrypt_encrypts:
  assumes "group_ok G" "0 \<le> old" "0 \<le> m"
    and "Crypto_encrypt E G source key (pow_mod_p E G (generator G) m) old = (e, r, source')"
  shows "encrypts E G (joint_key key) r m e"
proof -
  obtain st c s where u: "RandomSource_uniform_bignum_o E old source = (st, c, s)" by (rule prod_cases3)
  then have "0 \<le> c" using uniform_bignum_nonneg [of old source] assms(2) by simp
  then show ?thesis using assms u by (auto simp: Crypto_encrypt_def encrypts_def)
qed

lemma zero_encrypts: "group_ok G \<Longrightarrow> encrypts E G pk 0 0 Crypto_encryption_homomorphic_zero"
  by (simp add: encrypts_def Crypto_encryption_homomorphic_zero_def pow_mod_p_eq mul_mod_p_eq)

lemma add_encrypts:
  assumes "group_ok G" "encrypts E G pk r m a" "encrypts E G pk s n b"
  shows "encrypts E G pk (r + s) (m + n) (Crypto_encryption_homomorphic_add E G a b)"
  using assms by (simp add: encrypts_def Crypto_encryption_homomorphic_add_def mul_ac flip: pow_add)

text \<open>The nonce may be reduced modulo \<open>q\<close> (the encrypter adds nonces with \<open>add_mod_q\<close>).\<close>

lemma encrypts_reduce:
  assumes "group_ok G" "in_group G pk" "encrypts E G pk r m e"
  shows "encrypts E G pk (r mod par_q G) m e"
  using assms pow_cong_q [of G "generator G" "r mod par_q G" r] pow_cong_q [of G pk "r mod par_q G" r]
  by (simp add: encrypts_def)

end

end
