(* ===== verification/SerializeMessages.thy ===== *)
theory SerializeMessages
  imports SerializeCrypto
begin

text \<open>
  The message types and their encodings: \<open>keyceremony/message_reps.h\<close>,
  \<open>decryption/message_reps.h\<close>, \<open>voting/message_reps.h\<close>, \<open>trustee_state_rep.h\<close> and
  \<open>serialize/keyceremony.c\<close>, \<open>serialize/decryption.c\<close>, \<open>serialize/voting.c\<close>,
  \<open>serialize/trustee_state.c\<close>. Each type is an instance of the contract \<open>codec\<close>.
\<close>

section \<open>Message data\<close>

record key_generated_rep =
  kg_trustee_index :: u32
  kg_public_key :: public_key
  kg_rsa_public_key :: rsa_public_key

record all_keys_received_rep =
  akr_num_trustees :: u32
  public_keys :: "public_key list"
  rsa_public_keys :: "rsa_public_key list"

record shares_generated_rep =
  sg_trustee_index :: u32
  sg_num_trustees :: u32
  sg_shares :: "encrypted_key_share list"

record all_shares_received_rep =
  asr_num_trustees :: u32
  asr_shares :: "encrypted_key_share list list"

record shares_verified_rep =
  sv_trustee_index :: u32
  sv_verified :: bool

record decryption_share_rep =
  ds_trustee_index :: u32
  ds_num_tallies :: u64
  tally_share :: "encryption_rep list"
  ds_cp_proofs :: "cp_proof_rep list"

record decryption_fragments_request_rep =
  req_num_trustees :: u32
  req_requested :: "bool list"

record decryption_fragments_rep =
  df_trustee_index :: u32
  df_num_trustees :: u32
  df_num_selections :: u32
  df_requested :: "bool list"
  partial_decryption_M :: "int list list"
  lagrange_coefficient :: int
  df_cp_proofs :: "cp_proof_rep list list"

record ballot_tracker_rep =
  tracker_id :: u64

record ballot_identifier_rep =
  identifier_id :: u64

record trustee_state_rep =
  ts_index :: u32
  ts_private_key :: private_key
  ts_my_key_shares :: "encrypted_key_share list"
  ts_rsa_private_key :: rsa_private_key

section \<open>Key ceremony\<close>

definition Serialize_reserve_key_generated :: "key_generated_rep \<Rightarrow> serialize_state \<Rightarrow> serialize_state option" where
  "Serialize_reserve_key_generated data st =
     do {
       st \<leftarrow> Serialize_reserve_uint32 st;
       st \<leftarrow> Serialize_reserve_public_key (kg_public_key data) st;
       Serialize_reserve_rsa_public_key st }"

definition Serialize_write_key_generated ::
    "env \<Rightarrow> key_generated_rep \<Rightarrow> serialize_state \<Rightarrow> serialize_state option" where
  "Serialize_write_key_generated E data st =
     do {
       st \<leftarrow> Serialize_write_uint32 (kg_trustee_index data) st;
       st \<leftarrow> Serialize_write_public_key E (kg_public_key data) st;
       Serialize_write_rsa_public_key E (kg_rsa_public_key data) st }"

definition Serialize_read_key_generated ::
    "env \<Rightarrow> params \<Rightarrow> key_generated_rep \<Rightarrow> serialize_state \<Rightarrow> (key_generated_rep \<times> serialize_state) option" where
  "Serialize_read_key_generated E G old st =
     do {
       (i, st) \<leftarrow> Serialize_read_uint32 st;
       (k, st) \<leftarrow> Serialize_read_public_key E G (kg_public_key old) st;
       (r, st) \<leftarrow> Serialize_read_rsa_public_key E (kg_rsa_public_key old) st;
       Some (old\<lparr>kg_trustee_index := i, kg_public_key := k, kg_rsa_public_key := r\<rparr>, st) }"

definition Serialize_reserve_all_keys_received ::
    "all_keys_received_rep \<Rightarrow> serialize_state \<Rightarrow> serialize_state option" where
  "Serialize_reserve_all_keys_received data st =
     do {
       st \<leftarrow> Serialize_reserve_uint32 st;
       loop (unat (akr_num_trustees data))
         (\<lambda>i st. do {
            k \<leftarrow> arr_get (public_keys data) i;
            st \<leftarrow> Serialize_reserve_public_key k st;
            Serialize_reserve_rsa_public_key st }) st }"

definition Serialize_write_all_keys_received ::
    "env \<Rightarrow> all_keys_received_rep \<Rightarrow> serialize_state \<Rightarrow> serialize_state option" where
  "Serialize_write_all_keys_received E data st =
     do {
       st \<leftarrow> Serialize_write_uint32 (akr_num_trustees data) st;
       loop (unat (akr_num_trustees data))
         (\<lambda>i st. do {
            k \<leftarrow> arr_get (public_keys data) i;
            st \<leftarrow> Serialize_write_public_key E k st;
            r \<leftarrow> arr_get (rsa_public_keys data) i;
            Serialize_write_rsa_public_key E r st }) st }"

definition Serialize_read_all_keys_received ::
    "env \<Rightarrow> params \<Rightarrow> all_keys_received_rep \<Rightarrow> serialize_state \<Rightarrow>
     (all_keys_received_rep \<times> serialize_state) option" where
  "Serialize_read_all_keys_received E G old st =
     do {
       (n, st) \<leftarrow> Serialize_read_uint32 st;
       ((ks, rs), st) \<leftarrow> loop (unat n)
         (\<lambda>i ((ks, rs), st). do {
            (ks, st) \<leftarrow> read_elem (Serialize_read_public_key E G) i ks st;
            (rs, st) \<leftarrow> read_elem (Serialize_read_rsa_public_key E) i rs st;
            Some ((ks, rs), st) }) ((public_keys old, rsa_public_keys old), st);
       Some (old\<lparr>akr_num_trustees := n, public_keys := ks, rsa_public_keys := rs\<rparr>, st) }"

definition Serialize_reserve_shares_generated ::
    "shares_generated_rep \<Rightarrow> serialize_state \<Rightarrow> serialize_state option" where
  "Serialize_reserve_shares_generated data st =
     do {
       st \<leftarrow> Serialize_reserve_uint32 st;
       st \<leftarrow> Serialize_reserve_uint32 st;
       loop (unat (sg_num_trustees data)) (\<lambda>i. Serialize_reserve_encrypted_key_share) st }"

definition Serialize_write_shares_generated ::
    "env \<Rightarrow> shares_generated_rep \<Rightarrow> serialize_state \<Rightarrow> serialize_state option" where
  "Serialize_write_shares_generated E data st =
     do {
       st \<leftarrow> Serialize_write_uint32 (sg_num_trustees data) st;
       st \<leftarrow> Serialize_write_uint32 (sg_trustee_index data) st;
       write_array (Serialize_write_encrypted_key_share E) (unat (sg_num_trustees data)) (sg_shares data) st }"

definition Serialize_read_shares_generated ::
    "env \<Rightarrow> shares_generated_rep \<Rightarrow> serialize_state \<Rightarrow> (shares_generated_rep \<times> serialize_state) option" where
  "Serialize_read_shares_generated E old st =
     do {
       (n, st) \<leftarrow> Serialize_read_uint32 st;
       (i, st) \<leftarrow> Serialize_read_uint32 st;
       (ss, st) \<leftarrow> read_array (Serialize_read_encrypted_key_share E) (unat n) (sg_shares old) st;
       Some (old\<lparr>sg_num_trustees := n, sg_trustee_index := i, sg_shares := ss\<rparr>, st) }"

definition Serialize_reserve_all_shares_received ::
    "all_shares_received_rep \<Rightarrow> serialize_state \<Rightarrow> serialize_state option" where
  "Serialize_reserve_all_shares_received data st =
     do {
       st \<leftarrow> Serialize_reserve_uint32 st;
       loop (unat (asr_num_trustees data))
         (\<lambda>i. loop (unat (asr_num_trustees data)) (\<lambda>j. Serialize_reserve_encrypted_key_share)) st }"

definition Serialize_write_all_shares_received ::
    "env \<Rightarrow> all_shares_received_rep \<Rightarrow> serialize_state \<Rightarrow> serialize_state option" where
  "Serialize_write_all_shares_received E data st =
     do {
       st \<leftarrow> Serialize_write_uint32 (asr_num_trustees data) st;
       write_array (write_array (Serialize_write_encrypted_key_share E) (unat (asr_num_trustees data)))
         (unat (asr_num_trustees data)) (asr_shares data) st }"

definition Serialize_read_all_shares_received ::
    "env \<Rightarrow> all_shares_received_rep \<Rightarrow> serialize_state \<Rightarrow> (all_shares_received_rep \<times> serialize_state) option" where
  "Serialize_read_all_shares_received E old st =
     do {
       (n, st) \<leftarrow> Serialize_read_uint32 st;
       (ss, st) \<leftarrow> read_array (read_array (Serialize_read_encrypted_key_share E) (unat n)) (unat n)
                     (asr_shares old) st;
       Some (old\<lparr>asr_num_trustees := n, asr_shares := ss\<rparr>, st) }"

definition Serialize_reserve_shares_verified :: "serialize_state \<Rightarrow> serialize_state option" where
  "Serialize_reserve_shares_verified st =
     do { st \<leftarrow> Serialize_reserve_uint32 st; Serialize_reserve_bool st }"

definition Serialize_write_shares_verified ::
    "shares_verified_rep \<Rightarrow> serialize_state \<Rightarrow> serialize_state option" where
  "Serialize_write_shares_verified data st =
     do { st \<leftarrow> Serialize_write_uint32 (sv_trustee_index data) st;
          Serialize_write_bool (sv_verified data) st }"

definition Serialize_read_shares_verified ::
    "shares_verified_rep \<Rightarrow> serialize_state \<Rightarrow> (shares_verified_rep \<times> serialize_state) option" where
  "Serialize_read_shares_verified old st =
     do {
       (i, st) \<leftarrow> Serialize_read_uint32 st;
       (v, st) \<leftarrow> Serialize_read_bool (sv_verified old) st;
       Some (old\<lparr>sv_trustee_index := i, sv_verified := v\<rparr>, st) }"

section \<open>Decryption\<close>

definition Serialize_reserve_decryption_share ::
    "decryption_share_rep \<Rightarrow> serialize_state \<Rightarrow> serialize_state option" where
  "Serialize_reserve_decryption_share data st =
     do {
       st \<leftarrow> Serialize_reserve_uint32 st;
       st \<leftarrow> Serialize_reserve_uint64 st;
       loop (unat (ds_num_tallies data)) (\<lambda>i. Serialize_reserve_encryption) st }"

definition Serialize_write_decryption_share ::
    "env \<Rightarrow> decryption_share_rep \<Rightarrow> serialize_state \<Rightarrow> serialize_state option" where
  "Serialize_write_decryption_share E data st =
     do {
       st \<leftarrow> Serialize_write_uint32 (ds_trustee_index data) st;
       st \<leftarrow> Serialize_write_uint64 (ds_num_tallies data) st;
       write_array (Serialize_write_encryption E) (unat (ds_num_tallies data)) (tally_share data) st }"

definition Serialize_read_decryption_share ::
    "env \<Rightarrow> decryption_share_rep \<Rightarrow> serialize_state \<Rightarrow> (decryption_share_rep \<times> serialize_state) option" where
  "Serialize_read_decryption_share E old st =
     do {
       (i, st) \<leftarrow> Serialize_read_uint32 st;
       (n, st) \<leftarrow> Serialize_read_uint64 st;
       (ts, st) \<leftarrow> read_array (Serialize_read_encryption E) (unat n) (tally_share old) st;
       Some (old\<lparr>ds_trustee_index := i, ds_num_tallies := n, tally_share := ts\<rparr>, st) }"

definition Serialize_reserve_decryption_fragments_request ::
    "decryption_fragments_request_rep \<Rightarrow> serialize_state \<Rightarrow> serialize_state option" where
  "Serialize_reserve_decryption_fragments_request data st =
     do {
       st \<leftarrow> Serialize_reserve_uint32 st;
       loop (unat (req_num_trustees data)) (\<lambda>i. Serialize_reserve_bool) st }"

definition Serialize_write_decryption_fragments_request ::
    "decryption_fragments_request_rep \<Rightarrow> serialize_state \<Rightarrow> serialize_state option" where
  "Serialize_write_decryption_fragments_request data st =
     do {
       st \<leftarrow> Serialize_write_uint32 (req_num_trustees data) st;
       write_array Serialize_write_bool (unat (req_num_trustees data)) (req_requested data) st }"

definition Serialize_read_decryption_fragments_request ::
    "decryption_fragments_request_rep \<Rightarrow> serialize_state \<Rightarrow>
     (decryption_fragments_request_rep \<times> serialize_state) option" where
  "Serialize_read_decryption_fragments_request old st =
     do {
       (n, st) \<leftarrow> Serialize_read_uint32 st;
       (rs, st) \<leftarrow> read_array Serialize_read_bool (unat n) (req_requested old) st;
       Some (old\<lparr>req_num_trustees := n, req_requested := rs\<rparr>, st) }"

definition Serialize_reserve_decryption_fragments ::
    "decryption_fragments_rep \<Rightarrow> serialize_state \<Rightarrow> serialize_state option" where
  "Serialize_reserve_decryption_fragments data st =
     do {
       st \<leftarrow> Serialize_reserve_uint32 st;
       st \<leftarrow> Serialize_reserve_uint32 st;
       st \<leftarrow> Serialize_reserve_uint32 st;
       st \<leftarrow> loop (unat (df_num_trustees data))
         (\<lambda>i st. do {
            st \<leftarrow> Serialize_reserve_bool st;
            r \<leftarrow> arr_get (df_requested data) i;
            if r then loop (unat (df_num_selections data)) (\<lambda>j. Serialize_reserve_uint4096) st
            else Some st }) st;
       Serialize_reserve_uint256 st }"

definition Serialize_write_decryption_fragments ::
    "env \<Rightarrow> decryption_fragments_rep \<Rightarrow> serialize_state \<Rightarrow> serialize_state option" where
  "Serialize_write_decryption_fragments E data st =
     do {
       st \<leftarrow> Serialize_write_uint32 (df_trustee_index data) st;
       st \<leftarrow> Serialize_write_uint32 (df_num_trustees data) st;
       st \<leftarrow> Serialize_write_uint32 (df_num_selections data) st;
       st \<leftarrow> loop (unat (df_num_trustees data))
         (\<lambda>i st. do {
            r \<leftarrow> arr_get (df_requested data) i;
            st \<leftarrow> Serialize_write_bool r st;
            if r then do {
              row \<leftarrow> arr_get (partial_decryption_M data) i;
              write_array (Serialize_write_uint4096 E) (unat (df_num_selections data)) row st }
            else Some st }) st;
       Serialize_write_uint256_pad E (lagrange_coefficient data) st }"

definition Serialize_read_decryption_fragments ::
    "env \<Rightarrow> decryption_fragments_rep \<Rightarrow> serialize_state \<Rightarrow>
     (decryption_fragments_rep \<times> serialize_state) option" where
  "Serialize_read_decryption_fragments E old st =
     do {
       (i, st) \<leftarrow> Serialize_read_uint32 st;
       (n, st) \<leftarrow> Serialize_read_uint32 st;
       (m, st) \<leftarrow> Serialize_read_uint32 st;
       ((rs, Ms), st) \<leftarrow> loop (unat n)
         (\<lambda>i ((rs, Ms), st). do {
            (rs, st) \<leftarrow> read_elem Serialize_read_bool i rs st;
            r \<leftarrow> arr_get rs i;
            if r then do {
              (Ms, st) \<leftarrow> read_elem (read_array (Serialize_read_uint4096 E) (unat m)) i Ms st;
              Some ((rs, Ms), st) }
            else Some ((rs, Ms), st) }) ((df_requested old, partial_decryption_M old), st);
       (l, st) \<leftarrow> Serialize_read_uint256 E (lagrange_coefficient old) st;
       Some (old\<lparr>df_trustee_index := i, df_num_trustees := n, df_num_selections := m, df_requested := rs,
                 partial_decryption_M := Ms, lagrange_coefficient := l\<rparr>, st) }"

section \<open>Voting\<close>

definition Serialize_reserve_ballot_tracker :: "serialize_state \<Rightarrow> serialize_state option" where
  "Serialize_reserve_ballot_tracker st = Serialize_reserve_uint64 st"

definition Serialize_write_ballot_tracker ::
    "ballot_tracker_rep \<Rightarrow> serialize_state \<Rightarrow> serialize_state option" where
  "Serialize_write_ballot_tracker data st = Serialize_write_uint64 (tracker_id data) st"

definition Serialize_read_ballot_tracker ::
    "ballot_tracker_rep \<Rightarrow> serialize_state \<Rightarrow> (ballot_tracker_rep \<times> serialize_state) option" where
  "Serialize_read_ballot_tracker old st =
     do { (i, st) \<leftarrow> Serialize_read_uint64 st; Some (old\<lparr>tracker_id := i\<rparr>, st) }"

definition Serialize_reserve_ballot_identifier :: "serialize_state \<Rightarrow> serialize_state option" where
  "Serialize_reserve_ballot_identifier st = Serialize_reserve_uint64 st"

definition Serialize_write_ballot_identifier ::
    "ballot_identifier_rep \<Rightarrow> serialize_state \<Rightarrow> serialize_state option" where
  "Serialize_write_ballot_identifier data st = Serialize_write_uint64 (identifier_id data) st"

definition Serialize_read_ballot_identifier ::
    "ballot_identifier_rep \<Rightarrow> serialize_state \<Rightarrow> (ballot_identifier_rep \<times> serialize_state) option" where
  "Serialize_read_ballot_identifier old st =
     do { (i, st) \<leftarrow> Serialize_read_uint64 st; Some (old\<lparr>identifier_id := i\<rparr>, st) }"

definition Serialize_deserialize_register_ballot_message ::
    "env \<Rightarrow> message \<Rightarrow> encrypted_ballot_rep \<Rightarrow> (bool \<times> encrypted_ballot_rep) option" where
  "Serialize_deserialize_register_ballot_message E ballot_message out_ballot_rep =
     do {
       (b, st) \<leftarrow> Serialize_read_encrypted_ballot E out_ballot_rep (message_reading ballot_message);
       Some (ss_status st = SERIALIZE_STATE_READING, b) }"

section \<open>Trustee state\<close>

definition Serialize_reserve_trustee_state ::
    "nat \<Rightarrow> trustee_state_rep \<Rightarrow> serialize_state \<Rightarrow> serialize_state option" where
  "Serialize_reserve_trustee_state num_trustees data st =
     do {
       st \<leftarrow> Serialize_reserve_uint32 st;
       st \<leftarrow> Serialize_reserve_private_key (ts_private_key data) st;
       st \<leftarrow> Serialize_reserve_rsa_private_key st;
       loop num_trustees (\<lambda>i. Serialize_reserve_encrypted_key_share) st }"

definition Serialize_write_trustee_state ::
    "nat \<Rightarrow> env \<Rightarrow> trustee_state_rep \<Rightarrow> serialize_state \<Rightarrow> serialize_state option" where
  "Serialize_write_trustee_state num_trustees E data st =
     do {
       st \<leftarrow> Serialize_write_uint32 (ts_index data) st;
       st \<leftarrow> Serialize_write_private_key E (ts_private_key data) st;
       st \<leftarrow> Serialize_write_rsa_private_key E (ts_rsa_private_key data) st;
       write_array (Serialize_write_encrypted_key_share E) num_trustees (ts_my_key_shares data) st }"

definition Serialize_read_trustee_state ::
    "nat \<Rightarrow> env \<Rightarrow> trustee_state_rep \<Rightarrow> serialize_state \<Rightarrow> (trustee_state_rep \<times> serialize_state) option" where
  "Serialize_read_trustee_state num_trustees E old st =
     do {
       (i, st) \<leftarrow> Serialize_read_uint32 st;
       (k, st) \<leftarrow> Serialize_read_private_key E (ts_private_key old) st;
       (r, st) \<leftarrow> Serialize_read_rsa_private_key E (ts_rsa_private_key old) st;
       (ss, st) \<leftarrow> read_array (Serialize_read_encrypted_key_share E) num_trustees (ts_my_key_shares old) st;
       Some (old\<lparr>ts_index := i, ts_private_key := k, ts_rsa_private_key := r, ts_my_key_shares := ss\<rparr>, st) }"

section \<open>Key ceremony messages keep the contract\<close>

lemma le_bytes_nonempty [simp]: "0 < n \<Longrightarrow> le_bytes n w @ e \<noteq> []" "0 < n \<Longrightarrow> le_bytes n w \<noteq> []"
  by (auto simp: le_bytes_def)

definition enc_key_generated :: "key_generated_rep \<Rightarrow> u8 list" where
  "enc_key_generated k = le_bytes 4 (kg_trustee_index k) @ enc_public_key (kg_public_key k)
     @ enc_rsa_public_key (kg_rsa_public_key k)"

definition key_generated_ok :: "params \<Rightarrow> key_generated_rep \<Rightarrow> bool" where
  "key_generated_ok G k \<longleftrightarrow> public_key_ok G (kg_public_key k) \<and> rsa_public_key_ok (kg_rsa_public_key k)"

definition key_generated_shape :: "key_generated_rep \<Rightarrow> bool" where
  "key_generated_shape k \<longleftrightarrow> public_key_shape (kg_public_key k)"

definition merge_key_generated :: "key_generated_rep \<Rightarrow> key_generated_rep \<Rightarrow> key_generated_rep" where
  "merge_key_generated old k = k\<lparr>kg_public_key := merge_public_key (kg_public_key old) (kg_public_key k)\<rparr>"

interpretation key_generated_codec: codec
  Serialize_reserve_key_generated Serialize_write_key_generated Serialize_read_key_generated
  enc_key_generated key_generated_ok key_generated_shape merge_key_generated
proof
  fix G x assume x: "key_generated_ok G x"
  show "reserves (Serialize_reserve_key_generated x) (length (enc_key_generated x))"
    by (rule reserves_eq, rule reserves_cong [OF Serialize_reserve_key_generated_def], rule reserves_bind,
        rule prim_reserves, rule reserves_bind, rule reserves_public_key [of G],
        (use x in \<open>simp add: key_generated_ok_def\<close>), rule reserves_rsa_public_key [of "kg_rsa_public_key x"])
      (simp add: enc_key_generated_def)
next
  fix E G x assume a: "platform_mem E" "key_generated_ok G x"
  then show "writes (Serialize_write_key_generated E x) (enc_key_generated x)"
    unfolding enc_key_generated_def key_generated_ok_def
    by (intro writes_cong [OF Serialize_write_key_generated_def] writes_bind writes_uint32
        writes_public_key [of E G] writes_rsa_public_key) auto
next
  fix E G x old assume E: "platform_mem E" and x: "key_generated_ok G x" and o: "key_generated_shape old"
  note ok = x [unfolded key_generated_ok_def] o [unfolded key_generated_shape_def]
  show "reads (Serialize_read_key_generated E G old) (enc_key_generated x) (merge_key_generated old x)"
    by (rule reads_eq, rule reads_cong [OF Serialize_read_key_generated_def], rule reads_bind, rule reads_uint32,
        rule reads_bind, rule reads_public_key [OF E, of G "kg_public_key x"], (use ok in blast), (use ok in blast),
        rule reads_bind, rule reads_rsa_public_key [OF E, of "kg_rsa_public_key x"], (use ok in blast), rule reads_done)
      (auto simp: enc_key_generated_def merge_key_generated_def intro: key_generated_rep.equality)
qed (simp add: enc_key_generated_def)

definition enc_all_keys_received :: "all_keys_received_rep \<Rightarrow> u8 list" where
  "enc_all_keys_received k = le_bytes 4 (akr_num_trustees k)
     @ concat (map (\<lambda>i. enc_public_key (public_keys k ! i) @ enc_rsa_public_key (rsa_public_keys k ! i))
         [0..<unat (akr_num_trustees k)])"

definition all_keys_received_ok :: "params \<Rightarrow> all_keys_received_rep \<Rightarrow> bool" where
  "all_keys_received_ok G k \<longleftrightarrow> length (public_keys k) = MAX_TRUSTEES \<and>
     length (rsa_public_keys k) = MAX_TRUSTEES \<and> unat (akr_num_trustees k) \<le> MAX_TRUSTEES \<and>
     (\<forall>i < unat (akr_num_trustees k). public_key_ok G (public_keys k ! i) \<and>
        rsa_public_key_ok (rsa_public_keys k ! i))"

definition all_keys_received_shape :: "all_keys_received_rep \<Rightarrow> bool" where
  "all_keys_received_shape k \<longleftrightarrow> length (public_keys k) = MAX_TRUSTEES \<and>
     length (rsa_public_keys k) = MAX_TRUSTEES \<and> (\<forall>key \<in> set (public_keys k). public_key_shape key)"

definition merge_all_keys_received ::
    "all_keys_received_rep \<Rightarrow> all_keys_received_rep \<Rightarrow> all_keys_received_rep" where
  "merge_all_keys_received old k =
     (let n = unat (akr_num_trustees k)
      in old\<lparr>akr_num_trustees := akr_num_trustees k,
             public_keys := map (\<lambda>i. merge_public_key (public_keys old ! i) (public_keys k ! i)) [0..<n]
               @ drop n (public_keys old),
             rsa_public_keys := merge_array n (rsa_public_keys old) (rsa_public_keys k)\<rparr>)"

text \<open>A step that reads one element of each of two arrays.\<close>

lemma reads_elem: "i < length xs \<Longrightarrow> reads (rd (xs ! i)) e y \<Longrightarrow> reads (read_elem rd i xs) e (xs[i := y])"
  by (simp add: reads_def read_elem_def)

lemma floop_pair: "floop n (\<lambda>i (xs, ys). (f i xs, g i ys)) (a, b) = (floop n f a, floop n g b)"
  by (induction n) auto

lemma reads_key_pairs:
  assumes E: "platform_mem E" and k: "all_keys_received_ok G k" and old: "all_keys_received_shape old"
  defines "n \<equiv> unat (akr_num_trustees k)"
  shows "reads (\<lambda>st. loop n (\<lambda>i ((ks, rs), st). do {
            (ks, st) \<leftarrow> read_elem (Serialize_read_public_key E G) i ks st;
            (rs, st) \<leftarrow> read_elem (Serialize_read_rsa_public_key E) i rs st;
            Some ((ks, rs), st) }) ((public_keys old, rsa_public_keys old), st))
      (concat (map (\<lambda>i. enc_public_key (public_keys k ! i) @ enc_rsa_public_key (rsa_public_keys k ! i)) [0..<n]))
      (public_keys (merge_all_keys_received old k), rsa_public_keys (merge_all_keys_received old k))"
    (is "reads (\<lambda>st. loop n ?body (?a, st)) _ _")
proof -
  let ?ks = "public_keys old" and ?rs = "rsa_public_keys old"
  let ?f = "\<lambda>i xs. xs[i := merge_public_key (?ks ! i) (public_keys k ! i)]"
  let ?g = "\<lambda>i ys. ys[i := rsa_public_keys k ! i]"
  let ?P = "\<lambda>i (xs, ys). length xs = MAX_TRUSTEES \<and> length ys = MAX_TRUSTEES \<and> drop i xs = drop i ?ks"
  note ok = k [unfolded all_keys_received_ok_def, folded n_def]
  have step: "reads (\<lambda>st. ?body i (a, st)) (enc_public_key (public_keys k ! i) @ enc_rsa_public_key (rsa_public_keys k ! i))
      ((\<lambda>i (xs, ys). (?f i xs, ?g i ys)) i a) \<and> ?P (Suc i) ((\<lambda>i (xs, ys). (?f i xs, ?g i ys)) i a)"
    if i: "i < n" and P: "?P i a" for i a
  proof -
    obtain xs ys where a: "a = (xs, ys)" by force
    have l: "i < length xs" "i < length ys" "length xs = MAX_TRUSTEES" "length ys = MAX_TRUSTEES" "drop i xs = drop i ?ks"
      using P i ok by (auto simp: a)
    have ks: "length ?ks = MAX_TRUSTEES" using old by (simp add: all_keys_received_shape_def)
    have x: "xs ! i = ?ks ! i"
      using hd_drop_conv_nth [of i xs] hd_drop_conv_nth [of i ?ks] l ks by simp
    have "?ks ! i \<in> set ?ks" using l ks by simp
    with old have shape: "public_key_shape (?ks ! i)" by (simp add: all_keys_received_shape_def)
    have "reads (read_elem (Serialize_read_public_key E G) i xs) (enc_public_key (public_keys k ! i)) (?f i xs)"
      using reads_public_key [OF E _ shape, of G "public_keys k ! i"] ok i
      by (intro reads_elem l) (simp add: x)
    moreover have "reads (read_elem (Serialize_read_rsa_public_key E) i ys)
        (enc_rsa_public_key (rsa_public_keys k ! i)) (?g i ys)"
      using reads_rsa_public_key [OF E, of "rsa_public_keys k ! i"] ok i by (intro reads_elem l) simp
    ultimately have "reads (\<lambda>st. read_elem (Serialize_read_public_key E G) i xs st \<bind> (\<lambda>(ks, st).
        read_elem (Serialize_read_rsa_public_key E) i ys st \<bind> (\<lambda>(rs, st). Some ((ks, rs), st))))
        (enc_public_key (public_keys k ! i) @ enc_rsa_public_key (rsa_public_keys k ! i) @ [])
        (?f i xs, ?g i ys)"
      by - (rule reads_bind, assumption, rule reads_bind, assumption, rule reads_done)
    moreover have "drop (Suc i) xs = drop (Suc i) ?ks"
      using l(5) by (metis drop_Suc tl_drop)
    ultimately show ?thesis using l by (simp add: a)
  qed
  have "reads (\<lambda>st. loop n (\<lambda>i (a, st). ?body i (a, st)) (?a, st))
      (concat (map (\<lambda>i. enc_public_key (public_keys k ! i) @ enc_rsa_public_key (rsa_public_keys k ! i)) [0..<n]))
      (floop n (\<lambda>i (xs, ys). (?f i xs, ?g i ys)) ?a)"
    by (rule reads_loop [where P = ?P, THEN conjunct1], erule step) (use old in \<open>simp_all add: all_keys_received_shape_def\<close>)
  moreover have "floop n (\<lambda>i (xs, ys). (?f i xs, ?g i ys)) ?a
      = (public_keys (merge_all_keys_received old k), rsa_public_keys (merge_all_keys_received old k))"
    using floop_fill [of n ?ks] floop_fill [of n ?rs] ok old
    by (simp add: floop_pair merge_all_keys_received_def n_def Let_def merge_array_def all_keys_received_shape_def
        map_nth_upt)
  moreover have "(\<lambda>i (a, st). ?body i (a, st)) = ?body" by (intro ext) auto
  ultimately show ?thesis by simp
qed

interpretation all_keys_received_codec: codec
  Serialize_reserve_all_keys_received Serialize_write_all_keys_received Serialize_read_all_keys_received
  enc_all_keys_received all_keys_received_ok all_keys_received_shape merge_all_keys_received
proof
  fix G x assume "all_keys_received_ok G x"
  note ok = this [unfolded all_keys_received_ok_def]
  let ?n = "unat (akr_num_trustees x)"
  let ?e = "\<lambda>i. enc_public_key (public_keys x ! i) @ enc_rsa_public_key (rsa_public_keys x ! i)"
  have "reserves (\<lambda>st. do { k \<leftarrow> arr_get (public_keys x) i; st \<leftarrow> Serialize_reserve_public_key k st;
      Serialize_reserve_rsa_public_key st }) (length (?e i))" if "i < ?n" for i
  proof -
    have "arr_get (public_keys x) i = Some (public_keys x ! i)" "public_key_ok G (public_keys x ! i)"
      using that ok by simp_all
    then show ?thesis
      using reserves_bind [OF reserves_public_key [of G "public_keys x ! i"]
          reserves_rsa_public_key [of "rsa_public_keys x ! i"]] by simp
  qed
  then have "reserves (loop ?n (\<lambda>i st. do { k \<leftarrow> arr_get (public_keys x) i;
      st \<leftarrow> Serialize_reserve_public_key k st; Serialize_reserve_rsa_public_key st }))
      (sum_list (map (\<lambda>i. length (?e i)) [0..<?n]))"
    by (rule reserves_loop)
  then show "reserves (Serialize_reserve_all_keys_received x) (length (enc_all_keys_received x))"
    by - (rule reserves_eq, rule reserves_cong [OF Serialize_reserve_all_keys_received_def], rule reserves_bind,
        rule prim_reserves, assumption, simp add: enc_all_keys_received_def length_concat comp_def)
next
  fix E G x assume E: "platform_mem E" and "all_keys_received_ok G x"
  note ok = this(2) [unfolded all_keys_received_ok_def]
  let ?n = "unat (akr_num_trustees x)"
  let ?e = "\<lambda>i. enc_public_key (public_keys x ! i) @ enc_rsa_public_key (rsa_public_keys x ! i)"
  have "writes (\<lambda>st. do { k \<leftarrow> arr_get (public_keys x) i; st \<leftarrow> Serialize_write_public_key E k st;
      r \<leftarrow> arr_get (rsa_public_keys x) i; Serialize_write_rsa_public_key E r st }) (?e i)" if "i < ?n" for i
  proof -
    have "arr_get (public_keys x) i = Some (public_keys x ! i)" "public_key_ok G (public_keys x ! i)"
      "arr_get (rsa_public_keys x) i = Some (rsa_public_keys x ! i)" "rsa_public_key_ok (rsa_public_keys x ! i)"
      using that ok by simp_all
    then show ?thesis
      using writes_bind [OF writes_public_key [OF E, of G "public_keys x ! i"]
          writes_rsa_public_key [OF E, of "rsa_public_keys x ! i"]] by simp
  qed
  then have "writes (loop ?n (\<lambda>i st. do { k \<leftarrow> arr_get (public_keys x) i; st \<leftarrow> Serialize_write_public_key E k st;
      r \<leftarrow> arr_get (rsa_public_keys x) i; Serialize_write_rsa_public_key E r st })) (concat (map ?e [0..<?n]))"
    by (rule writes_loop)
  then show "writes (Serialize_write_all_keys_received E x) (enc_all_keys_received x)"
    unfolding enc_all_keys_received_def
    by - (rule writes_cong [OF Serialize_write_all_keys_received_def], rule writes_bind, rule writes_uint32, assumption)
next
  fix E G x old assume a: "platform_mem E" "all_keys_received_ok G x" "all_keys_received_shape old"
  show "reads (Serialize_read_all_keys_received E G old) (enc_all_keys_received x) (merge_all_keys_received old x)"
    by (rule reads_eq, rule reads_cong [OF Serialize_read_all_keys_received_def], rule reads_bind, rule reads_uint32,
        rule reads_bind, rule reads_key_pairs [OF a], simp only: case_prod_conv, rule reads_done)
      (simp_all add: enc_all_keys_received_def merge_all_keys_received_def Let_def)
qed (simp add: enc_all_keys_received_def)

text \<open>Messages that hold shares.\<close>

definition enc_shares :: "nat \<Rightarrow> encrypted_key_share list \<Rightarrow> u8 list" where
  "enc_shares n ss = concat (map (enc_words 12) (take n ss))"

definition shares_ok :: "nat \<Rightarrow> encrypted_key_share list \<Rightarrow> bool" where
  "shares_ok n ss \<longleftrightarrow> length ss = MAX_TRUSTEES \<and> n \<le> MAX_TRUSTEES \<and> (\<forall>s \<in> set (take n ss). fits 12 s)"

lemma length_enc_shares: "shares_ok n ss \<Longrightarrow> length (enc_shares n ss) = n * 96"
  by (simp add: enc_shares_def shares_ok_def length_concat_const [where k = 96] min.absorb2)

lemma reserves_shares: "shares_ok n ss \<Longrightarrow>
    reserves (loop n (\<lambda>i. Serialize_reserve_encrypted_key_share)) (length (enc_shares n ss))"
  using reserves_const_loop [OF reserves_key_share, of n] by (simp add: length_enc_shares)

lemma writes_shares:
  assumes "platform_mem E" "shares_ok n ss"
  shows "writes (write_array (Serialize_write_encrypted_key_share E) n ss) (enc_shares n ss)"
  unfolding enc_shares_def using assms by (intro writes_array writes_key_share) (auto simp: shares_ok_def)

lemma reads_shares:
  assumes "platform_mem E" "shares_ok n ss" "length old = MAX_TRUSTEES"
  shows "reads (read_array (Serialize_read_encrypted_key_share E) n old) (enc_shares n ss) (merge_array n old ss)"
  unfolding enc_shares_def merge_array_def
  using assms by (intro reads_array_fresh reads_key_share) (auto simp: shares_ok_def)

definition enc_shares_generated :: "shares_generated_rep \<Rightarrow> u8 list" where
  "enc_shares_generated k = le_bytes 4 (sg_num_trustees k) @ le_bytes 4 (sg_trustee_index k)
     @ enc_shares (unat (sg_num_trustees k)) (sg_shares k)"

definition shares_generated_ok :: "params \<Rightarrow> shares_generated_rep \<Rightarrow> bool" where
  "shares_generated_ok G k \<longleftrightarrow> shares_ok (unat (sg_num_trustees k)) (sg_shares k)"

definition merge_shares_generated :: "shares_generated_rep \<Rightarrow> shares_generated_rep \<Rightarrow> shares_generated_rep" where
  "merge_shares_generated old k =
     k\<lparr>sg_shares := merge_array (unat (sg_num_trustees k)) (sg_shares old) (sg_shares k)\<rparr>"

interpretation shares_generated_codec: codec
  Serialize_reserve_shares_generated Serialize_write_shares_generated "\<lambda>E _. Serialize_read_shares_generated E"
  enc_shares_generated shares_generated_ok "\<lambda>k. length (sg_shares k) = MAX_TRUSTEES" merge_shares_generated
proof
  fix G x assume "shares_generated_ok G x"
  then have ok: "shares_ok (unat (sg_num_trustees x)) (sg_shares x)" by (simp add: shares_generated_ok_def)
  show "reserves (Serialize_reserve_shares_generated x) (length (enc_shares_generated x))"
    by (rule reserves_eq, rule reserves_cong [OF Serialize_reserve_shares_generated_def], rule reserves_bind,
        rule prim_reserves, rule reserves_bind, rule prim_reserves, rule reserves_shares [OF ok])
      (simp add: enc_shares_generated_def)
next
  fix E G x assume E: "platform_mem E" and "shares_generated_ok G x"
  then have ok: "shares_ok (unat (sg_num_trustees x)) (sg_shares x)" by (simp add: shares_generated_ok_def)
  show "writes (Serialize_write_shares_generated E x) (enc_shares_generated x)"
    unfolding enc_shares_generated_def
    by (rule writes_cong [OF Serialize_write_shares_generated_def], rule writes_bind, rule writes_uint32,
        rule writes_bind, rule writes_uint32, rule writes_shares [OF E ok])
next
  fix E G x and old :: shares_generated_rep
  assume E: "platform_mem E" and "shares_generated_ok G x" and o: "length (sg_shares old) = MAX_TRUSTEES"
  then have ok: "shares_ok (unat (sg_num_trustees x)) (sg_shares x)" by (simp add: shares_generated_ok_def)
  show "reads (Serialize_read_shares_generated E old) (enc_shares_generated x) (merge_shares_generated old x)"
    by (rule reads_eq, rule reads_cong [OF Serialize_read_shares_generated_def], rule reads_bind, rule reads_uint32,
        rule reads_bind, rule reads_uint32, rule reads_bind, rule reads_shares [OF E ok o], rule reads_done)
      (auto simp: enc_shares_generated_def merge_shares_generated_def intro: shares_generated_rep.equality)
qed (simp add: enc_shares_generated_def)

definition enc_all_shares_received :: "all_shares_received_rep \<Rightarrow> u8 list" where
  "enc_all_shares_received k = le_bytes 4 (asr_num_trustees k)
     @ concat (map (enc_shares (unat (asr_num_trustees k))) (take (unat (asr_num_trustees k)) (asr_shares k)))"

definition all_shares_received_ok :: "params \<Rightarrow> all_shares_received_rep \<Rightarrow> bool" where
  "all_shares_received_ok G k \<longleftrightarrow> length (asr_shares k) = MAX_TRUSTEES \<and>
     unat (asr_num_trustees k) \<le> MAX_TRUSTEES \<and>
     (\<forall>row \<in> set (take (unat (asr_num_trustees k)) (asr_shares k)). shares_ok (unat (asr_num_trustees k)) row)"

definition all_shares_received_shape :: "all_shares_received_rep \<Rightarrow> bool" where
  "all_shares_received_shape k \<longleftrightarrow> length (asr_shares k) = MAX_TRUSTEES \<and>
     (\<forall>row \<in> set (asr_shares k). length row = MAX_TRUSTEES)"

definition merge_all_shares_received ::
    "all_shares_received_rep \<Rightarrow> all_shares_received_rep \<Rightarrow> all_shares_received_rep" where
  "merge_all_shares_received old k =
     (let n = unat (asr_num_trustees k)
      in k\<lparr>asr_shares := map2 (merge_array n) (take n (asr_shares old)) (take n (asr_shares k))
             @ drop n (asr_shares old)\<rparr>)"

interpretation all_shares_received_codec: codec
  Serialize_reserve_all_shares_received Serialize_write_all_shares_received
  "\<lambda>E _. Serialize_read_all_shares_received E" enc_all_shares_received all_shares_received_ok
  all_shares_received_shape merge_all_shares_received
proof
  fix G x assume "all_shares_received_ok G x"
  note ok = this [unfolded all_shares_received_ok_def]
  let ?n = "unat (asr_num_trustees x)"
  have "length (concat (map (enc_shares ?n) (take ?n (asr_shares x)))) = ?n * 96 * length (take ?n (asr_shares x))"
    using ok by (intro length_concat_const length_enc_shares) simp
  then have l: "4 + ?n * (?n * 96) = length (enc_all_shares_received x)"
    using ok by (simp add: enc_all_shares_received_def min.absorb2)
  show "reserves (Serialize_reserve_all_shares_received x) (length (enc_all_shares_received x))"
    by (rule reserves_eq [OF _ l], rule reserves_cong [OF Serialize_reserve_all_shares_received_def],
        rule reserves_bind, rule prim_reserves, rule reserves_const_loop, rule reserves_const_loop,
        rule reserves_key_share)
next
  fix E G x assume E: "platform_mem E" and "all_shares_received_ok G x"
  note ok = this(2) [unfolded all_shares_received_ok_def]
  let ?n = "unat (asr_num_trustees x)"
  have "writes (write_array (write_array (Serialize_write_encrypted_key_share E) ?n) ?n (asr_shares x))
      (concat (map (enc_shares ?n) (take ?n (asr_shares x))))"
    using ok by (intro writes_array writes_shares [OF E]) auto
  then show "writes (Serialize_write_all_shares_received E x) (enc_all_shares_received x)"
    unfolding enc_all_shares_received_def
    by - (rule writes_cong [OF Serialize_write_all_shares_received_def], rule writes_bind, rule writes_uint32,
        assumption)
next
  fix E G x and old :: all_shares_received_rep
  assume E: "platform_mem E" and "all_shares_received_ok G x" and "all_shares_received_shape old"
  note ok = this(2) [unfolded all_shares_received_ok_def] this(3) [unfolded all_shares_received_shape_def]
  let ?n = "unat (asr_num_trustees x)"
  have "reads (read_array (read_array (Serialize_read_encrypted_key_share E) ?n) ?n (asr_shares old))
      (concat (map (enc_shares ?n) (take ?n (asr_shares x))))
      (map2 (merge_array ?n) (take ?n (asr_shares old)) (take ?n (asr_shares x)) @ drop ?n (asr_shares old))"
    using ok by (intro reads_array reads_shares [OF E]) (auto dest: in_set_takeD)
  then show "reads (Serialize_read_all_shares_received E old) (enc_all_shares_received x)
      (merge_all_shares_received old x)"
    by - (rule reads_eq, rule reads_cong [OF Serialize_read_all_shares_received_def], rule reads_bind,
        rule reads_uint32, rule reads_bind, assumption, rule reads_done,
        auto simp: enc_all_shares_received_def merge_all_shares_received_def Let_def
          intro: all_shares_received_rep.equality)
qed (simp add: enc_all_shares_received_def)

definition enc_shares_verified :: "shares_verified_rep \<Rightarrow> u8 list" where
  "enc_shares_verified k = le_bytes 4 (sv_trustee_index k) @ bool_bytes (sv_verified k)"

interpretation shares_verified_codec: codec
  "\<lambda>_. Serialize_reserve_shares_verified" "\<lambda>_. Serialize_write_shares_verified"
  "\<lambda>_ _. Serialize_read_shares_verified" enc_shares_verified "\<lambda>_ _. True" "\<lambda>_. True" "\<lambda>_ k. k"
proof
  fix x
  show "reserves Serialize_reserve_shares_verified (length (enc_shares_verified x))"
    by (rule reserves_eq, rule reserves_cong [OF Serialize_reserve_shares_verified_def], rule reserves_bind,
        (rule prim_reserves)+) (simp add: enc_shares_verified_def bool_bytes_def)
  show "writes (Serialize_write_shares_verified x) (enc_shares_verified x)"
    unfolding enc_shares_verified_def
    by (rule writes_cong [OF Serialize_write_shares_verified_def], rule writes_bind, rule writes_uint32,
        rule writes_bool)
  show "reads (Serialize_read_shares_verified old) (enc_shares_verified x) x" for old :: shares_verified_rep
    by (rule reads_eq, rule reads_cong [OF Serialize_read_shares_verified_def], rule reads_bind, rule reads_uint32,
        rule reads_bind, rule reads_bool, rule reads_done)
      (auto simp: enc_shares_verified_def intro: shares_verified_rep.equality)
qed (simp add: enc_shares_verified_def)

section \<open>Decryption, voting and trustee state messages keep the contract\<close>

definition enc_decryption_share :: "decryption_share_rep \<Rightarrow> u8 list" where
  "enc_decryption_share k = le_bytes 4 (ds_trustee_index k) @ le_bytes 8 (ds_num_tallies k)
     @ concat (map enc_encryption (take (unat (ds_num_tallies k)) (tally_share k)))"

definition decryption_share_ok :: "params \<Rightarrow> decryption_share_rep \<Rightarrow> bool" where
  "decryption_share_ok G k \<longleftrightarrow> length (tally_share k) = MAX_SELECTIONS \<and>
     unat (ds_num_tallies k) \<le> MAX_SELECTIONS \<and>
     (\<forall>e \<in> set (take (unat (ds_num_tallies k)) (tally_share k)). encryption_ok e)"

definition merge_decryption_share :: "decryption_share_rep \<Rightarrow> decryption_share_rep \<Rightarrow> decryption_share_rep" where
  "merge_decryption_share old k =
     old\<lparr>ds_trustee_index := ds_trustee_index k, ds_num_tallies := ds_num_tallies k,
         tally_share := merge_array (unat (ds_num_tallies k)) (tally_share old) (tally_share k)\<rparr>"

interpretation decryption_share_codec: codec
  Serialize_reserve_decryption_share Serialize_write_decryption_share
  "\<lambda>E _. Serialize_read_decryption_share E" enc_decryption_share decryption_share_ok
  "\<lambda>k. length (tally_share k) = MAX_SELECTIONS" merge_decryption_share
proof
  fix G x assume "decryption_share_ok G x"
  note ok = this [unfolded decryption_share_ok_def]
  let ?n = "unat (ds_num_tallies x)"
  have "length (concat (map enc_encryption (take ?n (tally_share x)))) = 1024 * length (take ?n (tally_share x))"
    by (intro length_concat_const) simp
  then have l: "4 + (8 + ?n * 1024) = length (enc_decryption_share x)"
    using ok by (simp add: enc_decryption_share_def min.absorb2)
  show "reserves (Serialize_reserve_decryption_share x) (length (enc_decryption_share x))"
    by (rule reserves_eq [OF _ l], rule reserves_cong [OF Serialize_reserve_decryption_share_def],
        rule reserves_bind, rule prim_reserves, rule reserves_bind, rule prim_reserves,
        rule reserves_const_loop, rule reserves_encryption)
next
  fix E G x assume E: "platform_mem E" and "decryption_share_ok G x"
  note ok = this(2) [unfolded decryption_share_ok_def]
  let ?n = "unat (ds_num_tallies x)"
  have w: "writes (write_array (Serialize_write_encryption E) ?n (tally_share x))
      (concat (map enc_encryption (take ?n (tally_share x))))"
    using ok by (intro writes_array writes_encryption [OF E]) auto
  show "writes (Serialize_write_decryption_share E x) (enc_decryption_share x)"
    unfolding enc_decryption_share_def
    by (rule writes_cong [OF Serialize_write_decryption_share_def], rule writes_bind, rule writes_uint32,
        rule writes_bind, rule writes_uint64, rule w)
next
  fix E G x and old :: decryption_share_rep
  assume E: "platform_mem E" and "decryption_share_ok G x" and o: "length (tally_share old) = MAX_SELECTIONS"
  note ok = this(2) [unfolded decryption_share_ok_def]
  let ?n = "unat (ds_num_tallies x)"
  have r: "reads (read_array (Serialize_read_encryption E) ?n (tally_share old))
      (concat (map enc_encryption (take ?n (tally_share x)))) (merge_array ?n (tally_share old) (tally_share x))"
    unfolding merge_array_def using ok o by (intro reads_array_fresh reads_encryption [OF E]) auto
  show "reads (Serialize_read_decryption_share E old) (enc_decryption_share x) (merge_decryption_share old x)"
    by (rule reads_eq, rule reads_cong [OF Serialize_read_decryption_share_def], rule reads_bind, rule reads_uint32,
        rule reads_bind, rule reads_uint64, rule reads_bind, rule r, rule reads_done)
      (simp_all add: enc_decryption_share_def merge_decryption_share_def)
qed (simp add: enc_decryption_share_def)

definition enc_fragments_request :: "decryption_fragments_request_rep \<Rightarrow> u8 list" where
  "enc_fragments_request k = le_bytes 4 (req_num_trustees k)
     @ concat (map bool_bytes (take (unat (req_num_trustees k)) (req_requested k)))"

definition fragments_request_ok :: "params \<Rightarrow> decryption_fragments_request_rep \<Rightarrow> bool" where
  "fragments_request_ok G k \<longleftrightarrow> length (req_requested k) = MAX_TRUSTEES \<and>
     unat (req_num_trustees k) \<le> MAX_TRUSTEES"

definition merge_fragments_request ::
    "decryption_fragments_request_rep \<Rightarrow> decryption_fragments_request_rep \<Rightarrow> decryption_fragments_request_rep" where
  "merge_fragments_request old k =
     k\<lparr>req_requested := merge_array (unat (req_num_trustees k)) (req_requested old) (req_requested k)\<rparr>"

interpretation fragments_request_codec: codec
  Serialize_reserve_decryption_fragments_request "\<lambda>_. Serialize_write_decryption_fragments_request"
  "\<lambda>_ _. Serialize_read_decryption_fragments_request" enc_fragments_request fragments_request_ok
  "\<lambda>k. length (req_requested k) = MAX_TRUSTEES" merge_fragments_request
proof
  fix G x assume "fragments_request_ok G x"
  note ok = this [unfolded fragments_request_ok_def]
  let ?n = "unat (req_num_trustees x)"
  have "length (concat (map bool_bytes (take ?n (req_requested x)))) = 1 * length (take ?n (req_requested x))"
    by (intro length_concat_const) (simp add: bool_bytes_def)
  then have l: "4 + ?n * 1 = length (enc_fragments_request x)"
    using ok by (simp add: enc_fragments_request_def min.absorb2)
  show "reserves (Serialize_reserve_decryption_fragments_request x) (length (enc_fragments_request x))"
    by (rule reserves_eq [OF _ l], rule reserves_cong [OF Serialize_reserve_decryption_fragments_request_def],
        rule reserves_bind, rule prim_reserves, rule reserves_const_loop, rule prim_reserves)
  have w: "writes (write_array Serialize_write_bool ?n (req_requested x))
      (concat (map bool_bytes (take ?n (req_requested x))))"
    using ok by (intro writes_array writes_bool) auto
  show "writes (Serialize_write_decryption_fragments_request x) (enc_fragments_request x)"
    unfolding enc_fragments_request_def
    by (rule writes_cong [OF Serialize_write_decryption_fragments_request_def], rule writes_bind,
        rule writes_uint32, rule w)
  fix old :: decryption_fragments_request_rep assume o: "length (req_requested old) = MAX_TRUSTEES"
  have r: "reads (read_array Serialize_read_bool ?n (req_requested old))
      (concat (map bool_bytes (take ?n (req_requested x)))) (merge_array ?n (req_requested old) (req_requested x))"
    unfolding merge_array_def using ok o by (intro reads_array_fresh reads_bool) auto
  show "reads (Serialize_read_decryption_fragments_request old) (enc_fragments_request x)
      (merge_fragments_request old x)"
    by (rule reads_eq, rule reads_cong [OF Serialize_read_decryption_fragments_request_def], rule reads_bind,
        rule reads_uint32, rule reads_bind, rule r, rule reads_done)
      (auto simp: enc_fragments_request_def merge_fragments_request_def
        intro: decryption_fragments_request_rep.equality)
qed (simp add: enc_fragments_request_def)

text \<open>Decryption fragments: a row of partial decryptions follows each flag that is set.\<close>

definition enc_row :: "nat \<Rightarrow> bool \<Rightarrow> int list \<Rightarrow> u8 list" where
  "enc_row m r row = bool_bytes r @ (if r then concat (map (enc_words 64) (take m row)) else [])"

definition enc_decryption_fragments :: "decryption_fragments_rep \<Rightarrow> u8 list" where
  "enc_decryption_fragments k = le_bytes 4 (df_trustee_index k) @ le_bytes 4 (df_num_trustees k)
     @ le_bytes 4 (df_num_selections k)
     @ concat (map (\<lambda>i. enc_row (unat (df_num_selections k)) (df_requested k ! i) (partial_decryption_M k ! i))
         [0..<unat (df_num_trustees k)])
     @ enc_words 4 (lagrange_coefficient k)"

definition decryption_fragments_ok :: "params \<Rightarrow> decryption_fragments_rep \<Rightarrow> bool" where
  "decryption_fragments_ok G k \<longleftrightarrow> length (df_requested k) = MAX_TRUSTEES \<and>
     length (partial_decryption_M k) = MAX_TRUSTEES \<and> unat (df_num_trustees k) \<le> MAX_TRUSTEES \<and>
     unat (df_num_selections k) \<le> MAX_SELECTIONS \<and>
     (\<forall>i < unat (df_num_trustees k). length (partial_decryption_M k ! i) = MAX_SELECTIONS \<and>
        (df_requested k ! i \<longrightarrow>
           (\<forall>v \<in> set (take (unat (df_num_selections k)) (partial_decryption_M k ! i)). fits 64 v))) \<and>
     0 \<le> lagrange_coefficient k \<and> lagrange_coefficient k < 2 ^ 256"

definition decryption_fragments_shape :: "decryption_fragments_rep \<Rightarrow> bool" where
  "decryption_fragments_shape k \<longleftrightarrow> length (df_requested k) = MAX_TRUSTEES \<and>
     length (partial_decryption_M k) = MAX_TRUSTEES \<and>
     (\<forall>row \<in> set (partial_decryption_M k). length row = MAX_SELECTIONS)"

definition merge_row :: "nat \<Rightarrow> bool \<Rightarrow> int list \<Rightarrow> int list \<Rightarrow> int list" where
  "merge_row m r old row = (if r then merge_array m old row else old)"

definition merge_decryption_fragments ::
    "decryption_fragments_rep \<Rightarrow> decryption_fragments_rep \<Rightarrow> decryption_fragments_rep" where
  "merge_decryption_fragments old k =
     (let n = unat (df_num_trustees k); m = unat (df_num_selections k)
      in old\<lparr>df_trustee_index := df_trustee_index k, df_num_trustees := df_num_trustees k,
             df_num_selections := df_num_selections k,
             df_requested := merge_array n (df_requested old) (df_requested k),
             partial_decryption_M :=
               map (\<lambda>i. merge_row m (df_requested k ! i) (partial_decryption_M old ! i) (partial_decryption_M k ! i))
                 [0..<n] @ drop n (partial_decryption_M old),
             lagrange_coefficient := lagrange_coefficient k\<rparr>)"

lemma reads_row:
  assumes E: "platform_mem E" and i: "i < length rs" "i < length Ms"
    and row: "length row = MAX_SELECTIONS" "length (Ms ! i) = MAX_SELECTIONS" "m \<le> MAX_SELECTIONS"
      "r \<longrightarrow> (\<forall>v \<in> set (take m row). fits 64 v)"
  shows "reads (\<lambda>st. do {
            (rs, st) \<leftarrow> read_elem Serialize_read_bool i rs st;
            r \<leftarrow> arr_get rs i;
            if r then do {
              (Ms, st) \<leftarrow> read_elem (read_array (Serialize_read_uint4096 E) m) i Ms st;
              Some ((rs, Ms), st) }
            else Some ((rs, Ms), st) }) (enc_row m r row) (rs[i := r], Ms[i := merge_row m r (Ms ! i) row])"
proof -
  have b: "reads (read_elem Serialize_read_bool i rs) (bool_bytes r) (rs[i := r])"
    by (rule reads_elem [OF i(1) reads_bool])
  have g: "arr_get (rs[i := r]) i = Some r" using i(1) by simp
  show ?thesis
  proof (cases r)
    case True
    have "reads (read_array (Serialize_read_uint4096 E) m (Ms ! i)) (concat (map (enc_words 64) (take m row)))
        (merge_array m (Ms ! i) row)"
      unfolding merge_array_def
      using row True by (intro reads_array_fresh reads_fits64 [OF E]) auto
    then have "reads (read_elem (read_array (Serialize_read_uint4096 E) m) i Ms)
        (concat (map (enc_words 64) (take m row))) (Ms[i := merge_array m (Ms ! i) row])"
      by (rule reads_elem [OF i(2)])
    then show ?thesis
      using True g
      by - (rule reads_eq, rule reads_bind, rule b, simp only: g Option.bind.simps if_True, rule reads_bind,
          assumption, rule reads_done, simp_all add: enc_row_def merge_row_def)
  next
    case False
    then show ?thesis
      using g by - (rule reads_eq, rule reads_bind, rule b, simp only: g Option.bind.simps if_False,
          rule reads_done, simp_all add: enc_row_def merge_row_def)
  qed
qed

lemma reads_rows:
  assumes E: "platform_mem E" and k: "decryption_fragments_ok G k" and old: "decryption_fragments_shape old"
  defines "n \<equiv> unat (df_num_trustees k)" and "m \<equiv> unat (df_num_selections k)"
  shows "reads (\<lambda>st. loop n (\<lambda>i ((rs, Ms), st). do {
            (rs, st) \<leftarrow> read_elem Serialize_read_bool i rs st;
            r \<leftarrow> arr_get rs i;
            if r then do {
              (Ms, st) \<leftarrow> read_elem (read_array (Serialize_read_uint4096 E) m) i Ms st;
              Some ((rs, Ms), st) }
            else Some ((rs, Ms), st) }) ((df_requested old, partial_decryption_M old), st))
      (concat (map (\<lambda>i. enc_row m (df_requested k ! i) (partial_decryption_M k ! i)) [0..<n]))
      (df_requested (merge_decryption_fragments old k), partial_decryption_M (merge_decryption_fragments old k))"
    (is "reads (\<lambda>st. loop n ?body (?a, st)) _ _")
proof -
  let ?rs = "df_requested old" and ?Ms = "partial_decryption_M old"
  let ?f = "\<lambda>i xs. xs[i := df_requested k ! i]"
  let ?g = "\<lambda>i ys. ys[i := merge_row m (df_requested k ! i) (?Ms ! i) (partial_decryption_M k ! i)]"
  let ?P = "\<lambda>i (xs :: bool list, ys). length xs = MAX_TRUSTEES \<and> length ys = MAX_TRUSTEES \<and> drop i ys = drop i ?Ms"
  note ok = k [unfolded decryption_fragments_ok_def, folded n_def m_def]
  have Ms: "length ?Ms = MAX_TRUSTEES" using old by (simp add: decryption_fragments_shape_def)
  have step: "reads (\<lambda>st. ?body i (a, st)) (enc_row m (df_requested k ! i) (partial_decryption_M k ! i))
      ((\<lambda>i (xs, ys). (?f i xs, ?g i ys)) i a) \<and> ?P (Suc i) ((\<lambda>i (xs, ys). (?f i xs, ?g i ys)) i a)"
    if i: "i < n" and P: "?P i a" for i a
  proof -
    obtain xs ys where a: "a = (xs, ys)" by force
    have l: "i < length xs" "i < length ys" "length xs = MAX_TRUSTEES" "length ys = MAX_TRUSTEES" "drop i ys = drop i ?Ms"
      using P i ok by (auto simp: a)
    have y: "ys ! i = ?Ms ! i"
      using hd_drop_conv_nth [of i ys] hd_drop_conv_nth [of i ?Ms] l Ms by simp
    have "?Ms ! i \<in> set ?Ms" using l Ms by simp
    with old y have yl: "length (ys ! i) = MAX_SELECTIONS" by (simp add: decryption_fragments_shape_def)
    have "drop (Suc i) ys = drop (Suc i) ?Ms"
      using l(5) by (metis drop_Suc tl_drop)
    then show ?thesis
      using reads_row [OF E l(1,2) _ yl, of "partial_decryption_M k ! i" m "df_requested k ! i"] ok i l y
      by (simp add: a)
  qed
  have "reads (\<lambda>st. loop n (\<lambda>i (a, st). ?body i (a, st)) (?a, st))
      (concat (map (\<lambda>i. enc_row m (df_requested k ! i) (partial_decryption_M k ! i)) [0..<n]))
      (floop n (\<lambda>i (xs, ys). (?f i xs, ?g i ys)) ?a)"
    by (rule reads_loop [where P = ?P, THEN conjunct1], erule step)
      (use old in \<open>simp_all add: decryption_fragments_shape_def\<close>)
  moreover have "floop n (\<lambda>i (xs, ys). (?f i xs, ?g i ys)) ?a
      = (df_requested (merge_decryption_fragments old k), partial_decryption_M (merge_decryption_fragments old k))"
    using floop_fill [of n ?rs] floop_fill [of n ?Ms] ok old
    by (simp add: floop_pair merge_decryption_fragments_def n_def m_def Let_def merge_array_def
        decryption_fragments_shape_def map_nth_upt)
  moreover have "(\<lambda>i (a, st). ?body i (a, st)) = ?body" by (intro ext) auto
  ultimately show ?thesis by simp
qed

interpretation decryption_fragments_codec: codec
  Serialize_reserve_decryption_fragments Serialize_write_decryption_fragments
  "\<lambda>E _. Serialize_read_decryption_fragments E" enc_decryption_fragments decryption_fragments_ok
  decryption_fragments_shape merge_decryption_fragments
proof
  fix G x assume "decryption_fragments_ok G x"
  note ok = this [unfolded decryption_fragments_ok_def]
  let ?n = "unat (df_num_trustees x)" and ?m = "unat (df_num_selections x)"
  let ?e = "\<lambda>i. enc_row ?m (df_requested x ! i) (partial_decryption_M x ! i)"
  have "reserves (\<lambda>st. do { st \<leftarrow> Serialize_reserve_bool st; r \<leftarrow> arr_get (df_requested x) i;
      if r then loop ?m (\<lambda>j. Serialize_reserve_uint4096) st else Some st }) (length (?e i))" if i: "i < ?n" for i
  proof (cases "df_requested x ! i")
    case True
    have "length (concat (map (enc_words 64) (take ?m (partial_decryption_M x ! i)))) = 512 * ?m"
      using ok i by (subst length_concat_const [where k = 512]) (simp_all add: min.absorb2)
    then have l: "1 + ?m * 512 = length (?e i)" using True by (simp add: enc_row_def bool_bytes_def)
    have g: "arr_get (df_requested x) i = Some True" using ok i True by simp
    show ?thesis
      unfolding g Option.bind.simps if_True
      by (rule reserves_eq [OF _ l], rule reserves_bind, rule prim_reserves, rule reserves_const_loop,
          rule reserves_numbers)
  next
    case False
    have g: "arr_get (df_requested x) i = Some False" using ok i False by simp
    show ?thesis
      unfolding g Option.bind.simps if_False
      using prim_reserves(1) False by (simp add: reserves_def enc_row_def bool_bytes_def)
  qed
  then have r: "reserves (loop ?n (\<lambda>i st. do { st \<leftarrow> Serialize_reserve_bool st; r \<leftarrow> arr_get (df_requested x) i;
      if r then loop ?m (\<lambda>j. Serialize_reserve_uint4096) st else Some st }))
      (sum_list (map (\<lambda>i. length (?e i)) [0..<?n]))"
    by (rule reserves_loop)
  show "reserves (Serialize_reserve_decryption_fragments x) (length (enc_decryption_fragments x))"
    by (rule reserves_eq, rule reserves_cong [OF Serialize_reserve_decryption_fragments_def], rule reserves_bind,
        rule prim_reserves, rule reserves_bind, rule prim_reserves, rule reserves_bind, rule prim_reserves,
        rule reserves_bind, rule r, rule reserves_numbers)
      (simp add: enc_decryption_fragments_def length_concat comp_def)
next
  fix E G x assume E: "platform_mem E" and "decryption_fragments_ok G x"
  note ok = this(2) [unfolded decryption_fragments_ok_def]
  let ?n = "unat (df_num_trustees x)" and ?m = "unat (df_num_selections x)"
  let ?e = "\<lambda>i. enc_row ?m (df_requested x ! i) (partial_decryption_M x ! i)"
  let ?body = "\<lambda>i st. do { r \<leftarrow> arr_get (df_requested x) i; st \<leftarrow> Serialize_write_bool r st;
      if r then do { row \<leftarrow> arr_get (partial_decryption_M x) i;
        write_array (Serialize_write_uint4096 E) ?m row st } else Some st }"
  have "writes (?body i) (?e i)" if i: "i < ?n" for i
  proof (cases "df_requested x ! i")
    case True
    have g: "arr_get (df_requested x) i = Some True" using ok i True by simp
    have h: "arr_get (partial_decryption_M x) i = Some (partial_decryption_M x ! i)" using ok i by simp
    have "writes (write_array (Serialize_write_uint4096 E) ?m (partial_decryption_M x ! i))
        (concat (map (enc_words 64) (take ?m (partial_decryption_M x ! i))))"
      using ok i True by (intro writes_array writes_uint4096 [OF E]) auto
    then show ?thesis
      unfolding g h Option.bind.simps if_True using True
      by - (rule writes_eq, rule writes_bind, rule writes_bool, assumption, simp add: enc_row_def)
  next
    case False
    have g: "arr_get (df_requested x) i = Some False" using ok i False by simp
    show ?thesis
      unfolding g Option.bind.simps if_False using False writes_bool [of False]
      by (simp add: enc_row_def)
  qed
  then have w: "writes (loop ?n ?body) (concat (map ?e [0..<?n]))"
    by (rule writes_loop)
  show "writes (Serialize_write_decryption_fragments E x) (enc_decryption_fragments x)"
    unfolding enc_decryption_fragments_def
    by (rule writes_cong [OF Serialize_write_decryption_fragments_def], rule writes_bind, rule writes_uint32,
        rule writes_bind, rule writes_uint32, rule writes_bind, rule writes_uint32, rule writes_bind, rule w,
        rule writes_uint256_pad [OF E]) (use ok in simp_all)
next
  fix E G x and old :: decryption_fragments_rep
  assume a: "platform_mem E" "decryption_fragments_ok G x" "decryption_fragments_shape old"
  note ok = a(2) [unfolded decryption_fragments_ok_def]
  have l: "reads (Serialize_read_uint256 E (lagrange_coefficient old)) (enc_words 4 (lagrange_coefficient x))
      (lagrange_coefficient x)"
    using ok by (intro reads_uint256 [OF a(1)]) simp_all
  show "reads (Serialize_read_decryption_fragments E old) (enc_decryption_fragments x)
      (merge_decryption_fragments old x)"
    by (rule reads_eq, rule reads_cong [OF Serialize_read_decryption_fragments_def], rule reads_bind,
        rule reads_uint32, rule reads_bind, rule reads_uint32, rule reads_bind, rule reads_uint32, rule reads_bind,
        rule reads_rows [OF a], simp only: case_prod_conv, rule reads_bind, rule l, rule reads_done)
      (simp_all add: enc_decryption_fragments_def merge_decryption_fragments_def Let_def)
qed (simp add: enc_decryption_fragments_def)

definition enc_ballot_tracker :: "ballot_tracker_rep \<Rightarrow> u8 list" where
  "enc_ballot_tracker k = le_bytes 8 (tracker_id k)"

definition enc_ballot_identifier :: "ballot_identifier_rep \<Rightarrow> u8 list" where
  "enc_ballot_identifier k = le_bytes 8 (identifier_id k)"

interpretation ballot_tracker_codec: codec
  "\<lambda>_. Serialize_reserve_ballot_tracker" "\<lambda>_. Serialize_write_ballot_tracker"
  "\<lambda>_ _. Serialize_read_ballot_tracker" enc_ballot_tracker "\<lambda>_ _. True" "\<lambda>_. True" "\<lambda>_ k. k"
proof
  fix x and old :: ballot_tracker_rep
  show "reserves Serialize_reserve_ballot_tracker (length (enc_ballot_tracker x))"
    unfolding enc_ballot_tracker_def length_le_bytes
    by (rule reserves_cong [OF Serialize_reserve_ballot_tracker_def], rule prim_reserves)
  show "writes (Serialize_write_ballot_tracker x) (enc_ballot_tracker x)"
    unfolding enc_ballot_tracker_def
    by (rule writes_cong [OF Serialize_write_ballot_tracker_def], rule writes_uint64)
  show "reads (Serialize_read_ballot_tracker old) (enc_ballot_tracker x) x"
    by (rule reads_eq, rule reads_cong [OF Serialize_read_ballot_tracker_def], rule reads_bind, rule reads_uint64,
        rule reads_done) (auto simp: enc_ballot_tracker_def intro: ballot_tracker_rep.equality)
qed (simp add: enc_ballot_tracker_def)

interpretation ballot_identifier_codec: codec
  "\<lambda>_. Serialize_reserve_ballot_identifier" "\<lambda>_. Serialize_write_ballot_identifier"
  "\<lambda>_ _. Serialize_read_ballot_identifier" enc_ballot_identifier "\<lambda>_ _. True" "\<lambda>_. True" "\<lambda>_ k. k"
proof
  fix x and old :: ballot_identifier_rep
  show "reserves Serialize_reserve_ballot_identifier (length (enc_ballot_identifier x))"
    unfolding enc_ballot_identifier_def length_le_bytes
    by (rule reserves_cong [OF Serialize_reserve_ballot_identifier_def], rule prim_reserves)
  show "writes (Serialize_write_ballot_identifier x) (enc_ballot_identifier x)"
    unfolding enc_ballot_identifier_def
    by (rule writes_cong [OF Serialize_write_ballot_identifier_def], rule writes_uint64)
  show "reads (Serialize_read_ballot_identifier old) (enc_ballot_identifier x) x"
    by (rule reads_eq, rule reads_cong [OF Serialize_read_ballot_identifier_def], rule reads_bind, rule reads_uint64,
        rule reads_done) (auto simp: enc_ballot_identifier_def intro: ballot_identifier_rep.equality)
qed (simp add: enc_ballot_identifier_def)

definition enc_trustee_state :: "nat \<Rightarrow> trustee_state_rep \<Rightarrow> u8 list" where
  "enc_trustee_state n k = le_bytes 4 (ts_index k) @ enc_private_key (ts_private_key k)
     @ enc_rsa_private_key (ts_rsa_private_key k) @ enc_shares n (ts_my_key_shares k)"

definition trustee_state_ok :: "nat \<Rightarrow> params \<Rightarrow> trustee_state_rep \<Rightarrow> bool" where
  "trustee_state_ok n G k \<longleftrightarrow> private_key_ok (ts_private_key k) \<and> rsa_private_key_ok (ts_rsa_private_key k) \<and>
     shares_ok n (ts_my_key_shares k)"

definition trustee_state_shape :: "trustee_state_rep \<Rightarrow> bool" where
  "trustee_state_shape k \<longleftrightarrow> private_key_shape (ts_private_key k) \<and> length (ts_my_key_shares k) = MAX_TRUSTEES"

definition merge_trustee_state :: "nat \<Rightarrow> trustee_state_rep \<Rightarrow> trustee_state_rep \<Rightarrow> trustee_state_rep" where
  "merge_trustee_state n old k =
     k\<lparr>ts_private_key := merge_private_key (ts_private_key old) (ts_private_key k),
       ts_my_key_shares := merge_array n (ts_my_key_shares old) (ts_my_key_shares k)\<rparr>"

interpretation trustee_state_codec: codec
  "Serialize_reserve_trustee_state n" "Serialize_write_trustee_state n"
  "\<lambda>E _. Serialize_read_trustee_state n E" "enc_trustee_state n" "trustee_state_ok n"
  trustee_state_shape "merge_trustee_state n" for n
proof
  fix G x assume "trustee_state_ok n G x"
  note ok = this [unfolded trustee_state_ok_def]
  show "reserves (Serialize_reserve_trustee_state n x) (length (enc_trustee_state n x))"
    by (rule reserves_eq, rule reserves_cong [OF Serialize_reserve_trustee_state_def], rule reserves_bind,
        rule prim_reserves, rule reserves_bind, rule reserves_private_key, (use ok in blast), rule reserves_bind,
        rule reserves_rsa_private_key [of "ts_rsa_private_key x"], rule reserves_shares, (use ok in blast))
      (simp add: enc_trustee_state_def)
next
  fix E G x assume E: "platform_mem E" and "trustee_state_ok n G x"
  note ok = this(2) [unfolded trustee_state_ok_def]
  show "writes (Serialize_write_trustee_state n E x) (enc_trustee_state n x)"
    unfolding enc_trustee_state_def
    by (rule writes_cong [OF Serialize_write_trustee_state_def], rule writes_bind, rule writes_uint32,
        rule writes_bind, rule writes_private_key [OF E], (use ok in blast), rule writes_bind,
        rule writes_rsa_private_key [OF E], (use ok in blast), rule writes_shares [OF E], (use ok in blast))
next
  fix E G x and old :: trustee_state_rep
  assume E: "platform_mem E" and "trustee_state_ok n G x" and "trustee_state_shape old"
  note ok = this(2) [unfolded trustee_state_ok_def] this(3) [unfolded trustee_state_shape_def]
  show "reads (Serialize_read_trustee_state n E old) (enc_trustee_state n x) (merge_trustee_state n old x)"
    by (rule reads_eq, rule reads_cong [OF Serialize_read_trustee_state_def], rule reads_bind, rule reads_uint32,
        rule reads_bind, rule reads_private_key [OF E, of "ts_private_key x"], (use ok in blast), (use ok in blast),
        rule reads_bind, rule reads_rsa_private_key [OF E, of "ts_rsa_private_key x"], (use ok in blast),
        rule reads_bind, rule reads_shares [OF E, of _ "ts_my_key_shares x"], (use ok in blast), (use ok in blast),
        rule reads_done)
      (auto simp: enc_trustee_state_def merge_trustee_state_def intro: trustee_state_rep.equality)
qed (simp add: enc_trustee_state_def)

end
