(* ===== verification/CryptoClaims.thy ===== *)
theory CryptoClaims
  imports CryptoProofs SerializeMessages
begin

text \<open>
  The properties of the cryptographic layer, each with an instance. Two groups serve the
  instances: \<open>small_group\<close>, the subgroup of order 11 of the integers modulo 23, and
  \<open>wide_group\<close>, the subgroup of order 2 modulo \<open>2^4096 - 1\<close>, whose generator takes the 64 words
  that the code can hash.
\<close>

section \<open>Groups and numbers for the instances\<close>

definition small_group :: params where
  "small_group = \<lparr>par_p = 23, par_q = 11, generator = 2\<rparr>"

definition wide_p :: int where
  "wide_p = 2 ^ (64 * 64) - 1"

definition wide_group :: params where
  "wide_group = \<lparr>par_p = wide_p, par_q = 2, generator = wide_p - 1\<rparr>"

lemma small_group_ok: "group_ok small_group"
  by (simp add: group_ok_def small_group_def)

lemma in_small_group: "in_group small_group x \<longleftrightarrow> x ^ 11 mod 23 = 1"
  by (simp add: in_group_def small_group_def)

lemma small_group_pow: "0 \<le> e \<Longrightarrow> pow_mod_p ref_env small_group b e = b ^ nat e mod 23"
  using ref.pow_mod_p_eq [OF small_group_ok] by (simp add: small_group_def)

lemma small_group_mul: "mul_mod_p ref_env small_group a b = a * b mod 23"
  using ref.mul_mod_p_eq [OF small_group_ok] by (simp add: small_group_def)

lemma small_group_q: "add_mod_q ref_env small_group a b = (a + b) mod 11"
  using ref.add_mod_q_eq [OF small_group_ok] by (simp add: small_group_def)

lemma small_group_sel [simp]: "par_p small_group = 23" "par_q small_group = 11" "generator small_group = 2"
  by (simp_all add: small_group_def)

lemma minus_one_square: "2 < p \<Longrightarrow> (p - 1) ^ 2 mod p = (1 :: int)"
proof -
  assume p: "2 < p"
  have "(p - 1) ^ 2 = 1 + p * (p - 2)" by (simp add: power2_eq_square algebra_simps)
  then show ?thesis using p by (simp only: mod_mult_self2) simp
qed

lemma wide_group_sel [simp]:
  "par_p wide_group = wide_p" "par_q wide_group = 2" "generator wide_group = wide_p - 1"
  by (simp_all add: wide_group_def)

lemma below_power:
  fixes a b :: int
  assumes "2 * b \<le> a" "4 \<le> b"
  shows "2 < a - 1" "a - 1 < a" "b \<le> a - 1 - 1" "a - 1 - 1 < a"
  using assms by simp_all

lemma wide_p: "2 < wide_p" "wide_p < 2 ^ (64 * 64)" "2 ^ (64 * (64 - 1)) \<le> wide_p - 1" "wide_p - 1 < 2 ^ (64 * 64)"
proof -
  have 1: "(2 :: int) * 2 ^ (64 * (64 - 1)) \<le> 2 ^ (64 * 64)"
    unfolding power_Suc [symmetric] by (rule power_increasing) simp_all
  have "(2 :: int) ^ 2 \<le> 2 ^ (64 * (64 - 1))" by (rule power_increasing) simp_all
  then have 2: "4 \<le> (2 :: int) ^ (64 * (64 - 1))" by (simp only: power2_eq_square)
  show "2 < wide_p" "wide_p < 2 ^ (64 * 64)" "2 ^ (64 * (64 - 1)) \<le> wide_p - 1" "wide_p - 1 < 2 ^ (64 * 64)"
    unfolding wide_p_def by (rule below_power [OF 1 2])+
qed

lemma wide_group_ok: "group_ok wide_group"
  using wide_p(1) minus_one_square [OF wide_p(1)] by (simp add: group_ok_def)

lemma wide_fits: "fits 64 (wide_p - 1)"
  unfolding fits_def by (intro conjI wide_p(3,4) zero_less_numeral)

lemma wide_powers:
  "pow_mod_p ref_env wide_group (wide_p - 1) 1 = wide_p - 1"
  "pow_mod_p ref_env wide_group x 0 = 1"
  "pow_mod_p ref_env wide_group (wide_p - 1) 2 = 1"
  "mul_mod_p ref_env wide_group (wide_p - 1) (wide_p - 1) = 1"
  using wide_p(1) minus_one_square [OF wide_p(1)]
  by (simp_all add: ref.pow_mod_p_eq [OF wide_group_ok] ref.mul_mod_p_eq [OF wide_group_ok]
      zmod_minus1 flip: power2_eq_square)

section \<open>What is hashed\<close>

context platform_mem
begin

lemma enc_words_nonempty: "0 < n \<Longrightarrow> enc_words n v \<noteq> []"
  using length_enc_words [of n v] by fastforce

lemma reserve_write_bignum_fits:
  assumes "fits 64 v"
  shows "Serialize_reserve_write_bignum E v = Some (Some (enc_words 64 v))"
proof -
  have "reserves Serialize_reserve_uint4096 (length (enc_words 64 v))"
    using reserves_numbers(1) by simp
  then have "serialize_with E Serialize_reserve_uint4096 (Serialize_write_uint4096 E v)
      = Some (message_state (enc_words 64 v))"
    using writes_uint4096 [OF platform_mem_axioms assms]
    by (rule serialize_with_ok [OF platform_mem_axioms]) (simp add: enc_words_nonempty)
  then obtain st where "Serialize_reserve_uint4096 reserving_state = Some st"
      "Serialize_write_uint4096 E v (Serialize_allocate E st) = Some (message_state (enc_words 64 v))"
    by (auto simp: serialize_with_def bind_eq_Some_conv)
  then show ?thesis
    by (simp add: Serialize_reserve_write_bignum_def message_state_def written_buffer_def)
qed

lemma reserve_write_hash_fits:
  assumes "fits 4 v"
  shows "Serialize_reserve_write_hash E v = Some (Some (enc_words 4 v))"
proof -
  have "reserves Serialize_reserve_hash (length (enc_words 4 v))"
    using reserves_numbers(3) by simp
  then have "serialize_with E Serialize_reserve_hash (Serialize_write_hash E v)
      = Some (message_state (enc_words 4 v))"
    using writes_hash [OF platform_mem_axioms assms]
    by (rule serialize_with_ok [OF platform_mem_axioms]) (simp add: enc_words_nonempty)
  then obtain st where "Serialize_reserve_hash reserving_state = Some st"
      "Serialize_write_hash E v (Serialize_allocate E st) = Some (message_state (enc_words 4 v))"
    by (auto simp: serialize_with_def bind_eq_Some_conv)
  then show ?thesis
    by (simp add: Serialize_reserve_write_hash_def message_state_def written_buffer_def)
qed

lemma hash_update_p_fits:
  "fits 64 v \<Longrightarrow> Crypto_hash_update_bignum_p E v context = Some (context @ enc_words 64 v)"
  by (simp add: Crypto_hash_update_bignum_p_def reserve_write_bignum_fits)

lemma hash_init_base_fits: "fits 4 h \<Longrightarrow> hash_init_base E h = Some (enc_words 4 h)"
  by (simp add: hash_init_base_def reserve_write_hash_fits SHA256_DIGEST_LENGTH_def)

text \<open>A number of fewer words leaves the buffer unwritten.\<close>

lemma hash_update_p_short:
  assumes v: "0 \<le> v" "v < 2 ^ (64 * 63)"
  shows "Crypto_hash_update_bignum_p E v context = None"
proof -
  obtain b where b: "malloc E 512 = Some b" "length b = 512"
    using malloc_ok [of 512] malloc_length by blast
  let ?st = "\<lparr>ss_status = SERIALIZE_STATE_RESERVING, ss_len = 512, ss_offset = 0, ss_buf = None\<rparr>"
  let ?st' = "\<lparr>ss_status = SERIALIZE_STATE_WRITING, ss_len = 512, ss_offset = 0, ss_buf = Some b\<rparr>"
  have r: "Serialize_reserve_uint4096 reserving_state = Some ?st"
    using reserves_numbers(1) by (simp add: reserves_def reserving_state_def)
  have a: "Serialize_allocate E ?st = ?st'" using b by (simp add: Serialize_allocate_def)
  have "length (mpz_export_u64 E v) < 64"
    using length_export_le [of v 63] v by simp
  then have "export_to_64_t E v 64 = Some (BIGNUM_IO_ERROR, None)"
    using b(1) by (simp add: export_to_64_t_def)
  then have "Serialize_write_uint4096 E v ?st' = Some (?st'\<lparr>ss_status := SERIALIZE_STATE_IO_ERROR\<rparr>)"
    by (simp add: Serialize_write_uint4096_def Serialize_write_uint64_ts_def bignum_error_def
        UINT4096_WORD_COUNT_def)
  then show ?thesis
    by (simp add: Crypto_hash_update_bignum_p_def Serialize_reserve_write_bignum_def r a written_buffer_def)
qed

text \<open>Samples from a device that delivers small numbers.\<close>

lemma sample_byte:
  assumes b: "0 < uint (b :: u8)"
  shows "RandomSource_uniform_bignum_o E old (replicate 511 0 @ b # s) = (RANDOM_SOURCE_SUCCESS, uint b, s)"
proof -
  let ?bytes = "replicate 511 0 @ [b]" and ?o = "uint4096_zext_o (replicate 511 0 @ [b])"
  have bb: "uint b < 256" using uint_lt2p [of b] by simp
  have r: "(2 :: int) ^ 300 \<le> range4096"
    unfolding range4096_def UINT4096_WORD_COUNT_def by (rule power_increasing) simp_all
  have w: "wval ?bytes = uint b" by simp
  have o: "length ?o = UINT4096_WORD_COUNT" "wval ?o = uint b"
    using uint4096_zext_o_correct [of ?bytes] w b bb r by simp_all
  have z: "length (uint4096_zext_o []) = UINT4096_WORD_COUNT" "wval (uint4096_zext_o []) = 0"
    using uint4096_zext_o_correct [of "[]"] by simp_all
  have "\<not> uint4096_le ?o (uint4096_zext_o [])" "uint4096_lt ?o (modulus p_4)"
    using b bb r o z p_4_modulus by (simp_all add: uint4096_compare)
  moreover have "fread_item UINT4096_SIZE_BYTES (replicate 511 0 @ b # s) = Some (?bytes, s)"
    by (simp add: fread_item_def UINT4096_SIZE_BYTES_def)
  ultimately have "RandomSource_uniform_o (replicate 511 0 @ b # s) x = (RANDOM_SOURCE_SUCCESS, ?o, s)" for x
    by (subst RandomSource_uniform_o.simps) (simp add: Let_def)
  moreover obtain x where "uint4096_zext E [] = Some x"
    using malloc_ok [of UINT4096_SIZE_BYTES] by (auto simp: uint4096_zext_def)
  ultimately show ?thesis
    using o by (simp add: RandomSource_uniform_bignum_o_def RandomSource_uniform_def import_uint4096_def
        mpz_import_u64_eq UINT4096_WORD_COUNT_def)
qed

lemma sample_byte_q:
  assumes "uint (b :: u8) \<le> par_q G"
  shows "RandomSource_uniform_bignum_o_q E G old (replicate 31 0 @ b # s) = (RANDOM_SOURCE_SUCCESS, uint b, s)"
proof -
  have "fread_item 32 (replicate 31 0 @ b # s) = Some (replicate 31 0 @ [b], s)"
    by (simp add: fread_item_def)
  with assms show ?thesis
    by (subst RandomSource_uniform_bignum_o_q.simps) (simp add: mpz_import_u8_eq Let_def)
qed

lemma source_new: "RandomSource_new E (Some s) = (RANDOM_SOURCE_SUCCESS, Some s)"
  using malloc_ok [of 8] by (auto simp: RandomSource_new_def)

end

lemma is_prime_check:
  assumes "1 < n" "list_all (\<lambda>d. d dvd n \<longrightarrow> d = 1 \<or> d = n) [0..<n + 1]"
  shows "is_prime n"
  unfolding is_prime_def
proof (intro conjI allI impI assms(1))
  fix d assume d: "d dvd n"
  then have "d \<in> set [0..<n + 1]" using dvd_imp_le [OF d] assms(1) by auto
  then show "d = 1 \<or> d = n" using assms(2) d by (auto simp: list_all_iff)
qed

lemma small_primes: "is_prime 5" "is_prime 11"
  by (rule is_prime_check, simp, code_simp)+

lemma example_rsa_pair:
  "rsa_pair_ok \<lparr>rsa_n = 55, rsa_e = 3, rsa_d = 7, rsa_p = 5, rsa_q = 11\<rparr> \<lparr>pub_n = 55, pub_e = 3\<rparr>"
proof -
  have "lcm (4 :: int) 10 = 20" by (simp add: lcm_altdef_int gcd_non_0_int)
  then show ?thesis using small_primes by (simp add: rsa_pair_ok_def)
qed

section \<open>The proofs\<close>

text \<open>Whatever key pair \<open>Crypto_gen_keypair\<close> delivers with status success, its commitments
  belong to its coefficients and its Schnorr proof passes \<open>Crypto_check_keypair_proof\<close>.\<close>

theorem gen_keypair_checks:
  assumes "platform E" "group_ok G" "Crypto_gen_keypair E G dev t h = Some r"
    and "keypair_status r = CRYPTO_SUCCESS"
  shows "key_matches E G (keypair_private r) (keypair_public r) \<and>
    Crypto_check_keypair_proof E G (keypair_public r) h = Some True"
  using platform.gen_keypair_proof [OF assms] by simp

definition example_device :: "u8 list" where
  "example_device = replicate 511 0 @ 1 # replicate 31 0 @ [1]"

lemma example_keypair:
  "\<exists>r. Crypto_gen_keypair ref_env wide_group (Some example_device) 1 [] = Some r \<and>
     keypair_status r = CRYPTO_SUCCESS"
proof -
  have b: "arr_get blank_array 0 = Some 0" "\<And>x. arr_set blank_array 0 x = Some (blank_array[0 := x])"
    "blank_array[0 := x] ! 0 = x" for x
    by (simp_all add: blank_array_def MAX_TRUSTEES_def)
  show ?thesis
    using ref.hash_update_p_fits [OF wide_fits]
      ref.sample_byte [of 1 0 "replicate 31 0 @ [1]"] ref.sample_byte_q [of 1 wide_group 0 "[]"] wide_powers
    by (simp add: Crypto_gen_keypair_def Crypto_private_key_init_def Crypto_public_key_new_def
        Crypto_schnorr_proof_new_def mpz_init_n_blank ref.source_new MAX_TRUSTEES_def example_device_def
        gen_coefficients_step_def gen_commitments_step_def b Let_def keypair_result_def gen_responses_def
        Crypto_RandomSource_status_convert_def)
qed

theorem gen_keypair_checks_witness:
  "\<exists>r. Crypto_gen_keypair ref_env wide_group (Some example_device) 1 [] = Some r \<and>
     key_matches ref_env wide_group (keypair_private r) (keypair_public r) \<and>
     Crypto_check_keypair_proof ref_env wide_group (keypair_public r) [] = Some True"
  using example_keypair gen_keypair_checks [OF ref.platform_axioms wide_group_ok] by blast

text \<open>C29: A proof generated for a partial decryption made with the secret key is accepted for the
  matching public key.\<close>

theorem decryption_proof_accepted:
  assumes "platform E" "group_ok G" "in_group G (nonce_encoding enc)" "0 \<le> secret"
    and "Crypto_generate_decryption_cp_proof E G dev secret M enc h = Some proof"
    and "M = pow_mod_p E G (nonce_encoding enc) secret"
  shows "Crypto_check_decryption_cp_proof E G proof (pow_mod_p E G (generator G) secret) M enc h"
  using platform.decryption_proof_complete [OF assms] .

abbreviation wide_encryption :: encryption_rep where
  "wide_encryption \<equiv> \<lparr>nonce_encoding = wide_p - 1, message_encoding = wide_p - 1\<rparr>"

definition example_hash :: hash where
  "example_hash = 2 ^ 200"

lemma example_hash_fits: "fits 4 example_hash"
  by (simp add: fits_def example_hash_def)

lemma in_wide_group: "in_group wide_group (wide_p - 1)"
  using wide_group_ok by (auto dest: group_okD(7))

theorem decryption_proof_accepted_witness:
  "\<exists>proof. Crypto_generate_decryption_cp_proof ref_env wide_group (Some (replicate 31 0 @ [1])) 1
       (wide_p - 1) wide_encryption example_hash = Some proof \<and>
     Crypto_check_decryption_cp_proof ref_env wide_group proof (wide_p - 1) (wide_p - 1)
       wide_encryption example_hash"
proof -
  obtain pr where "Crypto_generate_decryption_cp_proof ref_env wide_group (Some (replicate 31 0 @ [1])) 1
       (wide_p - 1) wide_encryption example_hash = Some pr"
    using ref.hash_update_p_fits [OF wide_fits] ref.hash_init_base_fits [OF example_hash_fits]
      ref.sample_byte_q [of 1 wide_group 0 "[]"] wide_powers
    by (simp add: Crypto_generate_decryption_cp_proof_def ref.source_new Let_def)
  with decryption_proof_accepted [OF ref.platform_axioms wide_group_ok _ _ this]
  show ?thesis by (simp add: in_wide_group wide_powers)
qed

text \<open>C22: If two proofs with the same commitment but challenges whose difference is invertible modulo
  \<open>q\<close> pass \<open>Crypto_check_decryption_cp_proof\<close>, then the partial decryption is made with the
  discrete logarithm of the public key (special soundness).\<close>

theorem decryption_proof_special_sound:
  assumes "platform E" "group_ok G" "in_group G A" "in_group G pk" "in_group G M"
    and "pk = pk mod par_p G" "M = M mod par_p G"
    and "Crypto_check_decryption_cp_proof E G \<lparr>cp_commitment = com, cp_challenge = c, cp_response = v\<rparr>
        pk M \<lparr>nonce_encoding = A, message_encoding = B\<rparr> h"
    and "Crypto_check_decryption_cp_proof E G \<lparr>cp_commitment = com, cp_challenge = d, cp_response = w\<rparr>
        pk M \<lparr>nonce_encoding = A, message_encoding = B\<rparr> h"
    and "0 \<le> c" "0 \<le> d" "0 \<le> v" "0 \<le> w" "coprime (c - d) (par_q G)"
  shows "\<exists>s. 0 \<le> s \<and> s < par_q G \<and> pk = pow_mod_p E G (generator G) s \<and> M = pow_mod_p E G A s"
  using platform.decryption_proof_sound [OF assms] .

theorem decryption_proof_special_sound_witness:
  "\<exists>s. 0 \<le> s \<and> s < 11 \<and> 8 = (2 :: int) ^ nat s mod 23 \<and> 18 = (4 :: int) ^ nat s mod 23"
proof -
  have "\<exists>s. 0 \<le> s \<and> s < par_q small_group \<and> 8 = pow_mod_p ref_env small_group (generator small_group) s \<and>
      18 = pow_mod_p ref_env small_group 4 s"
    by (rule decryption_proof_special_sound [OF ref.platform_axioms small_group_ok, where A = 4 and B = 1 and h = 0
        and c = 1 and v = 3 and d = 2 and w = 6 and com = "\<lparr>nonce_encoding = 1, message_encoding = 1\<rparr>"])
      (simp_all add: in_small_group Crypto_check_decryption_cp_proof_def small_group_pow small_group_mul)
  then show ?thesis by (auto simp: small_group_pow)
qed

text \<open>C30: \<open>Crypto_check_decryption_cp_proof\<close> accepts a proof for any two group elements as public key
  and partial decryption: for every challenge and response there is a commitment that fits. The
  check never recomputes the challenge hash.\<close>

theorem decryption_proof_forgeable:
  assumes "platform E" "group_ok G" "in_group G pk" "in_group G M" "0 \<le> c" "0 \<le> v"
  shows "Crypto_check_decryption_cp_proof E G
    \<lparr>cp_commitment =
       \<lparr>nonce_encoding = div_mod_p E G (pow_mod_p E G (generator G) v) (pow_mod_p E G pk c),
        message_encoding = div_mod_p E G (pow_mod_p E G (nonce_encoding enc) v) (pow_mod_p E G M c)\<rparr>,
     cp_challenge = c, cp_response = v\<rparr> pk M enc h"
  using platform.decryption_proof_forged [OF assms] .

text \<open>With the public key \<open>2^3\<close>, the wrong partial decryption \<open>4^5\<close> of \<open>(4, 1)\<close> passes.\<close>

theorem decryption_proof_forgeable_witness:
  "(\<exists>proof. Crypto_check_decryption_cp_proof ref_env small_group proof (2 ^ 3 mod 23) (4 ^ 5 mod 23)
     \<lparr>nonce_encoding = 4, message_encoding = 1\<rparr> 0) \<and> (4 :: int) ^ 5 mod 23 \<noteq> 4 ^ 3 mod 23"
proof -
  have "in_group small_group 8" "in_group small_group 12" by (simp_all add: in_small_group)
  from decryption_proof_forgeable [OF ref.platform_axioms small_group_ok this, of 1 1
      "\<lparr>nonce_encoding = 4, message_encoding = 1\<rparr>" 0]
  show ?thesis by auto
qed

text \<open>The encryption of a selection together with the proof generated for it passes
  \<open>Crypto_check_dis_proof\<close>, selected or not, whatever the random device delivers.\<close>

theorem dis_proof_accepted:
  assumes "platform E" "group_ok G" "in_group G (joint_key key)" "0 \<le> old"
    and enc: "Crypto_encrypt E G source key (if selected then generator G else 1) old = (enc, nonce, source1)"
    and "Crypto_generate_dis_proof E G source1 h selected (joint_key key) enc nonce = Some (proof, source2)"
  shows "Crypto_check_dis_proof E G proof enc h (joint_key key)"
proof -
  obtain st c s' where u: "RandomSource_uniform_bignum_o E old source = (st, c, s')" by (rule prod_cases3)
  then have "0 \<le> nonce"
    using enc platform.uniform_bignum_nonneg [OF assms(1,4), of source] by (simp add: Crypto_encrypt_def)
  moreover have "nonce_encoding enc = pow_mod_p E G (generator G) nonce"
    "message_encoding enc
      = mul_mod_p E G (pow_mod_p E G (joint_key key) nonce) (if selected then generator G else 1)"
    using enc u by (auto simp: Crypto_encrypt_def)
  ultimately show ?thesis
    using platform.dis_proof_complete [OF assms(1-3) _ assms(6)] by blast
qed

definition example_selection_device :: "u8 list" where
  "example_selection_device = replicate 511 0 @ 1 # replicate 31 0 @ 1 # replicate 511 0 @ 2 # replicate 511 0 @ [1]"

lemma wide_fake_commitment:
  "dis_fake_commitment ref_env wide_group False (wide_p - 1) wide_encryption 2 1 = wide_encryption"
proof -
  have "div_mod_p ref_env wide_group a 1 = a" if "0 \<le> a" "a < wide_p" for a
    using ref.div_mul [OF wide_group_ok, of 1 a] ref.mul_one(1) [OF wide_group_ok, of "div_mod_p ref_env wide_group a 1"]
      ref.mul_reduced [OF wide_group_ok] that wide_group_ok by (simp add: div_mod_p_def)
  then show ?thesis
    using wide_p(1) by (simp add: dis_fake_commitment_def Let_def wide_powers ref.mul_one [OF wide_group_ok] zmod_minus1)
qed

theorem dis_proof_accepted_witness:
  "\<exists>enc nonce source1 proof source2.
     Crypto_encrypt ref_env wide_group example_selection_device
       \<lparr>joint_num_trustees = 1, joint_key = wide_p - 1\<rparr> 1 0 = (enc, nonce, source1) \<and>
     Crypto_generate_dis_proof ref_env wide_group source1 example_hash False (wide_p - 1) enc nonce
       = Some (proof, source2) \<and>
     Crypto_check_dis_proof ref_env wide_group proof enc example_hash (wide_p - 1)"
proof -
  let ?key = "\<lparr>joint_num_trustees = 1, joint_key = wide_p - 1\<rparr>"
  let ?rest = "replicate 31 0 @ 1 # replicate 511 0 @ 2 # replicate 511 0 @ [1]"
  have e: "Crypto_encrypt ref_env wide_group example_selection_device ?key
      (if False then generator wide_group else 1) 0 = (wide_encryption, 1, ?rest)"
    using ref.sample_byte [of 1 0 ?rest] wide_p(1)
    by (simp add: Crypto_encrypt_def example_selection_device_def wide_powers ref.mul_one [OF wide_group_ok]
        zmod_minus1)
  obtain pr s2 where g: "Crypto_generate_dis_proof ref_env wide_group ?rest example_hash False (joint_key ?key)
      wide_encryption 1 = Some (pr, s2)"
    using ref.hash_update_p_fits [OF wide_fits] ref.hash_init_base_fits [OF example_hash_fits]
      ref.sample_byte_q [of 1 wide_group 0 "replicate 511 0 @ 2 # replicate 511 0 @ [1]"]
      ref.sample_byte [of 2 0 "replicate 511 0 @ [1]"] ref.sample_byte [of 1 0 "[]"]
    by (simp add: Crypto_generate_dis_proof_def wide_fake_commitment wide_powers hash_update_encryption_def Let_def)
  from dis_proof_accepted [OF ref.platform_axioms wide_group_ok _ _ e g] e g
  show ?thesis by (auto simp: in_wide_group)
qed

text \<open>C21: For a prime \<open>q\<close>, two accepted disjunctive proofs with the same commitments and different
  challenges show that the encryption is one of 0 or of 1 under the public key (special
  soundness).\<close>

theorem dis_proof_special_sound:
  assumes "platform E" "group_ok G" "is_prime (nat (par_q G))"
    and "in_group G pk" "in_group G (nonce_encoding enc)" "in_group G (message_encoding enc)"
    and "nonce_encoding enc = nonce_encoding enc mod par_p G"
      "message_encoding enc = message_encoding enc mod par_p G"
    and "Crypto_check_dis_proof E G pf enc h pk" "Crypto_check_dis_proof E G pf' enc h pk"
    and "commitment0 pf' = commitment0 pf" "commitment1 pf' = commitment1 pf"
    and "dis_challenge pf \<noteq> dis_challenge pf'"
    and "0 \<le> challenge0 pf" "0 \<le> challenge1 pf" "0 \<le> response0 pf" "0 \<le> response1 pf"
      "0 \<le> challenge0 pf'" "0 \<le> challenge1 pf'" "0 \<le> response0 pf'" "0 \<le> response1 pf'"
  shows "\<exists>r. 0 \<le> r \<and> r < par_q G \<and> nonce_encoding enc = pow_mod_p E G (generator G) r \<and>
    (message_encoding enc = pow_mod_p E G pk r \<or>
     message_encoding enc = mul_mod_p E G (generator G) (pow_mod_p E G pk r))"
  using platform.dis_proof_sound [OF assms] .

text \<open>\<open>(2^2, 2 * 8^2)\<close> under the key 8: challenge 0 is 0 in both proofs, challenge 1 is 1 and 2.\<close>

theorem dis_proof_special_sound_witness:
  "\<exists>r. 0 \<le> r \<and> r < 11 \<and> (4 :: int) = 2 ^ nat r mod 23 \<and> (13 = (8 :: int) ^ nat r mod 23 \<or> 13 = (2 :: int) * (8 ^ nat r mod 23) mod 23)"
proof -
  let ?one = "\<lparr>nonce_encoding = 1, message_encoding = 1\<rparr>"
  let ?pr = "\<lambda>c w. \<lparr>commitment0 = ?one, commitment1 = ?one, dis_challenge = c,
     challenge0 = 0, challenge1 = c, response0 = 0, response1 = w\<rparr>"
  have "is_prime 11" by (rule small_primes)
  then have "\<exists>r. 0 \<le> r \<and> r < par_q small_group \<and>
      nonce_encoding \<lparr>nonce_encoding = 4, message_encoding = 13\<rparr> = pow_mod_p ref_env small_group (generator small_group) r \<and>
      (message_encoding \<lparr>nonce_encoding = 4, message_encoding = 13\<rparr> = pow_mod_p ref_env small_group 8 r \<or>
       message_encoding \<lparr>nonce_encoding = 4, message_encoding = 13\<rparr>
         = mul_mod_p ref_env small_group (generator small_group) (pow_mod_p ref_env small_group 8 r))"
    by (intro dis_proof_special_sound [OF ref.platform_axioms small_group_ok, where h = 0
        and pf = "?pr 1 2" and pf' = "?pr 2 4"])
      (simp_all add: in_small_group Crypto_check_dis_proof_def small_group_pow small_group_mul small_group_q Let_def)
  then show ?thesis by (auto simp: small_group_pow small_group_mul)
qed

text \<open>Whatever an encryption contains, a disjunctive proof that passes
  \<open>Crypto_check_dis_proof\<close> can be made up for every choice of challenges and responses: both
  commitments are chosen afterwards, and the check does not recompute the challenge hash.\<close>

theorem dis_proof_forgeable:
  assumes "platform E" "group_ok G" "in_group G (nonce_encoding enc)" "in_group G (message_encoding enc)"
    and "0 \<le> c0" "0 \<le> c1" "0 \<le> v0" "0 \<le> v1"
  shows "Crypto_check_dis_proof E G
    \<lparr>commitment0 = dis_fake_commitment E G True pk enc c0 v0,
     commitment1 = dis_fake_commitment E G False pk enc c1 v1,
     dis_challenge = add_mod_q E G c0 c1, challenge0 = c0, challenge1 = c1,
     response0 = v0, response1 = v1\<rparr> enc h pk"
  using platform.dis_proof_forged [OF assms] .

text \<open>An encryption of \<open>g^5\<close>, five votes, is accepted as one of 0 or 1.\<close>

theorem dis_proof_forgeable_witness:
  "encrypts ref_env small_group 8 2 5 \<lparr>nonce_encoding = 4, message_encoding = 1\<rparr> \<and>
   (\<exists>proof. Crypto_check_dis_proof ref_env small_group proof \<lparr>nonce_encoding = 4, message_encoding = 1\<rparr> 0 8)"
proof
  show "encrypts ref_env small_group 8 2 5 \<lparr>nonce_encoding = 4, message_encoding = 1\<rparr>"
    by (simp add: encrypts_def small_group_pow small_group_mul)
  show "\<exists>proof. Crypto_check_dis_proof ref_env small_group proof \<lparr>nonce_encoding = 4, message_encoding = 1\<rparr> 0 8"
    using dis_proof_forgeable [OF ref.platform_axioms small_group_ok, of "\<lparr>nonce_encoding = 4, message_encoding = 1\<rparr>"
        1 1 1 1 8 0]
    by (auto simp: in_small_group)
qed

text \<open>The proof generated for the homomorphic sum of the selections passes
  \<open>Crypto_check_aggregate_cp_proof\<close> for the number of selections it encrypts.\<close>

theorem aggregate_proof_accepted:
  assumes "platform E" "group_ok G" "in_group G pk" "encrypts E G pk nonce (uint l) enc"
    and "Crypto_generate_aggregate_cp_proof E G source nonce enc h pk = Some (proof, source')"
  shows "Crypto_check_aggregate_cp_proof E G proof enc h pk l = Some True"
proof (rule platform.aggregate_proof_complete [OF assms(1-3) _ assms(5)])
  show "0 \<le> nonce" using assms(4) by (simp add: encrypts_def)
  show "enc = \<lparr>nonce_encoding = pow_mod_p E G (generator G) nonce,
      message_encoding = mul_mod_p E G (pow_mod_p E G (generator G) (uint l)) (pow_mod_p E G pk nonce)\<rparr>"
    using assms(4) platform.mul_commute [OF assms(1), of G "pow_mod_p E G pk nonce"]
    by (intro encryption_rep.equality) (simp_all add: encrypts_def)
qed

theorem aggregate_proof_accepted_witness:
  "\<exists>proof source'. Crypto_generate_aggregate_cp_proof ref_env wide_group (replicate 31 0 @ [1]) 1
       wide_encryption example_hash (wide_p - 1) = Some (proof, source') \<and>
     Crypto_check_aggregate_cp_proof ref_env wide_group proof wide_encryption example_hash (wide_p - 1) 2 = Some True"
proof -
  obtain pr s2 where g: "Crypto_generate_aggregate_cp_proof ref_env wide_group (replicate 31 0 @ [1]) 1
       wide_encryption example_hash (wide_p - 1) = Some (pr, s2)"
    using ref.hash_update_p_fits [OF wide_fits] ref.hash_init_base_fits [OF example_hash_fits]
      ref.sample_byte_q [of 1 wide_group 0 "[]"]
    by (simp add: Crypto_generate_aggregate_cp_proof_def Crypto_cp_proof_challenge_def wide_powers Let_def)
  moreover have "encrypts ref_env wide_group (wide_p - 1) 1 (uint (2 :: u32)) wide_encryption"
    using wide_p(1) by (simp add: encrypts_def wide_powers ref.mul_one [OF wide_group_ok] zmod_minus1)
  ultimately show ?thesis
    using aggregate_proof_accepted [OF ref.platform_axioms wide_group_ok in_wide_group] by blast
qed

text \<open>\<open>Crypto_check_keypair_proof\<close> accepts any group elements as the commitments of a public key,
  with no private key behind them.\<close>

theorem keypair_proof_forgeable:
  assumes "platform E" "group_ok G" "unat t \<le> MAX_TRUSTEES" "0 \<le> c"
    and "length ks = MAX_TRUSTEES" "list_all (in_group G) ks"
    and "length vs = MAX_TRUSTEES" "list_all (\<lambda>v. 0 \<le> v) vs"
  shows "Crypto_check_keypair_proof E G
    \<lparr>pub_threshold = t,
     pub_proof = \<lparr>proof_threshold = t,
       commitments = map2 (\<lambda>k v. div_mod_p E G (pow_mod_p E G (generator G) v) (pow_mod_p E G k c)) ks vs,
       challenge = c, challenge_responses = vs\<rparr>,
     coef_commitments = ks\<rparr> h = Some True"
  using platform.keypair_proof_forged [OF assms(1-5) _ assms(7)] assms(6,8) by (simp add: list_all_iff)

theorem keypair_proof_forgeable_witness:
  "Crypto_check_keypair_proof ref_env small_group
    \<lparr>pub_threshold = 2,
     pub_proof = \<lparr>proof_threshold = 2,
       commitments = map2 (\<lambda>k v. div_mod_p ref_env small_group (pow_mod_p ref_env small_group 2 v)
         (pow_mod_p ref_env small_group k 5)) [4, 8, 1, 1, 1] [1, 2, 3, 4, 5],
       challenge = 5, challenge_responses = [1, 2, 3, 4, 5]\<rparr>,
     coef_commitments = [4, 8, 1, 1, 1]\<rparr> [] = Some True"
  using keypair_proof_forgeable [OF ref.platform_axioms small_group_ok, of 2 5 "[4, 8, 1, 1, 1]" "[1, 2, 3, 4, 5]" "[]"]
  by (simp add: in_small_group MAX_TRUSTEES_def)

text \<open>A request for more coefficients than \<open>MAX_TRUSTEES\<close> makes \<open>Crypto_gen_keypair\<close> write
  behind the arrays of the keys.\<close>

theorem gen_keypair_out_of_bounds:
  assumes "MAX_TRUSTEES < unat t"
  shows "Crypto_gen_keypair E G dev t h = None"
  using gen_keypair_overflow [OF assms] .

theorem gen_keypair_out_of_bounds_witness:
  "Crypto_gen_keypair ref_env small_group None 6 [] = None"
  using gen_keypair_out_of_bounds [of 6] by (simp add: MAX_TRUSTEES_def)

text \<open>C14: The share that \<open>Crypto_create_encrypted_key_share\<close> makes for a trustee passes that
  trustee's \<open>Crypto_check_validity_share_against_public_keys\<close>: RSA decryption returns the value of
  the polynomial, and its power of the generator is the product of the powers of the commitments.\<close>

theorem key_share_accepted:
  assumes "platform E" "group_ok G" "key_matches E G priv pub" "rsa_pair_ok rsk rpk" "par_q G \<le> pub_n rpk"
  shows "\<exists>share. Crypto_create_encrypted_key_share E G rpk priv index = Some share \<and>
    Crypto_check_validity_share_against_public_keys E G share pub rsk (pub_threshold pub) index = Some True"
  using platform.key_share_verifies [OF assms] .

theorem key_share_accepted_witness:
  "\<exists>share. Crypto_create_encrypted_key_share ref_env small_group \<lparr>pub_n = 55, pub_e = 3\<rparr>
       \<lparr>priv_threshold = 2, coefficients = [3, 4, 0, 0, 0]\<rparr> 1 = Some share \<and>
     Crypto_check_validity_share_against_public_keys ref_env small_group share
       \<lparr>pub_threshold = 2, pub_proof = undefined, coef_commitments = [8, 16, 1, 1, 1]\<rparr>
       \<lparr>rsa_n = 55, rsa_e = 3, rsa_d = 7, rsa_p = 5, rsa_q = 11\<rparr> 2 1 = Some True"
proof -
  let ?pub = "\<lparr>pub_threshold = 2, pub_proof = undefined, coef_commitments = [8, 16, 1, 1, 1]\<rparr>"
  let ?priv = "\<lparr>priv_threshold = 2, coefficients = [3, 4, 0, 0, 0]\<rparr>"
  have "key_matches ref_env small_group ?priv ?pub"
    by (auto simp: key_matches_def MAX_TRUSTEES_def small_group_pow less_2_cases_iff)
  from key_share_accepted [OF ref.platform_axioms small_group_ok this example_rsa_pair, of 1]
  show ?thesis by simp
qed

text \<open>The joint public key is the generator to the sum of the trustees' secrets (their
  constant coefficients).\<close>

theorem joint_public_key_correct:
  assumes "platform E" "group_ok G" "length privs = unat n" "length pubs = unat n"
    and "list_all2 (key_matches E G) privs pubs" "list_all (\<lambda>k. 0 < pub_threshold k) pubs"
  shows "Crypto_generate_joint_public_key E G pubs n
    = Some \<lparr>joint_num_trustees = n,
        joint_key = pow_mod_p E G (generator G) (\<Sum>i<unat n. coefficients (privs ! i) ! 0)\<rparr>"
proof (rule platform.joint_key_product [OF assms(1,2)])
  show "unat n \<le> length pubs" using assms by simp
  have "0 < length (coef_commitments (pubs ! i)) \<and> 0 \<le> coefficients (privs ! i) ! 0 \<and>
      coef_commitments (pubs ! i) ! 0 = pow_mod_p E G (generator G) (coefficients (privs ! i) ! 0)"
    if i: "i < unat n" for i
  proof -
    have m: "key_matches E G (privs ! i) (pubs ! i)"
      using assms(3,5) i by (simp add: list_all2_conv_all_nth)
    have "0 < pub_threshold (pubs ! i)" using assms(4,6) i by (simp add: list_all_length)
    then have "0 < unat (pub_threshold (pubs ! i))" by (simp add: unat_gt_0 word_neq_0_conv)
    with m show ?thesis by (auto simp: key_matches_def MAX_TRUSTEES_def)
  qed
  then show "\<forall>i<unat n. 0 < length (coef_commitments (pubs ! i)) \<and> 0 \<le> coefficients (privs ! i) ! 0 \<and>
      coef_commitments (pubs ! i) ! 0 = pow_mod_p E G (generator G) (coefficients (privs ! i) ! 0)"
    by blast
qed

theorem joint_public_key_correct_witness:
  "Crypto_generate_joint_public_key ref_env small_group
     [\<lparr>pub_threshold = 1, pub_proof = undefined, coef_commitments = [8, 1, 1, 1, 1]\<rparr>,
      \<lparr>pub_threshold = 1, pub_proof = undefined, coef_commitments = [16, 1, 1, 1, 1]\<rparr>] 2
   = Some \<lparr>joint_num_trustees = 2, joint_key = 2 ^ (3 + 4) mod 23\<rparr>"
  using joint_public_key_correct [OF ref.platform_axioms small_group_ok, where n = 2 and
      privs = "[\<lparr>priv_threshold = 1, coefficients = [3, 0, 0, 0, 0]\<rparr>, \<lparr>priv_threshold = 1, coefficients = [4, 0, 0, 0, 0]\<rparr>]"
      and pubs = "[\<lparr>pub_threshold = 1, pub_proof = undefined, coef_commitments = [8, 1, 1, 1, 1]\<rparr>,
      \<lparr>pub_threshold = 1, pub_proof = undefined, coef_commitments = [16, 1, 1, 1, 1]\<rparr>]"]
  by (simp add: key_matches_def MAX_TRUSTEES_def small_group_pow lessThan_nat_numeral lessThan_Suc)

text \<open>Homomorphism: the componentwise product of an encryption of \<open>m\<close> under nonce \<open>r\<close> and one of
  \<open>n\<close> under nonce \<open>s\<close> is an encryption of \<open>m + n\<close> under nonce \<open>r + s\<close>.\<close>

theorem homomorphic_add_correct:
  assumes "platform E" "group_ok G" "encrypts E G pk r m a" "encrypts E G pk s n b"
  shows "encrypts E G pk (r + s) (m + n) (Crypto_encryption_homomorphic_add E G a b)"
  using platform.add_encrypts [OF assms] .

theorem homomorphic_add_correct_witness:
  "encrypts ref_env small_group 8 5 2 (Crypto_encryption_homomorphic_add ref_env small_group
     \<lparr>nonce_encoding = 4, message_encoding = 13\<rparr> \<lparr>nonce_encoding = 8, message_encoding = 12\<rparr>)"
  using homomorphic_add_correct [OF ref.platform_axioms small_group_ok, of 8 2 1
      "\<lparr>nonce_encoding = 4, message_encoding = 13\<rparr>" 3 1 "\<lparr>nonce_encoding = 8, message_encoding = 12\<rparr>"]
  by (simp add: encrypts_def small_group_pow small_group_mul)

text \<open>C31: Hashing a number modulo \<open>p\<close> of fewer than 64 words hashes a buffer that was never
  written.\<close>

theorem hash_short_number_indeterminate:
  assumes "platform_mem E" "0 \<le> v" "v < 2 ^ (64 * 63)"
  shows "Crypto_hash_update_bignum_p E v context = None"
  using platform_mem.hash_update_p_short [OF assms] .

theorem hash_short_number_indeterminate_witness:
  "Crypto_hash_update_bignum_p ref_env (nonce_encoding Crypto_encryption_homomorphic_zero) [] = None"
proof -
  have "(1 :: int) < 2 ^ (64 * 63)" by (rule one_less_power) simp_all
  then show ?thesis
    by (simp only: Crypto_encryption_homomorphic_zero_def encryption_rep.simps)
      (rule hash_short_number_indeterminate [OF ref.platform_mem_axioms zero_le_one])
qed

text \<open>RSA decryption inverts encryption for messages below the modulus.\<close>

theorem rsa_round_trip:
  assumes "platform E" "rsa_pair_ok priv pub" "0 \<le> m" "m < pub_n pub"
  shows "RSA_Decrypt E (RSA_Encrypt E m pub) priv = m"
  using platform.rsa_decrypt_encrypt [OF assms] .

theorem rsa_round_trip_witness:
  "RSA_Decrypt ref_env (RSA_Encrypt ref_env 42 \<lparr>pub_n = 55, pub_e = 3\<rparr>)
     \<lparr>rsa_n = 55, rsa_e = 3, rsa_d = 7, rsa_p = 5, rsa_q = 11\<rparr> = 42"
  using rsa_round_trip [OF ref.platform_axioms example_rsa_pair, of 42] by simp

text \<open>C32: What \<open>log_generator_mod_p\<close> does for every argument. For 5000000, whatever it is the power of, it
  gives up after one step with \<open>false\<close> and the result 1. For every other power of the generator it returns \<open>true\<close> with
  the least exponent, however large that is: the bound of 5,000,000 that the comment in the code promises for the result
  is not there. For any other number it does not end.\<close>

theorem log_generator_correct:
  assumes "platform E" "group_ok G"
  shows "log_generator_mod_p E G a =
    (if a = max_decryption then Some (False, 1)
     else if \<exists>n. a = generator G ^ n mod par_p G then Some (True, int (LEAST n. a = generator G ^ n mod par_p G))
     else None)"
proof -
  have one: "1 = generator G ^ 0 mod par_p G" using group_okD(1) [OF assms(2)] by simp
  consider "a = max_decryption" | n where "a \<noteq> max_decryption" "a = generator G ^ n mod par_p G"
    | "a \<noteq> max_decryption" "\<nexists>n. a = generator G ^ n mod par_p G" by blast
  then show ?thesis
  proof cases
    case 1
    then show ?thesis
      unfolding log_generator_mod_p_def by (subst log_generator_loop.simps) (simp add: max_decryption_def Let_def)
  next
    case (2 n)
    let ?n = "LEAST n. a = generator G ^ n mod par_p G"
    have "a = generator G ^ ?n mod par_p G" using 2(2) by (rule LeastI)
    then have "log_generator_loop E G a (int 0) (generator G ^ 0 mod par_p G) = Some (True, int ?n)"
      by (rule platform.log_loop_finds [OF assms 2(1)]) (auto dest: not_less_Least)
    then show ?thesis using 2 one by (auto simp: log_generator_mod_p_def)
  next
    case 3
    then have "log_generator_loop E G a 0 (generator G ^ 0 mod par_p G) = None"
      using platform.log_loop_hits [OF assms, of a 0 0] by (cases "log_generator_loop E G a 0 (generator G ^ 0 mod par_p G)") blast+
    then show ?thesis using 3 one by (simp add: log_generator_mod_p_def)
  qed
qed

lemma small_powers: "2 ^ n mod 23 \<in> {1, 2, 4, 8, 16, 9, 18, 13, 3, 6, 12 :: int}"
proof (induction n)
  case (Suc n)
  have "2 ^ Suc n mod 23 = 2 * (2 ^ n mod 23) mod (23 :: int)" by (simp add: mod_mult_right_eq)
  then show ?case using Suc by auto
qed simp

theorem log_generator_correct_witness:
  "log_generator_mod_p ref_env small_group 13 = Some (True, 7) \<and>
   log_generator_mod_p ref_env small_group 5000000 = Some (False, 1) \<and>
   log_generator_mod_p ref_env small_group 5 = None"
proof -
  note log = log_generator_correct [OF ref.platform_axioms small_group_ok]
  have g: "generator small_group = 2" "par_p small_group = 23" by simp_all
  have seven: "(LEAST n. 2 ^ n mod 23 = (13 :: int)) = 7"
  proof (rule Least_equality)
    fix n assume n: "2 ^ n mod 23 = (13 :: int)"
    show "7 \<le> n"
    proof (rule ccontr)
      assume "\<not> 7 \<le> n"
      then have "n = 0 \<or> n = 1 \<or> n = 2 \<or> n = 3 \<or> n = 4 \<or> n = 5 \<or> n = 6" by arith
      then show False using n by auto
    qed
  qed simp
  have thirteen: "\<exists>n. 2 ^ n mod 23 = (13 :: int)" by (rule exI [of _ 7]) simp
  have five: "2 ^ n mod 23 \<noteq> (5 :: int)" for n using small_powers [of n] by auto
  show ?thesis unfolding log g by (simp add: max_decryption_def seven thirteen five)
qed

end
