(* ===== verification/Protocol.thy ===== *)
theory Protocol
  imports CryptoProofs SerializeMessages
begin

text \<open>
  What the coordinators and the trustees share: loops over arrays of structures, freshly initialised
  keys, sending a message, and the bookkeeping of which trustees have been heard. The bookkeeping is
  stated as the locale \<open>roll_call\<close>; each coordinator interprets it on its own state.
\<close>

section \<open>Parameters\<close>

text \<open>The test every constructor makes.\<close>

definition valid_params :: "u32 \<Rightarrow> u32 \<Rightarrow> bool" where
  "valid_params num_trustees threshold \<longleftrightarrow>
     1 \<le> threshold \<and> threshold \<le> num_trustees \<and> unat num_trustees \<le> MAX_TRUSTEES"

section \<open>Arrays of structures\<close>

text \<open>\<open>for (i = 0; i < n; i++) xs[i] = f(i, xs[i])\<close>.\<close>

definition for_array :: "nat \<Rightarrow> (nat \<Rightarrow> 'a \<Rightarrow> 'a option) \<Rightarrow> 'a list \<Rightarrow> 'a list option" where
  "for_array n f xs = loop n (\<lambda>i xs. do { x \<leftarrow> arr_get xs i; x \<leftarrow> f i x; arr_set xs i x }) xs"

lemma for_array_ok:
  assumes "n \<le> length xs" "\<And>i. i < n \<Longrightarrow> f i (xs ! i) = Some (g i)"
  shows "for_array n f xs = Some (map g [0..<n] @ drop n xs)"
  unfolding for_array_def using assms by (intro loop_fill_old) simp_all

lemma for_array_length: "for_array n f xs = Some ys \<Longrightarrow> length ys = length xs"
  unfolding for_array_def
  by (erule loop_invariant [where P = "\<lambda>_ ys. length ys = length xs"])
    (auto simp: bind_eq_Some_conv arr_set_Some)

lemma for_array_bound:
  assumes "for_array n f xs = Some ys"
  shows "n \<le> length xs"
proof (rule ccontr)
  assume n: "\<not> n \<le> length xs"
  have "length ys = length xs \<and> n \<le> length xs"
    using assms unfolding for_array_def
    by (rule loop_invariant [where P = "\<lambda>i ys. length ys = length xs \<and> i \<le> length xs"])
      (auto simp: bind_eq_Some_conv arr_set_Some)
  with n show False by simp
qed

text \<open>A property of the elements that \<open>f\<close> establishes.\<close>

lemma for_array_all:
  assumes "for_array n f xs = Some ys" "\<And>i x y. i < n \<Longrightarrow> f i x = Some y \<Longrightarrow> Q i y"
  shows "\<forall>i<n. Q i (ys ! i)"
proof -
  have "length ys = length xs \<and> (\<forall>j<n. Q j (ys ! j))"
    using assms(1) unfolding for_array_def
    by (rule loop_invariant [where P = "\<lambda>i ys. length ys = length xs \<and> (\<forall>j<i. Q j (ys ! j))"])
      (auto simp: bind_eq_Some_conv arr_set_Some nth_list_update less_Suc_eq assms(2))
  then show ?thesis by simp
qed

lemma for_array_list_all:
  assumes "for_array n f xs = Some ys" "list_all Q xs" "\<And>i x y. Q x \<Longrightarrow> f i x = Some y \<Longrightarrow> Q y"
  shows "list_all Q ys"
  using assms(1) unfolding for_array_def
proof (rule loop_invariant [where P = "\<lambda>_ ys. list_all Q ys"])
  fix i s t assume s: "list_all Q s" and "arr_get s i \<bind> (\<lambda>x. f i x \<bind> (\<lambda>x. arr_set s i x)) = Some t"
  then obtain y where y: "i < length s" "f i (s ! i) = Some y" "t = s[i := y]"
    by (auto simp: bind_eq_Some_conv arr_set_Some)
  have "Q (s ! i)" using s y(1) by (simp add: list_all_length)
  then have "Q y" using y(2) by (rule assms(3))
  with s show "list_all Q t" using y(1) by (auto simp: y(3) list_all_length nth_list_update split: if_splits)
qed (use assms(2) in simp)

section \<open>Fresh keys\<close>

text \<open>Zeroed memory, or an uninitialised local: the numbers are set by the initialisation.\<close>

definition blank_proof :: schnorr_proof where
  "blank_proof = \<lparr>proof_threshold = 0, commitments = blank_array, challenge = 0, challenge_responses = blank_array\<rparr>"

definition blank_public_key :: public_key where
  "blank_public_key = \<lparr>pub_threshold = 0, pub_proof = blank_proof, coef_commitments = blank_array\<rparr>"

lemma blank_shapes [simp]: "schnorr_proof_shape blank_proof" "public_key_shape blank_public_key"
  by (simp_all add: public_key_shape_def schnorr_proof_shape_def blank_public_key_def blank_proof_def)

text \<open>
  Only the numbers below the threshold a key was initialised for are initialised; a message that
  announces more would write to an \<open>mpz_t\<close> that was never initialised.
\<close>

definition fits_threshold :: "u32 \<Rightarrow> public_key \<Rightarrow> bool" where
  "fits_threshold t k \<longleftrightarrow> pub_threshold k \<le> t \<and> proof_threshold (pub_proof k) \<le> t"

lemma blank_fits [simp]: "fits_threshold t blank_public_key"
  by (simp add: fits_threshold_def blank_public_key_def blank_proof_def)

text \<open>Copying keeps the length of the arrays, whatever is copied.\<close>

lemma mpz_set_n_length: "mpz_set_n n dst src = Some ys \<Longrightarrow> length ys = length dst"
  unfolding mpz_set_n_def
  by (erule loop_invariant [where P = "\<lambda>_ ys. length ys = length dst"])
    (auto simp: bind_eq_Some_conv arr_set_Some)

lemma public_key_copy_shape:
  "Crypto_public_key_copy dst src = Some k \<Longrightarrow> public_key_shape dst \<Longrightarrow>
   public_key_shape k \<and> pub_threshold k = pub_threshold src \<and>
   proof_threshold (pub_proof k) = proof_threshold (pub_proof src)"
  by (auto simp: Crypto_public_key_copy_def Crypto_schnorr_proof_copy_def bind_eq_Some_conv
      public_key_shape_def schnorr_proof_shape_def dest: mpz_set_n_length)

lemma public_key_new_shape:
  assumes "public_key_shape k" "n \<le> MAX_TRUSTEES"
  shows "\<exists>k'. Crypto_public_key_new k n = Some k' \<and> public_key_shape k' \<and>
    pub_threshold k' = pub_threshold k \<and> proof_threshold (pub_proof k') = proof_threshold (pub_proof k)"
  using assms
  by (simp add: Crypto_public_key_new_def Crypto_schnorr_proof_new_def mpz_init_n_ok public_key_shape_def
      schnorr_proof_shape_def)

section \<open>Sending\<close>

text \<open>
  The tail of every operation that produces a message: the three passes, then the final status of
  the serializer decides. A message that was not produced is \<open>None\<close>.
\<close>

definition send ::
    "env \<Rightarrow> (serialize_state \<Rightarrow> serialize_state option) \<Rightarrow> (serialize_state \<Rightarrow> serialize_state option) \<Rightarrow>
     message option option" where
  "send E rsv wr =
     do {
       st \<leftarrow> serialize_with E rsv wr;
       Some (if ss_status st \<noteq> SERIALIZE_STATE_WRITING then None else Some (state_message st)) }"

context codec
begin

lemma send_ok:
  "platform_mem E \<Longrightarrow> ok G x \<Longrightarrow> send E (rsv x) (wr E x) = Some (Some (bytes_message (enc x)))"
  by (simp add: send_def build)

end

section \<open>Who has been heard\<close>

text \<open>A sequence of messages, each of them accepted (\<open>None\<close> when one is not).\<close>

primrec receive_all :: "('m \<Rightarrow> 's \<Rightarrow> ('r \<times> 's) option) \<Rightarrow> 'r \<Rightarrow> 'm list \<Rightarrow> 's \<Rightarrow> 's option" where
  "receive_all recv ok [] s = Some s"
| "receive_all recv ok (m # ms) s =
     do { (r, s) \<leftarrow> recv m s; if r = ok then receive_all recv ok ms s else None }"

text \<open>
  The contract of an operation that takes one message of each of \<open>crew s\<close> senders: an accepted
  message adds a sender that was not heard before, a rejected one adds at most its sender.
\<close>

locale roll_call =
  fixes inv :: "'s \<Rightarrow> bool"
    and crew :: "'s \<Rightarrow> nat"
    and heard :: "'s \<Rightarrow> nat set"
    and recv :: "'m \<Rightarrow> 's \<Rightarrow> ('r \<times> 's) option"
    and ok :: 'r
  assumes heard_range: "inv s \<Longrightarrow> heard s \<subseteq> {..<crew s}"
    and keeps: "inv s \<Longrightarrow> recv m s = Some (r, s') \<Longrightarrow> inv s' \<and> crew s' = crew s"
    and accepts: "inv s \<Longrightarrow> recv m s = Some (ok, s') \<Longrightarrow>
      \<exists>i. i < crew s \<and> i \<notin> heard s \<and> heard s' = insert i (heard s)"
    and monotone: "inv s \<Longrightarrow> recv m s = Some (r, s') \<Longrightarrow> heard s \<subseteq> heard s'"
begin

lemma finite_heard: "inv s \<Longrightarrow> finite (heard s)"
  using heard_range [of s] by (auto intro: finite_subset)

lemma receive_all_keeps:
  "inv s \<Longrightarrow> receive_all recv ok ms s = Some s' \<Longrightarrow> inv s' \<and> crew s' = crew s"
proof (induction ms arbitrary: s)
  case (Cons m ms)
  then obtain t where t: "recv m s = Some (ok, t)" "receive_all recv ok ms t = Some s'"
    by (auto simp: bind_eq_Some_conv split: if_splits)
  have "inv t" "crew t = crew s" using keeps [OF Cons.prems(1) t(1)] by simp_all
  with Cons.IH [OF _ t(2)] show ?case by simp
qed simp

lemma receive_all_count:
  "inv s \<Longrightarrow> receive_all recv ok ms s = Some s' \<Longrightarrow> card (heard s') = card (heard s) + length ms"
proof (induction ms arbitrary: s)
  case (Cons m ms)
  then obtain t where t: "recv m s = Some (ok, t)" "receive_all recv ok ms t = Some s'"
    by (auto simp: bind_eq_Some_conv split: if_splits)
  obtain i where "i \<notin> heard s" "heard t = insert i (heard s)"
    using accepts [OF Cons.prems(1) t(1)] by blast
  with Cons.IH [OF _ t(2)] keeps [OF Cons.prems(1) t(1)] finite_heard [OF Cons.prems(1)]
  show ?case by simp
qed simp

text \<open>Everyone has been heard exactly after as many accepted messages as there are senders.\<close>

lemma all_heard_iff:
  assumes "inv s" "heard s = {}" "receive_all recv ok ms s = Some s'"
  shows "heard s' = {..<crew s} \<longleftrightarrow> length ms = crew s"
proof -
  have i: "inv s'" "crew s' = crew s" using receive_all_keeps [OF assms(1,3)] by simp_all
  have c: "card (heard s') = length ms" using receive_all_count [OF assms(1,3)] assms(2) by simp
  show ?thesis
  proof
    assume "length ms = crew s"
    then show "heard s' = {..<crew s}"
      using heard_range [OF i(1)] i(2) c by (intro card_subset_eq) simp_all
  qed (use c in simp)
qed

lemma no_more_than_size:
  assumes "inv s" "receive_all recv ok ms s = Some s'"
  shows "length ms \<le> crew s"
proof -
  have i: "inv s'" "crew s' = crew s" using receive_all_keeps [OF assms] by simp_all
  have "card (heard s') \<le> card {..<crew s'}" by (rule card_mono) (use heard_range [OF i(1)] in simp_all)
  then show ?thesis using receive_all_count [OF assms] i(2) by simp
qed

end

end
