(* ===== verification/SerializeClaims.thy ===== *)
theory SerializeClaims
  imports CryptoClaims Protocol
begin

text \<open>
  The properties of the wire formats: what a component builds is what another one reads. They rest on
  the interpretations of the locale \<open>codec\<close>.
\<close>

section \<open>Values for the instances\<close>

definition real_group :: params where
  "real_group = Crypto_parameters_new ref_env"

abbreviation wide :: int where
  "wide \<equiv> wide_p - 1"

definition example_public_key :: public_key where
  "example_public_key =
     \<lparr>pub_threshold = 2,
      pub_proof = \<lparr>proof_threshold = 2, commitments = [wide, wide, 0, 0, 0], challenge = example_hash,
                   challenge_responses = [example_hash, example_hash, 0, 0, 0]\<rparr>,
      coef_commitments = [wide, wide, 0, 0, 0]\<rparr>"

lemma blank_array_eq: "blank_array = [0, 0, 0, 0, 0]"
  by (simp add: blank_array_def MAX_TRUSTEES_def eval_nat_numeral)

lemma example_fits:
  "fits 64 wide" "fits 4 example_hash" "fits 1 3" "fits 12 (2 ^ 767)" "fits 32 (2 ^ 2047)"
proof -
  show "fits 64 wide" "fits 4 example_hash" by (rule wide_fits, rule example_hash_fits)
  show "fits 1 3" by (simp add: fits_def)
  show "fits 12 (2 ^ 767)" "fits 32 (2 ^ 2047)"
    unfolding fits_def by (intro conjI power_increasing power_strict_increasing; simp)+
qed

lemma example_public_key_ok: "public_key_ok real_group example_public_key"
proof -
  have "example_hash < par_q real_group"
    by (simp add: real_group_def Crypto_parameters_new_def q_array_def ref_env_def example_hash_def)
  then show ?thesis
    by (simp add: public_key_ok_def schnorr_proof_ok_def array_ok_def hash_ok_def example_public_key_def
        MAX_TRUSTEES_def example_fits)
qed

lemma read_array_out_of_bounds:
  assumes "length xs < n"
  shows "read_array rd n xs st = None"
proof (rule ccontr)
  assume "read_array rd n xs st \<noteq> None"
  then obtain t where l: "loop n (\<lambda>i (xs, st). read_elem rd i xs st) (xs, st) = Some t"
    by (auto simp: read_array_def)
  have "length (fst t) = length xs \<and> n \<le> length xs"
    by (rule loop_invariant [OF l, where P = "\<lambda>i s. length (fst s) = length xs \<and> i \<le> length xs"])
      (auto simp: read_elem_def bind_eq_Some_conv split: prod.splits)
  with assms show False by simp
qed

section \<open>Round trips\<close>

text \<open>C33: A key generation message written by a trustee is read back by the coordinator, whatever
  the coordinator's buffer held before; array entries behind the threshold keep their old contents.\<close>

theorem key_generated_round_trip:
  assumes "platform_mem E" "key_generated_ok G x" "key_generated_shape old"
  shows "\<exists>st st'. serialize_with E (Serialize_reserve_key_generated x) (Serialize_write_key_generated E x) = Some st \<and>
    ss_status st = SERIALIZE_STATE_WRITING \<and>
    Serialize_read_key_generated E G old (message_reading (state_message st)) = Some (merge_key_generated old x, st') \<and>
    ss_status st' = SERIALIZE_STATE_READING"
  using key_generated_codec.roundtrip [OF assms] .

theorem key_generated_round_trip_witness:
  "\<exists>st st'. serialize_with ref_env
      (Serialize_reserve_key_generated \<lparr>kg_trustee_index = 1, kg_public_key = example_public_key,
         kg_rsa_public_key = \<lparr>pub_n = wide, pub_e = 3\<rparr>\<rparr>)
      (Serialize_write_key_generated ref_env \<lparr>kg_trustee_index = 1, kg_public_key = example_public_key,
         kg_rsa_public_key = \<lparr>pub_n = wide, pub_e = 3\<rparr>\<rparr>) = Some st \<and>
    Serialize_read_key_generated ref_env real_group
      \<lparr>kg_trustee_index = 0, kg_public_key = blank_public_key, kg_rsa_public_key = Crypto_rsa_public_key_new\<rparr>
      (message_reading (state_message st)) =
    Some (\<lparr>kg_trustee_index = 1, kg_public_key = example_public_key, kg_rsa_public_key = \<lparr>pub_n = wide, pub_e = 3\<rparr>\<rparr>, st')"
proof -
  let ?x = "\<lparr>kg_trustee_index = 1, kg_public_key = example_public_key, kg_rsa_public_key = \<lparr>pub_n = wide, pub_e = 3\<rparr>\<rparr>"
  let ?old = "\<lparr>kg_trustee_index = 0, kg_public_key = blank_public_key, kg_rsa_public_key = Crypto_rsa_public_key_new\<rparr>"
  have m: "merge_key_generated ?old ?x = ?x"
    by (simp add: merge_key_generated_def merge_public_key_def merge_schnorr_proof_def merge_array_def
        blank_public_key_def blank_proof_def example_public_key_def blank_array_eq)
  have "key_generated_ok real_group ?x"
    by (simp add: key_generated_ok_def example_public_key_ok rsa_public_key_ok_def example_fits example_fits [simplified])
  moreover have "key_generated_shape ?old" by (simp add: key_generated_shape_def blank_shapes)
  ultimately show ?thesis
    using key_generated_round_trip [OF ref.platform_mem_axioms, of real_group ?x ?old] unfolding m by blast
qed

text \<open>The saved state of a trustee is restored for the decryption phase.\<close>

theorem trustee_state_round_trip:
  assumes "platform_mem E" "trustee_state_ok n G x" "trustee_state_shape old"
  shows "\<exists>st st'. serialize_with E (Serialize_reserve_trustee_state n x) (Serialize_write_trustee_state n E x) = Some st \<and>
    ss_status st = SERIALIZE_STATE_WRITING \<and>
    Serialize_read_trustee_state n E old (message_reading (state_message st)) = Some (merge_trustee_state n old x, st') \<and>
    ss_status st' = SERIALIZE_STATE_READING"
  using trustee_state_codec.roundtrip [OF assms] .

definition example_trustee_state :: trustee_state_rep where
  "example_trustee_state =
     \<lparr>ts_index = 1, ts_private_key = \<lparr>priv_threshold = 1, coefficients = [wide, 0, 0, 0, 0]\<rparr>,
      ts_my_key_shares = [2 ^ 767, 2 ^ 767, 0, 0, 0],
      ts_rsa_private_key = \<lparr>rsa_n = wide, rsa_e = 3, rsa_d = wide, rsa_p = 2 ^ 2047, rsa_q = 2 ^ 2047\<rparr>\<rparr>"

theorem trustee_state_round_trip_witness:
  "\<exists>st st'. serialize_with ref_env (Serialize_reserve_trustee_state 2 example_trustee_state)
      (Serialize_write_trustee_state 2 ref_env example_trustee_state) = Some st \<and>
    Serialize_read_trustee_state 2 ref_env
      \<lparr>ts_index = 0, ts_private_key = \<lparr>priv_threshold = 0, coefficients = blank_array\<rparr>,
       ts_my_key_shares = blank_array, ts_rsa_private_key = Crypto_rsa_private_key_new\<rparr>
      (message_reading (state_message st)) = Some (example_trustee_state, st')"
proof -
  let ?old = "\<lparr>ts_index = 0, ts_private_key = \<lparr>priv_threshold = 0, coefficients = blank_array\<rparr>,
       ts_my_key_shares = blank_array, ts_rsa_private_key = Crypto_rsa_private_key_new\<rparr>"
  have m: "merge_trustee_state 2 ?old example_trustee_state = example_trustee_state"
    by (simp add: merge_trustee_state_def merge_private_key_def merge_array_def example_trustee_state_def
        blank_array_eq)
  have "trustee_state_ok 2 real_group example_trustee_state"
    unfolding trustee_state_ok_def example_trustee_state_def private_key_ok_def rsa_private_key_ok_def
      shares_ok_def array_ok_def trustee_state_rep.simps private_key.simps rsa_private_key.simps MAX_TRUSTEES_def
    by (intro conjI; (rule example_fits)?; simp add: example_fits del: power_numeral)
  moreover have "trustee_state_shape ?old" by (simp add: trustee_state_shape_def private_key_shape_def)
  ultimately show ?thesis
    using trustee_state_round_trip [OF ref.platform_mem_axioms, of 2 real_group example_trustee_state ?old]
    unfolding m by blast
qed

text \<open>A trustee's decryption fragments are read back, with the rows of the trustees it was not
  asked for left as they were.\<close>

theorem decryption_fragments_round_trip:
  assumes "platform_mem E" "decryption_fragments_ok G x" "decryption_fragments_shape old"
  shows "\<exists>st st'. serialize_with E (Serialize_reserve_decryption_fragments x) (Serialize_write_decryption_fragments E x) = Some st \<and>
    ss_status st = SERIALIZE_STATE_WRITING \<and>
    Serialize_read_decryption_fragments E old (message_reading (state_message st)) = Some (merge_decryption_fragments old x, st') \<and>
    ss_status st' = SERIALIZE_STATE_READING"
  using decryption_fragments_codec.roundtrip [OF assms] .

definition example_fragments :: decryption_fragments_rep where
  "example_fragments =
     \<lparr>df_trustee_index = 1, df_num_trustees = 2, df_num_selections = 1,
      df_requested = [True, False, False, False, False],
      partial_decryption_M = replicate MAX_TRUSTEES (wide # replicate 999 0),
      lagrange_coefficient = 42, df_cp_proofs = []\<rparr>"

definition blank_fragments :: decryption_fragments_rep where
  "blank_fragments =
     \<lparr>df_trustee_index = 0, df_num_trustees = 0, df_num_selections = 0,
      df_requested = replicate MAX_TRUSTEES False,
      partial_decryption_M = replicate MAX_TRUSTEES (replicate MAX_SELECTIONS 0),
      lagrange_coefficient = 0, df_cp_proofs = []\<rparr>"

theorem decryption_fragments_round_trip_witness:
  "\<exists>st y st'. serialize_with ref_env (Serialize_reserve_decryption_fragments example_fragments)
      (Serialize_write_decryption_fragments ref_env example_fragments) = Some st \<and>
    Serialize_read_decryption_fragments ref_env blank_fragments (message_reading (state_message st)) = Some (y, st') \<and>
    lagrange_coefficient y = 42 \<and> df_num_selections y = 1"
proof -
  have m: "lagrange_coefficient (merge_decryption_fragments blank_fragments example_fragments) = 42"
    "df_num_selections (merge_decryption_fragments blank_fragments example_fragments) = 1"
    by (simp_all add: merge_decryption_fragments_def example_fragments_def)
  have "decryption_fragments_ok real_group example_fragments"
    by (auto simp: decryption_fragments_ok_def example_fragments_def MAX_TRUSTEES_def MAX_SELECTIONS_def
        less_2_cases_iff example_fits)
  moreover have "decryption_fragments_shape blank_fragments"
    by (auto simp: decryption_fragments_shape_def blank_fragments_def)
  ultimately show ?thesis
    using decryption_fragments_round_trip [OF ref.platform_mem_axioms, of real_group example_fragments blank_fragments] m
    by blast
qed

text \<open>The identifier and the encrypted selections of a ballot survive its registration message;
  its proofs are not sent.\<close>

theorem encrypted_ballot_round_trip:
  assumes "platform_mem E" "encrypted_ballot_ok x"
  shows "\<exists>st st'. serialize_with E (Serialize_reserve_encrypted_ballot x) (Serialize_write_encrypted_ballot E x) = Some st \<and>
    ss_status st = SERIALIZE_STATE_WRITING \<and>
    Serialize_read_encrypted_ballot E old (message_reading (state_message st))
      = Some (old\<lparr>ballot_id := ballot_id x, num_selections := num_selections x, selections := selections x\<rparr>, st') \<and>
    ss_status st' = SERIALIZE_STATE_READING"
  using ballot_codec.roundtrip [OF assms TrueI, of old] by (simp add: merge_encrypted_ballot_def)

theorem encrypted_ballot_round_trip_witness:
  "\<exists>x st st'. serialize_with ref_env (Serialize_reserve_encrypted_ballot x) (Serialize_write_encrypted_ballot ref_env x) = Some st \<and>
    Serialize_read_encrypted_ballot ref_env x (message_reading (state_message st)) = Some (x, st') \<and>
    ballot_id x = 7 \<and> selections x = Some [wide_encryption, wide_encryption]"
proof -
  let ?x = "\<lparr>ballot_id = 7, num_selections = 2, selections = Some [wide_encryption, wide_encryption],
      dis_proofs = None, ballot_cp_proof = undefined\<rparr>"
  have "encrypted_ballot_ok ?x"
    by (simp add: encrypted_ballot_ok_def encryption_ok_def wide_fits)
  from encrypted_ballot_round_trip [OF ref.platform_mem_axioms this, of ?x]
  show ?thesis by (intro exI [of _ ?x]) auto
qed

text \<open>C34: The readers trust the counts of a message: one that announces a private key of more than
  \<open>MAX_TRUSTEES\<close> coefficients makes \<open>Serialize_read_private_key\<close> write behind its destination.\<close>

theorem private_key_read_overflow:
  assumes "length (coefficients old) = MAX_TRUSTEES" "MAX_TRUSTEES < unat (t :: u32)"
  shows "Serialize_read_private_key E old (message_reading (bytes_message (le_bytes 4 t @ rest))) = None"
proof -
  let ?e = "le_bytes 4 t @ rest"
  have "message_reading (bytes_message ?e) = reading_state (length ?e) ?e"
    by (simp add: message_reading_def bytes_message_def reading_state_def)
  then obtain st where "Serialize_read_uint32 (message_reading (bytes_message ?e)) = Some (t, st)"
    using deserialize_with_ok [OF reads_uint32, of "length ?e" t rest] by auto
  then show ?thesis
    using assms by (simp add: Serialize_read_private_key_def read_array_out_of_bounds)
qed

theorem private_key_read_overflow_witness:
  "Serialize_read_private_key ref_env \<lparr>priv_threshold = 0, coefficients = blank_array\<rparr>
     (message_reading (bytes_message (le_bytes 4 (6 :: u32)))) = None"
  using private_key_read_overflow [of "\<lparr>priv_threshold = 0, coefficients = blank_array\<rparr>" 6 ref_env "[]"]
  by (simp add: MAX_TRUSTEES_def)

end
