(* ===== verification/KeyCeremonyCoordinator.thy ===== *)
theory KeyCeremonyCoordinator
  imports Protocol
begin

text \<open>
  \<open>src/electionguard/keyceremony/coordinator.c\<close>. The state is the structure behind the pointer
  \<open>KeyCeremony_Coordinator\<close>; every operation returns its status (and message) and the new state.
  \<open>KeyCeremony_Coordinator_free\<close> has no effect in the model.
\<close>

section \<open>State\<close>

datatype KeyCeremony_Coordinator_status =
    KEYCEREMONY_COORDINATOR_SUCCESS
  | KEYCEREMONY_COORDINATOR_INSUFFICIENT_MEMORY
  | KEYCEREMONY_COORDINATOR_INVALID_PARAMS
  | KEYCEREMONY_COORDINATOR_DUPLICATE_TRUSTEE_INDEX
  | KEYCEREMONY_COORDINATOR_INVALID_TRUSTEE_INDEX
  | KEYCEREMONY_COORDINATOR_MISSING_TRUSTEES
  | KEYCEREMONY_COORDINATOR_TRUSTEE_INVALIDATION
  | KEYCEREMONY_COORDINATOR_SERIALIZE_ERROR
  | KEYCEREMONY_COORDINATOR_DESERIALIZE_ERROR

record KeyCeremony_Coordinator =
  kc_num_trustees :: u32
  kc_threshold :: u32
  kc_seen :: "bool list"
  kc_public_keys :: "public_key list"
  kc_shares :: "encrypted_key_share list list"
  kc_rsa_public_keys :: "rsa_public_key list"

section \<open>Operations\<close>

definition KeyCeremony_Coordinator_clear_seen :: "KeyCeremony_Coordinator \<Rightarrow> KeyCeremony_Coordinator option" where
  "KeyCeremony_Coordinator_clear_seen c =
     do { seen \<leftarrow> for_array (unat (kc_num_trustees c)) (\<lambda>_ _. Some False) (kc_seen c);
          Some (c\<lparr>kc_seen := seen\<rparr>) }"

definition KeyCeremony_Coordinator_assert_index_unseen ::
    "KeyCeremony_Coordinator \<Rightarrow> u32 \<Rightarrow> KeyCeremony_Coordinator_status option" where
  "KeyCeremony_Coordinator_assert_index_unseen c ix =
     (if kc_num_trustees c \<le> ix then Some KEYCEREMONY_COORDINATOR_INVALID_TRUSTEE_INDEX
      else do {
        s \<leftarrow> arr_get (kc_seen c) (unat ix);
        Some (if s then KEYCEREMONY_COORDINATOR_DUPLICATE_TRUSTEE_INDEX
              else KEYCEREMONY_COORDINATOR_SUCCESS) })"

definition KeyCeremony_Coordinator_assert_all_seen ::
    "KeyCeremony_Coordinator \<Rightarrow> KeyCeremony_Coordinator_status option" where
  "KeyCeremony_Coordinator_assert_all_seen c =
     loop (unat (kc_num_trustees c))
       (\<lambda>i result.
          if result = KEYCEREMONY_COORDINATOR_SUCCESS
          then do {
            s \<leftarrow> arr_get (kc_seen c) i;
            Some (if \<not> s then KEYCEREMONY_COORDINATOR_MISSING_TRUSTEES else result) }
          else Some result) KEYCEREMONY_COORDINATOR_SUCCESS"

definition zeroed_coordinator :: "u32 \<Rightarrow> u32 \<Rightarrow> KeyCeremony_Coordinator" where
  "zeroed_coordinator n t =
     \<lparr>kc_num_trustees = n, kc_threshold = t, kc_seen = replicate MAX_TRUSTEES False,
      kc_public_keys = replicate MAX_TRUSTEES blank_public_key,
      kc_shares = replicate MAX_TRUSTEES blank_array,
      kc_rsa_public_keys = replicate MAX_TRUSTEES Crypto_rsa_public_key_new\<rparr>"

definition KeyCeremony_Coordinator_new ::
    "env \<Rightarrow> u32 \<Rightarrow> u32 \<Rightarrow>
     (KeyCeremony_Coordinator_status \<times> KeyCeremony_Coordinator option) option" where
  "KeyCeremony_Coordinator_new E num_trustees threshold =
     (if \<not> valid_params num_trustees threshold then Some (KEYCEREMONY_COORDINATOR_INVALID_PARAMS, None)
      else case malloc E 1936 of
        None \<Rightarrow> Some (KEYCEREMONY_COORDINATOR_INSUFFICIENT_MEMORY, None)
      | Some _ \<Rightarrow> do {
          c \<leftarrow> KeyCeremony_Coordinator_clear_seen (zeroed_coordinator num_trustees threshold);
          ks \<leftarrow> for_array (unat num_trustees) (\<lambda>_ k. Crypto_public_key_new k (unat threshold)) (kc_public_keys c);
          ss \<leftarrow> for_array (unat num_trustees)
                 (\<lambda>_ row. for_array (unat num_trustees) (\<lambda>_ _. Some Crypto_encrypted_key_share_init) row) (kc_shares c);
          rs \<leftarrow> for_array (unat num_trustees) (\<lambda>_ _. Some Crypto_rsa_public_key_new) (kc_rsa_public_keys c);
          Some (KEYCEREMONY_COORDINATOR_SUCCESS,
                Some (c\<lparr>kc_public_keys := ks, kc_shares := ss, kc_rsa_public_keys := rs\<rparr>)) })"

definition KeyCeremony_Coordinator_receive_key_generated ::
    "env \<Rightarrow> params \<Rightarrow> message \<Rightarrow> KeyCeremony_Coordinator \<Rightarrow>
     (KeyCeremony_Coordinator_status \<times> KeyCeremony_Coordinator) option" where
  "KeyCeremony_Coordinator_receive_key_generated E G message c =
     do {
       k \<leftarrow> Crypto_public_key_new (blank_public_key\<lparr>pub_threshold := kc_threshold c\<rparr>) (unat (kc_threshold c));
       (rep, st) \<leftarrow> Serialize_read_key_generated E G
         \<lparr>kg_trustee_index = 0, kg_public_key = k, kg_rsa_public_key = Crypto_rsa_public_key_new\<rparr>
         (message_reading message);
       if \<not> fits_threshold (kc_threshold c) (kg_public_key rep) then None else do {
       status \<leftarrow> (if ss_status st \<noteq> SERIALIZE_STATE_READING then Some KEYCEREMONY_COORDINATOR_DESERIALIZE_ERROR
                 else KeyCeremony_Coordinator_assert_index_unseen c (kg_trustee_index rep));
       status \<leftarrow> (if status = KEYCEREMONY_COORDINATOR_SUCCESS
                 then do {
                   valid \<leftarrow> Crypto_check_keypair_proof E G (kg_public_key rep) [];
                   Some (if \<not> valid then KEYCEREMONY_COORDINATOR_TRUSTEE_INVALIDATION else status) }
                 else Some status);
       if status = KEYCEREMONY_COORDINATOR_SUCCESS
       then do {
         let i = unat (kg_trustee_index rep);
         seen \<leftarrow> arr_set (kc_seen c) i True;
         old \<leftarrow> arr_get (kc_public_keys c) i;
         k \<leftarrow> Crypto_public_key_copy old (kg_public_key rep);
         ks \<leftarrow> arr_set (kc_public_keys c) i k;
         r \<leftarrow> arr_get (kc_rsa_public_keys c) i;
         rs \<leftarrow> arr_set (kc_rsa_public_keys c) i (Crypto_rsa_public_key_copy r (kg_rsa_public_key rep));
         Some (status, c\<lparr>kc_seen := seen, kc_public_keys := ks, kc_rsa_public_keys := rs\<rparr>) }
       else Some (status, c) } }"

definition KeyCeremony_Coordinator_all_keys_received ::
    "env \<Rightarrow> KeyCeremony_Coordinator \<Rightarrow>
     (KeyCeremony_Coordinator_status \<times> message option \<times> KeyCeremony_Coordinator) option" where
  "KeyCeremony_Coordinator_all_keys_received E c =
     do {
       status \<leftarrow> KeyCeremony_Coordinator_assert_all_seen c;
       if status \<noteq> KEYCEREMONY_COORDINATOR_SUCCESS then Some (status, None, c)
       else do {
         c \<leftarrow> KeyCeremony_Coordinator_clear_seen c;
         let n = unat (kc_num_trustees c);
         ks \<leftarrow> for_array n (\<lambda>i k. do {
                 k \<leftarrow> Crypto_public_key_new (k\<lparr>pub_threshold := kc_threshold c\<rparr>) (unat (kc_threshold c));
                 src \<leftarrow> arr_get (kc_public_keys c) i;
                 Crypto_public_key_copy k src }) (replicate MAX_TRUSTEES blank_public_key);
         rs \<leftarrow> for_array n (\<lambda>i _. do {
                 src \<leftarrow> arr_get (kc_rsa_public_keys c) i;
                 Some (Crypto_rsa_public_key_copy Crypto_rsa_public_key_new src) })
               (replicate MAX_TRUSTEES Crypto_rsa_public_key_new);
         let rep = \<lparr>akr_num_trustees = kc_num_trustees c, public_keys = ks, rsa_public_keys = rs\<rparr>;
         out \<leftarrow> send E (Serialize_reserve_all_keys_received rep) (Serialize_write_all_keys_received E rep);
         Some (if out = None then KEYCEREMONY_COORDINATOR_SERIALIZE_ERROR else status, out, c) } }"

text \<open>
  The deserialization error is overwritten by the check of the index. Only the shares below the
  coordinator's own number of trustees are initialised.
\<close>

definition KeyCeremony_Coordinator_receive_shares_generated ::
    "env \<Rightarrow> message \<Rightarrow> KeyCeremony_Coordinator \<Rightarrow>
     (KeyCeremony_Coordinator_status \<times> KeyCeremony_Coordinator) option" where
  "KeyCeremony_Coordinator_receive_shares_generated E message c =
     do {
       let n = unat (kc_num_trustees c);
       ss \<leftarrow> for_array n (\<lambda>_ _. Some Crypto_encrypted_key_share_init) blank_array;
       (rep, st) \<leftarrow> Serialize_read_shares_generated E
         \<lparr>sg_trustee_index = 0, sg_num_trustees = 0, sg_shares = ss\<rparr> (message_reading message);
       if \<not> sg_num_trustees rep \<le> kc_num_trustees c then None else do {
       status \<leftarrow> KeyCeremony_Coordinator_assert_index_unseen c (sg_trustee_index rep);
       if status = KEYCEREMONY_COORDINATOR_SUCCESS
       then do {
         let i = unat (sg_trustee_index rep);
         seen \<leftarrow> arr_set (kc_seen c) i True;
         row \<leftarrow> arr_get (kc_shares c) i;
         row \<leftarrow> for_array n (\<lambda>j old. do {
                  src \<leftarrow> arr_get (sg_shares rep) j;
                  Some (Crypto_encrypted_key_share_copy old src) }) row;
         shares \<leftarrow> arr_set (kc_shares c) i row;
         Some (status, c\<lparr>kc_seen := seen, kc_shares := shares\<rparr>) }
       else Some (status, c) } }"

definition KeyCeremony_Coordinator_all_shares_received ::
    "env \<Rightarrow> KeyCeremony_Coordinator \<Rightarrow>
     (KeyCeremony_Coordinator_status \<times> message option \<times> KeyCeremony_Coordinator) option" where
  "KeyCeremony_Coordinator_all_shares_received E c =
     do {
       status \<leftarrow> KeyCeremony_Coordinator_assert_all_seen c;
       if status \<noteq> KEYCEREMONY_COORDINATOR_SUCCESS then Some (status, None, c)
       else do {
         c \<leftarrow> KeyCeremony_Coordinator_clear_seen c;
         let n = unat (kc_num_trustees c);
         rows \<leftarrow> for_array n (\<lambda>i row. do {
                   src_row \<leftarrow> arr_get (kc_shares c) i;
                   for_array n (\<lambda>j _. do {
                     src \<leftarrow> arr_get src_row j;
                     Some (Crypto_encrypted_key_share_copy Crypto_encrypted_key_share_init src) }) row })
                 (replicate MAX_TRUSTEES blank_array);
         let rep = \<lparr>asr_num_trustees = kc_num_trustees c, asr_shares = rows\<rparr>;
         out \<leftarrow> send E (Serialize_reserve_all_shares_received rep) (Serialize_write_all_shares_received E rep);
         Some (if out = None then KEYCEREMONY_COORDINATOR_SERIALIZE_ERROR else status, out, c) } }"

text \<open>Here too the deserialization error is overwritten.\<close>

definition KeyCeremony_Coordinator_receive_shares_verified ::
    "message \<Rightarrow> KeyCeremony_Coordinator \<Rightarrow>
     (KeyCeremony_Coordinator_status \<times> KeyCeremony_Coordinator) option" where
  "KeyCeremony_Coordinator_receive_shares_verified message c =
     do {
       (rep, st) \<leftarrow> Serialize_read_shares_verified \<lparr>sv_trustee_index = 0, sv_verified = False\<rparr>
         (message_reading message);
       status \<leftarrow> KeyCeremony_Coordinator_assert_index_unseen c (sv_trustee_index rep);
       if status = KEYCEREMONY_COORDINATOR_SUCCESS
       then do {
         seen \<leftarrow> arr_set (kc_seen c) (unat (sv_trustee_index rep)) True;
         Some (if \<not> sv_verified rep then KEYCEREMONY_COORDINATOR_TRUSTEE_INVALIDATION else status,
               c\<lparr>kc_seen := seen\<rparr>) }
       else Some (status, c) }"

definition KeyCeremony_Coordinator_publish_joint_key ::
    "env \<Rightarrow> params \<Rightarrow> KeyCeremony_Coordinator \<Rightarrow>
     (KeyCeremony_Coordinator_status \<times> message option) option" where
  "KeyCeremony_Coordinator_publish_joint_key E G c =
     do {
       status \<leftarrow> KeyCeremony_Coordinator_assert_all_seen c;
       if status \<noteq> KEYCEREMONY_COORDINATOR_SUCCESS then Some (status, None)
       else do {
         key \<leftarrow> Crypto_generate_joint_public_key E G (kc_public_keys c) (kc_num_trustees c);
         out \<leftarrow> send E Serialize_reserve_joint_public_key (Serialize_write_joint_public_key E key);
         Some (if out = None then KEYCEREMONY_COORDINATOR_SERIALIZE_ERROR else status, out) } }"

section \<open>Invariant\<close>

text \<open>
  What every operation keeps: valid parameters, arrays of the declared length, and keys within the
  threshold the coordinator was made for. \<open>heard_by\<close> is the set of the trustees marked as seen.
\<close>

definition coordinator_ok :: "KeyCeremony_Coordinator \<Rightarrow> bool" where
  "coordinator_ok c \<longleftrightarrow> valid_params (kc_num_trustees c) (kc_threshold c) \<and>
     length (kc_seen c) = MAX_TRUSTEES \<and> length (kc_public_keys c) = MAX_TRUSTEES \<and>
     list_all (\<lambda>k. public_key_shape k \<and> fits_threshold (kc_threshold c) k) (kc_public_keys c) \<and>
     length (kc_shares c) = MAX_TRUSTEES \<and> list_all (\<lambda>row. length row = MAX_TRUSTEES) (kc_shares c) \<and>
     length (kc_rsa_public_keys c) = MAX_TRUSTEES"

definition heard_by :: "KeyCeremony_Coordinator \<Rightarrow> nat set" where
  "heard_by c = {i. i < unat (kc_num_trustees c) \<and> kc_seen c ! i}"

lemma coordinator_okD [dest]:
  assumes "coordinator_ok c"
  shows "unat (kc_num_trustees c) \<le> MAX_TRUSTEES" "0 < unat (kc_num_trustees c)"
    "unat (kc_threshold c) \<le> MAX_TRUSTEES" "0 < unat (kc_threshold c)" "kc_threshold c \<le> kc_num_trustees c"
  using assms by (auto simp: coordinator_ok_def valid_params_def word_le_nat_alt)

lemma assert_index_unseen_eq:
  assumes "coordinator_ok c"
  shows "KeyCeremony_Coordinator_assert_index_unseen c ix =
    Some (if unat (kc_num_trustees c) \<le> unat ix then KEYCEREMONY_COORDINATOR_INVALID_TRUSTEE_INDEX
          else if unat ix \<in> heard_by c then KEYCEREMONY_COORDINATOR_DUPLICATE_TRUSTEE_INDEX
          else KEYCEREMONY_COORDINATOR_SUCCESS)"
  using assms
  by (auto simp: KeyCeremony_Coordinator_assert_index_unseen_def heard_by_def coordinator_ok_def
      valid_params_def word_le_nat_alt)

lemma assert_all_seen_eq:
  assumes "coordinator_ok c"
  shows "KeyCeremony_Coordinator_assert_all_seen c =
    Some (if heard_by c = {..<unat (kc_num_trustees c)} then KEYCEREMONY_COORDINATOR_SUCCESS
          else KEYCEREMONY_COORDINATOR_MISSING_TRUSTEES)"
proof -
  let ?n = "unat (kc_num_trustees c)"
  have "loop k
       (\<lambda>i result.
          if result = KEYCEREMONY_COORDINATOR_SUCCESS
          then do {
            s \<leftarrow> arr_get (kc_seen c) i;
            Some (if \<not> s then KEYCEREMONY_COORDINATOR_MISSING_TRUSTEES else result) }
          else Some result) KEYCEREMONY_COORDINATOR_SUCCESS
      = Some (if \<forall>i<k. kc_seen c ! i then KEYCEREMONY_COORDINATOR_SUCCESS
          else KEYCEREMONY_COORDINATOR_MISSING_TRUSTEES)" if "k \<le> ?n" for k
    using that coordinator_okD(1) [OF assms]
    by (induction k) (use assms in \<open>auto simp: coordinator_ok_def less_Suc_eq\<close>)
  moreover have "(\<forall>i<?n. kc_seen c ! i) \<longleftrightarrow> heard_by c = {..<?n}"
    by (auto simp: heard_by_def)
  ultimately show ?thesis by (simp add: KeyCeremony_Coordinator_assert_all_seen_def)
qed

lemma clear_seen_eq:
  assumes "coordinator_ok c"
  shows "\<exists>seen. KeyCeremony_Coordinator_clear_seen c = Some (c\<lparr>kc_seen := seen\<rparr>) \<and>
    coordinator_ok (c\<lparr>kc_seen := seen\<rparr>) \<and> heard_by (c\<lparr>kc_seen := seen\<rparr>) = {}"
proof -
  let ?n = "unat (kc_num_trustees c)"
  have "for_array ?n (\<lambda>_ _. Some False) (kc_seen c) = Some (map (\<lambda>_. False) [0..<?n] @ drop ?n (kc_seen c))"
    using assms coordinator_okD(1) [OF assms] by (intro for_array_ok) (simp_all add: coordinator_ok_def)
  then show ?thesis
    using assms coordinator_okD(1) [OF assms]
    by (auto simp: KeyCeremony_Coordinator_clear_seen_def coordinator_ok_def heard_by_def nth_append)
qed

section \<open>Every operation keeps the invariant\<close>

lemma list_all_update: "list_all P xs \<Longrightarrow> P x \<Longrightarrow> list_all P (xs[i := x])"
  by (auto simp: list_all_iff dest: set_update_subset_insert [THEN subsetD])

lemma zeroed_coordinator_ok:
  "valid_params n t \<Longrightarrow> coordinator_ok (zeroed_coordinator n t)"
  by (simp add: coordinator_ok_def zeroed_coordinator_def list_all_iff blank_fits)

text \<open>The operations that need everyone: they only change \<open>seen\<close>.\<close>

definition barrier_result ::
    "KeyCeremony_Coordinator_status \<Rightarrow> KeyCeremony_Coordinator \<Rightarrow> KeyCeremony_Coordinator \<Rightarrow> bool" where
  "barrier_result r c c' \<longleftrightarrow> coordinator_ok c' \<and> kc_num_trustees c' = kc_num_trustees c \<and>
     (if heard_by c = {..<unat (kc_num_trustees c)}
      then r \<in> {KEYCEREMONY_COORDINATOR_SUCCESS, KEYCEREMONY_COORDINATOR_SERIALIZE_ERROR} \<and>
        heard_by c' = {} \<and> (\<exists>seen. c' = c\<lparr>kc_seen := seen\<rparr>)
      else r = KEYCEREMONY_COORDINATOR_MISSING_TRUSTEES \<and> c' = c)"

lemma all_keys_received_barrier:
  assumes "coordinator_ok c" "KeyCeremony_Coordinator_all_keys_received E c = Some (r, out, c')"
  shows "barrier_result r c c' \<and> (out = None \<longleftrightarrow> r \<noteq> KEYCEREMONY_COORDINATOR_SUCCESS)"
  using assms clear_seen_eq [OF assms(1)]
  by (auto simp: KeyCeremony_Coordinator_all_keys_received_def assert_all_seen_eq barrier_result_def
      bind_eq_Some_conv Let_def split: if_splits)

lemma all_shares_received_barrier:
  assumes "coordinator_ok c" "KeyCeremony_Coordinator_all_shares_received E c = Some (r, out, c')"
  shows "barrier_result r c c' \<and> (out = None \<longleftrightarrow> r \<noteq> KEYCEREMONY_COORDINATOR_SUCCESS)"
  using assms clear_seen_eq [OF assms(1)]
  by (auto simp: KeyCeremony_Coordinator_all_shares_received_def assert_all_seen_eq barrier_result_def
      bind_eq_Some_conv Let_def split: if_splits)

text \<open>The operations that take a message: a new trustee is marked, or nothing changes.\<close>

definition heard_result ::
    "KeyCeremony_Coordinator_status \<Rightarrow> KeyCeremony_Coordinator \<Rightarrow> KeyCeremony_Coordinator \<Rightarrow> bool" where
  "heard_result r c c' \<longleftrightarrow> coordinator_ok c' \<and> kc_num_trustees c' = kc_num_trustees c \<and>
     kc_threshold c' = kc_threshold c \<and>
     ((\<exists>i < unat (kc_num_trustees c). i \<notin> heard_by c \<and> heard_by c' = insert i (heard_by c)) \<or>
      r \<noteq> KEYCEREMONY_COORDINATOR_SUCCESS \<and> c' = c)"

lemma heard_result_mark:
  assumes "coordinator_ok c" "i < unat (kc_num_trustees c)" "i \<notin> heard_by c"
    "kc_num_trustees c' = kc_num_trustees c" "kc_threshold c' = kc_threshold c"
    "kc_seen c' = (kc_seen c)[i := True]" "coordinator_ok (c'\<lparr>kc_seen := kc_seen c\<rparr>)"
  shows "heard_result r c c'"
proof -
  have "heard_by c' = insert i (heard_by c)"
    using assms coordinator_okD(1) [OF assms(1)]
    by (auto simp: heard_by_def coordinator_ok_def nth_list_update split: if_splits)
  moreover have "coordinator_ok c'" using assms(6,7) by (simp add: coordinator_ok_def)
  ultimately show ?thesis using assms by (auto simp: heard_result_def)
qed

lemma receive_key_generated_success:
  assumes c: "coordinator_ok c"
    and s: "KeyCeremony_Coordinator_receive_key_generated E G m c = Some (KEYCEREMONY_COORDINATOR_SUCCESS, c')"
  shows "\<exists>(rep :: key_generated_rep) k. Crypto_check_keypair_proof E G (kg_public_key rep) [] = Some True \<and>
      \<not> unat (kc_num_trustees c) \<le> unat (kg_trustee_index rep) \<and> unat (kg_trustee_index rep) \<notin> heard_by c \<and>
      fits_threshold (kc_threshold c) (kg_public_key rep) \<and>
      Crypto_public_key_copy (kc_public_keys c ! unat (kg_trustee_index rep)) (kg_public_key rep) = Some k \<and>
      c' = c\<lparr>kc_seen := (kc_seen c)[unat (kg_trustee_index rep) := True],
              kc_public_keys := (kc_public_keys c)[unat (kg_trustee_index rep) := k],
              kc_rsa_public_keys := (kc_rsa_public_keys c)[unat (kg_trustee_index rep) :=
                Crypto_rsa_public_key_copy (kc_rsa_public_keys c ! unat (kg_trustee_index rep))
                  (kg_rsa_public_key rep)]\<rparr>"
  using s
  apply (simp add: KeyCeremony_Coordinator_receive_key_generated_def bind_eq_Some_conv Let_def
        assert_index_unseen_eq [OF c] arr_set_Some split: if_splits)
  apply (intro exI conjI)
       apply assumption+
  apply simp
  done

lemma receive_rejected:
  assumes "coordinator_ok c" "r \<noteq> KEYCEREMONY_COORDINATOR_SUCCESS"
  shows "KeyCeremony_Coordinator_receive_key_generated E G m c = Some (r, c') \<Longrightarrow> c' = c"
    "KeyCeremony_Coordinator_receive_shares_generated E m c = Some (r, c') \<Longrightarrow> c' = c"
  using assms
  by (auto simp: KeyCeremony_Coordinator_receive_key_generated_def
      KeyCeremony_Coordinator_receive_shares_generated_def bind_eq_Some_conv Let_def split: if_splits)

lemma receive_key_generated_heard:
  assumes c: "coordinator_ok c" and s: "KeyCeremony_Coordinator_receive_key_generated E G m c = Some (r, c')"
  shows "heard_result r c c'"
proof (cases "r = KEYCEREMONY_COORDINATOR_SUCCESS")
  case True
  with c s obtain rep :: key_generated_rep and k where 2: "\<not> unat (kc_num_trustees c) \<le> unat (kg_trustee_index rep)"
      "unat (kg_trustee_index rep) \<notin> heard_by c"
      "fits_threshold (kc_threshold c) (kg_public_key rep)"
      "Crypto_public_key_copy (kc_public_keys c ! unat (kg_trustee_index rep)) (kg_public_key rep) = Some k"
      "c' = c\<lparr>kc_seen := (kc_seen c)[unat (kg_trustee_index rep) := True],
              kc_public_keys := (kc_public_keys c)[unat (kg_trustee_index rep) := k],
              kc_rsa_public_keys := (kc_rsa_public_keys c)[unat (kg_trustee_index rep) :=
                Crypto_rsa_public_key_copy (kc_rsa_public_keys c ! unat (kg_trustee_index rep))
                  (kg_rsa_public_key rep)]\<rparr>"
    by (blast dest: receive_key_generated_success)
  let ?i = "unat (kg_trustee_index rep)"
  have "length (kc_public_keys c) = MAX_TRUSTEES" "?i < MAX_TRUSTEES"
    using c 2 coordinator_okD(1) [OF c] by (simp_all add: coordinator_ok_def)
  then have "public_key_shape (kc_public_keys c ! ?i)"
    using c by (simp add: coordinator_ok_def list_all_length)
  then have "public_key_shape k \<and> fits_threshold (kc_threshold c) k"
    using public_key_copy_shape [OF 2(4)] 2(3) by (simp add: fits_threshold_def)
  with 2 c show ?thesis
    by (intro heard_result_mark [of c ?i]) (simp_all add: coordinator_ok_def list_all_update)
qed (use assms in \<open>auto simp: heard_result_def dest: receive_rejected\<close>)

lemma receive_shares_generated_success:
  assumes c: "coordinator_ok c"
    and s: "KeyCeremony_Coordinator_receive_shares_generated E m c = Some (KEYCEREMONY_COORDINATOR_SUCCESS, c')"
  shows "\<exists>(rep :: shares_generated_rep) row. \<not> unat (kc_num_trustees c) \<le> unat (sg_trustee_index rep) \<and>
    unat (sg_trustee_index rep) \<notin> heard_by c \<and>
    length row = length (kc_shares c ! unat (sg_trustee_index rep)) \<and>
    c' = c\<lparr>kc_seen := (kc_seen c)[unat (sg_trustee_index rep) := True],
            kc_shares := (kc_shares c)[unat (sg_trustee_index rep) := row]\<rparr>"
  using s
  apply (simp add: KeyCeremony_Coordinator_receive_shares_generated_def bind_eq_Some_conv Let_def
        assert_index_unseen_eq [OF c] arr_set_Some split: if_splits)
  apply (intro exI conjI)
     apply assumption
    apply assumption
   apply (erule for_array_length)
  apply simp
  done

lemma receive_shares_generated_heard:
  assumes c: "coordinator_ok c" and s: "KeyCeremony_Coordinator_receive_shares_generated E m c = Some (r, c')"
  shows "heard_result r c c'"
proof (cases "r = KEYCEREMONY_COORDINATOR_SUCCESS")
  case True
  with c s obtain rep :: shares_generated_rep and row where 2: "\<not> unat (kc_num_trustees c) \<le> unat (sg_trustee_index rep)"
    "unat (sg_trustee_index rep) \<notin> heard_by c"
    "length row = length (kc_shares c ! unat (sg_trustee_index rep))"
    "c' = c\<lparr>kc_seen := (kc_seen c)[unat (sg_trustee_index rep) := True],
            kc_shares := (kc_shares c)[unat (sg_trustee_index rep) := row]\<rparr>"
    by (blast dest: receive_shares_generated_success)
  have "length row = MAX_TRUSTEES"
    using c 2 coordinator_okD(1) [OF c] by (simp add: coordinator_ok_def list_all_length)
  with 2 c show ?thesis
    by (intro heard_result_mark [of c "unat (sg_trustee_index rep)"]) (simp_all add: coordinator_ok_def list_all_update)
qed (use assms in \<open>auto simp: heard_result_def dest: receive_rejected\<close>)

lemma receive_shares_verified_heard:
  assumes c: "coordinator_ok c" and s: "KeyCeremony_Coordinator_receive_shares_verified m c = Some (r, c')"
  shows "heard_result r c c'"
proof -
  obtain rep st where rd: "Serialize_read_shares_verified \<lparr>sv_trustee_index = 0, sv_verified = False\<rparr>
      (message_reading m) = Some (rep, st)"
    using s by (auto simp: KeyCeremony_Coordinator_receive_shares_verified_def bind_eq_Some_conv)
  let ?i = "unat (sv_trustee_index rep)"
  show ?thesis
  proof (cases "?i < unat (kc_num_trustees c) \<and> ?i \<notin> heard_by c")
    case True
    with s rd have "c' = c\<lparr>kc_seen := (kc_seen c)[?i := True]\<rparr>"
      by (auto simp: KeyCeremony_Coordinator_receive_shares_verified_def bind_eq_Some_conv
          assert_index_unseen_eq [OF c] arr_set_Some)
    with True c show ?thesis
      by (intro heard_result_mark [of c ?i]) (simp_all add: coordinator_ok_def)
  next
    case False
    with s rd c show ?thesis
      by (auto simp: KeyCeremony_Coordinator_receive_shares_verified_def bind_eq_Some_conv
          assert_index_unseen_eq [OF c] heard_result_def split: if_splits)
  qed
qed

lemma new_ok:
  assumes "KeyCeremony_Coordinator_new E n t = Some (r, Some c)"
  shows "r = KEYCEREMONY_COORDINATOR_SUCCESS \<and> coordinator_ok c \<and> heard_by c = {} \<and>
    kc_num_trustees c = n \<and> kc_threshold c = t"
proof -
  have v: "valid_params n t"
    using assms by (auto simp: KeyCeremony_Coordinator_new_def split: if_splits)
  note z = zeroed_coordinator_ok [OF v]
  have s: "kc_num_trustees (zeroed_coordinator n t) = n" "kc_threshold (zeroed_coordinator n t) = t"
    by (simp_all add: zeroed_coordinator_def)
  obtain seen where seen: "KeyCeremony_Coordinator_clear_seen (zeroed_coordinator n t)
      = Some (zeroed_coordinator n t\<lparr>kc_seen := seen\<rparr>)" (is "_ = Some ?c")
    "coordinator_ok (zeroed_coordinator n t\<lparr>kc_seen := seen\<rparr>)" "heard_by (zeroed_coordinator n t\<lparr>kc_seen := seen\<rparr>) = {}"
    using clear_seen_eq [OF z] by blast
  obtain ks ss rs where
    ks: "for_array (unat n) (\<lambda>_ k. Crypto_public_key_new k (unat t)) (kc_public_keys ?c) = Some ks" and
    ss: "for_array (unat n) (\<lambda>_ row. for_array (unat n) (\<lambda>_ _. Some Crypto_encrypted_key_share_init) row)
      (kc_shares ?c) = Some ss" and
    rs: "for_array (unat n) (\<lambda>_ _. Some Crypto_rsa_public_key_new) (kc_rsa_public_keys ?c) = Some rs" and
    c: "r = KEYCEREMONY_COORDINATOR_SUCCESS" "c = ?c\<lparr>kc_public_keys := ks, kc_shares := ss, kc_rsa_public_keys := rs\<rparr>"
    using assms v seen(1)
    by (auto simp: KeyCeremony_Coordinator_new_def bind_eq_Some_conv split: option.splits)
  note ok = seen(2) [unfolded coordinator_ok_def]
  have "list_all (\<lambda>k. public_key_shape k \<and> fits_threshold (kc_threshold ?c) k) ks"
    using ks by (rule for_array_list_all) (use ok z v in \<open>auto simp: s fits_threshold_def valid_params_def word_le_nat_alt dest: public_key_new_shape\<close>)
  moreover have "list_all (\<lambda>row. length row = MAX_TRUSTEES) ss"
    using ss by (rule for_array_list_all) (use ok in \<open>auto dest: for_array_length\<close>)
  moreover have "heard_by c = {}" using seen(3) by (simp add: c heard_by_def)
  ultimately show ?thesis
    using ok for_array_length [OF ks] for_array_length [OF ss] for_array_length [OF rs]
    by (simp add: c coordinator_ok_def s)
qed

section \<open>Roll calls\<close>

text \<open>The three operations that take messages keep the contract of a roll call.\<close>

lemma heard_result_roll_call:
  assumes "\<And>m c r c'. coordinator_ok c \<Longrightarrow> recv m c = Some (r, c') \<Longrightarrow> heard_result r c c'"
  shows "roll_call coordinator_ok (\<lambda>c. unat (kc_num_trustees c)) heard_by recv KEYCEREMONY_COORDINATOR_SUCCESS"
proof
  fix m c r c' assume a: "coordinator_ok c" "recv m c = Some (r, c')"
  note h = assms [OF a, unfolded heard_result_def]
  from h show "coordinator_ok c' \<and> unat (kc_num_trustees c') = unat (kc_num_trustees c)" by simp
  from h show "heard_by c \<subseteq> heard_by c'" by blast
next
  fix m c c' assume a: "coordinator_ok c" "recv m c = Some (KEYCEREMONY_COORDINATOR_SUCCESS, c')"
  note h = assms [OF a, unfolded heard_result_def]
  from h show "\<exists>i. i < unat (kc_num_trustees c) \<and> i \<notin> heard_by c \<and> heard_by c' = insert i (heard_by c)" by blast
qed (auto simp: heard_by_def)

interpretation keys: roll_call coordinator_ok "\<lambda>c. unat (kc_num_trustees c)" heard_by
  "KeyCeremony_Coordinator_receive_key_generated E G" KEYCEREMONY_COORDINATOR_SUCCESS for E G
  by (intro heard_result_roll_call receive_key_generated_heard)

interpretation shares: roll_call coordinator_ok "\<lambda>c. unat (kc_num_trustees c)" heard_by
  "KeyCeremony_Coordinator_receive_shares_generated E" KEYCEREMONY_COORDINATOR_SUCCESS for E
  by (intro heard_result_roll_call receive_shares_generated_heard)

interpretation verdicts: roll_call coordinator_ok "\<lambda>c. unat (kc_num_trustees c)" heard_by
  KeyCeremony_Coordinator_receive_shares_verified KEYCEREMONY_COORDINATOR_SUCCESS
  by (intro heard_result_roll_call receive_shares_verified_heard)

end
