(* ===== verification/KeyCeremonyTrustee.thy ===== *)
theory KeyCeremonyTrustee
  imports Protocol
begin

text \<open>
  \<open>src/electionguard/keyceremony/trustee.c\<close>. The state is the structure behind the pointer
  \<open>KeyCeremony_Trustee\<close>; every operation returns its status, its message and the new state.
  \<open>KeyCeremony_Trustee_free\<close> has no effect in the model, and neither has the trace printing.
\<close>

section \<open>State\<close>

datatype KeyCeremony_Trustee_status =
    KEYCEREMONY_TRUSTEE_SUCCESS
  | KEYCEREMONY_TRUSTEE_INSUFFICIENT_MEMORY
  | KEYCEREMONY_TRUSTEE_INVALID_PARAMS
  | KEYCEREMONY_TRUSTEE_PUBLISHED_PUBLIC_KEY_ERROR
  | KEYCEREMONY_TRUSTEE_MISSING_PUBLIC_KEY
  | KEYCEREMONY_TRUSTEE_BAD_NIZKP
  | KEYCEREMONY_TRUSTEE_INVALID_KEY_SHARE
  | KEYCEREMONY_TRUSTEE_SERIALIZE_ERROR
  | KEYCEREMONY_TRUSTEE_DESERIALIZE_ERROR
  | KEYCEREMONY_TRUSTEE_IO_ERROR

record KeyCeremony_Trustee =
  kt_num_trustees :: u32
  kt_threshold :: u32
  kt_index :: u32
  kt_private_key :: private_key
  kt_public_keys :: "public_key list"
  kt_rsa_public_keys :: "rsa_public_key list"
  kt_rsa_private_key :: rsa_private_key
  kt_rsa_public_key :: rsa_public_key
  kt_my_key_shares :: "encrypted_key_share list"

section \<open>Operations\<close>

text \<open>\<open>fresh\<close> is what the allocated memory holds; the thresholds of the keys are not initialised.\<close>

definition KeyCeremony_Trustee_new ::
    "env \<Rightarrow> KeyCeremony_Trustee \<Rightarrow> u32 \<Rightarrow> u32 \<Rightarrow> u32 \<Rightarrow>
     (KeyCeremony_Trustee_status \<times> KeyCeremony_Trustee option) option" where
  "KeyCeremony_Trustee_new E fresh num_trustees threshold index =
     (if \<not> valid_params num_trustees threshold then Some (KEYCEREMONY_TRUSTEE_INVALID_PARAMS, None)
      else case malloc E 1816 of
        None \<Rightarrow> Some (KEYCEREMONY_TRUSTEE_INSUFFICIENT_MEMORY, None)
      | Some _ \<Rightarrow> do {
          priv \<leftarrow> Crypto_private_key_init (kt_private_key fresh) (unat threshold);
          ks \<leftarrow> for_array (unat num_trustees) (\<lambda>_ k. Crypto_public_key_new k (unat threshold)) (kt_public_keys fresh);
          rs \<leftarrow> for_array (unat num_trustees) (\<lambda>_ _. Some Crypto_rsa_public_key_new) (kt_rsa_public_keys fresh);
          ss \<leftarrow> for_array (unat num_trustees) (\<lambda>_ _. Some Crypto_encrypted_key_share_init) (kt_my_key_shares fresh);
          Some (KEYCEREMONY_TRUSTEE_SUCCESS,
            Some \<lparr>kt_num_trustees = num_trustees, kt_threshold = threshold, kt_index = index,
                  kt_private_key = priv, kt_public_keys = ks, kt_rsa_public_keys = rs,
                  kt_rsa_private_key = Crypto_rsa_private_key_new, kt_rsa_public_key = Crypto_rsa_public_key_new,
                  kt_my_key_shares = ss\<rparr>) })"

text \<open>
  A failed key generation leaves a cleared key, whose proof is checked before the status is looked
  at, and a failed check ends in an assertion. The number of trustees bounds the initialised keys;
  nothing bounds the index.
\<close>

definition KeyCeremony_Trustee_generate_key ::
    "env \<Rightarrow> params \<Rightarrow> random_source option \<Rightarrow> random_source option \<Rightarrow> raw_hash \<Rightarrow> KeyCeremony_Trustee \<Rightarrow>
     (KeyCeremony_Trustee_status \<times> message option \<times> KeyCeremony_Trustee) option" where
  "KeyCeremony_Trustee_generate_key E G dev_random dev_rsa base_hash_code t =
     do {
       let n = unat (kt_num_trustees t);
       let i = unat (kt_index t);
       crypto_result \<leftarrow> Crypto_gen_keypair E G dev_random (kt_threshold t) base_hash_code;
       if keypair_status crypto_result \<noteq> CRYPTO_SUCCESS then None else do {
       valid \<leftarrow> Crypto_check_keypair_proof E G (keypair_public crypto_result) base_hash_code;
       if \<not> valid then None else do {
       (rsa_priv, rsa_pub) \<leftarrow> generate_keys E dev_rsa;
       priv \<leftarrow> Crypto_private_key_copy (kt_private_key t) (keypair_private crypto_result);
       old \<leftarrow> arr_get (take n (kt_public_keys t)) i;
       pub \<leftarrow> Crypto_public_key_copy old (keypair_public crypto_result);
       ks \<leftarrow> arr_set (kt_public_keys t) i pub;
       let t = t\<lparr>kt_rsa_private_key := rsa_priv, kt_rsa_public_key := rsa_pub, kt_private_key := priv,
                 kt_public_keys := ks\<rparr>;
       k \<leftarrow> Crypto_public_key_new (blank_public_key\<lparr>pub_threshold := kt_threshold t\<rparr>) (unat (kt_threshold t));
       src \<leftarrow> arr_get (kt_public_keys t) i;
       k \<leftarrow> Crypto_public_key_copy k src;
       let rep = \<lparr>kg_trustee_index = kt_index t, kg_public_key = k,
                  kg_rsa_public_key = Crypto_rsa_public_key_copy Crypto_rsa_public_key_new (kt_rsa_public_key t)\<rparr>;
       out \<leftarrow> send E (Serialize_reserve_key_generated rep) (Serialize_write_key_generated E rep);
       Some (if out = None then KEYCEREMONY_TRUSTEE_SERIALIZE_ERROR else KEYCEREMONY_TRUSTEE_SUCCESS, out, t) } } }"

text \<open>A message about fewer trustees leaves the other keys, and their thresholds, uninitialised.\<close>

definition KeyCeremony_Trustee_generate_shares ::
    "env \<Rightarrow> params \<Rightarrow> message \<Rightarrow> KeyCeremony_Trustee \<Rightarrow>
     (KeyCeremony_Trustee_status \<times> message option \<times> KeyCeremony_Trustee) option" where
  "KeyCeremony_Trustee_generate_shares E G in_message t =
     do {
       let n = unat (kt_num_trustees t);
       let i = unat (kt_index t);
       ks \<leftarrow> for_array n (\<lambda>_ k. Crypto_public_key_new k (unat (kt_threshold t))) (replicate MAX_TRUSTEES blank_public_key);
       rs \<leftarrow> for_array n (\<lambda>_ _. Some Crypto_rsa_public_key_new) (replicate MAX_TRUSTEES Crypto_rsa_public_key_new);
       (rep, st) \<leftarrow> Serialize_read_all_keys_received E G
         \<lparr>akr_num_trustees = 0, public_keys = ks, rsa_public_keys = rs\<rparr> (message_reading in_message);
       if \<not> (akr_num_trustees rep \<le> kt_num_trustees t \<and>
              list_all (fits_threshold (kt_threshold t)) (public_keys rep)) then None
       else if ss_status st \<noteq> SERIALIZE_STATE_READING
       then Some (KEYCEREMONY_TRUSTEE_DESERIALIZE_ERROR, None, t)
       else do {
         received \<leftarrow> arr_get (take (unat (akr_num_trustees rep)) (public_keys rep)) i;
         mine \<leftarrow> arr_get (take n (kt_public_keys t)) i;
         same \<leftarrow> Crypto_public_key_equal received mine;
         if \<not> same then Some (KEYCEREMONY_TRUSTEE_MISSING_PUBLIC_KEY, None, t)
         else if akr_num_trustees rep \<noteq> kt_num_trustees t then None
         else do {
           ks \<leftarrow> for_array n (\<lambda>i k. do { src \<leftarrow> arr_get (public_keys rep) i; Crypto_public_key_copy k src })
                  (kt_public_keys t);
           rs \<leftarrow> for_array n (\<lambda>i r. do { src \<leftarrow> arr_get (rsa_public_keys rep) i;
                                        Some (Crypto_rsa_public_key_copy r src) }) (kt_rsa_public_keys t);
           let t = t\<lparr>kt_public_keys := ks, kt_rsa_public_keys := rs\<rparr>;
           ss \<leftarrow> for_array n (\<lambda>i _. do {
                    r \<leftarrow> arr_get (kt_rsa_public_keys t) i;
                    Crypto_create_encrypted_key_share E G r (kt_private_key t) (word_of_nat i) }) blank_array;
           let out_rep = \<lparr>sg_trustee_index = kt_index t, sg_num_trustees = kt_num_trustees t, sg_shares = ss\<rparr>;
           out \<leftarrow> send E (Serialize_reserve_shares_generated out_rep) (Serialize_write_shares_generated E out_rep);
           Some (if out = None then KEYCEREMONY_TRUSTEE_SERIALIZE_ERROR else KEYCEREMONY_TRUSTEE_SUCCESS, out, t) } } }"

text \<open>
  The loop that checks the shares runs after a failed deserialization too, and stops at the first
  share that is not valid.
\<close>

definition verify_share_step ::
    "env \<Rightarrow> params \<Rightarrow> KeyCeremony_Trustee \<Rightarrow> encrypted_key_share list list \<Rightarrow> nat \<Rightarrow>
     KeyCeremony_Trustee_status \<Rightarrow> KeyCeremony_Trustee_status option" where
  "verify_share_step E G t shares i status =
     (if status = KEYCEREMONY_TRUSTEE_INVALID_KEY_SHARE then Some status
      else do {
        row \<leftarrow> arr_get shares i;
        share \<leftarrow> arr_get (take (unat (kt_num_trustees t)) row) (unat (kt_index t));
        pubKeys \<leftarrow> arr_get (kt_public_keys t) i;
        valid \<leftarrow> Crypto_check_validity_share_against_public_keys E G share pubKeys (kt_rsa_private_key t)
                  (kt_threshold t) (kt_index t);
        Some (if \<not> valid then KEYCEREMONY_TRUSTEE_INVALID_KEY_SHARE else status) })"

definition KeyCeremony_Trustee_verify_shares ::
    "env \<Rightarrow> params \<Rightarrow> message \<Rightarrow> KeyCeremony_Trustee \<Rightarrow>
     (KeyCeremony_Trustee_status \<times> message option \<times> KeyCeremony_Trustee) option" where
  "KeyCeremony_Trustee_verify_shares E G in_message t =
     do {
       let n = unat (kt_num_trustees t);
       rows \<leftarrow> for_array n (\<lambda>_ row. for_array n (\<lambda>_ _. Some Crypto_encrypted_key_share_init) row)
                (replicate MAX_TRUSTEES blank_array);
       (rep, st) \<leftarrow> Serialize_read_all_shares_received E \<lparr>asr_num_trustees = 0, asr_shares = rows\<rparr>
         (message_reading in_message);
       if \<not> asr_num_trustees rep \<le> kt_num_trustees t then None else do {
       status \<leftarrow> loop n (verify_share_step E G t (asr_shares rep))
         (if ss_status st \<noteq> SERIALIZE_STATE_READING then KEYCEREMONY_TRUSTEE_DESERIALIZE_ERROR
          else KEYCEREMONY_TRUSTEE_SUCCESS);
       if status \<noteq> KEYCEREMONY_TRUSTEE_SUCCESS then Some (status, None, t)
       else do {
         mine \<leftarrow> for_array n (\<lambda>i old. do {
                   row \<leftarrow> arr_get (asr_shares rep) i;
                   src \<leftarrow> arr_get row (unat (kt_index t));
                   Some (Crypto_encrypted_key_share_copy old src) }) (kt_my_key_shares t);
         let t = t\<lparr>kt_my_key_shares := mine\<rparr>;
         out \<leftarrow> send E Serialize_reserve_shares_verified
           (Serialize_write_shares_verified \<lparr>sv_trustee_index = kt_index t, sv_verified = True\<rparr>);
         Some (if out = None then KEYCEREMONY_TRUSTEE_SERIALIZE_ERROR else status, out, t) } } }"

definition KeyCeremony_Trustee_export_state ::
    "env \<Rightarrow> KeyCeremony_Trustee \<Rightarrow> (KeyCeremony_Trustee_status \<times> message option) option" where
  "KeyCeremony_Trustee_export_state E t =
     do {
       let n = unat (kt_num_trustees t);
       priv \<leftarrow> Crypto_private_key_init \<lparr>priv_threshold = 0, coefficients = blank_array\<rparr> (unat (kt_threshold t));
       priv \<leftarrow> (if priv_threshold (kt_private_key t) \<le> kt_threshold t
               then Crypto_private_key_copy priv (kt_private_key t) else None);
       ss \<leftarrow> for_array n (\<lambda>i _. do {
               src \<leftarrow> arr_get (kt_my_key_shares t) i;
               Some (Crypto_encrypted_key_share_copy Crypto_encrypted_key_share_init src) }) blank_array;
       let rep = \<lparr>ts_index = kt_index t, ts_private_key = priv, ts_my_key_shares = ss,
                  ts_rsa_private_key = Crypto_rsa_private_key_copy Crypto_rsa_private_key_new (kt_rsa_private_key t)\<rparr>;
       out \<leftarrow> send E (Serialize_reserve_trustee_state n rep) (Serialize_write_trustee_state n E rep);
       Some (if out = None then KEYCEREMONY_TRUSTEE_SERIALIZE_ERROR else KEYCEREMONY_TRUSTEE_SUCCESS, out) }"

end
