(* ===== verification/KeyExample.thy ===== *)
theory KeyExample
  imports CryptoClaims KeyCeremonyTrustee
begin

text \<open>
  A concrete run of the key generation whose numbers all have the full width of their fields: the
  group modulo \<open>2^4096 - 1\<close> with an order of 256 bits, a digest of ones, and a random device that
  delivers ones.
\<close>

section \<open>The environment and the group\<close>

definition sample_env :: env where
  "sample_env = ref_env\<lparr>sha256 := \<lambda>_. replicate 32 1\<rparr>"

interpretation sample: platform_mem sample_env
proof
qed (auto simp: sample_env_def ref_env_def ref_invert_correct wval_ref_export dest: ref_export_hd)

definition full_q :: int where
  "full_q = 2 ^ 255"

definition full_group :: params where
  "full_group = \<lparr>par_p = wide_p, par_q = full_q, generator = wide_p - 1\<rparr>"

lemma full_group_sel [simp]:
  "par_p full_group = wide_p" "par_q full_group = full_q" "generator full_group = wide_p - 1"
  by (simp_all add: full_group_def)

lemma full_q_bounds: "1 < full_q" "2 ^ 253 < full_q" "nat full_q = 2 * 2 ^ 254"
proof -
  show "2 ^ 253 < full_q" unfolding full_q_def by (rule power_strict_increasing) simp_all
  moreover have "(1 :: int) \<le> 2 ^ 253" by (rule one_le_power) simp
  ultimately show "1 < full_q" by linarith
  show "nat full_q = 2 * 2 ^ 254"
    by (simp only: full_q_def nat_power_eq) (simp flip: power_Suc)
qed

lemma minus_one_even:
  assumes "2 < p"
  shows "(p - 1) ^ (2 * k) mod p = (1 :: int)"
proof -
  have "(p - 1) ^ (2 * k) mod p = ((p - 1) ^ 2 mod p) ^ k mod p"
    by (simp only: power_mult power_mod)
  also have "\<dots> = 1" using assms by (simp only: minus_one_square [OF assms]) simp
  finally show ?thesis .
qed

lemma full_group_ok: "group_ok full_group"
  using wide_p(1) full_q_bounds(1) minus_one_even [OF wide_p(1), of "2 ^ 254"]
  by (simp only: group_ok_def full_group_sel full_q_bounds(3)) simp

lemma full_power: "pow_mod_p sample_env full_group (wide_p - 1) 1 = wide_p - 1"
  using wide_p(1) by (simp add: sample.pow_mod_p_eq [OF full_group_ok] zmod_minus1)

definition full_challenge :: int where
  "full_challenge = wval (native_words 4 (replicate 32 1))"

lemma full_challenge: "fits 4 full_challenge" "full_challenge < 2 ^ 250" "fits 4 (full_challenge + 1)"
proof -
  have "native_words 4 (replicate 32 1) = [72340172838076673, 72340172838076673, 72340172838076673, 72340172838076673]" by code_simp
  then show "fits 4 full_challenge" "full_challenge < 2 ^ 250" "fits 4 (full_challenge + 1)"
    by (simp_all add: full_challenge_def fits_def)
qed

lemma full_challenge_q: "0 \<le> full_challenge" "full_challenge + 1 < full_q"
proof -
  have "(2 :: int) ^ 250 < 2 ^ 253" by simp
  then show "full_challenge + 1 < full_q" using full_challenge(2) full_q_bounds(2) by linarith
  show "0 \<le> full_challenge" by (simp add: full_challenge_def)
qed

section \<open>The key pair\<close>

lemma full_hash: "Crypto_hash_final sample_env full_group context = full_challenge"
proof -
  have "sha256 sample_env context = replicate 32 1" by (simp add: sample_env_def)
  then show ?thesis
    using full_challenge_q
    by (simp add: Crypto_hash_final_def Crypto_hash_reduce_def sample.mod_q_eq [OF full_group_ok]
        HASH_DIGEST_SIZE_BYTES_def sample.mpz_import_u64_eq flip: full_challenge_def)
qed

definition full_private :: private_key where
  "full_private = \<lparr>priv_threshold = 1, coefficients = blank_array[0 := 1]\<rparr>"

definition full_public :: public_key where
  "full_public = \<lparr>pub_threshold = 1,
     pub_proof = \<lparr>proof_threshold = 1, commitments = blank_array[0 := wide_p - 1], challenge = full_challenge,
                  challenge_responses = blank_array[0 := full_challenge + 1]\<rparr>,
     coef_commitments = blank_array[0 := wide_p - 1]\<rparr>"

lemma full_keypair:
  "Crypto_gen_keypair sample_env full_group (Some example_device) 1 [] =
     Some \<lparr>keypair_status = CRYPTO_SUCCESS, keypair_private = full_private, keypair_public = full_public\<rparr>"
proof -
  have b: "arr_get blank_array 0 = Some 0" "\<And>x. arr_set blank_array 0 x = Some (blank_array[0 := x])"
    "\<And>x y. arr_set (blank_array[0 := x]) 0 y = Some (blank_array[0 := y])"
    "arr_get (blank_array[0 := x]) 0 = Some x" "blank_array[0 := x] ! 0 = x" for x
    by (simp_all add: blank_array_def MAX_TRUSTEES_def)
  have q: "uint (1 :: u8) \<le> par_q full_group" using full_q_bounds(1) by simp
  have r: "add_mod_q sample_env full_group 1 (mul_mod_q sample_env full_group full_challenge 1) = full_challenge + 1"
    using full_challenge_q by (simp add: sample.add_mod_q_eq [OF full_group_ok] sample.mul_mod_q_eq [OF full_group_ok] add.commute)
  show ?thesis
    using sample.hash_update_p_fits [OF wide_fits]
      sample.sample_byte [of 1 0 "replicate 31 0 @ [1]"] sample.sample_byte_q [OF q, of 0 "[]"]
    by (simp add: Crypto_gen_keypair_def Crypto_private_key_init_def Crypto_public_key_new_def
        Crypto_schnorr_proof_new_def mpz_init_n_blank sample.source_new MAX_TRUSTEES_def example_device_def
        gen_coefficients_step_def gen_commitments_step_def b Let_def keypair_result_def gen_responses_def
        Crypto_RandomSource_status_convert_def full_hash full_power r full_public_def full_private_def)
qed

lemma full_public_ok: "public_key_ok full_group full_public"
  using full_challenge full_challenge_q wide_fits
  by (simp add: public_key_ok_def schnorr_proof_ok_def array_ok_def hash_ok_def full_public_def blank_array_def
      MAX_TRUSTEES_def eval_nat_numeral)

section \<open>The RSA keys\<close>

lemma update_drop_first: "n < length xs \<Longrightarrow> (drop n xs)[0 := v] = v # drop (Suc n) xs"
  by (simp add: Cons_nth_drop_Suc [symmetric])

lemma get_bytes_loop:
  "n \<le> length bs \<Longrightarrow> n \<le> length buf \<Longrightarrow>
   loop n (\<lambda>i (buffer, source). do {
            (b, source) \<leftarrow> RandomSource_get_byte source;
            buffer \<leftarrow> arr_set buffer i b;
            Some (buffer, source) }) (buf, bs) = Some (take n bs @ drop n buf, drop n bs)"
proof (induction n)
  case (Suc n)
  have "RandomSource_get_byte (drop n bs) = Some (bs ! n, drop (Suc n) bs)"
    using Suc.prems by (simp add: RandomSource_get_byte_def fread_item_def hd_drop_conv_nth)
  then show ?case
    using Suc by (simp add: list_update_append min.absorb2 take_Suc_conv_app_nth Cons_nth_drop_Suc
        update_drop_first)
qed simp

text \<open>A device that delivers the number 1 in 512 bytes, several times.\<close>

definition ones :: "nat \<Rightarrow> u8 list" where
  "ones n = concat (replicate n (replicate 511 0 @ [1]))"

lemma uniform_ones_loop:
  "n \<le> m \<Longrightarrow> n \<le> length buf \<Longrightarrow>
   loop n (\<lambda>i (buffer, source). do {
            let (_, u_2, source) = RandomSource_uniform_bignum_o sample_env 0 source;
            buffer \<leftarrow> arr_set buffer i (word_of_int ((u_2 mod 2 ^ 64) mod 0xFF));
            Some (buffer, source) }) (buf, ones m) = Some (replicate n 1 @ drop n buf, ones (m - n))"
proof (induction n)
  case (Suc n)
  have "ones (m - n) = replicate 511 0 @ 1 # ones (m - Suc n)"
    using Suc.prems by (simp add: ones_def Suc_diff_Suc flip: Suc_diff_le) (simp add: Suc_diff_Suc [symmetric])
  then have "RandomSource_uniform_bignum_o sample_env 0 (ones (m - n)) = (RANDOM_SOURCE_SUCCESS, 1, ones (m - Suc n))"
    using sample.sample_byte [of 1 0 "ones (m - Suc n)"] by simp
  then show ?case
    using Suc by (simp add: list_update_append update_drop_first flip: replicate_append_same)
qed simp

lemma wval_mod_3: "wval (bs :: u8 list) mod 3 = (\<Sum>b\<leftarrow>bs. uint b) mod 3"
proof (induction bs)
  case (Cons b bs)
  have "(2 :: int) ^ (8 * length bs) mod 3 = 1"
    using power_mod [of "256 :: int" 3 "length bs"] by (simp add: power_mult)
  then have "uint b * 2 ^ (8 * length bs) mod 3 = uint b mod 3"
    by (metis mod_mult_right_eq mult.right_neutral)
  then have "(uint b * 2 ^ (8 * length bs) + wval bs) mod 3 = (uint b + (\<Sum>b\<leftarrow>bs. uint b)) mod 3"
    using Cons by (rule mod_add_cong)
  then show ?case by simp
qed simp

lemma wval_top:
  assumes "128 \<le> uint (b :: u8)" "length bs = 255"
  shows "2 ^ 2047 \<le> wval (b # bs) \<and> wval (b # bs) < 2 ^ 2048"
proof
  have "(2 :: int) ^ 7 * 2 ^ (8 * 255) \<le> uint b * 2 ^ (8 * 255)"
    by (rule mult_right_mono) (use assms(1) in simp, rule zero_le_power, simp)
  moreover have "(2 :: int) ^ 7 * 2 ^ (8 * 255) = 2 ^ (7 + 8 * 255)" by (rule power_add [symmetric])
  moreover have "7 + 8 * 255 = (2047 :: nat)" by simp
  moreover have "wval (b # bs) = uint b * 2 ^ (8 * 255) + wval bs" using assms(2) by simp
  ultimately show "2 ^ 2047 \<le> wval (b # bs)" using wval_nonneg [of bs] by (simp only:)
  show "wval (b # bs) < 2 ^ 2048" using wval_less [of "b # bs"] assms(2) by simp
qed

lemma rsa_skip_none: "mpz_mod E x e \<noteq> 1 \<Longrightarrow> rsa_skip_primes E x e = Some x"
  by (subst rsa_skip_primes.simps) simp

definition full_rsa_p :: int where
  "full_rsa_p = wval (0xC0 # replicate 254 0 @ [1 :: u8]) + 1"

definition full_rsa_q :: int where
  "full_rsa_q = wval (0xC1 # replicate 255 (1 :: u8)) + 1"

lemma full_rsa_mod: "full_rsa_p mod 3 = 2" "full_rsa_q mod 3 = 2"
proof -
  have "(\<Sum>b\<leftarrow>0xC0 # replicate 254 0 @ [1 :: u8]. uint b) = 193" by (simp add: sum_list_replicate)
  then have "wval (0xC0 # replicate 254 0 @ [1 :: u8]) mod 3 = 1" by (simp only: wval_mod_3) simp
  then show "full_rsa_p mod 3 = 2" unfolding full_rsa_p_def by presburger
  have "(\<Sum>b\<leftarrow>0xC1 # replicate 255 (1 :: u8). uint b) = 448" by (simp add: sum_list_replicate)
  then have "wval (0xC1 # replicate 255 (1 :: u8)) mod 3 = 1" by (simp only: wval_mod_3) simp
  then show "full_rsa_q mod 3 = 2" unfolding full_rsa_q_def by presburger
qed

lemma full_rsa_bounds:
  "2 ^ 2047 < full_rsa_p" "full_rsa_p \<le> 2 ^ 2048" "2 ^ 2047 < full_rsa_q" "full_rsa_q \<le> 2 ^ 2048"
  "full_rsa_p < full_rsa_q"
proof -
  have "2 ^ 2047 \<le> wval (0xC0 # replicate 254 0 @ [1 :: u8]) \<and> wval (0xC0 # replicate 254 0 @ [1 :: u8]) < 2 ^ 2048"
    by (rule wval_top) simp_all
  then show "2 ^ 2047 < full_rsa_p" "full_rsa_p \<le> 2 ^ 2048" unfolding full_rsa_p_def by linarith+
  have "2 ^ 2047 \<le> wval (0xC1 # replicate 255 (1 :: u8)) \<and> wval (0xC1 # replicate 255 (1 :: u8)) < 2 ^ 2048"
    by (rule wval_top) simp_all
  then show "2 ^ 2047 < full_rsa_q" "full_rsa_q \<le> 2 ^ 2048" unfolding full_rsa_q_def by linarith+
  have "length (0xC0 # replicate 254 0 @ [1 :: u8]) = length (0xC1 # replicate 255 (1 :: u8))" by simp
  have "wval (0xC0 # replicate 254 0 @ [1 :: u8]) = 0xC0 * 2 ^ (8 * 255) + wval (replicate 254 0 @ [1 :: u8])"
    "wval (0xC1 # replicate 255 (1 :: u8)) = 0xC1 * 2 ^ (8 * 255) + wval (replicate 255 (1 :: u8))"
    by (simp_all only: wval.simps length_append length_replicate list.size) simp_all
  moreover have "wval (replicate 254 0 @ [1 :: u8]) = 1" by simp
  moreover have "(1 :: int) < 2 ^ (8 * 255)" by (rule one_less_power) simp_all
  ultimately show "full_rsa_p < full_rsa_q" unfolding full_rsa_p_def full_rsa_q_def
    using wval_nonneg [of "replicate 255 (1 :: u8)"] by linarith
qed

lemma sample_nextprime: "mpz_nextprime sample_env a = a + 1"
  by (simp add: sample_env_def ref_env_def)

lemma full_candidates:
  "rsa_candidate sample_env (replicate 256 0) = full_rsa_p - 1"
  "rsa_candidate sample_env (replicate 256 1) = full_rsa_q - 1"
proof -
  have "(replicate 256 0)[0 := (0xC0 :: u8), 255 := 1] = 0xC0 # replicate 254 0 @ [1]" by code_simp
  then show "rsa_candidate sample_env (replicate 256 0) = full_rsa_p - 1"
    by (simp add: rsa_candidate_def BUFFER_SIZE_def Let_def sample.mpz_import_u8_eq full_rsa_p_def)
  have "(replicate 256 1)[0 := (0xC1 :: u8), 255 := 1] = 0xC1 # replicate 255 1" by code_simp
  moreover have "(replicate 256 1)[0 := (0xC1 :: u8)] ! 255 = 1" by code_simp
  ultimately show "rsa_candidate sample_env (replicate 256 1) = full_rsa_q - 1"
    by (simp add: rsa_candidate_def BUFFER_SIZE_def Let_def sample.mpz_import_u8_eq full_rsa_q_def)
qed

lemma full_select_p: "rsa_select_p sample_env (replicate 256 0 @ s) 3 = Some (full_rsa_p, s)"
  using get_bytes_loop [of 256 "replicate 256 0 @ s" "replicate 256 0"] full_rsa_mod(1)
  by (simp add: rsa_select_p_def BUFFER_SIZE_def rsa_skip_none sample.mpz_mod_pos sample_nextprime full_candidates)

lemma full_select_q: "rsa_select_q sample_env (ones 256) 3 = Some (full_rsa_q, [])"
proof -
  have c: "rsa_skip_primes sample_env (mpz_nextprime sample_env (rsa_candidate sample_env (replicate 256 1))) 3
      = Some full_rsa_q"
    using full_rsa_mod(2) by (simp add: sample_nextprime rsa_skip_none sample.mpz_mod_pos full_candidates)
  have n: "256 \<le> length (replicate 256 (0 :: u8))" "ones 0 = []" by (simp_all add: ones_def)
  show ?thesis
    unfolding rsa_select_q_def BUFFER_SIZE_def uniform_ones_loop [OF order_refl n(1)]
    by (simp only: Option.bind.simps prod.case drop_replicate diff_self_eq_0 replicate_0 append_Nil2 n(2) c)
qed

definition full_rsa_device :: "u8 list" where
  "full_rsa_device = replicate 256 0 @ ones 256"

definition full_rsa_public :: rsa_public_key where
  "full_rsa_public = \<lparr>pub_n = full_rsa_p * full_rsa_q, pub_e = 3\<rparr>"

lemma full_rsa_keys: "\<exists>priv. generate_keys sample_env (Some full_rsa_device) = Some (priv, full_rsa_public)"
proof -
  let ?l = "lcm (full_rsa_p - 1) (full_rsa_q - 1)"
  have "(full_rsa_p - 1) mod 3 = 1" "(full_rsa_q - 1) mod 3 = 1" using full_rsa_mod by presburger+
  then have "((full_rsa_p - 1) * (full_rsa_q - 1)) mod 3 = 1"
    using mod_mult_eq [of "full_rsa_p - 1" 3 "full_rsa_q - 1"] by simp
  then have "coprime 3 ((full_rsa_p - 1) * (full_rsa_q - 1))"
    using gcd_red_int [of "(full_rsa_p - 1) * (full_rsa_q - 1)" 3] by (simp add: coprime_iff_gcd_eq_1 gcd.commute)
  then have 3: "gcd 3 ?l = 1"
    using coprime_divisors [of 3 3 ?l "(full_rsa_p - 1) * (full_rsa_q - 1)"]
    by (simp add: coprime_iff_gcd_eq_1 lcm_least)
  have "(2 :: int) ^ 3 \<le> 2 ^ 2047" by (rule power_increasing) simp_all
  moreover have "(2 :: int) ^ 3 = 8" by simp
  ultimately have 8: "8 \<le> full_rsa_p - 1" "8 \<le> full_rsa_q - 1" using full_rsa_bounds(1,3) by linarith+
  have "0 < ?l" using 8 by (intro lcm_pos_int) simp_all
  then have "full_rsa_p - 1 \<le> ?l" by (intro zdvd_imp_le) simp_all
  then have l: "3 < ?l" using 8 by linarith
  have "rsa_select_q_loop sample_env (ones 256) 3 full_rsa_p = Some (full_rsa_q, [])"
    using full_rsa_bounds(5) by (subst rsa_select_q_loop.simps) (simp add: full_select_q)
  then show ?thesis
    using l 3 full_select_p [of "ones 256"]
    by (simp add: generate_keys_def sample.source_new full_rsa_device_def sample.mpz_lcm_eq sample.mpz_gcd_eq
        full_rsa_public_def Let_def)
qed

lemma product_bounds:
  fixes x y :: int
  assumes "2 ^ 2047 < x" "x < 2 ^ 2048" "2 ^ 2047 < y" "y \<le> 2 ^ 2048"
  shows "fits 64 (x * y)"
proof -
  have n: "0 \<le> (2 :: int) ^ 2047" "0 < (2 :: int) ^ 2048" by simp_all
  have "(2 :: int) ^ 2047 * 2 ^ 2047 \<le> x * y"
    using assms n by (intro mult_mono) linarith+
  moreover have "(2 :: int) ^ (64 * (64 - 1)) \<le> 2 ^ (2047 + 2047)" by (rule power_increasing) simp_all
  moreover have "x * y < 2 ^ 2048 * 2 ^ 2048"
    using assms n by (intro mult_less_le_imp_less) linarith+
  moreover have "(2 :: int) ^ (64 * 64) = 2 ^ (2048 + 2048)" by (rule arg_cong [where f = "power 2"]) simp
  ultimately have "2 ^ (64 * (64 - 1)) \<le> x * y" "x * y < 2 ^ (64 * 64)"
    by (simp_all only: power_add)
  then show ?thesis unfolding fits_def by (intro conjI zero_less_numeral)
qed

lemma full_rsa_public_ok: "rsa_public_key_ok full_rsa_public"
  using product_bounds [OF full_rsa_bounds(1) _ full_rsa_bounds(3,4)] full_rsa_bounds(4,5)
  by (simp add: rsa_public_key_ok_def full_rsa_public_def) (simp add: fits_def)

end
