(* ===== verification/KeyExchange.thy ===== *)
theory KeyExchange
  imports KeyCeremonyCoordinator KeyCeremonyTrustee KeyExample
begin

text \<open>
  What the trustees and the coordinator of a key ceremony achieve together: the key a trustee makes is
  the one the coordinator stores, and the shares made from it are accepted.
\<close>

section \<open>Copies of keys\<close>

text \<open>Two keys that agree up to their thresholds.\<close>

definition same_key :: "public_key \<Rightarrow> public_key \<Rightarrow> bool" where
  "same_key k k' \<longleftrightarrow> pub_threshold k = pub_threshold k' \<and>
     proof_threshold (pub_proof k) = proof_threshold (pub_proof k') \<and>
     challenge (pub_proof k) = challenge (pub_proof k') \<and>
     (\<forall>i < unat (pub_threshold k). coef_commitments k ! i = coef_commitments k' ! i) \<and>
     (\<forall>i < unat (proof_threshold (pub_proof k)).
        commitments (pub_proof k) ! i = commitments (pub_proof k') ! i \<and>
        challenge_responses (pub_proof k) ! i = challenge_responses (pub_proof k') ! i)"

lemma same_key_trans: "same_key a b \<Longrightarrow> same_key b c \<Longrightarrow> same_key a c"
  by (simp add: same_key_def)

lemma fits_threshold_shape:
  "fits_threshold t k \<Longrightarrow> unat t \<le> MAX_TRUSTEES \<Longrightarrow>
     unat (pub_threshold k) \<le> MAX_TRUSTEES \<and> unat (proof_threshold (pub_proof k)) \<le> MAX_TRUSTEES"
  by (auto simp: fits_threshold_def word_le_nat_alt)

lemma copy_same_key:
  assumes "public_key_shape dst" "public_key_shape src" "fits_threshold t src" "unat t \<le> MAX_TRUSTEES"
  shows "\<exists>k. Crypto_public_key_copy dst src = Some k \<and> public_key_shape k \<and> same_key k src"
  using assms fits_threshold_shape [OF assms(3,4)]
  by (simp add: Crypto_public_key_copy_def Crypto_schnorr_proof_copy_def mpz_set_n_ok public_key_shape_def
      schnorr_proof_shape_def same_key_def nth_append)

lemma merge_same_key:
  assumes "public_key_shape old" "public_key_ok G k"
  shows "public_key_shape (merge_public_key old k) \<and> same_key (merge_public_key old k) k"
  using assms
  by (auto simp: merge_public_key_def merge_schnorr_proof_def merge_array_def public_key_ok_def
      schnorr_proof_ok_def array_ok_def public_key_shape_def schnorr_proof_shape_def same_key_def nth_append)

lemma check_same_key:
  assumes "public_key_shape k" "public_key_shape k'" "same_key k k'" "unat (proof_threshold (pub_proof k)) \<le> unat (pub_threshold k)"
    "unat (pub_threshold k) \<le> MAX_TRUSTEES"
  shows "Crypto_check_keypair_proof E G k h = Crypto_check_keypair_proof E G k' h"
proof -
  have "loop (unat (proof_threshold (pub_proof k))) (check_keypair_step E G k) True
      = loop (unat (proof_threshold (pub_proof k))) (check_keypair_step E G k') True"
    using assms
    by (intro loop_cong) (simp add: check_keypair_step_def public_key_shape_def schnorr_proof_shape_def same_key_def)
  then show ?thesis using assms(3) by (simp add: Crypto_check_keypair_proof_def same_key_def)
qed

lemma matches_same_key:
  "key_matches E G priv k \<Longrightarrow> same_key k' k \<Longrightarrow> public_key_shape k' \<Longrightarrow> key_matches E G priv k'"
  by (simp add: key_matches_def same_key_def public_key_shape_def)

text \<open>A private key that has the threshold and the coefficients of another.\<close>

definition same_private :: "private_key \<Rightarrow> private_key \<Rightarrow> bool" where
  "same_private k k' \<longleftrightarrow> priv_threshold k = priv_threshold k' \<and>
     (\<forall>j < unat (priv_threshold k'). coefficients k ! j = coefficients k' ! j)"

lemma matches_copy_private:
  assumes "key_matches E G src pub" "private_key_shape dst"
  shows "\<exists>priv. Crypto_private_key_copy dst src = Some priv \<and> key_matches E G priv pub \<and> private_key_shape priv \<and>
    same_private priv src"
proof -
  have "Crypto_private_key_copy dst src = Some (dst\<lparr>priv_threshold := priv_threshold src,
     coefficients := take (unat (priv_threshold src)) (coefficients src)
       @ drop (unat (priv_threshold src)) (coefficients dst)\<rparr>)"
    using assms by (intro Crypto_private_key_copy_ok) (simp_all add: key_matches_def private_key_shape_def)
  then show ?thesis
    using assms by (simp add: key_matches_def private_key_shape_def same_private_def nth_append)
qed

lemma ok_same_key:
  assumes "same_key k' k" "public_key_shape k'" "public_key_ok G k"
  shows "public_key_ok G k'"
proof -
  note s = assms(1) [unfolded same_key_def] and ok = assms(3) [unfolded public_key_ok_def schnorr_proof_ok_def array_ok_def]
  have t: "take n xs = take n ys" if "n \<le> length xs" "n \<le> length ys" "\<forall>i<n. xs ! i = ys ! i" for n and xs ys :: "int list"
    using that by (intro nth_take_lemma) auto
  have "take (unat (pub_threshold k)) (coef_commitments k') = take (unat (pub_threshold k)) (coef_commitments k)"
    "take (unat (proof_threshold (pub_proof k))) (commitments (pub_proof k')) =
     take (unat (proof_threshold (pub_proof k))) (commitments (pub_proof k))"
    "take (unat (proof_threshold (pub_proof k))) (challenge_responses (pub_proof k')) =
     take (unat (proof_threshold (pub_proof k))) (challenge_responses (pub_proof k))"
    using s ok assms(2) by (intro t; simp add: public_key_shape_def schnorr_proof_shape_def)+
  then show ?thesis
    using s ok assms(2)
    by (simp add: public_key_ok_def schnorr_proof_ok_def array_ok_def public_key_shape_def schnorr_proof_shape_def)
qed

section \<open>A trustee and its key\<close>

definition trustee_ok :: "KeyCeremony_Trustee \<Rightarrow> bool" where
  "trustee_ok t \<longleftrightarrow> valid_params (kt_num_trustees t) (kt_threshold t) \<and>
     unat (kt_index t) < unat (kt_num_trustees t) \<and> private_key_shape (kt_private_key t) \<and>
     length (kt_public_keys t) = MAX_TRUSTEES \<and> list_all public_key_shape (kt_public_keys t) \<and>
     length (kt_rsa_public_keys t) = MAX_TRUSTEES \<and> length (kt_my_key_shares t) = MAX_TRUSTEES"

lemma trustee_okD:
  assumes "trustee_ok t"
  shows "unat (kt_num_trustees t) \<le> MAX_TRUSTEES" "unat (kt_threshold t) \<le> MAX_TRUSTEES"
    "unat (kt_index t) < MAX_TRUSTEES" "kt_threshold t \<le> kt_num_trustees t"
  using assms by (auto simp: trustee_ok_def valid_params_def word_le_nat_alt)

text \<open>The record a successful key generation leaves and sends.\<close>

lemma generate_key_eq:
  assumes E: "platform E" and G: "group_ok G" and t: "trustee_ok t"
    and gen: "Crypto_gen_keypair E G dev (kt_threshold t) h = Some kp" "keypair_status kp = CRYPTO_SUCCESS"
    and rsa: "generate_keys E dev_rsa = Some (rsa_priv, rsa_pub)"
  defines "i \<equiv> unat (kt_index t)"
  shows "\<exists>k priv pub t' rep. t' = t\<lparr>kt_rsa_private_key := rsa_priv, kt_rsa_public_key := rsa_pub,
        kt_private_key := priv, kt_public_keys := (kt_public_keys t)[i := pub]\<rparr> \<and>
    rep = \<lparr>kg_trustee_index = kt_index t, kg_public_key = k, kg_rsa_public_key = rsa_pub\<rparr> \<and>
    KeyCeremony_Trustee_generate_key E G dev dev_rsa h t =
      do { out \<leftarrow> send E (Serialize_reserve_key_generated rep) (Serialize_write_key_generated E rep);
           Some (if out = None then KEYCEREMONY_TRUSTEE_SERIALIZE_ERROR else KEYCEREMONY_TRUSTEE_SUCCESS, out, t') } \<and>
    trustee_ok t' \<and> public_key_shape k \<and> public_key_shape pub \<and> same_key k pub \<and> same_key k (keypair_public kp) \<and>
    pub_threshold k = kt_threshold t \<and> proof_threshold (pub_proof k) = kt_threshold t \<and>
    key_matches E G priv k \<and> same_private priv (keypair_private kp) \<and>
    (\<forall>h. Crypto_check_keypair_proof E G k h = Some True)"
proof -
  note b = trustee_okD [OF t, folded i_def]
  note kp = platform.gen_keypair_proof [OF E G gen]
  then have valid: "\<And>h. Crypto_check_keypair_proof E G (keypair_public kp) h = Some True" by blast
  have km: "key_matches E G (keypair_private kp) (keypair_public kp)" using kp by blast
  obtain priv where priv: "Crypto_private_key_copy (kt_private_key t) (keypair_private kp) = Some priv"
    "key_matches E G priv (keypair_public kp)" "private_key_shape priv" "same_private priv (keypair_private kp)"
    using matches_copy_private [OF km] t by (auto simp: trustee_ok_def)
  have ft: "fits_threshold (kt_threshold t) (keypair_public kp)"
    using kp km by (auto simp: fits_threshold_def key_matches_def)
  have l: "i < length (kt_public_keys t)" "i < unat (kt_num_trustees t)" "length (kt_public_keys t) = MAX_TRUSTEES"
    using t b by (simp_all add: trustee_ok_def i_def)
  then have sh: "public_key_shape (kt_public_keys t ! i)"
    using t by (simp add: trustee_ok_def list_all_length)
  obtain pub where pub: "Crypto_public_key_copy (kt_public_keys t ! i) (keypair_public kp) = Some pub"
    "public_key_shape pub" "same_key pub (keypair_public kp)"
    using copy_same_key [OF sh _ ft b(2)] kp by blast
  have ft': "fits_threshold (kt_threshold t) pub" using ft pub(3) by (simp add: fits_threshold_def same_key_def)
  obtain k0 where k0: "Crypto_public_key_new (blank_public_key\<lparr>pub_threshold := kt_threshold t\<rparr>) (unat (kt_threshold t)) = Some k0"
    "public_key_shape k0"
    using public_key_new_shape [of "blank_public_key\<lparr>pub_threshold := kt_threshold t\<rparr>"] b(2) blank_shapes
    by (auto simp: public_key_shape_def)
  obtain k where k: "Crypto_public_key_copy k0 pub = Some k" "public_key_shape k" "same_key k pub"
    using copy_same_key [OF k0(2) pub(2) ft' b(2)] by blast
  note ks = same_key_trans [OF k(3) pub(3)]
  let ?t = "t\<lparr>kt_rsa_private_key := rsa_priv, kt_rsa_public_key := rsa_pub, kt_private_key := priv,
                 kt_public_keys := (kt_public_keys t)[i := pub]\<rparr>"
  let ?rep = "\<lparr>kg_trustee_index = kt_index t, kg_public_key = k, kg_rsa_public_key = rsa_pub\<rparr>"
  have rc: "Crypto_rsa_public_key_copy Crypto_rsa_public_key_new x = x" for x
    by (simp add: Crypto_rsa_public_key_copy_def Crypto_rsa_public_key_new_def)
  have "KeyCeremony_Trustee_generate_key E G dev dev_rsa h t =
      do { out \<leftarrow> send E (Serialize_reserve_key_generated ?rep) (Serialize_write_key_generated E ?rep);
           Some (if out = None then KEYCEREMONY_TRUSTEE_SERIALIZE_ERROR else KEYCEREMONY_TRUSTEE_SUCCESS, out, ?t) }"
    using l by (simp add: KeyCeremony_Trustee_generate_key_def gen valid rsa priv(1) pub(1) k0(1) k(1) rc Let_def
        flip: i_def)
  moreover have "trustee_ok ?t"
    using t priv(3) pub(2) by (simp add: trustee_ok_def list_all_update)
  moreover have "Crypto_check_keypair_proof E G k h = Some True" for h
    using check_same_key [OF k(2) _ ks, of E G h] kp valid km ks by (auto simp: same_key_def key_matches_def)
  moreover have "key_matches E G priv k" using priv(2) ks k(2) by (rule matches_same_key)
  moreover have "pub_threshold k = kt_threshold t" "proof_threshold (pub_proof k) = kt_threshold t"
    using kp km ks by (auto simp: same_key_def key_matches_def)
  ultimately show ?thesis
    using k(2,3) pub(2) ks priv(4)
    by (intro exI [of _ k] exI [of _ priv] exI [of _ pub] exI [of _ ?t] exI [of _ ?rep] conjI refl) simp_all
qed

lemma generate_key_result:
  assumes E: "platform E" and G: "group_ok G" and t: "trustee_ok t"
    and g: "KeyCeremony_Trustee_generate_key E G dev dev_rsa h t = Some (r, out, t')"
  defines "i \<equiv> unat (kt_index t)"
  shows "\<exists>k rsa_priv. trustee_ok t' \<and> kt_index t' = kt_index t \<and> kt_num_trustees t' = kt_num_trustees t \<and>
    kt_threshold t' = kt_threshold t \<and> public_key_shape k \<and> same_key k (kt_public_keys t' ! i) \<and>
    public_key_shape (kt_public_keys t' ! i) \<and> pub_threshold k = kt_threshold t \<and>
    proof_threshold (pub_proof k) = kt_threshold t \<and>
    key_matches E G (kt_private_key t') k \<and> (\<forall>h. Crypto_check_keypair_proof E G k h = Some True) \<and>
    generate_keys E dev_rsa = Some (rsa_priv, kt_rsa_public_key t') \<and>
    (let rep = \<lparr>kg_trustee_index = kt_index t, kg_public_key = k, kg_rsa_public_key = kt_rsa_public_key t'\<rparr>
     in send E (Serialize_reserve_key_generated rep) (Serialize_write_key_generated E rep) = Some out) \<and>
    r = (if out = None then KEYCEREMONY_TRUSTEE_SERIALIZE_ERROR else KEYCEREMONY_TRUSTEE_SUCCESS)"
proof -
  obtain kp where gen: "Crypto_gen_keypair E G dev (kt_threshold t) h = Some kp" "keypair_status kp = CRYPTO_SUCCESS"
    using g by (auto simp: KeyCeremony_Trustee_generate_key_def bind_eq_Some_conv Let_def split: if_splits)
  then have "\<And>h. Crypto_check_keypair_proof E G (keypair_public kp) h = Some True"
    using platform.gen_keypair_proof [OF E G gen] by blast
  with g gen obtain rsa_priv rsa_pub where rsa: "generate_keys E dev_rsa = Some (rsa_priv, rsa_pub)"
    by (auto simp: KeyCeremony_Trustee_generate_key_def bind_eq_Some_conv Let_def)
  have l: "i < length (kt_public_keys t)" using t trustee_okD(3) [OF t] by (simp add: trustee_ok_def i_def)
  obtain k priv pub t1 rep where k: "t1 = t\<lparr>kt_rsa_private_key := rsa_priv, kt_rsa_public_key := rsa_pub,
        kt_private_key := priv, kt_public_keys := (kt_public_keys t)[i := pub]\<rparr>"
      "rep = \<lparr>kg_trustee_index = kt_index t, kg_public_key = k, kg_rsa_public_key = rsa_pub\<rparr>"
      "KeyCeremony_Trustee_generate_key E G dev dev_rsa h t =
      do { out \<leftarrow> send E (Serialize_reserve_key_generated rep) (Serialize_write_key_generated E rep);
           Some (if out = None then KEYCEREMONY_TRUSTEE_SERIALIZE_ERROR else KEYCEREMONY_TRUSTEE_SUCCESS, out, t1) }"
      "trustee_ok t1" "public_key_shape k" "public_key_shape pub" "same_key k pub"
      "pub_threshold k = kt_threshold t" "proof_threshold (pub_proof k) = kt_threshold t"
      "key_matches E G priv k" "\<forall>h. Crypto_check_keypair_proof E G k h = Some True"
    using generate_key_eq [OF E G t gen rsa, folded i_def] by blast
  have "t' = t1" "r = (if out = None then KEYCEREMONY_TRUSTEE_SERIALIZE_ERROR else KEYCEREMONY_TRUSTEE_SUCCESS)"
    "send E (Serialize_reserve_key_generated rep) (Serialize_write_key_generated E rep) = Some out"
    using g by (auto simp: k(3) bind_eq_Some_conv)
  then show ?thesis
    using k(1,2,4-11) l rsa by (intro exI [of _ k] exI [of _ rsa_priv]) (simp add: Let_def)
qed

text \<open>The coordinator accepts a well-formed message of a trustee it has not heard, and stores the keys.\<close>

lemma receive_key_accepts:
  assumes E: "platform_mem E" and c: "coordinator_ok c"
    and i: "unat (kg_trustee_index x) < unat (kc_num_trustees c)" "unat (kg_trustee_index x) \<notin> heard_by c"
    and x: "key_generated_ok G x" "fits_threshold (kc_threshold c) (kg_public_key x)"
      "proof_threshold (pub_proof (kg_public_key x)) = pub_threshold (kg_public_key x)"
      "public_key_shape (kg_public_key x)"
    and valid: "Crypto_check_keypair_proof E G (kg_public_key x) [] = Some True"
  defines "j \<equiv> unat (kg_trustee_index x)"
  shows "\<exists>c'. KeyCeremony_Coordinator_receive_key_generated E G (bytes_message (enc_key_generated x)) c
      = Some (KEYCEREMONY_COORDINATOR_SUCCESS, c') \<and>
    same_key (kc_public_keys c' ! j) (kg_public_key x) \<and> public_key_shape (kc_public_keys c' ! j) \<and>
    kc_rsa_public_keys c' ! j = kg_rsa_public_key x \<and> heard_by c' = insert j (heard_by c) \<and>
    (\<forall>i. i \<noteq> j \<longrightarrow> kc_public_keys c' ! i = kc_public_keys c ! i \<and> kc_rsa_public_keys c' ! i = kc_rsa_public_keys c ! i)"
proof -
  note b = coordinator_okD [OF c]
  obtain k0 where k0: "Crypto_public_key_new (blank_public_key\<lparr>pub_threshold := kc_threshold c\<rparr>) (unat (kc_threshold c)) = Some k0"
    "public_key_shape k0"
    using public_key_new_shape [of "blank_public_key\<lparr>pub_threshold := kc_threshold c\<rparr>"] b(3) blank_shapes
    by (auto simp: public_key_shape_def)
  let ?old = "\<lparr>kg_trustee_index = 0, kg_public_key = k0, kg_rsa_public_key = Crypto_rsa_public_key_new\<rparr>"
  let ?m = "merge_key_generated ?old x" and ?msg = "bytes_message (enc_key_generated x)"
  have rd: "Serialize_read_key_generated E G ?old (message_reading ?msg)
      = Some (?m, message_reading ?msg\<lparr>ss_offset := length (enc_key_generated x)\<rparr>)"
    using k0(2) by (intro key_generated_codec.parse [OF E x(1)]) (simp add: key_generated_shape_def)
  let ?k = "kg_public_key ?m"
  have k: "public_key_shape ?k" "same_key ?k (kg_public_key x)"
    using merge_same_key [OF k0(2)] x(1) by (auto simp: merge_key_generated_def key_generated_ok_def)
  have sel: "kg_trustee_index ?m = kg_trustee_index x" "kg_rsa_public_key ?m = kg_rsa_public_key x"
    by (simp_all add: merge_key_generated_def)
  have ft: "fits_threshold (kc_threshold c) ?k"
    using k(2) x(2) by (simp add: fits_threshold_def same_key_def)
  have v: "Crypto_check_keypair_proof E G ?k [] = Some True"
    using check_same_key [OF k(1) x(4) k(2), of E G "[]"] valid k(2) x(3)
      fits_threshold_shape [OF ft b(3)] by (simp add: same_key_def)
  have l: "length (kc_seen c) = MAX_TRUSTEES" "length (kc_public_keys c) = MAX_TRUSTEES"
    "length (kc_rsa_public_keys c) = MAX_TRUSTEES" "j < MAX_TRUSTEES"
    using c b(1) i(1) by (simp_all add: coordinator_ok_def j_def)
  then have sh: "public_key_shape (kc_public_keys c ! j)" using c by (simp add: coordinator_ok_def list_all_length)
  obtain k2 where k2: "Crypto_public_key_copy (kc_public_keys c ! j) ?k = Some k2" "public_key_shape k2" "same_key k2 ?k"
    using copy_same_key [OF sh k(1) ft b(3)] by blast
  let ?c = "c\<lparr>kc_seen := (kc_seen c)[j := True], kc_public_keys := (kc_public_keys c)[j := k2],
              kc_rsa_public_keys := (kc_rsa_public_keys c)[j := kg_rsa_public_key x]\<rparr>"
  have rc: "Crypto_rsa_public_key_copy y z = z" for y z :: rsa_public_key
    by (simp add: Crypto_rsa_public_key_copy_def)
  have st: "ss_status (message_reading ?msg\<lparr>ss_offset := length (enc_key_generated x)\<rparr>) = SERIALIZE_STATE_READING"
    by (simp add: message_reading_def)
  have r: "KeyCeremony_Coordinator_receive_key_generated E G ?msg c = Some (KEYCEREMONY_COORDINATOR_SUCCESS, ?c)"
    using i l k2(1)
    by (simp add: KeyCeremony_Coordinator_receive_key_generated_def k0(1) rd ft st sel v assert_index_unseen_eq [OF c]
        Let_def rc flip: j_def)
  have "heard_by ?c = insert j (heard_by c)"
    using i l b(1) by (auto simp: heard_by_def j_def nth_list_update split: if_splits)
  with r show ?thesis using l k2(2) same_key_trans [OF k2(3) k(2)] by auto
qed

text \<open>C15: The key message a trustee makes is accepted by a coordinator that runs the same ceremony and has
  not heard the trustee (when every number has the full width of its field, as with overwhelming
  probability). The key that is stored belongs to the trustee's private key.\<close>

theorem generated_key_accepted:
  assumes "platform_mem E" "group_ok G" "trustee_ok t" "coordinator_ok c"
    and "kt_num_trustees t = kc_num_trustees c" "kt_threshold t = kc_threshold c"
    and "unat (kt_index t) \<notin> heard_by c"
    and "KeyCeremony_Trustee_generate_key E G dev dev_rsa h t = Some (r, out, t')"
    and "public_key_ok G (kt_public_keys t' ! unat (kt_index t))" "rsa_public_key_ok (kt_rsa_public_key t')"
  shows "\<exists>m c'. r = KEYCEREMONY_TRUSTEE_SUCCESS \<and> out = Some m \<and>
    KeyCeremony_Coordinator_receive_key_generated E G m c = Some (KEYCEREMONY_COORDINATOR_SUCCESS, c') \<and>
    heard_by c' = insert (unat (kt_index t)) (heard_by c) \<and>
    key_matches E G (kt_private_key t') (kc_public_keys c' ! unat (kt_index t)) \<and>
    kc_rsa_public_keys c' ! unat (kt_index t) = kt_rsa_public_key t'"
proof -
  note E = platform_mem.axioms(1) [OF assms(1)]
  obtain k rsa_priv where k: "public_key_shape k" "same_key k (kt_public_keys t' ! unat (kt_index t))"
    "pub_threshold k = kt_threshold t" "proof_threshold (pub_proof k) = kt_threshold t"
    "key_matches E G (kt_private_key t') k" "\<forall>h. Crypto_check_keypair_proof E G k h = Some True"
    and snd: "send E (Serialize_reserve_key_generated \<lparr>kg_trustee_index = kt_index t, kg_public_key = k, kg_rsa_public_key = kt_rsa_public_key t'\<rparr>)
      (Serialize_write_key_generated E \<lparr>kg_trustee_index = kt_index t, kg_public_key = k, kg_rsa_public_key = kt_rsa_public_key t'\<rparr>) = Some out"
    and r: "r = (if out = None then KEYCEREMONY_TRUSTEE_SERIALIZE_ERROR else KEYCEREMONY_TRUSTEE_SUCCESS)"
    using generate_key_result [OF E assms(2,3,8)] by (auto simp: Let_def)
  let ?x = "\<lparr>kg_trustee_index = kt_index t, kg_public_key = k, kg_rsa_public_key = kt_rsa_public_key t'\<rparr>"
  have ok: "key_generated_ok G ?x"
    using ok_same_key [OF k(2,1) assms(9)] assms(10) by (simp add: key_generated_ok_def)
  then have out: "out = Some (bytes_message (enc_key_generated ?x))"
    using key_generated_codec.send_ok [OF assms(1) ok] snd by simp
  have i: "unat (kt_index t) < unat (kc_num_trustees c)" using assms(3,5) by (simp add: trustee_ok_def)
  show ?thesis
    using receive_key_accepts [OF assms(1,4), of ?x G] i assms(6,7) ok k r out
    by (auto simp: fits_threshold_def intro: matches_same_key)
qed

definition full_trustee :: KeyCeremony_Trustee where
  "full_trustee =
     \<lparr>kt_num_trustees = 1, kt_threshold = 1, kt_index = 0,
      kt_private_key = \<lparr>priv_threshold = 1, coefficients = blank_array\<rparr>,
      kt_public_keys = replicate MAX_TRUSTEES (blank_public_key\<lparr>pub_threshold := 1\<rparr>),
      kt_rsa_public_keys = replicate MAX_TRUSTEES Crypto_rsa_public_key_new,
      kt_rsa_private_key = Crypto_rsa_private_key_new,
      kt_rsa_public_key = Crypto_rsa_public_key_new, kt_my_key_shares = blank_array\<rparr>"

definition full_coordinator :: KeyCeremony_Coordinator where
  "full_coordinator =
     \<lparr>kc_num_trustees = 1, kc_threshold = 1, kc_seen = replicate MAX_TRUSTEES False,
      kc_public_keys = replicate MAX_TRUSTEES blank_public_key, kc_shares = replicate MAX_TRUSTEES blank_array,
      kc_rsa_public_keys = replicate MAX_TRUSTEES Crypto_rsa_public_key_new\<rparr>"

lemma full_copies:
  "Crypto_public_key_copy (blank_public_key\<lparr>pub_threshold := 1\<rparr>) full_public = Some full_public"
  "Crypto_private_key_copy \<lparr>priv_threshold = 1, coefficients = blank_array\<rparr> full_private = Some full_private"
  by (simp_all add: Crypto_public_key_copy_def Crypto_schnorr_proof_copy_def mpz_set_n_ok full_public_def
      Crypto_private_key_copy_def full_private_def blank_public_key_def blank_proof_def blank_array_def
      MAX_TRUSTEES_def eval_nat_numeral)

lemma full_key_new:
  "Crypto_public_key_new (blank_public_key\<lparr>pub_threshold := 1\<rparr>) 1 = Some (blank_public_key\<lparr>pub_threshold := 1\<rparr>)"
  by (simp add: blank_public_key_def blank_proof_def Crypto_public_key_new_def
      Crypto_schnorr_proof_new_def mpz_init_n_blank MAX_TRUSTEES_def)

lemma full_generate_key:
  "\<exists>r out t'. KeyCeremony_Trustee_generate_key sample_env full_group (Some example_device) (Some full_rsa_device) []
       full_trustee = Some (r, out, t') \<and>
     kt_public_keys t' ! 0 = full_public \<and> kt_rsa_public_key t' = full_rsa_public"
proof -
  obtain rsa where rsa: "generate_keys sample_env (Some full_rsa_device) = Some (rsa, full_rsa_public)"
    using full_rsa_keys by blast
  have v: "Crypto_check_keypair_proof sample_env full_group full_public [] = Some True"
    using sample.gen_keypair_proof [OF full_group_ok full_keypair] by simp
  let ?x = "\<lparr>kg_trustee_index = 0, kg_public_key = full_public, kg_rsa_public_key = full_rsa_public\<rparr>"
  have ok: "key_generated_ok full_group ?x"
    using full_public_ok full_rsa_public_ok by (simp add: key_generated_ok_def)
  have rc: "Crypto_rsa_public_key_copy x y = y" for x y :: rsa_public_key
    by (simp add: Crypto_rsa_public_key_copy_def)
  show ?thesis
    using key_generated_codec.send_ok [OF sample.platform_mem_axioms ok] full_copies full_key_new
    by (simp add: KeyCeremony_Trustee_generate_key_def full_trustee_def full_keypair v rsa rc MAX_TRUSTEES_def)
qed

theorem generated_key_accepted_witness:
  "\<exists>r m t' c'. KeyCeremony_Trustee_generate_key sample_env full_group (Some example_device) (Some full_rsa_device) []
       full_trustee = Some (r, Some m, t') \<and>
     KeyCeremony_Coordinator_receive_key_generated sample_env full_group m full_coordinator
       = Some (KEYCEREMONY_COORDINATOR_SUCCESS, c') \<and>
     heard_by c' = {0} \<and> kc_rsa_public_keys c' ! 0 = full_rsa_public"
proof -
  have sh: "public_key_shape (blank_public_key\<lparr>pub_threshold := 1\<rparr>)"
    using blank_shapes(2) by (simp add: public_key_shape_def)
  have t: "trustee_ok full_trustee"
    using sh by (simp add: trustee_ok_def full_trustee_def valid_params_def private_key_shape_def
        MAX_TRUSTEES_def list_all_iff blank_array_def)
  have c: "coordinator_ok full_coordinator"
    by (simp add: coordinator_ok_def full_coordinator_def valid_params_def MAX_TRUSTEES_def list_all_iff blank_array_def)
  have h: "heard_by full_coordinator = {}"
    by (auto simp: heard_by_def full_coordinator_def MAX_TRUSTEES_def)
  have i: "kt_index full_trustee = 0" "kt_num_trustees full_trustee = kc_num_trustees full_coordinator"
    "kt_threshold full_trustee = kc_threshold full_coordinator"
    by (simp_all add: full_trustee_def full_coordinator_def)
  obtain r out t' where g: "KeyCeremony_Trustee_generate_key sample_env full_group (Some example_device)
      (Some full_rsa_device) [] full_trustee = Some (r, out, t')"
    "kt_public_keys t' ! 0 = full_public" "kt_rsa_public_key t' = full_rsa_public"
    using full_generate_key by blast
  from generated_key_accepted [OF sample.platform_mem_axioms full_group_ok t c i(2,3) _ g(1)] h g full_public_ok
    full_rsa_public_ok
  show ?thesis by (auto simp: i(1))
qed

section \<open>Verifying the shares\<close>

text \<open>The shares meant for trustee \<open>j\<close>: the entries \<open>j\<close> of the rows.\<close>

definition share_valid :: "env \<Rightarrow> params \<Rightarrow> private_key list \<Rightarrow> encrypted_key_share list list \<Rightarrow> KeyCeremony_Trustee \<Rightarrow> nat \<Rightarrow> bool" where
  "share_valid E G privs shares t i \<longleftrightarrow>
     pow_mod_p E G (generator G) (RSA_Decrypt E (shares ! i ! unat (kt_index t)) (kt_rsa_private_key t)) =
     pow_mod_p E G (generator G)
       (polynomial_at (coefficients (privs ! i)) (unat (kt_threshold t)) (uint (kt_index t + 1)))"

definition keys_match :: "env \<Rightarrow> params \<Rightarrow> private_key list \<Rightarrow> KeyCeremony_Trustee \<Rightarrow> bool" where
  "keys_match E G privs t \<longleftrightarrow> (\<forall>i < unat (kt_num_trustees t).
     key_matches E G (privs ! i) (kt_public_keys t ! i) \<and> pub_threshold (kt_public_keys t ! i) = kt_threshold t)"

lemma verify_share_loop:
  assumes E: "platform E" and G: "group_ok G" and t: "trustee_ok t" and k: "keys_match E G privs t"
    and sh: "length shares = MAX_TRUSTEES" "\<forall>row \<in> set shares. length row = MAX_TRUSTEES"
    and n: "n \<le> unat (kt_num_trustees t)"
  shows "loop n (verify_share_step E G t shares) KEYCEREMONY_TRUSTEE_SUCCESS
    = Some (if \<forall>i<n. share_valid E G privs shares t i then KEYCEREMONY_TRUSTEE_SUCCESS
            else KEYCEREMONY_TRUSTEE_INVALID_KEY_SHARE)"
  using n
proof (induction n)
  case (Suc n)
  let ?j = "unat (kt_index t)" and ?x = "uint (kt_index t + 1)"
  have l: "n < length shares" "length (shares ! n) = MAX_TRUSTEES" "?j < unat (kt_num_trustees t)"
    "n < length (kt_public_keys t)" "unat (kt_num_trustees t) \<le> MAX_TRUSTEES"
    using Suc.prems sh t trustee_okD(1) [OF t] by (simp_all add: trustee_ok_def)
  have km: "key_matches E G (privs ! n) (kt_public_keys t ! n)" "pub_threshold (kt_public_keys t ! n) = kt_threshold t"
    using k Suc.prems by (simp_all add: keys_match_def)
  have "Crypto_check_validity_share_against_public_keys E G (shares ! n ! ?j) (kt_public_keys t ! n)
      (kt_rsa_private_key t) (kt_threshold t) (kt_index t) = Some (share_valid E G privs shares t n)"
    using platform.commitments_product [OF E G _ km(1) order_refl, of ?x] km(2)
    by (auto simp: Crypto_check_validity_share_against_public_keys_def share_valid_def)
  then have "verify_share_step E G t shares n KEYCEREMONY_TRUSTEE_SUCCESS
      = Some (if share_valid E G privs shares t n then KEYCEREMONY_TRUSTEE_SUCCESS
              else KEYCEREMONY_TRUSTEE_INVALID_KEY_SHARE)"
    using l by (simp add: verify_share_step_def)
  then show ?case
    using Suc by (auto simp: less_Suc_eq verify_share_step_def)
qed simp

lemma share_valid_cong:
  "shares ! i ! unat (kt_index t) = shares' ! i ! unat (kt_index t) \<Longrightarrow>
   share_valid E G privs shares t i = share_valid E G privs shares' t i"
  by (simp add: share_valid_def)

lemma verify_shares_eq:
  assumes "platform_mem E" "group_ok G" "trustee_ok t" "keys_match E G privs t"
    and "all_shares_received_ok G x" "asr_num_trustees x = kt_num_trustees t"
  defines "n \<equiv> unat (kt_num_trustees t)" and "j \<equiv> unat (kt_index t)"
  shows "KeyCeremony_Trustee_verify_shares E G (bytes_message (enc_all_shares_received x)) t
    = Some (if \<forall>i<n. share_valid E G privs (asr_shares x) t i
        then (KEYCEREMONY_TRUSTEE_SUCCESS,
              Some (bytes_message (enc_shares_verified \<lparr>sv_trustee_index = kt_index t, sv_verified = True\<rparr>)),
              t\<lparr>kt_my_key_shares := map (\<lambda>i. asr_shares x ! i ! j) [0..<n] @ drop n (kt_my_key_shares t)\<rparr>)
        else (KEYCEREMONY_TRUSTEE_INVALID_KEY_SHARE, None, t))"
proof -
  note E = platform_mem.axioms(1) [OF assms(1)]
  note b = trustee_okD [OF assms(3), folded n_def j_def]
  have j: "j < n" using assms(3) by (simp add: trustee_ok_def j_def n_def)
  have "for_array n (\<lambda>_ _. Some Crypto_encrypted_key_share_init) blank_array = Some blank_array"
    using for_array_ok [of n blank_array "\<lambda>_ _. Some 0" "\<lambda>_. 0"] b(1)
    by (simp add: Crypto_encrypted_key_share_init_def blank_array_def map_replicate_const flip: replicate_add)
  then have rows: "for_array n (\<lambda>_ row. for_array n (\<lambda>_ _. Some Crypto_encrypted_key_share_init) row)
      (replicate MAX_TRUSTEES blank_array) = Some (replicate MAX_TRUSTEES blank_array)"
    using for_array_ok [of n "replicate MAX_TRUSTEES blank_array"
        "\<lambda>_ row. for_array n (\<lambda>_ _. Some Crypto_encrypted_key_share_init) row" "\<lambda>_. blank_array"] b(1)
    by (simp add: map_replicate_const flip: replicate_add)
  let ?old = "\<lparr>asr_num_trustees = 0, asr_shares = replicate MAX_TRUSTEES blank_array\<rparr>"
  let ?m = "merge_all_shares_received ?old x"
  note ok = assms(5) [unfolded all_shares_received_ok_def, unfolded assms(6), folded n_def]
  obtain st where rd: "Serialize_read_all_shares_received E ?old
      (message_reading (bytes_message (enc_all_shares_received x))) = Some (?m, st)" "ss_status st = SERIALIZE_STATE_READING"
    using all_shares_received_codec.parse [OF assms(1,5), of ?old]
    by (simp add: all_shares_received_shape_def message_reading_def)
  have sel: "asr_num_trustees ?m = kt_num_trustees t"
    using assms(6) by (simp add: merge_all_shares_received_def Let_def)
  have m: "asr_shares ?m = map (merge_array n blank_array) (take n (asr_shares x)) @ replicate (MAX_TRUSTEES - n) blank_array"
    using b(1) ok
    by (auto simp: merge_all_shares_received_def Let_def assms(6) n_def [symmetric] map2_map_map min.absorb1
        intro!: nth_equalityI)
  have len: "length (asr_shares ?m) = MAX_TRUSTEES" using b(1) ok by (simp add: m min.absorb2)
  have rl: "\<forall>row \<in> set (asr_shares ?m). length row = MAX_TRUSTEES"
    using b(1) ok by (auto simp: m shares_ok_def)
  have row: "asr_shares ?m ! i ! j = asr_shares x ! i ! j" if "i < n" for i
  proof -
    have "asr_shares x ! i \<in> set (take n (asr_shares x))" using that b(1) ok by (intro nth_in_take) simp_all
    then have "length (asr_shares x ! i) = MAX_TRUSTEES" using ok by (auto simp: shares_ok_def)
    then show ?thesis using that b j ok by (simp add: m nth_append merge_array_def)
  qed
  have valid: "(\<forall>i<n. share_valid E G privs (asr_shares ?m) t i) \<longleftrightarrow> (\<forall>i<n. share_valid E G privs (asr_shares x) t i)"
    using row share_valid_cong [of "asr_shares ?m" _ t "asr_shares x"] by (simp add: j_def)
  note loop = verify_share_loop [OF E assms(2-4) len rl order_refl, folded n_def, unfolded valid]
  have fill: "for_array n (\<lambda>i old. do {
                   row \<leftarrow> arr_get (asr_shares ?m) i;
                   src \<leftarrow> arr_get row j;
                   Some (Crypto_encrypted_key_share_copy old src) }) (kt_my_key_shares t)
      = Some (map (\<lambda>i. asr_shares x ! i ! j) [0..<n] @ drop n (kt_my_key_shares t))"
    using b len rl row assms(3)
    by (intro for_array_ok) (simp_all add: trustee_ok_def Crypto_encrypted_key_share_copy_def)
  note snd = shares_verified_codec.send_ok [OF assms(1) TrueI, of "\<lparr>sv_trustee_index = kt_index t, sv_verified = True\<rparr>"]
  show ?thesis
    using loop fill snd
    by (simp add: KeyCeremony_Trustee_verify_shares_def rows rd sel Let_def flip: n_def j_def)
qed

text \<open>C13: A trustee that holds the commitments of all trustees answers to the message with all shares as
  it should on both branches: when every share meant for it decrypts to the value of its sender's
  polynomial (as an exponent of the generator) it keeps the shares and reports success; when one of
  them does not it reports an invalid share, sends nothing and keeps its state.\<close>

theorem verify_shares_correct:
  assumes "platform_mem E" "group_ok G" "trustee_ok t" "keys_match E G privs t"
    and "all_shares_received_ok G x" "asr_num_trustees x = kt_num_trustees t"
  defines "n \<equiv> unat (kt_num_trustees t)" and "j \<equiv> unat (kt_index t)"
  shows "KeyCeremony_Trustee_verify_shares E G (bytes_message (enc_all_shares_received x)) t
    = Some (if \<forall>i<n. share_valid E G privs (asr_shares x) t i
        then (KEYCEREMONY_TRUSTEE_SUCCESS,
              Some (bytes_message (enc_shares_verified \<lparr>sv_trustee_index = kt_index t, sv_verified = True\<rparr>)),
              t\<lparr>kt_my_key_shares := map (\<lambda>i. asr_shares x ! i ! j) [0..<n] @ drop n (kt_my_key_shares t)\<rparr>)
        else (KEYCEREMONY_TRUSTEE_INVALID_KEY_SHARE, None, t))"
  unfolding n_def j_def using assms(1-6) by (rule verify_shares_eq)

definition example_share :: int where
  "example_share = 2 ^ 750"

definition example_private_key :: private_key where
  "example_private_key = \<lparr>priv_threshold = 1, coefficients = [example_share, 0, 0, 0, 0]\<rparr>"

definition example_trustee :: KeyCeremony_Trustee where
  "example_trustee =
     \<lparr>kt_num_trustees = 1, kt_threshold = 1, kt_index = 0, kt_private_key = example_private_key,
      kt_public_keys = replicate MAX_TRUSTEES (blank_public_key
        \<lparr>pub_threshold := 1, coef_commitments := replicate MAX_TRUSTEES (pow_mod_p ref_env small_group 2 example_share)\<rparr>),
      kt_rsa_public_keys = replicate MAX_TRUSTEES Crypto_rsa_public_key_new,
      kt_rsa_private_key = \<lparr>rsa_n = 2 * example_share, rsa_e = 1, rsa_d = 1, rsa_p = 0, rsa_q = 0\<rparr>,
      kt_rsa_public_key = Crypto_rsa_public_key_new, kt_my_key_shares = blank_array\<rparr>"

definition example_shares :: all_shares_received_rep where
  "example_shares = \<lparr>asr_num_trustees = 1, asr_shares = replicate MAX_TRUSTEES (replicate MAX_TRUSTEES example_share)\<rparr>"

theorem verify_shares_correct_witness:
  "KeyCeremony_Trustee_verify_shares ref_env small_group (bytes_message (enc_all_shares_received example_shares)) example_trustee
    = Some (KEYCEREMONY_TRUSTEE_SUCCESS,
            Some (bytes_message (enc_shares_verified \<lparr>sv_trustee_index = 0, sv_verified = True\<rparr>)),
            example_trustee\<lparr>kt_my_key_shares := example_share # drop 1 blank_array\<rparr>)"
proof -
  have pos: "0 < example_share" by (simp add: example_share_def)
  have f: "fits 12 example_share" unfolding fits_def example_share_def
    by (intro conjI power_increasing power_strict_increasing; simp)+
  have sh: "public_key_shape (blank_public_key\<lparr>pub_threshold := 1, coef_commitments := replicate MAX_TRUSTEES x\<rparr>)" for x
    using blank_shapes(2) by (simp add: public_key_shape_def)
  have ex: "kt_num_trustees example_trustee = 1" "kt_threshold example_trustee = 1" "kt_index example_trustee = 0"
    "kt_my_key_shares example_trustee = blank_array" "asr_shares example_shares ! 0 ! 0 = example_share"
    by (simp_all add: example_trustee_def example_shares_def MAX_TRUSTEES_def)
  have t: "trustee_ok example_trustee"
    using sh by (simp add: trustee_ok_def example_trustee_def valid_params_def private_key_shape_def
        example_private_key_def MAX_TRUSTEES_def list_all_iff)
  have k: "keys_match ref_env small_group [example_private_key] example_trustee"
    using pos by (simp add: keys_match_def key_matches_def example_trustee_def example_private_key_def MAX_TRUSTEES_def)
  have x: "all_shares_received_ok small_group example_shares"
    using f by (simp add: all_shares_received_ok_def shares_ok_def example_shares_def MAX_TRUSTEES_def)
  have "RSA_Decrypt ref_env example_share (kt_rsa_private_key example_trustee) = example_share"
    using pos ref.mpz_powm_pos [of 1 "2 * example_share" example_share]
    by (simp add: RSA_Decrypt_def example_trustee_def)
  then have v: "share_valid ref_env small_group [example_private_key] (asr_shares example_shares) example_trustee 0"
    by (simp add: share_valid_def ex polynomial_at_def example_private_key_def)
  show ?thesis
    using verify_shares_correct [OF ref.platform_mem_axioms small_group_ok t k x] v
    by (simp add: ex) (simp add: example_shares_def)
qed

end
