(* ===== verification/KeyCeremonyClaims.thy ===== *)
theory KeyCeremonyClaims
  imports KeyExchange
begin

text \<open>
  The key ceremony as a state machine, and its properties. A history lists the operations of the
  coordinator with the statuses they returned; the abstract machine only knows who was heard since
  everyone was last needed.
\<close>

section \<open>Histories of the coordinator\<close>

datatype kc_event =
    Key_generated message | All_keys_received
  | Shares_generated message | All_shares_received
  | Shares_verified message | Publish_joint_key

definition kc_step ::
    "env \<Rightarrow> params \<Rightarrow> kc_event \<Rightarrow> KeyCeremony_Coordinator \<Rightarrow>
     (KeyCeremony_Coordinator_status \<times> message option \<times> KeyCeremony_Coordinator) option" where
  "kc_step E G e c =
     (case e of
        Key_generated m \<Rightarrow> do { (r, c) \<leftarrow> KeyCeremony_Coordinator_receive_key_generated E G m c; Some (r, None, c) }
      | All_keys_received \<Rightarrow> KeyCeremony_Coordinator_all_keys_received E c
      | Shares_generated m \<Rightarrow> do { (r, c) \<leftarrow> KeyCeremony_Coordinator_receive_shares_generated E m c; Some (r, None, c) }
      | All_shares_received \<Rightarrow> KeyCeremony_Coordinator_all_shares_received E c
      | Shares_verified m \<Rightarrow> do { (r, c) \<leftarrow> KeyCeremony_Coordinator_receive_shares_verified m c; Some (r, None, c) }
      | Publish_joint_key \<Rightarrow> do { (r, out) \<leftarrow> KeyCeremony_Coordinator_publish_joint_key E G c; Some (r, out, c) })"

inductive kc_reaches ::
    "env \<Rightarrow> params \<Rightarrow> u32 \<Rightarrow> u32 \<Rightarrow> (kc_event \<times> KeyCeremony_Coordinator_status) list \<Rightarrow>
     KeyCeremony_Coordinator \<Rightarrow> bool" for E G n t where
  created: "KeyCeremony_Coordinator_new E n t = Some (r, Some c) \<Longrightarrow> kc_reaches E G n t [] c"
| stepped: "kc_reaches E G n t h c \<Longrightarrow> kc_step E G e c = Some (r, out, c') \<Longrightarrow>
    kc_reaches E G n t (h @ [(e, r)]) c'"

inductive_cases kc_reaches_NilE: "kc_reaches E G n t [] c"

text \<open>
  How many trustees were marked since the last operation that needed them all. A verdict is counted
  whether it is positive or not.
\<close>

definition marks :: "kc_event \<times> KeyCeremony_Coordinator_status \<Rightarrow> bool" where
  "marks x \<longleftrightarrow> (case x of
      (Key_generated _, r) \<Rightarrow> r = KEYCEREMONY_COORDINATOR_SUCCESS
    | (Shares_generated _, r) \<Rightarrow> r = KEYCEREMONY_COORDINATOR_SUCCESS
    | (Shares_verified _, r) \<Rightarrow> r \<in> {KEYCEREMONY_COORDINATOR_SUCCESS, KEYCEREMONY_COORDINATOR_TRUSTEE_INVALIDATION}
    | _ \<Rightarrow> False)"

definition resets :: "kc_event \<times> KeyCeremony_Coordinator_status \<Rightarrow> bool" where
  "resets x \<longleftrightarrow> fst x \<in> {All_keys_received, All_shares_received} \<and>
     snd x \<noteq> KEYCEREMONY_COORDINATOR_MISSING_TRUSTEES"

definition count_mark :: "nat \<Rightarrow> kc_event \<times> KeyCeremony_Coordinator_status \<Rightarrow> nat" where
  "count_mark k x = (if resets x then 0 else if marks x then Suc k else k)"

definition heard_since :: "(kc_event \<times> KeyCeremony_Coordinator_status) list \<Rightarrow> nat" where
  "heard_since h = foldl count_mark 0 h"

section \<open>The abstract machine\<close>

text \<open>A barrier of \<open>n\<close> parties: one of them arrives, all have arrived and leave, or nothing happens.\<close>

datatype move = Arrive nat | Leave | Stay

inductive barrier :: "nat \<Rightarrow> nat set \<Rightarrow> move \<Rightarrow> nat set \<Rightarrow> bool" for n where
  arrive: "i < n \<Longrightarrow> i \<notin> S \<Longrightarrow> barrier n S (Arrive i) (insert i S)"
| leave: "barrier n {..<n} Leave {}"
| stay: "barrier n S Stay S"

inductive_cases arriveE: "barrier n S (Arrive i) S'"
inductive_cases leaveE: "barrier n S Leave S'"
inductive_cases stayE: "barrier n S Stay S'"

lemma leave_result:
  assumes "barrier_result r c c'"
  shows "kc_threshold c' = kc_threshold c \<and> (if r \<noteq> KEYCEREMONY_COORDINATOR_MISSING_TRUSTEES
    then barrier (unat (kc_num_trustees c)) (heard_by c) Leave (heard_by c') else c' = c)"
  using assms leave [of "unat (kc_num_trustees c)"] by (auto simp: barrier_result_def split: if_splits)

lemma heard_success:
  assumes "coordinator_ok c" "heard_result KEYCEREMONY_COORDINATOR_SUCCESS c c'"
  shows "\<exists>i. barrier (unat (kc_num_trustees c)) (heard_by c) (Arrive i) (heard_by c')"
proof -
  obtain i where "i < unat (kc_num_trustees c)" "i \<notin> heard_by c" "heard_by c' = insert i (heard_by c)"
    using assms(2) by (auto simp: heard_result_def)
  then show ?thesis by (metis arrive)
qed

text \<open>A verdict marks its sender whenever the sender is acceptable.\<close>

lemma verdict_result:
  assumes c: "coordinator_ok c" and s: "KeyCeremony_Coordinator_receive_shares_verified m c = Some (r, c')"
  shows "if r \<in> {KEYCEREMONY_COORDINATOR_SUCCESS, KEYCEREMONY_COORDINATOR_TRUSTEE_INVALIDATION}
    then \<exists>i. barrier (unat (kc_num_trustees c)) (heard_by c) (Arrive i) (heard_by c') else c' = c"
proof -
  obtain rep st where rd: "Serialize_read_shares_verified \<lparr>sv_trustee_index = 0, sv_verified = False\<rparr>
      (message_reading m) = Some (rep, st)"
    using s by (auto simp: KeyCeremony_Coordinator_receive_shares_verified_def bind_eq_Some_conv)
  let ?i = "unat (sv_trustee_index rep)"
  have i: "?i < unat (kc_num_trustees c) \<and> ?i \<notin> heard_by c \<longleftrightarrow>
      r \<in> {KEYCEREMONY_COORDINATOR_SUCCESS, KEYCEREMONY_COORDINATOR_TRUSTEE_INVALIDATION}"
    using s rd by (auto simp: KeyCeremony_Coordinator_receive_shares_verified_def bind_eq_Some_conv
        assert_index_unseen_eq [OF c] split: if_splits)
  have m: "c' = (if ?i < unat (kc_num_trustees c) \<and> ?i \<notin> heard_by c
      then c\<lparr>kc_seen := (kc_seen c)[?i := True]\<rparr> else c)"
    using s rd by (auto simp: KeyCeremony_Coordinator_receive_shares_verified_def bind_eq_Some_conv
        assert_index_unseen_eq [OF c] arr_set_Some split: if_splits)
  show ?thesis
  proof (cases "?i < unat (kc_num_trustees c) \<and> ?i \<notin> heard_by c")
    case True
    have "heard_by c' = insert ?i (heard_by c)"
      using True m c coordinator_okD(1) [OF c]
      by (auto simp: heard_by_def coordinator_ok_def nth_list_update split: if_splits)
    with True i show ?thesis by (auto intro: arrive)
  next
    case False
    with m i show ?thesis by simp
  qed
qed

lemma kc_step_barrier:
  assumes c: "coordinator_ok c" and s: "kc_step E G e c = Some (r, out, c')"
  shows "coordinator_ok c' \<and> kc_num_trustees c' = kc_num_trustees c \<and> kc_threshold c' = kc_threshold c \<and>
    (if resets (e, r) then barrier (unat (kc_num_trustees c)) (heard_by c) Leave (heard_by c')
     else if marks (e, r) then \<exists>i. barrier (unat (kc_num_trustees c)) (heard_by c) (Arrive i) (heard_by c')
     else c' = c)"
proof (cases e)
  case (Key_generated m)
  then have k: "KeyCeremony_Coordinator_receive_key_generated E G m c = Some (r, c')"
    using s by (auto simp: kc_step_def bind_eq_Some_conv)
  note h = receive_key_generated_heard [OF c k]
  show ?thesis
    using Key_generated h heard_success [OF c] receive_rejected(1) [OF c _ k]
    by (auto simp: marks_def resets_def heard_result_def)
next
  case (Shares_generated m)
  then have k: "KeyCeremony_Coordinator_receive_shares_generated E m c = Some (r, c')"
    using s by (auto simp: kc_step_def bind_eq_Some_conv)
  note h = receive_shares_generated_heard [OF c k]
  show ?thesis
    using Shares_generated h heard_success [OF c] receive_rejected(2) [OF c _ k]
    by (auto simp: marks_def resets_def heard_result_def)
next
  case (Shares_verified m)
  then have k: "KeyCeremony_Coordinator_receive_shares_verified m c = Some (r, c')"
    using s by (auto simp: kc_step_def bind_eq_Some_conv)
  show ?thesis
    using Shares_verified receive_shares_verified_heard [OF c k] verdict_result [OF c k]
    by (auto simp: marks_def resets_def heard_result_def)
next
  case All_keys_received
  then have b: "barrier_result r c c'"
    using s all_keys_received_barrier [OF c] by (simp add: kc_step_def)
  show ?thesis
    using All_keys_received leave_result [OF b] b by (auto simp: marks_def resets_def barrier_result_def)
next
  case All_shares_received
  then have b: "barrier_result r c c'"
    using s all_shares_received_barrier [OF c] by (simp add: kc_step_def)
  show ?thesis
    using All_shares_received leave_result [OF b] b by (auto simp: marks_def resets_def barrier_result_def)
next
  case Publish_joint_key
  then show ?thesis
    using s c by (auto simp: kc_step_def marks_def resets_def bind_eq_Some_conv)
qed

section \<open>The coordinator implements the barrier\<close>

text \<open>C7: Every operation of the coordinator is a move of the abstract barrier: an accepted message is
  the arrival of a trustee that was not there, a completed phase happens only when all are there and
  sends all away, and everything else leaves the state as it was.\<close>

theorem kc_refines_barrier:
  assumes c: "coordinator_ok c" and s: "kc_step E G e c = Some (r, out, c')"
  shows "coordinator_ok c' \<and> kc_num_trustees c' = kc_num_trustees c \<and> kc_threshold c' = kc_threshold c \<and>
    (if resets (e, r) then barrier (unat (kc_num_trustees c)) (heard_by c) Leave (heard_by c')
     else if marks (e, r) then \<exists>i. barrier (unat (kc_num_trustees c)) (heard_by c) (Arrive i) (heard_by c')
     else c' = c)"
  using assms by (rule kc_step_barrier)

definition example_coordinator :: KeyCeremony_Coordinator where
  "example_coordinator = zeroed_coordinator 2 1"

lemma example_coordinator_ok: "coordinator_ok example_coordinator" "heard_by example_coordinator = {}"
  "kc_num_trustees example_coordinator = 2"
  using zeroed_coordinator_ok [of 2 1]
  by (simp_all add: example_coordinator_def zeroed_coordinator_def valid_params_def heard_by_def MAX_TRUSTEES_def)

text \<open>The message with the verdict of trustee \<open>i\<close>.\<close>

definition verdict :: "u32 \<Rightarrow> bool \<Rightarrow> message" where
  "verdict i v = bytes_message (enc_shares_verified \<lparr>sv_trustee_index = i, sv_verified = v\<rparr>)"

lemma receive_verdict:
  assumes "coordinator_ok c"
  shows "KeyCeremony_Coordinator_receive_shares_verified (verdict i v) c
    = Some (if unat (kc_num_trustees c) \<le> unat i then (KEYCEREMONY_COORDINATOR_INVALID_TRUSTEE_INDEX, c)
        else if unat i \<in> heard_by c then (KEYCEREMONY_COORDINATOR_DUPLICATE_TRUSTEE_INDEX, c)
        else (if v then KEYCEREMONY_COORDINATOR_SUCCESS else KEYCEREMONY_COORDINATOR_TRUSTEE_INVALIDATION,
              c\<lparr>kc_seen := (kc_seen c)[unat i := True]\<rparr>))"
proof -
  have "length (kc_seen c) = MAX_TRUSTEES" using assms by (simp add: coordinator_ok_def)
  then show ?thesis
    using coordinator_okD(1) [OF assms] shares_verified_codec.parse [OF ref.platform_mem_axioms]
    by (auto simp: KeyCeremony_Coordinator_receive_shares_verified_def verdict_def assert_index_unseen_eq [OF assms]
        message_reading_def arr_set_def)
qed

theorem kc_refines_barrier_witness:
  "\<exists>r out c' i. kc_step ref_env small_group (Shares_verified (verdict 1 True)) example_coordinator = Some (r, out, c') \<and>
     barrier 2 {} (Arrive i) (heard_by c')"
proof -
  have s: "kc_step ref_env small_group (Shares_verified (verdict 1 True)) example_coordinator
      = Some (KEYCEREMONY_COORDINATOR_SUCCESS, None,
          example_coordinator\<lparr>kc_seen := (kc_seen example_coordinator)[1 := True]\<rparr>)"
    by (simp add: kc_step_def receive_verdict example_coordinator_ok)
  from kc_refines_barrier [OF example_coordinator_ok(1) this] s show ?thesis
    by (auto simp: marks_def resets_def example_coordinator_ok)
qed

text \<open>C20: In every state the coordinator can reach, whatever it was sent and whatever it was asked,
  the structure is well formed and the number of trustees marked as seen is the number of accepted
  messages since the last completed phase.\<close>

theorem kc_reachable_invariant:
  assumes "kc_reaches E G n t h c"
  shows "coordinator_ok c \<and> kc_num_trustees c = n \<and> kc_threshold c = t \<and> card (heard_by c) = heard_since h"
  using assms
proof (induction rule: kc_reaches.induct)
  case (created r c)
  then show ?case using new_ok [of E n t r c] by (simp add: heard_since_def)
next
  case (stepped h c e r out c')
  have ok: "coordinator_ok c" using stepped.IH by simp
  have "finite (heard_by c)" using ok by (rule keys.finite_heard)
  then show ?case
    using kc_step_barrier [OF ok stepped.hyps(2)] stepped.IH
    by (auto simp: heard_since_def count_mark_def elim!: arriveE leaveE split: if_splits)
qed

lemma for_array_total:
  assumes "n \<le> length xs" "\<And>i. i < n \<Longrightarrow> \<exists>y. f i (xs ! i) = Some y"
  shows "\<exists>ys. for_array n f xs = Some ys"
  using for_array_ok [OF assms(1), of f "\<lambda>i. the (f i (xs ! i))"] assms(2) by fastforce

lemma new_total:
  assumes E: "malloc E 1936 = Some blk" and v: "valid_params n t"
  shows "\<exists>c. KeyCeremony_Coordinator_new E n t = Some (KEYCEREMONY_COORDINATOR_SUCCESS, Some c)"
proof -
  let ?z = "zeroed_coordinator n t"
  have z: "kc_public_keys ?z = replicate MAX_TRUSTEES blank_public_key" "kc_shares ?z = replicate MAX_TRUSTEES blank_array"
    "length (kc_rsa_public_keys ?z) = MAX_TRUSTEES"
    by (simp_all add: zeroed_coordinator_def)
  have b: "unat n \<le> MAX_TRUSTEES" "unat t \<le> MAX_TRUSTEES"
    using v by (auto simp: valid_params_def word_le_nat_alt)
  obtain seen where s: "KeyCeremony_Coordinator_clear_seen ?z = Some (?z\<lparr>kc_seen := seen\<rparr>)"
    using clear_seen_eq [OF zeroed_coordinator_ok [OF v]] by blast
  have "\<exists>ks. for_array (unat n) (\<lambda>_ k. Crypto_public_key_new k (unat t)) (replicate MAX_TRUSTEES blank_public_key) = Some ks"
    using b public_key_new_shape [OF blank_shapes(2) b(2)] by (intro for_array_total) auto
  moreover have "\<exists>ss. for_array (unat n) (\<lambda>_ row. for_array (unat n) (\<lambda>_ _. Some Crypto_encrypted_key_share_init) row)
      (replicate MAX_TRUSTEES blank_array) = Some ss"
    using b by (intro for_array_total) simp_all
  moreover have "\<exists>rs. for_array (unat n) (\<lambda>_ _. Some Crypto_rsa_public_key_new) (kc_rsa_public_keys ?z) = Some rs"
    using b z by (intro for_array_total) simp_all
  ultimately show ?thesis
    using E v s z by (auto simp: KeyCeremony_Coordinator_new_def)
qed

lemma new_example:
  "\<exists>c. KeyCeremony_Coordinator_new ref_env 2 1 = Some (KEYCEREMONY_COORDINATOR_SUCCESS, Some c)"
proof -
  obtain blk where "malloc ref_env 1936 = Some blk" using ref.malloc_ok by blast
  then show ?thesis by (rule new_total) (simp add: valid_params_def MAX_TRUSTEES_def)
qed

theorem kc_reachable_invariant_witness:
  "\<exists>c. kc_reaches ref_env small_group 2 1
       [(Shares_verified (verdict 0 True), KEYCEREMONY_COORDINATOR_SUCCESS),
        (Shares_verified (verdict 0 False), KEYCEREMONY_COORDINATOR_DUPLICATE_TRUSTEE_INDEX)] c \<and>
     coordinator_ok c \<and> card (heard_by c) = 1"
proof -
  obtain c where n: "KeyCeremony_Coordinator_new ref_env 2 1 = Some (KEYCEREMONY_COORDINATOR_SUCCESS, Some c)"
    using new_example by blast
  note ok = new_ok [OF n]
  let ?c = "c\<lparr>kc_seen := (kc_seen c)[0 := True]\<rparr>"
  have s: "kc_step ref_env small_group (Shares_verified (verdict 0 True)) c
      = Some (KEYCEREMONY_COORDINATOR_SUCCESS, None, ?c)"
    using ok by (simp add: kc_step_def receive_verdict)
  have "coordinator_ok c" using ok by simp
  then have ok': "coordinator_ok ?c" by (simp add: coordinator_ok_def)
  have "0 \<in> heard_by ?c" using ok by (auto simp: heard_by_def coordinator_ok_def MAX_TRUSTEES_def)
  then have s2: "kc_step ref_env small_group (Shares_verified (verdict 0 False)) ?c
      = Some (KEYCEREMONY_COORDINATOR_DUPLICATE_TRUSTEE_INDEX, None, ?c)"
    using ok by (simp add: kc_step_def receive_verdict [OF ok'])
  have r: "kc_reaches ref_env small_group 2 1
       [(Shares_verified (verdict 0 True), KEYCEREMONY_COORDINATOR_SUCCESS),
        (Shares_verified (verdict 0 False), KEYCEREMONY_COORDINATOR_DUPLICATE_TRUSTEE_INDEX)] ?c"
    using stepped [OF stepped [OF created [OF n] s] s2] by simp
  show ?thesis
    using kc_reachable_invariant [OF r] r
    by (auto simp: heard_since_def count_mark_def marks_def resets_def)
qed

section \<open>When the joint key is published\<close>

lemma joint_key_mod:
  assumes "platform E" "group_ok G" "unat n \<le> length keys" "\<forall>i < unat n. 0 < length (coef_commitments (keys ! i))"
  shows "Crypto_generate_joint_public_key E G keys n =
    Some \<lparr>joint_num_trustees = n, joint_key = (\<Prod>i < unat n. coef_commitments (keys ! i) ! 0) mod par_p G\<rparr>"
proof -
  have "loop m (\<lambda>i k. do {
            key \<leftarrow> arr_get keys i;
            c \<leftarrow> arr_get (coef_commitments key) 0;
            Some (mul_mod_p E G k c) }) 1
      = Some ((\<Prod>i<m. coef_commitments (keys ! i) ! 0) mod par_p G)" if "m \<le> unat n" for m
    using that
  proof (induction m)
    case 0
    then show ?case using assms(2) by simp
  next
    case (Suc m)
    then show ?case
      using assms(2-4) by (simp add: platform.mul_mod_p_eq [OF assms(1)] mod_mult_left_eq mod_mult_right_eq mult.commute)
  qed
  then show ?thesis by (simp add: Crypto_generate_joint_public_key_def)
qed

lemma publish_key:
  assumes E: "platform_mem E" and c: "coordinator_ok c" and h: "heard_by c = {..<unat (kc_num_trustees c)}"
    and k: "Crypto_generate_joint_public_key E G (kc_public_keys c) (kc_num_trustees c) = Some key"
    and f: "fits 64 (joint_key key)"
  shows "KeyCeremony_Coordinator_publish_joint_key E G c
    = Some (KEYCEREMONY_COORDINATOR_SUCCESS, Some (bytes_message (enc_joint_public_key key)))"
  using joint_key_codec.send_ok [OF E, of key] f k h
  by (simp add: KeyCeremony_Coordinator_publish_joint_key_def assert_all_seen_eq [OF c])

text \<open>C35: After a sequence of accepted key messages to a new coordinator, \<open>KeyCeremony_Coordinator_publish_joint_key\<close>
  publishes the joint key, the product of the stored keys, when there were as many messages as trustees, and
  otherwise answers that trustees are missing and publishes nothing: none is counted twice and none is left out.
  The shares and their verification, which the comments demand before publication, are not looked at.\<close>

theorem joint_key_after_keys:
  fixes n t :: u32
  assumes "platform_mem E" "group_ok G"
    and "KeyCeremony_Coordinator_new E n t = Some (r, Some c)"
    and "receive_all (KeyCeremony_Coordinator_receive_key_generated E G) KEYCEREMONY_COORDINATOR_SUCCESS ms c = Some c'"
  defines "key \<equiv> (\<Prod>i < unat n. coef_commitments (kc_public_keys c' ! i) ! 0) mod par_p G"
  assumes "length ms = unat n \<longrightarrow> fits 64 key"
  shows "KeyCeremony_Coordinator_publish_joint_key E G c' =
    Some (if length ms = unat n
          then (KEYCEREMONY_COORDINATOR_SUCCESS,
            Some (bytes_message (enc_joint_public_key \<lparr>joint_num_trustees = n, joint_key = key\<rparr>)))
          else (KEYCEREMONY_COORDINATOR_MISSING_TRUSTEES, None))"
proof -
  note new = new_ok [OF assms(3)]
  have c: "coordinator_ok c'" "unat (kc_num_trustees c') = unat n"
    using keys.receive_all_keeps [OF _ assms(4)] new by simp_all
  then have n: "kc_num_trustees c' = n" by (simp add: word_unat_eq_iff)
  have heard: "heard_by c' = {..<unat n} \<longleftrightarrow> length ms = unat n"
    using keys.all_heard_iff [OF _ _ assms(4)] new by simp
  show ?thesis
  proof (cases "length ms = unat n")
    case True
    have "\<forall>i < unat n. 0 < length (coef_commitments (kc_public_keys c' ! i))"
      using c coordinator_okD(1) [OF c(1)]
      by (simp add: coordinator_ok_def list_all_length public_key_shape_def MAX_TRUSTEES_def)
    moreover have "unat n \<le> length (kc_public_keys c')" using c coordinator_okD(1) [OF c(1)] by (simp add: coordinator_ok_def)
    ultimately have "Crypto_generate_joint_public_key E G (kc_public_keys c') (kc_num_trustees c') =
        Some \<lparr>joint_num_trustees = n, joint_key = key\<rparr>"
      using joint_key_mod [OF platform_mem.axioms(1) [OF assms(1)] assms(2)] unfolding n key_def by blast
    from publish_key [OF assms(1) c(1) _ this] True heard c(2) assms(6) show ?thesis by simp
  next
    case False
    then show ?thesis
      using heard c(2) by (simp add: KeyCeremony_Coordinator_publish_joint_key_def assert_all_seen_eq [OF c(1)])
  qed
qed

text \<open>One trustee: without its message nothing is published, with it the joint key is the trustee's key.\<close>

definition full_key_message :: key_generated_rep where
  "full_key_message = \<lparr>kg_trustee_index = 0, kg_public_key = full_public, kg_rsa_public_key = full_rsa_public\<rparr>"

lemma full_key_accepted:
  assumes "coordinator_ok c" "heard_by c = {}" "kc_num_trustees c = 1" "kc_threshold c = 1"
  shows "\<exists>c'. KeyCeremony_Coordinator_receive_key_generated sample_env full_group
      (bytes_message (enc_key_generated full_key_message)) c = Some (KEYCEREMONY_COORDINATOR_SUCCESS, c') \<and>
    coef_commitments (kc_public_keys c' ! 0) ! 0 = wide_p - 1"
proof -
  have sh: "public_key_shape full_public" "proof_threshold (pub_proof full_public) = pub_threshold full_public"
    "fits_threshold 1 full_public"
    by (simp_all add: full_public_def public_key_shape_def schnorr_proof_shape_def blank_array_def fits_threshold_def)
  have "coef_commitments full_public ! 0 = wide_p - 1" "pub_threshold full_public = 1"
    by (simp_all add: full_public_def blank_array_def MAX_TRUSTEES_def)
  moreover have "Crypto_check_keypair_proof sample_env full_group full_public [] = Some True"
    using sample.gen_keypair_proof [OF full_group_ok full_keypair] by simp
  moreover have "key_generated_ok full_group full_key_message"
    using full_public_ok full_rsa_public_ok by (simp add: key_generated_ok_def full_key_message_def)
  ultimately show ?thesis
    using receive_key_accepts [OF sample.platform_mem_axioms assms(1), of full_key_message full_group] assms(2-4) sh
    by (auto simp: full_key_message_def same_key_def)
qed

theorem joint_key_after_keys_witness:
  "\<exists>c c'. KeyCeremony_Coordinator_new sample_env 1 1 = Some (KEYCEREMONY_COORDINATOR_SUCCESS, Some c) \<and>
     KeyCeremony_Coordinator_receive_key_generated sample_env full_group (bytes_message (enc_key_generated full_key_message)) c =
       Some (KEYCEREMONY_COORDINATOR_SUCCESS, c') \<and>
     KeyCeremony_Coordinator_publish_joint_key sample_env full_group c = Some (KEYCEREMONY_COORDINATOR_MISSING_TRUSTEES, None) \<and>
     KeyCeremony_Coordinator_publish_joint_key sample_env full_group c' = Some (KEYCEREMONY_COORDINATOR_SUCCESS,
       Some (bytes_message (enc_joint_public_key \<lparr>joint_num_trustees = 1, joint_key = wide_p - 1\<rparr>)))"
proof -
  let ?m = "bytes_message (enc_key_generated full_key_message)"
  obtain blk where "malloc sample_env 1936 = Some blk" using sample.malloc_ok by blast
  then obtain c where n: "KeyCeremony_Coordinator_new sample_env 1 1 = Some (KEYCEREMONY_COORDINATOR_SUCCESS, Some c)"
    using new_total [of sample_env blk 1 1] by (auto simp: valid_params_def MAX_TRUSTEES_def)
  have "coordinator_ok c" "heard_by c = {}" "kc_num_trustees c = 1" "kc_threshold c = 1" using new_ok [OF n] by simp_all
  then obtain c' where c': "KeyCeremony_Coordinator_receive_key_generated sample_env full_group ?m c =
      Some (KEYCEREMONY_COORDINATOR_SUCCESS, c')" "coef_commitments (kc_public_keys c' ! 0) ! 0 = wide_p - 1"
    using full_key_accepted by blast
  have p: "(wide_p - 1) mod wide_p = wide_p - 1" using wide_p(1) by (intro mod_pos_pos_trivial) simp_all
  note publish = joint_key_after_keys [OF sample.platform_mem_axioms full_group_ok n]
  show ?thesis
    using publish [of "[]" c] publish [of "[?m]" c'] n c' p wide_fits by simp
qed

text \<open>C36: A trustee that reports that its shares did not verify is marked as heard like any other. When
  it is the last one, the coordinator answers that the trustee invalidated the ceremony and then
  publishes the joint key all the same.\<close>

theorem joint_key_despite_bad_verdict:
  assumes "platform_mem E" "coordinator_ok c" "unat i < unat (kc_num_trustees c)"
    and "heard_by c = {..<unat (kc_num_trustees c)} - {unat i}"
    and "Crypto_generate_joint_public_key E G (kc_public_keys c) (kc_num_trustees c) = Some key"
    and "fits 64 (joint_key key)"
  shows "\<exists>c'. KeyCeremony_Coordinator_receive_shares_verified (verdict i False) c
      = Some (KEYCEREMONY_COORDINATOR_TRUSTEE_INVALIDATION, c') \<and>
    KeyCeremony_Coordinator_publish_joint_key E G c'
      = Some (KEYCEREMONY_COORDINATOR_SUCCESS, Some (bytes_message (enc_joint_public_key key)))"
proof -
  let ?c = "c\<lparr>kc_seen := (kc_seen c)[unat i := True]\<rparr>"
  have r: "KeyCeremony_Coordinator_receive_shares_verified (verdict i False) c
      = Some (KEYCEREMONY_COORDINATOR_TRUSTEE_INVALIDATION, ?c)"
    using assms(3,4) by (simp add: receive_verdict [OF assms(2)])
  have h: "heard_result KEYCEREMONY_COORDINATOR_SUCCESS c ?c"
    using assms(2-4) by (intro heard_result_mark [of c "unat i"]) simp_all
  then obtain j where j: "coordinator_ok ?c" "j < unat (kc_num_trustees c)" "j \<notin> heard_by c"
      "heard_by ?c = insert j (heard_by c)"
    unfolding heard_result_def by blast
  have "j = unat i" using j(2,3) unfolding assms(4) by simp
  then have "heard_by ?c = {..<unat (kc_num_trustees ?c)}"
    using assms(3) unfolding j(4) assms(4) by auto
  with j(1) show ?thesis using r publish_key [OF assms(1), of ?c G key] assms(5,6) by simp
qed

definition wide_key_coordinator :: KeyCeremony_Coordinator where
  "wide_key_coordinator = (zeroed_coordinator 1 1)
     \<lparr>kc_public_keys := replicate MAX_TRUSTEES (blank_public_key\<lparr>coef_commitments := replicate MAX_TRUSTEES (wide_p - 1)\<rparr>)\<rparr>"

theorem joint_key_despite_bad_verdict_witness:
  "\<exists>c' m. KeyCeremony_Coordinator_receive_shares_verified (verdict 0 False) wide_key_coordinator
      = Some (KEYCEREMONY_COORDINATOR_TRUSTEE_INVALIDATION, c') \<and>
    KeyCeremony_Coordinator_publish_joint_key ref_env wide_group c' = Some (KEYCEREMONY_COORDINATOR_SUCCESS, Some m)"
proof -
  have "public_key_shape (blank_public_key\<lparr>coef_commitments := replicate MAX_TRUSTEES x\<rparr>)"
    "fits_threshold 1 (blank_public_key\<lparr>coef_commitments := replicate MAX_TRUSTEES x\<rparr>)" for x
    using blank_shapes(2) blank_fits [of 1] by (simp_all add: public_key_shape_def fits_threshold_def)
  moreover have "coordinator_ok (zeroed_coordinator 1 1)"
    by (rule zeroed_coordinator_ok) (simp add: valid_params_def MAX_TRUSTEES_def)
  moreover have "kc_threshold (zeroed_coordinator 1 1) = 1" by (simp add: zeroed_coordinator_def)
  ultimately have ok: "coordinator_ok wide_key_coordinator"
    by (simp add: coordinator_ok_def wide_key_coordinator_def list_all_iff)
  have k: "Crypto_generate_joint_public_key ref_env wide_group (kc_public_keys wide_key_coordinator) 1
      = Some \<lparr>joint_num_trustees = 1, joint_key = wide_p - 1\<rparr>"
    using wide_p(1) by (simp add: Crypto_generate_joint_public_key_def wide_key_coordinator_def MAX_TRUSTEES_def
        ref.mul_mod_p_eq [OF wide_group_ok] zmod_minus1)
  have n: "kc_num_trustees wide_key_coordinator = 1"
    by (simp add: wide_key_coordinator_def zeroed_coordinator_def)
  have h: "heard_by wide_key_coordinator = {..<unat (kc_num_trustees wide_key_coordinator)} - {unat (0 :: u32)}"
    by (auto simp: n heard_by_def) (simp add: wide_key_coordinator_def zeroed_coordinator_def MAX_TRUSTEES_def)
  note k' = k [folded n]
  show ?thesis
    using joint_key_despite_bad_verdict [OF ref.platform_mem_axioms ok _ h k'] wide_fits n by auto
qed

end
