(* ===== verification/Decimal.thy ===== *)
theory Decimal
  imports Stdio
begin

text \<open>
  Decimal numbers in streams: what \<open>printf\<close> writes for \<open>%d\<close>, \<open>%u\<close> and \<open>%lu\<close> of a non-negative
  number and what \<open>fscanf\<close> reads. A number that does not fit its type is undefined behaviour, the
  result \<open>None\<close>.
\<close>

definition dec_digit :: "nat \<Rightarrow> char" where
  "dec_digit d = hex_chars ! (d mod 10)"

fun fmt_dec :: "nat \<Rightarrow> string" where
  "fmt_dec n = (if n < 10 then [dec_digit n] else fmt_dec (n div 10) @ [dec_digit n])"

declare fmt_dec.simps [simp del]

definition dec_value :: "char \<Rightarrow> nat option" where
  "dec_value c = map_of (zip (take 10 hex_chars) [0..<10]) c"

text \<open>As many digits as there are: the value, how many there were, the rest.\<close>

fun scan_dec :: "nat \<Rightarrow> string \<Rightarrow> nat \<times> nat \<times> string" where
  "scan_dec v [] = (v, 0, [])"
| "scan_dec v (c # cs) =
     (case dec_value c of
        None \<Rightarrow> (v, 0, c # cs)
      | Some d \<Rightarrow> (case scan_dec (10 * v + d) cs of (v', n, rest) \<Rightarrow> (v', Suc n, rest)))"

text \<open>
  One conversion: white space is skipped, then an optional sign and the digits. The result is 1 and
  the value, 0 on a matching failure, or \<open>EOF\<close>.
\<close>

definition fscanf_dec :: "string \<Rightarrow> int \<times> int \<times> string" where
  "fscanf_dec inp =
     (let inp1 = dropWhile is_space inp in
      if inp1 = [] then (-1, 0, [])
      else
        let (neg, _, inp2) = scan_sign 1 inp1;
            (v, n, rest) = scan_dec 0 inp2
        in if n = 0 then (0, 0, rest)
           else (1, if neg then - int v else int v, rest))"

text \<open>\<open>%d\<close> and \<open>%lu\<close>; the latter negates a signed number in the unsigned type.\<close>

definition fscanf_d :: "string \<Rightarrow> (int \<times> int \<times> string) option" where
  "fscanf_d inp =
     (case fscanf_dec inp of
        (r, v, rest) \<Rightarrow> if - (2 ^ 31) \<le> v \<and> v < 2 ^ 31 then Some (r, v, rest) else None)"

definition fscanf_lu :: "string \<Rightarrow> (int \<times> u64 \<times> string) option" where
  "fscanf_lu inp =
     (case fscanf_dec inp of
        (r, v, rest) \<Rightarrow> if \<bar>v\<bar> < 2 ^ 64 then Some (r, word_of_int v, rest) else None)"

text \<open>A directive of white space skips all of it, also none.\<close>

definition fscanf_space :: "string \<Rightarrow> string" where
  "fscanf_space inp = dropWhile is_space inp"

section \<open>Reading back what was printed\<close>

lemma dec_value_digit: "d < 10 \<Longrightarrow> dec_value (dec_digit d) = Some d"
proof -
  assume "d < 10"
  then have "d \<in> set [0..<10]" by simp
  moreover have "list_all (\<lambda>d. dec_value (dec_digit d) = Some d) [0..<10]" by code_simp
  ultimately show ?thesis by (simp add: list_all_iff)
qed

lemma dec_value_digit_mod: "dec_value (dec_digit n) = Some (n mod 10)"
  using dec_value_digit [of "n mod 10"] by (simp add: dec_digit_def)

definition plain_tail :: "string \<Rightarrow> bool" where
  "plain_tail rest \<longleftrightarrow> (case rest of [] \<Rightarrow> True | c # _ \<Rightarrow> dec_value c = None)"

lemma scan_dec_plain: "plain_tail rest \<Longrightarrow> scan_dec v rest = (v, 0, rest)"
  by (cases rest) (auto simp: plain_tail_def)

lemma scan_fmt_dec:
  "scan_dec v (fmt_dec n @ s) =
     (case scan_dec (v * 10 ^ length (fmt_dec n) + n) s of (v', m, r) \<Rightarrow> (v', length (fmt_dec n) + m, r))"
proof (induction n arbitrary: s rule: fmt_dec.induct)
  case (1 n)
  show ?case
  proof (cases "n < 10")
    case True
    then show ?thesis
      by (simp add: fmt_dec.simps [of n] dec_value_digit_mod algebra_simps split: prod.split)
  next
    case False
    have e: "n + 10 * (v * 10 ^ k) = v * (10 * 10 ^ k) + n" for k
      by simp
    show ?thesis
      using "1.IH" [OF False] False
      by (simp add: fmt_dec.simps [of n] dec_value_digit_mod e split: prod.split)
  qed
qed

lemma fmt_dec_nonempty [simp]: "0 < length (fmt_dec n)"
  by (subst fmt_dec.simps) simp

lemma fmt_dec_hd: "\<exists>d cs. fmt_dec n = dec_digit d # cs"
proof (induction n rule: fmt_dec.induct)
  case (1 n)
  then show ?case by (cases "n < 10") (auto simp: fmt_dec.simps [of n])
qed

lemma dec_digit_plain: "\<not> is_space (dec_digit d)" "dec_digit d \<noteq> CHR ''-''" "dec_digit d \<noteq> CHR ''+''"
proof -
  have "list_all (\<lambda>d. \<not> is_space (hex_chars ! d) \<and> hex_chars ! d \<noteq> CHR ''-'' \<and> hex_chars ! d \<noteq> CHR ''+'') [0..<10]"
    by code_simp
  moreover have "d mod 10 \<in> set [0..<10]" by simp
  ultimately have "\<not> is_space (dec_digit d) \<and> dec_digit d \<noteq> CHR ''-'' \<and> dec_digit d \<noteq> CHR ''+''"
    unfolding list_all_iff dec_digit_def by blast
  then show "\<not> is_space (dec_digit d)" "dec_digit d \<noteq> CHR ''-''" "dec_digit d \<noteq> CHR ''+''" by blast+
qed

lemma scan_sign_plain: "c \<noteq> CHR ''-'' \<Longrightarrow> c \<noteq> CHR ''+'' \<Longrightarrow> scan_sign k (c # cs) = (False, k, c # cs)"
  unfolding scan_sign_def by (auto split: char.split bool.split)

text \<open>A printed number is read back, leaving what follows it.\<close>

lemma fscanf_fmt_dec:
  assumes "plain_tail rest"
  shows "fscanf_dec (fmt_dec n @ rest) = (1, int n, rest)"
proof -
  obtain d cs where d: "fmt_dec n = dec_digit d # cs" using fmt_dec_hd by blast
  have "dropWhile is_space (fmt_dec n @ rest) = fmt_dec n @ rest"
    by (simp add: d dec_digit_plain)
  moreover have "scan_sign 1 (fmt_dec n @ rest) = (False, 1, fmt_dec n @ rest)"
    by (simp add: d scan_sign_plain dec_digit_plain)
  moreover have "scan_dec 0 (fmt_dec n @ rest) = (n, length (fmt_dec n), rest)"
    using scan_fmt_dec [of 0 n rest] scan_dec_plain [OF assms] by simp
  moreover have "fmt_dec n @ rest \<noteq> []" by (simp add: d)
  ultimately show ?thesis
    using fmt_dec_nonempty [of n] by (simp add: fscanf_dec_def)
qed

lemma fscanf_lu_fmt: "plain_tail rest \<Longrightarrow> fscanf_lu (fmt_dec (unat w) @ rest) = Some (1, w, rest)"
  using uint_lt2p [of w] by (simp add: fscanf_lu_def fscanf_fmt_dec)

lemma fscanf_d_fmt: "plain_tail rest \<Longrightarrow> n < 2 ^ 31 \<Longrightarrow> fscanf_d (fmt_dec n @ rest) = Some (1, int n, rest)"
  by (simp add: fscanf_d_def fscanf_fmt_dec)

end
