(* ===== verification/DecryptionCoordinator.thy ===== *)
theory DecryptionCoordinator
  imports Protocol Decimal
begin

text \<open>
  \<open>src/electionguard/decryption/coordinator.c\<close>. The state is the structure behind the pointer
  \<open>Decryption_Coordinator\<close>, zeroed memory before its initialisation. A list of optional requests
  stands for the arrays \<open>request_present\<close> and \<open>requests\<close>. \<open>Decryption_Coordinator_free\<close> has no
  effect in the model.
\<close>

section \<open>State\<close>

datatype Decryption_Coordinator_status =
    DECRYPTION_COORDINATOR_SUCCESS
  | DECRYPTION_COORDINATOR_INSUFFICIENT_MEMORY
  | DECRYPTION_COORDINATOR_INVALID_PARAMS
  | DECRYPTION_COORDINATOR_INVALID_TRUSTEE_INDEX
  | DECRYPTION_COORDINATOR_DUPLICATE_TRUSTEE_INDEX
  | DECRYPTION_COORDINATOR_MISSING_TRUSTEES
  | DECRYPTION_COORDINATOR_IO_ERROR
  | DECRYPTION_COORDINATOR_SERIALIZE_ERROR
  | DECRYPTION_COORDINATOR_DESERIALIZE_ERROR
  | DECRYPTION_COORDINATOR_CONFUSED_DECRYPTION_TRUSTEE

record Decryption_Coordinator =
  dc_num_trustees :: u32
  dc_threshold :: u32
  dc_anounced :: "bool list"
  dc_tallies_initialized :: bool
  dc_num_tallies :: u64
  dc_tallies :: "encryption_rep list"
  dc_responded :: "bool list"
  dc_num_decryption_fragments :: "u32 list"

section \<open>Announcing\<close>

definition Decryption_Coordinator_new ::
    "env \<Rightarrow> u32 \<Rightarrow> u32 \<Rightarrow> (Decryption_Coordinator_status \<times> Decryption_Coordinator option) option" where
  "Decryption_Coordinator_new E num_trustees threshold =
     (if \<not> valid_params num_trustees threshold then Some (DECRYPTION_COORDINATOR_INVALID_PARAMS, None)
      else case malloc E 32056 of
        None \<Rightarrow> Some (DECRYPTION_COORDINATOR_INSUFFICIENT_MEMORY, None)
      | Some _ \<Rightarrow> do {
          anounced \<leftarrow> for_array (unat num_trustees) (\<lambda>_ _. Some False) (replicate MAX_TRUSTEES False);
          Some (DECRYPTION_COORDINATOR_SUCCESS,
            Some \<lparr>dc_num_trustees = num_trustees, dc_threshold = threshold, dc_anounced = anounced,
                  dc_tallies_initialized = False, dc_num_tallies = 0,
                  dc_tallies = replicate MAX_SELECTIONS Crypto_encryption_rep_new,
                  dc_responded = replicate MAX_TRUSTEES False,
                  dc_num_decryption_fragments = replicate MAX_TRUSTEES 0\<rparr>) })"

text \<open>One round of the loop that multiplies a share into the tallies; the comparison comes after.\<close>

definition add_share_step ::
    "env \<Rightarrow> params \<Rightarrow> encryption_rep list \<Rightarrow> nat \<Rightarrow> Decryption_Coordinator_status \<times> encryption_rep list \<Rightarrow>
     (Decryption_Coordinator_status \<times> encryption_rep list) option" where
  "add_share_step E G shares i s =
     (case s of (status, tallies) \<Rightarrow>
        if status \<noteq> DECRYPTION_COORDINATOR_SUCCESS then Some s
        else do {
          t \<leftarrow> arr_get tallies i;
          share \<leftarrow> arr_get shares i;
          tallies \<leftarrow> arr_set tallies i
            (t\<lparr>nonce_encoding := mul_mod_p E G (nonce_encoding t) (nonce_encoding share)\<rparr>);
          Some (if message_encoding t \<noteq> message_encoding share
                then DECRYPTION_COORDINATOR_CONFUSED_DECRYPTION_TRUSTEE else status, tallies) })"

definition Decryption_Coordinator_receive_share ::
    "env \<Rightarrow> params \<Rightarrow> message \<Rightarrow> Decryption_Coordinator \<Rightarrow>
     (Decryption_Coordinator_status \<times> Decryption_Coordinator) option" where
  "Decryption_Coordinator_receive_share E G share c =
     do {
       (rep, st) \<leftarrow> Serialize_read_decryption_share E
         \<lparr>ds_trustee_index = 0, ds_num_tallies = 0,
          tally_share = replicate MAX_SELECTIONS Crypto_encryption_rep_new, ds_cp_proofs = []\<rparr>
         (message_reading share);
       let i = unat (ds_trustee_index rep);
       status \<leftarrow> (if ss_status st \<noteq> SERIALIZE_STATE_READING then Some DECRYPTION_COORDINATOR_DESERIALIZE_ERROR
                 else if dc_num_trustees c \<le> ds_trustee_index rep
                 then Some DECRYPTION_COORDINATOR_INVALID_TRUSTEE_INDEX
                 else do {
                   a \<leftarrow> arr_get (dc_anounced c) i;
                   Some (if a then DECRYPTION_COORDINATOR_DUPLICATE_TRUSTEE_INDEX
                         else DECRYPTION_COORDINATOR_SUCCESS) });
       if status \<noteq> DECRYPTION_COORDINATOR_SUCCESS then Some (status, c)
       else do {
         anounced \<leftarrow> arr_set (dc_anounced c) i True;
         if dc_tallies_initialized c
         then do {
           (status, tallies) \<leftarrow> loop (unat (ds_num_tallies rep)) (add_share_step E G (tally_share rep))
             (if ds_num_tallies rep \<noteq> dc_num_tallies c then DECRYPTION_COORDINATOR_CONFUSED_DECRYPTION_TRUSTEE
              else status, dc_tallies c);
           Some (status, c\<lparr>dc_anounced := anounced, dc_tallies := tallies\<rparr>) }
         else do {
           tallies \<leftarrow> for_array (unat (ds_num_tallies rep)) (\<lambda>i _. arr_get (tally_share rep) i) (dc_tallies c);
           Some (status, c\<lparr>dc_anounced := anounced, dc_num_tallies := ds_num_tallies rep,
                           dc_tallies := tallies, dc_tallies_initialized := True\<rparr>) } } }"

section \<open>Requesting fragments\<close>

definition Decryption_Coordinator_num_anounced :: "Decryption_Coordinator \<Rightarrow> u32 option" where
  "Decryption_Coordinator_num_anounced c =
     loop (unat (dc_num_trustees c))
       (\<lambda>i count. do { a \<leftarrow> arr_get (dc_anounced c) i; Some (if a then count + 1 else count) }) 0"

definition Decryption_Coordinator_fill_missing_indices ::
    "Decryption_Coordinator \<Rightarrow> bool list \<Rightarrow> bool list option" where
  "Decryption_Coordinator_fill_missing_indices c indices =
     for_array (unat (dc_num_trustees c)) (\<lambda>i _. do { a \<leftarrow> arr_get (dc_anounced c) i; Some (\<not> a) }) indices"

text \<open>
  \<open>(ok, number of requests, requests)\<close>. After a failure the loop ends and the caller gets an error
  and must not use the requests.
\<close>

definition fill_requests_step ::
    "env \<Rightarrow> Decryption_Coordinator \<Rightarrow> nat \<Rightarrow> bool \<times> u32 \<times> message option list \<Rightarrow>
     (bool \<times> u32 \<times> message option list) option" where
  "fill_requests_step E c i s =
     (case s of (ok, num_requested, requests) \<Rightarrow>
        if \<not> ok then Some s
        else do {
          a \<leftarrow> arr_get (dc_anounced c) i;
          if \<not> a then do { requests \<leftarrow> arr_set requests i None; Some (ok, num_requested, requests) }
          else do {
            (num_requested, requested) \<leftarrow>
              (if num_requested < dc_threshold c
               then do {
                 r \<leftarrow> Decryption_Coordinator_fill_missing_indices c (replicate MAX_TRUSTEES False);
                 Some (num_requested + 1, r) }
               else do {
                 r \<leftarrow> for_array (unat (dc_num_trustees c)) (\<lambda>_ _. Some False) (replicate MAX_TRUSTEES False);
                 Some (num_requested, r) });
            let rep = \<lparr>req_num_trustees = dc_num_trustees c, req_requested = requested\<rparr>;
            out \<leftarrow> send E (Serialize_reserve_decryption_fragments_request rep)
                         (Serialize_write_decryption_fragments_request rep);
            case out of
              None \<Rightarrow> Some (False, num_requested, requests)
            | Some m \<Rightarrow> do {
                requests \<leftarrow> arr_set requests i (Some m);
                Some (ok, num_requested, requests) } } })"

definition Decryption_Coordinator_fill_requests ::
    "env \<Rightarrow> Decryption_Coordinator \<Rightarrow> message option list \<Rightarrow> (bool \<times> message option list) option" where
  "Decryption_Coordinator_fill_requests E c requests =
     do {
       (ok, _, requests) \<leftarrow> loop (unat (dc_num_trustees c)) (fill_requests_step E c) (True, 0, requests);
       Some (ok, requests) }"

definition Decryption_Coordinator_all_shares_received ::
    "env \<Rightarrow> Decryption_Coordinator \<Rightarrow>
     (Decryption_Coordinator_status \<times> message option list \<times> Decryption_Coordinator) option" where
  "Decryption_Coordinator_all_shares_received E c =
     do {
       let n = unat (dc_num_trustees c);
       let requests = replicate n None;
       num_anounced \<leftarrow> Decryption_Coordinator_num_anounced c;
       if num_anounced < dc_threshold c then Some (DECRYPTION_COORDINATOR_MISSING_TRUSTEES, requests, c)
       else do {
         (ok, requests) \<leftarrow> Decryption_Coordinator_fill_requests E c requests;
         if \<not> ok then Some (DECRYPTION_COORDINATOR_INSUFFICIENT_MEMORY, requests, c)
         else do {
           responded \<leftarrow> for_array n (\<lambda>_ _. Some False) (dc_responded c);
           counts \<leftarrow> for_array n (\<lambda>_ _. Some 0) (dc_num_decryption_fragments c);
           Some (DECRYPTION_COORDINATOR_SUCCESS, requests,
                 c\<lparr>dc_responded := responded, dc_num_decryption_fragments := counts\<rparr>) } } }"

section \<open>Compensating\<close>

text \<open>The fragments for one missing trustee, raised to the coefficient, multiply the tallies.\<close>

definition add_fragment_step ::
    "env \<Rightarrow> params \<Rightarrow> int list \<Rightarrow> int \<Rightarrow> nat \<Rightarrow> encryption_rep \<Rightarrow> encryption_rep option" where
  "add_fragment_step E G row coefficient j t =
     do {
       M \<leftarrow> arr_get row j;
       let res = pow_mod_p E G M coefficient;
       Some (t\<lparr>nonce_encoding := mul_mod_p E G (nonce_encoding t) res\<rparr>) }"

text \<open>
  The numbers of the local structure are initialised for the coordinator's own number of trustees and
  tallies; what a message writes, or the final loop clears, behind them is undefined behaviour. So is
  looking at \<open>requested\<close> behind the number of trustees of the message.
\<close>

definition Decryption_Coordinator_receive_fragments ::
    "env \<Rightarrow> params \<Rightarrow> message \<Rightarrow> Decryption_Coordinator \<Rightarrow>
     (Decryption_Coordinator_status \<times> Decryption_Coordinator) option" where
  "Decryption_Coordinator_receive_fragments E G decryption_fragments c =
     do {
       let n = unat (dc_num_trustees c);
       let num_tallies = unat (dc_num_tallies c);
       (rep, st) \<leftarrow> Serialize_read_decryption_fragments E
         \<lparr>df_trustee_index = 0, df_num_trustees = 0, df_num_selections = 0,
          df_requested = replicate MAX_TRUSTEES False,
          partial_decryption_M = replicate MAX_TRUSTEES (replicate MAX_SELECTIONS 0),
          lagrange_coefficient = 0, df_cp_proofs = []\<rparr> (message_reading decryption_fragments);
       let i = unat (df_trustee_index rep);
       if num_tallies < unat (df_num_selections rep) \<or>
          0 < df_num_selections rep \<and> list_ex (\<lambda>k. df_requested rep ! k) [n..<unat (df_num_trustees rep)] then None
       else do {
       status \<leftarrow> (if ss_status st \<noteq> SERIALIZE_STATE_READING then Some DECRYPTION_COORDINATOR_DESERIALIZE_ERROR
                 else if dc_num_trustees c \<le> df_trustee_index rep
                 then Some DECRYPTION_COORDINATOR_INVALID_TRUSTEE_INDEX
                 else do {
                   a \<leftarrow> arr_get (dc_anounced c) i;
                   if \<not> a then Some DECRYPTION_COORDINATOR_INVALID_TRUSTEE_INDEX
                   else do {
                     r \<leftarrow> arr_get (dc_responded c) i;
                     Some (if r then DECRYPTION_COORDINATOR_DUPLICATE_TRUSTEE_INDEX
                           else DECRYPTION_COORDINATOR_SUCCESS) } });
       if status \<noteq> DECRYPTION_COORDINATOR_SUCCESS then Some (status, c)
       else if unat (df_num_trustees rep) < n then None
       else do {
         responded \<leftarrow> arr_set (dc_responded c) i True;
         counts \<leftarrow> for_array n (\<lambda>k count. do {
                     r \<leftarrow> arr_get (df_requested rep) k;
                     Some (if r then count + 1 else count) }) (dc_num_decryption_fragments c);
         tallies \<leftarrow> loop n
           (\<lambda>k tallies. do {
              r \<leftarrow> arr_get (df_requested rep) k;
              if r then do {
                row \<leftarrow> arr_get (partial_decryption_M rep) k;
                for_array num_tallies (add_fragment_step E G row (lagrange_coefficient rep)) tallies }
              else Some tallies }) (dc_tallies c);
         Some (status, c\<lparr>dc_responded := responded, dc_num_decryption_fragments := counts,
                         dc_tallies := tallies\<rparr>) } } }"

section \<open>The result\<close>

definition Decryption_Coordinator_all_trustees_seen_or_compensated :: "Decryption_Coordinator \<Rightarrow> bool option" where
  "Decryption_Coordinator_all_trustees_seen_or_compensated c =
     loop (unat (dc_num_trustees c))
       (\<lambda>i ok. do {
          a \<leftarrow> arr_get (dc_anounced c) i;
          if a then do { r \<leftarrow> arr_get (dc_responded c) i; Some (ok \<and> r) }
          else do {
            count \<leftarrow> arr_get (dc_num_decryption_fragments c) i;
            Some (ok \<and> count = dc_threshold c) } }) True"

text \<open>One tally: the logarithm, which may not be found in any time, and the line of output.\<close>

definition decrypt_tally_step ::
    "env \<Rightarrow> params \<Rightarrow> Decryption_Coordinator \<Rightarrow> nat \<Rightarrow>
     Decryption_Coordinator_status \<times> out_file \<times> u32 list \<Rightarrow>
     (Decryption_Coordinator_status \<times> out_file \<times> u32 list) option" where
  "decrypt_tally_step E G c i s =
     (case s of (status, out, results) \<Rightarrow>
        if status \<noteq> DECRYPTION_COORDINATOR_SUCCESS then Some s
        else do {
          t \<leftarrow> arr_get (dc_tallies c) i;
          let M = div_mod_p E G (message_encoding t) (nonce_encoding t);
          (found, decrypted_tally) \<leftarrow> log_generator_mod_p E G M;
          if \<not> found then Some (DECRYPTION_COORDINATOR_IO_ERROR, out, results)
          else do {
            results \<leftarrow> arr_set results i (word_of_int decrypted_tally);
            let preamble = ''tally '' @ fmt_dec i @ '': '';
            let (r, out) = fprintf out preamble;
            if r < int (length preamble) then Some (DECRYPTION_COORDINATOR_IO_ERROR, out, results)
            else do {
              (ok, out) \<leftarrow> Crypto_encryption_fprint E out t;
              if \<not> ok then Some (DECRYPTION_COORDINATOR_IO_ERROR, out, results)
              else
                let (r, out) = fprintf out [CHR 0x0A]
                in Some (if r < 1 then DECRYPTION_COORDINATOR_IO_ERROR else status, out, results) } } })"

definition Decryption_Coordinator_all_fragments_received ::
    "env \<Rightarrow> params \<Rightarrow> Decryption_Coordinator \<Rightarrow> out_file \<Rightarrow> u32 list \<Rightarrow>
     (Decryption_Coordinator_status \<times> out_file \<times> u32 list) option" where
  "Decryption_Coordinator_all_fragments_received E G c out tally_results_array =
     do {
       ok \<leftarrow> Decryption_Coordinator_all_trustees_seen_or_compensated c;
       loop (unat (dc_num_tallies c)) (decrypt_tally_step E G c)
         (if ok then DECRYPTION_COORDINATOR_SUCCESS else DECRYPTION_COORDINATOR_MISSING_TRUSTEES,
          out, tally_results_array) }"

end
