(* ===== verification/DecryptionTrustee.thy ===== *)
theory DecryptionTrustee
  imports Protocol Decimal
begin

text \<open>
  \<open>src/electionguard/decryption/trustee.c\<close>. The state is the structure behind the pointer
  \<open>Decryption_Trustee\<close>. The file of the voting record is the text not yet read. Each proof opens the
  random device anew: \<open>dev\<close> gives the device for the proof of each entry.
  \<open>Decryption_Trustee_free\<close> has no effect in the model.
\<close>

section \<open>State\<close>

datatype Decryption_Trustee_status =
    DECRYPTION_TRUSTEE_SUCCESS
  | DECRYPTION_TRUSTEE_INSUFFICIENT_MEMORY
  | DECRYPTION_TRUSTEE_INVALID_PARAMS
  | DECRYPTION_TRUSTEE_IO_ERROR
  | DECRYPTION_TRUSTEE_MALFORMED_INPUT
  | DECRYPTION_TRUSTEE_SERIALIZE_ERROR
  | DECRYPTION_TRUSTEE_DESERIALIZE_ERROR

record Decryption_Trustee =
  dt_num_trustees :: u32
  dt_threshold :: u32
  dt_num_selections :: u32
  dt_index :: u32
  dt_tallies :: "encryption_rep list"
  dt_private_key :: private_key
  dt_base_hash :: hash
  dt_my_key_shares :: "encrypted_key_share list"
  dt_rsa_private_key :: rsa_private_key

text \<open>
  The parameters are tested, but the state is read whatever the outcome, into arrays initialised for
  the parameters.
\<close>

definition Decryption_Trustee_new ::
    "env \<Rightarrow> params \<Rightarrow> u32 \<Rightarrow> u32 \<Rightarrow> u32 \<Rightarrow> message \<Rightarrow> raw_hash \<Rightarrow>
     (Decryption_Trustee_status \<times> Decryption_Trustee option) option" where
  "Decryption_Trustee_new E G num_trustees threshold selection_count message base_hash =
     do {
       let n = unat num_trustees;
       let status = (if \<not> valid_params num_trustees threshold then DECRYPTION_TRUSTEE_INVALID_PARAMS
                     else DECRYPTION_TRUSTEE_SUCCESS);
       priv \<leftarrow> Crypto_private_key_init \<lparr>priv_threshold = 0, coefficients = blank_array\<rparr> (unat threshold);
       ss \<leftarrow> for_array n (\<lambda>_ _. Some Crypto_encrypted_key_share_init) blank_array;
       (rep, st) \<leftarrow> Serialize_read_trustee_state n E
         \<lparr>ts_index = 0, ts_private_key = priv, ts_my_key_shares = ss,
          ts_rsa_private_key = Crypto_rsa_private_key_new\<rparr> (message_reading message);
       if \<not> priv_threshold (ts_private_key rep) \<le> threshold then None else
       let status = (if ss_status st \<noteq> SERIALIZE_STATE_READING then DECRYPTION_TRUSTEE_DESERIALIZE_ERROR
                     else status)
       in if status \<noteq> DECRYPTION_TRUSTEE_SUCCESS then Some (status, None)
       else case malloc E 32280 of
         None \<Rightarrow> Some (DECRYPTION_TRUSTEE_INSUFFICIENT_MEMORY, None)
       | Some _ \<Rightarrow> do {
           priv \<leftarrow> Crypto_private_key_init \<lparr>priv_threshold = 0, coefficients = blank_array\<rparr> (unat threshold);
           priv \<leftarrow> Crypto_private_key_copy priv (ts_private_key rep);
           shares \<leftarrow> for_array n (\<lambda>i _. do {
                       src \<leftarrow> arr_get (ts_my_key_shares rep) i;
                       Some (Crypto_encrypted_key_share_copy Crypto_encrypted_key_share_init src) }) blank_array;
           Some (status,
             Some \<lparr>dt_num_trustees = num_trustees, dt_threshold = threshold,
                   dt_num_selections = selection_count, dt_index = ts_index rep,
                   dt_tallies = replicate MAX_SELECTIONS Crypto_encryption_homomorphic_zero,
                   dt_private_key = priv, dt_base_hash = Crypto_hash_reduce E G base_hash,
                   dt_my_key_shares = shares,
                   dt_rsa_private_key = Crypto_rsa_private_key_copy Crypto_rsa_private_key_new
                     (ts_rsa_private_key rep)\<rparr>) } }"

section \<open>Tallying\<close>

text \<open>One selection: five reads, each only when the ones before succeeded.\<close>

definition read_selection_step ::
    "env \<Rightarrow> nat \<Rightarrow> Decryption_Trustee_status \<times> string \<times> encryption_rep list \<Rightarrow>
     (Decryption_Trustee_status \<times> string \<times> encryption_rep list) option" where
  "read_selection_step E i s =
     (case s of (status, inp, sels) \<Rightarrow>
        if status \<noteq> DECRYPTION_TRUSTEE_SUCCESS then Some s
        else do {
          e \<leftarrow> arr_get sels i;
          let (num_read, inp) = fscanf_lit ''('' (fscanf_space inp);
          let ok = (num_read = 0);
          let (ok, n, inp) = (if ok then mpz_t_fscan E inp (nonce_encoding e) else (ok, nonce_encoding e, inp));
          let (ok, inp) = (if ok then let (r, inp) = fscanf_lit '','' inp in (r = 0, inp) else (ok, inp));
          let (ok, m, inp) = (if ok then mpz_t_fscan E inp (message_encoding e) else (ok, message_encoding e, inp));
          let (ok, inp) = (if ok then let (r, inp) = fscanf_lit '')'' inp in (r = 0, inp) else (ok, inp));
          sels \<leftarrow> arr_set sels i \<lparr>nonce_encoding = n, message_encoding = m\<rparr>;
          Some (if ok then status else DECRYPTION_TRUSTEE_IO_ERROR, inp, sels) })"

text \<open>The status, the identifier, whether the ballot was cast, the selections and the rest.\<close>

definition Decryption_Trustee_read_ballot ::
    "env \<Rightarrow> string \<Rightarrow> u32 \<Rightarrow> encryption_rep list \<Rightarrow>
     (Decryption_Trustee_status \<times> u64 \<times> bool \<times> encryption_rep list \<times> string) option" where
  "Decryption_Trustee_read_ballot E inp selection_count sels =
     do {
       (r, cast_tmp, inp) \<leftarrow> fscanf_d inp;
       (r, identifier, inp) \<leftarrow> (if r = 1 then fscanf_lu (fscanf_space inp) else Some (r, 0, inp));
       let status = (if r = 1 then DECRYPTION_TRUSTEE_SUCCESS else DECRYPTION_TRUSTEE_IO_ERROR);
       (status, inp, sels) \<leftarrow> loop (unat selection_count) (read_selection_step E) (status, inp, sels);
       Some (status, identifier, cast_tmp \<noteq> 0, sels, inp) }"

definition Decryption_Trustee_accum_tally ::
    "env \<Rightarrow> params \<Rightarrow> Decryption_Trustee \<Rightarrow> encryption_rep list \<Rightarrow> Decryption_Trustee option" where
  "Decryption_Trustee_accum_tally E G t sels =
     do {
       tallies \<leftarrow> for_array (unat (dt_num_selections t)) (\<lambda>i tally. do {
                    s \<leftarrow> arr_get sels i;
                    Some (Crypto_encryption_homomorphic_add E G tally s) }) (dt_tallies t);
       Some (t\<lparr>dt_tallies := tallies\<rparr>) }"

definition tally_ballot_step ::
    "env \<Rightarrow> params \<Rightarrow> nat \<Rightarrow> Decryption_Trustee_status \<times> string \<times> Decryption_Trustee \<Rightarrow>
     (Decryption_Trustee_status \<times> string \<times> Decryption_Trustee) option" where
  "tally_ballot_step E G i s =
     (case s of (status, inp, t) \<Rightarrow>
        if status \<noteq> DECRYPTION_TRUSTEE_SUCCESS then Some s
        else do {
          sels \<leftarrow> for_array (unat (dt_num_selections t)) (\<lambda>_ _. Some Crypto_encryption_rep_new)
                          (replicate MAX_SELECTIONS Crypto_encryption_rep_new);
          (status, _, is_cast, sels, inp) \<leftarrow>
            Decryption_Trustee_read_ballot E inp (dt_num_selections t) sels;
          t \<leftarrow> (if status = DECRYPTION_TRUSTEE_SUCCESS \<and> is_cast
               then Decryption_Trustee_accum_tally E G t sels else Some t);
          Some (status, inp, t) })"

definition Decryption_Trustee_tally_voting_record ::
    "env \<Rightarrow> params \<Rightarrow> string \<Rightarrow> Decryption_Trustee \<Rightarrow>
     (Decryption_Trustee_status \<times> string \<times> Decryption_Trustee) option" where
  "Decryption_Trustee_tally_voting_record E G inp t =
     do {
       (r, num_ballots, inp) \<leftarrow> fscanf_lu inp;
       let status = (if r \<noteq> 1 then DECRYPTION_TRUSTEE_IO_ERROR else DECRYPTION_TRUSTEE_SUCCESS);
       let inp = (if r = 1 then fscanf_space inp else inp);
       (r, selection_count, inp) \<leftarrow> fscanf_lu inp;
       let status = (if r \<noteq> 1 then DECRYPTION_TRUSTEE_IO_ERROR
                     else if selection_count \<noteq> ucast (dt_num_selections t) then DECRYPTION_TRUSTEE_MALFORMED_INPUT
                     else status);
       let inp = (if r = 1 then fscanf_space inp else inp);
       if status \<noteq> DECRYPTION_TRUSTEE_SUCCESS then Some (status, inp, t)
       else loop (unat num_ballots) (tally_ballot_step E G) (status, inp, t) }"

section \<open>The share of the tally\<close>

text \<open>The proofs are generated and checked, but neither sent nor is the result of the check looked at.\<close>

definition share_proof ::
    "env \<Rightarrow> params \<Rightarrow> random_source option \<Rightarrow> Decryption_Trustee \<Rightarrow> int \<Rightarrow> int \<Rightarrow> encryption_rep \<Rightarrow>
     (cp_proof_rep \<times> bool) option" where
  "share_proof E G dev t secret partial tally =
     do {
       pf \<leftarrow> Crypto_generate_decryption_cp_proof E G dev secret partial tally (dt_base_hash t);
       let public_key = pow_mod_p E G (generator G) secret;
       Some (pf, Crypto_check_decryption_cp_proof E G pf public_key partial tally (dt_base_hash t)) }"

definition compute_share_step ::
    "env \<Rightarrow> params \<Rightarrow> (nat \<Rightarrow> random_source option) \<Rightarrow> Decryption_Trustee \<Rightarrow> nat \<Rightarrow> encryption_rep \<Rightarrow>
     encryption_rep option" where
  "compute_share_step E G dev t i _ =
     do {
       tally \<leftarrow> arr_get (dt_tallies t) i;
       secret \<leftarrow> arr_get (coefficients (dt_private_key t)) 0;
       let partial = pow_mod_p E G (nonce_encoding tally) secret;
       (pf, _) \<leftarrow> share_proof E G (dev i) t secret partial tally;
       Some \<lparr>nonce_encoding = partial, message_encoding = message_encoding tally\<rparr> }"

definition Decryption_Trustee_compute_share ::
    "env \<Rightarrow> params \<Rightarrow> (nat \<Rightarrow> random_source option) \<Rightarrow> Decryption_Trustee \<Rightarrow>
     (Decryption_Trustee_status \<times> message option) option" where
  "Decryption_Trustee_compute_share E G dev t =
     do {
       shares \<leftarrow> for_array (unat (dt_num_selections t)) (compute_share_step E G dev t)
                   (replicate MAX_SELECTIONS Crypto_encryption_rep_new);
       let rep = \<lparr>ds_trustee_index = dt_index t, ds_num_tallies = ucast (dt_num_selections t),
                  tally_share = shares, ds_cp_proofs = []\<rparr>;
       out \<leftarrow> send E (Serialize_reserve_decryption_share rep) (Serialize_write_decryption_share E rep);
       Some (if out = None then DECRYPTION_TRUSTEE_SERIALIZE_ERROR else DECRYPTION_TRUSTEE_SUCCESS, out) }"

section \<open>The fragments for missing trustees\<close>

definition compute_size_of_available_trustees :: "bool list \<Rightarrow> u32 \<Rightarrow> nat option" where
  "compute_size_of_available_trustees requested num_trustees =
     loop (unat num_trustees) (\<lambda>i sz. do { r \<leftarrow> arr_get requested i; Some (if \<not> r then sz + 1 else sz) }) 0"

definition create_array_of_available_trustees ::
    "nat list \<Rightarrow> bool list \<Rightarrow> u32 \<Rightarrow> nat list option" where
  "create_array_of_available_trustees arr requested num_trustees =
     do {
       (arr, _) \<leftarrow> loop (unat num_trustees)
         (\<lambda>i (arr, j). do {
            r \<leftarrow> arr_get requested i;
            if \<not> r then do { arr \<leftarrow> arr_set arr j i; Some (arr, j + 1) } else Some (arr, j) }) (arr, 0);
       Some arr }"

definition product_1 :: "env \<Rightarrow> params \<Rightarrow> nat \<Rightarrow> nat list \<Rightarrow> nat \<Rightarrow> int option" where
  "product_1 E G ai arr sz =
     loop sz (\<lambda>i product. do {
       a \<leftarrow> arr_get arr i;
       Some (if ai \<noteq> a then mul_mod_q E G product (int (a + 1)) else product) }) 1"

definition product_2 :: "env \<Rightarrow> params \<Rightarrow> nat \<Rightarrow> nat list \<Rightarrow> nat \<Rightarrow> int option" where
  "product_2 E G ai arr sz =
     loop sz (\<lambda>i product. do {
       a \<leftarrow> arr_get arr i;
       Some (if ai \<noteq> a
             then let tmp = sub_mod_q E G (int (a + 1)) (int (ai + 1)) in mul_mod_q E G product tmp
             else product) }) 1"

text \<open>The rows of the partial decryptions and of the proofs for a missing trustee.\<close>

definition fragment_row ::
    "env \<Rightarrow> params \<Rightarrow> Decryption_Trustee \<Rightarrow> int \<Rightarrow> int list \<Rightarrow> int list option" where
  "fragment_row E G t origin row =
     for_array (unat (dt_num_selections t)) (\<lambda>j _. do {
       tally \<leftarrow> arr_get (dt_tallies t) j;
       Some (pow_mod_p E G (nonce_encoding tally) origin) }) row"

definition fragment_proofs ::
    "env \<Rightarrow> params \<Rightarrow> (nat \<Rightarrow> random_source option) \<Rightarrow> Decryption_Trustee \<Rightarrow> int \<Rightarrow> int list \<Rightarrow> cp_proof_rep list option" where
  "fragment_proofs E G dev t origin row =
     loop (unat (dt_num_selections t)) (\<lambda>j pfs. do {
       tally \<leftarrow> arr_get (dt_tallies t) j;
       partial \<leftarrow> arr_get row j;
       (pf, _) \<leftarrow> share_proof E G (dev j) t origin partial tally;
       Some (pfs @ [pf]) }) []"

text \<open>The coefficient of trustee \<open>ai\<close> for the trustees that are not requested.\<close>

definition lagrange_of :: "env \<Rightarrow> params \<Rightarrow> nat \<Rightarrow> bool list \<Rightarrow> u32 \<Rightarrow> int option" where
  "lagrange_of E G ai requested num_trustees =
     do {
       sz \<leftarrow> compute_size_of_available_trustees requested num_trustees;
       if sz = 0 then None
       else do {
         arr \<leftarrow> create_array_of_available_trustees (replicate sz 0) requested num_trustees;
         product_U \<leftarrow> product_1 E G ai arr sz;
         product_D \<leftarrow> product_2 E G ai arr sz;
         Some (div_mod_q E G product_U product_D) } }"

text \<open>
  A request about fewer trustees leaves entries of \<open>requested\<close> indeterminate; one that asks for
  trustees behind the own number would send numbers that were never initialised.
\<close>

definition Decryption_Trustee_compute_fragments ::
    "env \<Rightarrow> params \<Rightarrow> (nat \<Rightarrow> nat \<Rightarrow> random_source option) \<Rightarrow> message \<Rightarrow> Decryption_Trustee \<Rightarrow>
     (Decryption_Trustee_status \<times> message option) option" where
  "Decryption_Trustee_compute_fragments E G dev req t =
     do {
       let n = unat (dt_num_trustees t);
       (req_rep, st) \<leftarrow> Serialize_read_decryption_fragments_request
         \<lparr>req_num_trustees = 0, req_requested = replicate MAX_TRUSTEES False\<rparr> (message_reading req);
       if ss_status st \<noteq> SERIALIZE_STATE_READING then Some (DECRYPTION_TRUSTEE_DESERIALIZE_ERROR, None)
       else if unat (req_num_trustees req_rep) < n \<or>
         0 < dt_num_selections t \<and> list_ex (\<lambda>k. req_requested req_rep ! k) [n..<unat (req_num_trustees req_rep)]
       then None
       else do {
         let requested = req_requested req_rep;
         Ms \<leftarrow> for_array n (\<lambda>i row. do {
                 r \<leftarrow> arr_get requested i;
                 if r then do {
                   share \<leftarrow> arr_get (dt_my_key_shares t) i;
                   fragment_row E G t (RSA_Decrypt E share (dt_rsa_private_key t)) row }
                 else Some row }) (replicate MAX_TRUSTEES (replicate MAX_SELECTIONS 0));
         w \<leftarrow> lagrange_of E G (unat (dt_index t)) requested (dt_num_trustees t);
         pfs \<leftarrow> for_array n (\<lambda>i pfs. do {
                 r \<leftarrow> arr_get requested i;
                 if r then do {
                   share \<leftarrow> arr_get (dt_my_key_shares t) i;
                   row \<leftarrow> arr_get Ms i;
                   fragment_proofs E G (dev i) t (RSA_Decrypt E share (dt_rsa_private_key t)) row }
                 else Some pfs }) (replicate MAX_TRUSTEES []);
         let rep = \<lparr>df_trustee_index = dt_index t, df_num_trustees = req_num_trustees req_rep,
                    df_num_selections = dt_num_selections t, df_requested = requested,
                    partial_decryption_M = Ms, lagrange_coefficient = w, df_cp_proofs = pfs\<rparr>;
         out \<leftarrow> send E (Serialize_reserve_decryption_fragments rep) (Serialize_write_decryption_fragments E rep);
         Some (if out = None then DECRYPTION_TRUSTEE_SERIALIZE_ERROR else DECRYPTION_TRUSTEE_SUCCESS, out) } }"

end
