(* ===== verification/Lagrange.thy ===== *)
theory Lagrange
  imports DecryptionTrustee Complex_Main
begin

text \<open>
  Interpolation at zero. The coefficients \<open>lam X i\<close> over a field recover the value at 0 of a
  polynomial of degree below the number of points; clearing denominators carries this to the
  integers modulo \<open>q\<close>, where the trustees compute.
\<close>

section \<open>Over a field\<close>

definition lam :: "'a::field set \<Rightarrow> 'a \<Rightarrow> 'a" where
  "lam X i = (\<Prod>j\<in>X - {i}. j / (j - i))"

definition moment :: "nat \<Rightarrow> 'a::field set \<Rightarrow> 'a" where
  "moment k X = (\<Sum>i\<in>X. i ^ k * lam X i)"

lemma lam_insert:
  assumes "finite X" "z \<notin> X" "i \<in> X"
  shows "lam (insert z X) i = z / (z - i) * lam X i"
proof -
  have "insert z X - {i} = insert z (X - {i})" using assms by auto
  then show ?thesis using assms by (simp add: lam_def)
qed

lemma moment_Suc:
  assumes "finite X" "z \<notin> X"
  shows "moment (Suc k) (insert z X) = z * (moment k (insert z X) - moment k X)"
proof -
  let ?Y = "insert z X"
  have "z * moment k ?Y - moment (Suc k) ?Y = (\<Sum>i\<in>?Y. (z - i) * (i ^ k * lam ?Y i))"
    by (simp only: moment_def sum_distrib_left sum_subtractf [symmetric] power_Suc left_diff_distrib mult.assoc)
  also have "\<dots> = (\<Sum>i\<in>X. (z - i) * (i ^ k * lam ?Y i))"
    using assms by simp
  also have "\<dots> = (\<Sum>i\<in>X. z * (i ^ k * lam X i))"
  proof (rule sum.cong)
    fix i assume "i \<in> X"
    then have "z - i \<noteq> 0" using assms(2) by auto
    then show "(z - i) * (i ^ k * lam ?Y i) = z * (i ^ k * lam X i)"
      by (simp add: lam_insert [OF assms \<open>i \<in> X\<close>])
  qed simp
  also have "\<dots> = z * moment k X" by (simp add: moment_def sum_distrib_left)
  finally show ?thesis by (simp add: algebra_simps)
qed

lemma moment_0: "finite X \<Longrightarrow> X \<noteq> {} \<Longrightarrow> moment 0 X = 1"
proof (induction "card X" arbitrary: X rule: less_induct)
  case less
  show ?case
  proof (cases "\<exists>z. X = {z}")
    case True
    then show ?thesis by (auto simp: moment_def lam_def)
  next
    case False
    obtain z where z: "z \<in> X" using less.prems(2) by blast
    with False obtain w where w: "w \<in> X" "w \<noteq> z" by blast
    have step: "moment 1 X = x * (moment 0 X - 1)" if "x \<in> X" "y \<in> X" "y \<noteq> x" for x y
    proof -
      have "moment 0 (X - {x}) = 1"
        using that less.prems(1) by (intro less.hyps card_Diff1_less) auto
      then show ?thesis
        using moment_Suc [of "X - {x}" x 0] that less.prems(1) by (simp add: insert_absorb)
    qed
    have "z * (moment 0 X - 1) = w * (moment 0 X - 1)"
      using step [OF z w] step [OF w(1) z] w(2) by simp
    with w(2) show ?thesis by simp
  qed
qed

lemma moment_pos: "finite X \<Longrightarrow> 0 < k \<Longrightarrow> k < card X \<Longrightarrow> moment k X = 0"
proof (induction k arbitrary: X)
  case (Suc k)
  obtain z where z: "z \<in> X" using Suc.prems(3) by fastforce
  let ?X = "X - {z}"
  have X: "finite ?X" "z \<notin> ?X" "insert z ?X = X" "card X = Suc (card ?X)"
    using Suc.prems(1) z card.remove [OF Suc.prems(1) z] by (auto simp: insert_absorb)
  have "card ?X \<noteq> 0" using Suc.prems(3) X(4) by simp
  then have "?X \<noteq> {}" by (metis card.empty)
  then have n: "?X \<noteq> {}" "X \<noteq> {}" using z by blast+
  show ?case
  proof (cases "k = 0")
    case True
    then show ?thesis using moment_Suc [OF X(1,2), of k] X moment_0 [OF X(1) n(1)] moment_0 [OF Suc.prems(1) n(2)] by simp
  next
    case False
    then have "moment k ?X = 0" "moment k X = 0" using Suc.IH [of ?X] Suc.IH [of X] Suc.prems X by simp_all
    then show ?thesis using moment_Suc [OF X(1,2), of k] X(3) by simp
  qed
qed simp

lemma interpolate:
  assumes "finite X" "0 < n" "n \<le> card X"
  shows "(\<Sum>x\<in>X. (\<Sum>j<n. c j * x ^ j) * lam X x) = c 0"
proof -
  have "(\<Sum>x\<in>X. (\<Sum>j<n. c j * x ^ j) * lam X x) = (\<Sum>x\<in>X. \<Sum>j<n. c j * (x ^ j * lam X x))"
    by (simp add: sum_distrib_right mult.assoc)
  also have "\<dots> = (\<Sum>j<n. c j * moment j X)"
    by (subst sum.swap) (simp add: moment_def sum_distrib_left)
  also have "\<dots> = (\<Sum>j<n. if j = 0 then c 0 else 0)"
  proof (rule sum.cong)
    fix j assume j: "j \<in> {..<n}"
    have "X \<noteq> {}" using assms by auto
    then show "c j * moment j X = (if j = 0 then c 0 else 0)"
      using moment_0 [OF assms(1)] moment_pos [OF assms(1), of j] j assms(3) by auto
  qed simp
  also have "\<dots> = c 0" using assms(2) by simp
  finally show ?thesis .
qed

section \<open>Modulo \<open>q\<close>\<close>

definition others :: "int set \<Rightarrow> int \<Rightarrow> int" where
  "others X x = (\<Prod>y\<in>X - {x}. y)"

definition differences :: "int set \<Rightarrow> int \<Rightarrow> int" where
  "differences X x = (\<Prod>y\<in>X - {x}. y - x)"

lemma differences_nonzero: "finite X \<Longrightarrow> differences X x \<noteq> 0"
  by (auto simp: differences_def)

lemma lam_of_int:
  assumes "finite X"
  shows "lam (of_int ` X) (of_int x :: rat) = of_int (others X x) / of_int (differences X x)"
proof -
  have "of_int ` X - {of_int x :: rat} = of_int ` (X - {x})" by auto
  then have "lam (of_int ` X) (of_int x :: rat) = (\<Prod>y\<in>X - {x}. of_int y / (of_int y - of_int x))"
    by (simp add: lam_def prod.reindex inj_on_def)
  also have "\<dots> = of_int (others X x) / of_int (differences X x)"
    by (simp add: others_def differences_def prod_dividef)
  finally show ?thesis .
qed

lemma interpolate_int:
  assumes X: "finite X" "0 < n" "n \<le> card X"
  shows "(\<Sum>x\<in>X. (\<Sum>j<n. c j * x ^ j) * others X x * (\<Prod>y\<in>X - {x}. differences X y))
    = c 0 * (\<Prod>y\<in>X. differences X y)"
proof -
  let ?r = "of_int :: int \<Rightarrow> rat" and ?D = "\<Prod>y\<in>X. differences X y"
  have "(\<Sum>x\<in>X. ?r (\<Sum>j<n. c j * x ^ j) * (?r (others X x) / ?r (differences X x))) = ?r (c 0)"
    using interpolate [of "?r ` X" n "\<lambda>j. ?r (c j)"] X
    by (simp add: sum.reindex inj_on_def card_image lam_of_int)
  then have "(\<Sum>x\<in>X. ?r (\<Sum>j<n. c j * x ^ j) * (?r (others X x) / ?r (differences X x)) * ?r ?D) = ?r (c 0) * ?r ?D"
    by (simp only: sum_distrib_right [symmetric])
  moreover have "?r (\<Sum>j<n. c j * x ^ j) * (?r (others X x) / ?r (differences X x)) * ?r ?D
      = ?r ((\<Sum>j<n. c j * x ^ j) * others X x * (\<Prod>y\<in>X - {x}. differences X y))" if "x \<in> X" for x
  proof -
    have "?D = differences X x * (\<Prod>y\<in>X - {x}. differences X y)" using X(1) that by (rule prod.remove)
    moreover have "?r (differences X x) \<noteq> 0" using differences_nonzero [OF X(1)] by simp
    ultimately show ?thesis by simp
  qed
  ultimately have "?r (\<Sum>x\<in>X. (\<Sum>j<n. c j * x ^ j) * others X x * (\<Prod>y\<in>X - {x}. differences X y))
      = ?r (c 0 * ?D)"
    by (simp only: of_int_sum of_int_mult) (simp del: of_int_sum of_int_mult of_int_prod)
  then show ?thesis by (simp only: of_int_eq_iff)
qed

lemma interpolate_mod:
  assumes X: "finite X" "0 < n" "n \<le> card X"
    and v: "\<And>x. x \<in> X \<Longrightarrow> coprime (differences X x) q \<and> (differences X x * v x) mod q = 1 mod q"
  shows "(\<Sum>x\<in>X. (\<Sum>j<n. c j * x ^ j) * (others X x * v x)) mod q = c 0 mod q"
proof -
  let ?D = "\<Prod>y\<in>X. differences X y" and ?E = "\<lambda>x. \<Prod>y\<in>X - {x}. differences X y"
  let ?P = "\<lambda>x. \<Sum>j<n. c j * x ^ j"
  have D: "?D = differences X x * ?E x" if "x \<in> X" for x using X(1) that by (rule prod.remove)
  have "((\<Sum>x\<in>X. ?P x * (others X x * v x)) - c 0) * ?D
      = (\<Sum>x\<in>X. ?P x * (others X x * v x) * ?D) - (\<Sum>x\<in>X. ?P x * others X x * ?E x)"
    unfolding interpolate_int [OF X] by (simp only: sum_distrib_right left_diff_distrib)
  also have "\<dots> = (\<Sum>x\<in>X. ?P x * others X x * ?E x * (differences X x * v x - 1))"
    unfolding sum_subtractf [symmetric]
    by (rule sum.cong) (simp_all add: D algebra_simps)
  finally have e: "((\<Sum>x\<in>X. ?P x * (others X x * v x)) - c 0) * ?D
      = (\<Sum>x\<in>X. ?P x * others X x * ?E x * (differences X x * v x - 1))" .
  have "q dvd (\<Sum>x\<in>X. ?P x * others X x * ?E x * (differences X x * v x - 1))"
    using v by (intro dvd_sum dvd_mult) (simp add: mod_eq_dvd_iff)
  then have "q dvd ((\<Sum>x\<in>X. ?P x * (others X x * v x)) - c 0) * ?D" by (simp only: e)
  moreover have "coprime ?D q" using v by (intro prod_coprime_left) simp
  ultimately show ?thesis
    by (simp add: coprime_dvd_mult_left_iff coprime_commute mod_eq_dvd_iff)
qed

section \<open>The coefficients the code computes\<close>

text \<open>The trustees that are not requested, and their points.\<close>

definition available :: "bool list \<Rightarrow> u32 \<Rightarrow> nat list" where
  "available requested n = filter (\<lambda>i. \<not> requested ! i) [0..<unat n]"

definition points :: "nat list \<Rightarrow> int set" where
  "points arr = (\<lambda>i. int (i + 1)) ` set arr"

lemma distinct_available [simp]: "distinct (available requested n)"
  by (simp add: available_def)

lemma card_points: "distinct arr \<Longrightarrow> card (points arr) = length arr"
  by (simp add: points_def card_image inj_on_def distinct_card)

lemma sum_points: "distinct arr \<Longrightarrow> (\<Sum>x\<in>points arr. f x) = (\<Sum>i\<leftarrow>arr. f (int (i + 1)))"
  by (simp add: points_def sum.reindex inj_on_def sum_list_distinct_conv_sum_set)

lemma compute_size_eq:
  assumes "unat n \<le> length requested"
  shows "compute_size_of_available_trustees requested n = Some (length (available requested n))"
proof -
  have "loop k (\<lambda>i sz. do { r \<leftarrow> arr_get requested i; Some (if \<not> r then sz + 1 else sz) }) 0
      = Some (length (filter (\<lambda>i. \<not> requested ! i) [0..<k]))" if "k \<le> length requested" for k
    using that by (induction k) auto
  from this [OF assms] show ?thesis
    by (simp add: compute_size_of_available_trustees_def available_def)
qed

lemma create_array_eq:
  assumes "unat n \<le> length requested"
  shows "create_array_of_available_trustees (replicate (length (available requested n)) 0) requested n
    = Some (available requested n)"
proof -
  let ?f = "\<lambda>k. filter (\<lambda>i. \<not> requested ! i) [0..<k]" and ?n = "unat n"
  have le: "length (?f k) \<le> length (?f ?n)" if "k \<le> ?n" for k
  proof -
    have "[0..<?n] = [0..<k] @ [k..<?n]" using upt_add_eq_append [of 0 k "?n - k"] that by simp
    then show ?thesis by simp
  qed
  have "loop k (\<lambda>i (arr, j). do {
            r \<leftarrow> arr_get requested i;
            if \<not> r then do { arr \<leftarrow> arr_set arr j i; Some (arr, j + 1) } else Some (arr, j) })
          (replicate (length (?f ?n)) 0, 0)
      = Some (?f k @ replicate (length (?f ?n) - length (?f k)) 0, length (?f k))" if "k \<le> ?n" for k
    using that
  proof (induction k)
    case (Suc k)
    have r: "arr_get requested k = Some (requested ! k)" using Suc.prems assms by simp
    show ?case
    proof (cases "requested ! k")
      case False
      then have l: "length (?f k) < length (?f ?n)" using le [OF Suc.prems] by simp
      then have "replicate (length (?f ?n) - length (?f k)) (0 :: nat)
          = 0 # replicate (length (?f ?n) - Suc (length (?f k))) 0"
        by (simp add: Suc_diff_Suc flip: replicate_Suc)
      with False Suc r l show ?thesis by (simp add: list_update_append)
    qed (use Suc r in simp)
  qed simp
  from this [OF order_refl] show ?thesis
    by (simp add: create_array_of_available_trustees_def available_def)
qed

lemma prod_points:
  "distinct arr \<Longrightarrow> (\<Prod>y\<in>(\<lambda>i. int (i + 1)) ` set arr. g y) = (\<Prod>a\<leftarrow>arr. g (int (a + 1)))"
  by (simp add: prod.reindex inj_on_def prod.distinct_set_conv_list)

lemma points_remove:
  "points arr - {int (ai + 1)} = (\<lambda>i. int (i + 1)) ` set (filter (\<lambda>a. ai \<noteq> a) arr)"
  by (auto simp: points_def)

lemma others_list:
  "distinct arr \<Longrightarrow> others (points arr) (int (ai + 1)) = (\<Prod>a\<leftarrow>filter (\<lambda>a. ai \<noteq> a) arr. int (a + 1))"
  unfolding others_def points_remove by (rule prod_points) simp

lemma differences_list:
  "distinct arr \<Longrightarrow> differences (points arr) (int (ai + 1)) = (\<Prod>a\<leftarrow>filter (\<lambda>a. ai \<noteq> a) arr. int (a + 1) - int (ai + 1))"
  unfolding differences_def points_remove by (rule prod_points) simp

context platform
begin

lemma product_1_eq:
  assumes G: "group_ok G"
  shows "product_1 E G ai arr (length arr) = Some ((\<Prod>a\<leftarrow>filter (\<lambda>a. ai \<noteq> a) arr. int (a + 1)) mod par_q G)"
proof -
  have "loop k (\<lambda>i product. do {
       a \<leftarrow> arr_get arr i;
       Some (if ai \<noteq> a then mul_mod_q E G product (int (a + 1)) else product) }) 1
      = Some ((\<Prod>a\<leftarrow>filter (\<lambda>a. ai \<noteq> a) (take k arr). int (a + 1)) mod par_q G)" if "k \<le> length arr" for k
    using that
    by (induction k) (use G in \<open>simp_all add: take_Suc_conv_app_nth mul_mod_q_eq mod_mult_left_eq\<close>)
  from this [OF order_refl] show ?thesis by (simp add: product_1_def)
qed

lemma product_2_eq:
  assumes G: "group_ok G"
  shows "product_2 E G ai arr (length arr)
    = Some ((\<Prod>a\<leftarrow>filter (\<lambda>a. ai \<noteq> a) arr. int (a + 1) - int (ai + 1)) mod par_q G)"
proof -
  have "loop k (\<lambda>i product. do {
       a \<leftarrow> arr_get arr i;
       Some (if ai \<noteq> a
             then let tmp = sub_mod_q E G (int (a + 1)) (int (ai + 1)) in mul_mod_q E G product tmp
             else product) }) 1
      = Some ((\<Prod>a\<leftarrow>filter (\<lambda>a. ai \<noteq> a) (take k arr). int (a + 1) - int (ai + 1)) mod par_q G)" if "k \<le> length arr" for k
    using that
    by (induction k) (use G in \<open>simp_all add: take_Suc_conv_app_nth arith_eqs Let_def mod_mult_eq\<close>)
  from this [OF order_refl] show ?thesis by (simp add: product_2_def)
qed

lemma lagrange_of_eq:
  assumes G: "group_ok G" and n: "unat n \<le> length requested" and i: "ai \<in> set (available requested n)"
  defines "X \<equiv> points (available requested n)"
  shows "lagrange_of E G ai requested n = Some (div_mod_q E G (others X (int (ai + 1)) mod par_q G)
    (differences X (int (ai + 1)) mod par_q G))"
proof -
  have "length (available requested n) \<noteq> 0" using i by auto
  then show ?thesis
    unfolding lagrange_of_def compute_size_eq [OF n] X_def others_list [OF distinct_available]
      differences_list [OF distinct_available]
    by (simp only: Option.bind.simps create_array_eq [OF n] product_1_eq [OF G] product_2_eq [OF G] if_False)
qed

end

lemma sum_mod_cong:
  fixes f g :: "'a \<Rightarrow> int"
  assumes "\<And>i. i \<in> A \<Longrightarrow> f i mod q = g i mod q"
  shows "sum f A mod q = sum g A mod q"
proof -
  have "sum f A mod q = (\<Sum>i\<in>A. f i mod q) mod q" by (simp add: mod_sum_eq)
  also have "\<dots> = (\<Sum>i\<in>A. g i mod q) mod q" using assms by simp
  also have "\<dots> = sum g A mod q" by (simp add: mod_sum_eq)
  finally show ?thesis .
qed

text \<open>The differences of two points are invertible when the numbers below \<open>MAX_TRUSTEES\<close> are.\<close>

definition small_invertible :: "params \<Rightarrow> bool" where
  "small_invertible G \<longleftrightarrow> list_all (\<lambda>d. coprime (int d) (par_q G)) [1..<MAX_TRUSTEES]"

lemma differences_coprime:
  assumes "small_invertible G" "\<forall>i \<in> set arr. i < MAX_TRUSTEES" "i \<in> set arr"
  shows "coprime (differences (points arr) (int (i + 1))) (par_q G)"
  unfolding differences_def
proof (rule prod_coprime_left)
  fix y assume "y \<in> points arr - {int (i + 1)}"
  then obtain j where j: "j \<in> set arr" "y = int (j + 1)" "j \<noteq> i" by (auto simp: points_def)
  define d where "d = nat \<bar>int j - int i\<bar>"
  have "j < MAX_TRUSTEES" "i < MAX_TRUSTEES" using j assms(2,3) by auto
  then have "d \<in> set [1..<MAX_TRUSTEES]" using j(3) by (auto simp: d_def)
  then have "coprime (int d) (par_q G)" using assms(1) by (simp add: small_invertible_def list_all_iff)
  moreover have "int d = \<bar>y - int (i + 1)\<bar>" by (simp add: d_def j)
  ultimately show "coprime (y - int (i + 1)) (par_q G)" by simp
qed

context platform
begin

lemma lagrange_recovers_value:
  assumes G: "group_ok G" "small_invertible G" and n: "unat n \<le> MAX_TRUSTEES" "length requested = MAX_TRUSTEES"
    and t: "0 < t" "t \<le> length (available requested n)"
  shows "\<exists>w. (\<forall>i \<in> set (available requested n). lagrange_of E G i requested n = Some (w i) \<and> 0 \<le> w i) \<and>
    (\<Sum>i\<leftarrow>available requested n. polynomial_at cs t (int (i + 1)) * w i) mod par_q G = cs ! 0 mod par_q G"
proof -
  let ?arr = "available requested n" and ?q = "par_q G"
  let ?X = "points ?arr"
  define v where "v x = mpz_invert E (differences ?X x mod ?q) ?q" for x
  define w where "w i = div_mod_q E G (others ?X (int (i + 1)) mod ?q) (differences ?X (int (i + 1)) mod ?q)" for i
  have small: "\<forall>i \<in> set ?arr. i < MAX_TRUSTEES" using n by (auto simp: available_def)
  have lag: "lagrange_of E G i requested n = Some (w i) \<and> 0 \<le> w i" if "i \<in> set ?arr" for i
    using lagrange_of_eq [OF G(1) _ that] n G(1) by (simp add: w_def div_mod_q_def mul_mod_q_eq)
  have inv: "coprime (differences ?X x) ?q \<and> (differences ?X x * v x) mod ?q = 1 mod ?q" if x: "x \<in> ?X" for x
  proof -
    obtain i where i: "i \<in> set ?arr" "x = int (i + 1)" using x by (auto simp: points_def)
    have c: "coprime (differences ?X x) ?q" using differences_coprime [OF G(2) small i(1)] i(2) by simp
    then have "coprime (differences ?X x mod ?q) ?q" using group_okD(4) [OF G(1)] by (simp add: coprime_mod_left_iff)
    then have "(differences ?X x mod ?q * v x) mod ?q = 1"
      unfolding v_def using G(1) by (intro mpz_invert_eq) simp_all
    with c G(1) show ?thesis by (simp add: mod_mult_left_eq)
  qed
  have "(\<Sum>i\<leftarrow>?arr. polynomial_at cs t (int (i + 1)) * w i) mod ?q
      = (\<Sum>x\<in>?X. polynomial_at cs t x * (others ?X x * v x)) mod ?q"
  proof -
    have "w i mod ?q = (others ?X (int (i + 1)) * v (int (i + 1))) mod ?q" for i
      using G(1) by (simp only: w_def v_def div_mod_q_def mul_mod_q_eq mod_mod_trivial mod_mult_left_eq)
    then have "(\<Sum>i\<in>set ?arr. polynomial_at cs t (int (i + 1)) * w i) mod ?q
      = (\<Sum>i\<in>set ?arr. polynomial_at cs t (int (i + 1)) * (others ?X (int (i + 1)) * v (int (i + 1)))) mod ?q"
      by (intro sum_mod_cong) (metis mod_mult_right_eq)
    then show ?thesis
      by (simp only: sum_points [OF distinct_available] sum_list_distinct_conv_sum_set [OF distinct_available])
  qed
  also have "\<dots> = cs ! 0 mod ?q"
    using interpolate_mod [of ?X t ?q v "\<lambda>j. cs ! j"] inv t
    by (simp add: card_points polynomial_at_def) (simp add: points_def)
  finally show ?thesis using lag by blast
qed

end

end
