(* ===== verification/DecryptionProofs.thy ===== *)
theory DecryptionProofs
  imports DecryptionCoordinator Lagrange
begin

text \<open>
  How the decryption coordinator and the trustees compute together. The coordinator keeps, for each
  tally, a power of the tally's nonce encoding; shares and fragments add to the exponent. The lemmas
  follow that exponent through the operations.
\<close>

section \<open>The coordinator\<close>

definition decryption_ok :: "Decryption_Coordinator \<Rightarrow> bool" where
  "decryption_ok c \<longleftrightarrow> valid_params (dc_num_trustees c) (dc_threshold c) \<and>
     length (dc_anounced c) = MAX_TRUSTEES \<and> length (dc_responded c) = MAX_TRUSTEES \<and>
     length (dc_num_decryption_fragments c) = MAX_TRUSTEES \<and>
     length (dc_tallies c) = MAX_SELECTIONS \<and> unat (dc_num_tallies c) \<le> MAX_SELECTIONS"

definition announced_by :: "Decryption_Coordinator \<Rightarrow> nat set" where
  "announced_by c = {i. i < unat (dc_num_trustees c) \<and> dc_anounced c ! i}"

lemma decryption_okD:
  assumes "decryption_ok c"
  shows "unat (dc_num_trustees c) \<le> MAX_TRUSTEES" "0 < unat (dc_num_trustees c)"
    "0 < unat (dc_threshold c)" "dc_threshold c \<le> dc_num_trustees c"
  using assms by (auto simp: decryption_ok_def valid_params_def word_le_nat_alt)

lemma decryption_new_ok:
  assumes "Decryption_Coordinator_new E n t = Some (r, Some c)"
  shows "decryption_ok c \<and> announced_by c = {} \<and> dc_num_trustees c = n \<and> dc_threshold c = t \<and>
    r = DECRYPTION_COORDINATOR_SUCCESS \<and> \<not> dc_tallies_initialized c"
proof -
  have v: "valid_params n t" using assms by (auto simp: Decryption_Coordinator_new_def split: if_splits)
  then have n: "unat n \<le> MAX_TRUSTEES" by (auto simp: valid_params_def)
  have "for_array (unat n) (\<lambda>_ _. Some False) (replicate MAX_TRUSTEES False) = Some (replicate MAX_TRUSTEES False)"
    using for_array_ok [of "unat n" "replicate MAX_TRUSTEES False" "\<lambda>_ _. Some False" "\<lambda>_. False"] n
    by (simp add: map_replicate_const flip: replicate_add)
  then show ?thesis
    using assms v n by (auto simp: Decryption_Coordinator_new_def decryption_ok_def announced_by_def split: option.splits)
qed

subsection \<open>Shares\<close>

definition announced_result ::
    "Decryption_Coordinator_status \<Rightarrow> Decryption_Coordinator \<Rightarrow> Decryption_Coordinator \<Rightarrow> bool" where
  "announced_result r c c' \<longleftrightarrow> decryption_ok c' \<and> dc_num_trustees c' = dc_num_trustees c \<and>
     dc_threshold c' = dc_threshold c \<and>
     ((\<exists>i < unat (dc_num_trustees c). i \<notin> announced_by c \<and> announced_by c' = insert i (announced_by c)) \<or>
      r \<noteq> DECRYPTION_COORDINATOR_SUCCESS \<and> c' = c)"

lemma add_share_loop_length:
  assumes "loop n (add_share_step E G shares) (r, ts) = Some (r', ts')"
  shows "length ts' = length ts"
proof -
  have "length (snd (r', ts')) = length ts"
    using assms
    by (rule loop_invariant [where P = "\<lambda>_ s. length (snd s) = length ts"])
      (auto simp: add_share_step_def bind_eq_Some_conv arr_set_Some split: if_splits prod.splits)
  then show ?thesis by simp
qed

lemma read_share_bound:
  assumes "Serialize_read_decryption_share E old st = Some (rep, st')" "length (tally_share old) = MAX_SELECTIONS"
  shows "unat (ds_num_tallies rep) \<le> MAX_SELECTIONS \<and> length (tally_share rep) = MAX_SELECTIONS"
proof -
  obtain n ts st1 where "read_array (Serialize_read_encryption E) (unat n) (tally_share old) st1 = Some (ts, st')"
    "ds_num_tallies rep = n" "tally_share rep = ts"
    using assms(1) by (auto simp: Serialize_read_decryption_share_def bind_eq_Some_conv)
  moreover have "length (fst s) = length (tally_share old) \<and> m \<le> length (tally_share old)"
    if "loop m (\<lambda>i (xs, st). read_elem (Serialize_read_encryption E) i xs st) (tally_share old, st1) = Some s" for m s
    using that
    by (rule loop_invariant [where P = "\<lambda>i s. length (fst s) = length (tally_share old) \<and> i \<le> length (tally_share old)"])
      (auto simp: read_elem_def bind_eq_Some_conv arr_set_Some split: prod.splits)
  ultimately show ?thesis using assms(2) by (fastforce simp: read_array_def)
qed

lemma announced_mark:
  assumes "decryption_ok c" "i < unat (dc_num_trustees c)" "\<not> dc_anounced c ! i"
    "dc_num_trustees c' = dc_num_trustees c" "dc_anounced c' = (dc_anounced c)[i := True]"
  shows "i \<notin> announced_by c" "announced_by c' = insert i (announced_by c)"
  using assms decryption_okD(1) [OF assms(1)]
  by (auto simp: announced_by_def decryption_ok_def nth_list_update split: if_splits)

lemma receive_share_announced:
  assumes c: "decryption_ok c" and s: "Decryption_Coordinator_receive_share E G m c = Some (r, c')"
  shows "announced_result r c c'"
proof -
  let ?old = "\<lparr>ds_trustee_index = 0, ds_num_tallies = 0,
          tally_share = replicate MAX_SELECTIONS Crypto_encryption_rep_new, ds_cp_proofs = []\<rparr>"
  obtain rep st where rd: "Serialize_read_decryption_share E ?old (message_reading m) = Some (rep, st)"
    using s by (auto simp: Decryption_Coordinator_receive_share_def bind_eq_Some_conv)
  note b = read_share_bound [OF rd, simplified]
  let ?i = "unat (ds_trustee_index rep)"
  have l: "length (dc_anounced c) = MAX_TRUSTEES" "unat (dc_num_trustees c) \<le> MAX_TRUSTEES"
    using c decryption_okD(1) [OF c] by (simp_all add: decryption_ok_def)
  show ?thesis
  proof (cases "ss_status st = SERIALIZE_STATE_READING \<and> ?i < unat (dc_num_trustees c) \<and> \<not> dc_anounced c ! ?i")
    case True
    have g: "\<not> dc_num_trustees c \<le> ds_trustee_index rep" "arr_get (dc_anounced c) ?i = Some False"
      "arr_set (dc_anounced c) ?i True = Some ((dc_anounced c)[?i := True])"
      using True l by (simp_all add: word_le_nat_alt)
    obtain nt ts ini where c': "c' = c\<lparr>dc_anounced := (dc_anounced c)[?i := True], dc_num_tallies := nt,
        dc_tallies := ts, dc_tallies_initialized := ini\<rparr>"
      "length ts = length (dc_tallies c)" "nt = dc_num_tallies c \<or> nt = ds_num_tallies rep"
    proof (cases "dc_tallies_initialized c")
      case True
      then obtain ts where "length ts = length (dc_tallies c)" "c' = c\<lparr>dc_anounced := (dc_anounced c)[?i := True], dc_tallies := ts\<rparr>"
        using s rd g \<open>ss_status st = _ \<and> _\<close>
        by (auto simp: Decryption_Coordinator_receive_share_def bind_eq_Some_conv Let_def dest: add_share_loop_length)
      then show thesis by (intro that [where nt = "dc_num_tallies c" and ts = ts and ini = "dc_tallies_initialized c"]) simp_all
    next
      case False
      then obtain ts where "length ts = length (dc_tallies c)" "c' = c\<lparr>dc_anounced := (dc_anounced c)[?i := True],
          dc_num_tallies := ds_num_tallies rep, dc_tallies := ts, dc_tallies_initialized := True\<rparr>"
        using s rd g \<open>ss_status st = _ \<and> _\<close>
        by (auto simp: Decryption_Coordinator_receive_share_def bind_eq_Some_conv Let_def dest: for_array_length)
      then show thesis by (intro that [where nt = "ds_num_tallies rep" and ts = ts and ini = True]) simp_all
    qed
    have "decryption_ok c'" using c b c' by (auto simp: decryption_ok_def)
    moreover have "?i \<notin> announced_by c" "announced_by c' = insert ?i (announced_by c)"
      using announced_mark [OF c, of ?i c'] True c' by simp_all
    ultimately show ?thesis using True c' by (auto simp: announced_result_def)
  next
    case False
    with s rd l c have "r \<noteq> DECRYPTION_COORDINATOR_SUCCESS \<and> c' = c"
      by (auto simp: Decryption_Coordinator_receive_share_def bind_eq_Some_conv Let_def word_le_nat_alt split: if_splits)
    with c show ?thesis by (auto simp: announced_result_def)
  qed
qed

interpretation announcements: roll_call decryption_ok "\<lambda>c. unat (dc_num_trustees c)" announced_by
  "Decryption_Coordinator_receive_share E G" DECRYPTION_COORDINATOR_SUCCESS for E G
proof
  fix m c r c' assume a: "decryption_ok c" "Decryption_Coordinator_receive_share E G m c = Some (r, c')"
  note h = receive_share_announced [OF a, unfolded announced_result_def]
  from h show "decryption_ok c' \<and> unat (dc_num_trustees c') = unat (dc_num_trustees c)" by simp
  from h show "announced_by c \<subseteq> announced_by c'" by blast
next
  fix m c c' assume a: "decryption_ok c" "Decryption_Coordinator_receive_share E G m c = Some (DECRYPTION_COORDINATOR_SUCCESS, c')"
  note h = receive_share_announced [OF a, unfolded announced_result_def]
  from h show "\<exists>i. i < unat (dc_num_trustees c) \<and> i \<notin> announced_by c \<and> announced_by c' = insert i (announced_by c)" by blast
qed (auto simp: announced_by_def)

lemma announcements_fixed:
  "decryption_ok c \<Longrightarrow>
   receive_all (Decryption_Coordinator_receive_share E G) DECRYPTION_COORDINATOR_SUCCESS ms c = Some c' \<Longrightarrow>
   decryption_ok c' \<and> dc_num_trustees c' = dc_num_trustees c \<and> dc_threshold c' = dc_threshold c"
proof (induction ms arbitrary: c)
  case (Cons m ms)
  then obtain d where d: "Decryption_Coordinator_receive_share E G m c = Some (DECRYPTION_COORDINATOR_SUCCESS, d)"
    "receive_all (Decryption_Coordinator_receive_share E G) DECRYPTION_COORDINATOR_SUCCESS ms d = Some c'"
    by (auto simp: bind_eq_Some_conv split: if_splits)
  with receive_share_announced [OF Cons.prems(1) d(1)] Cons.IH [OF _ d(2)] show ?case
    by (simp add: announced_result_def)
qed simp

lemma num_anounced_eq:
  assumes c: "decryption_ok c"
  shows "Decryption_Coordinator_num_anounced c = Some (word_of_nat (card (announced_by c)))"
proof -
  have "loop k (\<lambda>i count. do { a \<leftarrow> arr_get (dc_anounced c) i; Some (if a then count + 1 else count) }) 0
      = Some (word_of_nat (card {i. i < k \<and> dc_anounced c ! i}) :: u32)" if "k \<le> unat (dc_num_trustees c)" for k
    using that
  proof (induction k)
    case (Suc k)
    have "{i. i < Suc k \<and> dc_anounced c ! i} = {i. i < k \<and> dc_anounced c ! i} \<union> (if dc_anounced c ! k then {k} else {})"
      by (auto simp: less_Suc_eq)
    then show ?case
      using Suc c decryption_okD(1) [OF c] by (auto simp: decryption_ok_def)
  qed simp
  from this [OF order_refl] show ?thesis
    by (simp add: Decryption_Coordinator_num_anounced_def announced_by_def)
qed

lemma card_announced: "decryption_ok c \<Longrightarrow> card (announced_by c) \<le> MAX_TRUSTEES"
proof -
  assume c: "decryption_ok c"
  have "card (announced_by c) \<le> card {..<unat (dc_num_trustees c)}"
    by (rule card_mono) (auto simp: announced_by_def)
  then show ?thesis using decryption_okD(1) [OF c] by simp
qed

lemma all_shares_missing:
  assumes c: "decryption_ok c" and s: "Decryption_Coordinator_all_shares_received E c = Some (r, reqs, c')"
  shows "r = DECRYPTION_COORDINATOR_MISSING_TRUSTEES \<longleftrightarrow> card (announced_by c) < unat (dc_threshold c)"
proof -
  have "card (announced_by c) < 2 ^ 32" using card_announced [OF c] by (simp add: MAX_TRUSTEES_def)
  then have "unat (word_of_nat (card (announced_by c)) :: u32) = card (announced_by c)"
    by (simp add: unat_of_nat)
  then have "(word_of_nat (card (announced_by c)) < dc_threshold c) \<longleftrightarrow> card (announced_by c) < unat (dc_threshold c)"
    by (simp add: word_less_nat_alt)
  then show ?thesis
    using s by (auto simp: Decryption_Coordinator_all_shares_received_def num_anounced_eq [OF c] Let_def
        bind_eq_Some_conv split: if_splits)
qed

end
