(* ===== verification/Threshold.thy ===== *)
theory Threshold
  imports DecryptionProofs CryptoProofs
begin

text \<open>
  Threshold decryption. The coordinator's tallies are the original tallies with the nonce encoding
  raised to an exponent; the lemmas follow that exponent through the shares and the fragments.
\<close>

section \<open>The exponent\<close>

definition raised_list :: "env \<Rightarrow> params \<Rightarrow> encryption_rep list \<Rightarrow> int \<Rightarrow> encryption_rep list \<Rightarrow> bool" where
  "raised_list E G xs e ts \<longleftrightarrow> length ts = MAX_SELECTIONS \<and> length xs \<le> MAX_SELECTIONS \<and>
     (\<forall>j < length xs. nonce_encoding (ts ! j) = pow_mod_p E G (nonce_encoding (xs ! j)) e \<and>
        message_encoding (ts ! j) = message_encoding (xs ! j))"

definition raised :: "env \<Rightarrow> params \<Rightarrow> encryption_rep list \<Rightarrow> int \<Rightarrow> Decryption_Coordinator \<Rightarrow> bool" where
  "raised E G xs e c \<longleftrightarrow> dc_tallies_initialized c \<and> unat (dc_num_tallies c) = length xs \<and>
     raised_list E G xs e (dc_tallies c)"

text \<open>One tally raised by a share.\<close>

definition raise :: "env \<Rightarrow> params \<Rightarrow> int \<Rightarrow> encryption_rep \<Rightarrow> encryption_rep" where
  "raise E G s t = t\<lparr>nonce_encoding := pow_mod_p E G (nonce_encoding t) s\<rparr>"

context platform
begin

lemma raised_list_cong:
  assumes "group_ok G" "raised_list E G xs d ts" "\<forall>x \<in> set xs. in_group G (nonce_encoding x)"
    "0 \<le> d" "0 \<le> e" "d mod par_q G = e mod par_q G"
  shows "raised_list E G xs e ts"
proof -
  have "pow_mod_p E G (nonce_encoding (xs ! j)) d = pow_mod_p E G (nonce_encoding (xs ! j)) e" if "j < length xs" for j
    using assms(3) that by (intro pow_cong_q [OF assms(1) _ assms(4-6)]) simp
  with assms(2) show ?thesis unfolding raised_list_def by metis
qed

lemma add_share_loop:
  assumes G: "group_ok G" and ts: "raised_list E G xs e ts" "0 \<le> e" "0 \<le> s"
    and shares: "length shares = MAX_SELECTIONS" "\<forall>j < length xs. shares ! j = raise E G s (xs ! j)"
  shows "\<exists>ts'. loop (length xs) (add_share_step E G shares) (DECRYPTION_COORDINATOR_SUCCESS, ts)
      = Some (DECRYPTION_COORDINATOR_SUCCESS, ts') \<and> raised_list E G xs (e + s) ts'"
proof -
  let ?f = "\<lambda>j. (ts ! j)\<lparr>nonce_encoding := pow_mod_p E G (nonce_encoding (xs ! j)) (e + s)\<rparr>"
  note t = ts(1) [unfolded raised_list_def]
  have "loop k (add_share_step E G shares) (DECRYPTION_COORDINATOR_SUCCESS, ts)
      = Some (DECRYPTION_COORDINATOR_SUCCESS, map ?f [0..<k] @ drop k ts)" if "k \<le> length xs" for k
    using that
  proof (induction k)
    case (Suc k)
    have k: "k < length ts" "k < length shares" "k < length xs" using Suc.prems t shares by simp_all
    then have d: "drop k ts = ts ! k # drop (Suc k) ts" by (simp add: Cons_nth_drop_Suc)
    have "mul_mod_p E G (nonce_encoding (ts ! k)) (nonce_encoding (shares ! k))
        = pow_mod_p E G (nonce_encoding (xs ! k)) (e + s)"
      using t shares(2) k pow_add [OF G ts(2,3)] by (simp add: raise_def)
    moreover have "message_encoding (shares ! k) = message_encoding (ts ! k)"
      using t shares(2) k by (simp add: raise_def)
    ultimately show ?case
      using Suc k by (simp add: add_share_step_def nth_append list_update_append d)
  qed simp
  from this [OF order_refl] show ?thesis
    using t by (auto simp: raised_list_def nth_append)
qed

lemma copy_share_loop:
  assumes "length ts = MAX_SELECTIONS" "length xs \<le> MAX_SELECTIONS"
    and shares: "length shares = MAX_SELECTIONS" "\<forall>j < length xs. shares ! j = raise E G s (xs ! j)"
  shows "\<exists>ts'. for_array (length xs) (\<lambda>i _. arr_get shares i) ts = Some ts' \<and> raised_list E G xs s ts'"
proof -
  have "for_array (length xs) (\<lambda>i _. arr_get shares i) ts = Some (map ((!) shares) [0..<length xs] @ drop (length xs) ts)"
    using assms by (intro for_array_ok) simp_all
  then show ?thesis
    using assms by (auto simp: raised_list_def nth_append raise_def)
qed

lemma add_fragment_loop:
  assumes G: "group_ok G" and ts: "raised_list E G xs e ts" "0 \<le> e" "0 \<le> s" "0 \<le> w"
    and row: "length xs \<le> length row" "\<forall>j < length xs. row ! j = pow_mod_p E G (nonce_encoding (xs ! j)) s"
  shows "\<exists>ts'. for_array (length xs) (add_fragment_step E G row w) ts = Some ts' \<and>
    raised_list E G xs (e + s * w) ts'"
proof -
  let ?f = "\<lambda>j. (ts ! j)\<lparr>nonce_encoding := pow_mod_p E G (nonce_encoding (xs ! j)) (e + s * w)\<rparr>"
  note t = ts(1) [unfolded raised_list_def]
  have "for_array (length xs) (add_fragment_step E G row w) ts = Some (map ?f [0..<length xs] @ drop (length xs) ts)"
  proof (rule for_array_ok)
    fix j assume j: "j < length xs"
    have "mul_mod_p E G (pow_mod_p E G (nonce_encoding (xs ! j)) e) (pow_mod_p E G (pow_mod_p E G (nonce_encoding (xs ! j)) s) w)
        = pow_mod_p E G (nonce_encoding (xs ! j)) (e + s * w)"
      using ts pow_pow [OF G ts(3,4)] pow_add [OF G ts(2), of "s * w"] by simp
    then show "add_fragment_step E G row w j (ts ! j) = Some (?f j)"
      using j t row by (simp add: add_fragment_step_def)
  qed (use t in simp)
  then show ?thesis using t by (auto simp: raised_list_def nth_append)
qed

lemma all_fragments_loop:
  assumes G: "group_ok G" and w: "0 \<le> w" and ss: "\<forall>k<n. req ! k \<longrightarrow> 0 \<le> ss k" and n: "n \<le> length req" "n \<le> length Ms"
    and rows: "\<forall>k<n. req ! k \<longrightarrow> length xs \<le> length (Ms ! k) \<and>
      (\<forall>j < length xs. Ms ! k ! j = pow_mod_p E G (nonce_encoding (xs ! j)) (ss k))"
    and ts: "raised_list E G xs e ts" "0 \<le> e"
  shows "\<exists>ts'. loop n (\<lambda>k tallies. do {
            r \<leftarrow> arr_get req k;
            if r then do {
              row \<leftarrow> arr_get Ms k;
              for_array (length xs) (add_fragment_step E G row w) tallies }
            else Some tallies }) ts = Some ts' \<and>
    raised_list E G xs (e + (\<Sum>k<n. if req ! k then ss k * w else 0)) ts'"
  using ss n rows
proof (induction n)
  case (Suc n)
  let ?e = "e + (\<Sum>k<n. if req ! k then ss k * w else 0)"
  obtain ts' where ts': "loop n (\<lambda>k tallies. do {
            r \<leftarrow> arr_get req k;
            if r then do {
              row \<leftarrow> arr_get Ms k;
              for_array (length xs) (add_fragment_step E G row w) tallies }
            else Some tallies }) ts = Some ts'" "raised_list E G xs ?e ts'"
    using Suc.IH Suc.prems by auto
  have e: "0 \<le> ?e" using ts(2) w Suc.prems(1) by (intro add_nonneg_nonneg sum_nonneg) auto
  show ?case
  proof (cases "req ! n")
    case True
    have "\<exists>ts''. for_array (length xs) (add_fragment_step E G (Ms ! n) w) ts' = Some ts'' \<and>
        raised_list E G xs (?e + ss n * w) ts''"
      using Suc.prems True by (intro add_fragment_loop [OF G ts'(2) e _ w]) auto
    then show ?thesis using ts'(1) True Suc.prems by (auto simp: add.assoc)
  qed (use ts' Suc.prems in auto)
qed (use ts in simp)

end

section \<open>The messages of honest trustees\<close>

definition honest_share :: "env \<Rightarrow> params \<Rightarrow> encryption_rep list \<Rightarrow> u32 \<Rightarrow> int \<Rightarrow> decryption_share_rep" where
  "honest_share E G xs i s =
     \<lparr>ds_trustee_index = i, ds_num_tallies = word_of_nat (length xs),
      tally_share = map (raise E G s) xs @ replicate (MAX_SELECTIONS - length xs) Crypto_encryption_rep_new,
      ds_cp_proofs = []\<rparr>"

text \<open>The fragments for the trustees in \<open>req\<close>; \<open>ss k\<close> is the share of trustee \<open>k\<close>'s secret.\<close>

definition honest_row :: "env \<Rightarrow> params \<Rightarrow> encryption_rep list \<Rightarrow> int \<Rightarrow> int list" where
  "honest_row E G xs s = map (\<lambda>t. pow_mod_p E G (nonce_encoding t) s) xs @ replicate (MAX_SELECTIONS - length xs) 0"

definition honest_fragments ::
    "env \<Rightarrow> params \<Rightarrow> encryption_rep list \<Rightarrow> u32 \<Rightarrow> u32 \<Rightarrow> bool list \<Rightarrow> (nat \<Rightarrow> int) \<Rightarrow> int \<Rightarrow> decryption_fragments_rep" where
  "honest_fragments E G xs n i req ss w =
     \<lparr>df_trustee_index = i, df_num_trustees = n, df_num_selections = word_of_nat (length xs),
      df_requested = req,
      partial_decryption_M = map (\<lambda>k. if k < unat n \<and> req ! k then honest_row E G xs (ss k) else replicate MAX_SELECTIONS 0)
        [0..<MAX_TRUSTEES],
      lagrange_coefficient = w, df_cp_proofs = []\<rparr>"

lemma small_unat [simp]:
  "m \<le> MAX_SELECTIONS \<Longrightarrow> unat (word_of_nat m :: u64) = m"
  "m \<le> MAX_SELECTIONS \<Longrightarrow> unat (word_of_nat m :: u32) = m"
  by (simp_all add: unat_of_nat MAX_SELECTIONS_def)

definition trustees_same :: "Decryption_Coordinator \<Rightarrow> Decryption_Coordinator \<Rightarrow> bool" where
  "trustees_same c c' \<longleftrightarrow> dc_num_trustees c' = dc_num_trustees c \<and> dc_threshold c' = dc_threshold c"

text \<open>The first share is copied, the next are multiplied: the exponent grows by the secret.\<close>

lemma receive_share_honest:
  assumes E: "platform_mem E" and G: "group_ok G" and c: "decryption_ok c"
    and xs: "length xs \<le> MAX_SELECTIONS" and ok: "decryption_share_ok G (honest_share E G xs i s)"
    and i: "unat i < unat (dc_num_trustees c)" "unat i \<notin> announced_by c"
    and st: "raised E G xs e c \<or> \<not> dc_tallies_initialized c \<and> e = 0" and e: "0 \<le> e" "0 \<le> s"
  shows "\<exists>c'. Decryption_Coordinator_receive_share E G
      (bytes_message (enc_decryption_share (honest_share E G xs i s))) c = Some (DECRYPTION_COORDINATOR_SUCCESS, c') \<and>
    decryption_ok c' \<and> raised E G xs (e + s) c' \<and> announced_by c' = insert (unat i) (announced_by c) \<and>
    trustees_same c c'"
proof -
  note P = platform_mem.axioms(1) [OF E]
  let ?x = "honest_share E G xs i s"
  let ?old = "\<lparr>ds_trustee_index = 0, ds_num_tallies = 0,
          tally_share = replicate MAX_SELECTIONS Crypto_encryption_rep_new, ds_cp_proofs = []\<rparr>"
  let ?m = "merge_decryption_share ?old ?x" and ?msg = "bytes_message (enc_decryption_share ?x)"
  obtain st where rd: "Serialize_read_decryption_share E ?old (message_reading ?msg) = Some (?m, st)"
    "ss_status st = SERIALIZE_STATE_READING"
    using decryption_share_codec.parse [OF E ok, of ?old] by (simp add: message_reading_def)
  have m: "ds_trustee_index ?m = i" "ds_num_tallies ?m = word_of_nat (length xs)"
    "length (tally_share ?m) = MAX_SELECTIONS" "\<forall>j < length xs. tally_share ?m ! j = raise E G s (xs ! j)"
    using xs by (simp_all add: merge_decryption_share_def honest_share_def merge_array_def nth_append min.absorb2)
  have l: "unat i < length (dc_anounced c)" "\<not> dc_num_trustees c \<le> i" "\<not> dc_anounced c ! unat i"
    "length (dc_tallies c) = MAX_SELECTIONS"
    using c i decryption_okD(1) [OF c] by (simp_all add: decryption_ok_def word_le_nat_alt announced_by_def)
  let ?a = "(dc_anounced c)[unat i := True]"
  have "\<exists>ts. Decryption_Coordinator_receive_share E G ?msg c = Some (DECRYPTION_COORDINATOR_SUCCESS,
      c\<lparr>dc_anounced := ?a, dc_num_tallies := word_of_nat (length xs), dc_tallies := ts, dc_tallies_initialized := True\<rparr>) \<and>
      raised_list E G xs (e + s) ts"
  proof (cases "dc_tallies_initialized c")
    case True
    then have r: "unat (dc_num_tallies c) = length xs" "raised_list E G xs e (dc_tallies c)" using st by (simp_all add: raised_def)
    then have n: "dc_num_tallies c = word_of_nat (length xs)" using xs by (simp add: word_unat_eq_iff)
    obtain ts where "loop (length xs) (add_share_step E G (tally_share ?m)) (DECRYPTION_COORDINATOR_SUCCESS, dc_tallies c)
        = Some (DECRYPTION_COORDINATOR_SUCCESS, ts)" "raised_list E G xs (e + s) ts"
      using platform.add_share_loop [OF P G r(2) e m(3,4)] by blast
    then show ?thesis
      using True l rd m(1,2) xs n
      by (auto simp: Decryption_Coordinator_receive_share_def Let_def intro!: exI [of _ ts] Decryption_Coordinator.equality)
  next
    case False
    then show ?thesis
      using platform.copy_share_loop [OF P l(4) xs m(3,4)] st l rd m(1,2) xs
      by (auto simp: Decryption_Coordinator_receive_share_def Let_def raised_def)
  qed
  then obtain ts where r: "Decryption_Coordinator_receive_share E G ?msg c = Some (DECRYPTION_COORDINATOR_SUCCESS,
      c\<lparr>dc_anounced := ?a, dc_num_tallies := word_of_nat (length xs), dc_tallies := ts, dc_tallies_initialized := True\<rparr>)"
    "raised_list E G xs (e + s) ts" by blast
  let ?c = "c\<lparr>dc_anounced := ?a, dc_num_tallies := word_of_nat (length xs), dc_tallies := ts, dc_tallies_initialized := True\<rparr>"
  have "announced_by ?c = insert (unat i) (announced_by c)"
    by (rule announced_mark(2) [OF c i(1) l(3)]) simp_all
  moreover have "decryption_ok ?c" using c r(2) xs by (simp add: decryption_ok_def raised_list_def)
  ultimately show ?thesis
    using r xs by (simp add: raised_def trustees_same_def)
qed

definition responded_by :: "Decryption_Coordinator \<Rightarrow> nat set" where
  "responded_by c = {i. i < unat (dc_num_trustees c) \<and> dc_responded c ! i}"

text \<open>The fragments compensate for the trustees in \<open>req\<close>; each of them counts one fragment more.\<close>

lemma receive_fragments_honest:
  assumes E: "platform_mem E" and G: "group_ok G" and c: "decryption_ok c"
    and xs: "length xs \<le> MAX_SELECTIONS"
    and ok: "decryption_fragments_ok G (honest_fragments E G xs (dc_num_trustees c) i req ss w)"
    and i: "unat i \<in> announced_by c" "unat i \<notin> responded_by c"
    and st: "raised E G xs e c" "0 \<le> e" and ss: "\<forall>k < unat (dc_num_trustees c). req ! k \<longrightarrow> 0 \<le> ss k"
  shows "\<exists>c'. Decryption_Coordinator_receive_fragments E G
      (bytes_message (enc_decryption_fragments (honest_fragments E G xs (dc_num_trustees c) i req ss w))) c
        = Some (DECRYPTION_COORDINATOR_SUCCESS, c') \<and>
    decryption_ok c' \<and> trustees_same c c' \<and> announced_by c' = announced_by c \<and>
    responded_by c' = insert (unat i) (responded_by c) \<and>
    raised E G xs (e + (\<Sum>k < unat (dc_num_trustees c). if req ! k then ss k * w else 0)) c' \<and>
    (\<forall>k < unat (dc_num_trustees c). dc_num_decryption_fragments c' ! k =
       dc_num_decryption_fragments c ! k + (if req ! k then 1 else 0))"
proof -
  note P = platform_mem.axioms(1) [OF E]
  let ?n = "unat (dc_num_trustees c)"
  let ?x = "honest_fragments E G xs (dc_num_trustees c) i req ss w"
  let ?old = "\<lparr>df_trustee_index = 0, df_num_trustees = 0, df_num_selections = 0,
          df_requested = replicate MAX_TRUSTEES False,
          partial_decryption_M = replicate MAX_TRUSTEES (replicate MAX_SELECTIONS 0),
          lagrange_coefficient = 0, df_cp_proofs = []\<rparr>"
  let ?m = "merge_decryption_fragments ?old ?x" and ?msg = "bytes_message (enc_decryption_fragments ?x)"
  note okd = ok [unfolded decryption_fragments_ok_def honest_fragments_def, simplified]
  have n: "?n \<le> MAX_TRUSTEES" by (rule decryption_okD(1) [OF c])
  obtain st' where rd: "Serialize_read_decryption_fragments E ?old (message_reading ?msg) = Some (?m, st')"
    "ss_status st' = SERIALIZE_STATE_READING"
    using decryption_fragments_codec.parse [OF E ok, of ?old]
    by (simp add: message_reading_def decryption_fragments_shape_def)
  have m: "df_trustee_index ?m = i" "df_num_trustees ?m = dc_num_trustees c"
    "df_num_selections ?m = word_of_nat (length xs)" "lagrange_coefficient ?m = w"
    "length (df_requested ?m) = MAX_TRUSTEES" "length (partial_decryption_M ?m) = MAX_TRUSTEES"
    "\<forall>k < ?n. df_requested ?m ! k = req ! k"
    using okd n by (simp_all add: merge_decryption_fragments_def honest_fragments_def merge_array_def nth_append Let_def)
  have rows: "\<forall>k < ?n. df_requested ?m ! k \<longrightarrow> length xs \<le> length (partial_decryption_M ?m ! k) \<and>
      (\<forall>j < length xs. partial_decryption_M ?m ! k ! j = pow_mod_p E G (nonce_encoding (xs ! j)) (ss k))"
    using m(7) n xs by (simp add: merge_decryption_fragments_def honest_fragments_def Let_def nth_append
        merge_row_def merge_array_def honest_row_def)
  have ss': "\<forall>k < ?n. df_requested ?m ! k \<longrightarrow> 0 \<le> ss k" using ss m(7) by simp
  have sum: "(\<Sum>k < ?n. if df_requested ?m ! k then ss k * lagrange_coefficient ?m else 0) = (\<Sum>k < ?n. if req ! k then ss k * w else 0)"
    using m(7) by (intro sum.cong) (simp_all add: m(4))
  have l: "unat i < length (dc_anounced c)" "\<not> dc_num_trustees c \<le> i" "dc_anounced c ! unat i"
    "unat i < length (dc_responded c)" "\<not> dc_responded c ! unat i" "unat i < ?n" "length (dc_num_decryption_fragments c) = MAX_TRUSTEES"
    using c i n by (auto simp: decryption_ok_def word_le_nat_alt announced_by_def responded_by_def)
  have r: "unat (dc_num_tallies c) = length xs" "raised_list E G xs e (dc_tallies c)"
    using st by (simp_all add: raised_def)
  obtain ts where ts: "loop ?n (\<lambda>k tallies. do {
            r \<leftarrow> arr_get (df_requested ?m) k;
            if r then do {
              row \<leftarrow> arr_get (partial_decryption_M ?m) k;
              for_array (length xs) (add_fragment_step E G row (lagrange_coefficient ?m)) tallies }
            else Some tallies }) (dc_tallies c) = Some ts"
      "raised_list E G xs (e + (\<Sum>k < ?n. if req ! k then ss k * w else 0)) ts"
    using platform.all_fragments_loop [OF P G _ ss' _ _ rows r(2) st(2), of "lagrange_coefficient ?m"] okd m(4,5,6) n
    unfolding sum by auto
  let ?counts = "map (\<lambda>k. dc_num_decryption_fragments c ! k + (if req ! k then 1 else 0)) [0..<?n]
      @ drop ?n (dc_num_decryption_fragments c)"
  have counts: "for_array ?n (\<lambda>k count. do {
                     r \<leftarrow> arr_get (df_requested ?m) k;
                     Some (if r then count + 1 else count) }) (dc_num_decryption_fragments c) = Some ?counts"
    using l(7) n m(5,7) by (intro for_array_ok) simp_all
  let ?c = "c\<lparr>dc_responded := (dc_responded c)[unat i := True], dc_num_decryption_fragments := ?counts, dc_tallies := ts\<rparr>"
  have "Decryption_Coordinator_receive_fragments E G ?msg c = Some (DECRYPTION_COORDINATOR_SUCCESS, ?c)"
    using l rd m(1-3) xs ts(1) counts r(1)
    by (simp add: Decryption_Coordinator_receive_fragments_def Let_def)
  moreover have "responded_by ?c = insert (unat i) (responded_by c)"
    using l by (auto simp: responded_by_def nth_list_update split: if_splits)
  moreover have "decryption_ok ?c" using c ts(2) n by (simp add: decryption_ok_def raised_list_def)
  ultimately show ?thesis
    using ts(2) r(1) st(1) by (auto simp: raised_def trustees_same_def announced_by_def nth_append)
qed

section \<open>The requests\<close>

text \<open>
  Of the announced trustees the first \<open>threshold\<close> are asked for fragments for all that are missing,
  the others for none.
\<close>

definition rank :: "Decryption_Coordinator \<Rightarrow> nat \<Rightarrow> nat" where
  "rank c i = length (filter (\<lambda>k. dc_anounced c ! k) [0..<i])"

definition missing :: "Decryption_Coordinator \<Rightarrow> bool list" where
  "missing c = map (\<lambda>k. \<not> dc_anounced c ! k) [0..<unat (dc_num_trustees c)]
     @ replicate (MAX_TRUSTEES - unat (dc_num_trustees c)) False"

definition request_of :: "Decryption_Coordinator \<Rightarrow> nat \<Rightarrow> decryption_fragments_request_rep" where
  "request_of c i = \<lparr>req_num_trustees = dc_num_trustees c,
     req_requested = (if rank c i < unat (dc_threshold c) then missing c else replicate MAX_TRUSTEES False)\<rparr>"

definition requests_of :: "Decryption_Coordinator \<Rightarrow> message option list" where
  "requests_of c = map (\<lambda>i. if dc_anounced c ! i then Some (bytes_message (enc_fragments_request (request_of c i))) else None)
     [0..<unat (dc_num_trustees c)]"

lemma rank_Suc: "rank c (Suc i) = rank c i + (if dc_anounced c ! i then 1 else 0)"
  by (simp add: rank_def)

lemma rank_le: "rank c i \<le> i"
  unfolding rank_def by (metis length_filter_le length_upt minus_nat.diff_0)

lemma rank_announced: "i \<le> unat (dc_num_trustees c) \<Longrightarrow> rank c i = card {k. k < i \<and> dc_anounced c ! k}"
proof -
  have "rank c i = card (set (filter (\<lambda>k. dc_anounced c ! k) [0..<i]))"
    unfolding rank_def by (rule distinct_card [symmetric]) simp
  also have "set (filter (\<lambda>k. dc_anounced c ! k) [0..<i]) = {k. k < i \<and> dc_anounced c ! k}" by auto
  finally show ?thesis .
qed

lemma length_missing: "unat (dc_num_trustees c) \<le> MAX_TRUSTEES \<Longrightarrow> length (missing c) = MAX_TRUSTEES"
  by (simp add: missing_def)

lemma fill_missing:
  assumes c: "decryption_ok c"
  shows "Decryption_Coordinator_fill_missing_indices c (replicate MAX_TRUSTEES False) = Some (missing c)"
    "for_array (unat (dc_num_trustees c)) (\<lambda>_ _. Some False) (replicate MAX_TRUSTEES False)
      = Some (replicate MAX_TRUSTEES False)"
proof -
  note n = decryption_okD(1) [OF c]
  have "for_array (unat (dc_num_trustees c)) (\<lambda>i _. do { a \<leftarrow> arr_get (dc_anounced c) i; Some (\<not> a) }) (replicate MAX_TRUSTEES False)
      = Some (map (\<lambda>k. \<not> dc_anounced c ! k) [0..<unat (dc_num_trustees c)] @ drop (unat (dc_num_trustees c)) (replicate MAX_TRUSTEES False))"
    using n c by (intro for_array_ok) (simp_all add: decryption_ok_def)
  then show "Decryption_Coordinator_fill_missing_indices c (replicate MAX_TRUSTEES False) = Some (missing c)"
    by (simp add: Decryption_Coordinator_fill_missing_indices_def missing_def)
  show "for_array (unat (dc_num_trustees c)) (\<lambda>_ _. Some False) (replicate MAX_TRUSTEES False)
      = Some (replicate MAX_TRUSTEES False)"
    using for_array_ok [of "unat (dc_num_trustees c)" "replicate MAX_TRUSTEES False" "\<lambda>_ _. Some False" "\<lambda>_. False"] n
    by (simp add: map_replicate_const flip: replicate_add)
qed

lemma fill_requests:
  assumes E: "platform_mem E" and c: "decryption_ok c"
  shows "Decryption_Coordinator_fill_requests E c (replicate (unat (dc_num_trustees c)) None) = Some (True, requests_of c)"
proof -
  let ?n = "unat (dc_num_trustees c)" and ?t = "unat (dc_threshold c)"
  let ?r = "\<lambda>i. if dc_anounced c ! i then Some (bytes_message (enc_fragments_request (request_of c i))) else None"
  note n = decryption_okD(1) [OF c]
  have step: "fill_requests_step E c k (True, word_of_nat (min (rank c k) ?t), reqs)
      = Some (True, word_of_nat (min (rank c (Suc k)) ?t), reqs[k := ?r k])"
    if "k < ?n" "length reqs = ?n" for k reqs
  proof (cases "dc_anounced c ! k")
    case True
    have g: "arr_get (dc_anounced c) k = Some True" using that c n True by (simp add: decryption_ok_def)
    have rk: "rank c k \<le> 5" using rank_le [of c k] that n by (simp add: MAX_TRUSTEES_def)
    then have lt: "(word_of_nat (min (rank c k) ?t) < dc_threshold c) \<longleftrightarrow> rank c k < ?t"
      by (auto simp: word_less_nat_alt unat_of_nat)
    have inc: "(word_of_nat (min (rank c k) ?t) :: u32) + 1 = word_of_nat (min (Suc (rank c k)) ?t)" if "rank c k < ?t"
      using that by (simp add: min_def)
    have snd: "send E (Serialize_reserve_decryption_fragments_request rep) (Serialize_write_decryption_fragments_request rep)
        = Some (Some (bytes_message (enc_fragments_request rep)))"
      if "rep = \<lparr>req_num_trustees = dc_num_trustees c, req_requested = req\<rparr>" "length req = MAX_TRUSTEES" for rep req
      by (rule fragments_request_codec.send_ok [OF E, of undefined]) (use that n in \<open>simp add: fragments_request_ok_def\<close>)
    have "fill_requests_step E c k (True, word_of_nat (min (rank c k) ?t), reqs)
        = Some (True, if rank c k < ?t then word_of_nat (min (rank c k) ?t) + 1 else word_of_nat (min (rank c k) ?t),
            reqs[k := ?r k])"
      using True g that snd [OF refl, of "missing c"] snd [OF refl, of "replicate MAX_TRUSTEES False"] fill_missing [OF c]
        length_missing [OF n]
      by (simp add: fill_requests_step_def lt request_of_def Let_def)
    then show ?thesis using True inc by (simp add: rank_Suc min_def)
  qed (use that c n in \<open>simp add: fill_requests_step_def decryption_ok_def rank_Suc\<close>)
  have "loop k (fill_requests_step E c) (True, 0, replicate ?n None)
      = Some (True, word_of_nat (min (rank c k) ?t), map ?r [0..<k] @ drop k (replicate ?n None))" if "k \<le> ?n" for k
    using that
  proof (induction k)
    case (Suc k)
    then have "replicate (?n - k) (None :: message option) = None # replicate (?n - Suc k) None"
      by (metis Suc_diff_Suc Suc_le_lessD replicate_Suc)
    then show ?case
      using Suc step [of k "map ?r [0..<k] @ drop k (replicate ?n None)"] by (simp add: list_update_append)
  qed (simp add: rank_def)
  from this [OF order_refl] show ?thesis
    by (simp add: Decryption_Coordinator_fill_requests_def requests_of_def)
qed

definition prepared :: "Decryption_Coordinator \<Rightarrow> Decryption_Coordinator" where
  "prepared c = (let n = unat (dc_num_trustees c) in
     c\<lparr>dc_responded := replicate n False @ drop n (dc_responded c),
       dc_num_decryption_fragments := replicate n 0 @ drop n (dc_num_decryption_fragments c)\<rparr>)"

lemma all_shares_received_eq:
  assumes E: "platform_mem E" and c: "decryption_ok c"
  shows "Decryption_Coordinator_all_shares_received E c =
    Some (if card (announced_by c) < unat (dc_threshold c)
      then (DECRYPTION_COORDINATOR_MISSING_TRUSTEES, replicate (unat (dc_num_trustees c)) None, c)
      else (DECRYPTION_COORDINATOR_SUCCESS, requests_of c, prepared c))"
proof -
  let ?n = "unat (dc_num_trustees c)"
  note n = decryption_okD(1) [OF c]
  have lt: "(word_of_nat (card (announced_by c)) < dc_threshold c) \<longleftrightarrow> card (announced_by c) < unat (dc_threshold c)"
    using card_announced [OF c] by (simp add: word_less_nat_alt unat_of_nat MAX_TRUSTEES_def)
  have "for_array ?n (\<lambda>_ _. Some False) (dc_responded c) = Some (replicate ?n False @ drop ?n (dc_responded c))"
    "for_array ?n (\<lambda>_ _. Some 0) (dc_num_decryption_fragments c) = Some (replicate ?n 0 @ drop ?n (dc_num_decryption_fragments c))"
    using for_array_ok [of ?n "dc_responded c" "\<lambda>_ _. Some False" "\<lambda>_. False"]
      for_array_ok [of ?n "dc_num_decryption_fragments c" "\<lambda>_ _. Some 0" "\<lambda>_. 0"] c n
    by (simp_all add: decryption_ok_def map_replicate_const)
  then show ?thesis
    by (simp add: Decryption_Coordinator_all_shares_received_def num_anounced_eq [OF c] lt fill_requests [OF E c]
        prepared_def Let_def)
qed

end
