(* ===== verification/DecryptionRun.thy ===== *)
theory DecryptionRun
  imports Threshold
begin

text \<open>
  A whole decryption: as many trustees as the threshold asks for announce themselves with their
  shares, are asked for the fragments of the missing ones, and send them. The secrets of the
  missing trustees are interpolated in the exponent.
\<close>

section \<open>The messages\<close>

definition secret_of :: "private_key list \<Rightarrow> u32 \<Rightarrow> int" where
  "secret_of privs i = coefficients (privs ! unat i) ! 0"

definition share_messages :: "env \<Rightarrow> params \<Rightarrow> encryption_rep list \<Rightarrow> private_key list \<Rightarrow> u32 list \<Rightarrow> message list" where
  "share_messages E G xs privs S =
     map (\<lambda>i. bytes_message (enc_decryption_share (honest_share E G xs i (secret_of privs i)))) S"

definition absent :: "u32 \<Rightarrow> u32 list \<Rightarrow> bool list" where
  "absent n S = map (\<lambda>k. k \<notin> unat ` set S) [0..<unat n] @ replicate (MAX_TRUSTEES - unat n) False"

text \<open>The share of trustee \<open>k\<close>'s secret that trustee \<open>i\<close> holds.\<close>

definition share_value :: "params \<Rightarrow> private_key list \<Rightarrow> nat \<Rightarrow> u32 \<Rightarrow> nat \<Rightarrow> int" where
  "share_value G privs t i k = polynomial_at (coefficients (privs ! k)) t (int (unat i + 1)) mod par_q G"

definition fragments_rep_of ::
    "env \<Rightarrow> params \<Rightarrow> encryption_rep list \<Rightarrow> private_key list \<Rightarrow> u32 \<Rightarrow> nat \<Rightarrow> u32 list \<Rightarrow> u32 \<Rightarrow> decryption_fragments_rep" where
  "fragments_rep_of E G xs privs n t S i =
     honest_fragments E G xs n i (absent n S) (share_value G privs t i)
       (the (lagrange_of E G (unat i) (absent n S) n))"

definition fragment_messages ::
    "env \<Rightarrow> params \<Rightarrow> encryption_rep list \<Rightarrow> private_key list \<Rightarrow> u32 \<Rightarrow> nat \<Rightarrow> u32 list \<Rightarrow> message list" where
  "fragment_messages E G xs privs n t S =
     map (\<lambda>i. bytes_message (enc_decryption_fragments (fragments_rep_of E G xs privs n t S i))) S"

section \<open>Sequences of messages\<close>

lemma unat_same: "unat (a :: u32) = unat b \<Longrightarrow> a = b"
  by (simp add: word_unat_eq_iff)

lemma run_shares:
  assumes E: "platform_mem E" and G: "group_ok G" and xs: "length xs \<le> MAX_SELECTIONS"
  shows "decryption_ok c \<Longrightarrow> distinct S \<Longrightarrow> \<forall>i \<in> set S. i < dc_num_trustees c \<and> unat i \<notin> announced_by c \<and>
      decryption_share_ok G (honest_share E G xs i (secret_of privs i)) \<and> 0 \<le> secret_of privs i \<Longrightarrow>
    raised E G xs e c \<or> \<not> dc_tallies_initialized c \<and> e = 0 \<Longrightarrow> 0 \<le> e \<Longrightarrow>
    \<exists>c'. receive_all (Decryption_Coordinator_receive_share E G) DECRYPTION_COORDINATOR_SUCCESS
        (share_messages E G xs privs S) c = Some c' \<and>
      decryption_ok c' \<and> trustees_same c c' \<and> announced_by c' = announced_by c \<union> unat ` set S \<and>
      (S \<noteq> [] \<longrightarrow> raised E G xs (e + (\<Sum>i\<leftarrow>S. secret_of privs i)) c')"
proof (induction S arbitrary: c e)
  case Nil
  then show ?case by (simp add: share_messages_def trustees_same_def)
next
  case (Cons i S)
  have i: "unat i < unat (dc_num_trustees c)" "unat i \<notin> announced_by c" "0 \<le> secret_of privs i"
    using Cons.prems(3) by (simp_all add: word_less_nat_alt)
  obtain c1 where c1: "Decryption_Coordinator_receive_share E G
      (bytes_message (enc_decryption_share (honest_share E G xs i (secret_of privs i)))) c
        = Some (DECRYPTION_COORDINATOR_SUCCESS, c1)"
    "decryption_ok c1" "raised E G xs (e + secret_of privs i) c1" "announced_by c1 = insert (unat i) (announced_by c)"
    "trustees_same c c1"
    using receive_share_honest [OF E G Cons.prems(1) xs _ i(1,2) Cons.prems(4,5) i(3)] Cons.prems(3) by auto
  have "\<forall>k \<in> set S. k < dc_num_trustees c1 \<and> unat k \<notin> announced_by c1 \<and>
      decryption_share_ok G (honest_share E G xs k (secret_of privs k)) \<and> 0 \<le> secret_of privs k"
    using Cons.prems(2,3) c1(4,5) by (auto simp: trustees_same_def dest: unat_same)
  moreover have "0 \<le> e + secret_of privs i" using Cons.prems(5) i(3) by simp
  moreover have "distinct S" using Cons.prems(2) by simp
  ultimately obtain c2 where c2: "receive_all (Decryption_Coordinator_receive_share E G) DECRYPTION_COORDINATOR_SUCCESS
        (share_messages E G xs privs S) c1 = Some c2"
      "decryption_ok c2" "trustees_same c1 c2" "announced_by c2 = announced_by c1 \<union> unat ` set S"
      "S \<noteq> [] \<longrightarrow> raised E G xs (e + secret_of privs i + (\<Sum>i\<leftarrow>S. secret_of privs i)) c2"
    using Cons.IH [OF c1(2)] c1(3) by blast
  have "c2 = c1" if "S = []" using c2(1) that by (simp add: share_messages_def)
  then have "raised E G xs (e + (\<Sum>i\<leftarrow>i # S. secret_of privs i)) c2"
    using c1(3) c2(5) by (cases "S = []") (auto simp: add.assoc)
  then show ?case
    using c1 c2 by (auto simp: share_messages_def trustees_same_def)
qed

lemma run_fragments:
  assumes E: "platform_mem E" and G: "group_ok G" and xs: "length xs \<le> MAX_SELECTIONS"
    and ss: "\<And>i k. 0 \<le> ss i k" and w: "\<And>i. i \<in> set S \<Longrightarrow> 0 \<le> w i"
  shows "decryption_ok c \<Longrightarrow> distinct S \<Longrightarrow> \<forall>i \<in> set S. unat i \<in> announced_by c \<and> unat i \<notin> responded_by c \<and>
      decryption_fragments_ok G (honest_fragments E G xs (dc_num_trustees c) i req (ss i) (w i)) \<Longrightarrow>
    raised E G xs e c \<Longrightarrow> 0 \<le> e \<Longrightarrow>
    \<exists>c'. receive_all (Decryption_Coordinator_receive_fragments E G) DECRYPTION_COORDINATOR_SUCCESS
        (map (\<lambda>i. bytes_message (enc_decryption_fragments
           (honest_fragments E G xs (dc_num_trustees c) i req (ss i) (w i)))) S) c = Some c' \<and>
      decryption_ok c' \<and> trustees_same c c' \<and> announced_by c' = announced_by c \<and>
      responded_by c' = responded_by c \<union> unat ` set S \<and>
      raised E G xs (e + (\<Sum>i\<leftarrow>S. \<Sum>k < unat (dc_num_trustees c). if req ! k then ss i k * w i else 0)) c' \<and>
      (\<forall>k < unat (dc_num_trustees c). dc_num_decryption_fragments c' ! k =
         dc_num_decryption_fragments c ! k + (if req ! k then word_of_nat (length S) else 0))"
  using w
proof (induction S arbitrary: c e)
  case Nil
  then show ?case by (simp add: trustees_same_def)
next
  case (Cons i S)
  let ?n = "unat (dc_num_trustees c)"
  let ?s = "\<Sum>k < ?n. if req ! k then ss i k * w i else 0"
  have i: "unat i \<in> announced_by c" "unat i \<notin> responded_by c"
    "decryption_fragments_ok G (honest_fragments E G xs (dc_num_trustees c) i req (ss i) (w i))"
    using Cons.prems(3) by simp_all
  obtain c1 where c1: "Decryption_Coordinator_receive_fragments E G
      (bytes_message (enc_decryption_fragments (honest_fragments E G xs (dc_num_trustees c) i req (ss i) (w i)))) c
        = Some (DECRYPTION_COORDINATOR_SUCCESS, c1)"
    "decryption_ok c1" "trustees_same c c1" "announced_by c1 = announced_by c"
    "responded_by c1 = insert (unat i) (responded_by c)" "raised E G xs (e + ?s) c1"
    "\<forall>k < ?n. dc_num_decryption_fragments c1 ! k = dc_num_decryption_fragments c ! k + (if req ! k then 1 else 0)"
    using receive_fragments_honest [OF E G Cons.prems(1) xs i(3,1,2) Cons.prems(4,5)] ss by blast
  have n: "dc_num_trustees c1 = dc_num_trustees c" using c1(3) by (simp add: trustees_same_def)
  have "0 \<le> e + ?s"
    using Cons.prems(5,6) ss by (intro add_nonneg_nonneg sum_nonneg) simp_all
  moreover have "\<forall>i \<in> set S. unat i \<in> announced_by c1 \<and> unat i \<notin> responded_by c1 \<and>
      decryption_fragments_ok G (honest_fragments E G xs (dc_num_trustees c1) i req (ss i) (w i))"
    using Cons.prems(2,3) c1(4,5) n by (auto dest: unat_same)
  moreover have "distinct S" using Cons.prems(2) by simp
  ultimately obtain c2 where c2: "receive_all (Decryption_Coordinator_receive_fragments E G) DECRYPTION_COORDINATOR_SUCCESS
        (map (\<lambda>i. bytes_message (enc_decryption_fragments
           (honest_fragments E G xs (dc_num_trustees c) i req (ss i) (w i)))) S) c1 = Some c2"
      "decryption_ok c2" "trustees_same c1 c2" "announced_by c2 = announced_by c1"
      "responded_by c2 = responded_by c1 \<union> unat ` set S"
      "raised E G xs (e + ?s + (\<Sum>i\<leftarrow>S. \<Sum>k < ?n. if req ! k then ss i k * w i else 0)) c2"
      "\<forall>k < ?n. dc_num_decryption_fragments c2 ! k =
         dc_num_decryption_fragments c1 ! k + (if req ! k then word_of_nat (length S) else 0)"
    using Cons.IH [OF c1(2) _ _ c1(6)] Cons.prems(6) by (auto simp: n)
  show ?case
    using c1 c2 by (auto simp: trustees_same_def add.assoc)
qed

section \<open>The sum in the exponent\<close>

lemma sum_present:
  assumes "distinct (S :: u32 list)"
  shows "(\<Sum>i\<leftarrow>S. f (unat i)) = (\<Sum>k \<in> unat ` set S. f k :: int)"
proof -
  have "inj_on unat (set S)" by (auto intro!: inj_onI dest: unat_same)
  then show ?thesis using assms by (simp add: sum_list_distinct_conv_sum_set sum.reindex)
qed

lemma available_absent:
  assumes "\<forall>i \<in> set S. i < n" "unat n \<le> MAX_TRUSTEES"
  shows "set (available (absent n S) n) = unat ` set S"
  using assms by (auto simp: available_def absent_def nth_append word_less_nat_alt)

lemma length_available:
  assumes "distinct S" "\<forall>i \<in> set S. i < n" "unat n \<le> MAX_TRUSTEES"
  shows "length (available (absent n S) n) = length S"
proof -
  have "length (available (absent n S) n) = card (unat ` set S)"
    using available_absent [OF assms(2,3)] by (metis distinct_available distinct_card)
  also have "\<dots> = card (set S)" by (rule card_image) (auto intro!: inj_onI dest: unat_same)
  finally show ?thesis using assms(1) by (simp add: distinct_card)
qed

context platform
begin

lemma exponent_sum:
  assumes G: "group_ok G" "small_invertible G" and n: "unat n \<le> MAX_TRUSTEES"
    and S: "distinct S" "\<forall>i \<in> set S. i < n" and t: "0 < t" "t = length S"
  defines "w \<equiv> \<lambda>i :: u32. the (lagrange_of E G (unat i) (absent n S) n)"
  shows "\<forall>i \<in> set S. 0 \<le> w i"
    "((\<Sum>i\<leftarrow>S. secret_of privs i) + (\<Sum>i\<leftarrow>S. \<Sum>k < unat n. if absent n S ! k then share_value G privs t i k * w i else 0))
      mod par_q G = (\<Sum>k < unat n. coefficients (privs ! k) ! 0) mod par_q G"
proof -
  let ?q = "par_q G" and ?P = "unat ` set S" and ?a = "\<lambda>k. coefficients (privs ! k) ! 0"
  let ?w = "\<lambda>i. the (lagrange_of E G i (absent n S) n)"
  have la: "length (absent n S) = MAX_TRUSTEES" using n by (simp add: absent_def)
  note av = available_absent [OF S(2) n] and len = length_available [OF S n]
  have lag: "(\<forall>i \<in> ?P. 0 \<le> ?w i) \<and> (\<Sum>i\<in>?P. polynomial_at cs t (int (i + 1)) * ?w i) mod ?q = cs ! 0 mod ?q" for cs
  proof -
    obtain v where v: "\<forall>i \<in> ?P. lagrange_of E G i (absent n S) n = Some (v i) \<and> 0 \<le> v i"
        "(\<Sum>i\<in>?P. polynomial_at cs t (int (i + 1)) * v i) mod ?q = cs ! 0 mod ?q"
      using lagrange_recovers_value [OF G n la t(1), of cs] t(2) len
      by (auto simp: av sum_list_distinct_conv_sum_set)
    moreover have "(\<Sum>i\<in>?P. polynomial_at cs t (int (i + 1)) * ?w i) = (\<Sum>i\<in>?P. polynomial_at cs t (int (i + 1)) * v i)"
      using v(1) by (intro sum.cong) auto
    ultimately show ?thesis by simp
  qed
  then show "\<forall>i \<in> set S. 0 \<le> w i" by (simp add: w_def)
  have row: "(\<Sum>i\<leftarrow>S. share_value G privs t i k * w i) mod ?q = ?a k mod ?q" for k
  proof -
    have "(\<Sum>i\<leftarrow>S. share_value G privs t i k * w i)
        = (\<Sum>i\<in>?P. polynomial_at (coefficients (privs ! k)) t (int (i + 1)) mod ?q * ?w i)"
      unfolding sum_present [OF S(1), symmetric] by (simp add: share_value_def w_def)
    also have "\<dots> mod ?q = (\<Sum>i\<in>?P. polynomial_at (coefficients (privs ! k)) t (int (i + 1)) * ?w i) mod ?q"
      by (intro sum_mod_cong) (simp add: mod_mult_left_eq)
    finally show ?thesis using lag by simp
  qed
  have sub: "?P \<subseteq> {..<unat n}" using S(2) by (auto simp: word_less_nat_alt)
  have ab: "absent n S ! k \<longleftrightarrow> k \<notin> ?P" if "k < unat n" for k using that by (simp add: absent_def nth_append)
  have "(\<Sum>i\<leftarrow>S. \<Sum>k < unat n. if absent n S ! k then share_value G privs t i k * w i else 0)
      = (\<Sum>i\<in>set S. \<Sum>k < unat n. if absent n S ! k then share_value G privs t i k * w i else 0)"
    by (rule sum_list_distinct_conv_sum_set [OF S(1)])
  also have "\<dots> = (\<Sum>k < unat n. \<Sum>i\<in>set S. if absent n S ! k then share_value G privs t i k * w i else 0)"
    by (rule sum.swap)
  also have "\<dots> = (\<Sum>k < unat n. if absent n S ! k then \<Sum>i\<leftarrow>S. share_value G privs t i k * w i else 0)"
    by (intro sum.cong) (simp_all add: sum_list_distinct_conv_sum_set [OF S(1)])
  also have "\<dots> mod ?q = (\<Sum>k < unat n. if absent n S ! k then ?a k else 0) mod ?q"
    by (intro sum_mod_cong) (simp add: row)
  also have "(\<Sum>k < unat n. if absent n S ! k then ?a k else 0) = (\<Sum>k \<in> {..<unat n} - ?P. ?a k)"
    by (rule sum.mono_neutral_cong_right) (auto simp: ab)
  finally have m: "(\<Sum>i\<leftarrow>S. \<Sum>k < unat n. if absent n S ! k then share_value G privs t i k * w i else 0) mod ?q
      = (\<Sum>k \<in> {..<unat n} - ?P. ?a k) mod ?q" .
  have "(\<Sum>i\<leftarrow>S. secret_of privs i) = (\<Sum>k\<in>?P. ?a k)"
    unfolding sum_present [OF S(1), symmetric] by (simp add: secret_of_def)
  moreover have "(\<Sum>k < unat n. ?a k) = (\<Sum>k \<in> {..<unat n} - ?P. ?a k) + (\<Sum>k\<in>?P. ?a k)"
    by (rule sum.subset_diff [OF sub]) simp
  ultimately show "((\<Sum>i\<leftarrow>S. secret_of privs i) + (\<Sum>i\<leftarrow>S. \<Sum>k < unat n. if absent n S ! k then share_value G privs t i k * w i else 0))
      mod ?q = (\<Sum>k < unat n. ?a k) mod ?q"
    using mod_add_cong [OF refl m, of "\<Sum>k\<in>?P. ?a k"] by (simp only: add.commute)
qed

end

end
