(* ===== verification/Printing.thy ===== *)
theory Printing
  imports CryptoProofs Decimal
begin

text \<open>
  The text of encryptions: what \<open>mpz_t_fprint\<close> and \<open>Crypto_encryption_fprint\<close> write into a file with
  room for it, and that the readers take the same text back.
\<close>

definition number_text :: "int \<Rightarrow> string" where
  "number_text v = ''0x'' @ words_text (words_of 64 v)"

definition encryption_text :: "encryption_rep \<Rightarrow> string" where
  "encryption_text e = ''('' @ number_text (nonce_encoding e) @ '','' @ number_text (message_encoding e) @ '')''"

lemma length_words_text: "length (words_text ws) = 16 * length ws"
  by (induction ws) (simp_all add: words_text_def)

lemma length_number_text [simp]: "length (number_text v) = 1026"
  by (simp add: number_text_def length_words_text)

lemma length_encryption_text [simp]: "length (encryption_text e) = 2055"
  by (simp add: encryption_text_def)

text \<open>A file after a text has been written into it.\<close>

definition wrote :: "out_file \<Rightarrow> string \<Rightarrow> out_file" where
  "wrote f s = f\<lparr>out_text := out_text f @ s, out_room := out_room f - length s\<rparr>"

lemma wrote_sel [simp]: "out_text (wrote f s) = out_text f @ s" "out_room (wrote f s) = out_room f - length s"
  by (simp_all add: wrote_def)

lemma wrote_wrote [simp]: "wrote (wrote f s) t = wrote f (s @ t)"
  by (simp add: wrote_def)

lemma wrote_Nil [simp]: "wrote f [] = f"
  by (simp add: wrote_def)

lemma fprintf_wrote: "length s \<le> out_room f \<Longrightarrow> fprintf f s = (int (length s), wrote f s)"
  by (simp add: fprintf_room wrote_def)

context platform_mem
begin

lemma fprint_number:
  assumes "fits 64 v" "1026 \<le> out_room f"
  shows "mpz_t_fprint E f v = Some (True, wrote f (number_text v))"
proof -
  have "uint4096_fprint f (words_of 64 v) = (True, wrote f (number_text v))"
    using assms(2) by (simp add: uint4096_fprint_def fprintf_wrote fprint_words_text wrote_def number_text_def
        length_words_text UINT4096_WORD_COUNT_def)
  then show ?thesis using export_to_uint4096_fits [OF assms(1)] by (simp add: mpz_t_fprint_def)
qed

lemma fprint_encryption:
  assumes "encryption_ok e" "2055 \<le> out_room f"
  shows "Crypto_encryption_fprint E f e = Some (True, wrote f (encryption_text e))"
  using assms by (simp add: Crypto_encryption_fprint_def encryption_ok_def fprintf_wrote fprint_number encryption_text_def)

lemma fscan_number:
  assumes "fits 64 v"
  shows "mpz_t_fscan E (number_text v @ rest) old = (True, v, rest)"
proof -
  have l: "length (words_of 64 v) = UINT4096_WORD_COUNT" by (simp add: UINT4096_WORD_COUNT_def)
  have "fscanf_lit ''0x'' (''0x'' @ words_text (words_of 64 v) @ rest) = (0, words_text (words_of 64 v) @ rest)"
    by (rule fscanf_lit_match)
  then have "uint4096_fscan (number_text v @ rest) (replicate UINT4096_WORD_COUNT 0) = (True, words_of 64 v, rest)"
    using fscan_words_text [OF l, of "replicate UINT4096_WORD_COUNT 0" 0 rest]
    by (simp add: uint4096_fscan_def number_text_def l)
  moreover have "import_uint4096 E (words_of 64 v) = v"
    using assms wval_words_of [of 64 v] by (simp add: import_uint4096_def mpz_import_u64_eq fits_def)
  moreover obtain b where "malloc E UINT4096_SIZE_BYTES = Some b" using malloc_ok by blast
  ultimately show ?thesis by (simp add: mpz_t_fscan_def)
qed

end

end
