(* ===== verification/ExampleGroup.thy ===== *)
theory ExampleGroup
  imports Lagrange CryptoProofs
begin

text \<open>
  A group for the instances of the properties, of order 5, whose elements take the 64 words of the
  messages: modulo \<open>31 * 2^4090\<close> the numbers \<open>1 + 2^4090 * (u - 1)\<close> multiply like the \<open>u\<close> modulo 31.
\<close>

definition wide_unit :: int where
  "wide_unit = 2 ^ 4090"

definition elt :: "int \<Rightarrow> int" where
  "elt u = 1 + wide_unit * (u - 1)"

definition order5_group :: params where
  "order5_group = \<lparr>par_p = 31 * wide_unit, par_q = 5, generator = elt 2\<rparr>"

lemma order5_sel [simp]:
  "par_p order5_group = 31 * wide_unit" "par_q order5_group = 5" "generator order5_group = elt 2"
  by (simp_all add: order5_group_def)

lemma wide_unit: "1 < wide_unit" "wide_unit mod 31 = 1"
proof -
  show "1 < wide_unit" unfolding wide_unit_def by (rule one_less_power) simp_all
  have "wide_unit = (2 ^ 5) ^ 818" unfolding wide_unit_def by (simp only: power_mult [symmetric]) simp
  then have "wide_unit mod 31 = (2 ^ 5 mod 31) ^ 818 mod 31" by (simp only: power_mod)
  then show "wide_unit mod 31 = 1" by simp
qed

lemma wide_unit_mod: "(1 + wide_unit * c) mod (31 * wide_unit) = 1 + wide_unit * (c mod 31)"
proof -
  have "1 + wide_unit * c = (1 + wide_unit * (c mod 31)) + 31 * wide_unit * (c div 31)"
    by (simp only: minus_mult_div_eq_mod [symmetric]) (simp add: algebra_simps)
  then have "(1 + wide_unit * c) mod (31 * wide_unit) = (1 + wide_unit * (c mod 31)) mod (31 * wide_unit)"
    by (simp only: mod_mult_self2)
  also have "\<dots> = 1 + wide_unit * (c mod 31)"
  proof (rule mod_pos_pos_trivial)
    have "wide_unit * (c mod 31) \<le> wide_unit * 30" using wide_unit(1) by (intro mult_left_mono) simp_all
    then show "1 + wide_unit * (c mod 31) < 31 * wide_unit" using wide_unit(1) by linarith
    show "0 \<le> 1 + wide_unit * (c mod 31)" using wide_unit(1) by simp
  qed
  finally show ?thesis .
qed

lemma elt_mult: "elt u * elt v mod (31 * wide_unit) = 1 + wide_unit * ((u * v - 1) mod 31)"
proof -
  obtain m where m: "wide_unit = 31 * m + 1" using wide_unit(2) by (metis mult_div_mod_eq)
  have "elt u * elt v = 1 + wide_unit * (u * v - 1) + 31 * wide_unit * (m * ((u - 1) * (v - 1)))"
  proof -
    have "elt u * elt v = 1 + wide_unit * ((u - 1) + (v - 1)) + wide_unit * wide_unit * ((u - 1) * (v - 1))"
      by (simp add: elt_def algebra_simps)
    also have "wide_unit * wide_unit * ((u - 1) * (v - 1)) = wide_unit * ((31 * m + 1) * ((u - 1) * (v - 1)))"
      using m by (simp only: mult.assoc)
    finally show ?thesis by (simp add: algebra_simps)
  qed
  then show ?thesis by (simp only: mod_mult_self2 wide_unit_mod)
qed

lemma elt_power: "elt u ^ k mod (31 * wide_unit) = 1 + wide_unit * ((u ^ k - 1) mod 31)"
proof (induction k)
  case 0
  then show ?case using wide_unit_mod [of 0] by simp
next
  case (Suc k)
  have "elt u ^ Suc k mod (31 * wide_unit) = elt u * (elt u ^ k mod (31 * wide_unit)) mod (31 * wide_unit)"
    by (simp add: mod_mult_right_eq)
  also have "elt u ^ k mod (31 * wide_unit) = elt ((u ^ k - 1) mod 31 + 1)"
    unfolding Suc.IH by (simp add: elt_def)
  also have "elt u * elt ((u ^ k - 1) mod 31 + 1) mod (31 * wide_unit)
      = 1 + wide_unit * ((u * ((u ^ k - 1) mod 31 + 1) - 1) mod 31)" by (rule elt_mult)
  also have "(u * ((u ^ k - 1) mod 31 + 1) - 1) mod 31 = (u * (u ^ k - 1 + 1) - 1) mod 31"
  proof -
    have "u * ((u ^ k - 1) mod 31 + 1) - 1 = (u * (u ^ k - 1 + 1) - 1) + 31 * (- u * ((u ^ k - 1) div 31))"
      by (simp only: minus_mult_div_eq_mod [symmetric]) (simp add: algebra_simps)
    then show ?thesis by (simp only: mod_mult_self2)
  qed
  finally show ?case by simp
qed

lemma order5_group_ok: "group_ok order5_group"
proof -
  have "elt 2 ^ 5 mod (31 * wide_unit) = 1" using elt_power [of 2 5] by simp
  then show ?thesis using wide_unit(1) by (simp add: group_ok_def elt_def)
qed

lemma order5_small: "small_invertible order5_group"
  by (simp add: small_invertible_def MAX_TRUSTEES_def upt_rec coprime_iff_gcd_eq_1 gcd_non_0_int)

lemma order5_pow: "0 \<le> e \<Longrightarrow> pow_mod_p ref_env order5_group (elt u) e = elt ((u ^ nat e - 1) mod 31 + 1)"
  using ref.pow_mod_p_eq [OF order5_group_ok] elt_power by (simp add: elt_def)

lemma order5_mul: "mul_mod_p ref_env order5_group (elt u) (elt v) = elt ((u * v - 1) mod 31 + 1)"
  using ref.mul_mod_p_eq [OF order5_group_ok] elt_mult by (simp add: elt_def)

lemma elt_fits:
  assumes "2 \<le> u" "u \<le> 31"
  shows "fits 64 (elt u)"
proof -
  have "wide_unit * 1 \<le> wide_unit * (u - 1)" "wide_unit * (u - 1) \<le> wide_unit * 30"
    using assms wide_unit(1) by (intro mult_left_mono; simp)+
  then have "wide_unit \<le> elt u" "elt u < 32 * wide_unit" using wide_unit(1) unfolding elt_def by linarith+
  moreover have "2 ^ (64 * (64 - 1)) \<le> wide_unit" unfolding wide_unit_def by (rule power_increasing) simp_all
  moreover have "32 * wide_unit = 2 ^ (5 + 4090)" unfolding wide_unit_def by (simp only: power_add) simp
  moreover have "(2 :: int) ^ (5 + 4090) \<le> 2 ^ (64 * 64)" by (rule power_increasing) simp_all
  ultimately have "2 ^ (64 * (64 - 1)) \<le> elt u" "elt u < 2 ^ (64 * 64)" by linarith+
  then show ?thesis unfolding fits_def by (intro conjI zero_less_numeral)
qed

lemma elt_eq_iff [simp]: "elt u = elt v \<longleftrightarrow> u = v"
  using wide_unit(1) by (simp add: elt_def)

text \<open>An encryption of 1 for the public key \<open>elt 8\<close>, with the nonce 1.\<close>

definition example_vote :: encryption_rep where
  "example_vote = \<lparr>nonce_encoding = elt 2, message_encoding = elt 16\<rparr>"

lemma example_vote_ok: "encryption_ok example_vote"
  by (simp add: encryption_ok_def example_vote_def elt_fits)

lemma example_vote_encrypts: "encrypts ref_env order5_group (elt 8) 1 1 example_vote"
  by (simp add: encrypts_def example_vote_def order5_pow order5_mul)

end
