(* ===== verification/DecryptionClaims.thy ===== *)
theory DecryptionClaims
  imports DecryptionRun Printing CryptoClaims ExampleGroup
begin

text \<open>
  The properties of threshold decryption, with instances in the group of \<open>ExampleGroup\<close>.
\<close>

section \<open>The coefficients\<close>

text \<open>C19: The Lagrange coefficients that the trustees compute interpolate at zero: summed over the
  trustees that are available, the values of a polynomial of degree below the threshold, each times
  the coefficient the trustee computes, give the constant coefficient modulo \<open>q\<close>, whichever trustees
  are available, provided they are at least as many as the threshold.\<close>

theorem coefficients_interpolate:
  assumes "platform E" "group_ok G" "small_invertible G" "unat n \<le> MAX_TRUSTEES" "length requested = MAX_TRUSTEES"
    and "0 < t" "t \<le> length (available requested n)"
  shows "\<exists>w. (\<forall>i \<in> set (available requested n). lagrange_of E G i requested n = Some (w i) \<and> 0 \<le> w i) \<and>
    (\<Sum>i\<leftarrow>available requested n. polynomial_at cs t (int (i + 1)) * w i) mod par_q G = cs ! 0 mod par_q G"
  by (rule platform.lagrange_recovers_value [OF assms])

theorem coefficients_interpolate_witness:
  "\<exists>w. (\<forall>i \<in> {1, 2}. lagrange_of ref_env small_group i [True, False, False, False, False] 3 = Some (w i)) \<and>
    (polynomial_at [5, 7] 2 2 * w 1 + polynomial_at [5, 7] 2 3 * w 2) mod 11 = 5"
proof -
  have a: "available [True, False, False, False, False] 3 = [1, 2]" by (simp add: available_def upt_rec)
  have "small_invertible small_group"
    by (simp add: small_invertible_def MAX_TRUSTEES_def upt_rec coprime_iff_gcd_eq_1 gcd_non_0_int)
  then show ?thesis
    using coefficients_interpolate [OF ref.platform_axioms small_group_ok, of 3 "[True, False, False, False, False]" 2 "[5, 7]"]
    by (simp add: MAX_TRUSTEES_def a) blast
qed

section \<open>From announcements to requests\<close>

text \<open>C18: However the messages look, once the coordinator has accepted some number of shares,
  \<open>Decryption_Coordinator_all_shares_received\<close> reports missing trustees exactly when that number is
  below the threshold; otherwise it asks the first \<open>threshold\<close> of the announced trustees for fragments for
  all that did not announce themselves, and the other announced trustees for none.\<close>

theorem requests_after_shares:
  assumes "platform_mem E" "Decryption_Coordinator_new E n t = Some (r, Some c0)"
    and "receive_all (Decryption_Coordinator_receive_share E G) DECRYPTION_COORDINATOR_SUCCESS ms c0 = Some c"
  shows "Decryption_Coordinator_all_shares_received E c =
    Some (if length ms < unat t then (DECRYPTION_COORDINATOR_MISSING_TRUSTEES, replicate (unat n) None, c)
          else (DECRYPTION_COORDINATOR_SUCCESS, requests_of c, prepared c))"
proof -
  note new = decryption_new_ok [OF assms(2)]
  have c0: "decryption_ok c0" using new by simp
  have "decryption_ok c \<and> dc_num_trustees c = n \<and> dc_threshold c = t"
    using announcements_fixed [OF c0 assms(3)] new by simp
  moreover have "card (announced_by c) = length ms"
    using announcements.receive_all_count [OF c0 assms(3)] new by simp
  ultimately show ?thesis using all_shares_received_eq [OF assms(1), of c] by simp
qed

section \<open>A decryption with missing trustees\<close>

lemma decryption_new_total:
  assumes "platform_mem E" "valid_params n t"
  shows "\<exists>c. Decryption_Coordinator_new E n t = Some (DECRYPTION_COORDINATOR_SUCCESS, Some c)"
proof -
  have n: "unat n \<le> MAX_TRUSTEES" using assms(2) by (auto simp: valid_params_def)
  obtain b where "malloc E 32056 = Some b" using platform_mem.malloc_ok [OF assms(1)] by blast
  moreover have "for_array (unat n) (\<lambda>_ _. Some False) (replicate MAX_TRUSTEES False) = Some (replicate MAX_TRUSTEES False)"
    using for_array_ok [of "unat n" "replicate MAX_TRUSTEES False" "\<lambda>_ _. Some False" "\<lambda>_. False"] n
    by (simp add: map_replicate_const flip: replicate_add)
  ultimately show ?thesis using assms(2) by (simp add: Decryption_Coordinator_new_def)
qed

lemma prepared_props:
  assumes "decryption_ok c"
  shows "decryption_ok (prepared c)" "announced_by (prepared c) = announced_by c" "responded_by (prepared c) = {}"
    "trustees_same c (prepared c)" "raised E G xs e c \<Longrightarrow> raised E G xs e (prepared c)"
    "\<forall>k < unat (dc_num_trustees c). dc_num_decryption_fragments (prepared c) ! k = 0"
  using assms decryption_okD(1) [OF assms]
  by (auto simp: decryption_ok_def prepared_def Let_def announced_by_def responded_by_def trustees_same_def
      raised_def nth_append)

text \<open>Everyone has announced itself and responded, or is compensated for by \<open>threshold\<close> fragments.\<close>

lemma seen_or_compensated:
  assumes c: "decryption_ok c"
    and i: "\<forall>i < unat (dc_num_trustees c). if i \<in> announced_by c then i \<in> responded_by c
        else dc_num_decryption_fragments c ! i = dc_threshold c"
  shows "Decryption_Coordinator_all_trustees_seen_or_compensated c = Some True"
proof -
  have "loop k (\<lambda>i ok. do {
          a \<leftarrow> arr_get (dc_anounced c) i;
          if a then do { r \<leftarrow> arr_get (dc_responded c) i; Some (ok \<and> r) }
          else do {
            count \<leftarrow> arr_get (dc_num_decryption_fragments c) i;
            Some (ok \<and> count = dc_threshold c) } }) True = Some True" if "k \<le> unat (dc_num_trustees c)" for k
    using that
  proof (induction k)
    case (Suc k)
    have "k < length (dc_anounced c)" "k < length (dc_responded c)" "k < length (dc_num_decryption_fragments c)"
      using Suc.prems c decryption_okD(1) [OF c] by (simp_all add: decryption_ok_def)
    with Suc i show ?case by (auto simp: announced_by_def responded_by_def split: if_splits)
  qed simp
  from this [OF order_refl] show ?thesis
    by (simp add: Decryption_Coordinator_all_trustees_seen_or_compensated_def)
qed

definition absent_request :: "u32 \<Rightarrow> u32 list \<Rightarrow> message" where
  "absent_request n S = bytes_message (enc_fragments_request \<lparr>req_num_trustees = n, req_requested = absent n S\<rparr>)"

lemma missing_absent:
  assumes "decryption_ok c" "announced_by c = unat ` set S"
  shows "missing c = absent (dc_num_trustees c) S"
proof -
  have "(\<not> dc_anounced c ! k) = (k \<notin> unat ` set S)" if "k < unat (dc_num_trustees c)" for k
    using that assms(2) by (auto simp: announced_by_def)
  then show ?thesis by (simp add: missing_def absent_def)
qed

lemma rank_below:
  assumes "decryption_ok c" "i \<in> announced_by c"
  shows "rank c i < card (announced_by c)"
proof -
  have "rank c i = card {k. k < i \<and> dc_anounced c ! k}"
    using assms by (intro rank_announced) (simp add: announced_by_def)
  also have "\<dots> < card (announced_by c)"
    using assms(2) by (intro psubset_card_mono) (auto simp: announced_by_def)
  finally show ?thesis .
qed

text \<open>The conditions of an honest run: as many trustees as the threshold, and numbers of full width.\<close>

definition honest_run :: "env \<Rightarrow> params \<Rightarrow> encryption_rep list \<Rightarrow> private_key list \<Rightarrow> u32 \<Rightarrow> u32 \<Rightarrow> u32 list \<Rightarrow> bool" where
  "honest_run E G xs privs n t S \<longleftrightarrow> valid_params n t \<and> distinct S \<and> (\<forall>i \<in> set S. i < n) \<and> length S = unat t \<and>
     length xs \<le> MAX_SELECTIONS \<and> (\<forall>x \<in> set xs. in_group G (nonce_encoding x)) \<and>
     (\<forall>k < unat n. 0 \<le> coefficients (privs ! k) ! 0) \<and>
     (\<forall>i \<in> set S. decryption_share_ok G (honest_share E G xs i (secret_of privs i)) \<and>
        decryption_fragments_ok G (fragments_rep_of E G xs privs n (unat t) S i))"

lemma honest_shares_run:
  assumes E: "platform_mem E" and G: "group_ok G" and h: "honest_run E G xs privs n t S"
    and new: "Decryption_Coordinator_new E n t = Some (r, Some c0)"
  shows "\<exists>c1. receive_all (Decryption_Coordinator_receive_share E G) DECRYPTION_COORDINATOR_SUCCESS
      (share_messages E G xs privs S) c0 = Some c1 \<and>
    decryption_ok c1 \<and> dc_num_trustees c1 = n \<and> dc_threshold c1 = t \<and> announced_by c1 = unat ` set S \<and>
    raised E G xs (\<Sum>i\<leftarrow>S. secret_of privs i) c1 \<and> card (announced_by c1) = unat t"
proof -
  note h = h [unfolded honest_run_def]
  note n = decryption_new_ok [OF new]
  have c0: "decryption_ok c0" "0 < unat t" using n h by (auto simp: valid_params_def word_le_nat_alt)
  have "\<forall>i \<in> set S. i < dc_num_trustees c0 \<and> unat i \<notin> announced_by c0 \<and>
      decryption_share_ok G (honest_share E G xs i (secret_of privs i)) \<and> 0 \<le> secret_of privs i"
    using h n by (auto simp: secret_of_def word_less_nat_alt)
  then obtain c1 where c1: "receive_all (Decryption_Coordinator_receive_share E G) DECRYPTION_COORDINATOR_SUCCESS
        (share_messages E G xs privs S) c0 = Some c1"
      "decryption_ok c1" "trustees_same c0 c1" "announced_by c1 = announced_by c0 \<union> unat ` set S"
      "S \<noteq> [] \<longrightarrow> raised E G xs (0 + (\<Sum>i\<leftarrow>S. secret_of privs i)) c1"
    using run_shares [OF E G, of xs c0 S privs 0] h n c0 by auto
  moreover have "card (unat ` set S) = length S"
    using h by (subst card_image) (auto intro!: inj_onI simp: distinct_card dest: unat_same)
  ultimately show ?thesis using n h c0(2) by (auto simp: trustees_same_def)
qed

lemma honest_decryption:
  assumes E: "platform_mem E" and G: "group_ok G" "small_invertible G" and h: "honest_run E G xs privs n t S"
    and new: "Decryption_Coordinator_new E n t = Some (r, Some c0)"
  shows "\<exists>c1 reqs c2 c3.
    receive_all (Decryption_Coordinator_receive_share E G) DECRYPTION_COORDINATOR_SUCCESS
      (share_messages E G xs privs S) c0 = Some c1 \<and>
    Decryption_Coordinator_all_shares_received E c1 = Some (DECRYPTION_COORDINATOR_SUCCESS, reqs, c2) \<and>
    (\<forall>i \<in> set S. reqs ! unat i = Some (absent_request n S)) \<and>
    receive_all (Decryption_Coordinator_receive_fragments E G) DECRYPTION_COORDINATOR_SUCCESS
      (fragment_messages E G xs privs n (unat t) S) c2 = Some c3 \<and>
    decryption_ok c3 \<and> Decryption_Coordinator_all_trustees_seen_or_compensated c3 = Some True \<and>
    raised E G xs (\<Sum>k < unat n. coefficients (privs ! k) ! 0) c3"
proof -
  note P = platform_mem.axioms(1) [OF E]
  note hh = h [unfolded honest_run_def]
  obtain c1 where c1: "receive_all (Decryption_Coordinator_receive_share E G) DECRYPTION_COORDINATOR_SUCCESS
        (share_messages E G xs privs S) c0 = Some c1"
      "decryption_ok c1" "dc_num_trustees c1 = n" "dc_threshold c1 = t" "announced_by c1 = unat ` set S"
      "raised E G xs (\<Sum>i\<leftarrow>S. secret_of privs i) c1" "card (announced_by c1) = unat t"
    using honest_shares_run [OF E G(1) h new] by blast
  have n: "unat n \<le> MAX_TRUSTEES" "0 < unat t" using hh by (auto simp: valid_params_def word_le_nat_alt)
  note p = prepared_props [OF c1(2)]
  let ?c = "prepared c1"
  have cn: "dc_num_trustees ?c = n" "dc_threshold ?c = t" using p(4) c1(3,4) by (simp_all add: trustees_same_def)
  have sec: "\<forall>i \<in> set S. 0 \<le> secret_of privs i" using hh by (auto simp: secret_of_def word_less_nat_alt)
  have e0: "0 \<le> (\<Sum>i\<leftarrow>S. secret_of privs i)" using sec by (intro sum_list_nonneg) auto
  let ?w = "\<lambda>i. the (lagrange_of E G (unat i) (absent n S) n)" and ?ss = "share_value G privs (unat t)"
  have ss: "0 \<le> ?ss i k" for i k using G(1) by (simp add: share_value_def)
  have d: "distinct S" "\<forall>i \<in> set S. i < n" "unat t = length S" and xs: "length xs \<le> MAX_SELECTIONS"
    using hh by simp_all
  note ex = platform.exponent_sum [OF P G n(1) d(1,2) n(2) d(3)]
  have w: "0 \<le> ?w i" if "i \<in> set S" for i using ex(1) that by auto
  have ok: "\<forall>i \<in> set S. unat i \<in> announced_by ?c \<and> unat i \<notin> responded_by ?c \<and>
      decryption_fragments_ok G (honest_fragments E G xs (dc_num_trustees ?c) i (absent n S) (?ss i) (?w i))"
    using hh p(2,3) c1(5) cn by (auto simp: fragments_rep_of_def)
  have ms: "map (\<lambda>i. bytes_message (enc_decryption_fragments
      (honest_fragments E G xs n i (absent n S) (?ss i) (?w i)))) S
      = fragment_messages E G xs privs n (unat t) S"
    by (simp add: fragment_messages_def fragments_rep_of_def)
  obtain c3 where c3: "receive_all (Decryption_Coordinator_receive_fragments E G) DECRYPTION_COORDINATOR_SUCCESS
      (fragment_messages E G xs privs n (unat t) S) ?c = Some c3"
      "decryption_ok c3" "trustees_same ?c c3" "announced_by c3 = announced_by ?c"
      "responded_by c3 = responded_by ?c \<union> unat ` set S"
      "raised E G xs ((\<Sum>i\<leftarrow>S. secret_of privs i) +
         (\<Sum>i\<leftarrow>S. \<Sum>k < unat n. if absent n S ! k then ?ss i k * ?w i else 0)) c3"
      "\<forall>k < unat n. dc_num_decryption_fragments c3 ! k =
         dc_num_decryption_fragments ?c ! k + (if absent n S ! k then word_of_nat (length S) else 0)"
    using run_fragments [OF E G(1) xs ss _ p(1) d(1) ok p(5) [OF c1(6)] e0, unfolded cn ms] w by blast
  have nonneg: "0 \<le> (\<Sum>i\<leftarrow>S. \<Sum>k < unat n. if absent n S ! k then ?ss i k * ?w i else 0)"
    using ss w by (intro sum_list_nonneg) (auto intro!: sum_nonneg)
  have "raised E G xs (\<Sum>k < unat n. coefficients (privs ! k) ! 0) c3"
    unfolding raised_def
  proof (intro conjI)
    show "raised_list E G xs (\<Sum>k < unat n. coefficients (privs ! k) ! 0) (dc_tallies c3)"
      by (rule platform.raised_list_cong [OF P G(1) _ _ _ _ ex(2)])
        (use c3(6) hh e0 nonneg n(2) in \<open>auto simp: raised_def intro!: sum_nonneg\<close>)
  qed (use c3(6) in \<open>simp_all add: raised_def\<close>)
  moreover have "Decryption_Coordinator_all_trustees_seen_or_compensated c3 = Some True"
  proof (rule seen_or_compensated [OF c3(2)])
    have "word_of_nat (length S) = t" using hh by simp
    moreover have "absent n S ! i \<longleftrightarrow> i \<notin> unat ` set S" if "i < unat n" for i
      using that by (simp add: absent_def nth_append)
    ultimately show "\<forall>i < unat (dc_num_trustees c3). if i \<in> announced_by c3 then i \<in> responded_by c3
        else dc_num_decryption_fragments c3 ! i = dc_threshold c3"
      using c3(3-5,7) p(2,6) c1(3,5) cn by (simp add: trustees_same_def)
  qed
  moreover have "Decryption_Coordinator_all_shares_received E c1 = Some (DECRYPTION_COORDINATOR_SUCCESS, requests_of c1, ?c)"
    using all_shares_received_eq [OF E c1(2)] c1(4,7) by simp
  moreover have "requests_of c1 ! unat i = Some (absent_request n S)" if "i \<in> set S" for i
  proof -
    have a: "unat i \<in> announced_by c1" using that c1(5) by simp
    then have "rank c1 (unat i) < unat t" using rank_below [OF c1(2)] c1(7) by simp
    moreover have "unat i < unat n" "dc_anounced c1 ! unat i" using a c1(3) by (simp_all add: announced_by_def)
    ultimately show ?thesis
      using missing_absent [OF c1(2,5)] c1(3,4)
      by (simp add: requests_of_def request_of_def absent_request_def)
  qed
  ultimately show ?thesis using c1(1) c3(1,2) by blast
qed

text \<open>
  The instance: three trustees with threshold 2 and secrets 1, 2 and 1, of which the third is missing
  and shares \<open>1 + x\<close>; one tally, an encryption of 2.
\<close>

definition example_secrets :: "private_key list" where
  "example_secrets = map (\<lambda>cs. \<lparr>priv_threshold = 2, coefficients = cs\<rparr>) [[1, 0], [2, 0], [1, 1]]"

definition example_tally :: encryption_rep where
  "example_tally = \<lparr>nonce_encoding = elt 2, message_encoding = elt 2\<rparr>"

lemma lagrange_bounds:
  assumes "platform E" "group_ok G" "unat n \<le> MAX_TRUSTEES" "\<forall>i \<in> set S. i < n" "i \<in> set S"
  shows "0 \<le> the (lagrange_of E G (unat i) (absent n S) n)" "the (lagrange_of E G (unat i) (absent n S) n) < par_q G"
proof -
  have "unat i \<in> set (available (absent n S) n)" using available_absent [OF assms(4,3)] assms(5) by simp
  moreover have "unat n \<le> length (absent n S)" using assms(3) by (simp add: absent_def)
  ultimately show "0 \<le> the (lagrange_of E G (unat i) (absent n S) n)"
    "the (lagrange_of E G (unat i) (absent n S) n) < par_q G"
    using platform.lagrange_of_eq [OF assms(1,2)] assms(2) platform.mul_mod_q_eq [OF assms(1,2)]
    by (simp_all add: div_mod_q_def)
qed

lemma example_powers:
  "pow_mod_p ref_env order5_group (elt 2) 1 = elt 2" "pow_mod_p ref_env order5_group (elt 2) 2 = elt 4"
  "pow_mod_p ref_env order5_group (elt 2) 3 = elt 8" "pow_mod_p ref_env order5_group (elt 2) 4 = elt 16"
  by (simp_all add: order5_pow)

lemma example_shares_ok:
  assumes "s \<in> {1, 2}"
  shows "decryption_share_ok order5_group (honest_share ref_env order5_group [example_tally] i s)"
  using assms elt_fits [of 2] elt_fits [of 4] example_powers
  by (auto simp: decryption_share_ok_def honest_share_def raise_def encryption_ok_def example_tally_def MAX_SELECTIONS_def)

lemma below_3: "k < (3 :: nat) \<longleftrightarrow> k = 0 \<or> k = 1 \<or> k = 2"
  by arith

lemma example_fragments_ok:
  assumes "i \<in> {0, 1}"
  shows "decryption_fragments_ok order5_group (fragments_rep_of ref_env order5_group [example_tally] example_secrets 3 2 [0, 1] i)"
proof -
  let ?w = "the (lagrange_of ref_env order5_group (unat i) (absent 3 [0, 1]) 3)"
  have w: "0 \<le> ?w" "?w < 5"
    using lagrange_bounds [OF ref.platform_axioms order5_group_ok, of 3 "[0, 1]" i] assms
    by (auto simp: MAX_TRUSTEES_def)
  have ab: "absent 3 [0, 1] = [False, False, True, False, False]"
    by code_simp
  have v: "share_value order5_group example_secrets 2 i 2 \<in> {2, 3}"
    using assms by (auto simp: share_value_def example_secrets_def polynomial_at_def numeral_2_eq_2)
  have row: "\<forall>v \<in> set (take 1 (honest_row ref_env order5_group [example_tally] s)). fits 64 v" if "s \<in> {2, 3}" for s
    using that elt_fits [of 4] elt_fits [of 8] example_powers
    by (auto simp: honest_row_def example_tally_def)
  have "length (honest_row ref_env order5_group [example_tally] s) = MAX_SELECTIONS" for s
    by (simp add: honest_row_def MAX_SELECTIONS_def)
  moreover have "[False, False, True, False, False] ! k \<longleftrightarrow> k = 2" if "k < 3" for k
    using that by (auto simp: below_3)
  moreover have "length [False, False, True, False, False] = MAX_TRUSTEES" "3 \<le> MAX_TRUSTEES" "1 \<le> MAX_SELECTIONS"
    by (simp_all add: MAX_TRUSTEES_def MAX_SELECTIONS_def)
  moreover have "\<forall>v \<in> set (take 1 (honest_row ref_env order5_group [example_tally]
      (share_value order5_group example_secrets 2 i (Suc (Suc 0))))). fits 64 v"
    using row [OF v] by (simp add: numeral_2_eq_2)
  ultimately show ?thesis
    using w row [OF v]
    by (auto simp: decryption_fragments_ok_def fragments_rep_of_def honest_fragments_def ab)
qed

lemma example_run: "honest_run ref_env order5_group [example_tally] example_secrets 3 2 [0, 1]"
proof -
  have "in_group order5_group (elt 2)" using group_okD(7) [OF order5_group_ok] by simp
  moreover have "\<forall>k < 3. 0 \<le> coefficients (example_secrets ! k) ! 0"
    by (auto simp: example_secrets_def below_3)
  moreover have "secret_of example_secrets i \<in> {1, 2}" if "i \<in> {0, 1}" for i
    using that by (auto simp: secret_of_def example_secrets_def)
  ultimately show ?thesis
    using example_shares_ok example_fragments_ok
    by (auto simp: honest_run_def valid_params_def MAX_TRUSTEES_def MAX_SELECTIONS_def example_tally_def)
qed

lemma example_new:
  "\<exists>c0. Decryption_Coordinator_new ref_env 3 2 = Some (DECRYPTION_COORDINATOR_SUCCESS, Some c0)"
  by (rule decryption_new_total [OF ref.platform_mem_axioms]) (simp add: valid_params_def MAX_TRUSTEES_def)

theorem requests_after_shares_witness:
  "\<exists>c0 c. Decryption_Coordinator_new ref_env 3 2 = Some (DECRYPTION_COORDINATOR_SUCCESS, Some c0) \<and>
     receive_all (Decryption_Coordinator_receive_share ref_env order5_group) DECRYPTION_COORDINATOR_SUCCESS
       (share_messages ref_env order5_group [example_tally] example_secrets [0, 1]) c0 = Some c \<and>
     Decryption_Coordinator_all_shares_received ref_env c
       = Some (DECRYPTION_COORDINATOR_SUCCESS, requests_of c, prepared c)"
proof -
  obtain c0 where c0: "Decryption_Coordinator_new ref_env 3 2 = Some (DECRYPTION_COORDINATOR_SUCCESS, Some c0)"
    using example_new by blast
  obtain c where c: "receive_all (Decryption_Coordinator_receive_share ref_env order5_group) DECRYPTION_COORDINATOR_SUCCESS
       (share_messages ref_env order5_group [example_tally] example_secrets [0, 1]) c0 = Some c"
    using honest_shares_run [OF ref.platform_mem_axioms order5_group_ok example_run c0] by blast
  show ?thesis
    using requests_after_shares [OF ref.platform_mem_axioms c0 c] c0 c by (simp add: share_messages_def)
qed

text \<open>C3: Threshold decryption with missing trustees. Exactly \<open>threshold\<close> trustees announce themselves with
  their shares; the coordinator accepts them, asks each for fragments for all the missing trustees,
  accepts these, and finds everyone seen or compensated for. Every tally then holds its message encoding and its
  nonce encoding raised to the sum of the secrets of all trustees, present or missing.\<close>

theorem threshold_decryption:
  assumes "platform_mem E" "group_ok G" "small_invertible G" "honest_run E G xs privs n t S"
  shows "\<exists>c0 c1 reqs c2 c3. Decryption_Coordinator_new E n t = Some (DECRYPTION_COORDINATOR_SUCCESS, Some c0) \<and>
    receive_all (Decryption_Coordinator_receive_share E G) DECRYPTION_COORDINATOR_SUCCESS
      (share_messages E G xs privs S) c0 = Some c1 \<and>
    Decryption_Coordinator_all_shares_received E c1 = Some (DECRYPTION_COORDINATOR_SUCCESS, reqs, c2) \<and>
    (\<forall>i \<in> set S. reqs ! unat i = Some (absent_request n S)) \<and>
    receive_all (Decryption_Coordinator_receive_fragments E G) DECRYPTION_COORDINATOR_SUCCESS
      (fragment_messages E G xs privs n (unat t) S) c2 = Some c3 \<and>
    Decryption_Coordinator_all_trustees_seen_or_compensated c3 = Some True \<and>
    raised E G xs (\<Sum>k < unat n. coefficients (privs ! k) ! 0) c3"
proof -
  have "valid_params n t" using assms(4) by (simp add: honest_run_def)
  then obtain c0 where "Decryption_Coordinator_new E n t = Some (DECRYPTION_COORDINATOR_SUCCESS, Some c0)"
    using decryption_new_total [OF assms(1)] by blast
  then show ?thesis using honest_decryption [OF assms] by blast
qed

lemma example_secret_sum: "(\<Sum>k < unat (3 :: u32). coefficients (example_secrets ! k) ! 0) = 4"
proof -
  have "{..<unat (3 :: u32)} = {0, 1, 2}" by (auto simp: below_3)
  then show ?thesis by (simp only:) (simp add: example_secrets_def)
qed

theorem threshold_decryption_witness:
  "\<exists>c0 c1 reqs c2 c3. Decryption_Coordinator_new ref_env 3 2 = Some (DECRYPTION_COORDINATOR_SUCCESS, Some c0) \<and>
    receive_all (Decryption_Coordinator_receive_share ref_env order5_group) DECRYPTION_COORDINATOR_SUCCESS
      (share_messages ref_env order5_group [example_tally] example_secrets [0, 1]) c0 = Some c1 \<and>
    Decryption_Coordinator_all_shares_received ref_env c1 = Some (DECRYPTION_COORDINATOR_SUCCESS, reqs, c2) \<and>
    receive_all (Decryption_Coordinator_receive_fragments ref_env order5_group) DECRYPTION_COORDINATOR_SUCCESS
      (fragment_messages ref_env order5_group [example_tally] example_secrets 3 2 [0, 1]) c2 = Some c3 \<and>
    raised ref_env order5_group [example_tally] 4 c3"
  using threshold_decryption [OF ref.platform_mem_axioms order5_group_ok order5_small example_run]
  unfolding example_secret_sum by auto

section \<open>The result\<close>

definition found_at :: "params \<Rightarrow> nat \<Rightarrow> bool" where
  "found_at G v \<longleftrightarrow> generator G ^ v mod par_p G \<noteq> max_decryption \<and>
     list_all (\<lambda>k. generator G ^ k mod par_p G \<noteq> generator G ^ v mod par_p G) [0..<v]"

definition tally_line :: "nat \<Rightarrow> encryption_rep \<Rightarrow> string" where
  "tally_line j t = ''tally '' @ fmt_dec j @ '': '' @ encryption_text t @ [CHR 0x0A]"

lemma mod_cancel:
  fixes a b c p :: int
  assumes "coprime b p" "a * b mod p = c * b mod p"
  shows "a mod p = c mod p"
proof -
  have "p dvd (a - c) * b" using assms(2) by (simp add: mod_eq_dvd_iff left_diff_distrib)
  then show ?thesis using assms(1) by (simp add: mod_eq_dvd_iff coprime_dvd_mult_left_iff coprime_commute)
qed

lemma decrypted_tally:
  assumes E: "platform E" and G: "group_ok G" and x: "encrypts E G (pow_mod_p E G (generator G) e) r (int v) x" "0 \<le> e"
    and t: "nonce_encoding t = pow_mod_p E G (nonce_encoding x) e" "message_encoding t = message_encoding x"
    and v: "found_at G v"
  shows "log_generator_mod_p E G (div_mod_p E G (message_encoding t) (nonce_encoding t)) = Some (True, int v)"
proof -
  let ?g = "generator G" and ?p = "par_p G" and ?M = "div_mod_p E G (message_encoding t) (nonce_encoding t)"
  note x' = x(1) [unfolded encrypts_def]
  note eqs = platform.pow_mod_p_eq [OF E G] platform.mul_mod_p_eq [OF E G] platform.pow_pow [OF E G]
  let ?b = "pow_mod_p E G ?g (r * e)"
  have b: "nonce_encoding t = ?b" using t(1) x' x(2) platform.pow_pow [OF E G] by simp
  have m: "message_encoding t = mul_mod_p E G ?b (pow_mod_p E G ?g (int v))"
    using t(2) x' x(2) platform.pow_pow [OF E G] by (simp add: mult.commute)
  have in_b: "in_group G ?b" using platform.pow_in_group [OF E G] x' x(2) G by simp
  have "mul_mod_p E G ?M ?b = message_encoding t mod ?p"
    unfolding b by (rule platform.div_mul [OF E G in_b])
  then have "?M * ?b mod ?p = (?g ^ v mod ?p) * ?b mod ?p"
    using m platform.mul_mod_p_eq [OF E G] platform.pow_mod_p_eq [OF E G, of "int v"] by (simp add: mult.commute)
  then have "?M mod ?p = (?g ^ v mod ?p) mod ?p"
    by (rule mod_cancel [OF in_group_coprime [OF G in_b]])
  moreover have "?M mod ?p = ?M" using platform.mul_mod_p_eq [OF E G] by (simp add: div_mod_p_def)
  ultimately have M: "?M = ?g ^ v mod ?p" by simp
  have "log_generator_loop E G ?M (int 0) (?g ^ 0 mod ?p) = Some (True, int v)"
    using v M by (intro platform.log_loop_finds [OF E G]) (auto simp: found_at_def list_all_iff)
  then show ?thesis using group_okD(1) [OF G] by (simp add: log_generator_mod_p_def)
qed

lemma decrypt_loop:
  assumes E: "platform_mem E" and G: "group_ok G" and e: "0 \<le> e" and ts: "raised_list E G xs e (dc_tallies c)"
    and x: "\<forall>j < length xs. \<exists>r. encrypts E G (pow_mod_p E G (generator G) e) r (int (vs ! j)) (xs ! j)"
    and v: "\<forall>j < length xs. found_at G (vs ! j) \<and> encryption_ok (dc_tallies c ! j)"
    and n: "n \<le> length xs" "length xs \<le> length results"
    and room: "length (concat (map (\<lambda>j. tally_line j (dc_tallies c ! j)) [0..<n])) \<le> out_room out"
  shows "loop n (decrypt_tally_step E G c) (DECRYPTION_COORDINATOR_SUCCESS, out, results) =
    Some (DECRYPTION_COORDINATOR_SUCCESS, wrote out (concat (map (\<lambda>j. tally_line j (dc_tallies c ! j)) [0..<n])),
      map (\<lambda>j. word_of_nat (vs ! j)) [0..<n] @ drop n results)"
  using n(1) room
proof (induction n)
  case (Suc n)
  let ?t = "dc_tallies c ! n" and ?out = "wrote out (concat (map (\<lambda>j. tally_line j (dc_tallies c ! j)) [0..<n]))"
  have l: "n < length (dc_tallies c)" using Suc.prems ts by (simp add: raised_list_def)
  obtain r where r: "encrypts E G (pow_mod_p E G (generator G) e) r (int (vs ! n)) (xs ! n)"
    using x Suc_le_lessD [OF Suc.prems(1)] by blast
  have t: "nonce_encoding ?t = pow_mod_p E G (nonce_encoding (xs ! n)) e" "message_encoding ?t = message_encoding (xs ! n)"
    and ok: "found_at G (vs ! n)" "encryption_ok ?t"
    using ts v Suc.prems by (simp_all add: raised_list_def)
  note log = decrypted_tally [OF platform_mem.axioms(1) [OF E] G r e t ok(1)]
  have room: "length (tally_line n ?t) \<le> out_room ?out" using Suc.prems(2) by simp
  have s: "length (''tally '' @ fmt_dec n @ '': '') \<le> out_room ?out"
    "2055 \<le> out_room (wrote ?out (''tally '' @ fmt_dec n @ '': ''))"
    "1 \<le> out_room (wrote (wrote ?out (''tally '' @ fmt_dec n @ '': '')) (encryption_text ?t))"
    using room by (simp_all add: tally_line_def)
  have "decrypt_tally_step E G c n (DECRYPTION_COORDINATOR_SUCCESS, ?out,
      map (\<lambda>j. word_of_nat (vs ! j)) [0..<n] @ drop n results)
    = Some (DECRYPTION_COORDINATOR_SUCCESS, wrote ?out (tally_line n ?t),
      (map (\<lambda>j. word_of_nat (vs ! j)) [0..<n] @ drop n results)[n := word_of_int (int (vs ! n))])"
    using l log n(2) Suc.prems(1) fprintf_wrote [OF s(1)] platform_mem.fprint_encryption [OF E ok(2) s(2)] s(3)
    by (simp add: decrypt_tally_step_def fprintf_wrote tally_line_def Let_def del: wrote_wrote)
  moreover have "drop n results = results ! n # drop (Suc n) results"
    using n(2) Suc.prems(1) by (simp add: Cons_nth_drop_Suc)
  ultimately show ?case using Suc by (simp add: list_update_append)
qed simp

text \<open>C9: The announced result. When everyone is seen or compensated for and each tally encrypts a
  number under the joint key, with the secret of the joint key in the exponent, the coordinator finds every number,
  stores it in the array of results and prints one line for each tally.\<close>

theorem decrypted_results:
  assumes "platform_mem E" "group_ok G" "0 \<le> e" "raised E G xs e c" "length vs = length xs"
    and "Decryption_Coordinator_all_trustees_seen_or_compensated c = Some True"
    and "\<forall>j < length xs. \<exists>r. encrypts E G (pow_mod_p E G (generator G) e) r (int (vs ! j)) (xs ! j)"
    and "\<forall>j < length xs. found_at G (vs ! j) \<and> encryption_ok (dc_tallies c ! j)"
    and "length xs \<le> length results"
    and "length (concat (map (\<lambda>j. tally_line j (dc_tallies c ! j)) [0..<length xs])) \<le> out_room out"
  shows "Decryption_Coordinator_all_fragments_received E G c out results =
    Some (DECRYPTION_COORDINATOR_SUCCESS,
      wrote out (concat (map (\<lambda>j. tally_line j (dc_tallies c ! j)) [0..<length xs])),
      map word_of_nat vs @ drop (length xs) results)"
proof -
  have "map (\<lambda>j. word_of_nat (vs ! j)) [0..<length xs] = map word_of_nat vs"
    using map_nth_take [of "length xs" vs word_of_nat] assms(5) by simp
  then show ?thesis
    using decrypt_loop [OF assms(1-3) _ assms(7,8) order_refl assms(9,10)] assms(4,6)
    by (simp add: Decryption_Coordinator_all_fragments_received_def raised_def)
qed

lemma example_found: "found_at order5_group 2"
proof -
  have "elt 4 \<noteq> max_decryption"
  proof -
    have "(2 :: int) ^ 30 \<le> wide_unit" unfolding wide_unit_def by (rule power_increasing) simp_all
    then show ?thesis by (simp add: elt_def max_decryption_def)
  qed
  moreover have "elt 2 ^ 2 mod (31 * wide_unit) = elt 4" "elt 2 ^ 1 mod (31 * wide_unit) = elt 2"
    using elt_power [of 2 2] elt_power [of 2 1] by (simp_all add: elt_def)
  moreover have "1 \<noteq> elt 4" using wide_unit(1) by (simp add: elt_def)
  moreover have "[0..<2] = [0, 1]" by (simp add: upt_rec)
  ultimately show ?thesis using wide_unit(1) by (simp add: found_at_def)
qed

lemma example_encrypts:
  "encrypts ref_env order5_group (pow_mod_p ref_env order5_group (elt 2) 4) 1 2 example_tally"
  using order5_pow [of 1 16] by (simp add: encrypts_def example_tally_def example_powers order5_mul)

theorem decrypted_results_witness:
  "\<exists>c out. raised ref_env order5_group [example_tally] 4 c \<and>
     Decryption_Coordinator_all_fragments_received ref_env order5_group c \<lparr>out_text = [], out_room = 3000\<rparr> [0, 7]
       = Some (DECRYPTION_COORDINATOR_SUCCESS, out, [2, 7])"
proof -
  obtain c0 where c0: "Decryption_Coordinator_new ref_env 3 2 = Some (DECRYPTION_COORDINATOR_SUCCESS, Some c0)"
    using example_new by blast
  obtain c where c: "Decryption_Coordinator_all_trustees_seen_or_compensated c = Some True"
    "raised ref_env order5_group [example_tally] 4 c"
    using honest_decryption [OF ref.platform_mem_axioms order5_group_ok order5_small example_run c0]
    unfolding example_secret_sum by blast
  have t: "encryption_ok (dc_tallies c ! 0)"
    using c(2) elt_fits [of 16] elt_fits [of 2]
    by (simp add: raised_def raised_list_def encryption_ok_def example_tally_def example_powers)
  have "fmt_dec 0 = ''0''" by code_simp
  then have l: "length (concat (map (\<lambda>j. tally_line j (dc_tallies c ! j)) [0..<1])) \<le> 3000"
    by (simp add: tally_line_def)
  show ?thesis
    using decrypted_results [OF ref.platform_mem_axioms order5_group_ok _ c(2), of "[2]" "[0, 7]"
        "\<lparr>out_text = [], out_room = 3000\<rparr>"] c t l example_found example_encrypts by auto
qed

end
