(* ===== verification/UTHash.thy ===== *)
theory UTHash
  imports Platform
begin

text \<open>
  The hash table of \<open>uthash.h\<close>, as far as \<open>voting/ballot_collection.c\<close> expands its macros:
  \<open>HASH_FIND_STR\<close>, \<open>HASH_ADD_KEYPTR\<close>, \<open>HASH_DEL\<close>, \<open>HASH_ITER\<close> and \<open>HASH_COUNT\<close>, with the default
  hash function, no bloom filter and a fatal \<open>exit\<close> when memory runs out. Elements live in a heap of
  addresses, so that an element that was freed and is still linked into the table is visible: reading
  it is undefined behaviour, the result \<open>None\<close>, which is also the result of the \<open>exit\<close>.

  The doubly linked lists are lists of addresses: \<open>tbl_order\<close> is the chain from the head through
  \<open>next\<close>, whose first address is the head pointer and whose last one is \<open>tail\<close>, and \<open>bkt_chain\<close> is the
  chain of a bucket through \<open>hh_next\<close>. Writing a back pointer reads no value, so in the model it only
  asks that the element written to is alive. A key is the C string the element points to; the
  caller keeps it unchanged as long as the element is in the table.
\<close>

section \<open>Elements, buckets, tables\<close>

record 'e UT_elmt =
  elmt :: 'e
  hh_key :: string
  hh_keylen :: u32
  hh_hashv :: u32

record UT_hash_bucket =
  bkt_chain :: "nat list"
  bkt_count :: u32
  expand_mult :: u32

record UT_hash_table =
  buckets :: "UT_hash_bucket list"
  num_buckets :: u32
  log2_num_buckets :: u32
  num_items :: u32
  tbl_order :: "nat list"
  ideal_chain_maxlen :: u32
  nonideal_items :: u32
  ineff_expands :: u32
  noexpand :: u32

text \<open>\<open>head_table\<close> is \<open>None\<close> for a null head; otherwise the table the head element points to.\<close>

record 'e hash_box =
  heap :: "nat \<Rightarrow> 'e UT_elmt option"
  next_address :: nat
  head_table :: "UT_hash_table option"

definition empty_box :: "'e hash_box" where
  "empty_box = \<lparr>heap = (\<lambda>_. None), next_address = 0, head_table = None\<rparr>"

text \<open>A fresh element (its handle is indeterminate until it is added), and \<open>free\<close>.\<close>

definition new_elmt :: "'e \<Rightarrow> 'e hash_box \<Rightarrow> nat \<times> 'e hash_box" where
  "new_elmt x b =
     (next_address b,
      b\<lparr>heap := (heap b)(next_address b \<mapsto> \<lparr>elmt = x, hh_key = [], hh_keylen = 0, hh_hashv = 0\<rparr>),
        next_address := Suc (next_address b)\<rparr>)"

definition free_elmt :: "nat \<Rightarrow> 'e hash_box \<Rightarrow> 'e hash_box option" where
  "free_elmt a b = do { _ \<leftarrow> heap b a; Some (b\<lparr>heap := (heap b)(a := None)\<rparr>) }"

section \<open>The hash function\<close>

definition HASH_JEN_MIX :: "u32 \<times> u32 \<times> u32 \<Rightarrow> u32 \<times> u32 \<times> u32" where
  "HASH_JEN_MIX s =
     (case s of (a, b, c) \<Rightarrow>
        let a = a - b; a = a - c; a = a XOR drop_bit 13 c;
            b = b - c; b = b - a; b = b XOR push_bit 8 a;
            c = c - a; c = c - b; c = c XOR drop_bit 13 b;
            a = a - b; a = a - c; a = a XOR drop_bit 12 c;
            b = b - c; b = b - a; b = b XOR push_bit 16 a;
            c = c - a; c = c - b; c = c XOR drop_bit 5 b;
            a = a - b; a = a - c; a = a XOR drop_bit 3 c;
            b = b - c; b = b - a; b = b XOR push_bit 10 a;
            c = c - a; c = c - b; c = c XOR drop_bit 15 b
        in (a, b, c))"

text \<open>Four bytes, least significant first; a byte behind the end counts as zero.\<close>

definition key_byte :: "string \<Rightarrow> nat \<Rightarrow> u32" where
  "key_byte k i = (if i < length k then of_char (k ! i) else 0)"

definition key_word :: "string \<Rightarrow> nat \<Rightarrow> u32" where
  "key_word k i =
     key_byte k i + push_bit 8 (key_byte k (i + 1)) + push_bit 16 (key_byte k (i + 2))
       + push_bit 24 (key_byte k (i + 3))"

text \<open>The loop over blocks of twelve bytes; it returns the bytes that are left.\<close>

function HASH_JEN_blocks :: "string \<Rightarrow> u32 \<times> u32 \<times> u32 \<Rightarrow> string \<times> u32 \<times> u32 \<times> u32" where
  "HASH_JEN_blocks k s =
     (if 12 \<le> length k
      then case s of (i, j, h) \<Rightarrow>
        HASH_JEN_blocks (drop 12 k) (HASH_JEN_MIX (i + key_word k 0, j + key_word k 4, h + key_word k 8))
      else (k, s))"
  by pat_completeness auto
termination
  by (relation "measure (\<lambda>(k, _). length k)") auto

declare HASH_JEN_blocks.simps [simp del]

text \<open>
  The remaining bytes fall through the cases of a \<open>switch\<close>: those of the third word are shifted by
  one byte, because its lowest byte is left to the length.
\<close>

definition HASH_JEN :: "string \<Rightarrow> u32 \<Rightarrow> u32" where
  "HASH_JEN key keylen =
     (case HASH_JEN_blocks (take (unat keylen) key) (0x9e3779b9, 0x9e3779b9, 0xfeedbeef) of
        (k, i, j, h) \<Rightarrow>
          let h = h + keylen;
              h = h + push_bit 8 (key_byte k 8) + push_bit 16 (key_byte k 9) + push_bit 24 (key_byte k 10);
              j = j + key_word k 4;
              i = i + key_word k 0
          in snd (snd (HASH_JEN_MIX (i, j, h))))"

definition HASH_TO_BKT :: "u32 \<Rightarrow> u32 \<Rightarrow> nat" where
  "HASH_TO_BKT hashv num_bkts = unat (hashv AND (num_bkts - 1))"

section \<open>Looking up\<close>

text \<open>The head element is read to reach the table.\<close>

definition tbl_of :: "'e hash_box \<Rightarrow> UT_hash_table \<Rightarrow> UT_hash_table option" where
  "tbl_of b t = do { a \<leftarrow> arr_get (tbl_order t) 0; _ \<leftarrow> heap b a; Some t }"

primrec HASH_FIND_IN_BKT ::
    "(nat \<Rightarrow> 'e UT_elmt option) \<Rightarrow> string \<Rightarrow> u32 \<Rightarrow> u32 \<Rightarrow> nat list \<Rightarrow> nat option option" where
  "HASH_FIND_IN_BKT H keyptr keylen hashval [] = Some None"
| "HASH_FIND_IN_BKT H keyptr keylen hashval (a # as) =
     do {
       e \<leftarrow> H a;
       if hh_hashv e = hashval \<and> hh_keylen e = keylen \<and>
          take (unat keylen) (hh_key e) = take (unat keylen) keyptr
       then Some (Some a)
       else HASH_FIND_IN_BKT H keyptr keylen hashval as }"

definition HASH_FIND_BYHASHVALUE ::
    "string \<Rightarrow> u32 \<Rightarrow> u32 \<Rightarrow> 'e hash_box \<Rightarrow> nat option option" where
  "HASH_FIND_BYHASHVALUE keyptr keylen hashval b =
     (case head_table b of
        None \<Rightarrow> Some None
      | Some t \<Rightarrow> do {
          t \<leftarrow> tbl_of b t;
          bkt \<leftarrow> arr_get (buckets t) (HASH_TO_BKT hashval (num_buckets t));
          HASH_FIND_IN_BKT (heap b) keyptr keylen hashval (bkt_chain bkt) })"

definition HASH_FIND :: "string \<Rightarrow> u32 \<Rightarrow> 'e hash_box \<Rightarrow> nat option option" where
  "HASH_FIND keyptr keylen b =
     (case head_table b of
        None \<Rightarrow> Some None
      | Some _ \<Rightarrow> HASH_FIND_BYHASHVALUE keyptr keylen (HASH_JEN keyptr keylen) b)"

definition HASH_FIND_STR :: "string \<Rightarrow> 'e hash_box \<Rightarrow> nat option option" where
  "HASH_FIND_STR findstr b = HASH_FIND findstr (of_nat (length findstr)) b"

definition HASH_COUNT :: "'e hash_box \<Rightarrow> u32 option" where
  "HASH_COUNT b =
     (case head_table b of None \<Rightarrow> Some 0 | Some t \<Rightarrow> do { t \<leftarrow> tbl_of b t; Some (num_items t) })"

section \<open>Expanding the buckets\<close>

text \<open>Shifting a 32-bit number by 32 or more is undefined behaviour.\<close>

definition empty_bucket :: UT_hash_bucket where
  "empty_bucket = \<lparr>bkt_chain = [], bkt_count = 0, expand_mult = 0\<rparr>"

text \<open>One element moves to its new bucket. The state holds \<open>nonideal_items\<close> and the new buckets.\<close>

definition expand_elmt ::
    "(nat \<Rightarrow> 'e UT_elmt option) \<Rightarrow> u32 \<Rightarrow> u32 \<Rightarrow> nat \<Rightarrow> u32 \<times> UT_hash_bucket list \<Rightarrow>
     (u32 \<times> UT_hash_bucket list) option" where
  "expand_elmt H new_num maxlen a s =
     (case s of (nonideal, bs) \<Rightarrow> do {
        e \<leftarrow> H a;
        let i = HASH_TO_BKT (hh_hashv e) new_num;
        bkt \<leftarrow> arr_get bs i;
        let count = bkt_count bkt + 1;
        let over = maxlen < count;
        let mult = (if over \<and> expand_mult bkt * maxlen < count then expand_mult bkt + 1 else expand_mult bkt);
        bs \<leftarrow> arr_set bs i \<lparr>bkt_chain = a # bkt_chain bkt, bkt_count = count, expand_mult = mult\<rparr>;
        Some (if over then nonideal + 1 else nonideal, bs) })"

primrec expand_chain ::
    "(nat \<Rightarrow> 'e UT_elmt option) \<Rightarrow> u32 \<Rightarrow> u32 \<Rightarrow> nat list \<Rightarrow> u32 \<times> UT_hash_bucket list \<Rightarrow>
     (u32 \<times> UT_hash_bucket list) option" where
  "expand_chain H new_num maxlen [] s = Some s"
| "expand_chain H new_num maxlen (a # as) s =
     do { s \<leftarrow> expand_elmt H new_num maxlen a s; expand_chain H new_num maxlen as s }"

definition HASH_EXPAND_BUCKETS ::
    "env \<Rightarrow> (nat \<Rightarrow> 'e UT_elmt option) \<Rightarrow> UT_hash_table \<Rightarrow> UT_hash_table option" where
  "HASH_EXPAND_BUCKETS E H t =
     do {
       let new_num = num_buckets t * 2;
       _ \<leftarrow> malloc E (2 * unat (num_buckets t) * 16);
       if 32 \<le> unat (log2_num_buckets t + 1) then None else do {
       let maxlen = drop_bit (unat (log2_num_buckets t + 1)) (num_items t)
                    + (if num_items t AND (new_num - 1) \<noteq> 0 then 1 else 0);
       (nonideal, bs) \<leftarrow> loop (unat (num_buckets t))
         (\<lambda>i s. do { bkt \<leftarrow> arr_get (buckets t) i; expand_chain H new_num maxlen (bkt_chain bkt) s })
         (0, replicate (2 * unat (num_buckets t)) empty_bucket);
       let ineff = (if drop_bit 1 (num_items t) < nonideal then ineff_expands t + 1 else 0);
       Some (t\<lparr>buckets := bs, num_buckets := new_num, log2_num_buckets := log2_num_buckets t + 1,
               ideal_chain_maxlen := maxlen, nonideal_items := nonideal, ineff_expands := ineff,
               noexpand := (if 1 < ineff then 1 else noexpand t)\<rparr>) } }"

section \<open>Adding\<close>

definition HASH_MAKE_TABLE :: "env \<Rightarrow> nat \<Rightarrow> UT_hash_table option" where
  "HASH_MAKE_TABLE E a =
     do {
       _ \<leftarrow> malloc E 64;
       _ \<leftarrow> malloc E (32 * 16);
       Some \<lparr>buckets = replicate 32 empty_bucket, num_buckets = 32, log2_num_buckets = 5, num_items = 0,
             tbl_order = [a], ideal_chain_maxlen = 0, nonideal_items = 0, ineff_expands = 0, noexpand = 0\<rparr> }"

definition HASH_APPEND_LIST :: "'e hash_box \<Rightarrow> nat \<Rightarrow> UT_hash_table \<Rightarrow> UT_hash_table option" where
  "HASH_APPEND_LIST b a t =
     do {
       t \<leftarrow> tbl_of b t;
       tail \<leftarrow> arr_get (tbl_order t) (length (tbl_order t) - 1);
       _ \<leftarrow> heap b tail;
       Some (t\<lparr>tbl_order := tbl_order t @ [a]\<rparr>) }"

definition HASH_ADD_TO_BKT ::
    "env \<Rightarrow> (nat \<Rightarrow> 'e UT_elmt option) \<Rightarrow> nat \<Rightarrow> nat \<Rightarrow> UT_hash_table \<Rightarrow> UT_hash_table option" where
  "HASH_ADD_TO_BKT E H i a t =
     do {
       bkt \<leftarrow> arr_get (buckets t) i;
       _ \<leftarrow> (case bkt_chain bkt of [] \<Rightarrow> Some () | c # _ \<Rightarrow> do { _ \<leftarrow> H c; Some () });
       let bkt = bkt\<lparr>bkt_chain := a # bkt_chain bkt, bkt_count := bkt_count bkt + 1\<rparr>;
       bs \<leftarrow> arr_set (buckets t) i bkt;
       let t = t\<lparr>buckets := bs\<rparr>;
       if (expand_mult bkt + 1) * 10 \<le> bkt_count bkt \<and> noexpand t = 0
       then HASH_EXPAND_BUCKETS E H t
       else Some t }"

definition HASH_ADD_TO_TABLE ::
    "env \<Rightarrow> (nat \<Rightarrow> 'e UT_elmt option) \<Rightarrow> u32 \<Rightarrow> nat \<Rightarrow> UT_hash_table \<Rightarrow> UT_hash_table option" where
  "HASH_ADD_TO_TABLE E H hashval a t =
     (let t = t\<lparr>num_items := num_items t + 1\<rparr>
      in HASH_ADD_TO_BKT E H (HASH_TO_BKT hashval (num_buckets t)) a t)"

definition HASH_ADD_KEYPTR_BYHASHVALUE ::
    "env \<Rightarrow> string \<Rightarrow> u32 \<Rightarrow> u32 \<Rightarrow> nat \<Rightarrow> 'e hash_box \<Rightarrow> 'e hash_box option" where
  "HASH_ADD_KEYPTR_BYHASHVALUE E keyptr keylen hashval a b =
     do {
       e \<leftarrow> heap b a;
       let b = b\<lparr>heap := (heap b)(a \<mapsto> e\<lparr>hh_key := keyptr, hh_keylen := keylen, hh_hashv := hashval\<rparr>)\<rparr>;
       t \<leftarrow> (case head_table b of
                None \<Rightarrow> HASH_MAKE_TABLE E a
              | Some t \<Rightarrow> HASH_APPEND_LIST b a t);
       t \<leftarrow> HASH_ADD_TO_TABLE E (heap b) hashval a t;
       Some (b\<lparr>head_table := Some t\<rparr>) }"

definition HASH_ADD_KEYPTR ::
    "env \<Rightarrow> string \<Rightarrow> u32 \<Rightarrow> nat \<Rightarrow> 'e hash_box \<Rightarrow> 'e hash_box option" where
  "HASH_ADD_KEYPTR E keyptr keylen a b = HASH_ADD_KEYPTR_BYHASHVALUE E keyptr keylen (HASH_JEN keyptr keylen) a b"

section \<open>Deleting\<close>

text \<open>The elements before and after an address in a chain, whose pointers are patched.\<close>

primrec neighbours :: "nat \<Rightarrow> nat list \<Rightarrow> nat list" where
  "neighbours a [] = []"
| "neighbours a (x # xs) =
     (if x = a then take 1 xs
      else if take 1 xs = [a] then x # take 1 (drop 1 xs)
      else neighbours a xs)"

definition all_alive :: "(nat \<Rightarrow> 'e UT_elmt option) \<Rightarrow> nat list \<Rightarrow> unit option" where
  "all_alive H as = (if list_all (\<lambda>a. H a \<noteq> None) as then Some () else None)"

definition HASH_DEL_IN_BKT ::
    "(nat \<Rightarrow> 'e UT_elmt option) \<Rightarrow> nat \<Rightarrow> nat \<Rightarrow> UT_hash_bucket list \<Rightarrow> UT_hash_bucket list option" where
  "HASH_DEL_IN_BKT H i a bs =
     do {
       bkt \<leftarrow> arr_get bs i;
       _ \<leftarrow> all_alive H (neighbours a (bkt_chain bkt));
       arr_set bs i (bkt\<lparr>bkt_chain := remove1 a (bkt_chain bkt), bkt_count := bkt_count bkt - 1\<rparr>) }"

definition HASH_DEL :: "nat \<Rightarrow> 'e hash_box \<Rightarrow> 'e hash_box option" where
  "HASH_DEL a b =
     do {
       e \<leftarrow> heap b a;
       t \<leftarrow> head_table b;
       t \<leftarrow> tbl_of b t;
       if a \<notin> set (tbl_order t) then None
       else if tbl_order t = [a] then Some (b\<lparr>head_table := None\<rparr>)
       else do {
         _ \<leftarrow> all_alive (heap b) (neighbours a (tbl_order t));
         let t = t\<lparr>tbl_order := remove1 a (tbl_order t)\<rparr>;
         t \<leftarrow> tbl_of b t;
         bs \<leftarrow> HASH_DEL_IN_BKT (heap b) (HASH_TO_BKT (hh_hashv e) (num_buckets t)) a (buckets t);
         Some (b\<lparr>head_table := Some (t\<lparr>buckets := bs, num_items := num_items t - 1\<rparr>)\<rparr>) } }"

end
