(* ===== verification/UTHashProofs.thy ===== *)
theory UTHashProofs
  imports UTHash
begin

text \<open>
  The hash table implements a finite map from strings: the invariant of the table, the map it stands
  for, and what each operation does to that map. Expanding the buckets changes neither.
\<close>

section \<open>Invariant and abstraction\<close>

definition short_key :: "string \<Rightarrow> bool" where
  "short_key k \<longleftrightarrow> length k < 2 ^ 32"

definition handle_ok :: "'e UT_elmt \<Rightarrow> bool" where
  "handle_ok e \<longleftrightarrow> short_key (hh_key e) \<and> hh_keylen e = of_nat (length (hh_key e)) \<and>
     hh_hashv e = HASH_JEN (hh_key e) (hh_keylen e)"

text \<open>The chains of the buckets share out the set \<open>A\<close> by the hash value.\<close>

definition chains_ok :: "(nat \<Rightarrow> 'e UT_elmt option) \<Rightarrow> u32 \<Rightarrow> UT_hash_bucket list \<Rightarrow> nat set \<Rightarrow> bool" where
  "chains_ok H n bs A \<longleftrightarrow>
     length bs = unat n \<and>
     (\<forall>i < length bs. distinct (bkt_chain (bs ! i)) \<and>
        set (bkt_chain (bs ! i)) = {a \<in> A. \<exists>e. H a = Some e \<and> HASH_TO_BKT (hh_hashv e) n = i})"

definition linked :: "'e hash_box \<Rightarrow> nat list" where
  "linked b = (case head_table b of None \<Rightarrow> [] | Some t \<Rightarrow> tbl_order t)"

definition table_ok :: "(nat \<Rightarrow> 'e UT_elmt option) \<Rightarrow> UT_hash_table \<Rightarrow> bool" where
  "table_ok H t \<longleftrightarrow>
     tbl_order t \<noteq> [] \<and> num_items t = of_nat (length (tbl_order t)) \<and>
     unat (log2_num_buckets t) < 32 \<and> num_buckets t = 2 ^ unat (log2_num_buckets t) \<and>
     chains_ok H (num_buckets t) (buckets t) (set (tbl_order t))"

definition key_at :: "(nat \<Rightarrow> 'e UT_elmt option) \<Rightarrow> nat \<Rightarrow> string" where
  "key_at H a = (case H a of None \<Rightarrow> [] | Some e \<Rightarrow> hh_key e)"

definition box_ok :: "'e hash_box \<Rightarrow> bool" where
  "box_ok b \<longleftrightarrow>
     (\<forall>a. heap b a \<noteq> None \<longrightarrow> a < next_address b) \<and>
     distinct (map (key_at (heap b)) (linked b)) \<and>
     (\<forall>a \<in> set (linked b). \<exists>e. heap b a = Some e \<and> handle_ok e) \<and>
     (\<forall>t. head_table b = Some t \<longrightarrow> table_ok (heap b) t)"

definition entry_at :: "(nat \<Rightarrow> 'e UT_elmt option) \<Rightarrow> nat \<Rightarrow> string \<times> 'e" where
  "entry_at H a = (key_at H a, elmt (the (H a)))"

definition entries :: "'e hash_box \<Rightarrow> (string \<times> 'e) list" where
  "entries b = map (entry_at (heap b)) (linked b)"

definition box_map :: "'e hash_box \<Rightarrow> string \<Rightarrow> 'e option" where
  "box_map b = map_of (entries b)"

text \<open>The table can still double its buckets.\<close>

definition can_grow :: "'e hash_box \<Rightarrow> bool" where
  "can_grow b \<longleftrightarrow> (\<forall>t. head_table b = Some t \<longrightarrow> unat (log2_num_buckets t) < 31)"

lemma fst_entry_at [simp]: "fst (entry_at H a) = key_at H a"
  by (simp add: entry_at_def)

lemma box_ok_keys: "box_ok b \<Longrightarrow> distinct (map fst (entries b))"
  by (simp add: box_ok_def entries_def comp_def)

lemma box_ok_linked: "box_ok b \<Longrightarrow> distinct (linked b)"
  by (auto simp: box_ok_def distinct_map)

lemma empty_box_ok [simp]: "box_ok empty_box" "box_map empty_box = Map.empty" "entries empty_box = []"
  "can_grow empty_box" "linked empty_box = []"
  by (simp_all add: box_ok_def empty_box_def linked_def box_map_def entries_def can_grow_def)

lemma dom_box_map: "dom (box_map b) = key_at (heap b) ` set (linked b)"
  by (force simp: box_map_def entries_def dom_map_of_conv_image_fst image_image)

lemma box_map_entry:
  "box_ok b \<Longrightarrow> a \<in> set (linked b) \<Longrightarrow> heap b a = Some e \<Longrightarrow> box_map b (hh_key e) = Some (elmt e)"
  unfolding box_map_def
  by (subst map_of_eq_Some_iff [OF box_ok_keys])
     (auto simp: entries_def entry_at_def key_at_def intro!: image_eqI [of _ _ a])

section \<open>Buckets\<close>

lemma HASH_TO_BKT_pow: "HASH_TO_BKT h (2 ^ k) = unat h mod 2 ^ k"
proof -
  have "h AND (2 ^ k - 1) = take_bit k h" by (simp add: take_bit_eq_mask mask_eq_exp_minus_1)
  moreover have "unat (take_bit k h) = take_bit k (unat h)" by (simp add: unsigned_take_bit_eq)
  moreover have "take_bit k (unat h) = unat h mod 2 ^ k" by (simp add: take_bit_eq_mod)
  ultimately show ?thesis by (simp add: HASH_TO_BKT_def)
qed

lemma unat_pow: "k < 32 \<Longrightarrow> unat (2 ^ k :: u32) = 2 ^ k"
  using unat_of_nat [of "2 ^ k", where ?'a = 32] power_strict_increasing [of k 32 "2 :: nat"] by simp

lemma HASH_TO_BKT_less: "HASH_TO_BKT h (2 ^ k) < 2 ^ k"
  by (simp add: HASH_TO_BKT_pow)

lemma chains_ok_cong:
  assumes "\<And>a. a \<in> A \<Longrightarrow> H a = H' a"
  shows "chains_ok H n bs A = chains_ok H' n bs A"
  using assms by (simp add: chains_ok_def cong: conj_cong)

lemma chains_ok_insert:
  assumes "chains_ok H n bs A" "a \<notin> A" "H a = Some e" "i = HASH_TO_BKT (hh_hashv e) n" "i < length bs"
    and "bkt_chain bk = a # bkt_chain (bs ! i)"
  shows "chains_ok H n (bs[i := bk]) (insert a A)"
  using assms by (auto simp: chains_ok_def nth_list_update)

lemma chains_ok_remove:
  assumes "chains_ok H n bs A" "a \<in> A" "H a = Some e" "i = HASH_TO_BKT (hh_hashv e) n" "i < length bs"
    and "bkt_chain bk = remove1 a (bkt_chain (bs ! i))"
  shows "chains_ok H n (bs[i := bk]) (A - {a})"
  using assms by (auto simp: chains_ok_def nth_list_update set_remove1_eq)

lemma chains_ok_in:
  assumes "chains_ok H n bs A" "i < length bs" "a \<in> set (bkt_chain (bs ! i))"
  shows "a \<in> A" "\<exists>e. H a = Some e \<and> HASH_TO_BKT (hh_hashv e) n = i"
  using assms by (auto simp: chains_ok_def)

lemma chains_ok_find:
  assumes "chains_ok H n bs A" "a \<in> A" "H a = Some e" "HASH_TO_BKT (hh_hashv e) n < length bs"
  shows "a \<in> set (bkt_chain (bs ! HASH_TO_BKT (hh_hashv e) n))"
  using assms by (auto simp: chains_ok_def)

section \<open>Looking up\<close>

lemma match_iff:
  assumes "handle_ok e" "short_key k"
  shows "hh_hashv e = HASH_JEN k (of_nat (length k)) \<and> hh_keylen e = of_nat (length k) \<and>
      take (unat (of_nat (length k) :: u32)) (hh_key e) = take (unat (of_nat (length k) :: u32)) k
    \<longleftrightarrow> hh_key e = k"
proof -
  have l: "unat (of_nat (length k) :: u32) = length k" "unat (of_nat (length (hh_key e)) :: u32) = length (hh_key e)"
    using assms by (auto simp: short_key_def handle_ok_def unat_of_nat)
  have "(of_nat (length (hh_key e)) :: u32) = of_nat (length k) \<Longrightarrow> length (hh_key e) = length k"
    using l by metis
  then show ?thesis using assms l by (auto simp: handle_ok_def)
qed

lemma find_in_bkt:
  assumes "short_key k" "\<And>a. a \<in> set as \<Longrightarrow> \<exists>e. H a = Some e \<and> handle_ok e"
  shows "\<exists>r. HASH_FIND_IN_BKT H k (of_nat (length k)) (HASH_JEN k (of_nat (length k))) as = Some r \<and>
    (case r of None \<Rightarrow> k \<notin> key_at H ` set as
     | Some a \<Rightarrow> a \<in> set as \<and> key_at H a = k)"
  using assms(2)
proof (induction as)
  case (Cons a as)
  obtain e where e: "H a = Some e" "handle_ok e" using Cons.prems [of a] by auto
  note m = match_iff [OF e(2) assms(1)]
  show ?case
  proof (cases "hh_key e = k")
    case True
    with m have "HASH_FIND_IN_BKT H k (of_nat (length k)) (HASH_JEN k (of_nat (length k))) (a # as) = Some (Some a)"
      using e by simp
    with True e show ?thesis by (auto simp: key_at_def)
  next
    case False
    with m have "HASH_FIND_IN_BKT H k (of_nat (length k)) (HASH_JEN k (of_nat (length k))) (a # as)
        = HASH_FIND_IN_BKT H k (of_nat (length k)) (HASH_JEN k (of_nat (length k))) as"
      using e by auto
    moreover obtain r where "HASH_FIND_IN_BKT H k (of_nat (length k)) (HASH_JEN k (of_nat (length k))) as = Some r"
      "case r of None \<Rightarrow> k \<notin> key_at H ` set as | Some a \<Rightarrow> a \<in> set as \<and> key_at H a = k"
      using Cons by auto
    moreover have "key_at H a \<noteq> k" using False e by (simp add: key_at_def)
    ultimately show ?thesis by (cases r) auto
  qed
qed simp

lemma tbl_of_ok: "box_ok b \<Longrightarrow> head_table b = Some t \<Longrightarrow> tbl_of b t = Some t"
  by (cases "tbl_order t") (auto simp: box_ok_def table_ok_def linked_def tbl_of_def)

lemma bucket_of:
  assumes "table_ok H t"
  shows "HASH_TO_BKT h (num_buckets t) < length (buckets t)"
proof -
  have "length (buckets t) = 2 ^ unat (log2_num_buckets t)" "num_buckets t = 2 ^ unat (log2_num_buckets t)"
    using assms unat_pow [of "unat (log2_num_buckets t)"] by (simp_all add: table_ok_def chains_ok_def)
  then show ?thesis using HASH_TO_BKT_less by simp
qed

theorem HASH_FIND_STR_correct:
  assumes "box_ok b" "short_key k"
  shows "\<exists>r. HASH_FIND_STR k b = Some r \<and>
    (case r of None \<Rightarrow> k \<notin> dom (box_map b)
     | Some a \<Rightarrow> a \<in> set (linked b) \<and> (\<exists>e. heap b a = Some e \<and> hh_key e = k \<and> box_map b k = Some (elmt e)))"
proof (cases "head_table b")
  case None
  then show ?thesis by (simp add: HASH_FIND_STR_def HASH_FIND_def box_map_def entries_def linked_def)
next
  case (Some t)
  note tb = tbl_of_ok [OF assms(1) Some]
  have t: "table_ok (heap b) t" "linked b = tbl_order t" using assms(1) Some by (auto simp: box_ok_def linked_def)
  let ?i = "HASH_TO_BKT (HASH_JEN k (of_nat (length k))) (num_buckets t)"
  note i = bucket_of [OF t(1), of "HASH_JEN k (of_nat (length k))"]
  have ch: "chains_ok (heap b) (num_buckets t) (buckets t) (set (linked b))"
    unfolding t(2) using t(1) unfolding table_ok_def by blast
  have live: "\<exists>e. heap b a = Some e \<and> handle_ok e" if "a \<in> set (bkt_chain (buckets t ! ?i))" for a
    using chains_ok_in(1) [OF ch i that] assms(1) by (simp add: box_ok_def)
  obtain r where r: "HASH_FIND_IN_BKT (heap b) k (of_nat (length k)) (HASH_JEN k (of_nat (length k)))
      (bkt_chain (buckets t ! ?i)) = Some r"
    and res: "case r of None \<Rightarrow> k \<notin> key_at (heap b) ` set (bkt_chain (buckets t ! ?i))
     | Some a \<Rightarrow> a \<in> set (bkt_chain (buckets t ! ?i)) \<and> key_at (heap b) a = k"
    using find_in_bkt [OF assms(2), of "bkt_chain (buckets t ! ?i)" "heap b"] live by blast
  have "HASH_FIND_STR k b = Some r"
    using Some tb i r by (simp add: HASH_FIND_STR_def HASH_FIND_def HASH_FIND_BYHASHVALUE_def)
  moreover have "case r of None \<Rightarrow> k \<notin> dom (box_map b)
     | Some a \<Rightarrow> a \<in> set (linked b) \<and> (\<exists>e. heap b a = Some e \<and> hh_key e = k \<and> box_map b k = Some (elmt e))"
  proof (cases r)
    case None
    have "k \<notin> key_at (heap b) ` set (linked b)"
    proof
      assume "k \<in> key_at (heap b) ` set (linked b)"
      then obtain a where a: "a \<in> set (linked b)" "key_at (heap b) a = k" by auto
      then obtain e where e: "heap b a = Some e" "handle_ok e" using assms(1) by (auto simp: box_ok_def)
      then have "hh_key e = k" using a by (simp add: key_at_def)
      with e have "hh_hashv e = HASH_JEN k (of_nat (length k))" by (simp add: handle_ok_def)
      with chains_ok_find [OF ch a(1) e(1)] i have "a \<in> set (bkt_chain (buckets t ! ?i))" by simp
      with None res a show False by auto
    qed
    with None show ?thesis by (simp add: dom_box_map)
  next
    case (Some a)
    with res have a: "a \<in> set (bkt_chain (buckets t ! ?i))" "key_at (heap b) a = k" by auto
    with chains_ok_in(1) [OF ch i] have "a \<in> set (linked b)" by blast
    moreover obtain e where "heap b a = Some e" using live [OF a(1)] by blast
    ultimately show ?thesis
      using a Some box_map_entry [OF assms(1)] by (auto simp: key_at_def)
  qed
  ultimately show ?thesis by blast
qed

lemma HASH_COUNT_correct: "box_ok b \<Longrightarrow> HASH_COUNT b = Some (of_nat (length (entries b)))"
  using tbl_of_ok [of b]
  by (auto simp: HASH_COUNT_def box_ok_def table_ok_def linked_def entries_def split: option.split)

section \<open>Expanding\<close>

lemma chains_ok_length: "chains_ok H n bs A \<Longrightarrow> length bs = unat n"
  by (simp add: chains_ok_def)

lemma expand_elmt_ok:
  assumes "chains_ok H n (snd s) S" "n = 2 ^ k" "k < 32" "a \<notin> S" "H a = Some e"
  shows "\<exists>s'. expand_elmt H n maxlen a s = Some s' \<and> chains_ok H n (snd s') (insert a S)"
proof -
  let ?i = "HASH_TO_BKT (hh_hashv e) n"
  have i: "?i < length (snd s)"
    using chains_ok_length [OF assms(1)] HASH_TO_BKT_less assms by (simp add: unat_pow)
  show ?thesis
    using i chains_ok_insert [OF assms(1,4,5) refl i]
    by (cases s) (simp add: expand_elmt_def assms(5) Let_def)
qed

lemma expand_chain_ok:
  assumes "chains_ok H n (snd s) S" "n = 2 ^ k" "k < 32" "distinct as" "set as \<inter> S = {}"
    and "\<And>a. a \<in> set as \<Longrightarrow> H a \<noteq> None"
  shows "\<exists>s'. expand_chain H n maxlen as s = Some s' \<and> chains_ok H n (snd s') (set as \<union> S)"
  using assms
proof (induction as arbitrary: s S)
  case (Cons a as)
  obtain e where "H a = Some e" using Cons.prems(6) [of a] by auto
  then obtain s1 where s1: "expand_elmt H n maxlen a s = Some s1" "chains_ok H n (snd s1) (insert a S)"
    using expand_elmt_ok [OF Cons.prems(1-3), of a e maxlen] Cons.prems(5) by auto
  have "\<exists>s'. expand_chain H n maxlen as s1 = Some s' \<and> chains_ok H n (snd s') (set as \<union> insert a S)"
    using Cons.prems by (intro Cons.IH s1(2)) auto
  with s1(1) show ?case by auto
qed simp

text \<open>The elements of the first \<open>i\<close> buckets.\<close>

definition chained :: "UT_hash_bucket list \<Rightarrow> nat \<Rightarrow> nat set" where
  "chained bs i = (\<Union>j < i. set (bkt_chain (bs ! j)))"

lemma chained_all:
  assumes "chains_ok H n bs A" "n = 2 ^ k" "k < 32" "\<And>a. a \<in> A \<Longrightarrow> H a \<noteq> None"
  shows "chained bs (length bs) = A"
proof
  show "chained bs (length bs) \<subseteq> A" using assms(1) by (auto simp: chained_def chains_ok_def)
  show "A \<subseteq> chained bs (length bs)"
  proof
    fix a assume a: "a \<in> A"
    then obtain e where e: "H a = Some e" using assms(4) by auto
    have i: "HASH_TO_BKT (hh_hashv e) n < length bs"
      using chains_ok_length [OF assms(1)] HASH_TO_BKT_less assms by (simp add: unat_pow)
    with chains_ok_find [OF assms(1) a e] show "a \<in> chained bs (length bs)" by (auto simp: chained_def)
  qed
qed

lemma chained_disjoint:
  assumes "chains_ok H n bs A" "i < length bs"
  shows "set (bkt_chain (bs ! i)) \<inter> chained bs i = {}"
  using assms by (fastforce simp: chained_def chains_ok_def)

lemma chains_ok_empty: "chains_ok H n (replicate (unat n) empty_bucket) {}"
  by (simp add: chains_ok_def empty_bucket_def)

lemma HASH_EXPAND_BUCKETS_ok:
  assumes blk: "malloc E (2 * unat (num_buckets t) * 16) = Some blk" and "chains_ok H (num_buckets t) (buckets t) A"
    and "num_buckets t = 2 ^ unat (log2_num_buckets t)" "unat (log2_num_buckets t) < 31"
    and live: "\<And>a. a \<in> A \<Longrightarrow> H a \<noteq> None"
  shows "\<exists>t'. HASH_EXPAND_BUCKETS E H t = Some t' \<and> tbl_order t' = tbl_order t \<and> num_items t' = num_items t \<and>
    unat (log2_num_buckets t') < 32 \<and> num_buckets t' = 2 ^ unat (log2_num_buckets t') \<and>
    chains_ok H (num_buckets t') (buckets t') A"
proof -
  let ?k = "unat (log2_num_buckets t)"
  let ?n = "num_buckets t * 2"
  have k: "unat (log2_num_buckets t + 1) = Suc ?k"
    using assms(4) by (simp add: unat_word_ariths)
  have n: "?n = 2 ^ Suc ?k" using assms(3) by simp
  have un: "2 * unat (num_buckets t) = unat ?n"
    using unat_pow [of ?k] unat_pow [of "Suc ?k"] assms(3,4) n by (simp add: mult.commute)
  have len: "length (buckets t) = unat (num_buckets t)" using assms(2) by (rule chains_ok_length)
  have step: "\<exists>s'. expand_chain H ?n maxlen (bkt_chain (buckets t ! i)) s = Some s' \<and>
      chains_ok H ?n (snd s') (chained (buckets t) (Suc i))"
    if i: "i < unat (num_buckets t)" and P: "chains_ok H ?n (snd s) (chained (buckets t) i)" for i s maxlen
  proof -
    have ch: "distinct (bkt_chain (buckets t ! i))" "set (bkt_chain (buckets t ! i)) \<subseteq> A"
      using assms(2) i len by (auto simp: chains_ok_def)
    have S: "chained (buckets t) (Suc i) = set (bkt_chain (buckets t ! i)) \<union> chained (buckets t) i"
      by (auto simp: chained_def less_Suc_eq)
    show ?thesis
      unfolding S using i len assms(4) live ch(2)
      by (intro expand_chain_ok [OF P n _ ch(1) chained_disjoint [OF assms(2)]]) auto
  qed
  let ?m = "drop_bit (unat (log2_num_buckets t + 1)) (num_items t)
                    + (if num_items t AND (?n - 1) \<noteq> 0 then 1 else 0)"
  have "\<exists>s. loop (unat (num_buckets t))
      (\<lambda>i s. do { bkt \<leftarrow> arr_get (buckets t) i; expand_chain H ?n ?m (bkt_chain bkt) s })
      (0, replicate (2 * unat (num_buckets t)) empty_bucket) = Some s \<and>
      chains_ok H ?n (snd s) (chained (buckets t) (unat (num_buckets t)))"
    using step len by (intro loop_total) (simp_all add: un chained_def chains_ok_empty)
  then obtain c bs where l: "loop (unat (num_buckets t))
      (\<lambda>i s. do { bkt \<leftarrow> arr_get (buckets t) i; expand_chain H ?n ?m (bkt_chain bkt) s })
      (0, replicate (2 * unat (num_buckets t)) empty_bucket) = Some (c, bs)"
    and bs: "chains_ok H ?n bs A"
    using chained_all [OF assms(2,3) _ live] assms(4) len by auto
  have "\<not> 32 \<le> unat (log2_num_buckets t + 1)" using k assms(4) by simp
  then have "\<exists>mx ni ie ne. HASH_EXPAND_BUCKETS E H t = Some (t\<lparr>buckets := bs, num_buckets := ?n,
      log2_num_buckets := log2_num_buckets t + 1, ideal_chain_maxlen := mx, nonideal_items := ni,
      ineff_expands := ie, noexpand := ne\<rparr>)"
    unfolding HASH_EXPAND_BUCKETS_def Let_def blk by (simp only: bind.bind_lunit if_False l prod.case) blast
  then show ?thesis
    using bs k n assms(4) by auto
qed

section \<open>Adding\<close>

text \<open>An expansion that ends did get its memory and a shift within range.\<close>

lemma HASH_EXPAND_BUCKETS_Some:
  assumes "HASH_EXPAND_BUCKETS E H t = Some t'" "unat (log2_num_buckets t) < 32"
  shows "unat (log2_num_buckets t) < 31" "\<exists>blk. malloc E (2 * unat (num_buckets t) * 16) = Some blk"
proof -
  show "\<exists>blk. malloc E (2 * unat (num_buckets t) * 16) = Some blk"
    using assms(1) unfolding HASH_EXPAND_BUCKETS_def Let_def
    by (cases "malloc E (2 * unat (num_buckets t) * 16)") simp_all
  have "\<not> 32 \<le> unat (log2_num_buckets t + 1)"
    using assms(1) by (auto simp: HASH_EXPAND_BUCKETS_def Let_def bind_eq_Some_conv split: if_splits)
  with assms(2) show "unat (log2_num_buckets t) < 31" by (simp add: unat_word_ariths split: if_splits)
qed

lemma HASH_ADD_TO_BKT_eq:
  assumes "chains_ok H (num_buckets t) (buckets t) A"
    and "num_buckets t = 2 ^ unat (log2_num_buckets t)" "unat (log2_num_buckets t) < 32"
    and live: "\<And>a. a \<in> A \<Longrightarrow> H a \<noteq> None" and a: "a \<notin> A" "H a = Some e"
  shows "\<exists>u full. HASH_ADD_TO_BKT E H (HASH_TO_BKT (hh_hashv e) (num_buckets t)) a t
      = (if full then HASH_EXPAND_BUCKETS E H u else Some u) \<and>
    tbl_order u = tbl_order t \<and> num_items u = num_items t \<and> log2_num_buckets u = log2_num_buckets t \<and>
    num_buckets u = num_buckets t \<and> chains_ok H (num_buckets u) (buckets u) (insert a A)"
proof -
  let ?i = "HASH_TO_BKT (hh_hashv e) (num_buckets t)"
  let ?bk = "(buckets t ! ?i)\<lparr>bkt_chain := a # bkt_chain (buckets t ! ?i), bkt_count := bkt_count (buckets t ! ?i) + 1\<rparr>"
  let ?t = "t\<lparr>buckets := (buckets t)[?i := ?bk]\<rparr>"
  have i: "?i < length (buckets t)"
    using chains_ok_length [OF assms(1)] HASH_TO_BKT_less assms(2,3) unat_pow [of "unat (log2_num_buckets t)"] by simp
  have ch: "chains_ok H (num_buckets ?t) (buckets ?t) (insert a A)"
    using chains_ok_insert [OF assms(1) a refl i, of ?bk] by simp
  have "set (bkt_chain (buckets t ! ?i)) \<subseteq> A" using assms(1) i by (auto simp: chains_ok_def)
  then have hd: "(case bkt_chain (buckets t ! ?i) of [] \<Rightarrow> Some () | c # _ \<Rightarrow> do { _ \<leftarrow> H c; Some () }) = Some ()"
    using live by (cases "bkt_chain (buckets t ! ?i)") fastforce+
  have "HASH_ADD_TO_BKT E H ?i a t =
      (if (expand_mult ?bk + 1) * 10 \<le> bkt_count ?bk \<and> noexpand t = 0 then HASH_EXPAND_BUCKETS E H ?t else Some ?t)"
    using i hd by (simp add: HASH_ADD_TO_BKT_def Let_def)
  with ch show ?thesis by (intro exI [of _ ?t] exI) auto
qed

lemma HASH_ADD_TO_BKT_Some:
  assumes "chains_ok H (num_buckets t) (buckets t) A"
    and "num_buckets t = 2 ^ unat (log2_num_buckets t)" "unat (log2_num_buckets t) < 32"
    and live: "\<And>a. a \<in> A \<Longrightarrow> H a \<noteq> None" and a: "a \<notin> A" "H a = Some e"
    and run: "HASH_ADD_TO_BKT E H (HASH_TO_BKT (hh_hashv e) (num_buckets t)) a t = Some t'"
  shows "tbl_order t' = tbl_order t \<and> num_items t' = num_items t \<and>
    unat (log2_num_buckets t') < 32 \<and> num_buckets t' = 2 ^ unat (log2_num_buckets t') \<and>
    chains_ok H (num_buckets t') (buckets t') (insert a A)"
proof -
  obtain u full where u: "HASH_ADD_TO_BKT E H (HASH_TO_BKT (hh_hashv e) (num_buckets t)) a t
      = (if full then HASH_EXPAND_BUCKETS E H u else Some u)"
    "tbl_order u = tbl_order t" "num_items u = num_items t" "log2_num_buckets u = log2_num_buckets t"
    "num_buckets u = num_buckets t" "chains_ok H (num_buckets u) (buckets u) (insert a A)"
    using HASH_ADD_TO_BKT_eq [OF assms(1-6)] by blast
  show ?thesis
  proof (cases full)
    case True
    with u(1) run have ex: "HASH_EXPAND_BUCKETS E H u = Some t'" by simp
    have l: "unat (log2_num_buckets u) < 32" using u(4) assms(3) by simp
    obtain blk where "malloc E (2 * unat (num_buckets u) * 16) = Some blk"
      using HASH_EXPAND_BUCKETS_Some(2) [OF ex l] by blast
    from HASH_EXPAND_BUCKETS_ok [OF this u(6) _ HASH_EXPAND_BUCKETS_Some(1) [OF ex l]] ex u assms(2) live a(2)
    show ?thesis by auto
  next
    case False
    with u run assms(2,3) show ?thesis by simp
  qed
qed

lemma HASH_ADD_TO_BKT_total:
  assumes "platform_mem E" "chains_ok H (num_buckets t) (buckets t) A"
    and "num_buckets t = 2 ^ unat (log2_num_buckets t)" "unat (log2_num_buckets t) < 31"
    and live: "\<And>a. a \<in> A \<Longrightarrow> H a \<noteq> None" and a: "a \<notin> A" "H a = Some e"
  shows "HASH_ADD_TO_BKT E H (HASH_TO_BKT (hh_hashv e) (num_buckets t)) a t \<noteq> None"
proof -
  have l: "unat (log2_num_buckets t) < 32" using assms(4) by simp
  obtain u full where u: "HASH_ADD_TO_BKT E H (HASH_TO_BKT (hh_hashv e) (num_buckets t)) a t
      = (if full then HASH_EXPAND_BUCKETS E H u else Some u)"
    "log2_num_buckets u = log2_num_buckets t"
    "num_buckets u = num_buckets t" "chains_ok H (num_buckets u) (buckets u) (insert a A)"
    using HASH_ADD_TO_BKT_eq [OF assms(2,3) l live a] by blast
  obtain blk where "malloc E (2 * unat (num_buckets u) * 16) = Some blk"
    using platform_mem.malloc_ok [OF assms(1)] by blast
  from HASH_EXPAND_BUCKETS_ok [OF this u(4)] u assms(3,4) live a(2)
  show ?thesis by auto
qed

text \<open>The table an element is added to: a new one, or the old one with the element appended.\<close>

lemma HASH_ADD_table:
  assumes "box_ok b" "a \<notin> set (linked b)" "\<And>x. x \<noteq> a \<Longrightarrow> H x = heap b x"
  shows "(head_table b \<noteq> None \<longrightarrow> (case head_table b of None \<Rightarrow> HASH_MAKE_TABLE E a
         | Some t \<Rightarrow> HASH_APPEND_LIST (b\<lparr>heap := H\<rparr>) a t) \<noteq> None) \<and>
    (\<forall>t. (case head_table b of None \<Rightarrow> HASH_MAKE_TABLE E a
         | Some t \<Rightarrow> HASH_APPEND_LIST (b\<lparr>heap := H\<rparr>) a t) = Some t \<longrightarrow>
     tbl_order t = linked b @ [a] \<and> num_items t = of_nat (length (linked b)) \<and>
     unat (log2_num_buckets t) < 32 \<and> (can_grow b \<longrightarrow> unat (log2_num_buckets t) < 31) \<and>
     num_buckets t = 2 ^ unat (log2_num_buckets t) \<and>
     chains_ok H (num_buckets t) (buckets t) (set (linked b)))"
proof (cases "head_table b")
  case None
  then show ?thesis
    using chains_ok_empty [of H 32] by (auto simp: HASH_MAKE_TABLE_def linked_def bind_eq_Some_conv)
next
  case (Some t)
  have t: "table_ok (heap b) t" "linked b = tbl_order t" "can_grow b \<longrightarrow> unat (log2_num_buckets t) < 31"
    using assms(1) Some by (auto simp: box_ok_def linked_def can_grow_def)
  have H: "H x = heap b x" if "x \<in> set (linked b)" for x using that assms(2,3) by metis
  have live: "H x \<noteq> None" if "x \<in> set (linked b)" for x
    using that assms(1) H by (auto simp: box_ok_def)
  have ne: "tbl_order t \<noteq> []" using t(1) by (simp add: table_ok_def)
  then have "hd (tbl_order t) \<in> set (linked b)" "last (tbl_order t) \<in> set (linked b)" using t(2) by auto
  then obtain x y where "H (hd (tbl_order t)) = Some x" "H (last (tbl_order t)) = Some y"
    using live by (meson not_None_eq)
  then have "HASH_APPEND_LIST (b\<lparr>heap := H\<rparr>) a t = Some (t\<lparr>tbl_order := tbl_order t @ [a]\<rparr>)"
    using ne by (simp add: HASH_APPEND_LIST_def tbl_of_def hd_conv_nth last_conv_nth)
  moreover have "chains_ok H (num_buckets t) (buckets t) (set (linked b))"
    using t(1) H unfolding t(2) table_ok_def by (subst chains_ok_cong [of _ H "heap b"]) auto
  ultimately show ?thesis using Some t by (simp add: table_ok_def)
qed

theorem HASH_ADD_KEYPTR_Some:
  assumes "box_ok b" "heap b a = Some e" "a \<notin> set (linked b)"
    and k: "short_key k" "k \<notin> dom (box_map b)"
    and run: "HASH_ADD_KEYPTR E k (of_nat (length k)) a b = Some b'"
  shows "box_ok b' \<and> linked b' = linked b @ [a] \<and> entries b' = entries b @ [(k, elmt e)] \<and>
    (\<exists>e'. heap b' = (heap b)(a \<mapsto> e') \<and> elmt e' = elmt e \<and> hh_key e' = k)"
proof -
  let ?h = "HASH_JEN k (of_nat (length k))"
  let ?e = "e\<lparr>hh_key := k, hh_keylen := of_nat (length k), hh_hashv := ?h\<rparr>"
  let ?H = "(heap b)(a \<mapsto> ?e)"
  obtain t t' where st: "(case head_table b of None \<Rightarrow> HASH_MAKE_TABLE E a
         | Some t \<Rightarrow> HASH_APPEND_LIST (b\<lparr>heap := ?H\<rparr>) a t) = Some t"
     "HASH_ADD_TO_TABLE E ?H ?h a t = Some t'" "b' = b\<lparr>heap := ?H, head_table := Some t'\<rparr>"
    using run assms(2) by (auto simp: HASH_ADD_KEYPTR_def HASH_ADD_KEYPTR_BYHASHVALUE_def Let_def bind_eq_Some_conv)
  have t: "tbl_order t = linked b @ [a]" "num_items t = of_nat (length (linked b))"
     "unat (log2_num_buckets t) < 32" "num_buckets t = 2 ^ unat (log2_num_buckets t)"
     "chains_ok ?H (num_buckets t) (buckets t) (set (linked b))"
    using HASH_ADD_table [OF assms(1,3), of ?H E] st(1) by auto
  let ?t = "t\<lparr>num_items := num_items t + 1\<rparr>"
  have live: "?H x \<noteq> None" if "x \<in> set (linked b)" for x
    using that assms(1) by (auto simp: box_ok_def)
  have "HASH_ADD_TO_BKT E ?H (HASH_TO_BKT (hh_hashv ?e) (num_buckets ?t)) a ?t = Some t'"
    using st(2) by (simp add: HASH_ADD_TO_TABLE_def Let_def)
  then have t': "tbl_order t' = linked b @ [a]" "num_items t' = of_nat (length (linked b)) + 1"
    "unat (log2_num_buckets t') < 32" "num_buckets t' = 2 ^ unat (log2_num_buckets t')"
    "chains_ok ?H (num_buckets t') (buckets t') (insert a (set (linked b)))"
    using HASH_ADD_TO_BKT_Some [of ?H ?t "set (linked b)" a ?e E t'] t live assms(3) by auto
  have lk: "linked b' = linked b @ [a]" using t' by (simp add: linked_def st(3))
  have keys: "map (key_at ?H) (linked b) = map (key_at (heap b)) (linked b)"
    using assms(3) by (auto simp: key_at_def)
  have ents: "map (entry_at ?H) (linked b) = map (entry_at (heap b)) (linked b)"
    using assms(3) by (auto simp: entry_at_def key_at_def)
  have "k \<notin> set (map (key_at (heap b)) (linked b))" using k(2) by (simp add: dom_box_map)
  then have "distinct (map (key_at ?H) (linked b @ [a]))"
    using assms(1) unfolding map_append keys by (simp add: box_ok_def key_at_def)
  moreover have "table_ok ?H t'" using t' by (simp add: table_ok_def add.commute)
  moreover have "a < next_address b" using assms(1,2) by (auto simp: box_ok_def)
  moreover have "handle_ok ?e" using k(1) by (simp add: handle_ok_def)
  ultimately have "box_ok b'"
    using assms(1,3) lk by (auto simp: box_ok_def st(3))
  moreover have "entries b' = entries b @ [(k, elmt e)]"
    unfolding entries_def lk using ents by (simp add: entry_at_def key_at_def st(3))
  ultimately show ?thesis using lk st(3) by force
qed

theorem HASH_ADD_KEYPTR_total:
  assumes "platform_mem E" "box_ok b" "can_grow b" "heap b a = Some e" "a \<notin> set (linked b)"
  shows "HASH_ADD_KEYPTR E k (of_nat (length k)) a b \<noteq> None"
proof -
  let ?h = "HASH_JEN k (of_nat (length k))"
  let ?e = "e\<lparr>hh_key := k, hh_keylen := of_nat (length k), hh_hashv := ?h\<rparr>"
  let ?H = "(heap b)(a \<mapsto> ?e)"
  obtain x y where "malloc E 64 = Some x" "malloc E 512 = Some y"
    using platform_mem.malloc_ok [OF assms(1)] by blast
  then have mk: "HASH_MAKE_TABLE E a \<noteq> None" by (simp add: HASH_MAKE_TABLE_def)
  obtain t where t: "(case head_table b of None \<Rightarrow> HASH_MAKE_TABLE E a
         | Some t \<Rightarrow> HASH_APPEND_LIST (b\<lparr>heap := ?H\<rparr>) a t) = Some t"
     "unat (log2_num_buckets t) < 31" "num_buckets t = 2 ^ unat (log2_num_buckets t)"
     "chains_ok ?H (num_buckets t) (buckets t) (set (linked b))"
    using HASH_ADD_table [OF assms(2,5), of ?H E] mk assms(3) by (cases "head_table b") auto
  have live: "?H x \<noteq> None" if "x \<in> set (linked b)" for x
    using that assms(2) by (auto simp: box_ok_def)
  have "HASH_ADD_TO_TABLE E ?H ?h a t \<noteq> None"
    using HASH_ADD_TO_BKT_total [OF assms(1), of ?H "t\<lparr>num_items := num_items t + 1\<rparr>" "set (linked b)" a ?e]
      t live assms(5) by (simp add: HASH_ADD_TO_TABLE_def Let_def)
  then show ?thesis
    using t(1) assms(4) by (auto simp: HASH_ADD_KEYPTR_def HASH_ADD_KEYPTR_BYHASHVALUE_def Let_def)
qed

section \<open>Deleting\<close>

lemma neighbours_set: "set (neighbours a xs) \<subseteq> set xs"
  by (induction xs) (auto dest: in_set_takeD in_set_dropD)

lemma remove1_rest:
  assumes "a \<in> set xs" "xs \<noteq> [a]"
  shows "remove1 a xs \<noteq> []" "length xs = Suc (length (remove1 a xs))"
proof -
  show l: "length xs = Suc (length (remove1 a xs))"
    using assms(1) length_pos_if_in_set [OF assms(1)] by (simp add: length_remove1)
  show "remove1 a xs \<noteq> []"
  proof
    assume "remove1 a xs = []"
    with l obtain x where "xs = [x]" by (auto simp: length_Suc_conv)
    with assms show False by auto
  qed
qed

lemma all_alive_ok: "(\<And>a. a \<in> set as \<Longrightarrow> H a \<noteq> None) \<Longrightarrow> all_alive H as = Some ()"
  by (simp add: all_alive_def list_all_iff)

theorem HASH_DEL_correct:
  assumes "box_ok b" "a \<in> set (linked b)"
  shows "\<exists>b'. HASH_DEL a b = Some b' \<and> box_ok b' \<and> heap b' = heap b \<and> next_address b' = next_address b \<and>
    linked b' = remove1 a (linked b)"
proof -
  obtain t where t: "head_table b = Some t" using assms(2) by (cases "head_table b") (auto simp: linked_def)
  note tb = tbl_of_ok [OF assms(1) t]
  have ok: "table_ok (heap b) t" "linked b = tbl_order t" using assms(1) t by (auto simp: box_ok_def linked_def)
  have live: "\<exists>e. heap b x = Some e \<and> handle_ok e" if "x \<in> set (tbl_order t)" for x
    using that assms(1) ok(2) by (simp add: box_ok_def)
  obtain e where e: "heap b a = Some e" using live [of a] assms(2) ok(2) by auto
  have a: "a \<in> set (tbl_order t)" using assms(2) ok(2) by simp
  have d: "distinct (tbl_order t)" using box_ok_linked [OF assms(1)] ok(2) by simp
  have dk: "distinct (map (key_at (heap b)) (remove1 a (tbl_order t)))"
    using assms(1) ok(2) by (auto simp: box_ok_def distinct_map intro: inj_on_subset dest: notin_set_remove1)
  show ?thesis
  proof (cases "tbl_order t = [a]")
    case True
    then have "HASH_DEL a b = Some (b\<lparr>head_table := None\<rparr>)"
      using t tb e by (simp add: HASH_DEL_def)
    moreover have "box_ok (b\<lparr>head_table := None\<rparr>)" using assms(1) by (simp add: box_ok_def linked_def)
    ultimately show ?thesis using True ok(2) by (simp add: linked_def)
  next
    case False
    let ?o = "remove1 a (tbl_order t)"
    let ?i = "HASH_TO_BKT (hh_hashv e) (num_buckets t)"
    note i = bucket_of [OF ok(1), of "hh_hashv e"]
    have ch: "chains_ok (heap b) (num_buckets t) (buckets t) (set (tbl_order t))"
      using ok(1) unfolding table_ok_def by blast
    let ?bk = "(buckets t ! ?i)\<lparr>bkt_chain := remove1 a (bkt_chain (buckets t ! ?i)), bkt_count := bkt_count (buckets t ! ?i) - 1\<rparr>"
    let ?t = "t\<lparr>tbl_order := ?o, buckets := (buckets t)[?i := ?bk], num_items := num_items t - 1\<rparr>"
    note o = remove1_rest [OF a False]
    have "set (neighbours a (tbl_order t)) \<subseteq> set (tbl_order t)" by (rule neighbours_set)
    then have n1: "all_alive (heap b) (neighbours a (tbl_order t)) = Some ()"
      using live by (intro all_alive_ok) fastforce
    have "set (neighbours a (bkt_chain (buckets t ! ?i))) \<subseteq> set (tbl_order t)"
      using neighbours_set [of a "bkt_chain (buckets t ! ?i)"] chains_ok_in(1) [OF ch i] by blast
    then have n2: "all_alive (heap b) (neighbours a (bkt_chain (buckets t ! ?i))) = Some ()"
      using live by (intro all_alive_ok) fastforce
    have "?o ! 0 \<in> set (tbl_order t)" using o(1) by (meson length_greater_0_conv notin_set_remove1 nth_mem)
    then obtain x where "heap b (?o ! 0) = Some x" using live by blast
    then have "tbl_of b (t\<lparr>tbl_order := ?o\<rparr>) = Some (t\<lparr>tbl_order := ?o\<rparr>)" using o(1) by (simp add: tbl_of_def)
    then have run: "HASH_DEL a b = Some (b\<lparr>head_table := Some ?t\<rparr>)"
      using t tb e a False n1 n2 i by (simp add: HASH_DEL_def HASH_DEL_IN_BKT_def Let_def)
    have "chains_ok (heap b) (num_buckets t) ((buckets t)[?i := ?bk]) (set (tbl_order t) - {a})"
      using a by (intro chains_ok_remove [OF ch _ e refl i]) simp_all
    then have "table_ok (heap b) ?t"
      using ok(1) o d by (simp add: table_ok_def set_remove1_eq)
    moreover have "\<forall>x \<in> set ?o. \<exists>e. heap b x = Some e \<and> handle_ok e"
      using live by (meson notin_set_remove1)
    ultimately have "box_ok (b\<lparr>head_table := Some ?t\<rparr>)"
      using assms(1) dk by (simp add: box_ok_def linked_def)
    with run ok(2) show ?thesis by (simp add: linked_def)
  qed
qed

section \<open>Allocating and freeing\<close>

lemma heap_change:
  assumes "box_ok b" "\<And>a. a \<in> set (linked b) \<Longrightarrow> H a = heap b a" "\<And>a. H a \<noteq> None \<Longrightarrow> a < n"
  shows "box_ok (b\<lparr>heap := H, next_address := n\<rparr>)" "entries (b\<lparr>heap := H, next_address := n\<rparr>) = entries b"
proof -
  let ?b = "b\<lparr>heap := H, next_address := n\<rparr>"
  have lk: "linked ?b = linked b" by (simp add: linked_def)
  have ents: "map (entry_at H) (linked b) = map (entry_at (heap b)) (linked b)"
    and keys: "map (key_at H) (linked b) = map (key_at (heap b)) (linked b)"
    using assms(2) by (auto simp: entry_at_def key_at_def)
  show "entries ?b = entries b" unfolding entries_def lk using ents by simp
  have "table_ok H t" if t: "head_table b = Some t" for t
  proof -
    have "linked b = tbl_order t" "table_ok (heap b) t" using assms(1) t by (auto simp: linked_def box_ok_def)
    moreover have "chains_ok H (num_buckets t) (buckets t) (set (linked b))
        = chains_ok (heap b) (num_buckets t) (buckets t) (set (linked b))"
      using assms(2) by (intro chains_ok_cong) auto
    ultimately show ?thesis unfolding table_ok_def by metis
  qed
  moreover have "distinct (map (key_at H) (linked b))" unfolding keys using assms(1) by (simp add: box_ok_def)
  ultimately show "box_ok ?b"
    using assms by (simp add: box_ok_def lk)
qed

lemma new_elmt_ok:
  assumes "box_ok b"
  shows "\<exists>a b' e. new_elmt x b = (a, b') \<and> box_ok b' \<and> entries b' = entries b \<and> linked b' = linked b \<and>
    heap b' = (heap b)(a \<mapsto> e) \<and> elmt e = x \<and> heap b a = None \<and> a \<notin> set (linked b) \<and> can_grow b' = can_grow b"
proof -
  let ?a = "next_address b"
  have fresh: "heap b ?a = None" using assms by (auto simp: box_ok_def)
  then have nl: "?a \<notin> set (linked b)" using assms by (auto simp: box_ok_def)
  let ?H = "(heap b)(?a \<mapsto> \<lparr>elmt = x, hh_key = [], hh_keylen = 0, hh_hashv = 0\<rparr>)"
  have "box_ok (b\<lparr>heap := ?H, next_address := Suc ?a\<rparr>)"
    "entries (b\<lparr>heap := ?H, next_address := Suc ?a\<rparr>) = entries b"
    by (rule heap_change [OF assms]; use assms nl in \<open>auto simp: box_ok_def less_Suc_eq split: if_splits\<close>)+
  with fresh nl show ?thesis
    by (auto simp: new_elmt_def linked_def can_grow_def split: option.split)
qed

lemma box_map_append: "k \<notin> dom (box_map b) \<Longrightarrow> map_of (entries b @ [(k, x)]) = (box_map b)(k \<mapsto> x)"
  by (auto simp: box_map_def map_add_def split: option.split)

lemma map_of_remove1:
  assumes "distinct (map f xs)" "a \<in> set xs"
  shows "map_of (map (\<lambda>x. (f x, g x)) (remove1 a xs)) = (map_of (map (\<lambda>x. (f x, g x)) xs))(f a := None)"
  using assms
proof (induction xs)
  case (Cons x xs)
  show ?case
  proof (cases "x = a")
    case True
    with Cons.prems have "f a \<notin> dom (map_of (map (\<lambda>x. (f x, g x)) xs))"
      by (auto simp: dom_map_of_conv_image_fst image_image)
    then have "map_of (map (\<lambda>x. (f x, g x)) xs) (f a) = None" by (simp only: domIff) simp
    with True show ?thesis by (auto simp: fun_eq_iff)
  next
    case False
    with Cons.prems have "f x \<noteq> f a" by (metis (no_types) distinct.simps(2) image_eqI list.simps(9) set_ConsD set_map)
    with Cons False show ?thesis by (auto simp: fun_upd_twist)
  qed
qed simp

text \<open>Unlinking an element and freeing it.\<close>

lemma delete_free_ok:
  assumes "box_ok b" "a \<in> set (linked b)" "heap b a = Some e"
  shows "\<exists>b1 b2. HASH_DEL a b = Some b1 \<and> free_elmt a b1 = Some b2 \<and> box_ok b2 \<and> heap b2 = (heap b)(a := None) \<and>
    linked b2 = remove1 a (linked b) \<and> box_map b2 = (box_map b)(hh_key e := None) \<and>
    (can_grow b \<longrightarrow> can_grow b2)"
proof -
  obtain b1 where b1: "HASH_DEL a b = Some b1" "box_ok b1" "heap b1 = heap b" "next_address b1 = next_address b"
    "linked b1 = remove1 a (linked b)"
    using HASH_DEL_correct [OF assms(1,2)] by blast
  have g: "can_grow b \<longrightarrow> can_grow b1"
    using b1(1) by (auto simp: HASH_DEL_def can_grow_def tbl_of_def Let_def bind_eq_Some_conv split: if_splits)
  have nl: "a \<notin> set (linked b1)" using box_ok_linked [OF assms(1)] b1(5) by simp
  let ?H = "(heap b1)(a := None)"
  let ?b = "b1\<lparr>heap := ?H, next_address := next_address b1\<rparr>"
  have ok: "box_ok ?b" "entries ?b = entries b1"
    by (rule heap_change [OF b1(2)]; use b1(2) nl in \<open>auto simp: box_ok_def split: if_splits\<close>)+
  have key: "key_at (heap b) a = hh_key e" using assms(3) by (simp add: key_at_def)
  have "box_map ?b = map_of (map (entry_at (heap b)) (remove1 a (linked b)))"
    unfolding box_map_def ok(2) by (simp add: entries_def b1(3,5))
  also have "\<dots> = (map_of (map (entry_at (heap b)) (linked b)))(key_at (heap b) a := None)"
    unfolding entry_at_def using assms(1,2) by (intro map_of_remove1) (simp_all add: box_ok_def)
  finally have "box_map ?b = (box_map b)(hh_key e := None)" by (simp add: box_map_def entries_def key)
  moreover have "free_elmt a b1 = Some ?b" using assms(3) b1(3) by (simp add: free_elmt_def)
  moreover have "linked ?b = linked b1" "can_grow ?b = can_grow b1" "heap ?b = (heap b)(a := None)"
    by (simp_all add: linked_def can_grow_def b1(3))
  ultimately show ?thesis using b1(1,5) ok(1) g by metis
qed

section \<open>An element that was freed and not unlinked\<close>

lemma find_in_bkt_dangling:
  assumes "a \<in> set as" "H a = None" "short_key k"
    and "\<And>x. x \<in> set as \<Longrightarrow> x \<noteq> a \<Longrightarrow> \<exists>e. H x = Some e \<and> handle_ok e \<and> hh_key e \<noteq> k"
  shows "HASH_FIND_IN_BKT H k (of_nat (length k)) (HASH_JEN k (of_nat (length k))) as = None"
  using assms(1,4)
proof (induction as)
  case (Cons x as)
  show ?case
  proof (cases "x = a")
    case False
    with Cons.prems(2) [of x] obtain e where e: "H x = Some e" "handle_ok e" "hh_key e \<noteq> k" by auto
    have "HASH_FIND_IN_BKT H k (of_nat (length k)) (HASH_JEN k (of_nat (length k))) as = None"
      using Cons False by auto
    with match_iff [OF e(2) assms(3)] e show ?thesis by auto
  qed (use assms(2) in simp)
qed simp

lemma find_dangling:
  assumes "box_ok b" "a \<in> set (linked b)" "heap b a = Some e" "short_key (hh_key e)"
  shows "HASH_FIND_STR (hh_key e) (b\<lparr>heap := (heap b)(a := None)\<rparr>) = None"
proof -
  let ?k = "hh_key e"
  let ?H = "(heap b)(a := None)"
  obtain t where t: "head_table b = Some t" using assms(2) by (cases "head_table b") (auto simp: linked_def)
  have ok: "table_ok (heap b) t" "linked b = tbl_order t" using assms(1) t by (auto simp: box_ok_def linked_def)
  have eo: "handle_ok e" using assms(1-3) by (auto simp: box_ok_def)
  then have hv: "hh_hashv e = HASH_JEN ?k (of_nat (length ?k))" by (simp add: handle_ok_def)
  let ?i = "HASH_TO_BKT (hh_hashv e) (num_buckets t)"
  note i = bucket_of [OF ok(1), of "hh_hashv e"]
  have ch: "chains_ok (heap b) (num_buckets t) (buckets t) (set (linked b))"
    unfolding ok(2) using ok(1) unfolding table_ok_def by blast
  have "\<exists>e'. ?H x = Some e' \<and> handle_ok e' \<and> hh_key e' \<noteq> ?k"
    if x: "x \<in> set (bkt_chain (buckets t ! ?i))" "x \<noteq> a" for x
  proof -
    have l: "x \<in> set (linked b)" using chains_ok_in(1) [OF ch i x(1)] .
    then obtain e' where e': "heap b x = Some e'" "handle_ok e'" using assms(1) by (auto simp: box_ok_def)
    have "inj_on (key_at (heap b)) (set (linked b))" using assms(1) by (simp add: box_ok_def distinct_map)
    then have "key_at (heap b) x \<noteq> key_at (heap b) a" using l assms(2) x(2) by (meson inj_onD)
    then show ?thesis using e' x(2) assms(3) by (simp add: key_at_def)
  qed
  moreover have "a \<in> set (bkt_chain (buckets t ! ?i))" using chains_ok_find [OF ch assms(2,3) i] .
  ultimately have "HASH_FIND_IN_BKT ?H ?k (of_nat (length ?k)) (HASH_JEN ?k (of_nat (length ?k)))
      (bkt_chain (buckets t ! ?i)) = None"
    using assms(4) by (intro find_in_bkt_dangling [of a]) simp_all
  then show ?thesis
    using t i by (auto simp: HASH_FIND_STR_def HASH_FIND_def HASH_FIND_BYHASHVALUE_def tbl_of_def hv
        split: option.splits simp: bind_eq_None_conv)
qed

end
