(* ===== verification/BallotCollection.thy ===== *)
theory BallotCollection
  imports UTHashProofs
begin

text \<open>
  \<open>voting/ballot_collection.c\<close>: the global table \<open>ballot_box\<close> of the ballots an election has seen, by
  external identifier. The table is a state that every operation takes and returns. The identifiers
  and the tracker strings are owned by the callers, which keep them unchanged.
\<close>

section \<open>State\<close>

record ballot_state =
  bs_external_identifier :: string
  bs_registered_index :: u32
  bs_registered :: bool
  bs_cast :: bool
  bs_spoiled :: bool
  bs_tracker :: string

type_synonym ballot_box = "ballot_state hash_box"

datatype Ballot_Collection_result =
    BALLOT_COLLECTION_SUCCESS
  | BALLOT_COLLECTION_ERROR_ALREADY_REGISTERED
  | BALLOT_COLLECTION_ERROR_ALREADY_CAST
  | BALLOT_COLLECTION_ERROR_ALREADY_SPOILED
  | BALLOT_COLLECTION_ERROR_INSUFFICIENT_MEMORY
  | BALLOT_COLLECTION_ERROR_INVALID_ARGUMENT
  | BALLOT_COLLECTION_ERROR_NOT_FOUND
  | BALLOT_COLLECTION_ERROR_UNKNOWN

definition Ballot_Collection_new :: Ballot_Collection_result where
  "Ballot_Collection_new = BALLOT_COLLECTION_SUCCESS"

definition Ballot_Collection_size :: "ballot_box \<Rightarrow> u32 option" where
  "Ballot_Collection_size b = HASH_COUNT b"

section \<open>Looking up and registering\<close>

text \<open>The pointer is the address of the element; without success the caller's pointer is not written.\<close>

definition Ballot_Collection_get_ballot ::
    "string \<Rightarrow> ballot_box \<Rightarrow> (Ballot_Collection_result \<times> nat option) option" where
  "Ballot_Collection_get_ballot identifier b =
     do {
       r \<leftarrow> HASH_FIND_STR identifier b;
       Some (case r of
               Some a \<Rightarrow> (BALLOT_COLLECTION_SUCCESS, Some a)
             | None \<Rightarrow> (BALLOT_COLLECTION_ERROR_NOT_FOUND, None)) }"

definition Ballot_Collection_register_ballot ::
    "env \<Rightarrow> string \<Rightarrow> string \<Rightarrow> u32 \<Rightarrow> ballot_box \<Rightarrow> (Ballot_Collection_result \<times> ballot_box) option" where
  "Ballot_Collection_register_ballot E identifier track index b =
     do {
       (r, _) \<leftarrow> Ballot_Collection_get_ballot identifier b;
       if r = BALLOT_COLLECTION_SUCCESS then Some (BALLOT_COLLECTION_ERROR_ALREADY_REGISTERED, b)
       else case malloc E 80 of
         None \<Rightarrow> Some (BALLOT_COLLECTION_ERROR_INSUFFICIENT_MEMORY, b)
       | Some _ \<Rightarrow> do {
           let (a, b) = new_elmt \<lparr>bs_external_identifier = identifier, bs_registered_index = index, bs_registered = True,
                                  bs_cast = False, bs_spoiled = False, bs_tracker = track\<rparr> b;
           b \<leftarrow> HASH_ADD_KEYPTR E identifier (of_nat (length identifier)) a b;
           Some (BALLOT_COLLECTION_SUCCESS, b) } }"

section \<open>Casting and spoiling\<close>

definition Ballot_Collection_assert_can_mutate_state :: "ballot_state \<Rightarrow> Ballot_Collection_result" where
  "Ballot_Collection_assert_can_mutate_state existing_ballot =
     (if bs_registered existing_ballot = False then BALLOT_COLLECTION_ERROR_UNKNOWN
      else if bs_cast existing_ballot = True then BALLOT_COLLECTION_ERROR_ALREADY_CAST
      else if bs_spoiled existing_ballot = True then BALLOT_COLLECTION_ERROR_ALREADY_SPOILED
      else BALLOT_COLLECTION_SUCCESS)"

text \<open>
  The result is the status, the tracker written to the out parameter on success, and the table. The
  new state is a copy of the whole element, the old element is unlinked and freed.
\<close>

definition Ballot_Collection_update ::
    "env \<Rightarrow> string \<Rightarrow> bool \<Rightarrow> bool \<Rightarrow> ballot_box \<Rightarrow>
     (Ballot_Collection_result \<times> string option \<times> ballot_box) option" where
  "Ballot_Collection_update E identifier c s b =
     (if c = s then Some (BALLOT_COLLECTION_ERROR_INVALID_ARGUMENT, None, b)
      else do {
        (r, found) \<leftarrow> Ballot_Collection_get_ballot identifier b;
        if r = BALLOT_COLLECTION_ERROR_NOT_FOUND then Some (BALLOT_COLLECTION_ERROR_NOT_FOUND, None, b)
        else do {
          existing_ballot \<leftarrow> found;
          e \<leftarrow> heap b existing_ballot;
          let can_mutate = Ballot_Collection_assert_can_mutate_state (elmt e);
          if can_mutate \<noteq> BALLOT_COLLECTION_SUCCESS then Some (can_mutate, None, b)
          else case malloc E 80 of
            None \<Rightarrow> Some (BALLOT_COLLECTION_ERROR_INSUFFICIENT_MEMORY, None, b)
          | Some _ \<Rightarrow> do {
              let new_ballot_state = (elmt e)\<lparr>bs_cast := c, bs_spoiled := s\<rparr>;
              let (a, b) = new_elmt new_ballot_state b;
              b \<leftarrow> HASH_DEL existing_ballot b;
              b \<leftarrow> free_elmt existing_ballot b;
              b \<leftarrow> HASH_ADD_KEYPTR E (bs_external_identifier new_ballot_state)
                     (of_nat (length (bs_external_identifier new_ballot_state))) a b;
              Some (BALLOT_COLLECTION_SUCCESS, Some (bs_tracker new_ballot_state), b) } } })"

definition Ballot_Collection_mark_cast ::
    "env \<Rightarrow> string \<Rightarrow> ballot_box \<Rightarrow> (Ballot_Collection_result \<times> string option \<times> ballot_box) option" where
  "Ballot_Collection_mark_cast E identifier b = Ballot_Collection_update E identifier True False b"

definition Ballot_Collection_mark_spoiled ::
    "env \<Rightarrow> string \<Rightarrow> ballot_box \<Rightarrow> (Ballot_Collection_result \<times> string option \<times> ballot_box) option" where
  "Ballot_Collection_mark_spoiled E identifier b = Ballot_Collection_update E identifier False True b"

section \<open>Removing\<close>

definition Ballot_Collection_remove_ballot ::
    "string \<Rightarrow> ballot_box \<Rightarrow> (Ballot_Collection_result \<times> ballot_box) option" where
  "Ballot_Collection_remove_ballot identifier b =
     do {
       (r, found) \<leftarrow> Ballot_Collection_get_ballot identifier b;
       if r = BALLOT_COLLECTION_ERROR_NOT_FOUND then Some (BALLOT_COLLECTION_ERROR_NOT_FOUND, b)
       else do {
         existing_ballot \<leftarrow> found;
         b \<leftarrow> HASH_DEL existing_ballot b;
         b \<leftarrow> free_elmt existing_ballot b;
         Some (BALLOT_COLLECTION_SUCCESS, b) } }"

text \<open>\<open>HASH_ITER\<close> reads the next pointer of an element before its body unlinks and frees it.\<close>

primrec remove_each :: "nat list \<Rightarrow> ballot_box \<Rightarrow> ballot_box option" where
  "remove_each [] b = Some b"
| "remove_each (a # as) b =
     do { _ \<leftarrow> heap b a; b \<leftarrow> HASH_DEL a b; b \<leftarrow> free_elmt a b; remove_each as b }"

definition Ballot_Collection_remove_all :: "ballot_box \<Rightarrow> (Ballot_Collection_result \<times> ballot_box) option" where
  "Ballot_Collection_remove_all b =
     do {
       b \<leftarrow> (case head_table b of None \<Rightarrow> Some b | Some t \<Rightarrow> remove_each (tbl_order t) b);
       Some (BALLOT_COLLECTION_SUCCESS, b) }"

definition Ballot_Collection_free :: "ballot_box \<Rightarrow> (Ballot_Collection_result \<times> ballot_box) option" where
  "Ballot_Collection_free b =
     do {
       (delete_result, b) \<leftarrow> Ballot_Collection_remove_all b;
       if delete_result \<noteq> BALLOT_COLLECTION_SUCCESS then Some (delete_result, b)
       else Some (BALLOT_COLLECTION_SUCCESS, b\<lparr>head_table := None\<rparr>) }"

end
