(* ===== verification/BallotCollectionProofs.thy ===== *)
theory BallotCollectionProofs
  imports BallotCollection
begin

text \<open>
  The ballot box as a finite map from identifiers to ballots: its invariant, and what each operation of
  the collection does to the map, for every status it can return. An operation that ends (\<open>Some\<close>) has
  these effects whatever the allocator does; with memory and with buckets left to double it ends.
\<close>

section \<open>Invariant\<close>

definition ballot_ok :: "string \<Rightarrow> ballot_state \<Rightarrow> bool" where
  "ballot_ok k st \<longleftrightarrow> bs_external_identifier st = k \<and> short_key k \<and> bs_registered st \<and> \<not> (bs_cast st \<and> bs_spoiled st)"

definition collection_ok :: "ballot_box \<Rightarrow> bool" where
  "collection_ok b \<longleftrightarrow> box_ok b \<and> (\<forall>k st. box_map b k = Some st \<longrightarrow> ballot_ok k st)"

definition new_ballot :: "string \<Rightarrow> string \<Rightarrow> u32 \<Rightarrow> ballot_state" where
  "new_ballot k track index =
     \<lparr>bs_external_identifier = k, bs_registered_index = index, bs_registered = True,
      bs_cast = False, bs_spoiled = False, bs_tracker = track\<rparr>"

lemma empty_collection_ok [simp]: "collection_ok empty_box"
  by (simp add: collection_ok_def)

lemma ballot_ok_new: "short_key k \<Longrightarrow> ballot_ok k (new_ballot k track index)"
  by (simp add: ballot_ok_def new_ballot_def)

section \<open>Looking up\<close>

lemma get_ballot_cases:
  assumes "box_ok b" "short_key k"
  obtains (found) a e where "box_map b k = Some (elmt e)" "a \<in> set (linked b)" "heap b a = Some e" "hh_key e = k"
      "Ballot_Collection_get_ballot k b = Some (BALLOT_COLLECTION_SUCCESS, Some a)"
    | (missing) "box_map b k = None" "Ballot_Collection_get_ballot k b = Some (BALLOT_COLLECTION_ERROR_NOT_FOUND, None)"
proof -
  obtain r where r: "HASH_FIND_STR k b = Some r"
    "case r of None \<Rightarrow> k \<notin> dom (box_map b)
     | Some a \<Rightarrow> a \<in> set (linked b) \<and> (\<exists>e. heap b a = Some e \<and> hh_key e = k \<and> box_map b k = Some (elmt e))"
    using HASH_FIND_STR_correct [OF assms] by blast
  then show ?thesis
    by (cases r) (auto simp: Ballot_Collection_get_ballot_def intro: found missing)
qed

lemma size_correct: "box_ok b \<Longrightarrow> Ballot_Collection_size b = Some (of_nat (length (entries b)))"
  by (simp add: Ballot_Collection_size_def HASH_COUNT_correct)

section \<open>Registering\<close>

lemma box_map_add:
  assumes "entries b' = entries b @ [(k, x)]" "k \<notin> dom (box_map b)"
  shows "box_map b' = (box_map b)(k \<mapsto> x)"
  using box_map_append [OF assms(2)] assms(1) by (simp add: box_map_def)

theorem register_ballot_correct:
  assumes "collection_ok b" "short_key k"
    and "Ballot_Collection_register_ballot E k track index b = Some (r, b')"
  shows "collection_ok b' \<and>
    (case box_map b k of
       Some _ \<Rightarrow> r = BALLOT_COLLECTION_ERROR_ALREADY_REGISTERED \<and> b' = b
     | None \<Rightarrow> r = BALLOT_COLLECTION_ERROR_INSUFFICIENT_MEMORY \<and> b' = b \<or>
         r = BALLOT_COLLECTION_SUCCESS \<and> box_map b' = (box_map b)(k \<mapsto> new_ballot k track index) \<and>
         length (entries b') = Suc (length (entries b)))"
proof -
  have ok: "box_ok b" using assms(1) by (simp add: collection_ok_def)
  show ?thesis
    using ok assms(2)
  proof (cases rule: get_ballot_cases)
    case (found a e)
    then show ?thesis using assms(1,3) by (simp add: Ballot_Collection_register_ballot_def)
  next
    case missing
    show ?thesis
    proof (cases "malloc E 80")
      case None
      then show ?thesis using missing assms(1,3) by (simp add: Ballot_Collection_register_ballot_def)
    next
      case (Some blk)
      obtain a b1 e where n: "new_elmt (new_ballot k track index) b = (a, b1)" "box_ok b1" "entries b1 = entries b"
        "linked b1 = linked b" "heap b1 = (heap b)(a \<mapsto> e)" "elmt e = new_ballot k track index" "a \<notin> set (linked b)"
        using new_elmt_ok [OF ok] by blast
      have m: "box_map b1 = box_map b" by (simp add: box_map_def n(3))
      have run: "HASH_ADD_KEYPTR E k (of_nat (length k)) a b1 = Some b'" "r = BALLOT_COLLECTION_SUCCESS"
        using assms(3) missing Some n(1)
        by (auto simp: Ballot_Collection_register_ballot_def new_ballot_def bind_eq_Some_conv)
      have a: "heap b1 a = Some e" "a \<notin> set (linked b1)" "k \<notin> dom (box_map b1)"
        using n missing(1) m by auto
      from HASH_ADD_KEYPTR_Some [OF n(2) a(1,2) assms(2) a(3) run(1)]
      have add: "box_ok b'" "entries b' = entries b1 @ [(k, elmt e)]" by auto
      have "box_map b' = (box_map b)(k \<mapsto> new_ballot k track index)"
        using box_map_add [OF add(2) a(3)] n(6) m by simp
      moreover have "collection_ok b'"
        using add(1) assms(1) ballot_ok_new [OF assms(2)] unfolding collection_ok_def calculation by simp
      ultimately show ?thesis using missing run(2) add(2) n(3) by simp
    qed
  qed
qed

theorem register_ballot_total:
  assumes "platform_mem E" "collection_ok b" "can_grow b" "short_key k"
  shows "\<exists>b'. Ballot_Collection_register_ballot E k track index b =
    Some (if k \<in> dom (box_map b) then BALLOT_COLLECTION_ERROR_ALREADY_REGISTERED else BALLOT_COLLECTION_SUCCESS, b')"
proof -
  have ok: "box_ok b" using assms(2) by (simp add: collection_ok_def)
  show ?thesis
    using ok assms(4)
  proof (cases rule: get_ballot_cases)
    case (found a e)
    then show ?thesis by (simp add: Ballot_Collection_register_ballot_def domIff)
  next
    case missing
    obtain blk where blk: "malloc E 80 = Some blk" using platform_mem.malloc_ok [OF assms(1)] by blast
    obtain a b1 e where n: "new_elmt (new_ballot k track index) b = (a, b1)" "box_ok b1" "linked b1 = linked b"
      "heap b1 = (heap b)(a \<mapsto> e)" "a \<notin> set (linked b)" "can_grow b1 = can_grow b"
      using new_elmt_ok [OF ok] by blast
    have "HASH_ADD_KEYPTR E k (of_nat (length k)) a b1 \<noteq> None"
      using n assms(3) by (intro HASH_ADD_KEYPTR_total [OF assms(1) n(2)]) auto
    then show ?thesis
      using missing blk n(1) by (auto simp: Ballot_Collection_register_ballot_def new_ballot_def domIff)
  qed
qed

section \<open>Casting and spoiling\<close>

text \<open>What an update answers, from the ballot alone.\<close>

definition update_result :: "ballot_state option \<Rightarrow> Ballot_Collection_result" where
  "update_result st =
     (case st of
        None \<Rightarrow> BALLOT_COLLECTION_ERROR_NOT_FOUND
      | Some st \<Rightarrow>
          if bs_cast st then BALLOT_COLLECTION_ERROR_ALREADY_CAST
          else if bs_spoiled st then BALLOT_COLLECTION_ERROR_ALREADY_SPOILED
          else BALLOT_COLLECTION_SUCCESS)"

lemma can_mutate:
  "ballot_ok k st \<Longrightarrow> Ballot_Collection_assert_can_mutate_state st = update_result (Some st)"
  by (simp add: ballot_ok_def Ballot_Collection_assert_can_mutate_state_def update_result_def)

theorem update_correct:
  assumes "collection_ok b" "short_key k" "c \<noteq> s"
    and "Ballot_Collection_update E k c s b = Some (r, out, b')"
  shows "collection_ok b' \<and>
    (r = update_result (box_map b k) \<or> r = BALLOT_COLLECTION_ERROR_INSUFFICIENT_MEMORY) \<and>
    (if r = BALLOT_COLLECTION_SUCCESS
     then \<exists>st. box_map b k = Some st \<and> \<not> bs_cast st \<and> \<not> bs_spoiled st \<and>
       out = Some (bs_tracker st) \<and> box_map b' = (box_map b)(k \<mapsto> st\<lparr>bs_cast := c, bs_spoiled := s\<rparr>) \<and>
       length (entries b') = length (entries b)
     else out = None \<and> b' = b)"
proof -
  have ok: "box_ok b" using assms(1) by (simp add: collection_ok_def)
  show ?thesis
    using ok assms(2)
  proof (cases rule: get_ballot_cases)
    case missing
    then show ?thesis using assms by (simp add: Ballot_Collection_update_def update_result_def)
  next
    case (found x e)
    have bok: "ballot_ok k (elmt e)" using assms(1) found(1) by (simp add: collection_ok_def)
    note cm = can_mutate [OF bok]
    show ?thesis
    proof (cases "update_result (Some (elmt e)) = BALLOT_COLLECTION_SUCCESS \<and> malloc E 80 \<noteq> None")
      case False
      then show ?thesis
        using found assms cm by (auto simp: Ballot_Collection_update_def Let_def update_result_def split: if_splits option.splits)
    next
      case True
      then obtain blk where blk: "malloc E 80 = Some blk" by auto
      have plain: "\<not> bs_cast (elmt e)" "\<not> bs_spoiled (elmt e)"
        using True by (auto simp: update_result_def split: if_splits)
      have id: "bs_external_identifier (elmt e) = k" using bok by (simp add: ballot_ok_def)
      let ?st = "(elmt e)\<lparr>bs_cast := c, bs_spoiled := s\<rparr>"
      obtain a b1 e1 where n: "new_elmt ?st b = (a, b1)" "box_ok b1" "entries b1 = entries b"
        "linked b1 = linked b" "heap b1 = (heap b)(a \<mapsto> e1)" "elmt e1 = ?st" "a \<notin> set (linked b)" "heap b a = None"
        using new_elmt_ok [OF ok] by blast
      have ax: "a \<noteq> x" using n(7) found(2) by blast
      have "x \<in> set (linked b1)" "heap b1 x = Some e" using found n ax by auto
      then obtain b2 b3 where d: "HASH_DEL x b1 = Some b2" "free_elmt x b2 = Some b3" "box_ok b3"
        "heap b3 = (heap b1)(x := None)" "linked b3 = remove1 x (linked b1)" "box_map b3 = (box_map b1)(hh_key e := None)"
        using delete_free_ok [OF n(2)] by blast
      have run: "HASH_ADD_KEYPTR E k (of_nat (length k)) a b3 = Some b'" "r = BALLOT_COLLECTION_SUCCESS"
        "out = Some (bs_tracker (elmt e))"
        using assms(3,4) found True blk n(1) d(1,2) cm id
        by (auto simp: Ballot_Collection_update_def Let_def bind_eq_Some_conv)
      have a: "heap b3 a = Some e1" "a \<notin> set (linked b3)" "k \<notin> dom (box_map b3)"
        using n d ax found(4) by (auto dest: notin_set_remove1)
      from HASH_ADD_KEYPTR_Some [OF d(3) a(1,2) assms(2) a(3) run(1)]
      have add: "box_ok b'" "entries b' = entries b3 @ [(k, elmt e1)]" by auto
      have m: "box_map b' = (box_map b)(k \<mapsto> ?st)"
        using box_map_add [OF add(2) a(3)] n(3,6) d(6) found(4) by (simp add: box_map_def)
      moreover have "collection_ok b'"
        using add(1) assms(1,3) bok unfolding collection_ok_def m by (auto simp: ballot_ok_def)
      moreover have "length (entries b') = length (entries b)"
        using add(2) d(5) n(4) found(2) length_pos_if_in_set [OF found(2)]
        by (simp add: entries_def length_remove1)
      ultimately show ?thesis using found run(2,3) plain True by auto
    qed
  qed
qed

theorem update_total:
  assumes "platform_mem E" "collection_ok b" "can_grow b" "short_key k" "c \<noteq> s"
  shows "\<exists>out b'. Ballot_Collection_update E k c s b = Some (update_result (box_map b k), out, b')"
proof -
  have ok: "box_ok b" using assms(2) by (simp add: collection_ok_def)
  show ?thesis
    using ok assms(4)
  proof (cases rule: get_ballot_cases)
    case missing
    then show ?thesis using assms by (simp add: Ballot_Collection_update_def update_result_def)
  next
    case (found x e)
    have bok: "ballot_ok k (elmt e)" using assms(2) found(1) by (simp add: collection_ok_def)
    note cm = can_mutate [OF bok]
    obtain blk where blk: "malloc E 80 = Some blk" using platform_mem.malloc_ok [OF assms(1)] by blast
    let ?st = "(elmt e)\<lparr>bs_cast := c, bs_spoiled := s\<rparr>"
    obtain a b1 e1 where n: "new_elmt ?st b = (a, b1)" "box_ok b1" "linked b1 = linked b"
      "heap b1 = (heap b)(a \<mapsto> e1)" "a \<notin> set (linked b)" "can_grow b1 = can_grow b"
      using new_elmt_ok [OF ok] by blast
    have ax: "a \<noteq> x" using n(5) found(2) by blast
    have "x \<in> set (linked b1)" "heap b1 x = Some e" using found n ax by auto
    then obtain b2 b3 where d: "HASH_DEL x b1 = Some b2" "free_elmt x b2 = Some b3" "box_ok b3"
      "heap b3 = (heap b1)(x := None)" "linked b3 = remove1 x (linked b1)" "can_grow b1 \<longrightarrow> can_grow b3"
      using delete_free_ok [OF n(2)] by blast
    have "HASH_ADD_KEYPTR E k (of_nat (length k)) a b3 \<noteq> None"
      using n d ax assms(3) by (intro HASH_ADD_KEYPTR_total [OF assms(1) d(3)]) (auto dest: notin_set_remove1)
    moreover have "bs_external_identifier (elmt e) = k" using bok by (simp add: ballot_ok_def)
    ultimately show ?thesis
      using assms(5) found blk n(1) d(1,2) cm by (auto simp: Ballot_Collection_update_def Let_def)
  qed
qed

section \<open>Removing\<close>

lemma remove_each_ok:
  assumes "box_ok b" "as = linked b"
  shows "\<exists>b'. remove_each as b = Some b' \<and> box_ok b' \<and> entries b' = []"
  using assms
proof (induction as arbitrary: b)
  case Nil
  then show ?case by (simp add: entries_def)
next
  case (Cons a as)
  then have a: "a \<in> set (linked b)" by (metis list.set_intros(1))
  then obtain e where e: "heap b a = Some e" using Cons.prems(1) by (auto simp: box_ok_def)
  obtain b1 b2 where d: "HASH_DEL a b = Some b1" "free_elmt a b1 = Some b2" "box_ok b2" "linked b2 = remove1 a (linked b)"
    using delete_free_ok [OF Cons.prems(1) a e] by blast
  have "as = linked b2" using d(4) Cons.prems(2) [symmetric] by simp
  with Cons.IH [OF d(3)] e d(1,2) show ?case by simp
qed

lemma entries_empty: "box_ok b \<Longrightarrow> entries b = [] \<Longrightarrow> head_table b = None"
  by (cases "head_table b") (auto simp: entries_def linked_def box_ok_def table_ok_def)

theorem remove_all_correct:
  assumes "box_ok b"
  shows "\<exists>b'. Ballot_Collection_remove_all b = Some (BALLOT_COLLECTION_SUCCESS, b') \<and> collection_ok b' \<and>
    box_map b' = Map.empty \<and> head_table b' = None"
proof -
  have "\<exists>b'. (case head_table b of None \<Rightarrow> Some b | Some t \<Rightarrow> remove_each (tbl_order t) b) = Some b' \<and>
      box_ok b' \<and> entries b' = []"
  proof (cases "head_table b")
    case None
    then show ?thesis using assms by (simp add: entries_def linked_def)
  next
    case (Some t)
    then show ?thesis using remove_each_ok [OF assms, of "tbl_order t"] by (simp add: linked_def)
  qed
  then obtain b' where b': "(case head_table b of None \<Rightarrow> Some b | Some t \<Rightarrow> remove_each (tbl_order t) b) = Some b'"
    "box_ok b'" "entries b' = []" by blast
  then have "box_map b' = Map.empty" by (simp add: box_map_def)
  with b' entries_empty [OF b'(2,3)] show ?thesis
    by (simp add: Ballot_Collection_remove_all_def collection_ok_def)
qed

end
