(* ===== verification/Nouns.thy ===== *)
theory Nouns
  imports Prelude
begin

text \<open>
  The table of \<open>voting/nouns.c\<close>, 5976 words in slices of 128, and \<open>get_noun\<close>. The words are written in
  lower-case letters and ascend strictly, so that no two of them are equal; both facts are checked
  slice by slice.
\<close>

section \<open>The words\<close>

definition nouns_00 :: "string list" where
  "nouns_00 =
   [''aardvark'', ''abacus'', ''abbey'', ''abbreviation'', ''ability'', ''abolishment'', ''absence'',
    ''abundance'', ''academics'', ''academy'', ''accelerant'', ''accelerator'', ''accent'',
    ''acceptance'', ''access'', ''accessory'', ''accident'', ''accommodation'', ''accompanist'',
    ''accomplishment'', ''accord'', ''accordance'', ''accordion'', ''account'', ''accountability'',
    ''accountant'', ''accounting'', ''accuracy'', ''achievement'', ''achiever'', ''acknowledgment'',
    ''acorn'', ''acoustics'', ''acquaintance'', ''acquisition'', ''acre'', ''acrylic'', ''act'',
    ''action'', ''activation'', ''activity'', ''actor'', ''actress'', ''adaptation'', ''adapter'',
    ''addition'', ''address'', ''adjective'', ''adjustment'', ''administration'', ''administrator'',
    ''admire'', ''admission'', ''adobe'', ''adult'', ''adulthood'', ''advance'', ''advancement'',
    ''advantage'', ''advent'', ''adverb'', ''advertisement'', ''advertising'', ''advice'', ''adviser'',
    ''advocacy'', ''advocate'', ''affect'', ''affiliate'', ''affinity'', ''afoul'', ''afterlife'',
    ''aftermath'', ''afternoon'', ''aftershave'', ''afterthought'', ''age'', ''agency'', ''agenda'',
    ''agent'', ''agony'', ''agreement'', ''agriculture'', ''aid'', ''aide'', ''aim'', ''air'',
    ''airbag'', ''aircraft'', ''airfare'', ''airfield'', ''airline'', ''airmail'', ''airplane'',
    ''airport'', ''airspace'', ''albatross'', ''album'', ''alcove'', ''alder'', ''alfalfa'', ''algebra'',
    ''algorithm'', ''alias'', ''alibi'', ''allergist'', ''alley'', ''alliance'', ''alligator'',
    ''allocation'', ''allowance'', ''alloy'', ''almanac'', ''almond'', ''alpaca'', ''alpha'',
    ''alphabet'', ''altar'', ''alteration'', ''alternative'', ''altitude'', ''alto'', ''aluminium'',
    ''aluminum'', ''amazement'', ''ambassador'', ''amber'', ''ambience'']"

definition nouns_01 :: "string list" where
  "nouns_01 =
   [''ambiguity'', ''ambition'', ''ambulance'', ''amendment'', ''amenity'', ''amount'', ''amusement'',
    ''anagram'', ''analog'', ''analogue'', ''analogy'', ''analysis'', ''analyst'', ''analytics'',
    ''anatomy'', ''ancestor'', ''anchovy'', ''angel'', ''angle'', ''angora'', ''anguish'', ''animal'',
    ''anime'', ''anise'', ''ankle'', ''anklet'', ''anniversary'', ''announcement'', ''annual'',
    ''anorak'', ''answer'', ''ant'', ''anteater'', ''antelope'', ''antennae'', ''anterior'',
    ''anthropology'', ''antibody'', ''anticipation'', ''antique'', ''antiquity'', ''antler'',
    ''antling'', ''anybody'', ''anyone'', ''anything'', ''anywhere'', ''apartment'', ''ape'',
    ''apology'', ''app'', ''apparatus'', ''apparel'', ''appeal'', ''appearance'', ''appendix'',
    ''appetiser'', ''appetite'', ''appetizer'', ''applause'', ''applewood'', ''appliance'',
    ''application'', ''appointment'', ''appreciation'', ''apprehension'', ''approach'',
    ''appropriation'', ''approval'', ''apricot'', ''apron'', ''aquarium'', ''aquifer'', ''arcade'',
    ''arch'', ''archaeology'', ''archeology'', ''archer'', ''architect'', ''architecture'', ''archives'',
    ''area'', ''arena'', ''argument'', ''arithmetic'', ''ark'', ''arm'', ''armadillo'', ''armchair'',
    ''armoire'', ''armpit'', ''armrest'', ''arrangement'', ''array'', ''arrest'', ''arrival'', ''arrow'',
    ''art'', ''artery'', ''arthur'', ''artichoke'', ''article'', ''artifact'', ''artificer'', ''artist'',
    ''ascend'', ''ascent'', ''ascot'', ''ash'', ''aside'', ''asparagus'', ''aspect'', ''asphalt'',
    ''assembly'', ''assertion'', ''assessment'', ''asset'', ''assignment'', ''assist'', ''assistance'',
    ''assistant'', ''associate'', ''association'', ''assumption'', ''assurance'', ''asterisk'',
    ''astronomy'', ''asymmetry'']"

definition nouns_02 :: "string list" where
  "nouns_02 =
   [''atelier'', ''athlete'', ''athletics'', ''atmosphere'', ''atom'', ''atrium'', ''attachment'',
    ''attainment'', ''attempt'', ''attendance'', ''attendant'', ''attention'', ''attic'', ''attitude'',
    ''attorney'', ''attraction'', ''attribute'', ''auction'', ''audience'', ''audit'', ''auditorium'',
    ''aunt'', ''authentication'', ''authenticity'', ''author'', ''authorisation'', ''authority'',
    ''authorization'', ''auto'', ''automation'', ''automaton'', ''autumn'', ''availability'',
    ''avalanche'', ''avenue'', ''average'', ''avocado'', ''award'', ''awareness'', ''awe'', ''axis'',
    ''babe'', ''baby'', ''bachelor'', ''back'', ''backbone'', ''backburn'', ''backdrop'', ''background'',
    ''backpack'', ''backup'', ''backyard'', ''bacon'', ''badge'', ''badger'', ''bafflement'', ''bag'',
    ''bagel'', ''baggage'', ''bagpipe'', ''bail'', ''bait'', ''bake'', ''baker'', ''bakery'',
    ''bakeware'', ''balance'', ''balcony'', ''ball'', ''ballet'', ''balloon'', ''balloonist'',
    ''ballot'', ''ballpark'', ''bamboo'', ''ban'', ''banana'', ''band'', ''bandana'', ''bandanna'',
    ''bandwidth'', ''bangle'', ''banjo'', ''bank'', ''bankbook'', ''banker'', ''banking'',
    ''bankruptcy'', ''banner'', ''banquette'', ''bar'', ''barbecue'', ''barbeque'', ''barber'',
    ''bargain'', ''barge'', ''baritone'', ''bark'', ''barley'', ''barn'', ''barometer'', ''barrage'',
    ''barrel'', ''barrier'', ''base'', ''baseball'', ''baseboard'', ''baseline'', ''basement'',
    ''basics'', ''basil'', ''basin'', ''basis'', ''basket'', ''basketball'', ''bass'', ''bassinet'',
    ''bassoon'', ''bat'', ''bath'', ''bathrobe'', ''bathroom'', ''bathtub'', ''battalion'', ''batter'',
    ''battery'', ''batting'', ''bay'']"

definition nouns_03 :: "string list" where
  "nouns_03 =
   [''bayou'', ''beach'', ''bead'', ''beak'', ''beam'', ''bean'', ''beancurd'', ''beanie'',
    ''beanstalk'', ''bear'', ''beauty'', ''beck'', ''bedrock'', ''bee'', ''beech'', ''beet'', ''beetle'',
    ''beginner'', ''beginning'', ''begonia'', ''behalf'', ''behavior'', ''behaviour'', ''behest'',
    ''behold'', ''being'', ''belfry'', ''belief'', ''believer'', ''bell'', ''bellows'', ''belt'',
    ''bench'', ''bend'', ''benefit'', ''beret'', ''berry'', ''bestseller'', ''bet'', ''beverage'',
    ''beyond'', ''bias'', ''bicycle'', ''bid'', ''bidder'', ''bidding'', ''bifocals'', ''bijou'',
    ''bike'', ''bill'', ''billboard'', ''billing'', ''billion'', ''bin'', ''binoculars'', ''biology'',
    ''biopsy'', ''biosphere'', ''biplane'', ''birch'', ''bird'', ''birdbath'', ''birdcage'',
    ''birdhouse'', ''birthday'', ''biscuit'', ''bit'', ''bitten'', ''bitter'', ''blackberry'',
    ''blackbird'', ''blackboard'', ''blackfish'', ''blackness'', ''blade'', ''blame'', ''blank'',
    ''blanket'', ''blast'', ''blazer'', ''blend'', ''blind'', ''blinker'', ''blister'', ''blizzard'',
    ''block'', ''blocker'', ''blog'', ''blogger'', ''bloom'', ''bloomer'', ''blossom'', ''blouse'',
    ''blue'', ''blueberry'', ''blush'', ''boar'', ''board'', ''boat'', ''boatload'', ''boatyard'',
    ''bob'', ''bobcat'', ''bog'', ''bolero'', ''bolt'', ''bond'', ''bonding'', ''bondsman'', ''bonfire'',
    ''bongo'', ''bonnet'', ''bonsai'', ''bonus'', ''book'', ''bookcase'', ''bookend'', ''booking'',
    ''booklet'', ''bookmark'', ''boolean'', ''boom'', ''boon'', ''boost'', ''booster'', ''boot'',
    ''border'', ''bore'']"

definition nouns_04 :: "string list" where
  "nouns_04 =
   [''borrower'', ''borrowing'', ''boss'', ''botany'', ''bother'', ''bottle'', ''bottling'', ''bough'',
    ''boulder'', ''boulevard'', ''boundary'', ''bouquet'', ''bout'', ''boutique'', ''bow'', ''bower'',
    ''bowl'', ''bowler'', ''bowling'', ''bowtie'', ''boxer'', ''boxspring'', ''boy'', ''boycott'',
    ''boyfriend'', ''boyhood'', ''boysenberry'', ''brace'', ''bracelet'', ''bracket'', ''brain'',
    ''brake'', ''bran'', ''branch'', ''brand'', ''brass'', ''bratwurst'', ''bread'', ''breadcrumb'',
    ''breadfruit'', ''break'', ''breakdown'', ''breakfast'', ''breakpoint'', ''breakthrough'',
    ''breath'', ''breeze'', ''brewer'', ''bribery'', ''brick'', ''bricklaying'', ''bride'', ''bridge'',
    ''brief'', ''briefing'', ''briefly'', ''brilliant'', ''brink'', ''brisket'', ''broad'',
    ''broadcast'', ''broccoli'', ''brochure'', ''broiler'', ''broker'', ''bronco'', ''bronze'',
    ''brooch'', ''brood'', ''brook'', ''broom'', ''brother'', ''brow'', ''brownie'', ''browser'',
    ''browsing'', ''brunch'', ''brush'', ''brushfire'', ''brushing'', ''bubble'', ''buck'', ''bucket'',
    ''buckle'', ''buckwheat'', ''buddy'', ''budget'', ''buffalo'', ''buffer'', ''buffet'', ''bug'',
    ''buggy'', ''bugle'', ''builder'', ''building'', ''bulb'', ''bulk'', ''bull'', ''bulldozer'',
    ''bullet'', ''bun'', ''bunch'', ''bungalow'', ''bunghole'', ''bunkhouse'', ''burden'', ''bureau'',
    ''burglar'', ''burial'', ''burn'', ''burning'', ''burrito'', ''burrow'', ''burst'', ''bus'',
    ''business'', ''businessman'', ''bustle'', ''butane'', ''butler'', ''butter'', ''butterfly'',
    ''button'', ''buy'', ''buyer'', ''buying'', ''buzzard'', ''cabana'']"

definition nouns_05 :: "string list" where
  "nouns_05 =
   [''cabbage'', ''cabin'', ''cabinet'', ''cable'', ''caboose'', ''cacao'', ''cactus'', ''caddy'',
    ''cadet'', ''cafe'', ''caffeine'', ''caftan'', ''cage'', ''cake'', ''calculation'', ''calculator'',
    ''calculus'', ''calendar'', ''calf'', ''calico'', ''call'', ''calm'', ''calorie'', ''camel'',
    ''cameo'', ''camera'', ''camp'', ''campaign'', ''campaigning'', ''campanile'', ''camper'',
    ''campus'', ''can'', ''canal'', ''candelabra'', ''candidacy'', ''candidate'', ''candle'', ''candy'',
    ''cane'', ''cannon'', ''canoe'', ''canon'', ''canopy'', ''cantaloupe'', ''canteen'', ''canvas'',
    ''cap'', ''capability'', ''capacity'', ''cape'', ''caper'', ''capital'', ''capitulation'', ''capon'',
    ''cappuccino'', ''captain'', ''caption'', ''captor'', ''car'', ''caramel'', ''caravan'', ''carbon'',
    ''card'', ''cardboard'', ''cardigan'', ''care'', ''career'', ''cargo'', ''caribou'', ''carload'',
    ''carnation'', ''carnival'', ''carol'', ''carp'', ''carpenter'', ''carpet'', ''carpeting'',
    ''carport'', ''carriage'', ''carrier'', ''carrot'', ''carry'', ''cart'', ''cartel'', ''carter'',
    ''cartload'', ''cartoon'', ''cartridge'', ''carving'', ''cascade'', ''case'', ''casement'', ''cash'',
    ''cashew'', ''cashier'', ''casino'', ''casserole'', ''cassock'', ''cast'', ''castanet'', ''castle'',
    ''cat'', ''catacomb'', ''catalogue'', ''catalyst'', ''catamaran'', ''catastrophe'', ''catch'',
    ''catcher'', ''category'', ''caterpillar'', ''cation'', ''catsup'', ''cattle'', ''cauliflower'',
    ''causal'', ''cause'', ''causeway'', ''caution'', ''cave'', ''caviar'', ''cayenne'', ''ceiling'',
    ''celebration'', ''celebrity'', ''celeriac'', ''celery'']"

definition nouns_06 :: "string list" where
  "nouns_06 =
   [''cell'', ''cellar'', ''cello'', ''celsius'', ''cement'', ''census'', ''cent'', ''center'',
    ''centimeter'', ''centre'', ''centurion'', ''century'', ''ceramic'', ''ceramics'', ''cereal'',
    ''ceremony'', ''certainty'', ''certificate'', ''certification'', ''chafe'', ''chain'', ''chainstay'',
    ''chair'', ''chairlift'', ''chairman'', ''chairperson'', ''chaise'', ''chalet'', ''chalice'',
    ''chalk'', ''challenge'', ''chamber'', ''champagne'', ''champion'', ''championship'', ''chance'',
    ''chandelier'', ''change'', ''channel'', ''chaos'', ''chap'', ''chapel'', ''chapter'', ''character'',
    ''chard'', ''charge'', ''charger'', ''charity'', ''charlatan'', ''charm'', ''chart'', ''charter'',
    ''chasm'', ''chassis'', ''chateau'', ''chatter'', ''check'', ''checkbook'', ''checking'',
    ''checkout'', ''checkroom'', ''cheddar'', ''cheek'', ''cheer'', ''cheese'', ''cheesecake'',
    ''cheetah'', ''chef'', ''chem'', ''chemical'', ''chemistry'', ''cherry'', ''chess'', ''chestnut'',
    ''chicken'', ''chicory'', ''chief'', ''child'', ''childhood'', ''chili'', ''chill'', ''chime'',
    ''chimpanzee'', ''chin'', ''chino'', ''chip'', ''chipmunk'', ''chivalry'', ''chive'', ''chives'',
    ''chocolate'', ''choice'', ''choir'', ''choker'', ''choosing'', ''chop'', ''chops'', ''chopstick'',
    ''chopsticks'', ''chord'', ''chorus'', ''chow'', ''chowder'', ''chrome'', ''chronicle'',
    ''chrysalis'', ''chub'', ''chuck'', ''chug'', ''churn'', ''chutney'', ''cicada'', ''cilantro'',
    ''cinder'', ''cinema'', ''cinnamon'', ''circadian'', ''circle'', ''circuit'', ''circulation'',
    ''circumference'', ''circumstance'', ''cirrus'', ''citizen'', ''citizenship'', ''citron'',
    ''citrus'', ''city'']"

definition nouns_07 :: "string list" where
  "nouns_07 =
   [''civilian'', ''civilisation'', ''civilization'', ''claim'', ''clamp'', ''clan'', ''clank'',
    ''clapboard'', ''clarification'', ''clarinet'', ''clarity'', ''clasp'', ''class'', ''classic'',
    ''classmate'', ''classroom'', ''clause'', ''clave'', ''clavicle'', ''clavier'', ''claw'', ''clay'',
    ''cleaner'', ''clearance'', ''clearing'', ''cleat'', ''clef'', ''cleft'', ''clerk'', ''click'',
    ''client'', ''cliff'', ''climate'', ''climb'', ''clinic'', ''clip'', ''clipboard'', ''clipper'',
    ''cloak'', ''cloakroom'', ''clock'', ''clockwork'', ''clogs'', ''clone'', ''close'', ''closet'',
    ''closing'', ''closure'', ''cloth'', ''clothes'', ''clothing'', ''cloud'', ''cloudburst'', ''clove'',
    ''clover'', ''cloves'', ''club'', ''clue'', ''cluster'', ''clutch'', ''coach'', ''coal'',
    ''coalition'', ''coast'', ''coaster'', ''coat'', ''cob'', ''cobbler'', ''cobweb'', ''cocktail'',
    ''cocoa'', ''coconut'', ''cod'', ''code'', ''codepage'', ''codling'', ''codon'', ''cofactor'',
    ''coffee'', ''coffin'', ''cohesion'', ''cohort'', ''coil'', ''coin'', ''coincidence'',
    ''coinsurance'', ''cold'', ''coleslaw'', ''coliseum'', ''collaboration'', ''collagen'', ''collapse'',
    ''collar'', ''collard'', ''collateral'', ''colleague'', ''collection'', ''collector'', ''college'',
    ''collision'', ''colloquy'', ''colony'', ''color'', ''colt'', ''column'', ''columnist'', ''comb'',
    ''combination'', ''combine'', ''comeback'', ''comedy'', ''comfort'', ''comfortable'', ''comic'',
    ''comics'', ''comma'', ''command'', ''commander'', ''comment'', ''commerce'', ''commercial'',
    ''commission'', ''commitment'', ''committee'', ''commodity'', ''common'', ''commonsense'',
    ''commotion'']"

definition nouns_08 :: "string list" where
  "nouns_08 =
   [''communicant'', ''communication'', ''community'', ''commuter'', ''company'', ''comparison'',
    ''compass'', ''compassion'', ''compassionate'', ''compensation'', ''competence'', ''competition'',
    ''competitor'', ''complaint'', ''complement'', ''completion'', ''complex'', ''complexity'',
    ''compliance'', ''complication'', ''complicity'', ''compliment'', ''component'', ''comportment'',
    ''composer'', ''composite'', ''composition'', ''compost'', ''comprehension'', ''compress'',
    ''compromise'', ''compulsion'', ''computer'', ''con'', ''concentrate'', ''concept'', ''conception'',
    ''concern'', ''concert'', ''conclusion'', ''concrete'', ''condition'', ''conditioner'',
    ''condominium'', ''condor'', ''conduct'', ''conductor'', ''cone'', ''conference'', ''confidence'',
    ''configuration'', ''conflict'', ''confusion'', ''conga'', ''congo'', ''congress'', ''congressman'',
    ''conifer'', ''connection'', ''connotation'', ''conscience'', ''consciousness'', ''consensus'',
    ''consent'', ''consequence'', ''conservation'', ''consideration'', ''consignment'', ''consist'',
    ''consistency'', ''console'', ''consonant'', ''constant'', ''constellation'', ''constitution'',
    ''constraint'', ''construction'', ''consul'', ''consulate'', ''consulting'', ''consumer'',
    ''consumption'', ''contact'', ''container'', ''content'', ''contention'', ''contest'', ''context'',
    ''continent'', ''continuity'', ''contour'', ''contract'', ''contractor'', ''contrary'', ''contrast'',
    ''contribution'', ''contributor'', ''control'', ''controller'', ''convection'', ''convenience'',
    ''convention'', ''conversation'', ''conversion'', ''convert'', ''convertible'', ''cook'',
    ''cookbook'', ''cookie'', ''cooking'', ''cooperation'', ''coordination'', ''coordinator'', ''cope'',
    ''copper'', ''copy'', ''copying'', ''copyright'', ''copywriter'', ''coral'', ''cord'', ''corduroy'',
    ''core'', ''cork'', ''corn'', ''corner'', ''cornerstone'', ''cornflakes'']"

definition nouns_09 :: "string list" where
  "nouns_09 =
   [''cornmeal'', ''corporal'', ''corporation'', ''corral'', ''corridor'', ''corsage'', ''cosset'',
    ''cost'', ''costume'', ''cot'', ''cottage'', ''cotton'', ''couch'', ''cough'', ''council'',
    ''councilor'', ''counsel'', ''counseling'', ''counselling'', ''counsellor'', ''counselor'',
    ''count'', ''counter'', ''counterpart'', ''countess'', ''country'', ''countryside'', ''county'',
    ''couple'', ''coupon'', ''courage'', ''court'', ''courthouse'', ''courtroom'', ''cousin'', ''cover'',
    ''coverage'', ''coverall'', ''cow'', ''cowbell'', ''coyote'', ''crackers'', ''cradle'', ''craft'',
    ''craftsman'', ''cranberry'', ''crane'', ''cranky'', ''crash'', ''crate'', ''cravat'', ''craw'',
    ''crawdad'', ''crayfish'', ''crayon'', ''creation'', ''creative'', ''creativity'', ''creator'',
    ''creature'', ''credential'', ''credenza'', ''credibility'', ''credit'', ''creditor'', ''creek'',
    ''crepe'', ''crest'', ''crew'', ''crewman'', ''crewmate'', ''crewmember'', ''crewmen'', ''crib'',
    ''cribbage'', ''cricket'', ''crime'', ''criminal'', ''crisis'', ''crisp'', ''criteria'',
    ''criterion'', ''critic'', ''criticism'', ''crocodile'', ''crocus'', ''croissant'', ''crook'',
    ''crop'', ''cross'', ''croup'', ''crow'', ''crowd'', ''crown'', ''cruise'', ''crumb'', ''crunch'',
    ''crush'', ''crust'', ''cry'', ''crystal'', ''cub'', ''cube'', ''cuckoo'', ''cucumber'', ''cue'',
    ''cuisine'', ''culture'', ''culvert'', ''cummerbund'', ''cup'', ''cupboard'', ''cupcake'', ''curd'',
    ''cure'', ''curio'', ''curiosity'', ''curl'', ''curler'', ''currant'', ''currency'', ''current'',
    ''curriculum'', ''curry'', ''curse'', ''cursor'', ''curtailment'', ''curtain'']"

definition nouns_10 :: "string list" where
  "nouns_10 =
   [''curve'', ''cushion'', ''custard'', ''custom'', ''customer'', ''cut'', ''cuticle'', ''cutlet'',
    ''cutover'', ''cutting'', ''cycle'', ''cyclone'', ''cylinder'', ''cymbal'', ''cynic'', ''daffodil'',
    ''dahlia'', ''daikon'', ''daily'', ''dairy'', ''daisy'', ''damage'', ''dame'', ''dance'', ''dancer'',
    ''dancing'', ''dandelion'', ''danger'', ''dare'', ''dark'', ''darkness'', ''darn'', ''dart'',
    ''dash'', ''dashboard'', ''data'', ''database'', ''date'', ''daughter'', ''dawn'', ''day'',
    ''daybed'', ''daylight'', ''deal'', ''dealing'', ''dearest'', ''debate'', ''debris'', ''debt'',
    ''debtor'', ''decade'', ''decadence'', ''decency'', ''decimal'', ''decision'', ''deck'',
    ''declaration'', ''declination'', ''decline'', ''decoder'', ''decoration'', ''decrease'',
    ''dedication'', ''deduce'', ''deduction'', ''deed'', ''deep'', ''deer'', ''default'', ''defeat'',
    ''defendant'', ''defender'', ''defense'', ''deficit'', ''definition'', ''degree'', ''delay'',
    ''deliberation'', ''delight'', ''delivery'', ''demand'', ''democracy'', ''democrat'', ''demur'',
    ''den'', ''denim'', ''denominator'', ''density'', ''dentist'', ''department'', ''departure'',
    ''dependency'', ''dependent'', ''deployment'', ''deposit'', ''deposition'', ''depot'',
    ''depression'', ''depressive'', ''depth'', ''deputy'', ''derby'', ''derivation'', ''derivative'',
    ''derrick'', ''descendant'', ''descent'', ''description'', ''desert'', ''design'', ''designation'',
    ''designer'', ''desire'', ''desk'', ''desktop'', ''dessert'', ''destination'', ''destiny'',
    ''destruction'', ''detail'', ''detection'', ''detective'', ''detector'', ''detention'', ''detour'',
    ''developer'', ''developing'', ''development'']"

definition nouns_11 :: "string list" where
  "nouns_11 =
   [''device'', ''dew'', ''diabetes'', ''diadem'', ''diagnosis'', ''diagram'', ''dial'', ''dialect'',
    ''dialogue'', ''diam'', ''diamond'', ''diaper'', ''diaphragm'', ''diarist'', ''diary'', ''dibble'',
    ''dick'', ''diction'', ''dictionary'', ''diesel'', ''diet'', ''difference'', ''difficulty'',
    ''diffuse'', ''dig'', ''digestion'', ''digestive'', ''digger'', ''digging'', ''digit'', ''dignity'',
    ''dill'', ''dilution'', ''dime'', ''dimension'', ''dimple'', ''diner'', ''dinghy'', ''dining'',
    ''dinner'', ''dinosaur'', ''dioxide'', ''dip'', ''diploma'', ''diplomacy'', ''direction'',
    ''directive'', ''director'', ''directory'', ''dirt'', ''disadvantage'', ''disagreement'',
    ''disaster'', ''discharge'', ''discipline'', ''disclaimer'', ''disclosure'', ''disco'',
    ''disconnection'', ''discount'', ''discourse'', ''discovery'', ''discrepancy'', ''discretion'',
    ''discussion'', ''disdain'', ''disembodiment'', ''disengagement'', ''disguise'', ''dish'',
    ''dishwasher'', ''disk'', ''disparity'', ''dispatch'', ''display'', ''disposal'', ''disposer'',
    ''disposition'', ''dispute'', ''disregard'', ''disruption'', ''dissemination'', ''dissonance'',
    ''distance'', ''distinction'', ''distortion'', ''distribution'', ''distributor'', ''district'',
    ''divan'', ''diver'', ''diversity'', ''divide'', ''dividend'', ''divider'', ''diving'', ''division'',
    ''doc'', ''dock'', ''doctor'', ''doctorate'', ''doctrine'', ''document'', ''documentary'', ''doe'',
    ''dog'', ''dogsled'', ''dogwood'', ''doing'', ''doll'', ''dollar'', ''dollop'', ''dolman'',
    ''dolor'', ''dolphin'', ''domain'', ''dome'', ''donation'', ''donkey'', ''donor'', ''donut'',
    ''door'', ''doorbell'', ''doorknob'', ''doorpost'', ''doorway'', ''dory'', ''dose'']"

definition nouns_12 :: "string list" where
  "nouns_12 =
   [''dot'', ''double'', ''doubling'', ''doubt'', ''doubter'', ''dough'', ''doughnut'', ''down'',
    ''downfall'', ''downgrade'', ''download'', ''downstairs'', ''downtown'', ''downturn'', ''dozen'',
    ''draft'', ''drag'', ''dragon'', ''dragonfly'', ''dragonfruit'', ''dragster'', ''drain'',
    ''drainage'', ''drake'', ''drama'', ''drapes'', ''draw'', ''drawbridge'', ''drawer'', ''drawing'',
    ''dream'', ''dreamer'', ''dredger'', ''dress'', ''dresser'', ''dressing'', ''drill'', ''drink'',
    ''drinking'', ''drive'', ''driver'', ''driveway'', ''driving'', ''drizzle'', ''drop'', ''drudgery'',
    ''drum'', ''drummer'', ''dryer'', ''duck'', ''duckling'', ''dud'', ''dude'', ''due'', ''duel'',
    ''dueling'', ''duffel'', ''dugout'', ''dune'', ''duration'', ''durian'', ''dusk'', ''dust'',
    ''duster'', ''duty'', ''dwarf'', ''dwell'', ''dwelling'', ''dynamics'', ''dynamo'', ''dynasty'',
    ''eagle'', ''eaglet'', ''ear'', ''eardrum'', ''earmuffs'', ''earnings'', ''earplug'', ''earring'',
    ''earrings'', ''earth'', ''earthquake'', ''earthworm'', ''ease'', ''easel'', ''east'', ''eating'',
    ''eaves'', ''eavesdropper'', ''eclipse'', ''ecliptic'', ''ecology'', ''economics'', ''economy'',
    ''ecosystem'', ''eddy'', ''edge'', ''edger'', ''edible'', ''editing'', ''edition'', ''editor'',
    ''editorial'', ''education'', ''eel'', ''effect'', ''effective'', ''effector'', ''efficacy'',
    ''efficiency'', ''effort'', ''egg'', ''egghead'', ''eggnog'', ''eggplant'', ''ego'', ''elbow'',
    ''elderberry'', ''election'', ''electricity'', ''electronics'', ''element'', ''elephant'',
    ''elevation'', ''elevator'', ''eleventh'', ''elf'', ''elicit'']"

definition nouns_13 :: "string list" where
  "nouns_13 =
   [''eligibility'', ''elimination'', ''elite'', ''elixir'', ''elk'', ''ellipse'', ''elm'',
    ''elongation'', ''elver'', ''email'', ''emanate'', ''embassy'', ''embossing'', ''emerald'',
    ''emergence'', ''emergent'', ''emery'', ''emission'', ''emitter'', ''emotion'', ''emphasis'',
    ''empire'', ''employ'', ''employee'', ''employer'', ''employment'', ''empowerment'', ''emu'',
    ''enactment'', ''enclave'', ''enclosure'', ''encounter'', ''encouragement'', ''encyclopedia'',
    ''end'', ''endive'', ''endorsement'', ''endpoint'', ''enemy'', ''energy'', ''enforcement'',
    ''engagement'', ''engine'', ''engineer'', ''engineering'', ''enigma'', ''enjoyment'', ''enquiry'',
    ''enrollment'', ''enterprise'', ''entertainment'', ''enthusiasm'', ''entirety'', ''entity'',
    ''entrance'', ''entree'', ''entrepreneur'', ''entry'', ''envelope'', ''environment'', ''envy'',
    ''enzyme'', ''epic'', ''episode'', ''epoch'', ''epoxy'', ''equal'', ''equality'', ''equation'',
    ''equinox'', ''equipment'', ''equity'', ''equivalent'', ''era'', ''eraser'', ''erosion'', ''error'',
    ''escalator'', ''escape'', ''escort'', ''essay'', ''essence'', ''essential'', ''establishment'',
    ''estate'', ''estimate'', ''estuary'', ''eternity'', ''ethernet'', ''ethics'', ''evaluation'',
    ''evaluator'', ''evaporation'', ''eve'', ''evening'', ''event'', ''everybody'', ''everyone'',
    ''everything'', ''evidence'', ''evocation'', ''evolution'', ''exaggeration'', ''exam'',
    ''examination'', ''examiner'', ''example'', ''excellence'', ''exception'', ''excerpt'', ''excess'',
    ''exchange'', ''exclamation'', ''excursion'', ''excuse'', ''executive'', ''executor'', ''exercise'',
    ''exhaust'', ''exhaustion'', ''exhibit'', ''exhibition'', ''exile'', ''existence'', ''exit'',
    ''expansion'', ''expectancy'', ''expectation'']"

definition nouns_14 :: "string list" where
  "nouns_14 =
   [''expedition'', ''expense'', ''experience'', ''experiment'', ''expert'', ''expertise'',
    ''explanation'', ''exploration'', ''explorer'', ''export'', ''expose'', ''exposition'', ''exposure'',
    ''expression'', ''extension'', ''extent'', ''exterior'', ''external'', ''extreme'', ''eye'',
    ''eyeball'', ''eyebrow'', ''eyebrows'', ''eyeglasses'', ''eyelash'', ''eyelashes'', ''eyelid'',
    ''eyelids'', ''eyeliner'', ''eyestrain'', ''fabric'', ''face'', ''facet'', ''facility'',
    ''facsimile'', ''fact'', ''factor'', ''factory'', ''faculty'', ''fail'', ''failure'', ''fairness'',
    ''fairy'', ''fall'', ''fallacy'', ''fame'', ''familiar'', ''familiarity'', ''family'', ''fan'',
    ''fang'', ''fanlight'', ''farm'', ''farmer'', ''farming'', ''farmland'', ''farrow'', ''fascia'',
    ''fashion'', ''fat'', ''fate'', ''father'', ''fatigue'', ''faucet'', ''fault'', ''fava'', ''favor'',
    ''favorite'', ''fawn'', ''fax'', ''fear'', ''feast'', ''feather'', ''feature'', ''federation'',
    ''fedora'', ''fee'', ''feed'', ''feedback'', ''feeding'', ''feel'', ''feeling'', ''fellow'', ''fen'',
    ''fence'', ''fencing'', ''fender'', ''fennel'', ''ferret'', ''ferry'', ''ferryboat'', ''fertilizer'',
    ''festival'', ''few'', ''fiber'', ''fiberglass'', ''fibre'', ''fiction'', ''fiddle'', ''field'',
    ''fiery'', ''fiesta'', ''fifth'', ''fig'', ''fight'', ''fighter'', ''figure'', ''figurine'',
    ''file'', ''filing'', ''fill'', ''fillet'', ''filly'', ''film'', ''filter'', ''final'', ''finance'',
    ''financing'', ''finding'', ''fine'', ''finer'', ''finger'', ''fingerling'', ''fingernail'',
    ''finish'', ''finisher'', ''fir'', ''fire'']"

definition nouns_15 :: "string list" where
  "nouns_15 =
   [''fireman'', ''fireplace'', ''firewall'', ''firm'', ''first'', ''fish'', ''fishbone'', ''fisherman'',
    ''fishery'', ''fishing'', ''fishnet'', ''fit'', ''fitness'', ''fix'', ''fixture'', ''flag'',
    ''flair'', ''flame'', ''flan'', ''flanker'', ''flare'', ''flash'', ''flat'', ''flatboat'',
    ''flavor'', ''flax'', ''fleck'', ''fledgling'', ''fleece'', ''flesh'', ''flexibility'', ''flick'',
    ''flicker'', ''flight'', ''flint'', ''flock'', ''flood'', ''floodplain'', ''floor'', ''flour'',
    ''flow'', ''flower'', ''fluke'', ''flume'', ''flung'', ''flute'', ''fly'', ''flytrap'', ''foal'',
    ''foam'', ''fob'', ''focus'', ''fog'', ''fold'', ''folder'', ''folk'', ''folklore'', ''follower'',
    ''following'', ''fondue'', ''font'', ''food'', ''foodstuffs'', ''fool'', ''foot'', ''footage'',
    ''football'', ''footnote'', ''footprint'', ''footrest'', ''footstep'', ''footstool'', ''footwear'',
    ''forage'', ''forager'', ''foray'', ''force'', ''ford'', ''forearm'', ''forebear'', ''forecast'',
    ''forehead'', ''foreigner'', ''forelimb'', ''forest'', ''forestry'', ''forever'', ''forgery'',
    ''fork'', ''form'', ''formal'', ''format'', ''formation'', ''former'', ''formula'', ''fort'',
    ''forte'', ''fortnight'', ''fortress'', ''fortune'', ''forum'', ''foundation'', ''founder'',
    ''founding'', ''fountain'', ''fourths'', ''fowl'', ''fox'', ''foxglove'', ''fraction'',
    ''fragrance'', ''frame'', ''framework'', ''fraud'', ''fraudster'', ''freak'', ''freckle'',
    ''freedom'', ''freelance'', ''freezer'', ''freezing'', ''freight'', ''freighter'', ''frenzy'',
    ''freon'', ''frequency'', ''fresco'', ''friction'']"

definition nouns_16 :: "string list" where
  "nouns_16 =
   [''fridge'', ''friend'', ''friendship'', ''fries'', ''fright'', ''fringe'', ''fritter'', ''frock'',
    ''frog'', ''front'', ''frontier'', ''frost'', ''frosting'', ''frown'', ''fruit'', ''frustration'',
    ''fry'', ''fuel'', ''fulfillment'', ''full'', ''fun'', ''function'', ''functionality'', ''fund'',
    ''funding'', ''fundraising'', ''funeral'', ''fur'', ''furnace'', ''furniture'', ''futon'',
    ''future'', ''gadget'', ''gaffe'', ''gain'', ''gaiters'', ''gale'', ''gallery'', ''galley'',
    ''gallon'', ''galoshes'', ''gambling'', ''game'', ''gamebird'', ''gaming'', ''gander'', ''gap'',
    ''garage'', ''garb'', ''garbage'', ''garden'', ''garlic'', ''garment'', ''garter'', ''gas'',
    ''gasket'', ''gasoline'', ''gasp'', ''gastronomy'', ''gastropod'', ''gate'', ''gateway'', ''gather'',
    ''gathering'', ''gator'', ''gauge'', ''gauntlet'', ''gavel'', ''gazebo'', ''gazelle'', ''gear'',
    ''gearshift'', ''geek'', ''gel'', ''gelatin'', ''gelding'', ''gem'', ''gender'', ''gene'',
    ''general'', ''generation'', ''generator'', ''generosity'', ''genetics'', ''genie'', ''genius'',
    ''genre'', ''gentleman'', ''geography'', ''geology'', ''geometry'', ''geranium'', ''gerbil'',
    ''gesture'', ''geyser'', ''ghost'', ''giant'', ''gift'', ''gig'', ''giggle'', ''ginger'',
    ''gingerbread'', ''ginseng'', ''giraffe'', ''girdle'', ''girl'', ''girlfriend'', ''glacier'',
    ''gladiolus'', ''glance'', ''gland'', ''glass'', ''glasses'', ''glee'', ''glen'', ''glider'',
    ''gliding'', ''glimpse'', ''globe'', ''gloom'', ''glory'', ''glove'', ''glow'', ''glucose'',
    ''glue'', ''glut'', ''glutamate'', ''gnat'']"

definition nouns_17 :: "string list" where
  "nouns_17 =
   [''gnu'', ''goal'', ''goat'', ''gobbler'', ''goggles'', ''going'', ''gold'', ''goldfish'', ''golf'',
    ''gondola'', ''gong'', ''good'', ''goodbye'', ''goodie'', ''goodness'', ''goodnight'', ''goodwill'',
    ''goose'', ''gopher'', ''gorilla'', ''gosling'', ''gossip'', ''governance'', ''government'',
    ''governor'', ''gown'', ''grace'', ''grade'', ''gradient'', ''graduate'', ''graduation'',
    ''graffiti'', ''graft'', ''grain'', ''gram'', ''grammar'', ''gran'', ''grand'', ''grandchild'',
    ''grandfather'', ''grandma'', ''grandmom'', ''grandmother'', ''grandpa'', ''grandparent'',
    ''grandson'', ''granny'', ''granola'', ''grant'', ''grape'', ''grapefruit'', ''graph'', ''graphic'',
    ''grasp'', ''grasshopper'', ''grassland'', ''gratitude'', ''gravel'', ''gravitas'', ''gravity'',
    ''gravy'', ''gray'', ''grease'', ''greatness'', ''greed'', ''green'', ''greenhouse'', ''greens'',
    ''grenade'', ''grey'', ''grid'', ''grief'', ''grill'', ''grin'', ''grip'', ''gripper'', ''grit'',
    ''grocery'', ''ground'', ''group'', ''grouper'', ''grouse'', ''grove'', ''growth'', ''grub'',
    ''guacamole'', ''guarantee'', ''guard'', ''guava'', ''guerrilla'', ''guess'', ''guest'',
    ''guestbook'', ''guidance'', ''guide'', ''guideline'', ''guilder'', ''guilt'', ''guilty'',
    ''guinea'', ''guitar'', ''guitarist'', ''gum'', ''gumshoe'', ''gutter'', ''guy'', ''gym'',
    ''gymnast'', ''gymnastics'', ''gyro'', ''habit'', ''habitat'', ''hacksaw'', ''hackwork'', ''hail'',
    ''hair'', ''haircut'', ''hake'', ''half'', ''halibut'', ''hall'', ''halloween'', ''hallway'',
    ''halt'', ''ham'', ''hamburger'', ''hammer'', ''hammock'']"

definition nouns_18 :: "string list" where
  "nouns_18 =
   [''hamster'', ''hand'', ''handball'', ''handful'', ''handicap'', ''handle'', ''handlebar'',
    ''handmaiden'', ''handover'', ''handrail'', ''handsaw'', ''hanger'', ''happening'', ''happiness'',
    ''harald'', ''harbor'', ''harbour'', ''hardboard'', ''hardcover'', ''hardening'', ''hardhat'',
    ''hardship'', ''hardware'', ''hare'', ''harm'', ''harmonica'', ''harmonise'', ''harmonize'',
    ''harmony'', ''harp'', ''harpooner'', ''harvest'', ''harvester'', ''hash'', ''hashtag'', ''hassock'',
    ''haste'', ''hat'', ''hatbox'', ''hatchet'', ''hatchling'', ''haunt'', ''haven'', ''haversack'',
    ''havoc'', ''hawk'', ''hay'', ''haze'', ''hazel'', ''hazelnut'', ''head'', ''headache'',
    ''headlight'', ''headline'', ''headphones'', ''headquarters'', ''headrest'', ''health'', ''hearing'',
    ''hearsay'', ''heart'', ''heartache'', ''heartbeat'', ''hearth'', ''hearthside'', ''heartwood'',
    ''heat'', ''heater'', ''heating'', ''heaven'', ''heavy'', ''hectare'', ''hedge'', ''hedgehog'',
    ''heel'', ''heifer'', ''height'', ''heir'', ''heirloom'', ''helicopter'', ''helium'', ''hellcat'',
    ''hello'', ''helmet'', ''helo'', ''help'', ''hemisphere'', ''hemp'', ''hen'', ''herb'', ''herbs'',
    ''heritage'', ''hermit'', ''hero'', ''heron'', ''herring'', ''hesitation'', ''hexagon'', ''heyday'',
    ''hiccups'', ''hide'', ''hierarchy'', ''high'', ''highland'', ''highlight'', ''highway'', ''hike'',
    ''hiking'', ''hill'', ''hint'', ''hip'', ''hippodrome'', ''hire'', ''hiring'', ''historian'',
    ''history'', ''hit'', ''hive'', ''hobbit'', ''hobby'', ''hockey'', ''hoe'', ''hog'', ''hold'',
    ''holder'', ''holiday'', ''home'', ''homeland'']"

definition nouns_19 :: "string list" where
  "nouns_19 =
   [''hometown'', ''homework'', ''homonym'', ''honesty'', ''honey'', ''honeybee'', ''honeydew'',
    ''honor'', ''honoree'', ''hood'', ''hoof'', ''hook'', ''hop'', ''hope'', ''hops'', ''horde'',
    ''horizon'', ''hormone'', ''horn'', ''hornet'', ''horror'', ''horse'', ''horseradish'', ''horst'',
    ''hose'', ''hosiery'', ''hospice'', ''hospital'', ''hospitality'', ''host'', ''hostel'', ''hostess'',
    ''hotdog'', ''hotel'', ''hound'', ''hour'', ''hourglass'', ''house'', ''houseboat'', ''household'',
    ''housewife'', ''housework'', ''housing'', ''hovel'', ''hovercraft'', ''howard'', ''hub'',
    ''hubcap'', ''hubris'', ''hug'', ''hugger'', ''hull'', ''human'', ''humanity'', ''humidity'',
    ''hummus'', ''humor'', ''humour'', ''hundred'', ''hunger'', ''hunt'', ''hunter'', ''hunting'',
    ''hurdle'', ''hurdler'', ''hurricane'', ''hurry'', ''hurt'', ''husband'', ''hut'', ''hutch'',
    ''hyacinth'', ''hydrant'', ''hydraulics'', ''hydrocarb'', ''hydrocarbon'', ''hydrofoil'',
    ''hydrogen'', ''hyena'', ''hygienic'', ''hype'', ''hypothesis'', ''ice'', ''iceberg'',
    ''icebreaker'', ''icecream'', ''icicle'', ''icing'', ''icon'', ''icy'', ''id'', ''idea'', ''ideal'',
    ''identification'', ''identity'', ''ideology'', ''idiom'', ''igloo'', ''ignorance'', ''ignorant'',
    ''illegal'', ''illiteracy'', ''illness'', ''illusion'', ''illustration'', ''image'', ''imagination'',
    ''imbalance'', ''imitation'', ''immortal'', ''impact'', ''impairment'', ''impala'', ''impediment'',
    ''implement'', ''implementation'', ''implication'', ''import'', ''importance'', ''impostor'',
    ''impress'', ''impression'', ''imprisonment'', ''impropriety'', ''improvement'', ''impudence'',
    ''impulse'', ''inability'']"

definition nouns_20 :: "string list" where
  "nouns_20 =
   [''inauguration'', ''inbox'', ''incandescence'', ''incarnation'', ''incense'', ''incentive'',
    ''inch'', ''incidence'', ''incident'', ''incision'', ''inclusion'', ''income'', ''incompetence'',
    ''inconvenience'', ''increase'', ''incubation'', ''independence'', ''independent'', ''index'',
    ''indication'', ''indicator'', ''indigence'', ''individual'', ''industry'', ''inequality'',
    ''inevitable'', ''infancy'', ''infant'', ''infection'', ''infiltration'', ''infinite'', ''infix'',
    ''inflammation'', ''inflation'', ''influence'', ''influx'', ''info'', ''information'',
    ''infrastructure'', ''infusion'', ''ingrate'', ''ingredient'', ''inhabitant'', ''inheritance'',
    ''inhibition'', ''inhibitor'', ''initial'', ''initialise'', ''initialize'', ''initiative'',
    ''injunction'', ''injury'', ''injustice'', ''ink'', ''inlay'', ''inn'', ''innervation'',
    ''innocence'', ''innocent'', ''innovation'', ''input'', ''inquiry'', ''inscription'', ''insect'',
    ''insert'', ''inside'', ''insight'', ''insolence'', ''insomnia'', ''inspection'', ''inspector'',
    ''inspiration'', ''installation'', ''instance'', ''instant'', ''instinct'', ''institute'',
    ''institution'', ''instruction'', ''instructor'', ''instrument'', ''instrumentalist'',
    ''instrumentation'', ''insulation'', ''insurance'', ''insurgence'', ''insurrection'', ''integer'',
    ''integral'', ''integration'', ''integrity'', ''intellect'', ''intelligence'', ''intensity'',
    ''intent'', ''intention'', ''intentionality'', ''interaction'', ''interchange'', ''interest'',
    ''interface'', ''interior'', ''interject'', ''interloper'', ''internet'', ''interpretation'',
    ''interpreter'', ''interval'', ''intervenor'', ''intervention'', ''interview'', ''interviewer'',
    ''introduction'', ''intuition'', ''invader'', ''invasion'', ''invention'', ''inventor'',
    ''inventory'', ''inverse'', ''inversion'', ''investigation'', ''investigator'', ''investment'',
    ''investor'', ''invitation'', ''invite'', ''invoice'']"

definition nouns_21 :: "string list" where
  "nouns_21 =
   [''involvement'', ''iridescence'', ''iris'', ''iron'', ''ironclad'', ''irony'', ''irrigation'',
    ''island'', ''isolation'', ''issue'', ''item'', ''itinerary'', ''ivory'', ''jack'', ''jackal'',
    ''jacket'', ''jackfruit'', ''jade'', ''jaguar'', ''jail'', ''jailhouse'', ''jalapeno'', ''jam'',
    ''jar'', ''jasmine'', ''jaw'', ''jazz'', ''jealousy'', ''jeans'', ''jeep'', ''jelly'',
    ''jellybeans'', ''jellyfish'', ''jet'', ''jewel'', ''jeweller'', ''jewellery'', ''jewelry'',
    ''jicama'', ''jiffy'', ''job'', ''jockey'', ''joey'', ''jogging'', ''joke'', ''jot'', ''journal'',
    ''journalism'', ''journalist'', ''journey'', ''joy'', ''judge'', ''judgment'', ''judo'', ''jug'',
    ''juggernaut'', ''juice'', ''julienne'', ''jumbo'', ''jump'', ''jumper'', ''jumpsuit'', ''jungle'',
    ''junior'', ''junk'', ''junker'', ''junket'', ''jury'', ''justice'', ''jute'', ''kale'',
    ''kangaroo'', ''karate'', ''kayak'', ''kazoo'', ''kebab'', ''keep'', ''keeper'', ''kendo'',
    ''kennel'', ''ketch'', ''ketchup'', ''kettle'', ''kettledrum'', ''key'', ''keyboard'',
    ''keyboarding'', ''keystone'', ''kick'', ''kid'', ''kilogram'', ''kilometer'', ''kilt'', ''kimono'',
    ''kind'', ''kindness'', ''king'', ''kingdom'', ''kingfish'', ''kiosk'', ''kiss'', ''kit'',
    ''kitchen'', ''kite'', ''kitsch'', ''kitten'', ''kitty'', ''kiwi'', ''knee'', ''kneejerk'',
    ''knickers'', ''knife'', ''knight'', ''knitting'', ''knock'', ''knot'', ''knowledge'', ''knuckle'',
    ''koala'', ''kohlrabi'', ''kumquat'', ''lab'', ''label'', ''labor'', ''laboratory'', ''laborer'',
    ''labour'', ''labourer'']"

definition nouns_22 :: "string list" where
  "nouns_22 =
   [''lace'', ''lack'', ''lad'', ''ladder'', ''ladle'', ''lady'', ''ladybug'', ''lag'', ''lake'',
    ''lamb'', ''lambkin'', ''lament'', ''lamp'', ''lanai'', ''land'', ''landform'', ''landing'',
    ''landmine'', ''landscape'', ''lane'', ''language'', ''lantern'', ''lap'', ''lapdog'', ''laptop'',
    ''larch'', ''lard'', ''larder'', ''lark'', ''larva'', ''lasagna'', ''lashes'', ''last'', ''latency'',
    ''lathe'', ''latitude'', ''latte'', ''latter'', ''laugh'', ''laughter'', ''laundry'', ''lava'',
    ''law'', ''lawmaker'', ''lawn'', ''lawsuit'', ''lawyer'', ''lay'', ''layer'', ''layout'', ''lead'',
    ''leader'', ''leadership'', ''leading'', ''leaf'', ''league'', ''leaker'', ''leap'', ''learning'',
    ''leash'', ''leather'', ''leave'', ''leaver'', ''lecture'', ''leek'', ''leeway'', ''left'', ''leg'',
    ''legacy'', ''legal'', ''legend'', ''legging'', ''legislation'', ''legislator'', ''legislature'',
    ''legitimacy'', ''legume'', ''leisure'', ''lemon'', ''lemonade'', ''lemur'', ''lender'', ''lending'',
    ''length'', ''lens'', ''lentil'', ''leopard'', ''lesson'', ''letter'', ''lettuce'', ''level'',
    ''lever'', ''leverage'', ''leveret'', ''liability'', ''liar'', ''liberty'', ''library'', ''licence'',
    ''license'', ''licensing'', ''licorice'', ''lid'', ''lie'', ''lieu'', ''lieutenant'', ''life'',
    ''lifestyle'', ''lifetime'', ''lift'', ''ligand'', ''light'', ''lighting'', ''lightning'',
    ''lightscreen'', ''likelihood'', ''likeness'', ''lilac'', ''lily'', ''limb'', ''lime'',
    ''limestone'', ''limit'', ''limitation'', ''limo'', ''line'', ''linen'', ''liner'']"

definition nouns_23 :: "string list" where
  "nouns_23 =
   [''linguist'', ''linguistics'', ''lining'', ''link'', ''linkage'', ''linseed'', ''lion'', ''lip'',
    ''lipid'', ''lipstick'', ''liquid'', ''liquidity'', ''list'', ''listening'', ''listing'',
    ''literate'', ''literature'', ''litigation'', ''litmus'', ''litter'', ''littleneck'', ''livestock'',
    ''living'', ''lizard'', ''llama'', ''load'', ''loading'', ''loaf'', ''loafer'', ''loan'', ''lobby'',
    ''lobster'', ''local'', ''locality'', ''location'', ''lock'', ''locker'', ''locket'', ''locomotive'',
    ''locust'', ''lode'', ''loft'', ''log'', ''logic'', ''login'', ''logistics'', ''logo'', ''lollipop'',
    ''loneliness'', ''longboat'', ''longitude'', ''look'', ''lookout'', ''loop'', ''loophole'',
    ''loquat'', ''loss'', ''lot'', ''lotion'', ''lottery'', ''lounge'', ''louse'', ''lout'', ''love'',
    ''lox'', ''loyalty'', ''luck'', ''luggage'', ''lumber'', ''lumberman'', ''lunch'', ''luncheonette'',
    ''lunchmeat'', ''lunchroom'', ''lung'', ''lunge'', ''lute'', ''luxury'', ''lychee'', ''lycra'',
    ''lye'', ''lynx'', ''lyre'', ''lyrics'', ''lysine'', ''macadamia'', ''macaroni'', ''macaroon'',
    ''macaw'', ''machine'', ''machinery'', ''macrame'', ''macro'', ''macrofauna'', ''maelstrom'',
    ''maestro'', ''magazine'', ''magic'', ''magnet'', ''magnitude'', ''maid'', ''maiden'', ''mail'',
    ''mailbox'', ''mailer'', ''mailing'', ''mailman'', ''main'', ''mainland'', ''mainstream'',
    ''maintainer'', ''maintenance'', ''major'', ''majority'', ''makeover'', ''maker'', ''makeup'',
    ''making'', ''male'', ''malice'', ''mall'', ''mallard'', ''mallet'', ''mama'', ''mambo'',
    ''mammoth'', ''man'', ''manacle'']"

definition nouns_24 :: "string list" where
  "nouns_24 =
   [''management'', ''manager'', ''manatee'', ''mandarin'', ''mandate'', ''mandolin'', ''mangle'',
    ''mango'', ''mangrove'', ''manhunt'', ''maniac'', ''manicure'', ''manifestation'', ''manipulation'',
    ''manner'', ''manor'', ''mansard'', ''mansion'', ''mantel'', ''mantle'', ''mantua'',
    ''manufacturer'', ''manufacturing'', ''many'', ''map'', ''maple'', ''mapping'', ''maracas'',
    ''marathon'', ''marble'', ''march'', ''mare'', ''margarine'', ''margin'', ''mariachi'', ''marimba'',
    ''marines'', ''marionberry'', ''mark'', ''marker'', ''market'', ''marketer'', ''marketing'',
    ''marketplace'', ''marksman'', ''markup'', ''marmalade'', ''marriage'', ''marsh'', ''marshland'',
    ''marshmallow'', ''marten'', ''mascara'', ''mask'', ''masonry'', ''mass'', ''massage'', ''mast'',
    ''master'', ''masterpiece'', ''mastoid'', ''mat'', ''match'', ''matchmaker'', ''mate'', ''material'',
    ''maternity'', ''math'', ''mathematics'', ''matrix'', ''matter'', ''mattock'', ''mattress'', ''max'',
    ''maximum'', ''maybe'', ''mayonnaise'', ''mayor'', ''meadow'', ''meal'', ''mean'', ''meander'',
    ''meaning'', ''means'', ''meantime'', ''measure'', ''measurement'', ''meat'', ''meatball'',
    ''meatloaf'', ''mecca'', ''mechanic'', ''mechanism'', ''med'', ''medal'', ''media'', ''median'',
    ''medication'', ''medicine'', ''medium'', ''meet'', ''meeting'', ''melatonin'', ''melody'',
    ''melon'', ''member'', ''membership'', ''membrane'', ''meme'', ''memo'', ''memorial'', ''memory'',
    ''men'', ''mention'', ''mentor'', ''menu'', ''merchandise'', ''merchant'', ''mercury'', ''meridian'',
    ''meringue'', ''merit'', ''mess'', ''message'', ''messenger'', ''messy'', ''metabolite'', ''metal'']"

definition nouns_25 :: "string list" where
  "nouns_25 =
   [''metaphor'', ''meteor'', ''meteorology'', ''meter'', ''methane'', ''method'', ''methodology'',
    ''metric'', ''metro'', ''metronome'', ''mezzanine'', ''microlending'', ''microphone'', ''microwave'',
    ''midden'', ''middle'', ''middleman'', ''midline'', ''midnight'', ''midwife'', ''might'',
    ''migrant'', ''migration'', ''mile'', ''mileage'', ''milepost'', ''milestone'', ''military'',
    ''milk'', ''milkshake'', ''mill'', ''millennium'', ''millet'', ''millimeter'', ''million'',
    ''millisecond'', ''millstone'', ''mime'', ''mimosa'', ''min'', ''mincemeat'', ''mind'', ''mine'',
    ''mineral'', ''mineshaft'', ''mini'', ''minibus'', ''minimalism'', ''minimum'', ''mining'',
    ''minion'', ''minister'', ''mink'', ''minnow'', ''minor'', ''minority'', ''mint'', ''minute'',
    ''miracle'', ''mirror'', ''misfit'', ''misnomer'', ''misplacement'', ''misreading'', ''miss'',
    ''missile'', ''mission'', ''mist'', ''mistake'', ''mister'', ''misunderstand'', ''miter'',
    ''mitten'', ''mix'', ''mixer'', ''mixture'', ''moat'', ''mob'', ''mobile'', ''mobility'',
    ''moccasins'', ''mocha'', ''mochi'', ''mode'', ''model'', ''modeling'', ''modem'', ''modernist'',
    ''modernity'', ''modification'', ''molar'', ''molasses'', ''molding'', ''mole'', ''molecule'',
    ''mom'', ''moment'', ''money'', ''monger'', ''monitor'', ''monitoring'', ''monk'', ''monkey'',
    ''monocle'', ''monopoly'', ''monsoon'', ''monster'', ''month'', ''monument'', ''mood'', ''moody'',
    ''moon'', ''moonlight'', ''moonscape'', ''moonshine'', ''moose'', ''mop'', ''morale'', ''morning'',
    ''morsel'', ''mortal'', ''mortality'', ''mortgage'', ''mortise'', ''mosquito'', ''most'', ''motel'',
    ''moth'']"

definition nouns_26 :: "string list" where
  "nouns_26 =
   [''mother'', ''motion'', ''motivation'', ''motive'', ''motor'', ''motorboat'', ''motorcar'',
    ''motorcycle'', ''mound'', ''mountain'', ''mouse'', ''mouser'', ''mousse'', ''moustache'',
    ''mouton'', ''movement'', ''mover'', ''movie'', ''mower'', ''mozzarella'', ''mud'', ''muffin'',
    ''mug'', ''mukluk'', ''mule'', ''multimedia'', ''muscat'', ''muscle'', ''museum'', ''mushroom'',
    ''music'', ''musician'', ''muskrat'', ''mussel'', ''mustache'', ''mustard'', ''mutation'', ''mutt'',
    ''mutton'', ''mystery'', ''myth'', ''mythology'', ''nail'', ''name'', ''naming'', ''napkin'',
    ''narrative'', ''nasal'', ''nation'', ''nationality'', ''native'', ''nature'', ''navigation'',
    ''necessity'', ''necklace'', ''necktie'', ''nectar'', ''nectarine'', ''need'', ''needle'',
    ''neglect'', ''negotiation'', ''neighbor'', ''neighborhood'', ''neighbour'', ''neighbourhood'',
    ''neon'', ''neonate'', ''nephew'', ''nerve'', ''nest'', ''nestling'', ''nestmate'', ''net'',
    ''netball'', ''netbook'', ''network'', ''networking'', ''neuron'', ''news'', ''newsletter'',
    ''newspaper'', ''newsprint'', ''newsstand'', ''nexus'', ''nibble'', ''nicety'', ''niche'', ''nick'',
    ''nickel'', ''nickname'', ''niece'', ''night'', ''nightclub'', ''nightgown'', ''nightingale'',
    ''nightlife'', ''nightlight'', ''nightmare'', ''ninja'', ''nit'', ''nitrogen'', ''nobody'', ''nod'',
    ''node'', ''noir'', ''noise'', ''nonconformist'', ''nondisclosure'', ''nonsense'', ''noodle'',
    ''noodles'', ''noon'', ''norm'', ''normal'', ''normalisation'', ''normalization'', ''north'',
    ''nose'', ''notation'', ''note'', ''notebook'', ''notepad'', ''nothing'', ''notice'', ''notion'',
    ''notoriety'', ''nougat'']"

definition nouns_27 :: "string list" where
  "nouns_27 =
   [''noun'', ''nourishment'', ''novel'', ''nudge'', ''number'', ''numeracy'', ''numeric'', ''nurse'',
    ''nursery'', ''nursing'', ''nurture'', ''nut'', ''nutmeg'', ''nutrient'', ''nutrition'', ''nylon'',
    ''nymph'', ''oak'', ''oar'', ''oasis'', ''oat'', ''oatmeal'', ''oats'', ''obedience'', ''obi'',
    ''object'', ''objection'', ''objective'', ''obligation'', ''oboe'', ''observation'', ''observatory'',
    ''obsession'', ''obsidian'', ''obstacle'', ''occasion'', ''occupation'', ''occurrence'', ''ocean'',
    ''ocelot'', ''octagon'', ''octave'', ''octavo'', ''octet'', ''octopus'', ''odometer'', ''odyssey'',
    ''oeuvre'', ''offence'', ''offense'', ''offer'', ''offering'', ''office'', ''officer'', ''official'',
    ''offset'', ''oil'', ''okra'', ''oldie'', ''oleo'', ''olive'', ''omega'', ''omelet'', ''omission'',
    ''omnivore'', ''oncology'', ''onion'', ''online'', ''onset'', ''opening'', ''opera'', ''operating'',
    ''operation'', ''operator'', ''opinion'', ''opossum'', ''opponent'', ''opportunist'',
    ''opportunity'', ''opposite'', ''opposition'', ''optimal'', ''optimisation'', ''optimist'',
    ''optimization'', ''option'', ''orange'', ''orangutan'', ''orator'', ''orchard'', ''orchestra'',
    ''orchid'', ''order'', ''ordinary'', ''ordination'', ''ore'', ''oregano'', ''organ'',
    ''organisation'', ''organising'', ''organization'', ''organizing'', ''orient'', ''orientation'',
    ''origin'', ''original'', ''originality'', ''ornament'', ''osmosis'', ''osprey'', ''ostrich'',
    ''other'', ''otter'', ''ottoman'', ''ounce'', ''outback'', ''outcome'', ''outfielder'', ''outfit'',
    ''outhouse'', ''outlaw'', ''outlay'', ''outlet'', ''outline'', ''outlook'', ''output'', ''outrage'',
    ''outrigger'']"

definition nouns_28 :: "string list" where
  "nouns_28 =
   [''outrun'', ''outset'', ''outside'', ''oval'', ''oven'', ''overcharge'', ''overclocking'',
    ''overcoat'', ''overexertion'', ''overflight'', ''overhead'', ''overheard'', ''overload'',
    ''overnighter'', ''overshoot'', ''oversight'', ''overview'', ''owl'', ''owner'', ''ownership'',
    ''ox'', ''oxford'', ''oxygen'', ''oyster'', ''ozone'', ''pace'', ''pacemaker'', ''pack'',
    ''package'', ''packaging'', ''packet'', ''pad'', ''paddle'', ''paddock'', ''page'', ''pail'',
    ''pain'', ''paint'', ''painter'', ''painting'', ''paintwork'', ''pair'', ''pajamas'', ''palace'',
    ''palate'', ''palm'', ''pamphlet'', ''pan'', ''pancake'', ''pancreas'', ''panda'', ''panel'',
    ''panic'', ''pannier'', ''panpipe'', ''pansy'', ''panther'', ''pantry'', ''pants'', ''pantsuit'',
    ''pantyhose'', ''papa'', ''papaya'', ''paper'', ''paperback'', ''paperwork'', ''parable'',
    ''parachute'', ''parade'', ''paradise'', ''paragraph'', ''paramedic'', ''parameter'', ''paranoia'',
    ''parcel'', ''parchment'', ''pard'', ''pardon'', ''parent'', ''parenthesis'', ''parenting'',
    ''park'', ''parka'', ''parking'', ''parliament'', ''parole'', ''parrot'', ''parser'', ''parsley'',
    ''parsnip'', ''part'', ''participant'', ''participation'', ''particle'', ''particular'', ''partner'',
    ''partnership'', ''partridge'', ''party'', ''pass'', ''passage'', ''passbook'', ''passenger'',
    ''passing'', ''passion'', ''passive'', ''passport'', ''password'', ''past'', ''pasta'', ''paste'',
    ''pastry'', ''pasture'', ''pat'', ''patch'', ''pate'', ''patent'', ''patentee'', ''path'',
    ''pathology'', ''pathway'', ''patience'', ''patient'', ''patina'', ''patio'', ''patrimony'',
    ''patriot'', ''patrol'']"

definition nouns_29 :: "string list" where
  "nouns_29 =
   [''patroller'', ''patrolling'', ''patron'', ''pattern'', ''patty'', ''pattypan'', ''pause'',
    ''pavement'', ''pavilion'', ''paw'', ''pawnshop'', ''pay'', ''payee'', ''payment'', ''payoff'',
    ''pea'', ''peace'', ''peach'', ''peacoat'', ''peacock'', ''peak'', ''peanut'', ''pear'', ''pearl'',
    ''peasant'', ''pecan'', ''pedal'', ''peek'', ''peen'', ''peer'', ''pegboard'', ''pelican'', ''pelt'',
    ''pen'', ''penalty'', ''pence'', ''pencil'', ''pendant'', ''pendulum'', ''penguin'', ''penicillin'',
    ''peninsula'', ''pennant'', ''penny'', ''pension'', ''pentagon'', ''peony'', ''people'', ''pepper'',
    ''pepperoni'', ''percent'', ''percentage'', ''perception'', ''perch'', ''perennial'', ''perfection'',
    ''performance'', ''perfume'', ''period'', ''periodical'', ''peripheral'', ''permafrost'',
    ''permission'', ''permit'', ''persimmon'', ''person'', ''personal'', ''personality'', ''personnel'',
    ''perspective'', ''pest'', ''pet'', ''petal'', ''petition'', ''petitioner'', ''petticoat'', ''pew'',
    ''pharmacist'', ''phase'', ''pheasant'', ''phenomenon'', ''phenotype'', ''pheromone'',
    ''philanthropy'', ''philosopher'', ''philosophy'', ''phone'', ''phosphate'', ''photo'',
    ''photograph'', ''photographer'', ''photography'', ''phrase'', ''phrasing'', ''physical'',
    ''physics'', ''physiology'', ''pianist'', ''piano'', ''piccolo'', ''pick'', ''pickax'', ''pickaxe'',
    ''picket'', ''pickle'', ''pickup'', ''picnic'', ''picture'', ''picturesque'', ''pie'', ''piece'',
    ''pier'', ''piety'', ''pig'', ''pigeon'', ''piglet'', ''pigpen'', ''pigsty'', ''pike'', ''pilaf'',
    ''pile'', ''pilgrim'', ''pilgrimage'', ''pill'', ''pillar'', ''pillbox'', ''pillow'', ''pilot'']"

definition nouns_30 :: "string list" where
  "nouns_30 =
   [''pimple'', ''pin'', ''pinafore'', ''pine'', ''pineapple'', ''pinecone'', ''ping'', ''pink'',
    ''pinkie'', ''pinot'', ''pinstripe'', ''pint'', ''pinto'', ''pinworm'', ''pioneer'', ''pipe'',
    ''pipeline'', ''piracy'', ''pirate'', ''pistol'', ''pit'', ''pita'', ''pitch'', ''pitcher'',
    ''pitching'', ''pith'', ''pizza'', ''place'', ''placebo'', ''placement'', ''placode'',
    ''plagiarism'', ''plain'', ''plaintiff'', ''plan'', ''plane'', ''planet'', ''planning'', ''plant'',
    ''plantation'', ''planter'', ''planula'', ''plaster'', ''plasterboard'', ''plastic'', ''plate'',
    ''platelet'', ''platform'', ''platinum'', ''platter'', ''platypus'', ''play'', ''player'',
    ''playground'', ''playroom'', ''playwright'', ''plea'', ''pleasure'', ''pleat'', ''pledge'',
    ''plenty'', ''plier'', ''pliers'', ''plight'', ''plot'', ''plough'', ''plover'', ''plow'',
    ''plowman'', ''plug'', ''plugin'', ''plum'', ''plumber'', ''plume'', ''plunger'', ''plywood'',
    ''pneumonia'', ''pocket'', ''pocketbook'', ''pod'', ''podcast'', ''poem'', ''poet'', ''poetry'',
    ''poignance'', ''point'', ''poison'', ''poisoning'', ''poker'', ''pole'', ''polenta'', ''police'',
    ''policeman'', ''policy'', ''polish'', ''politician'', ''politics'', ''poll'', ''polliwog'',
    ''pollutant'', ''pollution'', ''polo'', ''polyester'', ''polyp'', ''pomegranate'', ''pomelo'',
    ''pompom'', ''poncho'', ''pond'', ''pony'', ''pool'', ''poor'', ''pop'', ''popcorn'', ''poppy'',
    ''popsicle'', ''popularity'', ''population'', ''populist'', ''porcelain'', ''porch'', ''porcupine'',
    ''pork'', ''porpoise'', ''port'', ''porter'', ''portfolio'', ''porthole'']"

definition nouns_31 :: "string list" where
  "nouns_31 =
   [''portion'', ''portrait'', ''position'', ''possession'', ''possibility'', ''possible'', ''post'',
    ''postage'', ''postbox'', ''poster'', ''postfix'', ''pot'', ''potato'', ''potential'', ''pottery'',
    ''pouch'', ''poultry'', ''pound'', ''pounding'', ''poverty'', ''powder'', ''power'', ''practice'',
    ''practitioner'', ''prairie'', ''praise'', ''precedence'', ''precedent'', ''precipitation'',
    ''precision'', ''predecessor'', ''preface'', ''preference'', ''prefix'', ''prejudice'', ''prelude'',
    ''premeditation'', ''premier'', ''premise'', ''premium'', ''preoccupation'', ''preparation'',
    ''prescription'', ''presence'', ''present'', ''presentation'', ''preservation'', ''preserves'',
    ''presidency'', ''president'', ''press'', ''pressroom'', ''pressure'', ''prestige'', ''presume'',
    ''pretzel'', ''prevalence'', ''prevention'', ''prey'', ''price'', ''pricing'', ''pride'',
    ''primary'', ''primate'', ''prince'', ''princess'', ''principal'', ''principle'', ''print'',
    ''printer'', ''printing'', ''prior'', ''priority'', ''prison'', ''prisoner'', ''privacy'',
    ''private'', ''privilege'', ''prize'', ''prizefight'', ''probability'', ''probation'', ''probe'',
    ''problem'', ''procedure'', ''proceedings'', ''process'', ''processing'', ''processor'', ''proctor'',
    ''procurement'', ''produce'', ''producer'', ''product'', ''production'', ''productivity'',
    ''profession'', ''professional'', ''professor'', ''profile'', ''profit'', ''progenitor'',
    ''program'', ''programme'', ''programming'', ''progress'', ''progression'', ''prohibition'',
    ''project'', ''promenade'', ''promise'', ''promotion'', ''prompt'', ''pronoun'', ''proof'',
    ''propaganda'', ''propane'', ''property'', ''prophet'', ''proponent'', ''proportion'', ''proposal'',
    ''proposition'', ''proprietor'', ''prose'', ''prosecution'', ''prosecutor'', ''prospect'']"

definition nouns_32 :: "string list" where
  "nouns_32 =
   [''prosperity'', ''prostanoid'', ''prostrate'', ''protection'', ''protein'', ''protest'',
    ''protocol'', ''providence'', ''provider'', ''province'', ''provision'', ''prow'', ''proximal'',
    ''proximity'', ''prune'', ''pruner'', ''psychology'', ''pub'', ''public'', ''publication'',
    ''publicity'', ''publisher'', ''publishing'', ''pudding'', ''puddle'', ''puffin'', ''pug'',
    ''puggle'', ''pulley'', ''pulse'', ''puma'', ''pump'', ''pumpernickel'', ''pumpkin'',
    ''pumpkinseed'', ''pun'', ''punch'', ''punctuation'', ''punishment'', ''pup'', ''pupa'', ''pupil'',
    ''puppet'', ''puppy'', ''purchase'', ''purity'', ''purple'', ''purpose'', ''purr'', ''purse'',
    ''pursuit'', ''push'', ''put'', ''puzzle'', ''pyramid'', ''quadrant'', ''quail'', ''qualification'',
    ''quality'', ''quantity'', ''quart'', ''quarter'', ''quartet'', ''quartz'', ''queen'', ''query'',
    ''quest'', ''question'', ''questioner'', ''questionnaire'', ''quiche'', ''quicksand'', ''quiet'',
    ''quill'', ''quilt'', ''quince'', ''quinoa'', ''quit'', ''quiver'', ''quota'', ''quotation'',
    ''quote'', ''rabbit'', ''raccoon'', ''race'', ''racer'', ''racing'', ''rack'', ''radar'',
    ''radiator'', ''radio'', ''radish'', ''raffle'', ''raft'', ''rag'', ''rage'', ''raid'', ''rail'',
    ''railing'', ''railroad'', ''railway'', ''raiment'', ''rain'', ''rainbow'', ''raincoat'',
    ''rainmaker'', ''rainstorm'', ''rainy'', ''raise'', ''raisin'', ''rake'', ''rally'', ''ram'',
    ''rambler'', ''ramen'', ''ramie'', ''ranch'', ''rancher'', ''range'', ''ranger'', ''rank'', ''rap'',
    ''raspberry'', ''rat'', ''rate'', ''ratepayer'', ''rating'', ''ratio'']"

definition nouns_33 :: "string list" where
  "nouns_33 =
   [''rationale'', ''rations'', ''raven'', ''ravioli'', ''rawhide'', ''ray'', ''rayon'', ''razor'',
    ''reach'', ''reactant'', ''reaction'', ''read'', ''reader'', ''readiness'', ''reading'', ''real'',
    ''reality'', ''realization'', ''realm'', ''reamer'', ''rear'', ''reason'', ''reasoning'', ''rebel'',
    ''rebellion'', ''reboot'', ''recall'', ''receipt'', ''receiver'', ''reception'', ''receptor'',
    ''recess'', ''recession'', ''recipe'', ''recipient'', ''reciprocity'', ''reclamation'', ''recliner'',
    ''recognition'', ''recollection'', ''record'', ''recorder'', ''recording'', ''recovery'',
    ''recreation'', ''recruit'', ''rectangle'', ''red'', ''redesign'', ''redirect'', ''rediscovery'',
    ''reduction'', ''reef'', ''refectory'', ''reference'', ''referendum'', ''reflection'', ''reform'',
    ''refreshments'', ''refrigerator'', ''refuge'', ''refund'', ''refusal'', ''refuse'', ''regard'',
    ''regime'', ''region'', ''regionalism'', ''register'', ''registration'', ''registry'', ''regret'',
    ''regulation'', ''regulator'', ''reindeer'', ''reject'', ''relation'', ''relationship'',
    ''relative'', ''relaxation'', ''relay'', ''release'', ''reliability'', ''relief'', ''religion'',
    ''relish'', ''reluctance'', ''remains'', ''remark'', ''reminder'', ''remnant'', ''remote'',
    ''removal'', ''renaissance'', ''rent'', ''reorganisation'', ''reorganization'', ''repair'',
    ''reparation'', ''repayment'', ''repeat'', ''replacement'', ''replica'', ''replication'', ''reply'',
    ''report'', ''reporter'', ''reporting'', ''repository'', ''representation'', ''representative'',
    ''reprocessing'', ''republic'', ''republican'', ''reputation'', ''request'', ''requirement'',
    ''resale'', ''rescue'', ''research'', ''researcher'', ''resemblance'', ''reservation'', ''reserve'',
    ''reservoir'', ''reset'', ''residence'', ''resident'']"

definition nouns_34 :: "string list" where
  "nouns_34 =
   [''residue'', ''resist'', ''resistance'', ''resolution'', ''resolve'', ''resort'', ''resource'',
    ''respect'', ''respite'', ''response'', ''responsibility'', ''rest'', ''restaurant'',
    ''restoration'', ''restriction'', ''restroom'', ''restructuring'', ''result'', ''resume'',
    ''retailer'', ''retention'', ''rethinking'', ''retina'', ''retirement'', ''retouching'', ''retreat'',
    ''retrospect'', ''retrospective'', ''return'', ''reunion'', ''reveal'', ''revelation'', ''revenant'',
    ''revenge'', ''revenue'', ''reversal'', ''reverse'', ''review'', ''revival'', ''revolution'',
    ''reward'', ''rhetoric'', ''rhinoceros'', ''rhubarb'', ''rhyme'', ''rhythm'', ''rib'', ''ribbon'',
    ''rice'', ''riddle'', ''ride'', ''rider'', ''ridge'', ''riding'', ''rifle'', ''right'', ''rim'',
    ''ring'', ''riot'', ''rip'', ''ripple'', ''rise'', ''riser'', ''risk'', ''rite'', ''ritual'',
    ''river'', ''riverbed'', ''rivulet'', ''road'', ''roadway'', ''roar'', ''roast'', ''robe'',
    ''robin'', ''robot'', ''robotics'', ''rock'', ''rocker'', ''rocket'', ''rod'', ''role'', ''roll'',
    ''roller'', ''romaine'', ''romance'', ''roof'', ''room'', ''roommate'', ''rooster'', ''root'',
    ''rope'', ''rose'', ''rosemary'', ''roster'', ''rostrum'', ''rotation'', ''round'', ''roundabout'',
    ''route'', ''router'', ''routine'', ''row'', ''rowboat'', ''rowing'', ''rubbish'', ''rubric'',
    ''ruby'', ''ruckus'', ''rudiment'', ''ruffle'', ''rug'', ''rugby'', ''ruin'', ''rule'', ''ruler'',
    ''ruling'', ''rum'', ''rumor'', ''run'', ''runaway'', ''runner'', ''running'', ''runway'', ''rush'',
    ''rust'', ''rutabaga'', ''rye'']"

definition nouns_35 :: "string list" where
  "nouns_35 =
   [''sabre'', ''sac'', ''sack'', ''saddle'', ''sadness'', ''safari'', ''safe'', ''safeguard'',
    ''safety'', ''saffron'', ''sage'', ''sail'', ''sailboat'', ''sailing'', ''sailor'', ''saint'',
    ''sake'', ''salad'', ''salami'', ''salary'', ''sale'', ''salesman'', ''salmon'', ''salon'',
    ''saloon'', ''salsa'', ''salt'', ''salute'', ''sample'', ''samurai'', ''sanction'', ''sanctity'',
    ''sanctuary'', ''sand'', ''sandal'', ''sandbar'', ''sandpaper'', ''sandwich'', ''sanity'',
    ''sardine'', ''sari'', ''sarong'', ''sash'', ''satellite'', ''satin'', ''satire'', ''satisfaction'',
    ''sauce'', ''saucer'', ''sauerkraut'', ''sausage'', ''savage'', ''savannah'', ''saving'',
    ''savings'', ''savior'', ''saviour'', ''savory'', ''saw'', ''saxophone'', ''scaffold'', ''scale'',
    ''scallion'', ''scallops'', ''scalp'', ''scam'', ''scanner'', ''scarecrow'', ''scarf'', ''scenario'',
    ''scene'', ''scenery'', ''scent'', ''schedule'', ''scheduling'', ''schema'', ''scheme'', ''scholar'',
    ''scholarship'', ''school'', ''schoolhouse'', ''schooner'', ''science'', ''scientist'', ''scimitar'',
    ''scissors'', ''scooter'', ''scope'', ''score'', ''scorn'', ''scorpion'', ''scotch'', ''scout'',
    ''scow'', ''scrambled'', ''scrap'', ''scraper'', ''scratch'', ''screamer'', ''screen'',
    ''screening'', ''screenwriting'', ''screwdriver'', ''scrim'', ''scrip'', ''script'', ''scrutiny'',
    ''sculpting'', ''sculptural'', ''sculpture'', ''sea'', ''seabass'', ''seafood'', ''seagull'',
    ''seal'', ''seaplane'', ''search'', ''seashore'', ''seaside'', ''season'', ''seat'', ''seaweed'',
    ''second'', ''secrecy'', ''secret'', ''secretariat'', ''secretary'', ''section'']"

definition nouns_36 :: "string list" where
  "nouns_36 =
   [''sectional'', ''sector'', ''security'', ''sediment'', ''seed'', ''seeder'', ''seeker'', ''seep'',
    ''segment'', ''seizure'', ''selection'', ''self'', ''seller'', ''selling'', ''semantics'',
    ''semester'', ''semicircle'', ''semicolon'', ''seminar'', ''senate'', ''senator'', ''sender'',
    ''senior'', ''sense'', ''sensibility'', ''sensitive'', ''sensitivity'', ''sensor'', ''sentence'',
    ''sentencing'', ''sentiment'', ''sepal'', ''separation'', ''sequel'', ''sequence'', ''serial'',
    ''series'', ''serum'', ''serval'', ''servant'', ''server'', ''service'', ''servitude'', ''sesame'',
    ''session'', ''set'', ''setback'', ''setting'', ''settlement'', ''settler'', ''severity'', ''sewer'',
    ''shack'', ''shackle'', ''shade'', ''shadow'', ''shadowbox'', ''shakedown'', ''shaker'', ''shallot'',
    ''shallows'', ''shame'', ''shampoo'', ''shanty'', ''shape'', ''share'', ''shareholder'', ''shark'',
    ''shaw'', ''shawl'', ''shear'', ''shearling'', ''sheath'', ''shed'', ''sheep'', ''sheet'', ''shelf'',
    ''shell'', ''shelter'', ''sherbet'', ''sherry'', ''shield'', ''shift'', ''shin'', ''shine'',
    ''shingle'', ''ship'', ''shipper'', ''shipping'', ''shipyard'', ''shirt'', ''shirtdress'', ''shoat'',
    ''shock'', ''shoe'', ''shoehorn'', ''shoelace'', ''shoemaker'', ''shoes'', ''shoestring'',
    ''shofar'', ''shoot'', ''shootdown'', ''shop'', ''shopper'', ''shopping'', ''shore'', ''shoreline'',
    ''short'', ''shortage'', ''shorts'', ''shortwave'', ''shot'', ''shoulder'', ''shout'', ''shovel'',
    ''show'', ''shower'', ''shred'', ''shrimp'', ''shrine'', ''shutdown'', ''sibling'', ''sick'',
    ''sickness'', ''side'', ''sideboard'', ''sideburns'']"

definition nouns_37 :: "string list" where
  "nouns_37 =
   [''sidecar'', ''sidestream'', ''sidewalk'', ''siding'', ''siege'', ''sigh'', ''sight'',
    ''sightseeing'', ''sign'', ''signal'', ''signature'', ''signet'', ''significance'', ''signify'',
    ''signup'', ''silence'', ''silica'', ''silicon'', ''silk'', ''silkworm'', ''sill'', ''silly'',
    ''silo'', ''silver'', ''similarity'', ''simple'', ''simplicity'', ''singer'', ''singing'',
    ''singular'', ''sink'', ''sinuosity'', ''sip'', ''sir'', ''sister'', ''sitar'', ''site'',
    ''situation'', ''size'', ''skate'', ''skating'', ''skean'', ''skeleton'', ''ski'', ''skiing'',
    ''skill'', ''skin'', ''skirt'', ''skull'', ''skullcap'', ''skunk'', ''sky'', ''skylight'',
    ''skyline'', ''skyscraper'', ''skywalk'', ''slang'', ''slapstick'', ''slash'', ''slate'', ''slaw'',
    ''sled'', ''sledge'', ''sleep'', ''sleepiness'', ''sleeping'', ''sleet'', ''sleuth'', ''slice'',
    ''slide'', ''slider'', ''slime'', ''slip'', ''slipper'', ''slippers'', ''slope'', ''slot'',
    ''sloth'', ''slump'', ''smell'', ''smelting'', ''smile'', ''smith'', ''smock'', ''smog'', ''smoke'',
    ''smoking'', ''smolt'', ''smuggling'', ''snack'', ''snail'', ''snake'', ''snakebite'', ''snap'',
    ''snarl'', ''sneaker'', ''sneakers'', ''sneeze'', ''sniffle'', ''snob'', ''snorer'', ''snow'',
    ''snowboarding'', ''snowflake'', ''snowman'', ''snowmobiling'', ''snowplow'', ''snowstorm'',
    ''snowsuit'', ''snuck'', ''snug'', ''snuggle'', ''soap'', ''soccer'', ''socialism'', ''socialist'',
    ''society'', ''sociology'', ''sock'', ''socks'', ''soda'', ''sofa'', ''softball'', ''softdrink'',
    ''softening'', ''software'', ''soil'', ''soldier'']"

definition nouns_38 :: "string list" where
  "nouns_38 =
   [''sole'', ''solicitation'', ''solicitor'', ''solidarity'', ''solidity'', ''soliloquy'',
    ''solitaire'', ''solution'', ''solvency'', ''sombrero'', ''somebody'', ''someone'', ''someplace'',
    ''somersault'', ''something'', ''somewhere'', ''son'', ''sonar'', ''sonata'', ''song'', ''songbird'',
    ''sonnet'', ''soot'', ''sophomore'', ''soprano'', ''sorbet'', ''sorghum'', ''sorrel'', ''sorrow'',
    ''sort'', ''soul'', ''soulmate'', ''sound'', ''soundness'', ''soup'', ''source'', ''sourwood'',
    ''sousaphone'', ''south'', ''southeast'', ''souvenir'', ''sow'', ''soy'', ''soybean'', ''space'',
    ''spacing'', ''spade'', ''spaghetti'', ''span'', ''spandex'', ''sparerib'', ''spark'', ''sparrow'',
    ''spasm'', ''spat'', ''spatula'', ''spawn'', ''speaker'', ''speakerphone'', ''speaking'', ''spear'',
    ''spec'', ''special'', ''specialist'', ''specialty'', ''species'', ''specification'', ''spectacle'',
    ''spectacles'', ''spectrum'', ''speculation'', ''speech'', ''speed'', ''speedboat'', ''spell'',
    ''spelling'', ''spelt'', ''spending'', ''sphere'', ''sphynx'', ''spice'', ''spider'', ''spiderling'',
    ''spike'', ''spill'', ''spinach'', ''spine'', ''spiral'', ''spirit'', ''spit'', ''spite'',
    ''spleen'', ''splendor'', ''split'', ''spokesman'', ''spokeswoman'', ''sponge'', ''sponsor'',
    ''sponsorship'', ''spool'', ''spoon'', ''spork'', ''sport'', ''sportsman'', ''spot'', ''spotlight'',
    ''spouse'', ''sprag'', ''sprat'', ''spray'', ''spread'', ''spreadsheet'', ''spree'', ''spring'',
    ''sprinkles'', ''sprinter'', ''sprout'', ''spruce'', ''spud'', ''spume'', ''spur'', ''spy'',
    ''spyglass'', ''square'', ''squash'', ''squatter'', ''squeegee'', ''squid'']"

definition nouns_39 :: "string list" where
  "nouns_39 =
   [''squirrel'', ''stab'', ''stability'', ''stable'', ''stack'', ''stacking'', ''stadium'', ''staff'',
    ''stag'', ''stage'', ''stain'', ''stair'', ''staircase'', ''stake'', ''stalk'', ''stall'',
    ''stallion'', ''stamen'', ''stamina'', ''stamp'', ''stance'', ''stand'', ''standard'', ''standing'',
    ''standoff'', ''standpoint'', ''star'', ''starboard'', ''start'', ''starter'', ''state'',
    ''statement'', ''statin'', ''station'', ''statistic'', ''statistics'', ''statue'', ''status'',
    ''statute'', ''stay'', ''steak'', ''stealth'', ''steam'', ''steamroller'', ''steel'', ''steeple'',
    ''stem'', ''stench'', ''stencil'', ''step'', ''stepdaughter'', ''stepmother'', ''stepson'',
    ''stereo'', ''stew'', ''steward'', ''stick'', ''sticker'', ''stiletto'', ''still'', ''stimulation'',
    ''stimulus'', ''sting'', ''stinger'', ''stitch'', ''stitcher'', ''stock'', ''stockings'', ''stole'',
    ''stomach'', ''stone'', ''stonework'', ''stool'', ''stop'', ''stopsign'', ''stopwatch'', ''storage'',
    ''store'', ''storey'', ''storm'', ''story'', ''storyboard'', ''stot'', ''stove'', ''strait'',
    ''strand'', ''stranger'', ''strap'', ''strategy'', ''straw'', ''strawberry'', ''strawman'',
    ''stream'', ''street'', ''streetcar'', ''strength'', ''stress'', ''stretch'', ''strife'', ''strike'',
    ''string'', ''strip'', ''stripe'', ''strobe'', ''stroke'', ''structure'', ''strudel'', ''struggle'',
    ''stucco'', ''student'', ''studio'', ''study'', ''stuff'', ''stumbling'', ''stump'', ''stupidity'',
    ''sturgeon'', ''sty'', ''style'', ''styling'', ''stylus'', ''sub'', ''subcomponent'',
    ''subconscious'', ''subcontractor'', ''subgroup'', ''subject'', ''submarine'']"

definition nouns_40 :: "string list" where
  "nouns_40 =
   [''submitter'', ''subprime'', ''subroutine'', ''subscription'', ''subsection'', ''subset'',
    ''subsidence'', ''subsidiary'', ''subsidy'', ''substance'', ''substitution'', ''subtitle'',
    ''suburb'', ''subway'', ''success'', ''succotash'', ''suede'', ''suet'', ''sugar'', ''suggestion'',
    ''suit'', ''suitcase'', ''suite'', ''sulfur'', ''sultan'', ''sum'', ''summary'', ''summer'',
    ''summit'', ''sun'', ''sunbeam'', ''sunbonnet'', ''sundae'', ''sunday'', ''sundial'', ''sunflower'',
    ''sunglasses'', ''sunlamp'', ''sunlight'', ''sunrise'', ''sunroom'', ''sunset'', ''sunshine'',
    ''superiority'', ''supermarket'', ''supernatural'', ''supervision'', ''supervisor'', ''supper'',
    ''supplement'', ''supplier'', ''supply'', ''support'', ''supporter'', ''suppression'', ''supreme'',
    ''surface'', ''surfboard'', ''surge'', ''surgeon'', ''surgery'', ''surname'', ''surplus'',
    ''surprise'', ''surround'', ''surroundings'', ''surrounds'', ''survey'', ''survival'', ''survivor'',
    ''sushi'', ''suspect'', ''suspenders'', ''suspension'', ''sustainment'', ''sustenance'', ''swallow'',
    ''swamp'', ''swan'', ''swanling'', ''swath'', ''sweat'', ''sweater'', ''sweatshirt'', ''sweatshop'',
    ''sweatsuit'', ''sweets'', ''swell'', ''swim'', ''swimming'', ''swimsuit'', ''swine'', ''swing'',
    ''switch'', ''switchboard'', ''switching'', ''swivel'', ''sword'', ''swordfight'', ''swordfish'',
    ''sycamore'', ''symbol'', ''symmetry'', ''sympathy'', ''symptom'', ''syndicate'', ''syndrome'',
    ''synergy'', ''synonym'', ''synthesis'', ''syrup'', ''system'', ''tab'', ''tabby'', ''tabernacle'',
    ''table'', ''tablecloth'', ''tablet'', ''tabletop'', ''tachometer'', ''tackle'', ''taco'',
    ''tactics'', ''tactile'', ''tadpole'', ''tag'', ''tail'', ''tailbud'']"

definition nouns_41 :: "string list" where
  "nouns_41 =
   [''tailor'', ''tailspin'', ''takeover'', ''tale'', ''talent'', ''talk'', ''talking'', ''tamale'',
    ''tambour'', ''tambourine'', ''tan'', ''tandem'', ''tangerine'', ''tank'', ''tanker'', ''tankful'',
    ''tap'', ''tape'', ''tapioca'', ''target'', ''taro'', ''tarragon'', ''tart'', ''task'', ''tassel'',
    ''taste'', ''tatami'', ''tattler'', ''tattoo'', ''tavern'', ''tax'', ''taxi'', ''taxicab'',
    ''taxpayer'', ''tea'', ''teacher'', ''teaching'', ''team'', ''teammate'', ''teapot'', ''tear'',
    ''tech'', ''technician'', ''technique'', ''technology'', ''tectonics'', ''teen'', ''teenager'',
    ''teepee'', ''telephone'', ''telescreen'', ''teletype'', ''television'', ''tell'', ''teller'',
    ''temp'', ''temper'', ''temperature'', ''tempo'', ''temporary'', ''temptation'', ''temptress'',
    ''tenant'', ''tendency'', ''tender'', ''tenement'', ''tenet'', ''tennis'', ''tenor'', ''tension'',
    ''tensor'', ''tent'', ''tentacle'', ''tenth'', ''tepee'', ''teriyaki'', ''term'', ''terminal'',
    ''termination'', ''terminology'', ''termite'', ''terrace'', ''terracotta'', ''terrapin'',
    ''terrarium'', ''territory'', ''test'', ''testament'', ''testimonial'', ''testimony'', ''testing'',
    ''text'', ''textbook'', ''textual'', ''texture'', ''thanks'', ''thaw'', ''theater'', ''theft'',
    ''theme'', ''theory'', ''therapist'', ''therapy'', ''thermals'', ''thermometer'', ''thermostat'',
    ''thesis'', ''thickness'', ''thief'', ''thigh'', ''thing'', ''thinking'', ''thirst'', ''thistle'',
    ''thorn'', ''thought'', ''thousand'', ''thread'', ''threat'', ''threshold'', ''thrift'', ''thrill'',
    ''throat'', ''throne'', ''thrust'', ''thug'', ''thumb'', ''thump'']"

definition nouns_42 :: "string list" where
  "nouns_42 =
   [''thunder'', ''thunderbolt'', ''thunderhead'', ''thunderstorm'', ''thyme'', ''tiara'', ''tic'',
    ''tick'', ''ticket'', ''tide'', ''tie'', ''tiger'', ''tights'', ''tile'', ''till'', ''tilt'',
    ''timbale'', ''timber'', ''time'', ''timeline'', ''timeout'', ''timer'', ''timetable'', ''timing'',
    ''timpani'', ''tin'', ''tinderbox'', ''tinkle'', ''tintype'', ''tip'', ''tire'', ''tissue'',
    ''titanium'', ''title'', ''toad'', ''toast'', ''toaster'', ''today'', ''toe'', ''toffee'', ''tofu'',
    ''tog'', ''toga'', ''toilet'', ''tolerance'', ''tolerant'', ''toll'', ''tomatillo'', ''tomato'',
    ''tomb'', ''tomography'', ''tomorrow'', ''ton'', ''tonality'', ''tone'', ''tongue'', ''tonic'',
    ''tonight'', ''tool'', ''toot'', ''tooth'', ''toothbrush'', ''toothpaste'', ''toothpick'', ''top'',
    ''topic'', ''topsail'', ''toque'', ''toreador'', ''tornado'', ''torso'', ''torte'', ''tortellini'',
    ''tortilla'', ''tortoise'', ''total'', ''tote'', ''touch'', ''tour'', ''tourism'', ''tourist'',
    ''tournament'', ''towel'', ''tower'', ''town'', ''townhouse'', ''township'', ''toy'', ''trace'',
    ''track'', ''tracking'', ''tracksuit'', ''tract'', ''tractor'', ''trade'', ''trader'', ''trading'',
    ''tradition'', ''traffic'', ''trafficker'', ''tragedy'', ''trail'', ''trailer'', ''trailpatrol'',
    ''train'', ''trainer'', ''training'', ''trait'', ''tram'', ''trance'', ''transaction'',
    ''transcript'', ''transfer'', ''transit'', ''transition'', ''translation'', ''transmission'',
    ''transom'', ''transparency'', ''transport'', ''trap'', ''trapdoor'', ''trash'', ''travel'',
    ''traveler'', ''tray'', ''treasure'', ''treasury'']"

definition nouns_43 :: "string list" where
  "nouns_43 =
   [''treat'', ''treatment'', ''treaty'', ''tree'', ''trek'', ''trellis'', ''tremor'', ''trench'',
    ''trend'', ''triad'', ''trial'', ''triangle'', ''tribe'', ''tributary'', ''trick'', ''trigger'',
    ''trigonometry'', ''trillion'', ''trim'', ''trinket'', ''trip'', ''tripod'', ''tritone'',
    ''triumph'', ''trolley'', ''trombone'', ''troop'', ''trooper'', ''trophy'', ''trouble'',
    ''trousers'', ''trout'', ''trove'', ''trowel'', ''truck'', ''trumpet'', ''trunk'', ''trust'',
    ''trustee'', ''truth'', ''try'', ''tsunami'', ''tub'', ''tuba'', ''tube'', ''tuber'', ''tug'',
    ''tugboat'', ''tuition'', ''tulip'', ''tumbler'', ''tummy'', ''tuna'', ''tune'', ''tunic'',
    ''tunnel'', ''turban'', ''turf'', ''turkey'', ''turmeric'', ''turn'', ''turning'', ''turnip'',
    ''turnover'', ''turnstile'', ''turret'', ''turtle'', ''tusk'', ''tussle'', ''tutu'', ''tuxedo'',
    ''tweet'', ''tweezers'', ''twig'', ''twilight'', ''twine'', ''twins'', ''twist'', ''twister'',
    ''twitter'', ''type'', ''typeface'', ''typewriter'', ''typhoon'', ''ukulele'', ''ultimatum'',
    ''umbrella'', ''unblinking'', ''uncertainty'', ''uncle'', ''underestimate'', ''underground'',
    ''underneath'', ''underpass'', ''understanding'', ''understatement'', ''undertaker'', ''underwear'',
    ''underweight'', ''underwire'', ''underwriting'', ''unemployment'', ''unibody'', ''uniform'',
    ''uniformity'', ''union'', ''unique'', ''unit'', ''unity'', ''universe'', ''university'', ''update'',
    ''upgrade'', ''uplift'', ''upper'', ''upstairs'', ''upward'', ''urge'', ''urgency'', ''urn'',
    ''usage'', ''use'', ''user'', ''usher'', ''usual'', ''utensil'', ''utilisation'', ''utility'']"

definition nouns_44 :: "string list" where
  "nouns_44 =
   [''utilization'', ''vacation'', ''vacuum'', ''vagrant'', ''valance'', ''valentine'', ''validate'',
    ''validity'', ''valley'', ''valuable'', ''value'', ''vampire'', ''van'', ''vane'', ''vanilla'',
    ''vanity'', ''variability'', ''variable'', ''variant'', ''variation'', ''variety'', ''vascular'',
    ''vase'', ''vault'', ''vaulting'', ''veal'', ''vector'', ''vegetable'', ''vegetarian'',
    ''vegetation'', ''vehicle'', ''veil'', ''vein'', ''veldt'', ''vellum'', ''velocity'', ''velodrome'',
    ''velvet'', ''vendor'', ''veneer'', ''vengeance'', ''venison'', ''venom'', ''venti'', ''venture'',
    ''venue'', ''veranda'', ''verb'', ''verdict'', ''verification'', ''vermicelli'', ''vernacular'',
    ''verse'', ''version'', ''vertigo'', ''verve'', ''vessel'', ''vest'', ''vestment'', ''vet'',
    ''veteran'', ''veterinarian'', ''veto'', ''viability'', ''vibe'', ''vibraphone'', ''vibration'',
    ''vibrissae'', ''vice'', ''vicinity'', ''victim'', ''victory'', ''video'', ''view'', ''viewer'',
    ''vignette'', ''villa'', ''village'', ''vine'', ''vinegar'', ''vineyard'', ''vintage'', ''vintner'',
    ''vinyl'', ''viola'', ''violet'', ''violin'', ''virtue'', ''virus'', ''visa'', ''viscose'', ''vise'',
    ''vision'', ''visit'', ''visitor'', ''visor'', ''vista'', ''visual'', ''vitality'', ''vitamin'',
    ''vitro'', ''vivo'', ''vixen'', ''vodka'', ''vogue'', ''voice'', ''void'', ''vol'', ''volatility'',
    ''volcano'', ''volleyball'', ''volume'', ''volunteer'', ''vote'', ''voter'', ''voting'', ''voyage'',
    ''vulture'', ''wad'', ''wafer'', ''waffle'', ''wage'', ''wagon'', ''waist'', ''waistband'', ''wait'',
    ''waiter'', ''waiting'']"

definition nouns_45 :: "string list" where
  "nouns_45 =
   [''waitress'', ''waiver'', ''wake'', ''walk'', ''walker'', ''walking'', ''walkway'', ''wall'',
    ''wallaby'', ''wallet'', ''walnut'', ''walrus'', ''wannabe'', ''want'', ''war'', ''warden'',
    ''wardrobe'', ''warlock'', ''warlord'', ''warming'', ''warmth'', ''warning'', ''warrant'',
    ''warren'', ''warrior'', ''wasabi'', ''wash'', ''washbasin'', ''washcloth'', ''washer'', ''washtub'',
    ''wasp'', ''waste'', ''wastebasket'', ''wasting'', ''watch'', ''watcher'', ''watchmaker'', ''water'',
    ''watercress'', ''waterfall'', ''waterfront'', ''watermelon'', ''waterskiing'', ''waterspout'',
    ''waterwheel'', ''wave'', ''waveform'', ''wax'', ''way'', ''weakness'', ''wealth'', ''weapon'',
    ''wear'', ''weasel'', ''weather'', ''web'', ''webinar'', ''webmail'', ''webpage'', ''website'',
    ''wedding'', ''wedge'', ''weeder'', ''weedkiller'', ''week'', ''weekend'', ''weekender'', ''weight'',
    ''weird'', ''welcome'', ''welfare'', ''well'', ''west'', ''western'', ''wetland'', ''wetsuit'',
    ''whack'', ''whale'', ''wharf'', ''wheat'', ''wheel'', ''whey'', ''whip'', ''whirlpool'',
    ''whirlwind'', ''whisker'', ''whiskey'', ''whisper'', ''whistle'', ''white'', ''whole'',
    ''wholesale'', ''wholesaler'', ''whorl'', ''wick'', ''widget'', ''widow'', ''width'', ''wife'',
    ''wifi'', ''wild'', ''wildebeest'', ''wilderness'', ''wildlife'', ''will'', ''willow'', ''win'',
    ''wind'', ''windage'', ''window'', ''windscreen'', ''windshield'', ''wine'', ''winery'', ''wing'',
    ''wingman'', ''wingtip'', ''wink'', ''winner'', ''winter'', ''wire'', ''wiretap'', ''wiring'',
    ''wisdom'', ''wiseguy'', ''wish'', ''wisteria'']"

definition nouns_46 :: "string list" where
  "nouns_46 =
   [''wit'', ''witch'', ''withdrawal'', ''witness'', ''wok'', ''wolf'', ''woman'', ''wombat'',
    ''wonder'', ''wont'', ''wood'', ''woodchuck'', ''woodland'', ''woodshed'', ''woodwind'', ''wool'',
    ''woolens'', ''word'', ''wording'', ''work'', ''workbench'', ''worker'', ''workforce'',
    ''workhorse'', ''working'', ''workout'', ''workplace'', ''workshop'', ''world'', ''worm'', ''worry'',
    ''worth'', ''wound'', ''wrap'', ''wraparound'', ''wrapper'', ''wrapping'', ''wreck'', ''wrecker'',
    ''wren'', ''wrench'', ''wrestler'', ''wriggler'', ''wrinkle'', ''wrist'', ''writer'', ''writing'',
    ''wrong'', ''xylophone'', ''yacht'', ''yahoo'', ''yak'', ''yam'', ''yang'', ''yard'', ''yarn'',
    ''yawl'', ''year'', ''yeast'', ''yellow'', ''yesterday'', ''yew'', ''yin'', ''yoga'', ''yogurt'',
    ''yoke'', ''yolk'', ''young'', ''youngster'', ''yourself'', ''youth'', ''yoyo'', ''yurt'', ''zebra'',
    ''zebrafish'', ''zen'', ''zephyr'', ''zero'', ''ziggurat'', ''zinc'', ''zipper'', ''zither'',
    ''zombie'', ''zone'', ''zoo'', ''zoologist'', ''zoology'', ''zucchini'']"

definition noun_slices :: "string list list" where
  "noun_slices =
     [nouns_00, nouns_01, nouns_02, nouns_03, nouns_04, nouns_05,
      nouns_06, nouns_07, nouns_08, nouns_09, nouns_10, nouns_11, nouns_12,
      nouns_13, nouns_14, nouns_15, nouns_16, nouns_17, nouns_18, nouns_19,
      nouns_20, nouns_21, nouns_22, nouns_23, nouns_24, nouns_25, nouns_26,
      nouns_27, nouns_28, nouns_29, nouns_30, nouns_31, nouns_32, nouns_33,
      nouns_34, nouns_35, nouns_36, nouns_37, nouns_38, nouns_39, nouns_40,
      nouns_41, nouns_42, nouns_43, nouns_44, nouns_45, nouns_46]"

definition nouns :: "string list" where
  "nouns = concat noun_slices"

definition get_noun :: "u16 \<Rightarrow> string option" where
  "get_noun index = arr_get nouns (unat (index AND 0xfff))"

end
