(* ===== verification/NounFacts.thy ===== *)
theory NounFacts
  imports Nouns
begin

text \<open>
  The words of the table ascend strictly and are spelled in letters. Hence \<open>get_noun\<close> never leaves the
  table, gives different words for different indices below 4096, and a word holds no space.
\<close>

lemmas noun_defs =
    nouns_00_def nouns_01_def nouns_02_def nouns_03_def nouns_04_def nouns_05_def
    nouns_06_def nouns_07_def nouns_08_def nouns_09_def nouns_10_def nouns_11_def
    nouns_12_def nouns_13_def nouns_14_def nouns_15_def nouns_16_def nouns_17_def
    nouns_18_def nouns_19_def nouns_20_def nouns_21_def nouns_22_def nouns_23_def
    nouns_24_def nouns_25_def nouns_26_def nouns_27_def nouns_28_def nouns_29_def
    nouns_30_def nouns_31_def nouns_32_def nouns_33_def nouns_34_def nouns_35_def
    nouns_36_def nouns_37_def nouns_38_def nouns_39_def nouns_40_def nouns_41_def
    nouns_42_def nouns_43_def nouns_44_def nouns_45_def nouns_46_def

section \<open>The order of words\<close>

fun char_bits :: "char \<Rightarrow> bool list" where
  "char_bits (Char a b c d e f g h) = [h, g, f, e, d, c, b, a]"

fun bits_less :: "bool list \<Rightarrow> bool list \<Rightarrow> bool" where
  "bits_less (False # xs) (False # ys) = bits_less xs ys"
| "bits_less (True # xs) (True # ys) = bits_less xs ys"
| "bits_less (False # xs) (True # ys) = True"
| "bits_less xs ys = False"

fun word_less :: "string \<Rightarrow> string \<Rightarrow> bool" where
  "word_less [] ys = (ys \<noteq> [])"
| "word_less (x # xs) [] = False"
| "word_less (x # xs) (y # ys) = (if x = y then word_less xs ys else bits_less (char_bits x) (char_bits y))"

fun ascending :: "string list \<Rightarrow> bool" where
  "ascending (x # y # zs) = (word_less x y \<and> ascending (y # zs))"
| "ascending xs = True"

fun letter :: "char \<Rightarrow> bool" where
  "letter (Char a b c d e f g h) = (g \<and> f)"

text \<open>Each slice ascends up to the first word of the next one.\<close>

fun slices_ascending :: "string list list \<Rightarrow> bool" where
  "slices_ascending (xs # ys # zs) = (ascending (xs @ take 1 ys) \<and> slices_ascending (ys # zs))"
| "slices_ascending [xs] = ascending xs"
| "slices_ascending [] = True"

lemma bits_less_irrefl: "\<not> bits_less xs xs"
  by (induction xs) (auto, metis bits_less.simps(1,2) )

lemma bits_less_trans: "bits_less xs ys \<Longrightarrow> bits_less ys zs \<Longrightarrow> bits_less xs zs"
proof (induction xs ys arbitrary: zs rule: bits_less.induct)
  case (1 xs ys)
  then show ?case by (cases zs) (auto split: bool.splits elim: bits_less.elims)
qed (auto elim: bits_less.elims)

section \<open>The table\<close>

lemma noun_slices_ascending: "slices_ascending noun_slices"
  unfolding noun_slices_def slices_ascending.simps by (intro conjI) (simp_all add: noun_defs)

lemma noun_slices_letters: "\<forall>ws \<in> set noun_slices. list_all (list_all letter) ws"
  unfolding noun_slices_def list.set ball_simps by (intro conjI) (simp_all add: noun_defs)

lemma noun_slices_length: "\<forall>ws \<in> set (butlast noun_slices). length ws = 128"
  unfolding noun_slices_def by (simp del: list.size) (intro conjI; simp add: noun_defs)

section \<open>The table as a whole\<close>

lemma bits_less_neq: "bits_less xs ys \<Longrightarrow> xs \<noteq> ys"
  using bits_less_irrefl by blast

lemma word_less_irrefl: "\<not> word_less xs xs"
  by (induction xs) auto

lemma word_less_trans: "word_less xs ys \<Longrightarrow> word_less ys zs \<Longrightarrow> word_less xs zs"
proof (induction xs ys arbitrary: zs rule: word_less.induct)
  case (1 ys)
  then show ?case by (cases ys; cases zs) auto
next
  case (3 x xs y ys)
  then obtain z zs' where z: "zs = z # zs'" by (cases zs) auto
  from 3 show ?case
    unfolding z by (auto split: if_splits dest: bits_less_trans simp: bits_less_irrefl)
qed simp

lemma ascending_Cons: "ascending (x # xs) \<longleftrightarrow> ascending xs \<and> (xs \<noteq> [] \<longrightarrow> word_less x (hd xs))"
  by (cases xs) auto

lemma ascending_less: "ascending (x # xs) \<Longrightarrow> y \<in> set xs \<Longrightarrow> word_less x y"
proof (induction xs arbitrary: x)
  case (Cons z zs)
  then have "word_less x z" "ascending (z # zs)" by simp_all
  with Cons show ?case using word_less_trans by auto
qed simp

lemma ascending_distinct: "ascending xs \<Longrightarrow> distinct xs"
proof (induction xs)
  case (Cons x xs)
  then show ?case using ascending_less [OF Cons.prems] word_less_irrefl by (auto simp: ascending_Cons)
qed simp

lemma ascending_append: "ascending (xs @ take 1 ys) \<Longrightarrow> ascending ys \<Longrightarrow> ascending (xs @ ys)"
  by (induction xs) (auto simp: ascending_Cons hd_append split: if_splits; cases ys; simp)+

lemma slices_ascending_concat: "slices_ascending ws \<Longrightarrow> [] \<notin> set ws \<Longrightarrow> ascending (concat ws)"
proof (induction ws rule: slices_ascending.induct)
  case (1 xs ys zs)
  then have "ascending (xs @ take 1 (concat (ys # zs)))" by (cases ys) auto
  with 1 show ?case by (simp add: ascending_append del: take_append)
qed auto

lemma nouns_distinct: "distinct nouns"
proof -
  have "[] \<notin> set noun_slices" by (simp add: noun_slices_def noun_defs)
  with noun_slices_ascending show ?thesis
    unfolding nouns_def by (intro ascending_distinct slices_ascending_concat)
qed

lemma nouns_letters: "s \<in> set nouns \<Longrightarrow> c \<in> set s \<Longrightarrow> letter c"
  using noun_slices_letters by (auto simp: nouns_def list_all_iff)

lemma length_nouns: "4096 \<le> length nouns"
proof -
  have "sum_list (map length (butlast noun_slices)) = sum_list (map (\<lambda>_. 128) (butlast noun_slices))"
    using noun_slices_length by (intro arg_cong [of _ _ sum_list] map_cong) auto
  also have "\<dots> = 46 * 128" by (simp add: sum_list_triv noun_slices_def)
  finally have l: "length (concat (butlast noun_slices)) = 46 * 128" by (simp add: length_concat)
  have "noun_slices = butlast noun_slices @ [last noun_slices]" by (simp add: noun_slices_def)
  then have "nouns = concat (butlast noun_slices) @ last noun_slices"
    unfolding nouns_def by (metis concat.simps(1,2) concat_append append_Nil2)
  then have "length nouns = 46 * 128 + length (last noun_slices)" using l by (metis length_append)
  then show ?thesis by simp
qed

lemma noun_index_less: "unat (index AND 0xfff :: u16) < 4096"
proof -
  have "index AND 0xfff = take_bit 12 index" by (simp add: take_bit_eq_mask mask_eq_exp_minus_1)
  then have "unat (index AND 0xfff) = take_bit 12 (unat index)" by (simp add: unsigned_take_bit_eq)
  then show ?thesis by (simp add: take_bit_eq_mod)
qed

lemma get_noun_eq: "get_noun index = Some (nouns ! unat (index AND 0xfff))"
  using noun_index_less [of index] length_nouns by (simp add: get_noun_def)

lemma get_noun_letters: "get_noun index = Some w \<Longrightarrow> c \<in> set w \<Longrightarrow> letter c"
  using noun_index_less [of index] length_nouns nouns_letters [of w c] by (auto simp: get_noun_eq)

lemma get_noun_inj: "get_noun i = get_noun j \<longleftrightarrow> i AND 0xfff = j AND 0xfff"
  using noun_index_less [of i] noun_index_less [of j] length_nouns nth_eq_iff_index_eq [OF nouns_distinct]
  by (simp add: get_noun_eq word_unat_eq_iff)

end
