(* ===== verification/Tracker.thy ===== *)
theory Tracker
  imports NounFacts Platform
begin

text \<open>
  \<open>voting/tracker.c\<close>: a ballot tracker, a digest of 32 bytes, shown as words and digits. Four bytes
  make one chunk of text: their first twelve bits choose a noun and the other twenty bits give five
  digits of an alphabet without look-alikes. A failed \<open>assert\<close> is the result \<open>None\<close>.
\<close>

definition chars :: string where
  "chars = ''2346789BCDFGHJKM''"

definition display_noun :: "u8 \<Rightarrow> u8 \<Rightarrow> string option" where
  "display_noun a b = get_noun (ucast a * 16 + ucast (drop_bit 4 b))"

definition chunk_len :: "u8 \<Rightarrow> u8 \<Rightarrow> u8 \<Rightarrow> u8 \<Rightarrow> nat option" where
  "chunk_len a b c d = do { noun \<leftarrow> display_noun a b; Some (length noun + 5 + 2) }"

text \<open>The buffer is written from the offset on; the result is the space used and the new buffer.\<close>

definition display_chunk ::
    "string \<Rightarrow> nat \<Rightarrow> u8 \<Rightarrow> u8 \<Rightarrow> u8 \<Rightarrow> u8 \<Rightarrow> (nat \<times> string) option" where
  "display_chunk out offset a b c d =
     do {
       noun \<leftarrow> display_noun a b;
       let space_used = length noun + 5 + 2;
       if \<not> space_used \<le> length out - offset then None
       else Some (space_used,
         splice out offset
           (noun @ [CHR '' '',
                    chars ! unat (b AND 0x0f),
                    chars ! unat (drop_bit 4 (c AND 0xf0)),
                    chars ! unat (c AND 0x0f),
                    chars ! unat (drop_bit 4 (d AND 0xf0)),
                    chars ! unat (d AND 0x0f),
                    CHR '' ''])) }"

text \<open>\<open>remaining > k ? bytes[i+k] : 0\<close>\<close>

definition byte_or_zero :: "u8 list \<Rightarrow> nat \<Rightarrow> u8" where
  "byte_or_zero bytes i = (if i < length bytes then bytes ! i else 0)"

definition on_bytes :: "u8 list \<Rightarrow> nat \<Rightarrow> (u8 \<Rightarrow> u8 \<Rightarrow> u8 \<Rightarrow> u8 \<Rightarrow> 'a) \<Rightarrow> 'a" where
  "on_bytes bytes i f =
     f (byte_or_zero bytes i) (byte_or_zero bytes (i + 1)) (byte_or_zero bytes (i + 2)) (byte_or_zero bytes (i + 3))"

definition display_ballot_tracker :: "env \<Rightarrow> u8 list \<Rightarrow> string option" where
  "display_ballot_tracker E bytes =
     do {
       let n = length bytes div 4;
       len \<leftarrow> loop n (\<lambda>k len. do { l \<leftarrow> on_bytes bytes (4 * k) chunk_len; Some (len + l) }) 0;
       len \<leftarrow> (if 4 * n < length bytes
              then do { l \<leftarrow> on_bytes bytes (4 * n) chunk_len; Some (len + l) } else Some len);
       blk \<leftarrow> malloc E len;
       let result = map (\<lambda>w. char_of (unat w)) blk;
       (cur_idx, result) \<leftarrow> loop n
         (\<lambda>k (cur_idx, result). do {
            (used, result) \<leftarrow> on_bytes bytes (4 * k) (display_chunk result cur_idx);
            Some (cur_idx + used, result) }) (0, result);
       (cur_idx, result) \<leftarrow>
         (if 4 * n < length bytes
          then do {
            (used, result) \<leftarrow> on_bytes bytes (4 * n) (display_chunk result cur_idx);
            Some (cur_idx + used, result) }
          else Some (cur_idx, result));
       if cur_idx \<noteq> len \<or> cur_idx = 0 then None
       else do {
         result \<leftarrow> arr_set result (cur_idx - 1) (CHR 0x00);
         Some (takeWhile (\<lambda>c. c \<noteq> CHR 0x00) result) } }"

section \<open>What is displayed\<close>

definition noun_of :: "u8 \<Rightarrow> u8 \<Rightarrow> string" where
  "noun_of a b = the (display_noun a b)"

definition digits_of :: "u8 \<Rightarrow> u8 \<Rightarrow> u8 \<Rightarrow> string" where
  "digits_of b c d =
     [chars ! unat (b AND 0x0f), chars ! unat (drop_bit 4 (c AND 0xf0)), chars ! unat (c AND 0x0f),
      chars ! unat (drop_bit 4 (d AND 0xf0)), chars ! unat (d AND 0x0f)]"

definition chunk_text :: "u8 \<Rightarrow> u8 \<Rightarrow> u8 \<Rightarrow> u8 \<Rightarrow> string" where
  "chunk_text a b c d = noun_of a b @ CHR '' '' # digits_of b c d @ [CHR '' '']"

definition tracker_text :: "u8 list \<Rightarrow> nat \<Rightarrow> string" where
  "tracker_text bytes n = concat (map (\<lambda>k. on_bytes bytes (4 * k) chunk_text) [0..<n])"

lemma display_noun_Some: "display_noun a b = Some (noun_of a b)"
  by (simp add: noun_of_def display_noun_def get_noun_eq)

lemma length_chunk_text: "length (chunk_text a b c d) = length (noun_of a b) + 7"
  by (simp add: chunk_text_def digits_of_def)

lemma chunk_len_eq: "chunk_len a b c d = Some (length (chunk_text a b c d))"
  by (simp add: chunk_len_def display_noun_Some length_chunk_text)

lemma display_chunk_eq:
  "length (chunk_text a b c d) \<le> length out - off \<Longrightarrow>
     display_chunk out off a b c d = Some (length (chunk_text a b c d), splice out off (chunk_text a b c d))"
  by (simp add: display_chunk_def display_noun_Some chunk_text_def digits_of_def)

lemma tracker_text_Suc: "tracker_text bytes (Suc n) = tracker_text bytes n @ on_bytes bytes (4 * n) chunk_text"
  by (simp add: tracker_text_def)

lemma len_loop:
  "loop n (\<lambda>k len. do { l \<leftarrow> on_bytes bytes (4 * k) chunk_len; Some (len + l) }) 0
     = Some (length (tracker_text bytes n))"
  by (induction n) (simp_all add: tracker_text_def on_bytes_def chunk_len_eq)

lemma fill_step:
  assumes "length (tracker_text bytes (Suc n)) \<le> length out"
  shows "on_bytes bytes (4 * n) (display_chunk (splice out 0 (tracker_text bytes n)) (length (tracker_text bytes n)))
    = Some (length (on_bytes bytes (4 * n) chunk_text), splice out 0 (tracker_text bytes (Suc n)))"
  using assms splice_splice [of 0 "tracker_text bytes n"]
  by (simp add: tracker_text_Suc on_bytes_def display_chunk_eq)

lemma fill_loop:
  assumes "length (tracker_text bytes n) \<le> length out"
  shows "loop n
         (\<lambda>k (cur_idx, result). do {
            (used, result) \<leftarrow> on_bytes bytes (4 * k) (display_chunk result cur_idx);
            Some (cur_idx + used, result) }) (0, out)
    = Some (length (tracker_text bytes n), splice out 0 (tracker_text bytes n))"
  using assms
proof (induction n)
  case (Suc n)
  then show ?case using fill_step [OF Suc.prems] by (simp add: tracker_text_Suc)
qed (simp add: tracker_text_def)

text \<open>How many chunks there are, the last one possibly filled up with zero bytes.\<close>

definition num_chunks :: "u8 list \<Rightarrow> nat" where
  "num_chunks bytes = (length bytes + 3) div 4"

lemma num_chunks_eq:
  "num_chunks bytes = (if 4 * (length bytes div 4) < length bytes then Suc (length bytes div 4) else length bytes div 4)"
  unfolding num_chunks_def by presburger

lemma chars_nth: "k < 16 \<Longrightarrow> chars ! k \<in> set chars"
  by (intro nth_mem) (simp add: chars_def)

lemma nibble_less: "unat (b AND 0x0f :: u8) < 16" "unat (drop_bit 4 b :: u8) < 16"
proof -
  have "b AND 0x0f = take_bit 4 b" by (simp add: take_bit_eq_mask mask_eq_exp_minus_1)
  then have "unat (b AND 0x0f) = take_bit 4 (unat b)" by (simp add: unsigned_take_bit_eq)
  then show "unat (b AND 0x0f :: u8) < 16" by (simp add: take_bit_eq_mod)
  have "unat (drop_bit 4 b) = drop_bit 4 (unat b)" by (simp add: unat_drop_bit_eq)
  then have "unat (drop_bit 4 b) = unat b div 16" by (simp add: drop_bit_eq_div)
  moreover have "unat b < 256" using unsigned_less [of b, where ?'a = nat] by simp
  ultimately show "unat (drop_bit 4 b :: u8) < 16" by simp
qed

lemma digits_chars: "c \<in> set (digits_of x y z) \<Longrightarrow> c \<in> set chars"
  using nibble_less chars_nth by (auto simp: digits_of_def)

lemma noun_letters: "c \<in> set (noun_of a b) \<Longrightarrow> letter c"
  using display_noun_Some [of a b] get_noun_letters by (simp add: display_noun_def)

lemma chunk_visible: "CHR 0x00 \<notin> set (chunk_text a b c d)"
  using noun_letters [of "CHR 0x00" a b] digits_chars [of "CHR 0x00" b c d] by (auto simp: chunk_text_def chars_def)

lemma tracker_visible: "CHR 0x00 \<notin> set (tracker_text bytes n)"
  using chunk_visible by (auto simp: tracker_text_def on_bytes_def)

lemma takeWhile_all: "(\<And>x. x \<in> set xs \<Longrightarrow> P x) \<Longrightarrow> \<not> P y \<Longrightarrow> takeWhile P (xs @ y # ys) = xs"
  by (induction xs) auto

lemma tracker_text_nonempty: "bytes \<noteq> [] \<Longrightarrow> tracker_text bytes (num_chunks bytes) \<noteq> []"
proof -
  assume "bytes \<noteq> []"
  then have "0 < num_chunks bytes" unfolding num_chunks_def by (cases bytes) auto
  then obtain n where "num_chunks bytes = Suc n" using gr0_conv_Suc by blast
  then show ?thesis by (simp add: tracker_text_Suc on_bytes_def chunk_text_def)
qed

text \<open>The chunks are shown one after the other, without the last space.\<close>

lemma display_ballot_tracker_eq:
  assumes "platform_mem E" "bytes \<noteq> []"
  shows "display_ballot_tracker E bytes = Some (butlast (tracker_text bytes (num_chunks bytes)))"
proof -
  let ?n = "length bytes div 4"
  let ?text = "tracker_text bytes (num_chunks bytes)"
  obtain blk where blk: "malloc E (length ?text) = Some blk"
    using platform_mem.malloc_ok [OF assms(1)] by blast
  define out where "out = map (\<lambda>w. char_of (unat w) :: char) blk"
  have len: "length out = length ?text"
    using platform.malloc_length [OF platform_mem.axioms(1) [OF assms(1)] blk] by (simp add: out_def)
  have whole: "(if 4 * ?n < length bytes
       then do { l \<leftarrow> on_bytes bytes (4 * ?n) chunk_len; Some (length (tracker_text bytes ?n) + l) }
       else Some (length (tracker_text bytes ?n))) = Some (length ?text)"
    by (simp add: num_chunks_eq tracker_text_Suc on_bytes_def chunk_len_eq)
  have le: "length (tracker_text bytes ?n) \<le> length out"
    unfolding len by (simp add: num_chunks_eq tracker_text_Suc)
  have rest: "(if 4 * ?n < length bytes
          then do {
            (used, result) \<leftarrow> on_bytes bytes (4 * ?n)
              (display_chunk (splice out 0 (tracker_text bytes ?n)) (length (tracker_text bytes ?n)));
            Some (length (tracker_text bytes ?n) + used, result) }
          else Some (length (tracker_text bytes ?n), splice out 0 (tracker_text bytes ?n)))
      = Some (length ?text, ?text)"
  proof (cases "4 * ?n < length bytes")
    case True
    then have m: "num_chunks bytes = Suc ?n" by (simp add: num_chunks_eq)
    with fill_step [of bytes ?n out] len True show ?thesis
      by (simp add: splice_full tracker_text_Suc)
  next
    case False
    then have m: "num_chunks bytes = ?n" by (simp add: num_chunks_eq)
    with len False show ?thesis by (simp add: splice_full)
  qed
  have ne: "?text \<noteq> []" using assms(2) by (rule tracker_text_nonempty)
  then have "?text[length ?text - 1 := CHR 0x00] = butlast ?text @ [CHR 0x00]"
    by (simp add: list_update_append butlast_conv_take upd_conv_take_nth_drop)
  moreover have "takeWhile (\<lambda>c. c \<noteq> CHR 0x00) (butlast ?text @ [CHR 0x00]) = butlast ?text"
    using tracker_visible [of bytes "num_chunks bytes"] by (intro takeWhile_all) (auto dest: in_set_butlastD)
  ultimately show ?thesis
    unfolding display_ballot_tracker_def Let_def len_loop bind.bind_lunit whole blk fill_loop [OF le, unfolded out_def]
      prod.case rest [unfolded out_def]
    using ne by simp
qed

section \<open>No two trackers look alike\<close>

lemma append_at_space:
  assumes "u @ CHR '' '' # r = v @ CHR '' '' # s" "CHR '' '' \<notin> set u" "CHR '' '' \<notin> set v"
  shows "u = v \<and> r = s"
  using assms
proof (induction u arbitrary: v)
  case Nil
  then show ?case by (cases v) auto
next
  case (Cons x u)
  then show ?case by (cases v) auto
qed

lemma noun_no_space: "CHR '' '' \<notin> set (noun_of a b)"
  using noun_letters [of "CHR '' ''" a b] by auto

lemma chunk_text_parse:
  assumes "chunk_text a b c d @ r = chunk_text a' b' c' d' @ s"
  shows "noun_of a b = noun_of a' b' \<and> digits_of b c d = digits_of b' c' d' \<and> r = s"
proof -
  have "noun_of a b @ CHR '' '' # (digits_of b c d @ CHR '' '' # r)
      = noun_of a' b' @ CHR '' '' # (digits_of b' c' d' @ CHR '' '' # s)"
    using assms by (simp add: chunk_text_def)
  then have "noun_of a b = noun_of a' b' \<and> digits_of b c d @ CHR '' '' # r = digits_of b' c' d' @ CHR '' '' # s"
    by (rule append_at_space [OF _ noun_no_space noun_no_space])
  then show ?thesis by (simp add: digits_of_def)
qed

lemma low_nibble: "unat (b AND 0x0f :: u8) = unat b mod 16"
proof -
  have "b AND 0x0f = take_bit 4 b" by (simp add: take_bit_eq_mask mask_eq_exp_minus_1)
  then have "unat (b AND 0x0f) = take_bit 4 (unat b)" by (simp add: unsigned_take_bit_eq)
  then show ?thesis by (simp add: take_bit_eq_mod)
qed

lemma high_nibble: "unat (drop_bit 4 b :: u8) = unat b div 16"
proof -
  have "unat (drop_bit 4 b) = drop_bit 4 (unat b)" by (simp add: unat_drop_bit_eq)
  then show ?thesis by (simp add: drop_bit_eq_div)
qed

lemma byte_less: "unat (b :: u8) < 256"
  using unsigned_less [of b, where ?'a = nat] by simp

lemma high_nibble_mask: "unat (drop_bit 4 (c AND 0xf0) :: u8) = unat c div 16"
proof -
  have "drop_bit 4 (c AND 0xf0) = drop_bit 4 c AND drop_bit 4 0xf0" by (rule drop_bit_and)
  moreover have "(drop_bit 4 0xf0 :: u8) = 0x0f" by simp
  ultimately have "drop_bit 4 (c AND 0xf0) = drop_bit 4 c AND 0x0f" by (simp only:)
  then show ?thesis using byte_less [of c] by (simp add: low_nibble high_nibble)
qed

lemma chars_inj: "i < 16 \<Longrightarrow> j < 16 \<Longrightarrow> chars ! i = chars ! j \<longleftrightarrow> i = j"
  by (intro nth_eq_iff_index_eq) (simp_all add: chars_def)

lemma digits_inj:
  "digits_of b c d = digits_of b' c' d' \<longleftrightarrow> unat b mod 16 = unat b' mod 16 \<and> c = c' \<and> d = d'"
proof -
  have half: "x div 16 = y div 16 \<and> x mod 16 = y mod 16 \<longleftrightarrow> x = y" for x y :: nat
    by (metis div_mult_mod_eq)
  have "unat x div 16 < 16" for x :: u8 using byte_less [of x] by simp
  then have "digits_of b c d = digits_of b' c' d' \<longleftrightarrow> unat b mod 16 = unat b' mod 16 \<and>
      (unat c div 16 = unat c' div 16 \<and> unat c mod 16 = unat c' mod 16) \<and>
      (unat d div 16 = unat d' div 16 \<and> unat d mod 16 = unat d' mod 16)"
    unfolding digits_of_def low_nibble high_nibble_mask by (simp add: chars_inj conj_ac)
  then show ?thesis by (simp add: half word_unat_eq_iff)
qed

lemma sixteens: "x < 16 \<Longrightarrow> y < 16 \<Longrightarrow> u * 16 + x = v * 16 + y \<longleftrightarrow> u = v \<and> x = y" for x y u v :: nat
  by presburger

lemma noun_inj: "noun_of a b = noun_of a' b' \<longleftrightarrow> a = a' \<and> unat b div 16 = unat b' div 16"
proof -
  let ?i = "\<lambda>a b. ucast a * 16 + ucast (drop_bit 4 b) :: u16"
  have u: "unat (ucast x :: u16) = unat x" for x :: u8
    using byte_less [of x] by (simp add: unsigned_ucast_eq take_bit_eq_mod)
  have i: "unat (?i a b AND 0xfff) = unat a * 16 + unat b div 16" for a b :: u8
  proof -
    have "unat (?i a b) = (unat a * 16 + unat b div 16) mod 65536"
      by (simp add: unat_word_ariths u high_nibble mod_simps)
    then have "unat (?i a b) = unat a * 16 + unat b div 16" using byte_less [of a] byte_less [of b] by simp
    moreover have "?i a b AND 0xfff = take_bit 12 (?i a b)" by (simp add: take_bit_eq_mask mask_eq_exp_minus_1)
    then have "unat (?i a b AND 0xfff) = take_bit 12 (unat (?i a b))" by (simp only: unsigned_take_bit_eq)
    then have "unat (?i a b AND 0xfff) = unat (?i a b) mod 4096" by (simp only: take_bit_eq_mod) simp
    ultimately show ?thesis using byte_less [of a] byte_less [of b] by simp
  qed
  have "noun_of a b = noun_of a' b' \<longleftrightarrow> get_noun (?i a b) = get_noun (?i a' b')"
    using display_noun_Some by (metis display_noun_def option.inject)
  also have "\<dots> \<longleftrightarrow> unat a * 16 + unat b div 16 = unat a' * 16 + unat b' div 16"
    unfolding get_noun_inj word_unat_eq_iff i ..
  also have "\<dots> \<longleftrightarrow> unat a = unat a' \<and> unat b div 16 = unat b' div 16"
    using byte_less [of b] byte_less [of b'] by (intro sixteens) simp_all
  finally show ?thesis by (simp add: word_unat_eq_iff)
qed

lemma chunk_text_inj:
  assumes "chunk_text a b c d @ r = chunk_text a' b' c' d' @ s"
  shows "a = a'" "b = b'" "c = c'" "d = d'" "r = s"
proof -
  from chunk_text_parse [OF assms] have p: "a = a'" "unat b div 16 = unat b' div 16" "unat b mod 16 = unat b' mod 16"
    "c = c'" "d = d'" "r = s"
    by (simp_all add: noun_inj digits_inj)
  show "a = a'" "c = c'" "d = d'" "r = s" by (rule p)+
  from p(2,3) have "unat b = unat b'" by (metis div_mult_mod_eq)
  then show "b = b'" by (simp add: word_unat_eq_iff)
qed

lemma tracker_text_inj:
  assumes "tracker_text bs n = tracker_text cs n" "k < n"
  shows "on_bytes bs (4 * k) (\<lambda>a b c d. (a, b, c, d)) = on_bytes cs (4 * k) (\<lambda>a b c d. (a, b, c, d))"
proof -
  have "concat (map (\<lambda>k. on_bytes bs (4 * k) chunk_text) ks) = concat (map (\<lambda>k. on_bytes cs (4 * k) chunk_text) ks) \<Longrightarrow>
    k \<in> set ks \<Longrightarrow> on_bytes bs (4 * k) (\<lambda>a b c d. (a, b, c, d)) = on_bytes cs (4 * k) (\<lambda>a b c d. (a, b, c, d))" for ks
  proof (induction ks)
    case (Cons j ks)
    note inj = chunk_text_inj [OF Cons.prems(1) [unfolded list.map concat.simps on_bytes_def]]
    show ?case
      using Cons.IH [OF inj(5) [folded on_bytes_def]] Cons.prems(2) inj(1-4) by (auto simp: on_bytes_def)
  qed simp
  from this [of "[0..<n]"] assms show ?thesis by (simp add: tracker_text_def)
qed

lemma tracker_bytes_inj:
  assumes "length bs = length cs" "tracker_text bs (num_chunks bs) = tracker_text cs (num_chunks bs)"
  shows "bs = cs"
proof (rule nth_equalityI [OF assms(1)])
  fix i assume i: "i < length bs"
  then have "i div 4 < num_chunks bs" unfolding num_chunks_def by presburger
  note eq = tracker_text_inj [OF assms(2) this]
  have "byte_or_zero bs (4 * (i div 4) + j) = byte_or_zero cs (4 * (i div 4) + j)" if "j < 4" for j
  proof -
    have "j = 0 \<or> j = 1 \<or> j = 2 \<or> j = 3" using that by presburger
    with eq show ?thesis by (elim disjE) (simp_all add: on_bytes_def)
  qed
  from this [of "i mod 4"] have "byte_or_zero bs i = byte_or_zero cs i" by simp
  then show "bs ! i = cs ! i" using i assms(1) by (simp add: byte_or_zero_def)
qed

end
