(* ===== verification/VotingEncrypter.thy ===== *)
theory VotingEncrypter
  imports Protocol
begin

text \<open>
  \<open>voting/encrypter.c\<close> and \<open>voting/messages.c\<close>. The encrypter is the structure behind the pointer
  \<open>Voting_Encrypter\<close>; the global \<open>_encrypted_ballot_count\<close> is an argument and a result. The random
  device is the list of bytes it will deliver. \<open>Voting_Encrypter_free\<close> has no effect in the model.
\<close>

section \<open>State\<close>

datatype Voting_Encrypter_status =
    VOTING_ENCRYPTER_SUCCESS
  | VOTING_ENCRYPTER_INSUFFICIENT_MEMORY
  | VOTING_ENCRYPTER_SERIALIZE_ERROR
  | VOTING_ENCRYPTER_DESERIALIZE_ERROR
  | VOTING_ENCRYPTER_IO_ERROR
  | VOTING_ENCRYPTER_SELECTION_ERROR
  | VOTING_ENCRYPTER_UNKNOWN_ERROR

record Voting_Encrypter =
  ve_uid :: "u8 list"
  ve_joint_key :: joint_public_key_rep
  ve_num_selections :: u32
  ve_base_hash :: hash
  ve_source :: random_source

definition Voting_Encrypter_RandomSource_status_convert :: "RandomSource_status \<Rightarrow> Voting_Encrypter_status" where
  "Voting_Encrypter_RandomSource_status_convert status =
     (case status of
        RANDOM_SOURCE_SUCCESS \<Rightarrow> VOTING_ENCRYPTER_SUCCESS
      | RANDOM_SOURCE_INSUFFICIENT_MEMORY \<Rightarrow> VOTING_ENCRYPTER_INSUFFICIENT_MEMORY
      | RANDOM_SOURCE_IO_ERROR \<Rightarrow> VOTING_ENCRYPTER_IO_ERROR)"

definition Voting_Encrypter_serialize_read_status_convert :: "serialize_status \<Rightarrow> Voting_Encrypter_status" where
  "Voting_Encrypter_serialize_read_status_convert status =
     (case status of
        SERIALIZE_STATE_READING \<Rightarrow> VOTING_ENCRYPTER_SUCCESS
      | SERIALIZE_STATE_INSUFFICIENT_MEMORY \<Rightarrow> VOTING_ENCRYPTER_INSUFFICIENT_MEMORY
      | SERIALIZE_STATE_BUFFER_TOO_SMALL \<Rightarrow> VOTING_ENCRYPTER_DESERIALIZE_ERROR
      | _ \<Rightarrow> VOTING_ENCRYPTER_UNKNOWN_ERROR)"

definition Voting_Encrypter_Crypto_status_convert :: "Crypto_status \<Rightarrow> Voting_Encrypter_status" where
  "Voting_Encrypter_Crypto_status_convert status =
     (case status of
        CRYPTO_SUCCESS \<Rightarrow> VOTING_ENCRYPTER_SUCCESS
      | CRYPTO_INSUFFICIENT_MEMORY \<Rightarrow> VOTING_ENCRYPTER_INSUFFICIENT_MEMORY
      | CRYPTO_IO_ERROR \<Rightarrow> VOTING_ENCRYPTER_IO_ERROR
      | _ \<Rightarrow> VOTING_ENCRYPTER_UNKNOWN_ERROR)"

text \<open>
  The structure is zeroed memory of 80 bytes. After a failure the code frees it and returns the
  dangling pointer with the status; the model returns no encrypter.
\<close>

definition Voting_Encrypter_new ::
    "env \<Rightarrow> params \<Rightarrow> random_source option \<Rightarrow> u8 list \<Rightarrow> message \<Rightarrow> u32 \<Rightarrow> raw_hash \<Rightarrow>
     (Voting_Encrypter_status \<times> Voting_Encrypter option) option" where
  "Voting_Encrypter_new E G dev uid key_message num base_hash =
     (case malloc E 80 of
        None \<Rightarrow> Some (VOTING_ENCRYPTER_INSUFFICIENT_MEMORY, None)
      | Some _ \<Rightarrow>
          case malloc E (length uid) of
            None \<Rightarrow> Some (VOTING_ENCRYPTER_INSUFFICIENT_MEMORY, None)
          | Some _ \<Rightarrow> do {
              (key, st) \<leftarrow> Serialize_read_joint_public_key E
                (Crypto_joint_public_key_init \<lparr>joint_num_trustees = 0, joint_key = 0\<rparr>) (message_reading key_message);
              let status = Voting_Encrypter_serialize_read_status_convert (ss_status st);
              if status \<noteq> VOTING_ENCRYPTER_SUCCESS then Some (status, None)
              else
                let (rs_status, rs) = RandomSource_new E dev;
                    status = Voting_Encrypter_RandomSource_status_convert rs_status
                in if status \<noteq> VOTING_ENCRYPTER_SUCCESS then Some (status, None)
                   else do {
                     source \<leftarrow> rs;
                     Some (status, Some \<lparr>ve_uid = uid, ve_joint_key = key, ve_num_selections = num,
                       ve_base_hash = Crypto_hash_reduce E G base_hash, ve_source = source\<rparr>) } })"

section \<open>Encrypting a ballot\<close>

definition Validate_selections :: "bool list \<Rightarrow> u32 \<Rightarrow> u32 \<Rightarrow> bool option" where
  "Validate_selections sels num expected_num_selected =
     do {
       count \<leftarrow> loop (unat num) (\<lambda>i count. do { s \<leftarrow> arr_get sels i; Some (if s then count + 1 else count) }) 0;
       Some (count = expected_num_selected) }"

text \<open>
  Freeing a ballot clears the first proof only, if there is an array of proofs; reading the fields of
  a ballot that was never initialised, and clearing the first of no proofs, is undefined behaviour.
\<close>

definition Crypto_encrypted_ballot_free :: "encrypted_ballot_rep option \<Rightarrow> unit option" where
  "Crypto_encrypted_ballot_free ballot =
     do {
       b \<leftarrow> ballot;
       if 0 < num_selections b \<and> selections b = None \<or> dis_proofs b = Some [] then None else Some () }"

text \<open>
  One selection: the state holds the selections, the proofs, the tally, the nonce, the aggregate
  nonce, the random source and the status.
\<close>

definition encrypt_selection ::
    "env \<Rightarrow> params \<Rightarrow> Voting_Encrypter \<Rightarrow> bool list \<Rightarrow> nat \<Rightarrow>
     encryption_rep list \<times> dis_proof_rep list \<times> encryption_rep \<times> int \<times> int \<times> random_source \<times> Voting_Encrypter_status \<Rightarrow>
     (encryption_rep list \<times> dis_proof_rep list \<times> encryption_rep \<times> int \<times> int \<times> random_source \<times> Voting_Encrypter_status) option" where
  "encrypt_selection E G encrypter sels i s =
     (case s of (encs, proofs, tally, nonce, aggregate_nonce, source, status) \<Rightarrow> do {
        selected \<leftarrow> arr_get sels i;
        let (enc, nonce, source) = Crypto_encrypt E G source (ve_joint_key encrypter)
              (if selected then generator G else bignum_one) nonce;
        encs \<leftarrow> arr_set encs i enc;
        let tally = Crypto_encryption_homomorphic_add E G tally enc;
        let aggregate_nonce = (if i = 0 then nonce else add_mod_q E G aggregate_nonce nonce);
        (proof, source) \<leftarrow> Crypto_generate_dis_proof E G source (ve_base_hash encrypter) selected
              (joint_key (ve_joint_key encrypter)) enc nonce;
        proofs \<leftarrow> arr_set proofs i proof;
        let ok = Crypto_check_dis_proof E G proof enc (ve_base_hash encrypter) (joint_key (ve_joint_key encrypter));
        Some (encs, proofs, tally, nonce, aggregate_nonce, source,
              if ok then status else VOTING_ENCRYPTER_UNKNOWN_ERROR) })"

text \<open>The message, and the encrypter after its random source has been used.\<close>

definition encrypt_message ::
    "env \<Rightarrow> params \<Rightarrow> Voting_Encrypter \<Rightarrow> bool list \<Rightarrow> u32 \<Rightarrow> encrypted_ballot_rep \<Rightarrow>
     (Voting_Encrypter_status \<times> message option \<times> encrypted_ballot_rep \<times> Voting_Encrypter) option" where
  "encrypt_message E G encrypter sels expected_num_selected ballot =
     do {
       encs \<leftarrow> selections ballot;
       proofs \<leftarrow> dis_proofs ballot;
       let pk = joint_key (ve_joint_key encrypter);
       (encs, proofs, tally, _, aggregate_nonce, source, status) \<leftarrow>
         loop (unat (ve_num_selections encrypter)) (encrypt_selection E G encrypter sels)
           (encs, proofs, Crypto_encryption_homomorphic_zero, 0, 0, ve_source encrypter, VOTING_ENCRYPTER_SUCCESS);
       (proof, source) \<leftarrow> Crypto_generate_aggregate_cp_proof E G source aggregate_nonce tally
         (ve_base_hash encrypter) pk;
       ok \<leftarrow> Crypto_check_aggregate_cp_proof E G proof tally (ve_base_hash encrypter) pk expected_num_selected;
       let status = (if ok then status else VOTING_ENCRYPTER_UNKNOWN_ERROR);
       let ballot = ballot\<lparr>selections := Some encs, dis_proofs := Some proofs, ballot_cp_proof := proof\<rparr>;
       out \<leftarrow> send E (Serialize_reserve_encrypted_ballot ballot) (Serialize_write_encrypted_ballot E ballot);
       Some (if out = None then VOTING_ENCRYPTER_SERIALIZE_ERROR else status, out, ballot,
             encrypter\<lparr>ve_source := source\<rparr>) }"

record encrypt_ballot_r =
  eb_status :: Voting_Encrypter_status
  eb_message :: "message option"
  eb_tracker :: "u8 list option"
  eb_id :: "message option"

text \<open>
  The ballot is a local that only a successful start initialises, but it is freed in every case. A
  field of the result that was not assigned is \<open>None\<close>. Without a selection there are no arrays to
  encrypt into.
\<close>

definition Voting_Encrypter_encrypt_ballot ::
    "env \<Rightarrow> params \<Rightarrow> string \<Rightarrow> bool list \<Rightarrow> u32 \<Rightarrow> Voting_Encrypter \<Rightarrow> u64 \<Rightarrow>
     (encrypt_ballot_r \<times> Voting_Encrypter \<times> u64) option" where
  "Voting_Encrypter_encrypt_ballot E G external_identifier sels expected_num_selected encrypter encrypted_ballot_count =
     do {
       let internal_ballot_id = encrypted_ballot_count;
       valid \<leftarrow> Validate_selections sels (ve_num_selections encrypter) expected_num_selected;
       let status = (if \<not> valid then VOTING_ENCRYPTER_SELECTION_ERROR else VOTING_ENCRYPTER_SUCCESS);
       (status, id) \<leftarrow>
         (if status \<noteq> VOTING_ENCRYPTER_SUCCESS then Some (status, None)
          else do {
            out \<leftarrow> send E Serialize_reserve_ballot_identifier
              (Serialize_write_ballot_identifier \<lparr>identifier_id = internal_ballot_id\<rparr>);
            Some (if out = None then VOTING_ENCRYPTER_SERIALIZE_ERROR else status, out) });
       (status, ballot) \<leftarrow>
         (if status \<noteq> VOTING_ENCRYPTER_SUCCESS then Some (status, None)
          else do {
            (st, b) \<leftarrow> Crypto_encrypted_ballot_new E (ve_num_selections encrypter) internal_ballot_id;
            Some (Voting_Encrypter_Crypto_status_convert st, Some b) });
       (status, msg, ballot, encrypter) \<leftarrow>
         (if status \<noteq> VOTING_ENCRYPTER_SUCCESS then Some (status, None, ballot, encrypter)
          else do {
            b \<leftarrow> ballot;
            (status, msg, b, encrypter) \<leftarrow> encrypt_message E G encrypter sels expected_num_selected b;
            Some (status, msg, Some b, encrypter) });
       _ \<leftarrow> Crypto_encrypted_ballot_free ballot;
       if status \<noteq> VOTING_ENCRYPTER_SUCCESS
       then Some (\<lparr>eb_status = status, eb_message = msg, eb_tracker = None, eb_id = id\<rparr>, encrypter, encrypted_ballot_count)
       else case malloc E SHA256_DIGEST_LENGTH of
         None \<Rightarrow> Some (\<lparr>eb_status = VOTING_ENCRYPTER_INSUFFICIENT_MEMORY, eb_message = msg, eb_tracker = None, eb_id = id\<rparr>,
                       encrypter, encrypted_ballot_count)
       | Some _ \<Rightarrow> do {
           m \<leftarrow> msg;
           bytes \<leftarrow> msg_bytes m;
           Some (\<lparr>eb_status = status, eb_message = msg, eb_tracker = Some (sha256 E (take (msg_len m) bytes)), eb_id = id\<rparr>,
                 encrypter, encrypted_ballot_count + 1) } }"

section \<open>Comparing two messages\<close>

text \<open>
  The results of the two readers are overwritten; a null array of selections is read when there is a
  selection to compare. The two local ballots are uninitialised, but the reader assigns all that is
  compared.
\<close>

definition Messages_are_equal :: "env \<Rightarrow> encrypted_ballot_rep \<Rightarrow> message \<Rightarrow> message \<Rightarrow> bool option" where
  "Messages_are_equal E fresh left_message right_message =
     do {
       (_, l) \<leftarrow> Serialize_deserialize_register_ballot_message E left_message fresh;
       (_, r) \<leftarrow> Serialize_deserialize_register_ballot_message E right_message fresh;
       let ok = (ballot_id l = ballot_id r \<and> num_selections l = num_selections r);
       if \<not> ok then Some ok
       else loop (unat (num_selections l))
         (\<lambda>i ok. if \<not> ok then Some ok
            else do {
              ls \<leftarrow> selections l; rs \<leftarrow> selections r;
              x \<leftarrow> arr_get ls i; y \<leftarrow> arr_get rs i;
              Some (nonce_encoding x = nonce_encoding y \<and> message_encoding x = message_encoding y) }) ok }"

end
