(* ===== verification/Files.thy ===== *)
theory Files
  imports Decimal
begin

text \<open>
  Files that are written and read at a position: streams opened for update. A file is the text before
  the position, an output stream, and the text behind it; writing replaces what is behind the
  position. \<open>read_file\<close> is a stream for reading with its position in the text. Of \<open>sscanf\<close> only \<open>%s\<close> is
  modelled.
\<close>

section \<open>Reading and writing\<close>

record rw_file =
  rw_before :: out_file
  rw_after :: string

definition rw_text :: "rw_file \<Rightarrow> string" where
  "rw_text f = out_text (rw_before f) @ rw_after f"

text \<open>A routine that writes to a stream, run at the position of the file.\<close>

definition at_position :: "(out_file \<Rightarrow> ('r \<times> out_file) option) \<Rightarrow> rw_file \<Rightarrow> ('r \<times> rw_file) option" where
  "at_position write f =
     do {
       (r, out) \<leftarrow> write (rw_before f);
       Some (r, f\<lparr>rw_before := out,
                  rw_after := drop (length (out_text out) - length (out_text (rw_before f))) (rw_after f)\<rparr>) }"

definition fseek_start :: "rw_file \<Rightarrow> rw_file" where
  "fseek_start f = f\<lparr>rw_before := (rw_before f)\<lparr>out_text := []\<rparr>, rw_after := rw_text f\<rparr>"

text \<open>Reading to the end with \<open>fgetc\<close>, counting the newlines.\<close>

definition count_newlines :: "rw_file \<Rightarrow> nat \<times> rw_file" where
  "count_newlines f =
     (length (filter (\<lambda>c. c = CHR 0x0A) (rw_after f)),
      f\<lparr>rw_before := (rw_before f)\<lparr>out_text := rw_text f\<rparr>, rw_after := []\<rparr>)"

section \<open>Reading only\<close>

record read_file =
  rd_text :: string
  rd_pos :: nat

definition rd_rest :: "read_file \<Rightarrow> string" where
  "rd_rest f = drop (rd_pos f) (rd_text f)"

text \<open>A scan that consumes a part of the input.\<close>

definition rd_consumed :: "read_file \<Rightarrow> string \<Rightarrow> read_file" where
  "rd_consumed f rest = f\<lparr>rd_pos := rd_pos f + (length (rd_rest f) - length rest)\<rparr>"

text \<open>\<open>fgets\<close>: at most \<open>n - 1\<close> characters, up to and with a newline; \<open>None\<close> at the end of the file.\<close>

fun line_prefix :: "nat \<Rightarrow> string \<Rightarrow> string" where
  "line_prefix 0 s = []"
| "line_prefix (Suc k) [] = []"
| "line_prefix (Suc k) (c # cs) = (if c = CHR 0x0A then [c] else c # line_prefix k cs)"

definition fgets :: "nat \<Rightarrow> read_file \<Rightarrow> string option \<times> read_file" where
  "fgets n f =
     (if rd_rest f = [] then (None, f)
      else let s = line_prefix (n - 1) (rd_rest f) in (Some s, f\<lparr>rd_pos := rd_pos f + length s\<rparr>))"

text \<open>\<open>sscanf(buffer, "%s", out)\<close>: the next word, or \<open>EOF\<close>. A buffer ends at its first null byte.\<close>

definition sscanf_s :: "string \<Rightarrow> int \<times> string" where
  "sscanf_s buffer =
     (let s = dropWhile is_space (takeWhile (\<lambda>c. c \<noteq> CHR 0x00) buffer)
      in if s = [] then (-1, []) else (1, takeWhile (\<lambda>c. \<not> is_space c) s))"

section \<open>Facts\<close>

lemma length_line_prefix: "length (line_prefix k s) \<le> k"
  by (induction k s rule: line_prefix.induct) auto

lemma line_prefix_prefix: "\<exists>t. s = line_prefix k s @ t"
  by (induction k s rule: line_prefix.induct) auto

lemma line_prefix_line:
  "CHR 0x0A \<notin> set s \<Longrightarrow> length s < k \<Longrightarrow> line_prefix k (s @ CHR 0x0A # t) = s @ [CHR 0x0A]"
proof (induction s arbitrary: k)
  case Nil
  then show ?case by (cases k) auto
next
  case (Cons c s)
  then show ?case by (cases k) auto
qed

end
