(* ===== verification/VotingCoordinator.thy ===== *)
theory VotingCoordinator
  imports BallotCollectionProofs Tracker VotingEncrypter Printing Files
begin

text \<open>
  \<open>voting/coordinator.c\<close>. There is one coordinator, a static singleton with a reference count, and the
  global ballot box; \<open>voting_state\<close> holds both, and every operation takes it and returns it. A handle
  is the singleton; using it when there is none (never created, or freed) is undefined behaviour.
  External identifiers are owned by the callers, which keep them unchanged.
\<close>

section \<open>State\<close>

definition MAX_EXTERNAL_ID_LENGTH :: nat where
  "MAX_EXTERNAL_ID_LENGTH = 4095"

definition MAX_BALLOTS :: nat where
  "MAX_BALLOTS = 10000"

definition MAX_BALLOT_PAYLOAD :: nat where
  "MAX_BALLOT_PAYLOAD = 2000"

datatype Voting_Coordinator_status =
    VOTING_COORDINATOR_SUCCESS
  | VOTING_COORDINATOR_INSUFFICIENT_MEMORY
  | VOTING_COORDINATOR_INVALID_BALLOT_ID
  | VOTING_COORDINATOR_INVALID_BALLOT
  | VOTING_COORDINATOR_UNREGISTERED_BALLOT
  | VOTING_COORDINATOR_DUPLICATE_BALLOT
  | VOTING_COORDINATOR_TIMED_OUT_BALLOT
  | VOTING_COORDINATOR_IO_ERROR
  | VOTING_COORDINATOR_SERIALIZE_ERROR
  | VOTING_COORDINATOR_DESERIALIZE_ERROR
  | VOTING_COORDINATOR_INVALID_BALLOT_INDEX
  | VOTING_COORDINATOR_END_OF_FILE
  | VOTING_COORDINATOR_ERROR_ALREADY_EXISTS
  | VOTING_COORDINATOR_INVALID_DATA

text \<open>A cell of the two buffers that holds a null pointer, or was never written, is \<open>None\<close>.\<close>

record Voting_Coordinator =
  vc_num_selections :: u32
  vc_registered_num_ballots :: u32
  vc_buffered_num_ballots :: u32
  vc_buffered_external_id :: "string option list"
  vc_selections :: "encryption_rep list option list"

record voting_state =
  vs_ref_count :: nat
  vs_coordinator :: "Voting_Coordinator option"
  vs_box :: ballot_box

section \<open>Creating and freeing\<close>

definition Voting_Coordinator_new ::
    "env \<Rightarrow> u32 \<Rightarrow> voting_state \<Rightarrow> Voting_Coordinator_status \<times> voting_state" where
  "Voting_Coordinator_new E num s =
     (case vs_coordinator s of
        Some c \<Rightarrow>
          if vc_num_selections c = num
          then (VOTING_COORDINATOR_SUCCESS, s\<lparr>vs_ref_count := vs_ref_count s + 1\<rparr>)
          else (VOTING_COORDINATOR_ERROR_ALREADY_EXISTS, s)
      | None \<Rightarrow>
          case malloc E 32016 of
            None \<Rightarrow> (VOTING_COORDINATOR_INSUFFICIENT_MEMORY, s)
          | Some _ \<Rightarrow>
              (VOTING_COORDINATOR_SUCCESS,
               s\<lparr>vs_coordinator := Some
                   \<lparr>vc_num_selections = num, vc_registered_num_ballots = 0, vc_buffered_num_ballots = 0,
                    vc_buffered_external_id = replicate MAX_BALLOT_PAYLOAD None,
                    vc_selections = replicate MAX_BALLOT_PAYLOAD None\<rparr>,
                 vs_ref_count := vs_ref_count s + 1\<rparr>))"

text \<open>The numbers are cleared, the arrays of selections and the identifiers are not freed.\<close>

definition Voting_Coordinator_clear_buffer ::
    "Voting_Coordinator \<Rightarrow> (Voting_Coordinator_status \<times> Voting_Coordinator) option" where
  "Voting_Coordinator_clear_buffer c =
     do {
       ids \<leftarrow> loop (unat (vc_buffered_num_ballots c))
         (\<lambda>i ids. do {
            sels \<leftarrow> arr_get (vc_selections c) i;
            _ \<leftarrow> (case sels of
                    None \<Rightarrow> Some ()
                  | Some es \<Rightarrow> loop (unat (vc_num_selections c)) (\<lambda>j _. do { _ \<leftarrow> arr_get es j; Some () }) ());
            arr_set ids i None }) (vc_buffered_external_id c);
       Some (VOTING_COORDINATOR_SUCCESS,
             c\<lparr>vc_buffered_external_id := ids, vc_buffered_num_ballots := 0\<rparr>) }"

definition Voting_Coordinator_free :: "voting_state \<Rightarrow> voting_state option" where
  "Voting_Coordinator_free s =
     (let s = s\<lparr>vs_ref_count := vs_ref_count s - 1\<rparr>
      in if 0 < vs_ref_count s then Some s
         else do {
           c \<leftarrow> vs_coordinator s;
           _ \<leftarrow> Voting_Coordinator_clear_buffer c;
           (_, b) \<leftarrow> Ballot_Collection_free (vs_box s);
           Some (s\<lparr>vs_coordinator := None, vs_box := b\<rparr>) })"

section \<open>Registering\<close>

text \<open>
  The table still holds the existing ballot when it is freed. \<open>fresh\<close> is the uninitialised local the
  message is read into. The result is the status, the tracker when the out parameter was assigned,
  and the state.
\<close>

definition Voting_Coordinator_register_ballot ::
    "env \<Rightarrow> encrypted_ballot_rep \<Rightarrow> string \<Rightarrow> message \<Rightarrow> voting_state \<Rightarrow>
     (Voting_Coordinator_status \<times> string option \<times> voting_state) option" where
  "Voting_Coordinator_register_ballot E fresh identifier msg s =
     do {
       (r, existing_ballot) \<leftarrow> Ballot_Collection_get_ballot identifier (vs_box s);
       if r = BALLOT_COLLECTION_SUCCESS then do {
         a \<leftarrow> existing_ballot;
         b \<leftarrow> free_elmt a (vs_box s);
         Some (VOTING_COORDINATOR_DUPLICATE_BALLOT, None, s\<lparr>vs_box := b\<rparr>) }
       else do {
       size \<leftarrow> Ballot_Collection_size (vs_box s);
       if MAX_BALLOTS \<le> unat size then Some (VOTING_COORDINATOR_INVALID_BALLOT_INDEX, None, s)
       else do {
       c \<leftarrow> vs_coordinator s;
       if MAX_BALLOT_PAYLOAD \<le> unat (vc_buffered_num_ballots c)
       then Some (VOTING_COORDINATOR_INSUFFICIENT_MEMORY, None, s)
       else do {
       (ok, rep) \<leftarrow> Serialize_deserialize_register_ballot_message E msg fresh;
       if \<not> ok then Some (VOTING_COORDINATOR_DESERIALIZE_ERROR, None, s)
       else if num_selections rep \<noteq> vc_num_selections c then Some (VOTING_COORDINATOR_INVALID_BALLOT, None, s)
       else case malloc E SHA256_DIGEST_LENGTH of
         None \<Rightarrow> Some (VOTING_COORDINATOR_INSUFFICIENT_MEMORY, None, s)
       | Some _ \<Rightarrow> do {
           bytes \<leftarrow> msg_bytes msg;
           track \<leftarrow> display_ballot_tracker E (sha256 E (take (msg_len msg) bytes));
           (r, b) \<leftarrow> Ballot_Collection_register_ballot E identifier track (vc_registered_num_ballots c) (vs_box s);
           if r \<noteq> BALLOT_COLLECTION_SUCCESS then Some (VOTING_COORDINATOR_IO_ERROR, Some track, s\<lparr>vs_box := b\<rparr>)
           else do {
             ids \<leftarrow> arr_set (vc_buffered_external_id c) (unat (vc_buffered_num_ballots c)) (Some identifier);
             sels \<leftarrow> arr_set (vc_selections c) (unat (vc_buffered_num_ballots c)) (selections rep);
             Some (VOTING_COORDINATOR_SUCCESS, Some track,
               s\<lparr>vs_box := b, vs_coordinator := Some (c\<lparr>vc_buffered_external_id := ids, vc_selections := sels,
                   vc_registered_num_ballots := vc_registered_num_ballots c + 1,
                   vc_buffered_num_ballots := vc_buffered_num_ballots c + 1\<rparr>)\<rparr>) } } } } } }"

section \<open>Casting and spoiling\<close>

definition Voting_Coordinator_assert_registered ::
    "string \<Rightarrow> voting_state \<Rightarrow> Voting_Coordinator_status option" where
  "Voting_Coordinator_assert_registered identifier s =
     do {
       (r, existing_ballot) \<leftarrow> Ballot_Collection_get_ballot identifier (vs_box s);
       if r \<noteq> BALLOT_COLLECTION_SUCCESS then Some VOTING_COORDINATOR_UNREGISTERED_BALLOT
       else do {
         a \<leftarrow> existing_ballot;
         e \<leftarrow> heap (vs_box s) a;
         Some (if bs_cast (elmt e) \<or> bs_spoiled (elmt e) then VOTING_COORDINATOR_DUPLICATE_BALLOT
               else VOTING_COORDINATOR_SUCCESS) } }"

definition Voting_Coordinator_cast_ballot ::
    "env \<Rightarrow> string \<Rightarrow> voting_state \<Rightarrow> (Voting_Coordinator_status \<times> string option \<times> voting_state) option" where
  "Voting_Coordinator_cast_ballot E identifier s =
     do {
       (result, track, b) \<leftarrow> Ballot_Collection_mark_cast E identifier (vs_box s);
       Some (if result = BALLOT_COLLECTION_SUCCESS then VOTING_COORDINATOR_SUCCESS
             else VOTING_COORDINATOR_INVALID_BALLOT, track, s\<lparr>vs_box := b\<rparr>) }"

definition Voting_Coordinator_spoil_ballot ::
    "env \<Rightarrow> string \<Rightarrow> voting_state \<Rightarrow> (Voting_Coordinator_status \<times> string option \<times> voting_state) option" where
  "Voting_Coordinator_spoil_ballot E identifier s =
     do {
       (result, track, b) \<leftarrow> Ballot_Collection_mark_spoiled E identifier (vs_box s);
       Some (if result = BALLOT_COLLECTION_SUCCESS then VOTING_COORDINATOR_SUCCESS
             else VOTING_COORDINATOR_INVALID_BALLOT, track, s\<lparr>vs_box := b\<rparr>) }"

text \<open>The string of the ballot, or a null pointer.\<close>

definition Voting_Coordinator_get_tracker :: "string \<Rightarrow> voting_state \<Rightarrow> string option option" where
  "Voting_Coordinator_get_tracker identifier s =
     do {
       (r, existing_ballot) \<leftarrow> Ballot_Collection_get_ballot identifier (vs_box s);
       if r \<noteq> BALLOT_COLLECTION_SUCCESS then Some None
       else do { a \<leftarrow> existing_ballot; e \<leftarrow> heap (vs_box s) a; Some (Some (bs_tracker (elmt e))) } }"

end
