(* ===== verification/VotingRecord.thy ===== *)
theory VotingRecord
  imports VotingCoordinator
begin

text \<open>
  The files of \<open>voting/coordinator.c\<close> and \<open>voting/encrypter.c\<close>: the record of the registered ballots that
  the trustees tally, and the lines of encrypted ballots that are imported again.
\<close>

section \<open>Writing the record\<close>

definition write_selection ::
    "env \<Rightarrow> encryption_rep list \<Rightarrow> nat \<Rightarrow> Voting_Coordinator_status \<times> out_file \<Rightarrow>
     (Voting_Coordinator_status \<times> out_file) option" where
  "write_selection E sels i s =
     (case s of (status, out) \<Rightarrow>
        if status \<noteq> VOTING_COORDINATOR_SUCCESS then Some s
        else
          let (r, out) = fprintf out [CHR 0x09] in
          if r < 1 then Some (VOTING_COORDINATOR_IO_ERROR, out)
          else do {
            e \<leftarrow> arr_get sels i;
            (ok, out) \<leftarrow> Crypto_encryption_fprint E out e;
            Some (if ok then status else VOTING_COORDINATOR_IO_ERROR, out) })"

definition Voting_Coordinator_write_ballot ::
    "env \<Rightarrow> u32 \<Rightarrow> bool \<Rightarrow> u32 \<Rightarrow> encryption_rep list option \<Rightarrow> out_file \<Rightarrow>
     (Voting_Coordinator_status \<times> out_file) option" where
  "Voting_Coordinator_write_ballot E index is_cast num sels out =
     do {
       let (io_status, out) = fprintf out (fmt_dec (of_bool is_cast) @ CHR 0x09 # fmt_dec (unat index));
       let status = (if io_status < 0 then VOTING_COORDINATOR_IO_ERROR else VOTING_COORDINATOR_SUCCESS);
       (status, out) \<leftarrow> loop (unat num)
         (\<lambda>i s. do {
            es \<leftarrow> (if fst s = VOTING_COORDINATOR_SUCCESS then sels else Some []);
            write_selection E es i s }) (status, out);
       Some (if status \<noteq> VOTING_COORDINATOR_SUCCESS then (status, out)
             else let (r, out) = fprintf out [CHR 0x0A]
                  in (if r < 0 then VOTING_COORDINATOR_IO_ERROR else status, out)) }"

definition Voting_Coordinator_write_ballots_file_header ::
    "Voting_Coordinator \<Rightarrow> out_file \<Rightarrow> Voting_Coordinator_status \<times> out_file" where
  "Voting_Coordinator_write_ballots_file_header c out =
     (let (io_status, out) = fprintf out (fmt_dec (unat (vc_registered_num_ballots c)) @ [CHR 0x0A]) in
      if io_status < 0 then (VOTING_COORDINATOR_IO_ERROR, out)
      else
        let (io_status, out) = fprintf out (fmt_dec (unat (vc_num_selections c)) @ [CHR 0x0A])
        in (if io_status < 0 then VOTING_COORDINATOR_IO_ERROR else VOTING_COORDINATOR_SUCCESS, out))"

text \<open>
  One buffered ballot: the state holds the status, the index to write next, the file, and whether the
  ballot was missing from the table, in which case the function has returned.
\<close>

definition export_ballot_step ::
    "env \<Rightarrow> ballot_box \<Rightarrow> Voting_Coordinator \<Rightarrow> nat \<Rightarrow>
     Voting_Coordinator_status \<times> u32 \<times> rw_file \<times> bool \<Rightarrow>
     (Voting_Coordinator_status \<times> u32 \<times> rw_file \<times> bool) option" where
  "export_ballot_step E b c i s =
     (case s of (status, index, file, returned) \<Rightarrow>
        if status \<noteq> VOTING_COORDINATOR_SUCCESS then Some s
        else do {
          cell \<leftarrow> arr_get (vc_buffered_external_id c) i;
          identifier \<leftarrow> cell;
          (r, found) \<leftarrow> Ballot_Collection_get_ballot identifier b;
          if r \<noteq> BALLOT_COLLECTION_SUCCESS
          then Some (VOTING_COORDINATOR_INVALID_BALLOT_ID, index, file, True)
          else do {
            a \<leftarrow> found;
            e \<leftarrow> heap b a;
            sels \<leftarrow> arr_get (vc_selections c) i;
            (status, file) \<leftarrow> at_position
              (Voting_Coordinator_write_ballot E index (bs_cast (elmt e)) (vc_num_selections c) sels) file;
            Some (status, index + 1, file, False) } })"

text \<open>
  The header is rewritten at the start of the file, and the new ballots are numbered by the lines that
  follow it. The status of the ballots is overwritten by that of clearing the buffer.
\<close>

definition Voting_Coordinator_export_buffered_ballots ::
    "env \<Rightarrow> voting_state \<Rightarrow> rw_file \<Rightarrow> (Voting_Coordinator_status \<times> rw_file \<times> voting_state) option" where
  "Voting_Coordinator_export_buffered_ballots E s file =
     do {
       c \<leftarrow> vs_coordinator s;
       let file = fseek_start file;
       (status, file) \<leftarrow> at_position (\<lambda>out. Some (Voting_Coordinator_write_ballots_file_header c out)) file;
       if status \<noteq> VOTING_COORDINATOR_SUCCESS then Some (status, file, s)
       else do {
         let (number_of_ballots_written, file) = count_newlines file;
         (status, _, file, returned) \<leftarrow> loop (unat (vc_buffered_num_ballots c)) (export_ballot_step E (vs_box s) c)
           (status, of_nat number_of_ballots_written, file, False);
         if returned then Some (status, file, s)
         else do {
           (status, c) \<leftarrow> Voting_Coordinator_clear_buffer c;
           Some (status, file, s\<lparr>vs_coordinator := Some c\<rparr>) } } }"

section \<open>Lines of encrypted ballots\<close>

text \<open>
  The local ballot starts uninitialised, but the reader assigns its number of selections in every case.
  When memory runs out the array of selections is null, and clearing its numbers at the end is undefined
  behaviour.
\<close>

definition write_encrypted_selection ::
    "env \<Rightarrow> encrypted_ballot_rep \<Rightarrow> nat \<Rightarrow> Voting_Encrypter_status \<times> out_file \<Rightarrow>
     (Voting_Encrypter_status \<times> out_file) option" where
  "write_encrypted_selection E rep i s =
     (case s of (status, out) \<Rightarrow>
        if status \<noteq> VOTING_ENCRYPTER_SUCCESS then Some s
        else
          let (r, out) = fprintf out [CHR 0x09] in
          if r < 1 then Some (VOTING_ENCRYPTER_IO_ERROR, out)
          else do {
            sels \<leftarrow> selections rep;
            e \<leftarrow> arr_get sels i;
            (ok, out) \<leftarrow> Crypto_encryption_fprint E out e;
            Some (if ok then status else VOTING_ENCRYPTER_IO_ERROR, out) })"

definition Voting_Encrypter_write_ballot ::
    "env \<Rightarrow> encrypted_ballot_rep \<Rightarrow> string \<Rightarrow> message \<Rightarrow> out_file \<Rightarrow>
     (Voting_Encrypter_status \<times> out_file) option" where
  "Voting_Encrypter_write_ballot E fresh identifier msg out =
     do {
       (rep, st) \<leftarrow> Serialize_read_encrypted_ballot E fresh (message_reading msg);
       let status = (if ss_status st \<noteq> SERIALIZE_STATE_READING then VOTING_ENCRYPTER_DESERIALIZE_ERROR
                     else VOTING_ENCRYPTER_SUCCESS);
       let (io_status, out) = fprintf out (identifier @ [CHR 0x09]);
       let status = (if io_status < 0 then VOTING_ENCRYPTER_IO_ERROR else status);
       (status, out) \<leftarrow> loop (unat (num_selections rep)) (write_encrypted_selection E rep) (status, out);
       let (status, out) =
         (if status \<noteq> VOTING_ENCRYPTER_SUCCESS then (status, out)
          else let (r, out) = fprintf out [CHR 0x0A]
               in (if r < 0 then VOTING_ENCRYPTER_IO_ERROR else status, out));
       if 0 < num_selections rep \<and> selections rep = None then None
       else Some (status, out) }"

section \<open>Reading them again\<close>

text \<open>The five reads of a selection; only the end of the file counts as a failed literal.\<close>

definition import_selection ::
    "env \<Rightarrow> nat \<Rightarrow> Voting_Coordinator_status \<times> string \<times> encryption_rep list \<Rightarrow>
     (Voting_Coordinator_status \<times> string \<times> encryption_rep list) option" where
  "import_selection E i s =
     (case s of (status, inp, sels) \<Rightarrow>
        if status \<noteq> VOTING_COORDINATOR_SUCCESS then Some s
        else do {
          e \<leftarrow> arr_get sels i;
          let (num_read, inp) = fscanf_lit ''('' (fscanf_space inp);
          let ok = (num_read = 0);
          let (ok, n, inp) = (if ok then mpz_t_fscan E inp (nonce_encoding e) else (ok, nonce_encoding e, inp));
          let (ok, inp) = (if ok then let (r, inp) = fscanf_lit '','' inp in (r = 0, inp) else (ok, inp));
          let (ok, m, inp) = (if ok then mpz_t_fscan E inp (message_encoding e) else (ok, message_encoding e, inp));
          let (ok, inp) = (if ok then let (r, inp) = fscanf_lit '')'' inp in (r = 0, inp) else (ok, inp));
          sels \<leftarrow> arr_set sels i \<lparr>nonce_encoding = n, message_encoding = m\<rparr>;
          Some (if ok then status else VOTING_COORDINATOR_IO_ERROR, inp, sels) })"

text \<open>
  A line is read into the buffer, once more when it only was the end of the last one; its first word is
  the identifier. The result is the status, the position of the line, the identifier and the file.
\<close>

definition blank_line :: "nat \<Rightarrow> nat \<Rightarrow> string \<Rightarrow> bool" where
  "blank_line pos_start pos_end buffer \<longleftrightarrow>
     pos_end - pos_start \<le> 2 \<and> (hd buffer = CHR 0x0A \<or> hd buffer = CHR 0x0D)"

definition read_line :: "read_file \<Rightarrow> (nat \<times> string) option \<times> read_file" where
  "read_line file =
     (case fgets MAX_EXTERNAL_ID_LENGTH file of
        (None, f) \<Rightarrow> (None, f)
      | (Some buffer, f) \<Rightarrow>
          if blank_line (rd_pos file) (rd_pos f) buffer
          then (case fgets MAX_EXTERNAL_ID_LENGTH f of
                  (None, f') \<Rightarrow> (None, f')
                | (Some buffer, f') \<Rightarrow> (Some (rd_pos f, buffer), f'))
          else (Some (rd_pos file, buffer), f))"

definition read_identifier ::
    "read_file \<Rightarrow> string option \<Rightarrow> (Voting_Coordinator_status \<times> string option \<times> read_file) option" where
  "read_identifier file out =
     (case read_line file of
        (None, file) \<Rightarrow> Some (VOTING_COORDINATOR_END_OF_FILE, out, file)
      | (Some (pos_start, buffer), file) \<Rightarrow>
          let (num_read, word) = sscanf_s buffer in
          if num_read < 0 then Some (VOTING_COORDINATOR_END_OF_FILE, out, file)
          else if out = None then None
          else
            let bytes_read = length word;
                (edge, file) = (if bytes_read = MAX_EXTERNAL_ID_LENGTH - 1 then fgets 2 file else (None, file))
            in case edge of
                 Some s \<Rightarrow>
                   if hd s \<noteq> CHR 0x09 then Some (VOTING_COORDINATOR_INVALID_DATA, Some word, file)
                   else Some (VOTING_COORDINATOR_SUCCESS, Some word, file\<lparr>rd_pos := pos_start + bytes_read + 1\<rparr>)
               | None \<Rightarrow> Some (VOTING_COORDINATOR_SUCCESS, Some word, file\<lparr>rd_pos := pos_start + bytes_read + 1\<rparr>))"

definition Voting_Coordinator_read_ballot ::
    "env \<Rightarrow> u32 \<Rightarrow> string option \<Rightarrow> encryption_rep list \<Rightarrow> read_file \<Rightarrow>
     (Voting_Coordinator_status \<times> string option \<times> encryption_rep list \<times> read_file) option" where
  "Voting_Coordinator_read_ballot E num out sels file =
     (case malloc E MAX_EXTERNAL_ID_LENGTH of
        None \<Rightarrow> Some (VOTING_COORDINATOR_INSUFFICIENT_MEMORY, out, sels, file)
      | Some _ \<Rightarrow> do {
          (status, out, file) \<leftarrow> read_identifier file out;
          (status, inp, sels) \<leftarrow> loop (unat num) (import_selection E) (status, rd_rest file, sels);
          Some (status, out, sels, rd_consumed file inp) })"

text \<open>
  The state of the import: the status of loading, the status of serializing, the caller's two arrays
  and the file. A message goes to the cell at the position in the file where the import began plus
  its number. An array of no selections has no size, which is undefined behaviour.
\<close>

record import_state =
  im_load_status :: Voting_Coordinator_status
  im_external_identifiers :: "string option list"
  im_messages :: "message option list"
  im_file :: read_file

definition import_ballot_step ::
    "env \<Rightarrow> nat \<Rightarrow> u32 \<Rightarrow> nat \<Rightarrow> import_state \<Rightarrow> import_state option" where
  "import_ballot_step E start_index num i s =
     (if im_load_status s \<noteq> VOTING_COORDINATOR_SUCCESS then Some s
      else if num = 0 then None
      else do {
        let cell = (case malloc E MAX_EXTERNAL_ID_LENGTH of None \<Rightarrow> None | Some _ \<Rightarrow> Some '''');
        _ \<leftarrow> arr_get (im_external_identifiers s) i;
        (load_status, identifier, sels, file) \<leftarrow> Voting_Coordinator_read_ballot E num cell
          (replicate (unat num) Crypto_encryption_rep_new) (im_file s);
        ids \<leftarrow> arr_set (im_external_identifiers s) i identifier;
        let s = s\<lparr>im_load_status := load_status, im_external_identifiers := ids, im_file := file\<rparr>;
        if load_status \<noteq> VOTING_COORDINATOR_SUCCESS then Some s
        else do {
          (_, ballot) \<leftarrow> Crypto_encrypted_ballot_new E num (of_nat i);
          let ballot = ballot\<lparr>selections := Some sels\<rparr>;
          out \<leftarrow> send E (Serialize_reserve_encrypted_ballot ballot) (Serialize_write_encrypted_ballot E ballot);
          case out of
            None \<Rightarrow> Some s
          | Some m \<Rightarrow> do {
              ms \<leftarrow> arr_set (im_messages s) (start_index + i) (Some m);
              Some (s\<lparr>im_messages := ms\<rparr>) } } })"

text \<open>The last test is true of every status, so the status of loading is returned always.\<close>

definition Voting_Coordinator_import_encrypted_ballots ::
    "env \<Rightarrow> nat \<Rightarrow> nat \<Rightarrow> u32 \<Rightarrow> string option \<Rightarrow> string option list \<Rightarrow> message option list \<Rightarrow>
     (Voting_Coordinator_status \<times> import_state option) option" where
  "Voting_Coordinator_import_encrypted_ballots E start_index count num input ids ms =
     (case input of
        None \<Rightarrow> Some (VOTING_COORDINATOR_IO_ERROR, None)
      | Some txt \<Rightarrow> do {
          s \<leftarrow> loop count (import_ballot_step E start_index num)
            \<lparr>im_load_status = VOTING_COORDINATOR_SUCCESS, im_external_identifiers = ids, im_messages = ms,
             im_file = \<lparr>rd_text = txt, rd_pos = start_index\<rparr>\<rparr>;
          Some (im_load_status s, Some s) })"

end
