(* ===== verification/VotingProofs.thy ===== *)
theory VotingProofs
  imports VotingRecord
begin

text \<open>
  The coordinator's operations on a sound state: the invariant of the singleton and the ballot box, the
  phases of a ballot, and what is left behind by registering an identifier twice.
\<close>

section \<open>Invariant\<close>

text \<open>The buffered ballots are registered, and their selections are there.\<close>

definition buffered_ok :: "voting_state \<Rightarrow> Voting_Coordinator \<Rightarrow> bool" where
  "buffered_ok s c \<longleftrightarrow>
     length (vc_buffered_external_id c) = MAX_BALLOT_PAYLOAD \<and> length (vc_selections c) = MAX_BALLOT_PAYLOAD \<and>
     unat (vc_buffered_num_ballots c) \<le> MAX_BALLOT_PAYLOAD \<and>
     (\<forall>i < unat (vc_buffered_num_ballots c).
        (\<exists>k. vc_buffered_external_id c ! i = Some k \<and> short_key k \<and> k \<in> dom (box_map (vs_box s))) \<and>
        (\<exists>es. vc_selections c ! i = Some es \<and> length es = unat (vc_num_selections c)))"

definition voting_ok :: "voting_state \<Rightarrow> bool" where
  "voting_ok s \<longleftrightarrow> collection_ok (vs_box s) \<and> (\<forall>c. vs_coordinator s = Some c \<longrightarrow> buffered_ok s c)"

definition initial_voting :: voting_state where
  "initial_voting = \<lparr>vs_ref_count = 0, vs_coordinator = None, vs_box = empty_box\<rparr>"

lemma initial_voting_ok: "voting_ok initial_voting"
  by (simp add: initial_voting_def voting_ok_def)

section \<open>Phases of a ballot\<close>

datatype ballot_phase = Registered | Cast | Spoiled

definition phase :: "ballot_state \<Rightarrow> ballot_phase" where
  "phase st = (if bs_cast st then Cast else if bs_spoiled st then Spoiled else Registered)"

definition phases :: "voting_state \<Rightarrow> string \<Rightarrow> ballot_phase option" where
  "phases s k = map_option phase (box_map (vs_box s) k)"

datatype ballot_event = Register string message | CastIt string | SpoilIt string

primrec subject :: "ballot_event \<Rightarrow> string" where
  "subject (Register k m) = k"
| "subject (CastIt k) = k"
| "subject (SpoilIt k) = k"

text \<open>The specification: what an event asks of the phase and makes of it.\<close>

primrec enabled :: "ballot_event \<Rightarrow> ballot_phase option \<Rightarrow> bool" where
  "enabled (Register k m) p \<longleftrightarrow> p = None"
| "enabled (CastIt k) p \<longleftrightarrow> p = Some Registered"
| "enabled (SpoilIt k) p \<longleftrightarrow> p = Some Registered"

primrec becomes :: "ballot_event \<Rightarrow> ballot_phase" where
  "becomes (Register k m) = Registered"
| "becomes (CastIt k) = Cast"
| "becomes (SpoilIt k) = Spoiled"

text \<open>The coordinator's answer to an event.\<close>

primrec handle ::
    "env \<Rightarrow> encrypted_ballot_rep \<Rightarrow> ballot_event \<Rightarrow> voting_state \<Rightarrow>
     (Voting_Coordinator_status \<times> string option \<times> voting_state) option" where
  "handle E fresh (Register k m) s = Voting_Coordinator_register_ballot E fresh k m s"
| "handle E fresh (CastIt k) s = Voting_Coordinator_cast_ballot E k s"
| "handle E fresh (SpoilIt k) s = Voting_Coordinator_spoil_ballot E k s"

section \<open>Casting and spoiling\<close>

lemma dom_kept: "m' = m(k \<mapsto> x) \<Longrightarrow> dom m \<subseteq> dom m'"
  by auto

lemma buffered_ok_mono:
  "buffered_ok s c \<Longrightarrow> dom (box_map (vs_box s)) \<subseteq> dom (box_map (vs_box s')) \<Longrightarrow> buffered_ok s' c"
  unfolding buffered_ok_def by blast

text \<open>An update of the box, as the coordinator wraps it.\<close>

lemma update_phases:
  assumes "voting_ok s" "short_key k" "c \<noteq> sp"
    and "Ballot_Collection_update E k c sp (vs_box s) = Some (r, out, b)"
  shows "voting_ok (s\<lparr>vs_box := b\<rparr>)"
    and "r = BALLOT_COLLECTION_SUCCESS \<Longrightarrow> phases s k = Some Registered \<and>
      phases (s\<lparr>vs_box := b\<rparr>) = (phases s)(k \<mapsto> if c then Cast else Spoiled)"
    and "r \<noteq> BALLOT_COLLECTION_SUCCESS \<Longrightarrow> phases (s\<lparr>vs_box := b\<rparr>) = phases s"
proof -
  have ok: "collection_ok (vs_box s)" using assms(1) by (simp add: voting_ok_def)
  note u = update_correct [OF ok assms(2-4)]
  have same: "r \<noteq> BALLOT_COLLECTION_SUCCESS \<Longrightarrow> b = vs_box s" using u by simp
  then show "r \<noteq> BALLOT_COLLECTION_SUCCESS \<Longrightarrow> phases (s\<lparr>vs_box := b\<rparr>) = phases s"
    by (simp add: phases_def fun_eq_iff)
  show "r = BALLOT_COLLECTION_SUCCESS \<Longrightarrow> phases s k = Some Registered \<and>
      phases (s\<lparr>vs_box := b\<rparr>) = (phases s)(k \<mapsto> if c then Cast else Spoiled)"
  proof -
    assume r: "r = BALLOT_COLLECTION_SUCCESS"
    with u obtain st where "box_map (vs_box s) k = Some st" "\<not> bs_cast st" "\<not> bs_spoiled st"
      "box_map b = (box_map (vs_box s))(k \<mapsto> st\<lparr>bs_cast := c, bs_spoiled := sp\<rparr>)"
      by auto
    then show ?thesis using assms(3) by (auto simp: phases_def phase_def fun_eq_iff)
  qed
  have "dom (box_map (vs_box s)) \<subseteq> dom (box_map b)"
  proof (cases "r = BALLOT_COLLECTION_SUCCESS")
    case True
    with u show ?thesis by auto
  qed (use same in simp)
  then show "voting_ok (s\<lparr>vs_box := b\<rparr>)"
    using u assms(1) buffered_ok_mono [of s _ "s\<lparr>vs_box := b\<rparr>"] by (auto simp: voting_ok_def)
qed

section \<open>Registering\<close>

lemma read_selections_length:
  assumes "read_selections E n sels st = Some (sels', st')"
  shows "length sels' = length sels"
proof -
  have "length (fst (sels', st')) = length sels"
    using assms unfolding read_selections_def
    by (rule loop_invariant [where P = "\<lambda>_ (p :: encryption_rep list \<times> serialize_state). length (fst p) = length sels"])
      (auto simp: read_elem_def bind_eq_Some_conv arr_set_Some split: if_splits prod.splits)
  then show ?thesis by simp
qed

lemma read_ballot_shape:
  assumes "Serialize_deserialize_register_ballot_message E msg fresh = Some (True, rep)"
  shows "\<exists>es. selections rep = Some es \<and> length es = unat (num_selections rep)"
  using assms
  by (auto simp: Serialize_deserialize_register_ballot_message_def Serialize_read_encrypted_ballot_def
      bind_eq_Some_conv split: option.splits dest: read_selections_length)

text \<open>What a successful registration did.\<close>

lemma register_Some:
  assumes "voting_ok s" "short_key k" "k \<notin> dom (box_map (vs_box s))"
    and "Voting_Coordinator_register_ballot E fresh k msg s = Some (r, out, s')"
  shows "(r \<noteq> VOTING_COORDINATOR_SUCCESS \<and> s' = s) \<or>
    (\<exists>c c' rep es bytes track b. r = VOTING_COORDINATOR_SUCCESS \<and> out = Some track \<and> vs_coordinator s = Some c \<and>
       Serialize_deserialize_register_ballot_message E msg fresh = Some (True, rep) \<and>
       num_selections rep = vc_num_selections c \<and> selections rep = Some es \<and> length es = unat (vc_num_selections c) \<and>
       msg_bytes msg = Some bytes \<and>
       display_ballot_tracker E (sha256 E (take (msg_len msg) bytes)) = Some track \<and>
       collection_ok b \<and>
       box_map b = (box_map (vs_box s))(k \<mapsto> new_ballot k track (vc_registered_num_ballots c)) \<and>
       unat (vc_buffered_num_ballots c) < MAX_BALLOT_PAYLOAD \<and>
       c' = c\<lparr>vc_buffered_external_id := (vc_buffered_external_id c)[unat (vc_buffered_num_ballots c) := Some k],
              vc_selections := (vc_selections c)[unat (vc_buffered_num_ballots c) := Some es],
              vc_registered_num_ballots := vc_registered_num_ballots c + 1,
              vc_buffered_num_ballots := vc_buffered_num_ballots c + 1\<rparr> \<and>
       s' = s\<lparr>vs_box := b, vs_coordinator := Some c'\<rparr>)"
proof -
  have ok: "collection_ok (vs_box s)" "box_ok (vs_box s)" using assms(1) by (simp_all add: voting_ok_def collection_ok_def)
  have get: "Ballot_Collection_get_ballot k (vs_box s) = Some (BALLOT_COLLECTION_ERROR_NOT_FOUND, None)"
    using ok(2) assms(2) by (cases rule: get_ballot_cases) (use assms(3) in auto)
  note unfold = Voting_Coordinator_register_ballot_def get bind_eq_Some_conv
  show ?thesis
  proof (cases "r = VOTING_COORDINATOR_SUCCESS")
    case True
    then obtain c rep track b ids sels bytes where p: "vs_coordinator s = Some c"
      "\<not> MAX_BALLOT_PAYLOAD \<le> unat (vc_buffered_num_ballots c)"
      "Serialize_deserialize_register_ballot_message E msg fresh = Some (True, rep)"
      "num_selections rep = vc_num_selections c" "msg_bytes msg = Some bytes"
      "display_ballot_tracker E (sha256 E (take (msg_len msg) bytes)) = Some track"
      "Ballot_Collection_register_ballot E k track (vc_registered_num_ballots c) (vs_box s) = Some (BALLOT_COLLECTION_SUCCESS, b)"
      "arr_set (vc_buffered_external_id c) (unat (vc_buffered_num_ballots c)) (Some k) = Some ids"
      "arr_set (vc_selections c) (unat (vc_buffered_num_ballots c)) (selections rep) = Some sels"
      "out = Some track"
      "s' = s\<lparr>vs_box := b, vs_coordinator := Some (c\<lparr>vc_buffered_external_id := ids, vc_selections := sels,
                   vc_registered_num_ballots := vc_registered_num_ballots c + 1,
                   vc_buffered_num_ballots := vc_buffered_num_ballots c + 1\<rparr>)\<rparr>"
      using assms(4) by (auto simp: unfold split: if_splits option.splits)
    obtain es where es: "selections rep = Some es" "length es = unat (num_selections rep)"
      using read_ballot_shape [OF p(3)] by blast
    have n: "box_map (vs_box s) k = None" using assms(3) by (simp add: domIff)
    note b = register_ballot_correct [OF ok(1) assms(2) p(7)]
    then have "collection_ok b" "box_map b = (box_map (vs_box s))(k \<mapsto> new_ballot k track (vc_registered_num_ballots c))"
      using n by simp_all
    with p es True show ?thesis
      by (intro disjI2 exI [of _ c] exI [of _ rep] exI [of _ es] exI [of _ bytes] exI [of _ track] exI [of _ b] exI)
        (simp add: arr_set_Some)
  next
    case False
    have same: "b = vs_box s" if "Ballot_Collection_register_ballot E k t n (vs_box s) = Some (q, b)"
      "q \<noteq> BALLOT_COLLECTION_SUCCESS" for q b t n
      using register_ballot_correct [OF ok(1) assms(2) that(1)] that(2) by (auto split: option.splits)
    have "s' = s"
      using assms(4) False by (auto simp: unfold split: if_splits option.splits dest: same)
    with False show ?thesis by simp
  qed
qed

lemma register_ok:
  assumes "voting_ok s" "short_key k" "k \<notin> dom (box_map (vs_box s))"
    and "Voting_Coordinator_register_ballot E fresh k msg s = Some (r, out, s')"
  shows "voting_ok s'"
    and "phases s' = (if r = VOTING_COORDINATOR_SUCCESS then (phases s)(k \<mapsto> Registered) else phases s)"
proof -
  have "voting_ok s' \<and> phases s' = (if r = VOTING_COORDINATOR_SUCCESS then (phases s)(k \<mapsto> Registered) else phases s)"
    using register_Some [OF assms]
  proof (elim disjE exE conjE)
    fix c c' rep es bytes track b
    assume p: "r = VOTING_COORDINATOR_SUCCESS" "vs_coordinator s = Some c" "collection_ok b"
      "length es = unat (vc_num_selections c)"
      "box_map b = (box_map (vs_box s))(k \<mapsto> new_ballot k track (vc_registered_num_ballots c))"
      "unat (vc_buffered_num_ballots c) < MAX_BALLOT_PAYLOAD"
      "c' = c\<lparr>vc_buffered_external_id := (vc_buffered_external_id c)[unat (vc_buffered_num_ballots c) := Some k],
              vc_selections := (vc_selections c)[unat (vc_buffered_num_ballots c) := Some es],
              vc_registered_num_ballots := vc_registered_num_ballots c + 1,
              vc_buffered_num_ballots := vc_buffered_num_ballots c + 1\<rparr>"
      "s' = s\<lparr>vs_box := b, vs_coordinator := Some c'\<rparr>"
    have c: "buffered_ok s c" using assms(1) p(2) by (simp add: voting_ok_def)
    have n: "unat (vc_buffered_num_ballots c + 1) = Suc (unat (vc_buffered_num_ballots c))"
      using p(6) by (simp add: unat_word_ariths MAX_BALLOT_PAYLOAD_def)
    have "buffered_ok s' c'"
      unfolding buffered_ok_def using c p(4,6) assms(2)
      by (auto simp: p(5,7,8) n buffered_ok_def less_Suc_eq nth_list_update)
    moreover have "phases s' = (phases s)(k \<mapsto> Registered)"
      by (auto simp: phases_def p(5,8) phase_def new_ballot_def fun_eq_iff)
    ultimately show ?thesis using p(1,3,8) by (simp add: voting_ok_def)
  qed (use assms(1) in auto)
  then show "voting_ok s'"
    "phases s' = (if r = VOTING_COORDINATOR_SUCCESS then (phases s)(k \<mapsto> Registered) else phases s)"
    by blast+
qed

section \<open>Simulation\<close>

text \<open>Every event is answered with success only if the specification enables it, and has its effect.\<close>

lemma handle_simulates:
  assumes "voting_ok s" "short_key (subject e)" "\<And>k m. e = Register k m \<Longrightarrow> k \<notin> dom (box_map (vs_box s))"
    and "handle E fresh e s = Some (r, out, s')"
  shows "voting_ok s'"
    and "r = VOTING_COORDINATOR_SUCCESS \<Longrightarrow> enabled e (phases s (subject e)) \<and> phases s' = (phases s)(subject e \<mapsto> becomes e)"
    and "r \<noteq> VOTING_COORDINATOR_SUCCESS \<Longrightarrow> phases s' = phases s"
proof -
  have "voting_ok s' \<and>
     (r = VOTING_COORDINATOR_SUCCESS \<longrightarrow> enabled e (phases s (subject e)) \<and> phases s' = (phases s)(subject e \<mapsto> becomes e)) \<and>
     (r \<noteq> VOTING_COORDINATOR_SUCCESS \<longrightarrow> phases s' = phases s)"
  proof (cases e)
    case (Register k m)
    then have "k \<notin> dom (box_map (vs_box s))" using assms(3) by blast
    then show ?thesis
      using register_ok [OF assms(1) _ _ assms(4) [unfolded Register handle.simps]] assms(2) Register
      by (auto simp: phases_def domIff)
  next
    case (CastIt k)
    then show ?thesis
      using assms(2,4) update_phases [OF assms(1), of k True False]
      by (auto simp: Voting_Coordinator_cast_ballot_def Ballot_Collection_mark_cast_def bind_eq_Some_conv split: if_splits)
  next
    case (SpoilIt k)
    then show ?thesis
      using assms(2,4) update_phases [OF assms(1), of k False True]
      by (auto simp: Voting_Coordinator_spoil_ballot_def Ballot_Collection_mark_spoiled_def bind_eq_Some_conv split: if_splits)
  qed
  then show "voting_ok s'"
    "r = VOTING_COORDINATOR_SUCCESS \<Longrightarrow> enabled e (phases s (subject e)) \<and> phases s' = (phases s)(subject e \<mapsto> becomes e)"
    "r \<noteq> VOTING_COORDINATOR_SUCCESS \<Longrightarrow> phases s' = phases s"
    by blast+
qed

lemma voting_new_ok:
  assumes "voting_ok s" "Voting_Coordinator_new E n s = (r, s')"
  shows "voting_ok s'" "phases s' = phases s"
  using assms
  by (auto simp: Voting_Coordinator_new_def voting_ok_def buffered_ok_def phases_def fun_eq_iff
      split: option.splits if_splits)

section \<open>Runs\<close>

text \<open>
  The answers to a sequence of events, in which no registered identifier is registered again.
\<close>

inductive voting_run ::
    "env \<Rightarrow> encrypted_ballot_rep \<Rightarrow> voting_state \<Rightarrow> (ballot_event \<times> Voting_Coordinator_status) list \<Rightarrow> voting_state \<Rightarrow> bool"
  for E fresh s0 where
  start: "voting_run E fresh s0 [] s0"
| event: "voting_run E fresh s0 tr s \<Longrightarrow> short_key (subject e) \<Longrightarrow>
    (\<And>k m. e = Register k m \<Longrightarrow> phases s k = None) \<Longrightarrow>
    handle E fresh e s = Some (r, out, s') \<Longrightarrow> voting_run E fresh s0 (tr @ [(e, r)]) s'"

inductive_simps voting_run_start: "voting_run E fresh s0 [] s"

lemma phases_dom: "phases s k = None \<longleftrightarrow> k \<notin> dom (box_map (vs_box s))"
  by (simp add: phases_def domIff)

lemma voting_run_ok:
  "voting_run E fresh s0 tr s \<Longrightarrow> voting_ok s0 \<Longrightarrow> voting_ok s"
proof (induction rule: voting_run.induct)
  case (event tr s e r out s')
  then show ?case
    using handle_simulates(1) [of s e E fresh r out s'] phases_dom by blast
qed

text \<open>The acknowledged events that decide what becomes of the ballot \<open>k\<close>.\<close>

definition decides :: "string \<Rightarrow> ballot_event \<times> Voting_Coordinator_status \<Rightarrow> bool" where
  "decides k a \<longleftrightarrow> snd a = VOTING_COORDINATOR_SUCCESS \<and> (fst a = CastIt k \<or> fst a = SpoilIt k)"

definition decided_as :: "ballot_phase option \<Rightarrow> string \<Rightarrow> (ballot_event \<times> Voting_Coordinator_status) list" where
  "decided_as p k =
     (case p of
        Some Cast \<Rightarrow> [(CastIt k, VOTING_COORDINATOR_SUCCESS)]
      | Some Spoiled \<Rightarrow> [(SpoilIt k, VOTING_COORDINATOR_SUCCESS)]
      | _ \<Rightarrow> [])"

lemma event_decides:
  assumes "r = VOTING_COORDINATOR_SUCCESS \<Longrightarrow> enabled e (p (subject e)) \<and> p' = p(subject e \<mapsto> becomes e)"
    and "r \<noteq> VOTING_COORDINATOR_SUCCESS \<Longrightarrow> p' = p"
  shows "decided_as (p' k) k = decided_as (p k) k @ filter (decides k) [(e, r)]"
proof (cases "r = VOTING_COORDINATOR_SUCCESS")
  case True
  with assms(1) show ?thesis
    by (cases e) (auto simp: decided_as_def decides_def)
next
  case False
  with assms(2) show ?thesis by (simp add: decides_def)
qed

lemma voting_run_decided:
  "voting_run E fresh s0 tr s \<Longrightarrow> voting_ok s0 \<Longrightarrow> phases s0 = Map.empty \<Longrightarrow>
     filter (decides k) tr = decided_as (phases s k) k"
proof (induction rule: voting_run.induct)
  case start
  then show ?case by (simp add: decided_as_def)
next
  case (event tr s e r out s')
  note sim = handle_simulates [OF voting_run_ok [OF event(1) event.prems(1)] event(2) _ event(4)]
  have "decided_as (phases s' k) k = decided_as (phases s k) k @ filter (decides k) [(e, r)]"
    using event(3) phases_dom by (intro event_decides sim(2,3)) blast+
  with event show ?case by simp
qed

section \<open>Registering an identifier twice\<close>

lemma duplicate_dangles:
  assumes "voting_ok s" "short_key k" "k \<in> dom (box_map (vs_box s))"
  shows "\<exists>s'. Voting_Coordinator_register_ballot E fresh k msg s = Some (VOTING_COORDINATOR_DUPLICATE_BALLOT, None, s') \<and>
    HASH_FIND_STR k (vs_box s') = None"
proof -
  have ok: "box_ok (vs_box s)" using assms(1) by (simp add: voting_ok_def collection_ok_def)
  show ?thesis
    using ok assms(2)
  proof (cases rule: get_ballot_cases)
    case (found a e)
    let ?b = "(vs_box s)\<lparr>heap := (heap (vs_box s))(a := None)\<rparr>"
    have "HASH_FIND_STR k ?b = None" using find_dangling [OF ok found(2,3)] found(4) assms(2) by simp
    then show ?thesis
      using found by (simp add: Voting_Coordinator_register_ballot_def free_elmt_def)
  qed (use assms(3) in auto)
qed

lemma get_ballot_None: "HASH_FIND_STR k b = None \<Longrightarrow> Ballot_Collection_get_ballot k b = None"
  by (simp add: Ballot_Collection_get_ballot_def)

lemma dangling_undefined:
  assumes "HASH_FIND_STR k (vs_box s) = None"
  shows "Voting_Coordinator_register_ballot E fresh k msg s = None" "Voting_Coordinator_cast_ballot E k s = None"
    "Voting_Coordinator_spoil_ballot E k s = None" "Voting_Coordinator_get_tracker k s = None"
  using get_ballot_None [OF assms]
  by (simp_all add: Voting_Coordinator_register_ballot_def Voting_Coordinator_cast_ballot_def
      Voting_Coordinator_spoil_ballot_def Voting_Coordinator_get_tracker_def Ballot_Collection_mark_cast_def
      Ballot_Collection_mark_spoiled_def Ballot_Collection_update_def)

end
