(* ===== verification/VotingExport.thy ===== *)
theory VotingExport
  imports VotingProofs DecryptionTrustee
begin

text \<open>
  The record of a first export, and that the trustees read from it what was exported: each ballot with
  its mark and its selections, and hence the sum of the ballots that were cast.
\<close>

section \<open>The text of the record\<close>

definition selections_text :: "encryption_rep list \<Rightarrow> string" where
  "selections_text es = concat (map (\<lambda>e. CHR 0x09 # encryption_text e) es)"

definition ballot_line :: "bool \<Rightarrow> nat \<Rightarrow> encryption_rep list \<Rightarrow> string" where
  "ballot_line is_cast index es =
     fmt_dec (of_bool is_cast) @ CHR 0x09 # fmt_dec index @ selections_text es @ [CHR 0x0A]"

definition header_text :: "u32 \<Rightarrow> u32 \<Rightarrow> string" where
  "header_text n num = fmt_dec (unat n) @ CHR 0x0A # fmt_dec (unat num) @ [CHR 0x0A]"

definition lines_text :: "(bool \<times> encryption_rep list) list \<Rightarrow> nat \<Rightarrow> string" where
  "lines_text bs n = concat (map (\<lambda>i. ballot_line (fst (bs ! i)) i (snd (bs ! i))) [0..<n])"

lemma selections_text_Cons [simp]: "selections_text (e # es) = CHR 0x09 # encryption_text e @ selections_text es"
  "selections_text [] = []"
  by (simp_all add: selections_text_def)

lemma selections_text_snoc: "selections_text (es @ [e]) = selections_text es @ CHR 0x09 # encryption_text e"
  by (simp add: selections_text_def)

lemma length_selections_text: "length (selections_text es) = 2056 * length es"
  by (induction es) simp_all

lemma lines_text_Suc: "lines_text bs (Suc n) = lines_text bs n @ ballot_line (fst (bs ! n)) n (snd (bs ! n))"
  by (simp add: lines_text_def)

section \<open>Writing\<close>

context platform_mem
begin

lemma write_selections:
  assumes "\<forall>e \<in> set es. encryption_ok e" "n \<le> length es" "2056 * n \<le> out_room out"
  shows "loop n (\<lambda>i s. do {
            es \<leftarrow> (if fst s = VOTING_COORDINATOR_SUCCESS then Some es else Some []);
            write_selection E es i s }) (VOTING_COORDINATOR_SUCCESS, out)
      = Some (VOTING_COORDINATOR_SUCCESS, wrote out (selections_text (take n es)))"
  using assms(2,3)
proof (induction n)
  case (Suc n)
  have "encryption_ok (es ! n)" using assms(1) Suc.prems(1) by simp
  then show ?case
    using Suc by (simp add: write_selection_def fprintf_wrote fprint_encryption length_selections_text
        take_Suc_conv_app_nth selections_text_snoc min.absorb2)
qed simp

lemma write_ballot:
  assumes "\<forall>e \<in> set es. encryption_ok e" "length es = unat num" "length (ballot_line is_cast (unat index) es) \<le> out_room out"
  shows "Voting_Coordinator_write_ballot E index is_cast num (Some es) out
    = Some (VOTING_COORDINATOR_SUCCESS, wrote out (ballot_line is_cast (unat index) es))"
proof -
  let ?h = "fmt_dec (of_bool is_cast) @ CHR 0x09 # fmt_dec (unat index)"
  have line: "ballot_line is_cast (unat index) es = ?h @ selections_text es @ [CHR 0x0A]"
    by (simp add: ballot_line_def)
  have room: "length ?h + 2056 * length es + 1 \<le> out_room out"
    using assms(3) unfolding line by (simp only: length_append length_selections_text list.size)
  have "loop (unat num) (\<lambda>i s. do {
            es \<leftarrow> (if fst s = VOTING_COORDINATOR_SUCCESS then Some es else Some []);
            write_selection E es i s }) (VOTING_COORDINATOR_SUCCESS, wrote out ?h)
      = Some (VOTING_COORDINATOR_SUCCESS, wrote out (?h @ selections_text es))"
    using write_selections [OF assms(1), of "unat num" "wrote out ?h"] assms(2) room by simp
  moreover have "fprintf out ?h = (int (length ?h), wrote out ?h)"
    using room by (intro fprintf_wrote) linarith
  moreover have "fprintf (wrote out (?h @ selections_text es)) [CHR 0x0A] = (1, wrote out (?h @ selections_text es @ [CHR 0x0A]))"
    using room by (subst fprintf_wrote) (simp_all add: length_selections_text)
  ultimately show ?thesis
    unfolding Voting_Coordinator_write_ballot_def line by simp
qed

end

text \<open>The buffered ballots, with the marks of their states: what an export is to write.\<close>

definition buffered :: "voting_state \<Rightarrow> Voting_Coordinator \<Rightarrow> (bool \<times> encryption_rep list) list" where
  "buffered s c = map (\<lambda>i. (bs_cast (the (box_map (vs_box s) (the (vc_buffered_external_id c ! i)))),
     the (vc_selections c ! i))) [0..<unat (vc_buffered_num_ballots c)]"

lemma length_buffered [simp]: "length (buffered s c) = unat (vc_buffered_num_ballots c)"
  by (simp add: buffered_def)

text \<open>A file that is at its end, after some text has been written to it.\<close>

definition at_end :: "out_file \<Rightarrow> rw_file" where
  "at_end out = \<lparr>rw_before = out, rw_after = []\<rparr>"

lemma at_position_end: "at_position write (at_end out) = map_option (\<lambda>(r, out). (r, at_end out)) (write out)"
  by (auto simp: at_position_def at_end_def split: Option.bind_splits)

context platform_mem
begin

lemma export_step:
  assumes "voting_ok s" "vs_coordinator s = Some c" "i < unat (vc_buffered_num_ballots c)"
    and "\<forall>e \<in> set (snd (buffered s c ! i)). encryption_ok e"
    and "length (ballot_line (fst (buffered s c ! i)) (unat index) (snd (buffered s c ! i))) \<le> out_room out"
  shows "export_ballot_step E (vs_box s) c i (VOTING_COORDINATOR_SUCCESS, index, at_end out, False) =
    Some (VOTING_COORDINATOR_SUCCESS, index + 1,
      at_end (wrote out (ballot_line (fst (buffered s c ! i)) (unat index) (snd (buffered s c ! i)))), False)"
proof -
  have b: "buffered_ok s c" and ok: "box_ok (vs_box s)" using assms(1,2) by (simp_all add: voting_ok_def collection_ok_def)
  obtain k es where k: "vc_buffered_external_id c ! i = Some k" "short_key k" "k \<in> dom (box_map (vs_box s))"
    and es: "vc_selections c ! i = Some es" "length es = unat (vc_num_selections c)"
    using b assms(3) unfolding buffered_ok_def by blast
  have len: "i < length (vc_buffered_external_id c)" "i < length (vc_selections c)"
    using b assms(3) by (simp_all add: buffered_ok_def)
  show ?thesis
    using ok k(2)
  proof (cases rule: get_ballot_cases)
    case (found a e)
    have n: "buffered s c ! i = (bs_cast (elmt e), es)"
      using assms(3) found(1) k(1) es(1) by (simp add: buffered_def)
    show ?thesis
      using write_ballot [of es "vc_num_selections c" "bs_cast (elmt e)" index out] assms(4,5) es(2)
        found k(1) es(1) len n
      by (simp add: export_ballot_step_def at_position_end)
  next
    case missing
    with k(3) show ?thesis by auto
  qed
qed

lemma export_loop:
  assumes "voting_ok s" "vs_coordinator s = Some c" "n \<le> unat (vc_buffered_num_ballots c)"
    and "\<forall>x \<in> set (buffered s c). \<forall>e \<in> set (snd x). encryption_ok e"
    and "length (lines_text (buffered s c) n) \<le> out_room out"
  shows "loop n (export_ballot_step E (vs_box s) c) (VOTING_COORDINATOR_SUCCESS, 0, at_end out, False) =
    Some (VOTING_COORDINATOR_SUCCESS, of_nat n, at_end (wrote out (lines_text (buffered s c) n)), False)"
  using assms(3,5)
proof (induction n)
  case 0
  then show ?case by (simp add: lines_text_def)
next
  case (Suc n)
  have b: "unat (vc_buffered_num_ballots c) < 2 ^ 32" using unsigned_less [of "vc_buffered_num_ballots c"] by simp
  then have n: "unat (of_nat n :: u32) = n" using Suc.prems(1) by (simp add: unat_of_nat)
  have m: "buffered s c ! n \<in> set (buffered s c)" using Suc.prems(1) by simp
  have room: "length (lines_text (buffered s c) n) +
      length (ballot_line (fst (buffered s c ! n)) n (snd (buffered s c ! n))) \<le> out_room out"
    using Suc.prems(2) by (simp add: lines_text_Suc)
  have "loop n (export_ballot_step E (vs_box s) c) (VOTING_COORDINATOR_SUCCESS, 0, at_end out, False) =
      Some (VOTING_COORDINATOR_SUCCESS, of_nat n, at_end (wrote out (lines_text (buffered s c) n)), False)"
    using Suc.prems room by (intro Suc.IH) simp_all
  moreover have "export_ballot_step E (vs_box s) c n
      (VOTING_COORDINATOR_SUCCESS, of_nat n, at_end (wrote out (lines_text (buffered s c) n)), False) =
    Some (VOTING_COORDINATOR_SUCCESS, of_nat n + 1, at_end (wrote (wrote out (lines_text (buffered s c) n))
      (ballot_line (fst (buffered s c ! n)) (unat (of_nat n :: u32)) (snd (buffered s c ! n)))), False)"
    using Suc.prems(1) room assms(4) m by (intro export_step [OF assms(1,2)]) (auto simp: n)
  ultimately show ?case by (simp add: lines_text_Suc n add.commute)
qed

lemma clear_buffer_total:
  assumes "buffered_ok s c"
  shows "\<exists>ids. Voting_Coordinator_clear_buffer c =
    Some (VOTING_COORDINATOR_SUCCESS, c\<lparr>vc_buffered_external_id := ids, vc_buffered_num_ballots := 0\<rparr>) \<and>
    length ids = MAX_BALLOT_PAYLOAD"
proof -
  let ?f = "\<lambda>i ids. do {
            sels \<leftarrow> arr_get (vc_selections c) i;
            _ \<leftarrow> (case sels of
                    None \<Rightarrow> Some ()
                  | Some es \<Rightarrow> loop (unat (vc_num_selections c)) (\<lambda>j _. do { _ \<leftarrow> arr_get es j; Some () }) ());
            arr_set ids i (None :: string option) }"
  have inner: "loop n (\<lambda>j _. do { _ \<leftarrow> arr_get es j; Some () }) () = Some ()" if "n \<le> length es" for n and es :: "encryption_rep list"
    using that by (induction n) simp_all
  have "\<exists>ids. loop (unat (vc_buffered_num_ballots c)) ?f (vc_buffered_external_id c) = Some ids \<and> length ids = MAX_BALLOT_PAYLOAD"
  proof (rule loop_total)
    fix i and ids :: "string option list"
    assume i: "i < unat (vc_buffered_num_ballots c)" "length ids = MAX_BALLOT_PAYLOAD"
    then obtain es where "vc_selections c ! i = Some es" "length es = unat (vc_num_selections c)"
      using assms unfolding buffered_ok_def by blast
    moreover have "i < length (vc_selections c)" "i < length ids" using assms i by (simp_all add: buffered_ok_def)
    ultimately show "\<exists>ids'. ?f i ids = Some ids' \<and> length ids' = MAX_BALLOT_PAYLOAD"
      using i(2) by (simp add: inner)
  qed (use assms in \<open>simp add: buffered_ok_def\<close>)
  then show ?thesis by (auto simp: Voting_Coordinator_clear_buffer_def)
qed

lemma write_header:
  assumes "length (header_text (vc_registered_num_ballots c) (vc_num_selections c)) \<le> out_room out"
  shows "Voting_Coordinator_write_ballots_file_header c out =
    (VOTING_COORDINATOR_SUCCESS, wrote out (header_text (vc_registered_num_ballots c) (vc_num_selections c)))"
proof -
  have "length (fmt_dec (unat (vc_registered_num_ballots c)) @ [CHR 0x0A]) +
      length (fmt_dec (unat (vc_num_selections c)) @ [CHR 0x0A]) \<le> out_room out"
    using assms by (simp add: header_text_def)
  then show ?thesis
    by (simp add: Voting_Coordinator_write_ballots_file_header_def header_text_def fprintf_wrote)
qed

text \<open>An export to a new file: the header and a line for each buffered ballot; the buffer is empty then.\<close>

lemma first_export:
  assumes "voting_ok s" "vs_coordinator s = Some c" "out_text out = []"
    and "\<forall>x \<in> set (buffered s c). \<forall>e \<in> set (snd x). encryption_ok e"
    and "length (header_text (vc_registered_num_ballots c) (vc_num_selections c) @
           lines_text (buffered s c) (unat (vc_buffered_num_ballots c))) \<le> out_room out"
  shows "\<exists>file s'. Voting_Coordinator_export_buffered_ballots E s (at_end out) = Some (VOTING_COORDINATOR_SUCCESS, file, s') \<and>
    rw_text file = header_text (vc_registered_num_ballots c) (vc_num_selections c) @
           lines_text (buffered s c) (unat (vc_buffered_num_ballots c)) \<and>
    voting_ok s' \<and> phases s' = phases s"
proof -
  let ?h = "header_text (vc_registered_num_ballots c) (vc_num_selections c)"
  let ?ls = "lines_text (buffered s c) (unat (vc_buffered_num_ballots c))"
  have b: "buffered_ok s c" using assms(1,2) by (simp add: voting_ok_def)
  obtain ids where clear: "Voting_Coordinator_clear_buffer c =
      Some (VOTING_COORDINATOR_SUCCESS, c\<lparr>vc_buffered_external_id := ids, vc_buffered_num_ballots := 0\<rparr>)"
    "length ids = MAX_BALLOT_PAYLOAD"
    using clear_buffer_total [OF b] by blast
  have start: "fseek_start (at_end out) = at_end out" by (simp add: fseek_start_def at_end_def rw_text_def assms(3))
  have h: "at_position (\<lambda>out. Some (Voting_Coordinator_write_ballots_file_header c out)) (at_end out) =
      Some (VOTING_COORDINATOR_SUCCESS, at_end (wrote out ?h))"
    using assms(5) by (simp add: at_position_end write_header)
  have nl: "count_newlines (at_end f) = (0, at_end f)" for f
    by (simp add: count_newlines_def at_end_def rw_text_def)
  have l: "loop (unat (vc_buffered_num_ballots c)) (export_ballot_step E (vs_box s) c)
      (VOTING_COORDINATOR_SUCCESS, 0, at_end (wrote out ?h), False) =
    Some (VOTING_COORDINATOR_SUCCESS, of_nat (unat (vc_buffered_num_ballots c)), at_end (wrote (wrote out ?h) ?ls), False)"
    using assms(5) by (intro export_loop [OF assms(1,2) order_refl assms(4)]) simp
  let ?s = "s\<lparr>vs_coordinator := Some (c\<lparr>vc_buffered_external_id := ids, vc_buffered_num_ballots := 0\<rparr>)\<rparr>"
  have "Voting_Coordinator_export_buffered_ballots E s (at_end out) =
      Some (VOTING_COORDINATOR_SUCCESS, at_end (wrote (wrote out ?h) ?ls), ?s)"
    by (simp add: Voting_Coordinator_export_buffered_ballots_def assms(2) start h nl l clear(1))
  moreover have "rw_text (at_end (wrote (wrote out ?h) ?ls)) = ?h @ ?ls"
    by (simp add: rw_text_def at_end_def assms(3))
  moreover have "voting_ok ?s" using assms(1,2) b clear(2) by (simp add: voting_ok_def buffered_ok_def)
  moreover have "phases ?s = phases s" by (simp add: phases_def fun_eq_iff)
  ultimately show ?thesis by blast
qed

end

section \<open>Tallying what was written\<close>

lemma plain_tails: "plain_tail (CHR 0x09 # s)" "plain_tail (CHR 0x0A # s)"
  unfolding plain_tail_def by (code_simp, code_simp)

lemma spaces [simp]: "is_space (CHR 0x09)" "is_space (CHR 0x0A)" "\<not> is_space (CHR ''('')"
  by code_simp+

lemma fscanf_d_space: "is_space x \<Longrightarrow> fscanf_d (x # inp) = fscanf_d inp"
  by (simp add: fscanf_d_def fscanf_dec_def)

lemma fscanf_space_dec: "fscanf_space (fmt_dec n @ s) = fmt_dec n @ s"
  using fmt_dec_hd [of n] by (auto simp: fscanf_space_def dec_digit_plain)

lemma selections_text_plain: "plain_tail (selections_text es @ CHR 0x0A # s)"
  by (cases es) (simp_all add: plain_tails)

text \<open>The tallies after a ballot: unchanged if it was not cast.\<close>

definition add_ballot :: "env \<Rightarrow> params \<Rightarrow> bool \<times> encryption_rep list \<Rightarrow> encryption_rep list \<Rightarrow> encryption_rep list" where
  "add_ballot E G x ts =
     (if fst x then map (\<lambda>j. Crypto_encryption_homomorphic_add E G (ts ! j) (snd x ! j)) [0..<length (snd x)] @ drop (length (snd x)) ts
      else ts)"

context platform_mem
begin

lemma read_selection:
  assumes "encryption_ok e" "i < length sels"
  shows "read_selection_step E i (DECRYPTION_TRUSTEE_SUCCESS, CHR 0x09 # encryption_text e @ rest, sels) =
    Some (DECRYPTION_TRUSTEE_SUCCESS, rest, sels[i := e])"
proof -
  let ?n = "number_text (nonce_encoding e)" and ?m = "number_text (message_encoding e)"
  have t: "encryption_text e @ rest = ''('' @ ?n @ '','' @ ?m @ '')'' @ rest"
    by (simp add: encryption_text_def)
  have s: "fscanf_space (CHR 0x09 # encryption_text e @ rest) = ''('' @ ?n @ '','' @ ?m @ '')'' @ rest"
    unfolding t by (simp add: fscanf_space_def)
  have ok: "fits 64 (nonce_encoding e)" "fits 64 (message_encoding e)"
    using assms(1) by (simp_all add: encryption_ok_def)
  have e: "\<lparr>nonce_encoding = nonce_encoding e, message_encoding = message_encoding e\<rparr> = e" by simp
  note scans = fscanf_lit_match fscan_number [OF ok(1)] fscan_number [OF ok(2)] s e
  show ?thesis
    using assms(2) by (simp add: read_selection_step_def scans del: append_Cons fscanf_lit.simps)
qed

lemma read_selections_loop:
  assumes "\<forall>e \<in> set es. encryption_ok e" "n \<le> length es" "length es \<le> length sels"
  shows "loop n (read_selection_step E) (DECRYPTION_TRUSTEE_SUCCESS, selections_text es @ rest, sels) =
    Some (DECRYPTION_TRUSTEE_SUCCESS, selections_text (drop n es) @ rest, take n es @ drop n sels)"
  using assms(2)
proof (induction n)
  case (Suc n)
  have d: "drop n es = es ! n # drop (Suc n) es" "drop n sels = sels ! n # drop (Suc n) sels"
    using Suc.prems assms(3) by (simp_all add: Cons_nth_drop_Suc)
  have "encryption_ok (es ! n)" using assms(1) Suc.prems by simp
  then have "read_selection_step E n (DECRYPTION_TRUSTEE_SUCCESS, selections_text (drop n es) @ rest, take n es @ drop n sels) =
    Some (DECRYPTION_TRUSTEE_SUCCESS, selections_text (drop (Suc n) es) @ rest, (take n es @ drop n sels)[n := es ! n])"
    using read_selection [of "es ! n" n "take n es @ drop n sels" "selections_text (drop (Suc n) es) @ rest"] Suc.prems assms(3)
    by (simp add: d(1))
  moreover have "(take n es @ drop n sels)[n := es ! n] = take (Suc n) es @ drop (Suc n) sels"
    using Suc.prems by (simp add: d(2) list_update_append take_Suc_conv_app_nth)
  ultimately show ?case using Suc by simp
qed simp

lemma tally_line:
  assumes "\<forall>e \<in> set es. encryption_ok e" "length es = unat (dt_num_selections t)"
    and "length es \<le> MAX_SELECTIONS" "length (dt_tallies t) = MAX_SELECTIONS" "k < 2 ^ 32"
    and "w = [] \<or> w = [CHR 0x0A]"
  shows "tally_ballot_step E G i (DECRYPTION_TRUSTEE_SUCCESS, w @ ballot_line b k es @ rest, t) =
    Some (DECRYPTION_TRUSTEE_SUCCESS, CHR 0x0A # rest, t\<lparr>dt_tallies := add_ballot E G (b, es) (dt_tallies t)\<rparr>)"
proof -
  let ?blank = "replicate MAX_SELECTIONS Crypto_encryption_rep_new"
  have line: "ballot_line b k es @ rest = fmt_dec (of_bool b) @ CHR 0x09 # fmt_dec k @ selections_text es @ CHR 0x0A # rest"
    by (simp add: ballot_line_def)
  have d: "fscanf_d (w @ ballot_line b k es @ rest) =
      Some (1, of_bool b, CHR 0x09 # fmt_dec k @ selections_text es @ CHR 0x0A # rest)"
    using assms(6) unfolding line by (auto simp: fscanf_d_space fscanf_d_fmt plain_tails)
  have k: "unat (of_nat k :: u64) = k" using assms(5) by (simp add: unat_of_nat)
  have lu: "fscanf_lu (fmt_dec k @ selections_text es @ CHR 0x0A # rest) = Some (1, of_nat k, selections_text es @ CHR 0x0A # rest)"
    using fscanf_lu_fmt [OF selections_text_plain [of es rest], where w = "of_nat k"] by (simp add: k)
  have sp: "fscanf_space (CHR 0x09 # fmt_dec k @ s) = fmt_dec k @ s" for s
    using fscanf_space_dec [of k s] by (simp add: fscanf_space_def)
  have read: "Decryption_Trustee_read_ballot E (w @ ballot_line b k es @ rest) (dt_num_selections t) ?blank =
      Some (DECRYPTION_TRUSTEE_SUCCESS, of_nat k, b, es @ drop (length es) ?blank, CHR 0x0A # rest)"
    using read_selections_loop [OF assms(1) order_refl, of ?blank "CHR 0x0A # rest"] assms(2,3)
    by (simp add: Decryption_Trustee_read_ballot_def d sp lu)
  have blank: "for_array (unat (dt_num_selections t)) (\<lambda>_ _. Some Crypto_encryption_rep_new) ?blank = Some ?blank"
    using assms(2,3) by (subst for_array_ok [where g = "\<lambda>_. Crypto_encryption_rep_new"])
      (auto simp: map_replicate_const simp flip: replicate_add)
  have accum: "Decryption_Trustee_accum_tally E G t (es @ drop (length es) ?blank) =
      Some (t\<lparr>dt_tallies := add_ballot E G (True, es) (dt_tallies t)\<rparr>)"
  proof -
    have "for_array (length es) (\<lambda>i tally. do { s \<leftarrow> arr_get (es @ drop (length es) ?blank) i;
        Some (Crypto_encryption_homomorphic_add E G tally s) }) (dt_tallies t) =
      Some (map (\<lambda>j. Crypto_encryption_homomorphic_add E G (dt_tallies t ! j) (es ! j)) [0..<length es] @ drop (length es) (dt_tallies t))"
      using assms(3,4) by (intro for_array_ok) (simp_all add: nth_append)
    then show ?thesis by (simp add: Decryption_Trustee_accum_tally_def add_ballot_def assms(2))
  qed
  show ?thesis
  proof (cases b)
    case True
    then show ?thesis using accum read by (simp add: tally_ballot_step_def blank del: drop_replicate)
  next
    case False
    then show ?thesis using read by (simp add: tally_ballot_step_def blank add_ballot_def)
  qed
qed

text \<open>All the lines of a record.\<close>

lemma tally_lines:
  assumes "\<forall>x \<in> set bs. length (snd x) = unat (dt_num_selections t) \<and> (\<forall>e \<in> set (snd x). encryption_ok e)"
    and "unat (dt_num_selections t) \<le> MAX_SELECTIONS" "length (dt_tallies t) = MAX_SELECTIONS"
    and "length bs < 2 ^ 32" "n \<le> length bs"
  shows "loop n (tally_ballot_step E G) (DECRYPTION_TRUSTEE_SUCCESS, lines_text bs n @ rest, t) =
    Some (DECRYPTION_TRUSTEE_SUCCESS, (if n = 0 then [] else [CHR 0x0A]) @ rest,
      t\<lparr>dt_tallies := fold (add_ballot E G) (take n bs) (dt_tallies t)\<rparr>)"
  using assms(5)
proof (induction n arbitrary: rest)
  case 0
  then show ?case by (simp add: lines_text_def)
next
  case (Suc n)
  let ?t = "t\<lparr>dt_tallies := fold (add_ballot E G) (take n bs) (dt_tallies t)\<rparr>"
  have m: "bs ! n \<in> set bs" using Suc.prems by simp
  have len: "length (fold (add_ballot E G) xs ts) = length ts" if "\<forall>x \<in> set xs. length (snd x) \<le> length ts" for xs ts
    using that by (induction xs arbitrary: ts) (auto simp: add_ballot_def)
  have "\<forall>x \<in> set (take n bs). length (snd x) \<le> length (dt_tallies t)"
    using assms(1-3) in_set_takeD by fastforce
  then have "length (dt_tallies ?t) = MAX_SELECTIONS"
    using len [of "take n bs" "dt_tallies t"] assms(3) by simp
  then have step: "tally_ballot_step E G n (DECRYPTION_TRUSTEE_SUCCESS, w @ ballot_line (fst (bs ! n)) n (snd (bs ! n)) @ rest, ?t) =
      Some (DECRYPTION_TRUSTEE_SUCCESS, CHR 0x0A # rest,
        ?t\<lparr>dt_tallies := add_ballot E G (fst (bs ! n), snd (bs ! n)) (dt_tallies ?t)\<rparr>)" if "w = [] \<or> w = [CHR 0x0A]" for w
    using assms(1,2,4) m Suc.prems that by (intro tally_line) auto
  have "loop n (tally_ballot_step E G)
      (DECRYPTION_TRUSTEE_SUCCESS, lines_text bs n @ ballot_line (fst (bs ! n)) n (snd (bs ! n)) @ rest, t) =
    Some (DECRYPTION_TRUSTEE_SUCCESS, (if n = 0 then [] else [CHR 0x0A]) @ ballot_line (fst (bs ! n)) n (snd (bs ! n)) @ rest, ?t)"
    using Suc.prems by (intro Suc.IH) simp
  moreover have "(if n = 0 then [] else [CHR 0x0A]) = [] \<or> (if n = 0 then [] else [CHR 0x0A]) = [CHR 0x0A]" by simp
  ultimately show ?case
    using step [of "if n = 0 then [] else [CHR 0x0A]"] Suc.prems
    by (simp add: lines_text_Suc take_Suc_conv_app_nth split del: if_split)
qed

text \<open>A whole record.\<close>

lemma tally_record:
  assumes "\<forall>x \<in> set bs. length (snd x) = unat (dt_num_selections t) \<and> (\<forall>e \<in> set (snd x). encryption_ok e)"
    and "unat (dt_num_selections t) \<le> MAX_SELECTIONS" "length (dt_tallies t) = MAX_SELECTIONS"
    and "length bs = unat (n :: u32)"
  shows "\<exists>rest. Decryption_Trustee_tally_voting_record E G
      (header_text n (dt_num_selections t) @ lines_text bs (length bs)) t =
    Some (DECRYPTION_TRUSTEE_SUCCESS, rest, t\<lparr>dt_tallies := fold (add_ballot E G) bs (dt_tallies t)\<rparr>)"
proof -
  let ?ls = "lines_text bs (length bs)"
  have small: "length bs < 2 ^ 32" using unsigned_less [of n] assms(4) by simp
  have u: "unat (ucast w :: u64) = unat w" for w :: u32
    using unsigned_less [of w, where ?'a = nat] by (simp add: unsigned_ucast_eq take_bit_nat_eq_self_iff)
  have n: "fscanf_lu (fmt_dec (unat n) @ CHR 0x0A # s) = Some (1, ucast n, CHR 0x0A # s)" for s
    using fscanf_lu_fmt [OF plain_tails(2), of "ucast n"] by (simp add: u)
  have c: "fscanf_lu (fmt_dec (unat (dt_num_selections t)) @ CHR 0x0A # s) = Some (1, ucast (dt_num_selections t), CHR 0x0A # s)" for s
    using fscanf_lu_fmt [OF plain_tails(2), of "ucast (dt_num_selections t)"] by (simp add: u)
  have sp: "fscanf_space (CHR 0x0A # fmt_dec m @ s) = fmt_dec m @ s" for m s
    using fscanf_space_dec [of m s] by (simp add: fscanf_space_def)
  have ls: "fscanf_space (CHR 0x0A # ?ls) = ?ls"
  proof (cases bs)
    case (Cons x xs)
    then have "?ls = ballot_line (fst x) 0 (snd x) @ concat (map (\<lambda>i. ballot_line (fst (bs ! i)) i (snd (bs ! i))) [1..<length bs])"
      by (simp add: lines_text_def upt_conv_Cons del: upt_Suc)
    then show ?thesis using sp by (simp add: ballot_line_def)
  qed (simp add: lines_text_def fscanf_space_def)
  have l: "loop (length bs) (tally_ballot_step E G) (DECRYPTION_TRUSTEE_SUCCESS, ?ls, t) =
    Some (DECRYPTION_TRUSTEE_SUCCESS, if length bs = 0 then [] else [CHR 0x0A], t\<lparr>dt_tallies := fold (add_ballot E G) bs (dt_tallies t)\<rparr>)"
    using tally_lines [OF assms(1-3) small order_refl, of G "[]"] by simp
  have "unat (ucast n :: u64) = length bs" using assms(4) u by simp
  with l ls show ?thesis
    by (simp add: Decryption_Trustee_tally_voting_record_def header_text_def n c sp)
qed

lemma tally_encrypts:
  assumes "group_ok G" "\<forall>x \<in> set bs. j < length (snd x) \<and> length (snd x) \<le> length ts \<and> (\<exists>r. encrypts E G pk r (v x) (snd x ! j))"
    and "\<exists>r. encrypts E G pk r m (ts ! j)"
  shows "\<exists>r. encrypts E G pk r (m + sum_list (map v (filter fst bs))) (fold (add_ballot E G) bs ts ! j)"
  using assms(2,3)
proof (induction bs arbitrary: ts m)
  case (Cons x bs)
  let ?ts = "add_ballot E G x ts"
  have len: "length ?ts = length ts" using Cons.prems(1) by (simp add: add_ballot_def)
  have "\<exists>r. encrypts E G pk r (m + (if fst x then v x else 0)) (?ts ! j)"
    using Cons.prems add_encrypts [OF assms(1)] by (auto simp: add_ballot_def nth_append) blast
  then have "\<exists>r. encrypts E G pk r ((m + (if fst x then v x else 0)) + sum_list (map v (filter fst bs))) (fold (add_ballot E G) bs ?ts ! j)"
    using Cons.prems(1) by (intro Cons.IH) (simp_all add: len)
  then show ?case by (simp add: add.assoc split: if_splits)
qed simp

end

end
