(* ===== verification/VotingExample.thy ===== *)
theory VotingExample
  imports VotingExport ExampleGroup
begin

text \<open>
  Registration does not fail: what it needs for that, and how much the table of ballots grows. With it,
  an election of one ballot with one selection that is registered, cast and exported.
\<close>

section \<open>The size of the table\<close>

definition log2_buckets :: "'e hash_box \<Rightarrow> nat" where
  "log2_buckets b = (case head_table b of None \<Rightarrow> 5 | Some t \<Rightarrow> unat (log2_num_buckets t))"

lemma can_grow_log2: "log2_buckets b < 31 \<Longrightarrow> can_grow b"
  by (simp add: can_grow_def log2_buckets_def split: option.splits)

lemma new_elmt_log2: "new_elmt x b = (a, b') \<Longrightarrow> log2_buckets b' = log2_buckets b"
  by (auto simp: new_elmt_def log2_buckets_def)

lemma free_elmt_log2: "free_elmt a b = Some b' \<Longrightarrow> log2_buckets b' = log2_buckets b"
  by (auto simp: free_elmt_def log2_buckets_def bind_eq_Some_conv split: if_splits)

lemma HASH_EXPAND_BUCKETS_log2:
  assumes "HASH_EXPAND_BUCKETS E H t = Some t'"
  shows "unat (log2_num_buckets t') \<le> Suc (unat (log2_num_buckets t))"
proof -
  have "log2_num_buckets t' = log2_num_buckets t + 1"
    using assms by (auto simp: HASH_EXPAND_BUCKETS_def bind_eq_Some_conv Let_def split: if_splits)
  then show ?thesis by (simp add: unat_word_ariths)
qed

lemma HASH_ADD_KEYPTR_log2:
  assumes "HASH_ADD_KEYPTR E k l a b = Some b'"
  shows "log2_buckets b' \<le> Suc (log2_buckets b)"
proof -
  obtain H t t' where t: "(case head_table b of None \<Rightarrow> HASH_MAKE_TABLE E a | Some t \<Rightarrow> HASH_APPEND_LIST (b\<lparr>heap := H\<rparr>) a t) = Some t"
    "HASH_ADD_TO_TABLE E H (HASH_JEN k l) a t = Some t'" "head_table b' = Some t'"
    using assms by (auto simp: HASH_ADD_KEYPTR_def HASH_ADD_KEYPTR_BYHASHVALUE_def Let_def bind_eq_Some_conv)
  have "unat (log2_num_buckets t) = log2_buckets b"
    using t(1) by (auto simp: log2_buckets_def HASH_MAKE_TABLE_def HASH_APPEND_LIST_def tbl_of_def bind_eq_Some_conv Let_def
        split: option.splits if_splits)
  moreover have "unat (log2_num_buckets t') \<le> Suc (unat (log2_num_buckets t))"
    using t(2) by (auto simp: HASH_ADD_TO_TABLE_def HASH_ADD_TO_BKT_def bind_eq_Some_conv Let_def
        dest: HASH_EXPAND_BUCKETS_log2 split: if_splits)
  ultimately show ?thesis by (simp add: log2_buckets_def t(3))
qed

lemma register_log2:
  assumes "Ballot_Collection_register_ballot E k track index b = Some (r, b')"
  shows "log2_buckets b' \<le> Suc (log2_buckets b)"
  using assms
  by (auto simp: Ballot_Collection_register_ballot_def bind_eq_Some_conv Let_def
      dest!: new_elmt_log2 HASH_ADD_KEYPTR_log2 split: if_splits option.splits prod.splits)

section \<open>Registration succeeds\<close>

lemma register_total:
  assumes E: "platform_mem E" and s: "voting_ok s" "can_grow (vs_box s)" "vs_coordinator s = Some c"
    and k: "short_key k" "k \<notin> dom (box_map (vs_box s))"
    and room: "length (entries (vs_box s)) < MAX_BALLOTS" "unat (vc_buffered_num_ballots c) < MAX_BALLOT_PAYLOAD"
    and m: "Serialize_deserialize_register_ballot_message E msg fresh = Some (True, rep)"
      "num_selections rep = vc_num_selections c" "msg_bytes msg = Some bytes"
  shows "\<exists>track s'. Voting_Coordinator_register_ballot E fresh k msg s = Some (VOTING_COORDINATOR_SUCCESS, Some track, s')"
proof -
  have ok: "collection_ok (vs_box s)" "box_ok (vs_box s)" "buffered_ok s c"
    using s(1,3) by (simp_all add: voting_ok_def collection_ok_def)
  have get: "Ballot_Collection_get_ballot k (vs_box s) = Some (BALLOT_COLLECTION_ERROR_NOT_FOUND, None)"
    using ok(2) k(1) by (cases rule: get_ballot_cases) (use k(2) in auto)
  have size: "Ballot_Collection_size (vs_box s) = Some (of_nat (length (entries (vs_box s))))"
    "unat (of_nat (length (entries (vs_box s))) :: u32) < MAX_BALLOTS"
    using size_correct [OF ok(2)] room(1) by (simp_all add: unat_of_nat MAX_BALLOTS_def)
  let ?d = "sha256 E (take (msg_len msg) bytes)"
  have "length ?d = 32" using platform.sha256_length [OF platform_mem.axioms(1) [OF E]] .
  then have "?d \<noteq> []" by auto
  then obtain track where track: "display_ballot_tracker E ?d = Some track"
    using display_ballot_tracker_eq [OF E] by blast
  obtain b' where b': "Ballot_Collection_register_ballot E k track (vc_registered_num_ballots c) (vs_box s) =
      Some (BALLOT_COLLECTION_SUCCESS, b')"
    using register_ballot_total [OF E ok(1) s(2) k(1), of track "vc_registered_num_ballots c"] k(2) by auto
  obtain blk where "malloc E SHA256_DIGEST_LENGTH = Some blk" using platform_mem.malloc_ok [OF E] by blast
  then show ?thesis
    using get size s(3) room(2) m track b' ok(3)
    by (simp add: Voting_Coordinator_register_ballot_def buffered_ok_def)
qed

text \<open>What registering adds to the buffer.\<close>

lemma buffered_snoc:
  assumes "buffered_ok s c" "k \<notin> dom (box_map (vs_box s))" "unat (vc_buffered_num_ballots c) < MAX_BALLOT_PAYLOAD"
    and "box_map b = (box_map (vs_box s))(k \<mapsto> st)" "\<not> bs_cast st"
  shows "buffered (s\<lparr>vs_box := b, vs_coordinator := d\<rparr>)
      (c\<lparr>vc_buffered_external_id := (vc_buffered_external_id c)[unat (vc_buffered_num_ballots c) := Some k],
         vc_selections := (vc_selections c)[unat (vc_buffered_num_ballots c) := Some es],
         vc_registered_num_ballots := n, vc_buffered_num_ballots := vc_buffered_num_ballots c + 1\<rparr>)
    = buffered s c @ [(False, es)]"
proof -
  have n: "unat (vc_buffered_num_ballots c + 1) = Suc (unat (vc_buffered_num_ballots c))"
    using assms(3) by (simp add: unat_word_ariths MAX_BALLOT_PAYLOAD_def)
  have l: "length (vc_buffered_external_id c) = MAX_BALLOT_PAYLOAD" "length (vc_selections c) = MAX_BALLOT_PAYLOAD"
    using assms(1) by (simp_all add: buffered_ok_def)
  have "the (vc_buffered_external_id c ! i) \<noteq> k" if "i < unat (vc_buffered_num_ballots c)" for i
    using assms(1,2) that unfolding buffered_ok_def by (metis option.sel)
  then show ?thesis
    using assms(3-5) l by (simp add: buffered_def n nth_list_update)
qed

lemma buffered_selections:
  assumes "voting_ok s" "vs_coordinator s = Some c"
  shows "\<forall>x \<in> set (buffered s c). length (snd x) = unat (vc_num_selections c)"
proof -
  have "\<exists>es. vc_selections c ! i = Some es \<and> length es = unat (vc_num_selections c)"
    if "i < unat (vc_buffered_num_ballots c)" for i
    using assms that unfolding voting_ok_def buffered_ok_def by blast
  then show ?thesis by (fastforce simp: buffered_def)
qed

text \<open>A first export, and the tallies of a trustee that reads it.\<close>

lemma first_export_tally:
  assumes "platform_mem E" "group_ok G" "voting_ok s" "vs_coordinator s = Some c"
    and "vc_registered_num_ballots c = vc_buffered_num_ballots c"
    and "out_text out = []" "length (header_text (vc_registered_num_ballots c) (vc_num_selections c) @
      lines_text (buffered s c) (unat (vc_buffered_num_ballots c))) \<le> out_room out"
    and "\<forall>x \<in> set (buffered s c). (\<forall>e \<in> set (snd x). encryption_ok e) \<and>
      (\<forall>j < length (snd x). \<exists>r. encrypts E G pk r (int (v x j)) (snd x ! j))"
    and "dt_num_selections t = vc_num_selections c" "unat (vc_num_selections c) \<le> MAX_SELECTIONS"
    and "dt_tallies t = replicate MAX_SELECTIONS Crypto_encryption_homomorphic_zero"
  shows "\<exists>fl s' rest t'.
    Voting_Coordinator_export_buffered_ballots E s (at_end out) = Some (VOTING_COORDINATOR_SUCCESS, fl, s') \<and>
    phases s' = phases s \<and>
    Decryption_Trustee_tally_voting_record E G (rw_text fl) t = Some (DECRYPTION_TRUSTEE_SUCCESS, rest, t') \<and>
    (\<forall>j < unat (vc_num_selections c). \<exists>r.
       encrypts E G pk r (\<Sum>x \<leftarrow> filter fst (buffered s c). int (v x j)) (dt_tallies t' ! j))"
proof -
  have P: "platform E" using assms(1) by (rule platform_mem.axioms(1))
  have sel: "\<forall>x \<in> set (buffered s c). length (snd x) = unat (vc_num_selections c)"
    using buffered_selections [OF assms(3,4)] .
  have ok: "\<forall>x \<in> set (buffered s c). \<forall>e \<in> set (snd x). encryption_ok e" using assms(8) by blast
  obtain fl s' where f: "Voting_Coordinator_export_buffered_ballots E s (at_end out) = Some (VOTING_COORDINATOR_SUCCESS, fl, s')"
    "rw_text fl = header_text (vc_registered_num_ballots c) (vc_num_selections c) @
       lines_text (buffered s c) (unat (vc_buffered_num_ballots c))" "phases s' = phases s"
    using platform_mem.first_export [OF assms(1,3,4,6) ok assms(7)] by blast
  let ?t = "t\<lparr>dt_tallies := fold (add_ballot E G) (buffered s c) (dt_tallies t)\<rparr>"
  obtain rest where r: "Decryption_Trustee_tally_voting_record E G (rw_text fl) t = Some (DECRYPTION_TRUSTEE_SUCCESS, rest, ?t)"
    using platform_mem.tally_record [OF assms(1), of "buffered s c" t "vc_registered_num_ballots c" G] sel ok assms(5,9-11)
    by (auto simp: f(2))
  have "\<exists>r. encrypts E G pk r (0 + (\<Sum>x \<leftarrow> filter fst (buffered s c). int (v x j)))
      (fold (add_ballot E G) (buffered s c) (dt_tallies t) ! j)" if j: "j < unat (vc_num_selections c)" for j
    using sel assms(8,10,11) j exI [of "\<lambda>r. encrypts E G pk r 0 Crypto_encryption_homomorphic_zero",
        OF platform.zero_encrypts [OF P assms(2)]]
    by (intro platform_mem.tally_encrypts [OF assms(1,2)]) auto
  with f r show ?thesis by (intro exI [of _ fl] exI [of _ s'] exI [of _ rest] exI [of _ ?t]) simp
qed

section \<open>Casting and spoiling answer\<close>

text \<open>The box after an update, which the coordinator answers with success just for a registered ballot.\<close>

lemma decide_total:
  assumes "platform_mem E" "voting_ok s" "can_grow (vs_box s)" "short_key k" "c \<noteq> sp"
  shows "\<exists>r out b. Ballot_Collection_update E k c sp (vs_box s) = Some (r, out, b) \<and>
    (r = BALLOT_COLLECTION_SUCCESS \<longleftrightarrow> phases s k = Some Registered) \<and>
    out = (if phases s k = Some Registered then map_option bs_tracker (box_map (vs_box s) k) else None)"
proof -
  have ok: "collection_ok (vs_box s)" using assms(2) by (simp add: voting_ok_def)
  obtain out b where u: "Ballot_Collection_update E k c sp (vs_box s) = Some (update_result (box_map (vs_box s) k), out, b)"
    using update_total [OF assms(1) ok assms(3,4,5)] by blast
  have "update_result (box_map (vs_box s) k) = BALLOT_COLLECTION_SUCCESS \<longleftrightarrow> phases s k = Some Registered"
    by (auto simp: update_result_def phases_def phase_def split: option.splits)
  with u update_correct [OF ok assms(4,5) u] show ?thesis by (auto split: if_splits)
qed

text \<open>A second decision is refused whatever memory there is.\<close>

lemma decided_again:
  assumes "voting_ok s" "short_key k" "c \<noteq> sp" "phases s k = Some Cast \<or> phases s k = Some Spoiled"
  shows "\<exists>r. Ballot_Collection_update E k c sp (vs_box s) = Some (r, None, vs_box s) \<and> r \<noteq> BALLOT_COLLECTION_SUCCESS"
proof -
  have ok: "box_ok (vs_box s)" using assms(1) by (simp add: voting_ok_def collection_ok_def)
  show ?thesis
    using ok assms(2)
  proof (cases rule: get_ballot_cases)
    case (found a e)
    have "ballot_ok k (elmt e)" using assms(1) found(1) by (simp add: voting_ok_def collection_ok_def)
    moreover have "bs_cast (elmt e) \<or> bs_spoiled (elmt e)"
      using assms(4) found(1) by (auto simp: phases_def phase_def split: if_splits)
    ultimately show ?thesis
      using found assms(3) can_mutate [of k "elmt e"] by (auto simp: Ballot_Collection_update_def update_result_def)
  qed (use assms(4) in \<open>auto simp: phases_def\<close>)
qed

section \<open>An election of one ballot\<close>

definition example_blank :: encrypted_ballot_rep where
  "example_blank = \<lparr>ballot_id = 7, num_selections = 1, selections = Some [example_vote], dis_proofs = None,
     ballot_cp_proof = \<lparr>cp_commitment = example_vote, cp_challenge = 0, cp_response = 0\<rparr>\<rparr>"

definition example_message :: message where
  "example_message = bytes_message (enc_encrypted_ballot example_blank)"

definition example_open :: voting_state where
  "example_open = snd (Voting_Coordinator_new ref_env 1 initial_voting)"

lemma example_read:
  "Serialize_deserialize_register_ballot_message ref_env example_message fresh =
     Some (True, fresh\<lparr>ballot_id := 7, num_selections := 1, selections := Some [example_vote]\<rparr>)"
proof -
  have "encrypted_ballot_ok example_blank"
    by (simp add: encrypted_ballot_ok_def example_blank_def example_vote_ok)
  from ballot_codec.parse [OF ref.platform_mem_axioms this TrueI, of fresh] show ?thesis
    by (simp add: Serialize_deserialize_register_ballot_message_def example_message_def merge_encrypted_ballot_def
        example_blank_def message_reading_def)
qed

lemma example_open_eq:
  "Voting_Coordinator_new ref_env 1 initial_voting = (VOTING_COORDINATOR_SUCCESS, example_open)"
  "vs_coordinator example_open = Some \<lparr>vc_num_selections = 1, vc_registered_num_ballots = 0, vc_buffered_num_ballots = 0,
     vc_buffered_external_id = replicate MAX_BALLOT_PAYLOAD None, vc_selections = replicate MAX_BALLOT_PAYLOAD None\<rparr>"
  "vs_box example_open = empty_box"
  by (simp_all add: example_open_def Voting_Coordinator_new_def initial_voting_def ref_env_def)

lemma example_open_ok: "voting_ok example_open"
  using voting_new_ok(1) [OF initial_voting_ok example_open_eq(1)] .

lemma example_registers:
  assumes read: "Serialize_deserialize_register_ballot_message ref_env msg fresh =
      Some (True, fresh\<lparr>ballot_id := n, num_selections := 1, selections := Some es\<rparr>)" "msg_bytes msg = Some bytes"
  shows "\<exists>track s c. Voting_Coordinator_register_ballot ref_env fresh ''A'' msg example_open =
       Some (VOTING_COORDINATOR_SUCCESS, Some track, s) \<and>
     voting_ok s \<and> phases s = [''A'' \<mapsto> Registered] \<and> can_grow (vs_box s) \<and> vs_coordinator s = Some c \<and>
     vc_num_selections c = 1 \<and> vc_registered_num_ballots c = 1 \<and> vc_buffered_num_ballots c = 1 \<and>
     vc_buffered_external_id c ! 0 = Some ''A'' \<and> vc_selections c ! 0 = Some es"
proof -
  have k: "short_key ''A''" "''A'' \<notin> dom (box_map (vs_box example_open))"
    by (simp_all add: short_key_def example_open_eq)
  have g: "log2_buckets (vs_box example_open) = 5" by (simp add: log2_buckets_def example_open_eq empty_box_def)
  obtain track s where r: "Voting_Coordinator_register_ballot ref_env fresh ''A'' msg example_open =
      Some (VOTING_COORDINATOR_SUCCESS, Some track, s)"
    using register_total [OF ref.platform_mem_axioms example_open_ok _ example_open_eq(2) k _ _ read(1)] g read(2) can_grow_log2
    by (force simp: example_open_eq entries_def MAX_BALLOTS_def MAX_BALLOT_PAYLOAD_def)
  note ok = register_ok [OF example_open_ok k r]
  have "log2_buckets (vs_box s) \<le> 6"
    using r g by (auto simp: Voting_Coordinator_register_ballot_def bind_eq_Some_conv dest: register_log2
        split: if_splits option.splits)
  then have "can_grow (vs_box s)" by (intro can_grow_log2) simp
  moreover have "phases s = [''A'' \<mapsto> Registered]"
    using ok(2) by (simp add: phases_def example_open_eq fun_eq_iff)
  ultimately show ?thesis
    using r ok(1) register_Some [OF example_open_ok k r]
    by (auto simp: example_open_eq read(1) MAX_BALLOT_PAYLOAD_def)
qed

lemma example_registered:
  "\<exists>track s c. Voting_Coordinator_register_ballot ref_env fresh ''A'' example_message example_open =
       Some (VOTING_COORDINATOR_SUCCESS, Some track, s) \<and>
     voting_ok s \<and> phases s = [''A'' \<mapsto> Registered] \<and> can_grow (vs_box s) \<and> vs_coordinator s = Some c \<and>
     vc_num_selections c = 1 \<and> vc_registered_num_ballots c = 1 \<and> vc_buffered_num_ballots c = 1 \<and>
     vc_buffered_external_id c ! 0 = Some ''A'' \<and> vc_selections c ! 0 = Some [example_vote]"
  by (rule example_registers [OF example_read]) (simp add: example_message_def bytes_message_def)

lemma example_cast:
  "\<exists>s c. voting_ok s \<and> phases s = [''A'' \<mapsto> Cast] \<and> vs_coordinator s = Some c \<and>
     vc_num_selections c = 1 \<and> vc_registered_num_ballots c = 1 \<and> vc_buffered_num_ballots c = 1 \<and>
     buffered s c = [(True, [example_vote])]"
proof -
  have k: "short_key ''A''" by (simp add: short_key_def)
  obtain track s c where r: "voting_ok s" "phases s = [''A'' \<mapsto> Registered]" "can_grow (vs_box s)" "vs_coordinator s = Some c"
     "vc_num_selections c = 1" "vc_registered_num_ballots c = 1" "vc_buffered_num_ballots c = 1"
     "vc_buffered_external_id c ! 0 = Some ''A''" "vc_selections c ! 0 = Some [example_vote]"
    using example_registered [of example_blank] by blast
  obtain out b where u: "Ballot_Collection_update ref_env ''A'' True False (vs_box s) = Some (BALLOT_COLLECTION_SUCCESS, out, b)"
    using decide_total [OF ref.platform_mem_axioms r(1,3) k, of True False] r(2) by auto
  let ?s = "s\<lparr>vs_box := b\<rparr>"
  have ok: "voting_ok ?s" "phases ?s = [''A'' \<mapsto> Cast]"
    using update_phases [OF r(1) k _ u] r(2) by auto
  then obtain st where "box_map b ''A'' = Some st" "bs_cast st"
    by (auto simp: phases_def phase_def fun_eq_iff split: if_splits dest!: spec [of _ "''A''"])
  then have "buffered ?s c = [(True, [example_vote])]"
    using r(7-9) by (simp add: buffered_def)
  with ok r(4-7) show ?thesis by (intro exI [of _ ?s] exI [of _ c]) simp
qed

end
