(* ===== verification/VotingClaims.thy ===== *)
theory VotingClaims
  imports VotingExample
begin

text \<open>The properties of voting, each with an instance.\<close>

section \<open>The table of ballots\<close>

lemma find_by_key:
  assumes "box_ok b" "short_key k"
  shows "HASH_FIND_STR k b = Some r \<longleftrightarrow>
    (case r of None \<Rightarrow> k \<notin> key_at (heap b) ` set (linked b) | Some a \<Rightarrow> a \<in> set (linked b) \<and> key_at (heap b) a = k)"
proof -
  have inj: "inj_on (key_at (heap b)) (set (linked b))"
    using assms(1) by (simp add: box_ok_def distinct_map)
  have dom: "dom (box_map b) = key_at (heap b) ` set (linked b)"
    by (simp add: box_map_def dom_map_of_conv_image_fst entries_def image_image)
  obtain q where q: "HASH_FIND_STR k b = Some q"
    "case q of None \<Rightarrow> k \<notin> dom (box_map b)
     | Some a \<Rightarrow> a \<in> set (linked b) \<and> (\<exists>e. heap b a = Some e \<and> hh_key e = k \<and> box_map b k = Some (elmt e))"
    using HASH_FIND_STR_correct [OF assms] by blast
  show ?thesis
  proof (cases q)
    case None
    with q dom show ?thesis by (auto split: option.splits)
  next
    case (Some a)
    with q have "a \<in> set (linked b)" "key_at (heap b) a = k" by (auto simp: key_at_def)
    with q(1) Some inj show ?thesis by (auto simp: inj_on_def split: option.splits)
  qed
qed

lemma empty_heap: "heap empty_box = Map.empty"
  by (simp add: empty_box_def)

text \<open>C10: uthash as a map: adding an element under a new key makes that key find the element, and
  changes no other answer, whether or not the buckets were doubled on the way.\<close>

theorem hash_add_find:
  assumes "box_ok b" "heap b a = Some e" "a \<notin> set (linked b)" "short_key k" "HASH_FIND_STR k b = Some None"
    and "HASH_ADD_KEYPTR E k (of_nat (length k)) a b = Some b'" "short_key j"
  shows "box_ok b' \<and> HASH_FIND_STR j b' = (if j = k then Some (Some a) else HASH_FIND_STR j b) \<and>
    HASH_COUNT b' = Some (of_nat (Suc (length (linked b))))"
proof -
  have k: "k \<notin> dom (box_map b)" "k \<notin> key_at (heap b) ` set (linked b)"
    using HASH_FIND_STR_correct [OF assms(1,4)] find_by_key [OF assms(1,4), of None] assms(5) by auto
  from HASH_ADD_KEYPTR_Some [OF assms(1-4) k(1) assms(6)] obtain e' where
    b': "box_ok b'" "linked b' = linked b @ [a]" "entries b' = entries b @ [(k, elmt e)]"
      "heap b' = (heap b)(a \<mapsto> e')" "hh_key e' = k"
    by blast
  have key: "key_at (heap b') x = (if x = a then k else key_at (heap b) x)" for x
    by (simp add: key_at_def b'(4,5))
  have old: "key_at (heap b') ` set (linked b) = key_at (heap b) ` set (linked b)"
    using assms(3) by (intro image_cong) (auto simp: key)
  obtain r where r: "HASH_FIND_STR j b = Some r" using HASH_FIND_STR_correct [OF assms(1,7)] by blast
  have "HASH_FIND_STR j b' = Some (if j = k then Some a else r)"
    unfolding find_by_key [OF b'(1) assms(7)]
    using find_by_key [OF assms(1,7), of r] r k(2) assms(3) old
    by (auto simp: b'(2) key split: option.splits)
  moreover have "HASH_COUNT b' = Some (of_nat (Suc (length (linked b))))"
    using HASH_COUNT_correct [OF b'(1)] b'(2) by (simp add: entries_def)
  ultimately show ?thesis using b'(1) r by simp
qed

theorem hash_add_find_witness:
  "\<exists>a b b'. new_elmt (7 :: nat) empty_box = (a, b) \<and> HASH_ADD_KEYPTR ref_env ''key'' 3 a b = Some b' \<and>
     HASH_FIND_STR ''key'' b' = Some (Some a) \<and> HASH_FIND_STR ''other'' b' = Some None"
proof -
  obtain a b e where n: "new_elmt (7 :: nat) empty_box = (a, b)" "box_ok b" "linked b = []" "heap b = [a \<mapsto> e]"
    "can_grow b"
    using new_elmt_ok [of empty_box "7 :: nat"] by (auto simp: empty_heap)
  have k: "short_key ''key''" "short_key ''other''" by (simp_all add: short_key_def)
  have f: "HASH_FIND_STR j b = Some None" if "short_key j" for j
    using find_by_key [OF n(2) that, of None] n(3) by simp
  obtain b' where b': "HASH_ADD_KEYPTR ref_env ''key'' (of_nat (length ''key'')) a b = Some b'"
    using HASH_ADD_KEYPTR_total [OF ref.platform_mem_axioms n(2,5), of a e "''key''"] n(3,4) by auto
  note c = hash_add_find [OF n(2) _ _ k(1) f [OF k(1)] b']
  show ?thesis
    using c [OF _ _ k(1)] c [OF _ _ k(2)] n(1,3,4) b' f [OF k(2)]
    by (intro exI [of _ a] exI [of _ b] exI [of _ b']) simp
qed

section \<open>Cast or spoiled, once\<close>

text \<open>C6: A registered ballot is decided at most once. Of all the requests to cast or to spoil the ballot
  \<open>k\<close> in an election that registers no identifier twice, at most one is answered with success, and it is
  the one that the state of the ballot shows at the end.\<close>

theorem cast_or_spoiled_once:
  assumes "voting_run E fresh (snd (Voting_Coordinator_new E n initial_voting)) tr s"
  shows "length (filter (decides k) tr) \<le> 1 \<and>
    filter (decides k) tr =
      (case phases s k of
         Some Cast \<Rightarrow> [(CastIt k, VOTING_COORDINATOR_SUCCESS)]
       | Some Spoiled \<Rightarrow> [(SpoilIt k, VOTING_COORDINATOR_SUCCESS)]
       | _ \<Rightarrow> [])"
proof -
  obtain r s0 where s0: "Voting_Coordinator_new E n initial_voting = (r, s0)" by fastforce
  have "voting_ok s0" "phases s0 = Map.empty"
    using voting_new_ok [OF initial_voting_ok s0] by (simp_all add: phases_def initial_voting_def fun_eq_iff)
  then show ?thesis
    using voting_run_decided [of E fresh s0 tr s k] assms s0
    by (auto simp: decided_as_def split: option.splits ballot_phase.splits)
qed

theorem cast_or_spoiled_once_witness:
  "\<exists>s. voting_run ref_env example_blank (snd (Voting_Coordinator_new ref_env 1 initial_voting))
       [(Register ''A'' example_message, VOTING_COORDINATOR_SUCCESS), (CastIt ''A'', VOTING_COORDINATOR_SUCCESS),
        (SpoilIt ''A'', VOTING_COORDINATOR_INVALID_BALLOT)] s \<and>
     phases s ''A'' = Some Cast"
proof -
  have start: "snd (Voting_Coordinator_new ref_env 1 initial_voting) = example_open"
    by (simp add: example_open_def)
  have k: "short_key ''A''" by (simp add: short_key_def)
  obtain track s c where r: "Voting_Coordinator_register_ballot ref_env example_blank ''A'' example_message example_open =
       Some (VOTING_COORDINATOR_SUCCESS, Some track, s)" "voting_ok s" "phases s = [''A'' \<mapsto> Registered]" "can_grow (vs_box s)"
    using example_registered [of example_blank] by blast
  obtain b t2 s2 where c: "Voting_Coordinator_cast_ballot ref_env ''A'' s = Some (VOTING_COORDINATOR_SUCCESS, t2, s2)"
    using decide_total [OF ref.platform_mem_axioms r(2,4) k, of True False] r(3)
    by (auto simp: Voting_Coordinator_cast_ballot_def Ballot_Collection_mark_cast_def)
  note cast = handle_simulates [OF r(2), of "CastIt ''A''" ref_env example_blank]
  have s2: "voting_ok s2" "phases s2 ''A'' = Some Cast"
    using cast c k by (auto simp: r(3))
  have "\<exists>t s3. Voting_Coordinator_spoil_ballot ref_env ''A'' s2 = Some (VOTING_COORDINATOR_INVALID_BALLOT, t, s3)"
    using decided_again [OF s2(1) k, of False True ref_env] s2(2)
    by (auto simp: Voting_Coordinator_spoil_ballot_def Ballot_Collection_mark_spoiled_def)
  then obtain t3 s3 where d: "Voting_Coordinator_spoil_ballot ref_env ''A'' s2 = Some (VOTING_COORDINATOR_INVALID_BALLOT, t3, s3)"
    by blast
  have "voting_run ref_env example_blank example_open
     ([] @ [(Register ''A'' example_message, VOTING_COORDINATOR_SUCCESS)]) s"
    by (rule voting_run.event [OF voting_run.start]) (use r k in \<open>simp_all add: phases_def example_open_eq\<close>)
  then have "voting_run ref_env example_blank example_open
     (([] @ [(Register ''A'' example_message, VOTING_COORDINATOR_SUCCESS)]) @ [(CastIt ''A'', VOTING_COORDINATOR_SUCCESS)]) s2"
    by (rule voting_run.event) (use c k in simp_all)
  then have run: "voting_run ref_env example_blank example_open
     ((([] @ [(Register ''A'' example_message, VOTING_COORDINATOR_SUCCESS)]) @ [(CastIt ''A'', VOTING_COORDINATOR_SUCCESS)]) @
       [(SpoilIt ''A'', VOTING_COORDINATOR_INVALID_BALLOT)]) s3"
    by (rule voting_run.event) (use d k in simp_all)
  from cast_or_spoiled_once [OF run [folded start], of "''A''"] run show ?thesis
    by (auto simp: decides_def start split: option.splits ballot_phase.splits)
qed

text \<open>C17: Every request to cast or to spoil is answered: with success just when the ballot is registered
  and undecided, with the tracker it was registered under; otherwise the request is refused. Nothing else
  changes.\<close>

theorem decision_answered:
  assumes "platform_mem E" "voting_ok s" "can_grow (vs_box s)" "short_key k" "e = CastIt k \<or> e = SpoilIt k"
  shows "\<exists>s'. handle E fresh e s =
      Some (if phases s k = Some Registered then VOTING_COORDINATOR_SUCCESS else VOTING_COORDINATOR_INVALID_BALLOT,
        if phases s k = Some Registered then map_option bs_tracker (box_map (vs_box s) k) else None, s') \<and>
    voting_ok s' \<and> phases s' = (if phases s k = Some Registered then (phases s)(k \<mapsto> becomes e) else phases s)"
proof -
  have "\<exists>s'. handle E fresh e s =
      Some (if phases s k = Some Registered then VOTING_COORDINATOR_SUCCESS else VOTING_COORDINATOR_INVALID_BALLOT,
        if phases s k = Some Registered then map_option bs_tracker (box_map (vs_box s) k) else None, s')"
    using assms(5) decide_total [OF assms(1-4), of True False] decide_total [OF assms(1-4), of False True]
    by (auto simp: Voting_Coordinator_cast_ballot_def Ballot_Collection_mark_cast_def Voting_Coordinator_spoil_ballot_def
        Ballot_Collection_mark_spoiled_def split: if_splits)
  then obtain s' where h: "handle E fresh e s =
      Some (if phases s k = Some Registered then VOTING_COORDINATOR_SUCCESS else VOTING_COORDINATOR_INVALID_BALLOT,
        if phases s k = Some Registered then map_option bs_tracker (box_map (vs_box s) k) else None, s')" by blast
  have "subject e = k" "short_key (subject e)" "e \<noteq> Register k' m" for k' m using assms(4,5) by auto
  with handle_simulates [OF assms(2) _ _ h] h show ?thesis by (auto split: if_splits)
qed

theorem decision_answered_witness:
  "\<exists>s s'. voting_ok s \<and> phases s ''A'' = Some Registered \<and>
     handle ref_env example_blank (SpoilIt ''A'') s =
       Some (VOTING_COORDINATOR_SUCCESS, map_option bs_tracker (box_map (vs_box s) ''A''), s') \<and>
     phases s' = [''A'' \<mapsto> Spoiled]"
proof -
  obtain track s c where r: "voting_ok s" "phases s = [''A'' \<mapsto> Registered]" "can_grow (vs_box s)"
    using example_registered [of example_blank] by blast
  have "short_key ''A''" by (simp add: short_key_def)
  from decision_answered [OF ref.platform_mem_axioms r(1,3) this, of "SpoilIt ''A''" example_blank] r(1,2)
  show ?thesis by simp (metis r(1,2) fun_upd_same fun_upd_upd)
qed

section \<open>Registration\<close>

text \<open>C16: Registration: a message that holds a ballot with the right number of selections is accepted under
  a new identifier while there is room. The ballot gets the next index and the tracker that displays the
  digest of the message, its selections are buffered for the next export, and every other ballot keeps its
  state.\<close>

theorem registration_correct:
  assumes "platform_mem E" "voting_ok s" "can_grow (vs_box s)" "vs_coordinator s = Some c"
    and "short_key k" "phases s k = None"
    and "length (entries (vs_box s)) < MAX_BALLOTS" "unat (vc_buffered_num_ballots c) < MAX_BALLOT_PAYLOAD"
    and "Serialize_deserialize_register_ballot_message E msg fresh = Some (True, rep)"
    and "num_selections rep = vc_num_selections c" "msg_bytes msg = Some bytes"
  shows "\<exists>track es s' c'. Voting_Coordinator_register_ballot E fresh k msg s =
      Some (VOTING_COORDINATOR_SUCCESS, Some track, s') \<and>
    display_ballot_tracker E (sha256 E (take (msg_len msg) bytes)) = Some track \<and> voting_ok s' \<and>
    box_map (vs_box s') = (box_map (vs_box s))(k \<mapsto>
      \<lparr>bs_external_identifier = k, bs_registered_index = vc_registered_num_ballots c, bs_registered = True,
       bs_cast = False, bs_spoiled = False, bs_tracker = track\<rparr>) \<and>
    selections rep = Some es \<and> vs_coordinator s' = Some c' \<and>
    buffered s' c' = buffered s c @ [(False, es)] \<and>
    vc_registered_num_ballots c' = vc_registered_num_ballots c + 1"
proof -
  have k: "k \<notin> dom (box_map (vs_box s))" using assms(6) by (simp add: phases_dom)
  obtain track s' where r: "Voting_Coordinator_register_ballot E fresh k msg s = Some (VOTING_COORDINATOR_SUCCESS, Some track, s')"
    using register_total [OF assms(1-5) k assms(7-11)] by blast
  from register_Some [OF assms(2,5) k r] assms(4,9,11) obtain es b c' where
    p: "display_ballot_tracker E (sha256 E (take (msg_len msg) bytes)) = Some track" "selections rep = Some es"
      "box_map b = (box_map (vs_box s))(k \<mapsto> new_ballot k track (vc_registered_num_ballots c))"
      "c' = c\<lparr>vc_buffered_external_id := (vc_buffered_external_id c)[unat (vc_buffered_num_ballots c) := Some k],
              vc_selections := (vc_selections c)[unat (vc_buffered_num_ballots c) := Some es],
              vc_registered_num_ballots := vc_registered_num_ballots c + 1,
              vc_buffered_num_ballots := vc_buffered_num_ballots c + 1\<rparr>"
      "s' = s\<lparr>vs_box := b, vs_coordinator := Some c'\<rparr>"
    by auto
  have "buffered_ok s c" using assms(2,4) by (simp add: voting_ok_def)
  then have "buffered s' c' = buffered s c @ [(False, es)]"
    using k assms(8) p(3) unfolding p(4,5) by (rule buffered_snoc) (simp add: new_ballot_def)
  with r p register_ok(1) [OF assms(2,5) k r] show ?thesis
    by (intro exI [of _ track] exI [of _ es] exI [of _ s'] exI [of _ c']) (simp add: new_ballot_def)
qed

theorem registration_correct_witness:
  "\<exists>track s c. Voting_Coordinator_register_ballot ref_env example_blank ''A'' example_message example_open =
       Some (VOTING_COORDINATOR_SUCCESS, Some track, s) \<and>
     Voting_Coordinator_get_tracker ''A'' example_open = Some None \<and>
     vs_coordinator s = Some c \<and> buffered s c = [(False, [example_vote])]"
proof -
  have k: "short_key ''A''" "phases example_open ''A'' = None"
    by (simp_all add: short_key_def phases_def example_open_eq)
  have g: "can_grow (vs_box example_open)" by (simp add: example_open_eq)
  have "Voting_Coordinator_get_tracker ''A'' example_open = Some None"
    by (simp add: example_open_eq Voting_Coordinator_get_tracker_def Ballot_Collection_get_ballot_def HASH_FIND_STR_def
        HASH_FIND_def empty_box_def)
  with registration_correct [OF ref.platform_mem_axioms example_open_ok g example_open_eq(2) k _ _ example_read [of example_blank],
      where bytes = "enc_encrypted_ballot example_blank"]
  show ?thesis
    by (auto simp: example_open_eq entries_def MAX_BALLOTS_def MAX_BALLOT_PAYLOAD_def example_message_def
        bytes_message_def buffered_def)
qed

text \<open>C39: An identifier that is registered again is refused, but the refusal frees the ballot while the
  table still points to it: from then on every operation on that identifier reads freed memory.\<close>

theorem duplicate_registration_dangles:
  assumes "voting_ok s" "short_key k" "phases s k \<noteq> None"
  shows "\<exists>s'. Voting_Coordinator_register_ballot E fresh k msg s = Some (VOTING_COORDINATOR_DUPLICATE_BALLOT, None, s') \<and>
    Voting_Coordinator_register_ballot E' fresh' k msg' s' = None \<and> Voting_Coordinator_cast_ballot E' k s' = None \<and>
    Voting_Coordinator_spoil_ballot E' k s' = None \<and> Voting_Coordinator_get_tracker k s' = None"
proof -
  have "k \<in> dom (box_map (vs_box s))" using assms(3) by (auto simp: phases_def)
  then obtain s' where "Voting_Coordinator_register_ballot E fresh k msg s = Some (VOTING_COORDINATOR_DUPLICATE_BALLOT, None, s')"
    "HASH_FIND_STR k (vs_box s') = None"
    using duplicate_dangles [OF assms(1,2)] by blast
  then show ?thesis using dangling_undefined by blast
qed

theorem duplicate_registration_dangles_witness:
  "\<exists>s s'. phases s ''A'' = Some Registered \<and>
     Voting_Coordinator_register_ballot ref_env example_blank ''A'' example_message s =
       Some (VOTING_COORDINATOR_DUPLICATE_BALLOT, None, s') \<and>
     Voting_Coordinator_cast_ballot ref_env ''A'' s' = None"
proof -
  obtain track s c where r: "voting_ok s" "phases s = [''A'' \<mapsto> Registered]"
    using example_registered [of example_blank] by blast
  have "short_key ''A''" "phases s ''A'' \<noteq> None" "phases s ''A'' = Some Registered" by (simp_all add: short_key_def r(2))
  with duplicate_registration_dangles [OF r(1), of "''A''"] show ?thesis by blast
qed

section \<open>Trackers\<close>

lemma tracker_last: "bytes \<noteq> [] \<Longrightarrow> last (tracker_text bytes (num_chunks bytes)) = CHR '' ''"
proof -
  assume "bytes \<noteq> []"
  then have "0 < num_chunks bytes" unfolding num_chunks_def by (cases bytes) auto
  then obtain n where "num_chunks bytes = Suc n" using gr0_conv_Suc by blast
  then show ?thesis by (simp add: tracker_text_Suc on_bytes_def chunk_text_def)
qed

text \<open>C40: Trackers tell ballots apart: every digest of 32 bytes is displayed, and two different digests are
  displayed as different texts.\<close>

theorem trackers_distinct:
  assumes "platform_mem E" "length d = 32" "length d' = 32" "d \<noteq> d'"
  shows "\<exists>t t'. display_ballot_tracker E d = Some t \<and> display_ballot_tracker E d' = Some t' \<and> t \<noteq> t'"
proof -
  have ne: "d \<noteq> []" "d' \<noteq> []" and n: "num_chunks d' = num_chunks d" using assms(2,3) by (auto simp: num_chunks_def)
  let ?t = "tracker_text d (num_chunks d)" and ?t' = "tracker_text d' (num_chunks d)"
  have "?t \<noteq> ?t'" using tracker_bytes_inj [of d d'] assms(2-4) by auto
  moreover have "last ?t = CHR '' ''" "last ?t' = CHR '' ''" "?t \<noteq> []" "?t' \<noteq> []"
    using tracker_text_nonempty [OF ne(1)] tracker_text_nonempty [OF ne(2)] tracker_last [OF ne(1)] tracker_last [OF ne(2)]
    by (simp_all add: n)
  ultimately have "butlast ?t \<noteq> butlast ?t'" by (metis append_butlast_last_id)
  then show ?thesis
    using display_ballot_tracker_eq [OF assms(1) ne(1)] display_ballot_tracker_eq [OF assms(1) ne(2)] by (simp add: n)
qed

theorem trackers_distinct_witness:
  "\<exists>t t'. display_ballot_tracker ref_env (replicate 32 0) = Some t \<and>
     display_ballot_tracker ref_env (replicate 31 0 @ [1]) = Some t' \<and> t \<noteq> t'"
proof -
  have "replicate 32 (0 :: u8) \<noteq> replicate 31 0 @ [1]" by (simp add: numeral_eq_Suc)
  from trackers_distinct [OF ref.platform_mem_axioms _ _ this] show ?thesis by simp
qed

end
