(* ===== verification/LaterExport.thy ===== *)
theory LaterExport
  imports VotingExample
begin

text \<open>
  Exports to a file that already holds ballots: the header is rewritten in place, and what a trustee
  reads when that has damaged the first ballot.
\<close>

section \<open>A later export\<close>

lemma length_fmt_dec: "n < 10 ^ k \<Longrightarrow> 0 < k \<Longrightarrow> length (fmt_dec n) \<le> k"
proof (induction n arbitrary: k rule: fmt_dec.induct)
  case (1 n)
  show ?case
  proof (cases "n < 10")
    case True
    with "1.prems"(2) show ?thesis by (simp add: fmt_dec.simps)
  next
    case False
    then obtain m where m: "k = Suc m" "0 < m"
      using "1.prems" by (cases k; cases "k - 1") auto
    then have "n div 10 < 10 ^ m" using "1.prems"(1) by simp
    from "1.IH" [OF False this m(2)] False m(1) show ?thesis by (simp add: fmt_dec.simps [of n])
  qed
qed

lemma length_ballot_line: "length (ballot_line b (unat (index :: u32)) es) \<le> 2056 * length es + 14"
proof -
  have "unat index < 10 ^ 10" using unsigned_less [of index, where ?'a = nat] by simp
  moreover have "length (fmt_dec (of_bool b)) = 1" by (cases b) (simp_all add: fmt_dec.simps)
  ultimately show ?thesis using length_fmt_dec [of "unat index" 10]
    by (simp only: ballot_line_def length_append list.size length_selections_text) simp
qed

context platform_mem
begin

text \<open>The ballots are appended, whatever the file holds.\<close>

lemma export_loop_appends:
  assumes "voting_ok s" "vs_coordinator s = Some c" "n \<le> unat (vc_buffered_num_ballots c)"
    and "\<forall>x \<in> set (buffered s c). length (snd x) = unat (vc_num_selections c) \<and> (\<forall>e \<in> set (snd x). encryption_ok e)"
    and "n * (2056 * unat (vc_num_selections c) + 14) \<le> out_room out"
  shows "\<exists>index' more. loop n (export_ballot_step E (vs_box s) c) (VOTING_COORDINATOR_SUCCESS, index, at_end out, False) =
      Some (VOTING_COORDINATOR_SUCCESS, index', at_end (wrote out more), False) \<and>
    length more \<le> n * (2056 * unat (vc_num_selections c) + 14)"
  using assms(3,5)
proof (induction n)
  case 0
  then show ?case by (auto intro!: exI [of _ "[]"])
next
  case (Suc n)
  let ?k = "2056 * unat (vc_num_selections c) + 14"
  obtain index' more where IH: "loop n (export_ballot_step E (vs_box s) c) (VOTING_COORDINATOR_SUCCESS, index, at_end out, False) =
      Some (VOTING_COORDINATOR_SUCCESS, index', at_end (wrote out more), False)" "length more \<le> n * ?k"
    using Suc by force
  let ?x = "buffered s c ! n"
  let ?line = "ballot_line (fst ?x) (unat index') (snd ?x)"
  have x: "?x \<in> set (buffered s c)" using Suc.prems(1) by simp
  then have len: "length ?line \<le> ?k" using length_ballot_line [of "fst ?x" index' "snd ?x"] assms(4) by auto
  have "export_ballot_step E (vs_box s) c n (VOTING_COORDINATOR_SUCCESS, index', at_end (wrote out more), False) =
      Some (VOTING_COORDINATOR_SUCCESS, index' + 1, at_end (wrote (wrote out more) ?line), False)"
    using Suc.prems len IH(2) x assms(4) by (intro export_step [OF assms(1,2)]) auto
  then show ?case
    using IH len by (intro exI [of _ "index' + 1"] exI [of _ "more @ ?line"]) simp
qed

text \<open>Whatever an export finds in the file, it writes its header over the first characters.\<close>

lemma later_export:
  assumes "voting_ok s" "vs_coordinator s = Some c"
    and "\<forall>x \<in> set (buffered s c). length (snd x) = unat (vc_num_selections c) \<and> (\<forall>e \<in> set (snd x). encryption_ok e)"
    and "length (header_text (vc_registered_num_ballots c) (vc_num_selections c)) +
      unat (vc_buffered_num_ballots c) * (2056 * unat (vc_num_selections c) + 14) \<le> out_room (rw_before f)"
  shows "\<exists>fl s' more. Voting_Coordinator_export_buffered_ballots E s f = Some (VOTING_COORDINATOR_SUCCESS, fl, s') \<and>
    rw_text fl = header_text (vc_registered_num_ballots c) (vc_num_selections c) @
      drop (length (header_text (vc_registered_num_ballots c) (vc_num_selections c))) (rw_text f) @ more"
proof -
  let ?h = "header_text (vc_registered_num_ballots c) (vc_num_selections c)"
  let ?out = "(rw_before f)\<lparr>out_text := []\<rparr>"
  let ?g = "\<lparr>rw_before = wrote ?out ?h, rw_after = drop (length ?h) (rw_text f)\<rparr>"
  let ?o = "(wrote ?out ?h)\<lparr>out_text := ?h @ drop (length ?h) (rw_text f)\<rparr>"
  have b: "buffered_ok s c" using assms(1,2) by (simp add: voting_ok_def)
  obtain ids where clear: "Voting_Coordinator_clear_buffer c =
      Some (VOTING_COORDINATOR_SUCCESS, c\<lparr>vc_buffered_external_id := ids, vc_buffered_num_ballots := 0\<rparr>)"
    using clear_buffer_total [OF b] by blast
  have start: "fseek_start f = \<lparr>rw_before = ?out, rw_after = rw_text f\<rparr>" by (simp add: fseek_start_def)
  have h: "at_position (\<lambda>out. Some (Voting_Coordinator_write_ballots_file_header c out)) \<lparr>rw_before = ?out, rw_after = rw_text f\<rparr> =
      Some (VOTING_COORDINATOR_SUCCESS, ?g)"
    using assms(4) by (simp add: at_position_def write_header)
  have nl: "count_newlines ?g = (length (filter (\<lambda>x. x = CHR 0x0A) (drop (length ?h) (rw_text f))), at_end ?o)"
    by (simp add: count_newlines_def at_end_def rw_text_def)
  have "unat (vc_buffered_num_ballots c) * (2056 * unat (vc_num_selections c) + 14) \<le> out_room ?o" using assms(4) by simp
  from export_loop_appends [OF assms(1,2) order_refl assms(3) this]
  obtain index' more where l: "loop (unat (vc_buffered_num_ballots c)) (export_ballot_step E (vs_box s) c)
      (VOTING_COORDINATOR_SUCCESS, of_nat (length (filter (\<lambda>x. x = CHR 0x0A) (drop (length ?h) (rw_text f)))), at_end ?o, False) =
    Some (VOTING_COORDINATOR_SUCCESS, index', at_end (wrote ?o more), False)" by blast
  have "Voting_Coordinator_export_buffered_ballots E s f = Some (VOTING_COORDINATOR_SUCCESS, at_end (wrote ?o more),
      s\<lparr>vs_coordinator := Some (c\<lparr>vc_buffered_external_id := ids, vc_buffered_num_ballots := 0\<rparr>)\<rparr>)"
    by (simp add: Voting_Coordinator_export_buffered_ballots_def assms(2) start h nl l clear)
  moreover have "rw_text (at_end (wrote ?o more)) = ?h @ drop (length ?h) (rw_text f) @ more"
    by (simp add: rw_text_def at_end_def)
  ultimately show ?thesis by blast
qed

end

text \<open>A ballot line without its mark is not read.\<close>

lemma loop_same: "(\<And>i. i < n \<Longrightarrow> f i s = Some s) \<Longrightarrow> loop n f s = Some s"
  by (induction n) simp_all

lemma tally_damaged:
  assumes "es \<noteq> []" "unat (dt_num_selections t) \<le> MAX_SELECTIONS" "k < 2 ^ 31"
  shows "\<exists>inp. tally_ballot_step E G i (DECRYPTION_TRUSTEE_SUCCESS, CHR 0x09 # fmt_dec k @ selections_text es @ rest, t) =
    Some (DECRYPTION_TRUSTEE_IO_ERROR, inp, t)"
proof -
  obtain e es' where es: "es = e # es'" using assms(1) by (cases es) auto
  have d: "fscanf_d (CHR 0x09 # fmt_dec k @ selections_text es @ rest) = Some (1, int k, selections_text es @ rest)"
    using assms(3) by (simp add: fscanf_d_space fscanf_d_fmt plain_tails es)
  have paren: "dec_value (CHR ''('') = None" by code_simp
  obtain inp where lu: "fscanf_lu (fscanf_space (selections_text es @ rest)) = Some (0, 0, inp)"
    by (simp add: es fscanf_space_def fscanf_lu_def fscanf_dec_def encryption_text_def scan_sign_plain paren)
  let ?blank = "replicate MAX_SELECTIONS Crypto_encryption_rep_new"
  have blank: "for_array (unat (dt_num_selections t)) (\<lambda>_ _. Some Crypto_encryption_rep_new) ?blank = Some ?blank"
    using assms(2) by (subst for_array_ok [where g = "\<lambda>_. Crypto_encryption_rep_new"])
      (auto simp: map_replicate_const simp flip: replicate_add)
  have "loop n (read_selection_step E) (DECRYPTION_TRUSTEE_IO_ERROR, inp, ?blank) =
      Some (DECRYPTION_TRUSTEE_IO_ERROR, inp, ?blank)" for n
    by (rule loop_same) (simp add: read_selection_step_def)
  then show ?thesis
    by (simp add: tally_ballot_step_def blank Decryption_Trustee_read_ballot_def d lu)
qed

text \<open>The record is refused when its first ballot is.\<close>

lemma record_damaged:
  assumes "es \<noteq> []" "unat (dt_num_selections t) \<le> MAX_SELECTIONS" "k < 2 ^ 31" "0 < n"
  shows "\<exists>inp. Decryption_Trustee_tally_voting_record E G
      (header_text n (dt_num_selections t) @ CHR 0x09 # fmt_dec k @ selections_text es @ rest) t =
    Some (DECRYPTION_TRUSTEE_IO_ERROR, inp, t)"
proof -
  let ?rest = "CHR 0x09 # fmt_dec k @ selections_text es @ rest"
  have u: "unat (ucast w :: u64) = unat w" for w :: u32
    using unsigned_less [of w, where ?'a = nat] by (simp add: unsigned_ucast_eq take_bit_nat_eq_self_iff)
  have h: "fscanf_lu (fmt_dec (unat w) @ CHR 0x0A # s) = Some (1, ucast w, CHR 0x0A # s)" for w :: u32 and s
    using fscanf_lu_fmt [OF plain_tails(2), of "ucast w"] by (simp add: u)
  have sp: "fscanf_space (CHR 0x0A # fmt_dec m @ s) = fmt_dec m @ s" for m s
    using fscanf_space_dec [of m s] by (simp add: fscanf_space_def)
  have sp': "fscanf_space (CHR 0x0A # ?rest) = fmt_dec k @ selections_text es @ rest"
    using fscanf_space_dec [of k] by (simp add: fscanf_space_def)
  have tab: "tally_ballot_step E G i (DECRYPTION_TRUSTEE_SUCCESS, CHR 0x09 # inp, t) =
      tally_ballot_step E G i (DECRYPTION_TRUSTEE_SUCCESS, inp, t)" for i inp
    by (simp add: tally_ballot_step_def Decryption_Trustee_read_ballot_def fscanf_d_space)
  obtain inp where one: "tally_ballot_step E G 0 (DECRYPTION_TRUSTEE_SUCCESS, fmt_dec k @ selections_text es @ rest, t) =
      Some (DECRYPTION_TRUSTEE_IO_ERROR, inp, t)"
    using tally_damaged [OF assms(1-3), of E G 0 rest] unfolding tab by blast
  obtain m where m: "unat n = Suc m" using assms(4) by (metis not0_implies_Suc unat_0_iff less_irrefl)
  have "loop (Suc m) (tally_ballot_step E G) (DECRYPTION_TRUSTEE_SUCCESS, fmt_dec k @ selections_text es @ rest, t) =
      Some (DECRYPTION_TRUSTEE_IO_ERROR, inp, t)"
  proof (induction m)
    case 0
    then show ?case using one by simp
  next
    case (Suc m)
    have "tally_ballot_step E G (Suc m) (DECRYPTION_TRUSTEE_IO_ERROR, inp, t) = Some (DECRYPTION_TRUSTEE_IO_ERROR, inp, t)"
      by (simp add: tally_ballot_step_def)
    with Suc show ?case by (subst loop.simps(2)) (simp only: bind.bind_lunit)
  qed
  moreover have "unat (ucast n :: u64) = Suc m" using m u by simp
  ultimately show ?thesis
    by (simp add: Decryption_Trustee_tally_voting_record_def header_text_def h sp sp')
qed

end
