(* ===== verification/EncrypterProofs.thy ===== *)
theory EncrypterProofs
  imports VotingEncrypter CryptoClaims
begin

text \<open>
  What the encrypter makes of the selections: whenever a ballot is encrypted without hashing numbers that
  are too short, its selections are encrypted one by one, with proofs that pass, and their sum has the
  nonce that the proof of the sum is made with.
\<close>

section \<open>Validation\<close>

definition num_selected :: "bool list \<Rightarrow> nat \<Rightarrow> nat" where
  "num_selected sels n = length (filter id (take n sels))"

lemma num_selected_Suc: "n < length sels \<Longrightarrow> num_selected sels (Suc n) = num_selected sels n + of_bool (sels ! n)"
  by (simp add: num_selected_def take_Suc_conv_app_nth)

lemma num_selected_le: "num_selected sels n \<le> n"
  unfolding num_selected_def using length_filter_le [of id "take n sels"] by simp

lemma Validate_selections_eq:
  "Validate_selections sels num expected =
     (if unat num \<le> length sels then Some (num_selected sels (unat num) = unat expected) else None)"
proof -
  have l: "loop n (\<lambda>i count. do { s \<leftarrow> arr_get sels i; Some (if s then count + 1 else count) }) 0 =
      (if n \<le> length sels then Some (of_nat (num_selected sels n) :: u32) else None)" for n
  proof (induction n)
    case 0
    then show ?case by (simp add: num_selected_def)
  next
    case (Suc n)
    then show ?case by (cases "n < length sels") (auto simp: num_selected_Suc)
  qed
  have "unat (of_nat (num_selected sels (unat num)) :: u32) = num_selected sels (unat num)"
    using num_selected_le [of sels "unat num"] unsigned_less [of num, where ?'a = nat] by (simp add: unat_of_nat)
  then have "(of_nat (num_selected sels (unat num)) = expected) = (num_selected sels (unat num) = unat expected)"
    by (metis word_unat_eq_iff)
  then show ?thesis by (simp add: Validate_selections_def l)
qed

section \<open>One selection\<close>

context platform_mem
begin

text \<open>A number that was hashed takes 64 words.\<close>

lemma hash_update_p_Some:
  assumes "0 \<le> v" "Crypto_hash_update_bignum_p E v context = Some c"
  shows "fits 64 v"
proof -
  have "\<not> v < 2 ^ (64 * 63)" using hash_update_p_short [OF assms(1)] assms(2) by auto
  moreover have "v < 2 ^ (64 * 64)"
  proof (rule ccontr)
    assume v: "\<not> v < 2 ^ (64 * 64)"
    have "(0 :: int) < 2 ^ (64 * 64)" by simp
    with v have pos: "0 < v" by linarith
    have "64 < length (mpz_export_u64 E v)"
    proof (rule ccontr)
      assume "\<not> 64 < length (mpz_export_u64 E v)"
      then have "(2 :: int) ^ (64 * length (mpz_export_u64 E v)) \<le> 2 ^ (64 * 64)" by (intro power_increasing) auto
      with export_bounds(2) [OF pos] v show False by linarith
    qed
    then have "export_to_64_t E v 64 = None" using malloc_ok [of "8 * 64"] by (auto simp: export_to_64_t_def)
    with assms(2) show False
      by (auto simp: Crypto_hash_update_bignum_p_def Serialize_reserve_write_bignum_def Serialize_write_uint4096_def
          Serialize_write_uint64_ts_def UINT4096_WORD_COUNT_def bind_eq_Some_conv)
  qed
  ultimately show ?thesis by (simp add: fits_def)
qed

lemma generate_dis_proof_fits:
  assumes "0 \<le> nonce_encoding e" "0 \<le> message_encoding e"
    and "Crypto_generate_dis_proof E G source h selected pk e nonce = Some (proof, source')"
  shows "encryption_ok e"
proof -
  obtain st u s1 where 1: "RandomSource_uniform_bignum_o_q E G 0 source = (st, u, s1)" by (rule prod_cases3)
  obtain st' f s2 where 2: "RandomSource_uniform_bignum_o E 0 s1 = (st', f, s2)" by (rule prod_cases3)
  obtain st'' w s3 where 3: "RandomSource_uniform_bignum_o E 0 s2 = (st'', w, s3)" by (rule prod_cases3)
  obtain a b c where "Crypto_hash_update_bignum_p E (nonce_encoding e) a = Some b"
    "Crypto_hash_update_bignum_p E (message_encoding e) b = Some c"
    using assms(3) by (auto simp: Crypto_generate_dis_proof_def 1 2 3 bind_eq_Some_conv Let_def hash_update_encryption_def)
  with hash_update_p_Some assms(1,2) show ?thesis by (auto simp: encryption_ok_def)
qed

lemma encrypt_step:
  assumes G: "group_ok G" "in_group G (joint_key (ve_joint_key V))" and n: "0 \<le> nonce"
    and agg: "encrypts E G (joint_key (ve_joint_key V)) agg (int (num_selected sels i)) tally" "i = 0 \<Longrightarrow> agg = 0"
    and run: "encrypt_selection E G V sels i (encs, proofs, tally, nonce, agg, source, VOTING_ENCRYPTER_SUCCESS) = Some s'"
  obtains enc pf tally' nonce' agg' source' where
    "s' = (encs[i := enc], proofs[i := pf], tally', nonce', agg', source', VOTING_ENCRYPTER_SUCCESS)"
    "i < length sels" "0 \<le> nonce'"
    "encrypts E G (joint_key (ve_joint_key V)) nonce' (of_bool (sels ! i)) enc" "encryption_ok enc"
    "encrypts E G (joint_key (ve_joint_key V)) agg' (int (num_selected sels (Suc i))) tally'"
proof -
  let ?pk = "joint_key (ve_joint_key V)"
  obtain enc nonce' source1 where e: "Crypto_encrypt E G source (ve_joint_key V)
      (if sels ! i then generator G else bignum_one) nonce = (enc, nonce', source1)" by (rule prod_cases3)
  have i: "i < length sels" "i < length encs" "i < length proofs"
    using run e by (auto simp: encrypt_selection_def bind_eq_Some_conv arr_set_Some)
  obtain pf source2 where p: "Crypto_generate_dis_proof E G source1 (ve_base_hash V) (sels ! i) ?pk enc nonce' =
      Some (pf, source2)"
    using run e i by (auto simp: encrypt_selection_def bind_eq_Some_conv)
  have gen: "pow_mod_p E G (generator G) (of_bool b) = (if b then generator G else bignum_one)" for b
  proof -
    have "0 \<le> generator G" "generator G < par_p G" "1 < par_p G" using G(1) unfolding group_ok_def by blast+
    then show ?thesis by (cases b) (simp_all add: pow_mod_p_eq [OF G(1)] bignum_one_def)
  qed
  have "Crypto_encrypt E G source (ve_joint_key V) (pow_mod_p E G (generator G) (of_bool (sels ! i))) nonce =
      (enc, nonce', source1)"
    using e by (simp only: gen)
  from encrypt_encrypts [OF G(1) n _ this] have enc: "encrypts E G ?pk nonce' (of_bool (sels ! i)) enc" by simp
  then have parts: "0 \<le> nonce'" "nonce_encoding enc = pow_mod_p E G (generator G) nonce'"
    "message_encoding enc = mul_mod_p E G (pow_mod_p E G ?pk nonce') (if sels ! i then generator G else 1)"
    using gen [of "sels ! i"] by (auto simp: encrypts_def bignum_one_def)
  have "0 \<le> nonce_encoding enc" "0 \<le> message_encoding enc"
    using G parts by (simp_all add: pow_mod_p_eq mul_mod_p_eq)
  then have ok: "encryption_ok enc" using generate_dis_proof_fits p by blast
  have check: "Crypto_check_dis_proof E G pf enc (ve_base_hash V) ?pk"
    by (rule dis_proof_complete [OF G parts(1) p parts(2,3)])
  let ?agg = "if i = 0 then nonce' else add_mod_q E G agg nonce'"
  have "encrypts E G ?pk (agg + nonce') (int (num_selected sels i) + of_bool (sels ! i))
      (Crypto_encryption_homomorphic_add E G tally enc)"
    using add_encrypts [OF G(1) agg(1) enc] .
  then have "encrypts E G ?pk ?agg (int (num_selected sels (Suc i))) (Crypto_encryption_homomorphic_add E G tally enc)"
    using encrypts_reduce [OF G] agg(2) G(1) i(1) by (cases "i = 0") (simp_all add: num_selected_Suc add_mod_q_eq)
  then show thesis
    using run e p check i enc ok parts(1)
    by (intro that [of enc pf "Crypto_encryption_homomorphic_add E G tally enc" nonce' ?agg source2])
      (simp_all add: encrypt_selection_def)
qed

text \<open>All selections.\<close>

lemma encrypt_loop:
  assumes G: "group_ok G" "in_group G (joint_key (ve_joint_key V))"
    and len: "length encs = n" "length proofs = n"
    and run: "loop n (encrypt_selection E G V sels)
      (encs, proofs, Crypto_encryption_homomorphic_zero, 0, 0, source, VOTING_ENCRYPTER_SUCCESS) = Some s'"
  obtains encs' proofs' tally nonce agg source' where
    "s' = (encs', proofs', tally, nonce, agg, source', VOTING_ENCRYPTER_SUCCESS)" "length encs' = n"
    "\<forall>k < n. \<exists>r. encrypts E G (joint_key (ve_joint_key V)) r (of_bool (sels ! k)) (encs' ! k)"
    "\<forall>e \<in> set encs'. encryption_ok e"
    "encrypts E G (joint_key (ve_joint_key V)) agg (int (num_selected sels n)) tally"
proof -
  let ?pk = "joint_key (ve_joint_key V)"
  let ?P = "\<lambda>i s. \<exists>encs' proofs' tally nonce agg source'.
      s = (encs', proofs' :: dis_proof_rep list, tally, nonce, agg, source', VOTING_ENCRYPTER_SUCCESS) \<and>
      length encs' = n \<and> (0 :: int) \<le> nonce \<and> (i = 0 \<longrightarrow> agg = 0) \<and>
      encrypts E G ?pk agg (int (num_selected sels i)) tally \<and>
      (\<forall>k < i. encryption_ok (encs' ! k) \<and> (\<exists>r. encrypts E G ?pk r (of_bool (sels ! k)) (encs' ! k)))"
  have "?P n s'"
    using run
  proof (rule loop_invariant [where P = ?P])
    show "?P 0 (encs, proofs, Crypto_encryption_homomorphic_zero, 0, 0, source, VOTING_ENCRYPTER_SUCCESS)"
      using len zero_encrypts [OF G(1)] by (simp add: num_selected_def)
  next
    fix i s t
    assume i: "i < n" and "?P i s" and step: "encrypt_selection E G V sels i s = Some t"
    then obtain encs' proofs' tally nonce agg source' where
      s: "s = (encs', proofs', tally, nonce, agg, source', VOTING_ENCRYPTER_SUCCESS)" "length encs' = n" "0 \<le> nonce"
      "i = 0 \<longrightarrow> agg = 0" "encrypts E G ?pk agg (int (num_selected sels i)) tally"
      "\<forall>k < i. encryption_ok (encs' ! k) \<and> (\<exists>r. encrypts E G ?pk r (of_bool (sels ! k)) (encs' ! k))"
      by blast
    show "?P (Suc i) t"
    proof (rule encrypt_step [OF G s(3,5) _ step [unfolded s(1)]])
      fix enc pf tally' nonce' agg' source''
      assume "t = (encs'[i := enc], proofs'[i := pf], tally', nonce', agg', source'', VOTING_ENCRYPTER_SUCCESS)"
        "0 \<le> nonce'" "encrypts E G ?pk nonce' (of_bool (sels ! i)) enc" "encryption_ok enc"
        "encrypts E G ?pk agg' (int (num_selected sels (Suc i))) tally'"
      then show ?thesis
        using s(2,6) i by (auto simp: nth_list_update less_Suc_eq)
    qed (use s(4) in simp)
  qed
  then obtain encs' proofs' tally nonce agg source' where
    s: "s' = (encs', proofs', tally, nonce, agg, source', VOTING_ENCRYPTER_SUCCESS)" "length encs' = n"
      "encrypts E G ?pk agg (int (num_selected sels n)) tally"
      "\<forall>k < n. encryption_ok (encs' ! k) \<and> (\<exists>r. encrypts E G ?pk r (of_bool (sels ! k)) (encs' ! k))"
    by blast
  then have "\<forall>e \<in> set encs'. encryption_ok e" by (auto simp: in_set_conv_nth)
  with s show thesis by (intro that) blast+
qed

text \<open>The message of a valid ballot.\<close>

lemma encrypt_message_ok:
  assumes G: "group_ok G" "in_group G (joint_key (ve_joint_key V))"
    and b: "selections b = Some encs" "dis_proofs b = Some proofs" "num_selections b = ve_num_selections V"
      "length encs = unat (ve_num_selections V)" "length proofs = unat (ve_num_selections V)"
    and valid: "num_selected sels (unat (ve_num_selections V)) = unat expected"
    and run: "encrypt_message E G V sels expected b = Some (status, out, b', V')"
  obtains es source where "status = VOTING_ENCRYPTER_SUCCESS" "V' = V\<lparr>ve_source := source\<rparr>"
    "selections b' = Some es" "length es = unat (ve_num_selections V)" "encrypted_ballot_ok b'"
    "num_selections b' = num_selections b" "ballot_id b' = ballot_id b"
    "out = Some (bytes_message (enc_encrypted_ballot b'))"
    "\<forall>k < unat (ve_num_selections V). \<exists>r. encrypts E G (joint_key (ve_joint_key V)) r (of_bool (sels ! k)) (es ! k)"
proof -
  let ?pk = "joint_key (ve_joint_key V)" and ?n = "unat (ve_num_selections V)"
  obtain s' where l: "loop ?n (encrypt_selection E G V sels)
      (encs, proofs, Crypto_encryption_homomorphic_zero, 0, 0, ve_source V, VOTING_ENCRYPTER_SUCCESS) = Some s'"
    using run b by (auto simp: encrypt_message_def bind_eq_Some_conv Let_def)
  show thesis
    using l
  proof (rule encrypt_loop [OF G b(4,5)])
    fix es proofs' tally nonce agg source
    assume s: "s' = (es, proofs', tally, nonce, agg, source, VOTING_ENCRYPTER_SUCCESS)" "length es = ?n"
      "\<forall>k < ?n. \<exists>r. encrypts E G ?pk r (of_bool (sels ! k)) (es ! k)" "\<forall>e \<in> set es. encryption_ok e"
      "encrypts E G ?pk agg (int (num_selected sels ?n)) tally"
    obtain pf source' where p: "Crypto_generate_aggregate_cp_proof E G source agg tally (ve_base_hash V) ?pk = Some (pf, source')"
      using run b l s(1) by (auto simp: encrypt_message_def bind_eq_Some_conv Let_def)
    have "encrypts E G ?pk agg (uint expected) tally" using s(5) valid by simp
    then have check: "Crypto_check_aggregate_cp_proof E G pf tally (ve_base_hash V) ?pk expected = Some True"
      by (rule aggregate_proof_accepted [OF platform_axioms G _ p])
    let ?b = "b\<lparr>selections := Some es, dis_proofs := Some proofs', ballot_cp_proof := pf\<rparr>"
    have ok: "encrypted_ballot_ok ?b" using b(3) s(2,4) by (simp add: encrypted_ballot_ok_def)
    have "send E (Serialize_reserve_encrypted_ballot ?b) (Serialize_write_encrypted_ballot E ?b) =
        Some (Some (bytes_message (enc_encrypted_ballot ?b)))"
      by (rule ballot_codec.send_ok [OF platform_mem_axioms ok])
    then have "status = VOTING_ENCRYPTER_SUCCESS" "out = Some (bytes_message (enc_encrypted_ballot ?b))" "b' = ?b"
      "V' = V\<lparr>ve_source := source'\<rparr>"
      using run b l s(1) p check by (auto simp: encrypt_message_def Let_def)
    with ok s(2,3) show thesis by (intro that [of source' es]) simp_all
  qed
qed

text \<open>The whole ballot.\<close>

lemma encrypt_ballot_ok:
  assumes G: "group_ok G" "in_group G (joint_key (ve_joint_key V))"
    and run: "Voting_Encrypter_encrypt_ballot E G external_id sels expected V n = Some (r, V', n')"
  obtains es source msg where "eb_status r = VOTING_ENCRYPTER_SUCCESS" "V' = V\<lparr>ve_source := source\<rparr>" "n' = n + 1"
    "unat (ve_num_selections V) \<le> length sels" "num_selected sels (unat (ve_num_selections V)) = unat expected"
    "eb_message r = Some msg" "eb_id r = Some (bytes_message (le_bytes 8 n))"
    "Serialize_deserialize_register_ballot_message E msg fresh =
       Some (True, fresh\<lparr>ballot_id := n, num_selections := ve_num_selections V, selections := Some es\<rparr>)"
    "\<exists>bytes. msg = bytes_message bytes \<and> eb_tracker r = Some (sha256 E bytes)"
    "length es = unat (ve_num_selections V)" "\<forall>e \<in> set es. encryption_ok e"
    "\<forall>k < unat (ve_num_selections V). \<exists>r. encrypts E G (joint_key (ve_joint_key V)) r (of_bool (sels ! k)) (es ! k)"
proof -
  let ?N = "unat (ve_num_selections V)"
  have v: "?N \<le> length sels" using run by (auto simp: Voting_Encrypter_encrypt_ballot_def Validate_selections_eq split: if_splits)
  have valid: "num_selected sels ?N = unat expected"
  proof (rule ccontr)
    assume "num_selected sels ?N \<noteq> unat expected"
    with run v show False
      by (simp add: Voting_Encrypter_encrypt_ballot_def Validate_selections_eq Crypto_encrypted_ballot_free_def)
  qed
  have id: "send E Serialize_reserve_ballot_identifier (Serialize_write_ballot_identifier \<lparr>identifier_id = n\<rparr>) =
      Some (Some (bytes_message (le_bytes 8 n)))"
    using ballot_identifier_codec.send_ok [OF platform_mem_axioms TrueI, of "\<lparr>identifier_id = n\<rparr>"]
    by (simp add: enc_ballot_identifier_def)
  obtain x y z where mem: "malloc E (?N * 32) = Some x" "malloc E (?N * 144) = Some y" "malloc E SHA256_DIGEST_LENGTH = Some z"
    using malloc_ok by blast
  obtain b where b: "Crypto_encrypted_ballot_new E (ve_num_selections V) n = Some (CRYPTO_SUCCESS, b)"
    "ballot_id b = n" "num_selections b = ve_num_selections V" "selections b = Some (replicate ?N Crypto_encryption_rep_new)"
    "dis_proofs b = Some (replicate ?N Crypto_dis_proof_new)"
    using mem by (auto simp: Crypto_encrypted_ballot_new_def Let_def)
  have status: "Voting_Encrypter_Crypto_status_convert CRYPTO_SUCCESS = VOTING_ENCRYPTER_SUCCESS"
    by (simp add: Voting_Encrypter_Crypto_status_convert_def)
  obtain st out b' V1 where m: "encrypt_message E G V sels expected b = Some (st, out, b', V1)"
    using run valid v id b(1) status
    by (auto simp: Voting_Encrypter_encrypt_ballot_def Validate_selections_eq bind_eq_Some_conv Let_def)
  show thesis
  proof (rule encrypt_message_ok [OF G b(4,5,3) _ _ valid m])
    fix es source
    let ?bytes = "enc_encrypted_ballot b'"
    assume p: "st = VOTING_ENCRYPTER_SUCCESS" "V1 = V\<lparr>ve_source := source\<rparr>" "selections b' = Some es" "length es = ?N"
      "encrypted_ballot_ok b'" "num_selections b' = num_selections b" "ballot_id b' = ballot_id b"
      "out = Some (bytes_message ?bytes)"
      "\<forall>k < ?N. \<exists>r. encrypts E G (joint_key (ve_joint_key V)) r (of_bool (sels ! k)) (es ! k)"
    have r: "r = \<lparr>eb_status = VOTING_ENCRYPTER_SUCCESS, eb_message = Some (bytes_message ?bytes),
        eb_tracker = Some (sha256 E ?bytes), eb_id = Some (bytes_message (le_bytes 8 n))\<rparr>" "V' = V1" "n' = n + 1"
      using run valid v id b(1) status m p(1,8) mem(3)
      by (auto simp: Voting_Encrypter_encrypt_ballot_def Validate_selections_eq bind_eq_Some_conv Let_def bytes_message_def)
    have "Serialize_deserialize_register_ballot_message E (bytes_message ?bytes) fresh =
       Some (True, fresh\<lparr>ballot_id := n, num_selections := ve_num_selections V, selections := Some es\<rparr>)"
      using ballot_codec.parse [OF platform_mem_axioms p(5) TrueI, of fresh] p(3,6,7) b(2,3)
      by (simp add: Serialize_deserialize_register_ballot_message_def merge_encrypted_ballot_def message_reading_def)
    moreover have "\<forall>e \<in> set es. encryption_ok e" using p(3,5) by (auto simp: encrypted_ballot_ok_def)
    ultimately show thesis
      using p(2,4,9) r valid v by (intro that [of source "bytes_message ?bytes" es]) auto
  qed simp_all
qed

end

text \<open>A ballot with the wrong number of selections.\<close>

lemma encrypt_ballot_invalid:
  assumes "num_selected sels (unat (ve_num_selections V)) \<noteq> unat expected"
  shows "Voting_Encrypter_encrypt_ballot E G external_id sels expected V n = None"
  using assms by (simp add: Voting_Encrypter_encrypt_ballot_def Validate_selections_eq Crypto_encrypted_ballot_free_def)

end
