(* ===== verification/Election.thy ===== *)
theory Election
  imports LaterExport EncrypterProofs
begin

text \<open>
  A whole vote: ballots are encrypted, registered, and then cast or spoiled. What is buffered for the
  export are then encryptions of what was selected, with the decision of each voter.
\<close>

section \<open>Voters\<close>

text \<open>
  A voter has an external identifier, selections, the number of them, and casts the ballot or spoils it.
  The vote goes on as long as every request is answered with success.
\<close>

record voter =
  voter_id :: string
  voter_selections :: "bool list"
  voter_selected :: u32
  voter_casts :: bool

definition vote_step ::
    "env \<Rightarrow> params \<Rightarrow> encrypted_ballot_rep \<Rightarrow> voter \<Rightarrow> Voting_Encrypter \<times> u64 \<times> voting_state \<Rightarrow>
     (Voting_Encrypter \<times> u64 \<times> voting_state) option" where
  "vote_step E G fresh v = (\<lambda>(V, n, s).
     do {
       (r, V, n) \<leftarrow> Voting_Encrypter_encrypt_ballot E G (voter_id v) (voter_selections v) (voter_selected v) V n;
       msg \<leftarrow> eb_message r;
       (st, _, s) \<leftarrow> Voting_Coordinator_register_ballot E fresh (voter_id v) msg s;
       (st', _, s) \<leftarrow> (if voter_casts v then Voting_Coordinator_cast_ballot E (voter_id v) s
                      else Voting_Coordinator_spoil_ballot E (voter_id v) s);
       if st = VOTING_COORDINATOR_SUCCESS \<and> st' = VOTING_COORDINATOR_SUCCESS then Some (V, n, s) else None })"

primrec vote ::
    "env \<Rightarrow> params \<Rightarrow> encrypted_ballot_rep \<Rightarrow> voter list \<Rightarrow> Voting_Encrypter \<times> u64 \<times> voting_state \<Rightarrow>
     (Voting_Encrypter \<times> u64 \<times> voting_state) option" where
  "vote E G fresh [] x = Some x"
| "vote E G fresh (v # vs) x = do { x \<leftarrow> vote_step E G fresh v x; vote E G fresh vs x }"

section \<open>What is buffered\<close>

text \<open>The buffer holds a ballot of each voter: with the decision, and encryptions of the selections.\<close>

definition holds_vote :: "env \<Rightarrow> params \<Rightarrow> int \<Rightarrow> voter \<Rightarrow> bool \<times> encryption_rep list \<Rightarrow> bool" where
  "holds_vote E G pk v x \<longleftrightarrow>
     fst x = voter_casts v \<and> (\<forall>e \<in> set (snd x). encryption_ok e) \<and>
     (\<forall>j < length (snd x). \<exists>r. encrypts E G pk r (of_bool (voter_selections v ! j)) (snd x ! j))"

definition votes_buffered ::
    "env \<Rightarrow> params \<Rightarrow> int \<Rightarrow> voter list \<Rightarrow> u32 \<Rightarrow> voting_state \<Rightarrow> bool" where
  "votes_buffered E G pk vs num s \<longleftrightarrow> voting_ok s \<and>
     (\<exists>c. vs_coordinator s = Some c \<and> vc_num_selections c = num \<and>
        vc_registered_num_ballots c = vc_buffered_num_ballots c \<and>
        list_all2 (holds_vote E G pk) vs (buffered s c))"

text \<open>Deciding the ballot that was buffered last.\<close>

lemma buffered_decided:
  assumes "buffered_ok s c" "buffered s c = bs @ [(mark, es)]"
    and "vc_buffered_external_id c ! length bs = Some k"
    and "\<And>i. i < length bs \<Longrightarrow> vc_buffered_external_id c ! i \<noteq> Some k"
    and "box_map b = (box_map (vs_box s))(k \<mapsto> st)"
  shows "buffered (s\<lparr>vs_box := b\<rparr>) c = bs @ [(bs_cast st, es)]"
proof (rule nth_equalityI)
  have n: "unat (vc_buffered_num_ballots c) = Suc (length bs)"
    using assms(2) length_buffered [of s c] by simp
  then show "length (buffered (s\<lparr>vs_box := b\<rparr>) c) = length (bs @ [(bs_cast st, es)])" by simp
  fix i assume "i < length (buffered (s\<lparr>vs_box := b\<rparr>) c)"
  then have i: "i < Suc (length bs)" using n by simp
  have old: "buffered s c ! i = (bs_cast (the (box_map (vs_box s) (the (vc_buffered_external_id c ! i)))), the (vc_selections c ! i))"
    and new: "buffered (s\<lparr>vs_box := b\<rparr>) c ! i = (bs_cast (the (box_map b (the (vc_buffered_external_id c ! i)))), the (vc_selections c ! i))"
    using i n by (simp_all add: buffered_def del: upt_Suc)
  show "buffered (s\<lparr>vs_box := b\<rparr>) c ! i = (bs @ [(bs_cast st, es)]) ! i"
  proof (cases "i = length bs")
    case True
    then show ?thesis using old new assms(2,3,5) by (simp add: nth_append)
  next
    case False
    then have "i < length bs" using i by simp
    moreover obtain k' where "vc_buffered_external_id c ! i = Some k'"
      using assms(1) i n unfolding buffered_ok_def by metis
    moreover from this assms(4) [OF \<open>i < length bs\<close>] have "k' \<noteq> k" by simp
    ultimately show ?thesis using old new assms(2,5) by (simp add: nth_append)
  qed
qed

text \<open>The decision, as one update of the box.\<close>

lemma decide_Some:
  assumes "(if cst then Voting_Coordinator_cast_ballot E k s else Voting_Coordinator_spoil_ballot E k s) =
      Some (VOTING_COORDINATOR_SUCCESS, out, s')"
  obtains b where "Ballot_Collection_update E k cst (\<not> cst) (vs_box s) = Some (BALLOT_COLLECTION_SUCCESS, out, b)"
    "s' = s\<lparr>vs_box := b\<rparr>"
  using assms
  by (cases cst) (auto simp: Voting_Coordinator_cast_ballot_def Voting_Coordinator_spoil_ballot_def
      Ballot_Collection_mark_cast_def Ballot_Collection_mark_spoiled_def bind_eq_Some_conv split: if_splits)

lemma register_new:
  assumes "voting_ok s" "short_key k"
    and "Voting_Coordinator_register_ballot E fresh k msg s = Some (VOTING_COORDINATOR_SUCCESS, out, s')"
  shows "k \<notin> dom (box_map (vs_box s))"
  using duplicate_dangles [OF assms(1,2), of E fresh msg] assms(3) by auto

lemma if_Some_eq: "(if P then Some x else None) = Some y \<longleftrightarrow> P \<and> x = y"
  by simp

text \<open>One voter.\<close>

lemma vote_step_ok:
  assumes E: "platform_mem E" and G: "group_ok G" "in_group G (joint_key (ve_joint_key V))" and k: "short_key (voter_id v)"
    and inv: "votes_buffered E G (joint_key (ve_joint_key V)) vs (ve_num_selections V) s"
    and step: "vote_step E G fresh v (V, n, s) = Some (V', n', s')"
  shows "votes_buffered E G (joint_key (ve_joint_key V)) (vs @ [v]) (ve_num_selections V) s' \<and>
    ve_joint_key V' = ve_joint_key V \<and> ve_num_selections V' = ve_num_selections V"
proof -
  let ?pk = "joint_key (ve_joint_key V)" and ?k = "voter_id v"
  obtain c where c: "voting_ok s" "vs_coordinator s = Some c" "vc_num_selections c = ve_num_selections V"
    "vc_registered_num_ballots c = vc_buffered_num_ballots c" "list_all2 (holds_vote E G ?pk) vs (buffered s c)"
    using inv by (auto simp: votes_buffered_def)
  obtain r msg out s1 out' where run:
    "Voting_Encrypter_encrypt_ballot E G ?k (voter_selections v) (voter_selected v) V n = Some (r, V', n')"
    "eb_message r = Some msg"
    "Voting_Coordinator_register_ballot E fresh ?k msg s = Some (VOTING_COORDINATOR_SUCCESS, out, s1)"
    "(if voter_casts v then Voting_Coordinator_cast_ballot E ?k s1 else Voting_Coordinator_spoil_ballot E ?k s1) =
       Some (VOTING_COORDINATOR_SUCCESS, out', s')"
    using step by (auto simp: vote_step_def bind_eq_Some_conv if_Some_eq split del: if_split)
  obtain es source where enc: "V' = V\<lparr>ve_source := source\<rparr>" "length es = unat (ve_num_selections V)"
    "Serialize_deserialize_register_ballot_message E msg fresh =
       Some (True, fresh\<lparr>ballot_id := n, num_selections := ve_num_selections V, selections := Some es\<rparr>)"
    "\<forall>e \<in> set es. encryption_ok e"
    "\<forall>j < unat (ve_num_selections V). \<exists>r. encrypts E G ?pk r (of_bool (voter_selections v ! j)) (es ! j)"
    by (rule platform_mem.encrypt_ballot_ok [OF E G run(1), of fresh], rule that) (use run(2) in auto)
  have new: "?k \<notin> dom (box_map (vs_box s))" by (rule register_new [OF c(1) k run(3)])
  from register_Some [OF c(1) k new run(3)] c(2) enc(3) obtain track b c' where
    reg: "box_map b = (box_map (vs_box s))(?k \<mapsto> new_ballot ?k track (vc_registered_num_ballots c))"
      "unat (vc_buffered_num_ballots c) < MAX_BALLOT_PAYLOAD"
      "c' = c\<lparr>vc_buffered_external_id := (vc_buffered_external_id c)[unat (vc_buffered_num_ballots c) := Some ?k],
              vc_selections := (vc_selections c)[unat (vc_buffered_num_ballots c) := Some es],
              vc_registered_num_ballots := vc_registered_num_ballots c + 1,
              vc_buffered_num_ballots := vc_buffered_num_ballots c + 1\<rparr>"
      "s1 = s\<lparr>vs_box := b, vs_coordinator := Some c'\<rparr>"
    by auto
  have ok1: "voting_ok s1" by (rule register_ok(1) [OF c(1) k new run(3)])
  have bok: "buffered_ok s c" "buffered_ok s1 c'" using c(1,2) ok1 reg(4) by (simp_all add: voting_ok_def)
  have buf: "buffered s1 c' = buffered s c @ [(False, es)]"
    using bok(1) new reg(2,1) unfolding reg(3,4) by (rule buffered_snoc) (simp add: new_ballot_def)
  obtain b' where u: "Ballot_Collection_update E ?k (voter_casts v) (\<not> voter_casts v) (vs_box s1) =
      Some (BALLOT_COLLECTION_SUCCESS, out', b')" "s' = s1\<lparr>vs_box := b'\<rparr>"
    using decide_Some [OF run(4)] by blast
  have "collection_ok (vs_box s1)" using ok1 by (simp add: voting_ok_def)
  from update_correct [OF this k _ u(1)] obtain st where
    m: "box_map b' = (box_map (vs_box s1))(?k \<mapsto> st\<lparr>bs_cast := voter_casts v, bs_spoiled := \<not> voter_casts v\<rparr>)"
    by auto
  have ok': "voting_ok s'" using update_phases(1) [OF ok1 k _ u(1)] u(2) by simp
  have "length (vc_buffered_external_id c) = MAX_BALLOT_PAYLOAD" using bok(1) by (simp add: buffered_ok_def)
  then have ids: "vc_buffered_external_id c' ! length (buffered s c) = Some ?k"
    "vc_buffered_external_id c' ! i \<noteq> Some ?k" if "i < length (buffered s c)" for i
    using that bok(1) new reg(2) unfolding buffered_ok_def by (auto simp: reg(3))
  have "buffered s' c' = buffered s c @ [(bs_cast (st\<lparr>bs_cast := voter_casts v, bs_spoiled := \<not> voter_casts v\<rparr>), es)]"
    unfolding u(2) using bok(2) buf
    by (rule buffered_decided [OF _ _ _ _ m]) (use \<open>length (vc_buffered_external_id c) = MAX_BALLOT_PAYLOAD\<close> ids(2) reg(2,3) in auto)
  moreover have "holds_vote E G ?pk v (voter_casts v, es)" using enc(2,4,5) by (simp add: holds_vote_def)
  ultimately have "list_all2 (holds_vote E G ?pk) (vs @ [v]) (buffered s' c')"
    using c(5) by (simp add: list_all2_appendI)
  moreover have "vs_coordinator s' = Some c'" by (simp add: u(2) reg(4))
  ultimately show ?thesis using ok' c(3,4) enc(1) by (simp add: votes_buffered_def reg(3))
qed

lemma vote_ok:
  assumes "platform_mem E" "group_ok G" "in_group G (joint_key (ve_joint_key V))" "\<forall>v \<in> set ws. short_key (voter_id v)"
    and "votes_buffered E G (joint_key (ve_joint_key V)) vs (ve_num_selections V) s"
    and "vote E G fresh ws (V, n, s) = Some (V', n', s')"
  shows "votes_buffered E G (joint_key (ve_joint_key V)) (vs @ ws) (ve_num_selections V) s'"
  using assms(3-)
proof (induction ws arbitrary: vs V n s)
  case (Cons w ws)
  obtain V1 n1 s1 where step: "vote_step E G fresh w (V, n, s) = Some (V1, n1, s1)"
    "vote E G fresh ws (V1, n1, s1) = Some (V', n', s')"
    using Cons.prems(4) by (auto simp: bind_eq_Some_conv)
  have "short_key (voter_id w)" using Cons.prems(2) by simp
  note one = vote_step_ok [OF assms(1,2) Cons.prems(1) this Cons.prems(3) step(1)]
  have "votes_buffered E G (joint_key (ve_joint_key V1)) ((vs @ [w]) @ ws) (ve_num_selections V1) s'"
    using one Cons.prems(1,2) by (intro Cons.IH [OF _ _ _ step(2)]) simp_all
  with one show ?case by simp
qed simp

section \<open>Tallying the votes\<close>

lemma votes_tallied:
  assumes "platform E" "group_ok G" "list_all2 (holds_vote E G pk) vs bs" "\<forall>x \<in> set bs. length (snd x) = num"
    and "j < num" "num \<le> length ts" "\<exists>r. encrypts E G pk r m (ts ! j)"
  shows "\<exists>r. encrypts E G pk r (m + (\<Sum>v \<leftarrow> filter voter_casts vs. of_bool (voter_selections v ! j)))
    (fold (add_ballot E G) bs ts ! j)"
  using assms(3,4,6,7)
proof (induction arbitrary: ts m rule: list_all2_induct)
  case (Cons v vs x bs)
  let ?ts = "add_ballot E G x ts"
  let ?m = "if voter_casts v then of_bool (voter_selections v ! j) else 0"
  have len: "length (snd x) = num" "length ?ts = length ts" using Cons.prems(1,2) by (simp_all add: add_ballot_def)
  obtain r where r: "encrypts E G pk r m (ts ! j)" using Cons.prems(3) by blast
  obtain r' where "fst x = voter_casts v" "encrypts E G pk r' (of_bool (voter_selections v ! j)) (snd x ! j)"
    using Cons.hyps(1) len assms(5) by (auto simp: holds_vote_def)
  with platform.add_encrypts [OF assms(1,2) r this(2)] r have "\<exists>r. encrypts E G pk r (m + ?m) (?ts ! j)"
    using len(1) assms(5) by (auto simp: add_ballot_def nth_append)
  then have "\<exists>r. encrypts E G pk r ((m + ?m) + (\<Sum>v \<leftarrow> filter voter_casts vs. of_bool (voter_selections v ! j)))
      (fold (add_ballot E G) bs ?ts ! j)"
    using Cons.prems(1,2) len(2) by (intro Cons.IH) simp_all
  then show ?case by (cases "voter_casts v"; cases "voter_selections v ! j") (simp_all add: add.assoc)
qed simp

lemma length_header_text: "length (header_text n num) \<le> 22"
proof -
  have "unat w < 10 ^ 10" for w :: u32 using unsigned_less [of w, where ?'a = nat] by simp
  then show ?thesis using length_fmt_dec [of "unat n" 10] length_fmt_dec [of "unat num" 10]
    by (simp add: header_text_def)
qed

lemma length_lines_text:
  assumes "\<forall>x \<in> set bs. length (snd x) = num" "n \<le> length bs" "n < 2 ^ 32"
  shows "length (lines_text bs n) \<le> n * (2056 * num + 14)"
  using assms(2,3)
proof (induction n)
  case (Suc n)
  have "unat (of_nat n :: u32) = n" using Suc.prems(2) by (simp add: unat_of_nat)
  moreover have "length (snd (bs ! n)) = num" using assms(1) Suc.prems(1) by simp
  ultimately have "length (ballot_line (fst (bs ! n)) n (snd (bs ! n))) \<le> 2056 * num + 14"
    using length_ballot_line [of "fst (bs ! n)" "of_nat n" "snd (bs ! n)"] by simp
  with Suc show ?case by (simp add: lines_text_Suc)
qed (simp add: lines_text_def)

text \<open>The record of the votes, written and tallied.\<close>

lemma votes_recorded:
  assumes "platform_mem E" "group_ok G" "votes_buffered E G pk vs num s"
    and "out_text out = []" "22 + length vs * (2056 * unat num + 14) \<le> out_room out"
    and "dt_num_selections t = num" "unat num \<le> MAX_SELECTIONS"
    and "dt_tallies t = replicate MAX_SELECTIONS Crypto_encryption_homomorphic_zero"
  shows "\<exists>fl s' rest t'.
    Voting_Coordinator_export_buffered_ballots E s (at_end out) = Some (VOTING_COORDINATOR_SUCCESS, fl, s') \<and>
    Decryption_Trustee_tally_voting_record E G (rw_text fl) t = Some (DECRYPTION_TRUSTEE_SUCCESS, rest, t') \<and>
    (\<forall>j < unat num. \<exists>r.
       encrypts E G pk r (\<Sum>v \<leftarrow> filter voter_casts vs. of_bool (voter_selections v ! j)) (dt_tallies t' ! j))"
proof -
  have P: "platform E" using assms(1) by (rule platform_mem.axioms(1))
  obtain c where c: "voting_ok s" "vs_coordinator s = Some c" "vc_num_selections c = num"
    "vc_registered_num_ballots c = vc_buffered_num_ballots c" "list_all2 (holds_vote E G pk) vs (buffered s c)"
    using assms(3) by (auto simp: votes_buffered_def)
  let ?n = "unat (vc_buffered_num_ballots c)"
  have sel: "\<forall>x \<in> set (buffered s c). length (snd x) = unat num" using buffered_selections [OF c(1,2)] c(3) by simp
  have ok: "\<forall>x \<in> set (buffered s c). \<forall>e \<in> set (snd x). encryption_ok e"
    using c(5) by (induction rule: list_all2_induct) (simp_all add: holds_vote_def)
  have n: "length vs = ?n" using list_all2_lengthD [OF c(5)] by simp
  have "?n < 2 ^ 32" using unsigned_less [of "vc_buffered_num_ballots c", where ?'a = nat] by simp
  then have "length (lines_text (buffered s c) ?n) \<le> ?n * (2056 * unat num + 14)"
    using length_lines_text [OF sel, of ?n] by simp
  then have room: "length (header_text (vc_registered_num_ballots c) (vc_num_selections c) @
      lines_text (buffered s c) ?n) \<le> out_room out"
    using length_header_text [of "vc_registered_num_ballots c" "vc_num_selections c"] assms(5) n by simp
  obtain fl s' where f: "Voting_Coordinator_export_buffered_ballots E s (at_end out) = Some (VOTING_COORDINATOR_SUCCESS, fl, s')"
    "rw_text fl = header_text (vc_registered_num_ballots c) (vc_num_selections c) @ lines_text (buffered s c) ?n"
    using platform_mem.first_export [OF assms(1) c(1,2) assms(4) ok room] by blast
  let ?t = "t\<lparr>dt_tallies := fold (add_ballot E G) (buffered s c) (dt_tallies t)\<rparr>"
  obtain rest where r: "Decryption_Trustee_tally_voting_record E G (rw_text fl) t = Some (DECRYPTION_TRUSTEE_SUCCESS, rest, ?t)"
    using platform_mem.tally_record [OF assms(1), of "buffered s c" t "vc_registered_num_ballots c" G] sel ok c(3,4) assms(6-8)
    by (auto simp: f(2))
  have "\<exists>r. encrypts E G pk r (0 + (\<Sum>v \<leftarrow> filter voter_casts vs. of_bool (voter_selections v ! j))) (dt_tallies ?t ! j)"
    if "j < unat num" for j
    using votes_tallied [OF P assms(2) c(5) sel that, of "dt_tallies t" 0] that assms(7,8)
      exI [of "\<lambda>r. encrypts E G pk r 0 Crypto_encryption_homomorphic_zero", OF platform.zero_encrypts [OF P assms(2)]]
    by simp
  with f(1) r show ?thesis by (intro exI [of _ fl] exI [of _ s'] exI [of _ rest] exI [of _ ?t]) simp
qed

end
