(* ===== verification/EncrypterClaims.thy ===== *)
theory EncrypterClaims
  imports EncrypterProofs ExampleGroup
begin

text \<open>The properties of the encrypter, with an instance in the group of \<open>ExampleGroup\<close>.\<close>

section \<open>An encrypter\<close>

definition example_encrypter :: Voting_Encrypter where
  "example_encrypter =
     \<lparr>ve_uid = [], ve_joint_key = \<lparr>joint_num_trustees = 1, joint_key = elt 8\<rparr>, ve_num_selections = 1,
      ve_base_hash = example_hash,
      ve_source = replicate 511 0 @ 1 # replicate 31 0 @ 1 # replicate 511 0 @ 5 # replicate 511 0 @ 1 #
        replicate 31 0 @ [1]\<rparr>"

lemma order5_key: "in_group order5_group (elt 8)"
  using elt_power [of 8 5] by (simp add: in_group_def)

lemma order5_one: "elt 1 = 1"
  by (simp add: elt_def)

lemma order5_unit: "in_group order5_group 1"
proof -
  have "1 mod (31 * wide_unit) = 1" using wide_unit(1) by (intro mod_pos_pos_trivial) linarith+
  then show ?thesis by (simp add: in_group_def)
qed

lemma order5_div_one:
  assumes "0 \<le> a" "a < par_p order5_group"
  shows "div_mod_p ref_env order5_group a 1 = a"
proof -
  let ?x = "div_mod_p ref_env order5_group a 1"
  have "mul_mod_p ref_env order5_group ?x 1 = a"
    using ref.div_mul [OF order5_group_ok order5_unit, of a] assms by simp
  moreover have "mul_mod_p ref_env order5_group ?x 1 = ?x"
    using ref.mul_one [OF order5_group_ok, of ?x] ref.mul_reduced [OF order5_group_ok] by (simp add: div_mod_p_def)
  ultimately show ?thesis by simp
qed

lemma elt_range: "1 \<le> u \<Longrightarrow> u \<le> 31 \<Longrightarrow> 0 \<le> elt u \<and> elt u < par_p order5_group"
proof -
  assume u: "1 \<le> u" "u \<le> 31"
  then have "wide_unit * 0 \<le> wide_unit * (u - 1)" "wide_unit * (u - 1) \<le> wide_unit * 30"
    using wide_unit(1) by (intro mult_left_mono; simp)+
  then have "0 \<le> elt u" "elt u < 31 * wide_unit" using wide_unit(1) unfolding elt_def by linarith+
  then show ?thesis by simp
qed

lemma example_fake_commitment:
  "dis_fake_commitment ref_env order5_group True (elt 8) example_vote 5 1 =
     \<lparr>nonce_encoding = elt 2, message_encoding = elt 8\<rparr>"
  using order5_div_one elt_range [of 2] elt_range [of 8]
  by (simp add: dis_fake_commitment_def example_vote_def order5_pow order5_one)

lemma example_selection:
  "\<exists>pr. encrypt_selection ref_env order5_group example_encrypter [True] 0
     ([e], [d], Crypto_encryption_homomorphic_zero, 0, 0, ve_source example_encrypter, VOTING_ENCRYPTER_SUCCESS) =
   Some ([example_vote], [pr], example_vote, 1, 1, replicate 31 0 @ [1], VOTING_ENCRYPTER_SUCCESS)"
proof -
  let ?key = "\<lparr>joint_num_trustees = 1, joint_key = elt 8\<rparr>"
  let ?rest = "replicate 31 0 @ 1 # replicate 511 0 @ 5 # replicate 511 0 @ 1 # replicate 31 0 @ [1 :: u8]"
  have e: "Crypto_encrypt ref_env order5_group (ve_source example_encrypter) ?key (elt 2) 0 = (example_vote, 1, ?rest)"
    using ref.sample_byte [of 1 0 ?rest]
    by (simp add: Crypto_encrypt_def example_encrypter_def example_vote_def order5_pow order5_mul)
  obtain pr where g: "Crypto_generate_dis_proof ref_env order5_group ?rest example_hash True (elt 8)
      example_vote 1 = Some (pr, replicate 31 0 @ [1])"
    using ref.hash_update_p_fits [OF elt_fits [of 2]] ref.hash_update_p_fits [OF elt_fits [of 8]]
      ref.hash_update_p_fits [OF elt_fits [of 16]] ref.hash_init_base_fits [OF example_hash_fits]
      ref.sample_byte_q [of 1 order5_group 0 "replicate 511 0 @ 5 # replicate 511 0 @ 1 # replicate 31 0 @ [1]"]
      ref.sample_byte [of 5 0 "replicate 511 0 @ 1 # replicate 31 0 @ [1]"] ref.sample_byte [of 1 0 "replicate 31 0 @ [1]"]
    by (simp add: Crypto_generate_dis_proof_def example_fake_commitment order5_pow hash_update_encryption_def Let_def)
      (simp add: example_vote_def)
  have w: "nonce_encoding example_vote = pow_mod_p ref_env order5_group (generator order5_group) 1"
    "message_encoding example_vote =
      mul_mod_p ref_env order5_group (pow_mod_p ref_env order5_group (elt 8) 1) (if True then generator order5_group else 1)"
    by (simp_all add: example_vote_def order5_pow order5_mul)
  have c: "Crypto_check_dis_proof ref_env order5_group pr example_vote example_hash (elt 8)"
    by (rule ref.dis_proof_complete [OF order5_group_ok order5_key _ g w]) simp
  have "Crypto_encryption_homomorphic_add ref_env order5_group Crypto_encryption_homomorphic_zero example_vote = example_vote"
    using order5_mul [of 1 2] order5_mul [of 1 16]
    by (simp add: Crypto_encryption_homomorphic_add_def Crypto_encryption_homomorphic_zero_def example_vote_def order5_one)
  then show ?thesis
    using e g c by (simp add: encrypt_selection_def example_encrypter_def)
qed

lemma example_encrypt:
  "\<exists>r V'. Voting_Encrypter_encrypt_ballot ref_env order5_group k [True] 1 example_encrypter 7 = Some (r, V', 8)"
proof -
  obtain pr where s: "encrypt_selection ref_env order5_group example_encrypter [True] 0
     ([Crypto_encryption_rep_new], [Crypto_dis_proof_new], Crypto_encryption_homomorphic_zero, 0, 0,
      ve_source example_encrypter, VOTING_ENCRYPTER_SUCCESS) =
    Some ([example_vote], [pr], example_vote, 1, 1, replicate 31 0 @ [1], VOTING_ENCRYPTER_SUCCESS)"
    using example_selection by blast
  obtain ag s2 where g: "Crypto_generate_aggregate_cp_proof ref_env order5_group (replicate 31 0 @ [1]) 1
       example_vote example_hash (elt 8) = Some (ag, s2)"
    using ref.hash_update_p_fits [OF elt_fits [of 2]] ref.hash_update_p_fits [OF elt_fits [of 8]]
      ref.hash_update_p_fits [OF elt_fits [of 16]] ref.hash_init_base_fits [OF example_hash_fits]
      ref.sample_byte_q [of 1 order5_group 0 "[]"]
    by (simp add: Crypto_generate_aggregate_cp_proof_def Crypto_cp_proof_challenge_def order5_pow Let_def example_vote_def)
  have "encrypts ref_env order5_group (elt 8) 1 (uint (1 :: u32)) example_vote" using example_vote_encrypts by simp
  then have c: "Crypto_check_aggregate_cp_proof ref_env order5_group ag example_vote example_hash (elt 8) 1 = Some True"
    by (rule aggregate_proof_accepted [OF ref.platform_axioms order5_group_ok order5_key _ g])
  have id: "send ref_env Serialize_reserve_ballot_identifier (Serialize_write_ballot_identifier \<lparr>identifier_id = 7\<rparr>) =
      Some (Some (bytes_message (le_bytes 8 (7 :: u64))))"
    using ballot_identifier_codec.send_ok [OF ref.platform_mem_axioms TrueI, of "\<lparr>identifier_id = 7\<rparr>"]
    by (simp add: enc_ballot_identifier_def)
  obtain b where b: "Crypto_encrypted_ballot_new ref_env 1 7 = Some (CRYPTO_SUCCESS, b)" "ballot_id b = 7"
    "num_selections b = 1" "selections b = Some [Crypto_encryption_rep_new]" "dis_proofs b = Some [Crypto_dis_proof_new]"
    by (auto simp: Crypto_encrypted_ballot_new_def ref_env_def)
  let ?b = "b\<lparr>selections := Some [example_vote], dis_proofs := Some [pr], ballot_cp_proof := ag\<rparr>"
  have "encrypted_ballot_ok ?b" using b(3) by (simp add: encrypted_ballot_ok_def example_vote_ok)
  then have "send ref_env (Serialize_reserve_encrypted_ballot ?b) (Serialize_write_encrypted_ballot ref_env ?b) =
      Some (Some (bytes_message (enc_encrypted_ballot ?b)))"
    by (rule ballot_codec.send_ok [OF ref.platform_mem_axioms])
  then have "encrypt_message ref_env order5_group example_encrypter [True] 1 b =
      Some (VOTING_ENCRYPTER_SUCCESS, Some (bytes_message (enc_encrypted_ballot ?b)), ?b, example_encrypter\<lparr>ve_source := s2\<rparr>)"
    using b s g c by (simp add: encrypt_message_def example_encrypter_def Let_def)
  then show ?thesis
    using b id by (simp add: Voting_Encrypter_encrypt_ballot_def Validate_selections_eq num_selected_def Let_def
        Voting_Encrypter_Crypto_status_convert_def Crypto_encrypted_ballot_free_def bytes_message_def example_encrypter_def)
      (simp add: ref_env_def)
qed

section \<open>Properties\<close>

text \<open>C8: Whenever the encrypter returns, it has encrypted the ballot: the status is success, the message is
  read by the coordinator as a ballot with the next internal number, each of whose selections encrypts 1 if it
  was selected and 0 if not, the tracker is the digest of the message, and as many selections were made as
  expected. (It does not return just when a number it hashes is too short, or the ballot is not valid.)\<close>

theorem encrypt_ballot_correct:
  assumes "platform_mem E" "group_ok G" "in_group G (joint_key (ve_joint_key V))"
    and "Voting_Encrypter_encrypt_ballot E G external_id sels expected V n = Some (r, V', n')"
  shows "eb_status r = VOTING_ENCRYPTER_SUCCESS \<and> n' = n + 1 \<and>
    length (filter id (take (unat (ve_num_selections V)) sels)) = unat expected \<and>
    (\<exists>msg bytes es. eb_message r = Some msg \<and> msg = \<lparr>msg_len = length bytes, msg_bytes = Some bytes\<rparr> \<and>
       eb_tracker r = Some (sha256 E bytes) \<and>
       Serialize_deserialize_register_ballot_message E msg fresh =
         Some (True, fresh\<lparr>ballot_id := n, num_selections := ve_num_selections V, selections := Some es\<rparr>) \<and>
       length es = unat (ve_num_selections V) \<and>
       (\<forall>k < unat (ve_num_selections V). \<exists>nonce.
          encrypts E G (joint_key (ve_joint_key V)) nonce (of_bool (sels ! k)) (es ! k)))"
proof (rule platform_mem.encrypt_ballot_ok [OF assms, of fresh])
  fix es source msg
  assume p: "eb_status r = VOTING_ENCRYPTER_SUCCESS" "n' = n + 1"
    "num_selected sels (unat (ve_num_selections V)) = unat expected" "eb_message r = Some msg"
    "Serialize_deserialize_register_ballot_message E msg fresh =
       Some (True, fresh\<lparr>ballot_id := n, num_selections := ve_num_selections V, selections := Some es\<rparr>)"
    "\<exists>bytes. msg = bytes_message bytes \<and> eb_tracker r = Some (sha256 E bytes)"
    "length es = unat (ve_num_selections V)"
    "\<forall>k < unat (ve_num_selections V). \<exists>r. encrypts E G (joint_key (ve_joint_key V)) r (of_bool (sels ! k)) (es ! k)"
  from p(6) obtain bytes where "msg = \<lparr>msg_len = length bytes, msg_bytes = Some bytes\<rparr>" "eb_tracker r = Some (sha256 E bytes)"
    by (auto simp: bytes_message_def)
  with p(1-5,7,8) show ?thesis unfolding num_selected_def by blast
qed

theorem encrypt_ballot_correct_witness:
  "\<exists>r V' msg es nonce. Voting_Encrypter_encrypt_ballot ref_env order5_group ''A'' [True] 1 example_encrypter 7 = Some (r, V', 8) \<and>
     eb_status r = VOTING_ENCRYPTER_SUCCESS \<and> eb_message r = Some msg \<and>
     (\<exists>rep. Serialize_deserialize_register_ballot_message ref_env msg rep =
        Some (True, rep\<lparr>ballot_id := 7, num_selections := 1, selections := Some es\<rparr>)) \<and>
     encrypts ref_env order5_group (elt 8) nonce 1 (es ! 0)"
proof -
  obtain r V' where run: "Voting_Encrypter_encrypt_ballot ref_env order5_group ''A'' [True] 1 example_encrypter 7 = Some (r, V', 8)"
    using example_encrypt by blast
  have "in_group order5_group (joint_key (ve_joint_key example_encrypter))" by (simp add: example_encrypter_def order5_key)
  from encrypt_ballot_correct [OF ref.platform_mem_axioms order5_group_ok this run] run
  show ?thesis by (fastforce simp: example_encrypter_def)
qed

text \<open>C38: A ballot with another number of selections than expected is not refused: the error path frees a
  ballot that was never initialised.\<close>

theorem invalid_selection_undefined:
  assumes "length (filter id (take (unat (ve_num_selections V)) sels)) \<noteq> unat expected"
  shows "Voting_Encrypter_encrypt_ballot E G external_id sels expected V n = None"
  using encrypt_ballot_invalid assms by (simp add: num_selected_def)

theorem invalid_selection_undefined_witness:
  "Voting_Encrypter_encrypt_ballot ref_env order5_group ''A'' [True] 0 example_encrypter 7 = None"
  by (rule invalid_selection_undefined) (simp add: example_encrypter_def)

end
