(* ===== verification/RecordClaims.thy ===== *)
theory RecordClaims
  imports Election EncrypterClaims
begin

text \<open>The properties of the voting record: what the trustees read is what the coordinator exported.\<close>

text \<open>C12: The record of an election: the first export of a coordinator writes a file that every trustee
  reads without error, and the tally it keeps for each selection then encrypts the sum of that selection
  over the ballots that were cast. Spoiled and undecided ballots do not count.\<close>

theorem record_tally_counts_cast:
  assumes "platform_mem E" "group_ok G" "voting_ok s" "vs_coordinator s = Some c"
    and "vc_registered_num_ballots c = vc_buffered_num_ballots c"
    and "out_text out = []" "length (header_text (vc_registered_num_ballots c) (vc_num_selections c) @
      lines_text (buffered s c) (unat (vc_buffered_num_ballots c))) \<le> out_room out"
    and "\<forall>x \<in> set (buffered s c). (\<forall>e \<in> set (snd x). encryption_ok e) \<and>
      (\<forall>j < length (snd x). \<exists>r. encrypts E G pk r (int (v x j)) (snd x ! j))"
    and "dt_num_selections t = vc_num_selections c" "unat (vc_num_selections c) \<le> MAX_SELECTIONS"
    and "dt_tallies t = replicate MAX_SELECTIONS Crypto_encryption_homomorphic_zero"
  shows "\<exists>fl s' rest t'.
    Voting_Coordinator_export_buffered_ballots E s (at_end out) = Some (VOTING_COORDINATOR_SUCCESS, fl, s') \<and>
    phases s' = phases s \<and>
    Decryption_Trustee_tally_voting_record E G (rw_text fl) t = Some (DECRYPTION_TRUSTEE_SUCCESS, rest, t') \<and>
    (\<forall>j < unat (vc_num_selections c). \<exists>r.
       encrypts E G pk r (\<Sum>x \<leftarrow> filter fst (buffered s c). int (v x j)) (dt_tallies t' ! j))"
  by (rule first_export_tally [OF assms])

definition example_trustee :: Decryption_Trustee where
  "example_trustee =
     \<lparr>dt_num_trustees = 1, dt_threshold = 1, dt_num_selections = 1, dt_index = 0,
      dt_tallies = replicate MAX_SELECTIONS Crypto_encryption_homomorphic_zero,
      dt_private_key = \<lparr>priv_threshold = 0, coefficients = []\<rparr>, dt_base_hash = 0, dt_my_key_shares = [],
      dt_rsa_private_key = Crypto_rsa_private_key_new\<rparr>"

theorem record_tally_counts_cast_witness:
  "\<exists>s c fl s' rest t'. vs_coordinator s = Some c \<and> buffered s c = [(True, [example_vote])] \<and>
    Voting_Coordinator_export_buffered_ballots ref_env s (at_end \<lparr>out_text = [], out_room = 5000\<rparr>) =
      Some (VOTING_COORDINATOR_SUCCESS, fl, s') \<and>
    Decryption_Trustee_tally_voting_record ref_env order5_group (rw_text fl) example_trustee =
      Some (DECRYPTION_TRUSTEE_SUCCESS, rest, t') \<and>
    (\<exists>r. encrypts ref_env order5_group (elt 8) r 1 (dt_tallies t' ! 0))"
proof -
  obtain s c where s: "voting_ok s" "vs_coordinator s = Some c" "vc_num_selections c = 1" "vc_registered_num_ballots c = 1"
     "vc_buffered_num_ballots c = 1" "buffered s c = [(True, [example_vote])]"
    using example_cast by blast
  have room: "length (header_text 1 1 @ lines_text [(True, [example_vote])] 1) \<le> 5000"
    by (simp add: header_text_def lines_text_def ballot_line_def length_selections_text fmt_dec.simps)
  have t: "dt_num_selections example_trustee = 1"
    "dt_tallies example_trustee = replicate MAX_SELECTIONS Crypto_encryption_homomorphic_zero"
    by (simp_all add: example_trustee_def)
  have n: "unat (1 :: u32) \<le> MAX_SELECTIONS" by (simp add: MAX_SELECTIONS_def)
  have v: "\<forall>x \<in> set (buffered s c). (\<forall>e \<in> set (snd x). encryption_ok e) \<and>
      (\<forall>j < length (snd x). \<exists>r. encrypts ref_env order5_group (elt 8) r (int (1 :: nat)) (snd x ! j))"
    using example_vote_ok example_vote_encrypts by (auto simp: s(6))
  from record_tally_counts_cast [OF ref.platform_mem_axioms order5_group_ok s(1,2), of "\<lparr>out_text = [], out_room = 5000\<rparr>",
      OF _ _ _ v, of example_trustee] room n t
  have "\<exists>fl s' rest t'. Voting_Coordinator_export_buffered_ballots ref_env s (at_end \<lparr>out_text = [], out_room = 5000\<rparr>) =
      Some (VOTING_COORDINATOR_SUCCESS, fl, s') \<and>
    Decryption_Trustee_tally_voting_record ref_env order5_group (rw_text fl) example_trustee =
      Some (DECRYPTION_TRUSTEE_SUCCESS, rest, t') \<and>
    (\<exists>r. encrypts ref_env order5_group (elt 8) r 1 (dt_tallies t' ! 0))"
    by (simp add: s(3-6)) blast
  with s(2,6) show ?thesis by blast
qed

text \<open>C37: The header is rewritten in place. When the number of ballots has one digit more than at the last
  export, the new header is longer and wipes out the mark of the first ballot: the export succeeds, but no
  trustee can read the record any more.\<close>

theorem header_overwrites_ballot:
  assumes "platform_mem E" "voting_ok s" "vs_coordinator s = Some c"
    and "\<forall>x \<in> set (buffered s c). \<forall>e \<in> set (snd x). encryption_ok e"
    and "rw_text f = header_text n (vc_num_selections c) @ ballot_line b 0 es @ rest" "es \<noteq> []"
    and "length (fmt_dec (unat (vc_registered_num_ballots c))) = Suc (length (fmt_dec (unat n)))"
    and "unat (vc_num_selections c) \<le> MAX_SELECTIONS"
    and "length (header_text (vc_registered_num_ballots c) (vc_num_selections c)) +
      unat (vc_buffered_num_ballots c) * (2056 * unat (vc_num_selections c) + 14) \<le> out_room (rw_before f)"
  shows "\<exists>fl s'. Voting_Coordinator_export_buffered_ballots E s f = Some (VOTING_COORDINATOR_SUCCESS, fl, s') \<and>
    (\<forall>G t. dt_num_selections t = vc_num_selections c \<longrightarrow>
       (\<exists>inp. Decryption_Trustee_tally_voting_record E G (rw_text fl) t = Some (DECRYPTION_TRUSTEE_IO_ERROR, inp, t)))"
proof -
  let ?h = "header_text (vc_registered_num_ballots c) (vc_num_selections c)"
  have b: "\<forall>x \<in> set (buffered s c). length (snd x) = unat (vc_num_selections c) \<and> (\<forall>e \<in> set (snd x). encryption_ok e)"
    using buffered_selections [OF assms(2,3)] assms(4) by blast
  obtain fl s' more where e: "Voting_Coordinator_export_buffered_ballots E s f = Some (VOTING_COORDINATOR_SUCCESS, fl, s')"
    "rw_text fl = ?h @ drop (length ?h) (rw_text f) @ more"
    using platform_mem.later_export [OF assms(1,2,3) b assms(9)] by blast
  obtain d where d: "fmt_dec (of_bool b) = [d]" by (cases b) (simp_all add: fmt_dec.simps)
  have "length ?h = Suc (length (header_text n (vc_num_selections c)))" using assms(7) by (simp add: header_text_def)
  then have old: "drop (length ?h) (rw_text f) @ more =
      CHR 0x09 # fmt_dec 0 @ selections_text es @ CHR 0x0A # rest @ more"
    by (simp add: assms(5) ballot_line_def d)
  have "2 \<le> length (fmt_dec (unat (vc_registered_num_ballots c)))"
    using assms(7) fmt_dec_nonempty [of "unat n"] by linarith
  then have "0 < vc_registered_num_ballots c" using word_gt_0 by (fastforce simp: fmt_dec.simps)
  note damaged = record_damaged [OF assms(6) _ _ this, of _ 0 E _ "CHR 0x0A # rest @ more"]
  have "\<exists>inp. Decryption_Trustee_tally_voting_record E G (rw_text fl) t = Some (DECRYPTION_TRUSTEE_IO_ERROR, inp, t)"
    if "dt_num_selections t = vc_num_selections c" for G t
    using damaged [of t G] assms(8) unfolding e(2) old that by simp
  with e(1) show ?thesis by blast
qed

theorem header_overwrites_ballot_witness:
  "\<exists>s f fl s'. rw_text f = header_text 9 1 @ ballot_line True 0 [example_vote] \<and>
    Voting_Coordinator_export_buffered_ballots ref_env s f = Some (VOTING_COORDINATOR_SUCCESS, fl, s') \<and>
    (\<exists>inp. Decryption_Trustee_tally_voting_record ref_env order5_group (rw_text fl) example_trustee =
       Some (DECRYPTION_TRUSTEE_IO_ERROR, inp, example_trustee))"
proof -
  obtain s c where s: "voting_ok s" "vs_coordinator s = Some c" "vc_num_selections c = 1" "vc_buffered_num_ballots c = 1"
     "buffered s c = [(True, [example_vote])]"
    using example_cast by blast
  let ?c = "c\<lparr>vc_registered_num_ballots := 10\<rparr>"
  let ?s = "s\<lparr>vs_coordinator := Some ?c\<rparr>"
  let ?f = "\<lparr>rw_before = \<lparr>out_text = header_text 9 1 @ ballot_line True 0 [example_vote], out_room = 5000\<rparr>, rw_after = []\<rparr>"
  have ok: "voting_ok ?s" "vs_coordinator ?s = Some ?c" using s(1,2) by (simp_all add: voting_ok_def buffered_ok_def)
  have b: "buffered ?s ?c = [(True, [example_vote])]" using s(5) by (simp add: buffered_def)
  have f: "rw_text ?f = header_text 9 (vc_num_selections ?c) @ ballot_line True 0 [example_vote] @ []"
    by (simp add: rw_text_def s(3))
  have t: "dt_num_selections example_trustee = vc_num_selections ?c" by (simp add: example_trustee_def s(3))
  have "\<exists>fl s'. Voting_Coordinator_export_buffered_ballots ref_env ?s ?f = Some (VOTING_COORDINATOR_SUCCESS, fl, s') \<and>
    (\<forall>G t. dt_num_selections t = vc_num_selections ?c \<longrightarrow>
       (\<exists>inp. Decryption_Trustee_tally_voting_record ref_env G (rw_text fl) t = Some (DECRYPTION_TRUSTEE_IO_ERROR, inp, t)))"
    by (rule header_overwrites_ballot [OF ref.platform_mem_axioms ok _ f])
      (use b example_vote_ok in \<open>auto simp: s header_text_def fmt_dec.simps MAX_SELECTIONS_def\<close>)
  moreover have "rw_text ?f = header_text 9 1 @ ballot_line True 0 [example_vote]" by (simp add: rw_text_def)
  ultimately show ?thesis using t by blast
qed

section \<open>An election\<close>

text \<open>C4: From the voters to the tally. When every voter's ballot is encrypted, registered and cast or
  spoiled with success, the record that the coordinator exports is read by every trustee, and each tally
  encrypts the number of cast ballots with that selection.\<close>

theorem election_tally_correct:
  assumes "platform_mem E" "group_ok G" "in_group G (joint_key (ve_joint_key V))" "\<forall>v \<in> set vs. short_key (voter_id v)"
    and "Voting_Coordinator_new E (ve_num_selections V) initial_voting = (VOTING_COORDINATOR_SUCCESS, s0)"
    and "vote E G fresh vs (V, n, s0) = Some (V', n', s)"
    and "out_text out = []" "22 + length vs * (2056 * unat (ve_num_selections V) + 14) \<le> out_room out"
    and "dt_num_selections t = ve_num_selections V" "unat (ve_num_selections V) \<le> MAX_SELECTIONS"
    and "dt_tallies t = replicate MAX_SELECTIONS Crypto_encryption_homomorphic_zero"
  shows "\<exists>fl s' rest t'.
    Voting_Coordinator_export_buffered_ballots E s (at_end out) = Some (VOTING_COORDINATOR_SUCCESS, fl, s') \<and>
    Decryption_Trustee_tally_voting_record E G (rw_text fl) t = Some (DECRYPTION_TRUSTEE_SUCCESS, rest, t') \<and>
    (\<forall>j < unat (ve_num_selections V). \<exists>r. encrypts E G (joint_key (ve_joint_key V)) r
       (\<Sum>v \<leftarrow> filter voter_casts vs. of_bool (voter_selections v ! j)) (dt_tallies t' ! j))"
proof -
  have "votes_buffered E G (joint_key (ve_joint_key V)) [] (ve_num_selections V) s0"
    using assms(5) voting_new_ok(1) [OF initial_voting_ok assms(5)]
    by (auto simp: votes_buffered_def Voting_Coordinator_new_def initial_voting_def buffered_def split: option.splits)
  from vote_ok [OF assms(1-4) this assms(6)]
  have "votes_buffered E G (joint_key (ve_joint_key V)) vs (ve_num_selections V) s" by simp
  from votes_recorded [OF assms(1,2) this assms(7-11)] show ?thesis .
qed

definition example_voter :: voter where
  "example_voter = \<lparr>voter_id = ''A'', voter_selections = [True], voter_selected = 1, voter_casts = True\<rparr>"

lemma example_votes:
  "\<exists>V' s. vote ref_env order5_group example_blank [example_voter] (example_encrypter, 7, example_open) = Some (V', 8, s)"
proof -
  obtain r V' where run: "Voting_Encrypter_encrypt_ballot ref_env order5_group ''A'' [True] 1 example_encrypter 7 = Some (r, V', 8)"
    using example_encrypt by blast
  have key: "in_group order5_group (joint_key (ve_joint_key example_encrypter))" by (simp add: example_encrypter_def order5_key)
  obtain msg bytes es where m: "eb_message r = Some msg" "msg_bytes msg = Some bytes"
    "Serialize_deserialize_register_ballot_message ref_env msg example_blank =
       Some (True, example_blank\<lparr>ballot_id := 7, num_selections := 1, selections := Some es\<rparr>)"
    by (rule ref.encrypt_ballot_ok [OF order5_group_ok key run, of example_blank])
      (auto simp: bytes_message_def example_encrypter_def intro: that)
  obtain track s where s: "Voting_Coordinator_register_ballot ref_env example_blank ''A'' msg example_open =
      Some (VOTING_COORDINATOR_SUCCESS, Some track, s)" "voting_ok s" "can_grow (vs_box s)" "phases s ''A'' = Some Registered"
    using example_registers [OF m(3,2)] by auto
  obtain out b where "Ballot_Collection_update ref_env ''A'' True False (vs_box s) = Some (BALLOT_COLLECTION_SUCCESS, out, b)"
    using decide_total [OF ref.platform_mem_axioms s(2,3), of "''A''" True False] s(4) by (auto simp: short_key_def)
  then have "\<exists>out s'. Voting_Coordinator_cast_ballot ref_env ''A'' s = Some (VOTING_COORDINATOR_SUCCESS, out, s')"
    by (simp add: Voting_Coordinator_cast_ballot_def Ballot_Collection_mark_cast_def)
  with run m(1) s(1) show ?thesis by (auto simp: vote_step_def example_voter_def)
qed

theorem election_tally_correct_witness:
  "\<exists>V' s fl s' rest t'.
    vote ref_env order5_group example_blank [example_voter] (example_encrypter, 7, example_open) = Some (V', 8, s) \<and>
    Voting_Coordinator_export_buffered_ballots ref_env s (at_end \<lparr>out_text = [], out_room = 5000\<rparr>) =
      Some (VOTING_COORDINATOR_SUCCESS, fl, s') \<and>
    Decryption_Trustee_tally_voting_record ref_env order5_group (rw_text fl) example_trustee =
      Some (DECRYPTION_TRUSTEE_SUCCESS, rest, t') \<and>
    (\<exists>r. encrypts ref_env order5_group (elt 8) r 1 (dt_tallies t' ! 0))"
proof -
  obtain V' s where run: "vote ref_env order5_group example_blank [example_voter] (example_encrypter, 7, example_open) = Some (V', 8, s)"
    using example_votes by blast
  have e: "ve_num_selections example_encrypter = 1" "joint_key (ve_joint_key example_encrypter) = elt 8"
    by (simp_all add: example_encrypter_def)
  have k: "\<forall>v \<in> set [example_voter]. short_key (voter_id v)" by (simp add: example_voter_def short_key_def)
  have t: "dt_num_selections example_trustee = 1"
    "dt_tallies example_trustee = replicate MAX_SELECTIONS Crypto_encryption_homomorphic_zero"
    by (simp_all add: example_trustee_def)
  have n: "unat (1 :: u32) \<le> MAX_SELECTIONS" by (simp add: MAX_SELECTIONS_def)
  have sum: "(\<Sum>v \<leftarrow> filter voter_casts [example_voter]. of_bool (voter_selections v ! 0)) = (1 :: int)"
    by (simp add: example_voter_def)
  note correct = election_tally_correct [of ref_env order5_group example_encrypter, unfolded e,
      OF ref.platform_mem_axioms order5_group_ok order5_key k example_open_eq(1) run _ _ t(1) n t(2)]
  show ?thesis
    using correct [of "\<lparr>out_text = [], out_room = 5000\<rparr>"] run sum by fastforce
qed

end
