(* ===== verification/ApiFiles.thy ===== *)
theory ApiFiles
  imports Files
begin

text \<open>
  \<open>api/filename.c\<close> and \<open>directory.c\<close>: the names of the files that the API writes, and the directories
  they are written to. A file system knows the texts of its files, its directories, the names that may not
  be opened or created, how much room an opened file has, and the time. A name with slashes at its end is
  the directory without them. The variant for the C library without the bounds-checking interfaces is modelled.
\<close>

section \<open>The file system\<close>

record file_system =
  fs_files :: "string \<rightharpoonup> string"
  fs_dirs :: "string list"
  fs_denied :: "string list"
  fs_room :: nat
  fs_time :: nat

definition FILENAME_MAX :: nat where
  "FILENAME_MAX = 4096"

definition slash :: char where
  "slash = CHR ''/''"

definition plain_dir :: "string \<Rightarrow> string" where
  "plain_dir path = rev (dropWhile (\<lambda>c. c = slash) (rev path))"

datatype mkdir_result = MKDIR_DONE | MKDIR_EEXIST | MKDIR_ERROR

definition mkdir :: "string \<Rightarrow> file_system \<Rightarrow> mkdir_result \<times> file_system" where
  "mkdir path fs =
     (if plain_dir path = [] \<or> plain_dir path \<in> set (fs_dirs fs) \<or> fs_files fs (plain_dir path) \<noteq> None
      then (MKDIR_EEXIST, fs)
      else if plain_dir path \<in> set (fs_denied fs) then (MKDIR_ERROR, fs)
      else (MKDIR_DONE, fs\<lparr>fs_dirs := plain_dir path # fs_dirs fs\<rparr>))"

definition Directory_exists :: "string \<Rightarrow> file_system \<Rightarrow> bool" where
  "Directory_exists path fs \<longleftrightarrow> path \<noteq> [] \<and> (plain_dir path = [] \<or> plain_dir path \<in> set (fs_dirs fs))"

text \<open>\<open>fopen\<close> for writing: with \<open>"w+"\<close> the file is emptied, with \<open>"a+"\<close> kept; what is written comes at the end.\<close>

definition fopen_write :: "bool \<Rightarrow> string \<Rightarrow> file_system \<Rightarrow> (rw_file \<times> file_system) option" where
  "fopen_write keep name fs =
     (if name \<in> set (fs_denied fs) \<or> plain_dir name \<in> set (fs_dirs fs) then None
      else let old = (if keep then case fs_files fs name of None \<Rightarrow> [] | Some s \<Rightarrow> s else [])
           in Some (\<lparr>rw_before = \<lparr>out_text = old, out_room = fs_room fs\<rparr>, rw_after = []\<rparr>,
                    fs\<lparr>fs_files := (fs_files fs)(name \<mapsto> old)\<rparr>))"

definition fopen_read :: "string \<Rightarrow> file_system \<Rightarrow> string option" where
  "fopen_read name fs = (if name \<in> set (fs_denied fs) then None else fs_files fs name)"

definition fclose_write :: "string \<Rightarrow> rw_file \<Rightarrow> file_system \<Rightarrow> file_system" where
  "fclose_write name f fs = fs\<lparr>fs_files := (fs_files fs)(name \<mapsto> rw_text f)\<rparr>"

section \<open>Directories\<close>

text \<open>
  Every directory on the way is made, existing ones are no error. The search for separators starts behind
  the first character, so that an empty path is read behind its end.
\<close>

definition create_directory_step ::
    "string \<Rightarrow> nat \<Rightarrow> bool \<times> file_system \<Rightarrow> bool \<times> file_system" where
  "create_directory_step path p s =
     (case s of (ok, fs) \<Rightarrow>
        if ok \<and> 0 < p \<and> path ! p = slash
        then (case mkdir (take p path) fs of (r, fs) \<Rightarrow> (r \<noteq> MKDIR_ERROR, fs))
        else s)"

definition create_directory :: "string \<Rightarrow> file_system \<Rightarrow> (bool \<times> file_system) option" where
  "create_directory path fs =
     (if FILENAME_MAX - 1 < length path then Some (False, fs)
      else if path = [] then None
      else let (ok, fs) = floop (length path) (create_directory_step path) (True, fs)
           in if \<not> ok then Some (False, fs)
              else case mkdir path fs of (r, fs) \<Rightarrow> Some (r \<noteq> MKDIR_ERROR, fs))"

section \<open>Names\<close>

text \<open>The path, ended by a separator unless it is empty; \<open>None\<close> when it is too long.\<close>

definition path_prefix :: "string \<Rightarrow> string option" where
  "path_prefix path_in =
     (if FILENAME_MAX \<le> length path_in then None
      else if path_in \<noteq> [] \<and> last path_in \<noteq> slash
      then (if FILENAME_MAX \<le> length path_in + 1 then None else Some (path_in @ [slash]))
      else Some path_in)"

definition name_prefix :: "string \<Rightarrow> string \<Rightarrow> string option" where
  "name_prefix prefix_in default_prefix =
     (let inUsePrefix = (if prefix_in \<noteq> [] then prefix_in else default_prefix)
      in if FILENAME_MAX \<le> length inUsePrefix then None else Some inUsePrefix)"

text \<open>
  \<open>snprintf\<close> returns the length of the whole text but writes no more than fits. A result \<open>None\<close> is the answer
  \<open>false\<close>. Only a text of exactly \<open>FILENAME_MAX\<close> characters is noticed, and only with the time.
\<close>

definition snprintf :: "nat \<Rightarrow> string \<Rightarrow> int \<times> string" where
  "snprintf n s = (int (length s), take (n - 1) s)"

definition generate_filename :: "string \<Rightarrow> string \<Rightarrow> string \<Rightarrow> string option" where
  "generate_filename path_in prefix_in default_prefix =
     do {
       path \<leftarrow> path_prefix path_in;
       prefix \<leftarrow> name_prefix prefix_in default_prefix;
       let (status, filename_out) = snprintf FILENAME_MAX (path @ prefix);
       if status < 0 then None else Some filename_out }"

definition generate_unique_filename :: "nat \<Rightarrow> string \<Rightarrow> string \<Rightarrow> string \<Rightarrow> string option" where
  "generate_unique_filename now path_in prefix_in default_prefix =
     do {
       path \<leftarrow> path_prefix path_in;
       prefix \<leftarrow> name_prefix prefix_in default_prefix;
       let (status, filename_out) = snprintf FILENAME_MAX (path @ prefix @ fmt_dec now);
       if status < 0 \<or> status = int FILENAME_MAX then None else Some filename_out }"

section \<open>Facts\<close>

lemma generate_filename_short:
  "length path_in + length prefix_in + 1 < FILENAME_MAX \<Longrightarrow> prefix_in \<noteq> [] \<Longrightarrow> path_in \<noteq> [] \<Longrightarrow>
    generate_filename path_in prefix_in d = Some (path_in @ (if last path_in = slash then [] else [slash]) @ prefix_in)"
  by (simp add: generate_filename_def path_prefix_def name_prefix_def snprintf_def)

lemma generate_filename_length: "generate_filename p n d = Some s \<Longrightarrow> length s < FILENAME_MAX"
  by (auto simp: generate_filename_def snprintf_def bind_eq_Some_conv FILENAME_MAX_def split: if_splits)

lemma plain_dir_idem [simp]: "plain_dir (plain_dir p) = plain_dir p"
proof -
  have "dropWhile (\<lambda>c. c = slash) (dropWhile (\<lambda>c. c = slash) xs) = dropWhile (\<lambda>c. c = slash) xs" for xs
    by (induction xs) auto
  then show ?thesis by (simp add: plain_dir_def)
qed

lemma mkdir_exists:
  assumes "mkdir path fs = (r, fs')" "path \<noteq> []" "r \<noteq> MKDIR_ERROR" "fs_files fs (plain_dir path) = None"
  shows "Directory_exists path fs'"
  using assms by (auto simp: mkdir_def Directory_exists_def split: if_splits)

lemma mkdir_keeps: "mkdir path fs = (r, fs') \<Longrightarrow>
    fs_files fs' = fs_files fs \<and> fs_denied fs' = fs_denied fs \<and> fs_room fs' = fs_room fs \<and> fs_time fs' = fs_time fs \<and>
    set (fs_dirs fs) \<subseteq> set (fs_dirs fs')"
  by (auto simp: mkdir_def split: if_splits)

text \<open>Creating a directory changes no file, and afterwards it is there.\<close>

lemma create_directory_keeps:
  assumes "create_directory path fs = Some (ok, fs')"
  shows "fs_files fs' = fs_files fs \<and> fs_denied fs' = fs_denied fs \<and> fs_room fs' = fs_room fs \<and> fs_time fs' = fs_time fs \<and>
    set (fs_dirs fs) \<subseteq> set (fs_dirs fs')"
proof -
  let ?K = "\<lambda>g. fs_files g = fs_files fs \<and> fs_denied g = fs_denied fs \<and> fs_room g = fs_room fs \<and> fs_time g = fs_time fs \<and>
    set (fs_dirs fs) \<subseteq> set (fs_dirs g)"
  have "?K (snd (floop (length path) (create_directory_step path) (True, fs)))"
    by (rule floop_invariant [where P = "\<lambda>_ s. ?K (snd s)"])
      (auto simp: create_directory_step_def split: prod.splits dest!: mkdir_keeps, blast)
  with assms show ?thesis
    by (auto simp: create_directory_def split: if_splits prod.splits dest!: mkdir_keeps dest: subsetD)
qed

lemma create_directory_exists:
  assumes "create_directory path fs = Some (True, fs')" "fs_files fs (plain_dir path) = None"
  shows "Directory_exists path fs'"
proof -
  obtain ok fs1 where 1: "floop (length path) (create_directory_step path) (True, fs) = (ok, fs1)" by (rule prod.exhaust)
  obtain r fs2 where 2: "mkdir path fs1 = (r, fs2)" by (rule prod.exhaust)
  have p: "path \<noteq> []" "r \<noteq> MKDIR_ERROR" "fs' = fs2"
    using assms(1) 1 2 by (auto simp: create_directory_def split: if_splits)
  have "fs_files fs1 = fs_files fs"
    using create_directory_keeps [OF assms(1)] mkdir_keeps [OF 2] p(3) by simp
  with mkdir_exists [OF 2 p(1,2)] assms(2) p(3) show ?thesis by simp
qed

end
