(* ===== verification/ApiTally.thy ===== *)
theory ApiTally
  imports ApiFiles DecryptionTrustee DecryptionCoordinator
begin

text \<open>
  \<open>api/tally_votes.c\<close> and \<open>api/base_hash.c\<close>: the whole decryption behind one call. The pointers to the
  coordinator and to the trustees are static, and what a call does not reset is there in the next one.
  Every proof opens the random device anew, so that devices are given for each trustee and entry. An error
  path that frees the caller's \<open>output_filename\<close>, which is no memory from \<open>malloc\<close>, is undefined.
\<close>

section \<open>Configuration and static state\<close>

record api_config =
  cfg_num_selections :: u32
  cfg_num_trustees :: u32
  cfg_threshold :: u32
  cfg_subgroup_order :: u32
  cfg_election_meta :: string
  cfg_joint_key :: message

text \<open>\<open>create_base_hash_code\<close>: the same constant for every configuration.\<close>

definition create_base_hash_code :: "api_config \<Rightarrow> raw_hash" where
  "create_base_hash_code config = 0 # 0xff # replicate 30 0"

record tally_statics =
  ta_coordinator :: "Decryption_Coordinator option"
  ta_trustees :: "Decryption_Trustee option list"

definition initial_tally :: tally_statics where
  "initial_tally = \<lparr>ta_coordinator = None, ta_trustees = replicate MAX_TRUSTEES None\<rparr>"

section \<open>Initialisation\<close>

definition tally_initialize_coordinator ::
    "env \<Rightarrow> api_config \<Rightarrow> Decryption_Coordinator option \<Rightarrow> (bool \<times> Decryption_Coordinator option) option" where
  "tally_initialize_coordinator E config old =
     do {
       (status, c) \<leftarrow> Decryption_Coordinator_new E (cfg_num_trustees config) (cfg_threshold config);
       Some (if status \<noteq> DECRYPTION_COORDINATOR_SUCCESS then (False, old) else (True, c)) }"

definition tally_initialize_trustees ::
    "env \<Rightarrow> params \<Rightarrow> api_config \<Rightarrow> u32 \<Rightarrow> message list \<Rightarrow> Decryption_Trustee option list \<Rightarrow>
     (bool \<times> Decryption_Trustee option list) option" where
  "tally_initialize_trustees E G config num_decrypting_trustees trustee_states trustees =
     (if num_decrypting_trustees < cfg_threshold config then Some (False, trustees)
      else loop (unat num_decrypting_trustees) (\<lambda>i (ok, trustees).
        if \<not> ok then Some (ok, trustees)
        else do {
          state \<leftarrow> arr_get trustee_states i;
          (status, decryptor) \<leftarrow> Decryption_Trustee_new E G (cfg_num_trustees config) (cfg_threshold config)
            (cfg_num_selections config) state (create_base_hash_code config);
          if status \<noteq> DECRYPTION_TRUSTEE_SUCCESS then Some (False, trustees)
          else do {
            d \<leftarrow> decryptor;
            trustees \<leftarrow> arr_set trustees (unat (dt_index d)) (Some d);
            Some (ok, trustees) } }) (True, trustees))"

section \<open>Tallying and decrypting\<close>

text \<open>The file is opened whatever happens; without one, the first trustee seeks in a null stream.\<close>

definition tally_ballots_step ::
    "env \<Rightarrow> params \<Rightarrow> string option \<Rightarrow> nat \<Rightarrow> bool \<times> Decryption_Trustee option list \<Rightarrow>
     (bool \<times> Decryption_Trustee option list) option" where
  "tally_ballots_step E G inp i = (\<lambda>(ok, trustees).
     if \<not> ok then Some (ok, trustees)
     else do {
       cell \<leftarrow> arr_get trustees i;
       case cell of
         None \<Rightarrow> Some (ok, trustees)
       | Some t \<Rightarrow> do {
           text \<leftarrow> inp;
           (status, _, t) \<leftarrow> Decryption_Trustee_tally_voting_record E G text t;
           Some (status = DECRYPTION_TRUSTEE_SUCCESS, trustees[i := Some t]) } })"

definition tally_ballots ::
    "env \<Rightarrow> params \<Rightarrow> api_config \<Rightarrow> string option \<Rightarrow> Decryption_Trustee option list \<Rightarrow>
     (bool \<times> Decryption_Trustee option list) option" where
  "tally_ballots E G config inp trustees =
     loop (unat (cfg_num_trustees config)) (tally_ballots_step E G inp) (True, trustees)"

definition decrypt_share_step ::
    "env \<Rightarrow> params \<Rightarrow> (nat \<Rightarrow> nat \<Rightarrow> random_source option) \<Rightarrow> Decryption_Trustee option list \<Rightarrow> nat \<Rightarrow>
     bool \<times> Decryption_Coordinator \<Rightarrow> (bool \<times> Decryption_Coordinator) option" where
  "decrypt_share_step E G dev trustees i = (\<lambda>(ok, c).
     if \<not> ok then Some (ok, c)
     else do {
       cell \<leftarrow> arr_get trustees i;
       case cell of
         None \<Rightarrow> Some (ok, c)
       | Some t \<Rightarrow> do {
           (status, share) \<leftarrow> Decryption_Trustee_compute_share E G (dev i) t;
           if status \<noteq> DECRYPTION_TRUSTEE_SUCCESS then Some (False, c)
           else do {
             m \<leftarrow> share;
             (status, c) \<leftarrow> Decryption_Coordinator_receive_share E G m c;
             Some (status = DECRYPTION_COORDINATOR_SUCCESS, c) } } })"

definition decrypt_tally_shares ::
    "env \<Rightarrow> params \<Rightarrow> (nat \<Rightarrow> nat \<Rightarrow> random_source option) \<Rightarrow> api_config \<Rightarrow> Decryption_Trustee option list \<Rightarrow>
     Decryption_Coordinator \<Rightarrow> (bool \<times> Decryption_Coordinator) option" where
  "decrypt_tally_shares E G dev config trustees c =
     loop (unat (cfg_num_trustees config)) (decrypt_share_step E G dev trustees) (True, c)"

text \<open>
  The coordinator is asked for the requests once for every trustee, and each time answers with all of them.
  The arrays of the caller are not initialised: \<open>None\<close> until an answer has been copied.
\<close>

definition request_missing_trustee_tally_shares ::
    "env \<Rightarrow> api_config \<Rightarrow> Decryption_Coordinator \<Rightarrow>
     (bool \<times> message option list option \<times> Decryption_Coordinator) option" where
  "request_missing_trustee_tally_shares E config c =
     loop (unat (cfg_num_trustees config)) (\<lambda>_ (ok, requests, c).
       if \<not> ok then Some (ok, requests, c)
       else do {
         (status, answer, c) \<leftarrow> Decryption_Coordinator_all_shares_received E c;
         Some (if status \<noteq> DECRYPTION_COORDINATOR_SUCCESS then (False, requests, c) else (ok, Some answer, c)) })
       (True, None, c)"

definition decrypt_fragments_step ::
    "env \<Rightarrow> params \<Rightarrow> (nat \<Rightarrow> nat \<Rightarrow> nat \<Rightarrow> random_source option) \<Rightarrow> Decryption_Trustee option list \<Rightarrow> message option list \<Rightarrow>
     nat \<Rightarrow> bool \<times> Decryption_Coordinator \<Rightarrow> (bool \<times> Decryption_Coordinator) option" where
  "decrypt_fragments_step E G dev trustees requests i = (\<lambda>(ok, c).
     if \<not> ok then Some (ok, c)
     else do {
       request \<leftarrow> arr_get requests i;
       case request of
         None \<Rightarrow> Some (ok, c)
       | Some req \<Rightarrow> do {
           cell \<leftarrow> arr_get trustees i;
           t \<leftarrow> cell;
           (status, fragments) \<leftarrow> Decryption_Trustee_compute_fragments E G (dev i) req t;
           if status \<noteq> DECRYPTION_TRUSTEE_SUCCESS then Some (False, c)
           else do {
             m \<leftarrow> fragments;
             (status, c) \<leftarrow> Decryption_Coordinator_receive_fragments E G m c;
             Some (status = DECRYPTION_COORDINATOR_SUCCESS, c) } } })"

definition decrypt_tally_decryption_fragments ::
    "env \<Rightarrow> params \<Rightarrow> (nat \<Rightarrow> nat \<Rightarrow> nat \<Rightarrow> random_source option) \<Rightarrow> api_config \<Rightarrow> Decryption_Trustee option list \<Rightarrow>
     message option list \<Rightarrow> Decryption_Coordinator \<Rightarrow> (bool \<times> Decryption_Coordinator) option" where
  "decrypt_tally_decryption_fragments E G dev config trustees requests c =
     loop (unat (cfg_num_trustees config)) (decrypt_fragments_step E G dev trustees requests) (True, c)"

section \<open>The result\<close>

definition export_tally_votes ::
    "env \<Rightarrow> params \<Rightarrow> string \<Rightarrow> string \<Rightarrow> Decryption_Coordinator \<Rightarrow> u32 list \<Rightarrow> file_system \<Rightarrow>
     (bool \<times> string \<times> u32 list \<times> file_system) option" where
  "export_tally_votes E G export_path filename_prefix c results fs =
     do {
       _ \<leftarrow> malloc E (FILENAME_MAX + 1);
       name \<leftarrow> generate_unique_filename (fs_time fs) export_path filename_prefix ''electionguard_tally-'';
       (ok, fs) \<leftarrow> (if Directory_exists export_path fs then Some (True, fs) else create_directory export_path fs);
       if \<not> ok then None
       else case fopen_write False name fs of
         None \<Rightarrow> Some (False, name, results, fs)
       | Some (f, fs) \<Rightarrow> do {
           (status, out, results) \<leftarrow> Decryption_Coordinator_all_fragments_received E G c (rw_before f) results;
           if status \<noteq> DECRYPTION_COORDINATOR_SUCCESS then None
           else Some (True, name, results, fclose_write name (f\<lparr>rw_before := out\<rparr>) fs) } }"

text \<open>
  The end of every call: the flags of the requests are looked at, which were never written unless the
  requests were answered, and of the trustees only as many are freed as were decrypting.
\<close>

definition tally_cleanup ::
    "api_config \<Rightarrow> u32 \<Rightarrow> message option list option \<Rightarrow> tally_statics \<Rightarrow> tally_statics option" where
  "tally_cleanup config num_decrypting_trustees requests s =
     (if requests = None \<and> 0 < cfg_num_trustees config \<or> MAX_TRUSTEES < unat num_decrypting_trustees then None
      else Some (s\<lparr>ta_trustees := replicate (unat num_decrypting_trustees) None @
                     drop (unat num_decrypting_trustees) (ta_trustees s),
                   ta_coordinator := None\<rparr>))"

definition API_TallyVotes ::
    "env \<Rightarrow> params \<Rightarrow> (nat \<Rightarrow> nat \<Rightarrow> random_source option) \<Rightarrow> (nat \<Rightarrow> nat \<Rightarrow> nat \<Rightarrow> random_source option) \<Rightarrow>
     api_config \<Rightarrow> message list \<Rightarrow> u32 \<Rightarrow> string \<Rightarrow> string \<Rightarrow> string \<Rightarrow> u32 list \<Rightarrow> file_system \<Rightarrow> tally_statics \<Rightarrow>
     (bool \<times> string option \<times> u32 list \<times> file_system \<times> tally_statics) option" where
  "API_TallyVotes E G share_dev fragment_dev config trustee_states num_decrypting_trustees ballots_filename
      export_path filename_prefix results fs s =
     do {
       (ok, coordinator) \<leftarrow> tally_initialize_coordinator E config (ta_coordinator s);
       (ok, trustees) \<leftarrow> (if ok then tally_initialize_trustees E G config num_decrypting_trustees trustee_states (ta_trustees s)
                        else Some (ok, ta_trustees s));
       (ok, trustees) \<leftarrow> (if ok then tally_ballots E G config (fopen_read ballots_filename fs) trustees else Some (ok, trustees));
       (ok, coordinator) \<leftarrow>
         (if ok then do {
            c \<leftarrow> coordinator;
            (ok, c) \<leftarrow> decrypt_tally_shares E G share_dev config trustees c;
            Some (ok, Some c) }
          else Some (ok, coordinator));
       (ok, requests, coordinator) \<leftarrow>
         (if ok then do {
            c \<leftarrow> coordinator;
            (ok, requests, c) \<leftarrow> request_missing_trustee_tally_shares E config c;
            Some (ok, requests, Some c) }
          else Some (ok, None, coordinator));
       (ok, coordinator) \<leftarrow>
         (if ok then do {
            c \<leftarrow> coordinator;
            reqs \<leftarrow> (if cfg_num_trustees config = 0 then Some [] else requests);
            (ok, c) \<leftarrow> decrypt_tally_decryption_fragments E G fragment_dev config trustees reqs c;
            Some (ok, Some c) }
          else Some (ok, coordinator));
       (ok, name, results, fs) \<leftarrow>
         (if ok then do {
            c \<leftarrow> coordinator;
            (ok, name, results, fs) \<leftarrow> export_tally_votes E G export_path filename_prefix c results fs;
            Some (ok, Some name, results, fs) }
          else Some (ok, None, results, fs));
       s \<leftarrow> tally_cleanup config num_decrypting_trustees requests
         (s\<lparr>ta_coordinator := coordinator, ta_trustees := trustees\<rparr>);
       Some (ok, name, results, fs, s) }"

end
