(* ===== verification/ApiTallyProofs.thy ===== *)
theory ApiTallyProofs
  imports ApiTally DecryptionClaims VotingExport
begin

text \<open>
  From the trustees to the announced results: what a trustee computes is the message of an honest one, the
  loops over the static pointers send these messages in the order of the trustees, and the requests do not
  change when they are asked for again.
\<close>

section \<open>What trustees send\<close>

lemma for_array_Some:
  assumes "for_array n f xs = Some ys" "\<And>i x y. i < n \<Longrightarrow> f i x = Some y \<Longrightarrow> y = g i"
  shows "ys = map g [0..<n] @ drop n xs" "n \<le> length xs"
proof -
  show n: "n \<le> length xs" using for_array_bound [OF assms(1)] .
  show "ys = map g [0..<n] @ drop n xs"
    using assms(1) unfolding for_array_def
  proof (rule loop_invariant [where P = "\<lambda>k ys. ys = map g [0..<k] @ drop k xs"])
    fix i s t
    assume i: "i < n" and s: "s = map g [0..<i] @ drop i xs"
      and "arr_get s i \<bind> (\<lambda>x. f i x \<bind> (\<lambda>x. arr_set s i x)) = Some t"
    then obtain y where y: "f i (s ! i) = Some y" "t = s[i := y]" by (auto simp: bind_eq_Some_conv arr_set_Some)
    have "drop i xs = xs ! i # drop (Suc i) xs" using i n by (simp add: Cons_nth_drop_Suc)
    with y(2) s assms(2) [OF i y(1)] show "t = map g [0..<Suc i] @ drop (Suc i) xs" by (simp add: list_update_append)
  qed simp
qed

text \<open>The tallies of a trustee that count.\<close>

definition tallies_of :: "Decryption_Trustee \<Rightarrow> encryption_rep list" where
  "tallies_of d = take (unat (dt_num_selections d)) (dt_tallies d)"

definition trustee_ok :: "Decryption_Trustee \<Rightarrow> bool" where
  "trustee_ok d \<longleftrightarrow> unat (dt_num_selections d) \<le> MAX_SELECTIONS \<and> length (dt_tallies d) = MAX_SELECTIONS \<and>
     coefficients (dt_private_key d) \<noteq> []"

lemma length_tallies_of: "trustee_ok d \<Longrightarrow> length (tallies_of d) = unat (dt_num_selections d)"
  by (simp add: tallies_of_def trustee_ok_def)

lemma ucast_num: "unat (n :: u32) \<le> MAX_SELECTIONS \<Longrightarrow> (ucast n :: u64) = word_of_nat (unat n)"
  by (simp add: unat_eq_0 of_nat_unat)

text \<open>The proofs that a trustee generates and throws away need numbers that can be hashed.\<close>

definition provable :: "env \<Rightarrow> params \<Rightarrow> random_source option \<Rightarrow> hash \<Rightarrow> int \<Rightarrow> encryption_rep \<Rightarrow> bool" where
  "provable E G dev base_hash secret x \<longleftrightarrow>
     Crypto_generate_decryption_cp_proof E G dev secret (pow_mod_p E G (nonce_encoding x) secret) x base_hash \<noteq> None"

lemma provable_share: "provable E G dev (dt_base_hash d) secret x \<longleftrightarrow>
    share_proof E G dev d secret (pow_mod_p E G (nonce_encoding x) secret) x \<noteq> None"
  by (auto simp: provable_def share_proof_def bind_eq_Some_conv split: option.splits)

lemma compute_share_eq:
  assumes E: "platform_mem E" and d: "trustee_ok d"
    and pv: "\<forall>j < length (tallies_of d). provable E G (dev j) (dt_base_hash d) (coefficients (dt_private_key d) ! 0) (tallies_of d ! j)"
    and ok: "decryption_share_ok G (honest_share E G (tallies_of d) (dt_index d) (coefficients (dt_private_key d) ! 0))"
  shows "Decryption_Trustee_compute_share E G dev d = Some (DECRYPTION_TRUSTEE_SUCCESS,
    Some (bytes_message (enc_decryption_share
      (honest_share E G (tallies_of d) (dt_index d) (coefficients (dt_private_key d) ! 0)))))"
proof -
  let ?xs = "tallies_of d" and ?s = "coefficients (dt_private_key d) ! 0" and ?m = "unat (dt_num_selections d)"
  have m: "?m \<le> MAX_SELECTIONS" "length ?xs = ?m" using d length_tallies_of [OF d] by (simp_all add: trustee_ok_def)
  have x: "dt_tallies d ! j = ?xs ! j" "j < length (dt_tallies d)" if "j < ?m" for j
    using that d by (simp_all add: tallies_of_def trustee_ok_def)
  have "for_array ?m (compute_share_step E G dev d) (replicate MAX_SELECTIONS Crypto_encryption_rep_new) =
      Some (map (\<lambda>j. raise E G ?s (?xs ! j)) [0..<?m] @ drop ?m (replicate MAX_SELECTIONS Crypto_encryption_rep_new))"
  proof (rule for_array_ok)
    fix j assume j: "j < ?m"
    then obtain pf where "share_proof E G (dev j) d ?s (pow_mod_p E G (nonce_encoding (?xs ! j)) ?s) (?xs ! j) = Some pf"
      using pv m(2) by (auto simp: provable_share)
    then show "compute_share_step E G dev d j (replicate MAX_SELECTIONS Crypto_encryption_rep_new ! j) = Some (raise E G ?s (?xs ! j))"
      using x [OF j] d by (cases pf) (simp add: compute_share_step_def raise_def trustee_ok_def)
  qed (use m in simp)
  moreover have "map (\<lambda>j. raise E G ?s (?xs ! j)) [0..<?m] = map (raise E G ?s) ?xs"
    using map_nth_take [of ?m ?xs] m(2) by simp
  moreover have "(ucast (dt_num_selections d) :: u64) = word_of_nat (length ?xs)" using ucast_num m by simp
  moreover have "drop ?m (replicate MAX_SELECTIONS Crypto_encryption_rep_new) =
      replicate (MAX_SELECTIONS - length ?xs) Crypto_encryption_rep_new" using m(2) by simp
  ultimately have "Decryption_Trustee_compute_share E G dev d =
      send E (Serialize_reserve_decryption_share (honest_share E G ?xs (dt_index d) ?s))
        (Serialize_write_decryption_share E (honest_share E G ?xs (dt_index d) ?s)) \<bind>
      (\<lambda>out. Some (if out = None then DECRYPTION_TRUSTEE_SERIALIZE_ERROR else DECRYPTION_TRUSTEE_SUCCESS, out))"
    by (simp only: Decryption_Trustee_compute_share_def honest_share_def Let_def bind.bind_lunit)
  then show ?thesis using decryption_share_codec.send_ok [OF E ok] by simp
qed

text \<open>The fragments that a trustee computes for a request about the trustees that are not in \<open>S\<close>.\<close>

lemma read_absent_request:
  assumes "platform_mem E" "unat n \<le> MAX_TRUSTEES"
  obtains st where "Serialize_read_decryption_fragments_request
      \<lparr>req_num_trustees = 0, req_requested = replicate MAX_TRUSTEES False\<rparr> (message_reading (absent_request n S)) =
    Some (\<lparr>req_num_trustees = n, req_requested = absent n S\<rparr>, st)" "ss_status st = SERIALIZE_STATE_READING"
proof -
  let ?old = "\<lparr>req_num_trustees = 0 :: u32, req_requested = replicate MAX_TRUSTEES False\<rparr>"
  have ok: "fragments_request_ok undefined \<lparr>req_num_trustees = n, req_requested = absent n S\<rparr>"
    using assms(2) by (simp add: fragments_request_ok_def absent_def)
  have "merge_fragments_request ?old \<lparr>req_num_trustees = n, req_requested = absent n S\<rparr> =
      \<lparr>req_num_trustees = n, req_requested = absent n S\<rparr>"
    by (simp add: merge_fragments_request_def merge_array_def absent_def)
  then show thesis
    using that fragments_request_codec.parse [OF assms(1) ok, of ?old]
    by (auto simp: message_reading_def absent_request_def)
qed

lemma fragment_row_eq:
  assumes "trustee_ok d"
  shows "fragment_row E G d s (replicate MAX_SELECTIONS 0) = Some (honest_row E G (tallies_of d) s)"
proof -
  let ?m = "unat (dt_num_selections d)"
  have m: "?m \<le> MAX_SELECTIONS" "length (tallies_of d) = ?m" "length (dt_tallies d) = MAX_SELECTIONS"
    using assms length_tallies_of [OF assms] by (simp_all add: trustee_ok_def)
  have "fragment_row E G d s (replicate MAX_SELECTIONS 0) =
      Some (map (\<lambda>j. pow_mod_p E G (nonce_encoding (dt_tallies d ! j)) s) [0..<?m] @ drop ?m (replicate MAX_SELECTIONS 0))"
    unfolding fragment_row_def using m by (intro for_array_ok) simp_all
  then show ?thesis
    using m map_nth_take [of ?m "dt_tallies d" "\<lambda>t. pow_mod_p E G (nonce_encoding t) s"]
    by (simp add: honest_row_def tallies_of_def)
qed

lemma fragment_proofs_total:
  assumes d: "trustee_ok d" and pv: "\<forall>j < length (tallies_of d). provable E G (dev j) (dt_base_hash d) s (tallies_of d ! j)"
  shows "\<exists>pfs. fragment_proofs E G dev d s (honest_row E G (tallies_of d) s) = Some pfs"
proof -
  let ?m = "unat (dt_num_selections d)" and ?xs = "tallies_of d"
  have m: "?m \<le> MAX_SELECTIONS" "length ?xs = ?m" "length (dt_tallies d) = MAX_SELECTIONS"
    using d length_tallies_of [OF d] by (simp_all add: trustee_ok_def)
  have "\<exists>pfs'. do {
       tally \<leftarrow> arr_get (dt_tallies d) j;
       partial \<leftarrow> arr_get (honest_row E G ?xs s) j;
       (pf, _) \<leftarrow> share_proof E G (dev j) d s partial tally;
       Some (pfs @ [pf]) } = Some pfs'" if j: "j < ?m" for j pfs
  proof -
    have "dt_tallies d ! j = ?xs ! j" using j by (simp add: tallies_of_def)
    moreover have "honest_row E G ?xs s ! j = pow_mod_p E G (nonce_encoding (?xs ! j)) s" "j < length (honest_row E G ?xs s)"
      using j m by (simp_all add: honest_row_def nth_append)
    ultimately show ?thesis using j m pv by (auto simp: provable_share)
  qed
  then have "\<exists>pfs. fragment_proofs E G dev d s (honest_row E G ?xs s) = Some pfs \<and> True"
    unfolding fragment_proofs_def by (intro loop_total [where P = "\<lambda>_ _. True"]) blast+
  then show ?thesis by simp
qed

lemma compute_fragments_eq:
  fixes S :: "u32 list"
  assumes E: "platform_mem E" and G: "group_ok G" and d: "trustee_ok d"
    and n: "dt_num_trustees d = n" "unat n \<le> MAX_TRUSTEES" "\<forall>i \<in> set S. i < n" "dt_index d \<in> set S"
    and shares: "unat n \<le> length (dt_my_key_shares d)"
      "\<forall>k < unat n. k \<notin> unat ` set S \<longrightarrow> RSA_Decrypt E (dt_my_key_shares d ! k) (dt_rsa_private_key d) = ss k"
    and pv: "\<forall>k < unat n. k \<notin> unat ` set S \<longrightarrow>
      (\<forall>j < length (tallies_of d). provable E G (dev k j) (dt_base_hash d) (ss k) (tallies_of d ! j))"
  defines "rep \<equiv> honest_fragments E G (tallies_of d) n (dt_index d) (absent n S) ss
      (the (lagrange_of E G (unat (dt_index d)) (absent n S) n))"
  assumes ok: "decryption_fragments_ok G rep"
  shows "Decryption_Trustee_compute_fragments E G dev (absent_request n S) d =
    Some (DECRYPTION_TRUSTEE_SUCCESS, Some (bytes_message (enc_decryption_fragments rep)))"
proof -
  let ?xs = "tallies_of d" and ?n = "unat n" and ?req = "absent n S" and ?z = "replicate MAX_SELECTIONS (0 :: int)"
  let ?row = "\<lambda>k. if ?req ! k then honest_row E G ?xs (ss k) else ?z"
  let ?w = "lagrange_of E G (unat (dt_index d)) ?req n"
  have m: "unat (dt_num_selections d) \<le> MAX_SELECTIONS" "length ?xs = unat (dt_num_selections d)"
    using d length_tallies_of [OF d] by (simp_all add: trustee_ok_def)
  have req: "?req ! k \<longleftrightarrow> k \<notin> unat ` set S" if "k < ?n" for k using that by (simp add: absent_def nth_append)
  have lr: "length ?req = MAX_TRUSTEES" using n(2) by (simp add: absent_def)
  obtain st where rd: "Serialize_read_decryption_fragments_request
      \<lparr>req_num_trustees = 0, req_requested = replicate MAX_TRUSTEES False\<rparr> (message_reading (absent_request n S)) =
    Some (\<lparr>req_num_trustees = n, req_requested = ?req\<rparr>, st)" "ss_status st = SERIALIZE_STATE_READING"
    by (rule read_absent_request [OF E n(2), of S])
  define Ms where "Ms = map ?row [0..<?n] @ drop ?n (replicate MAX_TRUSTEES ?z)"
  have Ms: "for_array ?n (\<lambda>i row. do {
                 r \<leftarrow> arr_get ?req i;
                 if r then do {
                   share \<leftarrow> arr_get (dt_my_key_shares d) i;
                   fragment_row E G d (RSA_Decrypt E share (dt_rsa_private_key d)) row }
                 else Some row }) (replicate MAX_TRUSTEES ?z) = Some Ms"
    unfolding Ms_def using n(2) lr shares req by (intro for_array_ok) (auto simp: fragment_row_eq [OF d])
  have M: "Ms = partial_decryption_M rep"
    using n(2) by (auto simp: Ms_def rep_def honest_fragments_def intro!: nth_equalityI simp: nth_append)
  have "unat (dt_index d) \<in> set (available ?req n)" using available_absent [OF n(3,2)] n(4) by simp
  then obtain w where w: "?w = Some w" using platform.lagrange_of_eq [OF platform_mem.axioms(1) [OF E] G] n(2) lr by simp
  let ?pf = "\<lambda>i pfs. do {
                 r \<leftarrow> arr_get ?req i;
                 if r then do {
                   share \<leftarrow> arr_get (dt_my_key_shares d) i;
                   row \<leftarrow> arr_get Ms i;
                   fragment_proofs E G (dev i) d (RSA_Decrypt E share (dt_rsa_private_key d)) row }
                 else Some pfs }"
  have "for_array ?n ?pf (replicate MAX_TRUSTEES []) = Some (map (\<lambda>i. the (?pf i [])) [0..<?n] @ drop ?n (replicate MAX_TRUSTEES []))"
  proof (rule for_array_ok)
    fix i assume i: "i < ?n"
    have "Ms ! i = ?row i" "i < length Ms" using i n(2) by (simp_all add: Ms_def nth_append)
    then show "?pf i (replicate MAX_TRUSTEES [] ! i) = Some (the (?pf i []))"
      using i n(2) lr shares req [OF i] pv fragment_proofs_total [OF d, of E G "dev i" "ss i"] by auto
  qed (use n(2) in simp)
  then obtain pfs where pfs: "for_array ?n ?pf (replicate MAX_TRUSTEES []) = Some pfs" by blast
  define rep' where "rep' = rep\<lparr>df_cp_proofs := pfs\<rparr>"
  have num: "(word_of_nat (length ?xs) :: u32) = dt_num_selections d" using m by simp
  have rep': "rep' = \<lparr>df_trustee_index = dt_index d, df_num_trustees = n, df_num_selections = dt_num_selections d,
      df_requested = ?req, partial_decryption_M = Ms, lagrange_coefficient = w, df_cp_proofs = pfs\<rparr>"
    unfolding rep'_def M by (simp add: rep_def honest_fragments_def num w)
  have snd: "send E (Serialize_reserve_decryption_fragments rep') (Serialize_write_decryption_fragments E rep') =
      Some (Some (bytes_message (enc_decryption_fragments rep)))"
    using decryption_fragments_codec.send_ok [OF E, of G rep'] ok
    by (simp add: rep'_def decryption_fragments_ok_def enc_decryption_fragments_def)
  show ?thesis
    unfolding Decryption_Trustee_compute_fragments_def n(1) rd Let_def using Ms w pfs snd rd(2)
    by (simp add: rep' [symmetric])
qed

section \<open>The loops\<close>

text \<open>A loop over the trustees that sends what those in \<open>P\<close> have computed, in the order of their indices.\<close>

lemma receive_all_append:
  "receive_all recv ok (ms @ ms') s = receive_all recv ok ms s \<bind> receive_all recv ok ms'"
  by (induction ms arbitrary: s) (auto simp: Option.bind_assoc intro!: Option.bind_cong)

lemma loop_receive:
  assumes "\<And>i c. i < n \<Longrightarrow> f i (True, c) =
      (if i \<in> P then recv (m i) c \<bind> (\<lambda>(r, c). Some (r = ok, c)) else Some (True, c))"
    and "receive_all recv ok (map m (filter (\<lambda>i. i \<in> P) [0..<n])) c = Some c'"
  shows "loop n f (True, c) = Some (True, c')"
  using assms
proof (induction n arbitrary: c')
  case (Suc n)
  let ?ms = "map m (filter (\<lambda>i. i \<in> P) [0..<n])"
  obtain c1 where c1: "receive_all recv ok ?ms c = Some c1"
    "receive_all recv ok (if n \<in> P then [m n] else []) c1 = Some c'"
    using Suc.prems(2) [simplified upt_Suc_append filter_append map_append receive_all_append bind_eq_Some_conv]
    by (auto split: if_splits)
  have "loop n f (True, c) = Some (True, c1)" using Suc.prems(1) c1(1) by (intro Suc.IH) simp_all
  then show ?case using Suc.prems(1) [of n c1] c1(2) by (auto simp: bind_eq_Some_conv split: if_splits)
qed simp

lemma ascending:
  fixes S :: "u32 list"
  assumes "sorted S" "distinct S" "\<forall>i \<in> set S. i < n"
  shows "S = map word_of_nat (filter (\<lambda>i. i \<in> unat ` set S) [0..<unat n])"
proof -
  have "map unat S = filter (\<lambda>i. i \<in> unat ` set S) [0..<unat n]"
  proof (rule sorted_distinct_set_unique)
    show "sorted (map unat S)"
      using assms(1) by (auto simp: sorted_iff_nth_mono word_le_nat_alt)
    show "distinct (map unat S)" using assms(2) by (auto simp: distinct_map intro!: inj_onI dest: unat_same)
    show "set (map unat S) = set (filter (\<lambda>i. i \<in> unat ` set S) [0..<unat n])"
      using assms(3) by (auto simp: word_less_nat_alt)
  qed (simp_all add: sorted_wrt_filter)
  then have "(map word_of_nat (map unat S) :: u32 list) = map word_of_nat (filter (\<lambda>i. i \<in> unat ` set S) [0..<unat n])"
    by (rule arg_cong)
  then show ?thesis by (simp only: map_map comp_def of_nat_unat ucast_id list.map_ident)
qed

text \<open>The trustees that decrypt, at their indices.\<close>

definition seated :: "Decryption_Trustee list \<Rightarrow> Decryption_Trustee option list \<Rightarrow> Decryption_Trustee option list" where
  "seated ds ts = fold (\<lambda>d ts. ts[unat (dt_index d) := Some d]) ds ts"

lemma length_seated [simp]: "length (seated ds ts) = length ts"
  unfolding seated_def by (induction ds arbitrary: ts) simp_all

lemma seated_snoc: "seated (ds @ [d]) ts = (seated ds ts)[unat (dt_index d) := Some d]"
  by (simp add: seated_def)

lemma seated_other: "i \<notin> (\<lambda>d. unat (dt_index d)) ` set ds \<Longrightarrow> seated ds ts ! i = ts ! i"
  by (induction ds rule: rev_induct) (auto simp: seated_snoc seated_def)

lemma seated_nth:
  "distinct (map dt_index ds) \<Longrightarrow> d \<in> set ds \<Longrightarrow> unat (dt_index d) < length ts \<Longrightarrow>
    seated ds ts ! unat (dt_index d) = Some d"
proof (induction ds rule: rev_induct)
  case (snoc x ds)
  show ?case
  proof (cases "d = x")
    case False
    then have "dt_index x \<noteq> dt_index d" using snoc.prems by auto
    then have "unat (dt_index x) \<noteq> unat (dt_index d)" by (auto dest: unat_same)
    then show ?thesis using False snoc by (simp add: seated_snoc)
  qed (use snoc in \<open>simp add: seated_snoc\<close>)
qed simp

lemma initialize_trustees_eq:
  assumes "cfg_threshold config \<le> num" "length ds = unat num" "unat num \<le> length states"
    and "\<forall>j < length ds. Decryption_Trustee_new E G (cfg_num_trustees config) (cfg_threshold config)
      (cfg_num_selections config) (states ! j) (create_base_hash_code config) = Some (DECRYPTION_TRUSTEE_SUCCESS, Some (ds ! j))"
    and "\<forall>d \<in> set ds. unat (dt_index d) < length ts"
  shows "tally_initialize_trustees E G config num states ts = Some (True, seated ds ts)"
proof -
  let ?f = "\<lambda>i (ok, trustees).
        if \<not> ok then Some (ok, trustees)
        else do {
          state \<leftarrow> arr_get states i;
          (status, decryptor) \<leftarrow> Decryption_Trustee_new E G (cfg_num_trustees config) (cfg_threshold config)
            (cfg_num_selections config) state (create_base_hash_code config);
          if status \<noteq> DECRYPTION_TRUSTEE_SUCCESS then Some (False, trustees)
          else do {
            d \<leftarrow> decryptor;
            trustees \<leftarrow> arr_set trustees (unat (dt_index d)) (Some d);
            Some (ok, trustees) } }"
  have "loop k ?f (True, ts) = Some (True, seated (take k ds) ts)" if "k \<le> length ds" for k
    using that
  proof (induction k)
    case (Suc k)
    have "ds ! k \<in> set ds" using Suc.prems by simp
    then show ?case
      using Suc assms(2-5) by (simp add: take_Suc_conv_app_nth seated_snoc arr_set_def)
  qed (simp add: seated_def)
  from this [of "unat num"] assms(1,2) show ?thesis
    by (simp add: tally_initialize_trustees_def not_less)
qed

text \<open>Everyone tallies the same record.\<close>

lemma tally_ballots_eq:
  assumes "unat (cfg_num_trustees config) \<le> length ts"
    and "\<forall>i < unat (cfg_num_trustees config). \<forall>d. ts ! i = Some d \<longrightarrow>
      (\<exists>rest. Decryption_Trustee_tally_voting_record E G text d = Some (DECRYPTION_TRUSTEE_SUCCESS, rest, h d))"
  shows "tally_ballots E G config (Some text) ts = Some (True, map (\<lambda>i. map_option h (ts ! i))
    [0..<unat (cfg_num_trustees config)] @ drop (unat (cfg_num_trustees config)) ts)"
proof -
  have "loop k (tally_ballots_step E G (Some text)) (True, ts) =
      Some (True, map (\<lambda>i. map_option h (ts ! i)) [0..<k] @ drop k ts)" if "k \<le> unat (cfg_num_trustees config)" for k
    using that
  proof (induction k)
    case (Suc k)
    let ?ts = "map (\<lambda>i. map_option h (ts ! i)) [0..<k] @ drop k ts"
    have k: "k < length ts" using Suc.prems assms(1) by simp
    then have d: "drop k ts = ts ! k # drop (Suc k) ts" by (simp add: Cons_nth_drop_Suc)
    have "tally_ballots_step E G (Some text) k (True, ?ts) = Some (True, ?ts[k := map_option h (ts ! k)])"
    proof (cases "ts ! k")
      case None
      then show ?thesis using k by (simp add: tally_ballots_step_def nth_append d list_update_append)
    next
      case (Some t)
      then obtain rest where "Decryption_Trustee_tally_voting_record E G text t = Some (DECRYPTION_TRUSTEE_SUCCESS, rest, h t)"
        using assms(2) [rule_format, of k t] Suc.prems by auto
      then show ?thesis using Some k by (simp add: tally_ballots_step_def nth_append)
    qed
    with Suc d show ?case by (simp add: list_update_append)
  qed simp
  from this [OF order_refl] show ?thesis by (simp add: tally_ballots_def)
qed

lemma decrypt_tally_shares_eq:
  assumes "unat (cfg_num_trustees config) \<le> length ts"
    and "\<forall>i < unat (cfg_num_trustees config). if i \<in> P then \<exists>d. ts ! i = Some d \<and>
        Decryption_Trustee_compute_share E G (dev i) d = Some (DECRYPTION_TRUSTEE_SUCCESS, Some (m i)) else ts ! i = None"
    and "receive_all (Decryption_Coordinator_receive_share E G) DECRYPTION_COORDINATOR_SUCCESS
      (map m (filter (\<lambda>i. i \<in> P) [0..<unat (cfg_num_trustees config)])) c = Some c'"
  shows "decrypt_tally_shares E G dev config ts c = Some (True, c')"
  unfolding decrypt_tally_shares_def
proof (rule loop_receive [OF _ assms(3)])
  fix i c assume i: "i < unat (cfg_num_trustees config)"
  show "decrypt_share_step E G dev ts i (True, c) =
    (if i \<in> P then Decryption_Coordinator_receive_share E G (m i) c \<bind> (\<lambda>(r, c). Some (r = DECRYPTION_COORDINATOR_SUCCESS, c))
     else Some (True, c))"
    using i assms(1) assms(2) [rule_format, OF i] by (auto simp: decrypt_share_step_def split: if_splits)
qed

lemma decrypt_fragments_eq:
  assumes "length requests = unat (cfg_num_trustees config)" "unat (cfg_num_trustees config) \<le> length ts"
    and "\<forall>i < unat (cfg_num_trustees config). if i \<in> P then \<exists>d req. ts ! i = Some d \<and> requests ! i = Some req \<and>
        Decryption_Trustee_compute_fragments E G (dev i) req d = Some (DECRYPTION_TRUSTEE_SUCCESS, Some (m i))
      else requests ! i = None"
    and "receive_all (Decryption_Coordinator_receive_fragments E G) DECRYPTION_COORDINATOR_SUCCESS
      (map m (filter (\<lambda>i. i \<in> P) [0..<unat (cfg_num_trustees config)])) c = Some c'"
  shows "decrypt_tally_decryption_fragments E G dev config ts requests c = Some (True, c')"
  unfolding decrypt_tally_decryption_fragments_def
proof (rule loop_receive [OF _ assms(4)])
  fix i c assume i: "i < unat (cfg_num_trustees config)"
  show "decrypt_fragments_step E G dev ts requests i (True, c) =
    (if i \<in> P then Decryption_Coordinator_receive_fragments E G (m i) c \<bind> (\<lambda>(r, c). Some (r = DECRYPTION_COORDINATOR_SUCCESS, c))
     else Some (True, c))"
    using i assms(1,2) assms(3) [rule_format, OF i] by (auto simp: decrypt_fragments_step_def split: if_splits)
qed

text \<open>Asked again, the coordinator gives the same requests.\<close>

lemma requests_of_prepared: "requests_of (prepared c) = requests_of c"
  by (simp add: requests_of_def request_of_def rank_def missing_def prepared_def Let_def)

lemma prepared_again:
  assumes "decryption_ok c"
  shows "prepared (prepared c) = prepared c"
  using decryption_okD(1) [OF assms] assms by (simp add: prepared_def Let_def decryption_ok_def)

lemma request_missing_eq:
  assumes "platform_mem E" "decryption_ok c" "unat (dc_threshold c) \<le> card (announced_by c)" "0 < cfg_num_trustees config"
  shows "request_missing_trustee_tally_shares E config c = Some (True, Some (requests_of c), prepared c)"
proof -
  note p = prepared_props [OF assms(2)]
  have again: "Decryption_Coordinator_all_shares_received E (prepared c) =
      Some (DECRYPTION_COORDINATOR_SUCCESS, requests_of c, prepared c)"
    using all_shares_received_eq [OF assms(1) p(1)] p(2,4) assms(3)
    by (simp add: trustees_same_def requests_of_prepared prepared_again [OF assms(2)])
  have first: "Decryption_Coordinator_all_shares_received E c = Some (DECRYPTION_COORDINATOR_SUCCESS, requests_of c, prepared c)"
    using all_shares_received_eq [OF assms(1,2)] assms(3) by simp
  let ?f = "\<lambda>_ (ok, requests, c).
       if \<not> ok then Some (ok, requests, c)
       else do {
         (status, answer, c) \<leftarrow> Decryption_Coordinator_all_shares_received E c;
         Some (if status \<noteq> DECRYPTION_COORDINATOR_SUCCESS then (False, requests, c) else (ok, Some answer, c)) }"
  have "loop (Suc k) ?f (True, None, c) = Some (True, Some (requests_of c), prepared c)" for k
  proof (induction k)
    case (Suc k)
    then show ?case by (subst loop.simps(2)) (simp add: again del: loop.simps)
  qed (simp add: first)
  moreover obtain k where "unat (cfg_num_trustees config) = Suc k"
    using assms(4) by (metis word_less_nat_alt unat_0 gr0_implies_Suc)
  ultimately show ?thesis unfolding request_missing_trustee_tally_shares_def by (simp only:)
qed

section \<open>The decryption\<close>

text \<open>
  A trustee that takes part holds its secret and its shares of the secrets of the missing trustees, has
  tallied \<open>xs\<close>, and its devices let it make its proofs.
\<close>

definition takes_part ::
    "env \<Rightarrow> params \<Rightarrow> (nat \<Rightarrow> nat \<Rightarrow> random_source option) \<Rightarrow> (nat \<Rightarrow> nat \<Rightarrow> nat \<Rightarrow> random_source option) \<Rightarrow>
     private_key list \<Rightarrow> u32 \<Rightarrow> u32 \<Rightarrow> u32 list \<Rightarrow> encryption_rep list \<Rightarrow> Decryption_Trustee \<Rightarrow> bool" where
  "takes_part E G sdev fdev privs n t S xs d \<longleftrightarrow>
     (let i = unat (dt_index d); s = secret_of privs (dt_index d); v = share_value G privs (unat t) (dt_index d) in
      trustee_ok d \<and> dt_num_trustees d = n \<and> unat n \<le> length (dt_my_key_shares d) \<and> tallies_of d = xs \<and>
      coefficients (dt_private_key d) ! 0 = s \<and> (\<forall>j < length xs. provable E G (sdev i j) (dt_base_hash d) s (xs ! j)) \<and>
      (\<forall>k < unat n. k \<notin> unat ` set S \<longrightarrow>
         RSA_Decrypt E (dt_my_key_shares d ! k) (dt_rsa_private_key d) = v k \<and>
         (\<forall>j < length xs. provable E G (fdev i k j) (dt_base_hash d) (v k) (xs ! j))))"

lemma share_sent:
  assumes "platform_mem E" "honest_run E G xs privs n t S" "takes_part E G sdev fdev privs n t S xs d" "dt_index d \<in> set S"
  shows "Decryption_Trustee_compute_share E G (sdev (unat (dt_index d))) d = Some (DECRYPTION_TRUSTEE_SUCCESS,
    Some (bytes_message (enc_decryption_share (honest_share E G xs (dt_index d) (secret_of privs (dt_index d))))))"
  using assms(2-4) compute_share_eq [OF assms(1), of d G "sdev (unat (dt_index d))"]
  by (simp add: takes_part_def honest_run_def Let_def)

lemma fragments_sent:
  assumes E: "platform_mem E" and G: "group_ok G" and h: "honest_run E G xs privs n t S"
    and d: "takes_part E G sdev fdev privs n t S xs d" "dt_index d \<in> set S"
  shows "Decryption_Trustee_compute_fragments E G (fdev (unat (dt_index d))) (absent_request n S) d =
    Some (DECRYPTION_TRUSTEE_SUCCESS,
      Some (bytes_message (enc_decryption_fragments (fragments_rep_of E G xs privs n (unat t) S (dt_index d)))))"
proof -
  have "unat n \<le> MAX_TRUSTEES" using h by (auto simp: honest_run_def valid_params_def word_le_nat_alt)
  then show ?thesis
    using compute_fragments_eq [OF E G, of d n S "share_value G privs (unat t) (dt_index d)" "fdev (unat (dt_index d))"] h d
    by (simp add: takes_part_def honest_run_def fragments_rep_of_def Let_def)
qed

lemma tally_decryption:
  assumes E: "platform_mem E" and G: "group_ok G" "small_invertible G" and h: "honest_run E G xs privs n t S"
    and S: "sorted S" and n: "cfg_num_trustees config = n" "unat n \<le> length ts"
    and new: "Decryption_Coordinator_new E n t = Some (r, Some c0)"
    and ts: "\<And>i. i < unat n \<Longrightarrow> i \<notin> unat ` set S \<Longrightarrow> ts ! i = None"
      "\<And>i. i \<in> set S \<Longrightarrow> \<exists>d. ts ! unat i = Some d \<and> dt_index d = i \<and> takes_part E G sdev fdev privs n t S xs d"
  shows "\<exists>c1 c3. decrypt_tally_shares E G sdev config ts c0 = Some (True, c1) \<and>
    request_missing_trustee_tally_shares E config c1 = Some (True, Some (requests_of c1), prepared c1) \<and>
    decrypt_tally_decryption_fragments E G fdev config ts (requests_of c1) (prepared c1) = Some (True, c3) \<and>
    Decryption_Coordinator_all_trustees_seen_or_compensated c3 = Some True \<and>
    raised E G xs (\<Sum>k < unat n. coefficients (privs ! k) ! 0) c3"
proof -
  note hh = h [unfolded honest_run_def]
  have order: "map M S = map (\<lambda>i. M (word_of_nat i)) (filter (\<lambda>i. i \<in> unat ` set S) [0..<unat n])" for M :: "u32 \<Rightarrow> message"
    using arg_cong [OF ascending [OF S, of n], of "map M"] hh by (simp add: comp_def)
  obtain c1 reqs c2 c3 where run:
    "receive_all (Decryption_Coordinator_receive_share E G) DECRYPTION_COORDINATOR_SUCCESS (share_messages E G xs privs S) c0 = Some c1"
    "Decryption_Coordinator_all_shares_received E c1 = Some (DECRYPTION_COORDINATOR_SUCCESS, reqs, c2)"
    "\<forall>i \<in> set S. reqs ! unat i = Some (absent_request n S)"
    "receive_all (Decryption_Coordinator_receive_fragments E G) DECRYPTION_COORDINATOR_SUCCESS
      (fragment_messages E G xs privs n (unat t) S) c2 = Some c3"
    "Decryption_Coordinator_all_trustees_seen_or_compensated c3 = Some True"
    "raised E G xs (\<Sum>k < unat n. coefficients (privs ! k) ! 0) c3"
    using honest_decryption [OF E G h new] by blast
  have c1: "decryption_ok c1" "dc_num_trustees c1 = n" "dc_threshold c1 = t" "announced_by c1 = unat ` set S"
    "card (announced_by c1) = unat t"
    using honest_shares_run [OF E G(1) h new] run(1) by auto
  have req: "reqs = requests_of c1" "c2 = prepared c1"
    using all_shares_received_eq [OF E c1(1)] run(2) c1(3,5) by simp_all
  have "decrypt_tally_shares E G sdev config ts c0 = Some (True, c1)"
  proof (rule decrypt_tally_shares_eq [where P = "unat ` set S"
        and m = "\<lambda>i. bytes_message (enc_decryption_share (honest_share E G xs (word_of_nat i) (secret_of privs (word_of_nat i))))"],
      goal_cases)
    case 2
    have "\<exists>d. ts ! unat i = Some d \<and> Decryption_Trustee_compute_share E G (sdev (unat i)) d = Some (DECRYPTION_TRUSTEE_SUCCESS,
        Some (bytes_message (enc_decryption_share (honest_share E G xs i (secret_of privs i)))))" if "i \<in> set S" for i
      using ts(2) [OF that] that share_sent [OF E h] by fastforce
    with ts(1) show ?case by (auto simp: n(1))
  qed (use n run(1) order in \<open>simp_all add: share_messages_def\<close>)
  moreover have "decrypt_tally_decryption_fragments E G fdev config ts (requests_of c1) (prepared c1) = Some (True, c3)"
  proof (rule decrypt_fragments_eq [where P = "unat ` set S"
        and m = "\<lambda>i. bytes_message (enc_decryption_fragments (fragments_rep_of E G xs privs n (unat t) S (word_of_nat i)))"],
      goal_cases)
    case 3
    have "requests_of c1 ! i = None" if "i < unat n" "i \<notin> unat ` set S" for i
      using that c1(2,4) by (auto simp: requests_of_def announced_by_def)
    moreover have "\<exists>d req. ts ! unat i = Some d \<and> requests_of c1 ! unat i = Some req \<and>
        Decryption_Trustee_compute_fragments E G (fdev (unat i)) req d = Some (DECRYPTION_TRUSTEE_SUCCESS,
          Some (bytes_message (enc_decryption_fragments (fragments_rep_of E G xs privs n (unat t) S i))))" if "i \<in> set S" for i
      using ts(2) [OF that] that fragments_sent [OF E G(1) h] run(3) req(1) by fastforce
    ultimately show ?case by (auto simp: n(1))
  qed (use n c1(2) run(4) req(2) order in \<open>simp_all add: requests_of_def fragment_messages_def\<close>)
  moreover have "request_missing_trustee_tally_shares E config c1 = Some (True, Some (requests_of c1), prepared c1)"
    using c1(3,5) hh n(1) by (intro request_missing_eq [OF E c1(1)]) (auto simp: valid_params_def word_le_nat_alt word_less_nat_alt)
  ultimately show ?thesis using run(5,6) by blast
qed

section \<open>The trustees\<close>

text \<open>A trustee is what its state says.\<close>

lemma trustee_from_state:
  assumes E: "platform_mem E" and v: "valid_params n t" and ok: "trustee_state_ok (unat n) G rep"
    and t: "priv_threshold (ts_private_key rep) = t"
  shows "\<exists>d. Decryption_Trustee_new E G n t m (bytes_message (enc_trustee_state (unat n) rep)) h =
      Some (DECRYPTION_TRUSTEE_SUCCESS, Some d) \<and>
    dt_num_trustees d = n \<and> dt_num_selections d = m \<and> dt_index d = ts_index rep \<and>
    dt_tallies d = replicate MAX_SELECTIONS Crypto_encryption_homomorphic_zero \<and>
    coefficients (dt_private_key d) \<noteq> [] \<and> coefficients (dt_private_key d) ! 0 = coefficients (ts_private_key rep) ! 0 \<and>
    dt_base_hash d = Crypto_hash_reduce E G h \<and> length (dt_my_key_shares d) = MAX_TRUSTEES \<and>
    (\<forall>k < unat n. dt_my_key_shares d ! k = ts_my_key_shares rep ! k) \<and> dt_rsa_private_key d = ts_rsa_private_key rep"
proof -
  have n: "unat n \<le> MAX_TRUSTEES" "unat t \<le> MAX_TRUSTEES" "0 < unat t"
    using v by (auto simp: valid_params_def word_le_nat_alt)
  have lb: "length blank_array = MAX_TRUSTEES" by (simp add: blank_array_def)
  have fields: "length (coefficients (ts_private_key rep)) = MAX_TRUSTEES" "length (ts_my_key_shares rep) = MAX_TRUSTEES"
    using ok by (simp_all add: trustee_state_ok_def private_key_ok_def array_ok_def shares_ok_def)
  let ?priv = "\<lparr>priv_threshold = 0, coefficients = blank_array\<rparr>"
  have init: "Crypto_private_key_init ?priv (unat t) = Some ?priv"
    using n by (simp add: Crypto_private_key_init_def mpz_init_n_blank)
  have ss: "for_array (unat n) (\<lambda>_ _. Some Crypto_encrypted_key_share_init) blank_array = Some blank_array"
    using for_array_ok [of "unat n" blank_array "\<lambda>_ _. Some Crypto_encrypted_key_share_init" "\<lambda>_. 0"] n
    by (simp add: blank_array_def map_replicate_const Crypto_encrypted_key_share_init_def flip: replicate_add)
  let ?old = "\<lparr>ts_index = 0 :: u32, ts_private_key = ?priv, ts_my_key_shares = blank_array,
      ts_rsa_private_key = Crypto_rsa_private_key_new\<rparr>"
  define rep' where "rep' = merge_trustee_state (unat n) ?old rep"
  have old: "trustee_state_shape ?old" by (simp add: trustee_state_shape_def private_key_shape_def lb)
  obtain st where rd: "Serialize_read_trustee_state (unat n) E ?old
      (message_reading (bytes_message (enc_trustee_state (unat n) rep))) = Some (rep', st)" "ss_status st = SERIALIZE_STATE_READING"
    using trustee_state_codec.parse [OF E ok old] by (simp add: message_reading_def rep'_def)
  have rep': "ts_index rep' = ts_index rep" "ts_rsa_private_key rep' = ts_rsa_private_key rep"
    "priv_threshold (ts_private_key rep') = t" "length (coefficients (ts_private_key rep')) = MAX_TRUSTEES"
    "coefficients (ts_private_key rep') ! 0 = coefficients (ts_private_key rep) ! 0"
    "length (ts_my_key_shares rep') = MAX_TRUSTEES"
    "k < unat n \<Longrightarrow> ts_my_key_shares rep' ! k = ts_my_key_shares rep ! k" for k
    using t n fields lb by (simp_all add: rep'_def merge_trustee_state_def merge_private_key_def merge_array_def nth_append)
  obtain priv where priv: "Crypto_private_key_copy ?priv (ts_private_key rep') = Some priv"
      "length (coefficients priv) = MAX_TRUSTEES" "coefficients priv ! 0 = coefficients (ts_private_key rep) ! 0"
    using n rep'(3-5) lb by (auto simp: Crypto_private_key_copy_def mpz_set_n_ok nth_append)
  have shares: "for_array (unat n) (\<lambda>i _. do {
                       src \<leftarrow> arr_get (ts_my_key_shares rep') i;
                       Some (Crypto_encrypted_key_share_copy Crypto_encrypted_key_share_init src) }) blank_array =
      Some (map (\<lambda>i. ts_my_key_shares rep' ! i) [0..<unat n] @ drop (unat n) blank_array)"
    using n rep'(6) lb by (intro for_array_ok) (simp_all add: Crypto_encrypted_key_share_copy_def)
  obtain b where "malloc E 32280 = Some b" using platform_mem.malloc_ok [OF E] by blast
  moreover have "coefficients priv \<noteq> []" using priv(2) by (auto simp: MAX_TRUSTEES_def)
  moreover have "Crypto_rsa_private_key_copy Crypto_rsa_private_key_new k = k" for k
    by (simp add: Crypto_rsa_private_key_copy_def Crypto_rsa_private_key_new_def)
  ultimately show ?thesis
    using init ss rd rep' priv shares v n lb
    by (simp add: Decryption_Trustee_new_def Let_def nth_append)
qed

text \<open>What the states of the trustees in \<open>S\<close> and their devices must be good for.\<close>

definition holds_state :: "env \<Rightarrow> params \<Rightarrow> private_key list \<Rightarrow> u32 \<Rightarrow> u32 \<Rightarrow> u32 list \<Rightarrow> trustee_state_rep \<Rightarrow> bool" where
  "holds_state E G privs n t S rep \<longleftrightarrow>
     trustee_state_ok (unat n) G rep \<and> priv_threshold (ts_private_key rep) = t \<and>
     coefficients (ts_private_key rep) ! 0 = secret_of privs (ts_index rep) \<and>
     (\<forall>k < unat n. k \<notin> unat ` set S \<longrightarrow> RSA_Decrypt E (ts_my_key_shares rep ! k) (ts_rsa_private_key rep) =
        share_value G privs (unat t) (ts_index rep) k)"

definition devices_ok ::
    "env \<Rightarrow> params \<Rightarrow> (nat \<Rightarrow> nat \<Rightarrow> random_source option) \<Rightarrow> (nat \<Rightarrow> nat \<Rightarrow> nat \<Rightarrow> random_source option) \<Rightarrow>
     private_key list \<Rightarrow> u32 \<Rightarrow> u32 \<Rightarrow> u32 list \<Rightarrow> hash \<Rightarrow> encryption_rep list \<Rightarrow> bool" where
  "devices_ok E G sdev fdev privs n t S h xs \<longleftrightarrow> (\<forall>i \<in> set S. \<forall>j < length xs.
     provable E G (sdev (unat i) j) h (secret_of privs i) (xs ! j) \<and>
     (\<forall>k < unat n. k \<notin> unat ` set S \<longrightarrow>
        provable E G (fdev (unat i) k j) h (share_value G privs (unat t) i k) (xs ! j)))"

text \<open>The tallies over a record, and how many votes there are for a selection.\<close>

definition tallies_over :: "env \<Rightarrow> params \<Rightarrow> (bool \<times> encryption_rep list) list \<Rightarrow> encryption_rep list" where
  "tallies_over E G bs = fold (add_ballot E G) bs (replicate MAX_SELECTIONS Crypto_encryption_homomorphic_zero)"

definition votes_for :: "((bool \<times> encryption_rep list) \<Rightarrow> nat \<Rightarrow> nat) \<Rightarrow> (bool \<times> encryption_rep list) list \<Rightarrow> nat \<Rightarrow> nat" where
  "votes_for v bs j = (\<Sum>x\<leftarrow>filter fst bs. v x j)"

definition ballots_ok :: "u32 \<Rightarrow> (bool \<times> encryption_rep list) list \<Rightarrow> bool" where
  "ballots_ok m bs \<longleftrightarrow> unat m \<le> MAX_SELECTIONS \<and>
     (\<forall>x \<in> set bs. length (snd x) = unat m \<and> (\<forall>e \<in> set (snd x). encryption_ok e))"

lemma length_tallies_over:
  assumes "ballots_ok m bs"
  shows "length (tallies_over E G bs) = MAX_SELECTIONS"
proof -
  have "length (fold (add_ballot E G) bs ts) = length ts" if "\<forall>x \<in> set bs. length (snd x) \<le> length ts" for ts
    using that by (induction bs arbitrary: ts) (auto simp: add_ballot_def)
  then show ?thesis using assms by (simp add: tallies_over_def ballots_ok_def)
qed

lemma tallies_encrypt:
  assumes "platform_mem E" "group_ok G" "ballots_ok m bs" "j < unat m"
    and "\<forall>x \<in> set bs. \<exists>r. encrypts E G pk r (int (v x j)) (snd x ! j)"
  shows "\<exists>r. encrypts E G pk r (int (votes_for v bs j)) (take (unat m) (tallies_over E G bs) ! j)"
proof -
  have "\<exists>r. encrypts E G pk r (0 + sum_list (map (\<lambda>x. int (v x j)) (filter fst bs)))
      (fold (add_ballot E G) bs (replicate MAX_SELECTIONS Crypto_encryption_homomorphic_zero) ! j)"
    using assms(3-5) exI [of "\<lambda>r. encrypts E G pk r 0 Crypto_encryption_homomorphic_zero",
        OF platform.zero_encrypts [OF platform_mem.axioms(1) [OF assms(1)] assms(2)]]
    by (intro platform_mem.tally_encrypts [OF assms(1,2)]) (auto simp: ballots_ok_def)
  moreover have "sum_list (map (\<lambda>x. int (v x j)) xs) = int (sum_list (map (\<lambda>x. v x j) xs))" for xs
    by (induction xs) simp_all
  ultimately show ?thesis using assms(4) by (simp add: tallies_over_def votes_for_def)
qed

lemma seated_cells:
  assumes "distinct (map dt_index ds)" "dt_index ` set ds = set S" "\<forall>i \<in> set S. i < n" "unat n \<le> length ts"
    and "\<forall>i < unat n. ts ! i = None"
  shows "d \<in> set ds \<Longrightarrow> unat (dt_index d) < length ts" "d \<in> set ds \<Longrightarrow> seated ds ts ! unat (dt_index d) = Some d"
    "i < unat n \<Longrightarrow> i \<notin> unat ` set S \<Longrightarrow> seated ds ts ! i = None"
    "i < unat n \<Longrightarrow> seated ds ts ! i = Some d \<Longrightarrow> d \<in> set ds"
proof -
  show range: "unat (dt_index d) < length ts" if "d \<in> set ds" for d
  proof -
    have "dt_index d \<in> set S" using that assms(2) by blast
    then show ?thesis using assms(3,4) by (auto simp: word_less_nat_alt)
  qed
  show cell: "seated ds ts ! unat (dt_index d) = Some d" if "d \<in> set ds" for d
    using seated_nth [OF assms(1) that] range [OF that] by simp
  show none: "seated ds ts ! i = None" if "i < unat n" "i \<notin> unat ` set S" for i
  proof -
    have "i \<notin> (\<lambda>d. unat (dt_index d)) ` set ds" using that(2) assms(2) by (auto simp: image_image [symmetric])
    then show ?thesis using seated_other that(1) assms(5) by simp
  qed
  show "d \<in> set ds" if "i < unat n" "seated ds ts ! i = Some d"
  proof -
    have "i \<in> unat ` dt_index ` set ds" using that none assms(2) by force
    then obtain d' where "d' \<in> set ds" "i = unat (dt_index d')" by blast
    then show ?thesis using cell that(2) by auto
  qed
qed

definition counted :: "env \<Rightarrow> params \<Rightarrow> (bool \<times> encryption_rep list) list \<Rightarrow> Decryption_Trustee \<Rightarrow> Decryption_Trustee" where
  "counted E G bs d = d\<lparr>dt_tallies := fold (add_ballot E G) bs (dt_tallies d)\<rparr>"

definition fresh_trustee ::
    "env \<Rightarrow> params \<Rightarrow> u32 \<Rightarrow> u32 \<Rightarrow> raw_hash \<Rightarrow> trustee_state_rep \<Rightarrow> Decryption_Trustee \<Rightarrow> bool" where
  "fresh_trustee E G n m h rep d \<longleftrightarrow>
    dt_num_trustees d = n \<and> dt_num_selections d = m \<and> dt_index d = ts_index rep \<and>
    dt_tallies d = replicate MAX_SELECTIONS Crypto_encryption_homomorphic_zero \<and>
    coefficients (dt_private_key d) \<noteq> [] \<and> coefficients (dt_private_key d) ! 0 = coefficients (ts_private_key rep) ! 0 \<and>
    dt_base_hash d = Crypto_hash_reduce E G h \<and> length (dt_my_key_shares d) = MAX_TRUSTEES \<and>
    (\<forall>k < unat n. dt_my_key_shares d ! k = ts_my_key_shares rep ! k) \<and> dt_rsa_private_key d = ts_rsa_private_key rep"

lemma fresh_takes_part:
  assumes "fresh_trustee E G n m h rep d" "holds_state E G privs n t S rep" "ts_index rep \<in> set S"
    and "ballots_ok m bs" "unat n \<le> MAX_TRUSTEES"
    and "devices_ok E G sdev fdev privs n t S (Crypto_hash_reduce E G h) (take (unat m) (tallies_over E G bs))"
  shows "takes_part E G sdev fdev privs n t S (take (unat m) (tallies_over E G bs)) (counted E G bs d)"
proof -
  have "fold (add_ballot E G) bs (dt_tallies d) = tallies_over E G bs"
    using assms(1) by (simp add: fresh_trustee_def tallies_over_def)
  then show ?thesis
    using assms length_tallies_over [OF assms(4), of E G]
    by (auto simp: takes_part_def counted_def fresh_trustee_def holds_state_def devices_ok_def trustee_ok_def tallies_of_def
        ballots_ok_def Let_def)
qed

lemma fresh_tally:
  assumes "platform_mem E" "fresh_trustee E G n m h rep d" "ballots_ok m bs" "length bs = unat (k :: u32)"
  shows "\<exists>rest. Decryption_Trustee_tally_voting_record E G (header_text k m @ lines_text bs (length bs)) d =
    Some (DECRYPTION_TRUSTEE_SUCCESS, rest, counted E G bs d)"
  using platform_mem.tally_record [OF assms(1), of bs d k G] assms(2-4)
  by (simp add: fresh_trustee_def ballots_ok_def counted_def)

lemma trustees_tally:
  assumes E: "platform_mem E" and h: "valid_params n t" "distinct S" "\<forall>i \<in> set S. i < n" "length S = unat t"
    and config: "cfg_num_trustees config = n" "cfg_threshold config = t" "cfg_num_selections config = m"
    and reps: "length reps = length S" "set (map ts_index reps) = set S" "\<forall>rep \<in> set reps. holds_state E G privs n t S rep"
    and bs: "ballots_ok m bs" "length bs = unat k" and ts0: "length ts0 = MAX_TRUSTEES" "\<forall>i < unat n. ts0 ! i = None"
    and dev: "devices_ok E G sdev fdev privs n t S (Crypto_hash_reduce E G (create_base_hash_code config))
      (take (unat m) (tallies_over E G bs))"
  shows "\<exists>ts1 ts. tally_initialize_trustees E G config t
      (map (\<lambda>rep. bytes_message (enc_trustee_state (unat n) rep)) reps) ts0 = Some (True, ts1) \<and>
    tally_ballots E G config (Some (header_text k m @ lines_text bs (length bs))) ts1 = Some (True, ts) \<and>
    length ts = MAX_TRUSTEES \<and> (\<forall>i < unat n. i \<notin> unat ` set S \<longrightarrow> ts ! i = None) \<and>
    (\<forall>i \<in> set S. \<exists>d. ts ! unat i = Some d \<and> dt_index d = i \<and>
       takes_part E G sdev fdev privs n t S (take (unat m) (tallies_over E G bs)) d)"
proof -
  let ?state = "\<lambda>rep. bytes_message (enc_trustee_state (unat n) rep)" and ?h = "create_base_hash_code config"
  have n: "unat n \<le> MAX_TRUSTEES" "0 < unat t" using h(1) by (auto simp: valid_params_def word_le_nat_alt)
  have "\<forall>rep \<in> set reps. \<exists>d. Decryption_Trustee_new E G n t m (?state rep) ?h = Some (DECRYPTION_TRUSTEE_SUCCESS, Some d) \<and>
      fresh_trustee E G n m ?h rep d"
    using trustee_from_state [OF E h(1)] reps(3) unfolding holds_state_def fresh_trustee_def by blast
  then obtain D where D: "\<And>rep. rep \<in> set reps \<Longrightarrow>
      Decryption_Trustee_new E G n t m (?state rep) ?h = Some (DECRYPTION_TRUSTEE_SUCCESS, Some (D rep))"
    "\<And>rep. rep \<in> set reps \<Longrightarrow> fresh_trustee E G n m ?h rep (D rep)"
    by metis
  let ?ds = "map D reps"
  let ?ts1 = "seated ?ds ts0"
  have index: "map dt_index ?ds = map ts_index reps" using D(2) by (simp add: fresh_trustee_def)
  have "distinct (map ts_index reps)"
    using reps(1,2) h(2) by (metis card_distinct distinct_card length_map)
  then have dist: "distinct (map dt_index ?ds)" by (simp only: index)
  have iset: "dt_index ` set ?ds = set S" using arg_cong [OF index, of set] reps(2) by (simp add: image_image)
  have ts0': "unat n \<le> length ts0" using n(1) ts0(1) by simp
  note cells = seated_cells [OF dist iset h(3) ts0' ts0(2)]
  have init: "tally_initialize_trustees E G config t (map ?state reps) ts0 = Some (True, ?ts1)"
    by (rule initialize_trustees_eq) (use config h(4) reps(1) D(1) cells(1) in auto)
  let ?ts = "map (\<lambda>i. map_option (counted E G bs) (?ts1 ! i)) [0..<unat n] @ drop (unat n) ?ts1"
  have nth: "?ts ! i = map_option (counted E G bs) (?ts1 ! i)" if "i < unat n" for i using that by (simp add: nth_append)
  have "tally_ballots E G config (Some (header_text k m @ lines_text bs (length bs))) ?ts1 = Some (True, ?ts)"
    unfolding config(1) [symmetric]
  proof (rule tally_ballots_eq, goal_cases)
    case 2
    have "\<exists>rest. Decryption_Trustee_tally_voting_record E G (header_text k m @ lines_text bs (length bs)) d =
        Some (DECRYPTION_TRUSTEE_SUCCESS, rest, counted E G bs d)" if "i < unat n" "?ts1 ! i = Some d" for i d
    proof -
      have "d \<in> set ?ds" by (rule cells(4) [OF that])
      then obtain rep where "rep \<in> set reps" "d = D rep" by auto
      then show ?thesis using fresh_tally [OF E D(2) bs] by blast
    qed
    then show ?case using config(1) by blast
  qed (use config(1) n(1) ts0(1) in simp)
  moreover have "\<exists>d. ?ts1 ! unat i = Some d \<and> dt_index (counted E G bs d) = i \<and>
       takes_part E G sdev fdev privs n t S (take (unat m) (tallies_over E G bs)) (counted E G bs d)" if i: "i \<in> set S" for i
  proof -
    have "i \<in> ts_index ` set reps" using i reps(2) by simp
    then obtain rep where rep: "rep \<in> set reps" "ts_index rep = i" by blast
    then have "dt_index (D rep) = i" using D(2) by (simp add: fresh_trustee_def)
    then show ?thesis
      using cells(2) [of "D rep"] rep fresh_takes_part [OF D(2) _ _ bs(1) n(1) dev] reps(3) i by (auto simp: counted_def)
  qed
  moreover have "length ?ts = MAX_TRUSTEES" using n(1) ts0(1) by simp
  ultimately show ?thesis
    using init cells(3) h(3) nth
    by - (rule exI [of _ ?ts1], rule exI [of _ ?ts], simp add: word_less_nat_alt, blast)
qed

end
