(* ===== verification/WideGroup.thy ===== *)
theory WideGroup
  imports Lagrange CryptoProofs
begin

text \<open>
  A group for the instances that need numbers of full width for the hash of the base as well: its order
  takes the four words of a hash, and its elements take the 64 words of the messages. Modulo
  \<open>unit_m * unit_q\<close>, of which \<open>unit_m\<close> is a multiple of \<open>unit_q\<close>, the numbers \<open>1 + unit_m * a\<close> multiply as
  the \<open>a\<close> add modulo \<open>unit_q\<close>.
\<close>

definition unit_q :: int where
  "unit_q = 5 ^ 110"

definition unit_m :: int where
  "unit_m = unit_q * 2 ^ 3580"

definition sum_elt :: "int \<Rightarrow> int" where
  "sum_elt a = 1 + unit_m * a"

definition sum_group :: params where
  "sum_group = \<lparr>par_p = unit_m * unit_q, par_q = unit_q, generator = sum_elt (2 ^ 250)\<rparr>"

lemma sum_sel [simp]:
  "par_p sum_group = unit_m * unit_q" "par_q sum_group = unit_q" "generator sum_group = sum_elt (2 ^ 250)"
  by (simp_all add: sum_group_def)

lemma unit_q: "1 < unit_q" "2 ^ 255 < unit_q" "unit_q < 2 ^ 256"
  by (simp_all add: unit_q_def)

lemma unit_m: "1 < unit_m" "2 ^ 3835 \<le> unit_m" "unit_m < 2 ^ 3836" "unit_m = unit_q * 2 ^ 3580"
proof -
  have "(2 :: int) ^ 255 * 2 ^ 3580 < unit_q * 2 ^ 3580" "unit_q * 2 ^ 3580 < 2 ^ 256 * 2 ^ 3580"
    using unit_q by (intro mult_strict_right_mono; simp)+
  moreover have "(2 :: int) ^ 255 * 2 ^ 3580 = 2 ^ (255 + 3580)" "(2 :: int) ^ 256 * 2 ^ 3580 = 2 ^ (256 + 3580)"
    by (simp_all only: power_add)
  ultimately show b: "2 ^ 3835 \<le> unit_m" "unit_m < 2 ^ 3836" unfolding unit_m_def by simp_all
  have "(1 :: int) < 2 ^ 3835" by (rule one_less_power) simp_all
  with b(1) show "1 < unit_m" by linarith
qed (rule unit_m_def)

lemma sum_elt_mod: "(1 + unit_m * c) mod (unit_m * unit_q) = sum_elt (c mod unit_q)"
proof -
  have "1 + unit_m * c = sum_elt (c mod unit_q) + (unit_m * unit_q) * (c div unit_q)"
    unfolding sum_elt_def by (simp only: minus_mult_div_eq_mod [symmetric]) (simp add: algebra_simps)
  then have "(1 + unit_m * c) mod (unit_m * unit_q) = sum_elt (c mod unit_q) mod (unit_m * unit_q)"
    by (simp only: mod_mult_self2)
  also have "\<dots> = sum_elt (c mod unit_q)"
  proof (rule mod_pos_pos_trivial)
    have "0 \<le> c mod unit_q" "c mod unit_q \<le> unit_q - 1" using unit_q(1) by (simp_all add: zle_diff1_eq)
    then have "0 \<le> unit_m * (c mod unit_q)" "unit_m * (c mod unit_q) \<le> unit_m * (unit_q - 1)"
      using unit_m(1) by (intro mult_nonneg_nonneg mult_left_mono; simp)+
    then show "0 \<le> sum_elt (c mod unit_q)" "sum_elt (c mod unit_q) < unit_m * unit_q"
      using unit_m(1) by (simp_all add: sum_elt_def right_diff_distrib)
  qed
  finally show ?thesis .
qed

lemma sum_elt_mult: "sum_elt a * sum_elt b mod (unit_m * unit_q) = sum_elt ((a + b) mod unit_q)"
proof -
  obtain c where c: "unit_m = unit_q * c" using unit_m(4) by blast
  have "sum_elt a * sum_elt b = 1 + unit_m * (a + b) + unit_m * unit_m * (a * b)"
    by (simp add: sum_elt_def algebra_simps)
  also have "unit_m * unit_m * (a * b) = unit_m * unit_q * (c * (a * b))"
    by (subst (2) c) (simp only: mult.assoc)
  finally have "sum_elt a * sum_elt b = 1 + unit_m * (a + b) + unit_m * unit_q * (c * (a * b))" .
  then show ?thesis by (simp only: mod_mult_self2 sum_elt_mod)
qed

lemma sum_elt_power: "sum_elt a ^ k mod (unit_m * unit_q) = sum_elt (a * int k mod unit_q)"
proof (induction k)
  case 0
  then show ?case using sum_elt_mod [of 0] by (simp add: sum_elt_def)
next
  case (Suc k)
  have "sum_elt a ^ Suc k mod (unit_m * unit_q) = sum_elt a * (sum_elt a ^ k mod (unit_m * unit_q)) mod (unit_m * unit_q)"
    by (simp add: mod_mult_right_eq)
  also have "\<dots> = sum_elt ((a + a * int k mod unit_q) mod unit_q)" unfolding Suc.IH by (rule sum_elt_mult)
  finally show ?case by (simp add: mod_simps algebra_simps)
qed

lemma sum_group_ok: "group_ok sum_group"
proof -
  have "sum_elt (2 ^ 250) ^ nat unit_q mod (unit_m * unit_q) = 1"
    using sum_elt_power [of "2 ^ 250" "nat unit_q"] unit_q(1) by (simp add: sum_elt_def)
  moreover have "sum_elt (2 ^ 250) < unit_m * unit_q"
  proof -
    have "unit_m * (2 ^ 250 + 1) \<le> unit_m * unit_q" using unit_q(2) unit_m(1) by (intro mult_left_mono) simp_all
    then show ?thesis using unit_m(1) unfolding sum_elt_def distrib_left by linarith
  qed
  ultimately show ?thesis using unit_q(1) unit_m(1) by (simp add: group_ok_def sum_elt_def)
qed

lemma sum_group_small: "small_invertible sum_group"
proof -
  have c: "coprime d unit_q" if "coprime d 5" for d :: int
    unfolding unit_q_def using that by (simp only: coprime_power_right_iff) simp
  have "coprime 2 unit_q" "coprime 3 unit_q" "coprime 4 unit_q"
    by (rule c, simp add: coprime_iff_gcd_eq_1 gcd_non_0_int)+
  then show ?thesis by (simp add: small_invertible_def MAX_TRUSTEES_def upt_rec)
qed

lemma sum_pow: "0 \<le> e \<Longrightarrow> pow_mod_p ref_env sum_group (sum_elt a) e = sum_elt (a * e mod unit_q)"
  using ref.pow_mod_p_eq [OF sum_group_ok] sum_elt_power by simp

lemma sum_mul: "mul_mod_p ref_env sum_group (sum_elt a) (sum_elt b) = sum_elt ((a + b) mod unit_q)"
  using ref.mul_mod_p_eq [OF sum_group_ok] sum_elt_mult by simp

lemma sum_elt_fits:
  assumes "2 ^ 250 \<le> a" "a < unit_q"
  shows "fits 64 (sum_elt a)"
proof -
  have "2 ^ 3835 * 2 ^ 250 \<le> unit_m * a" using assms(1) unit_m(1,2) by (intro mult_mono) simp_all
  moreover have "unit_m * (a + 1) \<le> 2 ^ 3836 * 2 ^ 256" using assms unit_m(3) unit_q(3) by (intro mult_mono) simp_all
  moreover have "(2 :: int) ^ 3835 * 2 ^ 250 = 2 ^ (3835 + 250)" "(2 :: int) ^ 3836 * 2 ^ 256 = 2 ^ (3836 + 256)"
    by (simp_all only: power_add)
  moreover have "(2 :: int) ^ (64 * (64 - 1)) \<le> 2 ^ (3835 + 250)" "(2 :: int) ^ (3836 + 256) \<le> 2 ^ (64 * 64)"
    by (rule power_increasing; simp)+
  ultimately have "2 ^ (64 * (64 - 1)) \<le> sum_elt a" "sum_elt a < 2 ^ (64 * 64)"
    using unit_m(1) unfolding sum_elt_def distrib_left by linarith+
  then show ?thesis unfolding fits_def by (intro conjI zero_less_numeral)
qed

lemma sum_elt_eq_iff [simp]: "sum_elt a = sum_elt b \<longleftrightarrow> a = b"
  using unit_m(1) by (simp add: sum_elt_def)

end
