(* ===== verification/ApiTallyClaims.thy ===== *)
theory ApiTallyClaims
  imports ApiTallyProofs WideGroup
begin

text \<open>The properties of the call that tallies and decrypts.\<close>

lemma raised_raise:
  assumes "raised_list E G xs e ts" "j < length xs"
  shows "ts ! j = raise E G e (xs ! j)"
  using assms by (simp add: raised_list_def raise_def)

definition tally_text :: "env \<Rightarrow> params \<Rightarrow> int \<Rightarrow> encryption_rep list \<Rightarrow> string" where
  "tally_text E G e xs = concat (map (\<lambda>j. tally_line j (raise E G e (xs ! j))) [0..<length xs])"

lemma fragments_announce:
  assumes "platform_mem E" "group_ok G" "0 \<le> e" "raised E G xs e c"
    and "Decryption_Coordinator_all_trustees_seen_or_compensated c = Some True"
    and "\<forall>j < length xs. \<exists>r. encrypts E G (pow_mod_p E G (generator G) e) r (int (vs ! j)) (xs ! j)"
    and "\<forall>j < length xs. found_at G (vs ! j) \<and> encryption_ok (raise E G e (xs ! j))"
    and "length xs \<le> length results" "length (tally_text E G e xs) \<le> out_room out"
  shows "Decryption_Coordinator_all_fragments_received E G c out results =
    Some (DECRYPTION_COORDINATOR_SUCCESS, wrote out (tally_text E G e xs),
      map (\<lambda>j. word_of_nat (vs ! j)) [0..<length xs] @ drop (length xs) results)"
proof -
  have r: "unat (dc_num_tallies c) = length xs" "raised_list E G xs e (dc_tallies c)"
    using assms(4) by (simp_all add: raised_def)
  have lines: "concat (map (\<lambda>j. tally_line j (dc_tallies c ! j)) [0..<length xs]) = tally_text E G e xs"
    unfolding tally_text_def using raised_raise [OF r(2)] by (intro arg_cong [where f = concat] map_cong) simp_all
  have "\<forall>j < length xs. found_at G (vs ! j) \<and> encryption_ok (dc_tallies c ! j)"
    using assms(7) raised_raise [OF r(2)] by simp
  from decrypt_loop [OF assms(1-3) r(2) assms(6) this order_refl assms(8), unfolded lines, OF assms(9)]
  show ?thesis using assms(5) r(1) by (simp add: Decryption_Coordinator_all_fragments_received_def)
qed

lemma export_announces:
  assumes E: "platform_mem E" and name: "generate_unique_filename (fs_time fs) path prefix ''electionguard_tally-'' = Some name"
    and dir: "Directory_exists path fs" and f: "fopen_write False name fs = Some (f, fs1)"
    and run: "Decryption_Coordinator_all_fragments_received E G c \<lparr>out_text = [], out_room = fs_room fs\<rparr> results =
      Some (DECRYPTION_COORDINATOR_SUCCESS, wrote \<lparr>out_text = [], out_room = fs_room fs\<rparr> lines, results')"
  shows "export_tally_votes E G path prefix c results fs =
    Some (True, name, results', fs\<lparr>fs_files := (fs_files fs)(name \<mapsto> lines)\<rparr>)"
proof -
  obtain b where b: "malloc E (FILENAME_MAX + 1) = Some b" using platform_mem.malloc_ok [OF E] by blast
  have "rw_before f = \<lparr>out_text = [], out_room = fs_room fs\<rparr>" "rw_after f = []"
    "fs1 = fs\<lparr>fs_files := (fs_files fs)(name \<mapsto> [])\<rparr>"
    using f by (auto simp: fopen_write_def Let_def split: if_splits)
  then show ?thesis
    using b name dir f run by (simp add: export_tally_votes_def fclose_write_def rw_text_def wrote_def)
qed

text \<open>C1: The whole decryption behind one call. The states of exactly \<open>threshold\<close> trustees and the voting
  record are handed to \<open>API_TallyVotes\<close>; the trustees tally the ballots that were cast, send their shares, are
  asked for fragments for all the missing trustees and send them. The call returns \<open>true\<close>, the result for
  each selection is the number of votes cast for it, the file with a fresh name has a line for each
  selection, and nothing else in the file system changes.\<close>

theorem tally_votes_correct:
  fixes G :: params and privs :: "private_key list" and n :: u32
  defines "e \<equiv> (\<Sum>k < unat n. coefficients (privs ! k) ! 0)"
  assumes "platform_mem E" "group_ok G" "small_invertible G"
    and "ballots_ok m bs" "length bs = unat k" "xs = take (unat m) (tallies_over E G bs)"
    and "\<forall>x \<in> set bs. \<forall>j < unat m. \<exists>r. encrypts E G (pow_mod_p E G (generator G) e) r (int (v x j)) (snd x ! j)"
    and "honest_run E G xs privs n t S" "sorted S"
    and "cfg_num_trustees config = n" "cfg_threshold config = t" "cfg_num_selections config = m"
    and "length reps = length S" "set (map ts_index reps) = set S" "\<forall>rep \<in> set reps. holds_state E G privs n t S rep"
    and "devices_ok E G sdev fdev privs n t S (Crypto_hash_reduce E G (create_base_hash_code config)) xs"
    and "length (ta_trustees s) = MAX_TRUSTEES" "\<forall>i < unat n. ta_trustees s ! i = None"
    and "fopen_read ballots_filename fs = Some (header_text k m @ lines_text bs (length bs))"
    and "\<forall>j < unat m. found_at G (votes_for v bs j) \<and> encryption_ok (raise E G e (xs ! j))"
    and "unat m \<le> length results" "length (tally_text E G e xs) \<le> fs_room fs"
    and "generate_unique_filename (fs_time fs) path prefix ''electionguard_tally-'' = Some name"
    and "Directory_exists path fs" "fopen_write False name fs \<noteq> None"
  shows "\<exists>s'. API_TallyVotes E G sdev fdev config (map (\<lambda>rep. bytes_message (enc_trustee_state (unat n) rep)) reps) t
      ballots_filename path prefix results fs s =
    Some (True, Some name, map (\<lambda>j. word_of_nat (votes_for v bs j)) [0..<unat m] @ drop (unat m) results,
      fs\<lparr>fs_files := (fs_files fs)(name \<mapsto> tally_text E G e xs)\<rparr>, s') \<and> ta_coordinator s' = None"
proof -
  note E = assms(2) and h = assms(9) [unfolded honest_run_def]
  have v: "valid_params n t" "distinct S" "\<forall>i \<in> set S. i < n" "length S = unat t" using h by simp_all
  have n: "unat n \<le> MAX_TRUSTEES" "unat t \<le> MAX_TRUSTEES" "n \<noteq> 0"
    using v(1) by (auto simp: valid_params_def word_le_nat_alt)
  have lx: "length xs = unat m" using length_tallies_over [OF assms(5)] assms(5,7) by (simp add: ballots_ok_def)
  obtain c0 where c0: "Decryption_Coordinator_new E n t = Some (DECRYPTION_COORDINATOR_SUCCESS, Some c0)"
    using decryption_new_total [OF E v(1)] by blast
  obtain ts1 ts where ts: "tally_initialize_trustees E G config t
        (map (\<lambda>rep. bytes_message (enc_trustee_state (unat n) rep)) reps) (ta_trustees s) = Some (True, ts1)"
      "tally_ballots E G config (Some (header_text k m @ lines_text bs (length bs))) ts1 = Some (True, ts)"
      "length ts = MAX_TRUSTEES" "\<forall>i < unat n. i \<notin> unat ` set S \<longrightarrow> ts ! i = None"
      "\<forall>i \<in> set S. \<exists>d. ts ! unat i = Some d \<and> dt_index d = i \<and> takes_part E G sdev fdev privs n t S xs d"
    using trustees_tally [OF E v assms(11-16,5,6,18,19)] assms(7,17) by blast
  obtain c1 c3 where c: "decrypt_tally_shares E G sdev config ts c0 = Some (True, c1)"
      "request_missing_trustee_tally_shares E config c1 = Some (True, Some (requests_of c1), prepared c1)"
      "decrypt_tally_decryption_fragments E G fdev config ts (requests_of c1) (prepared c1) = Some (True, c3)"
      "Decryption_Coordinator_all_trustees_seen_or_compensated c3 = Some True" "raised E G xs e c3"
    using tally_decryption [OF E assms(3,4,9,10,11) _ c0, of ts sdev fdev] ts(3-5) n(1) unfolding e_def by auto
  let ?vs = "map (votes_for v bs) [0..<unat m]"
  have "0 \<le> e" unfolding e_def using h by (auto intro!: sum_nonneg)
  then have "Decryption_Coordinator_all_fragments_received E G c3 \<lparr>out_text = [], out_room = fs_room fs\<rparr> results =
      Some (DECRYPTION_COORDINATOR_SUCCESS, wrote \<lparr>out_text = [], out_room = fs_room fs\<rparr> (tally_text E G e xs),
        map (\<lambda>j. word_of_nat (?vs ! j)) [0..<length xs] @ drop (length xs) results)"
    using assms(21-23) tallies_encrypt [OF E assms(3,5), where v = v] assms(8) lx
    by (intro fragments_announce [OF E assms(3) _ c(5,4)]) (auto simp: assms(7))
  moreover have "map (\<lambda>j. word_of_nat (?vs ! j) :: u32) [0..<length xs] = map (\<lambda>j. word_of_nat (votes_for v bs j)) [0..<unat m]"
    by (simp add: lx)
  ultimately have x: "export_tally_votes E G path prefix c3 results fs =
      Some (True, name, map (\<lambda>j. word_of_nat (votes_for v bs j)) [0..<unat m] @ drop (unat m) results,
        fs\<lparr>fs_files := (fs_files fs)(name \<mapsto> tally_text E G e xs)\<rparr>)"
    using export_announces [OF E assms(24,25)] assms(26) lx by fastforce
  show ?thesis
    using c0 ts(1,2) c(1-3) x assms(11,12,20) n(2,3)
    by (simp add: API_TallyVotes_def tally_initialize_coordinator_def tally_cleanup_def)
qed

section \<open>An instance\<close>

text \<open>One trustee with the secret \<open>sum_secret\<close>, one ballot, cast, with a vote for the only selection.\<close>

definition sum_secret :: int where
  "sum_secret = 3 + unit_q * 2 ^ 3790"

definition sum_vote :: encryption_rep where
  "sum_vote = \<lparr>nonce_encoding = sum_elt (2 ^ 250), message_encoding = sum_elt (2 ^ 252)\<rparr>"

definition sum_key :: private_key where
  "sum_key = \<lparr>priv_threshold = 1, coefficients = [sum_secret, 0, 0, 0, 0]\<rparr>"

definition sum_state :: trustee_state_rep where
  "sum_state =
     \<lparr>ts_index = 0, ts_private_key = sum_key, ts_my_key_shares = [2 ^ 767, 0, 0, 0, 0],
      ts_rsa_private_key = \<lparr>rsa_n = wide_p - 1, rsa_e = 3, rsa_d = wide_p - 1, rsa_p = 2 ^ 2047, rsa_q = 2 ^ 2047\<rparr>\<rparr>"

definition sum_config :: api_config where
  "sum_config = \<lparr>cfg_num_selections = 1, cfg_num_trustees = 1, cfg_threshold = 1, cfg_subgroup_order = 0,
     cfg_election_meta = [], cfg_joint_key = bytes_message []\<rparr>"

definition sum_files :: file_system where
  "sum_files = \<lparr>fs_files = [''ballots'' \<mapsto> header_text 1 1 @ lines_text [(True, [sum_vote])] 1], fs_dirs = [''out''],
     fs_denied = [], fs_room = 3000, fs_time = 7\<rparr>"

abbreviation sum_device :: "random_source option" where
  "sum_device \<equiv> Some (replicate 31 0 @ [1])"

lemma sum_secret: "fits 64 sum_secret" "0 \<le> sum_secret" "sum_secret mod unit_q = 3"
proof -
  have "(2 :: int) ^ 255 * 2 ^ 3790 < unit_q * 2 ^ 3790" "unit_q * 2 ^ 3790 < 2 ^ 256 * 2 ^ 3790"
    using unit_q by (intro mult_strict_right_mono; simp)+
  moreover have "(2 :: int) ^ 255 * 2 ^ 3790 = 2 ^ (255 + 3790)" "(2 :: int) ^ 256 * 2 ^ 3790 = 2 ^ (256 + 3790)"
    by (simp_all only: power_add)
  moreover have "(2 :: int) ^ (64 * (64 - 1)) \<le> 2 ^ (255 + 3790)" "(2 :: int) * 2 ^ (256 + 3790) \<le> 2 ^ (64 * 64)"
    unfolding power_Suc [symmetric] by (rule power_increasing; simp)+
  moreover have "(3 :: int) \<le> 2 ^ (256 + 3790)" by simp
  ultimately have "2 ^ (64 * (64 - 1)) \<le> sum_secret" "sum_secret < 2 ^ (64 * 64)"
    unfolding sum_secret_def by linarith+
  then show "fits 64 sum_secret" unfolding fits_def by (intro conjI zero_less_numeral)
  show "0 \<le> sum_secret" using unit_q(1) by (simp add: sum_secret_def)
  have "sum_secret mod unit_q = 3 mod unit_q" unfolding sum_secret_def by (rule mod_mult_self2)
  then show "sum_secret mod unit_q = 3" using unit_q(2) by simp
qed

lemma sum_small: "a < 2 ^ 255 \<Longrightarrow> 0 \<le> a \<Longrightarrow> a mod unit_q = a"
  using unit_q(2) by (intro mod_pos_pos_trivial) linarith+

lemma sum_pow_secret: "pow_mod_p ref_env sum_group (sum_elt a) sum_secret = sum_elt (3 * a mod unit_q)"
proof -
  have "a * sum_secret mod unit_q = a * 3 mod unit_q"
    using sum_secret(3) unit_q(2) by (metis mod_mult_right_eq)
  then show ?thesis using sum_pow [OF sum_secret(2), of a] by (simp add: mult.commute)
qed

lemma sum_fits: "k \<in> {2 ^ 250, 3 * 2 ^ 250, 2 ^ 252} \<Longrightarrow> fits 64 (sum_elt k)"
  using unit_q(2) by (intro sum_elt_fits) auto

lemma sum_vote_ok: "encryption_ok sum_vote" "encryption_ok (raise ref_env sum_group sum_secret sum_vote)"
  using sum_fits by (simp_all add: encryption_ok_def sum_vote_def raise_def sum_pow_secret sum_small)

lemma sum_vote_encrypts:
  "\<exists>r. encrypts ref_env sum_group (pow_mod_p ref_env sum_group (sum_elt (2 ^ 250)) sum_secret) r 1 sum_vote"
  by (rule exI [of _ 1]) (simp add: encrypts_def sum_vote_def sum_pow_secret sum_pow sum_mul sum_small)

lemma sum_tallies: "take 1 (tallies_over ref_env sum_group [(True, [sum_vote])]) = [sum_vote]"
proof -
  have "1 = sum_elt 0" by (simp add: sum_elt_def)
  then have "Crypto_encryption_homomorphic_add ref_env sum_group Crypto_encryption_homomorphic_zero sum_vote = sum_vote"
    using sum_mul [of 0] by (simp add: Crypto_encryption_homomorphic_add_def Crypto_encryption_homomorphic_zero_def
        sum_vote_def sum_small)
  then show ?thesis by (simp add: tallies_over_def add_ballot_def MAX_SELECTIONS_def)
qed

lemma sum_found: "found_at sum_group 1"
proof -
  have "unit_m * 5000000 \<le> unit_m * 2 ^ 250" using unit_m(1) by (intro mult_left_mono) simp_all
  then have "5000000 < sum_elt (2 ^ 250)" using unit_m(1) unfolding sum_elt_def by linarith
  moreover have "sum_elt (2 ^ 250) mod (unit_m * unit_q) = sum_elt (2 ^ 250)"
    using sum_elt_power [of "2 ^ 250" 1] by (simp add: sum_small)
  moreover have "1 mod (unit_m * unit_q) = 1" using sum_elt_power [of "2 ^ 250" 0] by (simp add: sum_elt_def)
  ultimately show ?thesis by (simp add: found_at_def max_decryption_def)
qed

lemma sum_state_ok: "holds_state ref_env sum_group [sum_key] 1 1 [0] sum_state"
proof -
  have "fits 12 (2 ^ 767)" "fits 32 (2 ^ 2047)" "fits 1 3"
    unfolding fits_def by (intro conjI power_increasing power_strict_increasing; simp)+
  then have "trustee_state_ok 1 sum_group sum_state"
    using sum_secret(1) wide_fits
    by (simp add: trustee_state_ok_def sum_state_def sum_key_def private_key_ok_def rsa_private_key_ok_def shares_ok_def
        array_ok_def MAX_TRUSTEES_def)
  then show ?thesis by (simp add: holds_state_def sum_state_def sum_key_def secret_of_def)
qed

lemma sum_run: "honest_run ref_env sum_group [sum_vote] [sum_key] 1 1 [0]"
proof -
  have "in_group sum_group (sum_elt (2 ^ 250))" using group_okD(7) [OF sum_group_ok] by simp
  moreover have "decryption_share_ok sum_group (honest_share ref_env sum_group [sum_vote] 0 sum_secret)"
    using sum_vote_ok(2) by (simp add: decryption_share_ok_def honest_share_def MAX_SELECTIONS_def)
  moreover have "decryption_fragments_ok sum_group (fragments_rep_of ref_env sum_group [sum_vote] [sum_key] 1 1 [0] 0)"
  proof -
    have "0 \<le> the (lagrange_of ref_env sum_group (unat 0) (absent 1 [0]) 1)"
      "the (lagrange_of ref_env sum_group (unat 0) (absent 1 [0]) 1) < 2 ^ 256"
      using lagrange_bounds [OF ref.platform_axioms sum_group_ok, of 1 "[0]" 0] unit_q(3) by (simp_all add: MAX_TRUSTEES_def)
    moreover have "absent 1 [0] = [False, False, False, False, False]" by code_simp
    ultimately show ?thesis
      by (simp add: decryption_fragments_ok_def fragments_rep_of_def honest_fragments_def MAX_TRUSTEES_def MAX_SELECTIONS_def)
  qed
  ultimately show ?thesis
    using sum_secret(2)
    by (simp add: honest_run_def valid_params_def MAX_TRUSTEES_def MAX_SELECTIONS_def sum_vote_def sum_key_def secret_of_def)
qed

lemma sum_base_hash: "fits 4 (Crypto_hash_reduce ref_env sum_group (create_base_hash_code config))"
proof -
  have "mpz_import_u64 ref_env (native_words (HASH_DIGEST_SIZE_BYTES div 8) (create_base_hash_code config)) = 65280 * 2 ^ 192"
    unfolding create_base_hash_code_def by (simp add: ref_env_def HASH_DIGEST_SIZE_BYTES_def native_words_def upt_rec) code_simp
  then show ?thesis
    using unit_q(2) by (simp add: Crypto_hash_reduce_def mod_q_def fits_def ref_env_def)
qed

lemma sum_provable: "fits 4 h \<Longrightarrow> provable ref_env sum_group sum_device h sum_secret sum_vote"
  using ref.sample_byte_q [of 1 sum_group 0 "[]"] unit_q(1)
  by (simp add: provable_def Crypto_generate_decryption_cp_proof_def ref.source_new sum_vote_def sum_pow_secret sum_pow
      sum_small ref.hash_init_base_fits ref.hash_update_p_fits sum_fits Let_def)

lemma sum_devices: "devices_ok ref_env sum_group (\<lambda>_ _. sum_device) (\<lambda>_ _ _. sum_device) [sum_key] 1 1 [0]
    (Crypto_hash_reduce ref_env sum_group (create_base_hash_code config)) [sum_vote]"
  using sum_provable [OF sum_base_hash] by (simp add: devices_ok_def secret_of_def sum_key_def)

lemma sum_ballots: "ballots_ok 1 [(True, [sum_vote])]"
  using sum_vote_ok(1) by (simp add: ballots_ok_def MAX_SELECTIONS_def)

lemma sum_names: "generate_unique_filename 7 ''out'' ''t'' ''electionguard_tally-'' = Some ''out/t7''"
  by code_simp

lemma sum_fields:
  "cfg_num_selections sum_config = 1" "cfg_num_trustees sum_config = 1" "cfg_threshold sum_config = 1"
  "ts_index sum_state = 0" "fs_room sum_files = 3000" "fs_time sum_files = 7"
  "fopen_read ''ballots'' sum_files = Some (header_text 1 1 @ lines_text [(True, [sum_vote])] 1)"
  "Directory_exists ''out'' sum_files" "fopen_write False ''out/t7'' sum_files \<noteq> None"
  "(\<Sum>k < unat (1 :: u32). coefficients ([sum_key] ! k) ! 0) = sum_secret"
  "length (ta_trustees initial_tally) = MAX_TRUSTEES" "\<forall>i < unat (1 :: u32). ta_trustees initial_tally ! i = None"
  by (simp_all add: sum_config_def sum_state_def sum_files_def fopen_read_def Directory_exists_def fopen_write_def
      plain_dir_def slash_def sum_key_def initial_tally_def MAX_TRUSTEES_def)

theorem tally_votes_correct_witness:
  "\<exists>fs s. API_TallyVotes ref_env sum_group (\<lambda>_ _. sum_device) (\<lambda>_ _ _. sum_device) sum_config
      [bytes_message (enc_trustee_state 1 sum_state)] 1 ''ballots'' ''out'' ''t'' [0, 9] sum_files initial_tally =
    Some (True, Some ''out/t7'', [1, 9], fs, s)"
proof -
  let ?bs = "[(True, [sum_vote])]" and ?v = "\<lambda>_ _. 1 :: nat"
  have "length (tally_text ref_env sum_group sum_secret [sum_vote]) \<le> 3000"
    by (simp add: tally_text_def tally_line_def fmt_dec.simps)
  then have "\<exists>s. API_TallyVotes ref_env sum_group (\<lambda>_ _. sum_device) (\<lambda>_ _ _. sum_device) sum_config
      (map (\<lambda>rep. bytes_message (enc_trustee_state (unat (1 :: u32)) rep)) [sum_state]) 1 ''ballots'' ''out'' ''t'' [0, 9]
      sum_files initial_tally =
    Some (True, Some ''out/t7'', map (\<lambda>j. word_of_nat (votes_for ?v ?bs j)) [0..<unat (1 :: u32)] @ drop (unat (1 :: u32)) [0, 9],
      sum_files\<lparr>fs_files := (fs_files sum_files)(''out/t7'' \<mapsto> tally_text ref_env sum_group sum_secret [sum_vote])\<rparr>, s) \<and>
    ta_coordinator s = None"
    using sum_vote_encrypts sum_run sum_state_ok sum_devices [of sum_config] sum_found sum_vote_ok(2) sum_names sum_tallies
    by (intro tally_votes_correct [where S = "[0]" and privs = "[sum_key]" and n = 1 and k = 1, unfolded sum_fields(10),
        OF ref.platform_mem_axioms sum_group_ok sum_group_small sum_ballots])
      (simp_all add: sum_fields votes_for_def)
  then show ?thesis by (auto simp: votes_for_def)
qed

end
