(* ===== verification/ApiVoting.thy ===== *)
theory ApiVoting
  imports ApiTally VotingRecord
begin

text \<open>
  \<open>api/encrypt_ballot.c\<close>, \<open>api/load_ballots.c\<close> and \<open>api/record_ballots.c\<close>. An encrypter lives for one call; the
  number of encrypted ballots is global. Loading and recording keep a handle of the one coordinator in a
  static variable each, which is \<open>True\<close> when it is not null. An error path that frees the caller's
  \<open>output_filename\<close>, which is no memory from \<open>malloc\<close>, is undefined, and so is reading a result that was
  not assigned.
\<close>

section \<open>Encrypting a ballot\<close>

text \<open>The caller's bytes, of which exactly 1 counts as selected; an array of no booleans has no size.\<close>

definition selection_booleans :: "u32 \<Rightarrow> u8 list \<Rightarrow> bool list option" where
  "selection_booleans num selections_byte_array =
     (if num = 0 then None
      else for_array (unat num) (\<lambda>i _. do { b \<leftarrow> arr_get selections_byte_array i; Some (b = 1) })
             (replicate (unat num) False))"

definition encrypt_initialize_encrypter ::
    "env \<Rightarrow> params \<Rightarrow> random_source option \<Rightarrow> api_config \<Rightarrow> (bool \<times> Voting_Encrypter option) option" where
  "encrypt_initialize_encrypter E G dev config =
     do {
       (status, encrypter) \<leftarrow> Voting_Encrypter_new E G dev [0] (cfg_joint_key config) (cfg_num_selections config)
         (create_base_hash_code config);
       Some (if status \<noteq> VOTING_ENCRYPTER_SUCCESS then (False, None) else (True, encrypter)) }"

definition export_ballot ::
    "env \<Rightarrow> encrypted_ballot_rep \<Rightarrow> string \<Rightarrow> string \<Rightarrow> string \<Rightarrow> message \<Rightarrow> file_system \<Rightarrow>
     (bool \<times> string \<times> file_system) option" where
  "export_ballot E fresh export_path filename identifier msg fs =
     do {
       _ \<leftarrow> malloc E (FILENAME_MAX + 1);
       name \<leftarrow> generate_filename export_path filename ''electionguard_encrypted_ballots-'';
       (ok, fs) \<leftarrow> (if Directory_exists export_path fs then Some (True, fs) else create_directory export_path fs);
       if \<not> ok then None
       else case fopen_write True name fs of
         None \<Rightarrow> Some (False, name, fs)
       | Some (f, fs) \<Rightarrow> do {
           (status, f) \<leftarrow> at_position (Voting_Encrypter_write_ballot E fresh identifier msg) f;
           if status \<noteq> VOTING_ENCRYPTER_SUCCESS then None
           else Some (True, name, fclose_write name f fs) } }"

text \<open>
  The result: whether all went well, the message, the name of the file and the tracker as far as they were
  assigned, the number of encrypted ballots and the files. When the encrypter reports an error, the
  tracker that is freed was never assigned.
\<close>

definition API_EncryptBallot ::
    "env \<Rightarrow> params \<Rightarrow> random_source option \<Rightarrow> encrypted_ballot_rep \<Rightarrow> u8 list \<Rightarrow> u32 \<Rightarrow> api_config \<Rightarrow> string \<Rightarrow>
     string \<Rightarrow> string \<Rightarrow> u64 \<Rightarrow> file_system \<Rightarrow>
     (bool \<times> message option \<times> string option \<times> string option \<times> u64 \<times> file_system) option" where
  "API_EncryptBallot E G dev fresh selections_byte_array expected_num_selected config external_identifier
      export_path filename_prefix encrypted_ballot_count fs =
     do {
       sels \<leftarrow> selection_booleans (cfg_num_selections config) selections_byte_array;
       (ok, encrypter) \<leftarrow> encrypt_initialize_encrypter E G dev config;
       if \<not> ok then Some (False, None, None, None, encrypted_ballot_count, fs)
       else do {
         V \<leftarrow> encrypter;
         (result, V, encrypted_ballot_count) \<leftarrow>
           Voting_Encrypter_encrypt_ballot E G external_identifier sels expected_num_selected V encrypted_ballot_count;
         if eb_status result \<noteq> VOTING_ENCRYPTER_SUCCESS then None
         else do {
           msg \<leftarrow> eb_message result;
           id \<leftarrow> eb_id result;
           (_, _) \<leftarrow> Serialize_read_ballot_identifier \<lparr>identifier_id = 0\<rparr> (message_reading id);
           tracker \<leftarrow> eb_tracker result;
           tracker_string \<leftarrow> display_ballot_tracker E tracker;
           (ok, name, fs) \<leftarrow> export_ballot E fresh export_path filename_prefix external_identifier msg fs;
           Some (ok, Some msg, Some name, Some tracker_string, encrypted_ballot_count, fs) } } }"

text \<open>The file gets a name with the time; that it cannot be renamed is no error.\<close>

definition rename :: "string \<Rightarrow> string \<Rightarrow> file_system \<Rightarrow> file_system" where
  "rename old new fs =
     (case fs_files fs old of
        None \<Rightarrow> fs
      | Some s \<Rightarrow> if new \<in> set (fs_denied fs) \<or> plain_dir new \<in> set (fs_dirs fs) then fs
                  else fs\<lparr>fs_files := ((fs_files fs)(old := None))(new \<mapsto> s)\<rparr>)"

definition API_EncryptBallot_soft_delete_file :: "env \<Rightarrow> string \<Rightarrow> string \<Rightarrow> file_system \<Rightarrow> bool \<times> file_system" where
  "API_EncryptBallot_soft_delete_file E export_path filename fs =
     (if malloc E (FILENAME_MAX + 1) = None then (False, fs)
      else case generate_filename export_path filename ''electionguard_encrypted_ballots-'' of
        None \<Rightarrow> (False, fs)
      | Some existing_filename \<Rightarrow>
          case generate_unique_filename (fs_time fs) export_path filename ''electionguard_encrypted_ballots-'' of
            None \<Rightarrow> (False, fs)
          | Some soft_delete_filename \<Rightarrow> (True, rename existing_filename soft_delete_filename fs))"

section \<open>Loading ballots\<close>

datatype API_LoadBallots_status =
    API_LOADBALLOTS_SUCCESS
  | API_LOADBALLOTS_INITIALIZATION_ERROR
  | API_LOADBALLOTS_INSUFFICIENT_MEMORY
  | API_LOADBALLOTS_INVALID_BALLOT_INDEX
  | API_LOADBALLOTS_END_OF_FILE
  | API_LOADBALLOTS_TIMED_OUT
  | API_LOADBALLOTS_IO_ERROR
  | API_LOADBALLOTS_SERIALIZE_ERROR
  | API_LOADBALLOTS_DESERIALIZE_ERROR
  | API_LOADBALLOTS_INVALID_DATA_ERROR
  | API_LOADBALLOTS_UNDEFINED_ERROR

record voting_api =
  va_voting :: voting_state
  va_load_coordinator :: bool
  va_record_coordinator :: bool

definition load_initialize_coordinator ::
    "env \<Rightarrow> u32 \<Rightarrow> voting_api \<Rightarrow> API_LoadBallots_status \<times> voting_api" where
  "load_initialize_coordinator E num s =
     (case Voting_Coordinator_new E num (va_voting s) of
        (status, v) \<Rightarrow>
          if status \<noteq> VOTING_COORDINATOR_SUCCESS
          then (API_LOADBALLOTS_INITIALIZATION_ERROR, s\<lparr>va_voting := v\<rparr>)
          else (API_LOADBALLOTS_SUCCESS, s\<lparr>va_voting := v, va_load_coordinator := True\<rparr>))"

text \<open>The two arrays of the caller are filled as far as the import came.\<close>

definition load_ballots ::
    "env \<Rightarrow> nat \<Rightarrow> nat \<Rightarrow> u32 \<Rightarrow> string option \<Rightarrow> string option list \<Rightarrow> message option list \<Rightarrow>
     (API_LoadBallots_status \<times> string option list \<times> message option list) option" where
  "load_ballots E start_index count num input ids ms =
     (if input = None then Some (API_LOADBALLOTS_IO_ERROR, ids, ms)
      else do {
        (load_result, st) \<leftarrow> Voting_Coordinator_import_encrypted_ballots E start_index count num input ids ms;
        im \<leftarrow> st;
        Some (case load_result of
                VOTING_COORDINATOR_INSUFFICIENT_MEMORY \<Rightarrow> API_LOADBALLOTS_INSUFFICIENT_MEMORY
              | VOTING_COORDINATOR_INVALID_DATA \<Rightarrow> API_LOADBALLOTS_INVALID_DATA_ERROR
              | VOTING_COORDINATOR_END_OF_FILE \<Rightarrow> API_LOADBALLOTS_SUCCESS
              | VOTING_COORDINATOR_SUCCESS \<Rightarrow> API_LOADBALLOTS_SUCCESS
              | _ \<Rightarrow> API_LOADBALLOTS_UNDEFINED_ERROR,
              im_external_identifiers im, im_messages im) })"

definition API_LoadBallots ::
    "env \<Rightarrow> nat \<Rightarrow> nat \<Rightarrow> u32 \<Rightarrow> string \<Rightarrow> string option list \<Rightarrow> message option list \<Rightarrow> file_system \<Rightarrow> voting_api \<Rightarrow>
     (API_LoadBallots_status \<times> string option list \<times> message option list \<times> voting_api) option" where
  "API_LoadBallots E start_index count num import_filepath ids ms fs s =
     do {
       let (status, s) = (if \<not> va_load_coordinator s then load_initialize_coordinator E num s
                          else (API_LOADBALLOTS_SUCCESS, s));
       if status \<noteq> API_LOADBALLOTS_SUCCESS then Some (status, ids, ms, s)
       else do {
         (status, ids, ms) \<leftarrow> load_ballots E start_index count num (fopen_read import_filepath fs) ids ms;
         Some (status, ids, ms, s) } }"

definition API_LoadBallots_free :: "voting_api \<Rightarrow> (API_LoadBallots_status \<times> voting_api) option" where
  "API_LoadBallots_free s =
     (if \<not> va_load_coordinator s then Some (API_LOADBALLOTS_SUCCESS, s)
      else do {
        v \<leftarrow> Voting_Coordinator_free (va_voting s);
        Some (API_LOADBALLOTS_SUCCESS, s\<lparr>va_voting := v, va_load_coordinator := False\<rparr>) })"

section \<open>Recording ballots\<close>

definition record_initialize_coordinator :: "env \<Rightarrow> u32 \<Rightarrow> voting_api \<Rightarrow> bool \<times> voting_api" where
  "record_initialize_coordinator E num s =
     (case Voting_Coordinator_new E num (va_voting s) of
        (status, v) \<Rightarrow>
          if status \<noteq> VOTING_COORDINATOR_SUCCESS then (False, s\<lparr>va_voting := v\<rparr>)
          else (True, s\<lparr>va_voting := v, va_record_coordinator := True\<rparr>))"

definition record_register_step ::
    "env \<Rightarrow> encrypted_ballot_rep \<Rightarrow> string list \<Rightarrow> message list \<Rightarrow> nat \<Rightarrow> bool \<times> voting_state \<Rightarrow>
     (bool \<times> voting_state) option" where
  "record_register_step E fresh ids ms i = (\<lambda>(ok, v).
     if \<not> ok then Some (ok, v)
     else do {
       identifier \<leftarrow> arr_get ids i;
       msg \<leftarrow> arr_get ms i;
       (status, _, v) \<leftarrow> Voting_Coordinator_register_ballot E fresh identifier msg v;
       Some (status = VOTING_COORDINATOR_SUCCESS, v) })"

text \<open>The tracker is copied to the caller whatever the answer was.\<close>

definition record_decide_step ::
    "(string \<Rightarrow> voting_state \<Rightarrow> (Voting_Coordinator_status \<times> string option \<times> voting_state) option) \<Rightarrow>
     string list \<Rightarrow> nat \<Rightarrow> bool \<times> string option list \<times> voting_state \<Rightarrow>
     (bool \<times> string option list \<times> voting_state) option" where
  "record_decide_step decide ids i = (\<lambda>(ok, trackers, v).
     if \<not> ok then Some (ok, trackers, v)
     else do {
       identifier \<leftarrow> arr_get ids i;
       (status, tracker, v) \<leftarrow> decide identifier v;
       track \<leftarrow> tracker;
       trackers \<leftarrow> arr_set trackers i (Some track);
       Some (status = VOTING_COORDINATOR_SUCCESS, trackers, v) })"

definition export_ballots ::
    "env \<Rightarrow> string \<Rightarrow> string \<Rightarrow> voting_state \<Rightarrow> file_system \<Rightarrow> (bool \<times> string \<times> voting_state \<times> file_system) option" where
  "export_ballots E export_path filename_prefix v fs =
     do {
       _ \<leftarrow> malloc E (FILENAME_MAX + 1);
       name \<leftarrow> generate_filename export_path filename_prefix ''electionguard_ballots-'';
       (ok, fs) \<leftarrow> (if Directory_exists export_path fs then Some (True, fs) else create_directory export_path fs);
       if \<not> ok then None
       else case fopen_write False name fs of
         None \<Rightarrow> Some (False, name, v, fs)
       | Some (f, fs) \<Rightarrow> do {
           (status, f, v) \<leftarrow> Voting_Coordinator_export_buffered_ballots E v f;
           if status \<noteq> VOTING_COORDINATOR_SUCCESS then None
           else Some (True, name, v, fclose_write name f fs) } }"

text \<open>The buffer of the coordinator is cleared at the end of every call, through a null pointer too.\<close>

definition API_RecordBallots ::
    "env \<Rightarrow> encrypted_ballot_rep \<Rightarrow> u32 \<Rightarrow> u32 \<Rightarrow> u32 \<Rightarrow> u32 \<Rightarrow> string list \<Rightarrow> string list \<Rightarrow> string list \<Rightarrow> message list \<Rightarrow>
     string \<Rightarrow> string \<Rightarrow> string option list \<Rightarrow> string option list \<Rightarrow> file_system \<Rightarrow> voting_api \<Rightarrow>
     (bool \<times> string option \<times> string option list \<times> string option list \<times> file_system \<times> voting_api) option" where
  "API_RecordBallots E fresh num num_cast_ballots num_spoil_ballots total_num_ballots cast_ids spoil_ids
      external_identifiers encrypted_ballots export_path filename_prefix casted_trackers spoiled_trackers fs s =
     do {
       let (ok, s) = (if \<not> va_record_coordinator s then record_initialize_coordinator E num s else (True, s));
       (ok, v) \<leftarrow> loop (unat total_num_ballots) (record_register_step E fresh external_identifiers encrypted_ballots)
         (ok, va_voting s);
       (ok, casted_trackers, v) \<leftarrow> loop (unat num_cast_ballots)
         (record_decide_step (Voting_Coordinator_cast_ballot E) cast_ids) (ok, casted_trackers, v);
       (ok, spoiled_trackers, v) \<leftarrow> loop (unat num_spoil_ballots)
         (record_decide_step (Voting_Coordinator_spoil_ballot E) spoil_ids) (ok, spoiled_trackers, v);
       (ok, name, v, fs) \<leftarrow>
         (if ok then do {
            (ok, name, v, fs) \<leftarrow> export_ballots E export_path filename_prefix v fs;
            Some (ok, Some name, v, fs) }
          else Some (ok, None, v, fs));
       if \<not> va_record_coordinator s then None
       else do {
         c \<leftarrow> vs_coordinator v;
         (_, c) \<leftarrow> Voting_Coordinator_clear_buffer c;
         Some (ok, name, casted_trackers, spoiled_trackers, fs,
               s\<lparr>va_voting := v\<lparr>vs_coordinator := Some c\<rparr>\<rparr>) } }"

text \<open>The strings are freed, which has no effect in the model, but the arrays are read.\<close>

definition API_RecordBallots_free ::
    "u32 \<Rightarrow> u32 \<Rightarrow> string option list \<Rightarrow> string option list \<Rightarrow> voting_api \<Rightarrow> voting_api option" where
  "API_RecordBallots_free num_cast_ballots num_spoil_ballots casted_trackers spoiled_trackers s =
     do {
       _ \<leftarrow> loop (unat num_cast_ballots) (\<lambda>i _. do { _ \<leftarrow> arr_get casted_trackers i; Some () }) ();
       _ \<leftarrow> loop (unat num_spoil_ballots) (\<lambda>i _. do { _ \<leftarrow> arr_get spoiled_trackers i; Some () }) ();
       if \<not> va_record_coordinator s then Some s
       else do {
         v \<leftarrow> Voting_Coordinator_free (va_voting s);
         Some (s\<lparr>va_voting := v, va_record_coordinator := False\<rparr>) } }"

definition get_serialized_ballot_identifier :: "env \<Rightarrow> u64 \<Rightarrow> (bool \<times> message option) option" where
  "get_serialized_ballot_identifier E n =
     do {
       out \<leftarrow> send E Serialize_reserve_ballot_identifier
         (Serialize_write_ballot_identifier \<lparr>identifier_id = n\<rparr>);
       Some (out \<noteq> None, out) }"

end
