(* ===== verification/ApiCreate.thy ===== *)
theory ApiCreate
  imports ApiTally KeyCeremonyCoordinator KeyCeremonyTrustee
begin

text \<open>
  \<open>api/create_election.c\<close>: the whole key ceremony behind one call. The pointers to the coordinator and to the
  trustees are static, and not reset when what they point to is freed: a pointer is null, live or dangling,
  and freeing or using it when it is dangling is undefined. The devices are given for each trustee, and
  \<open>fresh\<close> is what the memory for its structure holds.
\<close>

section \<open>Pointers\<close>

datatype 'a pointer = Null | Live 'a | Dangling

fun pointee :: "'a pointer \<Rightarrow> 'a option" where
  "pointee (Live x) = Some x"
| "pointee _ = None"

text \<open>What is freed only when the pointer is not null, without resetting it.\<close>

fun free_pointer :: "'a pointer \<Rightarrow> 'a pointer option" where
  "free_pointer Null = Some Null"
| "free_pointer (Live x) = Some Dangling"
| "free_pointer Dangling = None"

record create_statics =
  cr_coordinator :: "KeyCeremony_Coordinator pointer"
  cr_trustees :: "KeyCeremony_Trustee pointer list"

definition initial_create :: create_statics where
  "initial_create = \<lparr>cr_coordinator = Null, cr_trustees = replicate MAX_TRUSTEES Null\<rparr>"

definition null_message :: message where
  "null_message = \<lparr>msg_len = 0, msg_bytes = None\<rparr>"

section \<open>The steps\<close>

definition create_initialize_coordinator :: "env \<Rightarrow> api_config \<Rightarrow> create_statics \<Rightarrow> (bool \<times> create_statics) option" where
  "create_initialize_coordinator E config s =
     do {
       (status, c) \<leftarrow> KeyCeremony_Coordinator_new E (cfg_num_trustees config) (cfg_threshold config);
       if status \<noteq> KEYCEREMONY_COORDINATOR_SUCCESS then Some (False, s)
       else do { c \<leftarrow> c; Some (True, s\<lparr>cr_coordinator := Live c\<rparr>) } }"

definition create_initialize_trustees ::
    "env \<Rightarrow> (nat \<Rightarrow> KeyCeremony_Trustee) \<Rightarrow> api_config \<Rightarrow> create_statics \<Rightarrow> (bool \<times> create_statics) option" where
  "create_initialize_trustees E fresh config s =
     loop (unat (cfg_num_trustees config)) (\<lambda>i (ok, s).
       if \<not> ok then Some (ok, s)
       else do {
         (status, t) \<leftarrow> KeyCeremony_Trustee_new E (fresh i) (cfg_num_trustees config) (cfg_threshold config) (word_of_nat i);
         if status \<noteq> KEYCEREMONY_TRUSTEE_SUCCESS then Some (False, s)
         else do {
           t \<leftarrow> t;
           ts \<leftarrow> arr_set (cr_trustees s) i (Live t);
           Some (ok, s\<lparr>cr_trustees := ts\<rparr>) } }) (True, s)"

text \<open>
  A step of the ceremony with every trustee: the trustee acts, and the coordinator receives what it sends.
  The result of the trustee is its status, its message and its new state.
\<close>

definition ceremony_step ::
    "(nat \<Rightarrow> KeyCeremony_Trustee \<Rightarrow> (KeyCeremony_Trustee_status \<times> message option \<times> KeyCeremony_Trustee) option) \<Rightarrow>
     (message \<Rightarrow> KeyCeremony_Coordinator \<Rightarrow> (KeyCeremony_Coordinator_status \<times> KeyCeremony_Coordinator) option) \<Rightarrow>
     nat \<Rightarrow> bool \<times> create_statics \<Rightarrow> (bool \<times> create_statics) option" where
  "ceremony_step act receive i = (\<lambda>(ok, s).
     if \<not> ok then Some (ok, s)
     else do {
       p \<leftarrow> arr_get (cr_trustees s) i;
       t \<leftarrow> pointee p;
       (status, out, t) \<leftarrow> act i t;
       let s = s\<lparr>cr_trustees := (cr_trustees s)[i := Live t]\<rparr>;
       if status \<noteq> KEYCEREMONY_TRUSTEE_SUCCESS then Some (False, s)
       else do {
         m \<leftarrow> out;
         c \<leftarrow> pointee (cr_coordinator s);
         (status, c) \<leftarrow> receive m c;
         Some (status = KEYCEREMONY_COORDINATOR_SUCCESS, s\<lparr>cr_coordinator := Live c\<rparr>) } })"

definition create_generate_keys ::
    "env \<Rightarrow> params \<Rightarrow> (nat \<Rightarrow> random_source option) \<Rightarrow> (nat \<Rightarrow> random_source option) \<Rightarrow> api_config \<Rightarrow> create_statics \<Rightarrow>
     (bool \<times> create_statics) option" where
  "create_generate_keys E G key_dev rsa_dev config s =
     loop (unat (cfg_num_trustees config))
       (ceremony_step (\<lambda>i. KeyCeremony_Trustee_generate_key E G (key_dev i) (rsa_dev i) (create_base_hash_code config))
          (KeyCeremony_Coordinator_receive_key_generated E G)) (True, s)"

text \<open>The coordinator's message to all, with null bytes unless it answers with success.\<close>

definition ceremony_message ::
    "(KeyCeremony_Coordinator \<Rightarrow> (KeyCeremony_Coordinator_status \<times> message option \<times> KeyCeremony_Coordinator) option) \<Rightarrow>
     create_statics \<Rightarrow> (message \<times> create_statics) option" where
  "ceremony_message announce s =
     do {
       c \<leftarrow> pointee (cr_coordinator s);
       (status, out, c) \<leftarrow> announce c;
       m \<leftarrow> (if status = KEYCEREMONY_COORDINATOR_SUCCESS then out else Some null_message);
       Some (m, s\<lparr>cr_coordinator := Live c\<rparr>) }"

definition create_receive_keys :: "env \<Rightarrow> create_statics \<Rightarrow> (message \<times> create_statics) option" where
  "create_receive_keys E = ceremony_message (KeyCeremony_Coordinator_all_keys_received E)"

definition create_generate_shares ::
    "env \<Rightarrow> params \<Rightarrow> api_config \<Rightarrow> message \<Rightarrow> create_statics \<Rightarrow> (bool \<times> create_statics) option" where
  "create_generate_shares E G config all_keys_received s =
     loop (unat (cfg_num_trustees config))
       (ceremony_step (\<lambda>_. KeyCeremony_Trustee_generate_shares E G all_keys_received)
          (KeyCeremony_Coordinator_receive_shares_generated E)) (True, s)"

definition create_receive_shares :: "env \<Rightarrow> create_statics \<Rightarrow> (message \<times> create_statics) option" where
  "create_receive_shares E = ceremony_message (KeyCeremony_Coordinator_all_shares_received E)"

text \<open>
  The verdict is a local that only a trustee that accepts its shares assigns, and that is freed in every case.
\<close>

definition create_verify_shares ::
    "env \<Rightarrow> params \<Rightarrow> api_config \<Rightarrow> message \<Rightarrow> create_statics \<Rightarrow> (bool \<times> create_statics) option" where
  "create_verify_shares E G config all_shares_received s =
     loop (unat (cfg_num_trustees config))
       (ceremony_step
          (\<lambda>_ t. do {
             (status, out, t) \<leftarrow> KeyCeremony_Trustee_verify_shares E G all_shares_received t;
             if status \<noteq> KEYCEREMONY_TRUSTEE_SUCCESS then None else Some (status, out, t) })
          KeyCeremony_Coordinator_receive_shares_verified) (True, s)"

definition create_publish_joint_key :: "env \<Rightarrow> params \<Rightarrow> create_statics \<Rightarrow> message option" where
  "create_publish_joint_key E G s =
     do {
       c \<leftarrow> pointee (cr_coordinator s);
       (status, out) \<leftarrow> KeyCeremony_Coordinator_publish_joint_key E G c;
       if status = KEYCEREMONY_COORDINATOR_SUCCESS then out else Some null_message }"

definition create_export_trustee_states ::
    "env \<Rightarrow> api_config \<Rightarrow> create_statics \<Rightarrow> message list \<Rightarrow> (bool \<times> message list) option" where
  "create_export_trustee_states E config s trustee_states =
     loop (unat (cfg_num_trustees config)) (\<lambda>i (ok, states).
       if \<not> ok then Some (ok, states)
       else do {
         p \<leftarrow> arr_get (cr_trustees s) i;
         t \<leftarrow> pointee p;
         (status, out) \<leftarrow> KeyCeremony_Trustee_export_state E t;
         if status \<noteq> KEYCEREMONY_TRUSTEE_SUCCESS then Some (False, states)
         else do { m \<leftarrow> out; states \<leftarrow> arr_set states i m; Some (ok, states) } }) (True, trustee_states)"

section \<open>The call\<close>

definition create_cleanup :: "api_config \<Rightarrow> create_statics \<Rightarrow> create_statics option" where
  "create_cleanup config s =
     do {
       ts \<leftarrow> for_array (unat (cfg_num_trustees config)) (\<lambda>_. free_pointer) (cr_trustees s);
       c \<leftarrow> free_pointer (cr_coordinator s);
       Some \<lparr>cr_coordinator = c, cr_trustees = ts\<rparr> }"

definition API_CreateElection ::
    "env \<Rightarrow> params \<Rightarrow> (nat \<Rightarrow> KeyCeremony_Trustee) \<Rightarrow> (nat \<Rightarrow> random_source option) \<Rightarrow> (nat \<Rightarrow> random_source option) \<Rightarrow>
     api_config \<Rightarrow> message list \<Rightarrow> create_statics \<Rightarrow> (bool \<times> api_config \<times> message list \<times> create_statics) option" where
  "API_CreateElection E G fresh key_dev rsa_dev config trustee_states s =
     do {
       (ok, s) \<leftarrow> create_initialize_coordinator E config s;
       (ok, s) \<leftarrow> (if ok then create_initialize_trustees E fresh config s else Some (ok, s));
       (ok, s) \<leftarrow> (if ok then create_generate_keys E G key_dev rsa_dev config s else Some (ok, s));
       (all_keys_received, s) \<leftarrow> (if ok then create_receive_keys E s else Some (null_message, s));
       let ok = (ok \<and> msg_bytes all_keys_received \<noteq> None);
       (ok, s) \<leftarrow> (if ok then create_generate_shares E G config all_keys_received s else Some (ok, s));
       (all_shares_received, s) \<leftarrow> (if ok then create_receive_shares E s else Some (null_message, s));
       let ok = (ok \<and> msg_bytes all_shares_received \<noteq> None);
       (ok, s) \<leftarrow> (if ok then create_verify_shares E G config all_shares_received s else Some (ok, s));
       config \<leftarrow> (if ok then do { key \<leftarrow> create_publish_joint_key E G s; Some (config\<lparr>cfg_joint_key := key\<rparr>) }
                 else Some config);
       let ok = (ok \<and> msg_bytes (cfg_joint_key config) \<noteq> None);
       (ok, trustee_states) \<leftarrow> (if ok then create_export_trustee_states E config s trustee_states
                               else Some (ok, trustee_states));
       s \<leftarrow> create_cleanup config s;
       Some (ok, config, trustee_states, s) }"

text \<open>The configuration that a later call left behind says how many states there are.\<close>

definition API_CreateElection_free :: "api_config \<Rightarrow> message \<Rightarrow> message list option \<Rightarrow> (message \<times> message list option) option" where
  "API_CreateElection_free config key trustee_states =
     do {
       states \<leftarrow> (case trustee_states of
           None \<Rightarrow> Some None
         | Some ms \<Rightarrow> do {
             ms \<leftarrow> for_array (unat (cfg_num_trustees config)) (\<lambda>_ m. Some (m\<lparr>msg_bytes := None\<rparr>)) ms;
             Some (Some ms) });
       Some (key\<lparr>msg_bytes := None\<rparr>, states) }"

end
