(* ===== verification/KeyRun.thy ===== *)
theory KeyRun
  imports KeyExchange KeyCeremonyClaims DecryptionRun
begin

text \<open>
  What each party of the key ceremony answers, step by step, when the others do what the code has them do:
  the keys a trustee holds after each message, the shares it sends, what the coordinator stores and sends
  to all, and the state a trustee exports.
\<close>

section \<open>Keys that everyone holds\<close>

definition holds_keys :: "nat \<Rightarrow> (nat \<Rightarrow> public_key) \<Rightarrow> public_key list \<Rightarrow> bool" where
  "holds_keys n K ks \<longleftrightarrow> length ks = MAX_TRUSTEES \<and> list_all public_key_shape ks \<and> (\<forall>i<n. same_key (ks ! i) (K i))"

text \<open>The key of a key pair for a ceremony with threshold \<open>t\<close>, as it can be sent.\<close>

definition sendable :: "params \<Rightarrow> u32 \<Rightarrow> public_key \<Rightarrow> bool" where
  "sendable G t k \<longleftrightarrow> public_key_ok G k \<and> public_key_shape k \<and> pub_threshold k = t \<and> proof_threshold (pub_proof k) = t"

lemma sendable_same:
  assumes "same_key k k'" "public_key_shape k" "sendable G t k'"
  shows "sendable G t k"
  using assms ok_same_key [OF assms(1,2)] by (simp add: sendable_def same_key_def)

lemma sendable_fits: "sendable G t k \<Longrightarrow> fits_threshold t k"
  by (simp add: sendable_def fits_threshold_def)

lemma equal_same_key:
  assumes "same_key k k'" "public_key_shape k" "public_key_shape k'" "unat (pub_threshold k) \<le> MAX_TRUSTEES"
  shows "Crypto_public_key_equal k k' = Some True"
proof -
  have "loop n (\<lambda>i ok. if ok then do {
            a \<leftarrow> arr_get (coef_commitments k) i;
            b \<leftarrow> arr_get (coef_commitments k') i;
            Some (a = b) } else Some ok) True = Some True" if "n \<le> unat (pub_threshold k)" for n
    using that by (induction n) (use assms in \<open>simp_all add: same_key_def public_key_shape_def\<close>)
  then show ?thesis using assms(1) by (simp add: Crypto_public_key_equal_def same_key_def)
qed

lemma same_key_sym: "same_key a b \<Longrightarrow> same_key b a"
  by (simp add: same_key_def)

text \<open>Copying keys into an array.\<close>

lemma copy_keys:
  assumes "n \<le> MAX_TRUSTEES" "length src = MAX_TRUSTEES" "list_all public_key_shape src"
    "length dst = MAX_TRUSTEES" "list_all public_key_shape dst"
    and "\<forall>i<n. sendable G t (src ! i)" "unat t \<le> MAX_TRUSTEES"
  shows "\<exists>ks. for_array n (\<lambda>i k. do { s \<leftarrow> arr_get src i; Crypto_public_key_copy k s }) dst = Some ks \<and>
    holds_keys n ((!) src) ks"
proof -
  let ?f = "\<lambda>i k. do { s \<leftarrow> arr_get src i; Crypto_public_key_copy k s }"
  have c: "\<exists>y. ?f i k = Some y \<and> public_key_shape y \<and> same_key y (src ! i)" if "i < n" "public_key_shape k" for i k
    using that assms copy_same_key [OF that(2), of "src ! i" t] sendable_fits [of G t "src ! i"]
    by (auto simp: list_all_length)
  have d: "public_key_shape (dst ! i)" if "i < n" for i using that assms(1,4,5) by (simp add: list_all_length)
  have f: "for_array n ?f dst = Some (map (\<lambda>i. the (?f i (dst ! i))) [0..<n] @ drop n dst)"
    using assms(1,4) c [OF _ d] by (intro for_array_ok) fastforce+
  let ?ks = "map (\<lambda>i. the (?f i (dst ! i))) [0..<n] @ drop n dst"
  have "list_all public_key_shape ?ks"
    using f assms(5) by (rule for_array_list_all) (auto simp: bind_eq_Some_conv dest: public_key_copy_shape)
  moreover have "\<forall>i<n. same_key (?ks ! i) (src ! i)" using c [OF _ d] by (fastforce simp: nth_append)
  ultimately show ?thesis using f assms(1,4) by (auto simp: holds_keys_def)
qed

section \<open>The trustee\<close>

lemma generate_key_sends:
  assumes E: "platform_mem E" and G: "group_ok G" and d: "KeyExchange.trustee_ok d"
    and gen: "Crypto_gen_keypair E G dev (kt_threshold d) h = Some kp" "keypair_status kp = CRYPTO_SUCCESS"
    and rsa: "generate_keys E dev_rsa = Some (rsk, rpk)" "rsa_public_key_ok rpk"
    and ok: "public_key_ok G (keypair_public kp)"
  shows "\<exists>k d'. KeyCeremony_Trustee_generate_key E G dev dev_rsa h d = Some (KEYCEREMONY_TRUSTEE_SUCCESS,
      Some (bytes_message (enc_key_generated \<lparr>kg_trustee_index = kt_index d, kg_public_key = k, kg_rsa_public_key = rpk\<rparr>)), d') \<and>
    sendable G (kt_threshold d) k \<and> same_key k (keypair_public kp) \<and> Crypto_check_keypair_proof E G k [] = Some True \<and>
    KeyExchange.trustee_ok d' \<and> kt_index d' = kt_index d \<and> kt_num_trustees d' = kt_num_trustees d \<and>
    kt_threshold d' = kt_threshold d \<and> same_private (kt_private_key d') (keypair_private kp) \<and>
    same_key (kt_public_keys d' ! unat (kt_index d)) (keypair_public kp) \<and> kt_rsa_private_key d' = rsk"
proof -
  let ?i = "unat (kt_index d)"
  obtain k priv pub d' rep where k: "d' = d\<lparr>kt_rsa_private_key := rsk, kt_rsa_public_key := rpk,
        kt_private_key := priv, kt_public_keys := (kt_public_keys d)[?i := pub]\<rparr>"
      "rep = \<lparr>kg_trustee_index = kt_index d, kg_public_key = k, kg_rsa_public_key = rpk\<rparr>"
      "KeyCeremony_Trustee_generate_key E G dev dev_rsa h d =
      do { out \<leftarrow> send E (Serialize_reserve_key_generated rep) (Serialize_write_key_generated E rep);
           Some (if out = None then KEYCEREMONY_TRUSTEE_SERIALIZE_ERROR else KEYCEREMONY_TRUSTEE_SUCCESS, out, d') }"
      "KeyExchange.trustee_ok d'" "public_key_shape k" "public_key_shape pub" "same_key k pub" "same_key k (keypair_public kp)"
      "pub_threshold k = kt_threshold d" "proof_threshold (pub_proof k) = kt_threshold d"
      "same_private priv (keypair_private kp)" "\<forall>h. Crypto_check_keypair_proof E G k h = Some True"
    using generate_key_eq [OF platform_mem.axioms(1) [OF E] G d gen rsa(1)] by blast
  have ks: "public_key_ok G k" using ok_same_key [OF k(8,5) ok] .
  then have "send E (Serialize_reserve_key_generated rep) (Serialize_write_key_generated E rep) =
      Some (Some (bytes_message (enc_key_generated rep)))"
    using rsa(2) by (intro key_generated_codec.send_ok [OF E, of G]) (simp add: key_generated_ok_def k(2))
  moreover have "?i < length (kt_public_keys d)" using d trustee_okD(3) [OF d] by (simp add: KeyExchange.trustee_ok_def)
  ultimately show ?thesis
    using k(4,5,8-12) ks same_key_trans [OF same_key_sym [OF k(7)] k(8)]
    by (intro exI [of _ k] exI [of _ d'] conjI) (simp_all add: k(3) sendable_def, simp_all add: k(1,2))
qed

text \<open>
  A trustee that holds the key pair \<open>kp\<close> takes the keys of all trustees, in which it finds its own, and sends
  its shares, one for each trustee.
\<close>

definition shares_for :: "env \<Rightarrow> params \<Rightarrow> private_key \<Rightarrow> u32 \<Rightarrow> nat \<Rightarrow> (nat \<Rightarrow> rsa_public_key) \<Rightarrow> encrypted_key_share list" where
  "shares_for E G priv t n rpk =
     map (\<lambda>j. RSA_Encrypt E (polynomial_at (coefficients priv) (unat t) (int (j + 1)) mod par_q G) (rpk j)) [0..<n] @
     drop n blank_array"

lemma polynomial_same:
  "same_private k k' \<Longrightarrow> polynomial_at (coefficients k) (unat (priv_threshold k')) x =
     polynomial_at (coefficients k') (unat (priv_threshold k')) x"
  by (simp add: same_private_def polynomial_at_def)

lemma uint_index: "j < MAX_TRUSTEES \<Longrightarrow> uint (word_of_nat j + 1 :: u32) = int (j + 1)"
  by (simp add: MAX_TRUSTEES_def uint_word_ariths unsigned_of_nat take_bit_eq_mod)

lemma shares_made:
  assumes E: "platform_mem E" and G: "group_ok G" and n: "n \<le> MAX_TRUSTEES"
    and priv: "same_private priv kp" "priv_threshold kp = t" "private_key_shape priv" "unat t \<le> MAX_TRUSTEES"
    and rs: "length rs = MAX_TRUSTEES" "\<forall>j<n. rs ! j = rpk j"
  shows "for_array n (\<lambda>j _. do { r \<leftarrow> arr_get rs j; Crypto_create_encrypted_key_share E G r priv (word_of_nat j) }) blank_array
    = Some (shares_for E G kp t n rpk)"
  unfolding shares_for_def
proof (rule for_array_ok)
  have t: "priv_threshold priv = t" using priv by (simp add: same_private_def)
  show "(arr_get rs j \<bind> (\<lambda>r. Crypto_create_encrypted_key_share E G r priv (word_of_nat j))) =
      Some (RSA_Encrypt E (polynomial_at (coefficients kp) (unat t) (int (j + 1)) mod par_q G) (rpk j))" if "j < n" for j
  proof -
    have "uint (word_of_nat j + 1 :: u32) = int (j + 1)" using that n by (intro uint_index) simp
    then show ?thesis
      using that rs n priv t platform.computeTrusteePolynomial_eq [OF platform_mem.axioms(1) [OF E] G, of priv]
        polynomial_same [OF priv(1)]
      by (simp add: Crypto_create_encrypted_key_share_def private_key_shape_def)
  qed
qed (use n in simp)

text \<open>The message that tells everyone all the keys \<open>K\<close> and \<open>rpk\<close>.\<close>

definition keys_told :: "params \<Rightarrow> u32 \<Rightarrow> u32 \<Rightarrow> (nat \<Rightarrow> public_key) \<Rightarrow> (nat \<Rightarrow> rsa_public_key) \<Rightarrow> all_keys_received_rep \<Rightarrow> bool" where
  "keys_told G n t K rpk a \<longleftrightarrow> akr_num_trustees a = n \<and> holds_keys (unat n) K (public_keys a) \<and>
     length (rsa_public_keys a) = MAX_TRUSTEES \<and>
     (\<forall>i < unat n. sendable G t (K i) \<and> rsa_public_keys a ! i = rpk i \<and> rsa_public_key_ok (rpk i))"

lemma keys_told_sendable:
  assumes "keys_told G n t K rpk a" "i < unat n" "unat n \<le> MAX_TRUSTEES"
  shows "sendable G t (public_keys a ! i)" "same_key (public_keys a ! i) (K i)"
  using assms sendable_same [of "public_keys a ! i" "K i" G t]
  by (auto simp: keys_told_def holds_keys_def list_all_length)

lemma keys_told_ok: "keys_told G n t K rpk a \<Longrightarrow> unat n \<le> MAX_TRUSTEES \<Longrightarrow> all_keys_received_ok G a"
  using keys_told_sendable [of G n t K rpk a]
  by (auto simp: keys_told_def all_keys_received_ok_def holds_keys_def sendable_def)

text \<open>What a party reads from it.\<close>

lemma read_keys_told:
  assumes E: "platform_mem E" and n: "unat n \<le> MAX_TRUSTEES" "unat t \<le> MAX_TRUSTEES" and a: "keys_told G n t K rpk a"
  shows "\<exists>ks rs rep st. for_array (unat n) (\<lambda>_ k. Crypto_public_key_new k (unat t)) (replicate MAX_TRUSTEES blank_public_key) = Some ks \<and>
    for_array (unat n) (\<lambda>_ _. Some Crypto_rsa_public_key_new) (replicate MAX_TRUSTEES Crypto_rsa_public_key_new) = Some rs \<and>
    Serialize_read_all_keys_received E G \<lparr>akr_num_trustees = 0, public_keys = ks, rsa_public_keys = rs\<rparr>
      (message_reading (bytes_message (enc_all_keys_received a))) = Some (rep, st) \<and>
    ss_status st = SERIALIZE_STATE_READING \<and> list_all (fits_threshold t) (public_keys rep) \<and> keys_told G n t K rpk rep"
proof -
  let ?n = "unat n"
  let ?Q = "\<lambda>k. public_key_shape k \<and> fits_threshold t k"
  have new: "\<exists>y. Crypto_public_key_new k (unat t) = Some y \<and> ?Q y" if "?Q k" for k
    using that n(2) public_key_new_shape [of k "unat t"] by (auto simp: fits_threshold_def)
  have Q0: "list_all ?Q (replicate MAX_TRUSTEES blank_public_key)" by (simp add: list_all_iff)
  have "\<exists>ks. for_array ?n (\<lambda>_ k. Crypto_public_key_new k (unat t)) (replicate MAX_TRUSTEES blank_public_key) = Some ks"
    using n(1) new [of blank_public_key] by (intro for_array_total) auto
  then obtain ks where ks: "for_array ?n (\<lambda>_ k. Crypto_public_key_new k (unat t)) (replicate MAX_TRUSTEES blank_public_key) = Some ks"
    by blast
  have Q: "list_all ?Q ks"
    using ks Q0 by (rule for_array_list_all) (use new in fastforce)
  have l: "length ks = MAX_TRUSTEES" using for_array_length [OF ks] by simp
  have "\<exists>rs. for_array ?n (\<lambda>_ _. Some Crypto_rsa_public_key_new) (replicate MAX_TRUSTEES Crypto_rsa_public_key_new) = Some rs"
    using n(1) by (intro for_array_total) auto
  then obtain rs where rs: "for_array ?n (\<lambda>_ _. Some Crypto_rsa_public_key_new) (replicate MAX_TRUSTEES Crypto_rsa_public_key_new) = Some rs"
    by blast
  have lr: "length rs = MAX_TRUSTEES" using for_array_length [OF rs] by simp
  let ?old = "\<lparr>akr_num_trustees = 0, public_keys = ks, rsa_public_keys = rs\<rparr>"
  let ?rep = "merge_all_keys_received ?old a"
  have sh: "all_keys_received_shape ?old" using Q l lr by (simp add: all_keys_received_shape_def list_all_iff)
  note rd = all_keys_received_codec.parse [OF E keys_told_ok [OF a n(1)] sh]
  have m: "public_keys ?rep = map (\<lambda>i. merge_public_key (ks ! i) (public_keys a ! i)) [0..<?n] @ drop ?n ks"
    "rsa_public_keys ?rep = merge_array ?n rs (rsa_public_keys a)" "akr_num_trustees ?rep = n"
    using a by (simp_all add: merge_all_keys_received_def Let_def keys_told_def)
  have k: "?Q (merge_public_key (ks ! i) (public_keys a ! i)) \<and> same_key (merge_public_key (ks ! i) (public_keys a ! i)) (K i)"
    if i: "i < ?n" for i
  proof -
    have "public_key_shape (ks ! i)" using Q l n(1) i by (simp add: list_all_length)
    then have "public_key_shape (merge_public_key (ks ! i) (public_keys a ! i)) \<and>
        same_key (merge_public_key (ks ! i) (public_keys a ! i)) (public_keys a ! i)"
      using keys_told_sendable [OF a i n(1)] by (intro merge_same_key [of _ G]) (simp_all add: sendable_def)
    then show ?thesis
      using keys_told_sendable [OF a i n(1)] sendable_fits [of G t "public_keys a ! i"]
      by (auto simp: same_key_def fits_threshold_def)
  qed
  have all: "list_all ?Q (public_keys ?rep)"
    using k Q by (auto simp: m list_all_iff dest: in_set_dropD)
  then have "list_all (fits_threshold t) (public_keys ?rep)" "list_all public_key_shape (public_keys ?rep)"
    by (simp_all add: list_all_iff)
  moreover have "keys_told G n t K rpk ?rep"
    using calculation(2) k a l lr n(1)
    by (auto simp: keys_told_def holds_keys_def m nth_append merge_array_def)
  ultimately show ?thesis using ks rs rd by (auto simp: message_reading_def)
qed

text \<open>A trustee after key generation: it knows its index, its key pair \<open>kp\<close> and its RSA key.\<close>

definition has_key :: "u32 \<Rightarrow> u32 \<Rightarrow> u32 \<Rightarrow> private_key \<Rightarrow> rsa_private_key \<Rightarrow> KeyCeremony_Trustee \<Rightarrow> bool" where
  "has_key n t i priv rsk d \<longleftrightarrow> KeyExchange.trustee_ok d \<and> kt_num_trustees d = n \<and> kt_threshold d = t \<and> kt_index d = i \<and>
     same_private (kt_private_key d) priv \<and> priv_threshold priv = t \<and> kt_rsa_private_key d = rsk"

lemma has_keyD:
  assumes "has_key n t i priv rsk d"
  shows "unat n \<le> MAX_TRUSTEES" "unat t \<le> MAX_TRUSTEES" "unat i < unat n" "private_key_shape (kt_private_key d)"
    "length (kt_public_keys d) = MAX_TRUSTEES" "list_all public_key_shape (kt_public_keys d)"
    "length (kt_rsa_public_keys d) = MAX_TRUSTEES" "length (kt_my_key_shares d) = MAX_TRUSTEES"
  using assms trustee_okD [of d] by (auto simp: has_key_def KeyExchange.trustee_ok_def)

lemma generate_shares_sends:
  assumes E: "platform_mem E" and G: "group_ok G" and d: "has_key n t i priv rsk d"
    and own: "same_key (kt_public_keys d ! unat i) (K (unat i))"
    and a: "keys_told G n t K rpk a"
    and fit: "shares_ok (unat n) (shares_for E G priv t (unat n) rpk)"
  shows "\<exists>d'. KeyCeremony_Trustee_generate_shares E G (bytes_message (enc_all_keys_received a)) d = Some (KEYCEREMONY_TRUSTEE_SUCCESS,
      Some (bytes_message (enc_shares_generated \<lparr>sg_trustee_index = i, sg_num_trustees = n,
        sg_shares = shares_for E G priv t (unat n) rpk\<rparr>)), d') \<and>
    has_key n t i priv rsk d' \<and> (\<forall>j < unat n. same_key (kt_public_keys d' ! j) (K j))"
proof -
  let ?n = "unat n" and ?m = "bytes_message (enc_all_keys_received a)"
  note b = has_keyD [OF d]
  have f: "kt_num_trustees d = n" "kt_threshold d = t" "kt_index d = i" "same_private (kt_private_key d) priv"
    "priv_threshold priv = t" using d by (simp_all add: has_key_def)
  obtain ks0 rs0 rep st where rd:
    "for_array ?n (\<lambda>_ k. Crypto_public_key_new k (unat t)) (replicate MAX_TRUSTEES blank_public_key) = Some ks0"
    "for_array ?n (\<lambda>_ _. Some Crypto_rsa_public_key_new) (replicate MAX_TRUSTEES Crypto_rsa_public_key_new) = Some rs0"
    "Serialize_read_all_keys_received E G \<lparr>akr_num_trustees = 0, public_keys = ks0, rsa_public_keys = rs0\<rparr>
      (message_reading ?m) = Some (rep, st)" "ss_status st = SERIALIZE_STATE_READING"
    "list_all (fits_threshold t) (public_keys rep)" "keys_told G n t K rpk rep"
    using read_keys_told [OF E b(1,2) a] by blast
  have r: "akr_num_trustees rep = n" "length (public_keys rep) = MAX_TRUSTEES" "list_all public_key_shape (public_keys rep)"
    "length (rsa_public_keys rep) = MAX_TRUSTEES" "\<forall>j<?n. rsa_public_keys rep ! j = rpk j"
    using rd(6) by (simp_all add: keys_told_def holds_keys_def)
  have s: "\<forall>j<?n. sendable G t (public_keys rep ! j) \<and> same_key (public_keys rep ! j) (K j)"
    using keys_told_sendable [OF rd(6) _ b(1)] by blast
  have own': "Crypto_public_key_equal (public_keys rep ! unat i) (kt_public_keys d ! unat i) = Some True"
  proof (rule equal_same_key)
    show "same_key (public_keys rep ! unat i) (kt_public_keys d ! unat i)"
      using s b(3) own by (blast intro: same_key_trans same_key_sym)
    show "public_key_shape (public_keys rep ! unat i)" "public_key_shape (kt_public_keys d ! unat i)"
      using b(1,3,5,6) r(2,3) by (simp_all add: list_all_length)
    show "unat (pub_threshold (public_keys rep ! unat i)) \<le> MAX_TRUSTEES"
      using s b(2,3) by (simp add: sendable_def)
  qed
  obtain ks where ks: "for_array ?n (\<lambda>i k. do { src \<leftarrow> arr_get (public_keys rep) i; Crypto_public_key_copy k src })
      (kt_public_keys d) = Some ks" "holds_keys ?n ((!) (public_keys rep)) ks"
    using copy_keys [OF b(1) r(2,3) b(5,6) _ b(2)] s by blast
  let ?rs = "map rpk [0..<?n] @ drop ?n (kt_rsa_public_keys d)"
  have rs: "for_array ?n (\<lambda>i r. do { src \<leftarrow> arr_get (rsa_public_keys rep) i; Some (Crypto_rsa_public_key_copy r src) })
      (kt_rsa_public_keys d) = Some ?rs"
    using b r by (intro for_array_ok) (simp_all add: Crypto_rsa_public_key_copy_def)
  let ?d = "d\<lparr>kt_public_keys := ks, kt_rsa_public_keys := ?rs\<rparr>"
  have "for_array ?n (\<lambda>j _. do { r \<leftarrow> arr_get ?rs j;
      Crypto_create_encrypted_key_share E G r (kt_private_key d) (word_of_nat j) }) blank_array
    = Some (shares_for E G priv t ?n rpk)"
    using b f by (intro shares_made [OF E G b(1)]) (simp_all add: nth_append)
  moreover have "send E (Serialize_reserve_shares_generated x) (Serialize_write_shares_generated E x)
      = Some (Some (bytes_message (enc_shares_generated x)))" if "shares_generated_ok G x" for x
    using that by (rule shares_generated_codec.send_ok [OF E])
  ultimately have "KeyCeremony_Trustee_generate_shares E G ?m d = Some (KEYCEREMONY_TRUSTEE_SUCCESS,
      Some (bytes_message (enc_shares_generated \<lparr>sg_trustee_index = i, sg_num_trustees = n,
        sg_shares = shares_for E G priv t ?n rpk\<rparr>)), ?d)"
    using rd(1-5) r(1,2) own' ks(1) rs f b(1,3,5) fit
    by (simp add: KeyCeremony_Trustee_generate_shares_def Let_def shares_generated_ok_def)
  moreover have "has_key n t i priv rsk ?d"
    using d ks(2) b by (auto simp: has_key_def KeyExchange.trustee_ok_def holds_keys_def)
  moreover have "\<forall>j<?n. same_key (kt_public_keys ?d ! j) (K j)"
    using ks(2) s by (auto simp: holds_keys_def intro: same_key_trans)
  ultimately show ?thesis by blast
qed

text \<open>It verifies the shares that the others sent it: those decrypt to the values of their polynomials.\<close>

definition shares_table :: "nat \<Rightarrow> (nat \<Rightarrow> encrypted_key_share list) \<Rightarrow> all_shares_received_rep \<Rightarrow> bool" where
  "shares_table n row x \<longleftrightarrow> unat (asr_num_trustees x) = n \<and> length (asr_shares x) = MAX_TRUSTEES \<and> n \<le> MAX_TRUSTEES \<and>
     (\<forall>i<n. shares_ok n (asr_shares x ! i) \<and> (\<forall>j<n. asr_shares x ! i ! j = row i ! j))"

lemma shares_table_ok: "shares_table n row x \<Longrightarrow> all_shares_received_ok G x"
  by (auto simp: shares_table_def all_shares_received_ok_def in_set_conv_nth)

lemma verify_shares_sends:
  assumes E: "platform_mem E" and G: "group_ok G" and d: "has_key n t i priv rsk d"
    and k: "\<forall>j < unat n. key_matches E G (privs ! j) (K j) \<and> pub_threshold (K j) = t"
      "\<forall>j < unat n. same_key (kt_public_keys d ! j) (K j)"
    and x: "shares_table (unat n) (\<lambda>k. shares_for E G (privs ! k) t (unat n) rpk) x"
    and dec: "\<forall>k < unat n. RSA_Decrypt E (RSA_Encrypt E (share_value G privs (unat t) i k) (rpk (unat i))) rsk =
      share_value G privs (unat t) i k"
  shows "\<exists>d'. KeyCeremony_Trustee_verify_shares E G (bytes_message (enc_all_shares_received x)) d = Some (KEYCEREMONY_TRUSTEE_SUCCESS,
      Some (bytes_message (enc_shares_verified \<lparr>sv_trustee_index = i, sv_verified = True\<rparr>)), d') \<and>
    has_key n t i priv rsk d' \<and>
    (\<forall>k < unat n. kt_my_key_shares d' ! k = RSA_Encrypt E (share_value G privs (unat t) i k) (rpk (unat i)))"
proof -
  let ?n = "unat n"
  note b = has_keyD [OF d]
  have f: "kt_num_trustees d = n" "kt_threshold d = t" "kt_index d = i" "kt_rsa_private_key d = rsk"
    "KeyExchange.trustee_ok d" using d by (simp_all add: has_key_def)
  have m: "keys_match E G privs d"
    unfolding keys_match_def f
  proof (intro allI impI)
    fix j assume j: "j < unat n"
    have sh: "public_key_shape (kt_public_keys d ! j)" using b(1,5,6) j by (simp add: list_all_length)
    have K: "key_matches E G (privs ! j) (K j)" "pub_threshold (K j) = t" using k(1) j by blast+
    have s: "same_key (kt_public_keys d ! j) (K j)" using k(2) j by blast
    show "key_matches E G (privs ! j) (kt_public_keys d ! j) \<and> pub_threshold (kt_public_keys d ! j) = t"
      using matches_same_key [OF K(1) s sh] s K(2) by (simp add: same_key_def)
  qed
  have xi: "asr_shares x ! k ! unat i = RSA_Encrypt E (share_value G privs (unat t) i k) (rpk (unat i))" if "k < ?n" for k
    using x that b(3) by (simp add: shares_table_def shares_for_def share_value_def nth_append)
  have i1: "uint (i + 1) = int (unat i + 1)" using uint_index [of "unat i"] b(1,3) by simp
  have "share_valid E G privs (asr_shares x) d k" if k': "k < ?n" for k
  proof -
    let ?v = "polynomial_at (coefficients (privs ! k)) (unat t) (int (unat i + 1))"
    have "0 \<le> ?v" using k(1) k' by (intro polynomial_at_nonneg) (auto simp: key_matches_def)
    then have "pow_mod_p E G (generator G) (?v mod par_q G) = pow_mod_p E G (generator G) ?v"
      using G by (intro platform.pow_cong_q [OF platform_mem.axioms(1) [OF E]]) simp_all
    then show ?thesis using dec k' by (simp add: share_valid_def f xi i1) (simp add: share_value_def)
  qed
  then have "KeyCeremony_Trustee_verify_shares E G (bytes_message (enc_all_shares_received x)) d = Some (KEYCEREMONY_TRUSTEE_SUCCESS,
      Some (bytes_message (enc_shares_verified \<lparr>sv_trustee_index = i, sv_verified = True\<rparr>)),
      d\<lparr>kt_my_key_shares := map (\<lambda>k. asr_shares x ! k ! unat i) [0..<?n] @ drop ?n (kt_my_key_shares d)\<rparr>)"
    using verify_shares_eq [OF E G f(5) m shares_table_ok [OF x]] x by (simp add: f shares_table_def word_unat_eq_iff)
  moreover have "has_key n t i priv rsk (d\<lparr>kt_my_key_shares := ss\<rparr>)" if "length ss = MAX_TRUSTEES" for ss
    using d that by (auto simp: has_key_def KeyExchange.trustee_ok_def)
  ultimately show ?thesis using b xi by (simp add: nth_append)
qed

text \<open>The state it exports.\<close>

lemma export_state_sends:
  assumes E: "platform_mem E" and d: "has_key n t i priv rsk d"
    and ok: "private_key_ok priv" "rsa_private_key_ok rsk" "shares_ok (unat n) (kt_my_key_shares d)"
  shows "\<exists>rep. KeyCeremony_Trustee_export_state E d = Some (KEYCEREMONY_TRUSTEE_SUCCESS,
      Some (bytes_message (enc_trustee_state (unat n) rep))) \<and>
    trustee_state_ok (unat n) G rep \<and> ts_index rep = i \<and> same_private (ts_private_key rep) priv \<and>
    ts_rsa_private_key rep = rsk \<and> (\<forall>k < unat n. ts_my_key_shares rep ! k = kt_my_key_shares d ! k)"
proof -
  note b = has_keyD [OF d]
  let ?n = "unat n" and ?p0 = "\<lparr>priv_threshold = 0, coefficients = blank_array\<rparr>"
  have f: "kt_num_trustees d = n" "kt_threshold d = t" "kt_index d = i" "kt_rsa_private_key d = rsk"
    "same_private (kt_private_key d) priv" "priv_threshold priv = t" "priv_threshold (kt_private_key d) = t"
    using d by (simp_all add: has_key_def same_private_def)
  have init: "Crypto_private_key_init ?p0 (unat t) = Some ?p0"
    using b(2) by (simp add: Crypto_private_key_init_def mpz_init_n_blank)
  let ?cs = "take (unat t) (coefficients (kt_private_key d)) @ drop (unat t) blank_array"
  have copy: "Crypto_private_key_copy ?p0 (kt_private_key d) = Some \<lparr>priv_threshold = t, coefficients = ?cs\<rparr>"
    using b(2,4) f(7) by (subst Crypto_private_key_copy_ok) (simp_all add: private_key_shape_def)
  have same: "same_private \<lparr>priv_threshold = t, coefficients = ?cs\<rparr> priv"
    using f(5,6) b(2,4) by (simp add: same_private_def private_key_shape_def nth_append)
  have "take (unat t) ?cs = take (unat t) (coefficients priv)"
    using same ok(1) b(2,4) f(6)
    by (intro nth_take_lemma) (simp_all add: same_private_def private_key_ok_def array_ok_def private_key_shape_def)
  then have pok: "private_key_ok \<lparr>priv_threshold = t, coefficients = ?cs\<rparr>"
    using ok(1) f(6) b(2,4) by (simp add: private_key_ok_def array_ok_def private_key_shape_def)
  let ?ss = "map (\<lambda>i. kt_my_key_shares d ! i) [0..<?n] @ drop ?n blank_array"
  have ss: "for_array ?n (\<lambda>i _. do { src \<leftarrow> arr_get (kt_my_key_shares d) i;
      Some (Crypto_encrypted_key_share_copy Crypto_encrypted_key_share_init src) }) blank_array = Some ?ss"
    using b by (intro for_array_ok) (simp_all add: Crypto_encrypted_key_share_copy_def)
  have "take ?n ?ss = take ?n (kt_my_key_shares d)" using b(1,8) by (simp add: map_nth_upt)
  then have sok: "shares_ok ?n ?ss" using ok(3) b(1) by (simp add: shares_ok_def)
  let ?rep = "\<lparr>ts_index = i, ts_private_key = \<lparr>priv_threshold = t, coefficients = ?cs\<rparr>, ts_my_key_shares = ?ss,
      ts_rsa_private_key = rsk\<rparr>"
  have rok: "trustee_state_ok ?n G ?rep" using pok sok ok(2) by (simp add: trustee_state_ok_def)
  have rc: "Crypto_rsa_private_key_copy Crypto_rsa_private_key_new k = k" for k
    by (simp add: Crypto_rsa_private_key_copy_def Crypto_rsa_private_key_new_def)
  have "KeyCeremony_Trustee_export_state E d = Some (KEYCEREMONY_TRUSTEE_SUCCESS,
      Some (bytes_message (enc_trustee_state ?n ?rep)))"
    using init copy ss trustee_state_codec.send_ok [OF E rok]
    by (simp add: KeyCeremony_Trustee_export_state_def f rc Let_def)
  with rok same b(1) show ?thesis by (intro exI [of _ ?rep]) (simp add: nth_append)
qed

section \<open>The coordinator\<close>

definition leads :: "u32 \<Rightarrow> u32 \<Rightarrow> KeyCeremony_Coordinator \<Rightarrow> bool" where
  "leads n t c \<longleftrightarrow> coordinator_ok c \<and> kc_num_trustees c = n \<and> kc_threshold c = t"

text \<open>Messages of all the trustees in the order of their indices, each accepted.\<close>

lemma receive_in_order:
  assumes "C 0 c" "\<And>i c. i < n \<Longrightarrow> C i c \<Longrightarrow> \<exists>c'. recv (m i) c = Some (ok, c') \<and> C (Suc i) c'"
  shows "\<exists>c'. receive_all recv ok (map m [0..<n]) c = Some c' \<and> C n c'"
proof -
  have app: "receive_all recv ok (ms @ [x]) c = receive_all recv ok ms c \<bind> receive_all recv ok [x]" for ms x c
    by (induction ms arbitrary: c) (auto simp: Option.bind_assoc intro!: Option.bind_cong)
  show ?thesis
    using assms(2)
  proof (induction n)
    case (Suc n)
    then obtain c' where "receive_all recv ok (map m [0..<n]) c = Some c'" "C n c'" by auto
    with Suc.prems [of n c'] show ?case by (auto simp: app)
  qed (use assms(1) in simp)
qed

lemma index_unat: "i < n \<Longrightarrow> n \<le> MAX_TRUSTEES \<Longrightarrow> unat (word_of_nat i :: u32) = i"
  by (simp add: MAX_TRUSTEES_def unat_of_nat)

lemma receive_keys:
  assumes E: "platform_mem E" and c: "leads n t c" "heard_by c = {}"
    and k: "\<forall>i < unat n. sendable G t (k i) \<and> same_key (k i) (K i) \<and> Crypto_check_keypair_proof E G (k i) [] = Some True \<and>
      rsa_public_key_ok (rpk i)"
  shows "\<exists>c'. receive_all (KeyCeremony_Coordinator_receive_key_generated E G) KEYCEREMONY_COORDINATOR_SUCCESS
      (map (\<lambda>i. bytes_message (enc_key_generated
         \<lparr>kg_trustee_index = word_of_nat i, kg_public_key = k i, kg_rsa_public_key = rpk i\<rparr>)) [0..<unat n]) c = Some c' \<and>
    leads n t c' \<and> heard_by c' = {..<unat n} \<and>
    (\<forall>i < unat n. same_key (kc_public_keys c' ! i) (K i) \<and> kc_rsa_public_keys c' ! i = rpk i)"
proof (rule receive_in_order [where n = "unat n" and C = "\<lambda>m c. leads n t c \<and> heard_by c = {..<m} \<and>
      (\<forall>i<m. same_key (kc_public_keys c ! i) (K i) \<and> kc_rsa_public_keys c ! i = rpk i)"])
  fix i c
  assume i: "i < unat n" and C: "leads n t c \<and> heard_by c = {..<i} \<and>
      (\<forall>j<i. same_key (kc_public_keys c ! j) (K j) \<and> kc_rsa_public_keys c ! j = rpk j)"
  let ?x = "\<lparr>kg_trustee_index = word_of_nat i, kg_public_key = k i, kg_rsa_public_key = rpk i\<rparr>"
  let ?m = "bytes_message (enc_key_generated ?x)"
  have c: "coordinator_ok c" "kc_num_trustees c = n" "kc_threshold c = t" using C by (simp_all add: leads_def)
  have u: "unat (word_of_nat i :: u32) = i" using i coordinator_okD(1) [OF c(1)] c(2) by (intro index_unat) simp_all
  have ki: "sendable G t (k i)" "same_key (k i) (K i)" "Crypto_check_keypair_proof E G (k i) [] = Some True"
    "rsa_public_key_ok (rpk i)" using k i by blast+
  obtain c' where r: "KeyCeremony_Coordinator_receive_key_generated E G ?m c = Some (KEYCEREMONY_COORDINATOR_SUCCESS, c')"
    "same_key (kc_public_keys c' ! i) (k i)" "kc_rsa_public_keys c' ! i = rpk i" "heard_by c' = insert i (heard_by c)"
    "\<forall>j. j \<noteq> i \<longrightarrow> kc_public_keys c' ! j = kc_public_keys c ! j \<and> kc_rsa_public_keys c' ! j = kc_rsa_public_keys c ! j"
    using receive_key_accepts [OF E c(1), of ?x G] i C ki c(2,3) u sendable_fits [OF ki(1)]
    by (auto simp: key_generated_ok_def sendable_def)
  have "leads n t c'"
    using receive_key_generated_heard [OF c(1) r(1)] c(2,3) by (simp add: heard_result_def leads_def)
  with r C same_key_trans [OF r(2) ki(2)]
  show "\<exists>c'. KeyCeremony_Coordinator_receive_key_generated E G ?m c = Some (KEYCEREMONY_COORDINATOR_SUCCESS, c') \<and>
      leads n t c' \<and> heard_by c' = {..<Suc i} \<and>
      (\<forall>j<Suc i. same_key (kc_public_keys c' ! j) (K j) \<and> kc_rsa_public_keys c' ! j = rpk j)"
    by (auto simp: less_Suc_eq lessThan_Suc)
qed (use c in simp)

lemma announce_keys:
  assumes E: "platform_mem E" and c: "leads n t c" "heard_by c = {..<unat n}"
    and k: "\<forall>i < unat n. sendable G t (K i) \<and> same_key (kc_public_keys c ! i) (K i) \<and> kc_rsa_public_keys c ! i = rpk i \<and>
      rsa_public_key_ok (rpk i)"
  shows "\<exists>a c'. KeyCeremony_Coordinator_all_keys_received E c = Some (KEYCEREMONY_COORDINATOR_SUCCESS,
      Some (bytes_message (enc_all_keys_received a)), c') \<and> keys_told G n t K rpk a \<and>
    leads n t c' \<and> heard_by c' = {} \<and> kc_public_keys c' = kc_public_keys c"
proof -
  let ?n = "unat n"
  have f: "coordinator_ok c" "kc_num_trustees c = n" "kc_threshold c = t" using c by (simp_all add: leads_def)
  have b: "?n \<le> MAX_TRUSTEES" "unat t \<le> MAX_TRUSTEES" using coordinator_okD(1,3) [OF f(1)] f by simp_all
  have l: "length (kc_public_keys c) = MAX_TRUSTEES" "list_all public_key_shape (kc_public_keys c)"
    "length (kc_rsa_public_keys c) = MAX_TRUSTEES"
    using f(1) by (simp_all add: coordinator_ok_def list_all_iff)
  obtain seen where seen: "KeyCeremony_Coordinator_clear_seen c = Some (c\<lparr>kc_seen := seen\<rparr>)"
    "coordinator_ok (c\<lparr>kc_seen := seen\<rparr>)" "heard_by (c\<lparr>kc_seen := seen\<rparr>) = {}"
    using clear_seen_eq [OF f(1)] by blast
  let ?f = "\<lambda>i k. do { k \<leftarrow> Crypto_public_key_new (k\<lparr>pub_threshold := t\<rparr>) (unat t);
                 src \<leftarrow> arr_get (kc_public_keys c) i; Crypto_public_key_copy k src }"
  have one: "\<exists>y. ?f i k' = Some y \<and> public_key_shape y \<and> same_key y (K i)" if i: "i < ?n" and k': "public_key_shape k'" for i k'
  proof -
    have "public_key_shape (k'\<lparr>pub_threshold := t\<rparr>)" using k' by (simp add: public_key_shape_def)
    then obtain k0 where k0: "Crypto_public_key_new (k'\<lparr>pub_threshold := t\<rparr>) (unat t) = Some k0" "public_key_shape k0"
      using public_key_new_shape b(2) by blast
    have s: "public_key_shape (kc_public_keys c ! i)" using l b i by (simp add: list_all_length)
    have ki: "same_key (kc_public_keys c ! i) (K i)" "sendable G t (K i)" using k i by blast+
    obtain y where "Crypto_public_key_copy k0 (kc_public_keys c ! i) = Some y" "public_key_shape y"
      "same_key y (kc_public_keys c ! i)"
      using copy_same_key [OF k0(2) s sendable_fits [OF sendable_same [OF ki(1) s ki(2)]] b(2)] by blast
    then show ?thesis using k0 l b i ki(1) by (auto intro: same_key_trans)
  qed
  have bs: "public_key_shape (replicate MAX_TRUSTEES blank_public_key ! i)" if "i < ?n" for i
    using that b by simp
  let ?bl = "replicate MAX_TRUSTEES blank_public_key"
  let ?ks = "map (\<lambda>i. the (?f i (?bl ! i))) [0..<?n] @ drop ?n ?bl"
  have ks: "for_array ?n ?f ?bl = Some ?ks"
    using b one [OF _ bs] by (intro for_array_ok) fastforce+
  have hk: "holds_keys ?n K ?ks"
    using one [OF _ bs] b by (fastforce simp: holds_keys_def nth_append list_all_iff dest: in_set_dropD)
  have rs: "for_array ?n (\<lambda>i _. do { src \<leftarrow> arr_get (kc_rsa_public_keys c) i;
      Some (Crypto_rsa_public_key_copy Crypto_rsa_public_key_new src) }) (replicate MAX_TRUSTEES Crypto_rsa_public_key_new) =
    Some (map rpk [0..<?n] @ drop ?n (replicate MAX_TRUSTEES Crypto_rsa_public_key_new))"
    using b l k by (intro for_array_ok) (simp_all add: Crypto_rsa_public_key_copy_def)
  let ?a = "\<lparr>akr_num_trustees = n, public_keys = ?ks,
      rsa_public_keys = map rpk [0..<?n] @ drop ?n (replicate MAX_TRUSTEES Crypto_rsa_public_key_new)\<rparr>"
  have a: "keys_told G n t K rpk ?a" using hk k b by (simp add: keys_told_def nth_append)
  have "KeyCeremony_Coordinator_all_keys_received E c = Some (KEYCEREMONY_COORDINATOR_SUCCESS,
      Some (bytes_message (enc_all_keys_received ?a)), c\<lparr>kc_seen := seen\<rparr>)"
    using seen(1) ks rs all_keys_received_codec.send_ok [OF E keys_told_ok [OF a b(1)]] c(2) f
    by (simp add: KeyCeremony_Coordinator_all_keys_received_def assert_all_seen_eq [OF f(1)] Let_def)
  then show ?thesis using a seen f by (intro exI [of _ ?a] exI [of _ "c\<lparr>kc_seen := seen\<rparr>"]) (simp add: leads_def)
qed

text \<open>The rows of shares, as far as they were sent.\<close>

definition stores_rows :: "nat \<Rightarrow> nat \<Rightarrow> (nat \<Rightarrow> encrypted_key_share list) \<Rightarrow> KeyCeremony_Coordinator \<Rightarrow> bool" where
  "stores_rows n m row c \<longleftrightarrow> (\<forall>i<m. \<forall>j<n. kc_shares c ! i ! j = row i ! j)"

lemma receive_shares_accepts:
  assumes E: "platform_mem E" and c: "leads n t c" and i: "i < unat n" "i \<notin> heard_by c" and row: "shares_ok (unat n) row"
  shows "\<exists>c'. KeyCeremony_Coordinator_receive_shares_generated E (bytes_message (enc_shares_generated
      \<lparr>sg_trustee_index = word_of_nat i, sg_num_trustees = n, sg_shares = row\<rparr>)) c = Some (KEYCEREMONY_COORDINATOR_SUCCESS, c') \<and>
    leads n t c' \<and> heard_by c' = insert i (heard_by c) \<and> kc_public_keys c' = kc_public_keys c \<and>
    (\<forall>j < unat n. kc_shares c' ! i ! j = row ! j) \<and> (\<forall>k. k \<noteq> i \<longrightarrow> kc_shares c' ! k = kc_shares c ! k)"
proof -
  let ?n = "unat n" and ?x = "\<lparr>sg_trustee_index = word_of_nat i, sg_num_trustees = n, sg_shares = row\<rparr> :: shares_generated_rep"
  let ?m = "bytes_message (enc_shares_generated ?x)"
  have f: "coordinator_ok c" "kc_num_trustees c = n" "kc_threshold c = t" using c by (simp_all add: leads_def)
  have b: "?n \<le> MAX_TRUSTEES" "i < MAX_TRUSTEES" using coordinator_okD(1) [OF f(1)] f i by simp_all
  have u: "unat (word_of_nat i :: u32) = i" using b i by (intro index_unat) simp_all
  have l: "length (kc_seen c) = MAX_TRUSTEES" "length (kc_shares c) = MAX_TRUSTEES" "length (kc_shares c ! i) = MAX_TRUSTEES"
    using f(1) b(2) by (simp_all add: coordinator_ok_def list_all_length)
  have ss: "for_array ?n (\<lambda>_ _. Some Crypto_encrypted_key_share_init) blank_array = Some blank_array"
    using for_array_ok [of ?n blank_array "\<lambda>_ _. Some Crypto_encrypted_key_share_init" "\<lambda>_. 0"] b(1)
    by (simp add: blank_array_def map_replicate_const Crypto_encrypted_key_share_init_def flip: replicate_add)
  let ?old = "\<lparr>sg_trustee_index = 0, sg_num_trustees = 0, sg_shares = blank_array\<rparr> :: shares_generated_rep"
  let ?rep = "merge_shares_generated ?old ?x"
  obtain st where rd: "Serialize_read_shares_generated E ?old (message_reading ?m) = Some (?rep, st)"
    using shares_generated_codec.parse [OF E, of G ?x ?old for G] row by (simp add: shares_generated_ok_def)
  have lr: "length row = MAX_TRUSTEES" using row by (simp add: shares_ok_def)
  have m: "sg_trustee_index ?rep = word_of_nat i" "sg_num_trustees ?rep = n" "length (sg_shares ?rep) = MAX_TRUSTEES"
    "\<forall>j<?n. sg_shares ?rep ! j = row ! j"
    using b lr by (simp_all add: merge_shares_generated_def merge_array_def nth_append)
  let ?row = "map (\<lambda>j. sg_shares ?rep ! j) [0..<?n] @ drop ?n (kc_shares c ! i)"
  have fill: "for_array ?n (\<lambda>j old. do { src \<leftarrow> arr_get (sg_shares ?rep) j; Some (Crypto_encrypted_key_share_copy old src) })
      (kc_shares c ! i) = Some ?row"
    using b l m(3) by (intro for_array_ok) (simp_all add: Crypto_encrypted_key_share_copy_def)
  let ?c = "c\<lparr>kc_seen := (kc_seen c)[i := True], kc_shares := (kc_shares c)[i := ?row]\<rparr>"
  have r: "KeyCeremony_Coordinator_receive_shares_generated E ?m c = Some (KEYCEREMONY_COORDINATOR_SUCCESS, ?c)"
    using rd ss fill l b i u
    by (simp add: KeyCeremony_Coordinator_receive_shares_generated_def f m(1,2) assert_index_unseen_eq [OF f(1)] Let_def)
  have "heard_by ?c = insert i (heard_by c)"
    using i l b f(2) by (auto simp: heard_by_def nth_list_update split: if_splits)
  moreover have "leads n t ?c"
    using receive_shares_generated_heard [OF f(1) r] f by (simp add: heard_result_def leads_def)
  ultimately show ?thesis using r l b m(4) by (intro exI [of _ ?c]) (simp add: nth_append)
qed

lemma receive_rows:
  assumes E: "platform_mem E" and c: "leads n t c" "heard_by c = {}" and row: "\<forall>i < unat n. shares_ok (unat n) (row i)"
  shows "\<exists>c'. receive_all (KeyCeremony_Coordinator_receive_shares_generated E) KEYCEREMONY_COORDINATOR_SUCCESS
      (map (\<lambda>i. bytes_message (enc_shares_generated
         \<lparr>sg_trustee_index = word_of_nat i, sg_num_trustees = n, sg_shares = row i\<rparr>)) [0..<unat n]) c = Some c' \<and>
    leads n t c' \<and> heard_by c' = {..<unat n} \<and> stores_rows (unat n) (unat n) row c' \<and> kc_public_keys c' = kc_public_keys c"
proof (rule receive_in_order [where n = "unat n" and C = "\<lambda>m c'. leads n t c' \<and> heard_by c' = {..<m} \<and>
      stores_rows (unat n) m row c' \<and> kc_public_keys c' = kc_public_keys c"])
  fix i c1
  assume i: "i < unat n" and C: "leads n t c1 \<and> heard_by c1 = {..<i} \<and> stores_rows (unat n) i row c1 \<and>
      kc_public_keys c1 = kc_public_keys c"
  then have c1: "leads n t c1" "i \<notin> heard_by c1" by simp_all
  from receive_shares_accepts [OF E c1(1) i c1(2), of "row i"] row i C
  show "\<exists>c'. KeyCeremony_Coordinator_receive_shares_generated E (bytes_message (enc_shares_generated
      \<lparr>sg_trustee_index = word_of_nat i, sg_num_trustees = n, sg_shares = row i\<rparr>)) c1 = Some (KEYCEREMONY_COORDINATOR_SUCCESS, c') \<and>
      leads n t c' \<and> heard_by c' = {..<Suc i} \<and> stores_rows (unat n) (Suc i) row c' \<and> kc_public_keys c' = kc_public_keys c"
    by (auto simp: stores_rows_def less_Suc_eq lessThan_Suc)
qed (use c in \<open>simp add: stores_rows_def\<close>)

lemma announce_shares:
  assumes E: "platform_mem E" and c: "leads n t c" "heard_by c = {..<unat n}"
    and rows: "stores_rows (unat n) (unat n) row c" "\<forall>i < unat n. shares_ok (unat n) (row i)"
  shows "\<exists>x c'. KeyCeremony_Coordinator_all_shares_received E c = Some (KEYCEREMONY_COORDINATOR_SUCCESS,
      Some (bytes_message (enc_all_shares_received x)), c') \<and> shares_table (unat n) row x \<and>
    leads n t c' \<and> heard_by c' = {} \<and> kc_public_keys c' = kc_public_keys c"
proof -
  let ?n = "unat n"
  have f: "coordinator_ok c" "kc_num_trustees c = n" using c by (simp_all add: leads_def)
  have b: "?n \<le> MAX_TRUSTEES" using coordinator_okD(1) [OF f(1)] f by simp
  have l: "length (kc_shares c) = MAX_TRUSTEES" "\<forall>i < MAX_TRUSTEES. length (kc_shares c ! i) = MAX_TRUSTEES"
    using f(1) by (simp_all add: coordinator_ok_def list_all_length)
  obtain seen where seen: "KeyCeremony_Coordinator_clear_seen c = Some (c\<lparr>kc_seen := seen\<rparr>)"
    "coordinator_ok (c\<lparr>kc_seen := seen\<rparr>)" "heard_by (c\<lparr>kc_seen := seen\<rparr>) = {}"
    using clear_seen_eq [OF f(1)] by blast
  let ?row = "\<lambda>i. map (\<lambda>j. kc_shares c ! i ! j) [0..<?n] @ drop ?n blank_array"
  have inner: "for_array ?n (\<lambda>j _. do { src \<leftarrow> arr_get (kc_shares c ! i) j;
      Some (Crypto_encrypted_key_share_copy Crypto_encrypted_key_share_init src) }) blank_array = Some (?row i)"
    if "i < ?n" for i
    using that b l by (intro for_array_ok) (simp_all add: Crypto_encrypted_key_share_copy_def)
  let ?rows = "map ?row [0..<?n] @ drop ?n (replicate MAX_TRUSTEES blank_array)"
  have rs: "for_array ?n (\<lambda>i row. do { src_row \<leftarrow> arr_get (kc_shares c) i;
      for_array ?n (\<lambda>j _. do { src \<leftarrow> arr_get src_row j;
        Some (Crypto_encrypted_key_share_copy Crypto_encrypted_key_share_init src) }) row })
      (replicate MAX_TRUSTEES blank_array) = Some ?rows"
    using b l inner by (intro for_array_ok) simp_all
  let ?x = "\<lparr>asr_num_trustees = n, asr_shares = ?rows\<rparr>"
  have "shares_ok ?n (?row i) \<and> (\<forall>j<?n. ?row i ! j = row i ! j)" if i: "i < ?n" for i
  proof -
    have r: "\<forall>j<?n. ?row i ! j = row i ! j" using rows(1) i by (simp add: stores_rows_def nth_append)
    have "take ?n (?row i) = take ?n (row i)"
      using r rows(2) i b by (intro nth_take_lemma) (simp_all add: shares_ok_def)
    then show ?thesis using r rows(2) i b by (simp add: shares_ok_def)
  qed
  then have x: "shares_table ?n row ?x" using b by (simp add: shares_table_def nth_append)
  have "KeyCeremony_Coordinator_all_shares_received E c = Some (KEYCEREMONY_COORDINATOR_SUCCESS,
      Some (bytes_message (enc_all_shares_received ?x)), c\<lparr>kc_seen := seen\<rparr>)"
    using seen(1) rs all_shares_received_codec.send_ok [OF E shares_table_ok [OF x]] c(2) f
    by (simp add: KeyCeremony_Coordinator_all_shares_received_def assert_all_seen_eq [OF f(1)] Let_def)
  then show ?thesis using x seen c(1) by (intro exI [of _ ?x] exI [of _ "c\<lparr>kc_seen := seen\<rparr>"]) (simp add: leads_def)
qed

lemma receive_verdicts:
  assumes c: "leads n t c" "heard_by c = {}"
  shows "\<exists>c'. receive_all KeyCeremony_Coordinator_receive_shares_verified KEYCEREMONY_COORDINATOR_SUCCESS
      (map (\<lambda>i. verdict (word_of_nat i) True) [0..<unat n]) c = Some c' \<and>
    leads n t c' \<and> heard_by c' = {..<unat n} \<and> kc_public_keys c' = kc_public_keys c"
proof (rule receive_in_order [where n = "unat n" and C = "\<lambda>m c'. leads n t c' \<and> heard_by c' = {..<m} \<and>
      kc_public_keys c' = kc_public_keys c"])
  fix i c1
  assume i: "i < unat n" and C: "leads n t c1 \<and> heard_by c1 = {..<i} \<and> kc_public_keys c1 = kc_public_keys c"
  have f: "coordinator_ok c1" "kc_num_trustees c1 = n" "kc_threshold c1 = t" using C by (simp_all add: leads_def)
  have b: "unat n \<le> MAX_TRUSTEES" "length (kc_seen c1) = MAX_TRUSTEES"
    using coordinator_okD(1) [OF f(1)] f by (simp_all add: coordinator_ok_def)
  have u: "unat (word_of_nat i :: u32) = i" using b i by (intro index_unat) simp_all
  let ?c = "c1\<lparr>kc_seen := (kc_seen c1)[i := True]\<rparr>"
  have r: "KeyCeremony_Coordinator_receive_shares_verified (verdict (word_of_nat i) True) c1 =
      Some (KEYCEREMONY_COORDINATOR_SUCCESS, ?c)"
    using i C by (simp add: receive_verdict [OF f(1)] u f)
  have "heard_by ?c = insert i (heard_by c1)"
    using i b f(2) by (auto simp: heard_by_def nth_list_update split: if_splits)
  moreover have "leads n t ?c"
    using receive_shares_verified_heard [OF f(1) r] f by (simp add: heard_result_def leads_def)
  ultimately show "\<exists>c'. KeyCeremony_Coordinator_receive_shares_verified (verdict (word_of_nat i) True) c1 =
      Some (KEYCEREMONY_COORDINATOR_SUCCESS, c') \<and>
      leads n t c' \<and> heard_by c' = {..<Suc i} \<and> kc_public_keys c' = kc_public_keys c"
    using r C by (intro exI [of _ ?c]) (simp add: lessThan_Suc)
qed (use c in simp)

text \<open>The joint key is the generator to the sum of the secrets.\<close>

lemma publish_sum:
  assumes E: "platform_mem E" and G: "group_ok G" and c: "leads n t c" "heard_by c = {..<unat n}"
    and k: "\<forall>i < unat n. same_key (kc_public_keys c ! i) (K i) \<and> key_matches E G (privs ! i) (K i) \<and> pub_threshold (K i) = t"
  defines "key \<equiv> pow_mod_p E G (generator G) (\<Sum>i < unat n. coefficients (privs ! i) ! 0)"
  assumes f64: "fits 64 key"
  shows "KeyCeremony_Coordinator_publish_joint_key E G c = Some (KEYCEREMONY_COORDINATOR_SUCCESS,
    Some (bytes_message (enc_joint_public_key \<lparr>joint_num_trustees = n, joint_key = key\<rparr>)))"
proof -
  have f: "coordinator_ok c" "kc_num_trustees c = n" "kc_threshold c = t" using c by (simp_all add: leads_def)
  have b: "unat n \<le> MAX_TRUSTEES" "0 < unat t" using coordinator_okD(1,4) [OF f(1)] f by simp_all
  have l: "length (kc_public_keys c) = MAX_TRUSTEES" "list_all public_key_shape (kc_public_keys c)"
    using f(1) by (simp_all add: coordinator_ok_def list_all_iff)
  have "0 < length (coef_commitments (kc_public_keys c ! i)) \<and> 0 \<le> coefficients (privs ! i) ! 0 \<and>
      coef_commitments (kc_public_keys c ! i) ! 0 = pow_mod_p E G (generator G) (coefficients (privs ! i) ! 0)"
    if i: "i < unat n" for i
  proof -
    have sh: "public_key_shape (kc_public_keys c ! i)" using l b i by (simp add: list_all_length)
    have ki: "same_key (kc_public_keys c ! i) (K i)" "key_matches E G (privs ! i) (K i)" "pub_threshold (K i) = t"
      using k i by blast+
    have "key_matches E G (privs ! i) (kc_public_keys c ! i)" "pub_threshold (kc_public_keys c ! i) = t"
      using matches_same_key [OF ki(2,1) sh] ki(1,3) by (simp_all add: same_key_def)
    then show ?thesis using b(2) by (auto simp: key_matches_def MAX_TRUSTEES_def)
  qed
  then have "Crypto_generate_joint_public_key E G (kc_public_keys c) (kc_num_trustees c) =
      Some \<lparr>joint_num_trustees = n, joint_key = key\<rparr>"
    using platform.joint_key_product [OF platform_mem.axioms(1) [OF E] G, of n "kc_public_keys c"
        "\<lambda>i. coefficients (privs ! i) ! 0"] b(1) l(1) by (simp add: f key_def)
  from publish_key [OF E f(1) _ this] show ?thesis using c(2) f(2) f64 by simp
qed

end
