(* ===== verification/ApiCreateProofs.thy ===== *)
theory ApiCreateProofs
  imports ApiCreate KeyRun ApiTallyProofs
begin

text \<open>
  The call that creates an election runs the whole ceremony: the loops over the static pointers are the
  exchanges of the trustees with the coordinator, in the order of their indices.
\<close>

section \<open>The loops\<close>

text \<open>The pointers to the coordinator and to the first \<open>n\<close> trustees are live; \<open>rest\<close> are the others.\<close>

definition seats :: "nat \<Rightarrow> (nat \<Rightarrow> KeyCeremony_Trustee) \<Rightarrow> KeyCeremony_Trustee pointer list \<Rightarrow> KeyCeremony_Coordinator \<Rightarrow>
    create_statics" where
  "seats n T rest c = \<lparr>cr_coordinator = Live c, cr_trustees = map (\<lambda>i. Live (T i)) [0..<n] @ rest\<rparr>"

lemma ceremony_loop:
  assumes "\<And>i. i < n \<Longrightarrow> act i (T i) = Some (KEYCEREMONY_TRUSTEE_SUCCESS, Some (M i), T' i)"
    and "receive_all recv KEYCEREMONY_COORDINATOR_SUCCESS (map M [0..<n]) c = Some c'"
  shows "loop n (ceremony_step act recv) (True, seats n T rest c) = Some (True, seats n T' rest c')"
proof -
  let ?ts = "\<lambda>m. map (\<lambda>i. Live (if i < m then T' i else T i)) [0..<n] @ rest"
  have upd: "(?ts m)[m := Live (T' m)] = ?ts (Suc m)" if "m < n" for m
    using that by (intro nth_equalityI) (auto simp: nth_append nth_list_update less_Suc_eq)
  have "\<exists>c1. receive_all recv KEYCEREMONY_COORDINATOR_SUCCESS (map M [0..<m]) c = Some c1 \<and>
      loop m (ceremony_step act recv) (True, seats n T rest c) =
        Some (True, \<lparr>cr_coordinator = Live c1, cr_trustees = ?ts m\<rparr>)" if "m \<le> n" for m
    using that
  proof (induction m)
    case (Suc m)
    then have m: "m < n" by simp
    obtain c1 where c1: "receive_all recv KEYCEREMONY_COORDINATOR_SUCCESS (map M [0..<m]) c = Some c1"
      "loop m (ceremony_step act recv) (True, seats n T rest c) = Some (True, \<lparr>cr_coordinator = Live c1, cr_trustees = ?ts m\<rparr>)"
      using Suc by auto
    have "map M [0..<n] = map M [0..<m] @ M m # map M [Suc m..<n]"
      using upt_add_eq_append [of 0 m "n - m"] m upt_conv_Cons [of m n] by simp
    then obtain c2 where c2: "recv (M m) c1 = Some (KEYCEREMONY_COORDINATOR_SUCCESS, c2)"
      using assms(2) c1(1) by (auto simp: receive_all_append bind_eq_Some_conv split: if_splits)
    have "ceremony_step act recv m (True, \<lparr>cr_coordinator = Live c1, cr_trustees = ?ts m\<rparr>) =
        Some (True, \<lparr>cr_coordinator = Live c2, cr_trustees = ?ts (Suc m)\<rparr>)"
      using m assms(1) [OF m] c2 upd [OF m] by (simp add: ceremony_step_def nth_append)
    then show ?case using c1 c2 by (simp add: receive_all_append)
  qed (simp add: seats_def)
  from this [of n] assms(2) show ?thesis by (auto simp: seats_def)
qed

text \<open>The memory of a new trustee has the arrays of the structure.\<close>

definition trustee_memory :: "KeyCeremony_Trustee \<Rightarrow> bool" where
  "trustee_memory m \<longleftrightarrow> private_key_shape (kt_private_key m) \<and> length (kt_public_keys m) = MAX_TRUSTEES \<and>
     list_all public_key_shape (kt_public_keys m) \<and> length (kt_rsa_public_keys m) = MAX_TRUSTEES \<and>
     length (kt_my_key_shares m) = MAX_TRUSTEES"

lemma new_trustee:
  assumes E: "platform_mem E" and v: "valid_params n t" and m: "trustee_memory m" and i: "i < unat n"
  shows "\<exists>d. KeyCeremony_Trustee_new E m n t (word_of_nat i) = Some (KEYCEREMONY_TRUSTEE_SUCCESS, Some d) \<and>
    KeyExchange.trustee_ok d \<and> kt_num_trustees d = n \<and> kt_threshold d = t \<and> kt_index d = word_of_nat i"
proof -
  have b: "unat n \<le> MAX_TRUSTEES" "unat t \<le> MAX_TRUSTEES" using v by (auto simp: valid_params_def word_le_nat_alt)
  have u: "unat (word_of_nat i :: u32) = i" using b(1) i by (intro index_unat) simp_all
  obtain blk where blk: "malloc E 1816 = Some blk" using platform_mem.malloc_ok [OF E] by blast
  have "\<exists>p. Crypto_private_key_init (kt_private_key m) (unat t) = Some p \<and> private_key_shape p"
    using m b(2) by (simp add: Crypto_private_key_init_def mpz_init_n_eq trustee_memory_def private_key_shape_def)
  then obtain p where p: "Crypto_private_key_init (kt_private_key m) (unat t) = Some p" "private_key_shape p" by blast
  have "\<exists>ks. for_array (unat n) (\<lambda>_ k. Crypto_public_key_new k (unat t)) (kt_public_keys m) = Some ks"
  proof (rule for_array_total)
    fix j assume "j < unat n"
    then have "public_key_shape (kt_public_keys m ! j)" using m b(1) by (simp add: trustee_memory_def list_all_length)
    then show "\<exists>y. Crypto_public_key_new (kt_public_keys m ! j) (unat t) = Some y"
      using public_key_new_shape b(2) by blast
  qed (use m b in \<open>simp add: trustee_memory_def\<close>)
  then obtain ks where ks: "for_array (unat n) (\<lambda>_ k. Crypto_public_key_new k (unat t)) (kt_public_keys m) = Some ks" by blast
  have "list_all public_key_shape ks"
    using ks by (rule for_array_list_all) (use m public_key_new_shape [OF _ b(2)] in \<open>fastforce simp: trustee_memory_def\<close>)+
  moreover obtain rs where rs: "for_array (unat n) (\<lambda>_ _. Some Crypto_rsa_public_key_new) (kt_rsa_public_keys m) = Some rs"
    using for_array_total [of "unat n" "kt_rsa_public_keys m" "\<lambda>_ _. Some Crypto_rsa_public_key_new"] m b
    by (auto simp: trustee_memory_def)
  moreover obtain ss where ss: "for_array (unat n) (\<lambda>_ _. Some Crypto_encrypted_key_share_init) (kt_my_key_shares m) = Some ss"
    using for_array_total [of "unat n" "kt_my_key_shares m" "\<lambda>_ _. Some Crypto_encrypted_key_share_init"] m b
    by (auto simp: trustee_memory_def)
  ultimately show ?thesis
    using blk p ks v m i u for_array_length [OF ks] for_array_length [OF rs] for_array_length [OF ss]
    by (simp add: KeyCeremony_Trustee_new_def KeyExchange.trustee_ok_def trustee_memory_def)
qed

lemma initialize_trustees:
  assumes E: "platform_mem E" and v: "valid_params n t" and m: "\<forall>i < unat n. trustee_memory (fresh i)"
    and config: "cfg_num_trustees config = n" "cfg_threshold config = t"
    and s: "cr_coordinator s = Live c" "unat n \<le> length (cr_trustees s)"
  shows "\<exists>T. create_initialize_trustees E fresh config s = Some (True, seats (unat n) T (drop (unat n) (cr_trustees s)) c) \<and>
    (\<forall>i < unat n. KeyExchange.trustee_ok (T i) \<and> kt_num_trustees (T i) = n \<and> kt_threshold (T i) = t \<and>
      kt_index (T i) = word_of_nat i)"
proof -
  have "\<forall>i. \<exists>d. i < unat n \<longrightarrow> KeyCeremony_Trustee_new E (fresh i) n t (word_of_nat i) = Some (KEYCEREMONY_TRUSTEE_SUCCESS, Some d) \<and>
      KeyExchange.trustee_ok d \<and> kt_num_trustees d = n \<and> kt_threshold d = t \<and> kt_index d = word_of_nat i"
    using new_trustee [OF E v] m by blast
  from choice [OF this] obtain T where T: "\<forall>i. i < unat n \<longrightarrow> KeyCeremony_Trustee_new E (fresh i) n t (word_of_nat i) =
        Some (KEYCEREMONY_TRUSTEE_SUCCESS, Some (T i)) \<and>
      KeyExchange.trustee_ok (T i) \<and> kt_num_trustees (T i) = n \<and> kt_threshold (T i) = t \<and> kt_index (T i) = word_of_nat i"
    by blast
  let ?ts = "\<lambda>k. map (\<lambda>i. Live (T i)) [0..<k] @ drop k (cr_trustees s)"
  have upd: "(?ts k)[k := Live (T k)] = ?ts (Suc k)" if "k < length (cr_trustees s)" for k
    using that by (simp add: list_update_append Cons_nth_drop_Suc [symmetric])
  have "loop k (\<lambda>i (ok, s).
       if \<not> ok then Some (ok, s)
       else do {
         (status, t) \<leftarrow> KeyCeremony_Trustee_new E (fresh i) n t (word_of_nat i);
         if status \<noteq> KEYCEREMONY_TRUSTEE_SUCCESS then Some (False, s)
         else do {
           t \<leftarrow> t;
           ts \<leftarrow> arr_set (cr_trustees s) i (Live t);
           Some (ok, s\<lparr>cr_trustees := ts\<rparr>) } }) (True, s) = Some (True, s\<lparr>cr_trustees := ?ts k\<rparr>)" if "k \<le> unat n" for k
    using that by (induction k) (use T upd s(2) in \<open>simp_all add: Suc_le_eq\<close>)
  from this [of "unat n"] have "create_initialize_trustees E fresh config s = Some (True, seats (unat n) T (drop (unat n) (cr_trustees s)) c)"
    unfolding create_initialize_trustees_def config using s(1) by (simp add: seats_def)
  with T show ?thesis by blast
qed

section \<open>The phases\<close>

text \<open>
  What the random devices must deliver for a run that succeeds: the key pairs \<open>kp\<close> and the RSA keys, of which
  the numbers have the width of their fields, and of which the RSA keys decrypt the shares encrypted for them.
\<close>

definition secrets_of :: "u32 \<Rightarrow> (nat \<Rightarrow> gen_keypair_r) \<Rightarrow> private_key list" where
  "secrets_of n kp = map (\<lambda>i. keypair_private (kp i)) [0..<unat n]"

definition rsa_share_ok :: "env \<Rightarrow> int \<Rightarrow> rsa_private_key \<Rightarrow> rsa_public_key \<Rightarrow> bool" where
  "rsa_share_ok E v rsk rpk \<longleftrightarrow> fits 12 (RSA_Encrypt E v rpk) \<and> RSA_Decrypt E (RSA_Encrypt E v rpk) rsk = v"

definition keys_made ::
    "env \<Rightarrow> params \<Rightarrow> (nat \<Rightarrow> random_source option) \<Rightarrow> (nat \<Rightarrow> random_source option) \<Rightarrow> api_config \<Rightarrow>
     (nat \<Rightarrow> gen_keypair_r) \<Rightarrow> (nat \<Rightarrow> rsa_private_key) \<Rightarrow> (nat \<Rightarrow> rsa_public_key) \<Rightarrow> bool" where
  "keys_made E G key_dev rsa_dev config kp rsk rpk \<longleftrightarrow>
     (let n = cfg_num_trustees config; t = cfg_threshold config in
      \<forall>i < unat n.
        Crypto_gen_keypair E G (key_dev i) t (create_base_hash_code config) = Some (kp i) \<and>
        keypair_status (kp i) = CRYPTO_SUCCESS \<and> generate_keys E (rsa_dev i) = Some (rsk i, rpk i) \<and>
        public_key_ok G (keypair_public (kp i)) \<and> private_key_ok (keypair_private (kp i)) \<and>
        rsa_public_key_ok (rpk i) \<and> rsa_private_key_ok (rsk i) \<and>
        (\<forall>k < unat n. rsa_share_ok E (share_value G (secrets_of n kp) (unat t) (word_of_nat i) k) (rsk i) (rpk i)))"

lemma keys_madeD:
  assumes "platform_mem E" "group_ok G" "keys_made E G key_dev rsa_dev config kp rsk rpk" "i < unat (cfg_num_trustees config)"
  shows "sendable G (cfg_threshold config) (keypair_public (kp i))"
    "key_matches E G (secrets_of (cfg_num_trustees config) kp ! i) (keypair_public (kp i))"
    "priv_threshold (keypair_private (kp i)) = cfg_threshold config"
    "secrets_of (cfg_num_trustees config) kp ! i = keypair_private (kp i)"
proof -
  have g: "Crypto_gen_keypair E G (key_dev i) (cfg_threshold config) (create_base_hash_code config) = Some (kp i)"
    "keypair_status (kp i) = CRYPTO_SUCCESS" "public_key_ok G (keypair_public (kp i))"
    using assms(3,4) by (simp_all add: keys_made_def Let_def)
  show s: "secrets_of (cfg_num_trustees config) kp ! i = keypair_private (kp i)"
    using assms(4) by (simp add: secrets_of_def)
  note p = platform.gen_keypair_proof [OF platform_mem.axioms(1) [OF assms(1)] assms(2) g(1,2), of "[]"]
  then have "pub_threshold (keypair_public (kp i)) = cfg_threshold config"
    unfolding key_matches_def by metis
  with p g(3) show "sendable G (cfg_threshold config) (keypair_public (kp i))"
    "key_matches E G (secrets_of (cfg_num_trustees config) kp ! i) (keypair_public (kp i))"
    "priv_threshold (keypair_private (kp i)) = cfg_threshold config"
    by (simp_all add: s sendable_def)
qed

lemma keys_run:
  assumes E: "platform_mem E" and G: "group_ok G" and made: "keys_made E G key_dev rsa_dev config kp rsk rpk"
    and config: "cfg_num_trustees config = n" "cfg_threshold config = t"
    and T: "\<forall>i < unat n. KeyExchange.trustee_ok (T i) \<and> kt_num_trustees (T i) = n \<and> kt_threshold (T i) = t \<and>
      kt_index (T i) = word_of_nat i"
    and c: "leads n t c" "heard_by c = {}"
  shows "\<exists>T' c'. create_generate_keys E G key_dev rsa_dev config (seats (unat n) T rest c) = Some (True, seats (unat n) T' rest c') \<and>
    leads n t c' \<and> heard_by c' = {..<unat n} \<and>
    (\<forall>i < unat n. same_key (kc_public_keys c' ! i) (keypair_public (kp i)) \<and> kc_rsa_public_keys c' ! i = rpk i) \<and>
    (\<forall>i < unat n. has_key n t (word_of_nat i) (keypair_private (kp i)) (rsk i) (T' i) \<and>
      same_key (kt_public_keys (T' i) ! i) (keypair_public (kp i)))"
proof -
  let ?h = "create_base_hash_code config"
  let ?msg = "\<lambda>i k. bytes_message (enc_key_generated
         \<lparr>kg_trustee_index = word_of_nat i, kg_public_key = k, kg_rsa_public_key = rpk i\<rparr>)"
  let ?ok = "\<lambda>i k d'. KeyCeremony_Trustee_generate_key E G (key_dev i) (rsa_dev i) ?h (T i) =
      Some (KEYCEREMONY_TRUSTEE_SUCCESS, Some (?msg i k), d') \<and>
    sendable G t k \<and> same_key k (keypair_public (kp i)) \<and> Crypto_check_keypair_proof E G k [] = Some True \<and>
    has_key n t (word_of_nat i) (keypair_private (kp i)) (rsk i) d' \<and> same_key (kt_public_keys d' ! i) (keypair_public (kp i))"
  have n: "unat n \<le> MAX_TRUSTEES" using coordinator_okD(1) [of c] c(1) by (auto simp: leads_def)
  have one: "\<exists>k d'. ?ok i k d'" if i: "i < unat n" for i
  proof -
    have d: "KeyExchange.trustee_ok (T i)" "kt_num_trustees (T i) = n" "kt_threshold (T i) = t" "kt_index (T i) = word_of_nat i"
      using T i by blast+
    have u: "unat (word_of_nat i :: u32) = i" using i n by (intro index_unat) simp_all
    have m: "Crypto_gen_keypair E G (key_dev i) (kt_threshold (T i)) ?h = Some (kp i)" "keypair_status (kp i) = CRYPTO_SUCCESS"
      "generate_keys E (rsa_dev i) = Some (rsk i, rpk i)" "rsa_public_key_ok (rpk i)" "public_key_ok G (keypair_public (kp i))"
      using made i by (simp_all add: keys_made_def config d(3) Let_def)
    show ?thesis
      using generate_key_sends [OF E G d(1) m] keys_madeD(3) [OF E G made] i
      by (auto simp: d(2-4) u has_key_def config)
  qed
  have "\<forall>i. \<exists>x. i < unat n \<longrightarrow> ?ok i (fst x) (snd x)" using one by fastforce
  from choice [OF this] obtain X where X: "\<forall>i. i < unat n \<longrightarrow> ?ok i (fst (X i)) (snd (X i))" by blast
  obtain c' where c': "receive_all (KeyCeremony_Coordinator_receive_key_generated E G) KEYCEREMONY_COORDINATOR_SUCCESS
      (map (\<lambda>i. ?msg i (fst (X i))) [0..<unat n]) c = Some c'"
    "leads n t c'" "heard_by c' = {..<unat n}"
    "\<forall>i < unat n. same_key (kc_public_keys c' ! i) (keypair_public (kp i)) \<and> kc_rsa_public_keys c' ! i = rpk i"
    using receive_keys [OF E c, of G "\<lambda>i. fst (X i)" "\<lambda>i. keypair_public (kp i)" rpk] X made
    by (auto simp: keys_made_def config Let_def)
  have "create_generate_keys E G key_dev rsa_dev config (seats (unat n) T rest c) = Some (True, seats (unat n) (\<lambda>i. snd (X i)) rest c')"
    unfolding create_generate_keys_def config
    by (rule ceremony_loop [where M = "\<lambda>i. ?msg i (fst (X i))"]) (use X c'(1) in auto)
  with c' X show ?thesis by blast
qed

abbreviation row_of :: "env \<Rightarrow> params \<Rightarrow> (nat \<Rightarrow> gen_keypair_r) \<Rightarrow> u32 \<Rightarrow> u32 \<Rightarrow> (nat \<Rightarrow> rsa_public_key) \<Rightarrow> nat \<Rightarrow> encrypted_key_share list" where
  "row_of E G kp n t rpk i \<equiv> shares_for E G (keypair_private (kp i)) t (unat n) rpk"

lemma row_share:
  assumes "j < unat n" "i < unat n" "unat n \<le> MAX_TRUSTEES"
  shows "row_of E G kp n t rpk i ! j = RSA_Encrypt E (share_value G (secrets_of n kp) (unat t) (word_of_nat j) i) (rpk j)"
  using assms index_unat [OF assms(1,3)] by (simp add: shares_for_def share_value_def secrets_of_def nth_append)

lemma keys_made_share:
  assumes "keys_made E G key_dev rsa_dev config kp rsk rpk" "cfg_num_trustees config = n" "cfg_threshold config = t"
    "i < unat n" "k < unat n"
  shows "rsa_share_ok E (share_value G (secrets_of n kp) (unat t) (word_of_nat i) k) (rsk i) (rpk i)"
  using assms by (simp add: keys_made_def Let_def)

lemma row_ok:
  assumes "keys_made E G key_dev rsa_dev config kp rsk rpk" "cfg_num_trustees config = n" "cfg_threshold config = t"
    "i < unat n" "unat n \<le> MAX_TRUSTEES"
  shows "shares_ok (unat n) (row_of E G kp n t rpk i)"
proof -
  have "length (row_of E G kp n t rpk i) = MAX_TRUSTEES" using assms(5) by (simp add: shares_for_def)
  moreover from this have "\<forall>s \<in> set (take (unat n) (row_of E G kp n t rpk i)). fits 12 s"
    using keys_made_share [OF assms(1-3) _ assms(4)] row_share [OF _ assms(4,5), of _ E G kp t rpk] assms(5)
    by (auto simp: in_set_conv_nth rsa_share_ok_def)
  ultimately show ?thesis using assms(5) by (simp add: shares_ok_def)
qed

lemma shares_run:
  assumes E: "platform_mem E" and G: "group_ok G" and made: "keys_made E G key_dev rsa_dev config kp rsk rpk"
    and config: "cfg_num_trustees config = n" "cfg_threshold config = t"
    and T: "\<forall>i < unat n. has_key n t (word_of_nat i) (keypair_private (kp i)) (rsk i) (T i) \<and>
      same_key (kt_public_keys (T i) ! i) (keypair_public (kp i))"
    and c: "leads n t c" "heard_by c = {}" and a: "keys_told G n t (\<lambda>i. keypair_public (kp i)) rpk a"
  shows "\<exists>T' c'. create_generate_shares E G config (bytes_message (enc_all_keys_received a)) (seats (unat n) T rest c) =
      Some (True, seats (unat n) T' rest c') \<and>
    leads n t c' \<and> heard_by c' = {..<unat n} \<and> kc_public_keys c' = kc_public_keys c \<and>
    stores_rows (unat n) (unat n) (row_of E G kp n t rpk) c' \<and>
    (\<forall>i < unat n. has_key n t (word_of_nat i) (keypair_private (kp i)) (rsk i) (T' i) \<and>
      (\<forall>j < unat n. same_key (kt_public_keys (T' i) ! j) (keypair_public (kp j))))"
proof -
  let ?K = "\<lambda>i. keypair_public (kp i)"
  let ?msg = "\<lambda>i. bytes_message (enc_shares_generated
         \<lparr>sg_trustee_index = word_of_nat i, sg_num_trustees = n, sg_shares = row_of E G kp n t rpk i\<rparr>)"
  let ?ok = "\<lambda>i d'. KeyCeremony_Trustee_generate_shares E G (bytes_message (enc_all_keys_received a)) (T i) =
      Some (KEYCEREMONY_TRUSTEE_SUCCESS, Some (?msg i), d') \<and>
    has_key n t (word_of_nat i) (keypair_private (kp i)) (rsk i) d' \<and> (\<forall>j < unat n. same_key (kt_public_keys d' ! j) (?K j))"
  have n: "unat n \<le> MAX_TRUSTEES" using coordinator_okD(1) [of c] c(1) by (auto simp: leads_def)
  have "\<exists>d'. ?ok i d'" if i: "i < unat n" for i
  proof -
    have u: "unat (word_of_nat i :: u32) = i" using i n by (intro index_unat) simp_all
    have d: "has_key n t (word_of_nat i) (keypair_private (kp i)) (rsk i) (T i)" using T i by blast
    have own: "same_key (kt_public_keys (T i) ! unat (word_of_nat i :: u32)) (?K (unat (word_of_nat i :: u32)))"
      using T i by (simp only: u)
    show ?thesis by (rule generate_shares_sends [OF E G d own a row_ok [OF made config i n]])
  qed
  then have "\<forall>i. \<exists>d'. i < unat n \<longrightarrow> ?ok i d'" by blast
  from choice [OF this] obtain T' where T': "\<forall>i. i < unat n \<longrightarrow> ?ok i (T' i)" by blast
  obtain c' where c': "receive_all (KeyCeremony_Coordinator_receive_shares_generated E) KEYCEREMONY_COORDINATOR_SUCCESS
      (map ?msg [0..<unat n]) c = Some c'"
    "leads n t c'" "heard_by c' = {..<unat n}" "stores_rows (unat n) (unat n) (row_of E G kp n t rpk) c'"
    "kc_public_keys c' = kc_public_keys c"
    using receive_rows [OF E c, of "row_of E G kp n t rpk"] row_ok [OF made config _ n] by blast
  have "create_generate_shares E G config (bytes_message (enc_all_keys_received a)) (seats (unat n) T rest c) =
      Some (True, seats (unat n) T' rest c')"
    unfolding create_generate_shares_def config by (rule ceremony_loop [where M = ?msg]) (use T' c'(1) in auto)
  with c' T' show ?thesis by blast
qed

lemma verdicts_run:
  assumes E: "platform_mem E" and G: "group_ok G" and made: "keys_made E G key_dev rsa_dev config kp rsk rpk"
    and config: "cfg_num_trustees config = n" "cfg_threshold config = t"
    and T: "\<forall>i < unat n. has_key n t (word_of_nat i) (keypair_private (kp i)) (rsk i) (T i) \<and>
      (\<forall>j < unat n. same_key (kt_public_keys (T i) ! j) (keypair_public (kp j)))"
    and c: "leads n t c" "heard_by c = {}" and x: "shares_table (unat n) (row_of E G kp n t rpk) x"
  shows "\<exists>T' c'. create_verify_shares E G config (bytes_message (enc_all_shares_received x)) (seats (unat n) T rest c) =
      Some (True, seats (unat n) T' rest c') \<and>
    leads n t c' \<and> heard_by c' = {..<unat n} \<and> kc_public_keys c' = kc_public_keys c \<and>
    (\<forall>i < unat n. has_key n t (word_of_nat i) (keypair_private (kp i)) (rsk i) (T' i) \<and>
      (\<forall>k < unat n. kt_my_key_shares (T' i) ! k =
         RSA_Encrypt E (share_value G (secrets_of n kp) (unat t) (word_of_nat i) k) (rpk i)))"
proof -
  let ?v = "\<lambda>i k. share_value G (secrets_of n kp) (unat t) (word_of_nat i) k"
  let ?ok = "\<lambda>i d'. KeyCeremony_Trustee_verify_shares E G (bytes_message (enc_all_shares_received x)) (T i) =
      Some (KEYCEREMONY_TRUSTEE_SUCCESS, Some (verdict (word_of_nat i) True), d') \<and>
    has_key n t (word_of_nat i) (keypair_private (kp i)) (rsk i) d' \<and>
    (\<forall>k < unat n. kt_my_key_shares d' ! k = RSA_Encrypt E (?v i k) (rpk i))"
  have n: "unat n \<le> MAX_TRUSTEES" using coordinator_okD(1) [of c] c(1) by (auto simp: leads_def)
  have x': "shares_table (unat n) (\<lambda>k. shares_for E G (secrets_of n kp ! k) t (unat n) rpk) x"
    using x by (simp add: shares_table_def secrets_of_def)
  have k: "\<forall>j < unat n. key_matches E G (secrets_of n kp ! j) (keypair_public (kp j)) \<and> pub_threshold (keypair_public (kp j)) = t"
    using keys_madeD(1,2) [OF E G made] config by (auto simp: sendable_def)
  have "\<exists>d'. ?ok i d'" if i: "i < unat n" for i
  proof -
    have u: "unat (word_of_nat i :: u32) = i" using i n by (intro index_unat) simp_all
    have d: "has_key n t (word_of_nat i) (keypair_private (kp i)) (rsk i) (T i)"
      "\<forall>j < unat n. same_key (kt_public_keys (T i) ! j) (keypair_public (kp j))" using T i by blast+
    have dec: "\<forall>k < unat n. RSA_Decrypt E (RSA_Encrypt E (?v i k) (rpk (unat (word_of_nat i :: u32)))) (rsk i) = ?v i k"
      using keys_made_share [OF made config i] by (simp add: u rsa_share_ok_def)
    show ?thesis
      using verify_shares_sends [OF E G d(1) k d(2) x' dec] by (simp add: verdict_def u)
  qed
  then have "\<forall>i. \<exists>d'. i < unat n \<longrightarrow> ?ok i d'" by blast
  from choice [OF this] obtain T' where T': "\<forall>i. i < unat n \<longrightarrow> ?ok i (T' i)" by blast
  obtain c' where c': "receive_all KeyCeremony_Coordinator_receive_shares_verified KEYCEREMONY_COORDINATOR_SUCCESS
      (map (\<lambda>i. verdict (word_of_nat i) True) [0..<unat n]) c = Some c'"
    "leads n t c'" "heard_by c' = {..<unat n}" "kc_public_keys c' = kc_public_keys c"
    using receive_verdicts [OF c] by blast
  have "create_verify_shares E G config (bytes_message (enc_all_shares_received x)) (seats (unat n) T rest c) =
      Some (True, seats (unat n) T' rest c')"
    unfolding create_verify_shares_def config
    by (rule ceremony_loop [where M = "\<lambda>i. verdict (word_of_nat i) True"]) (use T' c'(1) in auto)
  with c' T' show ?thesis by blast
qed

text \<open>
  What a trustee exports is good for the decryption: \<open>holds_state\<close> is what the call that tallies needs of the
  states it is given.
\<close>

lemma exported_state:
  assumes E: "platform_mem E" and made: "keys_made E G key_dev rsa_dev config kp rsk rpk"
    and config: "cfg_num_trustees config = n" "cfg_threshold config = t" and v: "valid_params n t" and i: "i < unat n"
    and d: "has_key n t (word_of_nat i) (keypair_private (kp i)) (rsk i) d"
    and sh: "\<forall>k < unat n. kt_my_key_shares d ! k =
         RSA_Encrypt E (share_value G (secrets_of n kp) (unat t) (word_of_nat i) k) (rpk i)"
  shows "\<exists>rep. KeyCeremony_Trustee_export_state E d = Some (KEYCEREMONY_TRUSTEE_SUCCESS,
      Some (bytes_message (enc_trustee_state (unat n) rep))) \<and>
    ts_index rep = word_of_nat i \<and> (\<forall>S. holds_state E G (secrets_of n kp) n t S rep)"
proof -
  note b = has_keyD [OF d]
  have u: "unat (word_of_nat i :: u32) = i" using i b(1) by (intro index_unat) simp_all
  have "\<forall>s \<in> set (take (unat n) (kt_my_key_shares d)). fits 12 s"
    using keys_made_share [OF made config i] sh b(1,8) by (auto simp: in_set_conv_nth rsa_share_ok_def)
  then have "shares_ok (unat n) (kt_my_key_shares d)" using b(1,8) by (simp add: shares_ok_def)
  moreover have "private_key_ok (keypair_private (kp i))" "rsa_private_key_ok (rsk i)"
    using made i by (simp_all add: keys_made_def config Let_def)
  ultimately obtain rep where r: "KeyCeremony_Trustee_export_state E d = Some (KEYCEREMONY_TRUSTEE_SUCCESS,
      Some (bytes_message (enc_trustee_state (unat n) rep)))" "trustee_state_ok (unat n) G rep" "ts_index rep = word_of_nat i"
    "same_private (ts_private_key rep) (keypair_private (kp i))" "ts_rsa_private_key rep = rsk i"
    "\<forall>k < unat n. ts_my_key_shares rep ! k = kt_my_key_shares d ! k"
    using export_state_sends [OF E d, of G] by blast
  have "0 < unat t" using v by (simp add: valid_params_def word_le_nat_alt)
  then have "priv_threshold (ts_private_key rep) = t"
    "coefficients (ts_private_key rep) ! 0 = secret_of (secrets_of n kp) (ts_index rep)"
    using r(3,4) d i by (simp_all add: same_private_def has_key_def secret_of_def u secrets_of_def)
  moreover have "RSA_Decrypt E (ts_my_key_shares rep ! k) (ts_rsa_private_key rep) =
      share_value G (secrets_of n kp) (unat t) (ts_index rep) k" if "k < unat n" for k
    using that keys_made_share [OF made config i that] r(3,5,6) sh by (simp add: rsa_share_ok_def)
  ultimately show ?thesis using r(1-3) by (auto simp: holds_state_def)
qed

lemma export_run:
  assumes "cfg_num_trustees config = n" "unat n \<le> length states"
    and "\<forall>i < unat n. KeyCeremony_Trustee_export_state E (T i) = Some (KEYCEREMONY_TRUSTEE_SUCCESS, Some (M i))"
  shows "create_export_trustee_states E config (seats (unat n) T rest c) states =
    Some (True, map M [0..<unat n] @ drop (unat n) states)"
proof -
  have "loop k (\<lambda>i (ok, states).
       if \<not> ok then Some (ok, states)
       else do {
         p \<leftarrow> arr_get (cr_trustees (seats (unat n) T rest c)) i;
         t \<leftarrow> pointee p;
         (status, out) \<leftarrow> KeyCeremony_Trustee_export_state E t;
         if status \<noteq> KEYCEREMONY_TRUSTEE_SUCCESS then Some (False, states)
         else do { m \<leftarrow> out; states \<leftarrow> arr_set states i m; Some (ok, states) } }) (True, states) =
    Some (True, map M [0..<k] @ drop k states)" if "k \<le> unat n" for k
    using that
  proof (induction k)
    case (Suc k)
    then have "drop k states = states ! k # drop (Suc k) states" using assms(2) by (simp add: Cons_nth_drop_Suc)
    then show ?case using Suc assms(2,3) by (simp add: seats_def nth_append list_update_append)
  qed simp
  then show ?thesis unfolding create_export_trustee_states_def assms(1) by simp
qed

lemma cleanup_run:
  assumes "cfg_num_trustees config = n"
  shows "create_cleanup config (seats (unat n) T rest c) =
    Some \<lparr>cr_coordinator = Dangling, cr_trustees = replicate (unat n) Dangling @ rest\<rparr>"
proof -
  have "for_array (unat n) (\<lambda>_. free_pointer) (map (\<lambda>i. Live (T i)) [0..<unat n] @ rest) =
      Some (map (\<lambda>_. Dangling) [0..<unat n] @ drop (unat n) (map (\<lambda>i. Live (T i)) [0..<unat n] @ rest))"
    by (rule for_array_ok) (simp_all add: nth_append)
  then show ?thesis by (simp add: create_cleanup_def seats_def assms map_replicate_const)
qed

section \<open>The whole call\<close>

lemma create_election_run:
  assumes E: "platform_mem E" and G: "group_ok G" and v: "valid_params n t"
    and config: "cfg_num_trustees config = n" "cfg_threshold config = t"
    and made: "keys_made E G key_dev rsa_dev config kp rsk rpk"
    and m: "\<forall>i < unat n. trustee_memory (fresh i)" and s: "length (cr_trustees s) = MAX_TRUSTEES"
    and states: "unat n \<le> length states"
  defines "key \<equiv> pow_mod_p E G (generator G) (\<Sum>i < unat n. coefficients (secrets_of n kp ! i) ! 0)"
  assumes f: "fits 64 key"
  shows "\<exists>reps. API_CreateElection E G fresh key_dev rsa_dev config states s =
    Some (True, config\<lparr>cfg_joint_key := bytes_message (enc_joint_public_key \<lparr>joint_num_trustees = n, joint_key = key\<rparr>)\<rparr>,
      map (\<lambda>i. bytes_message (enc_trustee_state (unat n) (reps i))) [0..<unat n] @ drop (unat n) states,
      \<lparr>cr_coordinator = Dangling, cr_trustees = replicate (unat n) Dangling @ drop (unat n) (cr_trustees s)\<rparr>) \<and>
    (\<forall>i < unat n. ts_index (reps i) = word_of_nat i \<and> (\<forall>S. holds_state E G (secrets_of n kp) n t S (reps i)))"
proof -
  let ?N = "unat n" and ?K = "\<lambda>i. keypair_public (kp i)" and ?rest = "drop (unat n) (cr_trustees s)"
  have n: "?N \<le> MAX_TRUSTEES" using v by (simp add: valid_params_def)
  obtain blk where blk: "malloc E 1936 = Some blk" using platform_mem.malloc_ok [OF E] by blast
  obtain c0 where new: "KeyCeremony_Coordinator_new E n t = Some (KEYCEREMONY_COORDINATOR_SUCCESS, Some c0)"
    using new_total [OF blk v] by blast
  have c0: "leads n t c0" "heard_by c0 = {}" using KeyCeremonyCoordinator.new_ok [OF new] by (simp_all add: leads_def)
  obtain T0 where T0: "create_initialize_trustees E fresh config (s\<lparr>cr_coordinator := Live c0\<rparr>) =
      Some (True, seats ?N T0 ?rest c0)"
    "\<forall>i < ?N. KeyExchange.trustee_ok (T0 i) \<and> kt_num_trustees (T0 i) = n \<and> kt_threshold (T0 i) = t \<and> kt_index (T0 i) = word_of_nat i"
    using initialize_trustees [OF E v m config, of "s\<lparr>cr_coordinator := Live c0\<rparr>" c0] s n by auto
  obtain T1 c1 where 1: "create_generate_keys E G key_dev rsa_dev config (seats ?N T0 ?rest c0) = Some (True, seats ?N T1 ?rest c1)"
    "leads n t c1" "heard_by c1 = {..<?N}"
    "\<forall>i < ?N. same_key (kc_public_keys c1 ! i) (?K i) \<and> kc_rsa_public_keys c1 ! i = rpk i"
    "\<forall>i < ?N. has_key n t (word_of_nat i) (keypair_private (kp i)) (rsk i) (T1 i) \<and> same_key (kt_public_keys (T1 i) ! i) (?K i)"
    using keys_run [OF E G made config T0(2) c0] by blast
  have K: "\<forall>i < ?N. sendable G t (?K i) \<and> key_matches E G (secrets_of n kp ! i) (?K i) \<and> rsa_public_key_ok (rpk i)"
    using keys_madeD(1,2) [OF E G made] made config by (auto simp: keys_made_def Let_def)
  obtain a c2 where 2: "KeyCeremony_Coordinator_all_keys_received E c1 = Some (KEYCEREMONY_COORDINATOR_SUCCESS,
      Some (bytes_message (enc_all_keys_received a)), c2)" "keys_told G n t ?K rpk a"
    "leads n t c2" "heard_by c2 = {}" "kc_public_keys c2 = kc_public_keys c1"
    using announce_keys [OF E 1(2,3), of G ?K rpk] 1(4) K by blast
  obtain T3 c3 where 3: "create_generate_shares E G config (bytes_message (enc_all_keys_received a)) (seats ?N T1 ?rest c2) =
      Some (True, seats ?N T3 ?rest c3)"
    "leads n t c3" "heard_by c3 = {..<?N}" "kc_public_keys c3 = kc_public_keys c2" "stores_rows ?N ?N (row_of E G kp n t rpk) c3"
    "\<forall>i < ?N. has_key n t (word_of_nat i) (keypair_private (kp i)) (rsk i) (T3 i) \<and>
      (\<forall>j < ?N. same_key (kt_public_keys (T3 i) ! j) (?K j))"
    using shares_run [OF E G made config 1(5) 2(3,4,2)] by blast
  obtain x c4 where 4: "KeyCeremony_Coordinator_all_shares_received E c3 = Some (KEYCEREMONY_COORDINATOR_SUCCESS,
      Some (bytes_message (enc_all_shares_received x)), c4)" "shares_table ?N (row_of E G kp n t rpk) x"
    "leads n t c4" "heard_by c4 = {}" "kc_public_keys c4 = kc_public_keys c3"
    using announce_shares [OF E 3(2,3,5)] row_ok [OF made config _ n] by blast
  obtain T5 c5 where 5: "create_verify_shares E G config (bytes_message (enc_all_shares_received x)) (seats ?N T3 ?rest c4) =
      Some (True, seats ?N T5 ?rest c5)"
    "leads n t c5" "heard_by c5 = {..<?N}" "kc_public_keys c5 = kc_public_keys c4"
    "\<forall>i < ?N. has_key n t (word_of_nat i) (keypair_private (kp i)) (rsk i) (T5 i) \<and>
      (\<forall>k < ?N. kt_my_key_shares (T5 i) ! k = RSA_Encrypt E (share_value G (secrets_of n kp) (unat t) (word_of_nat i) k) (rpk i))"
    using verdicts_run [OF E G made config 3(6) 4(3,4,2)] by blast
  have "\<forall>i < ?N. same_key (kc_public_keys c5 ! i) (?K i) \<and> key_matches E G (secrets_of n kp ! i) (?K i) \<and> pub_threshold (?K i) = t"
    using 1(4) K by (simp add: 5(4) 4(5) 3(4) 2(5) sendable_def)
  note joint = publish_sum [OF E G 5(2,3) this f [unfolded key_def], folded key_def]
  have "\<forall>i. \<exists>rep. i < ?N \<longrightarrow> KeyCeremony_Trustee_export_state E (T5 i) = Some (KEYCEREMONY_TRUSTEE_SUCCESS,
      Some (bytes_message (enc_trustee_state ?N rep))) \<and> ts_index rep = word_of_nat i \<and>
      (\<forall>S. holds_state E G (secrets_of n kp) n t S rep)"
    using exported_state [OF E made config v] 5(5) by blast
  from choice [OF this] obtain reps where reps: "\<forall>i. i < ?N \<longrightarrow> KeyCeremony_Trustee_export_state E (T5 i) =
      Some (KEYCEREMONY_TRUSTEE_SUCCESS, Some (bytes_message (enc_trustee_state ?N (reps i)))) \<and> ts_index (reps i) = word_of_nat i \<and>
      (\<forall>S. holds_state E G (secrets_of n kp) n t S (reps i))" by blast
  let ?key = "bytes_message (enc_joint_public_key \<lparr>joint_num_trustees = n, joint_key = key\<rparr>)"
  have config': "cfg_num_trustees (config\<lparr>cfg_joint_key := k\<rparr>) = n" for k using config by simp
  have init: "create_initialize_coordinator E config s = Some (True, s\<lparr>cr_coordinator := Live c0\<rparr>)"
    using new config by (simp add: create_initialize_coordinator_def)
  have keys: "create_receive_keys E (seats ?N T1 ?rest c1) = Some (bytes_message (enc_all_keys_received a), seats ?N T1 ?rest c2)"
    using 2(1) by (simp add: create_receive_keys_def ceremony_message_def seats_def)
  have shares: "create_receive_shares E (seats ?N T3 ?rest c3) = Some (bytes_message (enc_all_shares_received x), seats ?N T3 ?rest c4)"
    using 4(1) by (simp add: create_receive_shares_def ceremony_message_def seats_def)
  have publish: "create_publish_joint_key E G (seats ?N T5 ?rest c5) = Some ?key"
    using joint by (simp add: create_publish_joint_key_def seats_def)
  have export: "create_export_trustee_states E (config\<lparr>cfg_joint_key := ?key\<rparr>) (seats ?N T5 ?rest c5) states =
      Some (True, map (\<lambda>i. bytes_message (enc_trustee_state ?N (reps i))) [0..<?N] @ drop ?N states)"
    using reps by (intro export_run [OF config' states]) blast
  have bytes: "msg_bytes (bytes_message bs) \<noteq> None" for bs by (simp add: bytes_message_def)
  show ?thesis
    by (intro exI [of _ reps])
      (simp add: API_CreateElection_def init T0(1) 1(1) keys 3(1) shares 5(1) publish export cleanup_run [OF config'] bytes reps Let_def)
qed

end
