(* ===== verification/KeyMaterial.thy ===== *)
theory KeyMaterial
  imports KeyExample WideGroup
begin

text \<open>
  Key material for a ceremony of which every number has the width of its field and of which the RSA keys
  decrypt what is encrypted for them. The environment answers the search for primes with two numbers that
  are no primes but between which the share \<open>2 ^ 255\<close> has a small order.
\<close>

section \<open>The RSA keys\<close>

definition key_p :: int where
  "key_p = 193 * (2 ^ 2040 + 1)"

definition key_q :: int where
  "key_q = 2 ^ 2048 - 256"

definition key_env :: env where
  "key_env = sample_env\<lparr>mpz_nextprime :=
     \<lambda>a. if a = full_rsa_p - 1 then key_p else if a < key_q then key_q else a + 1\<rparr>"

lemma key_candidate: "rsa_candidate key_env b = rsa_candidate sample_env b"
  by (simp add: rsa_candidate_def key_env_def)

lemma rsa_starts:
  "full_rsa_p = 0xC0 * 2 ^ 2040 + 2" "full_rsa_q - 1 < 0xC2 * 2 ^ 2040" "full_rsa_q - 1 \<noteq> full_rsa_p - 1"
proof -
  have w: "wval (0xC0 # replicate 254 0 @ [1 :: u8]) = 0xC0 * 2 ^ 2040 + 1"
    "wval (0xC1 # replicate 255 (1 :: u8)) = 0xC1 * 2 ^ 2040 + wval (replicate 255 (1 :: u8))"
    by (simp_all only: wval.simps length_append length_replicate list.size) simp_all
  have "wval (replicate 255 (1 :: u8)) < 2 ^ 2040" using wval_less [of "replicate 255 (1 :: u8)"] by simp
  then show "full_rsa_p = 0xC0 * 2 ^ 2040 + 2" "full_rsa_q - 1 < 0xC2 * 2 ^ 2040"
    unfolding full_rsa_p_def full_rsa_q_def w by linarith+
  show "full_rsa_q - 1 \<noteq> full_rsa_p - 1" using full_rsa_bounds(5) by simp
qed

lemma power_2048: "(2 :: int) ^ 2048 = 256 * 2 ^ 2040" "(256 :: int) \<le> 2 ^ 2040"
proof -
  have "(2 :: int) ^ 2048 = 2 ^ (8 + 2040)" by simp
  then show "(2 :: int) ^ 2048 = 256 * 2 ^ 2040" by (simp only: power_add) simp
  have "(2 :: int) ^ 8 \<le> 2 ^ 2040" by (rule power_increasing) simp_all
  then show "(256 :: int) \<le> 2 ^ 2040" by simp
qed

lemma key_bounds: "full_rsa_p - 1 < key_p" "full_rsa_q - 1 < key_q" "key_p < key_q" "key_q < 2 ^ 2048"
  "2 ^ 2047 < key_p"
proof -
  have "(2 :: int) ^ 2047 = 2 ^ (7 + 2040)" by simp
  then have "(2 :: int) ^ 2047 = 128 * 2 ^ 2040" by (simp only: power_add) simp
  then show "full_rsa_p - 1 < key_p" "full_rsa_q - 1 < key_q" "key_p < key_q" "key_q < 2 ^ 2048" "2 ^ 2047 < key_p"
    using rsa_starts(1,2) power_2048 unfolding key_p_def key_q_def distrib_left by linarith+
qed

interpretation material: platform_mem key_env
proof
  show "a < mpz_nextprime key_env a" for a
    using key_bounds(1) by (simp add: key_env_def)
qed (auto simp: key_env_def sample_env_def ref_env_def ref_invert_correct wval_ref_export dest: ref_export_hd)

lemma power_even_mod_3: "(2 :: int) ^ (2 * k) mod 3 = 1"
  using power_mod [of "4 :: int" 3 k] by (simp add: power_mult)

lemma mod_3_facts:
  fixes x :: int
  assumes "x mod 3 = 1"
  shows "193 * (x + 1) mod 3 = 2" "(x - 256) mod 3 = 0"
proof -
  obtain k where "x = 3 * k + 1" using assms mult_div_mod_eq [of 3 x] by metis
  then have "193 * (x + 1) = 2 + 3 * (193 * k + 128)" "x - 256 = 3 * (k - 85)" by simp_all
  then show "193 * (x + 1) mod 3 = 2" "(x - 256) mod 3 = 0" by (simp_all only: mod_mult_self2 mod_mult_self1_is_0) simp
qed

lemma key_mod_3: "key_p mod 3 = 2" "key_q mod 3 = 0"
proof -
  have e: "2 * 1020 = (2040 :: nat)" "2 * 1024 = (2048 :: nat)" by simp_all
  show "key_p mod 3 = 2" unfolding key_p_def by (rule mod_3_facts(1) [OF power_even_mod_3 [of 1020, unfolded e]])
  show "key_q mod 3 = 0" unfolding key_q_def by (rule mod_3_facts(2) [OF power_even_mod_3 [of 1024, unfolded e]])
qed

lemma key_uniform: "RandomSource_uniform_bignum_o key_env x s = RandomSource_uniform_bignum_o sample_env x s"
proof -
  have "import_uint4096 key_env = import_uint4096 sample_env" "uint4096_zext key_env = uint4096_zext sample_env"
    by (simp_all add: fun_eq_iff import_uint4096_def uint4096_zext_def key_env_def)
  then show ?thesis by (simp only: RandomSource_uniform_bignum_o_def RandomSource_uniform_def)
qed

lemma key_select_p: "rsa_select_p key_env (replicate 256 0 @ s) 3 = Some (key_p, s)"
proof -
  have "mpz_nextprime key_env (full_rsa_p - 1) = key_p" by (simp add: key_env_def)
  then show ?thesis
    using get_bytes_loop [of 256 "replicate 256 0 @ s" "replicate 256 0"] key_mod_3(1)
    by (simp add: rsa_select_p_def BUFFER_SIZE_def rsa_skip_none material.mpz_mod_pos key_candidate full_candidates)
qed

lemma key_select_q: "rsa_select_q key_env (ones 256) 3 = Some (key_q, [])"
proof -
  have "mpz_nextprime key_env (full_rsa_q - 1) = key_q" using rsa_starts(3) key_bounds(2) by (simp add: key_env_def)
  then have c: "rsa_skip_primes key_env (mpz_nextprime key_env (rsa_candidate key_env (replicate 256 1))) 3 = Some key_q"
    using key_mod_3(2) by (simp add: rsa_skip_none material.mpz_mod_pos key_candidate full_candidates)
  have n: "256 \<le> length (replicate 256 (0 :: u8))" "ones 0 = []" by (simp_all add: ones_def)
  show ?thesis
    unfolding rsa_select_q_def BUFFER_SIZE_def key_uniform uniform_ones_loop [OF order_refl n(1)]
    by (simp only: Option.bind.simps prod.case drop_replicate diff_self_eq_0 replicate_0 append_Nil2 n(2) c)
qed

text \<open>The order the private exponent is inverted for: large, and a multiple of 64.\<close>

definition key_order :: int where
  "key_order = lcm (key_p - 1) (key_q - 1)"

lemma key_gcd: "gcd (key_p - 1) (key_q - 1) \<le> 2 ^ 17"
proof -
  let ?g = "gcd (key_p - 1) (key_q - 1)"
  have "?g dvd 256 * (key_p - 1) - 193 * (key_q - 1)" by (intro dvd_diff dvd_mult gcd_dvd1 gcd_dvd2)
  also have "256 * (key_p - 1) - 193 * (key_q - 1) = 98753"
    unfolding key_p_def key_q_def power_2048(1) by (simp only: distrib_left right_diff_distrib)
  finally have "?g \<le> 98753" by (rule zdvd_imp_le) simp
  then show ?thesis by simp
qed

lemma key_order: "2 ^ 4077 \<le> key_order" "key_order < 2 ^ 4096" "64 dvd key_order" "coprime 3 key_order"
proof -
  let ?g = "gcd (key_p - 1) (key_q - 1)"
  have n: "0 \<le> (2 :: int) ^ 2047" "0 < (2 :: int) ^ 2048" "0 \<le> (2 :: int) ^ 17" by simp_all
  have b: "2 ^ 2047 \<le> key_p - 1" "2 ^ 2047 \<le> key_q - 1" "key_p - 1 < 2 ^ 2048" "key_q - 1 < 2 ^ 2048"
    using key_bounds by linarith+
  have pos: "0 < key_p - 1" "0 < key_q - 1"
  proof -
    have "(1 :: int) < 2 ^ 2047" by (rule one_less_power) simp_all
    with b show "0 < key_p - 1" "0 < key_q - 1" by linarith+
  qed
  have prod: "?g * key_order = (key_p - 1) * (key_q - 1)"
    unfolding key_order_def using pos by (simp only: prod_gcd_lcm_int [symmetric] abs_mult abs_of_pos)
  have o: "0 < key_order" unfolding key_order_def using pos by (intro lcm_pos_int) simp_all
  show "2 ^ 4077 \<le> key_order"
  proof (rule ccontr)
    assume "\<not> 2 ^ 4077 \<le> key_order"
    then have "?g * key_order < 2 ^ 17 * 2 ^ 4077" using key_gcd o pos
      by (intro mult_le_less_imp_less) (linarith, linarith, simp only: gcd_pos_int, simp, linarith)
    moreover have "(2 :: int) ^ 2047 * 2 ^ 2047 \<le> (key_p - 1) * (key_q - 1)" using b n by (intro mult_mono) linarith+
    moreover have "(2 :: int) ^ 17 * 2 ^ 4077 = 2 ^ (17 + 4077)" "(2 :: int) ^ 2047 * 2 ^ 2047 = 2 ^ (2047 + 2047)"
      by (simp_all only: power_add)
    ultimately show False unfolding prod by simp
  qed
  have "key_order \<le> (key_p - 1) * (key_q - 1)"
    using pos by (intro zdvd_imp_le) (simp_all add: key_order_def lcm_least)
  also have "\<dots> < 2 ^ 2048 * 2 ^ 2048" using b pos n by (intro mult_strict_mono) linarith+
  also have "\<dots> = 2 ^ (2048 + 2048)" by (simp only: power_add)
  finally show "key_order < 2 ^ 4096" by simp
  have "(2 :: int) ^ 2040 = 2 ^ (6 + 2034)" by simp
  then have "(2 :: int) ^ 2040 = 64 * 2 ^ 2034" by (simp only: power_add) simp
  moreover have "y = 64 * x \<Longrightarrow> 193 * (y + 1) - 1 = 64 * (193 * x + 3)" for x y :: int by simp
  ultimately have "key_p - 1 = 64 * (193 * 2 ^ 2034 + 3)" unfolding key_p_def by blast
  then have "64 dvd key_p - 1" by (rule dvdI)
  then show "64 dvd key_order" unfolding key_order_def by (rule dvd_lcmI1)
  have "(key_p - 1) mod 3 = 1" "(key_q - 1) mod 3 = 2" using key_mod_3 by presburger+
  then have "((key_p - 1) * (key_q - 1)) mod 3 = 2" using mod_mult_eq [of "key_p - 1" 3 "key_q - 1"] by simp
  then have "gcd ((key_p - 1) * (key_q - 1)) 3 = gcd 3 2" by (simp only: gcd_red_int [of "(key_p - 1) * (key_q - 1)" 3])
  then have "coprime 3 ((key_p - 1) * (key_q - 1))"
    by (simp only: coprime_iff_gcd_eq_1 gcd.commute [of 3 "(key_p - 1) * (key_q - 1)"]) (simp add: gcd_non_0_int)
  then show "coprime 3 key_order"
    by (rule coprime_divisors [OF dvd_refl, rotated]) (simp add: key_order_def lcm_least)
qed

definition key_d :: int where
  "key_d = ref_invert 3 key_order"

lemma ref_invert_range: "1 < m \<Longrightarrow> 0 \<le> ref_invert a m \<and> ref_invert a m < m"
  by (auto simp: ref_invert_def find_Some_iff split: option.split dest!: nth_mem)

lemma key_d: "\<exists>j. 0 < j \<and> 3 * key_d = 1 + 64 * j" "fits 64 key_d"
proof -
  have "(1 :: int) < 2 ^ 4077" by (rule one_less_power) simp_all
  with key_order(1) have o: "1 < key_order" by linarith
  note r = ref_invert_range [OF o, of 3, folded key_d_def]
  have "3 * key_d mod key_order = 1" unfolding key_d_def by (rule ref_invert_correct [OF key_order(4) o])
  then have k: "3 * key_d = 1 + key_order * (3 * key_d div key_order)" using mult_div_mod_eq [of key_order "3 * key_d"] by simp
  have "3 * key_d \<noteq> 1" by presburger
  with k have "3 * key_d div key_order \<noteq> 0" by auto
  moreover have "0 \<le> 3 * key_d div key_order" using r o by (simp add: pos_imp_zdiv_nonneg_iff)
  ultimately have q: "1 \<le> 3 * key_d div key_order" by linarith
  obtain c where c: "key_order = 64 * c" using key_order(3) by blast
  have "0 < c" using c o by linarith
  then show "\<exists>j. 0 < j \<and> 3 * key_d = 1 + 64 * j"
    using k q by (intro exI [of _ "c * (3 * key_d div key_order)"]) (simp add: c)
  have "key_order * 1 \<le> key_order * (3 * key_d div key_order)" using q o by (intro mult_left_mono) simp_all
  then have "2 ^ 4077 \<le> 3 * key_d" using k key_order(1) by linarith
  moreover have "(2 :: int) ^ 4077 = 2 ^ (45 + 4032)" by simp
  moreover have "(2 :: int) ^ (45 + 4032) = 2 ^ 45 * 2 ^ 4032" by (rule power_add)
  moreover have "0 < (2 :: int) ^ 4032" by simp
  ultimately have "2 ^ 4032 \<le> key_d" by simp
  then show "fits 64 key_d" using r key_order(2) by (simp add: fits_def)
qed

definition key_public :: rsa_public_key where
  "key_public = \<lparr>pub_n = key_p * key_q, pub_e = 3\<rparr>"

definition key_private :: rsa_private_key where
  "key_private = \<lparr>rsa_n = key_p * key_q, rsa_e = 3, rsa_d = key_d, rsa_p = key_p, rsa_q = key_q\<rparr>"

lemma key_generated: "generate_keys key_env (Some full_rsa_device) = Some (key_private, key_public)"
proof -
  have "(2 :: int) ^ 2 \<le> 2 ^ 4077" by (rule power_increasing) simp_all
  also note key_order(1)
  finally have o: "3 < key_order" by simp
  have l: "mpz_lcm key_env (key_p - 1) (key_q - 1) = key_order" by (simp only: material.mpz_lcm_eq key_order_def)
  have g: "mpz_gcd key_env 3 key_order = 1"
    using key_order(4) by (simp only: material.mpz_gcd_eq coprime_iff_gcd_eq_1)
  have d: "mpz_invert key_env 3 key_order = key_d" by (simp add: key_d_def key_env_def sample_env_def ref_env_def)
  have "rsa_select_q_loop key_env (ones 256) 3 key_p = Some (key_q, [])"
    using key_bounds(3) by (subst rsa_select_q_loop.simps) (simp add: key_select_q)
  then show ?thesis
    using o key_select_p [of "ones 256"]
    by (simp add: generate_keys_def material.source_new full_rsa_device_def l g d key_private_def key_public_def
        Let_def)
qed

lemma key_public_ok: "rsa_public_key_ok key_public"
  using product_bounds [OF key_bounds(5) _ _ less_imp_le [OF key_bounds(4)]] key_bounds(3-5)
  by (simp add: rsa_public_key_ok_def key_public_def) (simp add: fits_def)

lemma fits_half: "2 ^ 2047 < x \<Longrightarrow> x < 2 ^ 2048 \<Longrightarrow> fits 32 x"
proof -
  assume x: "2 ^ 2047 < x" "x < 2 ^ 2048"
  have "(2 :: int) ^ (64 * (32 - 1)) \<le> 2 ^ 2047" by (rule power_increasing) simp_all
  moreover have "64 * 32 = (2048 :: nat)" by simp
  ultimately have "2 ^ (64 * (32 - 1)) \<le> x" "x < 2 ^ (64 * 32)" using x by (linarith, simp only:)
  then show "fits 32 x" unfolding fits_def by (intro conjI zero_less_numeral)
qed

lemma key_private_ok: "rsa_private_key_ok key_private"
proof -
  have "fits 64 (key_p * key_q)" using key_public_ok by (simp add: rsa_public_key_ok_def key_public_def)
  moreover have "fits 1 3" by (simp add: fits_def)
  moreover have "fits 32 key_p" "fits 32 key_q" using key_bounds by (intro fits_half; linarith)+
  ultimately show ?thesis using key_d(2) by (simp add: rsa_private_key_ok_def key_private_def)
qed

section \<open>The share\<close>

lemma minus_one_dvd_power: "x - 1 dvd x ^ m - (1 :: int)"
  using power_diff_1_eq [of x m] by (cases "m = 0") auto

lemma plus_one_dvd_power: "odd m \<Longrightarrow> x + 1 dvd x ^ m + (1 :: int)"
proof -
  assume m: "odd m"
  have "- x - 1 dvd (- x) ^ m - 1" by (rule minus_one_dvd_power)
  then have "- (x + 1) dvd - (x ^ m + 1)" using m by simp
  then show ?thesis by (simp only: minus_dvd_iff dvd_minus_iff)
qed

lemma square_minus_one:
  fixes a b :: int
  shows "(a + 1) * (a - 1) = a * a - 1" "193 * (a + 1) * (b * a - b) = b * (193 * (a * a - 1))"
  by (simp_all add: algebra_simps)

lemma key_product: "key_p * key_q = 2 ^ 8 * (193 * (2 ^ 4080 - 1))"
proof -
  have s: "(2 :: int) ^ 2040 * 2 ^ 2040 = 2 ^ 4080" using power_add [of "2 :: int" 2040 2040] by simp
  have "(256 :: int) = 2 ^ 8" by simp
  then show ?thesis
    unfolding key_p_def key_q_def power_2048(1) by (simp only: square_minus_one(2) s)
qed

lemma key_modulus: "key_p * key_q dvd 2 ^ 255 * (2 ^ (8160 * m) - 1)"
proof -
  have s: "(2 :: int) ^ 4080 * 2 ^ 4080 = 2 ^ 8160" using power_add [of "2 :: int" 4080 4080] by simp
  have "(193 :: int) dvd 2 ^ 48 + 1" by simp
  also have "\<dots> dvd (2 ^ 48) ^ 85 + 1" by (rule plus_one_dvd_power) simp
  also have "(2 ^ 48) ^ 85 = (2 :: int) ^ 4080" using power_mult [of "2 :: int" 48 85] by simp
  finally have "193 dvd (2 :: int) ^ 4080 + 1" .
  then have "193 * (2 ^ 4080 - 1) dvd (2 ^ 4080 + 1) * (2 ^ 4080 - (1 :: int))" by (rule mult_dvd_mono) (rule dvd_refl)
  also have "(2 ^ 4080 + 1) * (2 ^ 4080 - (1 :: int)) = 2 ^ 8160 - 1" by (simp only: square_minus_one(1) s)
  also have "\<dots> dvd (2 ^ 8160) ^ m - 1" by (rule minus_one_dvd_power)
  finally have "193 * (2 ^ 4080 - 1) dvd (2 :: int) ^ (8160 * m) - 1" by (simp only: power_mult)
  moreover have "(2 :: int) ^ 8 dvd 2 ^ 255" by (rule le_imp_power_dvd) simp
  ultimately show ?thesis unfolding key_product by (intro mult_dvd_mono)
qed

lemma key_large: "2 ^ 2047 < key_p * key_q"
proof -
  have "(0 :: int) < 2 ^ 2047" by simp
  with key_bounds have "0 < key_p" "1 \<le> key_q" by linarith+
  then have "key_p * 1 \<le> key_p * key_q" by (intro mult_left_mono) simp_all
  with key_bounds(5) show ?thesis by linarith
qed

lemma key_encrypts: "RSA_Encrypt key_env (2 ^ 255) key_public = 2 ^ 765"
proof -
  have "(2 :: int) ^ 765 < 2 ^ 2047" by (rule power_strict_increasing) simp_all
  then have "2 ^ 765 < key_p * key_q" using key_large by linarith
  moreover have "((2 :: int) ^ 255) ^ 3 = 2 ^ 765" using power_mult [of "2 :: int" 255 3] by simp
  moreover have "0 < key_p * key_q" using key_large by (rule less_trans [rotated]) simp
  moreover from calculation have "2 ^ 765 mod (key_p * key_q) = 2 ^ 765" by (intro mod_pos_pos_trivial) simp_all
  ultimately show ?thesis
    by (simp only: RSA_Encrypt_def key_public_def rsa_public_key.select_convs material.mpz_powm_pos nat_numeral
        zero_le_numeral)
qed

lemma key_decrypts: "RSA_Decrypt key_env (2 ^ 765) key_private = 2 ^ 255"
proof -
  let ?n = "key_p * key_q"
  obtain j where j: "0 < j" "3 * key_d = 1 + 64 * j" using key_d(1) by blast
  then have d: "0 \<le> key_d" "3 * nat key_d = 1 + 64 * nat j" by linarith+
  have "((2 :: int) ^ 765) ^ nat key_d = 2 ^ (765 * nat key_d)" by (rule power_mult [symmetric])
  also have "765 * nat key_d = 255 * (3 * nat key_d)" by simp
  also have "\<dots> = 255 + 8160 * (2 * nat j)" unfolding d(2) by simp
  finally have e: "((2 :: int) ^ 765) ^ nat key_d = 2 ^ 255 * (2 ^ (8160 * (2 * nat j)) - 1) + 2 ^ 255"
    by (simp only: power_add right_diff_distrib)
  have "(2 :: int) ^ 255 < 2 ^ 2047" by (rule power_strict_increasing) simp_all
  then have s: "2 ^ 255 mod ?n = 2 ^ 255" using key_large by (intro mod_pos_pos_trivial) (simp, linarith)
  obtain c where c: "2 ^ 255 * (2 ^ (8160 * (2 * nat j)) - 1) = ?n * c" using key_modulus by blast
  have "0 < ?n" using key_large by (rule less_trans [rotated]) simp
  then have "RSA_Decrypt key_env (2 ^ 765) key_private = ((2 :: int) ^ 765) ^ nat key_d mod ?n"
    by (simp only: RSA_Decrypt_def key_private_def rsa_private_key.select_convs material.mpz_powm_pos d(1))
  also have "\<dots> = 2 ^ 255" unfolding e c using s by (simp only: mult.commute [of ?n] mod_mult_self3)
  finally show ?thesis .
qed

section \<open>The key pair\<close>

text \<open>A device delivers the bytes of a number, most significant first.\<close>

fun bytes_of :: "nat \<Rightarrow> int \<Rightarrow> u8 list" where
  "bytes_of 0 v = []"
| "bytes_of (Suc n) v = word_of_int (v div 2 ^ (8 * n)) # bytes_of n v"

lemma length_bytes_of [simp]: "length (bytes_of n v) = n"
  by (induction n) simp_all

lemma wval_bytes_of: "wval (bytes_of n v) = v mod 2 ^ (8 * n)"
proof (induction n)
  case (Suc n)
  have "v mod (2 ^ (8 * n) * 2 ^ 8) = 2 ^ (8 * n) * (v div 2 ^ (8 * n) mod 2 ^ 8) + v mod 2 ^ (8 * n)"
    by (rule zmod_zmult2_eq) simp
  then show ?case by (simp add: Suc.IH uint_word_of_int power_add mult.commute)
qed simp

lemma sample_bytes:
  assumes v: "0 < v" "v < 2 ^ 4090"
  shows "RandomSource_uniform_bignum_o key_env old (bytes_of 512 v @ s) = (RANDOM_SOURCE_SUCCESS, v, s)"
proof -
  let ?o = "uint4096_zext_o (bytes_of 512 v)"
  have r: "range4096 = 64 * 2 ^ 4090" "(2 :: int) ^ 300 \<le> 2 ^ 4090"
    using power_add [of "2 :: int" 6 4090] power_increasing [of 300 4090 "2 :: int"]
    by (simp_all add: range4096_def UINT4096_WORD_COUNT_def)
  have "(2 :: int) ^ 4096 = range4096" by (simp add: range4096_def UINT4096_WORD_COUNT_def)
  then have w: "wval (bytes_of 512 v) = v" using v r unfolding wval_bytes_of by (intro mod_pos_pos_trivial) simp_all
  have o: "length ?o = UINT4096_WORD_COUNT" "wval ?o = v"
    using uint4096_zext_o_correct [of "bytes_of 512 v"] w v r by simp_all
  have z: "length (uint4096_zext_o []) = UINT4096_WORD_COUNT" "wval (uint4096_zext_o []) = 0"
    using uint4096_zext_o_correct [of "[]"] by simp_all
  have "\<not> uint4096_le ?o (uint4096_zext_o [])" "uint4096_lt ?o (modulus p_4)"
    using v o r z p_4_modulus by (simp_all add: uint4096_compare)
  moreover have "fread_item UINT4096_SIZE_BYTES (bytes_of 512 v @ s) = Some (bytes_of 512 v, s)"
    by (simp add: fread_item_def UINT4096_SIZE_BYTES_def)
  ultimately have "RandomSource_uniform_o (bytes_of 512 v @ s) x = (RANDOM_SOURCE_SUCCESS, ?o, s)" for x
    by (subst RandomSource_uniform_o.simps) (simp add: Let_def)
  moreover obtain x where "uint4096_zext key_env [] = Some x"
    using material.malloc_ok [of UINT4096_SIZE_BYTES] by (auto simp: uint4096_zext_def)
  ultimately show ?thesis
    using o by (simp add: RandomSource_uniform_bignum_o_def RandomSource_uniform_def import_uint4096_def
        material.mpz_import_u64_eq UINT4096_WORD_COUNT_def)
qed

text \<open>The secret is \<open>2 ^ 255\<close> modulo the order of the group.\<close>

definition key_secret :: int where
  "key_secret = unit_q * 2 ^ 3790 + 2 ^ 255"

lemma key_secret: "0 < key_secret" "key_secret < 2 ^ 4090" "fits 64 key_secret" "key_secret mod unit_q = 2 ^ 255"
proof -
  have "2 ^ 255 * 2 ^ 3790 < unit_q * 2 ^ 3790" "unit_q * 2 ^ 3790 < 2 ^ 256 * 2 ^ 3790"
    using unit_q by (intro mult_strict_right_mono; simp)+
  moreover have "(2 :: int) ^ 255 * 2 ^ 3790 = 2 ^ 4045" "(2 :: int) ^ 256 * 2 ^ 3790 = 2 ^ 4046"
    using power_add [of "2 :: int" 255 3790] power_add [of "2 :: int" 256 3790] by simp_all
  moreover have "(2 :: int) ^ 4032 \<le> 2 ^ 4045" "(2 :: int) ^ 255 \<le> 2 ^ 4045" "(2 :: int) ^ 4046 + 2 ^ 4045 < 2 ^ 4090"
    "(2 :: int) ^ 4090 \<le> 2 ^ 4096" "(0 :: int) < 2 ^ 255" by (rule power_increasing; simp)+ simp_all
  ultimately have b: "2 ^ 4032 \<le> key_secret" "key_secret < 2 ^ 4090" "key_secret < 2 ^ 4096"
    unfolding key_secret_def by linarith+
  show "0 < key_secret" using b(1) by (rule less_le_trans [rotated]) simp
  show "key_secret < 2 ^ 4090" by (rule b(2))
  have "64 * (64 - 1) = (4032 :: nat)" "64 * 64 = (4096 :: nat)" by simp_all
  then show "fits 64 key_secret" unfolding fits_def by (simp only: b zero_less_numeral)
  have "0 \<le> (2 :: int) ^ 255" by simp
  then show "key_secret mod unit_q = 2 ^ 255"
    unfolding key_secret_def using unit_q(2) by (simp only: mult.commute [of unit_q] mod_mult_self3 mod_pos_pos_trivial)
qed

text \<open>The constants of the group, reduced.\<close>

lemma key_reduced:
  "2 ^ 250 \<le> (2 ^ 250 * 2 ^ 255) mod unit_q" "(2 ^ 250 * 2 ^ 255) mod unit_q < unit_q"
  "fits 4 ((1 + full_challenge * 2 ^ 255) mod unit_q)" "full_challenge < unit_q"
proof -
  have "native_words 4 (replicate 32 1) = [72340172838076673, 72340172838076673, 72340172838076673, 72340172838076673]" by code_simp
  then show "fits 4 ((1 + full_challenge * 2 ^ 255) mod unit_q)" "full_challenge < unit_q"
    by (simp_all add: full_challenge_def fits_def unit_q_def)
qed (simp_all add: unit_q_def)

definition key_element :: int where
  "key_element = sum_elt ((2 ^ 250 * 2 ^ 255) mod unit_q)"

lemma key_element_fits: "fits 64 key_element"
  unfolding key_element_def using key_reduced(1,2) by (rule sum_elt_fits)

lemma key_powers:
  "pow_mod_p key_env sum_group (sum_elt (2 ^ 250)) key_secret = key_element"
  "pow_mod_p key_env sum_group (sum_elt (2 ^ 250)) 1 = sum_elt (2 ^ 250)"
proof -
  have p: "0 \<le> e \<Longrightarrow> pow_mod_p key_env sum_group (sum_elt a) e = sum_elt (a * e mod unit_q)" for a e
    using material.pow_mod_p_eq [OF sum_group_ok] sum_elt_power by simp
  have "2 ^ 250 * key_secret mod unit_q = 2 ^ 250 * 2 ^ 255 mod unit_q"
    unfolding key_secret(4) [symmetric] by (simp only: mod_mult_right_eq)
  then show "pow_mod_p key_env sum_group (sum_elt (2 ^ 250)) key_secret = key_element"
    using p [of key_secret "2 ^ 250"] key_secret(1) by (simp only: less_imp_le key_element_def)
  show "pow_mod_p key_env sum_group (sum_elt (2 ^ 250)) 1 = sum_elt (2 ^ 250)"
    using p [of 1 "2 ^ 250"] by (simp add: unit_q_def)
qed

lemma key_hash: "Crypto_hash_final key_env sum_group context = full_challenge"
proof -
  have "sha256 key_env context = replicate 32 1" by (simp add: key_env_def sample_env_def)
  then show ?thesis
    using full_challenge_q(1) key_reduced(4)
    by (simp add: Crypto_hash_final_def Crypto_hash_reduce_def material.mod_q_eq [OF sum_group_ok]
        HASH_DIGEST_SIZE_BYTES_def material.mpz_import_u64_eq flip: full_challenge_def)
qed

definition key_device :: "u8 list" where
  "key_device = bytes_of 512 key_secret @ replicate 31 0 @ [1]"

definition key_response :: int where
  "key_response = (1 + full_challenge * 2 ^ 255) mod unit_q"

definition key_pair :: gen_keypair_r where
  "key_pair = \<lparr>keypair_status = CRYPTO_SUCCESS,
     keypair_private = \<lparr>priv_threshold = 1, coefficients = blank_array[0 := key_secret]\<rparr>,
     keypair_public = \<lparr>pub_threshold = 1,
       pub_proof = \<lparr>proof_threshold = 1, commitments = blank_array[0 := sum_elt (2 ^ 250)], challenge = full_challenge,
                    challenge_responses = blank_array[0 := key_response]\<rparr>,
       coef_commitments = blank_array[0 := key_element]\<rparr>\<rparr>"

lemma key_pair: "Crypto_gen_keypair key_env sum_group (Some key_device) 1 base = Some key_pair"
proof -
  have b: "arr_get blank_array 0 = Some 0" "\<And>x. arr_set blank_array 0 x = Some (blank_array[0 := x])"
    "\<And>x y. arr_set (blank_array[0 := x]) 0 y = Some (blank_array[0 := y])"
    "arr_get (blank_array[0 := x]) 0 = Some x" "blank_array[0 := x] ! 0 = x" for x
    by (simp_all add: blank_array_def MAX_TRUSTEES_def)
  have q: "uint (1 :: u8) \<le> par_q sum_group" using unit_q(1) by simp
  have "full_challenge * key_secret mod unit_q = full_challenge * 2 ^ 255 mod unit_q"
    unfolding key_secret(4) [symmetric] by (simp only: mod_mult_right_eq)
  then have r: "add_mod_q key_env sum_group 1 (mul_mod_q key_env sum_group full_challenge key_secret) = key_response"
    by (simp only: material.add_mod_q_eq [OF sum_group_ok] material.mul_mod_q_eq [OF sum_group_ok] sum_sel
        mod_add_right_eq key_response_def)
  have f: "fits 64 (sum_elt (2 ^ 250))" using unit_q(2) by (intro sum_elt_fits) simp_all
  show ?thesis
    using material.hash_update_p_fits [OF key_element_fits] material.hash_update_p_fits [OF f]
      sample_bytes [OF key_secret(1,2), of 0 "replicate 31 0 @ [1]"] material.sample_byte_q [OF q, of 0 "[]"]
    by (simp add: Crypto_gen_keypair_def Crypto_private_key_init_def Crypto_public_key_new_def
        Crypto_schnorr_proof_new_def mpz_init_n_blank material.source_new MAX_TRUSTEES_def key_device_def
        gen_coefficients_step_def gen_commitments_step_def b Let_def keypair_result_def gen_responses_def
        Crypto_RandomSource_status_convert_def key_hash key_powers r key_pair_def del: bytes_of.simps power_numeral)
qed

lemma key_pair_ok: "public_key_ok sum_group (keypair_public key_pair)" "private_key_ok (keypair_private key_pair)"
proof -
  have "fits 64 (sum_elt (2 ^ 250))" using unit_q(2) by (intro sum_elt_fits) simp_all
  then show "public_key_ok sum_group (keypair_public key_pair)" "private_key_ok (keypair_private key_pair)"
    using full_challenge(1) key_reduced(3,4) key_element_fits key_secret(3)
    by (simp_all add: public_key_ok_def private_key_ok_def schnorr_proof_ok_def array_ok_def hash_ok_def key_pair_def
        blank_array_def MAX_TRUSTEES_def key_response_def eval_nat_numeral del: power_numeral)
qed

end
