(* ===== verification/ApiCreateClaims.thy ===== *)
theory ApiCreateClaims
  imports ApiCreateProofs KeyMaterial
begin

text \<open>The properties of the call that creates an election, and of the shares its trustees exchange.\<close>

section \<open>The whole ceremony\<close>

text \<open>C2: The whole key ceremony behind one call. When the random devices deliver key pairs and RSA keys whose
  numbers have the width of their fields, \<open>API_CreateElection\<close> returns \<open>true\<close>; the joint key it leaves in the
  configuration is the generator raised to the sum of the secrets of all trustees; and the exported state of
  each trustee holds what the trustees need for decrypting with the trustees of any set \<open>S\<close>: its own secret
  and, encrypted, its shares of the secrets of all the others.\<close>

theorem create_election_correct:
  fixes G :: params and n t :: u32
  defines "key kp \<equiv> (\<Sum>i < unat n. coefficients (secrets_of n kp ! i) ! 0)"
  assumes "platform_mem E" "group_ok G" "valid_params n t"
    and "cfg_num_trustees config = n" "cfg_threshold config = t"
    and "keys_made E G key_dev rsa_dev config kp rsk rpk"
    and "\<forall>i < unat n. trustee_memory (fresh i)" "length (cr_trustees s) = MAX_TRUSTEES"
    and "unat n \<le> length states" "fits 64 (pow_mod_p E G (generator G) (key kp))"
  shows "\<exists>reps. API_CreateElection E G fresh key_dev rsa_dev config states s =
    Some (True, config\<lparr>cfg_joint_key := bytes_message (enc_joint_public_key
        \<lparr>joint_num_trustees = n, joint_key = pow_mod_p E G (generator G) (key kp)\<rparr>)\<rparr>,
      map (\<lambda>i. bytes_message (enc_trustee_state (unat n) (reps i))) [0..<unat n] @ drop (unat n) states,
      \<lparr>cr_coordinator = Dangling, cr_trustees = replicate (unat n) Dangling @ drop (unat n) (cr_trustees s)\<rparr>) \<and>
    (\<forall>i < unat n. ts_index (reps i) = word_of_nat i \<and> (\<forall>S. holds_state E G (secrets_of n kp) n t S (reps i)))"
  using create_election_run [OF assms(2-10)] assms(11) unfolding key_def by blast

text \<open>One trustee, with the keys of the instance.\<close>

definition key_config :: api_config where
  "key_config = \<lparr>cfg_num_selections = 1, cfg_num_trustees = 1, cfg_threshold = 1, cfg_subgroup_order = 0,
     cfg_election_meta = [], cfg_joint_key = null_message\<rparr>"

definition key_memory :: KeyCeremony_Trustee where
  "key_memory = \<lparr>kt_num_trustees = 0, kt_threshold = 0, kt_index = 0,
     kt_private_key = \<lparr>priv_threshold = 0, coefficients = blank_array\<rparr>,
     kt_public_keys = replicate MAX_TRUSTEES blank_public_key,
     kt_rsa_public_keys = replicate MAX_TRUSTEES \<lparr>pub_n = 0, pub_e = 0\<rparr>,
     kt_rsa_private_key = \<lparr>rsa_n = 0, rsa_e = 0, rsa_d = 0, rsa_p = 0, rsa_q = 0\<rparr>,
     kt_rsa_public_key = \<lparr>pub_n = 0, pub_e = 0\<rparr>, kt_my_key_shares = blank_array\<rparr>"

lemma key_memory: "trustee_memory key_memory"
  by (simp add: trustee_memory_def key_memory_def private_key_shape_def public_key_shape_def blank_public_key_def
      blank_proof_def schnorr_proof_shape_def blank_array_def list_all_length)

lemma key_share: "share_value sum_group (secrets_of 1 (\<lambda>_. key_pair)) (Suc 0) i 0 = 2 ^ 255"
  using key_secret(4)
  by (simp add: share_value_def secrets_of_def key_pair_def polynomial_at_def blank_array_def MAX_TRUSTEES_def)

lemma key_pair_status: "keypair_status key_pair = CRYPTO_SUCCESS"
  by (simp add: key_pair_def)

lemma key_made: "keys_made key_env sum_group (\<lambda>_. Some key_device) (\<lambda>_. Some full_rsa_device) key_config
  (\<lambda>_. key_pair) (\<lambda>_. key_private) (\<lambda>_. key_public)"
proof -
  have "fits 12 (2 ^ 765)" by (simp add: fits_def)
  then have "rsa_share_ok key_env (2 ^ 255) key_private key_public"
    by (simp only: rsa_share_ok_def key_encrypts key_decrypts)
  then show ?thesis
    using key_pair key_pair_ok key_generated key_public_ok key_private_ok key_pair_status
    by (simp add: keys_made_def key_config_def key_share del: power_numeral)
qed

lemma key_sum: "(\<Sum>i < unat (1 :: u32). coefficients (secrets_of 1 (\<lambda>_. key_pair) ! i) ! 0) = key_secret"
  by (simp add: secrets_of_def key_pair_def blank_array_def MAX_TRUSTEES_def)

lemma key_config [simp]: "cfg_num_trustees key_config = 1" "cfg_threshold key_config = 1" "valid_params 1 1"
  by (simp_all add: key_config_def valid_params_def MAX_TRUSTEES_def)

theorem create_election_correct_witness:
  "\<exists>rep. API_CreateElection key_env sum_group (\<lambda>_. key_memory) (\<lambda>_. Some key_device) (\<lambda>_. Some full_rsa_device)
      key_config [null_message] initial_create =
    Some (True, key_config\<lparr>cfg_joint_key := bytes_message (enc_joint_public_key
        \<lparr>joint_num_trustees = 1, joint_key = key_element\<rparr>)\<rparr>,
      [bytes_message (enc_trustee_state 1 rep)],
      \<lparr>cr_coordinator = Dangling, cr_trustees = Dangling # replicate 4 Null\<rparr>) \<and>
    holds_state key_env sum_group [keypair_private key_pair] 1 1 [0] rep"
proof -
  have "secrets_of 1 (\<lambda>_. key_pair) = [keypair_private key_pair]" by (simp add: secrets_of_def)
  then show ?thesis
    using create_election_correct [OF material.platform_mem_axioms sum_group_ok key_config(3,1,2) key_made, of "\<lambda>_. key_memory"
        initial_create "[null_message]", unfolded key_sum] key_memory key_powers(1) key_element_fits
    by (auto simp: initial_create_def MAX_TRUSTEES_def eval_nat_numeral)
qed

section \<open>The pointers a call leaves behind\<close>

text \<open>Once the pointer to the coordinator is set it is never null again, and freeing it leaves it dangling.\<close>

lemma ceremony_step_not_null:
  "ceremony_step act receive i (ok, s) = Some (ok', s') \<Longrightarrow> cr_coordinator s \<noteq> Null \<Longrightarrow> cr_coordinator s' \<noteq> Null"
  by (auto simp: ceremony_step_def bind_eq_Some_conv Let_def split: if_splits)

lemma ceremony_loop_not_null:
  "loop n (ceremony_step act receive) (ok, s) = Some (ok', s') \<Longrightarrow> cr_coordinator s \<noteq> Null \<Longrightarrow> cr_coordinator s' \<noteq> Null"
proof (induction n arbitrary: ok' s')
  case (Suc n)
  then obtain p where p: "loop n (ceremony_step act receive) (ok, s) = Some p"
    "ceremony_step act receive n p = Some (ok', s')"
    by (auto simp del: split_paired_Ex simp: bind_eq_Some_conv)
  obtain ok1 s1 where "p = (ok1, s1)" by (cases p)
  with p Suc show ?case by (blast dest: ceremony_step_not_null)
qed simp

lemma initialize_trustees_coordinator:
  assumes "create_initialize_trustees E fresh config s = Some (ok, s')"
  shows "cr_coordinator s' = cr_coordinator s"
proof -
  let ?f = "\<lambda>i (ok, s).
       if \<not> ok then Some (ok, s)
       else do {
         (status, t) \<leftarrow> KeyCeremony_Trustee_new E (fresh i) (cfg_num_trustees config) (cfg_threshold config) (word_of_nat i);
         if status \<noteq> KEYCEREMONY_TRUSTEE_SUCCESS then Some (False, s)
         else do {
           t \<leftarrow> t;
           ts \<leftarrow> arr_set (cr_trustees s) i (Live t);
           Some (ok, s\<lparr>cr_trustees := ts\<rparr>) } }"
  have step: "?f i (ok, s) = Some (ok', s') \<Longrightarrow> cr_coordinator s' = cr_coordinator s" for i ok s ok' s'
    by (auto simp: bind_eq_Some_conv split: if_splits)
  have "loop n ?f (True, s) = Some (ok, s') \<Longrightarrow> cr_coordinator s' = cr_coordinator s" for n
  proof (induction n arbitrary: ok s')
    case (Suc n)
    then obtain p where p: "loop n ?f (True, s) = Some p" "?f n p = Some (ok, s')"
      by (auto simp del: split_paired_Ex split_paired_All simp: bind_eq_Some_conv)
    obtain ok1 s1 where "p = (ok1, s1)" by (cases p)
    with p Suc.IH [of ok1 s1] step [of n ok1 s1 ok s'] show ?case by simp
  qed simp
  with assms show ?thesis unfolding create_initialize_trustees_def by blast
qed

lemma ceremony_message_coordinator:
  "ceremony_message announce s = Some (m, s') \<Longrightarrow> cr_coordinator s' \<noteq> Null"
  by (auto simp: ceremony_message_def bind_eq_Some_conv)

lemma cleanup_dangles:
  "create_cleanup config s = Some s' \<Longrightarrow> cr_coordinator s \<noteq> Null \<Longrightarrow> cr_coordinator s' = Dangling"
  by (cases "cr_coordinator s") (auto simp: create_cleanup_def bind_eq_Some_conv)

lemma create_election_dangles:
  assumes "platform_mem E" "valid_params (cfg_num_trustees config) (cfg_threshold config)"
    and call: "API_CreateElection E G fresh key_dev rsa_dev config states s = Some (ok, config', states', s')"
  shows "cr_coordinator s' = Dangling"
proof -
  obtain blk where blk: "malloc E 1936 = Some blk" using platform_mem.malloc_ok [OF assms(1)] by blast
  obtain c where c: "create_initialize_coordinator E config s = Some (True, s\<lparr>cr_coordinator := Live c\<rparr>)"
    using new_total [OF blk assms(2)] by (auto simp: create_initialize_coordinator_def)
  note call = call [unfolded API_CreateElection_def c Option.bind.simps prod.case if_True Let_def]
  from call obtain ok1 s1 where 1: "create_initialize_trustees E fresh config (s\<lparr>cr_coordinator := Live c\<rparr>) = Some (ok1, s1)"
    by (auto simp: bind_eq_Some_conv)
  note call = call [unfolded 1 Option.bind.simps prod.case]
  from call obtain ok2 s2 where 2: "(if ok1 then create_generate_keys E G key_dev rsa_dev config s1 else Some (ok1, s1)) = Some (ok2, s2)"
    by (auto simp only: bind_eq_Some_conv)
  note call = call [unfolded 2 Option.bind.simps prod.case]
  from call obtain m3 s3 where 3: "(if ok2 then create_receive_keys E s2 else Some (null_message, s2)) = Some (m3, s3)"
    by (auto simp only: bind_eq_Some_conv)
  note call = call [unfolded 3 Option.bind.simps prod.case]
  from call obtain ok4 s4 where 4: "(if ok2 \<and> msg_bytes m3 \<noteq> None then create_generate_shares E G config m3 s3
      else Some (ok2 \<and> msg_bytes m3 \<noteq> None, s3)) = Some (ok4, s4)"
    by (auto simp only: bind_eq_Some_conv)
  note call = call [unfolded 4 Option.bind.simps prod.case]
  from call obtain m5 s5 where 5: "(if ok4 then create_receive_shares E s4 else Some (null_message, s4)) = Some (m5, s5)"
    by (auto simp only: bind_eq_Some_conv)
  note call = call [unfolded 5 Option.bind.simps prod.case]
  from call obtain ok6 s6 where 6: "(if ok4 \<and> msg_bytes m5 \<noteq> None then create_verify_shares E G config m5 s5
      else Some (ok4 \<and> msg_bytes m5 \<noteq> None, s5)) = Some (ok6, s6)"
    by (auto simp only: bind_eq_Some_conv)
  note call = call [unfolded 6 Option.bind.simps prod.case]
  obtain config'' where "create_cleanup config'' s6 = Some s'"
    using call by (auto simp only: bind_eq_Some_conv prod.case option.inject prod.inject)
  moreover have "cr_coordinator s1 \<noteq> Null" using initialize_trustees_coordinator [OF 1] by simp
  then have "cr_coordinator s2 \<noteq> Null" using 2 ceremony_loop_not_null unfolding create_generate_keys_def by (auto split: if_splits)
  then have "cr_coordinator s3 \<noteq> Null" using 3 ceremony_message_coordinator unfolding create_receive_keys_def by (auto split: if_splits)
  then have "cr_coordinator s4 \<noteq> Null" using 4 ceremony_loop_not_null unfolding create_generate_shares_def by (auto split: if_splits)
  then have "cr_coordinator s5 \<noteq> Null" using 5 ceremony_message_coordinator unfolding create_receive_shares_def by (auto split: if_splits)
  then have "cr_coordinator s6 \<noteq> Null" using 6 ceremony_loop_not_null unfolding create_verify_shares_def by (auto split: if_splits)
  ultimately show ?thesis by (rule cleanup_dangles)
qed

text \<open>C26: The static pointers are not reset. Whatever a call with valid parameters returned, a later call that is
  refused because its parameters are invalid frees the coordinator of the first call once more: its behaviour is
  undefined.\<close>

theorem refused_create_undefined:
  assumes "platform_mem E" "valid_params (cfg_num_trustees config) (cfg_threshold config)"
    and "API_CreateElection E G fresh key_dev rsa_dev config states s = Some (ok, config', states', s')"
    and "\<not> valid_params (cfg_num_trustees config2) (cfg_threshold config2)"
  shows "API_CreateElection E G fresh2 key_dev2 rsa_dev2 config2 states2 s' = None"
proof -
  have "cr_coordinator s' = Dangling" using assms(1-3) by (rule create_election_dangles)
  then have "create_cleanup config2 s' = None"
    by (cases "for_array (unat (cfg_num_trustees config2)) (\<lambda>_. free_pointer) (cr_trustees s')") (simp_all add: create_cleanup_def)
  then show ?thesis
    using assms(4) by (simp add: API_CreateElection_def create_initialize_coordinator_def KeyCeremony_Coordinator_new_def
        null_message_def Let_def)
qed

lemma key_election: "\<exists>config' states' s'. API_CreateElection key_env sum_group (\<lambda>_. key_memory) (\<lambda>_. Some key_device)
    (\<lambda>_. Some full_rsa_device) key_config [null_message] initial_create = Some (True, config', states', s')"
  using create_election_run [OF material.platform_mem_axioms sum_group_ok key_config(3,1,2) key_made, of "\<lambda>_. key_memory"
      initial_create "[null_message]", unfolded key_sum] key_memory key_powers(1) key_element_fits
  by (auto simp: initial_create_def MAX_TRUSTEES_def)

theorem refused_create_undefined_witness:
  "\<exists>config' states' s'. API_CreateElection key_env sum_group (\<lambda>_. key_memory) (\<lambda>_. Some key_device)
      (\<lambda>_. Some full_rsa_device) key_config [null_message] initial_create = Some (True, config', states', s') \<and>
    API_CreateElection key_env sum_group (\<lambda>_. key_memory) (\<lambda>_. Some key_device) (\<lambda>_. Some full_rsa_device)
      (key_config\<lparr>cfg_threshold := 2\<rparr>) [null_message] s' = None"
proof -
  obtain config' states' s' where call: "API_CreateElection key_env sum_group (\<lambda>_. key_memory) (\<lambda>_. Some key_device)
      (\<lambda>_. Some full_rsa_device) key_config [null_message] initial_create = Some (True, config', states', s')"
    using key_election by blast
  have "\<not> valid_params (cfg_num_trustees (key_config\<lparr>cfg_threshold := 2\<rparr>)) (cfg_threshold (key_config\<lparr>cfg_threshold := 2\<rparr>))"
    by (simp add: valid_params_def MAX_TRUSTEES_def word_le_def)
  then show ?thesis
    using call refused_create_undefined [OF material.platform_mem_axioms _ call] by auto
qed

section \<open>Too few trustees for a tally\<close>

text \<open>C25: A tally that fails before the coordinator has answered looks at an array of requests that was never
  written: with fewer decrypting trustees than the threshold, or with invalid parameters, the behaviour of
  \<open>API_TallyVotes\<close> is undefined and not \<open>false\<close>.\<close>

theorem early_tally_failure_undefined:
  assumes "0 < cfg_num_trustees config"
    and "num < cfg_threshold config \<or> \<not> valid_params (cfg_num_trustees config) (cfg_threshold config)"
  shows "API_TallyVotes E G share_dev fragment_dev config states num ballots path prefix results fs s = None"
proof (cases "tally_initialize_coordinator E config (ta_coordinator s)")
  case (Some r)
  obtain ok c where r: "r = (ok, c)" by (cases r)
  have "\<not> ok \<or> num < cfg_threshold config"
    using Some r assms(2) by (auto simp: tally_initialize_coordinator_def Decryption_Coordinator_new_def)
  then show ?thesis
    using Some r assms(1) by (auto simp: API_TallyVotes_def tally_initialize_trustees_def tally_cleanup_def)
qed (simp add: API_TallyVotes_def)

theorem early_tally_failure_undefined_witness:
  "API_TallyVotes ref_env sum_group (\<lambda>_ _. None) (\<lambda>_ _ _. None) (key_config\<lparr>cfg_num_trustees := 3, cfg_threshold := 2\<rparr>)
     [null_message] 1 [] [] [] []
     \<lparr>fs_files = (\<lambda>_. None), fs_dirs = [], fs_denied = [], fs_room = 0, fs_time = 0\<rparr> initial_tally = None"
  by (rule early_tally_failure_undefined) (simp_all add: key_config_def)

section \<open>Shares are cubes\<close>

text \<open>C24: The shares of a secret are encrypted without padding and with the exponent 3: for a group whose order has
  at most 256 bits and a modulus of more than 768 bits the encrypted share is the cube of the share as an
  integer, and so determines it without the private key.\<close>

theorem key_share_is_cube:
  fixes index :: u32
  assumes "platform E" "group_ok G" "unat (priv_threshold priv) \<le> length (coefficients priv)"
    and "par_q G \<le> 2 ^ 256" "2 ^ 768 \<le> pub_n rpk" "pub_e rpk = 3"
  defines "v \<equiv> polynomial_at (coefficients priv) (unat (priv_threshold priv)) (uint (index + 1)) mod par_q G"
  shows "Crypto_create_encrypted_key_share E G rpk priv index = Some (v ^ 3) \<and>
    (\<forall>w. 0 \<le> w \<and> w ^ 3 = v ^ 3 \<longrightarrow> w = v)"
proof -
  have q: "0 < par_q G" using assms(2) by (rule group_okD(4))
  have v: "0 \<le> v" "v < 2 ^ 256"
    unfolding v_def by (rule pos_mod_sign [OF q], rule less_le_trans [OF pos_mod_bound [OF q] assms(4)])
  then have "v ^ 3 < (2 ^ 256) ^ 3" by (intro power_strict_mono) simp_all
  also have "((2 :: int) ^ 256) ^ 3 = 2 ^ 768" by (simp only: power_mult [symmetric]) simp
  finally have "v ^ 3 mod pub_n rpk = v ^ 3" using assms(5) v(1) by (intro mod_pos_pos_trivial) simp_all
  moreover have "0 < pub_n rpk" using assms(5) by (rule less_le_trans [rotated]) simp
  ultimately have "RSA_Encrypt E v rpk = v ^ 3"
    using assms(6) platform.mpz_powm_pos [OF assms(1)] by (simp add: RSA_Encrypt_def)
  moreover have "\<forall>w. 0 \<le> w \<and> w ^ 3 = v ^ 3 \<longrightarrow> w = v" using v(1) power_eq_imp_eq_base [of _ 3 v] by auto
  ultimately show ?thesis
    using platform.computeTrusteePolynomial_eq [OF assms(1-3)] by (simp add: Crypto_create_encrypted_key_share_def v_def)
qed

theorem key_share_is_cube_witness:
  "Crypto_create_encrypted_key_share key_env sum_group key_public (keypair_private key_pair) 0 = Some ((2 ^ 255) ^ 3) \<and>
    {w. 0 \<le> w \<and> w ^ 3 = ((2 :: int) ^ 255) ^ 3} = {2 ^ 255}"
proof -
  have v: "polynomial_at (coefficients (keypair_private key_pair)) (unat (priv_threshold (keypair_private key_pair)))
      (uint (0 + 1 :: u32)) mod par_q sum_group = 2 ^ 255"
    using key_secret(4) by (simp add: key_pair_def polynomial_at_def blank_array_def MAX_TRUSTEES_def)
  have "(2 :: int) ^ 768 \<le> 2 ^ 2047" by (rule power_increasing) simp_all
  then have "2 ^ 768 \<le> pub_n key_public" using key_large by (simp only: key_public_def rsa_public_key.select_convs)
  moreover have "unat (priv_threshold (keypair_private key_pair)) \<le> length (coefficients (keypair_private key_pair))"
    by (simp add: key_pair_def blank_array_def MAX_TRUSTEES_def)
  moreover have "par_q sum_group \<le> 2 ^ 256" "pub_e key_public = 3" using unit_q(3) by (simp_all add: key_public_def)
  ultimately have "Crypto_create_encrypted_key_share key_env sum_group key_public (keypair_private key_pair) 0 = Some ((2 ^ 255) ^ 3) \<and>
    (\<forall>w. 0 \<le> w \<and> w ^ 3 = ((2 :: int) ^ 255) ^ 3 \<longrightarrow> w = 2 ^ 255)"
    using key_share_is_cube [OF material.platform_axioms sum_group_ok, of "keypair_private key_pair" key_public 0, unfolded v]
    by blast
  moreover have "0 \<le> (2 :: int) ^ 255" by simp
  ultimately show ?thesis by blast
qed

end
