(* ===== verification/Spec2Isabelle.thy ===== *)
theory Spec2Isabelle
  imports Sha256Claims SerializeClaims KeyCeremonyClaims KeyExchange DecryptionClaims VotingClaims RecordClaims
    ApiTallyClaims ApiVoting ApiCreateClaims
begin

text \<open>
  A verification development for the ElectionGuard C library (\<open>src/src/electionguard\<close>,
  \<open>src/include/electionguard\<close>).

  \<^bold>\<open>The program.\<close> Trustees make a joint ElGamal key in a key ceremony (\<open>keyceremony/\<close>), each with a
  polynomial whose values are shared among the others, so that a threshold of them can later do without the
  rest. Voters' selections are encrypted with proofs (\<open>voting/encrypter.c\<close>), registered and then cast or
  spoiled with a coordinator that exports them to a file (\<open>voting/coordinator.c\<close>). The trustees multiply the
  cast ballots of the file, decrypt their parts of the products, compensate for missing trustees by
  interpolation in the exponent, and the decryption coordinator finds the logarithms (\<open>decryption/\<close>).
  Everything that passes between these parties is a message of bytes (\<open>serialize/\<close>). Below them lie the
  cryptography (\<open>crypto.c\<close>, \<open>rsa.c\<close>, \<open>random_source.c\<close>, \<open>bignum.c\<close> over GMP, \<open>sha2-openbsd.c\<close>), a 4096-bit
  arithmetic that is not used by them any more (\<open>uint4096.c\<close>) and a table with chained buckets (\<open>uthash.h\<close>).
  Above them lies an interface of a few calls (\<open>api/\<close>) that create an election, encrypt, load and record ballots
  and tally them; it keeps the components in static variables and passes their messages on.

  \<^bold>\<open>Conventions.\<close> A C function is a HOL function of the same name. Structures are records, enumerations are
  datatypes, machine integers are words of their width, numbers of GMP are integers. What the code mutates is
  an argument and part of the result. A result \<open>None\<close> is undefined behaviour, an abort, or a loop without end:
  an access out of bounds, a null or dangling pointer, memory read before it was written. Status codes are
  ordinary values, so that every early return is a branch. \<open>malloc\<close> and the functions of GMP are fields of an
  environment \<open>E\<close>; the locale \<open>platform\<close> states what the code relies on of their documentation (\<open>mpz_mod\<close>,
  \<open>mpz_powm\<close>, \<open>mpz_invert\<close>, the order of words in \<open>mpz_export\<close>), and \<open>platform_mem\<close> adds that memory does not
  run out; \<open>ref_env\<close> is a computed instance of both. The group parameters, which the code reads from constants,
  are an argument \<open>G\<close>; \<open>group_ok\<close> says that the generator has order dividing \<open>q\<close> modulo \<open>p\<close>. A random device is
  the list of bytes it delivers, a file is the text behind the position and, for writing, the room that is left.

  \<^bold>\<open>The theories.\<close>
  \<^item> \<open>Prelude\<close>: words, arrays, counted loops, slices, the number a list of words denotes. \<open>Platform\<close>: the
    environment. \<open>Stdio\<close>, \<open>Decimal\<close>, \<open>Files\<close>: \<open>fprintf\<close> and \<open>fscanf\<close> for the formats that occur.
  \<^item> \<open>Uint4096\<close>, \<open>Uint4096_Mod\<close> (\<open>uint4096.c\<close>): Karatsuba multiplication, Barrett reduction, square and multiply,
    hexadecimal text. Products, residues and powers are those of the integers under the conditions stated;
    the stored default modulus does not meet them.
  \<^item> \<open>Sha256\<close>, \<open>Sha256Proofs\<close>, \<open>Sha256Claims\<close> (\<open>sha2-openbsd.c\<close>): the streaming hash equals the one of the standard
    however a message is cut, its constants are the roots they should be, and the environment with it is
    one of those the other theories speak of, where a context is the list of bytes it was updated with.
  \<^item> \<open>Bignum\<close>, \<open>NumberFacts\<close>, \<open>RandomSource\<close>, \<open>Rsa\<close>, \<open>Crypto\<close>, \<open>CryptoProofs\<close>, \<open>CryptoClaims\<close>: modular arithmetic,
    keys, encryption, the zero-knowledge proofs. Honest proofs are accepted; two proofs with one commitment
    reveal the secret; but checks that do not recompute the challenge accept made-up proofs.
  \<^item> \<open>Serialize\<close>, \<open>CryptoTypes\<close>, \<open>SerializeCrypto\<close>, \<open>SerializeMessages\<close>, \<open>Protocol\<close>, \<open>SerializeClaims\<close>: reserve,
    write and read. The locale \<open>codec\<close> states that a writer fills exactly the bytes reserved and a reader takes
    them back; it is interpreted for each message, and composed field by field.
  \<^item> \<open>KeyCeremonyCoordinator\<close>, \<open>KeyCeremonyTrustee\<close>, \<open>KeyExample\<close>, \<open>KeyExchange\<close>, \<open>KeyCeremonyClaims\<close>: the coordinator
    refines an abstract barrier (each trustee is heard once per phase, a phase ends when all were heard), with
    an invariant of the reachable states; what trustees send is accepted, and shares are verified.
  \<^item> \<open>DecryptionTrustee\<close>, \<open>DecryptionCoordinator\<close>, \<open>Lagrange\<close>, \<open>DecryptionProofs\<close>, \<open>Threshold\<close>, \<open>DecryptionRun\<close>,
    \<open>Printing\<close>, \<open>DecryptionClaims\<close>: announcing, requesting and compensating. With a threshold of trustees, each
    tally ends with its nonce raised to the sum of all secrets, and the numbers found are those encrypted.
  \<^item> \<open>UTHash\<close>, \<open>UTHashProofs\<close>, \<open>BallotCollection\<close>, \<open>BallotCollectionProofs\<close> (\<open>uthash.h\<close>, \<open>voting/ballot_collection.c\<close>):
    Jenkins' hash, chains, expansion of the buckets; as a map, find after add and delete, in every state.
  \<^item> \<open>Nouns\<close>, \<open>NounFacts\<close>, \<open>Tracker\<close> (\<open>voting/nouns.c\<close>, \<open>voting/tracker.c\<close>): the words and how a digest is shown.
  \<^item> \<open>VotingEncrypter\<close>, \<open>EncrypterProofs\<close>, \<open>EncrypterClaims\<close>: a ballot that is returned encrypts what was selected.
  \<^item> \<open>VotingCoordinator\<close>, \<open>VotingRecord\<close>, \<open>VotingProofs\<close>, \<open>VotingExport\<close>, \<open>LaterExport\<close>, \<open>VotingExample\<close>, \<open>VotingClaims\<close>:
    a ballot is decided once; the buffer and its export; what trustees read from the file.
  \<^item> \<open>ExampleGroup\<close>, \<open>Election\<close>, \<open>RecordClaims\<close>: voters, encrypter, coordinator, file and trustee together: the
    tallies encrypt the sums over the ballots that were cast.
  \<^item> \<open>ApiFiles\<close> (\<open>filename.c\<close>, \<open>directory.c\<close>), \<open>ApiTally\<close>, \<open>ApiVoting\<close>, \<open>ApiCreate\<close> (\<open>api/\<close>): the calls of the interface, with
    the static variables as a state and the file system as a map from names to texts. A static pointer that is
    freed and not reset is \<open>Dangling\<close>.
  \<^item> \<open>ApiTallyProofs\<close>, \<open>WideGroup\<close>, \<open>ApiTallyClaims\<close>: \<open>API_TallyVotes\<close> with the states of a threshold of trustees
    returns the numbers of votes and writes the file of results.
  \<^item> \<open>KeyRun\<close>, \<open>ApiCreateProofs\<close>, \<open>KeyMaterial\<close>, \<open>ApiCreateClaims\<close>: \<open>API_CreateElection\<close> runs the ceremony to its end,
    and each exported state is one that a tally can be decrypted with (\<open>holds_state\<close>, the hypothesis of the
    theorem on \<open>API_TallyVotes\<close>). \<open>KeyMaterial\<close> is an instance: the keys of its trustee have the width of their
    fields, and its RSA modulus, which is no product of primes, decrypts the one share that is sent.

  \<^bold>\<open>Bounds and termination.\<close> Loops are counted or structural, or shown to end by a measure. Those that may not end are
  partial functions into options, for which not ending is \<open>None\<close>: the discrete logarithm (\<open>log_generator_loop\<close>), which is shown
  to end with the least exponent when there is one and, but for one argument, not to end otherwise; the corrections of the Barrett reduction (\<open>uint8192_mod_loop\<close>), which run at most
  once with an exact reciprocal; \<open>uint4096_logmod_loop\<close>; and the searches for primes (\<open>rsa_skip_primes\<close>,
  \<open>rsa_select_q_loop\<close>), about which the theorems say what a key pair is when they end. The
  expansion of buckets assumes that their number stays below \<open>2^32\<close> (\<open>can_grow\<close>), which 10^6 ballots keep by far.
  A number modulo \<open>p\<close> is hashed and sent in 64 words; \<open>fits 64\<close> says that it takes no fewer, since the code then
  hashes memory it has not written.

  \<^bold>\<open>Not modelled.\<close> \<open>free\<close> and the clearing of memory (\<open>secure_zero_memory.c\<close>), except where something is used or freed
  after it was freed. Debug output. The variants of \<open>filename.c\<close> and \<open>directory.c\<close> for other platforms. The unused macros of
  \<open>uthash.h\<close> and the SHA-384 and SHA-512 parts of \<open>sha2-openbsd.c\<close>. Example and test programs. The order of the real group
  constants, which would need a proof of primality of 4096-bit numbers.
\<close>

end
